(* ===== verification/Prelude.thy ===== *)
theory Prelude
  imports Main "HOL-Library.Word" "HOL-Library.List_Lexorder"
    "HOL-Library.Sublist"
begin

unbundle bit_operations_syntax

section \<open>Prelude: machine types, errors, byte encodings\<close>

text \<open>
  What every component of the model shares: the fixed-width integer types of the C++ code,
  the errors it can raise as values, the outcome type of the parsers (a value, the code's
  \<open>std::nullopt\<close>, or an exception), and the little-endian encodings that all serializers
  write byte by byte. Sums of \<open>uint64_t\<close> amounts wrap; the lemmas on \<open>wsum\<close> say when
  they do not.
\<close>

named_theorems bytes_simps \<open>lengths and read-after-write equations of the byte encoders\<close>
named_theorems parse_simps \<open>parser-after-serializer equations\<close>
named_theorems field_simps_of_state \<open>frame equations of state-changing operations\<close>

type_synonym u8 = "8 word"
type_synonym u32 = "32 word"
type_synonym u64 = "64 word"
type_synonym bytes = "u8 list"

abbreviation (input) UINT64_MAX :: u64 where "UINT64_MAX \<equiv> 18446744073709551615"

subsection \<open>Errors and outcomes\<close>

text \<open>
  The exceptions of the modelled code: \<open>std::overflow_error\<close>, \<open>std::underflow_error\<close>,
  \<open>std::domain_error\<close> (SafeMath), \<open>std::out_of_range\<close> (\<open>std::map::at\<close>) and the failure of
  an impossible allocation (\<open>std::length_error\<close> or \<open>std::bad_alloc\<close> out of
  \<open>std::vector::resize\<close>). \<open>ArithmeticTrap\<close> is an integer division by zero, which kills the process.
\<close>

datatype cpp_error = OverflowError | UnderflowError | DomainError | OutOfRange | AllocError
  | ArithmeticTrap

text \<open>A parser returns a value, \<open>std::nullopt\<close>, or throws.\<close>

datatype 'a outcome = Parsed 'a | Nullopt | Threw cpp_error

fun bind_outcome :: "'a outcome \<Rightarrow> ('a \<Rightarrow> 'b outcome) \<Rightarrow> 'b outcome" where
  "bind_outcome (Parsed x) f = f x"
| "bind_outcome Nullopt f = Nullopt"
| "bind_outcome (Threw e) f = Threw e"

lemma bind_outcome_Parsed_conv:
  "bind_outcome m f = Parsed y \<longleftrightarrow> (\<exists>x. m = Parsed x \<and> f x = Parsed y)"
  by (cases m) auto

lemma bind_outcome_Threw_conv:
  "bind_outcome m f = Threw e \<longleftrightarrow> m = Threw e \<or> (\<exists>x. m = Parsed x \<and> f x = Threw e)"
  by (cases m) auto

lemma case_option_Parsed_conv:
  "(case m of None \<Rightarrow> Nullopt | Some x \<Rightarrow> f x) = Parsed y \<longleftrightarrow> (\<exists>x. m = Some x \<and> f x = Parsed y)"
  by (cases m) auto

lemma if_Parsed_conv: "(if b then Nullopt else m) = Parsed y \<longleftrightarrow> \<not> b \<and> m = Parsed y"
  by simp

lemmas parsed_convs = bind_outcome_Parsed_conv case_option_Parsed_conv if_Parsed_conv

subsection \<open>Little-endian encodings\<close>

text \<open>
  \<open>push_back(static_cast<uint8_t>(v >> 8 * i))\<close> for each byte \<open>i\<close>, lowest first, and the
  reader that ORs the shifted bytes back together.
\<close>

definition le32 :: "u32 \<Rightarrow> bytes" where
  "le32 v = [ucast v, ucast (drop_bit 8 v), ucast (drop_bit 16 v), ucast (drop_bit 24 v)]"

definition le64 :: "u64 \<Rightarrow> bytes" where
  "le64 v = [ucast v, ucast (drop_bit 8 v), ucast (drop_bit 16 v), ucast (drop_bit 24 v),
     ucast (drop_bit 32 v), ucast (drop_bit 40 v), ucast (drop_bit 48 v), ucast (drop_bit 56 v)]"

definition read_le32 :: "bytes \<Rightarrow> u32" where
  "read_le32 b = ucast (b ! 0) OR push_bit 8 (ucast (b ! 1)) OR push_bit 16 (ucast (b ! 2))
     OR push_bit 24 (ucast (b ! 3))"

definition read_le64 :: "bytes \<Rightarrow> u64" where
  "read_le64 b = ucast (b ! 0) OR push_bit 8 (ucast (b ! 1)) OR push_bit 16 (ucast (b ! 2))
     OR push_bit 24 (ucast (b ! 3)) OR push_bit 32 (ucast (b ! 4)) OR push_bit 40 (ucast (b ! 5))
     OR push_bit 48 (ucast (b ! 6)) OR push_bit 56 (ucast (b ! 7))"

lemma length_le32 [simp, bytes_simps]: "length (le32 v) = 4"
  by (simp add: le32_def)

lemma length_le64 [simp, bytes_simps]: "length (le64 v) = 8"
  by (simp add: le64_def)

lemma read_le32_le32 [simp, bytes_simps]: "read_le32 (le32 v @ rest) = v"
proof (rule bit_eqI)
  fix n
  assume "possible_bit TYPE(32 word) n"
  then have n: "n < 32" by simp
  then consider "n < 8" | "8 \<le> n" "n < 16" | "16 \<le> n" "n < 24" | "24 \<le> n" "n < 32"
    by linarith
  then show "bit (read_le32 (le32 v @ rest)) n = bit v n"
    by cases (simp_all add: read_le32_def le32_def bit_simps less_diff_conv2)
qed

lemma read_le64_le64 [simp, bytes_simps]: "read_le64 (le64 v @ rest) = v"
proof (rule bit_eqI)
  fix n
  assume "possible_bit TYPE(64 word) n"
  then have n: "n < 64" by simp
  then consider "n < 8" | "8 \<le> n" "n < 16" | "16 \<le> n" "n < 24" | "24 \<le> n" "n < 32"
    | "32 \<le> n" "n < 40" | "40 \<le> n" "n < 48" | "48 \<le> n" "n < 56" | "56 \<le> n" "n < 64"
    by linarith
  then show "bit (read_le64 (le64 v @ rest)) n = bit v n"
    by cases (simp_all add: read_le64_def le64_def bit_simps less_diff_conv2)
qed

lemma read_le32_le32_nil [simp]: "read_le32 (le32 v) = v"
  using read_le32_le32 [of v "[]"] by simp

lemma read_le64_le64_nil [simp]: "read_le64 (le64 v) = v"
  using read_le64_le64 [of v "[]"] by simp

lemma le32_inject [simp]: "le32 v = le32 w \<longleftrightarrow> v = w"
  by (metis read_le32_le32_nil)

lemma le64_inject [simp]: "le64 v = le64 w \<longleftrightarrow> v = w"
  by (metis read_le64_le64_nil)

lemma take_bit_small: "unat (x :: u64) < 2 ^ m \<Longrightarrow> take_bit m x = x"
  by (rule word_unat_eq_iff [THEN iffD2]) (simp add: unsigned_take_bit_eq take_bit_nat_eq_self)

lemma bit_small: "unat (x :: u64) < 2 ^ m \<Longrightarrow> bit x k \<Longrightarrow> k < m"
  using take_bit_small [of x m] by (metis bit_take_bit_iff)

lemma byte_bit_high: "8 \<le> n \<Longrightarrow> bit (a :: u8) n = False"
  using bit_imp_le_length [of a n] by auto

lemma ucast_byte: "unat (x :: u64) < 2 ^ 8 \<Longrightarrow> ucast (ucast x :: u8) = x"
  by (rule bit_word_eqI) (use bit_small [of x 8] in \<open>auto simp: bit_simps\<close>)

lemma le64_read_le64:
  "le64 (read_le64 (a # b # c # d # e # f # g # h # rest)) = [a, b, c, d, e, f, g, h]"
  by (simp add: le64_def, intro conjI; rule bit_word_eqI; simp add: read_le64_def bit_simps byte_bit_high)

lemma le32_read_le32:
  "le32 (read_le32 (a # b # c # d # rest)) = [a, b, c, d]"
  by (simp add: le32_def, intro conjI; rule bit_word_eqI; simp add: read_le32_def bit_simps byte_bit_high)

lemma unat_of_nat64: "n < 2 ^ 64 \<Longrightarrow> unat (of_nat n :: u64) = n"
  by (simp add: unsigned_of_nat take_bit_nat_eq_self)

lemma sint_of_nat64: "n < 2 ^ 63 \<Longrightarrow> sint (of_nat n :: u64) = int n"
  by (simp add: signed_of_nat signed_take_bit_int_eq_self)

lemma take_append_exact: "length xs = n \<Longrightarrow> take n (xs @ ys) = xs"
  by simp

lemma drop_append_exact: "length xs = n \<Longrightarrow> drop n (xs @ ys) = ys"
  by simp

lemma unat64_lt: "unat (x :: u64) < 18446744073709551616"
  using unsigned_less [of x, where 'a = nat] by simp

lemma unat64_le: "unat (x :: u64) \<le> 18446744073709551615"
  using unat64_lt [of x] by simp

lemma unat32_lt: "unat (x :: u32) < 4294967296"
  using unsigned_less [of x, where 'a = nat] by simp

subsection \<open>Sums of 64-bit amounts\<close>

text \<open>
  \<open>total += amount\<close> in a loop is \<open>wsum\<close>: it wraps at \<open>2 ^ 64\<close>. \<open>nsum\<close> is the
  mathematical total of the same amounts.
\<close>

definition wsum :: "u64 list \<Rightarrow> u64" where
  "wsum xs = foldl (+) 0 xs"

definition nsum :: "u64 list \<Rightarrow> nat" where
  "nsum xs = sum_list (map unat xs)"

lemma foldl_plus_shift: "foldl (+) (a::'a::comm_monoid_add) xs = a + foldl (+) 0 xs"
proof (induction xs arbitrary: a)
  case (Cons x xs)
  from Cons [of "a + x"] Cons [of x] show ?case by (simp add: add.assoc)
qed simp

lemma wsum_Nil [simp]: "wsum [] = 0"
  by (simp add: wsum_def)

lemma wsum_Cons [simp]: "wsum (x # xs) = x + wsum xs"
  using foldl_plus_shift [of x xs] by (simp add: wsum_def)

lemma wsum_append [simp]: "wsum (xs @ ys) = wsum xs + wsum ys"
  by (induction xs) (simp_all add: add.assoc)

lemma nsum_simps [simp]: "nsum [] = 0" "nsum (x # xs) = unat x + nsum xs"
  "nsum (xs @ ys) = nsum xs + nsum ys"
  by (simp_all add: nsum_def)

lemma unat_add_mod64: "unat (x + y :: u64) = (unat x + unat y) mod 2 ^ 64"
  by (simp add: unat_word_ariths)

lemma unat_add_lt: "unat x + unat y < 2 ^ 64 \<Longrightarrow> unat (x + y :: u64) = unat x + unat y"
  by (simp add: unat_add_mod64)

lemma unat_mult_lt: "unat x * unat y < 2 ^ 64 \<Longrightarrow> unat (x * y :: u64) = unat x * unat y"
  by (simp add: unat_word_ariths)

lemma unat_wsum: "unat (wsum xs) = nsum xs mod 2 ^ 64"
proof (induction xs)
  case (Cons x xs)
  then show ?case by (simp add: unat_add_mod64 mod_add_right_eq)
qed simp

lemma unat_wsum_le: "unat (wsum xs) \<le> nsum xs"
  by (simp add: unat_wsum)

lemma unat_wsum_exact: "nsum xs < 2 ^ 64 \<Longrightarrow> unat (wsum xs) = nsum xs"
  by (simp add: unat_wsum)

lemma nsum_bound: "\<forall>x \<in> set xs. unat x \<le> b \<Longrightarrow> nsum xs \<le> length xs * b"
  by (induction xs) (auto intro: add_mono)

lemma add_no_wrap: "x \<le> x + (y :: u64) \<longleftrightarrow> unat x + unat y < 2 ^ 64"
proof -
  have x: "unat x < 2 ^ 64" and y: "unat y < 2 ^ 64"
    using unat64_lt [of x] unat64_lt [of y] by simp_all
  show ?thesis
  proof (cases "unat x + unat y < 2 ^ 64")
    case True
    then show ?thesis by (simp add: word_le_nat_alt unat_add_mod64)
  next
    case False
    then have "(unat x + unat y) mod 2 ^ 64 = unat x + unat y - 2 ^ 64"
      using x y by (subst mod_if) auto
    with False y show ?thesis by (simp add: word_le_nat_alt unat_add_mod64)
  qed
qed

lemma unat_add_exact: "x \<le> x + (y :: u64) \<Longrightarrow> unat (x + y) = unat x + unat y"
  by (simp add: add_no_wrap unat_add_mod64)

lemma unat_drop_bit: "unat (drop_bit n (w :: 'a::len word)) = unat w div 2 ^ n"
  by (simp only: unsigned_drop_bit_eq take_bit_nat_eq_self [OF unsigned_less]
      drop_bit_eq_div [of n "unat w"])

end
