(* ===== verification/Amount.thy ===== *)
theory Amount
  imports Prelude
begin

section \<open>Checked amounts: \<open>Amount\<close> and \<open>SafeMath\<close>\<close>

text \<open>
  Models \<open>layer1-talanton/core/primitives/amount.h\<close>, \<open>amount.cpp\<close> and \<open>safe_math.h\<close>. Both
  classes offer addition, subtraction and multiplication of \<open>uint64_t\<close> values that return
  \<open>std::nullopt\<close> instead of wrapping. The locale \<open>checked_arith\<close> is the contract they share:
  a result exists exactly when the mathematical result is representable, and then equals it.
  Both classes are interpretations of it. \<open>Amount::ToString\<close> is display only and not modelled.
\<close>

subsection \<open>The overflow tests\<close>

definition WouldAddOverflow :: "u64 \<Rightarrow> u64 \<Rightarrow> bool" where
  "WouldAddOverflow a b = (a > UINT64_MAX - b)"

definition WouldSubtractUnderflow :: "u64 \<Rightarrow> u64 \<Rightarrow> bool" where
  "WouldSubtractUnderflow a b = (a < b)"

definition WouldMultiplyOverflow :: "u64 \<Rightarrow> u64 \<Rightarrow> bool" where
  "WouldMultiplyOverflow a b =
     (if a = 0 \<or> b = 0 then False else a > UINT64_MAX div b)"

subsection \<open>\<open>Amount\<close>\<close>

datatype Amount = Amount (GetValue: u64)

definition Amount_Add :: "Amount \<Rightarrow> Amount \<Rightarrow> Amount option" where
  "Amount_Add self other =
     (if WouldAddOverflow (GetValue self) (GetValue other) then None
      else Some (Amount (GetValue self + GetValue other)))"

definition Amount_Subtract :: "Amount \<Rightarrow> Amount \<Rightarrow> Amount option" where
  "Amount_Subtract self other =
     (if WouldSubtractUnderflow (GetValue self) (GetValue other) then None
      else Some (Amount (GetValue self - GetValue other)))"

definition Amount_Multiply :: "Amount \<Rightarrow> u64 \<Rightarrow> Amount option" where
  "Amount_Multiply self multiplier =
     (if WouldMultiplyOverflow (GetValue self) multiplier then None
      else Some (Amount (GetValue self * multiplier)))"

definition Amount_Divide :: "Amount \<Rightarrow> u64 \<Rightarrow> Amount option" where
  "Amount_Divide self divisor =
     (if divisor = 0 then None else Some (Amount (GetValue self div divisor)))"

definition Amount_IsZero :: "Amount \<Rightarrow> bool" where
  "Amount_IsZero self = (GetValue self = 0)"

definition Amount_Serialize :: "Amount \<Rightarrow> bytes" where
  "Amount_Serialize self = le64 (GetValue self)"

definition Amount_Deserialize :: "bytes \<Rightarrow> Amount" where
  "Amount_Deserialize input = Amount (read_le64 input)"

subsection \<open>\<open>SafeMath\<close>\<close>

definition SafeMath_Add :: "u64 \<Rightarrow> u64 \<Rightarrow> u64 option" where
  "SafeMath_Add a b = (if a > UINT64_MAX - b then None else Some (a + b))"

definition SafeMath_Sub :: "u64 \<Rightarrow> u64 \<Rightarrow> u64 option" where
  "SafeMath_Sub a b = (if a < b then None else Some (a - b))"

definition SafeMath_Mul :: "u64 \<Rightarrow> u64 \<Rightarrow> u64 option" where
  "SafeMath_Mul a b =
     (if a = 0 \<or> b = 0 then Some 0
      else if a > UINT64_MAX div b then None
      else Some (a * b))"

definition SafeMath_Div :: "u64 \<Rightarrow> u64 \<Rightarrow> u64 option" where
  "SafeMath_Div a b = (if b = 0 then None else Some (a div b))"

definition SafeMath_Mod :: "u64 \<Rightarrow> u64 \<Rightarrow> u64 option" where
  "SafeMath_Mod a b = (if b = 0 then None else Some (a mod b))"

definition SafeMath_Percentage :: "u64 \<Rightarrow> u64 \<Rightarrow> u64 \<Rightarrow> u64 option" where
  "SafeMath_Percentage amount percentage divisor =
     (case SafeMath_Mul amount percentage of
        None \<Rightarrow> None
      | Some mul_result \<Rightarrow> SafeMath_Div mul_result divisor)"

text \<open>The \<open>Checked\<close> variants throw where the others return \<open>std::nullopt\<close>.\<close>

definition SafeMath_CheckedAdd :: "u64 \<Rightarrow> u64 \<Rightarrow> cpp_error + u64" where
  "SafeMath_CheckedAdd a b =
     (case SafeMath_Add a b of None \<Rightarrow> Inl OverflowError | Some r \<Rightarrow> Inr r)"

definition SafeMath_CheckedSub :: "u64 \<Rightarrow> u64 \<Rightarrow> cpp_error + u64" where
  "SafeMath_CheckedSub a b =
     (case SafeMath_Sub a b of None \<Rightarrow> Inl UnderflowError | Some r \<Rightarrow> Inr r)"

definition SafeMath_CheckedMul :: "u64 \<Rightarrow> u64 \<Rightarrow> cpp_error + u64" where
  "SafeMath_CheckedMul a b =
     (case SafeMath_Mul a b of None \<Rightarrow> Inl OverflowError | Some r \<Rightarrow> Inr r)"

definition SafeMath_CheckedDiv :: "u64 \<Rightarrow> u64 \<Rightarrow> cpp_error + u64" where
  "SafeMath_CheckedDiv a b =
     (case SafeMath_Div a b of None \<Rightarrow> Inl DomainError | Some r \<Rightarrow> Inr r)"

subsection \<open>The overflow tests decide representability\<close>

lemma WouldAddOverflow_iff: "WouldAddOverflow a b \<longleftrightarrow> 2 ^ 64 \<le> unat a + unat b"
proof -
  have "unat (UINT64_MAX - b) = 2 ^ 64 - 1 - unat b"
    by (subst unat_sub) (simp_all add: word_le_nat_alt unat64_le)
  moreover have "unat b < 2 ^ 64" using unat64_lt [of b] by simp
  ultimately show ?thesis by (auto simp: WouldAddOverflow_def word_less_nat_alt)
qed

lemma WouldMultiplyOverflow_iff: "WouldMultiplyOverflow a b \<longleftrightarrow> 2 ^ 64 \<le> unat a * unat b"
proof (cases "a = 0 \<or> b = 0")
  case True
  then show ?thesis by (auto simp: WouldMultiplyOverflow_def)
next
  case False
  then have "0 < unat b" by (simp add: unat_gt_0)
  then have "(unat a > (2 ^ 64 - 1) div unat b) \<longleftrightarrow> 2 ^ 64 \<le> unat a * unat b"
    using div_less_iff_less_mult [of "unat b" "2 ^ 64 - 1" "unat a"] by auto
  with False show ?thesis
    by (simp add: WouldMultiplyOverflow_def word_less_nat_alt unat_div)
qed

subsection \<open>The shared contract\<close>

locale checked_arith =
  fixes cadd csub cmul :: "u64 \<Rightarrow> u64 \<Rightarrow> u64 option"
  assumes cadd_iff: "cadd a b = Some c \<longleftrightarrow> unat c = unat a + unat b"
    and csub_iff: "csub a b = Some c \<longleftrightarrow> unat a = unat b + unat c"
    and cmul_iff: "cmul a b = Some c \<longleftrightarrow> unat c = unat a * unat b"
begin

lemma cadd_None: "cadd a b = None \<longleftrightarrow> 2 ^ 64 \<le> unat a + unat b"
proof
  assume N: "cadd a b = None"
  show "2 ^ 64 \<le> unat a + unat b"
  proof (rule ccontr)
    assume "\<not> 2 ^ 64 \<le> unat a + unat b"
    then have "unat (a + b) = unat a + unat b" by (simp add: unat_add_mod64)
    with N show False by (simp flip: cadd_iff)
  qed
next
  assume big: "2 ^ 64 \<le> unat a + unat b"
  show "cadd a b = None"
  proof (cases "cadd a b")
    case (Some c)
    with big unat64_lt [of c] show ?thesis by (simp add: cadd_iff)
  qed
qed

lemma cadd_commute: "cadd a b = cadd b a"
proof (cases "cadd a b")
  case None
  then show ?thesis by (metis cadd_None add.commute)
next
  case (Some c)
  then show ?thesis by (metis cadd_iff add.commute)
qed

lemma csub_undoes_cadd: "cadd a b = Some c \<longleftrightarrow> csub c b = Some a"
  by (auto simp: cadd_iff csub_iff)

lemma cadd_assoc:
  "Option.bind (cadd a b) (\<lambda>s. cadd s c) = Option.bind (cadd b c) (\<lambda>s. cadd a s)"
proof -
  have l: "Option.bind (cadd a b) (\<lambda>s. cadd s c) = Some r \<longleftrightarrow> unat r = unat a + unat b + unat c" for r
  proof
    assume "unat r = unat a + unat b + unat c"
    moreover from this have "cadd a b \<noteq> None"
      using unat64_lt [of r] by (simp add: cadd_None)
    ultimately show "Option.bind (cadd a b) (\<lambda>s. cadd s c) = Some r"
      by (auto simp: bind_eq_Some_conv cadd_iff)
  qed (auto simp: cadd_iff bind_eq_Some_conv)
  have r: "Option.bind (cadd b c) (\<lambda>s. cadd a s) = Some r \<longleftrightarrow> unat r = unat a + unat b + unat c" for r
  proof
    assume "unat r = unat a + unat b + unat c"
    moreover from this have "cadd b c \<noteq> None"
      using unat64_lt [of r] by (simp add: cadd_None)
    ultimately show "Option.bind (cadd b c) (\<lambda>s. cadd a s) = Some r"
      by (auto simp: bind_eq_Some_conv cadd_iff)
  qed (auto simp: cadd_iff bind_eq_Some_conv)
  from l r show ?thesis by (metis not_Some_eq)
qed

lemma cmul_cadd_distrib:
  assumes "cadd a b = Some s" and "cmul s k = Some p"
  shows "\<exists>x y. cmul a k = Some x \<and> cmul b k = Some y \<and> cadd x y = Some p"
proof -
  have p: "unat p = unat a * unat k + unat b * unat k"
    using assms by (simp add: cadd_iff cmul_iff algebra_simps)
  then have "unat a * unat k < 2 ^ 64" "unat b * unat k < 2 ^ 64"
    using unat64_lt [of p] by simp_all
  then have "unat (a * k) = unat a * unat k" "unat (b * k) = unat b * unat k"
    by (simp_all add: unat_word_ariths)
  with p show ?thesis
    by (intro exI [of _ "a * k"] exI [of _ "b * k"]) (simp add: cadd_iff cmul_iff)
qed

end

subsection \<open>Both classes meet it\<close>

lemma WouldMultiplyOverflow_SafeMath:
  "SafeMath_Mul a b = (if WouldMultiplyOverflow a b then None else Some (a * b))"
  by (auto simp: SafeMath_Mul_def WouldMultiplyOverflow_def)

lemma WouldAddOverflow_SafeMath:
  "SafeMath_Add a b = (if WouldAddOverflow a b then None else Some (a + b))"
  by (auto simp: SafeMath_Add_def WouldAddOverflow_def)

interpretation safe_math: checked_arith SafeMath_Add SafeMath_Sub SafeMath_Mul
proof unfold_locales
  fix a b c :: u64
  have c: "unat c < 2 ^ 64" using unat64_lt [of c] by simp
  show "SafeMath_Add a b = Some c \<longleftrightarrow> unat c = unat a + unat b"
    using c by (auto simp: WouldAddOverflow_SafeMath WouldAddOverflow_iff word_unat_eq_iff
        unat_add_mod64)
  show "SafeMath_Sub a b = Some c \<longleftrightarrow> unat a = unat b + unat c"
    by (auto simp: SafeMath_Sub_def word_unat_eq_iff unat_sub word_le_nat_alt word_less_nat_alt)
  show "SafeMath_Mul a b = Some c \<longleftrightarrow> unat c = unat a * unat b"
    using c by (auto simp: WouldMultiplyOverflow_SafeMath WouldMultiplyOverflow_iff
        word_unat_eq_iff unat_word_ariths)
qed

text \<open>\<open>Amount\<close>'s operations, on the values the objects hold.\<close>

definition amount_op :: "(Amount \<Rightarrow> Amount \<Rightarrow> Amount option) \<Rightarrow> u64 \<Rightarrow> u64 \<Rightarrow> u64 option" where
  "amount_op f a b = map_option GetValue (f (Amount a) (Amount b))"

lemma amount_op_Add: "amount_op Amount_Add = SafeMath_Add"
  by (auto simp: fun_eq_iff amount_op_def Amount_Add_def SafeMath_Add_def WouldAddOverflow_def)

lemma amount_op_Subtract: "amount_op Amount_Subtract = SafeMath_Sub"
  by (auto simp: fun_eq_iff amount_op_def Amount_Subtract_def SafeMath_Sub_def
      WouldSubtractUnderflow_def)

lemma amount_op_Multiply: "amount_op (\<lambda>x y. Amount_Multiply x (GetValue y)) = SafeMath_Mul"
  by (auto simp: fun_eq_iff amount_op_def Amount_Multiply_def SafeMath_Mul_def
      WouldMultiplyOverflow_def)

interpretation amount_ops: checked_arith "amount_op Amount_Add" "amount_op Amount_Subtract"
    "amount_op (\<lambda>x y. Amount_Multiply x (GetValue y))"
  unfolding amount_op_Add amount_op_Subtract amount_op_Multiply
  by (rule safe_math.checked_arith_axioms)

end
