(* ===== verification/Sha256.thy ===== *)
theory Sha256
  imports Prelude
begin

section \<open>SHA-256: the streaming hasher\<close>

text \<open>
  Models \<open>layer1-talanton/core/crypto/sha256.cpp\<close>: the message schedule and compression of
  \<open>Transform\<close>, the buffering of \<open>Write\<close>, the padding of \<open>Finalize\<close>, and the one-shot,
  double and tagged hashes built on them. The state is the class's own: eight chaining words,
  the 64-byte buffer with its fill count and the byte counter.
\<close>

subsection \<open>Constants and bit functions\<close>

text \<open>The round constants, in decimal (the source writes them in hexadecimal; \<open>sha_K_bits\<close> compares them with
  their hexadecimal digits).\<close>

definition sha_K :: "u32 list" where
  "sha_K = [
    1116352408, 1899447441, 3049323471, 3921009573, 961987163, 1508970993, 2453635748, 2870763221,
    3624381080, 310598401, 607225278, 1426881987, 1925078388, 2162078206, 2614888103, 3248222580,
    3835390401, 4022224774, 264347078, 604807628, 770255983, 1249150122, 1555081692, 1996064986,
    2554220882, 2821834349, 2952996808, 3210313671, 3336571891, 3584528711, 113926993, 338241895,
    666307205, 773529912, 1294757372, 1396182291, 1695183700, 1986661051, 2177026350, 2456956037,
    2730485921, 2820302411, 3259730800, 3345764771, 3516065817, 3600352804, 4094571909, 275423344,
    430227734, 506948616, 659060556, 883997877, 958139571, 1322822218, 1537002063, 1747873779,
    1955562222, 2024104815, 2227730452, 2361852424, 2428436474, 2756734187, 3204031479, 3329325298]"

definition sha_H0 :: "u32 list" where
  "sha_H0 = [0x6a09e667, 0xbb67ae85, 0x3c6ef372, 0xa54ff53a,
             0x510e527f, 0x9b05688c, 0x1f83d9ab, 0x5be0cd19]"

definition ROTR :: "u32 \<Rightarrow> nat \<Rightarrow> u32" where
  "ROTR x n = drop_bit n x OR push_bit (32 - n) x"

definition CH :: "u32 \<Rightarrow> u32 \<Rightarrow> u32 \<Rightarrow> u32" where
  "CH x y z = (x AND y) XOR (NOT x AND z)"

definition MAJ :: "u32 \<Rightarrow> u32 \<Rightarrow> u32 \<Rightarrow> u32" where
  "MAJ x y z = (x AND y) XOR (x AND z) XOR (y AND z)"

definition SIGMA0 :: "u32 \<Rightarrow> u32" where
  "SIGMA0 x = ROTR x 2 XOR ROTR x 13 XOR ROTR x 22"

definition SIGMA1 :: "u32 \<Rightarrow> u32" where
  "SIGMA1 x = ROTR x 6 XOR ROTR x 11 XOR ROTR x 25"

definition small_sigma0 :: "u32 \<Rightarrow> u32" where
  "small_sigma0 x = ROTR x 7 XOR ROTR x 18 XOR drop_bit 3 x"

definition small_sigma1 :: "u32 \<Rightarrow> u32" where
  "small_sigma1 x = ROTR x 17 XOR ROTR x 19 XOR drop_bit 10 x"

definition ReadBE32 :: "bytes \<Rightarrow> u32" where
  "ReadBE32 p = push_bit 24 (ucast (p ! 0)) OR push_bit 16 (ucast (p ! 1))
     OR push_bit 8 (ucast (p ! 2)) OR ucast (p ! 3)"

definition WriteBE32 :: "u32 \<Rightarrow> bytes" where
  "WriteBE32 v = [ucast (drop_bit 24 v), ucast (drop_bit 16 v), ucast (drop_bit 8 v), ucast v]"

definition WriteBE64 :: "u64 \<Rightarrow> bytes" where
  "WriteBE64 v = [ucast (drop_bit 56 v), ucast (drop_bit 48 v), ucast (drop_bit 40 v),
     ucast (drop_bit 32 v), ucast (drop_bit 24 v), ucast (drop_bit 16 v), ucast (drop_bit 8 v),
     ucast v]"

subsection \<open>The compression function\<close>

text \<open>\<open>W[0..15]\<close> are the words of the chunk; the loop appends \<open>W[t]\<close> for \<open>t = 16..63\<close>.\<close>

fun sha_schedule :: "nat \<Rightarrow> u32 list \<Rightarrow> u32 list" where
  "sha_schedule 0 W = W"
| "sha_schedule (Suc n) W =
     (let t = length W in
      sha_schedule n (W @ [small_sigma1 (W ! (t - 2)) + W ! (t - 7) + small_sigma0 (W ! (t - 15))
         + W ! (t - 16)]))"

type_synonym sha_regs = "u32 \<times> u32 \<times> u32 \<times> u32 \<times> u32 \<times> u32 \<times> u32 \<times> u32"

fun sha_round :: "sha_regs \<Rightarrow> u32 \<Rightarrow> u32 \<Rightarrow> sha_regs" where
  "sha_round (a, b, c, d, e, f, g, h) k w =
     (let T1 = h + SIGMA1 e + CH e f g + k + w;
          T2 = SIGMA0 a + MAJ a b c
      in (T1 + T2, a, b, c, d + T1, e, f, g))"

fun sha_rounds :: "sha_regs \<Rightarrow> u32 list \<Rightarrow> u32 list \<Rightarrow> sha_regs" where
  "sha_rounds r (k # ks) (w # ws) = sha_rounds (sha_round r k w) ks ws"
| "sha_rounds r _ _ = r"

definition chunk_words :: "bytes \<Rightarrow> u32 list" where
  "chunk_words chunk = map (\<lambda>t. ReadBE32 (drop (t * 4) chunk)) [0..<16]"

definition Transform :: "u32 list \<Rightarrow> bytes \<Rightarrow> u32 list" where
  "Transform state chunk =
     (let W = sha_schedule 48 (chunk_words chunk);
          (a, b, c, d, e, f, g, h) = sha_rounds (state ! 0, state ! 1, state ! 2, state ! 3,
             state ! 4, state ! 5, state ! 6, state ! 7) sha_K W
      in [state ! 0 + a, state ! 1 + b, state ! 2 + c, state ! 3 + d,
          state ! 4 + e, state ! 5 + f, state ! 6 + g, state ! 7 + h])"

subsection \<open>The hasher object\<close>

record Hasher =
  hstate :: "u32 list"
  hbuffer :: bytes
  byte_count :: u64
  buffer_size :: nat

definition Hasher_Reset :: "Hasher" where
  "Hasher_Reset =
     \<lparr>hstate = sha_H0, hbuffer = replicate 64 0, byte_count = 0, buffer_size = 0\<rparr>"

text \<open>
  \<open>buffer_size_ < 64\<close> between calls is the class's invariant (\<open>hasher_inv\<close> below, kept by every
  operation): without it the C++ loop would copy nothing and spin. The model's loop takes the
  invariant as part of its guard, so it is total.
\<close>

function Hasher_Write :: "Hasher \<Rightarrow> bytes \<Rightarrow> Hasher" where
  "Hasher_Write s data =
     (if data = [] \<or> 64 \<le> buffer_size s then s
      else let to_copy = min (length data) (64 - buffer_size s);
               buffer' = take (buffer_size s) (hbuffer s) @ take to_copy data
                           @ drop (buffer_size s + to_copy) (hbuffer s);
               filled = buffer_size s + to_copy;
               s' = s\<lparr>hbuffer := buffer', byte_count := byte_count s + of_nat to_copy,
                       buffer_size := filled\<rparr>
           in Hasher_Write
                (if filled = 64 then s'\<lparr>hstate := Transform (hstate s) buffer', buffer_size := 0\<rparr>
                 else s') (drop to_copy data))"
  by pat_completeness auto
termination
  by (relation "measure (\<lambda>(s, data). length data)") auto

declare Hasher_Write.simps [simp del]

text \<open>\<open>Finalize\<close> returns the hash and leaves the object reset for reuse.\<close>

definition Hasher_Finalize :: "Hasher \<Rightarrow> bytes \<times> Hasher" where
  "Hasher_Finalize s =
     (let padding_len = (if buffer_size s < 56 then 56 - buffer_size s else 120 - buffer_size s);
          padding = 0x80 # replicate (padding_len - 1) 0 @ WriteBE64 (byte_count s * 8);
          s' = Hasher_Write s padding
      in (concat (map (\<lambda>i. WriteBE32 (hstate s' ! i)) [0..<8]), Hasher_Reset))"

definition Hash256 :: "bytes \<Rightarrow> bytes" where
  "Hash256 data = fst (Hasher_Finalize (Hasher_Write Hasher_Reset data))"

definition Hash256d :: "bytes \<Rightarrow> bytes" where
  "Hash256d data = Hash256 (Hash256 data)"

definition Tagged_init :: "bytes \<Rightarrow> Hasher" where
  "Tagged_init tag =
     (let tag_hash = Hash256 tag
      in Hasher_Write (Hasher_Write Hasher_Reset tag_hash) tag_hash)"

definition HashTagged :: "bytes \<Rightarrow> bytes \<Rightarrow> bytes" where
  "HashTagged tag data = fst (Hasher_Finalize (Hasher_Write (Tagged_init tag) data))"

subsection \<open>The hash of a whole message\<close>

text \<open>
  The hash without the buffer: pad the message to a multiple of 64 bytes, cut it into blocks, and fold \<open>Transform\<close> over
  them. This is a step on the way: \<open>Fips180\<close> shows that it is the hash of the standard.
\<close>

definition full_blocks :: "bytes \<Rightarrow> bytes list" where
  "full_blocks m = map (\<lambda>i. take 64 (drop (64 * i) m)) [0..<length m div 64]"

definition sha_pad :: "bytes \<Rightarrow> bytes" where
  "sha_pad m =
     0x80 # replicate ((119 - length m mod 64) mod 64) 0 @ WriteBE64 (of_nat (length m) * 8)"

definition hash_of_blocks :: "bytes \<Rightarrow> bytes" where
  "hash_of_blocks m =
     concat (map WriteBE32 (foldl Transform sha_H0 (full_blocks (m @ sha_pad m))))"

text \<open>What a hasher has absorbed: the blocks already compressed and the rest in the buffer.\<close>

definition hasher_inv :: "Hasher \<Rightarrow> bool" where
  "hasher_inv s \<longleftrightarrow> buffer_size s < 64 \<and> length (hbuffer s) = 64"

definition absorbed :: "Hasher \<Rightarrow> bytes \<Rightarrow> bool" where
  "absorbed s m \<longleftrightarrow> hstate s = foldl Transform sha_H0 (full_blocks m)
     \<and> buffer_size s = length m mod 64
     \<and> take (buffer_size s) (hbuffer s) = drop (64 * (length m div 64)) m
     \<and> length (hbuffer s) = 64 \<and> byte_count s = of_nat (length m)"

lemma full_blocks_short: "length m < 64 \<Longrightarrow> full_blocks m = []"
  by (simp add: full_blocks_def)

lemma block_index_le: "i < n div 64 \<Longrightarrow> 64 * i + 64 \<le> (n :: nat)"
  using times_div_less_eq_dividend [of 64 n] by linarith

lemma add_div64: "(n + k) div 64 = n div 64 + (n mod 64 + k) div (64 :: nat)"
  using div_mult_self3 [of 64 "n div 64" "n mod 64 + k"] by (simp add: add.assoc [symmetric])

lemma add_mod64: "(n + k) mod 64 = (n mod 64 + k) mod (64 :: nat)"
  by (simp add: mod_add_left_eq)

lemma div64_keep: "n mod 64 + k < 64 \<Longrightarrow> (n + k) div 64 = n div (64 :: nat)"
  by (subst add_div64) simp

lemma mod64_keep: "n mod 64 + k < 64 \<Longrightarrow> (n + k) mod 64 = n mod 64 + (k :: nat)"
  by (subst add_mod64) simp

lemma div64_fill: "n mod 64 + k = 64 \<Longrightarrow> (n + k) div 64 = Suc (n div (64 :: nat))"
  by (subst add_div64) simp

lemma mod64_fill: "n mod 64 + k = 64 \<Longrightarrow> (n + k) mod 64 = (0 :: nat)"
  by (subst add_mod64) simp

lemma block_of_append:
  assumes "i < length m div 64"
  shows "take 64 (drop (64 * i) (m @ d)) = take 64 (drop (64 * i) m)"
  using block_index_le [OF assms] by simp

lemma full_blocks_append_lt:
  assumes "length m mod 64 + length d < 64"
  shows "full_blocks (m @ d) = full_blocks m"
  by (simp add: full_blocks_def div64_keep [OF assms] block_of_append del: drop_append take_append)

lemma full_blocks_append_fill:
  assumes "length m mod 64 + length d = 64"
  shows "full_blocks (m @ d) = full_blocks m @ [drop (64 * (length m div 64)) m @ d]"
proof -
  let ?q = "length m div 64"
  have "length m - 64 * ?q = length m mod 64"
    by (simp add: minus_mult_div_eq_mod)
  then have "take 64 (drop (64 * ?q) (m @ d)) = drop (64 * ?q) m @ d"
    using assms by simp
  then show ?thesis
    by (simp add: full_blocks_def div64_fill [OF assms] block_of_append del: drop_append take_append)
qed

lemma absorbed_Reset: "absorbed Hasher_Reset []"
  by (simp add: absorbed_def Hasher_Reset_def full_blocks_def)

lemma absorbed_inv: "absorbed s m \<Longrightarrow> hasher_inv s"
  by (simp add: absorbed_def hasher_inv_def)

lemma absorbed_rest:
  "absorbed s m \<Longrightarrow> take (buffer_size s) (hbuffer s) = drop (64 * (length m div 64)) m"
  unfolding absorbed_def by blast

lemma absorbed_fill:
  assumes s: "absorbed s m" and d: "buffer_size s + length d = 64"
    and buf: "buf = take (buffer_size s) (hbuffer s) @ d"
  shows "absorbed (s\<lparr>hbuffer := buf, byte_count := byte_count s + of_nat (length d),
           hstate := Transform (hstate s) buf, buffer_size := 0\<rparr>) (m @ d)"
proof -
  have fill: "length m mod 64 + length d = 64" and hb: "length (hbuffer s) = 64"
    using s d by (simp_all add: absorbed_def)
  have mod: "length (m @ d) mod 64 = 0"
    using mod64_fill [OF fill] by simp
  have blocks: "full_blocks (m @ d) = full_blocks m @ [buf]"
    using full_blocks_append_fill [OF fill] buf absorbed_rest [OF s] by simp
  have none_left: "drop (64 * (length (m @ d) div 64)) (m @ d) = []"
    using mod by (subst drop_eq_Nil) (metis add.right_neutral mult_div_mod_eq order_refl)
  have "length buf = 64" using buf d hb by simp
  then show ?thesis
    unfolding absorbed_def blocks none_left mod
    using s by (simp add: absorbed_def)
qed

lemma absorbed_partial:
  assumes s: "absorbed s m" and d: "buffer_size s + length d < 64"
    and buf: "buf = take (buffer_size s) (hbuffer s) @ d @ drop (buffer_size s + length d) (hbuffer s)"
  shows "absorbed (s\<lparr>hbuffer := buf, byte_count := byte_count s + of_nat (length d),
           buffer_size := buffer_size s + length d\<rparr>) (m @ d)"
proof -
  have lt: "length m mod 64 + length d < 64" and hb: "length (hbuffer s) = 64"
    and b: "buffer_size s < 64" and bm: "buffer_size s = length m mod 64"
    using s d by (simp_all add: absorbed_def)
  have mod: "length (m @ d) mod 64 = buffer_size s + length d"
    using mod64_keep [OF lt] bm by simp
  have div: "length (m @ d) div 64 = length m div 64"
    using div64_keep [OF lt] by simp
  have "length (take (buffer_size s) (hbuffer s) @ d) = buffer_size s + length d"
    using b hb by simp
  from take_append_exact [OF this, of "drop (buffer_size s + length d) (hbuffer s)"]
  have "take (buffer_size s + length d) buf = drop (64 * (length m div 64)) m @ d"
    using buf absorbed_rest [OF s] by simp
  moreover have "length buf = 64" using buf hb d by simp
  ultimately show ?thesis
    unfolding absorbed_def full_blocks_append_lt [OF lt] mod div
    using s by (simp add: absorbed_def)
qed

lemma absorbed_Write: "absorbed s m \<Longrightarrow> absorbed (Hasher_Write s data) (m @ data)"
proof (induction s data arbitrary: m rule: Hasher_Write.induct)
  case (1 s data)
  show ?case
  proof (cases "data = []")
    case True
    with "1.prems" show ?thesis by (simp add: Hasher_Write.simps)
  next
    case False
    let ?b = "buffer_size s"
    let ?c = "min (length data) (64 - ?b)"
    let ?buf = "take ?b (hbuffer s) @ take ?c data @ drop (?b + ?c) (hbuffer s)"
    let ?s1 = "s\<lparr>hbuffer := ?buf, byte_count := byte_count s + of_nat ?c, buffer_size := ?b + ?c\<rparr>"
    let ?s2 = "if ?b + ?c = 64 then ?s1\<lparr>hstate := Transform (hstate s) ?buf, buffer_size := 0\<rparr> else ?s1"
    have b: "?b < 64" "length (hbuffer s) = 64"
      using "1.prems" by (simp_all add: absorbed_def)
    have len: "length (take ?c data) = ?c" by simp
    have step: "absorbed ?s2 (m @ take ?c data)"
    proof (cases "?b + ?c = 64")
      case True
      have "?buf = take ?b (hbuffer s) @ take ?c data"
        using True b by simp
      from absorbed_fill [OF "1.prems" _ this, unfolded len, OF True] True show ?thesis
        by simp
    next
      case False
      then have "?b + length (take ?c data) < 64"
        using b unfolding len by linarith
      from absorbed_partial [OF "1.prems" this refl, unfolded len] False show ?thesis
        by (simp only: if_False)
    qed
    have "Hasher_Write s data = Hasher_Write ?s2 (drop ?c data)"
      using False b by (subst Hasher_Write.simps) (simp add: Let_def)
    moreover have "absorbed (Hasher_Write ?s2 (drop ?c data)) ((m @ take ?c data) @ drop ?c data)"
      by (rule "1.IH" [OF _ refl refl refl refl]) (use False b step in \<open>simp_all add: Let_def\<close>)
    ultimately show ?thesis by simp
  qed
qed

lemma length_ReadWrite [simp, bytes_simps]: "length (WriteBE32 w) = 4" "length (WriteBE64 v) = 8"
  by (simp_all add: WriteBE32_def WriteBE64_def)

lemma length_Transform [simp]: "length (Transform st c) = 8"
  by (simp add: Transform_def Let_def split: prod.splits)

lemma length_foldl_Transform [simp]: "length st = 8 \<Longrightarrow> length (foldl Transform st cs) = 8"
  by (induction cs arbitrary: st) simp_all

lemma length_H0 [simp]: "length sha_H0 = 8"
  by (simp add: sha_H0_def)

lemma padding_eq:
  fixes n :: nat
  assumes "b = n mod 64"
  shows "(if b < 56 then 56 - b else 120 - b) - 1 = (119 - n mod 64) mod 64"
proof -
  have "n mod 64 < 64" by simp
  moreover have "(119 - k) mod 64 = 119 - k" if "56 \<le> k" "k < 64" for k :: nat
    using that by simp
  moreover have "(119 - k) mod 64 = 55 - k" if "k < 56" for k :: nat
    using that by (simp add: le_mod_geq)
  ultimately show ?thesis using assms by (cases "b < 56") simp_all
qed

lemma concat_words: "length ws = 8 \<Longrightarrow> concat (map (\<lambda>i. f (ws ! i)) [0..<8]) = concat (map f ws)"
  using arg_cong [OF map_nth [of ws], of "\<lambda>xs. concat (map f xs)"] by (simp add: comp_def)

lemma Finalize_absorbed: "absorbed s m \<Longrightarrow> Hasher_Finalize s = (hash_of_blocks m, Hasher_Reset)"
proof -
  assume s: "absorbed s m"
  let ?p = "if buffer_size s < 56 then 56 - buffer_size s else 120 - buffer_size s"
  have "0x80 # replicate (?p - 1) 0 @ WriteBE64 (byte_count s * 8) = sha_pad m"
    using s padding_eq [of "buffer_size s" "length m"]
    by (simp add: sha_pad_def absorbed_def mult.commute)
  moreover have "hstate (Hasher_Write s (sha_pad m)) = foldl Transform sha_H0 (full_blocks (m @ sha_pad m))"
    using absorbed_Write [OF s] by (simp add: absorbed_def)
  ultimately show ?thesis
    by (simp add: Hasher_Finalize_def hash_of_blocks_def Let_def concat_words)
qed

lemma Hash256_spec: "Hash256 m = hash_of_blocks m"
  using absorbed_Write [OF absorbed_Reset, of m] by (simp add: Hash256_def Finalize_absorbed)

lemma length_concat_WriteBE32: "length (concat (map WriteBE32 ws)) = 4 * length ws"
  by (induction ws) simp_all

lemma length_Hash256 [simp, bytes_simps]: "length (Hash256 m) = 32"
  by (simp add: Hash256_spec hash_of_blocks_def length_concat_WriteBE32)

lemma length_Hash256d [simp, bytes_simps]: "length (Hash256d m) = 32"
  by (simp add: Hash256d_def)

lemma pad_length_mod: "length (m @ sha_pad m) mod 64 = 0"
proof -
  let ?r = "length m mod 64"
  have r: "?r < 64" by simp
  have pad: "length (sha_pad m) = 9 + (119 - ?r) mod 64"
    by (simp add: sha_pad_def)
  show ?thesis
  proof (cases "?r < 56")
    case True
    then have "?r + (9 + (119 - ?r) mod 64) = 64"
      by (simp add: le_mod_geq)
    then show ?thesis by (simp only: length_append pad add_mod64 [of "length m"]) simp
  next
    case False
    then have "?r + (9 + (119 - ?r) mod 64) = 128"
      using r by simp
    then show ?thesis by (simp only: length_append pad add_mod64 [of "length m"]) simp
  qed
qed

subsection \<open>Messages in pieces\<close>

lemma absorbed_pieces: "absorbed s m \<Longrightarrow> absorbed (foldl Hasher_Write s pieces) (m @ concat pieces)"
  by (induction pieces arbitrary: s m) (auto dest: absorbed_Write simp flip: append_assoc)

lemma Hasher_pieces: "Hasher_Finalize (foldl Hasher_Write Hasher_Reset pieces) = (hash_of_blocks (concat pieces), Hasher_Reset)"
  using absorbed_pieces [OF absorbed_Reset, of pieces] by (simp add: Finalize_absorbed)

text \<open>
  The tagged hash is the hash of the tag's hash, twice, followed by the data, as BIP-340 has it.
\<close>

theorem tagged_hash_is_bip340: "HashTagged tag data = Hash256 (Hash256 tag @ Hash256 tag @ data)"
  using Hasher_pieces [of "[Hash256 tag, Hash256 tag, data]"]
  by (simp add: HashTagged_def Tagged_init_def Let_def Hash256_spec)

end
