(* ===== verification/Fips180.thy ===== *)
theory Fips180
  imports Sha256 Complex_Main
begin

section \<open>SHA-256 as the standard defines it\<close>

text \<open>
  An account of SHA-256 after FIPS 180-4 that uses nothing of the model: the constants are the first 32 bits of the fractional parts of the
  cube roots (the round constants) and square roots (the initial hash value) of the first primes, over the reals; the functions of the
  rounds are given by their bits, the rotations are those of the word library, numbers and bytes are converted by arithmetic, and the schedule and the working
  variables are recursions over the round number. The theory ends with the proof that the hasher of \<open>sha256.cpp\<close> computes it.
\<close>

subsection \<open>Constants\<close>

definition is_prime :: "nat \<Rightarrow> bool" where
  "is_prime p \<longleftrightarrow> 1 < p \<and> (\<forall>d. 1 < d \<and> d < p \<longrightarrow> \<not> d dvd p)"

text \<open>The first 64 primes: those up to 311.\<close>

definition fips_primes :: "nat list" where
  "fips_primes = filter is_prime [2..<312]"

text \<open>The first 32 bits of the fractional part of a number.\<close>

definition fraction_bits :: "real \<Rightarrow> u32" where
  "fraction_bits x = of_int \<lfloor>frac x * 2 ^ 32\<rfloor>"

definition fips_K :: "nat \<Rightarrow> u32" where
  "fips_K t = fraction_bits (root 3 (real (fips_primes ! t)))"

definition fips_H0 :: "nat \<Rightarrow> u32" where
  "fips_H0 i = fraction_bits (sqrt (real (fips_primes ! i)))"

subsection \<open>Functions, schedule and rounds\<close>

text \<open>\<open>Ch\<close> takes each bit from \<open>y\<close> or \<open>z\<close> as that of \<open>x\<close> chooses, \<open>Maj\<close> is the majority of the three bits.\<close>

definition bitwise :: "(bool \<Rightarrow> bool \<Rightarrow> bool \<Rightarrow> bool) \<Rightarrow> u32 \<Rightarrow> u32 \<Rightarrow> u32 \<Rightarrow> u32" where
  "bitwise f x y z = horner_sum of_bool 2 (map (\<lambda>i. f (bit x i) (bit y i) (bit z i)) [0..<32])"

definition fips_Ch :: "u32 \<Rightarrow> u32 \<Rightarrow> u32 \<Rightarrow> u32" where
  "fips_Ch = bitwise (\<lambda>a b c. if a then b else c)"

definition fips_Maj :: "u32 \<Rightarrow> u32 \<Rightarrow> u32 \<Rightarrow> u32" where
  "fips_Maj = bitwise (\<lambda>a b c. 2 \<le> length (filter (\<lambda>v. v) [a, b, c]))"

definition fips_Sigma0 :: "u32 \<Rightarrow> u32" where
  "fips_Sigma0 x = word_rotr 2 x XOR word_rotr 13 x XOR word_rotr 22 x"

definition fips_Sigma1 :: "u32 \<Rightarrow> u32" where
  "fips_Sigma1 x = word_rotr 6 x XOR word_rotr 11 x XOR word_rotr 25 x"

definition fips_sigma0 :: "u32 \<Rightarrow> u32" where
  "fips_sigma0 x = word_rotr 7 x XOR word_rotr 18 x XOR x div 2 ^ 3"

definition fips_sigma1 :: "u32 \<Rightarrow> u32" where
  "fips_sigma1 x = word_rotr 17 x XOR word_rotr 19 x XOR x div 2 ^ 10"

fun fips_W :: "(nat \<Rightarrow> u32) \<Rightarrow> nat \<Rightarrow> u32" where
  "fips_W M t =
     (if t < 16 then M t
      else fips_sigma1 (fips_W M (t - 2)) + fips_W M (t - 7) + fips_sigma0 (fips_W M (t - 15)) + fips_W M (t - 16))"

declare fips_W.simps [simp del]

record Working =
  va :: u32  vb :: u32  vc :: u32  vd :: u32  ve :: u32  vf :: u32  vg :: u32  vh :: u32

primrec fips_working :: "(nat \<Rightarrow> u32) \<Rightarrow> Working \<Rightarrow> nat \<Rightarrow> Working" where
  "fips_working W v 0 = v"
| "fips_working W v (Suc t) =
     (let u = fips_working W v t;
          T1 = vh u + fips_Sigma1 (ve u) + fips_Ch (ve u) (vf u) (vg u) + fips_K t + W t;
          T2 = fips_Sigma0 (va u) + fips_Maj (va u) (vb u) (vc u)
      in \<lparr>va = T1 + T2, vb = va u, vc = vb u, vd = vc u, ve = vd u + T1, vf = ve u, vg = vf u, vh = vg u\<rparr>)"

definition working_list :: "Working \<Rightarrow> u32 list" where
  "working_list v = [va v, vb v, vc v, vd v, ve v, vf v, vg v, vh v]"

text \<open>The hash value of the next block, from the one so far and the 16 words of the block.\<close>

definition fips_next :: "u32 list \<Rightarrow> (nat \<Rightarrow> u32) \<Rightarrow> u32 list" where
  "fips_next H M =
     (let v = \<lparr>va = H ! 0, vb = H ! 1, vc = H ! 2, vd = H ! 3, ve = H ! 4, vf = H ! 5, vg = H ! 6, vh = H ! 7\<rparr>
      in map2 (+) H (working_list (fips_working (fips_W M) v 64)))"

subsection \<open>Padding and parsing\<close>

text \<open>Numbers as bytes, the highest first, and back.\<close>

definition number_bytes :: "nat \<Rightarrow> nat \<Rightarrow> bytes" where
  "number_bytes k n = map (\<lambda>i. of_nat (n div 256 ^ (k - 1 - i))) [0..<k]"

definition bytes_number :: "bytes \<Rightarrow> nat" where
  "bytes_number bs = foldl (\<lambda>n b. 256 * n + unat b) 0 bs"

text \<open>
  A bit 1, as few bits 0 as make the length 448 modulo 512, and the length in bits as a 64-bit number. The standard only defines the hash of
  messages of less than \<open>2 ^ 64\<close> bits; for longer ones \<open>number_bytes\<close> takes the length modulo \<open>2 ^ 64\<close>, as the code does.
\<close>

definition fips_pad :: "bytes \<Rightarrow> bytes" where
  "fips_pad m = m @ [128] @ replicate (nat ((55 - int (length m)) mod 64)) 0 @ number_bytes 8 (8 * length m)"

definition fips_word :: "bytes \<Rightarrow> nat \<Rightarrow> nat \<Rightarrow> u32" where
  "fips_word m i j = of_nat (bytes_number (take 4 (drop (64 * i + 4 * j) m)))"

definition fips_sha256 :: "bytes \<Rightarrow> bytes" where
  "fips_sha256 m =
     (let p = fips_pad m;
          H = foldl (\<lambda>H i. fips_next H (fips_word p i)) (map fips_H0 [0..<8]) [0..<length p div 64]
      in concat (map (number_bytes 4 \<circ> unat) H))"

subsection \<open>The constants of the code\<close>

text \<open>For the numbers in question, trial division by the primes up to 17 decides primality.\<close>

lemma divisor_small:
  fixes p :: nat
  assumes "p < 361" "d dvd p" "1 < d" "d < p"
  shows "\<exists>s. 1 < s \<and> s < 19 \<and> s < p \<and> s dvd p"
proof -
  from \<open>d dvd p\<close> obtain e where e: "p = d * e" by (rule dvdE)
  have e1: "1 < e" using e assms(3,4) by (cases "e = 0 \<or> e = 1") auto
  show ?thesis
  proof (cases "d < 19")
    case True
    then show ?thesis using assms by blast
  next
    case False
    have "e < 19"
    proof (rule ccontr)
      assume "\<not> e < 19"
      then have "19 * 19 \<le> d * e" using False by (intro mult_le_mono) simp_all
      then show False using e assms(1) by simp
    qed
    then show ?thesis using e e1 assms(3) by (intro exI [of _ e]) simp
  qed
qed

definition trial :: "nat list" where "trial = [2, 3, 5, 7, 11, 13, 17]"

lemma trial_gt: "q \<in> set trial \<Longrightarrow> 1 < q"
  by (auto simp: trial_def)

lemma trial_divisor:
  assumes "1 < s" "s < 19"
  shows "\<exists>q \<in> set trial. q dvd s"
proof -
  have "list_all (\<lambda>s. 1 < s \<longrightarrow> list_ex (\<lambda>q. s mod q = 0) trial) [0..<19]" by code_simp
  then have "list_ex (\<lambda>q. s mod q = 0) trial" using assms by (simp add: list_all_iff del: upt.simps upt_rec_numeral)
  then show ?thesis by (auto simp: list_ex_iff)
qed

lemma is_prime_small:
  assumes "p < 361"
  shows "is_prime p \<longleftrightarrow> 1 < p \<and> list_all (\<lambda>d. d < p \<longrightarrow> p mod d \<noteq> 0) trial"
proof
  assume p: "is_prime p"
  then have "d < p \<longrightarrow> p mod d \<noteq> 0" if "d \<in> set trial" for d
    using trial_gt [OF that] by (auto simp: is_prime_def dvd_eq_mod_eq_0)
  then show "1 < p \<and> list_all (\<lambda>d. d < p \<longrightarrow> p mod d \<noteq> 0) trial"
    using p by (simp add: list_all_iff is_prime_def)
next
  assume p: "1 < p \<and> list_all (\<lambda>d. d < p \<longrightarrow> p mod d \<noteq> 0) trial"
  have "\<not> d dvd p" if d: "1 < d" "d < p" for d
  proof
    assume "d dvd p"
    then obtain s where s: "1 < s" "s < 19" "s < p" "s dvd p" using divisor_small [OF assms] d by blast
    then obtain q where q: "q \<in> set trial" "q dvd s" using trial_divisor by blast
    have "q \<le> s" using q(2) s(1) by (intro dvd_imp_le) simp_all
    then have "p mod q \<noteq> 0" using p q(1) s(3) by (simp add: list_all_iff)
    moreover have "q dvd p" using q(2) s(4) by (rule dvd_trans)
    ultimately show False by simp
  qed
  then show "is_prime p" using p by (simp add: is_prime_def)
qed

lemma filter_is_prime:
  "b \<le> 361 \<Longrightarrow> filter is_prime [a..<b] = filter (\<lambda>p. 1 < p \<and> list_all (\<lambda>d. d < p \<longrightarrow> p mod d \<noteq> 0) trial) [a..<b]"
  by (rule filter_cong [OF refl]) (use is_prime_small in auto)

lemma primes_between:
  "filter is_prime [2..<60] = [2, 3, 5, 7, 11, 13, 17, 19, 23, 29, 31, 37, 41, 43, 47, 53, 59]"
  "filter is_prime [60..<110] = [61, 67, 71, 73, 79, 83, 89, 97, 101, 103, 107, 109]"
  "filter is_prime [110..<160] = [113, 127, 131, 137, 139, 149, 151, 157]"
  "filter is_prime [160..<210] = [163, 167, 173, 179, 181, 191, 193, 197, 199]"
  "filter is_prime [210..<260] = [211, 223, 227, 229, 233, 239, 241, 251, 257]"
  "filter is_prime [260..<312] = [263, 269, 271, 277, 281, 283, 293, 307, 311]"
  by (subst filter_is_prime, simp, simp add: trial_def upt_rec_numeral)+

lemma upt_join: "[a..<b] @ [b..<c] = [a..<c]" if "a \<le> b \<and> b \<le> c" for a b c :: nat
  using upt_add_eq_append [of a b "c - b"] that by simp

lemma fips_primes_eq: "fips_primes = [2, 3, 5, 7, 11, 13, 17, 19, 23, 29, 31, 37, 41, 43, 47, 53, 59, 61, 67, 71, 73, 79, 83, 89, 97, 101, 103, 107, 109, 113, 127, 131,
    137, 139, 149, 151, 157, 163, 167, 173, 179, 181, 191, 193, 197, 199, 211, 223, 227, 229, 233, 239, 241, 251, 257, 263, 269, 271, 277, 281, 283, 293, 307, 311]"
proof -
  have "[2..<312::nat] = [2..<60] @ [60..<110] @ [110..<160] @ [160..<210] @ [210..<260] @ [260..<312]"
    by (simp add: upt_join del: upt_rec_numeral)
  then show ?thesis by (simp only: fips_primes_def filter_append primes_between append.simps)
qed

text \<open>A root scaled by \<open>2 ^ 32\<close> lies between two naturals whose powers enclose the scaled radicand.\<close>

lemma fraction_bits_eq:
  assumes "real n \<le> x * 2 ^ 32" and "x * 2 ^ 32 < real (Suc n)"
  shows "fraction_bits x = of_nat n"
proof -
  have "\<lfloor>x * 2 ^ 32\<rfloor> = int n" using assms by (intro floor_unique) simp_all
  moreover have "frac x * 2 ^ 32 = x * 2 ^ 32 - of_int (\<lfloor>x\<rfloor> * 2 ^ 32)" by (simp add: frac_def algebra_simps)
  ultimately have "\<lfloor>frac x * 2 ^ 32\<rfloor> = int n - \<lfloor>x\<rfloor> * 2 ^ 32" by (simp only: floor_diff_of_int)
  moreover have "(2 ^ 32 :: u32) = 0" by simp
  ultimately show ?thesis unfolding fraction_bits_def by (simp only: of_int_diff of_int_mult of_int_power of_int_numeral of_int_of_nat_eq) simp
qed

lemma cube_root_bits:
  assumes "n ^ 3 \<le> p * 2 ^ 96" and "p * 2 ^ 96 < Suc n ^ 3"
  shows "fraction_bits (root 3 (real p)) = of_nat n"
proof (rule fraction_bits_eq)
  have scaled: "root 3 (real p) * 2 ^ 32 = root 3 (real (p * 2 ^ 96))"
  proof -
    have "root 3 ((2 ^ 32) ^ 3 :: real) = 2 ^ 32" by (rule real_root_power_cancel) simp_all
    then show ?thesis by (simp add: real_root_mult flip: power_mult)
  qed
  have "root 3 (real (n ^ 3)) \<le> root 3 (real (p * 2 ^ 96))"
    using assms(1) by (subst real_root_le_iff) (simp, simp only: of_nat_le_iff)
  then show "real n \<le> root 3 (real p) * 2 ^ 32"
    unfolding scaled by (simp add: real_root_power_cancel)
  have "root 3 (real (p * 2 ^ 96)) < root 3 (real (Suc n ^ 3))"
    using assms(2) by (subst real_root_less_iff) (simp, simp only: of_nat_less_iff)
  then show "root 3 (real p) * 2 ^ 32 < real (Suc n)"
    unfolding scaled by (simp add: real_root_power_cancel del: of_nat_Suc)
qed

lemma square_root_bits:
  assumes "n ^ 2 \<le> p * 2 ^ 64" and "p * 2 ^ 64 < Suc n ^ 2"
  shows "fraction_bits (sqrt (real p)) = of_nat n"
proof (rule fraction_bits_eq)
  have scaled: "sqrt (real p) * 2 ^ 32 = sqrt (real (p * 2 ^ 64))"
  proof -
    have "sqrt ((2 ^ 32) ^ 2 :: real) = 2 ^ 32" by (rule real_sqrt_unique) simp_all
    then show ?thesis by (simp add: real_sqrt_mult flip: power_mult)
  qed
  have "sqrt (real (n ^ 2)) \<le> sqrt (real (p * 2 ^ 64))"
    using assms(1) by (subst real_sqrt_le_iff) (simp only: of_nat_le_iff)
  then show "real n \<le> sqrt (real p) * 2 ^ 32" unfolding scaled by simp
  have "sqrt (real (p * 2 ^ 64)) < sqrt (real (Suc n ^ 2))"
    using assms(2) by (subst real_sqrt_less_iff) (simp only: of_nat_less_iff)
  then show "sqrt (real p) * 2 ^ 32 < real (Suc n)" unfolding scaled by (simp del: of_nat_Suc)
qed

text \<open>The scaled roots, rounded down.\<close>

definition cube_roots :: "nat list" where
  "cube_roots = [
    5411319704, 6194414737, 7344290767, 8215976869, 9551921755, 10098905585, 11043570340, 11460697813,
    12214315672, 13195500289, 13492127166, 14311783875, 14809980276, 15046980094, 15499789991, 16133124468,
    16720292289, 16907126662, 17444216262, 17784676812, 17950125167, 18429019306, 18734950876, 19175934170,
    19734090066, 20001703533, 20132865992, 20390182855, 20516441075, 20764397895, 21588763473, 21813078375,
    22141143685, 22248366392, 22769593852, 22871018771, 23170020180, 23461497531, 23651862830, 23931792517,
    24205322401, 24295138891, 24734567280, 24820601251, 24990902297, 25075189284, 25569408389, 26045227120,
    26200031510, 26276752392, 26428864332, 26653801653, 26727943347, 27092625994, 27306805839, 27517677555,
    27725365998, 27793908591, 27997534228, 28131656200, 28198240250, 28526537963, 28973835255, 29099129074]"

definition square_roots :: "nat list" where
  "square_roots = [
    6074000999, 7439101573, 9603838834, 11363415354, 14244795007, 15485724812, 17708603819, 18721328409]"

lemma cube_roots_bounds: "list_all2 (\<lambda>p n. n ^ 3 \<le> p * 2 ^ 96 \<and> p * 2 ^ 96 < Suc n ^ 3) fips_primes cube_roots"
  by (simp add: fips_primes_eq cube_roots_def)

lemma square_roots_bounds: "list_all2 (\<lambda>p n. n ^ 2 \<le> p * 2 ^ 64 \<and> p * 2 ^ 64 < Suc n ^ 2) (take 8 fips_primes) square_roots"
  by (simp add: fips_primes_eq square_roots_def)

lemma sha_K_roots: "sha_K = map of_nat cube_roots"
  by (simp add: sha_K_def cube_roots_def)

lemma sha_H0_roots: "sha_H0 = map of_nat square_roots"
  by (simp add: sha_H0_def square_roots_def)

lemma sha_K_fips: "sha_K = map fips_K [0..<64]"
proof (rule nth_equalityI)
  have len: "length cube_roots = 64" by (simp add: cube_roots_def)
  then show "length sha_K = length (map fips_K [0..<64])" by (simp add: sha_K_roots)
  fix t assume "t < length sha_K"
  then have t: "t < 64" by (simp add: sha_K_roots len)
  then show "sha_K ! t = map fips_K [0..<64] ! t"
    using cube_root_bits [of "cube_roots ! t" "fips_primes ! t"] list_all2_nthD2 [OF cube_roots_bounds, of t] len
    by (simp add: sha_K_roots fips_K_def)
qed

lemma sha_H0_fips: "sha_H0 = map fips_H0 [0..<8]"
proof (rule nth_equalityI)
  have len: "length square_roots = 8" by (simp add: square_roots_def)
  then show "length sha_H0 = length (map fips_H0 [0..<8])" by (simp add: sha_H0_roots)
  fix i assume "i < length sha_H0"
  then have i: "i < 8" by (simp add: sha_H0_roots len)
  then show "sha_H0 ! i = map fips_H0 [0..<8] ! i"
    using square_root_bits [of "square_roots ! i" "fips_primes ! i"] list_all2_nthD2 [OF square_roots_bounds, of i] len
    by (simp add: sha_H0_roots fips_H0_def)
qed

subsection \<open>The functions of the code\<close>

lemma ROTR_fips: "0 < n \<Longrightarrow> n < 32 \<Longrightarrow> ROTR x n = word_rotr n x"
proof (rule bit_word_eqI)
  fix i assume n: "0 < n" "n < 32" and i: "i < LENGTH(32)"
  show "bit (ROTR x n) i = bit (word_rotr n x) i"
  proof (cases "i + n < 32")
    case True
    then have "\<not> 32 - n \<le> i" by linarith
    with True show ?thesis using n i by (simp add: ROTR_def bit_simps add.commute)
  next
    case False
    then have "(i + n) mod 32 = i + n - 32" using n i by (simp add: mod_if)
    moreover have "\<not> bit x (n + i)" using False bit_imp_le_length [of x "n + i"] by auto
    moreover have "32 - n \<le> i" using False by linarith
    ultimately show ?thesis using False n i by (simp add: ROTR_def bit_simps add.commute)
  qed
qed

lemma bit_bitwise: "bit (bitwise f x y z) i \<longleftrightarrow> i < 32 \<and> f (bit x i) (bit y i) (bit z i)"
  by (auto simp: bitwise_def bit_horner_sum_bit_word_iff)

lemma CH_fips: "CH x y z = fips_Ch x y z"
  by (rule bit_word_eqI) (auto simp: CH_def fips_Ch_def bit_bitwise bit_simps)

lemma MAJ_fips: "MAJ x y z = fips_Maj x y z"
  by (rule bit_word_eqI) (auto simp: MAJ_def fips_Maj_def bit_bitwise bit_simps)

lemma drop_bit_fips: "drop_bit n x = x div 2 ^ n" for x :: u32
  by (rule drop_bit_eq_div)

lemma Sigmas_fips: "SIGMA0 x = fips_Sigma0 x" "SIGMA1 x = fips_Sigma1 x"
  "small_sigma0 x = fips_sigma0 x" "small_sigma1 x = fips_sigma1 x"
  by (simp_all add: SIGMA0_def SIGMA1_def small_sigma0_def small_sigma1_def fips_Sigma0_def fips_Sigma1_def
      fips_sigma0_def fips_sigma1_def ROTR_fips drop_bit_fips)

lemma schedule_fips:
  assumes "16 \<le> length W" and "\<forall>t < length W. W ! t = fips_W M t"
  shows "length (sha_schedule n W) = length W + n \<and> (\<forall>t < length W + n. sha_schedule n W ! t = fips_W M t)"
  using assms
proof (induction n W rule: sha_schedule.induct)
  case (2 n W)
  let ?w = "small_sigma1 (W ! (length W - 2)) + W ! (length W - 7) + small_sigma0 (W ! (length W - 15)) + W ! (length W - 16)"
  have "?w = fips_W M (length W)"
    using 2(2,3) by (subst fips_W.simps) (simp add: Sigmas_fips)
  then have "\<forall>t < length (W @ [?w]). (W @ [?w]) ! t = fips_W M t"
    using 2(3) by (auto simp: nth_append less_Suc_eq)
  then show ?case using 2(1) [OF refl] 2(2) by (simp add: Let_def)
qed simp

definition working_regs :: "Working \<Rightarrow> sha_regs" where
  "working_regs v = (va v, vb v, vc v, vd v, ve v, vf v, vg v, vh v)"

lemma rounds_append:
  "length ks = length ws \<Longrightarrow> sha_rounds r (ks @ [k]) (ws @ [w]) = sha_round (sha_rounds r ks ws) k w"
  by (induction r ks ws rule: sha_rounds.induct) (simp_all del: sha_round.simps)

lemma rounds_fips:
  "sha_rounds (working_regs v) (map fips_K [0..<n]) (map W [0..<n]) = working_regs (fips_working W v n)"
proof (induction n)
  case (Suc n)
  then show ?case
    by (simp add: rounds_append Let_def working_regs_def CH_fips MAJ_fips Sigmas_fips)
qed simp

subsection \<open>Bytes and numbers\<close>

lemma ucast_number: "(ucast (b :: u8) :: u32) = of_nat (unat b)"
  by simp

lemma or_is_add:
  fixes x y :: u32
  assumes "\<And>i. bit y i \<Longrightarrow> i < n"
  shows "push_bit n x OR y = push_bit n x + y"
proof (rule disjunctive_add [symmetric])
  show "\<not> bit (push_bit n x) i \<or> \<not> bit y i" for i
    using assms [of i] by (auto simp: bit_push_bit_iff)
qed

lemma bit_ucast8: "bit (ucast (b :: u8) :: u32) i \<Longrightarrow> i < 8"
  using bit_imp_le_length [of b i] by (simp add: bit_ucast_iff)

lemma ReadBE32_fips:
  assumes "length p = 4"
  shows "ReadBE32 p = of_nat (bytes_number p)"
proof -
  obtain a b c d where p: "p = [a, b, c, d]" using assms by (auto simp: length_Suc_conv numeral_eq_Suc)
  have 1: "push_bit 8 (ucast c) OR ucast d = push_bit 8 (ucast c :: u32) + ucast d"
    by (rule or_is_add) (rule bit_ucast8)
  have 2: "push_bit 16 (ucast b) OR push_bit 8 (ucast c) OR ucast d = push_bit 16 (ucast b :: u32) + (push_bit 8 (ucast c) OR ucast d)"
    by (rule or_is_add) (auto simp: bit_or_iff bit_push_bit_iff dest!: bit_ucast8)
  have 3: "push_bit 24 (ucast a) OR push_bit 16 (ucast b) OR push_bit 8 (ucast c) OR ucast d
      = push_bit 24 (ucast a :: u32) + (push_bit 16 (ucast b) OR push_bit 8 (ucast c) OR ucast d)"
    by (rule or_is_add) (auto simp: bit_or_iff bit_push_bit_iff dest!: bit_ucast8)
  have "ReadBE32 p = push_bit 24 (ucast a) + (push_bit 16 (ucast b) + (push_bit 8 (ucast c) + ucast d))"
    using 1 2 3 by (simp add: p ReadBE32_def or.assoc)
  also have "\<dots> = of_nat (bytes_number p)"
    by (simp add: p bytes_number_def push_bit_eq_mult)
  finally show ?thesis .
qed

lemma ucast_drop_bit: "(ucast (drop_bit n w) :: u8) = of_nat (unat w div 2 ^ n)" for w :: "'a::len word"
  by (metis of_nat_unat unat_drop_bit_eq drop_bit_eq_div)

lemma upt_4_8: "[0..<4] = [0, 1, 2, 3]" "[0..<8] = [0, 1, 2, 3, 4, 5, 6, 7]"
  by (simp_all add: upt_conv_Cons)

lemma WriteBE32_fips: "WriteBE32 w = number_bytes 4 (unat w)"
  using ucast_drop_bit [of 0 w]
  by (simp add: WriteBE32_def number_bytes_def ucast_drop_bit upt_4_8)

lemma byte_of_nat: "n \<le> 56 \<Longrightarrow> (ucast (drop_bit n (of_nat N :: u64)) :: u8) = of_nat (N div 2 ^ n)"
  by (rule bit_word_eqI) (auto simp: bit_simps simp flip: drop_bit_eq_div)

lemma WriteBE64_fips: "WriteBE64 (of_nat n * 8) = number_bytes 8 (8 * n)"
proof -
  have "(of_nat n * 8 :: u64) = of_nat (8 * n)" by simp
  moreover have "(ucast (of_nat (8 * n) :: u64) :: u8) = of_nat (8 * n)"
    using byte_of_nat [of 0 "8 * n"] by (simp only: drop_bit_0 id_apply power_0 div_by_1)
  ultimately show ?thesis
    by (simp add: WriteBE64_def number_bytes_def byte_of_nat upt_4_8 del: of_nat_mult)
qed

subsection \<open>The hash of the code\<close>

lemma fips_pad_eq: "fips_pad m = m @ sha_pad m"
proof -
  let ?n = "length m"
  have "(55 - int ?n) mod 64 = (119 - int ?n mod 64) mod 64"
    using mod_add_self2 [of "55 - int ?n" 64] by (simp add: mod_diff_right_eq)
  also have "?n mod 64 < 64" by simp
  then have "119 - int ?n mod 64 = int (119 - ?n mod 64)" by (simp add: of_nat_diff zmod_int)
  finally have "(55 - int ?n) mod 64 = int ((119 - ?n mod 64) mod 64)" by (simp only: zmod_int of_nat_numeral)
  then have "nat ((55 - int ?n) mod 64) = (119 - ?n mod 64) mod 64" by (simp only: nat_int)
  then show ?thesis by (simp add: fips_pad_def sha_pad_def WriteBE64_fips)
qed

lemma ReadBE32_take: "4 \<le> length p \<Longrightarrow> ReadBE32 p = of_nat (bytes_number (take 4 p))"
proof -
  assume p: "4 \<le> length p"
  then have "ReadBE32 p = ReadBE32 (take 4 p)" by (simp add: ReadBE32_def)
  then show ?thesis using p by (simp add: ReadBE32_fips)
qed

lemma Transform_fips:
  assumes "length H = 8" and "\<forall>j < 16. chunk_words chunk ! j = M j"
  shows "Transform H chunk = fips_next H M"
proof -
  let ?W = "sha_schedule 48 (chunk_words chunk)"
  let ?v = "\<lparr>va = H ! 0, vb = H ! 1, vc = H ! 2, vd = H ! 3, ve = H ! 4, vf = H ! 5, vg = H ! 6, vh = H ! 7\<rparr>"
  have "length (chunk_words chunk) = 16" by (simp add: chunk_words_def)
  moreover from this have "\<forall>t < length (chunk_words chunk). chunk_words chunk ! t = fips_W M t"
    using assms(2) by (simp add: fips_W.simps)
  ultimately have "length ?W = 64 \<and> (\<forall>t < 64. ?W ! t = fips_W M t)"
    using schedule_fips [of "chunk_words chunk" M 48] by simp
  then have "?W = map (fips_W M) [0..<64]" by (intro nth_equalityI) simp_all
  then have "sha_rounds (working_regs ?v) sha_K ?W = working_regs (fips_working (fips_W M) ?v 64)"
    by (simp only: sha_K_fips rounds_fips)
  moreover obtain a b c d e f g h where "H = [a, b, c, d, e, f, g, h]"
    using assms(1) by (auto simp: length_Suc_conv numeral_eq_Suc)
  ultimately show ?thesis
    by (simp add: Transform_def fips_next_def working_list_def working_regs_def Let_def)
qed

lemma length_fips_next [simp]: "length H = 8 \<Longrightarrow> length (fips_next H M) = 8"
  by (simp add: fips_next_def working_list_def Let_def)

lemma block_words_fips:
  assumes "i < length p div 64" and "j < 16"
  shows "chunk_words (take 64 (drop (64 * i) p)) ! j = fips_word p i j"
proof -
  let ?c = "take 64 (drop (64 * i) p)"
  have "length ?c = 64" using block_index_le [OF assms(1)] by simp
  then have "chunk_words ?c ! j = of_nat (bytes_number (take 4 (drop (j * 4) ?c)))"
    using assms(2) by (simp add: chunk_words_def ReadBE32_take)
  also have "take 4 (drop (j * 4) ?c) = take 4 (drop (64 * i + 4 * j) p)"
    using assms(2) by (simp add: drop_take min_def mult.commute add.commute)
  finally show ?thesis by (simp add: fips_word_def)
qed

lemma blocks_fips:
  "length H = 8 \<Longrightarrow> \<forall>i \<in> set is. i < length p div 64 \<Longrightarrow>
     foldl (\<lambda>H i. Transform H (take 64 (drop (64 * i) p))) H is = foldl (\<lambda>H i. fips_next H (fips_word p i)) H is"
proof (induction "is" arbitrary: H)
  case (Cons i "is")
  have "Transform H (take 64 (drop (64 * i) p)) = fips_next H (fips_word p i)"
    using Cons.prems block_words_fips [of i p] by (intro Transform_fips) simp_all
  then show ?case using Cons by simp
qed simp

lemma hash_of_blocks_fips: "hash_of_blocks m = fips_sha256 m"
proof -
  have "foldl Transform sha_H0 (full_blocks p) = foldl (\<lambda>H i. fips_next H (fips_word p i)) (map fips_H0 [0..<8]) [0..<length p div 64]" for p
    using blocks_fips [of sha_H0 "[0..<length p div 64]" p]
    by (simp add: full_blocks_def foldl_map sha_H0_fips del: upt_rec_numeral)
  moreover have "WriteBE32 = number_bytes 4 \<circ> unat" by (simp add: fun_eq_iff WriteBE32_fips)
  ultimately show ?thesis by (simp only: hash_of_blocks_def fips_sha256_def Let_def fips_pad_eq)
qed

subsection \<open>Properties\<close>

text \<open>
  C7. The buffered, chunk-by-chunk hasher computes the hash the standard defines: for every message and however it is cut into
  pieces, writing the pieces one after the other and finalizing gives the FIPS 180-4 hash of the message. The standard is stated above
  without the code's constants and functions. The hasher is left reset, so the same holds of the next message.
\<close>

theorem streaming_hash_is_fips:
  "Hasher_Finalize (foldl Hasher_Write Hasher_Reset pieces) = (fips_sha256 (concat pieces), Hasher_Reset)"
  by (simp add: Hasher_pieces hash_of_blocks_fips)

end
