(* ===== verification/Asset.thy ===== *)
theory Asset
  imports Prelude
begin

section \<open>Assets and supply caps\<close>

text \<open>
  Models \<open>layer1-talanton/core/primitives/asset.h\<close> and \<open>asset.cpp\<close>. \<open>AssetID\<close> is an
  \<open>enum class\<close> over \<open>uint8_t\<close>, so every byte is a value of the type (the deserializer casts an
  arbitrary byte to it) and the three named assets are the bytes 0, 1 and 2: the model keeps
  the byte. Whatever switches on an asset has the code's \<open>default\<close> branch for the others.
\<close>

type_synonym AssetID = u8

abbreviation (input) TALANTON :: AssetID where "TALANTON \<equiv> 0"
abbreviation (input) DRACHMA :: AssetID where "DRACHMA \<equiv> 1"
abbreviation (input) OBOLOS :: AssetID where "OBOLOS \<equiv> 2"

definition BASE_UNIT :: u64 where "BASE_UNIT = 100000000"
definition HALVING_INTERVAL :: u64 where "HALVING_INTERVAL = 210000"
definition TALN_MAX_SUPPLY :: u64 where "TALN_MAX_SUPPLY = 21000000 * BASE_UNIT"
definition DRM_MAX_SUPPLY :: u64 where "DRM_MAX_SUPPLY = 41000000 * BASE_UNIT"
definition OBL_MAX_SUPPLY :: u64 where "OBL_MAX_SUPPLY = 61000000 * BASE_UNIT"
definition TALN_ACHIEVABLE_SUPPLY :: u64 where "TALN_ACHIEVABLE_SUPPLY = 21000000 * BASE_UNIT"
definition DRM_ACHIEVABLE_SUPPLY :: u64 where "DRM_ACHIEVABLE_SUPPLY = 40740000 * BASE_UNIT"
definition OBL_ACHIEVABLE_SUPPLY :: u64 where "OBL_ACHIEVABLE_SUPPLY = 60900000 * BASE_UNIT"

definition GetMaxSupply :: "AssetID \<Rightarrow> u64" where
  "GetMaxSupply asset =
     (if asset = TALANTON then TALN_MAX_SUPPLY
      else if asset = DRACHMA then DRM_MAX_SUPPLY
      else if asset = OBOLOS then OBL_MAX_SUPPLY
      else 0)"

definition IsValidAmount :: "AssetID \<Rightarrow> u64 \<Rightarrow> bool" where
  "IsValidAmount asset amount = (amount \<le> GetMaxSupply asset)"

definition GetAchievableSupply :: "AssetID \<Rightarrow> u64" where
  "GetAchievableSupply asset =
     (if asset = TALANTON then TALN_ACHIEVABLE_SUPPLY
      else if asset = DRACHMA then DRM_ACHIEVABLE_SUPPLY
      else if asset = OBOLOS then OBL_ACHIEVABLE_SUPPLY
      else 0)"

definition GetAssetName :: "AssetID \<Rightarrow> string" where
  "GetAssetName asset =
     (if asset = TALANTON then ''TALANTON''
      else if asset = DRACHMA then ''DRACHMA''
      else if asset = OBOLOS then ''OBOLOS''
      else ''UNKNOWN'')"

definition GetAssetTicker :: "AssetID \<Rightarrow> string" where
  "GetAssetTicker asset =
     (if asset = TALANTON then ''TALN''
      else if asset = DRACHMA then ''DRM''
      else if asset = OBOLOS then ''OBL''
      else ''???'')"

subsection \<open>\<open>AssetAmount\<close>\<close>

record AssetAmount =
  asset_id :: AssetID
  asset_amount :: u64

definition AssetAmount_IsValid :: "AssetAmount \<Rightarrow> bool" where
  "AssetAmount_IsValid self = IsValidAmount (asset_id self) (asset_amount self)"

definition AssetAmount_Serialize :: "AssetAmount \<Rightarrow> bytes" where
  "AssetAmount_Serialize self = asset_id self # le64 (asset_amount self)"

text \<open>The caller guarantees nine readable bytes.\<close>

definition AssetAmount_Deserialize :: "bytes \<Rightarrow> AssetAmount" where
  "AssetAmount_Deserialize input =
     \<lparr>asset_id = input ! 0, asset_amount = read_le64 (drop 1 input)\<rparr>"

lemma length_AssetAmount_Serialize [simp, bytes_simps]:
  "length (AssetAmount_Serialize v) = 9"
  by (simp add: AssetAmount_Serialize_def)

lemma AssetAmount_roundtrip [simp, parse_simps]:
  "AssetAmount_Deserialize (AssetAmount_Serialize v @ rest) = v"
  by (cases v) (simp add: AssetAmount_Deserialize_def AssetAmount_Serialize_def)

subsection \<open>The caps as numbers\<close>

lemmas supply_defs = BASE_UNIT_def HALVING_INTERVAL_def TALN_MAX_SUPPLY_def DRM_MAX_SUPPLY_def
  OBL_MAX_SUPPLY_def TALN_ACHIEVABLE_SUPPLY_def DRM_ACHIEVABLE_SUPPLY_def
  OBL_ACHIEVABLE_SUPPLY_def

lemma GetMaxSupply_simps [simp]:
  "GetMaxSupply TALANTON = 2100000000000000"
  "GetMaxSupply DRACHMA = 4100000000000000"
  "GetMaxSupply OBOLOS = 6100000000000000"
  by (simp_all add: GetMaxSupply_def supply_defs)

lemma unat_GetMaxSupply_le: "unat (GetMaxSupply a) \<le> 6100000000000000"
  by (simp add: GetMaxSupply_def supply_defs)

lemma IsValidAmount_bound: "IsValidAmount a v \<Longrightarrow> unat v \<le> 6100000000000000"
  using unat_GetMaxSupply_le [of a] by (simp add: IsValidAmount_def word_le_nat_alt)

end
