(* ===== verification/Transaction.thy ===== *)
theory Transaction
  imports Asset Sha256
begin

section \<open>Transactions and their serialization\<close>

text \<open>
  Models \<open>layer1-talanton/core/primitives/transaction.h\<close> and \<open>transaction.cpp\<close>. A cursor
  \<open>(const uint8_t*& input, const uint8_t* end)\<close> is the list of the bytes between the two
  pointers; a reader returns its value and the bytes that are left. \<open>std::array<uint8_t, 32>\<close> is
  a byte list of length 32 (\<open>Transaction_wf\<close>). The two \<open>mutable\<close> caches of the class hold the
  value the function would compute again and are left out: every caller modelled here asks for
  the id of a transaction it does not change afterwards.
\<close>

subsection \<open>Compact sizes\<close>

definition WriteCompactSize :: "u64 \<Rightarrow> bytes" where
  "WriteCompactSize sz =
     (if sz < 253 then [ucast sz]
      else if sz \<le> 0xFFFF then [253, ucast sz, ucast (drop_bit 8 sz)]
      else if sz \<le> 0xFFFFFFFF then
        [254, ucast sz, ucast (drop_bit 8 sz), ucast (drop_bit 16 sz), ucast (drop_bit 24 sz)]
      else 255 # le64 sz)"

definition read_le16_as64 :: "bytes \<Rightarrow> u64" where
  "read_le16_as64 b = ucast (b ! 0) OR push_bit 8 (ucast (b ! 1))"

definition read_le32_as64 :: "bytes \<Rightarrow> u64" where
  "read_le32_as64 b = ucast (b ! 0) OR push_bit 8 (ucast (b ! 1)) OR push_bit 16 (ucast (b ! 2))
     OR push_bit 24 (ucast (b ! 3))"

text \<open>\<open>ReadCompactSize\<close> trusts its caller that the bytes are there.\<close>

definition ReadCompactSize :: "bytes \<Rightarrow> u64 \<times> bytes" where
  "ReadCompactSize input =
     (let first = hd input; rest = tl input in
      if first < 253 then (ucast first, rest)
      else if first = 253 then (read_le16_as64 rest, drop 2 rest)
      else if first = 254 then (read_le32_as64 rest, drop 4 rest)
      else (read_le64 rest, drop 8 rest))"

definition ReadCompactSizeChecked :: "bytes \<Rightarrow> (u64 \<times> bytes) option" where
  "ReadCompactSizeChecked input =
     (case input of
        [] \<Rightarrow> None
      | first # rest \<Rightarrow>
          if first < 253 then Some (ucast first, rest)
          else if first = 253 then
            (if length rest < 2 then None else Some (read_le16_as64 rest, drop 2 rest))
          else if first = 254 then
            (if length rest < 4 then None else Some (read_le32_as64 rest, drop 4 rest))
          else
            (if length rest < 8 then None else Some (read_le64 rest, drop 8 rest)))"

subsection \<open>Outpoints, inputs and outputs\<close>

datatype OutPoint = OutPoint (txid: bytes) (vout: u32)

abbreviation (input) COINBASE_VOUT_INDEX :: u32 where "COINBASE_VOUT_INDEX \<equiv> 0xFFFFFFFF"

abbreviation (input) zero_hash :: bytes where "zero_hash \<equiv> replicate 32 0"

text \<open>\<open>operator<\<close> orders by transaction id, then by index.\<close>

definition OutPoint_less :: "OutPoint \<Rightarrow> OutPoint \<Rightarrow> bool" where
  "OutPoint_less a b =
     (if txid a \<noteq> txid b then txid a < txid b else vout a < vout b)"

instantiation OutPoint :: linorder
begin

definition less_OutPoint :: "OutPoint \<Rightarrow> OutPoint \<Rightarrow> bool" where
  "less_OutPoint = OutPoint_less"

definition less_eq_OutPoint :: "OutPoint \<Rightarrow> OutPoint \<Rightarrow> bool" where
  "less_eq_OutPoint a b = (a = b \<or> a < b)"

instance
  by standard (auto simp: less_OutPoint_def OutPoint_less_def less_eq_OutPoint_def OutPoint.expand split: if_splits)

end

record TxInput =
  prevout :: OutPoint
  signature_script :: bytes
  sequence :: u32

record TxOutput =
  out_value :: AssetAmount
  pubkey_script :: bytes

record Transaction =
  version :: u32
  inputs :: "TxInput list"
  outputs :: "TxOutput list"
  locktime :: u32

definition OutPoint_Serialize :: "OutPoint \<Rightarrow> bytes" where
  "OutPoint_Serialize p = txid p @ le32 (vout p)"

definition OutPoint_Deserialize :: "bytes \<Rightarrow> OutPoint" where
  "OutPoint_Deserialize input = OutPoint (take 32 input) (read_le32 (drop 32 input))"

definition TxInput_Serialize :: "TxInput \<Rightarrow> bytes" where
  "TxInput_Serialize i =
     OutPoint_Serialize (prevout i)
     @ WriteCompactSize (of_nat (length (signature_script i))) @ signature_script i
     @ le32 (sequence i)"

text \<open>
  \<open>script.resize(n)\<close>: no implementation can give \<open>2 ^ 62\<close> bytes or more (the address space is
  smaller), so the call throws (\<open>std::length_error\<close> above \<open>PTRDIFF_MAX\<close>, \<open>std::bad_alloc\<close>
  below). The bounds check before it compares the cursor's distance with the length \<^emph>\<open>as the
  code does\<close>: added in \<open>uint64_t\<close>, then cast to the signed \<open>ptrdiff_t\<close>.
\<close>

definition MAX_ALLOC :: nat where "MAX_ALLOC = 2 ^ 62"

definition read_script :: "u64 \<Rightarrow> bytes \<Rightarrow> (bytes \<times> bytes) outcome" where
  "read_script script_len input =
     (if MAX_ALLOC \<le> unat script_len then Threw AllocError
      else Parsed (take (unat script_len) input, drop (unat script_len) input))"

definition TxInput_Deserialize :: "bytes \<Rightarrow> (TxInput \<times> bytes) outcome" where
  "TxInput_Deserialize input =
     (if length input < 36 then Nullopt
      else let p = OutPoint_Deserialize input; input1 = drop 36 input in
        case ReadCompactSizeChecked input1 of
          None \<Rightarrow> Nullopt
        | Some (script_len, input2) \<Rightarrow>
            if int (length input2) < sint (script_len + 4) then Nullopt
            else bind_outcome (read_script script_len input2) (\<lambda>(script, input3).
                   Parsed (\<lparr>prevout = p, signature_script = script, sequence = read_le32 input3\<rparr>,
                           drop 4 input3)))"

definition TxOutput_IsValid :: "TxOutput \<Rightarrow> bool" where
  "TxOutput_IsValid self = (AssetAmount_IsValid (out_value self) \<and> pubkey_script self \<noteq> [])"

definition TxOutput_Serialize :: "TxOutput \<Rightarrow> bytes" where
  "TxOutput_Serialize self =
     AssetAmount_Serialize (out_value self)
     @ WriteCompactSize (of_nat (length (pubkey_script self))) @ pubkey_script self"

definition TxOutput_Deserialize :: "bytes \<Rightarrow> (TxOutput \<times> bytes) outcome" where
  "TxOutput_Deserialize input =
     (if length input < 9 then Nullopt
      else let v = AssetAmount_Deserialize input; input1 = drop 9 input in
        case ReadCompactSizeChecked input1 of
          None \<Rightarrow> Nullopt
        | Some (script_len, input2) \<Rightarrow>
            if int (length input2) < sint script_len then Nullopt
            else bind_outcome (read_script script_len input2) (\<lambda>(script, input3).
                   Parsed (\<lparr>out_value = v, pubkey_script = script\<rparr>, input3)))"

subsection \<open>Transactions\<close>

definition Transaction_Serialize :: "Transaction \<Rightarrow> bytes" where
  "Transaction_Serialize tx =
     le32 (version tx)
     @ WriteCompactSize (of_nat (length (inputs tx))) @ concat (map TxInput_Serialize (inputs tx))
     @ WriteCompactSize (of_nat (length (outputs tx))) @ concat (map TxOutput_Serialize (outputs tx))
     @ le32 (locktime tx)"

text \<open>The two counting loops: read \<open>n\<close> elements, stop at the first failure.\<close>

fun read_many :: "(bytes \<Rightarrow> ('a \<times> bytes) outcome) \<Rightarrow> nat \<Rightarrow> bytes \<Rightarrow> ('a list \<times> bytes) outcome" where
  "read_many rd 0 input = Parsed ([], input)"
| "read_many rd (Suc n) input =
     bind_outcome (rd input) (\<lambda>(x, input1).
       bind_outcome (read_many rd n input1) (\<lambda>(xs, input2). Parsed (x # xs, input2)))"

text \<open>
  \<open>Deserialize(data, len, consumed)\<close>; what it leaves unread stands for \<open>consumed\<close>
  (\<open>consumed = len - length rest\<close>).
\<close>

definition Transaction_DeserializePrefix :: "bytes \<Rightarrow> (Transaction \<times> bytes) outcome" where
  "Transaction_DeserializePrefix data =
     (if length data < 10 then Nullopt
      else let ver = read_le32 data; ptr1 = drop 4 data in
        case ReadCompactSizeChecked ptr1 of
          None \<Rightarrow> Nullopt
        | Some (input_count, ptr2) \<Rightarrow>
            if input_count > 100000 then Nullopt
            else bind_outcome (read_many TxInput_Deserialize (unat input_count) ptr2)
              (\<lambda>(ins, ptr3).
                case ReadCompactSizeChecked ptr3 of
                  None \<Rightarrow> Nullopt
                | Some (output_count, ptr4) \<Rightarrow>
                    if output_count > 100000 then Nullopt
                    else bind_outcome (read_many TxOutput_Deserialize (unat output_count) ptr4)
                      (\<lambda>(outs, ptr5).
                        if length ptr5 < 4 then Nullopt
                        else Parsed (\<lparr>version = ver, inputs = ins, outputs = outs,
                                      locktime = read_le32 ptr5\<rparr>, drop 4 ptr5))))"

text \<open>The whole-buffer variant accepts only if every byte was consumed.\<close>

definition Transaction_Deserialize :: "bytes \<Rightarrow> Transaction outcome" where
  "Transaction_Deserialize data =
     bind_outcome (Transaction_DeserializePrefix data)
       (\<lambda>(tx, rest). if rest \<noteq> [] then Nullopt else Parsed tx)"

definition GetTxID :: "Transaction \<Rightarrow> bytes" where
  "GetTxID tx = Hash256d (Transaction_Serialize tx)"

definition GetSerializedSize :: "Transaction \<Rightarrow> nat" where
  "GetSerializedSize tx = length (Transaction_Serialize tx)"

text \<open>
  The two functions above give the values; the objects keep them in two mutable members once computed, and
  \<open>Deserialize\<close> fills in the number of bytes it read. The other components use the values: \<open>coherent_cache\<close> below shows that the
  members do not change them, except for the size of an object that was read and never asked for its id
  (\<open>read_size_may_differ\<close>). Every call of \<open>GetSerializedSize\<close> (\<open>mempool.cpp\<close>, \<open>mempool.h\<close>) is made on an object, or the copy
  of one, that was asked for its id before.
\<close>

record TxCache =
  cached_txid :: "bytes option"
  cached_serialized_size :: "nat option"

definition TxCache_empty :: TxCache where
  "TxCache_empty = \<lparr>cached_txid = None, cached_serialized_size = None\<rparr>"

definition Deserialize_cache :: "bytes \<Rightarrow> (Transaction \<times> bytes) outcome \<Rightarrow> TxCache" where
  "Deserialize_cache data result =
     (case result of
        Parsed (tx, rest) \<Rightarrow> \<lparr>cached_txid = None, cached_serialized_size = Some (length data - length rest)\<rparr>
      | _ \<Rightarrow> TxCache_empty)"

definition cached_GetTxID :: "Transaction \<Rightarrow> TxCache \<Rightarrow> bytes \<times> TxCache" where
  "cached_GetTxID tx k =
     (case cached_txid k of
        Some t \<Rightarrow> (t, k)
      | None \<Rightarrow>
          let serialized = Transaction_Serialize tx; t = Hash256d serialized in
          (t, k\<lparr>cached_txid := Some t, cached_serialized_size := Some (length serialized)\<rparr>))"

definition cached_GetSerializedSize :: "Transaction \<Rightarrow> TxCache \<Rightarrow> nat \<times> TxCache" where
  "cached_GetSerializedSize tx k =
     (case cached_serialized_size k of
        Some n \<Rightarrow> (n, k)
      | None \<Rightarrow> let n = length (Transaction_Serialize tx) in (n, k\<lparr>cached_serialized_size := Some n\<rparr>))"

definition SerializeForSigning :: "Transaction \<Rightarrow> nat \<Rightarrow> bytes" where
  "SerializeForSigning tx input_index =
     le32 (version tx)
     @ WriteCompactSize (of_nat (length (inputs tx)))
     @ concat (map (\<lambda>i. let input_copy = inputs tx ! i
                         in TxInput_Serialize
                              (if i \<noteq> input_index then input_copy\<lparr>signature_script := []\<rparr>
                               else input_copy))
                 [0..<length (inputs tx)])
     @ WriteCompactSize (of_nat (length (outputs tx))) @ concat (map TxOutput_Serialize (outputs tx))
     @ le32 (locktime tx)"

definition GetSignatureHash :: "Transaction \<Rightarrow> nat \<Rightarrow> bytes" where
  "GetSignatureHash tx input_index = Hash256 (SerializeForSigning tx input_index)"

definition IsCoinbase :: "Transaction \<Rightarrow> bool" where
  "IsCoinbase tx =
     (length (inputs tx) = 1 \<and> vout (prevout (inputs tx ! 0)) = COINBASE_VOUT_INDEX
      \<and> txid (prevout (inputs tx ! 0)) = zero_hash)"

text \<open>The loop over a growing \<open>std::set<OutPoint>\<close>: it stops at an outpoint already seen.\<close>

fun duplicate_inputs :: "OutPoint set \<Rightarrow> TxInput list \<Rightarrow> bool" where
  "duplicate_inputs seen [] = False"
| "duplicate_inputs seen (i # is) =
     (if prevout i \<in> seen then True else duplicate_inputs (insert (prevout i) seen) is)"

definition Transaction_IsValid :: "Transaction \<Rightarrow> bool" where
  "Transaction_IsValid tx =
     (if inputs tx = [] \<or> outputs tx = [] then False
      else if \<not> list_all TxOutput_IsValid (outputs tx) then False
      else if \<not> IsCoinbase tx \<and> duplicate_inputs {} (inputs tx) then False
      else True)"

subsection \<open>Codecs\<close>

text \<open>
  A serializer and its reader. The reader hands back a suffix of what it was given (it never
  reads past the end), and a written value, followed by anything, is read back. Counted lists of
  a codec are a codec again, and written values are uniquely decodable.
\<close>

locale byte_reader =
  fixes rd :: "bytes \<Rightarrow> ('a \<times> bytes) outcome"
  assumes reads_prefix: "rd input = Parsed (x, rest) \<Longrightarrow> suffix rest input"
begin

lemma read_many_prefix: "read_many rd n input = Parsed (xs, rest) \<Longrightarrow> suffix rest input"
proof (induction n arbitrary: input xs)
  case (Suc n)
  then obtain x input1 xs' where "rd input = Parsed (x, input1)"
    and "read_many rd n input1 = Parsed (xs', rest)"
    by (auto simp: bind_outcome_Parsed_conv split: prod.splits)
  with Suc.IH reads_prefix show ?case by (blast intro: suffix_order.order_trans)
qed simp

lemma read_many_length: "read_many rd n input = Parsed (xs, rest) \<Longrightarrow> length xs = n"
  by (induction n arbitrary: input xs) (auto simp: bind_outcome_Parsed_conv split: prod.splits)

end

locale byte_codec = byte_reader rd for rd :: "bytes \<Rightarrow> ('a \<times> bytes) outcome" +
  fixes wr :: "'a \<Rightarrow> bytes"
    and wf :: "'a \<Rightarrow> bool"
  assumes read_written: "wf x \<Longrightarrow> rd (wr x @ rest) = Parsed (x, rest)"
begin

lemma read_many_written:
  "\<forall>x \<in> set xs. wf x \<Longrightarrow> read_many rd (length xs) (concat (map wr xs) @ rest) = Parsed (xs, rest)"
  by (induction xs) (simp_all add: read_written)

lemma uniquely_decodable:
  "wf x \<Longrightarrow> wf y \<Longrightarrow> wr x @ r = wr y @ r' \<Longrightarrow> x = y \<and> r = r'"
  by (metis outcome.inject prod.inject read_written)

end

subsection \<open>Compact sizes round trip\<close>

lemma read16_write:
  assumes "unat x < 2 ^ 16"
  shows "read_le16_as64 (ucast x # ucast (drop_bit 8 x) # rest) = x"
proof (rule bit_word_eqI)
  fix n :: nat
  assume "n < LENGTH(64)"
  then consider "n < 8" | "8 \<le> n" "n < 16" | "16 \<le> n" "\<not> bit x n"
    using bit_small [OF assms, of n] by linarith
  then show "bit (read_le16_as64 (ucast x # ucast (drop_bit 8 x) # rest)) n = bit x n"
    by cases (simp_all add: read_le16_as64_def bit_simps less_diff_conv2)
qed

lemma read32_write:
  assumes "unat x < 2 ^ 32"
  shows "read_le32_as64 (ucast x # ucast (drop_bit 8 x) # ucast (drop_bit 16 x)
           # ucast (drop_bit 24 x) # rest) = x"
proof (rule bit_word_eqI)
  fix n :: nat
  assume "n < LENGTH(64)"
  then consider "n < 8" | "8 \<le> n" "n < 16" | "16 \<le> n" "n < 24" | "24 \<le> n" "n < 32"
    | "32 \<le> n" "\<not> bit x n"
    using bit_small [OF assms, of n] by linarith
  then show "bit (read_le32_as64 (ucast x # ucast (drop_bit 8 x) # ucast (drop_bit 16 x)
           # ucast (drop_bit 24 x) # rest)) n = bit x n"
    by cases (simp_all add: read_le32_as64_def bit_simps less_diff_conv2)
qed

lemma write16_read:
  "(ucast (read_le16_as64 (a # b # rest)) :: u8) = a"
  "(ucast (drop_bit 8 (read_le16_as64 (a # b # rest))) :: u8) = b"
  by (rule bit_word_eqI, simp add: read_le16_as64_def bit_simps byte_bit_high)+

lemma write32_read:
  "(ucast (read_le32_as64 (a # b # c # d # rest)) :: u8) = a"
  "(ucast (drop_bit 8 (read_le32_as64 (a # b # c # d # rest))) :: u8) = b"
  "(ucast (drop_bit 16 (read_le32_as64 (a # b # c # d # rest))) :: u8) = c"
  "(ucast (drop_bit 24 (read_le32_as64 (a # b # c # d # rest))) :: u8) = d"
  by (rule bit_word_eqI, simp add: read_le32_as64_def bit_simps byte_bit_high)+

lemma ReadCompactSizeChecked_Write [simp, parse_simps]:
  "ReadCompactSizeChecked (WriteCompactSize n @ rest) = Some (n, rest)"
proof -
  consider "n < 253" | "253 \<le> n" "n \<le> 0xFFFF" | "0xFFFF < n" "n \<le> 0xFFFFFFFF" | "0xFFFFFFFF < n"
    by (meson linorder_not_less)
  then show ?thesis
  proof cases
    case 1
    have v: "ucast (ucast n :: u8) = n" using 1 by (intro ucast_byte) (simp add: word_less_nat_alt)
    then have "(ucast n :: u8) < 253"
      using 1 by (simp add: word_less_nat_alt unsigned_ucast_eq take_bit_nat_eq_self)
    with 1 v show ?thesis by (simp add: WriteCompactSize_def ReadCompactSizeChecked_def)
  next
    case 2
    then have "unat n < 2 ^ 16" by (simp add: word_le_nat_alt)
    moreover have "\<not> n < 253" using 2 by simp
    ultimately show ?thesis
      using 2 read16_write [of n] by (simp add: WriteCompactSize_def ReadCompactSizeChecked_def)
  next
    case 3
    then have "unat n < 2 ^ 32" by (simp add: word_le_nat_alt)
    moreover have "\<not> n < 253" "\<not> n \<le> 0xFFFF"
      using 3 by (simp_all add: word_less_nat_alt word_le_nat_alt)
    ultimately show ?thesis
      using 3 read32_write [of n] by (simp add: WriteCompactSize_def ReadCompactSizeChecked_def)
  next
    case 4
    have "\<not> n < 253" "\<not> n \<le> 0xFFFF" "\<not> n \<le> 0xFFFFFFFF"
      using 4 by (simp_all add: word_less_nat_alt word_le_nat_alt)
    then show ?thesis
      by (simp add: WriteCompactSize_def ReadCompactSizeChecked_def)
  qed
qed

lemma ReadCompactSizeChecked_prefix:
  "ReadCompactSizeChecked input = Some (n, rest) \<Longrightarrow> suffix rest input"
  by (auto simp: ReadCompactSizeChecked_def suffix_ConsI suffix_drop split: list.splits if_splits)

subsection \<open>Well-formed transactions and their round trip\<close>

text \<open>
  The type invariant of the C++ objects: transaction ids are 32-byte arrays and scripts fit in
  memory. A transaction with more than 100000 inputs or outputs can be built but not read back.
\<close>

definition script_wf :: "bytes \<Rightarrow> bool" where
  "script_wf s \<longleftrightarrow> length s < MAX_ALLOC"

definition OutPoint_wf :: "OutPoint \<Rightarrow> bool" where
  "OutPoint_wf p \<longleftrightarrow> length (txid p) = 32"

definition TxInput_wf :: "TxInput \<Rightarrow> bool" where
  "TxInput_wf i \<longleftrightarrow> OutPoint_wf (prevout i) \<and> script_wf (signature_script i)"

definition TxOutput_wf :: "TxOutput \<Rightarrow> bool" where
  "TxOutput_wf v \<longleftrightarrow> script_wf (pubkey_script v)"

definition Transaction_wf :: "Transaction \<Rightarrow> bool" where
  "Transaction_wf tx \<longleftrightarrow> length (inputs tx) \<le> 100000 \<and> length (outputs tx) \<le> 100000
     \<and> (\<forall>i \<in> set (inputs tx). TxInput_wf i) \<and> (\<forall>v \<in> set (outputs tx). TxOutput_wf v)"

lemma length_OutPoint_Serialize: "OutPoint_wf p \<Longrightarrow> length (OutPoint_Serialize p) = 36"
  by (simp add: OutPoint_Serialize_def OutPoint_wf_def)

lemma OutPoint_roundtrip: "OutPoint_wf p \<Longrightarrow> OutPoint_Deserialize (OutPoint_Serialize p @ rest) = p"
  by (cases p) (simp add: OutPoint_Serialize_def OutPoint_Deserialize_def OutPoint_wf_def)

lemma read_script_written:
  "script_wf s \<Longrightarrow> read_script (of_nat (length s)) (s @ rest) = Parsed (s, rest)"
  by (simp add: read_script_def script_wf_def MAX_ALLOC_def unat_of_nat64)

lemma read_script_conv:
  "read_script n input = Parsed (s, rest)
    \<longleftrightarrow> unat n < MAX_ALLOC \<and> s = take (unat n) input \<and> rest = drop (unat n) input"
  by (auto simp: read_script_def)

lemma TxInput_read_written:
  assumes "TxInput_wf i"
  shows "TxInput_Deserialize (TxInput_Serialize i @ rest) = Parsed (i, rest)"
proof -
  have wf: "OutPoint_wf (prevout i)" and s: "script_wf (signature_script i)"
    using assms by (simp_all add: TxInput_wf_def)
  have n: "length (signature_script i) < 2 ^ 62"
    using s by (simp add: script_wf_def MAX_ALLOC_def)
  have "sint (of_nat (length (signature_script i)) + 4 :: u64) = int (length (signature_script i) + 4)"
    using sint_of_nat64 [of "length (signature_script i) + 4"] n by simp
  moreover have "drop 36 (TxInput_Serialize i @ rest)
      = WriteCompactSize (of_nat (length (signature_script i))) @ signature_script i
        @ le32 (sequence i) @ rest"
    using length_OutPoint_Serialize [OF wf] by (simp add: TxInput_Serialize_def)
  moreover have "OutPoint_Deserialize (TxInput_Serialize i @ rest) = prevout i"
    using OutPoint_roundtrip [OF wf] by (simp add: TxInput_Serialize_def)
  moreover have "\<not> length (TxInput_Serialize i @ rest) < 36"
    using length_OutPoint_Serialize [OF wf] by (simp add: TxInput_Serialize_def)
  ultimately show ?thesis
    using read_script_written [OF s] by (simp add: TxInput_Deserialize_def Let_def)
qed

lemma TxOutput_read_written:
  assumes "TxOutput_wf v"
  shows "TxOutput_Deserialize (TxOutput_Serialize v @ rest) = Parsed (v, rest)"
proof -
  have s: "script_wf (pubkey_script v)" using assms by (simp add: TxOutput_wf_def)
  have "sint (of_nat (length (pubkey_script v)) :: u64) = int (length (pubkey_script v))"
    using s by (intro sint_of_nat64) (simp add: script_wf_def MAX_ALLOC_def)
  then show ?thesis
    using read_script_written [OF s] by (simp add: TxOutput_Deserialize_def TxOutput_Serialize_def Let_def)
qed

lemmas suffix_chain = suffix_order.order_trans [OF suffix_drop] suffix_order.order_trans

lemma TxInput_reads_prefix:
  "TxInput_Deserialize input = Parsed (i, rest) \<Longrightarrow> suffix rest input"
  by (auto simp: TxInput_Deserialize_def Let_def bind_outcome_Parsed_conv read_script_conv
      split: if_splits option.splits dest!: ReadCompactSizeChecked_prefix)
     (blast intro: suffix_chain suffix_drop)

lemma TxOutput_reads_prefix:
  "TxOutput_Deserialize input = Parsed (v, rest) \<Longrightarrow> suffix rest input"
  by (auto simp: TxOutput_Deserialize_def Let_def bind_outcome_Parsed_conv read_script_conv
      split: if_splits option.splits dest!: ReadCompactSizeChecked_prefix)
     (blast intro: suffix_chain suffix_drop)

interpretation tx_input: byte_codec TxInput_Deserialize TxInput_Serialize TxInput_wf
  by unfold_locales (blast intro: TxInput_reads_prefix TxInput_read_written)+

interpretation tx_output: byte_codec TxOutput_Deserialize TxOutput_Serialize TxOutput_wf
  by unfold_locales (blast intro: TxOutput_reads_prefix TxOutput_read_written)+

lemma count_le: "n \<le> 100000 \<Longrightarrow> \<not> (100000 :: u64) < of_nat n \<and> unat (of_nat n :: u64) = n"
  by (simp add: word_less_nat_alt unat_of_nat64)

lemma Transaction_read_written:
  assumes "Transaction_wf tx"
  shows "Transaction_DeserializePrefix (Transaction_Serialize tx @ rest) = Parsed (tx, rest)"
proof -
  have n: "length (inputs tx) \<le> 100000" "length (outputs tx) \<le> 100000"
    and wf: "\<forall>i \<in> set (inputs tx). TxInput_wf i" "\<forall>v \<in> set (outputs tx). TxOutput_wf v"
    using assms by (simp_all add: Transaction_wf_def)
  have "\<not> length (Transaction_Serialize tx @ rest) < 10"
    by (simp add: Transaction_Serialize_def WriteCompactSize_def)
  then show ?thesis
    using count_le [OF n(1)] count_le [OF n(2)]
      tx_input.read_many_written [OF wf(1)] tx_output.read_many_written [OF wf(2)]
    by (simp add: Transaction_DeserializePrefix_def Transaction_Serialize_def Let_def)
qed

lemma Transaction_reads_prefix:
  "Transaction_DeserializePrefix input = Parsed (tx, rest) \<Longrightarrow> suffix rest input"
  by (clarsimp simp: Transaction_DeserializePrefix_def Let_def parsed_convs)
     (meson ReadCompactSizeChecked_prefix tx_input.read_many_prefix tx_output.read_many_prefix
        suffix_drop suffix_order.order_trans)

interpretation tx: byte_codec Transaction_DeserializePrefix Transaction_Serialize Transaction_wf
  by unfold_locales (blast intro: Transaction_reads_prefix Transaction_read_written)+

lemma duplicate_inputs_iff:
  "duplicate_inputs seen is \<longleftrightarrow> \<not> (distinct (map prevout is) \<and> prevout ` set is \<inter> seen = {})"
  by (induction "is" arbitrary: seen) auto

lemma Transaction_IsValidD:
  assumes "Transaction_IsValid tx"
  shows "inputs tx \<noteq> []" "outputs tx \<noteq> []" "\<forall>v \<in> set (outputs tx). TxOutput_IsValid v"
    "\<not> IsCoinbase tx \<Longrightarrow> distinct (map prevout (inputs tx))"
  using assms by (auto simp: Transaction_IsValid_def duplicate_inputs_iff list_all_iff split: if_splits)

subsection \<open>What the signing hash covers\<close>

text \<open>
  The wallet's signing loop (\<open>Wallet::CreateTransaction\<close>) hashes the transaction while the input's
  script is still empty, and then stores the signature in that script.
\<close>

definition set_signature_script :: "Transaction \<Rightarrow> nat \<Rightarrow> bytes \<Rightarrow> Transaction" where
  "set_signature_script tx i s =
     tx\<lparr>inputs := (inputs tx)[i := (inputs tx ! i)\<lparr>signature_script := s\<rparr>]\<rparr>"

definition signing_copy :: "Transaction \<Rightarrow> nat \<Rightarrow> nat \<Rightarrow> bytes" where
  "signing_copy tx input_index i =
     TxInput_Serialize (if i \<noteq> input_index then (inputs tx ! i)\<lparr>signature_script := []\<rparr>
                        else inputs tx ! i)"

lemma SerializeForSigning_alt:
  "SerializeForSigning tx k =
     le32 (version tx) @ WriteCompactSize (of_nat (length (inputs tx)))
     @ concat (map (signing_copy tx k) [0..<length (inputs tx)])
     @ WriteCompactSize (of_nat (length (outputs tx))) @ concat (map TxOutput_Serialize (outputs tx))
     @ le32 (locktime tx)"
  by (simp add: SerializeForSigning_def signing_copy_def Let_def comp_def cong: map_cong)

lemma signing_copy_other:
  "i \<noteq> k \<Longrightarrow> i < length (inputs tx) \<Longrightarrow>
     signing_copy (set_signature_script tx k s) k i = signing_copy tx k i"
  by (simp add: signing_copy_def set_signature_script_def)

lemma length_signing_copy_self:
  assumes "k < length (inputs tx)" and "signature_script (inputs tx ! k) = []" and "s \<noteq> []"
  shows "length (signing_copy tx k k) < length (signing_copy (set_signature_script tx k s) k k)"
proof -
  have "length (WriteCompactSize 0) \<le> length (WriteCompactSize n)" for n
    by (simp add: WriteCompactSize_def)
  from add_le_less_mono [OF this, of 0 "length s"] show ?thesis
    using assms by (simp add: signing_copy_def set_signature_script_def TxInput_Serialize_def)
qed

lemma SerializeForSigning_grows:
  assumes k: "k < length (inputs tx)" and "signature_script (inputs tx ! k) = []" and "s \<noteq> []"
  shows "length (SerializeForSigning tx k)
           < length (SerializeForSigning (set_signature_script tx k s) k)"
proof -
  let ?tx' = "set_signature_script tx k s" and ?n = "length (inputs tx)"
  let ?len = "\<lambda>t i. length (signing_copy t k i)"
  have "(\<Sum>i \<in> {0..<?n}. ?len tx i) < (\<Sum>i \<in> {0..<?n}. ?len ?tx' i)"
  proof (rule sum_strict_mono_ex1)
    show "\<forall>i \<in> {0..<?n}. ?len tx i \<le> ?len ?tx' i"
    proof
      fix i assume "i \<in> {0..<?n}"
      then show "?len tx i \<le> ?len ?tx' i"
        using length_signing_copy_self [OF assms] by (cases "i = k") (simp_all add: signing_copy_other)
    qed
    show "\<exists>i \<in> {0..<?n}. ?len tx i < ?len ?tx' i"
      using k length_signing_copy_self [OF assms] by auto
  qed simp
  then show ?thesis
    by (simp add: SerializeForSigning_alt length_concat comp_def interv_sum_list_conv_sum_set_nat
        set_signature_script_def)
qed

subsection \<open>The cached id and size\<close>

text \<open>What may be in the members: the id, and the size unless no id has been computed yet.\<close>

definition cache_ok :: "Transaction \<Rightarrow> TxCache \<Rightarrow> bool" where
  "cache_ok tx k \<longleftrightarrow> cached_txid k \<in> {None, Some (GetTxID tx)}
     \<and> (cached_txid k \<noteq> None \<longrightarrow> cached_serialized_size k = Some (GetSerializedSize tx))"

lemma coherent_cache:
  assumes "cache_ok tx k"
  shows "fst (cached_GetTxID tx k) = GetTxID tx" and "cache_ok tx (snd (cached_GetTxID tx k))"
    and "cached_txid (snd (cached_GetTxID tx k)) \<noteq> None" and "cache_ok tx (snd (cached_GetSerializedSize tx k))"
    and "cached_txid k \<noteq> None \<or> cached_serialized_size k = None \<Longrightarrow> fst (cached_GetSerializedSize tx k) = GetSerializedSize tx"
  using assms
  by (auto simp: cache_ok_def cached_GetTxID_def cached_GetSerializedSize_def GetTxID_def GetSerializedSize_def Let_def
      split: option.splits)

lemma fresh_cache_ok: "cache_ok tx TxCache_empty" "cache_ok tx (Deserialize_cache data result)"
  by (auto simp: cache_ok_def TxCache_empty_def Deserialize_cache_def split: outcome.splits)

text \<open>
  The compact sizes that are read need not be the shortest: a transaction whose input count is written in three bytes is read,
  and its size is two bytes more than its serialization has.
\<close>

lemma read_size_may_differ:
  "let data = [1, 0, 0, 0, 253, 0, 0, 0, 0, 0, 0, 0];
       result = Transaction_DeserializePrefix data in
   result = Parsed (\<lparr>version = 1, inputs = [], outputs = [], locktime = 0\<rparr>, [])
   \<and> fst (cached_GetSerializedSize \<lparr>version = 1, inputs = [], outputs = [], locktime = 0\<rparr> (Deserialize_cache data result)) = 12
   \<and> GetSerializedSize \<lparr>version = 1, inputs = [], outputs = [], locktime = 0\<rparr> = 10"
  by code_simp

subsection \<open>Properties\<close>

text \<open>A concrete transaction the instances below use.\<close>

definition sample_tx :: Transaction where
  "sample_tx =
     \<lparr>version = 1,
      inputs = [\<lparr>prevout = OutPoint zero_hash 0, signature_script = [], sequence = 0xFFFFFFFF\<rparr>],
      outputs = [\<lparr>out_value = \<lparr>asset_id = TALANTON, asset_amount = 5\<rparr>, pubkey_script = [7]\<rparr>],
      locktime = 0\<rparr>"

lemma sample_tx_wf: "Transaction_wf sample_tx"
  by (simp add: sample_tx_def Transaction_wf_def TxInput_wf_def TxOutput_wf_def OutPoint_wf_def
      script_wf_def MAX_ALLOC_def)

text \<open>
  A serialized transaction is parsed back to the same transaction, with nothing left over.
\<close>

theorem transaction_roundtrip:
  assumes "Transaction_wf tx"
  shows "Transaction_Deserialize (Transaction_Serialize tx) = Parsed tx"
  using tx.read_written [OF assms, of "[]"] by (simp add: Transaction_Deserialize_def)

theorem transaction_roundtrip_witness:
  "Transaction_Deserialize (Transaction_Serialize sample_tx) = Parsed sample_tx"
  by (rule transaction_roundtrip) (rule sample_tx_wf)

text \<open>
  Serialized transactions are uniquely decodable: two well-formed transactions written in a
  byte stream with the same bytes are the same transaction, and the same bytes follow.
\<close>

theorem transaction_serialize_unique:
  assumes "Transaction_wf tx" and "Transaction_wf tx'"
    and "Transaction_Serialize tx @ r = Transaction_Serialize tx' @ r'"
  shows "tx = tx' \<and> r = r'"
  using assms by (rule tx.uniquely_decodable)

theorem transaction_serialize_unique_witness:
  "sample_tx = sample_tx \<and> [1 :: u8] = [1]"
  by (rule transaction_serialize_unique) (simp_all add: sample_tx_wf)

text \<open>
  The input parser can throw: 36 bytes followed by a 9-byte compact size of \<open>2 ^ 63 - 4\<close> or more
  pass the length check (the addition wraps or the cast makes it negative) and the parser then
  asks for an impossible allocation instead of returning \<open>std::nullopt\<close>.
\<close>

theorem tx_input_length_check_wraps:
  assumes "length outpoint = 36" and "9223372036854775804 \<le> n"
  shows "TxInput_Deserialize (outpoint @ 255 # le64 n @ rest) =
     (if int (length rest) < sint (n + 4) then Nullopt else Threw AllocError)"
proof -
  have "MAX_ALLOC \<le> unat n"
    using assms(2) by (simp add: MAX_ALLOC_def word_le_nat_alt)
  then show ?thesis
    using assms(1) by (simp add: TxInput_Deserialize_def ReadCompactSizeChecked_def Let_def read_script_def)
qed

theorem tx_input_length_check_wraps_witness:
  "TxInput_Deserialize (replicate 36 0 @ 255 # le64 0xFFFFFFFFFFFFFFFC @ [1]) = Threw AllocError"
  using tx_input_length_check_wraps [of "replicate 36 0" "0xFFFFFFFFFFFFFFFC" "[1]"] by simp

text \<open>
  Signing and verifying hash different bytes: once the wallet has stored a (non-empty) signature
  in an input, the bytes the verifier hashes for that input are longer than the ones that were signed.
\<close>

theorem signing_hash_covers_own_script:
  assumes "k < length (inputs tx)" and "signature_script (inputs tx ! k) = []" and "s \<noteq> []"
  shows "SerializeForSigning (set_signature_script tx k s) k \<noteq> SerializeForSigning tx k"
  using SerializeForSigning_grows [OF assms] by auto

theorem signing_hash_covers_own_script_witness:
  "SerializeForSigning (set_signature_script sample_tx 0 [1, 2]) 0 \<noteq> SerializeForSigning sample_tx 0"
  by (rule signing_hash_covers_own_script) (simp_all add: sample_tx_def)

end
