(* ===== verification/Difficulty.thy ===== *)
theory Difficulty
  imports Prelude
begin

section \<open>Difficulty targets and proof of work\<close>

text \<open>
  Models \<open>layer1-talanton/core/consensus/difficulty.h\<close> and \<open>difficulty.cpp\<close>. A target and a
  hash are 32-byte arrays read as little-endian 256-bit numbers (\<open>le_value\<close>); a compact target
  is a 32-bit word of exponent and mantissa. A division by zero, undefined in C++, is \<open>None\<close>.
\<close>

definition CompactToBits256 :: "u32 \<Rightarrow> bytes" where
  "CompactToBits256 compact =
     (let target = replicate 32 0;
          exponent = drop_bit 24 compact;
          mantissa = compact AND 0x00FFFFFF in
      if exponent = 0 then target
      else if exponent \<le> 3 then
        let shifted = drop_bit (unat (8 * (3 - exponent))) mantissa;
            target1 = target[0 := ucast shifted];
            target2 = (if 2 \<le> exponent then target1[1 := ucast (drop_bit 8 shifted)] else target1);
            target3 = (if 3 \<le> exponent then target2[2 := ucast (drop_bit 16 shifted)] else target2)
        in target3
      else if exponent \<le> 32 then
        let offset = unat (exponent - 3)
        in target[offset := ucast mantissa, offset + 1 := ucast (drop_bit 8 mantissa),
                  offset + 2 := ucast (drop_bit 16 mantissa)]
      else target)"

text \<open>The downward scan for the most significant non-zero byte.\<close>

fun significant_bytes :: "nat \<Rightarrow> bytes \<Rightarrow> nat" where
  "significant_bytes 0 target = 0"
| "significant_bytes (Suc k) target =
     (if target ! k = 0 then significant_bytes k target else Suc k)"

definition Bits256ToCompact :: "bytes \<Rightarrow> u32" where
  "Bits256ToCompact target =
     (let exponent = significant_bytes 32 target in
      if exponent = 0 then 0
      else
        let mantissa =
              (if 3 \<le> exponent then
                 push_bit 8 (push_bit 8 (ucast (target ! (exponent - 1))) OR ucast (target ! (exponent - 2)))
                   OR ucast (target ! (exponent - 3))
               else if exponent = 2 then
                 push_bit 8 (ucast (target ! (exponent - 1))) OR ucast (target ! (exponent - 2))
               else ucast (target ! 0));
            (mantissa', exponent') =
              (if mantissa AND 0x00800000 \<noteq> 0 then (drop_bit 8 mantissa, exponent + 1)
               else (mantissa, exponent))
        in push_bit 24 (of_nat exponent') OR mantissa')"

text \<open>\<open>Compare256\<close> from byte \<open>i - 1\<close> down: \<open>-1\<close>, \<open>0\<close> or \<open>1\<close>.\<close>

fun Compare256_from :: "nat \<Rightarrow> bytes \<Rightarrow> bytes \<Rightarrow> int" where
  "Compare256_from 0 a b = 0"
| "Compare256_from (Suc i) a b =
     (if a ! i < b ! i then - 1 else if a ! i > b ! i then 1 else Compare256_from i a b)"

definition Compare256 :: "bytes \<Rightarrow> bytes \<Rightarrow> int" where
  "Compare256 a b = Compare256_from 32 a b"

definition CheckProofOfWork :: "bytes \<Rightarrow> u32 \<Rightarrow> bool" where
  "CheckProofOfWork hash compact_bits =
     (let target = CompactToBits256 compact_bits in Compare256 hash target \<le> 0)"

definition GetInitialBits :: u32 where "GetInitialBits = 0x207fffff"

definition DIFFICULTY_ADJUSTMENT_INTERVAL :: u32 where "DIFFICULTY_ADJUSTMENT_INTERVAL = 2016"
definition TARGET_SPACING :: u32 where "TARGET_SPACING = 600"
definition TARGET_TIMESPAN :: u32 where
  "TARGET_TIMESPAN = DIFFICULTY_ADJUSTMENT_INTERVAL * TARGET_SPACING"
definition MIN_TIMESPAN :: u32 where "MIN_TIMESPAN = TARGET_TIMESPAN div 4"
definition MAX_TIMESPAN :: u32 where "MAX_TIMESPAN = TARGET_TIMESPAN * 4"

text \<open>The two normalising loops over the 64-bit mantissa and the exponent.\<close>

function shift_down :: "u64 \<Rightarrow> u32 \<Rightarrow> u64 \<times> u32" where
  "shift_down m e = (if 0x1000000 \<le> m then shift_down (drop_bit 8 m) (e + 1) else (m, e))"
  by pat_completeness auto
termination
  by (relation "measure (\<lambda>(m, e). unat m)")
     (auto simp: word_le_nat_alt drop_bit_eq_div unat_div)

function shift_up :: "u64 \<Rightarrow> u32 \<Rightarrow> u64 \<times> u32" where
  "shift_up m e = (if m < 0x10000 \<and> 3 < e then shift_up (push_bit 8 m) (e - 1) else (m, e))"
  by pat_completeness auto
termination
  by (relation "measure (\<lambda>(m, e). unat e)")
     (auto simp: word_less_nat_alt unat_sub word_le_nat_alt)

declare shift_down.simps [simp del] shift_up.simps [simp del]

definition clamp_timespan :: "u32 \<Rightarrow> u32" where
  "clamp_timespan time_span =
     (let t1 = (if time_span < MIN_TIMESPAN then MIN_TIMESPAN else time_span)
      in if t1 > MAX_TIMESPAN then MAX_TIMESPAN else t1)"

definition CalculateNextDifficulty :: "u32 \<Rightarrow> u32 \<Rightarrow> u32 \<Rightarrow> u32 option" where
  "CalculateNextDifficulty current_bits time_span expected_time =
     (let t = clamp_timespan time_span;
          e = drop_bit 24 current_bits;
          mantissa = current_bits AND 0x00FFFFFF in
      if e = 0 \<or> mantissa = 0 then Some current_bits
      else if expected_time = 0 then None
      else
        let new_mantissa = (ucast mantissa * ucast t) div ucast expected_time;
            (m1, e1) = shift_down new_mantissa e;
            (m2, e2) = shift_up m1 e1;
            (m3, e3) = (if m2 AND 0x800000 \<noteq> 0 then (drop_bit 8 m2, e2 + 1) else (m2, e2));
            e4 = (if e3 > 0x20 then 0x20 else e3)
        in Some (push_bit 24 e4 OR ucast (m3 AND 0x00FFFFFF)))"

subsection \<open>Targets as numbers\<close>

fun le_value :: "bytes \<Rightarrow> nat" where
  "le_value [] = 0"
| "le_value (b # bs) = unat b + 256 * le_value bs"

lemma le_value_append: "le_value (xs @ ys) = le_value xs + 256 ^ length xs * le_value ys"
  by (induction xs) (simp_all add: algebra_simps)

lemma le_value_zeros [simp]: "le_value (replicate n 0) = 0"
  by (induction n) simp_all

lemma unat8_lt: "unat (b :: u8) < 256"
  using unsigned_less [of b, where 'a = nat] by simp

lemma le_value_less: "le_value bs < 256 ^ length bs"
proof (induction bs)
  case (Cons b bs)
  then have "256 * le_value bs + 256 \<le> 256 * 256 ^ length bs" by simp
  with unat8_lt [of b] show ?case by simp
qed simp

lemma le_value_snoc: "le_value (xs @ [b]) = le_value xs + 256 ^ length xs * unat b"
  by (simp add: le_value_append)

lemma Compare256_from_iff:
  "n \<le> length a \<Longrightarrow> n \<le> length b \<Longrightarrow>
     (Compare256_from n a b \<le> 0 \<longleftrightarrow> le_value (take n a) \<le> le_value (take n b))"
proof (induction n)
  case (Suc n)
  let ?A = "le_value (take n a)" and ?B = "le_value (take n b)" and ?P = "256 ^ n :: nat"
  have split: "le_value (take (Suc n) a) = ?A + ?P * unat (a ! n)"
    "le_value (take (Suc n) b) = ?B + ?P * unat (b ! n)"
    using Suc.prems by (simp_all add: take_Suc_conv_app_nth le_value_snoc)
  have lt: "?A < ?P" "?B < ?P"
    using le_value_less [of "take n a"] le_value_less [of "take n b"] Suc.prems by simp_all
  have carry: "x + ?P * i < y + ?P * j" if "i < j" "x < ?P" for x y i j :: nat
  proof -
    have "?P * i + ?P \<le> ?P * j" using that(1) by (metis Suc_leI mult_Suc_right mult_le_mono2 add.commute)
    with that(2) show ?thesis by simp
  qed
  consider "a ! n < b ! n" | "b ! n < a ! n" | "a ! n = b ! n" by (metis linorder_less_linear)
  then show ?case
  proof cases
    case 1
    then show ?thesis using carry [of "unat (a ! n)" "unat (b ! n)" ?A ?B] lt split
      by (simp add: word_less_nat_alt)
  next
    case 2
    then show ?thesis using carry [of "unat (b ! n)" "unat (a ! n)" ?B ?A] lt split
      by (simp add: word_less_nat_alt not_less)
  next
    case 3
    then show ?thesis using Suc split by simp
  qed
qed simp

lemma length_CompactToBits256 [simp, bytes_simps]: "length (CompactToBits256 c) = 32"
  by (simp add: CompactToBits256_def Let_def)

lemma unat_ucast_byte: "unat (ucast (w :: 'a::len word) :: u8) = unat w mod 256"
  by (simp add: unsigned_ucast_eq take_bit_eq_mod)

lemma three_bytes: "n < 16777216 \<Longrightarrow>
    n mod 256 + 256 * (n div 256 mod 256) + 65536 * (n div 65536 mod 256) = (n :: nat)"
proof -
  assume n: "n < 16777216"
  then have "n div 65536 < 256" by (simp add: div_less_iff_less_mult)
  moreover have "n div 65536 = n div 256 div 256"
    by (simp add: div_mult2_eq [symmetric])
  moreover have "n = 256 * (n div 256) + n mod 256"
    "n div 256 = 256 * (n div 256 div 256) + n div 256 mod 256"
    by simp_all
  ultimately show ?thesis by (simp only: mod_less)
qed

abbreviation compact_exponent :: "u32 \<Rightarrow> nat" where
  "compact_exponent c \<equiv> unat (drop_bit 24 c)"

abbreviation compact_mantissa :: "u32 \<Rightarrow> nat" where
  "compact_mantissa c \<equiv> unat (c AND 0x00FFFFFF)"

lemma compact_mantissa_lt: "compact_mantissa c < 16777216"
proof -
  have "c AND 0x00FFFFFF = take_bit 24 c"
    by (simp add: take_bit_eq_mask mask_eq_exp_minus_1)
  then have "compact_mantissa c = take_bit 24 (unat c)"
    by (simp only: unsigned_take_bit_eq)
  also have "\<dots> < 2 ^ 24" by (rule take_bit_nat_less_exp)
  finally show ?thesis by simp
qed

lemma update_three:
  "k + 3 \<le> n \<Longrightarrow> (replicate n (0 :: u8))[k := a, k + 1 := b, k + 2 := c]
     = replicate k 0 @ [a, b, c] @ replicate (n - k - 3) 0"
  by (rule nth_equalityI) (auto simp: nth_list_update nth_append nth_Cons' less_Suc_eq)

lemma le_value_three:
  assumes "unat m < 16777216"
  shows "le_value (replicate k 0 @ [ucast (m :: u32), ucast (drop_bit 8 m), ucast (drop_bit 16 m)]
           @ replicate j 0) = 256 ^ k * unat m"
proof -
  have "le_value (replicate k 0 @ [ucast m, ucast (drop_bit 8 m), ucast (drop_bit 16 m)]
      @ replicate j 0)
    = 256 ^ k * (unat m mod 256 + 256 * (unat m div 256 mod 256) + 65536 * (unat m div 65536 mod 256))"
    by (simp add: le_value_append unat_ucast_byte unat_drop_bit)
  then show ?thesis by (simp only: three_bytes [OF assms])
qed

lemma compact_exponent_word:
  "drop_bit 24 c = 0 \<longleftrightarrow> compact_exponent c = 0"
  "drop_bit 24 c \<le> 3 \<longleftrightarrow> compact_exponent c \<le> 3"
  "drop_bit 24 c \<le> 32 \<longleftrightarrow> compact_exponent c \<le> 32" for c :: u32
  by (simp_all add: word_le_nat_alt unat_eq_0)

lemma small_u32: "\<not> (2 :: u32) \<le> 1" "\<not> (3 :: u32) \<le> 1" "\<not> (3 :: u32) \<le> 2"
  by (simp_all add: word_le_nat_alt)

lemma update_low:
  "(replicate 32 (0 :: u8))[0 := a] = a # replicate 31 0"
  "(replicate 31 (0 :: u8))[0 := a] = a # replicate 30 0"
  "(replicate 30 (0 :: u8))[0 := a] = a # replicate 29 0"
  "(a # replicate 31 (0 :: u8))[1 := b] = a # b # replicate 30 0"
  "(a # b # replicate 30 (0 :: u8))[2 := c] = a # b # c # replicate 29 0"
  by (simp_all add: numeral_eq_Suc)

lemma le_value_two:
  assumes "unat w < 65536"
  shows "le_value (ucast (w :: u32) # ucast (drop_bit 8 w) # replicate n 0) = unat w"
proof -
  have "unat w div 256 < 256" using assms by (simp add: div_less_iff_less_mult)
  then show ?thesis by (simp add: unat_ucast_byte unat_drop_bit)
qed

lemma le_value_one: "unat w < 256 \<Longrightarrow> le_value (ucast (w :: u32) # replicate n 0) = unat w"
  by (simp add: unat_ucast_byte)

text \<open>The number a compact target stands for: \<open>mantissa * 256 ^ (exponent - 3)\<close>, truncated.\<close>

lemma le_value_CompactToBits256:
  "le_value (CompactToBits256 c) =
     (if 3 \<le> compact_exponent c \<and> compact_exponent c \<le> 32
      then compact_mantissa c * 256 ^ (compact_exponent c - 3)
      else if compact_exponent c < 3 then compact_mantissa c div 256 ^ (3 - compact_exponent c)
      else 0)"
proof -
  let ?e = "drop_bit 24 c" and ?m = "c AND 0x00FFFFFF"
  have m: "unat ?m < 16777216" by (rule compact_mantissa_lt)
  have e: "?e = 0 \<longleftrightarrow> compact_exponent c = 0" "?e = 1 \<longleftrightarrow> compact_exponent c = 1"
    "?e = 2 \<longleftrightarrow> compact_exponent c = 2" "?e = 3 \<longleftrightarrow> compact_exponent c = 3"
    by (simp_all add: word_unat_eq_iff)
  have "compact_exponent c = 0 \<or> compact_exponent c = 1 \<or> compact_exponent c = 2
      \<or> compact_exponent c = 3 \<or> 3 < compact_exponent c"
    by linarith
  then consider "?e = 0" | "?e = 1" | "?e = 2" | "?e = 3"
    | "3 < compact_exponent c" "compact_exponent c \<le> 32" | "32 < compact_exponent c"
    unfolding e by linarith
  then show ?thesis
  proof cases
    case 1
    then show ?thesis using m by (simp add: CompactToBits256_def)
  next
    case 2
    then have "CompactToBits256 c = ucast (drop_bit 16 ?m) # replicate 31 0"
      by (simp add: CompactToBits256_def Let_def update_low small_u32)
    moreover have "unat (drop_bit 16 ?m) = unat ?m div 65536" "unat ?m div 65536 < 256"
      using m unat_drop_bit [of 16 ?m] by (simp_all only: div_less_iff_less_mult) simp
    ultimately have "le_value (CompactToBits256 c) = unat ?m div 65536"
      using le_value_one [of "drop_bit 16 ?m" 31] by (simp only:)
    then show ?thesis using 2 by (simp only: e) simp
  next
    case 3
    then have "CompactToBits256 c = ucast (drop_bit 8 ?m) # ucast (drop_bit 8 (drop_bit 8 ?m)) # replicate 30 0"
      by (simp add: CompactToBits256_def Let_def update_low small_u32)
    moreover have "unat (drop_bit 8 ?m) = unat ?m div 256" "unat ?m div 256 < 65536"
      using m unat_drop_bit [of 8 ?m] by (simp_all only: div_less_iff_less_mult) simp
    ultimately have "le_value (CompactToBits256 c) = unat ?m div 256"
      using le_value_two [of "drop_bit 8 ?m" 30] by (simp only:)
    then show ?thesis using 3 by (simp only: e) simp
  next
    case 4
    then have "CompactToBits256 c = replicate 0 0 @ [ucast ?m, ucast (drop_bit 8 ?m), ucast (drop_bit 16 ?m)]
        @ replicate 29 0"
      by (simp add: CompactToBits256_def Let_def update_low small_u32)
    then show ?thesis using 4 le_value_three [OF m, of 0 29]
      by (simp add: e)
  next
    case 5
    then have o: "unat (?e - 3) = compact_exponent c - 3"
      by (subst unat_sub) (simp_all add: word_le_nat_alt)
    have "CompactToBits256 c = replicate (compact_exponent c - 3) 0
       @ [ucast ?m, ucast (drop_bit 8 ?m), ucast (drop_bit 16 ?m)]
       @ replicate (32 - (compact_exponent c - 3) - 3) 0"
      using 5 update_three [of "compact_exponent c - 3" 32]
      by (simp add: CompactToBits256_def Let_def compact_exponent_word o)
    then show ?thesis using 5 le_value_three [OF m] by simp
  next
    case 6
    then show ?thesis by (simp add: CompactToBits256_def Let_def compact_exponent_word)
  qed
qed

subsection \<open>The retarget loops keep the value\<close>

lemma and_24: "c AND 0x00FFFFFF = take_bit 24 (c :: 'a::len word)"
  by (simp add: take_bit_eq_mask mask_eq_exp_minus_1)

lemma unat_take_bit: "unat (take_bit n (w :: 'a::len word)) = unat w mod 2 ^ n"
  by (simp only: unsigned_take_bit_eq take_bit_eq_mod [of n "unat w"])

lemma u32_bit_small: "unat (x :: u32) < 2 ^ m \<Longrightarrow> bit x k \<Longrightarrow> k < m"
proof -
  assume "unat x < 2 ^ m" "bit x k"
  then have "take_bit m x = x"
    by (intro word_unat_eq_iff [THEN iffD2]) (simp add: unat_take_bit)
  with \<open>bit x k\<close> show "k < m" by (metis bit_take_bit_iff)
qed

lemma compact_pack:
  assumes "unat (e :: u32) < 256" and "unat m < 16777216"
  shows "drop_bit 24 (push_bit 24 e OR m) = e" "(push_bit 24 e OR m) AND 0x00FFFFFF = m"
proof -
  have e: "bit e k \<Longrightarrow> k < 8" and m: "bit m k \<Longrightarrow> k < 24" for k
    using assms u32_bit_small [of e 8] u32_bit_small [of m 24] by simp_all
  show "drop_bit 24 (push_bit 24 e OR m) = e"
    by (rule bit_word_eqI) (auto simp: bit_simps dest: e m)
  show "(push_bit 24 e OR m) AND 0x00FFFFFF = m"
    unfolding and_24 by (rule bit_word_eqI) (auto simp: bit_simps dest: m)
qed

lemma shift_down_value:
  "shift_down m e = (m', e') \<Longrightarrow> unat m < 256 ^ j \<Longrightarrow> unat e + j < 2 ^ 32 \<Longrightarrow>
     unat m' < 16777216 \<and> unat e \<le> unat e' \<and> unat e' \<le> unat e + j
     \<and> unat m' = unat m div 256 ^ (unat e' - unat e)"
proof (induction m e arbitrary: j rule: shift_down.induct)
  case (1 m e)
  show ?case
  proof (cases "0x1000000 \<le> m")
    case False
    with "1.prems" show ?thesis
      by (simp add: shift_down.simps [of m e] word_le_nat_alt)
  next
    case True
    then have big: "16777216 \<le> unat m" by (simp add: word_le_nat_alt)
    with "1.prems"(2) obtain i where j: "j = Suc i" by (cases j) auto
    have dm: "unat (drop_bit 8 m) = unat m div 256" by (simp add: unat_drop_bit)
    have e1: "unat (e + 1) = unat e + 1"
      using "1.prems"(3) j by (subst unat_word_ariths) simp
    have "unat (drop_bit 8 m) < 256 ^ i"
      using "1.prems"(2) j dm by (simp add: div_less_iff_less_mult mult.commute)
    moreover have "shift_down (drop_bit 8 m) (e + 1) = (m', e')"
      using "1.prems"(1) True by (simp add: shift_down.simps [of m e])
    ultimately have "unat m' < 16777216 \<and> unat (e + 1) \<le> unat e' \<and> unat e' \<le> unat (e + 1) + i
        \<and> unat m' = unat (drop_bit 8 m) div 256 ^ (unat e' - unat (e + 1))"
      using "1.IH" [OF True, of i] "1.prems"(3) j e1 by simp
    moreover from this have "unat e' - unat e = Suc (unat e' - unat (e + 1))" using e1 by linarith
    ultimately show ?thesis using e1 j dm by (simp add: div_mult2_eq)
  qed
qed

lemma shift_up_value:
  "shift_up m e = (m', e') \<Longrightarrow> unat m < 16777216 \<Longrightarrow> 3 \<le> unat e \<Longrightarrow>
     unat m' < 16777216 \<and> 3 \<le> unat e' \<and> unat e' \<le> unat e
     \<and> unat m' * 256 ^ (unat e' - 3) = unat m * 256 ^ (unat e - 3)"
proof (induction m e rule: shift_up.induct)
  case (1 m e)
  show ?case
  proof (cases "m < 0x10000 \<and> 3 < e")
    case False
    with "1.prems" show ?thesis by (auto simp: shift_up.simps [of m e])
  next
    case True
    then have small: "unat m < 65536" and e3: "3 < unat e" by (simp_all add: word_less_nat_alt)
    have pm: "unat (push_bit 8 m) = unat m * 256"
      using small by (simp add: push_bit_eq_mult unat_word_ariths)
    have e1: "unat (e - 1) = unat e - 1"
      using e3 by (subst unat_sub) (simp_all add: word_le_nat_alt)
    have "shift_up (push_bit 8 m) (e - 1) = (m', e')"
      using "1.prems"(1) True by (simp add: shift_up.simps [of m e])
    then have IH: "unat m' < 16777216 \<and> 3 \<le> unat e' \<and> unat e' \<le> unat (e - 1)
        \<and> unat m' * 256 ^ (unat e' - 3) = unat (push_bit 8 m) * 256 ^ (unat (e - 1) - 3)"
      using "1.IH" [OF True] small pm e1 e3 by simp
    have "unat e - 3 = Suc (unat e - 1 - 3)" using e3 by simp
    moreover have "unat e' \<le> unat e" using IH e1 by linarith
    ultimately show ?thesis using IH pm e1 by simp
  qed
qed
lemma clamp_timespan_bounds:
  "302400 \<le> unat (clamp_timespan t) \<and> unat (clamp_timespan t) \<le> 4838400"
  by (simp add: clamp_timespan_def Let_def MIN_TIMESPAN_def MAX_TIMESPAN_def TARGET_TIMESPAN_def
      DIFFICULTY_ADJUSTMENT_INTERVAL_def TARGET_SPACING_def word_less_nat_alt)

lemma unat_ucast_32_64: "unat (ucast (w :: u32) :: u64) = unat w"
  using unat32_lt [of w] by (simp add: unsigned_ucast_eq take_bit_eq_mod)

lemma unat_ucast_64_32: "unat (w :: u64) < 4294967296 \<Longrightarrow> unat (ucast w :: u32) = unat w"
  by (simp add: unsigned_ucast_eq take_bit_eq_mod)

lemma retarget_value:
  assumes e: "3 \<le> compact_exponent bits" "compact_exponent bits \<le> 32"
    and m0: "compact_mantissa bits \<noteq> 0" and T0: "expected_time \<noteq> 0"
    and res: "CalculateNextDifficulty bits time_span expected_time = Some bits'"
  shows "unat expected_time * le_value (CompactToBits256 bits')
           \<le> le_value (CompactToBits256 bits) * unat (clamp_timespan time_span)"
proof -
  let ?E = "drop_bit 24 bits" and ?M = "bits AND 0x00FFFFFF" and ?t = "clamp_timespan time_span"
  let ?T = "unat expected_time"
  define N where "N = (ucast ?M * ucast ?t :: u64) div ucast expected_time"
  obtain m1 e1 where sd: "shift_down N ?E = (m1, e1)" by fastforce
  obtain m2 e2 where su: "shift_up m1 e1 = (m2, e2)" by fastforce
  define m3 where "m3 = (if m2 AND 0x800000 \<noteq> 0 then drop_bit 8 m2 else m2)"
  define e3 where "e3 = (if m2 AND 0x800000 \<noteq> 0 then e2 + 1 else e2)"
  define e4 where "e4 = (if e3 > 0x20 then 0x20 else e3)"
  have "?E \<noteq> 0" using e(1) by auto
  moreover have "?M \<noteq> 0" using m0 by auto
  ultimately have bits': "bits' = push_bit 24 e4 OR ucast (m3 AND 0x00FFFFFF)"
    using res T0 by (auto simp: CalculateNextDifficulty_def Let_def N_def [symmetric] sd su
        m3_def e3_def e4_def split: if_splits)
  have Mt: "unat ?M * unat ?t < 256 ^ 6"
    using mult_less_le_imp_less [of "unat ?M" 16777216 "unat ?t" 4838400]
      compact_mantissa_lt [of bits] clamp_timespan_bounds [of time_span] by simp
  have N: "unat N = unat ?M * unat ?t div ?T"
    using Mt by (simp add: N_def unat_div unat_word_ariths unat_ucast_32_64)
  have "unat N \<le> unat ?M * unat ?t" unfolding N by (rule div_le_dividend)
  with Mt have Nlt: "unat N < 256 ^ 6" by linarith
  have E6: "unat ?E + 6 < 2 ^ 32" using e(2) by simp
  note d = shift_down_value [OF sd Nlt E6]
  note u = shift_up_value [OF su]
  have m1: "unat m1 < 16777216" and e1: "3 \<le> unat e1" "unat e1 \<le> 38" using d e by linarith+
  have u: "unat m2 < 16777216" "3 \<le> unat e2" "unat e2 \<le> 38"
    "unat m2 * 256 ^ (unat e2 - 3) = unat m1 * 256 ^ (unat e1 - 3)"
    using u [OF m1 e1(1)] e1(2) by linarith+
  have "256 ^ (unat e1 - 3) = 256 ^ (unat e1 - unat ?E) * (256 :: nat) ^ (unat ?E - 3)"
    using d e(1) by (simp flip: power_add)
  then have v1: "unat m1 * 256 ^ (unat e1 - 3) \<le> unat N * 256 ^ (unat ?E - 3)"
    using d by (simp add: mult.assoc [symmetric])
  have e3: "unat e3 = (if m2 AND 0x800000 \<noteq> 0 then unat e2 + 1 else unat e2)"
    using u(3) by (simp add: e3_def unat_word_ariths)
  have m3: "unat m3 = (if m2 AND 0x800000 \<noteq> 0 then unat m2 div 256 else unat m2)"
    by (simp add: m3_def unat_drop_bit)
  obtain k where k: "unat e2 = 3 + k" using u(2) le_Suc_ex by blast
  have "unat m2 div 256 * 256 * 256 ^ k \<le> unat m2 * 256 ^ k"
    by (intro mult_le_mono1) simp
  then have "unat m2 div 256 * 256 ^ (Suc (unat e2) - 3) \<le> unat m2 * 256 ^ (unat e2 - 3)"
    by (simp add: k mult.assoc)
  then have v3: "unat m3 * 256 ^ (unat e3 - 3) \<le> unat m2 * 256 ^ (unat e2 - 3)"
    by (simp add: m3 e3)
  have m3lt: "unat m3 < 16777216" using u(1) by (simp add: m3 less_imp_diff_less
        order_le_less_trans [OF div_le_dividend])
  have e4: "3 \<le> unat e4" "unat e4 \<le> 32" "unat e4 \<le> unat e3"
    using u(2) e3 by (auto simp: e4_def word_less_nat_alt)
  have "unat (m3 AND 0x00FFFFFF) = unat m3"
    unfolding and_24 unat_take_bit using m3lt by simp
  then have mm: "unat (ucast (m3 AND 0x00FFFFFF) :: u32) = unat m3"
    using m3lt unat_ucast_64_32 [of "m3 AND 0x00FFFFFF"] by simp
  have "le_value (CompactToBits256 bits') = unat m3 * 256 ^ (unat e4 - 3)"
    using e4 compact_pack [of e4 "ucast (m3 AND 0x00FFFFFF)"] mm m3lt
    by (simp add: le_value_CompactToBits256 bits')
  also have "\<dots> \<le> unat m3 * 256 ^ (unat e3 - 3)"
    using e4 by (intro mult_le_mono2 power_increasing) simp_all
  also have "\<dots> \<le> unat N * 256 ^ (unat ?E - 3)"
    using v1 v3 u(4) by linarith
  finally have "le_value (CompactToBits256 bits') \<le> unat N * 256 ^ (unat ?E - 3)" .
  then have "?T * le_value (CompactToBits256 bits') \<le> ?T * unat N * 256 ^ (unat ?E - 3)"
    by (simp add: mult.assoc)
  also have "\<dots> \<le> unat ?M * unat ?t * 256 ^ (unat ?E - 3)"
    unfolding N by (intro mult_le_mono1) simp
  also have "\<dots> = le_value (CompactToBits256 bits) * unat ?t"
    using e by (simp add: le_value_CompactToBits256 mult_ac)
  finally show ?thesis .
qed

lemma significant_bytes_upto:
  "k \<le> n \<Longrightarrow> \<forall>i. k \<le> i \<and> i < n \<longrightarrow> t ! i = 0 \<Longrightarrow> k = 0 \<or> t ! (k - 1) \<noteq> 0
     \<Longrightarrow> significant_bytes n t = k"
proof (induction n)
  case (Suc n)
  show ?case
  proof (cases "k = Suc n")
    case True
    then show ?thesis using Suc.prems by simp
  next
    case False
    then show ?thesis using Suc by simp
  qed
qed simp

lemma three_bytes_word:
  assumes "unat (m :: u32) < 16777216"
  shows "push_bit 8 (push_bit 8 (ucast (ucast (drop_bit 16 m) :: u8) :: u32) OR ucast (ucast (drop_bit 8 m) :: u8))
           OR ucast (ucast m :: u8) = m"
proof (rule bit_word_eqI)
  fix n assume "n < LENGTH(32)"
  then consider "n < 8" | "8 \<le> n" "n < 16" | "16 \<le> n" "n < 24" | "24 \<le> n" "\<not> bit m n"
    using u32_bit_small [of m 24 n] assms by fastforce
  then show "bit (push_bit 8 (push_bit 8 (ucast (ucast (drop_bit 16 m) :: u8) :: u32)
      OR ucast (ucast (drop_bit 8 m) :: u8)) OR ucast (ucast m :: u8)) n = bit m n"
    by cases (auto simp: bit_simps less_diff_conv2)
qed

lemma CompactToBits256_bytes:
  assumes "3 \<le> compact_exponent c" and "compact_exponent c \<le> 32"
  shows "CompactToBits256 c = replicate (compact_exponent c - 3) 0
     @ [ucast (c AND 0x00FFFFFF), ucast (drop_bit 8 (c AND 0x00FFFFFF)), ucast (drop_bit 16 (c AND 0x00FFFFFF))]
     @ replicate (32 - compact_exponent c) 0"
proof (cases "compact_exponent c = 3")
  case True
  then have "drop_bit 24 c = 3" by (simp add: word_unat_eq_iff)
  then show ?thesis
    by (simp add: CompactToBits256_def Let_def update_low small_u32)
next
  case False
  then have e: "3 < compact_exponent c" using assms(1) by linarith
  then have "unat (drop_bit 24 c - 3) = compact_exponent c - 3"
    by (subst unat_sub) (simp_all add: word_le_nat_alt)
  moreover have "compact_exponent c \<noteq> 0" "\<not> compact_exponent c \<le> 3" using e by linarith+
  moreover have "32 - (compact_exponent c - 3) - 3 = 32 - compact_exponent c" using e by linarith
  ultimately show ?thesis
    using e assms update_three [of "compact_exponent c - 3" 32]
    by (simp only: CompactToBits256_def Let_def compact_exponent_word if_False if_True)
qed

lemma bit23: "unat (m :: u32) < 0x800000 \<Longrightarrow> m AND 0x800000 = 0"
proof -
  assume "unat m < 0x800000"
  then have "bit m n \<Longrightarrow> n < 23" for n using u32_bit_small [of m 23 n] by simp
  moreover have "bit (0x800000 :: u32) n \<Longrightarrow> n = 23" for n
    using bit_exp_iff [where 'a = "32 word", of 23 n] by simp
  ultimately show ?thesis
    by (intro bit_word_eqI) (auto simp: bit_and_iff)
qed

lemma compact_unpack: "push_bit 24 (drop_bit 24 c) OR (c AND 0x00FFFFFF) = (c :: u32)"
  unfolding and_24 by (rule bit_word_eqI) (auto simp: bit_simps)

lemma nth_three:
  "(replicate j 0 @ [a, b, c] @ replicate n 0) ! (j + 2) = c"
  "(replicate j 0 @ [a, b, c] @ replicate n 0) ! (j + 1) = b"
  "(replicate j 0 @ [a, b, c] @ replicate n 0) ! j = a"
  "j + 3 \<le> i \<Longrightarrow> i < j + 3 + n \<Longrightarrow> (replicate j 0 @ [a, b, c] @ replicate n 0) ! i = 0"
  by (auto simp: nth_append nth_Cons')

lemma compact_roundtrip_aux:
  assumes e: "3 \<le> compact_exponent c" "compact_exponent c \<le> 32"
    and m: "0x10000 \<le> compact_mantissa c" "compact_mantissa c < 0x800000"
  shows "Bits256ToCompact (CompactToBits256 c) = c"
proof -
  let ?m = "c AND 0x00FFFFFF" and ?e = "compact_exponent c"
  let ?t = "CompactToBits256 c"
  have top: "(ucast (drop_bit 16 ?m) :: u8) \<noteq> 0"
  proof
    assume "(ucast (drop_bit 16 ?m) :: u8) = 0"
    then have "unat ?m div 65536 mod 256 = 0"
      using unat_ucast_byte [of "drop_bit 16 ?m"] unat_drop_bit [of 16 ?m] by simp
    moreover have "unat ?m div 65536 < 256" "1 \<le> unat ?m div 65536"
      using m by (simp_all only: div_less_iff_less_mult less_eq_div_iff_mult_less_eq)
    ultimately show False by simp
  qed
  note bytes = CompactToBits256_bytes [OF e]
  have t: "?t ! (?e - 1) = ucast (drop_bit 16 ?m)" "?t ! (?e - 2) = ucast (drop_bit 8 ?m)"
    "?t ! (?e - 3) = ucast ?m" "\<forall>i. ?e \<le> i \<and> i < 32 \<longrightarrow> ?t ! i = 0"
  proof -
    obtain j where "?e = 3 + j" using e(1) le_Suc_ex by blast
    then have j: "?e - 1 = j + 2" "?e - 2 = j + 1" "?e - 3 = j" "?e = j + 3" by linarith+
    show "?t ! (?e - 1) = ucast (drop_bit 16 ?m)" "?t ! (?e - 2) = ucast (drop_bit 8 ?m)"
      "?t ! (?e - 3) = ucast ?m"
      unfolding bytes j(1-3) by (rule nth_three)+
    show "\<forall>i. ?e \<le> i \<and> i < 32 \<longrightarrow> ?t ! i = 0"
    proof (intro allI impI)
      fix i assume i: "?e \<le> i \<and> i < 32"
      show "?t ! i = 0"
        unfolding bytes j(3) by (rule nth_three(4)) (use i e(2) j(4) in linarith)+
    qed
  qed
  have sig: "significant_bytes 32 ?t = ?e"
    using e t top by (intro significant_bytes_upto) auto
  have "push_bit 8 (push_bit 8 (ucast (?t ! (?e - 1))) OR ucast (?t ! (?e - 2))) OR ucast (?t ! (?e - 3)) = ?m"
    unfolding t by (rule three_bytes_word) (use m in simp)
  then show ?thesis
    unfolding Bits256ToCompact_def Let_def sig
    using e bit23 [of ?m] m compact_unpack [of c] by (simp del: drop_bit_and)
qed

subsection \<open>Properties\<close>

text \<open>
  C8. The byte-wise proof-of-work check is the numeric one: a hash passes exactly when, read as a
  little-endian 256-bit number, it does not exceed the number the compact bits stand for.
\<close>

theorem pow_check_is_numeric:
  assumes "length hash = 32"
  shows "CheckProofOfWork hash bits
    \<longleftrightarrow> le_value hash \<le>
        (if 3 \<le> compact_exponent bits \<and> compact_exponent bits \<le> 32
         then compact_mantissa bits * 256 ^ (compact_exponent bits - 3)
         else if compact_exponent bits < 3
         then compact_mantissa bits div 256 ^ (3 - compact_exponent bits)
         else 0)"
  using Compare256_from_iff [of 32 hash "CompactToBits256 bits"] assms
  by (simp only: CheckProofOfWork_def Compare256_def Let_def le_value_CompactToBits256 [symmetric]) simp

theorem pow_check_is_numeric_witness:
  "CheckProofOfWork (replicate 31 0 @ [0x7f]) 0x207fffff
    \<longleftrightarrow> le_value (replicate 31 0 @ [0x7f]) \<le> 0x7fffff * 256 ^ 29"
  using pow_check_is_numeric [of "replicate 31 0 @ [0x7f]" "0x207fffff"] by simp

text \<open>
  A retarget never raises the target by more than the ratio of the clamped to the expected
  time span, hence by at most a factor of four for the two-week period.
\<close>

theorem retarget_bounded_by_timespan:
  assumes "3 \<le> compact_exponent bits" and "compact_exponent bits \<le> 32"
    and "compact_mantissa bits \<noteq> 0" and "expected_time \<noteq> 0"
    and "CalculateNextDifficulty bits time_span expected_time = Some bits'"
  shows "unat expected_time * le_value (CompactToBits256 bits')
           \<le> le_value (CompactToBits256 bits) * unat (clamp_timespan time_span)
         \<and> unat (clamp_timespan time_span) \<le> 4 * unat TARGET_TIMESPAN"
  using retarget_value [OF assms] clamp_timespan_bounds [of time_span]
  by (simp add: TARGET_TIMESPAN_def DIFFICULTY_ADJUSTMENT_INTERVAL_def TARGET_SPACING_def)

theorem retarget_bounded_by_timespan_witness:
  "\<exists>bits'. CalculateNextDifficulty 0x1b0404cb 1814400 1209600 = Some bits'
     \<and> 1209600 * le_value (CompactToBits256 bits') \<le> le_value (CompactToBits256 0x1b0404cb) * 1814400"
proof -
  have r: "CalculateNextDifficulty 0x1b0404cb 1814400 1209600 = Some 0x1b060730"
    by code_simp
  have t: "clamp_timespan 1814400 = 1814400" by code_simp
  show ?thesis using retarget_bounded_by_timespan [OF _ _ _ _ r] r by (simp add: t)
qed

text \<open>
  Compact targets in normal form (a non-zero top mantissa byte without the sign bit) survive
  the conversion to 256 bits and back.
\<close>

theorem compact_roundtrip:
  assumes "3 \<le> compact_exponent c" and "compact_exponent c \<le> 32"
    and "0x10000 \<le> compact_mantissa c" and "compact_mantissa c < 0x800000"
  shows "Bits256ToCompact (CompactToBits256 c) = c"
  using assms by (rule compact_roundtrip_aux)

theorem compact_roundtrip_witness: "Bits256ToCompact (CompactToBits256 GetInitialBits) = GetInitialBits"
  by (rule compact_roundtrip) (simp_all add: GetInitialBits_def)

text \<open>
  The exponent clamp keeps the shifted mantissa: retargeting the initial bits \<open>0x207fffff\<close> after
  a period four times too long yields a target more than 63 times \<^emph>\<open>smaller\<close>, so blocks become
  harder where the rule asks for easier ones.
\<close>

theorem retarget_clamp_hardens:
  "CalculateNextDifficulty GetInitialBits MAX_TIMESPAN TARGET_TIMESPAN = Some 0x2001ffff
   \<and> 63 * le_value (CompactToBits256 0x2001ffff) < le_value (CompactToBits256 GetInitialBits)"
proof
  show "CalculateNextDifficulty GetInitialBits MAX_TIMESPAN TARGET_TIMESPAN = Some 0x2001ffff"
    by code_simp
  show "63 * le_value (CompactToBits256 0x2001ffff) < le_value (CompactToBits256 GetInitialBits)"
    by (simp add: le_value_CompactToBits256 GetInitialBits_def)
qed

text \<open>
  \<open>Bits256ToCompact\<close> does not shift the mantissa of a one- or two-byte target up, so the
  two-byte target \<open>0x1234\<close> comes back as \<open>0x12\<close>.
\<close>

theorem compact_small_target_lossy:
  "CompactToBits256 (Bits256ToCompact ([0x34, 0x12] @ replicate 30 0)) = [0x12] @ replicate 31 0"
  by code_simp

end
