(* ===== verification/Block.thy ===== *)
theory Block
  imports Transaction Difficulty
begin

section \<open>Blocks, headers and the Merkle tree\<close>

text \<open>
  Models \<open>layer1-talanton/core/primitives/block.h\<close> and \<open>block.cpp\<close>: the 104-byte header, the block
  codec with its own canonical compact-size reader, the Merkle root and the structural validity
  check.
\<close>

subsection \<open>The block reader's compact sizes\<close>

text \<open>Unlike the transaction reader, this one refuses a size not written in its shortest form.\<close>

definition Block_ReadCompactSizeChecked :: "bytes \<Rightarrow> (u64 \<times> bytes) option" where
  "Block_ReadCompactSizeChecked input =
     (case input of
        [] \<Rightarrow> None
      | first # rest \<Rightarrow>
          if first < 253 then Some (ucast first, rest)
          else if first = 253 then
            (if length rest < 2 then None
             else let sz = read_le16_as64 rest in
               if sz < 253 then None else Some (sz, drop 2 rest))
          else if first = 254 then
            (if length rest < 4 then None
             else let sz = read_le32_as64 rest in
               if sz \<le> 0xFFFF then None else Some (sz, drop 4 rest))
          else
            (if length rest < 8 then None
             else let sz = read_le64 rest in
               if sz \<le> 0xFFFFFFFF then None else Some (sz, drop 8 rest)))"

subsection \<open>Headers\<close>

record BlockHeader =
  hdr_version :: u32
  prev_block_hash :: bytes
  merkle_root :: bytes
  timestamp :: u32
  bits :: u32
  nonce :: u32
  base_fee_per_gas :: u64
  gas_used :: u64
  gas_limit :: u64

text \<open>The default constructor.\<close>

definition BlockHeader_init :: BlockHeader where
  "BlockHeader_init =
     \<lparr>hdr_version = 1, prev_block_hash = zero_hash, merkle_root = zero_hash, timestamp = 0,
      bits = 0, nonce = 0, base_fee_per_gas = 1000000000, gas_used = 0, gas_limit = 30000000\<rparr>"

definition BlockHeader_Serialize :: "BlockHeader \<Rightarrow> bytes" where
  "BlockHeader_Serialize h =
     le32 (hdr_version h) @ prev_block_hash h @ merkle_root h @ le32 (timestamp h) @ le32 (bits h)
     @ le32 (nonce h) @ le64 (base_fee_per_gas h) @ le64 (gas_used h) @ le64 (gas_limit h)"

definition BlockHeader_Deserialize :: "bytes \<Rightarrow> BlockHeader" where
  "BlockHeader_Deserialize data =
     \<lparr>hdr_version = read_le32 data,
      prev_block_hash = take 32 (drop 4 data),
      merkle_root = take 32 (drop 36 data),
      timestamp = read_le32 (drop 68 data),
      bits = read_le32 (drop 72 data),
      nonce = read_le32 (drop 76 data),
      base_fee_per_gas = read_le64 (drop 80 data),
      gas_used = read_le64 (drop 88 data),
      gas_limit = read_le64 (drop 96 data)\<rparr>"

definition BlockHeader_GetHash :: "BlockHeader \<Rightarrow> bytes" where
  "BlockHeader_GetHash h = Hash256d (BlockHeader_Serialize h)"

definition MeetsDifficultyTarget :: "BlockHeader \<Rightarrow> bool" where
  "MeetsDifficultyTarget h = (let hash = BlockHeader_GetHash h in CheckProofOfWork hash (bits h))"

subsection \<open>The Merkle tree\<close>

definition HashNodes :: "bytes \<Rightarrow> bytes \<Rightarrow> bytes" where
  "HashNodes left right = Hash256d (left @ right)"

text \<open>One pass of the inner loop; an odd last node is paired with itself.\<close>

fun next_level :: "bytes list \<Rightarrow> bytes list" where
  "next_level (a # b # rest) = HashNodes a b # next_level rest"
| "next_level [a] = [HashNodes a a]"
| "next_level [] = []"

lemma length_next_level: "length (next_level xs) = (length xs + 1) div 2"
  by (induction xs rule: next_level.induct) simp_all

function merkle_levels :: "bytes list \<Rightarrow> bytes list" where
  "merkle_levels current_level =
     (if 1 < length current_level then merkle_levels (next_level current_level) else current_level)"
  by pat_completeness auto
termination
  by (relation "measure length") (auto simp: length_next_level)

declare merkle_levels.simps [simp del]

definition CalculateRoot :: "bytes list \<Rightarrow> bytes" where
  "CalculateRoot hashes =
     (if hashes = [] then zero_hash
      else if length hashes = 1 then hashes ! 0
      else merkle_levels hashes ! 0)"

definition CalculateRoot_txs :: "Transaction list \<Rightarrow> bytes" where
  "CalculateRoot_txs txs = CalculateRoot (map GetTxID txs)"

subsection \<open>Blocks\<close>

record Block =
  header :: BlockHeader
  transactions :: "Transaction list"

definition Block_GetHash :: "Block \<Rightarrow> bytes" where
  "Block_GetHash b = BlockHeader_GetHash (header b)"

definition CalculateMerkleRoot :: "Block \<Rightarrow> bytes" where
  "CalculateMerkleRoot b = CalculateRoot_txs (transactions b)"

definition IsGenesis :: "Block \<Rightarrow> bool" where
  "IsGenesis b = (prev_block_hash (header b) = zero_hash)"

definition Block_Serialize :: "Block \<Rightarrow> bytes" where
  "Block_Serialize b =
     BlockHeader_Serialize (header b)
     @ WriteCompactSize (of_nat (length (transactions b)))
     @ concat (map Transaction_Serialize (transactions b))"

definition read_block_tx :: "bytes \<Rightarrow> (Transaction \<times> bytes) outcome" where
  "read_block_tx ptr =
     bind_outcome (Transaction_DeserializePrefix ptr) (\<lambda>(tx, rest).
       let consumed = length ptr - length rest in
       if consumed = 0 \<or> consumed > length ptr then Nullopt else Parsed (tx, rest))"

definition Block_Deserialize :: "bytes \<Rightarrow> Block outcome" where
  "Block_Deserialize data =
     (if length data < 105 then Nullopt
      else let hdr = BlockHeader_Deserialize data in
        case Block_ReadCompactSizeChecked (drop 104 data) of
          None \<Rightarrow> Nullopt
        | Some (tx_count, ptr) \<Rightarrow>
            if tx_count = 0 \<or> tx_count > 1000000 then Nullopt
            else bind_outcome (read_many read_block_tx (unat tx_count) ptr) (\<lambda>(txs, ptr').
                   if ptr' \<noteq> [] then Nullopt
                   else Parsed \<lparr>header = hdr, transactions = txs\<rparr>))"

definition Block_IsValid :: "Block \<Rightarrow> bool" where
  "Block_IsValid b =
     (if transactions b = [] then False
      else if \<not> IsCoinbase (transactions b ! 0) then False
      else if list_ex IsCoinbase (drop 1 (transactions b)) then False
      else if \<not> list_all Transaction_IsValid (transactions b) then False
      else if CalculateMerkleRoot b \<noteq> merkle_root (header b) then False
      else if \<not> MeetsDifficultyTarget (header b) then False
      else True)"

subsection \<open>Headers and blocks round trip\<close>

definition BlockHeader_wf :: "BlockHeader \<Rightarrow> bool" where
  "BlockHeader_wf h \<longleftrightarrow> length (prev_block_hash h) = 32 \<and> length (merkle_root h) = 32"

definition Block_wf :: "Block \<Rightarrow> bool" where
  "Block_wf b \<longleftrightarrow> BlockHeader_wf (header b) \<and> transactions b \<noteq> []
     \<and> length (transactions b) \<le> 1000000 \<and> (\<forall>tx \<in> set (transactions b). Transaction_wf tx)"

lemma length_BlockHeader_Serialize [bytes_simps]:
  "BlockHeader_wf h \<Longrightarrow> length (BlockHeader_Serialize h) = 104"
  by (simp add: BlockHeader_Serialize_def BlockHeader_wf_def)

lemma BlockHeader_read_written:
  "BlockHeader_wf h \<Longrightarrow> BlockHeader_Deserialize (BlockHeader_Serialize h @ rest) = h"
  by (cases h) (simp add: BlockHeader_Serialize_def BlockHeader_Deserialize_def BlockHeader_wf_def)

lemma length_Block_GetHash [simp, bytes_simps]: "length (Block_GetHash b) = 32"
  by (simp add: Block_GetHash_def BlockHeader_GetHash_def)

lemma Transaction_Serialize_nonempty: "Transaction_Serialize tx \<noteq> []"
  by (simp add: Transaction_Serialize_def le32_def)

lemma read_block_tx_written:
  "Transaction_wf tx \<Longrightarrow> read_block_tx (Transaction_Serialize tx @ rest) = Parsed (tx, rest)"
  using Transaction_Serialize_nonempty [of tx]
  by (simp add: read_block_tx_def tx.read_written Let_def)

lemma read_block_tx_reads_prefix: "read_block_tx input = Parsed (tx, rest) \<Longrightarrow> suffix rest input"
  by (auto simp: read_block_tx_def Let_def bind_outcome_Parsed_conv dest: tx.reads_prefix
      split: prod.splits if_splits)

interpretation block_tx: byte_codec read_block_tx Transaction_Serialize Transaction_wf
  by unfold_locales (blast intro: read_block_tx_reads_prefix read_block_tx_written)+

subsection \<open>The block reader accepts the shortest form only\<close>

lemma Block_ReadCompactSizeChecked_Write [simp, parse_simps]:
  "Block_ReadCompactSizeChecked (WriteCompactSize n @ rest) = Some (n, rest)"
proof -
  consider "n < 253" | "253 \<le> n" "n \<le> 0xFFFF" | "0xFFFF < n" "n \<le> 0xFFFFFFFF" | "0xFFFFFFFF < n"
    by (meson linorder_not_less)
  then show ?thesis
  proof cases
    case 1
    then have "ucast (ucast n :: u8) = n" "(ucast n :: u8) < 253"
      using ucast_byte [of n] by (simp_all add: word_less_nat_alt unsigned_ucast_eq take_bit_nat_eq_self)
    with 1 show ?thesis by (simp add: WriteCompactSize_def Block_ReadCompactSizeChecked_def)
  next
    case 2
    then have "unat n < 2 ^ 16" "\<not> n < 253" by (simp_all add: word_le_nat_alt word_less_nat_alt)
    then show ?thesis
      using 2 read16_write [of n] by (simp add: WriteCompactSize_def Block_ReadCompactSizeChecked_def)
  next
    case 3
    then have "unat n < 2 ^ 32" "\<not> n < 253" "\<not> n \<le> 0xFFFF"
      by (simp_all add: word_le_nat_alt word_less_nat_alt)
    then show ?thesis
      using 3 read32_write [of n] by (simp add: WriteCompactSize_def Block_ReadCompactSizeChecked_def)
  next
    case 4
    then have "\<not> n < 253" "\<not> n \<le> 0xFFFF" "\<not> n \<le> 0xFFFFFFFF"
      by (simp_all add: word_less_nat_alt word_le_nat_alt)
    then show ?thesis by (simp add: WriteCompactSize_def Block_ReadCompactSizeChecked_def)
  qed
qed

lemma list_nths:
  "2 \<le> length xs \<Longrightarrow> \<exists>a b r. xs = a # b # r"
  "4 \<le> length xs \<Longrightarrow> \<exists>a b c d r. xs = a # b # c # d # r"
  "8 \<le> length xs \<Longrightarrow> \<exists>a b c d e f g h r. xs = a # b # c # d # e # f # g # h # r"
  by (simp_all add: numeral_eq_Suc Suc_le_length_iff) blast+

lemma read_le16_lt: "unat (read_le16_as64 (a # b # r)) < 2 ^ 16"
proof -
  have "read_le16_as64 (a # b # r) = take_bit 16 (read_le16_as64 (a # b # r))"
    by (rule bit_word_eqI) (auto simp: read_le16_as64_def bit_simps byte_bit_high)
  then show ?thesis by (metis take_bit_nat_less_exp unsigned_take_bit_eq)
qed

lemma read_le32_lt: "unat (read_le32_as64 (a # b # c # d # r)) < 2 ^ 32"
proof -
  have "read_le32_as64 (a # b # c # d # r) = take_bit 32 (read_le32_as64 (a # b # c # d # r))"
    by (rule bit_word_eqI) (auto simp: read_le32_as64_def bit_simps byte_bit_high)
  then show ?thesis by (metis take_bit_nat_less_exp unsigned_take_bit_eq)
qed

lemma byte_cases:
  fixes a :: u8
  obtains "a < 253" | "a = 253" | "a = 254" | "a = 255"
proof -
  have "unat a < 256" using unsigned_less [of a, where 'a = nat] by simp
  then have "unat a < 253 \<or> unat a = 253 \<or> unat a = 254 \<or> unat a = 255" by linarith
  then show ?thesis using that by (auto simp: word_less_nat_alt word_unat_eq_iff)
qed

lemma Block_ReadCompactSizeChecked_canonical:
  assumes "Block_ReadCompactSizeChecked input = Some (n, rest)"
  shows "input = WriteCompactSize n @ rest"
proof -
  obtain f r where in_fr: "input = f # r"
    using assms by (cases input) (simp_all add: Block_ReadCompactSizeChecked_def)
  show ?thesis
  proof (cases f rule: byte_cases)
    case 1
    then have "n = ucast f" "rest = r"
      using assms by (auto simp: in_fr Block_ReadCompactSizeChecked_def)
    moreover have "(ucast f :: u64) < 253"
      using 1 by (simp add: word_less_nat_alt unsigned_ucast_eq le_less_trans [OF take_bit_nat_less_eq_self])
    moreover have "(ucast (ucast f :: u64) :: u8) = f"
      by (rule bit_word_eqI) (simp add: bit_simps)
    ultimately show ?thesis by (simp add: in_fr WriteCompactSize_def)
  next
    case 2
    then have "2 \<le> length r" using assms by (simp add: in_fr Block_ReadCompactSizeChecked_def split: if_splits)
    then obtain a b s where r: "r = a # b # s" using list_nths(1) by blast
    have *: "n = read_le16_as64 r" "rest = s" "\<not> n < 253"
      using assms 2 by (auto simp: in_fr r Block_ReadCompactSizeChecked_def Let_def split: if_splits)
    moreover have "n \<le> 0xFFFF" using read_le16_lt [of a b s] *(1) r by (simp add: word_le_nat_alt)
    ultimately show ?thesis using 2 by (simp add: in_fr r WriteCompactSize_def write16_read)
  next
    case 3
    then have "4 \<le> length r" using assms by (simp add: in_fr Block_ReadCompactSizeChecked_def split: if_splits)
    then obtain a b c d s where r: "r = a # b # c # d # s" using list_nths(2) by blast
    have *: "n = read_le32_as64 r" "rest = s" "\<not> n \<le> 0xFFFF"
      using assms 3 by (auto simp: in_fr r Block_ReadCompactSizeChecked_def Let_def split: if_splits)
    moreover have "n \<le> 0xFFFFFFFF" using read_le32_lt [of a b c d s] *(1) r by (simp add: word_le_nat_alt)
    moreover have "\<not> n < 253" using *(3) by (simp add: word_less_nat_alt word_le_nat_alt)
    ultimately show ?thesis using 3 by (simp add: in_fr r WriteCompactSize_def write32_read)
  next
    case 4
    then have "8 \<le> length r" using assms by (simp add: in_fr Block_ReadCompactSizeChecked_def split: if_splits)
    then obtain a b c d e f' g h s where r: "r = a # b # c # d # e # f' # g # h # s" using list_nths(3) by blast
    have *: "n = read_le64 r" "rest = s" "\<not> n \<le> 0xFFFFFFFF"
      using assms 4 by (auto simp: in_fr r Block_ReadCompactSizeChecked_def Let_def split: if_splits)
    then have "\<not> n < 253" "\<not> n \<le> 0xFFFF" by (simp_all add: word_less_nat_alt word_le_nat_alt)
    then show ?thesis using 4 * by (simp add: in_fr r WriteCompactSize_def le64_read_le64)
  qed
qed

subsection \<open>Blocks round trip\<close>

lemma Block_Serialize_read:
  assumes "Block_wf b"
  shows "Block_Deserialize (Block_Serialize b) = Parsed b"
proof -
  let ?n = "length (transactions b)"
  have h: "BlockHeader_wf (header b)" and n: "0 < ?n" "?n \<le> 1000000"
    and txs: "\<forall>t \<in> set (transactions b). Transaction_wf t"
    using assms by (simp_all add: Block_wf_def)
  have "unat (of_nat ?n :: u64) = ?n" using n by (intro unat_of_nat64) simp
  then have "(of_nat ?n :: u64) \<noteq> 0" "\<not> (1000000 :: u64) < of_nat ?n"
    using n by (simp_all add: word_less_nat_alt unat_eq_zero [symmetric])
  moreover have "\<not> length (Block_Serialize b) < 105"
    using length_BlockHeader_Serialize [OF h]
    by (simp add: Block_Serialize_def WriteCompactSize_def)
  moreover have "drop 104 (Block_Serialize b)
      = WriteCompactSize (of_nat ?n) @ concat (map Transaction_Serialize (transactions b))"
    using length_BlockHeader_Serialize [OF h] by (simp add: Block_Serialize_def)
  moreover have "BlockHeader_Deserialize (Block_Serialize b) = header b"
    using BlockHeader_read_written [OF h] by (simp add: Block_Serialize_def)
  ultimately show ?thesis
    using block_tx.read_many_written [OF txs, of "[]"] \<open>unat (of_nat ?n :: u64) = ?n\<close>
    by (simp add: Block_Deserialize_def Let_def)
qed

subsection \<open>The Merkle root\<close>

text \<open>The two-child strings the tree hashes, over all levels.\<close>

fun level_preimages :: "bytes list \<Rightarrow> bytes list" where
  "level_preimages (a # b # rest) = (a @ b) # level_preimages rest"
| "level_preimages [a] = [a @ a]"
| "level_preimages [] = []"

function merkle_preimages :: "bytes list \<Rightarrow> bytes list" where
  "merkle_preimages xs =
     (if 1 < length xs then level_preimages xs @ merkle_preimages (next_level xs) else [])"
  by pat_completeness auto
termination
  by (relation "measure length") (auto simp: length_next_level)

declare merkle_preimages.simps [simp del]

lemma next_level_preimages: "next_level xs = map Hash256d (level_preimages xs)"
  by (induction xs rule: level_preimages.induct) (simp_all add: HashNodes_def)

lemma next_level_lengths: "\<forall>h \<in> set (next_level xs). length h = 32"
  by (simp add: next_level_preimages)

lemma level_preimages_inject:
  assumes "length xs = length ys" and "\<forall>h \<in> set xs. length h = 32" and "\<forall>h \<in> set ys. length h = 32"
    and "level_preimages xs = level_preimages ys"
  shows "xs = ys"
  using assms
proof (induction xs arbitrary: ys rule: level_preimages.induct)
  case (1 a b rest)
  then show ?case by (cases ys rule: level_preimages.cases) auto
next
  case (2 a)
  then show ?case by (cases ys rule: level_preimages.cases) auto
qed simp

text \<open>Two different lists of strings with the same list of hashes contain a collision.\<close>

definition collision_in :: "bytes set \<Rightarrow> bool" where
  "collision_in S \<longleftrightarrow> (\<exists>x \<in> S. \<exists>y \<in> S. x \<noteq> y \<and> Hash256d x = Hash256d y)"

lemma map_hash_collision:
  "map Hash256d xs = map Hash256d ys \<Longrightarrow> xs \<noteq> ys \<Longrightarrow> collision_in (set xs \<union> set ys)"
proof (induction xs arbitrary: ys)
  case (Cons x xs)
  then obtain y ys' where ys: "ys = y # ys'" by (cases ys) auto
  then show ?case
    using Cons by (cases "x = y") (auto simp: collision_in_def)
qed simp

lemma collision_mono: "collision_in S \<Longrightarrow> S \<subseteq> T \<Longrightarrow> collision_in T"
  by (auto simp: collision_in_def)

lemma merkle_binding:
  assumes "length xs = length ys" and "\<forall>h \<in> set xs. length h = 32" and "\<forall>h \<in> set ys. length h = 32"
    and "xs \<noteq> []" and "merkle_levels xs ! 0 = merkle_levels ys ! 0"
  shows "xs = ys \<or> collision_in (set (merkle_preimages xs) \<union> set (merkle_preimages ys))"
  using assms
proof (induction "length xs" arbitrary: xs ys rule: less_induct)
  case less
  show ?case
  proof (cases "1 < length xs")
    case False
    then have "length xs = 1" using less.prems(4) by (cases xs) auto
    then obtain x y where "xs = [x]" "ys = [y]"
      using less.prems(1) by (metis One_nat_def length_0_conv length_Suc_conv)
    then show ?thesis using less.prems(5) by (simp add: merkle_levels.simps)
  next
    case True
    let ?X = "next_level xs" and ?Y = "next_level ys"
    have "length ?X < length xs" and len: "length ?X = length ?Y" and "?X \<noteq> []"
      using True less.prems(1) by (auto simp: length_next_level simp flip: length_0_conv)
    moreover have "merkle_levels ?X ! 0 = merkle_levels ?Y ! 0"
      using True less.prems(1,5) merkle_levels.simps [of xs] merkle_levels.simps [of ys] by simp
    ultimately consider "?X = ?Y" | "collision_in (set (merkle_preimages ?X) \<union> set (merkle_preimages ?Y))"
      using less.hyps [of ?X ?Y] next_level_lengths by blast
    then show ?thesis
    proof cases
      case 1
      show ?thesis
      proof (cases "level_preimages xs = level_preimages ys")
        case True
        then show ?thesis using level_preimages_inject less.prems by blast
      next
        case False
        then have "collision_in (set (level_preimages xs) \<union> set (level_preimages ys))"
          using 1 by (intro map_hash_collision) (simp_all add: next_level_preimages)
        then show ?thesis
          using True less.prems(1) merkle_preimages.simps [of xs] merkle_preimages.simps [of ys]
          by (auto intro: collision_mono)
      qed
    next
      case 2
      then show ?thesis
        using True less.prems(1) merkle_preimages.simps [of xs] merkle_preimages.simps [of ys]
        by (auto intro: collision_mono)
    qed
  qed
qed

text \<open>An odd list of at least three and the list with its last element repeated give the same next level.\<close>

lemma next_level_duplicate_last:
  "odd (length xs) \<Longrightarrow> next_level (xs @ [last xs]) = next_level xs"
  by (induction xs rule: next_level.induct) (auto split: if_splits)

lemma merkle_levels_duplicate_last:
  assumes "odd (length xs)" and "3 \<le> length xs"
  shows "merkle_levels (xs @ [last xs]) = merkle_levels xs"
  using assms by (subst (1 2) merkle_levels.simps) (auto simp: next_level_duplicate_last)

lemma CalculateRoot_alt: "hashes \<noteq> [] \<Longrightarrow> CalculateRoot hashes = merkle_levels hashes ! 0"
  by (cases "length hashes = 1") (auto simp: CalculateRoot_def merkle_levels.simps [of hashes])

definition duplicate_last_tx :: "Block \<Rightarrow> Block" where
  "duplicate_last_tx b = b\<lparr>transactions := transactions b @ [last (transactions b)]\<rparr>"

lemma duplicate_last_same_root:
  assumes "odd (length (transactions b))" and "3 \<le> length (transactions b)"
  shows "CalculateMerkleRoot (duplicate_last_tx b) = CalculateMerkleRoot b"
proof -
  let ?ids = "map GetTxID (transactions b)"
  have "last ?ids = GetTxID (last (transactions b))"
    using assms(2) by (intro last_map) auto
  then show ?thesis
    using merkle_levels_duplicate_last [of ?ids] assms
    by (auto simp: CalculateMerkleRoot_def CalculateRoot_txs_def CalculateRoot_def duplicate_last_tx_def)
qed

lemma Block_IsValidD:
  assumes "Block_IsValid b"
  shows "transactions b \<noteq> []" "IsCoinbase (transactions b ! 0)"
    "\<forall>tx \<in> set (drop 1 (transactions b)). \<not> IsCoinbase tx"
    "\<forall>tx \<in> set (transactions b). Transaction_IsValid tx"
    "CalculateMerkleRoot b = merkle_root (header b)" "MeetsDifficultyTarget (header b)"
  using assms by (auto simp: Block_IsValid_def list_all_iff list_ex_iff split: if_splits)

subsection \<open>Properties\<close>

text \<open>
  The block reader's compact sizes are canonical: it accepts exactly the bytes the writer
  produces, and reads back the size they stand for.
\<close>

theorem block_compact_size_canonical:
  "Block_ReadCompactSizeChecked input = Some (n, rest) \<longleftrightarrow> input = WriteCompactSize n @ rest"
  using Block_ReadCompactSizeChecked_canonical by auto

text \<open>
  C10. A serialized block (104-byte header, compact count, transactions) is parsed back to the
  same block.
\<close>

theorem block_roundtrip:
  assumes "Block_wf b"
  shows "Block_Deserialize (Block_Serialize b) = Parsed b"
  using assms by (rule Block_Serialize_read)

theorem block_roundtrip_witness:
  "Block_Deserialize (Block_Serialize \<lparr>header = BlockHeader_init, transactions = [sample_tx, sample_tx]\<rparr>)
     = Parsed \<lparr>header = BlockHeader_init, transactions = [sample_tx, sample_tx]\<rparr>"
  by (rule block_roundtrip)
     (simp add: Block_wf_def BlockHeader_wf_def BlockHeader_init_def sample_tx_wf)

text \<open>
  C9. The Merkle root binds the transactions: two equally long, non-empty lists of transactions
  with the same root are the same list, or the strings hashed on the way contain an explicit
  collision of double SHA-256.
\<close>

theorem merkle_root_binds_transactions:
  assumes "length txs = length txs'" and "txs \<noteq> []"
    and "\<forall>tx \<in> set (txs @ txs'). Transaction_wf tx"
    and "CalculateRoot_txs txs = CalculateRoot_txs txs'"
  shows "txs = txs' \<or>
    collision_in (set (merkle_preimages (map GetTxID txs) @ merkle_preimages (map GetTxID txs')
                       @ map Transaction_Serialize txs @ map Transaction_Serialize txs'))"
    (is "_ \<or> collision_in ?S")
proof -
  let ?xs = "map GetTxID txs" and ?ys = "map GetTxID txs'"
  have "merkle_levels ?xs ! 0 = merkle_levels ?ys ! 0"
    using assms(4) CalculateRoot_alt [of ?xs] CalculateRoot_alt [of ?ys] assms(1,2)
    by (simp add: CalculateRoot_txs_def) (metis length_0_conv)
  then have "?xs = ?ys \<or> collision_in (set (merkle_preimages ?xs) \<union> set (merkle_preimages ?ys))"
    using assms(1,2) by (intro merkle_binding) (auto simp: GetTxID_def)
  moreover have "map Transaction_Serialize txs = map Transaction_Serialize txs'
      \<or> collision_in (set (map Transaction_Serialize txs) \<union> set (map Transaction_Serialize txs'))"
    if "?xs = ?ys"
  proof -
    have "map Hash256d (map Transaction_Serialize txs) = map Hash256d (map Transaction_Serialize txs')"
      using that by (simp add: GetTxID_def [abs_def] comp_def)
    from map_hash_collision [OF this] show ?thesis by blast
  qed
  moreover have "txs = txs'" if eq: "map Transaction_Serialize txs = map Transaction_Serialize txs'"
  proof (rule nth_equalityI)
    fix i assume i: "i < length txs"
    then have "Transaction_Serialize (txs ! i) = Transaction_Serialize (txs' ! i)"
      using eq assms(1) by (metis nth_map)
    then show "txs ! i = txs' ! i"
      using tx.uniquely_decodable [of "txs ! i" "txs' ! i" "[]" "[]"] assms(1,3) i by simp
  qed (fact assms(1))
  ultimately show ?thesis by (auto intro: collision_mono)
qed

theorem merkle_root_binds_transactions_witness:
  "[sample_tx] = [sample_tx] \<or>
    collision_in (set (merkle_preimages (map GetTxID [sample_tx])
                       @ merkle_preimages (map GetTxID [sample_tx])
                       @ map Transaction_Serialize [sample_tx] @ map Transaction_Serialize [sample_tx]))"
  by (rule merkle_root_binds_transactions) (simp_all add: sample_tx_wf)

text \<open>
  The Merkle tree does not bind the number of transactions: a block with an odd number of at
  least three transactions and the same block with its last transaction repeated have the same
  root, the same block hash and the same answer from the structural check.
\<close>

theorem merkle_duplicate_tail:
  assumes "odd (length (transactions b))" and "3 \<le> length (transactions b)"
  shows "transactions (duplicate_last_tx b) \<noteq> transactions b
    \<and> Block_GetHash (duplicate_last_tx b) = Block_GetHash b
    \<and> Block_IsValid (duplicate_last_tx b) = Block_IsValid b"
proof -
  obtain cb u txs where txs: "transactions b = cb # u # txs"
    using assms(2) by (metis Suc_le_length_iff numeral_3_eq_3)
  then have "last (transactions b) \<in> set (u # txs)" by auto
  then have "list_ex IsCoinbase (drop 1 (transactions (duplicate_last_tx b)))
      = list_ex IsCoinbase (drop 1 (transactions b))"
    and "list_all Transaction_IsValid (transactions (duplicate_last_tx b))
      = list_all Transaction_IsValid (transactions b)"
    unfolding list_ex_iff list_all_iff duplicate_last_tx_def using txs by auto
  then have "Block_IsValid (duplicate_last_tx b) = Block_IsValid b"
    using duplicate_last_same_root [OF assms] txs
    unfolding Block_IsValid_def by (simp add: duplicate_last_tx_def)
  then show ?thesis by (simp add: duplicate_last_tx_def Block_GetHash_def)
qed

theorem merkle_duplicate_tail_witness:
  "transactions (duplicate_last_tx \<lparr>header = BlockHeader_init, transactions = [sample_tx, sample_tx, sample_tx]\<rparr>)
     \<noteq> [sample_tx, sample_tx, sample_tx]"
  using merkle_duplicate_tail [of "\<lparr>header = BlockHeader_init, transactions = [sample_tx, sample_tx, sample_tx]\<rparr>"]
  by simp

end
