(* ===== verification/AmountMap.thy ===== *)
theory AmountMap
  imports Asset
begin

section \<open>Amounts per asset\<close>

text \<open>
  The \<open>std::map<AssetID, uint64_t>\<close> that the chain, the block validators and the coinbase checks
  accumulate amounts in, as an association list in the map's iteration order (ascending keys).
  \<open>m[k] += v\<close> inserts a zero first when the key is new, and the addition wraps.
\<close>

type_synonym amounts = "(AssetID \<times> u64) list"

text \<open>Reading \<open>m[k]\<close> (and \<open>find\<close> with 0 for \<open>end()\<close>).\<close>

definition amount_at :: "amounts \<Rightarrow> AssetID \<Rightarrow> u64" where
  "amount_at m k = (case map_of m k of None \<Rightarrow> 0 | Some v \<Rightarrow> v)"

text \<open>\<open>m[k] += v\<close>.\<close>

fun amount_add :: "AssetID \<Rightarrow> u64 \<Rightarrow> amounts \<Rightarrow> amounts" where
  "amount_add k v [] = [(k, v)]"
| "amount_add k v ((k', v') # m) =
     (if k < k' then (k, v) # (k', v') # m
      else if k = k' then (k', v' + v) # m
      else (k', v') # amount_add k v m)"

definition sum_amounts :: "AssetAmount list \<Rightarrow> amounts" where
  "sum_amounts vs = foldl (\<lambda>m v. amount_add (asset_id v) (asset_amount v) m) [] vs"

subsection \<open>The map's invariant and its laws\<close>

definition amounts_inv :: "amounts \<Rightarrow> bool" where
  "amounts_inv m \<longleftrightarrow> sorted_wrt (<) (map fst m)"

lemma amounts_inv_simps [simp]:
  "amounts_inv []"
  "amounts_inv ((k, v) # m) \<longleftrightarrow> (\<forall>k' \<in> fst ` set m. k < k') \<and> amounts_inv m"
  by (auto simp: amounts_inv_def)

lemma keys_amount_add [simp]: "fst ` set (amount_add k v m) = insert k (fst ` set m)"
  by (induction k v m rule: amount_add.induct) auto

lemma amounts_inv_add [simp]: "amounts_inv m \<Longrightarrow> amounts_inv (amount_add k v m)"
  by (induction k v m rule: amount_add.induct) auto

lemma amount_at_Nil [simp]: "amount_at [] k = 0"
  by (simp add: amount_at_def)

lemma amount_at_Cons [simp]: "amount_at ((k', v') # m) k = (if k = k' then v' else amount_at m k)"
  by (simp add: amount_at_def)

lemma amount_at_absent: "k \<notin> fst ` set m \<Longrightarrow> amount_at m k = 0"
  by (induction m) auto

lemma amount_at_add [simp]:
  "amounts_inv m \<Longrightarrow> amount_at (amount_add k v m) k' = (if k' = k then amount_at m k + v else amount_at m k')"
  by (induction k v m rule: amount_add.induct) (auto intro!: amount_at_absent)

lemma amount_at_touch [simp]: "amounts_inv m \<Longrightarrow> amount_at (amount_add k 0 m) = amount_at m"
  by (auto simp: fun_eq_iff)

lemma amount_at_member: "amounts_inv m \<Longrightarrow> (k, v) \<in> set m \<Longrightarrow> amount_at m k = v"
  by (induction m) force+

lemma foldl_amounts_inv [simp]:
  "amounts_inv m \<Longrightarrow> amounts_inv (foldl (\<lambda>m v. amount_add (f v) (g v) m) m vs)"
  by (induction vs arbitrary: m) simp_all

lemma amounts_inv_sum [simp]: "amounts_inv (sum_amounts vs)"
  by (simp add: sum_amounts_def)

lemma keys_foldl_add:
  "fst ` set (foldl (\<lambda>m v. amount_add (f v) (g v) m) m vs) = fst ` set m \<union> f ` set vs"
  by (induction vs arbitrary: m) auto

lemma keys_sum_amounts: "fst ` set (sum_amounts vs) = asset_id ` set vs"
  by (simp add: sum_amounts_def keys_foldl_add)

lemma amount_at_foldl_add:
  "amounts_inv m \<Longrightarrow>
     amount_at (foldl (\<lambda>m v. amount_add (f v) (g v) m) m vs) k
       = amount_at m k + wsum (map g (filter (\<lambda>v. f v = k) vs))"
  by (induction vs arbitrary: m) (simp_all add: add.assoc)

subsection \<open>Sums as numbers\<close>

text \<open>The exact total of an asset in a list of amounts, to compare with what \<open>uint64_t\<close> holds.\<close>

definition asset_total :: "AssetID \<Rightarrow> AssetAmount list \<Rightarrow> nat" where
  "asset_total a vs = nsum (map asset_amount (filter (\<lambda>v. asset_id v = a) vs))"

lemma asset_total_simps [simp]:
  "asset_total a [] = 0"
  "asset_total a (v # vs) = (if asset_id v = a then unat (asset_amount v) else 0) + asset_total a vs"
  by (simp_all add: asset_total_def)

lemma amount_at_sum: "amount_at (sum_amounts vs) a = wsum (map asset_amount (filter (\<lambda>v. asset_id v = a) vs))"
  by (simp add: sum_amounts_def amount_at_foldl_add)

lemma unat_amount_at_sum: "unat (amount_at (sum_amounts vs) a) = asset_total a vs mod 2 ^ 64"
  by (simp add: amount_at_sum unat_wsum asset_total_def)

lemma unat_amount_at_sum_exact:
  "asset_total a vs < 2 ^ 64 \<Longrightarrow> unat (amount_at (sum_amounts vs) a) = asset_total a vs"
  by (simp add: unat_amount_at_sum)

lemma asset_total_bound:
  "\<forall>v \<in> set vs. AssetAmount_IsValid v \<Longrightarrow> asset_total a vs \<le> length vs * 6100000000000000"
proof (induction vs)
  case (Cons v vs)
  then show ?case
    using IsValidAmount_bound [of "asset_id v" "asset_amount v"]
    by (auto simp: AssetAmount_IsValid_def intro: add_mono)
qed simp

text \<open>Fewer than 3025 valid amounts cannot wrap a 64-bit sum.\<close>

lemma asset_total_no_wrap:
  assumes "\<forall>v \<in> set vs. AssetAmount_IsValid v" and "length vs \<le> 3024"
  shows "asset_total a vs < 2 ^ 64"
proof -
  have "asset_total a vs \<le> length vs * 6100000000000000" using assms(1) by (rule asset_total_bound)
  also have "\<dots> \<le> 3024 * 6100000000000000" using assms(2) by simp
  also have "\<dots> < 2 ^ 64" by simp
  finally show ?thesis .
qed

text \<open>
  Covering: every total of the first map is at most what the second holds. This is the check
  both validators make for asset conservation.
\<close>

definition amounts_covered :: "amounts \<Rightarrow> amounts \<Rightarrow> bool" where
  "amounts_covered output_amounts input_amounts =
     list_all (\<lambda>(asset, amount). \<not> amount_at input_amounts asset < amount) output_amounts"

lemma amounts_covered_at:
  assumes "amounts_covered out inn" and "amounts_inv out"
  shows "amount_at out a \<le> amount_at inn a"
proof (cases "a \<in> fst ` set out")
  case True
  then obtain v where "(a, v) \<in> set out" by auto
  then show ?thesis
    using assms amount_at_member [of out a v] by (auto simp: amounts_covered_def list_all_iff)
qed (simp add: amount_at_absent)

end
