(* ===== verification/Utxo.thy ===== *)
theory Utxo
  imports Block AmountMap
begin

section \<open>The set of unspent outputs\<close>

text \<open>
  Models \<open>layer1-talanton/core/chainstate/utxo.h\<close> and \<open>utxo.cpp\<close>: coins, the UTXO set
  (\<open>std::map<OutPoint, Coin>\<close>, here a map), and the undo record of a block.
\<close>

record Coin =
  coin_output :: TxOutput
  coin_height :: u32
  coin_is_coinbase :: bool

text \<open>\<open>height + 100\<close> is computed in \<open>uint32_t\<close>.\<close>

definition IsSpendable :: "Coin \<Rightarrow> u32 \<Rightarrow> bool" where
  "IsSpendable c current_height =
     (if \<not> coin_is_coinbase c then True else coin_height c + 100 \<le> current_height)"

type_synonym UTXOSet = "OutPoint \<rightharpoonup> Coin"

definition AddCoin :: "UTXOSet \<Rightarrow> OutPoint \<Rightarrow> Coin \<Rightarrow> UTXOSet" where
  "AddCoin utxos outpoint coin = utxos(outpoint \<mapsto> coin)"

definition SpendCoin :: "UTXOSet \<Rightarrow> OutPoint \<Rightarrow> bool \<times> UTXOSet" where
  "SpendCoin utxos outpoint =
     (case utxos outpoint of
        None \<Rightarrow> (False, utxos)
      | Some _ \<Rightarrow> (True, utxos(outpoint := None)))"

definition GetCoin :: "UTXOSet \<Rightarrow> OutPoint \<Rightarrow> Coin option" where
  "GetCoin utxos outpoint = (case utxos outpoint of None \<Rightarrow> None | Some c \<Rightarrow> Some c)"

definition HaveCoin :: "UTXOSet \<Rightarrow> OutPoint \<Rightarrow> bool" where
  "HaveCoin utxos outpoint = (utxos outpoint \<noteq> None)"

definition UTXO_GetSize :: "UTXOSet \<Rightarrow> nat" where
  "UTXO_GetSize utxos = card (dom utxos)"

definition UTXO_Clear :: "UTXOSet \<Rightarrow> UTXOSet" where
  "UTXO_Clear utxos = Map.empty"

text \<open>\<open>BlockUndo::tx_undo\<close>: the coins each transaction spent, in block order, coinbase excluded.\<close>

type_synonym BlockUndo = "Coin list list"

definition AddTxUndo :: "BlockUndo \<Rightarrow> Coin list \<Rightarrow> BlockUndo" where
  "AddTxUndo undo coins = undo @ [coins]"

definition BlockUndo_IsEmpty :: "BlockUndo \<Rightarrow> bool" where
  "BlockUndo_IsEmpty undo = (undo = [])"

subsection \<open>The interface of a coin store\<close>

text \<open>
  What block connection and disconnection rely on: a lookup sees exactly the last addition or
  removal at its outpoint. The client lemmas are the two halves of a reorganisation: the effect
  of spending and adding a whole list, and that undoing restores the store.
\<close>

locale coin_store =
  fixes add :: "'s \<Rightarrow> OutPoint \<Rightarrow> 'c \<Rightarrow> 's"
    and spend :: "'s \<Rightarrow> OutPoint \<Rightarrow> bool \<times> 's"
    and get :: "'s \<Rightarrow> OutPoint \<Rightarrow> 'c option"
  assumes get_add: "get (add s p c) q = (if q = p then Some c else get s q)"
    and get_spend: "get (snd (spend s p)) q = (if q = p then None else get s q)"
    and spend_found: "fst (spend s p) \<longleftrightarrow> get s p \<noteq> None"
    and extensional: "(\<And>p. get s p = get t p) \<Longrightarrow> s = t"
begin

lemma get_spend_all:
  "get (foldl (\<lambda>s p. snd (spend s p)) s ps) q = (if q \<in> set ps then None else get s q)"
  by (induction ps arbitrary: s) (simp_all add: get_spend)

lemma get_add_all:
  "get (foldl (\<lambda>s (p, c). add s p c) s pcs) q
     = (case map_of (rev pcs) q of None \<Rightarrow> get s q | Some c \<Rightarrow> Some c)"
  by (induction pcs arbitrary: s)
     (auto simp: get_add map_add_def split: option.splits)

lemma get_add_all_notin:
  "q \<notin> fst ` set pcs \<Longrightarrow> get (foldl (\<lambda>s (p, c). add s p c) s pcs) q = get s q"
  by (induction pcs arbitrary: s) (auto simp: get_add)

lemma get_restore:
  assumes "length coins = length ps" and "\<forall>(p, c) \<in> set (zip ps coins). get t p = Some c"
  shows "get (foldl (\<lambda>s (p, c). add s p c) s (zip ps coins)) q
           = (if q \<in> set ps then get t q else get s q)"
  using assms
proof (induction ps arbitrary: s coins)
  case (Cons p ps)
  then obtain c coins' where coins: "coins = c # coins'" by (cases coins) auto
  then show ?case
    using Cons.prems Cons.IH [of coins' "add s p c"] by (auto simp: get_add)
qed simp

text \<open>Spend the inputs, add fresh outputs, remove them and put the spent coins back.\<close>

lemma apply_then_undo:
  assumes "length coins = length ins" and "\<forall>(p, c) \<in> set (zip ins coins). get s p = Some c"
    and "\<forall>p \<in> fst ` set outs. get s p = None"
  shows "foldl (\<lambda>s (p, c). add s p c)
           (foldl (\<lambda>s p. snd (spend s p))
              (foldl (\<lambda>s (p, c). add s p c) (foldl (\<lambda>s p. snd (spend s p)) s ins) outs)
              (map fst outs))
           (zip ins coins) = s"
  using assms
  by (intro extensional)
     (auto simp: get_restore [OF assms(1,2)] get_spend_all get_add_all_notin)

end

interpretation utxo: coin_store AddCoin SpendCoin GetCoin
proof
  show "s = t" if "\<And>p. GetCoin s p = GetCoin t p" for s t
  proof
    fix p
    show "s p = t p" using that [of p] by (cases "s p"; cases "t p") (simp_all add: GetCoin_def)
  qed
qed (auto simp: AddCoin_def SpendCoin_def GetCoin_def split: option.splits)

lemma GetCoin_apply [simp]: "GetCoin u p = u p"
  by (simp add: GetCoin_def split: option.splits)

lemma snd_SpendCoin: "snd (SpendCoin u p) = u(p := None)"
  by (auto simp: SpendCoin_def split: option.splits)

subsection \<open>Maturity\<close>

lemma IsSpendable_iff:
  "unat (coin_height c) + 100 < 2 ^ 32 \<Longrightarrow>
     IsSpendable c h \<longleftrightarrow> \<not> coin_is_coinbase c \<or> unat (coin_height c) + 100 \<le> unat h"
  by (simp add: IsSpendable_def word_le_nat_alt unat_word_ariths)

subsection \<open>The value held in a UTXO set\<close>

definition coin_value :: "AssetID \<Rightarrow> Coin \<Rightarrow> nat" where
  "coin_value a c = (if asset_id (out_value (coin_output c)) = a
                     then unat (asset_amount (out_value (coin_output c))) else 0)"

definition utxo_value :: "AssetID \<Rightarrow> UTXOSet \<Rightarrow> nat" where
  "utxo_value a u = (\<Sum>p \<in> dom u. case u p of None \<Rightarrow> 0 | Some c \<Rightarrow> coin_value a c)"

lemma utxo_value_empty [simp]: "utxo_value a Map.empty = 0"
  by (simp add: utxo_value_def)

lemma utxo_value_spend:
  assumes "finite (dom u)" and "u p = Some c"
  shows "utxo_value a (u(p := None)) + coin_value a c = utxo_value a u"
proof -
  have "p \<in> dom u" using assms(2) by auto
  then have "utxo_value a u = coin_value a c + (\<Sum>q \<in> dom u - {p}. case u q of None \<Rightarrow> 0 | Some c \<Rightarrow> coin_value a c)"
    unfolding utxo_value_def using assms by (subst sum.remove [of _ p]) auto
  moreover have "utxo_value a (u(p := None)) = (\<Sum>q \<in> dom u - {p}. case u q of None \<Rightarrow> 0 | Some c \<Rightarrow> coin_value a c)"
    unfolding utxo_value_def by (intro sum.cong) auto
  ultimately show ?thesis by simp
qed

lemma utxo_value_add_fresh:
  assumes "finite (dom u)" and "u p = None"
  shows "utxo_value a (u(p \<mapsto> c)) = utxo_value a u + coin_value a c"
proof -
  have "utxo_value a ((u(p \<mapsto> c))(p := None)) + coin_value a c = utxo_value a (u(p \<mapsto> c))"
    using assms(1) by (intro utxo_value_spend) auto
  moreover have "(u(p \<mapsto> c))(p := None) = u" using assms(2) by auto
  ultimately show ?thesis by simp
qed

lemma utxo_value_remove_le: "finite (dom u) \<Longrightarrow> utxo_value a (u(p := None)) \<le> utxo_value a u"
proof (cases "u p")
  case None
  then have "u(p := None) = u" by auto
  then show ?thesis by simp
next
  case (Some c)
  assume "finite (dom u)"
  from utxo_value_spend [OF this Some, of a] show ?thesis by simp
qed

lemma utxo_value_add:
  assumes "finite (dom u)"
  shows "utxo_value a (AddCoin u p c) \<le> utxo_value a u + coin_value a c"
proof -
  have "AddCoin u p c = (u(p := None))(p \<mapsto> c)" by (simp add: AddCoin_def)
  moreover have "utxo_value a ((u(p := None))(p \<mapsto> c)) = utxo_value a (u(p := None)) + coin_value a c"
    using assms by (intro utxo_value_add_fresh) auto
  ultimately show ?thesis using utxo_value_remove_le [OF assms, of a p] by simp
qed

lemma finite_dom_add [simp]: "finite (dom (AddCoin u p c)) \<longleftrightarrow> finite (dom u)"
  by (simp add: AddCoin_def)

lemma finite_dom_spend [simp]: "finite (dom u) \<Longrightarrow> finite (dom (snd (SpendCoin u p)))"
  by (simp add: snd_SpendCoin)

lemma utxo_value_spend_all:
  assumes "finite (dom u)" and "distinct ps" and "map u ps = map Some coins"
  shows "utxo_value a (foldl (\<lambda>s p. snd (SpendCoin s p)) u ps) + sum_list (map (coin_value a) coins)
           = utxo_value a u"
  using assms
proof (induction ps arbitrary: u coins)
  case (Cons p ps)
  then obtain c cs where coins: "coins = c # cs" "u p = Some c" "map u ps = map Some cs"
    by (cases coins) auto
  have "map (u(p := None)) ps = map Some cs"
    using coins(3) Cons.prems(2) map_cong [of ps ps "u(p := None)" u] by auto
  then have "utxo_value a (foldl (\<lambda>s p. snd (SpendCoin s p)) (u(p := None)) ps)
      + sum_list (map (coin_value a) cs) = utxo_value a (u(p := None))"
    using Cons.prems(1,2) by (intro Cons.IH) (simp_all del: fun_upd_apply)
  then show ?case
    using utxo_value_spend [OF Cons.prems(1) coins(2), of a] by (simp add: coins(1) snd_SpendCoin del: fun_upd_apply)
qed simp

lemma finite_dom_spend_all [simp]:
  "finite (dom u) \<Longrightarrow> finite (dom (foldl (\<lambda>s p. snd (SpendCoin s p)) u ps))"
  by (induction ps arbitrary: u) simp_all

lemma finite_dom_add_all [simp]:
  "finite (dom u) \<Longrightarrow> finite (dom (foldl (\<lambda>s (p, c). AddCoin s p c) u pcs))"
  by (induction pcs arbitrary: u) auto

lemma utxo_value_add_all:
  "finite (dom u) \<Longrightarrow> utxo_value a (foldl (\<lambda>s (p, c). AddCoin s p c) u pcs)
     \<le> utxo_value a u + sum_list (map (coin_value a \<circ> snd) pcs)"
proof (induction pcs arbitrary: u)
  case (Cons pc pcs)
  obtain p c where pc: "pc = (p, c)" by fastforce
  have "utxo_value a (foldl (\<lambda>s (p, c). AddCoin s p c) (AddCoin u p c) pcs)
      \<le> utxo_value a (AddCoin u p c) + sum_list (map (coin_value a \<circ> snd) pcs)"
    using Cons.prems by (intro Cons.IH) simp
  then show ?case using utxo_value_add [OF Cons.prems, of a p c] by (simp add: pc comp_def case_prod_unfold)
qed simp

end
