(* ===== verification/Issuance.thy ===== *)
theory Issuance
  imports Asset
begin

section \<open>Issuance schedule\<close>

text \<open>
  Models \<open>layer1-talanton/core/consensus/issuance.h\<close> and \<open>issuance.cpp\<close>: block rewards that halve
  every 210000 blocks from each asset's launch height, the supply accumulated up to a height, and
  the check of a claimed reward. All arithmetic is on \<open>uint64_t\<close>.
\<close>

definition GetInitialReward :: "AssetID \<Rightarrow> u64" where
  "GetInitialReward asset =
     (if asset = TALANTON then 50 * BASE_UNIT
      else if asset = DRACHMA then 97 * BASE_UNIT
      else if asset = OBOLOS then 145 * BASE_UNIT
      else 0)"

text \<open>The \<open>switch\<close> on the asset that both functions start with; \<open>None\<close> is its \<open>default: return 0\<close>.\<close>

definition start_height :: "AssetID \<Rightarrow> u64 option" where
  "start_height asset =
     (if asset = TALANTON then Some 0
      else if asset = DRACHMA then Some HALVING_INTERVAL
      else if asset = OBOLOS then Some (2 * HALVING_INTERVAL)
      else None)"

definition GetBlockReward :: "u64 \<Rightarrow> AssetID \<Rightarrow> u64" where
  "GetBlockReward height asset =
     (case start_height asset of
        None \<Rightarrow> 0
      | Some start \<Rightarrow>
          if height < start then 0
          else let blocks_since_launch = height - start;
                   halvings = blocks_since_launch div HALVING_INTERVAL in
            if 64 \<le> halvings then 0
            else drop_bit (unat halvings) (GetInitialReward asset))"

text \<open>
  The supply loop: one halving epoch per iteration. \<open>Inl\<close> is the early return of the cap on a
  detected overflow.
\<close>

function supply_loop :: "AssetID \<Rightarrow> u64 \<Rightarrow> u64 \<Rightarrow> u64 \<Rightarrow> u64 + u64" where
  "supply_loop asset remaining_height halvings total_supply =
     (if 0 < remaining_height \<and> halvings < 64 then
        let blocks_in_epoch = (if remaining_height > HALVING_INTERVAL then HALVING_INTERVAL
                               else remaining_height);
            reward = drop_bit (unat halvings) (GetInitialReward asset);
            epoch_supply = blocks_in_epoch * reward in
        if epoch_supply div blocks_in_epoch \<noteq> reward then Inl (GetMaxSupply asset)
        else if total_supply + epoch_supply < total_supply then Inl (GetMaxSupply asset)
        else supply_loop asset (remaining_height - blocks_in_epoch) (halvings + 1)
               (total_supply + epoch_supply)
      else Inr total_supply)"
  by pat_completeness auto
termination
  by (relation "measure (\<lambda>(a, r, h, t). unat r)")
     (auto simp: supply_defs word_less_nat_alt unat_sub word_le_nat_alt)

declare supply_loop.simps [simp del]

definition CalculateSupplyAtHeight :: "u64 \<Rightarrow> AssetID \<Rightarrow> u64" where
  "CalculateSupplyAtHeight height asset =
     (case start_height asset of
        None \<Rightarrow> 0
      | Some start \<Rightarrow>
          if height < start then 0
          else (case supply_loop asset (height - start) 0 0 of Inl cap \<Rightarrow> cap | Inr t \<Rightarrow> t))"

definition IsValidBlockReward :: "u64 \<Rightarrow> AssetID \<Rightarrow> u64 \<Rightarrow> bool" where
  "IsValidBlockReward height asset amount =
     (let expected_reward = GetBlockReward height asset in
      if amount > expected_reward then False
      else
        let projected_supply = CalculateSupplyAtHeight (height + 1) asset in
        if projected_supply > GetMaxSupply asset then False else True)"

subsection \<open>The schedule as a sum of rewards\<close>

text \<open>\<open>epoch_reward a j\<close>: the reward of asset \<open>a\<close> in its \<open>j\<close>-th epoch, as a natural number.\<close>

definition epoch_reward :: "AssetID \<Rightarrow> nat \<Rightarrow> nat" where
  "epoch_reward a j = (if j < 64 then unat (GetInitialReward a) div 2 ^ j else 0)"

definition epoch_sum :: "AssetID \<Rightarrow> nat \<Rightarrow> nat \<Rightarrow> nat" where
  "epoch_sum a H R = (\<Sum>i < R. epoch_reward a (H + i div 210000))"

lemma epoch_reward_dead [simp]: "64 \<le> j \<Longrightarrow> epoch_reward a j = 0"
  by (simp add: epoch_reward_def)

lemma unat_HALVING_INTERVAL [simp]: "unat HALVING_INTERVAL = 210000"
  by (simp add: HALVING_INTERVAL_def)

lemma unat_drop_bit64: "unat (drop_bit n (w :: u64)) = unat w div 2 ^ n"
  by (simp only: unsigned_drop_bit_eq take_bit_nat_eq_self [OF unsigned_less]
      drop_bit_eq_div [of n "unat w"])

lemma sum_split_add: "(\<Sum>i < m + k. f i) = (\<Sum>i < m. f i) + (\<Sum>i < k. f (m + i :: nat) :: nat)"
  using sum.atLeastLessThan_concat [of 0 m "m + k" f] sum.shift_bounds_nat_ivl [of f 0 m k]
  by (simp add: lessThan_atLeast0 add.commute)

lemma epoch_sum_step:
  "epoch_sum a H R = min R 210000 * epoch_reward a H + epoch_sum a (Suc H) (R - 210000)"
proof (cases "R \<le> 210000")
  case True
  then have "epoch_sum a H R = (\<Sum>i < R. epoch_reward a H)"
    unfolding epoch_sum_def by (intro sum.cong) simp_all
  with True show ?thesis by (simp add: epoch_sum_def)
next
  case False
  then obtain k where R: "R = 210000 + k" by (metis le_Suc_ex nat_le_linear)
  have "epoch_sum a H R = (\<Sum>i < 210000. epoch_reward a (H + i div 210000))
      + (\<Sum>i < k. epoch_reward a (H + (210000 + i) div 210000))"
    unfolding epoch_sum_def R by (rule sum_split_add)
  also have "(\<Sum>i < 210000. epoch_reward a (H + i div 210000)) = (\<Sum>i < (210000 :: nat). epoch_reward a H)"
    by (intro sum.cong) simp_all
  also have "(\<Sum>i < k. epoch_reward a (H + (210000 + i) div 210000)) = epoch_sum a (Suc H) k"
    unfolding epoch_sum_def
  proof (rule sum.cong [OF refl])
    fix i :: nat
    have "(210000 + i) div 210000 = Suc (i div 210000)" by (subst div_add_self1) simp_all
    then show "epoch_reward a (H + (210000 + i) div 210000) = epoch_reward a (Suc H + i div 210000)"
      by (simp only: add_Suc_right add_Suc)
  qed
  finally show ?thesis by (simp add: R)
qed

lemma epoch_sum_dead: "64 \<le> H \<Longrightarrow> epoch_sum a H R = 0"
  by (simp add: epoch_sum_def)

lemma epoch_sum_bound: "epoch_sum a H R \<le> 210000 * (\<Sum>j \<in> {H..<64}. epoch_reward a j)"
proof (induction R arbitrary: H rule: less_induct)
  case (less R)
  show ?case
  proof (cases "R = 0 \<or> 64 \<le> H")
    case True
    then show ?thesis by (auto simp: epoch_sum_dead epoch_sum_def)
  next
    case False
    then have rest: "epoch_sum a (Suc H) (R - 210000) \<le> 210000 * (\<Sum>j \<in> {Suc H..<64}. epoch_reward a j)"
      by (intro less.IH) simp
    have "min R 210000 * epoch_reward a H \<le> 210000 * epoch_reward a H"
      by (intro mult_le_mono1) simp
    note add_mono [OF this rest]
    moreover have "(\<Sum>j \<in> {H..<64}. epoch_reward a j)
        = epoch_reward a H + (\<Sum>j \<in> {Suc H..<64}. epoch_reward a j)"
      using False by (simp add: sum.atLeast_Suc_lessThan)
    ultimately show ?thesis by (simp only: epoch_sum_step [of a H R] distrib_left)
  qed
qed

lemma initial_rewards:
  "unat (GetInitialReward TALANTON) = 5000000000"
  "unat (GetInitialReward DRACHMA) = 9700000000"
  "unat (GetInitialReward OBOLOS) = 14500000000"
  by (simp_all add: GetInitialReward_def supply_defs)

text \<open>The schedule's total stays below what the code calls the achievable supply, and below the cap.\<close>

lemma schedule_total:
  assumes "start_height a = Some s"
  shows "epoch_sum a 0 R \<le> unat (GetAchievableSupply a)
       \<and> unat (GetAchievableSupply a) \<le> unat (GetMaxSupply a)"
proof -
  have a: "a = TALANTON \<or> a = DRACHMA \<or> a = OBOLOS"
    using assms by (auto simp: start_height_def split: if_splits)
  have total: "(\<Sum>j \<in> {0..<64}. w div 2 ^ j) \<le> 2 * (w :: nat)" for w
  proof -
    have "(\<Sum>j \<in> {0..<n}. w div 2 ^ j) + 2 * (w div 2 ^ n) \<le> 2 * w" for n
    proof (induction n)
      case (Suc n)
      have "2 * (w div 2 ^ Suc n) \<le> w div 2 ^ n"
        by (simp add: div_mult2_eq mult.commute [of 2])
      with Suc show ?case by simp
    qed simp
    from this [of 64] show ?thesis by linarith
  qed
  have "epoch_sum a 0 R \<le> 210000 * (\<Sum>j \<in> {0..<64}. unat (GetInitialReward a) div 2 ^ j)"
    using epoch_sum_bound [of a 0 R] by (simp add: epoch_reward_def)
  also have "\<dots> \<le> 420000 * unat (GetInitialReward a)"
    using total [of "unat (GetInitialReward a)"] by simp
  finally show ?thesis
    using a by (auto simp: initial_rewards GetAchievableSupply_def supply_defs)
qed

lemma supply_loop_sum:
  assumes "unat t + epoch_sum a (unat h) (unat r) < 2 ^ 64" and "unat h \<le> 64"
  shows "\<exists>t'. supply_loop a r h t = Inr t' \<and> unat t' = unat t + epoch_sum a (unat h) (unat r)"
  using assms
proof (induction a r h t rule: supply_loop.induct)
  case (1 a r h t)
  let ?b = "if r > HALVING_INTERVAL then HALVING_INTERVAL else r"
  let ?w = "drop_bit (unat h) (GetInitialReward a)"
  show ?case
  proof (cases "0 < r \<and> h < 64")
    case False
    then have "unat r = 0 \<or> 64 \<le> unat h"
      by (auto simp: word_less_nat_alt word_gt_0)
    then have "epoch_sum a (unat h) (unat r) = 0"
      by (auto simp: epoch_sum_dead epoch_sum_def)
    with False show ?thesis by (auto simp: supply_loop.simps [of a r h t])
  next
    case True
    then have h: "unat h < 64" and r: "0 < unat r" by (simp_all add: word_less_nat_alt)
    have b: "unat ?b = min (unat r) 210000" by (simp add: word_less_nat_alt)
    have w: "unat ?w = epoch_reward a (unat h)"
      using h by (simp add: unat_drop_bit64 epoch_reward_def)
    have sum: "epoch_sum a (unat h) (unat r)
        = unat ?b * unat ?w + epoch_sum a (Suc (unat h)) (unat r - 210000)"
      unfolding b w by (rule epoch_sum_step)
    have bw: "unat (?b * ?w) = unat ?b * unat ?w"
      by (rule unat_mult_lt) (use "1.prems"(1) sum in linarith)
    have tb: "unat (t + ?b * ?w) = unat t + unat ?b * unat ?w"
      by (subst unat_add_lt) (use "1.prems"(1) sum bw in linarith)+
    have h1: "unat (h + 1) = Suc (unat h)" using h by (simp add: unat_add_mod64)
    have rb: "unat (r - ?b) = unat r - 210000"
      by (subst unat_sub) (auto simp: word_le_nat_alt word_less_nat_alt)
    have nomul: "(?b * ?w) div ?b = ?w"
      by (rule word_unat_eq_iff [THEN iffD2]) (use b r bw in \<open>simp add: unat_div\<close>)
    have noadd: "\<not> t + ?b * ?w < t"
      using tb by (simp add: word_less_nat_alt)
    have "\<exists>t'. supply_loop a (r - ?b) (h + 1) (t + ?b * ?w) = Inr t'
        \<and> unat t' = unat (t + ?b * ?w) + epoch_sum a (unat (h + 1)) (unat (r - ?b))"
      by (rule "1.IH" [OF True refl refl refl]) (use nomul noadd tb h1 rb sum "1.prems" h in simp_all)
    moreover have "supply_loop a r h t = supply_loop a (r - ?b) (h + 1) (t + ?b * ?w)"
      using True nomul noadd by (subst supply_loop.simps) (simp only: Let_def if_True if_False simp_thms)
    ultimately show ?thesis by (simp only: tb h1 rb sum add.assoc)
  qed
qed

lemma unat_GetBlockReward:
  "unat (GetBlockReward h a) =
     (case start_height a of
        None \<Rightarrow> 0
      | Some s \<Rightarrow> if unat h < unat s then 0 else epoch_reward a ((unat h - unat s) div 210000))"
proof (cases "start_height a")
  case (Some s)
  have "unat (h - s) = unat h - unat s" if "\<not> unat h < unat s"
    using that by (subst unat_sub) (simp_all add: word_le_nat_alt)
  then show ?thesis
    using Some by (auto simp: GetBlockReward_def Let_def word_less_nat_alt word_le_nat_alt unat_div
        unat_drop_bit64 epoch_reward_def)
qed (simp add: GetBlockReward_def)

lemma unat_CalculateSupplyAtHeight:
  "unat (CalculateSupplyAtHeight h a) =
     (case start_height a of None \<Rightarrow> 0 | Some s \<Rightarrow> epoch_sum a 0 (unat h - unat s))"
proof (cases "start_height a")
  case (Some s)
  have small: "epoch_sum a 0 R < 2 ^ 64" for R
    using schedule_total [OF Some, of R] unat64_lt [of "GetMaxSupply a"] by simp
  show ?thesis
  proof (cases "h < s")
    case True
    then show ?thesis
      using Some by (simp add: CalculateSupplyAtHeight_def word_less_nat_alt epoch_sum_def)
  next
    case False
    then have "unat (h - s) = unat h - unat s"
      by (subst unat_sub) (simp_all add: word_le_nat_alt not_less)
    moreover obtain t where "supply_loop a (h - s) 0 0 = Inr t" "unat t = epoch_sum a 0 (unat (h - s))"
      using supply_loop_sum [of 0 a 0 "h - s"] small [of "unat (h - s)"] by auto
    ultimately show ?thesis using Some False by (simp add: CalculateSupplyAtHeight_def)
  qed
qed (simp add: CalculateSupplyAtHeight_def)

lemma rewards_before:
  assumes "start_height a = Some s" and "n \<le> 2 ^ 64"
  shows "(\<Sum>k < n. unat (GetBlockReward (of_nat k) a)) = epoch_sum a 0 (n - unat s)"
proof -
  have r: "unat (GetBlockReward (of_nat k) a)
      = (if k < unat s then 0 else epoch_reward a ((k - unat s) div 210000))" if "k < n" for k
    using that assms unat_of_nat64 [of k] by (simp add: unat_GetBlockReward)
  show ?thesis
  proof (cases "n \<le> unat s")
    case True
    then show ?thesis using r by (simp add: epoch_sum_def)
  next
    case False
    then obtain m where n: "n = unat s + m" by (metis le_Suc_ex nat_le_linear)
    have "(\<Sum>k < n. unat (GetBlockReward (of_nat k) a))
        = (\<Sum>k < n. if k < unat s then 0 else epoch_reward a ((k - unat s) div 210000))"
      by (intro sum.cong) (simp_all add: r)
    also have "\<dots> = epoch_sum a 0 m"
      unfolding n sum_split_add by (simp add: epoch_sum_def)
    finally show ?thesis by (simp add: n)
  qed
qed

lemma CalculateSupply_le_cap: "CalculateSupplyAtHeight h a \<le> GetMaxSupply a"
proof (cases "start_height a")
  case (Some s)
  then show ?thesis
    using schedule_total [OF Some, of "unat h - unat s"]
    by (simp add: word_le_nat_alt unat_CalculateSupplyAtHeight)
qed (simp add: CalculateSupplyAtHeight_def)

lemma CalculateSupply_sum:
  "unat (CalculateSupplyAtHeight height a)
     = (\<Sum>k < unat height. unat (GetBlockReward (of_nat k) a))"
proof (cases "start_height a")
  case None
  then show ?thesis by (simp add: CalculateSupplyAtHeight_def GetBlockReward_def)
next
  case (Some s)
  have "unat height \<le> 2 ^ 64" using unat64_lt [of height] by simp
  from rewards_before [OF Some this] Some show ?thesis
    by (simp add: unat_CalculateSupplyAtHeight)
qed

lemma IsValidBlockReward_iff: "IsValidBlockReward height a amount \<longleftrightarrow> amount \<le> GetBlockReward height a"
proof -
  have "\<not> GetMaxSupply a < CalculateSupplyAtHeight (height + 1) a"
    using CalculateSupply_le_cap [of "height + 1" a] by simp
  then show ?thesis by (auto simp: IsValidBlockReward_def Let_def)
qed

subsection \<open>Properties\<close>

text \<open>
  C5. The supply loop is the schedule it summarises: for every asset and height, the computed supply
  is the mathematical sum of the block rewards of all lower heights; the overflow returns never fire.
\<close>

theorem supply_is_sum_of_rewards:
  "unat (CalculateSupplyAtHeight height a)
     = (\<Sum>k < unat height. unat (GetBlockReward (of_nat k) a))"
  by (rule CalculateSupply_sum)

text \<open>
  The supply issued by any height stays within the achievable supply and the hard cap of the
  asset, so the projected-supply check of a reward never rejects: a reward is valid exactly when it
  does not exceed the schedule's reward.
\<close>

theorem supply_within_cap:
  "CalculateSupplyAtHeight height a \<le> GetAchievableSupply a
   \<and> GetAchievableSupply a \<le> GetMaxSupply a
   \<and> (IsValidBlockReward height a amount \<longleftrightarrow> amount \<le> GetBlockReward height a)"
proof -
  have "CalculateSupplyAtHeight height a \<le> GetAchievableSupply a"
  proof (cases "start_height a")
    case (Some s)
    then show ?thesis
      using schedule_total [OF Some, of "unat height - unat s"]
      by (simp add: word_le_nat_alt unat_CalculateSupplyAtHeight)
  qed (simp add: CalculateSupplyAtHeight_def)
  moreover have "GetAchievableSupply a \<le> GetMaxSupply a"
    by (simp add: GetAchievableSupply_def GetMaxSupply_def supply_defs)
  ultimately show ?thesis by (simp add: IsValidBlockReward_iff)
qed

end
