(* ===== verification/Chain.thy ===== *)
theory Chain
  imports Utxo Issuance
begin

section \<open>Connecting and disconnecting blocks\<close>

text \<open>
  Models \<open>layer1-talanton/core/chainstate/chain.h\<close> and \<open>chain.cpp\<close>. An operation returns its
  \<open>bool\<close> and the state it leaves, also when it returns false half way. The output loops run over
  \<open>uint32_t\<close> indices; a transaction with \<open>2 ^ 32\<close> outputs does not fit in memory, so they are
  loops over the list.
\<close>

record BlockIndex =
  bi_hash :: bytes
  bi_prev_hash :: bytes
  bi_height :: u32
  bi_timestamp :: u32
  bi_bits :: u32
  bi_chain_work :: u64

definition BlockIndex_init :: "BlockHeader \<Rightarrow> u32 \<Rightarrow> u64 \<Rightarrow> BlockIndex" where
  "BlockIndex_init hdr h work =
     \<lparr>bi_hash = BlockHeader_GetHash hdr, bi_prev_hash = prev_block_hash hdr, bi_height = h,
      bi_timestamp = timestamp hdr, bi_bits = bits hdr, bi_chain_work = work\<rparr>"

record Chain =
  utxo_set :: UTXOSet
  chain_height :: u32
  tip_hash :: bytes
  block_index :: "bytes \<rightharpoonup> BlockIndex"
  total_supply :: amounts

definition Chain_init :: Chain where
  "Chain_init =
     \<lparr>utxo_set = Map.empty, chain_height = 0, tip_hash = zero_hash, block_index = Map.empty,
      total_supply = [(TALANTON, 0), (DRACHMA, 0), (OBOLOS, 0)]\<rparr>"

subsection \<open>Validating a transaction\<close>

text \<open>The loop over the inputs: it accumulates the input amounts and the coins.\<close>

fun gather_inputs :: "UTXOSet \<Rightarrow> u32 \<Rightarrow> TxInput list \<Rightarrow> amounts \<Rightarrow> Coin list \<Rightarrow> (amounts \<times> Coin list) option" where
  "gather_inputs utxos height [] input_amounts input_coins = Some (input_amounts, input_coins)"
| "gather_inputs utxos height (i # is) input_amounts input_coins =
     (case GetCoin utxos (prevout i) of
        None \<Rightarrow> None
      | Some coin \<Rightarrow>
          if \<not> IsSpendable coin height then None
          else let v = out_value (coin_output coin) in
            gather_inputs utxos height is (amount_add (asset_id v) (asset_amount v) input_amounts)
              (input_coins @ [coin]))"

text \<open>\<open>None\<close> is \<open>return false\<close>; otherwise the value is what is left in \<open>input_coins\<close>.\<close>

definition Chain_ValidateTransaction :: "UTXOSet \<Rightarrow> Transaction \<Rightarrow> u32 \<Rightarrow> Coin list option" where
  "Chain_ValidateTransaction utxos tx height =
     (if IsCoinbase tx then Some []
      else case gather_inputs utxos height (inputs tx) [] [] of
        None \<Rightarrow> None
      | Some (input_amounts, input_coins) \<Rightarrow>
          let output_amounts = sum_amounts (map out_value (outputs tx)) in
          if amounts_covered output_amounts input_amounts then Some input_coins else None)"

subsection \<open>The loops over a transaction's inputs and outputs\<close>

definition output_points :: "Transaction \<Rightarrow> OutPoint list" where
  "output_points tx =
     (let t = GetTxID tx in map (\<lambda>v. OutPoint t (of_nat v)) [0..<length (outputs tx)])"

definition AddOutputs :: "UTXOSet \<Rightarrow> Transaction \<Rightarrow> u32 \<Rightarrow> bool \<Rightarrow> UTXOSet" where
  "AddOutputs utxos tx block_height coinbase =
     foldl (\<lambda>s (p, c). AddCoin s p c) utxos
       (zip (output_points tx)
         (map (\<lambda>v. \<lparr>coin_output = v, coin_height = block_height, coin_is_coinbase = coinbase\<rparr>)
           (outputs tx)))"

definition SpendInputs :: "UTXOSet \<Rightarrow> Transaction \<Rightarrow> UTXOSet" where
  "SpendInputs utxos tx = foldl (\<lambda>s p. snd (SpendCoin s p)) utxos (map prevout (inputs tx))"

definition RemoveOutputs :: "UTXOSet \<Rightarrow> Transaction \<Rightarrow> UTXOSet" where
  "RemoveOutputs utxos tx = foldl (\<lambda>s p. snd (SpendCoin s p)) utxos (output_points tx)"

definition RestoreInputs :: "UTXOSet \<Rightarrow> Transaction \<Rightarrow> Coin list \<Rightarrow> UTXOSet" where
  "RestoreInputs utxos tx tx_undo =
     foldl (\<lambda>s (p, c). AddCoin s p c) utxos (zip (map prevout (inputs tx)) tx_undo)"

subsection \<open>Supply tracking\<close>

definition UpdateSupply :: "amounts \<Rightarrow> Transaction \<Rightarrow> bool \<Rightarrow> amounts" where
  "UpdateSupply supply coinbase connect =
     (if \<not> IsCoinbase coinbase then supply
      else foldl (\<lambda>m (asset, amount). amount_add asset (if connect then amount else - amount) m)
             supply (sum_amounts (map out_value (outputs coinbase))))"

text \<open>
  The reward and cap checks, one iteration per asset of the coinbase. \<open>total_supply_[asset]\<close>
  inserts a missing asset with supply 0.
\<close>

fun check_coinbase :: "u32 \<Rightarrow> amounts \<Rightarrow> (AssetID \<times> u64) list \<Rightarrow> bool \<times> amounts" where
  "check_coinbase block_height supply [] = (True, supply)"
| "check_coinbase block_height supply ((asset, amount) # rest) =
     (if \<not> IsValidBlockReward (ucast block_height) asset amount then (False, supply)
      else let supply = amount_add asset 0 supply;
               new_supply = amount_at supply asset + amount in
        if new_supply < amount_at supply asset then (False, supply)
        else if new_supply > GetMaxSupply asset then (False, supply)
        else check_coinbase block_height supply rest)"

subsection \<open>Connecting\<close>

fun connect_rest :: "UTXOSet \<Rightarrow> BlockUndo \<Rightarrow> u32 \<Rightarrow> Transaction list \<Rightarrow> bool \<times> UTXOSet \<times> BlockUndo" where
  "connect_rest utxos undo block_height [] = (True, utxos, undo)"
| "connect_rest utxos undo block_height (tx # txs) =
     (case Chain_ValidateTransaction utxos tx block_height of
        None \<Rightarrow> (False, utxos, undo)
      | Some tx_undo \<Rightarrow>
          connect_rest (AddOutputs (SpendInputs utxos tx) tx block_height False)
            (AddTxUndo undo tx_undo) block_height txs)"

definition chain_work_after :: "(bytes \<rightharpoonup> BlockIndex) \<Rightarrow> u32 \<Rightarrow> bytes \<Rightarrow> u64" where
  "chain_work_after idx height prev =
     (if height > 1 then
        (case idx prev of None \<Rightarrow> 1 | Some prev_index \<Rightarrow> bi_chain_work prev_index + 1)
      else 1)"

definition ConnectBlock :: "Chain \<Rightarrow> Block \<Rightarrow> BlockUndo \<Rightarrow> bool \<times> Chain \<times> BlockUndo" where
  "ConnectBlock c block undo =
     (if \<not> Block_IsValid block then (False, c, undo)
      else if \<not> CheckProofOfWork (Block_GetHash block) (bits (header block)) then (False, c, undo)
      else if transactions block = [] \<or> \<not> IsCoinbase (transactions block ! 0) then (False, c, undo)
      else
        let block_height = chain_height c + 1;
            coinbase = transactions block ! 0;
            coinbase_amounts = sum_amounts (map out_value (outputs coinbase));
            (rewards_ok, supply) = check_coinbase block_height (total_supply c) coinbase_amounts in
        if \<not> rewards_ok then (False, c\<lparr>total_supply := supply\<rparr>, undo)
        else
          let (txs_ok, utxos, undo) =
                connect_rest (AddOutputs (utxo_set c) coinbase block_height True) undo block_height
                  (tl (transactions block)) in
          if \<not> txs_ok then (False, c\<lparr>total_supply := supply, utxo_set := utxos\<rparr>, undo)
          else
            let tip = Block_GetHash block;
                chain_work = chain_work_after (block_index c) block_height
                               (prev_block_hash (header block)) in
            (True,
             \<lparr>utxo_set = utxos, chain_height = block_height, tip_hash = tip,
              block_index = (block_index c)(tip \<mapsto> BlockIndex_init (header block) block_height chain_work),
              total_supply = UpdateSupply supply coinbase True\<rparr>,
             undo))"

subsection \<open>Disconnecting\<close>

text \<open>
  The loop runs over the transactions from the last one, and takes the undo records from the
  back. \<open>undo_index--\<close> at 0 wraps to a value that is no index, which is the \<open>[]\<close> case.
\<close>

fun disconnect_rest :: "UTXOSet \<Rightarrow> Transaction list \<Rightarrow> Coin list list \<Rightarrow> bool \<times> UTXOSet" where
  "disconnect_rest utxos [] rev_undo = (True, utxos)"
| "disconnect_rest utxos (tx # txs) [] = (False, RemoveOutputs utxos tx)"
| "disconnect_rest utxos (tx # txs) (tx_undo # rev_undo) =
     (let utxos = RemoveOutputs utxos tx in
      if length tx_undo \<noteq> length (inputs tx) then (False, utxos)
      else disconnect_rest (RestoreInputs utxos tx tx_undo) txs rev_undo)"

definition DisconnectBlock :: "Chain \<Rightarrow> Block \<Rightarrow> BlockUndo \<Rightarrow> bool \<times> Chain" where
  "DisconnectBlock c block undo =
     (if chain_height c = 0 then (False, c)
      else if Block_GetHash block \<noteq> tip_hash c then (False, c)
      else
        let block_height = chain_height c;
            (undo_ok, utxos) = disconnect_rest (utxo_set c) (rev (tl (transactions block))) (rev undo) in
        if \<not> undo_ok then (False, c\<lparr>utxo_set := utxos\<rparr>)
        else
          let coinbase = transactions block ! 0 in
          (True,
           \<lparr>utxo_set = RemoveOutputs utxos coinbase, chain_height = block_height - 1,
            tip_hash = prev_block_hash (header block),
            block_index = (block_index c)(Block_GetHash block := None),
            total_supply = UpdateSupply (total_supply c) coinbase False\<rparr>))"

subsection \<open>Queries, reset and snapshots\<close>

definition Chain_GetTotalSupply :: "Chain \<Rightarrow> AssetID \<Rightarrow> u64" where
  "Chain_GetTotalSupply c asset = amount_at (total_supply c) asset"

definition GetBlockIndex :: "Chain \<Rightarrow> bytes \<Rightarrow> BlockIndex option" where
  "GetBlockIndex c hash = block_index c hash"

definition HasBlock :: "Chain \<Rightarrow> bytes \<Rightarrow> bool" where
  "HasBlock c hash = (block_index c hash \<noteq> None)"

text \<open>\<open>m[k] = 0\<close>.\<close>

fun amount_reset :: "AssetID \<Rightarrow> amounts \<Rightarrow> amounts" where
  "amount_reset k [] = [(k, 0)]"
| "amount_reset k ((k', v') # m) =
     (if k < k' then (k, 0) # (k', v') # m
      else if k = k' then (k', 0) # m
      else (k', v') # amount_reset k m)"

definition Chain_Reset :: "Chain \<Rightarrow> Chain" where
  "Chain_Reset c =
     \<lparr>utxo_set = UTXO_Clear (utxo_set c), chain_height = 0, tip_hash = zero_hash,
      block_index = Map.empty,
      total_supply = amount_reset OBOLOS (amount_reset DRACHMA (amount_reset TALANTON (total_supply c)))\<rparr>"

record ChainSnapshot =
  snap_utxo_set :: UTXOSet
  snap_height :: u32
  snap_tip_hash :: bytes
  snap_block_index :: "bytes \<rightharpoonup> BlockIndex"
  snap_total_supply :: amounts

definition CreateSnapshot :: "Chain \<Rightarrow> ChainSnapshot" where
  "CreateSnapshot c =
     \<lparr>snap_utxo_set = utxo_set c, snap_height = chain_height c, snap_tip_hash = tip_hash c,
      snap_block_index = block_index c, snap_total_supply = total_supply c\<rparr>"

definition RestoreSnapshot :: "Chain \<Rightarrow> ChainSnapshot \<Rightarrow> Chain" where
  "RestoreSnapshot c snapshot =
     \<lparr>utxo_set = snap_utxo_set snapshot, chain_height = snap_height snapshot,
      tip_hash = snap_tip_hash snapshot, block_index = snap_block_index snapshot,
      total_supply = snap_total_supply snapshot\<rparr>"

lemma RestoreSnapshot_Create [simp]: "RestoreSnapshot c' (CreateSnapshot c) = c"
  by (simp add: RestoreSnapshot_def CreateSnapshot_def)

subsection \<open>The coinbase checks and the supply update\<close>

lemma check_coinbase_ok:
  assumes "check_coinbase h s cs = (True, s')" and "amounts_inv s"
  shows "amounts_inv s' \<and> amount_at s' = amount_at s
    \<and> (\<forall>(a, v) \<in> set cs. v \<le> GetBlockReward (ucast h) a
        \<and> unat (amount_at s a) + unat v < 2 ^ 64 \<and> amount_at s a + v \<le> GetMaxSupply a)"
  using assms
proof (induction h s cs rule: check_coinbase.induct)
  case (2 h s a v rest)
  let ?s = "amount_add a 0 s"
  have at: "amount_at ?s = amount_at s" using 2(3) by (auto simp: fun_eq_iff)
  have "v \<le> GetBlockReward (ucast h) a" and nowrap: "amount_at s a \<le> amount_at s a + v"
    and cap: "amount_at s a + v \<le> GetMaxSupply a" and rest: "check_coinbase h ?s rest = (True, s')"
    using 2(2) by (auto simp: IsValidBlockReward_iff at Let_def split: if_splits)
  moreover have "unat (amount_at s a) + unat v < 2 ^ 64" using nowrap by (simp add: add_no_wrap)
  ultimately show ?case
    using 2(1) [of ?s "amount_at ?s a + v"] 2(2,3)
    by (auto simp: at IsValidBlockReward_iff)
qed simp

lemma filter_key_absent: "k \<notin> fst ` set m \<Longrightarrow> filter (\<lambda>x. fst x = k) m = []"
  by (induction m) auto

lemma wsum_filter_key: "amounts_inv m \<Longrightarrow> wsum (map snd (filter (\<lambda>x. fst x = k) m)) = amount_at m k"
proof (induction m)
  case (Cons kv m)
  obtain k' v where kv: "kv = (k', v)" by fastforce
  have "filter (\<lambda>x. fst x = k') m = []"
    using Cons.prems kv by (intro filter_key_absent) auto
  then show ?case using Cons kv by auto
qed simp

lemma wsum_uminus: "wsum (map (\<lambda>x. - f x) xs) = - wsum (map f xs)"
  by (induction xs) simp_all

lemma amounts_inv_UpdateSupply [simp]: "amounts_inv s \<Longrightarrow> amounts_inv (UpdateSupply s cb con)"
  by (simp add: UpdateSupply_def case_prod_unfold)

lemma amount_at_UpdateSupply:
  assumes "IsCoinbase cb" and "amounts_inv s"
  shows "amount_at (UpdateSupply s cb con) a =
    (if con then amount_at s a + amount_at (sum_amounts (map out_value (outputs cb))) a
     else amount_at s a - amount_at (sum_amounts (map out_value (outputs cb))) a)"
  using assms wsum_filter_key [of "sum_amounts (map out_value (outputs cb))" a]
  by (simp add: UpdateSupply_def case_prod_unfold amount_at_foldl_add wsum_uminus)

subsection \<open>What a validated transaction guarantees\<close>

lemma gather_inputs_Some:
  "gather_inputs u h is m cs = Some (m', cs') \<Longrightarrow>
     \<exists>new. cs' = cs @ new \<and> map u (map prevout is) = map Some new
       \<and> (\<forall>c \<in> set new. IsSpendable c h)
       \<and> m' = foldl (\<lambda>m v. amount_add (asset_id v) (asset_amount v) m) m (map (out_value \<circ> coin_output) new)"
proof (induction u h "is" m cs arbitrary: rule: gather_inputs.induct)
  case (2 u h i "is" m cs)
  then obtain c where c: "u (prevout i) = Some c" "IsSpendable c h"
    by (auto split: option.splits if_splits)
  let ?v = "out_value (coin_output c)"
  have "gather_inputs u h is (amount_add (asset_id ?v) (asset_amount ?v) m) (cs @ [c]) = Some (m', cs')"
    using 2(2) c by (simp add: Let_def)
  then obtain new where "cs' = (cs @ [c]) @ new" "map u (map prevout is) = map Some new"
      "\<forall>c \<in> set new. IsSpendable c h"
      "m' = foldl (\<lambda>m v. amount_add (asset_id v) (asset_amount v) m)
              (amount_add (asset_id ?v) (asset_amount ?v) m) (map (out_value \<circ> coin_output) new)"
    using 2(1) [of c ?v] c by (auto simp: comp_def)
  then show ?case using c by (intro exI [of _ "c # new"]) (simp add: comp_def)
qed simp

lemma Chain_ValidateTransaction_Some:
  assumes "Chain_ValidateTransaction u tx h = Some coins" and "\<not> IsCoinbase tx"
  shows "map u (map prevout (inputs tx)) = map Some coins"
    and "\<forall>c \<in> set coins. IsSpendable c h"
    and "amount_at (sum_amounts (map out_value (outputs tx))) a
           \<le> amount_at (sum_amounts (map (out_value \<circ> coin_output) coins)) a"
proof -
  obtain ia where g: "gather_inputs u h (inputs tx) [] [] = Some (ia, coins)"
    and cov: "amounts_covered (sum_amounts (map out_value (outputs tx))) ia"
    using assms by (auto simp: Chain_ValidateTransaction_def Let_def split: option.splits if_splits)
  have ia: "ia = sum_amounts (map (out_value \<circ> coin_output) coins)"
    and "map u (map prevout (inputs tx)) = map Some coins" "\<forall>c \<in> set coins. IsSpendable c h"
    using gather_inputs_Some [OF g] by (auto simp: sum_amounts_def)
  then show "map u (map prevout (inputs tx)) = map Some coins" "\<forall>c \<in> set coins. IsSpendable c h"
    by blast+
  show "amount_at (sum_amounts (map out_value (outputs tx))) a
           \<le> amount_at (sum_amounts (map (out_value \<circ> coin_output) coins)) a"
    using amounts_covered_at [OF cov] by (simp add: ia)
qed

lemma sum_coin_value: "sum_list (map (coin_value a) coins) = asset_total a (map (out_value \<circ> coin_output) coins)"
  by (induction coins) (simp_all add: coin_value_def)

lemma length_output_points [simp]: "length (output_points tx) = length (outputs tx)"
  by (simp add: output_points_def Let_def)

lemma AddOutputs_value:
  assumes "finite (dom u)"
  shows "utxo_value a (AddOutputs u tx h cb) \<le> utxo_value a u + asset_total a (map out_value (outputs tx))"
proof -
  let ?coin = "\<lambda>v. \<lparr>coin_output = v, coin_height = h, coin_is_coinbase = cb\<rparr>"
  have "sum_list (map (coin_value a \<circ> snd) (zip (output_points tx) (map ?coin (outputs tx))))
      = sum_list (map (coin_value a) (map ?coin (outputs tx)))"
    by (simp flip: map_map)
  also have "\<dots> = asset_total a (map out_value (outputs tx))"
    by (simp only: sum_coin_value) (simp add: comp_def)
  finally show ?thesis
    using utxo_value_add_all [OF assms, of a "zip (output_points tx) (map ?coin (outputs tx))"]
    by (simp add: AddOutputs_def)
qed

lemma finite_AddOutputs [simp]: "finite (dom u) \<Longrightarrow> finite (dom (AddOutputs u tx h cb))"
  by (simp add: AddOutputs_def)

lemma finite_SpendInputs [simp]: "finite (dom u) \<Longrightarrow> finite (dom (SpendInputs u tx))"
  by (simp add: SpendInputs_def)

definition small_outputs :: "Transaction \<Rightarrow> bool" where
  "small_outputs tx \<longleftrightarrow> length (outputs tx) \<le> 3024"

lemma outputs_valid:
  "Transaction_IsValid tx \<Longrightarrow> \<forall>v \<in> set (map out_value (outputs tx)). AssetAmount_IsValid v"
  using Transaction_IsValidD(3) [of tx] by (auto simp: TxOutput_IsValid_def)

lemma valid_outputs_total:
  "Transaction_IsValid tx \<Longrightarrow> small_outputs tx \<Longrightarrow>
     unat (amount_at (sum_amounts (map out_value (outputs tx))) a) = asset_total a (map out_value (outputs tx))"
  using asset_total_no_wrap [OF outputs_valid, of tx a]
  by (intro unat_amount_at_sum_exact) (simp add: small_outputs_def)

text \<open>A validated transaction with at most 3024 outputs creates no value.\<close>

lemma connect_tx_value:
  assumes "Chain_ValidateTransaction u tx h = Some coins" and "\<not> IsCoinbase tx"
    and "Transaction_IsValid tx" and "small_outputs tx" and "finite (dom u)"
  shows "utxo_value a (AddOutputs (SpendInputs u tx) tx h cb) \<le> utxo_value a u"
proof -
  let ?outs = "map out_value (outputs tx)" and ?ins = "map (out_value \<circ> coin_output) coins"
  have "asset_total a ?outs = unat (amount_at (sum_amounts ?outs) a)"
    using valid_outputs_total [OF assms(3,4)] by simp
  also have "\<dots> \<le> unat (amount_at (sum_amounts ?ins) a)"
    using Chain_ValidateTransaction_Some(3) [OF assms(1,2)] by (simp add: word_le_nat_alt)
  also have "\<dots> \<le> asset_total a ?ins" by (simp add: unat_amount_at_sum)
  finally have "asset_total a ?outs \<le> asset_total a ?ins" .
  moreover have "utxo_value a (SpendInputs u tx) + asset_total a ?ins = utxo_value a u"
    unfolding SpendInputs_def sum_coin_value [symmetric]
    using Chain_ValidateTransaction_Some(1) [OF assms(1,2)] Transaction_IsValidD(4) [OF assms(3,2)] assms(5)
    by (intro utxo_value_spend_all) auto
  moreover have "utxo_value a (AddOutputs (SpendInputs u tx) tx h cb)
      \<le> utxo_value a (SpendInputs u tx) + asset_total a ?outs"
    using assms(5) by (intro AddOutputs_value) simp
  ultimately show ?thesis by linarith
qed

lemma connect_rest_value:
  assumes "connect_rest u undo h txs = (True, u', undo')" and "finite (dom u)"
    and "\<forall>tx \<in> set txs. \<not> IsCoinbase tx \<and> Transaction_IsValid tx \<and> small_outputs tx"
  shows "finite (dom u') \<and> utxo_value a u' \<le> utxo_value a u"
  using assms
proof (induction u undo h txs rule: connect_rest.induct)
  case (2 u undo h tx txs)
  then obtain coins where c: "Chain_ValidateTransaction u tx h = Some coins"
    by (auto split: option.splits)
  have "finite (dom u') \<and> utxo_value a u' \<le> utxo_value a (AddOutputs (SpendInputs u tx) tx h False)"
    using 2(1) [OF c] 2(2-4) c by simp
  moreover have "utxo_value a (AddOutputs (SpendInputs u tx) tx h False) \<le> utxo_value a u"
    using connect_tx_value [OF c] 2(3,4) by simp
  ultimately show ?case by simp
qed simp

subsection \<open>What a connected block guarantees\<close>

lemma ConnectBlock_True:
  assumes "ConnectBlock c b undo = (True, c', undo')"
  obtains s u' where "Block_IsValid b"
    and "CheckProofOfWork (Block_GetHash b) (bits (header b))"
    and "check_coinbase (chain_height c + 1) (total_supply c)
           (sum_amounts (map out_value (outputs (transactions b ! 0)))) = (True, s)"
    and "connect_rest (AddOutputs (utxo_set c) (transactions b ! 0) (chain_height c + 1) True) undo
           (chain_height c + 1) (tl (transactions b)) = (True, u', undo')"
    and "c' = \<lparr>utxo_set = u', chain_height = chain_height c + 1, tip_hash = Block_GetHash b,
              block_index = (block_index c)(Block_GetHash b \<mapsto>
                BlockIndex_init (header b) (chain_height c + 1)
                  (chain_work_after (block_index c) (chain_height c + 1) (prev_block_hash (header b)))),
              total_supply = UpdateSupply s (transactions b ! 0) True\<rparr>"
  using assms unfolding ConnectBlock_def
  by (auto simp: Let_def split: if_splits prod.splits)

definition block_small :: "Block \<Rightarrow> bool" where
  "block_small b \<longleftrightarrow> (\<forall>tx \<in> set (transactions b). small_outputs tx)"

text \<open>
  The accounting invariant of a chain: no asset's recorded supply exceeds its cap, and the UTXO
  set holds at most the recorded supply.
\<close>

definition chain_inv :: "Chain \<Rightarrow> bool" where
  "chain_inv c \<longleftrightarrow> finite (dom (utxo_set c)) \<and> amounts_inv (total_supply c)
     \<and> (\<forall>a. amount_at (total_supply c) a \<le> GetMaxSupply a)
     \<and> (\<forall>a. utxo_value a (utxo_set c) \<le> unat (amount_at (total_supply c) a))"

lemma chain_inv_init: "chain_inv Chain_init"
  by (simp add: chain_inv_def Chain_init_def word_le_nat_alt)

lemma coinbase_amount_in:
  assumes "amount_at cs a \<noteq> 0"
  shows "(a, amount_at cs a) \<in> set cs"
  using assms by (cases "map_of cs a") (auto simp: amount_at_def dest: map_of_SomeD)

lemma ConnectBlock_supply:
  assumes "ConnectBlock c b undo = (True, c', undo')" and "amounts_inv (total_supply c)"
  defines "v \<equiv> \<lambda>a. amount_at (sum_amounts (map out_value (outputs (transactions b ! 0)))) a"
  shows "amounts_inv (total_supply c')"
    and "amount_at (total_supply c') a = amount_at (total_supply c) a + v a"
    and "v a \<le> GetBlockReward (ucast (chain_height c + 1)) a"
    and "unat (amount_at (total_supply c') a) = unat (amount_at (total_supply c) a) + unat (v a)"
    and "amount_at (total_supply c) a \<le> GetMaxSupply a \<Longrightarrow> amount_at (total_supply c') a \<le> GetMaxSupply a"
proof -
  let ?cs = "sum_amounts (map out_value (outputs (transactions b ! 0)))"
  from assms(1) obtain s u' where valid: "Block_IsValid b"
    and chk: "check_coinbase (chain_height c + 1) (total_supply c) ?cs = (True, s)"
    and c': "total_supply c' = UpdateSupply s (transactions b ! 0) True"
    by (rule ConnectBlock_True) simp
  have s: "amounts_inv s" "amount_at s = amount_at (total_supply c)"
    and each: "\<forall>(a, v) \<in> set ?cs. v \<le> GetBlockReward (ucast (chain_height c + 1)) a
        \<and> unat (amount_at (total_supply c) a) + unat v < 2 ^ 64
        \<and> amount_at (total_supply c) a + v \<le> GetMaxSupply a"
    using check_coinbase_ok [OF chk assms(2)] by auto
  show "amounts_inv (total_supply c')" using s(1) by (simp add: c')
  show at: "amount_at (total_supply c') a = amount_at (total_supply c) a + v a"
    using amount_at_UpdateSupply [OF Block_IsValidD(2) [OF valid] s(1), of True a] by (simp add: c' s(2) v_def)
  have "v a = 0 \<or> (a, v a) \<in> set ?cs" using coinbase_amount_in by (auto simp: v_def)
  then have "v a \<le> GetBlockReward (ucast (chain_height c + 1)) a
      \<and> unat (amount_at (total_supply c) a) + unat (v a) < 2 ^ 64
      \<and> (v a = 0 \<or> amount_at (total_supply c) a + v a \<le> GetMaxSupply a)"
    using each unat64_lt [of "amount_at (total_supply c) a"] by auto
  then show "v a \<le> GetBlockReward (ucast (chain_height c + 1)) a"
    and "unat (amount_at (total_supply c') a) = unat (amount_at (total_supply c) a) + unat (v a)"
    and "amount_at (total_supply c) a \<le> GetMaxSupply a \<Longrightarrow> amount_at (total_supply c') a \<le> GetMaxSupply a"
    by (auto simp: at unat_add_lt)
qed

lemma ConnectBlock_inv:
  assumes connect: "ConnectBlock c b undo = (True, c', undo')" and "chain_inv c" and "block_small b"
  shows "chain_inv c'"
proof -
  let ?cb = "transactions b ! 0" and ?h = "chain_height c + 1"
  have inv: "finite (dom (utxo_set c))" "amounts_inv (total_supply c)"
    "\<And>a. amount_at (total_supply c) a \<le> GetMaxSupply a"
    "\<And>a. utxo_value a (utxo_set c) \<le> unat (amount_at (total_supply c) a)"
    using assms(2) by (auto simp: chain_inv_def)
  from connect obtain u' where valid: "Block_IsValid b"
    and rest: "connect_rest (AddOutputs (utxo_set c) ?cb ?h True) undo ?h (tl (transactions b)) = (True, u', undo')"
    and u': "utxo_set c' = u'"
    by (rule ConnectBlock_True) simp
  note bv = Block_IsValidD [OF valid]
  have cb: "?cb \<in> set (transactions b)" using bv(1) by simp
  have txs: "\<forall>tx \<in> set (tl (transactions b)). \<not> IsCoinbase tx \<and> Transaction_IsValid tx \<and> small_outputs tx"
    using bv(1,3,4) assms(3) by (cases "transactions b") (auto simp: block_small_def)
  have val: "finite (dom u') \<and> utxo_value a u' \<le> utxo_value a (utxo_set c) + asset_total a (map out_value (outputs ?cb))" for a
    using connect_rest_value [OF rest _ txs, of a] AddOutputs_value [OF inv(1), of a ?cb ?h True] inv(1)
    by auto
  have "utxo_value a (utxo_set c') \<le> unat (amount_at (total_supply c') a)" for a
  proof -
    have "asset_total a (map out_value (outputs ?cb)) = unat (amount_at (sum_amounts (map out_value (outputs ?cb))) a)"
      using bv(4) cb assms(3) by (simp add: valid_outputs_total block_small_def)
    then show ?thesis
      using val [of a] inv(4) [of a] ConnectBlock_supply(4) [OF connect inv(2), of a] u' by simp
  qed
  then show ?thesis
    using val u' ConnectBlock_supply(1,5) [OF connect inv(2)] inv(3) by (simp add: chain_inv_def)
qed

subsection \<open>Chains built by connecting blocks\<close>

text \<open>The chains reached from the empty one by connecting the blocks of a list, each with a fresh undo record.\<close>

inductive connected :: "Block list \<Rightarrow> Chain \<Rightarrow> bool" where
  start: "connected [] Chain_init"
| step: "connected bs c \<Longrightarrow> ConnectBlock c b [] = (True, c', undo) \<Longrightarrow> connected (bs @ [b]) c'"

inductive_simps connected_Nil: "connected [] c"
inductive_cases connected_snocE: "connected (bs @ [b]) c"

lemma connected_inv: "connected bs c \<Longrightarrow> \<forall>b \<in> set bs. block_small b \<Longrightarrow> chain_inv c"
  by (induction rule: connected.induct) (auto intro: chain_inv_init ConnectBlock_inv)

lemma ConnectBlock_height: "ConnectBlock c b undo = (True, c', undo') \<Longrightarrow> chain_height c' = chain_height c + 1"
  by (erule ConnectBlock_True) simp

lemma connected_height: "connected bs c \<Longrightarrow> chain_height c = of_nat (length bs)"
  by (induction rule: connected.induct) (auto simp: Chain_init_def dest: ConnectBlock_height)

lemma connected_height_Suc: "connected bs c \<Longrightarrow> chain_height c + 1 = of_nat (Suc (length bs))"
  by (simp add: connected_height)

lemma ucast_of_nat_32_64: "n < 2 ^ 32 \<Longrightarrow> ucast (of_nat n :: u32) = (of_nat n :: u64)"
  by (simp add: unsigned_of_nat take_bit_nat_eq_self)

lemma connected_supply:
  assumes "connected bs c" and "length bs < 2 ^ 32"
  shows "amounts_inv (total_supply c) \<and> amount_at (total_supply c) a \<le> GetMaxSupply a
    \<and> unat (amount_at (total_supply c) a) \<le> (\<Sum>k \<in> {1..length bs}. unat (GetBlockReward (of_nat k) a))"
  using assms
proof (induction rule: connected.induct)
  case (step bs c b c' undo)
  have h: "ucast (chain_height c + 1) = (of_nat (Suc (length bs)) :: u64)"
    using step.prems by (simp only: connected_height_Suc [OF step(1)] ucast_of_nat_32_64 length_append_singleton)
  have ih: "amounts_inv (total_supply c)" "amount_at (total_supply c) a \<le> GetMaxSupply a"
    "unat (amount_at (total_supply c) a) \<le> (\<Sum>k \<in> {1..length bs}. unat (GetBlockReward (of_nat k) a))"
    using step.IH step.prems by auto
  note sup = ConnectBlock_supply [OF step(2) ih(1)]
  have "unat (amount_at (total_supply c') a)
      \<le> unat (amount_at (total_supply c) a) + unat (GetBlockReward (of_nat (Suc (length bs))) a)"
    using sup(3) [of a] sup(4) [of a] by (simp add: h word_le_nat_alt)
  then show ?case using ih sup(1) sup(5) [of a] by simp
qed (simp add: Chain_init_def)

subsection \<open>Disconnecting undoes connecting\<close>

definition fresh_outputs :: "UTXOSet \<Rightarrow> Transaction \<Rightarrow> bool" where
  "fresh_outputs u tx \<longleftrightarrow> (\<forall>p \<in> set (output_points tx). u p = None)"

text \<open>No transaction of the block has the id of another or of an unspent output.\<close>

definition block_fresh :: "Chain \<Rightarrow> Block \<Rightarrow> bool" where
  "block_fresh c b \<longleftrightarrow> distinct (map GetTxID (transactions b))
     \<and> (\<forall>tx \<in> set (transactions b). fresh_outputs (utxo_set c) tx)"

lemma map_fst_output_coins [simp]:
  "map fst (zip (output_points tx) (map f (outputs tx))) = output_points tx"
  by simp

lemma fst_output_coins:
  "fst ` set (zip (output_points tx) (map f (outputs tx))) = set (output_points tx)"
  by (metis map_fst_output_coins set_map)

lemma undo_transaction:
  assumes "map u (map prevout (inputs tx)) = map Some coins" and "fresh_outputs u tx"
  shows "RestoreInputs (RemoveOutputs (AddOutputs (SpendInputs u tx) tx h cb) tx) tx coins = u"
proof -
  have len: "length coins = length (map prevout (inputs tx))"
    using arg_cong [OF assms(1), of length] by simp
  have "\<forall>(p, c) \<in> set (zip (map prevout (inputs tx)) coins). GetCoin u p = Some c"
  proof (clarify)
    fix p c assume "(p, c) \<in> set (zip (map prevout (inputs tx)) coins)"
    then obtain i where "i < length coins" "p = map prevout (inputs tx) ! i" "c = coins ! i"
      using len by (auto simp: set_zip)
    then show "GetCoin u p = Some c"
      using assms(1) len by (metis GetCoin_apply length_map nth_map)
  qed
  from utxo.apply_then_undo [OF len this, of "zip (output_points tx)
      (map (\<lambda>v. \<lparr>coin_output = v, coin_height = h, coin_is_coinbase = cb\<rparr>) (outputs tx))",
      unfolded fst_output_coins map_fst_output_coins]
  show ?thesis
    using assms(2)
    by (simp add: RestoreInputs_def RemoveOutputs_def AddOutputs_def SpendInputs_def fresh_outputs_def)
qed

lemma undo_coinbase:
  assumes "fresh_outputs u cb"
  shows "RemoveOutputs (AddOutputs u cb h x) cb = u"
  using utxo.apply_then_undo [of "[]" "[]" u "zip (output_points cb)
      (map (\<lambda>v. \<lparr>coin_output = v, coin_height = h, coin_is_coinbase = x\<rparr>) (outputs cb))", unfolded fst_output_coins map_fst_output_coins] assms
  by (simp add: RemoveOutputs_def AddOutputs_def fresh_outputs_def)

lemma output_points_txid: "p \<in> set (output_points tx) \<Longrightarrow> txid p = GetTxID tx"
  by (auto simp: output_points_def Let_def)

lemma AddOutputs_other:
  "txid p \<noteq> GetTxID tx \<Longrightarrow> AddOutputs u tx h cb p = u p"
  using utxo.get_add_all_notin [of p "zip (output_points tx)
      (map (\<lambda>v. \<lparr>coin_output = v, coin_height = h, coin_is_coinbase = cb\<rparr>) (outputs tx))" u,
      unfolded fst_output_coins] output_points_txid [of p tx]
  by (auto simp: AddOutputs_def)

lemma SpendInputs_None: "u p = None \<Longrightarrow> SpendInputs u tx p = None"
  using utxo.get_spend_all [of u "map prevout (inputs tx)" p] by (simp add: SpendInputs_def)

lemma fresh_after:
  assumes "fresh_outputs u tx'" and "GetTxID tx' \<noteq> GetTxID tx"
  shows "fresh_outputs (AddOutputs u tx h cb) tx'"
    and "fresh_outputs (AddOutputs (SpendInputs u tx) tx h cb) tx'"
  using assms output_points_txid [of _ tx'] unfolding fresh_outputs_def
  by (metis AddOutputs_other SpendInputs_None)+

lemma disconnect_rest_inverts:
  assumes "connect_rest u undo h txs = (True, u', undo')"
    and "\<forall>tx \<in> set txs. \<not> IsCoinbase tx \<and> fresh_outputs u tx" and "distinct (map GetTxID txs)"
  shows "\<exists>new. undo' = undo @ new \<and>
    (\<forall>ts us. disconnect_rest u' (rev txs @ ts) (rev new @ us) = disconnect_rest u ts us)"
  using assms
proof (induction u undo h txs rule: connect_rest.induct)
  case (2 u undo h tx txs)
  then obtain coins where c: "Chain_ValidateTransaction u tx h = Some coins"
    by (auto split: option.splits)
  have inp: "map u (map prevout (inputs tx)) = map Some coins"
    using Chain_ValidateTransaction_Some(1) [OF c] 2(3) by simp
  have "\<forall>t \<in> set txs. GetTxID t \<noteq> GetTxID tx" using 2(4) by (simp add: image_iff) metis
  then have "\<forall>t \<in> set txs. \<not> IsCoinbase t \<and> fresh_outputs (AddOutputs (SpendInputs u tx) tx h False) t"
    using 2(3) fresh_after(2) by simp
  then obtain new where new: "undo' = AddTxUndo undo coins @ new"
    "\<And>ts us. disconnect_rest u' (rev txs @ ts) (rev new @ us)
        = disconnect_rest (AddOutputs (SpendInputs u tx) tx h False) ts us"
    using 2(1) [OF c] 2(2,4) c by auto
  have "length coins = length (inputs tx)" using arg_cong [OF inp, of length] by simp
  then have "disconnect_rest u' (rev (tx # txs) @ ts) (rev (coins # new) @ us) = disconnect_rest u ts us" for ts us
    using new(2) [of "tx # ts" "coins # us"] undo_transaction [OF inp, of h False] 2(3) by (simp add: Let_def)
  then show ?case using new(1) by (intro exI [of _ "coins # new"]) (simp add: AddTxUndo_def)
qed simp

lemma DisconnectBlock_inverts:
  assumes connect: "ConnectBlock c b undo = (True, c', undo')" and "block_fresh c b"
    and "amounts_inv (total_supply c)" and "chain_height c \<noteq> 0xFFFFFFFF"
    and "block_index c (Block_GetHash b) = None"
  shows "\<exists>c''. DisconnectBlock c' b undo' = (True, c'') \<and> utxo_set c'' = utxo_set c
     \<and> chain_height c'' = chain_height c \<and> tip_hash c'' = prev_block_hash (header b)
     \<and> block_index c'' = block_index c \<and> Chain_GetTotalSupply c'' = Chain_GetTotalSupply c"
proof -
  let ?cb = "transactions b ! 0" and ?h = "chain_height c + 1"
  from connect obtain s u' where valid: "Block_IsValid b"
    and rest: "connect_rest (AddOutputs (utxo_set c) ?cb ?h True) undo ?h (tl (transactions b)) = (True, u', undo')"
    and c': "utxo_set c' = u'" "chain_height c' = ?h" "tip_hash c' = Block_GetHash b"
      "(block_index c')(Block_GetHash b := None) = block_index c"
    by (rule ConnectBlock_True) (use assms(5) in \<open>auto simp: fun_upd_idem\<close>)
  note bv = Block_IsValidD [OF valid]
  obtain txs where txs: "transactions b = ?cb # txs" using bv(1) by (cases "transactions b") auto
  have all: "distinct (map GetTxID (?cb # txs))" "\<forall>t \<in> set (?cb # txs). fresh_outputs (utxo_set c) t"
    using assms(2) unfolding block_fresh_def txs [symmetric] by blast+
  then have fr: "fresh_outputs (utxo_set c) ?cb" and ids: "distinct (map GetTxID txs)"
    "\<forall>t \<in> set txs. GetTxID t \<noteq> GetTxID ?cb"
    by (auto simp: image_iff)
  have "\<forall>t \<in> set (drop 1 (?cb # txs)). \<not> IsCoinbase t" using bv(3) unfolding txs [symmetric] .
  then have "\<forall>t \<in> set txs. \<not> IsCoinbase t \<and> fresh_outputs (AddOutputs (utxo_set c) ?cb ?h True) t"
    using all(2) ids(2) fresh_after(1) by simp
  moreover have tl: "tl (transactions b) = txs" by (subst txs) simp
  ultimately obtain new where "undo' = undo @ new"
    and d: "\<And>ts us. disconnect_rest u' (rev txs @ ts) (rev new @ us)
      = disconnect_rest (AddOutputs (utxo_set c) ?cb ?h True) ts us"
    using disconnect_rest_inverts [OF rest] ids(1) by auto
  then have dr: "disconnect_rest u' (rev (tl (transactions b))) (rev undo')
      = (True, AddOutputs (utxo_set c) ?cb ?h True)"
    using d [of "[]" "rev undo"] by (simp add: tl)
  have "?h \<noteq> 0" using assms(4) by (auto simp: add_eq_0_iff2)
  then show ?thesis
    using ConnectBlock_supply(1,2) [OF connect assms(3)] bv(2)
    by (simp add: DisconnectBlock_def c' dr Let_def undo_coinbase [OF fr] fun_eq_iff
        Chain_GetTotalSupply_def amount_at_UpdateSupply)
qed


subsection \<open>Sums that wrap\<close>

lemma check_coinbase_zero:
  assumes "amounts_inv s" and "\<And>a. amount_at s a \<le> GetMaxSupply a" and "\<forall>(a, v) \<in> set cs. v = 0"
  shows "fst (check_coinbase h s cs)"
  using assms
proof (induction h s cs rule: check_coinbase.induct)
  case (2 h s a v rest)
  have "amount_at (amount_add a 0 s) k = amount_at s k" for k using 2(2) by simp
  then show ?case
    using 2(1) [of "amount_add a 0 s" "amount_at (amount_add a 0 s) a + v"] 2(2-4)
    by (simp add: IsValidBlockReward_iff Let_def not_less)
qed simp

lemma asset_total_append [simp]: "asset_total a (vs @ ws) = asset_total a vs + asset_total a ws"
  by (induction vs) simp_all

lemma asset_total_replicate [simp]:
  "asset_total a (replicate n v) = n * (if asset_id v = a then unat (asset_amount v) else 0)"
  by (induction n) simp_all

text \<open>8785 outputs, each within the cap of TALANTON, whose sum is exactly \<open>2 ^ 64\<close>.\<close>

definition wrapping_outputs :: "TxOutput list" where
  "wrapping_outputs =
     replicate 8784 \<lparr>out_value = \<lparr>asset_id = TALANTON, asset_amount = 2100000000000000\<rparr>, pubkey_script = [81]\<rparr>
     @ [\<lparr>out_value = \<lparr>asset_id = TALANTON, asset_amount = 344073709551616\<rparr>, pubkey_script = [81]\<rparr>]"

definition wrapping_coinbase :: Transaction where
  "wrapping_coinbase =
     \<lparr>version = 1,
      inputs = [\<lparr>prevout = OutPoint zero_hash COINBASE_VOUT_INDEX, signature_script = [], sequence = 0\<rparr>],
      outputs = wrapping_outputs, locktime = 0\<rparr>"

lemma wrapping_total: "asset_total a (map out_value wrapping_outputs) = (if a = TALANTON then 2 ^ 64 else 0)"
  by (simp add: wrapping_outputs_def)

lemma wrapping_sum: "\<forall>(a, v) \<in> set (sum_amounts (map out_value wrapping_outputs)). v = 0"
proof clarify
  fix a v assume "(a, v) \<in> set (sum_amounts (map out_value wrapping_outputs))"
  then have "v = amount_at (sum_amounts (map out_value wrapping_outputs)) a"
    using amount_at_member by (metis amounts_inv_sum)
  then have "unat v = asset_total a (map out_value wrapping_outputs) mod 2 ^ 64"
    by (simp only: unat_amount_at_sum)
  then show "v = 0" by (simp add: wrapping_total unat_eq_zero split: if_splits)
qed

lemma of_nat_u32_inject: "x < 2 ^ 32 \<Longrightarrow> y < 2 ^ 32 \<Longrightarrow> (of_nat x :: u32) = of_nat y \<longleftrightarrow> x = y"
  by (auto simp: word_unat_eq_iff unsigned_of_nat take_bit_nat_eq_self)

lemma asset_total_coins:
  "(\<Sum>v\<leftarrow>vs. coin_value a \<lparr>coin_output = v, coin_height = h, coin_is_coinbase = cb\<rparr>)
     = asset_total a (map out_value vs)"
  by (induction vs) (simp_all add: coin_value_def)

lemma AddOutputs_value_exact:
  assumes "finite (dom u)" and "fresh_outputs u tx" and "length (outputs tx) \<le> 2 ^ 32"
  shows "utxo_value a (AddOutputs u tx h cb) = utxo_value a u + asset_total a (map out_value (outputs tx))"
proof -
  have dist: "distinct (output_points tx)"
    using assms(3) by (auto simp: output_points_def Let_def distinct_map inj_on_def of_nat_u32_inject)
  have "utxo_value a (foldl (\<lambda>s (p, c). AddCoin s p c) u (zip ps (map f vs)))
      = utxo_value a u + sum_list (map (coin_value a \<circ> f) vs)"
    if "distinct ps" "finite (dom u)" "\<forall>p \<in> set ps. u p = None" "length ps = length vs" for ps vs u
      and f :: "TxOutput \<Rightarrow> Coin"
    using that
  proof (induction ps arbitrary: u vs)
    case (Cons p ps)
    then obtain v vs' where vs: "vs = v # vs'" by (cases vs) auto
    have "utxo_value a (AddCoin u p (f v)) = utxo_value a u + coin_value a (f v)"
      unfolding AddCoin_def using Cons.prems by (intro utxo_value_add_fresh) auto
    moreover have "\<forall>q \<in> set ps. AddCoin u p (f v) q = None"
      using Cons.prems by (auto simp: AddCoin_def)
    ultimately show ?case
      using Cons.IH [of "AddCoin u p (f v)" vs'] Cons.prems by (simp add: vs comp_def)
  qed simp
  from this [OF dist assms(1)] show ?thesis
    using assms(2) by (simp add: AddOutputs_def fresh_outputs_def comp_def asset_total_coins)
qed

subsection \<open>A connection that fails half way\<close>

text \<open>The state the loop of \<open>ConnectBlock\<close> has built when it has gone through a list of transactions.\<close>

definition after_txs :: "UTXOSet \<Rightarrow> u32 \<Rightarrow> Transaction list \<Rightarrow> UTXOSet" where
  "after_txs u h txs = foldl (\<lambda>u tx. AddOutputs (SpendInputs u tx) tx h False) u txs"

lemma connect_rest_fails:
  assumes "connect_rest u undo h txs = (False, u', undo')"
  shows "\<exists>before tx rest new. txs = before @ tx # rest \<and> u' = after_txs u h before
    \<and> Chain_ValidateTransaction u' tx h = None \<and> undo' = undo @ new \<and> length new = length before
    \<and> (\<forall>k < length before. Chain_ValidateTransaction (after_txs u h (take k before)) (before ! k) h = Some (new ! k))"
  using assms
proof (induction u undo h txs rule: connect_rest.induct)
  case (2 u undo h tx txs)
  show ?case
  proof (cases "Chain_ValidateTransaction u tx h")
    case None
    then show ?thesis using 2(2) by (intro exI [of _ "[]"]) (auto simp: after_txs_def)
  next
    case (Some coins)
    obtain before t rest new where ih: "txs = before @ t # rest"
      "u' = after_txs (AddOutputs (SpendInputs u tx) tx h False) h before"
      "Chain_ValidateTransaction u' t h = None" "undo' = AddTxUndo undo coins @ new" "length new = length before"
      "\<forall>k < length before. Chain_ValidateTransaction
         (after_txs (AddOutputs (SpendInputs u tx) tx h False) h (take k before)) (before ! k) h = Some (new ! k)"
      using 2(1) [OF Some] 2(2) Some by auto
    have "\<forall>k < length (tx # before). Chain_ValidateTransaction (after_txs u h (take k (tx # before)))
        ((tx # before) ! k) h = Some ((coins # new) ! k)"
      using ih(6) Some by (auto simp: after_txs_def less_Suc_eq_0_disj)
    then show ?thesis
      using ih by (intro exI [of _ "tx # before"] exI [of _ t] exI [of _ rest] exI [of _ "coins # new"])
        (simp add: after_txs_def AddTxUndo_def)
  qed
qed simp

lemma check_coinbase_supply:
  "amounts_inv s \<Longrightarrow> amounts_inv (snd (check_coinbase h s cs)) \<and> amount_at (snd (check_coinbase h s cs)) = amount_at s"
proof (induction h s cs rule: check_coinbase.induct)
  case (2 h s a v rest)
  have "amount_at (amount_add a 0 s) = amount_at s" using 2(2) by (auto simp: fun_eq_iff)
  then show ?case using 2 by (auto simp: Let_def)
qed simp

text \<open>Outputs a coinbase has just created are immature, so no transaction of the same block spends them.\<close>

lemma immature_coin_stays:
  assumes "Chain_ValidateTransaction u tx h = Some coins" and "\<not> IsCoinbase tx"
    and "u p = Some coin" and "coin_is_coinbase coin" and "coin_height coin = h" and "unat h + 100 < 2 ^ 32"
    and "GetTxID tx \<noteq> txid p"
  shows "AddOutputs (SpendInputs u tx) tx h False p = Some coin"
proof -
  have "\<not> IsSpendable coin h" using assms(4-6) by (simp add: IsSpendable_iff)
  then have "p \<notin> set (map prevout (inputs tx))"
    using Chain_ValidateTransaction_Some(1,2) [OF assms(1,2)] assms(3)
    by (metis (no_types, lifting) imageE image_eqI list.set_map option.inject)
  then show ?thesis
    using assms(3,7) utxo.get_spend_all [of u "map prevout (inputs tx)" p]
    by (simp add: AddOutputs_other SpendInputs_def)
qed

lemma immature_coin_survives:
  assumes "\<forall>k < length txs. Chain_ValidateTransaction (after_txs u h (take k txs)) (txs ! k) h \<noteq> None"
    and "\<forall>tx \<in> set txs. \<not> IsCoinbase tx \<and> GetTxID tx \<noteq> txid p"
    and "u p = Some coin" and "coin_is_coinbase coin" and "coin_height coin = h" and "unat h + 100 < 2 ^ 32"
  shows "after_txs u h txs p = Some coin"
  using assms
proof (induction txs rule: rev_induct)
  case (snoc tx txs)
  have "\<forall>k < length txs. Chain_ValidateTransaction (after_txs u h (take k txs)) (txs ! k) h \<noteq> None"
  proof (intro allI impI)
    fix k assume "k < length txs"
    then show "Chain_ValidateTransaction (after_txs u h (take k txs)) (txs ! k) h \<noteq> None"
      using snoc(2) [rule_format, of k] by (simp add: nth_append)
  qed
  then have ih: "after_txs u h txs p = Some coin" using snoc by simp
  have "Chain_ValidateTransaction (after_txs u h txs) tx h \<noteq> None"
    using snoc(2) [rule_format, of "length txs"] by simp
  then obtain coins where "Chain_ValidateTransaction (after_txs u h txs) tx h = Some coins" by auto
  from immature_coin_stays [OF this _ ih] snoc show ?case by (simp add: after_txs_def)
qed (simp add: after_txs_def)

lemma AddOutputs_own:
  "p \<in> set (output_points tx) \<Longrightarrow>
     \<exists>v \<in> set (outputs tx). AddOutputs u tx h cb p = Some \<lparr>coin_output = v, coin_height = h, coin_is_coinbase = cb\<rparr>"
proof -
  let ?pcs = "zip (output_points tx) (map (\<lambda>v. \<lparr>coin_output = v, coin_height = h, coin_is_coinbase = cb\<rparr>) (outputs tx))"
  assume p: "p \<in> set (output_points tx)"
  have "map fst ?pcs = output_points tx" by simp
  then have "p \<in> fst ` set (rev ?pcs)" using p by (metis image_set set_rev)
  then obtain c where c: "map_of (rev ?pcs) p = Some c" by (metis map_of_eq_None_iff not_None_eq)
  then have "(p, c) \<in> set ?pcs" by (metis map_of_SomeD set_rev)
  then show ?thesis
    using c utxo.get_add_all [where s = u and pcs = "?pcs" and q = p] by (auto simp: AddOutputs_def dest!: set_zip_rightD)
qed

lemma ConnectBlock_rejected:
  assumes "ConnectBlock c b undo = (False, c', undo')" and "amounts_inv (total_supply c)"
  defines "h \<equiv> chain_height c + 1"
  defines "rewards \<equiv> check_coinbase h (total_supply c) (sum_amounts (map out_value (outputs (transactions b ! 0))))"
  shows "chain_height c' = chain_height c" and "tip_hash c' = tip_hash c" and "block_index c' = block_index c"
    and "Chain_GetTotalSupply c' = Chain_GetTotalSupply c" and "amounts_inv (total_supply c')"
    and "\<not> (Block_IsValid b \<and> fst rewards) \<Longrightarrow> utxo_set c' = utxo_set c \<and> undo' = undo"
    and "Block_IsValid b \<Longrightarrow> fst rewards \<Longrightarrow>
      connect_rest (AddOutputs (utxo_set c) (transactions b ! 0) h True) undo h (tl (transactions b))
        = (False, utxo_set c', undo')"
proof -
  have valid: "Block_IsValid b \<Longrightarrow> CheckProofOfWork (Block_GetHash b) (bits (header b))
      \<and> transactions b \<noteq> [] \<and> IsCoinbase (transactions b ! 0)"
    using Block_IsValidD [of b] by (simp add: MeetsDifficultyTarget_def Block_GetHash_def Let_def)
  have kept: "amount_at (snd rewards) = amount_at (total_supply c)"
    using check_coinbase_supply [OF assms(2)] by (simp add: rewards_def)
  note conn = assms(1) [unfolded ConnectBlock_def Let_def, folded h_def, folded rewards_def]
  show "chain_height c' = chain_height c" and "tip_hash c' = tip_hash c" and "block_index c' = block_index c"
    and "\<not> (Block_IsValid b \<and> fst rewards) \<Longrightarrow> utxo_set c' = utxo_set c \<and> undo' = undo"
    using conn valid by (auto split: if_splits prod.splits)
  show "Chain_GetTotalSupply c' = Chain_GetTotalSupply c"
    using conn kept by (auto simp: Chain_GetTotalSupply_def fun_eq_iff split: if_splits prod.splits)
  show "amounts_inv (total_supply c')"
    using conn assms(2) check_coinbase_supply [OF assms(2), of h] unfolding rewards_def
    by (auto split: if_splits prod.splits) (metis snd_conv)+
  assume "Block_IsValid b" and "fst rewards"
  then show "connect_rest (AddOutputs (utxo_set c) (transactions b ! 0) h True) undo h (tl (transactions b))
        = (False, utxo_set c', undo')"
    using conn valid by (auto split: if_splits prod.splits)
qed

lemma failed_connect_coinbase_stays:
  assumes "ConnectBlock c b undo = (False, c', undo')" and "amounts_inv (total_supply c)"
    and "Block_IsValid b"
    and "fst (check_coinbase (chain_height c + 1) (total_supply c)
           (sum_amounts (map out_value (outputs (transactions b ! 0)))))"
  shows "\<exists>cb before tx rest. transactions b = cb # before @ tx # rest
    \<and> utxo_set c' = after_txs (AddOutputs (utxo_set c) cb (chain_height c + 1) True) (chain_height c + 1) before
    \<and> Chain_ValidateTransaction (utxo_set c') tx (chain_height c + 1) = None
    \<and> length undo' = length undo + length before
    \<and> (unat (chain_height c + 1) + 100 < 2 ^ 32 \<and> (\<forall>t \<in> set before. GetTxID t \<noteq> GetTxID cb) \<longrightarrow>
        (\<forall>p \<in> set (output_points cb). \<exists>v \<in> set (outputs cb).
           utxo_set c' p = Some \<lparr>coin_output = v, coin_height = chain_height c + 1, coin_is_coinbase = True\<rparr>))"
proof -
  let ?h = "chain_height c + 1"
  let ?u = "AddOutputs (utxo_set c) (transactions b ! 0) ?h True"
  note valid = Block_IsValidD [OF assms(3)]
  from valid(1) obtain cb ts where txs: "transactions b = cb # ts" by (cases "transactions b") auto
  obtain before tx rest new where f: "ts = before @ tx # rest" "utxo_set c' = after_txs ?u ?h before"
    "Chain_ValidateTransaction (utxo_set c') tx ?h = None" "undo' = undo @ new" "length new = length before"
    "\<forall>k < length before. Chain_ValidateTransaction (after_txs ?u ?h (take k before)) (before ! k) ?h = Some (new ! k)"
    using connect_rest_fails [OF ConnectBlock_rejected(7) [OF assms]] txs by auto
  have "\<exists>v \<in> set (outputs cb).
      utxo_set c' p = Some \<lparr>coin_output = v, coin_height = ?h, coin_is_coinbase = True\<rparr>"
    if small: "unat ?h + 100 < 2 ^ 32" and ids: "\<forall>t \<in> set before. GetTxID t \<noteq> GetTxID cb"
      and p: "p \<in> set (output_points cb)" for p
  proof -
    obtain v where v: "v \<in> set (outputs cb)"
      "?u p = Some \<lparr>coin_output = v, coin_height = ?h, coin_is_coinbase = True\<rparr>"
      using AddOutputs_own [OF p, of "utxo_set c" ?h True] txs by auto
    have "\<forall>t \<in> set before. \<not> IsCoinbase t \<and> GetTxID t \<noteq> txid p"
      using valid(3) ids output_points_txid [OF p] by (simp add: txs f(1))
    moreover have "\<forall>k < length before. Chain_ValidateTransaction (after_txs ?u ?h (take k before)) (before ! k) ?h \<noteq> None"
      using f(6) by simp
    ultimately have "after_txs ?u ?h before p = Some \<lparr>coin_output = v, coin_height = ?h, coin_is_coinbase = True\<rparr>"
      using v(2) small by (intro immature_coin_survives) auto
    with v(1) f(2) show ?thesis by auto
  qed
  then show ?thesis using f txs by (intro exI [of _ cb] exI [of _ before] exI [of _ tx] exI [of _ rest]) auto
qed

lemma ConnectBlock_tip_irrelevant:
  "ConnectBlock (c\<lparr>tip_hash := t\<rparr>) b undo =
     (case ConnectBlock c b undo of (ok, c', undo') \<Rightarrow> (ok, if ok then c' else c'\<lparr>tip_hash := t\<rparr>, undo'))"
  by (auto simp: ConnectBlock_def Let_def split: prod.splits)

subsection \<open>Properties\<close>

text \<open>
  C1. Connecting a block keeps the chain's accounting, if no transaction of the block has more than
  3024 outputs: for every asset the recorded supply stays within the cap, and the unspent outputs
  are worth at most the recorded supply (no value from nothing).
\<close>

theorem connect_preserves_backing:
  assumes "ConnectBlock c b undo = (True, c', undo')" and "chain_inv c" and "block_small b"
  shows "chain_inv c'"
  using assms by (rule ConnectBlock_inv)

text \<open>
  C2. However many blocks have been connected (fewer than \<open>2 ^ 32\<close>), each asset's recorded supply
  plus the reward of the never-mined height 0 is at most what the emission schedule has issued by
  the next height, and within the hard cap.
\<close>

theorem supply_follows_schedule:
  assumes "connected bs c" and "length bs < 2 ^ 32"
  shows "unat (Chain_GetTotalSupply c a) + unat (GetBlockReward 0 a)
           \<le> unat (CalculateSupplyAtHeight (of_nat (length bs) + 1) a)
    \<and> Chain_GetTotalSupply c a \<le> GetMaxSupply a"
proof -
  let ?n = "length bs" and ?r = "\<lambda>k. unat (GetBlockReward (of_nat k) a)"
  have "unat (of_nat ?n + 1 :: u64) = Suc ?n"
    using assms(2) unat_of_nat64 [of "Suc ?n"] by (simp add: add.commute)
  then have "unat (CalculateSupplyAtHeight (of_nat ?n + 1) a) = sum ?r {..<Suc ?n}"
    by (simp only: CalculateSupply_sum)
  also have "{..<Suc ?n} = insert 0 {1..?n}" by auto
  also have "sum ?r (insert 0 {1..?n}) = ?r 0 + sum ?r {1..?n}" by simp
  finally show ?thesis
    using connected_supply [OF assms, of a] by (simp add: Chain_GetTotalSupply_def)
qed

text \<open>
  C3. A reorganisation restores the chain: disconnecting the block just connected, with the undo
  record the connection filled in, succeeds and gives back the UTXO set, height, block index and
  supply from before, when the block's transactions have fresh ids (BIP 30) and the block was not
  in the index. The tip becomes the block's own previous hash.
\<close>

theorem disconnect_inverts_connect:
  assumes "ConnectBlock c b undo = (True, c', undo')" and "block_fresh c b"
    and "amounts_inv (total_supply c)" and "chain_height c \<noteq> 0xFFFFFFFF"
    and "block_index c (Block_GetHash b) = None"
  shows "\<exists>c''. DisconnectBlock c' b undo' = (True, c'') \<and> utxo_set c'' = utxo_set c
     \<and> chain_height c'' = chain_height c \<and> tip_hash c'' = prev_block_hash (header b)
     \<and> block_index c'' = block_index c \<and> Chain_GetTotalSupply c'' = Chain_GetTotalSupply c"
  using assms by (rule DisconnectBlock_inverts)

text \<open>
  \<open>ConnectBlock\<close> does not look at the tip: its answer, and the chain it builds when it accepts,
  are the same whatever block the chain ends with, so a block need not extend the tip.
\<close>

theorem connect_ignores_tip:
  "ConnectBlock (c\<lparr>tip_hash := t\<rparr>) b undo =
     (case ConnectBlock c b undo of (ok, c', undo') \<Rightarrow> (ok, if ok then c' else c'\<lparr>tip_hash := t\<rparr>, undo'))"
  by (rule ConnectBlock_tip_irrelevant)

text \<open>
  C4. A rejected block can still mint. Whenever \<open>ConnectBlock\<close> returns false, the height, the tip,
  the index and the supply of every asset are what they were. When the block is malformed or its
  rewards are wrong, the UTXO set and the undo data are unchanged too. Otherwise some transaction
  after the coinbase failed, and the coinbase's outputs and everything the transactions before the
  failing one did are left in the UTXO set: every coinbase output is there as a coin of the next
  height (unless a transaction of the block has the coinbase's txid, or heights are within 100 of
  \<open>2 ^ 32\<close>).
\<close>

theorem failed_connect_keeps_coinbase:
  assumes "ConnectBlock c b undo = (False, c', undo')" and "amounts_inv (total_supply c)"
  shows "chain_height c' = chain_height c \<and> tip_hash c' = tip_hash c \<and> block_index c' = block_index c
    \<and> Chain_GetTotalSupply c' = Chain_GetTotalSupply c
    \<and> (if Block_IsValid b \<and> fst (check_coinbase (chain_height c + 1) (total_supply c)
           (sum_amounts (map out_value (outputs (transactions b ! 0)))))
       then \<exists>cb before tx rest. transactions b = cb # before @ tx # rest
         \<and> utxo_set c' = after_txs (AddOutputs (utxo_set c) cb (chain_height c + 1) True) (chain_height c + 1) before
         \<and> Chain_ValidateTransaction (utxo_set c') tx (chain_height c + 1) = None
         \<and> length undo' = length undo + length before
         \<and> (unat (chain_height c + 1) + 100 < 2 ^ 32 \<and> (\<forall>t \<in> set before. GetTxID t \<noteq> GetTxID cb) \<longrightarrow>
             (\<forall>p \<in> set (output_points cb). \<exists>v \<in> set (outputs cb).
                utxo_set c' p = Some \<lparr>coin_output = v, coin_height = chain_height c + 1, coin_is_coinbase = True\<rparr>))
       else utxo_set c' = utxo_set c \<and> undo' = undo)"
  using ConnectBlock_rejected(1-4,6) [OF assms] failed_connect_coinbase_stays [OF assms] by (simp split: if_split)

text \<open>
  The 64-bit sums can wrap: there is a structurally valid coinbase whose outputs, each within
  the cap, add up to \<open>2 ^ 64\<close>. Its sum reads 0, so the reward and cap checks accept it at every
  height, the recorded supply does not change, the same outputs are covered by any inputs, and the
  UTXO set gains \<open>2 ^ 64\<close> units of TALANTON.
\<close>

theorem wrapping_coinbase_inflates:
  "Transaction_IsValid wrapping_coinbase \<and> IsCoinbase wrapping_coinbase
   \<and> fst (check_coinbase h (total_supply Chain_init) (sum_amounts (map out_value (outputs wrapping_coinbase))))
   \<and> amount_at (UpdateSupply (total_supply Chain_init) wrapping_coinbase True) TALANTON = 0
   \<and> amounts_covered (sum_amounts (map out_value (outputs wrapping_coinbase))) input_amounts
   \<and> utxo_value TALANTON (AddOutputs Map.empty wrapping_coinbase h True) = 2 ^ 64"
proof -
  have cb: "IsCoinbase wrapping_coinbase" by (simp add: IsCoinbase_def wrapping_coinbase_def)
  have outs: "outputs wrapping_coinbase = wrapping_outputs" by (simp add: wrapping_coinbase_def)
  have "Transaction_IsValid wrapping_coinbase"
    using cb unfolding Transaction_IsValid_def
    by (simp add: wrapping_coinbase_def wrapping_outputs_def TxOutput_IsValid_def AssetAmount_IsValid_def
        IsValidAmount_def list_all_iff)
  moreover have "fst (check_coinbase h (total_supply Chain_init) (sum_amounts (map out_value wrapping_outputs)))"
    using chain_inv_init wrapping_sum by (intro check_coinbase_zero) (auto simp: chain_inv_def)
  moreover have "amount_at (UpdateSupply (total_supply Chain_init) wrapping_coinbase True) TALANTON = 0"
  proof -
    have "unat (amount_at (sum_amounts (map out_value wrapping_outputs)) TALANTON) = 0"
      by (simp only: unat_amount_at_sum wrapping_total) simp
    then show ?thesis
      using chain_inv_init amount_at_UpdateSupply [OF cb, of "total_supply Chain_init" True TALANTON]
      by (simp add: chain_inv_def outs unat_eq_zero Chain_init_def)
  qed
  moreover have "amounts_covered (sum_amounts (map out_value wrapping_outputs)) input_amounts"
    using wrapping_sum by (auto simp: amounts_covered_def list_all_iff)
  moreover have "utxo_value TALANTON (AddOutputs Map.empty wrapping_coinbase h True) = 2 ^ 64"
  proof -
    have "length wrapping_outputs = 8785" by (simp add: wrapping_outputs_def)
    then show ?thesis
      using AddOutputs_value_exact [of Map.empty wrapping_coinbase TALANTON h True] wrapping_total [of TALANTON]
      by (simp add: fresh_outputs_def outs)
  qed
  ultimately show ?thesis using cb outs by simp
qed

end
