(* ===== verification/Sha256_Eval.thy ===== *)
theory Sha256_Eval
  imports Sha256
begin

section \<open>Evaluating SHA-256 in the kernel\<close>

text \<open>
  A bit-level implementation of the compression function that the simplifier evaluates quickly:
  words are lists of 32 bits, the least significant first; rotations are patterns and additions
  ripple. It is proved equal to \<open>Transform\<close> once; concrete hashes are then computed with it.
\<close>

subsection \<open>Words as lists of bits\<close>

definition wd :: "bool list \<Rightarrow> 'a::len word" where
  "wd bs = horner_sum of_bool 2 bs"

lemma bit_wd: "bit (wd bs :: 'a::len word) n \<longleftrightarrow> n < LENGTH('a) \<and> n < length bs \<and> bs ! n"
  by (auto simp: wd_def bit_horner_sum_bit_word_iff)

definition x3 :: "bool \<Rightarrow> bool \<Rightarrow> bool \<Rightarrow> bool" where
  "x3 a b c = (a \<noteq> (b \<noteq> c))"

lemma x3_lit:
  "x3 True True True = True" "x3 True True False = False" "x3 True False True = False"
  "x3 True False False = True" "x3 False True True = False" "x3 False True False = True"
  "x3 False False True = True" "x3 False False False = False"
  by (simp_all add: x3_def)

lemma upt32: "[0..<32] = [0, 1, 2, 3, 4, 5, 6, 7, 8, 9, 10, 11, 12, 13, 14, 15, 16, 17, 18, 19, 20, 21, 22, 23, 24, 25, 26, 27, 28, 29, 30, 31]"
  by code_simp

lemma upt4: "[0..<4] = [0, 1, 2, 3]"
  by code_simp

definition bS0 :: "bool list \<Rightarrow> bool list" where
  "bS0 x = map (\<lambda>i. x3 (x ! ((i + 2) mod 32)) (x ! ((i + 13) mod 32)) (x ! ((i + 22) mod 32))) [0..<32]"

definition bS1 :: "bool list \<Rightarrow> bool list" where
  "bS1 x = map (\<lambda>i. x3 (x ! ((i + 6) mod 32)) (x ! ((i + 11) mod 32)) (x ! ((i + 25) mod 32))) [0..<32]"

definition bs0 :: "bool list \<Rightarrow> bool list" where
  "bs0 x = map (\<lambda>i. x3 (x ! ((i + 7) mod 32)) (x ! ((i + 18) mod 32)) (if i + 3 < 32 then x ! (i + 3) else False)) [0..<32]"

definition bs1 :: "bool list \<Rightarrow> bool list" where
  "bs1 x = map (\<lambda>i. x3 (x ! ((i + 17) mod 32)) (x ! ((i + 19) mod 32)) (if i + 10 < 32 then x ! (i + 10) else False)) [0..<32]"

fun bCH :: "bool list \<Rightarrow> bool list \<Rightarrow> bool list \<Rightarrow> bool list" where
  "bCH (a # as) (b # bs) (c # cs) = (if a then b else c) # bCH as bs cs"
| "bCH _ _ _ = []"

fun bMAJ :: "bool list \<Rightarrow> bool list \<Rightarrow> bool list \<Rightarrow> bool list" where
  "bMAJ (a # as) (b # bs) (c # cs) = (if a = b then a else c) # bMAJ as bs cs"
| "bMAJ _ _ _ = []"

fun addc :: "bool \<Rightarrow> bool list \<Rightarrow> bool list \<Rightarrow> bool list" where
  "addc c (a # as) (b # bs) = (a \<noteq> (b \<noteq> c)) # addc (if a = b then a else c) as bs"
| "addc _ _ _ = []"

lemma bCH_lit:
  "bCH (True # as) (b # bs) (c # cs) = b # bCH as bs cs"
  "bCH (False # as) (b # bs) (c # cs) = c # bCH as bs cs"
  "bCH [] [] [] = []"
  by simp_all

lemma bMAJ_lit:
  "bMAJ (True # as) (True # bs) (c # cs) = True # bMAJ as bs cs"
  "bMAJ (True # as) (False # bs) (c # cs) = c # bMAJ as bs cs"
  "bMAJ (False # as) (True # bs) (c # cs) = c # bMAJ as bs cs"
  "bMAJ (False # as) (False # bs) (c # cs) = False # bMAJ as bs cs"
  "bMAJ [] [] [] = []"
  by simp_all

lemma addc_lit:
  "addc False (False # as) (False # bs) = False # addc False as bs"
  "addc False (False # as) (True # bs) = True # addc False as bs"
  "addc False (True # as) (False # bs) = True # addc False as bs"
  "addc False (True # as) (True # bs) = False # addc True as bs"
  "addc True (False # as) (False # bs) = True # addc False as bs"
  "addc True (False # as) (True # bs) = False # addc True as bs"
  "addc True (True # as) (False # bs) = False # addc True as bs"
  "addc True (True # as) (True # bs) = True # addc True as bs"
  "addc c [] [] = []"
  by simp_all

lemma bS0_lit:
  "bS0 [a0, a1, a2, a3, a4, a5, a6, a7, a8, a9, a10, a11, a12, a13, a14, a15, a16, a17, a18, a19, a20, a21, a22, a23, a24, a25, a26, a27, a28, a29, a30, a31] =
    [x3 a2 a13 a22, x3 a3 a14 a23, x3 a4 a15 a24, x3 a5 a16 a25, x3 a6 a17 a26, x3 a7 a18 a27, x3 a8 a19 a28, x3 a9 a20 a29, x3 a10 a21 a30, x3 a11 a22 a31, x3 a12 a23 a0, x3 a13 a24 a1, x3 a14 a25 a2, x3 a15 a26 a3, x3 a16 a27 a4, x3 a17 a28 a5, x3 a18 a29 a6, x3 a19 a30 a7, x3 a20 a31 a8, x3 a21 a0 a9, x3 a22 a1 a10, x3 a23 a2 a11, x3 a24 a3 a12, x3 a25 a4 a13, x3 a26 a5 a14, x3 a27 a6 a15, x3 a28 a7 a16, x3 a29 a8 a17, x3 a30 a9 a18, x3 a31 a10 a19, x3 a0 a11 a20, x3 a1 a12 a21]"
  unfolding bS0_def upt32 list.map by simp

lemma bS1_lit:
  "bS1 [a0, a1, a2, a3, a4, a5, a6, a7, a8, a9, a10, a11, a12, a13, a14, a15, a16, a17, a18, a19, a20, a21, a22, a23, a24, a25, a26, a27, a28, a29, a30, a31] =
    [x3 a6 a11 a25, x3 a7 a12 a26, x3 a8 a13 a27, x3 a9 a14 a28, x3 a10 a15 a29, x3 a11 a16 a30, x3 a12 a17 a31, x3 a13 a18 a0, x3 a14 a19 a1, x3 a15 a20 a2, x3 a16 a21 a3, x3 a17 a22 a4, x3 a18 a23 a5, x3 a19 a24 a6, x3 a20 a25 a7, x3 a21 a26 a8, x3 a22 a27 a9, x3 a23 a28 a10, x3 a24 a29 a11, x3 a25 a30 a12, x3 a26 a31 a13, x3 a27 a0 a14, x3 a28 a1 a15, x3 a29 a2 a16, x3 a30 a3 a17, x3 a31 a4 a18, x3 a0 a5 a19, x3 a1 a6 a20, x3 a2 a7 a21, x3 a3 a8 a22, x3 a4 a9 a23, x3 a5 a10 a24]"
  unfolding bS1_def upt32 list.map by simp

lemma bs0_lit:
  "bs0 [a0, a1, a2, a3, a4, a5, a6, a7, a8, a9, a10, a11, a12, a13, a14, a15, a16, a17, a18, a19, a20, a21, a22, a23, a24, a25, a26, a27, a28, a29, a30, a31] =
    [x3 a7 a18 a3, x3 a8 a19 a4, x3 a9 a20 a5, x3 a10 a21 a6, x3 a11 a22 a7, x3 a12 a23 a8, x3 a13 a24 a9, x3 a14 a25 a10, x3 a15 a26 a11, x3 a16 a27 a12, x3 a17 a28 a13, x3 a18 a29 a14, x3 a19 a30 a15, x3 a20 a31 a16, x3 a21 a0 a17, x3 a22 a1 a18, x3 a23 a2 a19, x3 a24 a3 a20, x3 a25 a4 a21, x3 a26 a5 a22, x3 a27 a6 a23, x3 a28 a7 a24, x3 a29 a8 a25, x3 a30 a9 a26, x3 a31 a10 a27, x3 a0 a11 a28, x3 a1 a12 a29, x3 a2 a13 a30, x3 a3 a14 a31, x3 a4 a15 False, x3 a5 a16 False, x3 a6 a17 False]"
  unfolding bs0_def upt32 list.map by simp

lemma bs1_lit:
  "bs1 [a0, a1, a2, a3, a4, a5, a6, a7, a8, a9, a10, a11, a12, a13, a14, a15, a16, a17, a18, a19, a20, a21, a22, a23, a24, a25, a26, a27, a28, a29, a30, a31] =
    [x3 a17 a19 a10, x3 a18 a20 a11, x3 a19 a21 a12, x3 a20 a22 a13, x3 a21 a23 a14, x3 a22 a24 a15, x3 a23 a25 a16, x3 a24 a26 a17, x3 a25 a27 a18, x3 a26 a28 a19, x3 a27 a29 a20, x3 a28 a30 a21, x3 a29 a31 a22, x3 a30 a0 a23, x3 a31 a1 a24, x3 a0 a2 a25, x3 a1 a3 a26, x3 a2 a4 a27, x3 a3 a5 a28, x3 a4 a6 a29, x3 a5 a7 a30, x3 a6 a8 a31, x3 a7 a9 False, x3 a8 a10 False, x3 a9 a11 False, x3 a10 a12 False, x3 a11 a13 False, x3 a12 a14 False, x3 a13 a15 False, x3 a14 a16 False, x3 a15 a17 False, x3 a16 a18 False]"
  unfolding bs1_def upt32 list.map by simp

subsection \<open>The bit functions are the word functions\<close>

lemma bit_ROTR: "0 < n \<Longrightarrow> n < 32 \<Longrightarrow> i < 32 \<Longrightarrow> bit (ROTR x n) i = bit x ((i + n) mod 32)"
proof -
  assume n: "0 < n" "n < 32" "i < 32"
  show ?thesis
  proof (cases "i + n < 32")
    case True
    then have "\<not> 32 - n \<le> i" using n by simp
    then show ?thesis using n True by (simp add: ROTR_def bit_simps add.commute)
  next
    case False
    then have "(i + n) mod 32 = i + n - 32" using n by (simp add: mod_if)
    moreover have "\<not> bit x (n + i)" using False bit_imp_le_length [of x "n + i"] by auto
    ultimately show ?thesis using n False by (auto simp: ROTR_def bit_simps)
  qed
qed

lemmas sigma_bits = bit_ROTR bit_wd x3_def bit_simps

lemma wd_bS0: "length x = 32 \<Longrightarrow> SIGMA0 (wd x) = wd (bS0 x)"
  by (rule bit_word_eqI) (simp add: SIGMA0_def bS0_def sigma_bits)

lemma wd_bS1: "length x = 32 \<Longrightarrow> SIGMA1 (wd x) = wd (bS1 x)"
  by (rule bit_word_eqI) (simp add: SIGMA1_def bS1_def sigma_bits)

lemma wd_bs0: "length x = 32 \<Longrightarrow> small_sigma0 (wd x) = wd (bs0 x)"
  by (rule bit_word_eqI) (auto simp: small_sigma0_def bs0_def sigma_bits add.commute)

lemma wd_bs1: "length x = 32 \<Longrightarrow> small_sigma1 (wd x) = wd (bs1 x)"
  by (rule bit_word_eqI) (auto simp: small_sigma1_def bs1_def sigma_bits add.commute)

lemma length_bits [simp]: "length (bS0 x) = 32" "length (bS1 x) = 32" "length (bs0 x) = 32" "length (bs1 x) = 32"
  by (simp_all add: bS0_def bS1_def bs0_def bs1_def)

lemma bCH_nth:
  "length x = n \<Longrightarrow> length y = n \<Longrightarrow> length z = n \<Longrightarrow>
     length (bCH x y z) = n \<and> (\<forall>i < n. bCH x y z ! i = (if x ! i then y ! i else z ! i))"
  by (induction x y z arbitrary: n rule: bCH.induct) (auto simp: nth_Cons split: nat.splits)

lemma bMAJ_nth:
  "length x = n \<Longrightarrow> length y = n \<Longrightarrow> length z = n \<Longrightarrow>
     length (bMAJ x y z) = n \<and> (\<forall>i < n. bMAJ x y z ! i = (if x ! i = y ! i then x ! i else z ! i))"
  by (induction x y z arbitrary: n rule: bMAJ.induct) (auto simp: nth_Cons split: nat.splits)

lemma wd_bCH: "length x = 32 \<Longrightarrow> length y = 32 \<Longrightarrow> length z = 32 \<Longrightarrow> CH (wd x) (wd y) (wd z) = wd (bCH x y z)"
  using bCH_nth [of x 32 y z] by (intro bit_word_eqI) (auto simp: CH_def bit_simps bit_wd)

lemma wd_bMAJ: "length x = 32 \<Longrightarrow> length y = 32 \<Longrightarrow> length z = 32 \<Longrightarrow> MAJ (wd x) (wd y) (wd z) = wd (bMAJ x y z)"
  using bMAJ_nth [of x 32 y z] by (intro bit_word_eqI) (auto simp: MAJ_def bit_simps bit_wd)

lemma wd_Cons: "wd (b # bs) = of_bool b + 2 * wd bs"
  by (simp add: wd_def)

lemma wd_addc_carry:
  "length x = length y \<Longrightarrow>
     \<exists>k. (wd x + wd y + of_bool c :: 'a::len word) = wd (addc c x y) + 2 ^ length x * k"
proof (induction x arbitrary: y c)
  case Nil
  then show ?case by (intro exI [of _ "of_bool c"]) (simp add: wd_def)
next
  case (Cons a x)
  then obtain b y' where y: "y = b # y'" "length x = length y'" by (cases y) auto
  obtain k where k: "(wd x + wd y' + of_bool (if a = b then a else c) :: 'a word)
      = wd (addc (if a = b then a else c) x y') + 2 ^ length x * k"
    using Cons.IH y(2) by blast
  have "(wd (a # x) + wd y + of_bool c :: 'a word)
      = of_bool (a \<noteq> (b \<noteq> c)) + 2 * (wd x + wd y' + of_bool (if a = b then a else c))"
    by (cases a; cases b; cases c) (simp_all add: y wd_Cons algebra_simps)
  also have "\<dots> = of_bool (a \<noteq> (b \<noteq> c)) + 2 * (wd (addc (if a = b then a else c) x y') + 2 ^ length x * k)"
    by (simp only: k)
  also have "\<dots> = wd (addc c (a # x) y) + 2 ^ length (a # x) * k"
    by (simp only: y addc.simps wd_Cons distrib_left list.size power_add power_Suc add_0_right power_one_right Suc_eq_plus1 ac_simps)
  finally show ?case by blast
qed

lemma length_addc [simp]: "length x = length y \<Longrightarrow> length (addc c x y) = length y"
  by (induction c x y rule: addc.induct) simp_all

definition badd :: "bool list \<Rightarrow> bool list \<Rightarrow> bool list" where
  "badd x y = addc False x y"

lemma word_exp_32: "(4294967296 :: u32) = 0"
  by (simp add: word_unat_eq_iff)

lemma wd_badd: "length x = 32 \<Longrightarrow> length y = 32 \<Longrightarrow> (wd x + wd y :: u32) = wd (badd x y)"
  using wd_addc_carry [of x y False, where 'a = 32] word_exp_32 by (auto simp: badd_def)

lemma length_badd [simp]: "length x = 32 \<Longrightarrow> length y = 32 \<Longrightarrow> length (badd x y) = 32"
  by (simp add: badd_def)

subsection \<open>The compression function on bits\<close>

text \<open>The schedule is kept latest word first.\<close>

fun bsched :: "nat \<Rightarrow> bool list list \<Rightarrow> bool list list" where
  "bsched 0 R = R"
| "bsched (Suc n) R =
     bsched n (badd (badd (badd (bs1 (R ! 1)) (R ! 6)) (bs0 (R ! 14))) (R ! 15) # R)"

lemma bsched_lit:
  "bsched (numeral k) (r0 # r1 # r2 # r3 # r4 # r5 # r6 # r7 # r8 # r9 # r10 # r11 # r12 # r13 # r14 # r15 # R) =
     bsched (pred_numeral k) (badd (badd (badd (bs1 r1) r6) (bs0 r14)) r15
       # r0 # r1 # r2 # r3 # r4 # r5 # r6 # r7 # r8 # r9 # r10 # r11 # r12 # r13 # r14 # r15 # R)"
  by (simp add: numeral_eq_Suc)

definition good :: "bool list list \<Rightarrow> bool" where
  "good ws \<longleftrightarrow> (\<forall>w \<in> set ws. length w = 32)"

lemma good_simps [simp]: "good []" "good (w # ws) \<longleftrightarrow> length w = 32 \<and> good ws"
  by (auto simp: good_def)

lemma bsched_ok:
  "good R \<Longrightarrow> 16 \<le> length R \<Longrightarrow>
     sha_schedule n (rev (map wd R)) = rev (map wd (bsched n R)) \<and> good (bsched n R)"
proof (induction n arbitrary: R)
  case (Suc n)
  have len: "length (R ! i) = 32" if "i < 16" for i
    using Suc.prems that by (auto simp: good_def)
  have nth: "rev (map wd R) ! (length R - Suc i) = (wd (R ! i) :: u32)" if "i < 16" for i
    using Suc.prems(2) that by (simp add: rev_nth)
  let ?new = "badd (badd (badd (bs1 (R ! 1)) (R ! 6)) (bs0 (R ! 14))) (R ! 15)"
  have "small_sigma1 (wd (R ! 1)) + wd (R ! 6) + small_sigma0 (wd (R ! 14)) + wd (R ! 15) = (wd ?new :: u32)"
    by (simp add: wd_bs1 wd_bs0 wd_badd len)
  then have "sha_schedule (Suc n) (rev (map wd R)) = sha_schedule n (rev (map wd (?new # R)))"
    using nth [of 1] nth [of 6] nth [of 14] nth [of 15] by (simp add: Let_def numeral_eq_Suc)
  then show ?case using Suc.IH [of "?new # R"] Suc.prems len by simp
qed simp

fun brounds :: "bool list \<Rightarrow> bool list \<Rightarrow> bool list \<Rightarrow> bool list \<Rightarrow> bool list \<Rightarrow> bool list \<Rightarrow> bool list
    \<Rightarrow> bool list \<Rightarrow> bool list list \<Rightarrow> bool list list \<Rightarrow> bool list list" where
  "brounds a b c d e f g h (k # ks) (w # ws) =
     (let t1 = badd (badd (badd (badd h (bS1 e)) (bCH e f g)) k) w;
          t2 = badd (bS0 a) (bMAJ a b c)
      in brounds (badd t1 t2) a b c (badd d t1) e f g ks ws)"
| "brounds a b c d e f g h _ _ = [a, b, c, d, e, f, g, h]"

text \<open>One round with \<open>t1\<close> and \<open>t2\<close> as arguments, so that they are evaluated once.\<close>

definition bround1 :: "bool list \<Rightarrow> bool list \<Rightarrow> bool list \<Rightarrow> bool list \<Rightarrow> bool list \<Rightarrow> bool list \<Rightarrow> bool list
    \<Rightarrow> bool list \<Rightarrow> bool list \<Rightarrow> bool list list \<Rightarrow> bool list list \<Rightarrow> bool list list" where
  "bround1 t1 t2 a b c d e f g ks ws = brounds (badd t1 t2) a b c (badd d t1) e f g ks ws"

lemma brounds_lit:
  "brounds a b c d e f g h (k # ks) (w # ws) =
     bround1 (badd (badd (badd (badd h (bS1 e)) (bCH e f g)) k) w) (badd (bS0 a) (bMAJ a b c))
       a b c d e f g ks ws"
  "brounds a b c d e f g h [] [] = [a, b, c, d, e, f, g, h]"
  by (simp_all add: bround1_def Let_def)

definition regs :: "u32 list \<Rightarrow> sha_regs" where
  "regs l = (l ! 0, l ! 1, l ! 2, l ! 3, l ! 4, l ! 5, l ! 6, l ! 7)"

lemma length_bCH [simp]: "length x = 32 \<Longrightarrow> length y = 32 \<Longrightarrow> length z = 32 \<Longrightarrow> length (bCH x y z) = 32"
  using bCH_nth [of x 32 y z] by blast

lemma length_bMAJ [simp]: "length x = 32 \<Longrightarrow> length y = 32 \<Longrightarrow> length z = 32 \<Longrightarrow> length (bMAJ x y z) = 32"
  using bMAJ_nth [of x 32 y z] by blast

lemma brounds_ok:
  "good [a, b, c, d, e, f, g, h] \<Longrightarrow> good ks \<Longrightarrow> good ws \<Longrightarrow> length ks = length ws \<Longrightarrow>
     sha_rounds (wd a, wd b, wd c, wd d, wd e, wd f, wd g, wd h) (map wd ks) (map wd ws)
       = regs (map wd (brounds a b c d e f g h ks ws))
     \<and> good (brounds a b c d e f g h ks ws) \<and> length (brounds a b c d e f g h ks ws) = 8"
proof (induction a b c d e f g h ks ws rule: brounds.induct)
  case (1 a b c d e f g h k ks w ws)
  let ?t1 = "badd (badd (badd (badd h (bS1 e)) (bCH e f g)) k) w" and ?t2 = "badd (bS0 a) (bMAJ a b c)"
  have "sha_round (wd a, wd b, wd c, wd d, wd e, wd f, wd g, wd h) (wd k) (wd w)
      = (wd (badd ?t1 ?t2), wd a, wd b, wd c, wd (badd d ?t1), wd e, wd f, wd g)"
    using "1.prems" by (simp add: wd_bS0 wd_bS1 wd_bCH wd_bMAJ wd_badd Let_def)
  then show ?case using 1(1) [of ?t1 ?t2] "1.prems" by (simp add: Let_def)
qed (auto simp: regs_def)

definition bfinal :: "bool list list \<Rightarrow> bool list list \<Rightarrow> bool list list" where
  "bfinal st r = map2 badd st r"

lemma bfinal_lit: "bfinal [s0, s1, s2, s3, s4, s5, s6, s7] [a, b, c, d, e, f, g, h] =
   [badd s0 a, badd s1 b, badd s2 c, badd s3 d, badd s4 e, badd s5 f, badd s6 g, badd s7 h]"
  by (simp add: bfinal_def)

fun revap :: "'a list \<Rightarrow> 'a list \<Rightarrow> 'a list" where
  "revap [] ys = ys"
| "revap (x # xs) ys = revap xs (x # ys)"

lemma revap_rev: "revap xs ys = rev xs @ ys"
  by (induction xs arbitrary: ys) simp_all

subsection \<open>Hexadecimal literals\<close>

definition hexd :: "char \<Rightarrow> bool list" where
  "hexd ch = (let n = (if of_char ch < (97 :: nat) then of_char ch - 48 else of_char ch - 87) in map (bit (n :: nat)) [0..<4])"

lemma hexd_lit:
  "hexd CHR ''0'' = [False, False, False, False]"
  "hexd CHR ''1'' = [True, False, False, False]"
  "hexd CHR ''2'' = [False, True, False, False]"
  "hexd CHR ''3'' = [True, True, False, False]"
  "hexd CHR ''4'' = [False, False, True, False]"
  "hexd CHR ''5'' = [True, False, True, False]"
  "hexd CHR ''6'' = [False, True, True, False]"
  "hexd CHR ''7'' = [True, True, True, False]"
  "hexd CHR ''8'' = [False, False, False, True]"
  "hexd CHR ''9'' = [True, False, False, True]"
  "hexd CHR ''a'' = [False, True, False, True]"
  "hexd CHR ''b'' = [True, True, False, True]"
  "hexd CHR ''c'' = [False, False, True, True]"
  "hexd CHR ''d'' = [True, False, True, True]"
  "hexd CHR ''e'' = [False, True, True, True]"
  "hexd CHR ''f'' = [True, True, True, True]"
  by (simp_all add: hexd_def Let_def upt4 bit_0)

text \<open>The bits of a word written with its most significant digit first.\<close>

fun hx_acc :: "string \<Rightarrow> bool list \<Rightarrow> bool list" where
  "hx_acc [] acc = acc"
| "hx_acc (ch # s) acc = hx_acc s (hexd ch @ acc)"

definition hx :: "string \<Rightarrow> bool list" where
  "hx s = hx_acc s []"

definition bK :: "bool list list" where
  "bK = [hx ''428a2f98'', hx ''71374491'', hx ''b5c0fbcf'', hx ''e9b5dba5'', hx ''3956c25b'', hx ''59f111f1'',
     hx ''923f82a4'', hx ''ab1c5ed5'', hx ''d807aa98'', hx ''12835b01'', hx ''243185be'', hx ''550c7dc3'',
     hx ''72be5d74'', hx ''80deb1fe'', hx ''9bdc06a7'', hx ''c19bf174'', hx ''e49b69c1'', hx ''efbe4786'',
     hx ''0fc19dc6'', hx ''240ca1cc'', hx ''2de92c6f'', hx ''4a7484aa'', hx ''5cb0a9dc'', hx ''76f988da'',
     hx ''983e5152'', hx ''a831c66d'', hx ''b00327c8'', hx ''bf597fc7'', hx ''c6e00bf3'', hx ''d5a79147'',
     hx ''06ca6351'', hx ''14292967'', hx ''27b70a85'', hx ''2e1b2138'', hx ''4d2c6dfc'', hx ''53380d13'',
     hx ''650a7354'', hx ''766a0abb'', hx ''81c2c92e'', hx ''92722c85'', hx ''a2bfe8a1'', hx ''a81a664b'',
     hx ''c24b8b70'', hx ''c76c51a3'', hx ''d192e819'', hx ''d6990624'', hx ''f40e3585'', hx ''106aa070'',
     hx ''19a4c116'', hx ''1e376c08'', hx ''2748774c'', hx ''34b0bcb5'', hx ''391c0cb3'', hx ''4ed8aa4a'',
     hx ''5b9cca4f'', hx ''682e6ff3'', hx ''748f82ee'', hx ''78a5636f'', hx ''84c87814'', hx ''8cc70208'',
     hx ''90befffa'', hx ''a4506ceb'', hx ''bef9a3f7'', hx ''c67178f2'']"

definition bH0 :: "bool list list" where
  "bH0 = [hx ''6a09e667'', hx ''bb67ae85'', hx ''3c6ef372'', hx ''a54ff53a'', hx ''510e527f'', hx ''9b05688c'',
     hx ''1f83d9ab'', hx ''5be0cd19'']"

lemmas hx_simps = hx_def hx_acc.simps hexd_lit append.simps

definition bTransform :: "bool list list \<Rightarrow> bool list list \<Rightarrow> bool list list" where
  "bTransform st ws =
     (case st of [a, b, c, d, e, f, g, h] \<Rightarrow>
        bfinal st (brounds a b c d e f g h bK (revap (bsched 48 (revap ws [])) []))
      | _ \<Rightarrow> st)"

lemma bTransform_lit: "bTransform [a, b, c, d, e, f, g, h] ws =
    bfinal [a, b, c, d, e, f, g, h] (brounds a b c d e f g h bK (revap (bsched 48 (revap ws [])) []))"
  by (simp add: bTransform_def)

lemma length_sha_schedule [simp]: "length (sha_schedule n W) = length W + n"
  by (induction n W rule: sha_schedule.induct) (simp_all add: Let_def)

lemma sha_K_bits: "sha_K = map wd bK \<and> good bK \<and> length bK = 64"
  by (simp add: sha_K_def bK_def hx_simps wd_def)

lemma sha_H0_bits: "sha_H0 = map wd bH0 \<and> good bH0 \<and> length bH0 = 8"
  by (simp add: sha_H0_def bH0_def hx_simps wd_def)

lemmas sha_eval = x3_lit bCH_lit bMAJ_lit addc_lit bS0_lit bS1_lit bs0_lit bs1_lit badd_def bsched_lit
  bsched.simps(1) pred_numeral_simps BitM.simps brounds_lit bround1_def bfinal_lit revap.simps bTransform_lit
  bK_def

subsection \<open>The bit-level compression is \<open>Transform\<close>\<close>

lemma length_8: "length xs = 8 \<Longrightarrow> \<exists>a b c d e f g h. xs = [a, b, c, d, e, f, g, h]"
  by (auto simp: numeral_eq_Suc length_Suc_conv)

lemma Transform_bits:
  assumes "good st" and "length st = 8" and "good ws" and "length ws = 16"
    and "chunk_words chunk = map wd ws"
  shows "Transform (map wd st) chunk = map wd (bTransform st ws)
    \<and> good (bTransform st ws) \<and> length (bTransform st ws) = 8"
proof -
  obtain a b c d e f g h where st: "st = [a, b, c, d, e, f, g, h]"
    using length_8 [OF assms(2)] by blast
  let ?W = "rev (bsched 48 (rev ws))"
  have W: "sha_schedule 48 (map wd ws) = map wd ?W" "good ?W"
    using bsched_ok [of "rev ws" 48] assms(3,4) by (simp_all add: good_def rev_map)
  have len: "length ?W = 64"
    using length_sha_schedule [of 48 "map wd ws :: u32 list"] assms(4) W(1) by (simp add: W(1))
  have ok: "sha_rounds (wd a, wd b, wd c, wd d, wd e, wd f, wd g, wd h) (map wd bK) (map wd ?W)
       = regs (map wd (brounds a b c d e f g h bK ?W))
     \<and> good (brounds a b c d e f g h bK ?W) \<and> length (brounds a b c d e f g h bK ?W) = 8"
    using assms(1) sha_K_bits W(2) len unfolding st by (intro brounds_ok) simp_all
  then obtain a' b' c' d' e' f' g' h' where r: "brounds a b c d e f g h bK ?W = [a', b', c', d', e', f', g', h']"
    using length_8 by meson
  have rounds: "sha_rounds (wd a, wd b, wd c, wd d, wd e, wd f, wd g, wd h) sha_K (map wd ?W)
      = regs (map wd [a', b', c', d', e', f', g', h'])" "good [a', b', c', d', e', f', g', h']"
    using ok sha_K_bits unfolding r by simp_all
  have "bTransform st ws = bfinal st [a', b', c', d', e', f', g', h']"
    using r by (simp add: st bTransform_lit revap_rev)
  then show ?thesis
    using rounds assms(1)
    by (simp add: Transform_def Let_def assms(5) W(1) st bfinal_lit regs_def wd_badd)
qed

subsection \<open>Hashing a message given as words\<close>

definition words_bytes :: "bool list list \<Rightarrow> bytes" where
  "words_bytes ws = concat (map (\<lambda>w. WriteBE32 (wd w)) ws)"

lemma length_words_bytes [simp]: "length (words_bytes ws) = 4 * length ws"
  by (induction ws) (simp_all add: words_bytes_def)

lemma words_bytes_Cons: "words_bytes (w # ws) = WriteBE32 (wd w) @ words_bytes ws"
  by (simp add: words_bytes_def)

lemma ReadBE32_WriteBE32: "ReadBE32 (WriteBE32 w @ rest) = w"
proof (rule bit_word_eqI)
  fix n :: nat
  assume "n < LENGTH(32)"
  then consider "n < 8" | "8 \<le> n" "n < 16" | "16 \<le> n" "n < 24" | "24 \<le> n" "n < 32"
    by simp linarith
  then show "bit (ReadBE32 (WriteBE32 w @ rest)) n = bit w n"
    by cases (simp_all add: ReadBE32_def WriteBE32_def bit_simps less_diff_conv2)
qed

lemma chunk_words_bytes:
  assumes "length ws = 16"
  shows "chunk_words (words_bytes ws @ rest) = map wd ws"
proof -
  have drop: "drop (t * 4) (words_bytes ws @ rest) = WriteBE32 (wd (ws ! t)) @ words_bytes (drop (Suc t) ws) @ rest"
    if "t < length ws" for t
    using that
  proof (induction t arbitrary: ws)
    case 0
    then show ?case by (cases ws) (simp_all add: words_bytes_Cons)
  next
    case (Suc t)
    then show ?case by (cases ws) (simp_all add: words_bytes_Cons)
  qed
  show ?thesis
    unfolding chunk_words_def using assms drop
    by (intro nth_equalityI) (simp_all add: ReadBE32_WriteBE32)
qed

lemma full_blocks_chunks:
  "\<forall>ws \<in> set wss. length ws = 16 \<Longrightarrow> full_blocks (concat (map words_bytes wss)) = map words_bytes wss"
proof (induction wss)
  case (Cons ws wss)
  have "full_blocks (words_bytes ws @ m) = words_bytes ws # full_blocks m" for m
  proof -
    have len: "length (words_bytes ws) = 64" using Cons.prems by simp
    have "[0..<Suc (length m div 64)] = 0 # map Suc [0..<length m div 64]"
      by (simp add: map_Suc_upt upt_conv_Cons del: upt_Suc)
    moreover have "(64 + length m) div 64 = Suc (length m div 64)" by linarith
    moreover have "drop (64 * Suc i) (words_bytes ws @ m) = drop (64 * i) m" for i
      using len by simp
    moreover have "take 64 (drop (64 * 0) (words_bytes ws @ m)) = words_bytes ws" using len by simp
    ultimately show ?thesis
      by (simp only: full_blocks_def length_append len list.map map_map comp_def)
  qed
  then show ?case using Cons by simp
qed (simp add: full_blocks_def)

lemma foldl_bTransform:
  "good st \<Longrightarrow> length st = 8 \<Longrightarrow> \<forall>ws \<in> set wss. good ws \<and> length ws = 16 \<Longrightarrow>
     foldl Transform (map wd st) (map words_bytes wss) = map wd (foldl bTransform st wss)"
proof (induction wss arbitrary: st)
  case (Cons ws wss)
  have "chunk_words (words_bytes ws) = map wd ws"
    using chunk_words_bytes [of ws "[]"] Cons.prems by simp
  then show ?case
    using Transform_bits [of st ws "words_bytes ws"] Cons by simp
qed simp

text \<open>The hash of a message, given the words of its padded form.\<close>

lemma Hash256_words:
  assumes "m @ sha_pad m = concat (map words_bytes wss)"
    and "\<forall>ws \<in> set wss. good ws \<and> length ws = 16"
  shows "Hash256 m = words_bytes (foldl bTransform bH0 wss)"
  using foldl_bTransform [of bH0 wss] sha_H0_bits assms full_blocks_chunks [of wss]
  by (simp add: Hash256_spec hash_of_blocks_def words_bytes_def comp_def)

text \<open>The bytes of a word in hexadecimal.\<close>

definition hb :: "char \<Rightarrow> char \<Rightarrow> u8" where
  "hb c d = wd (hexd d @ hexd c)"

lemma WriteBE32_hx:
  assumes "\<forall>c \<in> {c1, c2, c3, c4, c5, c6, c7, c8}. length (hexd c) = 4"
  shows "WriteBE32 (wd (hx [c1, c2, c3, c4, c5, c6, c7, c8])) = [hb c1 c2, hb c3 c4, hb c5 c6, hb c7 c8]"
  using assms
  by (simp add: WriteBE32_def, intro conjI; intro bit_word_eqI)
     (auto simp: hb_def hx_def bit_simps bit_wd nth_append)

lemma length_hexd [simp]: "length (hexd c) = 4"
  by (simp add: hexd_def Let_def)

lemma length_hx [simp]: "length (hx [c1, c2, c3, c4, c5, c6, c7, c8]) = 32"
  by (simp add: hx_def)

lemmas hb_eval = hb_def hexd_lit wd_def append.simps

lemma words_bytes_hx [simp]:
  "words_bytes [] = []"
  "words_bytes (hx [c1, c2, c3, c4, c5, c6, c7, c8] # ws)
     = hb c1 c2 # hb c3 c4 # hb c5 c6 # hb c7 c8 # words_bytes ws"
  by (simp_all add: words_bytes_def WriteBE32_hx)

lemma replicate_numeral_unfold: "replicate (numeral k) x = x # replicate (pred_numeral k) x"
  by (simp add: numeral_eq_Suc)

lemmas sha_pad_eval = sha_pad_def WriteBE64_def replicate_numeral_unfold

end
