(* ===== verification/Genesis.thy ===== *)
theory Genesis
  imports Chain Sha256_Eval
begin

section \<open>Genesis blocks\<close>

text \<open>
  Models \<open>layer1-talanton/core/consensus/genesis.h\<close> and \<open>genesis.cpp\<close>: the parameters of the three
  networks, the block built from them, and the hard-coded hashes. \<open>NetworkType\<close> has three values,
  so the fall-through after each \<open>switch\<close> is not reached.
\<close>

datatype NetworkType = MAINNET | TESTNET | REGTEST

record GenesisParams =
  gp_network :: NetworkType
  gp_name :: string
  gp_timestamp :: u32
  gp_bits :: u32
  gp_nonce :: u32
  coinbase_message :: string
  talanton_output :: u64
  drachma_output :: u64
  obolos_output :: u64

definition kGenesisTimestamp :: u32 where "kGenesisTimestamp = 1704067200"
definition kTalantonGenesis :: u64 where "kTalantonGenesis = 50 * BASE_UNIT"
definition kDrachmaGenesis :: u64 where "kDrachmaGenesis = 9761900000"
definition kObolosGenesis :: u64 where "kObolosGenesis = 14523800000"

definition GetGenesisParams :: "NetworkType \<Rightarrow> GenesisParams" where
  "GetGenesisParams network =
     (case network of
        MAINNET \<Rightarrow>
          \<lparr>gp_network = MAINNET, gp_name = ''mainnet'', gp_timestamp = kGenesisTimestamp,
           gp_bits = GetInitialBits, gp_nonce = 0,
           coinbase_message = ''ParthenonChain Genesis - 2024-01-01 - The Times 01/Jan/2024'',
           talanton_output = kTalantonGenesis, drachma_output = kDrachmaGenesis,
           obolos_output = kObolosGenesis\<rparr>
      | TESTNET \<Rightarrow>
          \<lparr>gp_network = TESTNET, gp_name = ''testnet'', gp_timestamp = kGenesisTimestamp,
           gp_bits = GetInitialBits, gp_nonce = 0,
           coinbase_message = ''ParthenonChain Testnet Genesis - 2024-01-01'',
           talanton_output = kTalantonGenesis, drachma_output = kDrachmaGenesis,
           obolos_output = kObolosGenesis\<rparr>
      | REGTEST \<Rightarrow>
          \<lparr>gp_network = REGTEST, gp_name = ''regtest'', gp_timestamp = kGenesisTimestamp,
           gp_bits = 0x207fffff, gp_nonce = 0,
           coinbase_message = ''ParthenonChain Regtest Genesis'',
           talanton_output = kTalantonGenesis, drachma_output = kDrachmaGenesis,
           obolos_output = kObolosGenesis\<rparr>)"

definition genesis_coinbase :: "GenesisParams \<Rightarrow> Transaction" where
  "genesis_coinbase params =
     (let unspendable_script = replicate 32 0 in
      \<lparr>version = 1,
       inputs = [\<lparr>prevout = OutPoint zero_hash COINBASE_VOUT_INDEX,
                  signature_script = map of_char (coinbase_message params), sequence = 0xFFFFFFFF\<rparr>],
       outputs =
         [\<lparr>out_value = \<lparr>asset_id = TALANTON, asset_amount = talanton_output params\<rparr>, pubkey_script = unspendable_script\<rparr>,
          \<lparr>out_value = \<lparr>asset_id = DRACHMA, asset_amount = drachma_output params\<rparr>, pubkey_script = unspendable_script\<rparr>,
          \<lparr>out_value = \<lparr>asset_id = OBOLOS, asset_amount = obolos_output params\<rparr>, pubkey_script = unspendable_script\<rparr>],
       locktime = 0\<rparr>)"

definition GetGenesisBlock :: "NetworkType \<Rightarrow> Block" where
  "GetGenesisBlock network =
     (let params = GetGenesisParams network;
          hdr = BlockHeader_init\<lparr>hdr_version := 1, prev_block_hash := zero_hash,
                  timestamp := gp_timestamp params, bits := gp_bits params, nonce := gp_nonce params\<rparr>;
          genesis = \<lparr>header = hdr, transactions = [genesis_coinbase params]\<rparr>
      in genesis\<lparr>header := hdr\<lparr>merkle_root := CalculateMerkleRoot genesis\<rparr>\<rparr>)"

definition GetGenesisHash :: "NetworkType \<Rightarrow> bytes" where
  "GetGenesisHash network = Block_GetHash (GetGenesisBlock network)"

definition kMainnetGenesisHash :: bytes where
  "kMainnetGenesisHash =
    [0x66, 0x01, 0x89, 0xb8, 0x46, 0x6f, 0xa2, 0x95, 0x7f, 0x0a, 0x8b,
     0xf9, 0xbb, 0xe6, 0xfd, 0xda, 0x5c, 0xc4, 0xeb, 0x79, 0xae, 0x57,
     0xf2, 0x41, 0x61, 0xdf, 0x72, 0x6c, 0xee, 0x4b, 0x85, 0x44]"

definition kTestnetGenesisHash :: bytes where
  "kTestnetGenesisHash =
    [0xfe, 0x73, 0x9e, 0x3c, 0x1e, 0x27, 0x50, 0x9a, 0x9c, 0x7d, 0x22,
     0x60, 0xe3, 0x94, 0x38, 0xf1, 0xff, 0x1c, 0x44, 0xdc, 0x03, 0xa6,
     0x30, 0x9e, 0x68, 0x73, 0x7b, 0x2c, 0xc6, 0x2c, 0x38, 0x75]"

definition kRegtestGenesisHash :: bytes where
  "kRegtestGenesisHash =
    [0xf8, 0x5d, 0x0b, 0xad, 0x36, 0xaf, 0xae, 0x82, 0xec, 0x8b, 0x2c,
     0x60, 0xa9, 0x58, 0x7a, 0xb2, 0xd3, 0x65, 0x81, 0xb4, 0xea, 0x31,
     0xa1, 0x08, 0xb7, 0xcc, 0xfe, 0xfb, 0x97, 0x76, 0xbc, 0x15]"

definition GetExpectedGenesisHash :: "NetworkType \<Rightarrow> bytes" where
  "GetExpectedGenesisHash network =
     (case network of
        MAINNET \<Rightarrow> kMainnetGenesisHash
      | TESTNET \<Rightarrow> kTestnetGenesisHash
      | REGTEST \<Rightarrow> kRegtestGenesisHash)"

lemmas expected_hash_defs = GetExpectedGenesisHash_def kMainnetGenesisHash_def kTestnetGenesisHash_def
  kRegtestGenesisHash_def

definition IsExpectedGenesisBlock :: "Block \<Rightarrow> NetworkType \<Rightarrow> bool" where
  "IsExpectedGenesisBlock block network =
     (let expected = GetGenesisBlock network in
      if Block_GetHash block \<noteq> GetExpectedGenesisHash network then False
      else if Block_GetHash expected \<noteq> GetExpectedGenesisHash network then False
      else if hdr_version (header block) \<noteq> hdr_version (header expected)
           \<or> prev_block_hash (header block) \<noteq> prev_block_hash (header expected)
           \<or> timestamp (header block) \<noteq> timestamp (header expected)
           \<or> bits (header block) \<noteq> bits (header expected)
           \<or> nonce (header block) \<noteq> nonce (header expected)
           \<or> merkle_root (header block) \<noteq> merkle_root (header expected) then False
      else if length (transactions block) \<noteq> 1 \<or> \<not> IsCoinbase (transactions block ! 0) then False
      else Transaction_Serialize (transactions block ! 0) = Transaction_Serialize (transactions expected ! 0))"


lemmas genesis_eval = Transaction_Serialize_def genesis_coinbase_def GetGenesisParams_def
  TxInput_Serialize_def TxOutput_Serialize_def OutPoint_Serialize_def AssetAmount_Serialize_def
  WriteCompactSize_def le32_def le64_def kTalantonGenesis_def kDrachmaGenesis_def kObolosGenesis_def
  supply_defs Let_def

lemma genesis_header:
  "header (GetGenesisBlock n) =
     BlockHeader_init\<lparr>hdr_version := 1, prev_block_hash := zero_hash,
        timestamp := gp_timestamp (GetGenesisParams n), bits := gp_bits (GetGenesisParams n),
        nonce := gp_nonce (GetGenesisParams n),
        merkle_root := GetTxID (genesis_coinbase (GetGenesisParams n))\<rparr>"
  by (simp add: GetGenesisBlock_def Let_def CalculateMerkleRoot_def CalculateRoot_txs_def CalculateRoot_def)

lemma genesis_params_simps:
  "gp_timestamp (GetGenesisParams n) = 1704067200" "gp_bits (GetGenesisParams n) = 0x207fffff"
  "gp_nonce (GetGenesisParams n) = 0"
  by (cases n; simp add: GetGenesisParams_def kGenesisTimestamp_def GetInitialBits_def)+

lemmas genesis_header_eval = genesis_header genesis_params_simps BlockHeader_Serialize_def
  BlockHeader_init_def le32_def le64_def

subsection \<open>The hashes, computed\<close>

text \<open>
  One lemma per call of the compression function, then the two hashes of each double SHA-256: of
  the coinbase (which is the Merkle root) and of the header.
\<close>

lemma mainnet_tx1_c1:
  "bTransform
    [hx ''6a09e667'', hx ''bb67ae85'', hx ''3c6ef372'', hx ''a54ff53a'', hx ''510e527f'', hx ''9b05688c'', hx ''1f83d9ab'', hx ''5be0cd19'']
    [hx ''01000000'', hx ''01000000'', hx ''00000000'', hx ''00000000'', hx ''00000000'', hx ''00000000'', hx ''00000000'', hx ''00000000'',
     hx ''00000000'', hx ''00ffffff'', hx ''ff3b5061'', hx ''72746865'', hx ''6e6f6e43'', hx ''6861696e'', hx ''2047656e'', hx ''65736973'']
   = [hx ''2f21be59'', hx ''cf94a479'', hx ''47377457'', hx ''13caecfd'', hx ''22529c4e'', hx ''869a2f6d'', hx ''c988595a'', hx ''eefbf36f'']"
  by (simp only: sha_eval hx_simps)

lemma mainnet_tx1_c2:
  "bTransform
    [hx ''2f21be59'', hx ''cf94a479'', hx ''47377457'', hx ''13caecfd'', hx ''22529c4e'', hx ''869a2f6d'', hx ''c988595a'', hx ''eefbf36f'']
    [hx ''202d2032'', hx ''3032342d'', hx ''30312d30'', hx ''31202d20'', hx ''54686520'', hx ''54696d65'', hx ''73203031'', hx ''2f4a616e'',
     hx ''2f323032'', hx ''34ffffff'', hx ''ff030000'', hx ''f2052a01'', hx ''00000020'', hx ''00000000'', hx ''00000000'', hx ''00000000'']
   = [hx ''4f74ee5c'', hx ''beeb8e90'', hx ''c1b32730'', hx ''277a77f3'', hx ''2aff9e22'', hx ''4ca38965'', hx ''ed3cbc33'', hx ''1838e1d8'']"
  by (simp only: sha_eval hx_simps)

lemma mainnet_tx1_c3:
  "bTransform
    [hx ''4f74ee5c'', hx ''beeb8e90'', hx ''c1b32730'', hx ''277a77f3'', hx ''2aff9e22'', hx ''4ca38965'', hx ''ed3cbc33'', hx ''1838e1d8'']
    [hx ''00000000'', hx ''00000000'', hx ''00000000'', hx ''00000000'', hx ''00000000'', hx ''01e0c5da'', hx ''45020000'', hx ''00200000'',
     hx ''00000000'', hx ''00000000'', hx ''00000000'', hx ''00000000'', hx ''00000000'', hx ''00000000'', hx ''00000000'', hx ''000002c0'']
   = [hx ''eb571238'', hx ''9994c3e7'', hx ''e1c565f0'', hx ''a9a65833'', hx ''aad6ec96'', hx ''bdbf8e9b'', hx ''9b25ca8d'', hx ''e6320619'']"
  by (simp only: sha_eval hx_simps)

lemma mainnet_tx1_c4:
  "bTransform
    [hx ''eb571238'', hx ''9994c3e7'', hx ''e1c565f0'', hx ''a9a65833'', hx ''aad6ec96'', hx ''bdbf8e9b'', hx ''9b25ca8d'', hx ''e6320619'']
    [hx ''99af6103'', hx ''00000020'', hx ''00000000'', hx ''00000000'', hx ''00000000'', hx ''00000000'', hx ''00000000'', hx ''00000000'',
     hx ''00000000'', hx ''00000000'', hx ''00000000'', hx ''80000000'', hx ''00000000'', hx ''00000000'', hx ''00000000'', hx ''00000760'']
   = [hx ''e2f2e57b'', hx ''a8ace126'', hx ''399a630a'', hx ''6dfe4c1b'', hx ''487ff598'', hx ''4c831aac'', hx ''95775470'', hx ''bfcc46af'']"
  by (simp only: sha_eval hx_simps)

lemma mainnet_tx1:
  "Hash256
    [1, 0, 0, 0, 1, 0, 0, 0, 0, 0, 0, 0, 0, 0, 0, 0,
     0, 0, 0, 0, 0, 0, 0, 0, 0, 0, 0, 0, 0, 0, 0, 0,
     0, 0, 0, 0, 0, 0xff, 0xff, 0xff, 0xff, 0x3b, 0x50, 0x61, 0x72, 0x74, 0x68, 0x65,
     0x6e, 0x6f, 0x6e, 0x43, 0x68, 0x61, 0x69, 0x6e, 0x20, 0x47, 0x65, 0x6e, 0x65, 0x73, 0x69, 0x73,
     0x20, 0x2d, 0x20, 0x32, 0x30, 0x32, 0x34, 0x2d, 0x30, 0x31, 0x2d, 0x30, 0x31, 0x20, 0x2d, 0x20,
     0x54, 0x68, 0x65, 0x20, 0x54, 0x69, 0x6d, 0x65, 0x73, 0x20, 0x30, 0x31, 0x2f, 0x4a, 0x61, 0x6e,
     0x2f, 0x32, 0x30, 0x32, 0x34, 0xff, 0xff, 0xff, 0xff, 0x03, 0, 0, 0xf2, 0x05, 0x2a, 1,
     0, 0, 0, 0x20, 0, 0, 0, 0, 0, 0, 0, 0, 0, 0, 0, 0,
     0, 0, 0, 0, 0, 0, 0, 0, 0, 0, 0, 0, 0, 0, 0, 0,
     0, 0, 0, 0, 1, 0xe0, 0xc5, 0xda, 0x45, 0x02, 0, 0, 0, 0x20, 0, 0,
     0, 0, 0, 0, 0, 0, 0, 0, 0, 0, 0, 0, 0, 0, 0, 0,
     0, 0, 0, 0, 0, 0, 0, 0, 0, 0, 0, 0, 0, 0, 0x02, 0xc0,
     0x99, 0xaf, 0x61, 0x03, 0, 0, 0, 0x20, 0, 0, 0, 0, 0, 0, 0, 0,
     0, 0, 0, 0, 0, 0, 0, 0, 0, 0, 0, 0, 0, 0, 0, 0,
     0, 0, 0, 0, 0, 0, 0, 0, 0, 0, 0, 0]
   = [0xe2, 0xf2, 0xe5, 0x7b, 0xa8, 0xac, 0xe1, 0x26, 0x39, 0x9a, 0x63, 0x0a, 0x6d, 0xfe, 0x4c, 0x1b,
     0x48, 0x7f, 0xf5, 0x98, 0x4c, 0x83, 0x1a, 0xac, 0x95, 0x77, 0x54, 0x70, 0xbf, 0xcc, 0x46, 0xaf]"
  by (subst Hash256_words [where wss = "[[hx ''01000000'', hx ''01000000'', hx ''00000000'', hx ''00000000'', hx ''00000000'', hx ''00000000'', hx ''00000000'', hx ''00000000'',
     hx ''00000000'', hx ''00ffffff'', hx ''ff3b5061'', hx ''72746865'', hx ''6e6f6e43'', hx ''6861696e'', hx ''2047656e'', hx ''65736973''],
     [hx ''202d2032'', hx ''3032342d'', hx ''30312d30'', hx ''31202d20'', hx ''54686520'', hx ''54696d65'', hx ''73203031'', hx ''2f4a616e'',
     hx ''2f323032'', hx ''34ffffff'', hx ''ff030000'', hx ''f2052a01'', hx ''00000020'', hx ''00000000'', hx ''00000000'', hx ''00000000''],
     [hx ''00000000'', hx ''00000000'', hx ''00000000'', hx ''00000000'', hx ''00000000'', hx ''01e0c5da'', hx ''45020000'', hx ''00200000'',
     hx ''00000000'', hx ''00000000'', hx ''00000000'', hx ''00000000'', hx ''00000000'', hx ''00000000'', hx ''00000000'', hx ''000002c0''],
     [hx ''99af6103'', hx ''00000020'', hx ''00000000'', hx ''00000000'', hx ''00000000'', hx ''00000000'', hx ''00000000'', hx ''00000000'',
     hx ''00000000'', hx ''00000000'', hx ''00000000'', hx ''80000000'', hx ''00000000'', hx ''00000000'', hx ''00000000'', hx ''00000760'']]"])
     (simp_all add: sha_pad_eval hb_eval bH0_def mainnet_tx1_c1 mainnet_tx1_c2 mainnet_tx1_c3 mainnet_tx1_c4)

lemma mainnet_tx2_c1:
  "bTransform
    [hx ''6a09e667'', hx ''bb67ae85'', hx ''3c6ef372'', hx ''a54ff53a'', hx ''510e527f'', hx ''9b05688c'', hx ''1f83d9ab'', hx ''5be0cd19'']
    [hx ''e2f2e57b'', hx ''a8ace126'', hx ''399a630a'', hx ''6dfe4c1b'', hx ''487ff598'', hx ''4c831aac'', hx ''95775470'', hx ''bfcc46af'',
     hx ''80000000'', hx ''00000000'', hx ''00000000'', hx ''00000000'', hx ''00000000'', hx ''00000000'', hx ''00000000'', hx ''00000100'']
   = [hx ''b5a191f7'', hx ''c78b0c4f'', hx ''f2deb808'', hx ''200b9df5'', hx ''79b79ca7'', hx ''2b33547e'', hx ''c7e30856'', hx ''49768448'']"
  by (simp only: sha_eval hx_simps)

lemma mainnet_tx2:
  "Hash256
    [0xe2, 0xf2, 0xe5, 0x7b, 0xa8, 0xac, 0xe1, 0x26, 0x39, 0x9a, 0x63, 0x0a, 0x6d, 0xfe, 0x4c, 0x1b,
     0x48, 0x7f, 0xf5, 0x98, 0x4c, 0x83, 0x1a, 0xac, 0x95, 0x77, 0x54, 0x70, 0xbf, 0xcc, 0x46, 0xaf]
   = [0xb5, 0xa1, 0x91, 0xf7, 0xc7, 0x8b, 0x0c, 0x4f, 0xf2, 0xde, 0xb8, 0x08, 0x20, 0x0b, 0x9d, 0xf5,
     0x79, 0xb7, 0x9c, 0xa7, 0x2b, 0x33, 0x54, 0x7e, 0xc7, 0xe3, 0x08, 0x56, 0x49, 0x76, 0x84, 0x48]"
  by (subst Hash256_words [where wss = "[[hx ''e2f2e57b'', hx ''a8ace126'', hx ''399a630a'', hx ''6dfe4c1b'', hx ''487ff598'', hx ''4c831aac'', hx ''95775470'', hx ''bfcc46af'',
     hx ''80000000'', hx ''00000000'', hx ''00000000'', hx ''00000000'', hx ''00000000'', hx ''00000000'', hx ''00000000'', hx ''00000100'']]"])
     (simp_all add: sha_pad_eval hb_eval bH0_def mainnet_tx2_c1)

lemma mainnet_coinbase_bytes:
  "Transaction_Serialize (genesis_coinbase (GetGenesisParams MAINNET)) =
    [1, 0, 0, 0, 1, 0, 0, 0, 0, 0, 0, 0, 0, 0, 0, 0,
     0, 0, 0, 0, 0, 0, 0, 0, 0, 0, 0, 0, 0, 0, 0, 0,
     0, 0, 0, 0, 0, 0xff, 0xff, 0xff, 0xff, 0x3b, 0x50, 0x61, 0x72, 0x74, 0x68, 0x65,
     0x6e, 0x6f, 0x6e, 0x43, 0x68, 0x61, 0x69, 0x6e, 0x20, 0x47, 0x65, 0x6e, 0x65, 0x73, 0x69, 0x73,
     0x20, 0x2d, 0x20, 0x32, 0x30, 0x32, 0x34, 0x2d, 0x30, 0x31, 0x2d, 0x30, 0x31, 0x20, 0x2d, 0x20,
     0x54, 0x68, 0x65, 0x20, 0x54, 0x69, 0x6d, 0x65, 0x73, 0x20, 0x30, 0x31, 0x2f, 0x4a, 0x61, 0x6e,
     0x2f, 0x32, 0x30, 0x32, 0x34, 0xff, 0xff, 0xff, 0xff, 0x03, 0, 0, 0xf2, 0x05, 0x2a, 1,
     0, 0, 0, 0x20, 0, 0, 0, 0, 0, 0, 0, 0, 0, 0, 0, 0,
     0, 0, 0, 0, 0, 0, 0, 0, 0, 0, 0, 0, 0, 0, 0, 0,
     0, 0, 0, 0, 1, 0xe0, 0xc5, 0xda, 0x45, 0x02, 0, 0, 0, 0x20, 0, 0,
     0, 0, 0, 0, 0, 0, 0, 0, 0, 0, 0, 0, 0, 0, 0, 0,
     0, 0, 0, 0, 0, 0, 0, 0, 0, 0, 0, 0, 0, 0, 0x02, 0xc0,
     0x99, 0xaf, 0x61, 0x03, 0, 0, 0, 0x20, 0, 0, 0, 0, 0, 0, 0, 0,
     0, 0, 0, 0, 0, 0, 0, 0, 0, 0, 0, 0, 0, 0, 0, 0,
     0, 0, 0, 0, 0, 0, 0, 0, 0, 0, 0, 0]"
  by (simp add: genesis_eval replicate_numeral_unfold)

lemma mainnet_root:
  "GetTxID (genesis_coinbase (GetGenesisParams MAINNET)) =
    [0xb5, 0xa1, 0x91, 0xf7, 0xc7, 0x8b, 0x0c, 0x4f, 0xf2, 0xde, 0xb8, 0x08, 0x20, 0x0b, 0x9d, 0xf5,
     0x79, 0xb7, 0x9c, 0xa7, 0x2b, 0x33, 0x54, 0x7e, 0xc7, 0xe3, 0x08, 0x56, 0x49, 0x76, 0x84, 0x48]"
  by (simp only: GetTxID_def Hash256d_def mainnet_coinbase_bytes mainnet_tx1 mainnet_tx2)

lemma mainnet_hd1_c1:
  "bTransform
    [hx ''6a09e667'', hx ''bb67ae85'', hx ''3c6ef372'', hx ''a54ff53a'', hx ''510e527f'', hx ''9b05688c'', hx ''1f83d9ab'', hx ''5be0cd19'']
    [hx ''01000000'', hx ''00000000'', hx ''00000000'', hx ''00000000'', hx ''00000000'', hx ''00000000'', hx ''00000000'', hx ''00000000'',
     hx ''00000000'', hx ''b5a191f7'', hx ''c78b0c4f'', hx ''f2deb808'', hx ''200b9df5'', hx ''79b79ca7'', hx ''2b33547e'', hx ''c7e30856'']
   = [hx ''935ad43b'', hx ''efc86805'', hx ''a725a56b'', hx ''518d7b68'', hx ''0c8ad2ce'', hx ''d2f7d1e6'', hx ''bfc24720'', hx ''a274428f'']"
  by (simp only: sha_eval hx_simps)

lemma mainnet_hd1_c2:
  "bTransform
    [hx ''935ad43b'', hx ''efc86805'', hx ''a725a56b'', hx ''518d7b68'', hx ''0c8ad2ce'', hx ''d2f7d1e6'', hx ''bfc24720'', hx ''a274428f'']
    [hx ''49768448'', hx ''80009265'', hx ''ffff7f20'', hx ''00000000'', hx ''00ca9a3b'', hx ''00000000'', hx ''00000000'', hx ''00000000'',
     hx ''80c3c901'', hx ''00000000'', hx ''80000000'', hx ''00000000'', hx ''00000000'', hx ''00000000'', hx ''00000000'', hx ''00000340'']
   = [hx ''859cc122'', hx ''52053e6a'', hx ''dc52caa7'', hx ''34286f95'', hx ''080a591c'', hx ''57f68310'', hx ''64390302'', hx ''43021272'']"
  by (simp only: sha_eval hx_simps)

lemma mainnet_hd1:
  "Hash256
    [1, 0, 0, 0, 0, 0, 0, 0, 0, 0, 0, 0, 0, 0, 0, 0,
     0, 0, 0, 0, 0, 0, 0, 0, 0, 0, 0, 0, 0, 0, 0, 0,
     0, 0, 0, 0, 0xb5, 0xa1, 0x91, 0xf7, 0xc7, 0x8b, 0x0c, 0x4f, 0xf2, 0xde, 0xb8, 0x08,
     0x20, 0x0b, 0x9d, 0xf5, 0x79, 0xb7, 0x9c, 0xa7, 0x2b, 0x33, 0x54, 0x7e, 0xc7, 0xe3, 0x08, 0x56,
     0x49, 0x76, 0x84, 0x48, 0x80, 0, 0x92, 0x65, 0xff, 0xff, 0x7f, 0x20, 0, 0, 0, 0,
     0, 0xca, 0x9a, 0x3b, 0, 0, 0, 0, 0, 0, 0, 0, 0, 0, 0, 0,
     0x80, 0xc3, 0xc9, 1, 0, 0, 0, 0]
   = [0x85, 0x9c, 0xc1, 0x22, 0x52, 0x05, 0x3e, 0x6a, 0xdc, 0x52, 0xca, 0xa7, 0x34, 0x28, 0x6f, 0x95,
     0x08, 0x0a, 0x59, 0x1c, 0x57, 0xf6, 0x83, 0x10, 0x64, 0x39, 0x03, 0x02, 0x43, 0x02, 0x12, 0x72]"
  by (subst Hash256_words [where wss = "[[hx ''01000000'', hx ''00000000'', hx ''00000000'', hx ''00000000'', hx ''00000000'', hx ''00000000'', hx ''00000000'', hx ''00000000'',
     hx ''00000000'', hx ''b5a191f7'', hx ''c78b0c4f'', hx ''f2deb808'', hx ''200b9df5'', hx ''79b79ca7'', hx ''2b33547e'', hx ''c7e30856''],
     [hx ''49768448'', hx ''80009265'', hx ''ffff7f20'', hx ''00000000'', hx ''00ca9a3b'', hx ''00000000'', hx ''00000000'', hx ''00000000'',
     hx ''80c3c901'', hx ''00000000'', hx ''80000000'', hx ''00000000'', hx ''00000000'', hx ''00000000'', hx ''00000000'', hx ''00000340'']]"])
     (simp_all add: sha_pad_eval hb_eval bH0_def mainnet_hd1_c1 mainnet_hd1_c2)

lemma mainnet_hd2_c1:
  "bTransform
    [hx ''6a09e667'', hx ''bb67ae85'', hx ''3c6ef372'', hx ''a54ff53a'', hx ''510e527f'', hx ''9b05688c'', hx ''1f83d9ab'', hx ''5be0cd19'']
    [hx ''859cc122'', hx ''52053e6a'', hx ''dc52caa7'', hx ''34286f95'', hx ''080a591c'', hx ''57f68310'', hx ''64390302'', hx ''43021272'',
     hx ''80000000'', hx ''00000000'', hx ''00000000'', hx ''00000000'', hx ''00000000'', hx ''00000000'', hx ''00000000'', hx ''00000100'']
   = [hx ''660189b8'', hx ''466fa295'', hx ''7f0a8bf9'', hx ''bbe6fdda'', hx ''5cc4eb79'', hx ''ae57f241'', hx ''61df726c'', hx ''ee4b8544'']"
  by (simp only: sha_eval hx_simps)

lemma mainnet_hd2:
  "Hash256
    [0x85, 0x9c, 0xc1, 0x22, 0x52, 0x05, 0x3e, 0x6a, 0xdc, 0x52, 0xca, 0xa7, 0x34, 0x28, 0x6f, 0x95,
     0x08, 0x0a, 0x59, 0x1c, 0x57, 0xf6, 0x83, 0x10, 0x64, 0x39, 0x03, 0x02, 0x43, 0x02, 0x12, 0x72]
   = [0x66, 1, 0x89, 0xb8, 0x46, 0x6f, 0xa2, 0x95, 0x7f, 0x0a, 0x8b, 0xf9, 0xbb, 0xe6, 0xfd, 0xda,
     0x5c, 0xc4, 0xeb, 0x79, 0xae, 0x57, 0xf2, 0x41, 0x61, 0xdf, 0x72, 0x6c, 0xee, 0x4b, 0x85, 0x44]"
  by (subst Hash256_words [where wss = "[[hx ''859cc122'', hx ''52053e6a'', hx ''dc52caa7'', hx ''34286f95'', hx ''080a591c'', hx ''57f68310'', hx ''64390302'', hx ''43021272'',
     hx ''80000000'', hx ''00000000'', hx ''00000000'', hx ''00000000'', hx ''00000000'', hx ''00000000'', hx ''00000000'', hx ''00000100'']]"])
     (simp_all add: sha_pad_eval hb_eval bH0_def mainnet_hd2_c1)

lemma mainnet_header_bytes:
  "BlockHeader_Serialize (header (GetGenesisBlock MAINNET)) =
    [1, 0, 0, 0, 0, 0, 0, 0, 0, 0, 0, 0, 0, 0, 0, 0,
     0, 0, 0, 0, 0, 0, 0, 0, 0, 0, 0, 0, 0, 0, 0, 0,
     0, 0, 0, 0, 0xb5, 0xa1, 0x91, 0xf7, 0xc7, 0x8b, 0x0c, 0x4f, 0xf2, 0xde, 0xb8, 0x08,
     0x20, 0x0b, 0x9d, 0xf5, 0x79, 0xb7, 0x9c, 0xa7, 0x2b, 0x33, 0x54, 0x7e, 0xc7, 0xe3, 0x08, 0x56,
     0x49, 0x76, 0x84, 0x48, 0x80, 0, 0x92, 0x65, 0xff, 0xff, 0x7f, 0x20, 0, 0, 0, 0,
     0, 0xca, 0x9a, 0x3b, 0, 0, 0, 0, 0, 0, 0, 0, 0, 0, 0, 0,
     0x80, 0xc3, 0xc9, 1, 0, 0, 0, 0]"
  by (simp add: genesis_header_eval mainnet_root replicate_numeral_unfold)

lemma mainnet_hash:
  "Block_GetHash (GetGenesisBlock MAINNET) =
    [0x66, 1, 0x89, 0xb8, 0x46, 0x6f, 0xa2, 0x95, 0x7f, 0x0a, 0x8b, 0xf9, 0xbb, 0xe6, 0xfd, 0xda,
     0x5c, 0xc4, 0xeb, 0x79, 0xae, 0x57, 0xf2, 0x41, 0x61, 0xdf, 0x72, 0x6c, 0xee, 0x4b, 0x85, 0x44]"
  by (simp only: Block_GetHash_def BlockHeader_GetHash_def Hash256d_def mainnet_header_bytes mainnet_hd1 mainnet_hd2)

lemma testnet_tx1_c1:
  "bTransform
    [hx ''6a09e667'', hx ''bb67ae85'', hx ''3c6ef372'', hx ''a54ff53a'', hx ''510e527f'', hx ''9b05688c'', hx ''1f83d9ab'', hx ''5be0cd19'']
    [hx ''01000000'', hx ''01000000'', hx ''00000000'', hx ''00000000'', hx ''00000000'', hx ''00000000'', hx ''00000000'', hx ''00000000'',
     hx ''00000000'', hx ''00ffffff'', hx ''ff2b5061'', hx ''72746865'', hx ''6e6f6e43'', hx ''6861696e'', hx ''20546573'', hx ''746e6574'']
   = [hx ''f1674f08'', hx ''1454c329'', hx ''92e3dabd'', hx ''47e04727'', hx ''a7db44dc'', hx ''992c965d'', hx ''c1cd6078'', hx ''d1c5f2ae'']"
  by (simp only: sha_eval hx_simps)

lemma testnet_tx1_c2:
  "bTransform
    [hx ''f1674f08'', hx ''1454c329'', hx ''92e3dabd'', hx ''47e04727'', hx ''a7db44dc'', hx ''992c965d'', hx ''c1cd6078'', hx ''d1c5f2ae'']
    [hx ''2047656e'', hx ''65736973'', hx ''202d2032'', hx ''3032342d'', hx ''30312d30'', hx ''31ffffff'', hx ''ff030000'', hx ''f2052a01'',
     hx ''00000020'', hx ''00000000'', hx ''00000000'', hx ''00000000'', hx ''00000000'', hx ''00000000'', hx ''00000000'', hx ''00000000'']
   = [hx ''fa850737'', hx ''b16e7c70'', hx ''aefd10aa'', hx ''55b53552'', hx ''e52c2fa5'', hx ''fdc01ebc'', hx ''23367c95'', hx ''3d89154c'']"
  by (simp only: sha_eval hx_simps)

lemma testnet_tx1_c3:
  "bTransform
    [hx ''fa850737'', hx ''b16e7c70'', hx ''aefd10aa'', hx ''55b53552'', hx ''e52c2fa5'', hx ''fdc01ebc'', hx ''23367c95'', hx ''3d89154c'']
    [hx ''00000000'', hx ''01e0c5da'', hx ''45020000'', hx ''00200000'', hx ''00000000'', hx ''00000000'', hx ''00000000'', hx ''00000000'',
     hx ''00000000'', hx ''00000000'', hx ''00000000'', hx ''000002c0'', hx ''99af6103'', hx ''00000020'', hx ''00000000'', hx ''00000000'']
   = [hx ''e4690202'', hx ''1459dc1a'', hx ''0c1a8865'', hx ''a28f6c64'', hx ''21667e36'', hx ''ec5c8d08'', hx ''4a5b8819'', hx ''1327b76f'']"
  by (simp only: sha_eval hx_simps)

lemma testnet_tx1_c4:
  "bTransform
    [hx ''e4690202'', hx ''1459dc1a'', hx ''0c1a8865'', hx ''a28f6c64'', hx ''21667e36'', hx ''ec5c8d08'', hx ''4a5b8819'', hx ''1327b76f'']
    [hx ''00000000'', hx ''00000000'', hx ''00000000'', hx ''00000000'', hx ''00000000'', hx ''00000000'', hx ''00000000'', hx ''80000000'',
     hx ''00000000'', hx ''00000000'', hx ''00000000'', hx ''00000000'', hx ''00000000'', hx ''00000000'', hx ''00000000'', hx ''000006e0'']
   = [hx ''c1ede7ec'', hx ''8284bd9a'', hx ''fcff0e99'', hx ''a722922d'', hx ''fa75fc34'', hx ''34ac1d65'', hx ''dfac3fe5'', hx ''cb49e962'']"
  by (simp only: sha_eval hx_simps)

lemma testnet_tx1:
  "Hash256
    [1, 0, 0, 0, 1, 0, 0, 0, 0, 0, 0, 0, 0, 0, 0, 0,
     0, 0, 0, 0, 0, 0, 0, 0, 0, 0, 0, 0, 0, 0, 0, 0,
     0, 0, 0, 0, 0, 0xff, 0xff, 0xff, 0xff, 0x2b, 0x50, 0x61, 0x72, 0x74, 0x68, 0x65,
     0x6e, 0x6f, 0x6e, 0x43, 0x68, 0x61, 0x69, 0x6e, 0x20, 0x54, 0x65, 0x73, 0x74, 0x6e, 0x65, 0x74,
     0x20, 0x47, 0x65, 0x6e, 0x65, 0x73, 0x69, 0x73, 0x20, 0x2d, 0x20, 0x32, 0x30, 0x32, 0x34, 0x2d,
     0x30, 0x31, 0x2d, 0x30, 0x31, 0xff, 0xff, 0xff, 0xff, 0x03, 0, 0, 0xf2, 0x05, 0x2a, 1,
     0, 0, 0, 0x20, 0, 0, 0, 0, 0, 0, 0, 0, 0, 0, 0, 0,
     0, 0, 0, 0, 0, 0, 0, 0, 0, 0, 0, 0, 0, 0, 0, 0,
     0, 0, 0, 0, 1, 0xe0, 0xc5, 0xda, 0x45, 0x02, 0, 0, 0, 0x20, 0, 0,
     0, 0, 0, 0, 0, 0, 0, 0, 0, 0, 0, 0, 0, 0, 0, 0,
     0, 0, 0, 0, 0, 0, 0, 0, 0, 0, 0, 0, 0, 0, 0x02, 0xc0,
     0x99, 0xaf, 0x61, 0x03, 0, 0, 0, 0x20, 0, 0, 0, 0, 0, 0, 0, 0,
     0, 0, 0, 0, 0, 0, 0, 0, 0, 0, 0, 0, 0, 0, 0, 0,
     0, 0, 0, 0, 0, 0, 0, 0, 0, 0, 0, 0]
   = [0xc1, 0xed, 0xe7, 0xec, 0x82, 0x84, 0xbd, 0x9a, 0xfc, 0xff, 0x0e, 0x99, 0xa7, 0x22, 0x92, 0x2d,
     0xfa, 0x75, 0xfc, 0x34, 0x34, 0xac, 0x1d, 0x65, 0xdf, 0xac, 0x3f, 0xe5, 0xcb, 0x49, 0xe9, 0x62]"
  by (subst Hash256_words [where wss = "[[hx ''01000000'', hx ''01000000'', hx ''00000000'', hx ''00000000'', hx ''00000000'', hx ''00000000'', hx ''00000000'', hx ''00000000'',
     hx ''00000000'', hx ''00ffffff'', hx ''ff2b5061'', hx ''72746865'', hx ''6e6f6e43'', hx ''6861696e'', hx ''20546573'', hx ''746e6574''],
     [hx ''2047656e'', hx ''65736973'', hx ''202d2032'', hx ''3032342d'', hx ''30312d30'', hx ''31ffffff'', hx ''ff030000'', hx ''f2052a01'',
     hx ''00000020'', hx ''00000000'', hx ''00000000'', hx ''00000000'', hx ''00000000'', hx ''00000000'', hx ''00000000'', hx ''00000000''],
     [hx ''00000000'', hx ''01e0c5da'', hx ''45020000'', hx ''00200000'', hx ''00000000'', hx ''00000000'', hx ''00000000'', hx ''00000000'',
     hx ''00000000'', hx ''00000000'', hx ''00000000'', hx ''000002c0'', hx ''99af6103'', hx ''00000020'', hx ''00000000'', hx ''00000000''],
     [hx ''00000000'', hx ''00000000'', hx ''00000000'', hx ''00000000'', hx ''00000000'', hx ''00000000'', hx ''00000000'', hx ''80000000'',
     hx ''00000000'', hx ''00000000'', hx ''00000000'', hx ''00000000'', hx ''00000000'', hx ''00000000'', hx ''00000000'', hx ''000006e0'']]"])
     (simp_all add: sha_pad_eval hb_eval bH0_def testnet_tx1_c1 testnet_tx1_c2 testnet_tx1_c3 testnet_tx1_c4)

lemma testnet_tx2_c1:
  "bTransform
    [hx ''6a09e667'', hx ''bb67ae85'', hx ''3c6ef372'', hx ''a54ff53a'', hx ''510e527f'', hx ''9b05688c'', hx ''1f83d9ab'', hx ''5be0cd19'']
    [hx ''c1ede7ec'', hx ''8284bd9a'', hx ''fcff0e99'', hx ''a722922d'', hx ''fa75fc34'', hx ''34ac1d65'', hx ''dfac3fe5'', hx ''cb49e962'',
     hx ''80000000'', hx ''00000000'', hx ''00000000'', hx ''00000000'', hx ''00000000'', hx ''00000000'', hx ''00000000'', hx ''00000100'']
   = [hx ''8bd39bbb'', hx ''0fea7c5a'', hx ''198ee7c8'', hx ''17fa13ac'', hx ''1673fffa'', hx ''d77c7fb5'', hx ''50465d1f'', hx ''34a3e253'']"
  by (simp only: sha_eval hx_simps)

lemma testnet_tx2:
  "Hash256
    [0xc1, 0xed, 0xe7, 0xec, 0x82, 0x84, 0xbd, 0x9a, 0xfc, 0xff, 0x0e, 0x99, 0xa7, 0x22, 0x92, 0x2d,
     0xfa, 0x75, 0xfc, 0x34, 0x34, 0xac, 0x1d, 0x65, 0xdf, 0xac, 0x3f, 0xe5, 0xcb, 0x49, 0xe9, 0x62]
   = [0x8b, 0xd3, 0x9b, 0xbb, 0x0f, 0xea, 0x7c, 0x5a, 0x19, 0x8e, 0xe7, 0xc8, 0x17, 0xfa, 0x13, 0xac,
     0x16, 0x73, 0xff, 0xfa, 0xd7, 0x7c, 0x7f, 0xb5, 0x50, 0x46, 0x5d, 0x1f, 0x34, 0xa3, 0xe2, 0x53]"
  by (subst Hash256_words [where wss = "[[hx ''c1ede7ec'', hx ''8284bd9a'', hx ''fcff0e99'', hx ''a722922d'', hx ''fa75fc34'', hx ''34ac1d65'', hx ''dfac3fe5'', hx ''cb49e962'',
     hx ''80000000'', hx ''00000000'', hx ''00000000'', hx ''00000000'', hx ''00000000'', hx ''00000000'', hx ''00000000'', hx ''00000100'']]"])
     (simp_all add: sha_pad_eval hb_eval bH0_def testnet_tx2_c1)

lemma testnet_coinbase_bytes:
  "Transaction_Serialize (genesis_coinbase (GetGenesisParams TESTNET)) =
    [1, 0, 0, 0, 1, 0, 0, 0, 0, 0, 0, 0, 0, 0, 0, 0,
     0, 0, 0, 0, 0, 0, 0, 0, 0, 0, 0, 0, 0, 0, 0, 0,
     0, 0, 0, 0, 0, 0xff, 0xff, 0xff, 0xff, 0x2b, 0x50, 0x61, 0x72, 0x74, 0x68, 0x65,
     0x6e, 0x6f, 0x6e, 0x43, 0x68, 0x61, 0x69, 0x6e, 0x20, 0x54, 0x65, 0x73, 0x74, 0x6e, 0x65, 0x74,
     0x20, 0x47, 0x65, 0x6e, 0x65, 0x73, 0x69, 0x73, 0x20, 0x2d, 0x20, 0x32, 0x30, 0x32, 0x34, 0x2d,
     0x30, 0x31, 0x2d, 0x30, 0x31, 0xff, 0xff, 0xff, 0xff, 0x03, 0, 0, 0xf2, 0x05, 0x2a, 1,
     0, 0, 0, 0x20, 0, 0, 0, 0, 0, 0, 0, 0, 0, 0, 0, 0,
     0, 0, 0, 0, 0, 0, 0, 0, 0, 0, 0, 0, 0, 0, 0, 0,
     0, 0, 0, 0, 1, 0xe0, 0xc5, 0xda, 0x45, 0x02, 0, 0, 0, 0x20, 0, 0,
     0, 0, 0, 0, 0, 0, 0, 0, 0, 0, 0, 0, 0, 0, 0, 0,
     0, 0, 0, 0, 0, 0, 0, 0, 0, 0, 0, 0, 0, 0, 0x02, 0xc0,
     0x99, 0xaf, 0x61, 0x03, 0, 0, 0, 0x20, 0, 0, 0, 0, 0, 0, 0, 0,
     0, 0, 0, 0, 0, 0, 0, 0, 0, 0, 0, 0, 0, 0, 0, 0,
     0, 0, 0, 0, 0, 0, 0, 0, 0, 0, 0, 0]"
  by (simp add: genesis_eval replicate_numeral_unfold)

lemma testnet_root:
  "GetTxID (genesis_coinbase (GetGenesisParams TESTNET)) =
    [0x8b, 0xd3, 0x9b, 0xbb, 0x0f, 0xea, 0x7c, 0x5a, 0x19, 0x8e, 0xe7, 0xc8, 0x17, 0xfa, 0x13, 0xac,
     0x16, 0x73, 0xff, 0xfa, 0xd7, 0x7c, 0x7f, 0xb5, 0x50, 0x46, 0x5d, 0x1f, 0x34, 0xa3, 0xe2, 0x53]"
  by (simp only: GetTxID_def Hash256d_def testnet_coinbase_bytes testnet_tx1 testnet_tx2)

lemma testnet_hd1_c1:
  "bTransform
    [hx ''6a09e667'', hx ''bb67ae85'', hx ''3c6ef372'', hx ''a54ff53a'', hx ''510e527f'', hx ''9b05688c'', hx ''1f83d9ab'', hx ''5be0cd19'']
    [hx ''01000000'', hx ''00000000'', hx ''00000000'', hx ''00000000'', hx ''00000000'', hx ''00000000'', hx ''00000000'', hx ''00000000'',
     hx ''00000000'', hx ''8bd39bbb'', hx ''0fea7c5a'', hx ''198ee7c8'', hx ''17fa13ac'', hx ''1673fffa'', hx ''d77c7fb5'', hx ''50465d1f'']
   = [hx ''e5efd2b7'', hx ''0d623c86'', hx ''73ea3945'', hx ''0f3a0fe1'', hx ''8e0e84e8'', hx ''c296a379'', hx ''d63ca689'', hx ''19fef657'']"
  by (simp only: sha_eval hx_simps)

lemma testnet_hd1_c2:
  "bTransform
    [hx ''e5efd2b7'', hx ''0d623c86'', hx ''73ea3945'', hx ''0f3a0fe1'', hx ''8e0e84e8'', hx ''c296a379'', hx ''d63ca689'', hx ''19fef657'']
    [hx ''34a3e253'', hx ''80009265'', hx ''ffff7f20'', hx ''00000000'', hx ''00ca9a3b'', hx ''00000000'', hx ''00000000'', hx ''00000000'',
     hx ''80c3c901'', hx ''00000000'', hx ''80000000'', hx ''00000000'', hx ''00000000'', hx ''00000000'', hx ''00000000'', hx ''00000340'']
   = [hx ''833f2fed'', hx ''7ef07437'', hx ''2a936caf'', hx ''bd340128'', hx ''625dffbb'', hx ''90d71945'', hx ''3a032d7a'', hx ''1a1e2433'']"
  by (simp only: sha_eval hx_simps)

lemma testnet_hd1:
  "Hash256
    [1, 0, 0, 0, 0, 0, 0, 0, 0, 0, 0, 0, 0, 0, 0, 0,
     0, 0, 0, 0, 0, 0, 0, 0, 0, 0, 0, 0, 0, 0, 0, 0,
     0, 0, 0, 0, 0x8b, 0xd3, 0x9b, 0xbb, 0x0f, 0xea, 0x7c, 0x5a, 0x19, 0x8e, 0xe7, 0xc8,
     0x17, 0xfa, 0x13, 0xac, 0x16, 0x73, 0xff, 0xfa, 0xd7, 0x7c, 0x7f, 0xb5, 0x50, 0x46, 0x5d, 0x1f,
     0x34, 0xa3, 0xe2, 0x53, 0x80, 0, 0x92, 0x65, 0xff, 0xff, 0x7f, 0x20, 0, 0, 0, 0,
     0, 0xca, 0x9a, 0x3b, 0, 0, 0, 0, 0, 0, 0, 0, 0, 0, 0, 0,
     0x80, 0xc3, 0xc9, 1, 0, 0, 0, 0]
   = [0x83, 0x3f, 0x2f, 0xed, 0x7e, 0xf0, 0x74, 0x37, 0x2a, 0x93, 0x6c, 0xaf, 0xbd, 0x34, 1, 0x28,
     0x62, 0x5d, 0xff, 0xbb, 0x90, 0xd7, 0x19, 0x45, 0x3a, 0x03, 0x2d, 0x7a, 0x1a, 0x1e, 0x24, 0x33]"
  by (subst Hash256_words [where wss = "[[hx ''01000000'', hx ''00000000'', hx ''00000000'', hx ''00000000'', hx ''00000000'', hx ''00000000'', hx ''00000000'', hx ''00000000'',
     hx ''00000000'', hx ''8bd39bbb'', hx ''0fea7c5a'', hx ''198ee7c8'', hx ''17fa13ac'', hx ''1673fffa'', hx ''d77c7fb5'', hx ''50465d1f''],
     [hx ''34a3e253'', hx ''80009265'', hx ''ffff7f20'', hx ''00000000'', hx ''00ca9a3b'', hx ''00000000'', hx ''00000000'', hx ''00000000'',
     hx ''80c3c901'', hx ''00000000'', hx ''80000000'', hx ''00000000'', hx ''00000000'', hx ''00000000'', hx ''00000000'', hx ''00000340'']]"])
     (simp_all add: sha_pad_eval hb_eval bH0_def testnet_hd1_c1 testnet_hd1_c2)

lemma testnet_hd2_c1:
  "bTransform
    [hx ''6a09e667'', hx ''bb67ae85'', hx ''3c6ef372'', hx ''a54ff53a'', hx ''510e527f'', hx ''9b05688c'', hx ''1f83d9ab'', hx ''5be0cd19'']
    [hx ''833f2fed'', hx ''7ef07437'', hx ''2a936caf'', hx ''bd340128'', hx ''625dffbb'', hx ''90d71945'', hx ''3a032d7a'', hx ''1a1e2433'',
     hx ''80000000'', hx ''00000000'', hx ''00000000'', hx ''00000000'', hx ''00000000'', hx ''00000000'', hx ''00000000'', hx ''00000100'']
   = [hx ''fe739e3c'', hx ''1e27509a'', hx ''9c7d2260'', hx ''e39438f1'', hx ''ff1c44dc'', hx ''03a6309e'', hx ''68737b2c'', hx ''c62c3875'']"
  by (simp only: sha_eval hx_simps)

lemma testnet_hd2:
  "Hash256
    [0x83, 0x3f, 0x2f, 0xed, 0x7e, 0xf0, 0x74, 0x37, 0x2a, 0x93, 0x6c, 0xaf, 0xbd, 0x34, 1, 0x28,
     0x62, 0x5d, 0xff, 0xbb, 0x90, 0xd7, 0x19, 0x45, 0x3a, 0x03, 0x2d, 0x7a, 0x1a, 0x1e, 0x24, 0x33]
   = [0xfe, 0x73, 0x9e, 0x3c, 0x1e, 0x27, 0x50, 0x9a, 0x9c, 0x7d, 0x22, 0x60, 0xe3, 0x94, 0x38, 0xf1,
     0xff, 0x1c, 0x44, 0xdc, 0x03, 0xa6, 0x30, 0x9e, 0x68, 0x73, 0x7b, 0x2c, 0xc6, 0x2c, 0x38, 0x75]"
  by (subst Hash256_words [where wss = "[[hx ''833f2fed'', hx ''7ef07437'', hx ''2a936caf'', hx ''bd340128'', hx ''625dffbb'', hx ''90d71945'', hx ''3a032d7a'', hx ''1a1e2433'',
     hx ''80000000'', hx ''00000000'', hx ''00000000'', hx ''00000000'', hx ''00000000'', hx ''00000000'', hx ''00000000'', hx ''00000100'']]"])
     (simp_all add: sha_pad_eval hb_eval bH0_def testnet_hd2_c1)

lemma testnet_header_bytes:
  "BlockHeader_Serialize (header (GetGenesisBlock TESTNET)) =
    [1, 0, 0, 0, 0, 0, 0, 0, 0, 0, 0, 0, 0, 0, 0, 0,
     0, 0, 0, 0, 0, 0, 0, 0, 0, 0, 0, 0, 0, 0, 0, 0,
     0, 0, 0, 0, 0x8b, 0xd3, 0x9b, 0xbb, 0x0f, 0xea, 0x7c, 0x5a, 0x19, 0x8e, 0xe7, 0xc8,
     0x17, 0xfa, 0x13, 0xac, 0x16, 0x73, 0xff, 0xfa, 0xd7, 0x7c, 0x7f, 0xb5, 0x50, 0x46, 0x5d, 0x1f,
     0x34, 0xa3, 0xe2, 0x53, 0x80, 0, 0x92, 0x65, 0xff, 0xff, 0x7f, 0x20, 0, 0, 0, 0,
     0, 0xca, 0x9a, 0x3b, 0, 0, 0, 0, 0, 0, 0, 0, 0, 0, 0, 0,
     0x80, 0xc3, 0xc9, 1, 0, 0, 0, 0]"
  by (simp add: genesis_header_eval testnet_root replicate_numeral_unfold)

lemma testnet_hash:
  "Block_GetHash (GetGenesisBlock TESTNET) =
    [0xfe, 0x73, 0x9e, 0x3c, 0x1e, 0x27, 0x50, 0x9a, 0x9c, 0x7d, 0x22, 0x60, 0xe3, 0x94, 0x38, 0xf1,
     0xff, 0x1c, 0x44, 0xdc, 0x03, 0xa6, 0x30, 0x9e, 0x68, 0x73, 0x7b, 0x2c, 0xc6, 0x2c, 0x38, 0x75]"
  by (simp only: Block_GetHash_def BlockHeader_GetHash_def Hash256d_def testnet_header_bytes testnet_hd1 testnet_hd2)

lemma regtest_tx1_c1:
  "bTransform
    [hx ''6a09e667'', hx ''bb67ae85'', hx ''3c6ef372'', hx ''a54ff53a'', hx ''510e527f'', hx ''9b05688c'', hx ''1f83d9ab'', hx ''5be0cd19'']
    [hx ''01000000'', hx ''01000000'', hx ''00000000'', hx ''00000000'', hx ''00000000'', hx ''00000000'', hx ''00000000'', hx ''00000000'',
     hx ''00000000'', hx ''00ffffff'', hx ''ff1e5061'', hx ''72746865'', hx ''6e6f6e43'', hx ''6861696e'', hx ''20526567'', hx ''74657374'']
   = [hx ''c6f83cea'', hx ''5d36a356'', hx ''442605a8'', hx ''f4f37da2'', hx ''47597511'', hx ''b4dc9f26'', hx ''ba79df13'', hx ''fbd2a3e6'']"
  by (simp only: sha_eval hx_simps)

lemma regtest_tx1_c2:
  "bTransform
    [hx ''c6f83cea'', hx ''5d36a356'', hx ''442605a8'', hx ''f4f37da2'', hx ''47597511'', hx ''b4dc9f26'', hx ''ba79df13'', hx ''fbd2a3e6'']
    [hx ''2047656e'', hx ''65736973'', hx ''ffffffff'', hx ''030000f2'', hx ''052a0100'', hx ''00002000'', hx ''00000000'', hx ''00000000'',
     hx ''00000000'', hx ''00000000'', hx ''00000000'', hx ''00000000'', hx ''00000000'', hx ''00000001'', hx ''e0c5da45'', hx ''02000000'']
   = [hx ''7a26d27a'', hx ''2d1f2561'', hx ''6623f6dd'', hx ''c0c33109'', hx ''aaaa57b5'', hx ''85453ba1'', hx ''eebd2158'', hx ''608eb338'']"
  by (simp only: sha_eval hx_simps)

lemma regtest_tx1_c3:
  "bTransform
    [hx ''7a26d27a'', hx ''2d1f2561'', hx ''6623f6dd'', hx ''c0c33109'', hx ''aaaa57b5'', hx ''85453ba1'', hx ''eebd2158'', hx ''608eb338'']
    [hx ''20000000'', hx ''00000000'', hx ''00000000'', hx ''00000000'', hx ''00000000'', hx ''00000000'', hx ''00000000'', hx ''00000000'',
     hx ''0002c099'', hx ''af610300'', hx ''00002000'', hx ''00000000'', hx ''00000000'', hx ''00000000'', hx ''00000000'', hx ''00000000'']
   = [hx ''d17f79b8'', hx ''166a718d'', hx ''a67f30ef'', hx ''1e4807a0'', hx ''b36676b9'', hx ''deb6235a'', hx ''996142fa'', hx ''c2df59ea'']"
  by (simp only: sha_eval hx_simps)

lemma regtest_tx1_c4:
  "bTransform
    [hx ''d17f79b8'', hx ''166a718d'', hx ''a67f30ef'', hx ''1e4807a0'', hx ''b36676b9'', hx ''deb6235a'', hx ''996142fa'', hx ''c2df59ea'']
    [hx ''00000000'', hx ''00000000'', hx ''00000000'', hx ''00000080'', hx ''00000000'', hx ''00000000'', hx ''00000000'', hx ''00000000'',
     hx ''00000000'', hx ''00000000'', hx ''00000000'', hx ''00000000'', hx ''00000000'', hx ''00000000'', hx ''00000000'', hx ''00000678'']
   = [hx ''6d9fcf94'', hx ''e6ebda32'', hx ''2b7f3f23'', hx ''f165d6c6'', hx ''034a6cbe'', hx ''64e0b235'', hx ''d71bd7ce'', hx ''95917286'']"
  by (simp only: sha_eval hx_simps)

lemma regtest_tx1:
  "Hash256
    [1, 0, 0, 0, 1, 0, 0, 0, 0, 0, 0, 0, 0, 0, 0, 0,
     0, 0, 0, 0, 0, 0, 0, 0, 0, 0, 0, 0, 0, 0, 0, 0,
     0, 0, 0, 0, 0, 0xff, 0xff, 0xff, 0xff, 0x1e, 0x50, 0x61, 0x72, 0x74, 0x68, 0x65,
     0x6e, 0x6f, 0x6e, 0x43, 0x68, 0x61, 0x69, 0x6e, 0x20, 0x52, 0x65, 0x67, 0x74, 0x65, 0x73, 0x74,
     0x20, 0x47, 0x65, 0x6e, 0x65, 0x73, 0x69, 0x73, 0xff, 0xff, 0xff, 0xff, 0x03, 0, 0, 0xf2,
     0x05, 0x2a, 1, 0, 0, 0, 0x20, 0, 0, 0, 0, 0, 0, 0, 0, 0,
     0, 0, 0, 0, 0, 0, 0, 0, 0, 0, 0, 0, 0, 0, 0, 0,
     0, 0, 0, 0, 0, 0, 0, 1, 0xe0, 0xc5, 0xda, 0x45, 0x02, 0, 0, 0,
     0x20, 0, 0, 0, 0, 0, 0, 0, 0, 0, 0, 0, 0, 0, 0, 0,
     0, 0, 0, 0, 0, 0, 0, 0, 0, 0, 0, 0, 0, 0, 0, 0,
     0, 0x02, 0xc0, 0x99, 0xaf, 0x61, 0x03, 0, 0, 0, 0x20, 0, 0, 0, 0, 0,
     0, 0, 0, 0, 0, 0, 0, 0, 0, 0, 0, 0, 0, 0, 0, 0,
     0, 0, 0, 0, 0, 0, 0, 0, 0, 0, 0, 0, 0, 0, 0]
   = [0x6d, 0x9f, 0xcf, 0x94, 0xe6, 0xeb, 0xda, 0x32, 0x2b, 0x7f, 0x3f, 0x23, 0xf1, 0x65, 0xd6, 0xc6,
     0x03, 0x4a, 0x6c, 0xbe, 0x64, 0xe0, 0xb2, 0x35, 0xd7, 0x1b, 0xd7, 0xce, 0x95, 0x91, 0x72, 0x86]"
  by (subst Hash256_words [where wss = "[[hx ''01000000'', hx ''01000000'', hx ''00000000'', hx ''00000000'', hx ''00000000'', hx ''00000000'', hx ''00000000'', hx ''00000000'',
     hx ''00000000'', hx ''00ffffff'', hx ''ff1e5061'', hx ''72746865'', hx ''6e6f6e43'', hx ''6861696e'', hx ''20526567'', hx ''74657374''],
     [hx ''2047656e'', hx ''65736973'', hx ''ffffffff'', hx ''030000f2'', hx ''052a0100'', hx ''00002000'', hx ''00000000'', hx ''00000000'',
     hx ''00000000'', hx ''00000000'', hx ''00000000'', hx ''00000000'', hx ''00000000'', hx ''00000001'', hx ''e0c5da45'', hx ''02000000''],
     [hx ''20000000'', hx ''00000000'', hx ''00000000'', hx ''00000000'', hx ''00000000'', hx ''00000000'', hx ''00000000'', hx ''00000000'',
     hx ''0002c099'', hx ''af610300'', hx ''00002000'', hx ''00000000'', hx ''00000000'', hx ''00000000'', hx ''00000000'', hx ''00000000''],
     [hx ''00000000'', hx ''00000000'', hx ''00000000'', hx ''00000080'', hx ''00000000'', hx ''00000000'', hx ''00000000'', hx ''00000000'',
     hx ''00000000'', hx ''00000000'', hx ''00000000'', hx ''00000000'', hx ''00000000'', hx ''00000000'', hx ''00000000'', hx ''00000678'']]"])
     (simp_all add: sha_pad_eval hb_eval bH0_def regtest_tx1_c1 regtest_tx1_c2 regtest_tx1_c3 regtest_tx1_c4)

lemma regtest_tx2_c1:
  "bTransform
    [hx ''6a09e667'', hx ''bb67ae85'', hx ''3c6ef372'', hx ''a54ff53a'', hx ''510e527f'', hx ''9b05688c'', hx ''1f83d9ab'', hx ''5be0cd19'']
    [hx ''6d9fcf94'', hx ''e6ebda32'', hx ''2b7f3f23'', hx ''f165d6c6'', hx ''034a6cbe'', hx ''64e0b235'', hx ''d71bd7ce'', hx ''95917286'',
     hx ''80000000'', hx ''00000000'', hx ''00000000'', hx ''00000000'', hx ''00000000'', hx ''00000000'', hx ''00000000'', hx ''00000100'']
   = [hx ''f7764f8c'', hx ''c99d5727'', hx ''da848a64'', hx ''22f65e5b'', hx ''21b08c04'', hx ''ed9922f2'', hx ''a38af2b9'', hx ''8668f8d5'']"
  by (simp only: sha_eval hx_simps)

lemma regtest_tx2:
  "Hash256
    [0x6d, 0x9f, 0xcf, 0x94, 0xe6, 0xeb, 0xda, 0x32, 0x2b, 0x7f, 0x3f, 0x23, 0xf1, 0x65, 0xd6, 0xc6,
     0x03, 0x4a, 0x6c, 0xbe, 0x64, 0xe0, 0xb2, 0x35, 0xd7, 0x1b, 0xd7, 0xce, 0x95, 0x91, 0x72, 0x86]
   = [0xf7, 0x76, 0x4f, 0x8c, 0xc9, 0x9d, 0x57, 0x27, 0xda, 0x84, 0x8a, 0x64, 0x22, 0xf6, 0x5e, 0x5b,
     0x21, 0xb0, 0x8c, 0x04, 0xed, 0x99, 0x22, 0xf2, 0xa3, 0x8a, 0xf2, 0xb9, 0x86, 0x68, 0xf8, 0xd5]"
  by (subst Hash256_words [where wss = "[[hx ''6d9fcf94'', hx ''e6ebda32'', hx ''2b7f3f23'', hx ''f165d6c6'', hx ''034a6cbe'', hx ''64e0b235'', hx ''d71bd7ce'', hx ''95917286'',
     hx ''80000000'', hx ''00000000'', hx ''00000000'', hx ''00000000'', hx ''00000000'', hx ''00000000'', hx ''00000000'', hx ''00000100'']]"])
     (simp_all add: sha_pad_eval hb_eval bH0_def regtest_tx2_c1)

lemma regtest_coinbase_bytes:
  "Transaction_Serialize (genesis_coinbase (GetGenesisParams REGTEST)) =
    [1, 0, 0, 0, 1, 0, 0, 0, 0, 0, 0, 0, 0, 0, 0, 0,
     0, 0, 0, 0, 0, 0, 0, 0, 0, 0, 0, 0, 0, 0, 0, 0,
     0, 0, 0, 0, 0, 0xff, 0xff, 0xff, 0xff, 0x1e, 0x50, 0x61, 0x72, 0x74, 0x68, 0x65,
     0x6e, 0x6f, 0x6e, 0x43, 0x68, 0x61, 0x69, 0x6e, 0x20, 0x52, 0x65, 0x67, 0x74, 0x65, 0x73, 0x74,
     0x20, 0x47, 0x65, 0x6e, 0x65, 0x73, 0x69, 0x73, 0xff, 0xff, 0xff, 0xff, 0x03, 0, 0, 0xf2,
     0x05, 0x2a, 1, 0, 0, 0, 0x20, 0, 0, 0, 0, 0, 0, 0, 0, 0,
     0, 0, 0, 0, 0, 0, 0, 0, 0, 0, 0, 0, 0, 0, 0, 0,
     0, 0, 0, 0, 0, 0, 0, 1, 0xe0, 0xc5, 0xda, 0x45, 0x02, 0, 0, 0,
     0x20, 0, 0, 0, 0, 0, 0, 0, 0, 0, 0, 0, 0, 0, 0, 0,
     0, 0, 0, 0, 0, 0, 0, 0, 0, 0, 0, 0, 0, 0, 0, 0,
     0, 0x02, 0xc0, 0x99, 0xaf, 0x61, 0x03, 0, 0, 0, 0x20, 0, 0, 0, 0, 0,
     0, 0, 0, 0, 0, 0, 0, 0, 0, 0, 0, 0, 0, 0, 0, 0,
     0, 0, 0, 0, 0, 0, 0, 0, 0, 0, 0, 0, 0, 0, 0]"
  by (simp add: genesis_eval replicate_numeral_unfold)

lemma regtest_root:
  "GetTxID (genesis_coinbase (GetGenesisParams REGTEST)) =
    [0xf7, 0x76, 0x4f, 0x8c, 0xc9, 0x9d, 0x57, 0x27, 0xda, 0x84, 0x8a, 0x64, 0x22, 0xf6, 0x5e, 0x5b,
     0x21, 0xb0, 0x8c, 0x04, 0xed, 0x99, 0x22, 0xf2, 0xa3, 0x8a, 0xf2, 0xb9, 0x86, 0x68, 0xf8, 0xd5]"
  by (simp only: GetTxID_def Hash256d_def regtest_coinbase_bytes regtest_tx1 regtest_tx2)

lemma regtest_hd1_c1:
  "bTransform
    [hx ''6a09e667'', hx ''bb67ae85'', hx ''3c6ef372'', hx ''a54ff53a'', hx ''510e527f'', hx ''9b05688c'', hx ''1f83d9ab'', hx ''5be0cd19'']
    [hx ''01000000'', hx ''00000000'', hx ''00000000'', hx ''00000000'', hx ''00000000'', hx ''00000000'', hx ''00000000'', hx ''00000000'',
     hx ''00000000'', hx ''f7764f8c'', hx ''c99d5727'', hx ''da848a64'', hx ''22f65e5b'', hx ''21b08c04'', hx ''ed9922f2'', hx ''a38af2b9'']
   = [hx ''07a19ed0'', hx ''d3f858f9'', hx ''ce994658'', hx ''846140bb'', hx ''48eb77f9'', hx ''a53a3ce8'', hx ''e27183a1'', hx ''c845120f'']"
  by (simp only: sha_eval hx_simps)

lemma regtest_hd1_c2:
  "bTransform
    [hx ''07a19ed0'', hx ''d3f858f9'', hx ''ce994658'', hx ''846140bb'', hx ''48eb77f9'', hx ''a53a3ce8'', hx ''e27183a1'', hx ''c845120f'']
    [hx ''8668f8d5'', hx ''80009265'', hx ''ffff7f20'', hx ''00000000'', hx ''00ca9a3b'', hx ''00000000'', hx ''00000000'', hx ''00000000'',
     hx ''80c3c901'', hx ''00000000'', hx ''80000000'', hx ''00000000'', hx ''00000000'', hx ''00000000'', hx ''00000000'', hx ''00000340'']
   = [hx ''31a19ce5'', hx ''25d9b086'', hx ''65f02075'', hx ''b3ab22b9'', hx ''43beddc2'', hx ''8f83e56e'', hx ''0f060825'', hx ''5612ec21'']"
  by (simp only: sha_eval hx_simps)

lemma regtest_hd1:
  "Hash256
    [1, 0, 0, 0, 0, 0, 0, 0, 0, 0, 0, 0, 0, 0, 0, 0,
     0, 0, 0, 0, 0, 0, 0, 0, 0, 0, 0, 0, 0, 0, 0, 0,
     0, 0, 0, 0, 0xf7, 0x76, 0x4f, 0x8c, 0xc9, 0x9d, 0x57, 0x27, 0xda, 0x84, 0x8a, 0x64,
     0x22, 0xf6, 0x5e, 0x5b, 0x21, 0xb0, 0x8c, 0x04, 0xed, 0x99, 0x22, 0xf2, 0xa3, 0x8a, 0xf2, 0xb9,
     0x86, 0x68, 0xf8, 0xd5, 0x80, 0, 0x92, 0x65, 0xff, 0xff, 0x7f, 0x20, 0, 0, 0, 0,
     0, 0xca, 0x9a, 0x3b, 0, 0, 0, 0, 0, 0, 0, 0, 0, 0, 0, 0,
     0x80, 0xc3, 0xc9, 1, 0, 0, 0, 0]
   = [0x31, 0xa1, 0x9c, 0xe5, 0x25, 0xd9, 0xb0, 0x86, 0x65, 0xf0, 0x20, 0x75, 0xb3, 0xab, 0x22, 0xb9,
     0x43, 0xbe, 0xdd, 0xc2, 0x8f, 0x83, 0xe5, 0x6e, 0x0f, 0x06, 0x08, 0x25, 0x56, 0x12, 0xec, 0x21]"
  by (subst Hash256_words [where wss = "[[hx ''01000000'', hx ''00000000'', hx ''00000000'', hx ''00000000'', hx ''00000000'', hx ''00000000'', hx ''00000000'', hx ''00000000'',
     hx ''00000000'', hx ''f7764f8c'', hx ''c99d5727'', hx ''da848a64'', hx ''22f65e5b'', hx ''21b08c04'', hx ''ed9922f2'', hx ''a38af2b9''],
     [hx ''8668f8d5'', hx ''80009265'', hx ''ffff7f20'', hx ''00000000'', hx ''00ca9a3b'', hx ''00000000'', hx ''00000000'', hx ''00000000'',
     hx ''80c3c901'', hx ''00000000'', hx ''80000000'', hx ''00000000'', hx ''00000000'', hx ''00000000'', hx ''00000000'', hx ''00000340'']]"])
     (simp_all add: sha_pad_eval hb_eval bH0_def regtest_hd1_c1 regtest_hd1_c2)

lemma regtest_hd2_c1:
  "bTransform
    [hx ''6a09e667'', hx ''bb67ae85'', hx ''3c6ef372'', hx ''a54ff53a'', hx ''510e527f'', hx ''9b05688c'', hx ''1f83d9ab'', hx ''5be0cd19'']
    [hx ''31a19ce5'', hx ''25d9b086'', hx ''65f02075'', hx ''b3ab22b9'', hx ''43beddc2'', hx ''8f83e56e'', hx ''0f060825'', hx ''5612ec21'',
     hx ''80000000'', hx ''00000000'', hx ''00000000'', hx ''00000000'', hx ''00000000'', hx ''00000000'', hx ''00000000'', hx ''00000100'']
   = [hx ''f85d0bad'', hx ''36afae82'', hx ''ec8b2c60'', hx ''a9587ab2'', hx ''d36581b4'', hx ''ea31a108'', hx ''b7ccfefb'', hx ''9776bc15'']"
  by (simp only: sha_eval hx_simps)

lemma regtest_hd2:
  "Hash256
    [0x31, 0xa1, 0x9c, 0xe5, 0x25, 0xd9, 0xb0, 0x86, 0x65, 0xf0, 0x20, 0x75, 0xb3, 0xab, 0x22, 0xb9,
     0x43, 0xbe, 0xdd, 0xc2, 0x8f, 0x83, 0xe5, 0x6e, 0x0f, 0x06, 0x08, 0x25, 0x56, 0x12, 0xec, 0x21]
   = [0xf8, 0x5d, 0x0b, 0xad, 0x36, 0xaf, 0xae, 0x82, 0xec, 0x8b, 0x2c, 0x60, 0xa9, 0x58, 0x7a, 0xb2,
     0xd3, 0x65, 0x81, 0xb4, 0xea, 0x31, 0xa1, 0x08, 0xb7, 0xcc, 0xfe, 0xfb, 0x97, 0x76, 0xbc, 0x15]"
  by (subst Hash256_words [where wss = "[[hx ''31a19ce5'', hx ''25d9b086'', hx ''65f02075'', hx ''b3ab22b9'', hx ''43beddc2'', hx ''8f83e56e'', hx ''0f060825'', hx ''5612ec21'',
     hx ''80000000'', hx ''00000000'', hx ''00000000'', hx ''00000000'', hx ''00000000'', hx ''00000000'', hx ''00000000'', hx ''00000100'']]"])
     (simp_all add: sha_pad_eval hb_eval bH0_def regtest_hd2_c1)

lemma regtest_header_bytes:
  "BlockHeader_Serialize (header (GetGenesisBlock REGTEST)) =
    [1, 0, 0, 0, 0, 0, 0, 0, 0, 0, 0, 0, 0, 0, 0, 0,
     0, 0, 0, 0, 0, 0, 0, 0, 0, 0, 0, 0, 0, 0, 0, 0,
     0, 0, 0, 0, 0xf7, 0x76, 0x4f, 0x8c, 0xc9, 0x9d, 0x57, 0x27, 0xda, 0x84, 0x8a, 0x64,
     0x22, 0xf6, 0x5e, 0x5b, 0x21, 0xb0, 0x8c, 0x04, 0xed, 0x99, 0x22, 0xf2, 0xa3, 0x8a, 0xf2, 0xb9,
     0x86, 0x68, 0xf8, 0xd5, 0x80, 0, 0x92, 0x65, 0xff, 0xff, 0x7f, 0x20, 0, 0, 0, 0,
     0, 0xca, 0x9a, 0x3b, 0, 0, 0, 0, 0, 0, 0, 0, 0, 0, 0, 0,
     0x80, 0xc3, 0xc9, 1, 0, 0, 0, 0]"
  by (simp add: genesis_header_eval regtest_root replicate_numeral_unfold)

lemma regtest_hash:
  "Block_GetHash (GetGenesisBlock REGTEST) =
    [0xf8, 0x5d, 0x0b, 0xad, 0x36, 0xaf, 0xae, 0x82, 0xec, 0x8b, 0x2c, 0x60, 0xa9, 0x58, 0x7a, 0xb2,
     0xd3, 0x65, 0x81, 0xb4, 0xea, 0x31, 0xa1, 0x08, 0xb7, 0xcc, 0xfe, 0xfb, 0x97, 0x76, 0xbc, 0x15]"
  by (simp only: Block_GetHash_def BlockHeader_GetHash_def Hash256d_def regtest_header_bytes regtest_hd1 regtest_hd2)

subsection \<open>Properties\<close>

lemma easy_target_top: "CompactToBits256 0x207fffff ! 31 = 0x7f"
  by (simp add: CompactToBits256_def Let_def)

lemma easy_pow:
  assumes "hash ! 31 < 0x7f"
  shows "CheckProofOfWork hash 0x207fffff"
proof -
  have "Compare256_from (Suc 31) hash (CompactToBits256 0x207fffff) = - 1"
    using assms unfolding Compare256_from.simps easy_target_top by simp
  then show ?thesis by (simp add: CheckProofOfWork_def Compare256_def Let_def)
qed

lemma genesis_pow: "CheckProofOfWork (GetExpectedGenesisHash n) 0x207fffff"
  by (rule easy_pow) (cases n; simp add: expected_hash_defs)

lemma genesis_hash: "Block_GetHash (GetGenesisBlock n) = GetExpectedGenesisHash n"
  by (cases n) (simp_all add: mainnet_hash testnet_hash regtest_hash expected_hash_defs)

lemma genesis_coinbase_ok:
  "IsCoinbase (genesis_coinbase p)" "inputs (genesis_coinbase p) \<noteq> []"
  by (simp_all add: genesis_coinbase_def IsCoinbase_def Let_def)

lemma genesis_txs: "transactions (GetGenesisBlock n) = [genesis_coinbase (GetGenesisParams n)]"
  by (simp add: GetGenesisBlock_def Let_def)

lemma genesis_outputs:
  "map out_value (outputs (genesis_coinbase (GetGenesisParams n))) =
     [\<lparr>asset_id = TALANTON, asset_amount = 5000000000\<rparr>, \<lparr>asset_id = DRACHMA, asset_amount = 9761900000\<rparr>,
      \<lparr>asset_id = OBOLOS, asset_amount = 14523800000\<rparr>]"
  by (cases n) (simp_all add: genesis_coinbase_def GetGenesisParams_def Let_def kTalantonGenesis_def
      kDrachmaGenesis_def kObolosGenesis_def supply_defs)

lemma genesis_valid: "Block_IsValid (GetGenesisBlock n)"
proof -
  let ?cb = "genesis_coinbase (GetGenesisParams n)"
  have "\<forall>v \<in> set (outputs ?cb). pubkey_script v \<noteq> []"
    by (simp add: genesis_coinbase_def Let_def)
  moreover have "\<forall>v \<in> set (map out_value (outputs ?cb)). AssetAmount_IsValid v"
    unfolding genesis_outputs by (simp add: AssetAmount_IsValid_def IsValidAmount_def)
  moreover have "outputs ?cb \<noteq> []" using arg_cong [OF genesis_outputs [of n], of length] by auto
  ultimately have "Transaction_IsValid ?cb"
    using genesis_coinbase_ok by (simp add: Transaction_IsValid_def TxOutput_IsValid_def list_all_iff)
  moreover have "CalculateMerkleRoot (GetGenesisBlock n) = merkle_root (header (GetGenesisBlock n))"
    by (simp add: CalculateMerkleRoot_def CalculateRoot_txs_def CalculateRoot_def genesis_txs genesis_header)
  moreover have "MeetsDifficultyTarget (header (GetGenesisBlock n))"
    using genesis_pow [of n] genesis_hash [of n]
    by (simp add: MeetsDifficultyTarget_def Let_def Block_GetHash_def genesis_header genesis_params_simps)
  ultimately show ?thesis
    using genesis_coinbase_ok by (simp add: Block_IsValid_def genesis_txs)
qed

lemma genesis_amounts:
  "sum_amounts (map out_value (outputs (genesis_coinbase (GetGenesisParams n))))
     = [(TALANTON, 5000000000), (DRACHMA, 9761900000), (OBOLOS, 14523800000)]"
  unfolding genesis_outputs by (simp add: sum_amounts_def)

lemma genesis_rejected: "\<not> fst (check_coinbase 1 supply (sum_amounts (map out_value (outputs (genesis_coinbase (GetGenesisParams n))))))"
  unfolding genesis_amounts
  by (simp add: IsValidBlockReward_iff GetBlockReward_def start_height_def supply_defs Let_def)

text \<open>
  C6. The three hard-coded genesis hashes are the double SHA-256 of the headers the code builds
  (evaluated in the kernel), and each genesis block passes the structural check, proof of work
  included, and is recognised as the expected one.
\<close>

theorem genesis_hashes_match:
  "GetGenesisHash n = GetExpectedGenesisHash n \<and> Block_IsValid (GetGenesisBlock n)
   \<and> IsExpectedGenesisBlock (GetGenesisBlock n) n"
  using genesis_hash [of n] genesis_valid [of n] genesis_coinbase_ok
  by (simp add: GetGenesisHash_def IsExpectedGenesisBlock_def Let_def genesis_txs)

lemma genesis_not_connected: "\<not> fst (ConnectBlock Chain_init (GetGenesisBlock n) undo)"
  using genesis_rejected [of "total_supply Chain_init" n] genesis_coinbase_ok
  by (auto simp: ConnectBlock_def Let_def genesis_txs Chain_init_def split: prod.splits)

text \<open>
  The genesis block of every network is refused by \<open>ConnectBlock\<close> on the empty chain: its
  coinbase pays DRACHMA and OBOLOS, whose reward at height 1 is 0. (The node stores it as block 1
  and connects it at start-up.)
\<close>

theorem genesis_not_connectable: "\<not> fst (ConnectBlock Chain_init (GetGenesisBlock n) undo)"
  by (rule genesis_not_connected)

end
