(* ===== verification/ChainState.thy ===== *)
theory ChainState
  imports Chain
begin

section \<open>The light chain state\<close>

text \<open>
  Models \<open>layer1-talanton/core/chainstate/chainstate.h\<close> and \<open>chainstate.cpp\<close>: height, tip and
  supplies without a UTXO set, which the node keeps beside its \<open>Chain\<close>. \<open>total_supply_.at(asset)\<close>
  throws for an asset that is not a key: \<open>Inl OutOfRange\<close>.
\<close>

record ChainState =
  cs_height :: u64
  cs_tip_hash :: bytes
  cs_total_supply :: amounts

definition ChainState_init :: ChainState where
  "ChainState_init =
     \<lparr>cs_height = 0, cs_tip_hash = zero_hash,
      cs_total_supply = [(TALANTON, 0), (DRACHMA, 0), (OBOLOS, 0)]\<rparr>"

definition ChainState_GetTotalSupply :: "ChainState \<Rightarrow> AssetID \<Rightarrow> u64" where
  "ChainState_GetTotalSupply s asset = amount_at (cs_total_supply s) asset"

text \<open>The sums; a missing key is first set to 0.\<close>

definition GetCoinbaseOutputs :: "Transaction \<Rightarrow> amounts" where
  "GetCoinbaseOutputs coinbase =
     foldl (\<lambda>outs v.
              let asset = asset_id v; amount = asset_amount v;
                  outs = (if map_of outs asset = None then amount_add asset 0 outs else outs)
              in amount_add asset amount outs)
       [] (map out_value (outputs coinbase))"

fun cs_check_coinbase :: "u64 \<Rightarrow> amounts \<Rightarrow> (AssetID \<times> u64) list \<Rightarrow> cpp_error + bool" where
  "cs_check_coinbase block_height supply [] = Inr True"
| "cs_check_coinbase block_height supply ((asset, amount) # rest) =
     (if \<not> IsValidBlockReward block_height asset amount then Inr False
      else case map_of supply asset of
        None \<Rightarrow> Inl OutOfRange
      | Some current_supply \<Rightarrow>
          let max_supply = GetMaxSupply asset in
          if current_supply + amount < current_supply then Inr False
          else let new_supply = current_supply + amount in
            if new_supply > max_supply then Inr False
            else cs_check_coinbase block_height supply rest)"

definition ChainState_ValidateBlock :: "ChainState \<Rightarrow> Block \<Rightarrow> cpp_error + bool" where
  "ChainState_ValidateBlock s block =
     (if \<not> Block_IsValid block then Inr False
      else if transactions block = [] then Inr False
      else
        let coinbase = transactions block ! 0 in
        if \<not> IsCoinbase coinbase then Inr False
        else if (if cs_height s = 0 then prev_block_hash (header block) \<noteq> zero_hash
                 else prev_block_hash (header block) \<noteq> cs_tip_hash s) then Inr False
        else
          case cs_check_coinbase (cs_height s + 1) (cs_total_supply s) (GetCoinbaseOutputs coinbase) of
            Inl e \<Rightarrow> Inl e
          | Inr ok \<Rightarrow>
              if \<not> ok then Inr False
              else if \<not> CheckProofOfWork (Block_GetHash block) (bits (header block)) then Inr False
              else Inr True)"

definition ApplyBlock :: "ChainState \<Rightarrow> Block \<Rightarrow> (cpp_error + bool) \<times> ChainState" where
  "ApplyBlock s block =
     (case ChainState_ValidateBlock s block of
        Inl e \<Rightarrow> (Inl e, s)
      | Inr ok \<Rightarrow>
          if \<not> ok then (Inr False, s)
          else
            let coinbase_outputs = GetCoinbaseOutputs (transactions block ! 0) in
            (Inr True,
             \<lparr>cs_height = cs_height s + 1, cs_tip_hash = Block_GetHash block,
              cs_total_supply =
                foldl (\<lambda>m (asset, amount). amount_add asset amount m) (cs_total_supply s)
                  coinbase_outputs\<rparr>))"

definition ChainState_Reset :: "ChainState \<Rightarrow> ChainState" where
  "ChainState_Reset s =
     \<lparr>cs_height = 0, cs_tip_hash = zero_hash,
      cs_total_supply =
        amount_reset OBOLOS (amount_reset DRACHMA (amount_reset TALANTON (cs_total_supply s)))\<rparr>"

subsection \<open>Its sums and checks are the chain's\<close>

lemma amount_add_zero_add: "amount_add k v (amount_add k 0 m) = amount_add k v m"
  by (induction k v m rule: amount_add.induct) auto

lemma GetCoinbaseOutputs_eq [simp]: "GetCoinbaseOutputs cb = sum_amounts (map out_value (outputs cb))"
  unfolding GetCoinbaseOutputs_def sum_amounts_def
  by (rule arg_cong [where f = "\<lambda>f. foldl f [] (map out_value (outputs cb))"])
     (auto simp: fun_eq_iff Let_def amount_add_zero_add)

definition known_assets :: "amounts \<Rightarrow> bool" where
  "known_assets m \<longleftrightarrow> fst ` set m = {TALANTON, DRACHMA, OBOLOS}"

lemma map_of_known: "a \<in> fst ` set m \<Longrightarrow> map_of m a = Some (amount_at m a)"
  by (cases "map_of m a") (auto simp: amount_at_def map_of_eq_None_iff)

text \<open>On known assets the two coinbase checks give the same answer.\<close>

lemma cs_check_coinbase_eq:
  assumes "amounts_inv supply" and "amounts_inv supply'" and "amount_at supply = amount_at supply'"
    and "fst ` set cs \<subseteq> fst ` set supply'" and "h' = ucast h"
  shows "cs_check_coinbase h' supply' cs = Inr (fst (check_coinbase h supply cs))"
  using assms
proof (induction h "supply" cs rule: check_coinbase.induct)
  case (2 h s a v rest)
  have at: "amount_at (amount_add a 0 s) = amount_at s" using 2(2) by (auto simp: fun_eq_iff)
  have m: "map_of supply' a = Some (amount_at s a)" using map_of_known [of a supply'] 2(4,5) by simp
  have rest: "cs_check_coinbase h' supply' rest = Inr (fst (check_coinbase h (amount_add a 0 s) rest))"
    if "IsValidBlockReward (ucast h) a v" "\<not> amount_at s a + v < amount_at s a"
      "\<not> GetMaxSupply a < amount_at s a + v"
    using 2(1) [of "amount_add a 0 s" "amount_at s a + v"] 2(2-6) that at by (simp add: amounts_inv_add)
  show ?case
    using rest at m 2(6) by (simp add: Let_def)
qed simp

lemma keys_foldl_known:
  "fst ` set (foldl (\<lambda>m (asset, amount). amount_add asset amount m) m cs) = fst ` set m \<union> fst ` set cs"
  by (simp add: case_prod_unfold keys_foldl_add)

lemma ApplyBlock_True:
  assumes "ApplyBlock s b = (Inr True, s')"
  shows "Block_IsValid b"
    and "prev_block_hash (header b) = (if cs_height s = 0 then zero_hash else cs_tip_hash s)"
    and "cs_check_coinbase (cs_height s + 1) (cs_total_supply s)
           (sum_amounts (map out_value (outputs (transactions b ! 0)))) = Inr True"
    and "s' = \<lparr>cs_height = cs_height s + 1, cs_tip_hash = Block_GetHash b,
               cs_total_supply = foldl (\<lambda>m (asset, amount). amount_add asset amount m) (cs_total_supply s)
                 (sum_amounts (map out_value (outputs (transactions b ! 0))))\<rparr>"
  using assms
  by (auto simp: ApplyBlock_def ChainState_ValidateBlock_def Let_def split: if_splits sum.splits)

subsection \<open>The light state is an abstraction of the chain\<close>

text \<open>Same height, tip and supplies.\<close>

definition tracks :: "ChainState \<Rightarrow> Chain \<Rightarrow> bool" where
  "tracks s c \<longleftrightarrow> cs_height s = ucast (chain_height c) \<and> cs_tip_hash s = tip_hash c
     \<and> amounts_inv (cs_total_supply s) \<and> known_assets (cs_total_supply s)
     \<and> amounts_inv (total_supply c) \<and> amount_at (cs_total_supply s) = amount_at (total_supply c)"

lemma tracks_init: "tracks ChainState_init Chain_init"
  by (auto simp: tracks_def ChainState_init_def Chain_init_def known_assets_def)

text \<open>The block extends the tip, or starts the chain.\<close>

definition extends_tip :: "Chain \<Rightarrow> Block \<Rightarrow> bool" where
  "extends_tip c b \<longleftrightarrow> prev_block_hash (header b) = (if chain_height c = 0 then zero_hash else tip_hash c)"

text \<open>Its coinbase pays only the three assets.\<close>

definition pays_known_assets :: "Block \<Rightarrow> bool" where
  "pays_known_assets b \<longleftrightarrow>
     (\<forall>v \<in> set (outputs (transactions b ! 0)). asset_id (out_value v) \<in> {TALANTON, DRACHMA, OBOLOS})"

lemma ucast_Suc32: "h \<noteq> 0xFFFFFFFF \<Longrightarrow> ucast (h + 1 :: u32) = (ucast h + 1 :: u64)"
proof -
  assume h: "h \<noteq> 0xFFFFFFFF"
  have "unat (0xFFFFFFFF :: u32) = 4294967295" by simp
  then have "unat h \<noteq> 4294967295" using h by (metis word_unat_eq_iff)
  then have n: "unat h + 1 < 2 ^ 32" using unat32_lt [of h] by simp
  then have "unat (h + 1) = unat h + 1" by (simp add: unat_word_ariths)
  moreover have "unat (ucast h + 1 :: u64) = unat h + 1"
    using n by (simp add: unat_word_ariths unsigned_ucast_eq take_bit_nat_eq_self)
  ultimately show ?thesis
    using n by (simp add: word_unat_eq_iff unsigned_ucast_eq take_bit_nat_eq_self)
qed

lemma ApplyBlock_simulates:
  assumes "tracks s c" and connect: "ConnectBlock c b undo = (True, c', undo')"
    and "extends_tip c b" and "chain_height c \<noteq> 0xFFFFFFFF" and "pays_known_assets b"
  shows "\<exists>s'. ApplyBlock s b = (Inr True, s') \<and> tracks s' c'"
proof -
  let ?cb = "transactions b ! 0"
  let ?cs = "sum_amounts (map out_value (outputs ?cb))"
  have s: "cs_height s = ucast (chain_height c)" "cs_tip_hash s = tip_hash c"
    "amounts_inv (cs_total_supply s)" "fst ` set (cs_total_supply s) = {TALANTON, DRACHMA, OBOLOS}"
    "amounts_inv (total_supply c)" "amount_at (cs_total_supply s) = amount_at (total_supply c)"
    using assms(1) by (simp_all add: tracks_def known_assets_def)
  from connect obtain sup where valid: "Block_IsValid b"
    and pow: "CheckProofOfWork (Block_GetHash b) (bits (header b))"
    and chk: "check_coinbase (chain_height c + 1) (total_supply c) ?cs = (True, sup)"
    and c': "chain_height c' = chain_height c + 1" "tip_hash c' = Block_GetHash b"
    by (rule ConnectBlock_True) simp
  have keys: "fst ` set ?cs \<subseteq> fst ` set (cs_total_supply s)"
    using assms(5) s(4) by (auto simp: keys_sum_amounts pays_known_assets_def)
  have "cs_check_coinbase (cs_height s + 1) (cs_total_supply s) ?cs = Inr True"
    using cs_check_coinbase_eq [OF s(5,3) s(6) [symmetric] keys, of "cs_height s + 1" "chain_height c + 1"]
      chk s(1) ucast_Suc32 [OF assms(4)] by simp
  moreover have "cs_height s = 0 \<longleftrightarrow> chain_height c = 0"
    using s(1) unat32_lt [of "chain_height c"]
    by (simp add: word_unat_eq_iff unsigned_ucast_eq take_bit_nat_eq_self)
  ultimately have "ChainState_ValidateBlock s b = Inr True"
    using valid pow assms(3) Block_IsValidD(1,2) [OF valid] s(2)
    by (auto simp: ChainState_ValidateBlock_def Let_def extends_tip_def)
  then have "ApplyBlock s b = (Inr True,
      \<lparr>cs_height = cs_height s + 1, cs_tip_hash = Block_GetHash b,
       cs_total_supply = foldl (\<lambda>m (asset, amount). amount_add asset amount m) (cs_total_supply s) ?cs\<rparr>)"
    by (simp add: ApplyBlock_def Let_def)
  moreover have "amount_at (foldl (\<lambda>m (asset, amount). amount_add asset amount m) (cs_total_supply s) ?cs)
      = amount_at (total_supply c')"
    using ConnectBlock_supply(2) [OF connect s(5)] wsum_filter_key [of ?cs] s(3,6)
    by (auto simp: fun_eq_iff case_prod_unfold amount_at_foldl_add)
  moreover have "fst ` set (foldl (\<lambda>m (asset, amount). amount_add asset amount m) (cs_total_supply s) ?cs)
      = {TALANTON, DRACHMA, OBOLOS}"
    using keys s(4) unfolding keys_foldl_known by blast
  ultimately show ?thesis
    using s(3) ConnectBlock_supply(1) [OF connect s(5)] c' s(1) ucast_Suc32 [OF assms(4)]
    by (simp add: tracks_def known_assets_def case_prod_unfold)
qed

subsection \<open>Applied blocks form a chain\<close>

text \<open>Each block names the hash of the one before it, the first one \<open>prev\<close>.\<close>

fun linked :: "bytes \<Rightarrow> Block list \<Rightarrow> bool" where
  "linked prev [] = True"
| "linked prev (b # bs) = (prev_block_hash (header b) = prev \<and> linked (Block_GetHash b) bs)"

lemma linked_append:
  "linked prev (bs @ [b]) \<longleftrightarrow> linked prev bs
     \<and> prev_block_hash (header b) = (if bs = [] then prev else Block_GetHash (last bs))"
  by (induction bs arbitrary: prev) auto

inductive applied :: "Block list \<Rightarrow> ChainState \<Rightarrow> bool" where
  start: "applied [] ChainState_init"
| step: "applied bs s \<Longrightarrow> ApplyBlock s b = (Inr True, s') \<Longrightarrow> applied (bs @ [b]) s'"

inductive_cases applied_snocE: "applied (bs @ [b]) s"

lemma cs_check_coinbase_True:
  assumes "cs_check_coinbase h tot cs = Inr True"
  shows "\<forall>(a, v) \<in> set cs. v \<le> GetBlockReward h a \<and> a \<in> fst ` set tot
    \<and> amount_at tot a + v \<le> GetMaxSupply a"
  using assms
proof (induction h tot cs rule: cs_check_coinbase.induct)
  case (2 h tot a v rest)
  then obtain cur where cur: "map_of tot a = Some cur"
    by (auto split: option.splits if_splits)
  then have "amount_at tot a = cur" "a \<in> fst ` set tot"
    by (auto simp: amount_at_def dest: map_of_SomeD intro: rev_image_eqI)
  then show ?case
    using 2 cur by (auto simp: IsValidBlockReward_iff Let_def split: if_splits)
qed simp

lemma ApplyBlock_supply:
  assumes "ApplyBlock s b = (Inr True, s')" and "amounts_inv (cs_total_supply s)"
    and "known_assets (cs_total_supply s)" and "\<And>a. amount_at (cs_total_supply s) a \<le> GetMaxSupply a"
  shows "amounts_inv (cs_total_supply s')" "known_assets (cs_total_supply s')"
    "amount_at (cs_total_supply s') k \<le> GetMaxSupply k"
proof -
  note a = ApplyBlock_True [OF assms(1)]
  let ?cs = "sum_amounts (map out_value (outputs (transactions b ! 0)))"
  have each: "\<forall>(a, v) \<in> set ?cs. v \<le> GetBlockReward (cs_height s + 1) a \<and> a \<in> fst ` set (cs_total_supply s)
      \<and> amount_at (cs_total_supply s) a + v \<le> GetMaxSupply a"
    by (rule cs_check_coinbase_True [OF a(3)])
  show "amounts_inv (cs_total_supply s')"
    using assms(2) by (simp add: a(4) case_prod_unfold)
  have "fst ` set ?cs \<subseteq> fst ` set (cs_total_supply s)" using each by auto
  then show "known_assets (cs_total_supply s')"
    using assms(3) unfolding known_assets_def a(4) ChainState.select_convs keys_foldl_known by blast
  have at: "amount_at (cs_total_supply s') k = amount_at (cs_total_supply s) k + amount_at ?cs k"
    using assms(2) wsum_filter_key [of ?cs k] by (simp add: a(4) case_prod_unfold amount_at_foldl_add)
  show "amount_at (cs_total_supply s') k \<le> GetMaxSupply k"
  proof (cases "amount_at ?cs k = 0")
    case True
    then show ?thesis using at assms(4) [of k] by simp
  next
    case False
    from bspec [OF each coinbase_amount_in [OF False]] show ?thesis by (simp add: at)
  qed
qed

lemma of_nat64_eq_0: "n < 2 ^ 64 \<Longrightarrow> (of_nat n :: u64) = 0 \<longleftrightarrow> n = 0"
  using unat_of_nat64 [of n] unat_eq_zero [of "of_nat n :: u64"] by (simp only:)

lemma applied_supply:
  "applied bs s \<Longrightarrow> amounts_inv (cs_total_supply s) \<and> known_assets (cs_total_supply s)
     \<and> (\<forall>a. amount_at (cs_total_supply s) a \<le> GetMaxSupply a)"
proof (induction rule: applied.induct)
  case start
  then show ?case by (auto simp: ChainState_init_def known_assets_def)
next
  case (step bs s b s')
  then show ?case using ApplyBlock_supply [OF step(2)] by blast
qed

lemma applied_linked:
  assumes "applied bs s" and "length bs < 2 ^ 64"
  shows "linked zero_hash bs \<and> cs_height s = of_nat (length bs)
    \<and> cs_tip_hash s = (if bs = [] then zero_hash else Block_GetHash (last bs))"
  using assms
proof (induction rule: applied.induct)
  case start
  then show ?case by (simp add: ChainState_init_def)
next
  case (step bs s b s')
  note a = ApplyBlock_True [OF step(2)]
  have less: "length bs < 2 ^ 64" using step.prems by (simp only: length_append_singleton)
  have ih: "linked zero_hash bs" "cs_height s = of_nat (length bs)"
    "cs_tip_hash s = (if bs = [] then zero_hash else Block_GetHash (last bs))"
    using step.IH less by simp_all
  have "cs_height s = 0 \<longleftrightarrow> bs = []"
    using ih(2) of_nat64_eq_0 [OF less] by simp
  then have "linked zero_hash (bs @ [b])" using a(2) ih(1,3) by (simp add: linked_append)
  moreover have "cs_height s' = of_nat (length (bs @ [b]))" using ih(2) by (simp add: a(4) add.commute)
  moreover have "cs_tip_hash s' = Block_GetHash b" by (simp add: a(4))
  ultimately show ?case by (simp only: last_snoc append_is_Nil_conv not_Cons_self2 list.distinct if_False simp_thms)
qed

subsection \<open>Unknown assets\<close>

lemma unknown_asset_amount:
  assumes "Block_IsValid b" and "outputs (transactions b ! 0) = [v]"
    and "asset_id (out_value v) \<notin> {TALANTON, DRACHMA, OBOLOS}"
  shows "sum_amounts (map out_value (outputs (transactions b ! 0))) = [(asset_id (out_value v), 0)]"
proof -
  have "Transaction_IsValid (transactions b ! 0)"
    using Block_IsValidD(1,4) [OF assms(1)] by simp
  then have "AssetAmount_IsValid (out_value v)"
    using outputs_valid [of "transactions b ! 0"] assms(2) by simp
  then have "asset_amount (out_value v) = 0"
    using assms(3) by (simp add: AssetAmount_IsValid_def IsValidAmount_def GetMaxSupply_def)
  then show ?thesis using assms(2) by (simp add: sum_amounts_def)
qed

subsection \<open>What an accepted block satisfies\<close>

lemma ChainState_ValidateBlock_True:
  assumes "ChainState_ValidateBlock s b = Inr True"
  shows "Block_IsValid b" "prev_block_hash (header b) = (if cs_height s = 0 then zero_hash else cs_tip_hash s)"
    "cs_check_coinbase (cs_height s + 1) (cs_total_supply s)
       (sum_amounts (map out_value (outputs (transactions b ! 0)))) = Inr True"
  using assms by (auto simp: ChainState_ValidateBlock_def Let_def split: if_splits sum.splits)

lemma ValidateBlock_extends:
  assumes "tracks s c" and "ChainState_ValidateBlock s b = Inr True"
  shows "extends_tip c b" and "pays_known_assets b"
proof -
  note v = ChainState_ValidateBlock_True [OF assms(2)]
  have "fst ` set (sum_amounts (map out_value (outputs (transactions b ! 0)))) \<subseteq> fst ` set (cs_total_supply s)"
    using cs_check_coinbase_True [OF v(3)] by auto
  then show "pays_known_assets b"
    using assms(1) by (auto simp: tracks_def known_assets_def keys_sum_amounts pays_known_assets_def)
  have "cs_height s = 0 \<longleftrightarrow> chain_height c = 0"
    using assms(1) unat32_lt [of "chain_height c"]
    by (simp add: tracks_def word_unat_eq_iff unsigned_ucast_eq take_bit_nat_eq_self)
  then show "extends_tip c b" using v(2) assms(1) by (auto simp: extends_tip_def tracks_def)
qed

lemma ApplyBlock_extends:
  assumes "tracks s c" and "fst (ApplyBlock s b) = Inr True"
  shows "extends_tip c b \<and> pays_known_assets b"
  using assms(2) ValidateBlock_extends [OF assms(1)] by (auto simp: ApplyBlock_def split: sum.splits if_splits)

subsection \<open>Properties\<close>

text \<open>
  C11. The light chain state simulates the chain: when it has the chain's height, tip and supplies (and the
  height is not the last 32-bit one) and \<open>ConnectBlock\<close> accepts a block, \<open>ApplyBlock\<close> accepts it
  exactly when it extends the tip, which \<open>ConnectBlock\<close> does not check, and its coinbase pays only the
  three assets, which \<open>ConnectBlock\<close> does not check for outputs of amount 0. The two states then agree again.
\<close>

theorem chainstate_simulates_chain:
  assumes "tracks s c" and "ConnectBlock c b undo = (True, c', undo')" and "chain_height c \<noteq> 0xFFFFFFFF"
  shows "if extends_tip c b \<and> pays_known_assets b
    then \<exists>s'. ApplyBlock s b = (Inr True, s') \<and> tracks s' c' else fst (ApplyBlock s b) \<noteq> Inr True"
  using ApplyBlock_simulates [OF assms(1,2) _ assms(3)] ApplyBlock_extends [OF assms(1)]
  by (auto simp: prod_eq_iff)

text \<open>
  Blocks applied to the light chain state form one chain: each names its predecessor's hash, the
  first one the zero hash, the height is their number, and no asset's supply exceeds its cap.
\<close>

theorem applied_blocks_linked:
  assumes "applied bs s" and "length bs < 2 ^ 64"
  shows "linked zero_hash bs \<and> cs_height s = of_nat (length bs)
    \<and> ChainState_GetTotalSupply s a \<le> GetMaxSupply a"
  using applied_linked [OF assms] applied_supply [OF assms(1)]
  by (simp add: ChainState_GetTotalSupply_def)

text \<open>
  A valid block can make the node throw: for a coinbase with one output of amount 0 and an unknown
  asset byte, \<open>ChainState::ValidateBlock\<close> throws \<open>std::out_of_range\<close>, while
  \<open>ConnectBlock\<close> accepts the block (when the coinbase is its only transaction).
\<close>

theorem unknown_asset_throws:
  assumes "Block_IsValid b" and "transactions b = [cb]" and "outputs cb = [v]"
    and "asset_id (out_value v) \<notin> {TALANTON, DRACHMA, OBOLOS}" and "known_assets (cs_total_supply s)"
    and "prev_block_hash (header b) = (if cs_height s = 0 then zero_hash else cs_tip_hash s)"
    and "chain_inv c"
  shows "ChainState_ValidateBlock s b = Inl OutOfRange \<and> fst (ConnectBlock c b undo)"
proof -
  have cb: "transactions b ! 0 = cb" using assms(2) by simp
  have sum: "sum_amounts (map out_value (outputs cb)) = [(asset_id (out_value v), 0)]"
    using unknown_asset_amount [OF assms(1) _ assms(4)] assms(3) cb by simp
  have "map_of (cs_total_supply s) (asset_id (out_value v)) = None"
    using assms(4,5) by (simp add: map_of_eq_None_iff known_assets_def)
  then have "ChainState_ValidateBlock s b = Inl OutOfRange"
    using assms(1,6) Block_IsValidD(1,2) [OF assms(1)] cb sum
    by (auto simp: ChainState_ValidateBlock_def Let_def IsValidBlockReward_iff)
  moreover have "fst (ConnectBlock c b undo)"
  proof -
    have "fst (check_coinbase (chain_height c + 1) (total_supply c) [(asset_id (out_value v), 0)])"
      using assms(7) by (intro check_coinbase_zero) (auto simp: chain_inv_def)
    moreover have "CheckProofOfWork (Block_GetHash b) (bits (header b))"
      using Block_IsValidD(6) [OF assms(1)] by (simp add: MeetsDifficultyTarget_def Block_GetHash_def Let_def)
    ultimately show ?thesis
      using assms(1,2) Block_IsValidD(2) [OF assms(1)] sum
      by (auto simp: ConnectBlock_def Let_def simp del: check_coinbase.simps split: prod.splits)
  qed
  ultimately show ?thesis by simp
qed

end
