(* ===== verification/Validation.thy ===== *)
theory Validation
  imports ChainState
begin

section \<open>Signatures and the validation module\<close>

text \<open>
  Models \<open>layer1-talanton/core/crypto/schnorr.cpp\<close> (the four operations the validators use; the
  reference-counted library context has no effect on their results) and
  \<open>layer1-talanton/core/validation/validation.h\<close> and \<open>validation.cpp\<close>. The functions of libsecp256k1
  are the fields of a parameter.
\<close>

subsection \<open>Schnorr signatures over libsecp256k1\<close>

text \<open>
  \<open>secp256k1_ec_seckey_verify\<close>, \<open>secp256k1_xonly_pubkey_parse\<close>, \<open>secp256k1_schnorrsig_verify\<close>
  (signature, message, key), the key derivation (\<open>None\<close>: one of its calls failed) and
  \<open>secp256k1_schnorrsig_sign32\<close> (message, private key).
\<close>

record Secp =
  seckey_verify :: "bytes \<Rightarrow> bool"
  xonly_pubkey_parse :: "bytes \<Rightarrow> bool"
  schnorrsig_verify :: "bytes \<Rightarrow> bytes \<Rightarrow> bytes \<Rightarrow> bool"
  xonly_pub_of_seckey :: "bytes \<Rightarrow> bytes option"
  schnorrsig_sign32 :: "bytes \<Rightarrow> bytes \<Rightarrow> bytes option"

abbreviation (input) PUBLIC_KEY_SIZE :: nat where "PUBLIC_KEY_SIZE \<equiv> 32"
abbreviation (input) SIGNATURE_SIZE :: nat where "SIGNATURE_SIZE \<equiv> 64"

definition ValidatePrivateKey :: "Secp \<Rightarrow> bytes \<Rightarrow> bool" where
  "ValidatePrivateKey secp privkey = seckey_verify secp privkey"

definition ValidatePublicKey :: "Secp \<Rightarrow> bytes \<Rightarrow> bool" where
  "ValidatePublicKey secp pubkey = xonly_pubkey_parse secp pubkey"

definition GetPublicKey :: "Secp \<Rightarrow> bytes \<Rightarrow> bytes option" where
  "GetPublicKey secp privkey =
     (if \<not> ValidatePrivateKey secp privkey then None
      else case xonly_pub_of_seckey secp privkey of None \<Rightarrow> None | Some pubkey \<Rightarrow> Some pubkey)"

definition Schnorr_Sign :: "Secp \<Rightarrow> bytes \<Rightarrow> bytes \<Rightarrow> bytes option" where
  "Schnorr_Sign secp privkey msg_hash =
     (if \<not> ValidatePrivateKey secp privkey then None
      else case schnorrsig_sign32 secp msg_hash privkey of None \<Rightarrow> None | Some signature \<Rightarrow> Some signature)"

definition Schnorr_Verify :: "Secp \<Rightarrow> bytes \<Rightarrow> bytes \<Rightarrow> bytes \<Rightarrow> bool" where
  "Schnorr_Verify secp pubkey msg_hash signature =
     (if \<not> ValidatePublicKey secp pubkey then False
      else if \<not> xonly_pubkey_parse secp pubkey then False
      else schnorrsig_verify secp signature msg_hash pubkey)"

subsection \<open>Errors\<close>

datatype ErrorType =
    TX_NO_INPUTS | TX_NO_OUTPUTS | TX_DUPLICATE_INPUTS | TX_MISSING_INPUT | TX_IMMATURE_COINBASE
  | TX_INVALID_SIGNATURE | TX_ASSET_CONSERVATION | TX_INVALID_AMOUNT
  | BLOCK_NO_TRANSACTIONS | BLOCK_NO_COINBASE | BLOCK_MULTIPLE_COINBASE | BLOCK_INVALID_MERKLE_ROOT
  | BLOCK_INVALID_POW | BLOCK_INVALID_COINBASE_REWARD | BLOCK_EXCEEDS_SUPPLY_CAP
  | BLOCK_INVALID_TRANSACTION | UNKNOWN

datatype ValidationError = ValidationError (err_type: ErrorType) (message: string)

text \<open>Every validator returns \<open>std::optional<ValidationError>\<close>: \<open>None\<close> means valid.\<close>

subsection \<open>Transactions\<close>

definition ValidateStructure :: "Transaction \<Rightarrow> ValidationError option" where
  "ValidateStructure tx =
     (if \<not> IsCoinbase tx \<and> inputs tx = []
      then Some (ValidationError TX_NO_INPUTS ''Transaction has no inputs'')
      else if outputs tx = []
      then Some (ValidationError TX_NO_OUTPUTS ''Transaction has no outputs'')
      else if duplicate_inputs {} (inputs tx)
      then Some (ValidationError TX_DUPLICATE_INPUTS ''Transaction has duplicate inputs'')
      else if list_ex (\<lambda>v. \<not> AssetAmount_IsValid (out_value v)) (outputs tx)
      then Some (ValidationError TX_INVALID_AMOUNT ''Transaction output has invalid amount'')
      else None)"

record UTXOValidationResult =
  res_input_amounts :: amounts
  res_output_amounts :: amounts
  res_input_coins :: "Coin list"

definition empty_result :: UTXOValidationResult where
  "empty_result = \<lparr>res_input_amounts = [], res_output_amounts = [], res_input_coins = []\<rparr>"

fun validate_inputs :: "UTXOSet \<Rightarrow> u32 \<Rightarrow> TxInput list \<Rightarrow> UTXOValidationResult
    \<Rightarrow> ValidationError option \<times> UTXOValidationResult" where
  "validate_inputs utxos height [] result = (None, result)"
| "validate_inputs utxos height (i # is) result =
     (case GetCoin utxos (prevout i) of
        None \<Rightarrow>
          (Some (ValidationError TX_MISSING_INPUT ''Transaction input does not exist in UTXO set''), result)
      | Some coin \<Rightarrow>
          if \<not> IsSpendable coin height then
            (Some (ValidationError TX_IMMATURE_COINBASE ''Transaction spends immature coinbase output''), result)
          else
            let v = out_value (coin_output coin) in
            validate_inputs utxos height is
              (result\<lparr>res_input_amounts := amount_add (asset_id v) (asset_amount v) (res_input_amounts result),
                      res_input_coins := res_input_coins result @ [coin]\<rparr>))"

text \<open>The conservation loop; \<open>input_amounts[asset]\<close> inserts a missing asset into the result.\<close>

fun conserve_assets :: "(AssetID \<times> u64) list \<Rightarrow> UTXOValidationResult
    \<Rightarrow> ValidationError option \<times> UTXOValidationResult" where
  "conserve_assets [] result = (None, result)"
| "conserve_assets ((asset, out_amount) # rest) result =
     (let result = result\<lparr>res_input_amounts := amount_add asset 0 (res_input_amounts result)\<rparr>;
          in_amount = amount_at (res_input_amounts result) asset in
      if in_amount < out_amount then
        (Some (ValidationError TX_ASSET_CONSERVATION ''Transaction creates assets from thin air''), result)
      else conserve_assets rest result)"

definition ValidateAgainstUTXO_result :: "Transaction \<Rightarrow> UTXOSet \<Rightarrow> u32
    \<Rightarrow> ValidationError option \<times> UTXOValidationResult" where
  "ValidateAgainstUTXO_result tx utxos height =
     (if IsCoinbase tx then (None, empty_result)
      else case validate_inputs utxos height (inputs tx) empty_result of
        (Some e, result) \<Rightarrow> (Some e, result)
      | (None, result) \<Rightarrow>
          let result = result\<lparr>res_output_amounts := sum_amounts (map out_value (outputs tx))\<rparr> in
          conserve_assets (res_output_amounts result) result)"

definition ValidateAgainstUTXO :: "Transaction \<Rightarrow> UTXOSet \<Rightarrow> u32 \<Rightarrow> ValidationError option" where
  "ValidateAgainstUTXO tx utxos height = fst (ValidateAgainstUTXO_result tx utxos height)"

text \<open>The loop over the inputs with their indices (the signature hash takes the index).\<close>

fun validate_signatures_from :: "Secp \<Rightarrow> Transaction \<Rightarrow> UTXOSet \<Rightarrow> nat \<Rightarrow> TxInput list
    \<Rightarrow> ValidationError option" where
  "validate_signatures_from secp tx utxos i [] = None"
| "validate_signatures_from secp tx utxos i (input # rest) =
     (case GetCoin utxos (prevout input) of
        None \<Rightarrow> Some (ValidationError TX_MISSING_INPUT
                  ''Cannot validate signature: input not found in UTXO set'')
      | Some coin \<Rightarrow>
          if length (pubkey_script (coin_output coin)) \<noteq> PUBLIC_KEY_SIZE then
            Some (ValidationError TX_INVALID_SIGNATURE ''Invalid pubkey script size in output being spent'')
          else
            let pubkey = pubkey_script (coin_output coin) in
            if \<not> ValidatePublicKey secp pubkey then
              Some (ValidationError TX_INVALID_SIGNATURE ''Invalid public key in output being spent'')
            else if length (signature_script input) \<noteq> SIGNATURE_SIZE then
              Some (ValidationError TX_INVALID_SIGNATURE ''Invalid signature size in transaction input'')
            else
              let signature = signature_script input; sighash = GetSignatureHash tx i in
              if \<not> Schnorr_Verify secp pubkey sighash signature then
                Some (ValidationError TX_INVALID_SIGNATURE ''Schnorr signature verification failed for input'')
              else validate_signatures_from secp tx utxos (i + 1) rest)"

definition ValidateSignatures :: "Secp \<Rightarrow> Transaction \<Rightarrow> UTXOSet \<Rightarrow> ValidationError option" where
  "ValidateSignatures secp tx utxos =
     (if IsCoinbase tx then None else validate_signatures_from secp tx utxos 0 (inputs tx))"

subsection \<open>Blocks\<close>

definition BlockValidator_ValidateStructure :: "Block \<Rightarrow> ValidationError option" where
  "BlockValidator_ValidateStructure block =
     (if transactions block = []
      then Some (ValidationError BLOCK_NO_TRANSACTIONS ''Block has no transactions'')
      else if \<not> IsCoinbase (transactions block ! 0)
      then Some (ValidationError BLOCK_NO_COINBASE ''Block's first transaction is not coinbase'')
      else if list_ex IsCoinbase (drop 1 (transactions block))
      then Some (ValidationError BLOCK_MULTIPLE_COINBASE ''Block has multiple coinbase transactions'')
      else if CalculateMerkleRoot block \<noteq> merkle_root (header block)
      then Some (ValidationError BLOCK_INVALID_MERKLE_ROOT ''Block merkle root does not match calculated value'')
      else None)"

definition ValidatePoW :: "Block \<Rightarrow> ValidationError option" where
  "ValidatePoW block =
     (if \<not> CheckProofOfWork (Block_GetHash block) (bits (header block))
      then Some (ValidationError BLOCK_INVALID_POW ''Block does not meet difficulty target'')
      else None)"

fun validate_rewards :: "u32 \<Rightarrow> amounts \<Rightarrow> (AssetID \<times> u64) list \<Rightarrow> ValidationError option" where
  "validate_rewards height current_supply [] = None"
| "validate_rewards height current_supply ((asset, amount) # rest) =
     (if \<not> IsValidBlockReward (ucast height) asset amount then
        Some (ValidationError BLOCK_INVALID_COINBASE_REWARD ''Block coinbase reward exceeds allowed amount'')
      else let s = amount_at current_supply asset in
        if s + amount < s then
          Some (ValidationError BLOCK_EXCEEDS_SUPPLY_CAP ''Block coinbase would cause supply overflow'')
        else let new_supply = s + amount in
          if new_supply > GetMaxSupply asset then
            Some (ValidationError BLOCK_EXCEEDS_SUPPLY_CAP ''Block coinbase would exceed supply cap'')
          else validate_rewards height current_supply rest)"

definition ValidateCoinbase :: "Block \<Rightarrow> u32 \<Rightarrow> amounts \<Rightarrow> ValidationError option" where
  "ValidateCoinbase block height current_supply =
     (let coinbase = transactions block ! 0 in
      validate_rewards height current_supply (sum_amounts (map out_value (outputs coinbase))))"

fun validate_transactions :: "Secp \<Rightarrow> UTXOSet \<Rightarrow> u32 \<Rightarrow> Transaction list \<Rightarrow> ValidationError option" where
  "validate_transactions secp utxos height [] = None"
| "validate_transactions secp utxos height (tx # txs) =
     (case ValidateStructure tx of
        Some e \<Rightarrow> Some (ValidationError BLOCK_INVALID_TRANSACTION (''Block contains invalid transaction: '' @ message e))
      | None \<Rightarrow>
          case ValidateAgainstUTXO tx utxos height of
            Some e \<Rightarrow> Some (ValidationError BLOCK_INVALID_TRANSACTION (''Block transaction validation failed: '' @ message e))
          | None \<Rightarrow>
              case ValidateSignatures secp tx utxos of
                Some e \<Rightarrow> Some (ValidationError BLOCK_INVALID_TRANSACTION (''Block transaction signature invalid: '' @ message e))
              | None \<Rightarrow> validate_transactions secp utxos height txs)"

definition ValidateBlock :: "Secp \<Rightarrow> Block \<Rightarrow> UTXOSet \<Rightarrow> u32 \<Rightarrow> amounts \<Rightarrow> ValidationError option" where
  "ValidateBlock secp block utxos height current_supply =
     (case BlockValidator_ValidateStructure block of
        Some e \<Rightarrow> Some e
      | None \<Rightarrow>
          case ValidatePoW block of
            Some e \<Rightarrow> Some e
          | None \<Rightarrow>
              case ValidateCoinbase block height current_supply of
                Some e \<Rightarrow> Some e
              | None \<Rightarrow> validate_transactions secp utxos height (drop 1 (transactions block)))"

subsection \<open>The validators agree with the chain\<close>

lemma validate_inputs_ok:
  "validate_inputs u h is r = (None, r') \<Longrightarrow>
     gather_inputs u h is (res_input_amounts r) (res_input_coins r) = Some (res_input_amounts r', res_input_coins r')"
  by (induction u h "is" r rule: validate_inputs.induct) (auto simp: Let_def split: option.splits if_splits)

lemma validate_inputs_error:
  "validate_inputs u h is r = (Some e, r') \<Longrightarrow>
     gather_inputs u h is (res_input_amounts r) (res_input_coins r) = None"
  by (induction u h "is" r rule: validate_inputs.induct) (auto simp: Let_def split: option.splits if_splits)

lemma conserve_assets_None:
  "amounts_inv (res_input_amounts r) \<Longrightarrow>
     fst (conserve_assets out r) = None \<longleftrightarrow> amounts_covered out (res_input_amounts r)"
proof (induction out r rule: conserve_assets.induct)
  case (2 a v rest r)
  have "amounts_covered xs (amount_add a 0 (res_input_amounts r)) = amounts_covered xs (res_input_amounts r)" for xs
    using 2(2) by (simp add: amounts_covered_def del: amount_at_add)
  then show ?case using 2 by (auto simp: Let_def amounts_covered_def)
qed (simp add: amounts_covered_def)

lemma gather_amounts_inv:
  "gather_inputs u h is m cs = Some (m', cs') \<Longrightarrow> amounts_inv m \<Longrightarrow> amounts_inv m'"
  using gather_inputs_Some [of u h "is" m cs m' cs'] by auto

lemma ValidateAgainstUTXO_None:
  "ValidateAgainstUTXO tx u h = None \<longleftrightarrow> Chain_ValidateTransaction u tx h \<noteq> None"
proof (cases "IsCoinbase tx")
  case True
  then show ?thesis
    by (simp add: ValidateAgainstUTXO_def ValidateAgainstUTXO_result_def Chain_ValidateTransaction_def)
next
  case False
  obtain e r where v: "validate_inputs u h (inputs tx) empty_result = (e, r)" by fastforce
  show ?thesis
  proof (cases e)
    case None
    then have g: "gather_inputs u h (inputs tx) [] [] = Some (res_input_amounts r, res_input_coins r)"
      using validate_inputs_ok [of u h "inputs tx" empty_result r] v by (simp add: empty_result_def)
    have "amounts_inv (res_input_amounts r)" using gather_amounts_inv [OF g] by simp
    then show ?thesis
      using False v None g conserve_assets_None
      by (simp add: ValidateAgainstUTXO_def ValidateAgainstUTXO_result_def Chain_ValidateTransaction_def Let_def)
  next
    case (Some x)
    then have "gather_inputs u h (inputs tx) [] [] = None"
      using validate_inputs_error [of u h "inputs tx" empty_result x r] v by (simp add: empty_result_def)
    then show ?thesis
      using False v Some
      by (simp add: ValidateAgainstUTXO_def ValidateAgainstUTXO_result_def Chain_ValidateTransaction_def)
  qed
qed

lemma validate_rewards_None:
  "amounts_inv s \<Longrightarrow> amount_at s' = amount_at s \<Longrightarrow>
     validate_rewards h s' cs = None \<longleftrightarrow> fst (check_coinbase h s cs)"
proof (induction h s cs rule: check_coinbase.induct)
  case (2 h s a v rest)
  have at: "amount_at (amount_add a 0 s) = amount_at s" using 2(2) by (auto simp: fun_eq_iff)
  show ?case
    using 2(1) [of "amount_add a 0 s" "amount_at s a + v"] 2(2,3) at by (simp add: Let_def)
qed simp

lemma Block_IsValid_validators:
  "Block_IsValid b \<longleftrightarrow> BlockValidator_ValidateStructure b = None \<and> ValidatePoW b = None
     \<and> list_all Transaction_IsValid (transactions b)"
  by (auto simp: Block_IsValid_def BlockValidator_ValidateStructure_def ValidatePoW_def
      MeetsDifficultyTarget_def Block_GetHash_def Let_def)

subsection \<open>What valid signatures mean\<close>

text \<open>The input at index \<open>i\<close> spends an existing coin and carries its owner's signature.\<close>

definition input_authorised :: "Secp \<Rightarrow> Transaction \<Rightarrow> UTXOSet \<Rightarrow> nat \<Rightarrow> bool" where
  "input_authorised secp tx utxos i \<longleftrightarrow>
     (\<exists>coin. utxos (prevout (inputs tx ! i)) = Some coin
       \<and> length (pubkey_script (coin_output coin)) = PUBLIC_KEY_SIZE
       \<and> xonly_pubkey_parse secp (pubkey_script (coin_output coin))
       \<and> length (signature_script (inputs tx ! i)) = SIGNATURE_SIZE
       \<and> schnorrsig_verify secp (signature_script (inputs tx ! i)) (GetSignatureHash tx i)
            (pubkey_script (coin_output coin)))"

lemma validate_signatures_from_None:
  "inputs tx = pre @ is \<Longrightarrow>
     validate_signatures_from secp tx u (length pre) is = None
       \<longleftrightarrow> (\<forall>i \<in> {length pre..<length (inputs tx)}. input_authorised secp tx u i)"
proof (induction "is" arbitrary: pre)
  case (Cons x xs)
  have nth: "inputs tx ! length pre = x" using Cons.prems by (simp add: nth_append)
  have IH: "validate_signatures_from secp tx u (Suc (length pre)) xs = None
      \<longleftrightarrow> (\<forall>i \<in> {Suc (length pre)..<length (inputs tx)}. input_authorised secp tx u i)"
    using Cons.IH [of "pre @ [x]"] Cons.prems by simp
  have "{length pre..<length (inputs tx)} = insert (length pre) {Suc (length pre)..<length (inputs tx)}"
    using Cons.prems by auto
  moreover have "validate_signatures_from secp tx u (length pre) (x # xs) = None
      \<longleftrightarrow> input_authorised secp tx u (length pre) \<and> validate_signatures_from secp tx u (Suc (length pre)) xs = None"
    by (cases "u (prevout x)")
       (auto simp: input_authorised_def nth Let_def Schnorr_Verify_def ValidatePublicKey_def)
  ultimately show ?case using IH by simp
qed simp

lemma ValidateSignatures_None:
  "ValidateSignatures secp tx u = None
     \<longleftrightarrow> IsCoinbase tx \<or> (\<forall>i < length (inputs tx). input_authorised secp tx u i)"
  using validate_signatures_from_None [of tx "[]" "inputs tx" secp u]
  by (auto simp: ValidateSignatures_def)

lemma validate_transactions_None:
  "validate_transactions secp u h txs = None \<longleftrightarrow>
     (\<forall>tx \<in> set txs. ValidateStructure tx = None \<and> ValidateAgainstUTXO tx u h = None
        \<and> ValidateSignatures secp tx u = None)"
  by (induction txs) (auto split: option.splits)

lemma connect_rest_double_spend:
  assumes "\<not> IsCoinbase t" and "inputs t \<noteq> []" and "txid (prevout (inputs t ! 0)) \<noteq> GetTxID t"
  shows "\<not> fst (connect_rest u undo h (t # t # ts))"
proof (cases "Chain_ValidateTransaction u t h")
  case (Some coins)
  let ?u = "AddOutputs (SpendInputs u t) t h False" and ?p = "prevout (inputs t ! 0)"
  have "?p \<in> set (map prevout (inputs t))" using assms(2) by auto
  then have "SpendInputs u t ?p = None"
    using utxo.get_spend_all [of u "map prevout (inputs t)" ?p] by (simp add: SpendInputs_def)
  then have "?u ?p = None" using AddOutputs_other [OF assms(3)] by simp
  then have "gather_inputs ?u h (inputs t) [] [] = None" using assms(2) by (cases "inputs t") simp_all
  then have "Chain_ValidateTransaction ?u t h = None" using assms(1) by (simp add: Chain_ValidateTransaction_def)
  then show ?thesis using Some by simp
qed simp

subsection \<open>Properties\<close>

text \<open>
  The two implementations of the consensus checks agree: a transaction passes
  \<open>ValidateAgainstUTXO\<close> exactly when \<open>Chain::ValidateTransaction\<close> accepts it, the coinbase
  validator accepts exactly what \<open>ConnectBlock\<close>'s reward and cap loop accepts, and a block is
  valid exactly when the structure and proof-of-work validators and the transactions' own checks pass.
\<close>

theorem validators_agree:
  fixes "supply" :: amounts
  assumes "amounts_inv supply"
  shows "(ValidateAgainstUTXO tx utxos height = None \<longleftrightarrow> Chain_ValidateTransaction utxos tx height \<noteq> None)
   \<and> (ValidateCoinbase b h supply = None
       \<longleftrightarrow> fst (check_coinbase h supply
                (sum_amounts (map out_value (outputs (transactions b ! 0))))))
   \<and> (Block_IsValid b \<longleftrightarrow> BlockValidator_ValidateStructure b = None \<and> ValidatePoW b = None
       \<and> list_all Transaction_IsValid (transactions b))"
  using ValidateAgainstUTXO_None Block_IsValid_validators
    validate_rewards_None [of "supply" "supply"] assms
  by (simp add: ValidateCoinbase_def)

theorem validators_agree_witness:
  "\<forall>b h. ValidateCoinbase b h [(TALANTON, 5)] = None
     \<longleftrightarrow> fst (check_coinbase h [(TALANTON, 5)] (sum_amounts (map out_value (outputs (transactions b ! 0)))))"
  using validators_agree [of "[(TALANTON, 5)]"] by simp

text \<open>
  C12. Signature validation accepts a transaction exactly when it is a coinbase or every input spends an
  existing coin whose script is a valid 32-byte key, under which its 64-byte signature verifies
  for that input's signature hash.
\<close>

theorem signatures_authorise_inputs:
  "ValidateSignatures secp tx utxos = None
     \<longleftrightarrow> IsCoinbase tx \<or> list_all (input_authorised secp tx utxos) [0..<length (inputs tx)]"
  by (auto simp: ValidateSignatures_None list_all_iff)

text \<open>
  \<open>BlockValidator::ValidateBlock\<close> validates every transaction against the UTXO set before the
  block: repeating a transaction does not change its answer, although the repeated transaction
  spends its inputs twice and \<open>ConnectBlock\<close>'s loop refuses it.
\<close>

theorem block_validator_misses_double_spend:
  assumes "\<not> IsCoinbase t" and "inputs t \<noteq> []" and "txid (prevout (inputs t ! 0)) \<noteq> GetTxID t"
  shows "validate_transactions secp utxos h (t # t # ts) = validate_transactions secp utxos h (t # ts)
    \<and> \<not> fst (connect_rest utxos undo h (t # t # ts))"
  using connect_rest_double_spend [OF assms] by (auto split: option.splits)

end
