(* ===== verification/Samples.thy ===== *)
theory Samples
  imports Genesis Validation
begin

section \<open>Concrete blocks\<close>

text \<open>
  Two small blocks with real proofs of work, evaluated in the kernel. They show that the
  hypotheses of the properties of the chain can hold together.
\<close>

definition sample_coinbase :: Transaction where
  "sample_coinbase =
     \<lparr>version = 1,
      inputs = [\<lparr>prevout = OutPoint zero_hash COINBASE_VOUT_INDEX, signature_script = [], sequence = 0xFFFFFFFF\<rparr>],
      outputs = [\<lparr>out_value = \<lparr>asset_id = TALANTON, asset_amount = 5000000000\<rparr>, pubkey_script = [81]\<rparr>],
      locktime = 0\<rparr>"

definition sample_id :: bytes where
  "sample_id =
    [0x67, 0x6f, 0xfa, 0x0f, 0x61, 0x97, 0xbb, 0x61, 0xe6, 0xb7, 0xaf, 0x34, 0x46, 0x9e, 0xa8, 0xac,
     0x80, 0x61, 0x52, 0x8d, 0x57, 0x15, 0x8e, 0x30, 0x43, 0xa7, 0xe6, 0xab, 0xb6, 0x82, 0xcd, 0x1e]"

definition sample_root2 :: bytes where
  "sample_root2 =
    [0xce, 0xe1, 0xf2, 0x3a, 0x8e, 0xb3, 0x11, 0x87, 0xda, 0xfb, 0x59, 0x73, 0x2c, 0x77, 0xa1, 0x1c,
     0x50, 0x08, 0x7c, 0xb3, 0xf9, 0x85, 0xb2, 0x92, 0x44, 0xec, 0xa8, 0xf6, 0x6a, 0x71, 0xfc, 0x60]"

text \<open>A block with the coinbase only, and one whose second transaction spends an output that does not exist.\<close>

definition sample_block :: Block where
  "sample_block =
     \<lparr>header = BlockHeader_init\<lparr>merkle_root := sample_id, timestamp := 1, bits := 0x207fffff, nonce := 1\<rparr>,
      transactions = [sample_coinbase]\<rparr>"

definition sample_bad_block :: Block where
  "sample_bad_block =
     \<lparr>header = BlockHeader_init\<lparr>merkle_root := sample_root2, timestamp := 2, bits := 0x207fffff, nonce := 1\<rparr>,
      transactions = [sample_coinbase, sample_tx]\<rparr>"

text \<open>A replaceable transaction and one that spends the same output with a higher fee.\<close>

definition sample_tx2 :: Transaction where
  "sample_tx2 = sample_tx\<lparr>inputs := [\<lparr>prevout = OutPoint zero_hash 1, signature_script = [], sequence = 0\<rparr>]\<rparr>"

definition sample_tx3 :: Transaction where
  "sample_tx3 = sample_tx\<lparr>inputs := [\<lparr>prevout = OutPoint zero_hash 1, signature_script = [], sequence = 0\<rparr>,
     \<lparr>prevout = OutPoint zero_hash 2, signature_script = [], sequence = 0\<rparr>]\<rparr>"

text \<open>A block whose coinbase has one output of amount 0 in an asset the code does not know.\<close>

definition sample_odd_coinbase :: Transaction where
  "sample_odd_coinbase = sample_coinbase
     \<lparr>outputs := [\<lparr>out_value = \<lparr>asset_id = 9, asset_amount = 0\<rparr>, pubkey_script = [81]\<rparr>]\<rparr>"

definition sample_odd_id :: bytes where
  "sample_odd_id =
    [0x10, 0xb8, 0x15, 0x1f, 0x07, 0xbd, 0xec, 0xd4, 0x8b, 0xe0, 0xb1, 0x75, 0x49, 0x25, 0x32, 0xd2,
     0x36, 0x3d, 0x5c, 0x13, 0xf2, 0x11, 0xf2, 0x1d, 0x63, 0x0d, 0xd7, 0x1b, 0xea, 0xc3, 0x5d, 0x88]"

definition sample_odd_block :: Block where
  "sample_odd_block =
     \<lparr>header = BlockHeader_init\<lparr>merkle_root := sample_odd_id, timestamp := 3, bits := 0x207fffff, nonce := 0\<rparr>,
      transactions = [sample_odd_coinbase]\<rparr>"

lemmas serialize_eval = Transaction_Serialize_def TxInput_Serialize_def TxOutput_Serialize_def
  OutPoint_Serialize_def AssetAmount_Serialize_def WriteCompactSize_def le32_def le64_def Let_def

lemma scb1_c1:
  "bTransform
    [hx ''6a09e667'', hx ''bb67ae85'', hx ''3c6ef372'', hx ''a54ff53a'', hx ''510e527f'', hx ''9b05688c'', hx ''1f83d9ab'', hx ''5be0cd19'']
    [hx ''01000000'', hx ''01000000'', hx ''00000000'', hx ''00000000'', hx ''00000000'', hx ''00000000'', hx ''00000000'', hx ''00000000'',
     hx ''00000000'', hx ''00ffffff'', hx ''ff00ffff'', hx ''ffff0100'', hx ''00f2052a'', hx ''01000000'', hx ''01510000'', hx ''00008000'']
   = [hx ''ed5b161a'', hx ''a3dabf17'', hx ''83796728'', hx ''40a97785'', hx ''10fae351'', hx ''130957b8'', hx ''c1769aaf'', hx ''86a0c4a5'']"
  by (simp only: sha_eval hx_simps)

lemma scb1_c2:
  "bTransform
    [hx ''ed5b161a'', hx ''a3dabf17'', hx ''83796728'', hx ''40a97785'', hx ''10fae351'', hx ''130957b8'', hx ''c1769aaf'', hx ''86a0c4a5'']
    [hx ''00000000'', hx ''00000000'', hx ''00000000'', hx ''00000000'', hx ''00000000'', hx ''00000000'', hx ''00000000'', hx ''00000000'',
     hx ''00000000'', hx ''00000000'', hx ''00000000'', hx ''00000000'', hx ''00000000'', hx ''00000000'', hx ''00000000'', hx ''000001f0'']
   = [hx ''f8c2a4bd'', hx ''7e24fbbe'', hx ''9ec9f25f'', hx ''054db9f3'', hx ''6a35a92d'', hx ''9672d00e'', hx ''d5a6e01d'', hx ''fa933e6a'']"
  by (simp only: sha_eval hx_simps)

lemma scb1:
  "Hash256
    [1, 0, 0, 0, 1, 0, 0, 0, 0, 0, 0, 0, 0, 0, 0, 0,
     0, 0, 0, 0, 0, 0, 0, 0, 0, 0, 0, 0, 0, 0, 0, 0,
     0, 0, 0, 0, 0, 0xff, 0xff, 0xff, 0xff, 0, 0xff, 0xff, 0xff, 0xff, 1, 0,
     0, 0xf2, 0x05, 0x2a, 1, 0, 0, 0, 1, 0x51, 0, 0, 0, 0]
   = [0xf8, 0xc2, 0xa4, 0xbd, 0x7e, 0x24, 0xfb, 0xbe, 0x9e, 0xc9, 0xf2, 0x5f, 0x05, 0x4d, 0xb9, 0xf3,
     0x6a, 0x35, 0xa9, 0x2d, 0x96, 0x72, 0xd0, 0x0e, 0xd5, 0xa6, 0xe0, 0x1d, 0xfa, 0x93, 0x3e, 0x6a]"
  by (subst Hash256_words [where wss = "[[hx ''01000000'', hx ''01000000'', hx ''00000000'', hx ''00000000'', hx ''00000000'', hx ''00000000'', hx ''00000000'', hx ''00000000'',
     hx ''00000000'', hx ''00ffffff'', hx ''ff00ffff'', hx ''ffff0100'', hx ''00f2052a'', hx ''01000000'', hx ''01510000'', hx ''00008000''],
     [hx ''00000000'', hx ''00000000'', hx ''00000000'', hx ''00000000'', hx ''00000000'', hx ''00000000'', hx ''00000000'', hx ''00000000'',
     hx ''00000000'', hx ''00000000'', hx ''00000000'', hx ''00000000'', hx ''00000000'', hx ''00000000'', hx ''00000000'', hx ''000001f0'']]"])
     (simp_all add: sha_pad_eval hb_eval bH0_def scb1_c1 scb1_c2)

lemma scb2_c1:
  "bTransform
    [hx ''6a09e667'', hx ''bb67ae85'', hx ''3c6ef372'', hx ''a54ff53a'', hx ''510e527f'', hx ''9b05688c'', hx ''1f83d9ab'', hx ''5be0cd19'']
    [hx ''f8c2a4bd'', hx ''7e24fbbe'', hx ''9ec9f25f'', hx ''054db9f3'', hx ''6a35a92d'', hx ''9672d00e'', hx ''d5a6e01d'', hx ''fa933e6a'',
     hx ''80000000'', hx ''00000000'', hx ''00000000'', hx ''00000000'', hx ''00000000'', hx ''00000000'', hx ''00000000'', hx ''00000100'']
   = [hx ''676ffa0f'', hx ''6197bb61'', hx ''e6b7af34'', hx ''469ea8ac'', hx ''8061528d'', hx ''57158e30'', hx ''43a7e6ab'', hx ''b682cd1e'']"
  by (simp only: sha_eval hx_simps)

lemma scb2:
  "Hash256
    [0xf8, 0xc2, 0xa4, 0xbd, 0x7e, 0x24, 0xfb, 0xbe, 0x9e, 0xc9, 0xf2, 0x5f, 0x05, 0x4d, 0xb9, 0xf3,
     0x6a, 0x35, 0xa9, 0x2d, 0x96, 0x72, 0xd0, 0x0e, 0xd5, 0xa6, 0xe0, 0x1d, 0xfa, 0x93, 0x3e, 0x6a]
   = [0x67, 0x6f, 0xfa, 0x0f, 0x61, 0x97, 0xbb, 0x61, 0xe6, 0xb7, 0xaf, 0x34, 0x46, 0x9e, 0xa8, 0xac,
     0x80, 0x61, 0x52, 0x8d, 0x57, 0x15, 0x8e, 0x30, 0x43, 0xa7, 0xe6, 0xab, 0xb6, 0x82, 0xcd, 0x1e]"
  by (subst Hash256_words [where wss = "[[hx ''f8c2a4bd'', hx ''7e24fbbe'', hx ''9ec9f25f'', hx ''054db9f3'', hx ''6a35a92d'', hx ''9672d00e'', hx ''d5a6e01d'', hx ''fa933e6a'',
     hx ''80000000'', hx ''00000000'', hx ''00000000'', hx ''00000000'', hx ''00000000'', hx ''00000000'', hx ''00000000'', hx ''00000100'']]"])
     (simp_all add: sha_pad_eval hb_eval bH0_def scb2_c1)

lemma scb:
  "Hash256d
    [1, 0, 0, 0, 1, 0, 0, 0, 0, 0, 0, 0, 0, 0, 0, 0,
     0, 0, 0, 0, 0, 0, 0, 0, 0, 0, 0, 0, 0, 0, 0, 0,
     0, 0, 0, 0, 0, 0xff, 0xff, 0xff, 0xff, 0, 0xff, 0xff, 0xff, 0xff, 1, 0,
     0, 0xf2, 0x05, 0x2a, 1, 0, 0, 0, 1, 0x51, 0, 0, 0, 0]
   = [0x67, 0x6f, 0xfa, 0x0f, 0x61, 0x97, 0xbb, 0x61, 0xe6, 0xb7, 0xaf, 0x34, 0x46, 0x9e, 0xa8, 0xac,
     0x80, 0x61, 0x52, 0x8d, 0x57, 0x15, 0x8e, 0x30, 0x43, 0xa7, 0xe6, 0xab, 0xb6, 0x82, 0xcd, 0x1e]"
  by (simp only: Hash256d_def scb1 scb2)

lemma sample_coinbase_id: "GetTxID sample_coinbase = sample_id"
  unfolding GetTxID_def sample_id_def scb [symmetric]
  by (rule arg_cong [where f = Hash256d])
     (simp add: serialize_eval sample_coinbase_def replicate_numeral_unfold)

lemma sodd1_c1:
  "bTransform
    [hx ''6a09e667'', hx ''bb67ae85'', hx ''3c6ef372'', hx ''a54ff53a'', hx ''510e527f'', hx ''9b05688c'', hx ''1f83d9ab'', hx ''5be0cd19'']
    [hx ''01000000'', hx ''01000000'', hx ''00000000'', hx ''00000000'', hx ''00000000'', hx ''00000000'', hx ''00000000'', hx ''00000000'',
     hx ''00000000'', hx ''00ffffff'', hx ''ff00ffff'', hx ''ffff0109'', hx ''00000000'', hx ''00000000'', hx ''01510000'', hx ''00008000'']
   = [hx ''e8745298'', hx ''7a0930e1'', hx ''091e0df8'', hx ''00afffc4'', hx ''fb82eeff'', hx ''16cc048e'', hx ''1e9e79a9'', hx ''bdb61d26'']"
  by (simp only: sha_eval hx_simps)

lemma sodd1_c2:
  "bTransform
    [hx ''e8745298'', hx ''7a0930e1'', hx ''091e0df8'', hx ''00afffc4'', hx ''fb82eeff'', hx ''16cc048e'', hx ''1e9e79a9'', hx ''bdb61d26'']
    [hx ''00000000'', hx ''00000000'', hx ''00000000'', hx ''00000000'', hx ''00000000'', hx ''00000000'', hx ''00000000'', hx ''00000000'',
     hx ''00000000'', hx ''00000000'', hx ''00000000'', hx ''00000000'', hx ''00000000'', hx ''00000000'', hx ''00000000'', hx ''000001f0'']
   = [hx ''b1994fa6'', hx ''53421d4c'', hx ''4cc3e46f'', hx ''f555dcce'', hx ''8b618e03'', hx ''f89bacb3'', hx ''54a4c761'', hx ''0138033c'']"
  by (simp only: sha_eval hx_simps)

lemma sodd1:
  "Hash256
    [1, 0, 0, 0, 1, 0, 0, 0, 0, 0, 0, 0, 0, 0, 0, 0,
     0, 0, 0, 0, 0, 0, 0, 0, 0, 0, 0, 0, 0, 0, 0, 0,
     0, 0, 0, 0, 0, 0xff, 0xff, 0xff, 0xff, 0, 0xff, 0xff, 0xff, 0xff, 1, 0x09,
     0, 0, 0, 0, 0, 0, 0, 0, 1, 0x51, 0, 0, 0, 0]
   = [0xb1, 0x99, 0x4f, 0xa6, 0x53, 0x42, 0x1d, 0x4c, 0x4c, 0xc3, 0xe4, 0x6f, 0xf5, 0x55, 0xdc, 0xce,
     0x8b, 0x61, 0x8e, 0x03, 0xf8, 0x9b, 0xac, 0xb3, 0x54, 0xa4, 0xc7, 0x61, 1, 0x38, 0x03, 0x3c]"
  by (subst Hash256_words [where wss = "[[hx ''01000000'', hx ''01000000'', hx ''00000000'', hx ''00000000'', hx ''00000000'', hx ''00000000'', hx ''00000000'', hx ''00000000'',
     hx ''00000000'', hx ''00ffffff'', hx ''ff00ffff'', hx ''ffff0109'', hx ''00000000'', hx ''00000000'', hx ''01510000'', hx ''00008000''],
     [hx ''00000000'', hx ''00000000'', hx ''00000000'', hx ''00000000'', hx ''00000000'', hx ''00000000'', hx ''00000000'', hx ''00000000'',
     hx ''00000000'', hx ''00000000'', hx ''00000000'', hx ''00000000'', hx ''00000000'', hx ''00000000'', hx ''00000000'', hx ''000001f0'']]"])
     (simp_all add: sha_pad_eval hb_eval bH0_def sodd1_c1 sodd1_c2)

lemma sodd2_c1:
  "bTransform
    [hx ''6a09e667'', hx ''bb67ae85'', hx ''3c6ef372'', hx ''a54ff53a'', hx ''510e527f'', hx ''9b05688c'', hx ''1f83d9ab'', hx ''5be0cd19'']
    [hx ''b1994fa6'', hx ''53421d4c'', hx ''4cc3e46f'', hx ''f555dcce'', hx ''8b618e03'', hx ''f89bacb3'', hx ''54a4c761'', hx ''0138033c'',
     hx ''80000000'', hx ''00000000'', hx ''00000000'', hx ''00000000'', hx ''00000000'', hx ''00000000'', hx ''00000000'', hx ''00000100'']
   = [hx ''10b8151f'', hx ''07bdecd4'', hx ''8be0b175'', hx ''492532d2'', hx ''363d5c13'', hx ''f211f21d'', hx ''630dd71b'', hx ''eac35d88'']"
  by (simp only: sha_eval hx_simps)

lemma sodd2:
  "Hash256
    [0xb1, 0x99, 0x4f, 0xa6, 0x53, 0x42, 0x1d, 0x4c, 0x4c, 0xc3, 0xe4, 0x6f, 0xf5, 0x55, 0xdc, 0xce,
     0x8b, 0x61, 0x8e, 0x03, 0xf8, 0x9b, 0xac, 0xb3, 0x54, 0xa4, 0xc7, 0x61, 1, 0x38, 0x03, 0x3c]
   = [0x10, 0xb8, 0x15, 0x1f, 0x07, 0xbd, 0xec, 0xd4, 0x8b, 0xe0, 0xb1, 0x75, 0x49, 0x25, 0x32, 0xd2,
     0x36, 0x3d, 0x5c, 0x13, 0xf2, 0x11, 0xf2, 0x1d, 0x63, 0x0d, 0xd7, 0x1b, 0xea, 0xc3, 0x5d, 0x88]"
  by (subst Hash256_words [where wss = "[[hx ''b1994fa6'', hx ''53421d4c'', hx ''4cc3e46f'', hx ''f555dcce'', hx ''8b618e03'', hx ''f89bacb3'', hx ''54a4c761'', hx ''0138033c'',
     hx ''80000000'', hx ''00000000'', hx ''00000000'', hx ''00000000'', hx ''00000000'', hx ''00000000'', hx ''00000000'', hx ''00000100'']]"])
     (simp_all add: sha_pad_eval hb_eval bH0_def sodd2_c1)

lemma sodd:
  "Hash256d
    [1, 0, 0, 0, 1, 0, 0, 0, 0, 0, 0, 0, 0, 0, 0, 0,
     0, 0, 0, 0, 0, 0, 0, 0, 0, 0, 0, 0, 0, 0, 0, 0,
     0, 0, 0, 0, 0, 0xff, 0xff, 0xff, 0xff, 0, 0xff, 0xff, 0xff, 0xff, 1, 0x09,
     0, 0, 0, 0, 0, 0, 0, 0, 1, 0x51, 0, 0, 0, 0]
   = [0x10, 0xb8, 0x15, 0x1f, 0x07, 0xbd, 0xec, 0xd4, 0x8b, 0xe0, 0xb1, 0x75, 0x49, 0x25, 0x32, 0xd2,
     0x36, 0x3d, 0x5c, 0x13, 0xf2, 0x11, 0xf2, 0x1d, 0x63, 0x0d, 0xd7, 0x1b, 0xea, 0xc3, 0x5d, 0x88]"
  by (simp only: Hash256d_def sodd1 sodd2)

lemma sample_odd_coinbase_id: "GetTxID sample_odd_coinbase = sample_odd_id"
  unfolding GetTxID_def sample_odd_id_def sodd [symmetric]
  by (rule arg_cong [where f = Hash256d])
     (simp add: serialize_eval sample_coinbase_def sample_odd_coinbase_def replicate_numeral_unfold)

lemma stx1_c1:
  "bTransform
    [hx ''6a09e667'', hx ''bb67ae85'', hx ''3c6ef372'', hx ''a54ff53a'', hx ''510e527f'', hx ''9b05688c'', hx ''1f83d9ab'', hx ''5be0cd19'']
    [hx ''01000000'', hx ''01000000'', hx ''00000000'', hx ''00000000'', hx ''00000000'', hx ''00000000'', hx ''00000000'', hx ''00000000'',
     hx ''00000000'', hx ''00000000'', hx ''0000ffff'', hx ''ffff0100'', hx ''05000000'', hx ''00000000'', hx ''01070000'', hx ''00008000'']
   = [hx ''d5006429'', hx ''46d78a89'', hx ''b42e2b00'', hx ''89fe79fa'', hx ''9994c020'', hx ''c24362c4'', hx ''d3c47486'', hx ''b1c8b3f8'']"
  by (simp only: sha_eval hx_simps)

lemma stx1_c2:
  "bTransform
    [hx ''d5006429'', hx ''46d78a89'', hx ''b42e2b00'', hx ''89fe79fa'', hx ''9994c020'', hx ''c24362c4'', hx ''d3c47486'', hx ''b1c8b3f8'']
    [hx ''00000000'', hx ''00000000'', hx ''00000000'', hx ''00000000'', hx ''00000000'', hx ''00000000'', hx ''00000000'', hx ''00000000'',
     hx ''00000000'', hx ''00000000'', hx ''00000000'', hx ''00000000'', hx ''00000000'', hx ''00000000'', hx ''00000000'', hx ''000001f0'']
   = [hx ''e4d329c8'', hx ''d66b85ad'', hx ''e16a5292'', hx ''f1a66400'', hx ''332cc046'', hx ''ab018dd5'', hx ''ee269ee2'', hx ''04ead8e4'']"
  by (simp only: sha_eval hx_simps)

lemma stx1:
  "Hash256
    [1, 0, 0, 0, 1, 0, 0, 0, 0, 0, 0, 0, 0, 0, 0, 0,
     0, 0, 0, 0, 0, 0, 0, 0, 0, 0, 0, 0, 0, 0, 0, 0,
     0, 0, 0, 0, 0, 0, 0, 0, 0, 0, 0xff, 0xff, 0xff, 0xff, 1, 0,
     0x05, 0, 0, 0, 0, 0, 0, 0, 1, 0x07, 0, 0, 0, 0]
   = [0xe4, 0xd3, 0x29, 0xc8, 0xd6, 0x6b, 0x85, 0xad, 0xe1, 0x6a, 0x52, 0x92, 0xf1, 0xa6, 0x64, 0,
     0x33, 0x2c, 0xc0, 0x46, 0xab, 1, 0x8d, 0xd5, 0xee, 0x26, 0x9e, 0xe2, 0x04, 0xea, 0xd8, 0xe4]"
  by (subst Hash256_words [where wss = "[[hx ''01000000'', hx ''01000000'', hx ''00000000'', hx ''00000000'', hx ''00000000'', hx ''00000000'', hx ''00000000'', hx ''00000000'',
     hx ''00000000'', hx ''00000000'', hx ''0000ffff'', hx ''ffff0100'', hx ''05000000'', hx ''00000000'', hx ''01070000'', hx ''00008000''],
     [hx ''00000000'', hx ''00000000'', hx ''00000000'', hx ''00000000'', hx ''00000000'', hx ''00000000'', hx ''00000000'', hx ''00000000'',
     hx ''00000000'', hx ''00000000'', hx ''00000000'', hx ''00000000'', hx ''00000000'', hx ''00000000'', hx ''00000000'', hx ''000001f0'']]"])
     (simp_all add: sha_pad_eval hb_eval bH0_def stx1_c1 stx1_c2)

lemma stx2_c1:
  "bTransform
    [hx ''6a09e667'', hx ''bb67ae85'', hx ''3c6ef372'', hx ''a54ff53a'', hx ''510e527f'', hx ''9b05688c'', hx ''1f83d9ab'', hx ''5be0cd19'']
    [hx ''e4d329c8'', hx ''d66b85ad'', hx ''e16a5292'', hx ''f1a66400'', hx ''332cc046'', hx ''ab018dd5'', hx ''ee269ee2'', hx ''04ead8e4'',
     hx ''80000000'', hx ''00000000'', hx ''00000000'', hx ''00000000'', hx ''00000000'', hx ''00000000'', hx ''00000000'', hx ''00000100'']
   = [hx ''b2baa2c5'', hx ''77a10877'', hx ''bcdfcce2'', hx ''6e2a04f6'', hx ''e6bc1c06'', hx ''1350da2f'', hx ''266ff33c'', hx ''6390fe57'']"
  by (simp only: sha_eval hx_simps)

lemma stx2:
  "Hash256
    [0xe4, 0xd3, 0x29, 0xc8, 0xd6, 0x6b, 0x85, 0xad, 0xe1, 0x6a, 0x52, 0x92, 0xf1, 0xa6, 0x64, 0,
     0x33, 0x2c, 0xc0, 0x46, 0xab, 1, 0x8d, 0xd5, 0xee, 0x26, 0x9e, 0xe2, 0x04, 0xea, 0xd8, 0xe4]
   = [0xb2, 0xba, 0xa2, 0xc5, 0x77, 0xa1, 0x08, 0x77, 0xbc, 0xdf, 0xcc, 0xe2, 0x6e, 0x2a, 0x04, 0xf6,
     0xe6, 0xbc, 0x1c, 0x06, 0x13, 0x50, 0xda, 0x2f, 0x26, 0x6f, 0xf3, 0x3c, 0x63, 0x90, 0xfe, 0x57]"
  by (subst Hash256_words [where wss = "[[hx ''e4d329c8'', hx ''d66b85ad'', hx ''e16a5292'', hx ''f1a66400'', hx ''332cc046'', hx ''ab018dd5'', hx ''ee269ee2'', hx ''04ead8e4'',
     hx ''80000000'', hx ''00000000'', hx ''00000000'', hx ''00000000'', hx ''00000000'', hx ''00000000'', hx ''00000000'', hx ''00000100'']]"])
     (simp_all add: sha_pad_eval hb_eval bH0_def stx2_c1)

lemma stx:
  "Hash256d
    [1, 0, 0, 0, 1, 0, 0, 0, 0, 0, 0, 0, 0, 0, 0, 0,
     0, 0, 0, 0, 0, 0, 0, 0, 0, 0, 0, 0, 0, 0, 0, 0,
     0, 0, 0, 0, 0, 0, 0, 0, 0, 0, 0xff, 0xff, 0xff, 0xff, 1, 0,
     0x05, 0, 0, 0, 0, 0, 0, 0, 1, 0x07, 0, 0, 0, 0]
   = [0xb2, 0xba, 0xa2, 0xc5, 0x77, 0xa1, 0x08, 0x77, 0xbc, 0xdf, 0xcc, 0xe2, 0x6e, 0x2a, 0x04, 0xf6,
     0xe6, 0xbc, 0x1c, 0x06, 0x13, 0x50, 0xda, 0x2f, 0x26, 0x6f, 0xf3, 0x3c, 0x63, 0x90, 0xfe, 0x57]"
  by (simp only: Hash256d_def stx1 stx2)

lemma sample_tx_id: "GetTxID sample_tx =
    [0xb2, 0xba, 0xa2, 0xc5, 0x77, 0xa1, 0x08, 0x77, 0xbc, 0xdf, 0xcc, 0xe2, 0x6e, 0x2a, 0x04, 0xf6,
     0xe6, 0xbc, 0x1c, 0x06, 0x13, 0x50, 0xda, 0x2f, 0x26, 0x6f, 0xf3, 0x3c, 0x63, 0x90, 0xfe, 0x57]"
  unfolding GetTxID_def stx [symmetric]
  by (rule arg_cong [where f = Hash256d])
     (simp add: serialize_eval sample_tx_def replicate_numeral_unfold)

lemma sty1_c1:
  "bTransform
    [hx ''6a09e667'', hx ''bb67ae85'', hx ''3c6ef372'', hx ''a54ff53a'', hx ''510e527f'', hx ''9b05688c'', hx ''1f83d9ab'', hx ''5be0cd19'']
    [hx ''01000000'', hx ''01000000'', hx ''00000000'', hx ''00000000'', hx ''00000000'', hx ''00000000'', hx ''00000000'', hx ''00000000'',
     hx ''00000000'', hx ''00010000'', hx ''00000000'', hx ''00000100'', hx ''05000000'', hx ''00000000'', hx ''01070000'', hx ''00008000'']
   = [hx ''e57bd3d8'', hx ''b2834ad2'', hx ''dcec07cb'', hx ''2a880b0b'', hx ''77bc7c45'', hx ''ffc2ddd2'', hx ''7e2edeec'', hx ''9f9d1526'']"
  by (simp only: sha_eval hx_simps)

lemma sty1_c2:
  "bTransform
    [hx ''e57bd3d8'', hx ''b2834ad2'', hx ''dcec07cb'', hx ''2a880b0b'', hx ''77bc7c45'', hx ''ffc2ddd2'', hx ''7e2edeec'', hx ''9f9d1526'']
    [hx ''00000000'', hx ''00000000'', hx ''00000000'', hx ''00000000'', hx ''00000000'', hx ''00000000'', hx ''00000000'', hx ''00000000'',
     hx ''00000000'', hx ''00000000'', hx ''00000000'', hx ''00000000'', hx ''00000000'', hx ''00000000'', hx ''00000000'', hx ''000001f0'']
   = [hx ''4ef59279'', hx ''0628e901'', hx ''839b38bc'', hx ''fa5494d3'', hx ''db4e2484'', hx ''0bcd04b1'', hx ''7c25a170'', hx ''255d6eee'']"
  by (simp only: sha_eval hx_simps)

lemma sty1:
  "Hash256
    [1, 0, 0, 0, 1, 0, 0, 0, 0, 0, 0, 0, 0, 0, 0, 0,
     0, 0, 0, 0, 0, 0, 0, 0, 0, 0, 0, 0, 0, 0, 0, 0,
     0, 0, 0, 0, 0, 1, 0, 0, 0, 0, 0, 0, 0, 0, 1, 0,
     0x05, 0, 0, 0, 0, 0, 0, 0, 1, 0x07, 0, 0, 0, 0]
   = [0x4e, 0xf5, 0x92, 0x79, 0x06, 0x28, 0xe9, 1, 0x83, 0x9b, 0x38, 0xbc, 0xfa, 0x54, 0x94, 0xd3,
     0xdb, 0x4e, 0x24, 0x84, 0x0b, 0xcd, 0x04, 0xb1, 0x7c, 0x25, 0xa1, 0x70, 0x25, 0x5d, 0x6e, 0xee]"
  by (subst Hash256_words [where wss = "[[hx ''01000000'', hx ''01000000'', hx ''00000000'', hx ''00000000'', hx ''00000000'', hx ''00000000'', hx ''00000000'', hx ''00000000'',
     hx ''00000000'', hx ''00010000'', hx ''00000000'', hx ''00000100'', hx ''05000000'', hx ''00000000'', hx ''01070000'', hx ''00008000''],
     [hx ''00000000'', hx ''00000000'', hx ''00000000'', hx ''00000000'', hx ''00000000'', hx ''00000000'', hx ''00000000'', hx ''00000000'',
     hx ''00000000'', hx ''00000000'', hx ''00000000'', hx ''00000000'', hx ''00000000'', hx ''00000000'', hx ''00000000'', hx ''000001f0'']]"])
     (simp_all add: sha_pad_eval hb_eval bH0_def sty1_c1 sty1_c2)

lemma sty2_c1:
  "bTransform
    [hx ''6a09e667'', hx ''bb67ae85'', hx ''3c6ef372'', hx ''a54ff53a'', hx ''510e527f'', hx ''9b05688c'', hx ''1f83d9ab'', hx ''5be0cd19'']
    [hx ''4ef59279'', hx ''0628e901'', hx ''839b38bc'', hx ''fa5494d3'', hx ''db4e2484'', hx ''0bcd04b1'', hx ''7c25a170'', hx ''255d6eee'',
     hx ''80000000'', hx ''00000000'', hx ''00000000'', hx ''00000000'', hx ''00000000'', hx ''00000000'', hx ''00000000'', hx ''00000100'']
   = [hx ''84efbf9d'', hx ''1a887532'', hx ''48fbccaf'', hx ''16ef1b6d'', hx ''3dbaffa4'', hx ''72bc9494'', hx ''576957d8'', hx ''0aa34239'']"
  by (simp only: sha_eval hx_simps)

lemma sty2:
  "Hash256
    [0x4e, 0xf5, 0x92, 0x79, 0x06, 0x28, 0xe9, 1, 0x83, 0x9b, 0x38, 0xbc, 0xfa, 0x54, 0x94, 0xd3,
     0xdb, 0x4e, 0x24, 0x84, 0x0b, 0xcd, 0x04, 0xb1, 0x7c, 0x25, 0xa1, 0x70, 0x25, 0x5d, 0x6e, 0xee]
   = [0x84, 0xef, 0xbf, 0x9d, 0x1a, 0x88, 0x75, 0x32, 0x48, 0xfb, 0xcc, 0xaf, 0x16, 0xef, 0x1b, 0x6d,
     0x3d, 0xba, 0xff, 0xa4, 0x72, 0xbc, 0x94, 0x94, 0x57, 0x69, 0x57, 0xd8, 0x0a, 0xa3, 0x42, 0x39]"
  by (subst Hash256_words [where wss = "[[hx ''4ef59279'', hx ''0628e901'', hx ''839b38bc'', hx ''fa5494d3'', hx ''db4e2484'', hx ''0bcd04b1'', hx ''7c25a170'', hx ''255d6eee'',
     hx ''80000000'', hx ''00000000'', hx ''00000000'', hx ''00000000'', hx ''00000000'', hx ''00000000'', hx ''00000000'', hx ''00000100'']]"])
     (simp_all add: sha_pad_eval hb_eval bH0_def sty2_c1)

lemma sty:
  "Hash256d
    [1, 0, 0, 0, 1, 0, 0, 0, 0, 0, 0, 0, 0, 0, 0, 0,
     0, 0, 0, 0, 0, 0, 0, 0, 0, 0, 0, 0, 0, 0, 0, 0,
     0, 0, 0, 0, 0, 1, 0, 0, 0, 0, 0, 0, 0, 0, 1, 0,
     0x05, 0, 0, 0, 0, 0, 0, 0, 1, 0x07, 0, 0, 0, 0]
   = [0x84, 0xef, 0xbf, 0x9d, 0x1a, 0x88, 0x75, 0x32, 0x48, 0xfb, 0xcc, 0xaf, 0x16, 0xef, 0x1b, 0x6d,
     0x3d, 0xba, 0xff, 0xa4, 0x72, 0xbc, 0x94, 0x94, 0x57, 0x69, 0x57, 0xd8, 0x0a, 0xa3, 0x42, 0x39]"
  by (simp only: Hash256d_def sty1 sty2)

lemma stz1_c1:
  "bTransform
    [hx ''6a09e667'', hx ''bb67ae85'', hx ''3c6ef372'', hx ''a54ff53a'', hx ''510e527f'', hx ''9b05688c'', hx ''1f83d9ab'', hx ''5be0cd19'']
    [hx ''01000000'', hx ''02000000'', hx ''00000000'', hx ''00000000'', hx ''00000000'', hx ''00000000'', hx ''00000000'', hx ''00000000'',
     hx ''00000000'', hx ''00010000'', hx ''00000000'', hx ''00000000'', hx ''00000000'', hx ''00000000'', hx ''00000000'', hx ''00000000'']
   = [hx ''5d863cf6'', hx ''4769fe00'', hx ''4ec140c7'', hx ''7d55d230'', hx ''dc439c5b'', hx ''16f470b2'', hx ''29d5552a'', hx ''b807c027'']"
  by (simp only: sha_eval hx_simps)

lemma stz1_c2:
  "bTransform
    [hx ''5d863cf6'', hx ''4769fe00'', hx ''4ec140c7'', hx ''7d55d230'', hx ''dc439c5b'', hx ''16f470b2'', hx ''29d5552a'', hx ''b807c027'']
    [hx ''00000000'', hx ''00000000'', hx ''00000000'', hx ''00000200'', hx ''00000000'', hx ''00000001'', hx ''00050000'', hx ''00000000'',
     hx ''00010700'', hx ''00000080'', hx ''00000000'', hx ''00000000'', hx ''00000000'', hx ''00000000'', hx ''00000000'', hx ''00000338'']
   = [hx ''904fefab'', hx ''3e189080'', hx ''a9dfb7e8'', hx ''e1095b73'', hx ''7237df92'', hx ''05a9a74d'', hx ''5af44b66'', hx ''4b277ebb'']"
  by (simp only: sha_eval hx_simps)

lemma stz1:
  "Hash256
    [1, 0, 0, 0, 0x02, 0, 0, 0, 0, 0, 0, 0, 0, 0, 0, 0,
     0, 0, 0, 0, 0, 0, 0, 0, 0, 0, 0, 0, 0, 0, 0, 0,
     0, 0, 0, 0, 0, 1, 0, 0, 0, 0, 0, 0, 0, 0, 0, 0,
     0, 0, 0, 0, 0, 0, 0, 0, 0, 0, 0, 0, 0, 0, 0, 0,
     0, 0, 0, 0, 0, 0, 0, 0, 0, 0, 0, 0, 0, 0, 0x02, 0,
     0, 0, 0, 0, 0, 0, 0, 1, 0, 0x05, 0, 0, 0, 0, 0, 0,
     0, 1, 0x07, 0, 0, 0, 0]
   = [0x90, 0x4f, 0xef, 0xab, 0x3e, 0x18, 0x90, 0x80, 0xa9, 0xdf, 0xb7, 0xe8, 0xe1, 0x09, 0x5b, 0x73,
     0x72, 0x37, 0xdf, 0x92, 0x05, 0xa9, 0xa7, 0x4d, 0x5a, 0xf4, 0x4b, 0x66, 0x4b, 0x27, 0x7e, 0xbb]"
  by (subst Hash256_words [where wss = "[[hx ''01000000'', hx ''02000000'', hx ''00000000'', hx ''00000000'', hx ''00000000'', hx ''00000000'', hx ''00000000'', hx ''00000000'',
     hx ''00000000'', hx ''00010000'', hx ''00000000'', hx ''00000000'', hx ''00000000'', hx ''00000000'', hx ''00000000'', hx ''00000000''],
     [hx ''00000000'', hx ''00000000'', hx ''00000000'', hx ''00000200'', hx ''00000000'', hx ''00000001'', hx ''00050000'', hx ''00000000'',
     hx ''00010700'', hx ''00000080'', hx ''00000000'', hx ''00000000'', hx ''00000000'', hx ''00000000'', hx ''00000000'', hx ''00000338'']]"])
     (simp_all add: sha_pad_eval hb_eval bH0_def stz1_c1 stz1_c2)

lemma stz2_c1:
  "bTransform
    [hx ''6a09e667'', hx ''bb67ae85'', hx ''3c6ef372'', hx ''a54ff53a'', hx ''510e527f'', hx ''9b05688c'', hx ''1f83d9ab'', hx ''5be0cd19'']
    [hx ''904fefab'', hx ''3e189080'', hx ''a9dfb7e8'', hx ''e1095b73'', hx ''7237df92'', hx ''05a9a74d'', hx ''5af44b66'', hx ''4b277ebb'',
     hx ''80000000'', hx ''00000000'', hx ''00000000'', hx ''00000000'', hx ''00000000'', hx ''00000000'', hx ''00000000'', hx ''00000100'']
   = [hx ''e43c06de'', hx ''440c0f78'', hx ''0eefa197'', hx ''5ce18a6d'', hx ''8ddffd28'', hx ''c2040014'', hx ''f71bd86d'', hx ''6753080b'']"
  by (simp only: sha_eval hx_simps)

lemma stz2:
  "Hash256
    [0x90, 0x4f, 0xef, 0xab, 0x3e, 0x18, 0x90, 0x80, 0xa9, 0xdf, 0xb7, 0xe8, 0xe1, 0x09, 0x5b, 0x73,
     0x72, 0x37, 0xdf, 0x92, 0x05, 0xa9, 0xa7, 0x4d, 0x5a, 0xf4, 0x4b, 0x66, 0x4b, 0x27, 0x7e, 0xbb]
   = [0xe4, 0x3c, 0x06, 0xde, 0x44, 0x0c, 0x0f, 0x78, 0x0e, 0xef, 0xa1, 0x97, 0x5c, 0xe1, 0x8a, 0x6d,
     0x8d, 0xdf, 0xfd, 0x28, 0xc2, 0x04, 0, 0x14, 0xf7, 0x1b, 0xd8, 0x6d, 0x67, 0x53, 0x08, 0x0b]"
  by (subst Hash256_words [where wss = "[[hx ''904fefab'', hx ''3e189080'', hx ''a9dfb7e8'', hx ''e1095b73'', hx ''7237df92'', hx ''05a9a74d'', hx ''5af44b66'', hx ''4b277ebb'',
     hx ''80000000'', hx ''00000000'', hx ''00000000'', hx ''00000000'', hx ''00000000'', hx ''00000000'', hx ''00000000'', hx ''00000100'']]"])
     (simp_all add: sha_pad_eval hb_eval bH0_def stz2_c1)

lemma stz:
  "Hash256d
    [1, 0, 0, 0, 0x02, 0, 0, 0, 0, 0, 0, 0, 0, 0, 0, 0,
     0, 0, 0, 0, 0, 0, 0, 0, 0, 0, 0, 0, 0, 0, 0, 0,
     0, 0, 0, 0, 0, 1, 0, 0, 0, 0, 0, 0, 0, 0, 0, 0,
     0, 0, 0, 0, 0, 0, 0, 0, 0, 0, 0, 0, 0, 0, 0, 0,
     0, 0, 0, 0, 0, 0, 0, 0, 0, 0, 0, 0, 0, 0, 0x02, 0,
     0, 0, 0, 0, 0, 0, 0, 1, 0, 0x05, 0, 0, 0, 0, 0, 0,
     0, 1, 0x07, 0, 0, 0, 0]
   = [0xe4, 0x3c, 0x06, 0xde, 0x44, 0x0c, 0x0f, 0x78, 0x0e, 0xef, 0xa1, 0x97, 0x5c, 0xe1, 0x8a, 0x6d,
     0x8d, 0xdf, 0xfd, 0x28, 0xc2, 0x04, 0, 0x14, 0xf7, 0x1b, 0xd8, 0x6d, 0x67, 0x53, 0x08, 0x0b]"
  by (simp only: Hash256d_def stz1 stz2)

lemma sample_tx2_id: "GetTxID sample_tx2 =
    [0x84, 0xef, 0xbf, 0x9d, 0x1a, 0x88, 0x75, 0x32, 0x48, 0xfb, 0xcc, 0xaf, 0x16, 0xef, 0x1b, 0x6d,
     0x3d, 0xba, 0xff, 0xa4, 0x72, 0xbc, 0x94, 0x94, 0x57, 0x69, 0x57, 0xd8, 0x0a, 0xa3, 0x42, 0x39]"
  unfolding GetTxID_def sty [symmetric]
  by (rule arg_cong [where f = Hash256d])
     (simp add: serialize_eval sample_tx_def sample_tx2_def replicate_numeral_unfold)

lemma sample_tx3_id: "GetTxID sample_tx3 =
    [0xe4, 0x3c, 0x06, 0xde, 0x44, 0x0c, 0x0f, 0x78, 0x0e, 0xef, 0xa1, 0x97, 0x5c, 0xe1, 0x8a, 0x6d,
     0x8d, 0xdf, 0xfd, 0x28, 0xc2, 0x04, 0, 0x14, 0xf7, 0x1b, 0xd8, 0x6d, 0x67, 0x53, 0x08, 0x0b]"
  unfolding GetTxID_def stz [symmetric]
  by (rule arg_cong [where f = Hash256d])
     (simp add: serialize_eval sample_tx_def sample_tx3_def replicate_numeral_unfold)

lemma snode1_c1:
  "bTransform
    [hx ''6a09e667'', hx ''bb67ae85'', hx ''3c6ef372'', hx ''a54ff53a'', hx ''510e527f'', hx ''9b05688c'', hx ''1f83d9ab'', hx ''5be0cd19'']
    [hx ''676ffa0f'', hx ''6197bb61'', hx ''e6b7af34'', hx ''469ea8ac'', hx ''8061528d'', hx ''57158e30'', hx ''43a7e6ab'', hx ''b682cd1e'',
     hx ''b2baa2c5'', hx ''77a10877'', hx ''bcdfcce2'', hx ''6e2a04f6'', hx ''e6bc1c06'', hx ''1350da2f'', hx ''266ff33c'', hx ''6390fe57'']
   = [hx ''18d2d271'', hx ''a5ca5888'', hx ''1eaf53c9'', hx ''d13dc456'', hx ''4608ddbf'', hx ''f211d1fd'', hx ''fab8dc32'', hx ''b61eb93f'']"
  by (simp only: sha_eval hx_simps)

lemma snode1_c2:
  "bTransform
    [hx ''18d2d271'', hx ''a5ca5888'', hx ''1eaf53c9'', hx ''d13dc456'', hx ''4608ddbf'', hx ''f211d1fd'', hx ''fab8dc32'', hx ''b61eb93f'']
    [hx ''80000000'', hx ''00000000'', hx ''00000000'', hx ''00000000'', hx ''00000000'', hx ''00000000'', hx ''00000000'', hx ''00000000'',
     hx ''00000000'', hx ''00000000'', hx ''00000000'', hx ''00000000'', hx ''00000000'', hx ''00000000'', hx ''00000000'', hx ''00000200'']
   = [hx ''b686c6be'', hx ''e8cb066b'', hx ''2e402f80'', hx ''9c7eca8b'', hx ''a53aabbc'', hx ''4556882b'', hx ''c66fe7af'', hx ''393cb7c9'']"
  by (simp only: sha_eval hx_simps)

lemma snode1:
  "Hash256
    [0x67, 0x6f, 0xfa, 0x0f, 0x61, 0x97, 0xbb, 0x61, 0xe6, 0xb7, 0xaf, 0x34, 0x46, 0x9e, 0xa8, 0xac,
     0x80, 0x61, 0x52, 0x8d, 0x57, 0x15, 0x8e, 0x30, 0x43, 0xa7, 0xe6, 0xab, 0xb6, 0x82, 0xcd, 0x1e,
     0xb2, 0xba, 0xa2, 0xc5, 0x77, 0xa1, 0x08, 0x77, 0xbc, 0xdf, 0xcc, 0xe2, 0x6e, 0x2a, 0x04, 0xf6,
     0xe6, 0xbc, 0x1c, 0x06, 0x13, 0x50, 0xda, 0x2f, 0x26, 0x6f, 0xf3, 0x3c, 0x63, 0x90, 0xfe, 0x57]
   = [0xb6, 0x86, 0xc6, 0xbe, 0xe8, 0xcb, 0x06, 0x6b, 0x2e, 0x40, 0x2f, 0x80, 0x9c, 0x7e, 0xca, 0x8b,
     0xa5, 0x3a, 0xab, 0xbc, 0x45, 0x56, 0x88, 0x2b, 0xc6, 0x6f, 0xe7, 0xaf, 0x39, 0x3c, 0xb7, 0xc9]"
  by (subst Hash256_words [where wss = "[[hx ''676ffa0f'', hx ''6197bb61'', hx ''e6b7af34'', hx ''469ea8ac'', hx ''8061528d'', hx ''57158e30'', hx ''43a7e6ab'', hx ''b682cd1e'',
     hx ''b2baa2c5'', hx ''77a10877'', hx ''bcdfcce2'', hx ''6e2a04f6'', hx ''e6bc1c06'', hx ''1350da2f'', hx ''266ff33c'', hx ''6390fe57''],
     [hx ''80000000'', hx ''00000000'', hx ''00000000'', hx ''00000000'', hx ''00000000'', hx ''00000000'', hx ''00000000'', hx ''00000000'',
     hx ''00000000'', hx ''00000000'', hx ''00000000'', hx ''00000000'', hx ''00000000'', hx ''00000000'', hx ''00000000'', hx ''00000200'']]"])
     (simp_all add: sha_pad_eval hb_eval bH0_def snode1_c1 snode1_c2)

lemma snode2_c1:
  "bTransform
    [hx ''6a09e667'', hx ''bb67ae85'', hx ''3c6ef372'', hx ''a54ff53a'', hx ''510e527f'', hx ''9b05688c'', hx ''1f83d9ab'', hx ''5be0cd19'']
    [hx ''b686c6be'', hx ''e8cb066b'', hx ''2e402f80'', hx ''9c7eca8b'', hx ''a53aabbc'', hx ''4556882b'', hx ''c66fe7af'', hx ''393cb7c9'',
     hx ''80000000'', hx ''00000000'', hx ''00000000'', hx ''00000000'', hx ''00000000'', hx ''00000000'', hx ''00000000'', hx ''00000100'']
   = [hx ''cee1f23a'', hx ''8eb31187'', hx ''dafb5973'', hx ''2c77a11c'', hx ''50087cb3'', hx ''f985b292'', hx ''44eca8f6'', hx ''6a71fc60'']"
  by (simp only: sha_eval hx_simps)

lemma snode2:
  "Hash256
    [0xb6, 0x86, 0xc6, 0xbe, 0xe8, 0xcb, 0x06, 0x6b, 0x2e, 0x40, 0x2f, 0x80, 0x9c, 0x7e, 0xca, 0x8b,
     0xa5, 0x3a, 0xab, 0xbc, 0x45, 0x56, 0x88, 0x2b, 0xc6, 0x6f, 0xe7, 0xaf, 0x39, 0x3c, 0xb7, 0xc9]
   = [0xce, 0xe1, 0xf2, 0x3a, 0x8e, 0xb3, 0x11, 0x87, 0xda, 0xfb, 0x59, 0x73, 0x2c, 0x77, 0xa1, 0x1c,
     0x50, 0x08, 0x7c, 0xb3, 0xf9, 0x85, 0xb2, 0x92, 0x44, 0xec, 0xa8, 0xf6, 0x6a, 0x71, 0xfc, 0x60]"
  by (subst Hash256_words [where wss = "[[hx ''b686c6be'', hx ''e8cb066b'', hx ''2e402f80'', hx ''9c7eca8b'', hx ''a53aabbc'', hx ''4556882b'', hx ''c66fe7af'', hx ''393cb7c9'',
     hx ''80000000'', hx ''00000000'', hx ''00000000'', hx ''00000000'', hx ''00000000'', hx ''00000000'', hx ''00000000'', hx ''00000100'']]"])
     (simp_all add: sha_pad_eval hb_eval bH0_def snode2_c1)

lemma snode:
  "Hash256d
    [0x67, 0x6f, 0xfa, 0x0f, 0x61, 0x97, 0xbb, 0x61, 0xe6, 0xb7, 0xaf, 0x34, 0x46, 0x9e, 0xa8, 0xac,
     0x80, 0x61, 0x52, 0x8d, 0x57, 0x15, 0x8e, 0x30, 0x43, 0xa7, 0xe6, 0xab, 0xb6, 0x82, 0xcd, 0x1e,
     0xb2, 0xba, 0xa2, 0xc5, 0x77, 0xa1, 0x08, 0x77, 0xbc, 0xdf, 0xcc, 0xe2, 0x6e, 0x2a, 0x04, 0xf6,
     0xe6, 0xbc, 0x1c, 0x06, 0x13, 0x50, 0xda, 0x2f, 0x26, 0x6f, 0xf3, 0x3c, 0x63, 0x90, 0xfe, 0x57]
   = [0xce, 0xe1, 0xf2, 0x3a, 0x8e, 0xb3, 0x11, 0x87, 0xda, 0xfb, 0x59, 0x73, 0x2c, 0x77, 0xa1, 0x1c,
     0x50, 0x08, 0x7c, 0xb3, 0xf9, 0x85, 0xb2, 0x92, 0x44, 0xec, 0xa8, 0xf6, 0x6a, 0x71, 0xfc, 0x60]"
  by (simp only: Hash256d_def snode1 snode2)

lemma shd1_c1:
  "bTransform
    [hx ''6a09e667'', hx ''bb67ae85'', hx ''3c6ef372'', hx ''a54ff53a'', hx ''510e527f'', hx ''9b05688c'', hx ''1f83d9ab'', hx ''5be0cd19'']
    [hx ''01000000'', hx ''00000000'', hx ''00000000'', hx ''00000000'', hx ''00000000'', hx ''00000000'', hx ''00000000'', hx ''00000000'',
     hx ''00000000'', hx ''676ffa0f'', hx ''6197bb61'', hx ''e6b7af34'', hx ''469ea8ac'', hx ''8061528d'', hx ''57158e30'', hx ''43a7e6ab'']
   = [hx ''8f11a31b'', hx ''53d646d1'', hx ''ff02c7ef'', hx ''22c34954'', hx ''93f0980d'', hx ''f79880c2'', hx ''9e29e4e4'', hx ''80ac09eb'']"
  by (simp only: sha_eval hx_simps)

lemma shd1_c2:
  "bTransform
    [hx ''8f11a31b'', hx ''53d646d1'', hx ''ff02c7ef'', hx ''22c34954'', hx ''93f0980d'', hx ''f79880c2'', hx ''9e29e4e4'', hx ''80ac09eb'']
    [hx ''b682cd1e'', hx ''01000000'', hx ''ffff7f20'', hx ''01000000'', hx ''00ca9a3b'', hx ''00000000'', hx ''00000000'', hx ''00000000'',
     hx ''80c3c901'', hx ''00000000'', hx ''80000000'', hx ''00000000'', hx ''00000000'', hx ''00000000'', hx ''00000000'', hx ''00000340'']
   = [hx ''b2e212af'', hx ''113d4431'', hx ''5895b824'', hx ''141e6954'', hx ''32898b4a'', hx ''89bafa38'', hx ''aa7e216e'', hx ''dc92ea65'']"
  by (simp only: sha_eval hx_simps)

lemma shd1:
  "Hash256
    [1, 0, 0, 0, 0, 0, 0, 0, 0, 0, 0, 0, 0, 0, 0, 0,
     0, 0, 0, 0, 0, 0, 0, 0, 0, 0, 0, 0, 0, 0, 0, 0,
     0, 0, 0, 0, 0x67, 0x6f, 0xfa, 0x0f, 0x61, 0x97, 0xbb, 0x61, 0xe6, 0xb7, 0xaf, 0x34,
     0x46, 0x9e, 0xa8, 0xac, 0x80, 0x61, 0x52, 0x8d, 0x57, 0x15, 0x8e, 0x30, 0x43, 0xa7, 0xe6, 0xab,
     0xb6, 0x82, 0xcd, 0x1e, 1, 0, 0, 0, 0xff, 0xff, 0x7f, 0x20, 1, 0, 0, 0,
     0, 0xca, 0x9a, 0x3b, 0, 0, 0, 0, 0, 0, 0, 0, 0, 0, 0, 0,
     0x80, 0xc3, 0xc9, 1, 0, 0, 0, 0]
   = [0xb2, 0xe2, 0x12, 0xaf, 0x11, 0x3d, 0x44, 0x31, 0x58, 0x95, 0xb8, 0x24, 0x14, 0x1e, 0x69, 0x54,
     0x32, 0x89, 0x8b, 0x4a, 0x89, 0xba, 0xfa, 0x38, 0xaa, 0x7e, 0x21, 0x6e, 0xdc, 0x92, 0xea, 0x65]"
  by (subst Hash256_words [where wss = "[[hx ''01000000'', hx ''00000000'', hx ''00000000'', hx ''00000000'', hx ''00000000'', hx ''00000000'', hx ''00000000'', hx ''00000000'',
     hx ''00000000'', hx ''676ffa0f'', hx ''6197bb61'', hx ''e6b7af34'', hx ''469ea8ac'', hx ''8061528d'', hx ''57158e30'', hx ''43a7e6ab''],
     [hx ''b682cd1e'', hx ''01000000'', hx ''ffff7f20'', hx ''01000000'', hx ''00ca9a3b'', hx ''00000000'', hx ''00000000'', hx ''00000000'',
     hx ''80c3c901'', hx ''00000000'', hx ''80000000'', hx ''00000000'', hx ''00000000'', hx ''00000000'', hx ''00000000'', hx ''00000340'']]"])
     (simp_all add: sha_pad_eval hb_eval bH0_def shd1_c1 shd1_c2)

lemma shd2_c1:
  "bTransform
    [hx ''6a09e667'', hx ''bb67ae85'', hx ''3c6ef372'', hx ''a54ff53a'', hx ''510e527f'', hx ''9b05688c'', hx ''1f83d9ab'', hx ''5be0cd19'']
    [hx ''b2e212af'', hx ''113d4431'', hx ''5895b824'', hx ''141e6954'', hx ''32898b4a'', hx ''89bafa38'', hx ''aa7e216e'', hx ''dc92ea65'',
     hx ''80000000'', hx ''00000000'', hx ''00000000'', hx ''00000000'', hx ''00000000'', hx ''00000000'', hx ''00000000'', hx ''00000100'']
   = [hx ''1ad3fe50'', hx ''296d2a5c'', hx ''738c9769'', hx ''b4c34416'', hx ''55ee106b'', hx ''1e9336a2'', hx ''bd7e5b92'', hx ''fd8a8351'']"
  by (simp only: sha_eval hx_simps)

lemma shd2:
  "Hash256
    [0xb2, 0xe2, 0x12, 0xaf, 0x11, 0x3d, 0x44, 0x31, 0x58, 0x95, 0xb8, 0x24, 0x14, 0x1e, 0x69, 0x54,
     0x32, 0x89, 0x8b, 0x4a, 0x89, 0xba, 0xfa, 0x38, 0xaa, 0x7e, 0x21, 0x6e, 0xdc, 0x92, 0xea, 0x65]
   = [0x1a, 0xd3, 0xfe, 0x50, 0x29, 0x6d, 0x2a, 0x5c, 0x73, 0x8c, 0x97, 0x69, 0xb4, 0xc3, 0x44, 0x16,
     0x55, 0xee, 0x10, 0x6b, 0x1e, 0x93, 0x36, 0xa2, 0xbd, 0x7e, 0x5b, 0x92, 0xfd, 0x8a, 0x83, 0x51]"
  by (subst Hash256_words [where wss = "[[hx ''b2e212af'', hx ''113d4431'', hx ''5895b824'', hx ''141e6954'', hx ''32898b4a'', hx ''89bafa38'', hx ''aa7e216e'', hx ''dc92ea65'',
     hx ''80000000'', hx ''00000000'', hx ''00000000'', hx ''00000000'', hx ''00000000'', hx ''00000000'', hx ''00000000'', hx ''00000100'']]"])
     (simp_all add: sha_pad_eval hb_eval bH0_def shd2_c1)

lemma shd:
  "Hash256d
    [1, 0, 0, 0, 0, 0, 0, 0, 0, 0, 0, 0, 0, 0, 0, 0,
     0, 0, 0, 0, 0, 0, 0, 0, 0, 0, 0, 0, 0, 0, 0, 0,
     0, 0, 0, 0, 0x67, 0x6f, 0xfa, 0x0f, 0x61, 0x97, 0xbb, 0x61, 0xe6, 0xb7, 0xaf, 0x34,
     0x46, 0x9e, 0xa8, 0xac, 0x80, 0x61, 0x52, 0x8d, 0x57, 0x15, 0x8e, 0x30, 0x43, 0xa7, 0xe6, 0xab,
     0xb6, 0x82, 0xcd, 0x1e, 1, 0, 0, 0, 0xff, 0xff, 0x7f, 0x20, 1, 0, 0, 0,
     0, 0xca, 0x9a, 0x3b, 0, 0, 0, 0, 0, 0, 0, 0, 0, 0, 0, 0,
     0x80, 0xc3, 0xc9, 1, 0, 0, 0, 0]
   = [0x1a, 0xd3, 0xfe, 0x50, 0x29, 0x6d, 0x2a, 0x5c, 0x73, 0x8c, 0x97, 0x69, 0xb4, 0xc3, 0x44, 0x16,
     0x55, 0xee, 0x10, 0x6b, 0x1e, 0x93, 0x36, 0xa2, 0xbd, 0x7e, 0x5b, 0x92, 0xfd, 0x8a, 0x83, 0x51]"
  by (simp only: Hash256d_def shd1 shd2)

lemma sample_block_hash: "Block_GetHash sample_block =
    [0x1a, 0xd3, 0xfe, 0x50, 0x29, 0x6d, 0x2a, 0x5c, 0x73, 0x8c, 0x97, 0x69, 0xb4, 0xc3, 0x44, 0x16,
     0x55, 0xee, 0x10, 0x6b, 0x1e, 0x93, 0x36, 0xa2, 0xbd, 0x7e, 0x5b, 0x92, 0xfd, 0x8a, 0x83, 0x51]"
  unfolding Block_GetHash_def BlockHeader_GetHash_def shd [symmetric]
  by (rule arg_cong [where f = Hash256d])
     (simp add: BlockHeader_Serialize_def sample_block_def BlockHeader_init_def sample_id_def le32_def le64_def
       replicate_numeral_unfold)

lemma sud1_c1:
  "bTransform
    [hx ''6a09e667'', hx ''bb67ae85'', hx ''3c6ef372'', hx ''a54ff53a'', hx ''510e527f'', hx ''9b05688c'', hx ''1f83d9ab'', hx ''5be0cd19'']
    [hx ''01000000'', hx ''00000000'', hx ''00000000'', hx ''00000000'', hx ''00000000'', hx ''00000000'', hx ''00000000'', hx ''00000000'',
     hx ''00000000'', hx ''10b8151f'', hx ''07bdecd4'', hx ''8be0b175'', hx ''492532d2'', hx ''363d5c13'', hx ''f211f21d'', hx ''630dd71b'']
   = [hx ''bcc41343'', hx ''c432dd64'', hx ''ae99a978'', hx ''c61d175b'', hx ''aac726c8'', hx ''daa3b6af'', hx ''5b678968'', hx ''74f5ea31'']"
  by (simp only: sha_eval hx_simps)

lemma sud1_c2:
  "bTransform
    [hx ''bcc41343'', hx ''c432dd64'', hx ''ae99a978'', hx ''c61d175b'', hx ''aac726c8'', hx ''daa3b6af'', hx ''5b678968'', hx ''74f5ea31'']
    [hx ''eac35d88'', hx ''03000000'', hx ''ffff7f20'', hx ''00000000'', hx ''00ca9a3b'', hx ''00000000'', hx ''00000000'', hx ''00000000'',
     hx ''80c3c901'', hx ''00000000'', hx ''80000000'', hx ''00000000'', hx ''00000000'', hx ''00000000'', hx ''00000000'', hx ''00000340'']
   = [hx ''4e95c9da'', hx ''6bcd6865'', hx ''e383f61e'', hx ''9e73c2d3'', hx ''0da58e94'', hx ''c8e68d62'', hx ''c7a00f67'', hx ''2bef61c1'']"
  by (simp only: sha_eval hx_simps)

lemma sud1:
  "Hash256
    [1, 0, 0, 0, 0, 0, 0, 0, 0, 0, 0, 0, 0, 0, 0, 0,
     0, 0, 0, 0, 0, 0, 0, 0, 0, 0, 0, 0, 0, 0, 0, 0,
     0, 0, 0, 0, 0x10, 0xb8, 0x15, 0x1f, 0x07, 0xbd, 0xec, 0xd4, 0x8b, 0xe0, 0xb1, 0x75,
     0x49, 0x25, 0x32, 0xd2, 0x36, 0x3d, 0x5c, 0x13, 0xf2, 0x11, 0xf2, 0x1d, 0x63, 0x0d, 0xd7, 0x1b,
     0xea, 0xc3, 0x5d, 0x88, 0x03, 0, 0, 0, 0xff, 0xff, 0x7f, 0x20, 0, 0, 0, 0,
     0, 0xca, 0x9a, 0x3b, 0, 0, 0, 0, 0, 0, 0, 0, 0, 0, 0, 0,
     0x80, 0xc3, 0xc9, 1, 0, 0, 0, 0]
   = [0x4e, 0x95, 0xc9, 0xda, 0x6b, 0xcd, 0x68, 0x65, 0xe3, 0x83, 0xf6, 0x1e, 0x9e, 0x73, 0xc2, 0xd3,
     0x0d, 0xa5, 0x8e, 0x94, 0xc8, 0xe6, 0x8d, 0x62, 0xc7, 0xa0, 0x0f, 0x67, 0x2b, 0xef, 0x61, 0xc1]"
  by (subst Hash256_words [where wss = "[[hx ''01000000'', hx ''00000000'', hx ''00000000'', hx ''00000000'', hx ''00000000'', hx ''00000000'', hx ''00000000'', hx ''00000000'',
     hx ''00000000'', hx ''10b8151f'', hx ''07bdecd4'', hx ''8be0b175'', hx ''492532d2'', hx ''363d5c13'', hx ''f211f21d'', hx ''630dd71b''],
     [hx ''eac35d88'', hx ''03000000'', hx ''ffff7f20'', hx ''00000000'', hx ''00ca9a3b'', hx ''00000000'', hx ''00000000'', hx ''00000000'',
     hx ''80c3c901'', hx ''00000000'', hx ''80000000'', hx ''00000000'', hx ''00000000'', hx ''00000000'', hx ''00000000'', hx ''00000340'']]"])
     (simp_all add: sha_pad_eval hb_eval bH0_def sud1_c1 sud1_c2)

lemma sud2_c1:
  "bTransform
    [hx ''6a09e667'', hx ''bb67ae85'', hx ''3c6ef372'', hx ''a54ff53a'', hx ''510e527f'', hx ''9b05688c'', hx ''1f83d9ab'', hx ''5be0cd19'']
    [hx ''4e95c9da'', hx ''6bcd6865'', hx ''e383f61e'', hx ''9e73c2d3'', hx ''0da58e94'', hx ''c8e68d62'', hx ''c7a00f67'', hx ''2bef61c1'',
     hx ''80000000'', hx ''00000000'', hx ''00000000'', hx ''00000000'', hx ''00000000'', hx ''00000000'', hx ''00000000'', hx ''00000100'']
   = [hx ''2fc3aa91'', hx ''dead8332'', hx ''1f50a858'', hx ''bd027f0a'', hx ''ffe88b99'', hx ''9026e3e9'', hx ''8183ffe3'', hx ''b72ca038'']"
  by (simp only: sha_eval hx_simps)

lemma sud2:
  "Hash256
    [0x4e, 0x95, 0xc9, 0xda, 0x6b, 0xcd, 0x68, 0x65, 0xe3, 0x83, 0xf6, 0x1e, 0x9e, 0x73, 0xc2, 0xd3,
     0x0d, 0xa5, 0x8e, 0x94, 0xc8, 0xe6, 0x8d, 0x62, 0xc7, 0xa0, 0x0f, 0x67, 0x2b, 0xef, 0x61, 0xc1]
   = [0x2f, 0xc3, 0xaa, 0x91, 0xde, 0xad, 0x83, 0x32, 0x1f, 0x50, 0xa8, 0x58, 0xbd, 0x02, 0x7f, 0x0a,
     0xff, 0xe8, 0x8b, 0x99, 0x90, 0x26, 0xe3, 0xe9, 0x81, 0x83, 0xff, 0xe3, 0xb7, 0x2c, 0xa0, 0x38]"
  by (subst Hash256_words [where wss = "[[hx ''4e95c9da'', hx ''6bcd6865'', hx ''e383f61e'', hx ''9e73c2d3'', hx ''0da58e94'', hx ''c8e68d62'', hx ''c7a00f67'', hx ''2bef61c1'',
     hx ''80000000'', hx ''00000000'', hx ''00000000'', hx ''00000000'', hx ''00000000'', hx ''00000000'', hx ''00000000'', hx ''00000100'']]"])
     (simp_all add: sha_pad_eval hb_eval bH0_def sud2_c1)

lemma sud:
  "Hash256d
    [1, 0, 0, 0, 0, 0, 0, 0, 0, 0, 0, 0, 0, 0, 0, 0,
     0, 0, 0, 0, 0, 0, 0, 0, 0, 0, 0, 0, 0, 0, 0, 0,
     0, 0, 0, 0, 0x10, 0xb8, 0x15, 0x1f, 0x07, 0xbd, 0xec, 0xd4, 0x8b, 0xe0, 0xb1, 0x75,
     0x49, 0x25, 0x32, 0xd2, 0x36, 0x3d, 0x5c, 0x13, 0xf2, 0x11, 0xf2, 0x1d, 0x63, 0x0d, 0xd7, 0x1b,
     0xea, 0xc3, 0x5d, 0x88, 0x03, 0, 0, 0, 0xff, 0xff, 0x7f, 0x20, 0, 0, 0, 0,
     0, 0xca, 0x9a, 0x3b, 0, 0, 0, 0, 0, 0, 0, 0, 0, 0, 0, 0,
     0x80, 0xc3, 0xc9, 1, 0, 0, 0, 0]
   = [0x2f, 0xc3, 0xaa, 0x91, 0xde, 0xad, 0x83, 0x32, 0x1f, 0x50, 0xa8, 0x58, 0xbd, 0x02, 0x7f, 0x0a,
     0xff, 0xe8, 0x8b, 0x99, 0x90, 0x26, 0xe3, 0xe9, 0x81, 0x83, 0xff, 0xe3, 0xb7, 0x2c, 0xa0, 0x38]"
  by (simp only: Hash256d_def sud1 sud2)

lemma sample_odd_block_hash: "Block_GetHash sample_odd_block =
    [0x2f, 0xc3, 0xaa, 0x91, 0xde, 0xad, 0x83, 0x32, 0x1f, 0x50, 0xa8, 0x58, 0xbd, 0x02, 0x7f, 0x0a,
     0xff, 0xe8, 0x8b, 0x99, 0x90, 0x26, 0xe3, 0xe9, 0x81, 0x83, 0xff, 0xe3, 0xb7, 0x2c, 0xa0, 0x38]"
  unfolding Block_GetHash_def BlockHeader_GetHash_def sud [symmetric]
  by (rule arg_cong [where f = Hash256d])
     (simp add: BlockHeader_Serialize_def sample_odd_block_def BlockHeader_init_def sample_odd_id_def le32_def le64_def
       replicate_numeral_unfold)

lemma sbd1_c1:
  "bTransform
    [hx ''6a09e667'', hx ''bb67ae85'', hx ''3c6ef372'', hx ''a54ff53a'', hx ''510e527f'', hx ''9b05688c'', hx ''1f83d9ab'', hx ''5be0cd19'']
    [hx ''01000000'', hx ''00000000'', hx ''00000000'', hx ''00000000'', hx ''00000000'', hx ''00000000'', hx ''00000000'', hx ''00000000'',
     hx ''00000000'', hx ''cee1f23a'', hx ''8eb31187'', hx ''dafb5973'', hx ''2c77a11c'', hx ''50087cb3'', hx ''f985b292'', hx ''44eca8f6'']
   = [hx ''6fbe57e3'', hx ''9f7cfb4b'', hx ''8408a4a6'', hx ''bf346eea'', hx ''105f15e6'', hx ''5b0fd16b'', hx ''1f4f6536'', hx ''96642169'']"
  by (simp only: sha_eval hx_simps)

lemma sbd1_c2:
  "bTransform
    [hx ''6fbe57e3'', hx ''9f7cfb4b'', hx ''8408a4a6'', hx ''bf346eea'', hx ''105f15e6'', hx ''5b0fd16b'', hx ''1f4f6536'', hx ''96642169'']
    [hx ''6a71fc60'', hx ''02000000'', hx ''ffff7f20'', hx ''01000000'', hx ''00ca9a3b'', hx ''00000000'', hx ''00000000'', hx ''00000000'',
     hx ''80c3c901'', hx ''00000000'', hx ''80000000'', hx ''00000000'', hx ''00000000'', hx ''00000000'', hx ''00000000'', hx ''00000340'']
   = [hx ''f745db0d'', hx ''58f74872'', hx ''06099eab'', hx ''2d6b7f69'', hx ''5e67be20'', hx ''25575bdb'', hx ''cc10b5ed'', hx ''376df1e5'']"
  by (simp only: sha_eval hx_simps)

lemma sbd1:
  "Hash256
    [1, 0, 0, 0, 0, 0, 0, 0, 0, 0, 0, 0, 0, 0, 0, 0,
     0, 0, 0, 0, 0, 0, 0, 0, 0, 0, 0, 0, 0, 0, 0, 0,
     0, 0, 0, 0, 0xce, 0xe1, 0xf2, 0x3a, 0x8e, 0xb3, 0x11, 0x87, 0xda, 0xfb, 0x59, 0x73,
     0x2c, 0x77, 0xa1, 0x1c, 0x50, 0x08, 0x7c, 0xb3, 0xf9, 0x85, 0xb2, 0x92, 0x44, 0xec, 0xa8, 0xf6,
     0x6a, 0x71, 0xfc, 0x60, 0x02, 0, 0, 0, 0xff, 0xff, 0x7f, 0x20, 1, 0, 0, 0,
     0, 0xca, 0x9a, 0x3b, 0, 0, 0, 0, 0, 0, 0, 0, 0, 0, 0, 0,
     0x80, 0xc3, 0xc9, 1, 0, 0, 0, 0]
   = [0xf7, 0x45, 0xdb, 0x0d, 0x58, 0xf7, 0x48, 0x72, 0x06, 0x09, 0x9e, 0xab, 0x2d, 0x6b, 0x7f, 0x69,
     0x5e, 0x67, 0xbe, 0x20, 0x25, 0x57, 0x5b, 0xdb, 0xcc, 0x10, 0xb5, 0xed, 0x37, 0x6d, 0xf1, 0xe5]"
  by (subst Hash256_words [where wss = "[[hx ''01000000'', hx ''00000000'', hx ''00000000'', hx ''00000000'', hx ''00000000'', hx ''00000000'', hx ''00000000'', hx ''00000000'',
     hx ''00000000'', hx ''cee1f23a'', hx ''8eb31187'', hx ''dafb5973'', hx ''2c77a11c'', hx ''50087cb3'', hx ''f985b292'', hx ''44eca8f6''],
     [hx ''6a71fc60'', hx ''02000000'', hx ''ffff7f20'', hx ''01000000'', hx ''00ca9a3b'', hx ''00000000'', hx ''00000000'', hx ''00000000'',
     hx ''80c3c901'', hx ''00000000'', hx ''80000000'', hx ''00000000'', hx ''00000000'', hx ''00000000'', hx ''00000000'', hx ''00000340'']]"])
     (simp_all add: sha_pad_eval hb_eval bH0_def sbd1_c1 sbd1_c2)

lemma sbd2_c1:
  "bTransform
    [hx ''6a09e667'', hx ''bb67ae85'', hx ''3c6ef372'', hx ''a54ff53a'', hx ''510e527f'', hx ''9b05688c'', hx ''1f83d9ab'', hx ''5be0cd19'']
    [hx ''f745db0d'', hx ''58f74872'', hx ''06099eab'', hx ''2d6b7f69'', hx ''5e67be20'', hx ''25575bdb'', hx ''cc10b5ed'', hx ''376df1e5'',
     hx ''80000000'', hx ''00000000'', hx ''00000000'', hx ''00000000'', hx ''00000000'', hx ''00000000'', hx ''00000000'', hx ''00000100'']
   = [hx ''c3020ff9'', hx ''c587ed92'', hx ''418d7e4c'', hx ''a98373d4'', hx ''0bd9eb5b'', hx ''e731b8fc'', hx ''07e7b239'', hx ''6dce497e'']"
  by (simp only: sha_eval hx_simps)

lemma sbd2:
  "Hash256
    [0xf7, 0x45, 0xdb, 0x0d, 0x58, 0xf7, 0x48, 0x72, 0x06, 0x09, 0x9e, 0xab, 0x2d, 0x6b, 0x7f, 0x69,
     0x5e, 0x67, 0xbe, 0x20, 0x25, 0x57, 0x5b, 0xdb, 0xcc, 0x10, 0xb5, 0xed, 0x37, 0x6d, 0xf1, 0xe5]
   = [0xc3, 0x02, 0x0f, 0xf9, 0xc5, 0x87, 0xed, 0x92, 0x41, 0x8d, 0x7e, 0x4c, 0xa9, 0x83, 0x73, 0xd4,
     0x0b, 0xd9, 0xeb, 0x5b, 0xe7, 0x31, 0xb8, 0xfc, 0x07, 0xe7, 0xb2, 0x39, 0x6d, 0xce, 0x49, 0x7e]"
  by (subst Hash256_words [where wss = "[[hx ''f745db0d'', hx ''58f74872'', hx ''06099eab'', hx ''2d6b7f69'', hx ''5e67be20'', hx ''25575bdb'', hx ''cc10b5ed'', hx ''376df1e5'',
     hx ''80000000'', hx ''00000000'', hx ''00000000'', hx ''00000000'', hx ''00000000'', hx ''00000000'', hx ''00000000'', hx ''00000100'']]"])
     (simp_all add: sha_pad_eval hb_eval bH0_def sbd2_c1)

lemma sbd:
  "Hash256d
    [1, 0, 0, 0, 0, 0, 0, 0, 0, 0, 0, 0, 0, 0, 0, 0,
     0, 0, 0, 0, 0, 0, 0, 0, 0, 0, 0, 0, 0, 0, 0, 0,
     0, 0, 0, 0, 0xce, 0xe1, 0xf2, 0x3a, 0x8e, 0xb3, 0x11, 0x87, 0xda, 0xfb, 0x59, 0x73,
     0x2c, 0x77, 0xa1, 0x1c, 0x50, 0x08, 0x7c, 0xb3, 0xf9, 0x85, 0xb2, 0x92, 0x44, 0xec, 0xa8, 0xf6,
     0x6a, 0x71, 0xfc, 0x60, 0x02, 0, 0, 0, 0xff, 0xff, 0x7f, 0x20, 1, 0, 0, 0,
     0, 0xca, 0x9a, 0x3b, 0, 0, 0, 0, 0, 0, 0, 0, 0, 0, 0, 0,
     0x80, 0xc3, 0xc9, 1, 0, 0, 0, 0]
   = [0xc3, 0x02, 0x0f, 0xf9, 0xc5, 0x87, 0xed, 0x92, 0x41, 0x8d, 0x7e, 0x4c, 0xa9, 0x83, 0x73, 0xd4,
     0x0b, 0xd9, 0xeb, 0x5b, 0xe7, 0x31, 0xb8, 0xfc, 0x07, 0xe7, 0xb2, 0x39, 0x6d, 0xce, 0x49, 0x7e]"
  by (simp only: Hash256d_def sbd1 sbd2)

lemma sample_bad_block_hash: "Block_GetHash sample_bad_block =
    [0xc3, 0x02, 0x0f, 0xf9, 0xc5, 0x87, 0xed, 0x92, 0x41, 0x8d, 0x7e, 0x4c, 0xa9, 0x83, 0x73, 0xd4,
     0x0b, 0xd9, 0xeb, 0x5b, 0xe7, 0x31, 0xb8, 0xfc, 0x07, 0xe7, 0xb2, 0x39, 0x6d, 0xce, 0x49, 0x7e]"
  unfolding Block_GetHash_def BlockHeader_GetHash_def sbd [symmetric]
  by (rule arg_cong [where f = Hash256d])
     (simp add: BlockHeader_Serialize_def sample_bad_block_def BlockHeader_init_def sample_root2_def le32_def le64_def
       replicate_numeral_unfold)

lemma sample_txs_valid: "Transaction_IsValid sample_coinbase" "IsCoinbase sample_coinbase"
  "Transaction_IsValid sample_tx" "\<not> IsCoinbase sample_tx"
  by (simp_all add: Transaction_IsValid_def IsCoinbase_def sample_coinbase_def sample_tx_def
      TxOutput_IsValid_def AssetAmount_IsValid_def IsValidAmount_def)

lemma sample_block_simps:
  "transactions sample_block = [sample_coinbase]" "bits (header sample_block) = 0x207fffff"
  "merkle_root (header sample_block) = sample_id" "prev_block_hash (header sample_block) = zero_hash"
  "transactions sample_odd_block = [sample_odd_coinbase]" "bits (header sample_odd_block) = 0x207fffff"
  "merkle_root (header sample_odd_block) = sample_odd_id" "prev_block_hash (header sample_odd_block) = zero_hash"
  "transactions sample_bad_block = [sample_coinbase, sample_tx]" "bits (header sample_bad_block) = 0x207fffff"
  "merkle_root (header sample_bad_block) = sample_root2"
  by (simp_all add: sample_block_def sample_bad_block_def sample_odd_block_def BlockHeader_init_def)

lemma sample_block_pow: "MeetsDifficultyTarget (header sample_block)"
  using easy_pow [of "Block_GetHash sample_block"]
  by (simp add: MeetsDifficultyTarget_def Let_def sample_block_simps Block_GetHash_def [symmetric] sample_block_hash)

lemma sample_bad_block_pow: "MeetsDifficultyTarget (header sample_bad_block)"
  using easy_pow [of "Block_GetHash sample_bad_block"]
  by (simp add: MeetsDifficultyTarget_def Let_def sample_block_simps Block_GetHash_def [symmetric] sample_bad_block_hash)

lemma sample_block_valid: "Block_IsValid sample_block"
  by (simp add: Block_IsValid_def sample_block_simps sample_txs_valid sample_block_pow CalculateMerkleRoot_def
      CalculateRoot_txs_def CalculateRoot_def sample_coinbase_id)

lemma sample_odd_block_pow: "MeetsDifficultyTarget (header sample_odd_block)"
  using easy_pow [of "Block_GetHash sample_odd_block"]
  by (simp add: MeetsDifficultyTarget_def Let_def sample_block_simps Block_GetHash_def [symmetric] sample_odd_block_hash)

lemma sample_odd_coinbase_valid: "Transaction_IsValid sample_odd_coinbase" "IsCoinbase sample_odd_coinbase"
  by (simp_all add: Transaction_IsValid_def IsCoinbase_def sample_coinbase_def sample_odd_coinbase_def
      TxOutput_IsValid_def AssetAmount_IsValid_def IsValidAmount_def)

lemma sample_odd_block_valid: "Block_IsValid sample_odd_block"
  by (simp add: Block_IsValid_def sample_block_simps sample_odd_coinbase_valid sample_odd_block_pow CalculateMerkleRoot_def
      CalculateRoot_txs_def CalculateRoot_def sample_odd_coinbase_id)

lemma sample_bad_block_root: "CalculateMerkleRoot sample_bad_block = sample_root2"
  by (simp add: CalculateMerkleRoot_def CalculateRoot_txs_def CalculateRoot_def sample_block_simps
      sample_coinbase_id sample_tx_id merkle_levels.simps HashNodes_def sample_id_def sample_root2_def snode)

lemma sample_bad_block_valid: "Block_IsValid sample_bad_block"
  by (simp add: Block_IsValid_def sample_block_simps sample_txs_valid sample_bad_block_pow sample_bad_block_root)


subsection \<open>The chain after the first sample block\<close>

definition sample_chain :: Chain where
  "sample_chain = fst (snd (ConnectBlock Chain_init sample_block []))"

lemma sample_amounts: "sum_amounts (map out_value (outputs sample_coinbase)) = [(TALANTON, 5000000000)]"
  by (simp add: sample_coinbase_def sum_amounts_def)

lemma sample_rewards:
  "check_coinbase (chain_height Chain_init + 1) (total_supply Chain_init) [(TALANTON, 5000000000)]
     = (True, total_supply Chain_init)"
  by (simp add: Chain_init_def IsValidBlockReward_iff GetBlockReward_def start_height_def GetInitialReward_def
      supply_defs Let_def word_less_nat_alt unat_div)

lemma sample_connect: "ConnectBlock Chain_init sample_block [] = (True, sample_chain, [])"
proof -
  have "CheckProofOfWork (Block_GetHash sample_block) (bits (header sample_block))"
    using sample_block_pow by (simp add: MeetsDifficultyTarget_def Let_def Block_GetHash_def)
  then show ?thesis
    using sample_rewards sample_block_valid sample_txs_valid(2)
    by (simp add: sample_chain_def ConnectBlock_def Let_def sample_block_simps sample_amounts)
qed

lemma sample_small: "block_small sample_block"
  by (simp add: block_small_def sample_block_simps small_outputs_def sample_coinbase_def)

theorem connect_preserves_backing_witness: "chain_inv sample_chain"
  by (rule connect_preserves_backing [OF sample_connect chain_inv_init sample_small])

theorem supply_follows_schedule_witness:
  "unat (Chain_GetTotalSupply sample_chain TALANTON) + unat (GetBlockReward 0 TALANTON)
     \<le> unat (CalculateSupplyAtHeight (of_nat (length [sample_block]) + 1) TALANTON)
   \<and> Chain_GetTotalSupply sample_chain TALANTON \<le> GetMaxSupply TALANTON"
  by (rule supply_follows_schedule) (use connected.step [OF connected.start sample_connect] in simp_all)

theorem disconnect_inverts_connect_witness:
  "\<exists>c''. DisconnectBlock sample_chain sample_block [] = (True, c'') \<and> utxo_set c'' = utxo_set Chain_init
     \<and> chain_height c'' = chain_height Chain_init \<and> tip_hash c'' = prev_block_hash (header sample_block)
     \<and> block_index c'' = block_index Chain_init
     \<and> Chain_GetTotalSupply c'' = Chain_GetTotalSupply Chain_init"
  by (rule disconnect_inverts_connect [OF sample_connect])
     (simp_all add: block_fresh_def sample_block_simps fresh_outputs_def Chain_init_def)

lemma sample_bad_rewards:
  "check_coinbase 1 (total_supply Chain_init) (sum_amounts (map out_value (outputs sample_coinbase)))
     = (True, total_supply Chain_init)"
  using sample_rewards by (simp add: sample_amounts Chain_init_def)

lemma sample_bad_connect: "\<exists>c' undo'. ConnectBlock Chain_init sample_bad_block [] = (False, c', undo')"
proof -
  have "AddOutputs (utxo_set Chain_init) sample_coinbase 1 True (OutPoint zero_hash 0) = None"
    using AddOutputs_other [of "OutPoint zero_hash 0" sample_coinbase "utxo_set Chain_init" 1 True]
    by (simp add: sample_coinbase_id sample_id_def Chain_init_def replicate_numeral_unfold)
  then have "Chain_ValidateTransaction (AddOutputs (utxo_set Chain_init) sample_coinbase 1 True) sample_tx 1 = None"
    using sample_txs_valid(4) by (simp add: Chain_ValidateTransaction_def sample_tx_def Chain_init_def)
  then show ?thesis
    using sample_bad_block_pow sample_bad_rewards sample_txs_valid Block_IsValidD(2) [OF sample_bad_block_valid]
    by (simp add: ConnectBlock_def Let_def sample_block_simps sample_bad_block_valid MeetsDifficultyTarget_def
        Chain_init_def Block_GetHash_def)
qed

theorem failed_connect_keeps_coinbase_witness:
  "\<exists>c' undo'. ConnectBlock Chain_init sample_bad_block [] = (False, c', undo')
     \<and> chain_height c' = chain_height Chain_init \<and> Chain_GetTotalSupply c' = Chain_GetTotalSupply Chain_init
     \<and> utxo_set c' = AddOutputs (utxo_set Chain_init) sample_coinbase 1 True"
proof -
  obtain c' undo' where conn: "ConnectBlock Chain_init sample_bad_block [] = (False, c', undo')"
    using sample_bad_connect by blast
  have "amounts_inv (total_supply Chain_init)" using chain_inv_init by (simp add: chain_inv_def)
  from failed_connect_keeps_coinbase [OF conn this] conn show ?thesis
    using sample_bad_rewards sample_bad_block_valid
    by (auto simp: sample_block_simps after_txs_def Chain_init_def Cons_eq_append_conv)
qed

subsection \<open>The light chain state and the validators\<close>

theorem chainstate_simulates_chain_witness:
  "\<exists>s'. ApplyBlock ChainState_init sample_block = (Inr True, s') \<and> tracks s' sample_chain"
  using chainstate_simulates_chain [OF tracks_init sample_connect]
  by (simp add: extends_tip_def pays_known_assets_def sample_block_simps Chain_init_def sample_coinbase_def)

lemma sample_applied: "\<exists>s. applied [sample_block] s"
proof -
  obtain s where "ApplyBlock ChainState_init sample_block = (Inr True, s)"
    using ApplyBlock_simulates [OF tracks_init sample_connect]
    by (auto simp: extends_tip_def pays_known_assets_def sample_block_simps Chain_init_def sample_coinbase_def)
  from applied.step [OF applied.start this] show ?thesis by auto
qed

theorem applied_blocks_linked_witness:
  "\<exists>s. applied [sample_block] s \<and> linked zero_hash [sample_block] \<and> cs_height s = of_nat (length [sample_block])
     \<and> ChainState_GetTotalSupply s TALANTON \<le> GetMaxSupply TALANTON"
proof -
  obtain s where s: "applied [sample_block] s" using sample_applied by blast
  have "length [sample_block] < 2 ^ 64" by simp
  from applied_blocks_linked [OF s this] s show ?thesis by blast
qed

theorem unknown_asset_throws_witness:
  "ChainState_ValidateBlock ChainState_init sample_odd_block = Inl OutOfRange
   \<and> fst (ConnectBlock Chain_init sample_odd_block [])"
  by (rule unknown_asset_throws [OF sample_odd_block_valid sample_block_simps(5)])
     (auto simp: sample_odd_coinbase_def ChainState_init_def known_assets_def sample_block_simps chain_inv_init)

lemma sample_tx_shape:
  "inputs sample_tx = [\<lparr>prevout = OutPoint zero_hash 0, signature_script = [], sequence = 0xFFFFFFFF\<rparr>]"
  "inputs sample_tx2 = [\<lparr>prevout = OutPoint zero_hash 1, signature_script = [], sequence = 0\<rparr>]"
  "inputs sample_tx3 = [\<lparr>prevout = OutPoint zero_hash 1, signature_script = [], sequence = 0\<rparr>,
     \<lparr>prevout = OutPoint zero_hash 2, signature_script = [], sequence = 0\<rparr>]"
  "outputs sample_tx = [\<lparr>out_value = \<lparr>asset_id = TALANTON, asset_amount = 5\<rparr>, pubkey_script = [7]\<rparr>]"
  "outputs sample_tx2 = outputs sample_tx" "outputs sample_tx3 = outputs sample_tx"
  by (simp_all add: sample_tx_def sample_tx2_def sample_tx3_def)

lemma sample_ids_differ:
  "GetTxID sample_tx \<noteq> zero_hash" "GetTxID sample_tx2 \<noteq> zero_hash" "GetTxID sample_tx3 \<noteq> zero_hash"
  "GetTxID sample_tx \<noteq> GetTxID sample_tx2" "GetTxID sample_tx2 \<noteq> GetTxID sample_tx3" "GetTxID sample_tx \<noteq> GetTxID sample_tx3"
  by (simp_all add: sample_tx_id sample_tx2_id sample_tx3_id replicate_numeral_unfold)

theorem block_validator_misses_double_spend_witness:
  "\<forall>secp. validate_transactions secp Map.empty 1 [sample_tx, sample_tx] = validate_transactions secp Map.empty 1 [sample_tx]
   \<and> \<not> fst (connect_rest Map.empty [] 1 [sample_tx, sample_tx])"
proof
  fix secp
  show "validate_transactions secp Map.empty 1 [sample_tx, sample_tx] = validate_transactions secp Map.empty 1 [sample_tx]
   \<and> \<not> fst (connect_rest Map.empty [] 1 [sample_tx, sample_tx])"
    by (rule block_validator_misses_double_spend [of sample_tx secp Map.empty 1 "[]" "[]"])
      (use sample_ids_differ(1) in \<open>simp_all add: sample_txs_valid sample_tx_shape\<close>)
qed

end
