(* ===== verification/StdMap.thy ===== *)
theory StdMap
  imports Prelude
begin

section \<open>Ordered maps and sets of the standard library\<close>

text \<open>
  \<open>std::map\<close> as an association list in ascending key order, which is the order in which the
  code iterates: \<open>map_put\<close> is \<open>m[k] = v\<close>, \<open>map_erase\<close> is \<open>erase(k)\<close>, and \<open>map_of\<close> is \<open>find\<close>.
  \<open>std::set\<close> with a comparator is a list sorted by it: \<open>set_put\<close> is \<open>insert\<close>, which does nothing
  when an equivalent element is present, and \<open>set_del\<close> is \<open>erase(value)\<close>, which removes the
  equivalent element, whatever it is. The comparator's contract is the locale \<open>comparator\<close>.
\<close>

subsection \<open>Maps\<close>

fun map_put :: "'k::linorder \<Rightarrow> 'v \<Rightarrow> ('k \<times> 'v) list \<Rightarrow> ('k \<times> 'v) list" where
  "map_put k v [] = [(k, v)]"
| "map_put k v ((k', v') # m) =
     (if k < k' then (k, v) # (k', v') # m
      else if k = k' then (k, v) # m
      else (k', v') # map_put k v m)"

definition map_erase :: "'k \<Rightarrow> ('k \<times> 'v) list \<Rightarrow> ('k \<times> 'v) list" where
  "map_erase k m = filter (\<lambda>p. fst p \<noteq> k) m"

definition sorted_keys :: "('k::linorder \<times> 'v) list \<Rightarrow> bool" where
  "sorted_keys m \<longleftrightarrow> sorted_wrt (<) (map fst m)"

lemma sorted_keys_simps [simp]:
  "sorted_keys []"
  "sorted_keys ((k, v) # m) \<longleftrightarrow> (\<forall>k' \<in> fst ` set m. k < k') \<and> sorted_keys m"
  by (auto simp: sorted_keys_def)

lemma map_of_put [simp]: "map_of (map_put k v m) = (map_of m)(k \<mapsto> v)"
  by (induction k v m rule: map_put.induct) (auto simp: fun_eq_iff)

lemma map_of_erase [simp]: "map_of (map_erase k m) = (map_of m)(k := None)"
  by (induction m) (auto simp: map_erase_def fun_eq_iff)

lemma keys_put [simp]: "fst ` set (map_put k v m) = insert k (fst ` set m)"
  by (induction k v m rule: map_put.induct) auto

lemma keys_erase [simp]: "fst ` set (map_erase k m) = fst ` set m - {k}"
  by (auto simp: map_erase_def)

lemma sorted_put [simp]: "sorted_keys m \<Longrightarrow> sorted_keys (map_put k v m)"
  by (induction k v m rule: map_put.induct) auto

lemma sorted_erase [simp]: "sorted_keys m \<Longrightarrow> sorted_keys (map_erase k m)"
  by (induction m) (auto simp: map_erase_def)

lemma sorted_keys_map_of: "sorted_keys m \<Longrightarrow> map_of m k = Some v \<longleftrightarrow> (k, v) \<in> set m"
  by (induction m) (force split: if_splits)+

lemma distinct_keys: "sorted_keys m \<Longrightarrow> distinct (map fst m)"
  by (simp add: sorted_keys_def strict_sorted_iff)

lemma erase_absent: "k \<notin> fst ` set m \<Longrightarrow> map_erase k m = m"
  by (induction m) (auto simp: map_erase_def)

text \<open>Sums over the values of a map.\<close>

definition map_sum :: "('v \<Rightarrow> 'a::comm_monoid_add) \<Rightarrow> ('k \<times> 'v) list \<Rightarrow> 'a" where
  "map_sum f m = sum_list (map (f \<circ> snd) m)"

lemma map_sum_simps [simp]: "map_sum f [] = 0" "map_sum f ((k, v) # m) = f v + map_sum f m"
  by (simp_all add: map_sum_def)

lemma map_sum_put_new: "map_of m k = None \<Longrightarrow> map_sum f (map_put k v m) = f v + map_sum f m"
  by (induction k v m rule: map_put.induct) (auto simp: ac_simps split: if_splits)

lemma map_sum_erase: "sorted_keys m \<Longrightarrow> map_of m k = Some v \<Longrightarrow> map_sum f m = f v + map_sum f (map_erase k m)"
proof (induction m)
  case (Cons p m)
  obtain k' v' where p: "p = (k', v')" by force
  show ?case
  proof (cases "k' = k")
    case True
    have "k \<notin> fst ` set m" using Cons.prems(1) True p by auto
    then have "map_erase k m = m" by (rule erase_absent)
    then show ?thesis using True Cons.prems p by (simp add: map_erase_def)
  next
    case False
    then show ?thesis using Cons p by (simp add: map_erase_def add.left_commute)
  qed
qed simp

lemma erase_put: "map_erase k (map_put k v m) = map_erase k m"
  by (induction k v m rule: map_put.induct) (auto simp: map_erase_def)

lemma map_sum_put_old:
  assumes "sorted_keys m" and "map_of m k = Some v" and "f v' = f v"
  shows "map_sum f (map_put k v' m) = map_sum f m"
  using map_sum_erase [of m k v f] map_sum_erase [of "map_put k v' m" k v' f] assms
  by (simp add: erase_put)

subsection \<open>Sets with a comparator\<close>

fun set_put :: "('a \<Rightarrow> 'a \<Rightarrow> bool) \<Rightarrow> 'a \<Rightarrow> 'a list \<Rightarrow> 'a list" where
  "set_put lt x [] = [x]"
| "set_put lt x (y # ys) =
     (if lt x y then x # y # ys else if lt y x then y # set_put lt x ys else y # ys)"

definition set_del :: "('a \<Rightarrow> 'a \<Rightarrow> bool) \<Rightarrow> 'a \<Rightarrow> 'a list \<Rightarrow> 'a list" where
  "set_del lt x ys = filter (\<lambda>y. lt x y \<or> lt y x) ys"

lemma set_del_iff [simp]: "y \<in> set (set_del lt x ys) \<longleftrightarrow> y \<in> set ys \<and> (lt x y \<or> lt y x)"
  by (auto simp: set_del_def)

lemma set_put_subset: "set (set_put lt x ys) \<subseteq> insert x (set ys)"
  by (induction lt x ys rule: set_put.induct) auto

lemma set_put_superset: "set ys \<subseteq> set (set_put lt x ys)"
  by (induction lt x ys rule: set_put.induct) auto

lemma sorted_set_del: "sorted_wrt lt ys \<Longrightarrow> sorted_wrt lt (set_del lt' x ys)"
  unfolding set_del_def by (rule sorted_wrt_filter)

locale comparator =
  fixes lt :: "'a \<Rightarrow> 'a \<Rightarrow> bool"
  assumes irrefl: "\<not> lt x x"
    and transitive: "lt x y \<Longrightarrow> lt y z \<Longrightarrow> lt x z"
    and incomparable_left: "\<not> lt x y \<Longrightarrow> \<not> lt y x \<Longrightarrow> lt x z = lt y z"
begin

lemma sorted_set_put: "sorted_wrt lt ys \<Longrightarrow> sorted_wrt lt (set_put lt x ys)"
proof (induction ys)
  case (Cons y ys)
  have sub: "set (set_put lt x ys) \<subseteq> insert x (set ys)" by (rule set_put_subset)
  then show ?case using Cons transitive by auto
qed simp

text \<open>Erasing a value and inserting it again always leaves it in the set.\<close>

lemma put_after_del: "x \<in> set (set_put lt x (set_del lt x ys))"
  by (induction ys) (auto simp: set_del_def)

text \<open>An insertion is lost exactly when an equivalent element is there.\<close>

lemma put_member:
  assumes "sorted_wrt lt ys"
  shows "x \<in> set (set_put lt x ys) \<longleftrightarrow> x \<in> set ys \<or> (\<forall>y \<in> set ys. lt x y \<or> lt y x)"
  using assms
proof (induction ys)
  case (Cons y ys)
  consider "lt x y" | "\<not> lt x y" "lt y x" | "\<not> lt x y" "\<not> lt y x" by blast
  then show ?case
  proof cases
    case 1
    then have "\<forall>z \<in> set ys. lt x z" using Cons.prems transitive by auto
    with 1 show ?thesis by simp
  next
    case 2
    then show ?thesis using Cons irrefl by auto
  next
    case 3
    then show ?thesis by auto
  qed
qed simp

lemma del_self: "x \<notin> set (set_del lt x ys)"
  by (simp add: irrefl)

lemma length_del: "x \<in> set ys \<Longrightarrow> length (set_del lt x ys) < length ys"
  unfolding set_del_def by (rule length_filter_less) (auto simp: irrefl)

end

lemma set_map_put: "set (map_put k v m) \<subseteq> insert (k, v) (set m)"
  by (induction k v m rule: map_put.induct) auto

end
