(* ===== verification/BlockStorage.thy ===== *)
theory BlockStorage
  imports Block StdMap "HOL-Library.Char_ord"
begin

section \<open>Block storage\<close>

text \<open>
  Models \<open>layer1-talanton/core/storage/block_storage.h\<close> and \<open>block_storage.cpp\<close> over LevelDB.
  The database is a parameter: \<open>db_get\<close> is \<open>DB::Get\<close> (\<open>None\<close>: the status is not ok),
  \<open>db_write\<close> is \<open>DB::Write\<close> of a batch of puts and deletions (\<open>None\<close>: the status is not ok), and
  \<open>db_entries\<close> is what an iterator of \<open>NewIterator\<close> yields from \<open>SeekToFirst\<close> on, \<open>db_iter_ok\<close> its final
  status. \<open>DB::Put\<close> and \<open>DB::Delete\<close> are writes of a batch of one. \<open>leveldb_spec\<close> states
  LevelDB's documented behaviour: after a successful write a read sees the last operation on its key
  in the batch, and the old value of every other key; iteration yields the entries in key order. \<open>db_\<close> is null (\<open>None\<close>) while the store is closed.
\<close>

record 'db LevelDB =
  db_get :: "'db \<Rightarrow> string \<Rightarrow> string option"
  db_write :: "'db \<Rightarrow> (string \<times> string option) list \<Rightarrow> 'db option"
  db_entries :: "'db \<Rightarrow> (string \<times> string) list"
  db_iter_ok :: "'db \<Rightarrow> bool"

definition leveldb_spec :: "'db LevelDB \<Rightarrow> bool" where
  "leveldb_spec ops \<longleftrightarrow>
     (\<forall>d batch d' k. db_write ops d batch = Some d' \<longrightarrow>
        db_get ops d' k = (case map_of (rev batch) k of None \<Rightarrow> db_get ops d k | Some v \<Rightarrow> v))
     \<and> (\<forall>d. distinct (map fst (db_entries ops d)) \<and> map_of (db_entries ops d) = db_get ops d)"

subsection \<open>Numbers and bytes as strings\<close>

definition digit :: "nat \<Rightarrow> char" where
  "digit n = char_of (48 + n)"

text \<open>\<open>std::to_string\<close>.\<close>

fun dec :: "nat \<Rightarrow> string" where
  "dec n = (if n < 10 then [digit n] else dec (n div 10) @ [digit (n mod 10)])"

declare dec.simps [simp del]

text \<open>\<open>std::from_chars\<close> over a whole string: digits only, and no overflow of the accumulator.\<close>

fun parse_dec :: "nat \<Rightarrow> string \<Rightarrow> nat option" where
  "parse_dec acc [] = Some acc"
| "parse_dec acc (c # cs) =
     (let d = of_char c :: nat in
      if d < 48 \<or> 57 < d then None else parse_dec (acc * 10 + (d - 48)) cs)"

definition TryParseUint32 :: "string \<Rightarrow> u32 option" where
  "TryParseUint32 value =
     (if value = [] then None
      else case parse_dec 0 value of
        None \<Rightarrow> None
      | Some n \<Rightarrow> if n < 2 ^ 32 then Some (of_nat n) else None)"

text \<open>\<open>std::setw(10)\<close> with fill \<open>'0'\<close>.\<close>

definition HeightKey :: "u32 \<Rightarrow> string" where
  "HeightKey height =
     (let s = dec (unat height) in CHR ''b'' # replicate (10 - length s) (CHR ''0'') @ s)"

definition hex_digit :: "nat \<Rightarrow> char" where
  "hex_digit n = (if n < 10 then char_of (48 + n) else char_of (87 + n))"

definition hex_byte :: "u8 \<Rightarrow> string" where
  "hex_byte b = [hex_digit (unat b div 16), hex_digit (unat b mod 16)]"

definition HashKey :: "bytes \<Rightarrow> string" where
  "HashKey hash = CHR ''h'' # concat (map hex_byte hash)"

definition string_of_bytes :: "bytes \<Rightarrow> string" where
  "string_of_bytes bs = map (\<lambda>b. char_of (unat b)) bs"

definition bytes_of_string :: "string \<Rightarrow> bytes" where
  "bytes_of_string s = map (\<lambda>c. of_nat (of_char c)) s"

definition SerializeBlock :: "Block \<Rightarrow> string" where
  "SerializeBlock block = string_of_bytes (Block_Serialize block)"

definition DeserializeBlock :: "string \<Rightarrow> Block outcome" where
  "DeserializeBlock data = Block_Deserialize (bytes_of_string data)"

subsection \<open>The store\<close>

definition StoreBlock :: "'db LevelDB \<Rightarrow> 'db option \<Rightarrow> Block \<Rightarrow> u32 \<Rightarrow> bool \<times> 'db option" where
  "StoreBlock ops db block height =
     (case db of
        None \<Rightarrow> (False, db)
      | Some d \<Rightarrow>
          let batch = [(HeightKey height, Some (SerializeBlock block)),
                       (HashKey (Block_GetHash block), Some (dec (unat height)))] in
          case db_write ops d batch of None \<Rightarrow> (False, db) | Some d' \<Rightarrow> (True, Some d'))"

definition GetBlockByHeight :: "'db LevelDB \<Rightarrow> 'db option \<Rightarrow> u32 \<Rightarrow> Block outcome" where
  "GetBlockByHeight ops db height =
     (case db of
        None \<Rightarrow> Nullopt
      | Some d \<Rightarrow> (case db_get ops d (HeightKey height) of
          None \<Rightarrow> Nullopt
        | Some value \<Rightarrow> DeserializeBlock value))"

definition GetBlockByHash :: "'db LevelDB \<Rightarrow> 'db option \<Rightarrow> bytes \<Rightarrow> Block outcome" where
  "GetBlockByHash ops db hash =
     (case db of
        None \<Rightarrow> Nullopt
      | Some d \<Rightarrow> (case db_get ops d (HashKey hash) of
          None \<Rightarrow> Nullopt
        | Some height_str \<Rightarrow> (case TryParseUint32 height_str of
            None \<Rightarrow> Nullopt
          | Some height \<Rightarrow> GetBlockByHeight ops db height)))"

definition BlockStorage_GetHeight :: "'db LevelDB \<Rightarrow> 'db option \<Rightarrow> u32" where
  "BlockStorage_GetHeight ops db =
     (case db of
        None \<Rightarrow> 0
      | Some d \<Rightarrow> (case db_get ops d ''meta:height'' of
          None \<Rightarrow> 0
        | Some value \<Rightarrow> (case TryParseUint32 value of None \<Rightarrow> 0 | Some height \<Rightarrow> height)))"

definition UpdateChainTip :: "'db LevelDB \<Rightarrow> 'db option \<Rightarrow> u32 \<Rightarrow> bytes \<Rightarrow> bool \<times> 'db option" where
  "UpdateChainTip ops db height best_hash =
     (case db of
        None \<Rightarrow> (False, db)
      | Some d \<Rightarrow>
          let batch = [(''meta:height'', Some (dec (unat height))),
                       (''meta:best_hash'', Some (concat (map hex_byte best_hash)))] in
          case db_write ops d batch of None \<Rightarrow> (False, db) | Some d' \<Rightarrow> (True, Some d'))"

subsection \<open>Keys and values\<close>

lemma parse_dec_append:
  "parse_dec acc (xs @ ys) = (case parse_dec acc xs of None \<Rightarrow> None | Some a \<Rightarrow> parse_dec a ys)"
  by (induction acc xs rule: parse_dec.induct) (auto simp: Let_def)

lemma of_char_digit: "n < 10 \<Longrightarrow> of_char (digit n) = 48 + n"
  by (simp add: digit_def)

lemma parse_digit: "n < 10 \<Longrightarrow> parse_dec acc [digit n] = Some (acc * 10 + n)"
  by (simp add: of_char_digit Let_def)

lemma parse_dec_dec: "parse_dec 0 (dec n) = Some n"
proof (induction n rule: dec.induct)
  case (1 n)
  then show ?case
    by (subst dec.simps) (simp add: parse_digit parse_dec_append del: parse_dec.simps(2))
qed

lemma dec_nonempty [simp]: "dec n \<noteq> []"
  by (subst dec.simps) simp

lemma TryParse_dec [simp]: "TryParseUint32 (dec (unat h)) = Some h"
  using unat32_lt [of h] by (simp add: TryParseUint32_def parse_dec_dec)

lemma length_dec: "n < 10 ^ k \<Longrightarrow> 0 < k \<Longrightarrow> length (dec n) \<le> k"
proof (induction k arbitrary: n)
  case (Suc k)
  show ?case
  proof (cases "n < 10")
    case True
    then show ?thesis by (simp add: dec.simps [of n])
  next
    case False
    then have "0 < k" using Suc.prems by (cases k) auto
    then have "length (dec (n div 10)) \<le> k" using Suc.prems by (intro Suc.IH) auto
    then show ?thesis using False by (simp add: dec.simps [of n])
  qed
qed simp

lemma parse_zeros: "parse_dec 0 (replicate k (CHR ''0'') @ s) = parse_dec 0 s"
  by (induction k) simp_all

lemma HeightKey_inject [simp]: "HeightKey h = HeightKey h' \<longleftrightarrow> h = h'"
proof
  assume "HeightKey h = HeightKey h'"
  then have "parse_dec 0 (tl (HeightKey h)) = parse_dec 0 (tl (HeightKey h'))" by simp
  then have "unat h = unat h'" by (simp add: HeightKey_def Let_def parse_zeros parse_dec_dec)
  then show "h = h'" by (simp add: word_unat_eq_iff)
qed simp

lemma hd_keys: "hd (HeightKey h) = CHR ''b''" "hd (HashKey hs) = CHR ''h''"
  by (simp_all add: HeightKey_def HashKey_def Let_def)

lemma keys_differ [simp]: "HeightKey h \<noteq> HashKey hs" "HashKey hs \<noteq> HeightKey h"
  "HeightKey h \<noteq> CHR ''m'' # s" "CHR ''m'' # s \<noteq> HeightKey h"
  "HashKey hs \<noteq> CHR ''m'' # s" "CHR ''m'' # s \<noteq> HashKey hs"
  by (simp_all add: HeightKey_def HashKey_def Let_def)

lemma char_of_inject256: "m < 256 \<Longrightarrow> n < 256 \<Longrightarrow> (char_of m = char_of (n :: nat)) = (m = n)"
  by (metis mod_less of_char_of)

lemma hex_digit_inject: "m < 16 \<Longrightarrow> n < 16 \<Longrightarrow> hex_digit m = hex_digit n \<longleftrightarrow> m = n"
  by (auto simp: hex_digit_def char_of_inject256 split: if_splits)

lemma hex_byte_inject: "hex_byte a = hex_byte b \<longleftrightarrow> a = b"
proof
  assume "hex_byte a = hex_byte b"
  moreover have "unat a div 16 < 16" "unat b div 16 < 16"
    using unat8_lt [of a] unat8_lt [of b] by linarith+
  ultimately have "unat a div 16 = unat b div 16" "unat a mod 16 = unat b mod 16"
    by (simp_all add: hex_byte_def hex_digit_inject)
  then have "unat a = unat b" by (metis mod_div_decomp)
  then show "a = b" by (simp add: word_unat_eq_iff)
qed simp

lemma length_hex_byte: "length (hex_byte b) = 2"
  by (simp add: hex_byte_def)

lemma hex_bytes_inject: "concat (map hex_byte a) = concat (map hex_byte b) \<longleftrightarrow> a = b"
proof (induction a arbitrary: b)
  case Nil
  then show ?case by (cases b) (simp_all add: hex_byte_def)
next
  case (Cons x xs)
  then show ?case
    by (cases b) (simp_all add: append_eq_append_conv length_hex_byte hex_byte_inject,
                  simp add: hex_byte_def)
qed

lemma HashKey_inject [simp]: "HashKey a = HashKey b \<longleftrightarrow> a = b"
  by (simp add: HashKey_def hex_bytes_inject)

lemma bytes_string_roundtrip [simp]: "bytes_of_string (string_of_bytes bs) = bs"
  by (induction bs) (simp_all add: bytes_of_string_def string_of_bytes_def unat8_lt)

lemma SerializeBlock_roundtrip: "Block_wf b \<Longrightarrow> DeserializeBlock (SerializeBlock b) = Parsed b"
  by (simp add: DeserializeBlock_def SerializeBlock_def Block_Serialize_read)

lemma leveldb_get:
  "leveldb_spec ops \<Longrightarrow> db_write ops d batch = Some d' \<Longrightarrow>
     db_get ops d' k = (case map_of (rev batch) k of None \<Rightarrow> db_get ops d k | Some v \<Rightarrow> v)"
  by (simp add: leveldb_spec_def)

lemma StoreBlock_found:
  assumes "leveldb_spec ops" and "Block_wf b" and "StoreBlock ops db b h = (True, db')"
  shows "GetBlockByHeight ops db' h = Parsed b \<and> GetBlockByHash ops db' (Block_GetHash b) = Parsed b
    \<and> (h' \<noteq> h \<longrightarrow> GetBlockByHeight ops db' h' = GetBlockByHeight ops db h')
    \<and> BlockStorage_GetHeight ops db' = BlockStorage_GetHeight ops db"
proof -
  obtain d d' where db: "db = Some d" "db' = Some d'"
    and w: "db_write ops d [(HeightKey h, Some (SerializeBlock b)), (HashKey (Block_GetHash b), Some (dec (unat h)))] = Some d'"
    using assms(3) unfolding StoreBlock_def Let_def
    by (cases db; cases db') (auto split: option.splits)
  note get = leveldb_get [OF assms(1) w]
  have "GetBlockByHeight ops db' h = Parsed b"
    using SerializeBlock_roundtrip [OF assms(2)] by (simp add: GetBlockByHeight_def db get)
  then show ?thesis
    by (simp add: GetBlockByHash_def GetBlockByHeight_def BlockStorage_GetHeight_def db get)
qed

lemma UpdateChainTip_effect:
  assumes "leveldb_spec ops" and "UpdateChainTip ops db h hash = (True, db')"
  shows "BlockStorage_GetHeight ops db' = h" "GetBlockByHeight ops db' h' = GetBlockByHeight ops db h'"
    "GetBlockByHash ops db' hash' = GetBlockByHash ops db hash'"
proof -
  obtain d d' where db: "db = Some d" "db' = Some d'"
    and w: "db_write ops d [(''meta:height'', Some (dec (unat h))), (''meta:best_hash'', Some (concat (map hex_byte hash)))] = Some d'"
    using assms(2) unfolding UpdateChainTip_def Let_def
    by (cases db; cases db') (auto split: option.splits)
  note get = leveldb_get [OF assms(1) w]
  show "BlockStorage_GetHeight ops db' = h" by (simp add: BlockStorage_GetHeight_def db get)
  show *: "GetBlockByHeight ops db' h' = GetBlockByHeight ops db h'" for h'
    by (simp add: GetBlockByHeight_def db get)
  show "GetBlockByHash ops db' hash' = GetBlockByHash ops db hash'"
    using * by (simp add: GetBlockByHash_def db get split: option.splits)
qed

subsection \<open>Properties\<close>

text \<open>
  What is stored is found again: after a successful \<open>StoreBlock\<close>, the block is returned for its
  height and for its hash; every other height and hash, and the chain height, read as before.
\<close>

theorem stored_block_is_found:
  assumes "leveldb_spec ops" and "Block_wf b" and "StoreBlock ops db b h = (True, db')"
  shows "GetBlockByHeight ops db' h = Parsed b \<and> GetBlockByHash ops db' (Block_GetHash b) = Parsed b
    \<and> (h' \<noteq> h \<longrightarrow> GetBlockByHeight ops db' h' = GetBlockByHeight ops db h')
    \<and> BlockStorage_GetHeight ops db' = BlockStorage_GetHeight ops db"
  using assms by (rule StoreBlock_found)

text \<open>A LevelDB that is a sorted list of entries and never fails.\<close>

definition list_write :: "(string \<times> string) list \<Rightarrow> (string \<times> string option) list \<Rightarrow> (string \<times> string) list" where
  "list_write d batch = foldl (\<lambda>d (k, v). case v of None \<Rightarrow> map_erase k d | Some x \<Rightarrow> map_put k x d) d batch"

typedef list_db = "{d :: (string \<times> string) list. sorted_keys d}"
  by (rule exI [of _ "[]"]) simp

definition list_ops :: "list_db LevelDB" where
  "list_ops = \<lparr>db_get = (\<lambda>d. map_of (Rep_list_db d)),
     db_write = (\<lambda>d batch. Some (Abs_list_db (list_write (Rep_list_db d) batch))),
     db_entries = Rep_list_db, db_iter_ok = (\<lambda>d. True)\<rparr>"

lemma sorted_list_write: "sorted_keys d \<Longrightarrow> sorted_keys (list_write d batch)"
  unfolding list_write_def by (induction batch arbitrary: d) (auto split: option.splits)

lemma map_of_list_write:
  "map_of (list_write d batch) k = (case map_of (rev batch) k of None \<Rightarrow> map_of d k | Some v \<Rightarrow> v)"
  unfolding list_write_def
  by (induction batch arbitrary: d) (auto simp: map_add_def split: option.splits)

lemma list_ops_spec: "leveldb_spec list_ops"
proof -
  have "sorted_keys (Rep_list_db d)" for d using Rep_list_db [of d] by simp
  then show ?thesis
    unfolding leveldb_spec_def list_ops_def LevelDB.select_convs
    by (auto simp: Abs_list_db_inverse sorted_list_write map_of_list_write distinct_keys)
qed

abbreviation (input) empty_db :: list_db where
  "empty_db \<equiv> Abs_list_db []"

theorem stored_block_is_found_witness:
  "\<exists>db'. StoreBlock list_ops (Some empty_db) \<lparr>header = BlockHeader_init, transactions = [sample_tx]\<rparr> 7 = (True, db')
     \<and> GetBlockByHeight list_ops db' 7 = Parsed \<lparr>header = BlockHeader_init, transactions = [sample_tx]\<rparr>"
proof -
  let ?b = "\<lparr>header = BlockHeader_init, transactions = [sample_tx]\<rparr>"
  have wf: "Block_wf ?b" by (simp add: Block_wf_def BlockHeader_wf_def BlockHeader_init_def sample_tx_wf)
  obtain db' where "StoreBlock list_ops (Some empty_db) ?b 7 = (True, db')"
    by (simp add: StoreBlock_def list_ops_def Let_def)
  with stored_block_is_found [OF list_ops_spec wf this] show ?thesis by blast
qed

end
