(* ===== verification/Mempool.thy ===== *)
theory Mempool
  imports Validation StdMap
begin

section \<open>The mempool\<close>

text \<open>
  Models \<open>layer1-talanton/core/mempool/mempool.h\<close> and \<open>mempool.cpp\<close>: the pool of unconfirmed
  transactions with its priority queue (a \<open>std::set\<close> under the entries' comparator), the index of
  spent outpoints and the parent and child links. \<open>std::time\<close> is the argument \<open>now\<close>. The eviction
  loop, the recursion over descendants and their search may run forever on a pool that breaks the
  invariant, so they are partial: \<open>None\<close> means that the call does not return.
\<close>

record MempoolEntry =
  me_tx :: Transaction
  me_fee :: u64
  me_fee_rate :: u64
  me_time :: u32
  me_height :: u32
  me_size :: u64
  me_ancestor_fee :: u64
  me_ancestor_size :: u64
  me_ancestor_count :: u32
  me_signals_rbf :: bool

definition MempoolEntry_make :: "Transaction \<Rightarrow> u64 \<Rightarrow> u32 \<Rightarrow> u32 \<Rightarrow> bool \<Rightarrow> MempoolEntry" where
  "MempoolEntry_make t f tm h rbf =
     (let size = of_nat (GetSerializedSize t) in
      \<lparr>me_tx = t, me_fee = f, me_fee_rate = (if size > 0 then f div size else 0), me_time = tm,
       me_height = h, me_size = size, me_ancestor_fee = f, me_ancestor_size = size,
       me_ancestor_count = 0, me_signals_rbf = rbf\<rparr>)"

definition GetEffectiveFeeRate :: "MempoolEntry \<Rightarrow> u64" where
  "GetEffectiveFeeRate e =
     (let total_size = (if me_ancestor_size e > 0 then me_ancestor_size e else me_size e);
          total_fee = (if me_ancestor_fee e > 0 then me_ancestor_fee e else me_fee e) in
      if total_size > 0 then total_fee div total_size else 0)"

definition entry_less :: "MempoolEntry \<Rightarrow> MempoolEntry \<Rightarrow> bool" where
  "entry_less a b =
     (let my_rate = GetEffectiveFeeRate a; other_rate = GetEffectiveFeeRate b in
      if my_rate \<noteq> other_rate then my_rate > other_rate else me_time a < me_time b)"

interpretation queue: comparator entry_less
  by unfold_locales (auto simp: entry_less_def Let_def split: if_splits)

record Mempool =
  mp_transactions :: "(bytes \<times> MempoolEntry) list"
  mp_queue :: "MempoolEntry list"
  mp_spent :: "OutPoint \<rightharpoonup> bytes"
  mp_children :: "bytes \<rightharpoonup> bytes list"
  mp_parents :: "bytes \<rightharpoonup> bytes list"
  mp_total_size :: u64
  mp_max_size :: u64
  mp_min_relay_fee :: u64

definition Mempool_init :: Mempool where
  "Mempool_init =
     \<lparr>mp_transactions = [], mp_queue = [], mp_spent = Map.empty, mp_children = Map.empty,
      mp_parents = Map.empty, mp_total_size = 0, mp_max_size = 300 * 1024 * 1024, mp_min_relay_fee = 1\<rparr>"

subsection \<open>Fees and validation\<close>

definition CalculateFee :: "Transaction \<Rightarrow> UTXOSet \<Rightarrow> u64" where
  "CalculateFee tx utxos =
     (if IsCoinbase tx then 0
      else
        let input_value = foldl (\<lambda>v i. case GetCoin utxos (prevout i) of
                None \<Rightarrow> v | Some coin \<Rightarrow> v + asset_amount (out_value (coin_output coin))) 0 (inputs tx);
            output_value = foldl (\<lambda>v out. v + asset_amount (out_value out)) 0 (outputs tx) in
        if input_value > output_value then input_value - output_value else 0)"

text \<open>
  Returns the fee and the size, which the callers use only when the transaction is accepted
  (\<open>Inr (Some _)\<close>). The rate of a very large fee divides by the size in whole kilobytes.
\<close>

definition fee_rate_per_kb :: "u64 \<Rightarrow> u64 \<Rightarrow> cpp_error + u64" where
  "fee_rate_per_kb fee tx_size =
     (if tx_size > 0 then
        if fee \<le> UINT64_MAX div 1000 then Inr ((fee * 1000) div tx_size)
        else if tx_size div 1000 = 0 then Inl ArithmeticTrap
        else Inr (fee div (tx_size div 1000))
      else Inr 0)"

definition Mempool_ValidateTransaction
  :: "Mempool \<Rightarrow> Transaction \<Rightarrow> UTXOSet \<Rightarrow> u32 \<Rightarrow> cpp_error + (u64 \<times> u64) option" where
  "Mempool_ValidateTransaction p tx utxos height =
     (let tx_size = of_nat (GetSerializedSize tx) in
      case ValidateStructure tx of Some _ \<Rightarrow> Inr None
      | None \<Rightarrow>
        (case ValidateAgainstUTXO_result tx utxos height of
           (Some _, _) \<Rightarrow> Inr None
         | (None, res) \<Rightarrow>
             let input_value = foldl (\<lambda>v e. v + snd e) 0 (res_input_amounts res);
                 output_value = foldl (\<lambda>v e. v + snd e) 0 (res_output_amounts res);
                 fee = (if input_value > output_value then input_value - output_value else 0) in
             (case fee_rate_per_kb fee tx_size of
                Inl e \<Rightarrow> Inl e
              | Inr fee_rate \<Rightarrow>
                  if fee_rate < mp_min_relay_fee p then Inr None else Inr (Some (fee, tx_size)))))"

definition HasConflict :: "Mempool \<Rightarrow> Transaction \<Rightarrow> bool" where
  "HasConflict p tx = list_ex (\<lambda>i. mp_spent p (prevout i) \<noteq> None) (inputs tx)"

definition CheckRBFSignaling :: "Transaction \<Rightarrow> bool" where
  "CheckRBFSignaling tx = list_ex (\<lambda>i. sequence i < 0xfffffffe) (inputs tx)"

subsection \<open>Parents and children\<close>

definition push_link :: "bytes \<Rightarrow> bytes \<Rightarrow> (bytes \<rightharpoonup> bytes list) \<Rightarrow> bytes \<rightharpoonup> bytes list" where
  "push_link a b m = m(a \<mapsto> (case m a of None \<Rightarrow> [] | Some bs \<Rightarrow> bs) @ [b])"

definition link_input :: "bytes \<Rightarrow> Mempool \<Rightarrow> TxInput \<Rightarrow> Mempool" where
  "link_input t p i =
     (case map_of (mp_transactions p) (txid (prevout i)) of
        None \<Rightarrow> p
      | Some _ \<Rightarrow> p\<lparr>mp_children := push_link (txid (prevout i)) t (mp_children p),
                   mp_parents := push_link t (txid (prevout i)) (mp_parents p)\<rparr>)"

definition UpdateRelationships :: "Mempool \<Rightarrow> bytes \<Rightarrow> Mempool" where
  "UpdateRelationships p t =
     (case map_of (mp_transactions p) t of
        None \<Rightarrow> p
      | Some e \<Rightarrow> foldl (link_input t) p (inputs (me_tx e)))"

definition RemoveFromRelationships :: "Mempool \<Rightarrow> bytes \<Rightarrow> Mempool" where
  "RemoveFromRelationships p t =
     (let children = (mp_children p)(t := None);
          children = (\<lambda>parent_id. map_option (removeAll t) (children parent_id)) in
      case mp_parents p t of
        None \<Rightarrow> p\<lparr>mp_children := children\<rparr>
      | Some parents \<Rightarrow>
          let children = foldl (\<lambda>m parent_id. case m parent_id of
                  None \<Rightarrow> m | Some cs \<Rightarrow> m(parent_id \<mapsto> removeAll t cs)) children parents in
          p\<lparr>mp_children := children, mp_parents := (mp_parents p)(t := None)\<rparr>)"

text \<open>
  \<open>UpdateAncestorState\<close> without its recursion: the sums over the entry and its parents, and the
  entry taken out of the queue and put back with its new rate.
\<close>

definition ancestor_sums :: "Mempool \<Rightarrow> bytes \<Rightarrow> MempoolEntry \<Rightarrow> u64 \<times> u64 \<times> u32" where
  "ancestor_sums p t e =
     foldl (\<lambda>(f, s, n) parent_id.
         case map_of (mp_transactions p) parent_id of
           None \<Rightarrow> (f, s, n)
         | Some pe \<Rightarrow> (f + me_ancestor_fee pe, s + me_ancestor_size pe, n + (me_ancestor_count pe + 1)))
       (me_fee e, me_size e, 0) (case mp_parents p t of None \<Rightarrow> [] | Some ps \<Rightarrow> ps)"

definition update_entry :: "Mempool \<Rightarrow> bytes \<Rightarrow> MempoolEntry \<Rightarrow> Mempool" where
  "update_entry p t e =
     (let (f, s, n) = ancestor_sums p t e;
          e' = e\<lparr>me_ancestor_fee := f, me_ancestor_size := s, me_ancestor_count := n\<rparr> in
      p\<lparr>mp_transactions := map_put t e' (mp_transactions p),
        mp_queue := set_put entry_less e' (set_del entry_less e (mp_queue p))\<rparr>)"

text \<open>The recursion visits the children first to last, before the rest: a worklist.\<close>

partial_function (option) update_ancestors :: "Mempool \<Rightarrow> bytes list \<Rightarrow> Mempool option" where
  "update_ancestors p todo =
     (case todo of
        [] \<Rightarrow> Some p
      | t # ts \<Rightarrow>
          (case map_of (mp_transactions p) t of
             None \<Rightarrow> update_ancestors p ts
           | Some e \<Rightarrow>
               update_ancestors (update_entry p t e)
                 ((case mp_children p t of None \<Rightarrow> [] | Some cs \<Rightarrow> cs) @ ts)))"

definition UpdateAncestorState :: "Mempool \<Rightarrow> bytes \<Rightarrow> Mempool option" where
  "UpdateAncestorState p t = update_ancestors p [t]"

subsection \<open>Removal and eviction\<close>

definition RemoveTransaction :: "Mempool \<Rightarrow> bytes \<Rightarrow> bool \<times> Mempool" where
  "RemoveTransaction p t =
     (case map_of (mp_transactions p) t of
        None \<Rightarrow> (False, p)
      | Some e \<Rightarrow>
          let p = p\<lparr>mp_queue := set_del entry_less e (mp_queue p)\<rparr>;
              p = p\<lparr>mp_spent := foldl (\<lambda>m i. m(prevout i := None)) (mp_spent p) (inputs (me_tx e))\<rparr>;
              p = RemoveFromRelationships p t;
              p = p\<lparr>mp_total_size := mp_total_size p - me_size e\<rparr>
          in (True, p\<lparr>mp_transactions := map_erase t (mp_transactions p)\<rparr>))"

partial_function (option) EvictTransactions :: "Mempool \<Rightarrow> u64 \<Rightarrow> Mempool option" where
  "EvictTransactions p required_space =
     (if mp_total_size p + required_space > mp_max_size p \<and> mp_queue p \<noteq> [] then
        EvictTransactions (snd (RemoveTransaction p (GetTxID (me_tx (last (mp_queue p)))))) required_space
      else Some p)"

definition Mempool_Clear :: "Mempool \<Rightarrow> Mempool" where
  "Mempool_Clear p = p\<lparr>mp_transactions := [], mp_queue := [], mp_spent := Map.empty,
     mp_children := Map.empty, mp_parents := Map.empty, mp_total_size := 0\<rparr>"

definition invalid_entries
  :: "Mempool \<Rightarrow> UTXOSet \<Rightarrow> u32 \<Rightarrow> (bytes \<times> MempoolEntry) list \<Rightarrow> cpp_error + bytes list" where
  "invalid_entries p utxos height m =
     foldr (\<lambda>(t, e) rest.
         case Mempool_ValidateTransaction p (me_tx e) utxos height of
           Inl err \<Rightarrow> Inl err
         | Inr None \<Rightarrow> Sum_Type.map_sum id (\<lambda>ts. t # ts) rest
         | Inr (Some _) \<Rightarrow> rest) m (Inr [])"

definition RemoveConflicting
  :: "Mempool \<Rightarrow> Transaction list \<Rightarrow> UTXOSet \<Rightarrow> u32 \<Rightarrow> cpp_error + Mempool" where
  "RemoveConflicting p confirmed_txs utxos height =
     (let p = foldl (\<lambda>p tx. snd (RemoveTransaction p (GetTxID tx))) p confirmed_txs in
      case invalid_entries p utxos height (mp_transactions p) of
        Inl err \<Rightarrow> Inl err
      | Inr to_remove \<Rightarrow> Inr (foldl (\<lambda>p t. snd (RemoveTransaction p t)) p to_remove))"

subsection \<open>Queries\<close>

definition GetTransaction :: "Mempool \<Rightarrow> bytes \<Rightarrow> Transaction option" where
  "GetTransaction p t = map_option me_tx (map_of (mp_transactions p) t)"

definition HasTransaction :: "Mempool \<Rightarrow> bytes \<Rightarrow> bool" where
  "HasTransaction p t = (map_of (mp_transactions p) t \<noteq> None)"

definition GetTransactionsByFeeRate :: "Mempool \<Rightarrow> nat \<Rightarrow> Transaction list" where
  "GetTransactionsByFeeRate p max_count = map me_tx (take max_count (mp_queue p))"

fun cutoff_rate :: "u64 \<Rightarrow> u64 \<Rightarrow> u64 \<Rightarrow> MempoolEntry list \<Rightarrow> u64" where
  "cutoff_rate total_capacity accumulated cutoff [] = cutoff"
| "cutoff_rate total_capacity accumulated cutoff (e # es) =
     (let accumulated = accumulated + me_size e in
      if accumulated \<ge> total_capacity then me_fee_rate e
      else cutoff_rate total_capacity accumulated cutoff es)"

definition EstimateFeeRate :: "Mempool \<Rightarrow> u32 \<Rightarrow> u64" where
  "EstimateFeeRate p num_blocks =
     (if mp_queue p = [] then mp_min_relay_fee p
      else cutoff_rate (1024 * 1024 * ucast num_blocks) 0 (mp_min_relay_fee p) (mp_queue p))"

text \<open>A stack of transactions to visit; \<open>back\<close> and \<open>pop_back\<close> take its last element.\<close>

partial_function (option) descend
  :: "(bytes \<rightharpoonup> bytes list) \<Rightarrow> bytes list \<Rightarrow> bytes list \<Rightarrow> bytes list option" where
  "descend children descendants to_process =
     (if to_process = [] then Some descendants
      else
        let current = last to_process; to_process = butlast to_process in
        case children current of
          None \<Rightarrow> descend children descendants to_process
        | Some cs \<Rightarrow> descend children (descendants @ cs) (to_process @ cs))"

definition GetDescendants :: "Mempool \<Rightarrow> bytes \<Rightarrow> bytes list option" where
  "GetDescendants p t = descend (mp_children p) [] [t]"

text \<open>Adds the transactions of the pool that are not in the package yet.\<close>

definition add_package :: "Mempool \<Rightarrow> bytes list \<Rightarrow> Transaction list \<times> bytes set \<Rightarrow> Transaction list \<times> bytes set" where
  "add_package p ids pkg =
     foldl (\<lambda>(txs, seen) t.
         if t \<in> seen then (txs, seen)
         else case map_of (mp_transactions p) t of
           None \<Rightarrow> (txs, seen)
         | Some e \<Rightarrow> (txs @ [me_tx e], insert t seen)) pkg ids"

fun packages_from :: "Mempool \<Rightarrow> nat \<Rightarrow> MempoolEntry list \<Rightarrow> bytes set \<Rightarrow> Transaction list list
    \<Rightarrow> Transaction list list option" where
  "packages_from p max_count [] processed packages = Some packages"
| "packages_from p max_count (e # es) processed packages =
     (if length packages \<ge> max_count then Some packages
      else
        let t = GetTxID (me_tx e) in
        if t \<in> processed then packages_from p max_count es processed packages
        else
          let pkg = add_package p (case mp_parents p t of None \<Rightarrow> [] | Some ps \<Rightarrow> ps) ([me_tx e], {t}) in
          (case GetDescendants p t of
             None \<Rightarrow> None
           | Some descendants \<Rightarrow>
               let (package, ids) = add_package p descendants pkg in
               packages_from p max_count es (processed \<union> ids) (packages @ [package])))"

definition GetTransactionPackages :: "Mempool \<Rightarrow> nat \<Rightarrow> Transaction list list option" where
  "GetTransactionPackages p max_count = packages_from p max_count (mp_queue p) {} []"

subsection \<open>Replacement by fee\<close>

definition GetConflictingTransactions :: "Mempool \<Rightarrow> Transaction \<Rightarrow> bytes list" where
  "GetConflictingTransactions p tx =
     remdups_adj (sort (concat (map (\<lambda>i. case mp_spent p (prevout i) of None \<Rightarrow> [] | Some t \<Rightarrow> [t]) (inputs tx))))"

definition CalculateReplacedFees :: "Mempool \<Rightarrow> bytes list \<Rightarrow> u64" where
  "CalculateReplacedFees p replaced =
     foldl (\<lambda>total t. case map_of (mp_transactions p) t of None \<Rightarrow> total | Some e \<Rightarrow> total + me_fee e) 0 replaced"

text \<open>
  Conversion of an integer to \<open>double\<close> and multiplication of two doubles round to 53 significant
  bits, ties to even; no value here overflows or is subnormal. The literal 1.1 is the double
  \<open>4953959590107546 / 2 ^ 52\<close>.
\<close>

fun bit_length :: "nat \<Rightarrow> nat" where
  "bit_length n = (if n = 0 then 0 else Suc (bit_length (n div 2)))"

declare bit_length.simps [simp del]

definition round53 :: "nat \<Rightarrow> nat" where
  "round53 n =
     (if n < 2 ^ 53 then n
      else
        let k = bit_length n - 53; q = n div 2 ^ k; r = n mod 2 ^ k in
        if r > 2 ^ (k - 1) \<or> (r = 2 ^ (k - 1) \<and> odd q) then (q + 1) * 2 ^ k else q * 2 ^ k)"

definition below_multiplier :: "u64 \<Rightarrow> u64 \<Rightarrow> bool" where
  "below_multiplier new_fee_rate min_rate =
     (round53 (unat new_fee_rate) * 2 ^ 52 < round53 (round53 (unat min_rate) * 4953959590107546))"

definition min_replaced_fee_rate :: "Mempool \<Rightarrow> bytes list \<Rightarrow> u64" where
  "min_replaced_fee_rate p replaced =
     foldl (\<lambda>rate t. case map_of (mp_transactions p) t of None \<Rightarrow> rate | Some e \<Rightarrow> min rate (me_fee_rate e))
       UINT64_MAX replaced"

text \<open>The common end of \<open>AddTransaction\<close> and \<open>ReplaceTransaction\<close>.\<close>

definition insert_entry :: "Mempool \<Rightarrow> bytes \<Rightarrow> MempoolEntry \<Rightarrow> Mempool option" where
  "insert_entry p t e =
     (let p = p\<lparr>mp_transactions := map_put t e (mp_transactions p),
               mp_queue := set_put entry_less e (mp_queue p),
               mp_total_size := mp_total_size p + me_size e,
               mp_spent := foldl (\<lambda>m i. m(prevout i \<mapsto> t)) (mp_spent p) (inputs (me_tx e))\<rparr> in
      UpdateAncestorState (UpdateRelationships p t) t)"

definition ReplaceTransaction :: "u32 \<Rightarrow> Mempool \<Rightarrow> Transaction \<Rightarrow> UTXOSet \<Rightarrow> u32
    \<Rightarrow> ((cpp_error + bool) \<times> Mempool) option" where
  "ReplaceTransaction now p tx utxos height =
     (let conflicting = GetConflictingTransactions p tx in
      if conflicting = [] then Some (Inr False, p)
      else if list_ex (\<lambda>t. case map_of (mp_transactions p) t of
                None \<Rightarrow> True | Some e \<Rightarrow> \<not> me_signals_rbf e) conflicting then Some (Inr False, p)
      else case Mempool_ValidateTransaction p tx utxos height of
        Inl err \<Rightarrow> Some (Inl err, p)
      | Inr None \<Rightarrow> Some (Inr False, p)
      | Inr (Some (new_fee, new_size)) \<Rightarrow>
          let replaced_fees = CalculateReplacedFees p conflicting in
          if new_fee \<le> replaced_fees then Some (Inr False, p)
          else if new_fee < replaced_fees + 1000 then Some (Inr False, p)
          else if below_multiplier (if new_size > 0 then new_fee div new_size else 0)
                    (min_replaced_fee_rate p conflicting) then Some (Inr False, p)
          else
            let p = foldl (\<lambda>p t. snd (RemoveTransaction p t)) p conflicting in
            map_option (Pair (Inr True))
              (insert_entry p (GetTxID tx)
                 (MempoolEntry_make tx new_fee now height (CheckRBFSignaling tx))))"

definition AddTransaction :: "u32 \<Rightarrow> Mempool \<Rightarrow> Transaction \<Rightarrow> UTXOSet \<Rightarrow> u32
    \<Rightarrow> ((cpp_error + bool) \<times> Mempool) option" where
  "AddTransaction now p tx utxos height =
     (let t = GetTxID tx in
      if map_of (mp_transactions p) t \<noteq> None then Some (Inr False, p)
      else case Mempool_ValidateTransaction p tx utxos height of
        Inl err \<Rightarrow> Some (Inl err, p)
      | Inr None \<Rightarrow> Some (Inr False, p)
      | Inr (Some (fee, tx_size)) \<Rightarrow>
          if HasConflict p tx then
            (if CheckRBFSignaling tx then ReplaceTransaction now p tx utxos height
             else Some (Inr False, p))
          else
            let entry = MempoolEntry_make tx fee now height (CheckRBFSignaling tx) in
            if mp_total_size p + me_size entry > mp_max_size p then
              (case EvictTransactions p (me_size entry) of
                 None \<Rightarrow> None
               | Some p' \<Rightarrow>
                   if mp_total_size p' + me_size entry > mp_max_size p' then Some (Inr False, p')
                   else map_option (Pair (Inr True)) (insert_entry p' t entry))
            else map_option (Pair (Inr True)) (insert_entry p t entry))"

subsection \<open>The invariant\<close>

abbreviation (input) pool_find :: "Mempool \<Rightarrow> bytes \<Rightarrow> MempoolEntry option" where
  "pool_find p t \<equiv> map_of (mp_transactions p) t"

definition prevouts :: "Transaction \<Rightarrow> OutPoint set" where
  "prevouts tx = prevout ` set (inputs tx)"

text \<open>
  The map is keyed by transaction id; the queue is sorted and holds only entries of the map; the
  size is the sum of the entries' sizes; the index maps an outpoint to a transaction exactly when
  that transaction of the pool spends it.
\<close>

definition pool_inv :: "Mempool \<Rightarrow> bool" where
  "pool_inv p \<longleftrightarrow> sorted_keys (mp_transactions p)
     \<and> (\<forall>t e. pool_find p t = Some e \<longrightarrow> GetTxID (me_tx e) = t)
     \<and> sorted_wrt entry_less (mp_queue p)
     \<and> (\<forall>e \<in> set (mp_queue p). pool_find p (GetTxID (me_tx e)) = Some e)
     \<and> mp_total_size p = StdMap.map_sum me_size (mp_transactions p)
     \<and> (\<forall>out t. mp_spent p out = Some t \<longleftrightarrow> (\<exists>e. pool_find p t = Some e \<and> out \<in> prevouts (me_tx e)))"

text \<open>Links join transactions of the pool, and a child always comes later than its parents.\<close>

definition links_inv :: "Mempool \<Rightarrow> bool" where
  "links_inv p \<longleftrightarrow> (\<forall>t cs. mp_children p t = Some cs \<longrightarrow> pool_find p t \<noteq> None
        \<and> (\<forall>c \<in> set cs. pool_find p c \<noteq> None))
     \<and> (\<exists>rank :: bytes \<Rightarrow> nat. \<forall>t cs. mp_children p t = Some cs \<longrightarrow> (\<forall>c \<in> set cs. rank t < rank c))"

lemma pool_invD:
  assumes "pool_inv p"
  shows "sorted_keys (mp_transactions p)"
    and "pool_find p t = Some e \<Longrightarrow> GetTxID (me_tx e) = t"
    and "sorted_wrt entry_less (mp_queue p)"
    and "e \<in> set (mp_queue p) \<Longrightarrow> pool_find p (GetTxID (me_tx e)) = Some e"
    and "mp_total_size p = StdMap.map_sum me_size (mp_transactions p)"
    and "mp_spent p out = Some t \<longleftrightarrow> (\<exists>e. pool_find p t = Some e \<and> out \<in> prevouts (me_tx e))"
  using assms unfolding pool_inv_def by blast+

lemma pool_inv_cong:
  assumes "mp_transactions q = mp_transactions p" "mp_queue q = mp_queue p" "mp_spent q = mp_spent p"
    "mp_total_size q = mp_total_size p"
  shows "pool_inv q = pool_inv p"
  by (simp add: pool_inv_def assms)

lemma links_inv_cong:
  assumes "\<And>t. pool_find q t = None \<longleftrightarrow> pool_find p t = None" "mp_children q = mp_children p"
  shows "links_inv q = links_inv p"
  by (simp add: links_inv_def assms)

lemma clear_spent: "foldl (\<lambda>m i. m(prevout i := None)) m is = (\<lambda>out. if out \<in> prevout ` set is then None else m out)"
  by (induction "is" arbitrary: m) auto

lemma set_spent: "foldl (\<lambda>m i. m(prevout i \<mapsto> t)) m is = (\<lambda>out. if out \<in> prevout ` set is then Some t else m out)"
  by (induction "is" arbitrary: m) auto

subsection \<open>Links\<close>

lemma link_input_frame [simp]:
  "mp_transactions (link_input t p i) = mp_transactions p" "mp_queue (link_input t p i) = mp_queue p"
  "mp_spent (link_input t p i) = mp_spent p" "mp_total_size (link_input t p i) = mp_total_size p"
  "mp_max_size (link_input t p i) = mp_max_size p" "mp_min_relay_fee (link_input t p i) = mp_min_relay_fee p"
  by (simp_all add: link_input_def split: option.splits)

lemma foldl_link_frame [simp]:
  "mp_transactions (foldl (link_input t) p is) = mp_transactions p" "mp_queue (foldl (link_input t) p is) = mp_queue p"
  "mp_spent (foldl (link_input t) p is) = mp_spent p" "mp_total_size (foldl (link_input t) p is) = mp_total_size p"
  "mp_max_size (foldl (link_input t) p is) = mp_max_size p"
  "mp_min_relay_fee (foldl (link_input t) p is) = mp_min_relay_fee p"
  by (induction "is" arbitrary: p) simp_all

lemma UpdateRelationships_frame [simp]:
  "mp_transactions (UpdateRelationships p t) = mp_transactions p" "mp_queue (UpdateRelationships p t) = mp_queue p"
  "mp_spent (UpdateRelationships p t) = mp_spent p" "mp_total_size (UpdateRelationships p t) = mp_total_size p"
  "mp_max_size (UpdateRelationships p t) = mp_max_size p"
  "mp_min_relay_fee (UpdateRelationships p t) = mp_min_relay_fee p"
  by (simp_all add: UpdateRelationships_def split: option.splits)

lemma children_link_input:
  "mp_children (link_input t p i) q =
     (if q = txid (prevout i) \<and> pool_find p q \<noteq> None
      then Some ((case mp_children p q of None \<Rightarrow> [] | Some cs \<Rightarrow> cs) @ [t]) else mp_children p q)"
  by (auto simp: link_input_def push_link_def split: option.splits)

text \<open>A new transaction only becomes a child, of transactions of the pool that it spends.\<close>

lemma children_links:
  assumes "mp_children (foldl (link_input t) p is) q = Some cs" and "c \<in> set cs"
  shows "(\<exists>cs'. mp_children p q = Some cs' \<and> c \<in> set cs')
    \<or> (c = t \<and> pool_find p q \<noteq> None \<and> q \<in> (\<lambda>i. txid (prevout i)) ` set is)"
  using assms
proof (induction "is" arbitrary: p)
  case (Cons i "is")
  from Cons.IH [of "link_input t p i"] Cons.prems show ?case
    by (cases "mp_children p q") (auto simp: children_link_input split: if_splits)
qed simp

lemma children_links_dom:
  "mp_children (foldl (link_input t) p is) q = Some cs \<Longrightarrow> mp_children p q \<noteq> None \<or> pool_find p q \<noteq> None"
proof (induction "is" arbitrary: p)
  case (Cons i "is")
  from Cons.IH [of "link_input t p i"] Cons.prems show ?case
    by (auto simp: children_link_input split: if_splits)
qed simp

lemma children_links_self:
  "\<forall>i \<in> set is. txid (prevout i) \<noteq> t \<Longrightarrow> mp_children (foldl (link_input t) p is) t = mp_children p t"
  by (induction "is" arbitrary: p) (auto simp: children_link_input)

lemma removeAll_links_id:
  "(\<And>q cs. m q = Some cs \<Longrightarrow> t \<notin> set cs) \<Longrightarrow>
     foldl (\<lambda>m parent_id. case m parent_id of None \<Rightarrow> m | Some cs \<Rightarrow> m(parent_id \<mapsto> removeAll t cs)) m ps = m"
proof (induction ps arbitrary: m)
  case (Cons a ps)
  have "(case m a of None \<Rightarrow> m | Some cs \<Rightarrow> m(a \<mapsto> removeAll t cs)) = m"
    using Cons.prems [of a] by (auto split: option.splits)
  then show ?case using Cons by simp
qed simp

lemma RemoveFromRelationships_frame [simp]:
  "mp_transactions (RemoveFromRelationships p t) = mp_transactions p" "mp_queue (RemoveFromRelationships p t) = mp_queue p"
  "mp_spent (RemoveFromRelationships p t) = mp_spent p" "mp_total_size (RemoveFromRelationships p t) = mp_total_size p"
  "mp_max_size (RemoveFromRelationships p t) = mp_max_size p"
  "mp_min_relay_fee (RemoveFromRelationships p t) = mp_min_relay_fee p"
  by (simp_all add: RemoveFromRelationships_def Let_def split: option.splits)

lemma children_removed:
  "mp_children (RemoveFromRelationships p t)
     = (\<lambda>q. if q = t then None else map_option (removeAll t) (mp_children p q))"
proof -
  let ?m = "\<lambda>q. map_option (removeAll t) (((mp_children p)(t := None)) q)"
  have "foldl (\<lambda>m parent_id. case m parent_id of None \<Rightarrow> m | Some cs \<Rightarrow> m(parent_id \<mapsto> removeAll t cs)) ?m ps = ?m" for ps
    by (rule removeAll_links_id) auto
  then show ?thesis
    by (auto simp: RemoveFromRelationships_def Let_def fun_eq_iff split: option.splits)
qed

subsection \<open>Removal\<close>

lemma RemoveTransaction_absent: "pool_find p t = None \<Longrightarrow> RemoveTransaction p t = (False, p)"
  by (simp add: RemoveTransaction_def)

lemma RemoveTransaction_fields:
  assumes "pool_find p t = Some e"
  shows "mp_transactions (snd (RemoveTransaction p t)) = map_erase t (mp_transactions p)"
    "mp_queue (snd (RemoveTransaction p t)) = set_del entry_less e (mp_queue p)"
    "mp_spent (snd (RemoveTransaction p t)) = (\<lambda>out. if out \<in> prevouts (me_tx e) then None else mp_spent p out)"
    "mp_total_size (snd (RemoveTransaction p t)) = mp_total_size p - me_size e"
    "mp_children (snd (RemoveTransaction p t))
       = (\<lambda>q. if q = t then None else map_option (removeAll t) (mp_children p q))"
    "mp_max_size (snd (RemoveTransaction p t)) = mp_max_size p"
    "mp_min_relay_fee (snd (RemoveTransaction p t)) = mp_min_relay_fee p"
  using assms by (simp_all add: RemoveTransaction_def Let_def clear_spent prevouts_def children_removed fun_eq_iff)

lemma pool_find_remove: "pool_find (snd (RemoveTransaction p t)) u = (if u = t then None else pool_find p u)"
  by (cases "pool_find p t") (auto simp: RemoveTransaction_absent RemoveTransaction_fields)

lemma RemoveTransaction_inv:
  assumes "pool_inv p"
  shows "pool_inv (snd (RemoveTransaction p t))"
proof (cases "pool_find p t")
  case (Some e)
  note inv = pool_invD [OF assms]
  note f = RemoveTransaction_fields [OF Some]
  have queue_other: "GetTxID (me_tx e') \<noteq> t"
    if "e' \<in> set (mp_queue p)" "entry_less e e' \<or> entry_less e' e" for e'
    using inv(4) [OF that(1)] Some that(2) queue.irrefl by fastforce
  show ?thesis
    unfolding pool_inv_def f
  proof (intro conjI)
    show "sorted_keys (map_erase t (mp_transactions p))" using inv(1) by simp
    show "\<forall>t' e'. map_of (map_erase t (mp_transactions p)) t' = Some e' \<longrightarrow> GetTxID (me_tx e') = t'"
      using inv(2) by auto
    show "sorted_wrt entry_less (set_del entry_less e (mp_queue p))" by (rule sorted_set_del [OF inv(3)])
    show "\<forall>e' \<in> set (set_del entry_less e (mp_queue p)).
        map_of (map_erase t (mp_transactions p)) (GetTxID (me_tx e')) = Some e'"
      using inv(4) queue_other by auto
    show "mp_total_size p - me_size e = StdMap.map_sum me_size (map_erase t (mp_transactions p))"
      using map_sum_erase [OF inv(1) Some, of me_size] by (simp add: inv(5))
    show "\<forall>out t'. ((if out \<in> prevouts (me_tx e) then None else mp_spent p out) = Some t')
        = (\<exists>e'. map_of (map_erase t (mp_transactions p)) t' = Some e' \<and> out \<in> prevouts (me_tx e'))"
    proof (intro allI)
      fix out t'
      show "((if out \<in> prevouts (me_tx e) then None else mp_spent p out) = Some t')
        = (\<exists>e'. map_of (map_erase t (mp_transactions p)) t' = Some e' \<and> out \<in> prevouts (me_tx e'))"
      proof (cases "out \<in> prevouts (me_tx e)")
        case True
        then have "mp_spent p out = Some t" using inv(6) Some by blast
        then have "\<not> (t' \<noteq> t \<and> pool_find p t' = Some e' \<and> out \<in> prevouts (me_tx e'))" for e'
          using inv(6) [of out t'] by auto
        then show ?thesis using True by auto
      next
        case False
        then show ?thesis using inv(6) [of out t'] Some by auto
      qed
    qed
  qed
qed (simp add: RemoveTransaction_absent assms)

lemma RemoveTransaction_links:
  assumes "links_inv p"
  shows "links_inv (snd (RemoveTransaction p t))"
proof (cases "pool_find p t")
  case (Some e)
  obtain rank :: "bytes \<Rightarrow> nat" where rank: "\<And>t cs c. mp_children p t = Some cs \<Longrightarrow> c \<in> set cs \<Longrightarrow> rank t < rank c"
    using assms unfolding links_inv_def by blast
  have dom: "pool_find p u \<noteq> None" "\<And>c. c \<in> set cs \<Longrightarrow> pool_find p c \<noteq> None" if "mp_children p u = Some cs" for u cs
    using assms that unfolding links_inv_def by blast+
  have eq: "mp_children (snd (RemoveTransaction p t)) u = (if u = t then None else map_option (removeAll t) (mp_children p u))" for u
    by (simp add: RemoveTransaction_fields [OF Some])
  show ?thesis
    unfolding links_inv_def pool_find_remove eq
  proof (rule conjI)
    show "\<forall>u cs. (if u = t then None else map_option (removeAll t) (mp_children p u)) = Some cs \<longrightarrow>
        (if u = t then None else pool_find p u) \<noteq> None \<and> (\<forall>c\<in>set cs. (if c = t then None else pool_find p c) \<noteq> None)"
      using dom by (auto split: if_splits)
    show "\<exists>rank :: bytes \<Rightarrow> nat. \<forall>u cs. (if u = t then None else map_option (removeAll t) (mp_children p u)) = Some cs \<longrightarrow>
        (\<forall>c\<in>set cs. rank u < rank c)"
      using rank by (intro exI [of _ rank]) (auto split: if_splits)
  qed
qed (simp add: RemoveTransaction_absent assms)

subsection \<open>Priorities and ancestors\<close>

lemma update_entry_fields:
  "mp_spent (update_entry p t e) = mp_spent p" "mp_children (update_entry p t e) = mp_children p"
  "mp_total_size (update_entry p t e) = mp_total_size p" "mp_max_size (update_entry p t e) = mp_max_size p"
  by (simp_all add: update_entry_def Let_def split: prod.splits)

lemma update_entry_find:
  "pool_find p t = Some e \<Longrightarrow> (pool_find (update_entry p t e) u = None) = (pool_find p u = None)"
  by (auto simp: update_entry_def Let_def split: prod.splits)

lemma update_entry_inv:
  assumes "pool_inv p" and t: "pool_find p t = Some e"
  shows "pool_inv (update_entry p t e)"
proof -
  note inv = pool_invD [OF assms(1)]
  obtain f s n where sums: "ancestor_sums p t e = (f, s, n)" by (metis prod_cases3)
  define e' where "e' = e\<lparr>me_ancestor_fee := f, me_ancestor_size := s, me_ancestor_count := n\<rparr>"
  have e': "me_tx e' = me_tx e" "me_size e' = me_size e" by (simp_all add: e'_def)
  have id: "GetTxID (me_tx e) = t" by (rule inv(2) [OF t])
  have upd: "update_entry p t e = p\<lparr>mp_transactions := map_put t e' (mp_transactions p),
      mp_queue := set_put entry_less e' (set_del entry_less e (mp_queue p))\<rparr>"
    by (simp add: update_entry_def Let_def sums e'_def)
  have queue: "pool_find (update_entry p t e) (GetTxID (me_tx x)) = Some x"
    if "x \<in> set (set_put entry_less e' (set_del entry_less e (mp_queue p)))" for x
  proof -
    from that set_put_subset [of entry_less e' "set_del entry_less e (mp_queue p)"]
    consider "x = e'" | "x \<in> set (mp_queue p)" "entry_less e x \<or> entry_less x e" by auto
    then show ?thesis
    proof cases
      case 1
      then show ?thesis by (simp add: upd e' id)
    next
      case 2
      then have "x \<noteq> e" using queue.irrefl by auto
      then have "GetTxID (me_tx x) \<noteq> t" using inv(4) [OF 2(1)] t by auto
      then show ?thesis using inv(4) [OF 2(1)] by (simp add: upd)
    qed
  qed
  show ?thesis
    unfolding pool_inv_def
  proof (intro conjI)
    show "sorted_keys (mp_transactions (update_entry p t e))" using inv(1) by (simp add: upd)
    show "\<forall>u x. pool_find (update_entry p t e) u = Some x \<longrightarrow> GetTxID (me_tx x) = u"
      using inv(2) id e' by (auto simp: upd)
    show "sorted_wrt entry_less (mp_queue (update_entry p t e))"
      using queue.sorted_set_put [OF sorted_set_del [OF inv(3)]] by (simp add: upd)
    show "\<forall>x \<in> set (mp_queue (update_entry p t e)). pool_find (update_entry p t e) (GetTxID (me_tx x)) = Some x"
      using queue by (simp add: upd)
    show "mp_total_size (update_entry p t e) = StdMap.map_sum me_size (mp_transactions (update_entry p t e))"
      using map_sum_put_old [OF inv(1) t, of me_size e'] by (simp add: upd e' inv(5))
    show "\<forall>out u. (mp_spent (update_entry p t e) out = Some u)
        = (\<exists>x. pool_find (update_entry p t e) u = Some x \<and> out \<in> prevouts (me_tx x))"
      using inv(6) t e' by (auto simp: upd)
  qed
qed

lemma update_entry_txs: "pool_find p t = Some e \<Longrightarrow> GetTransaction (update_entry p t e) = GetTransaction p"
  by (auto simp: update_entry_def Let_def GetTransaction_def fun_eq_iff split: prod.splits)

lemma update_entry_links: "links_inv p \<Longrightarrow> pool_find p t = Some e \<Longrightarrow> links_inv (update_entry p t e)"
  using links_inv_cong [of "update_entry p t e" p] by (simp add: update_entry_find update_entry_fields)

text \<open>On linked pools the recursion over the descendants returns.\<close>

lemma update_ancestors_Nil [simp]: "update_ancestors p [] = Some p"
  by (simp add: update_ancestors.simps)

lemma update_ancestors_Cons:
  "update_ancestors p (t # ts) =
     (case pool_find p t of None \<Rightarrow> update_ancestors p ts
      | Some e \<Rightarrow> update_ancestors (update_entry p t e)
          ((case mp_children p t of None \<Rightarrow> [] | Some cs \<Rightarrow> cs) @ ts))"
  by (subst update_ancestors.simps) simp

lemma update_ancestors_returns:
  fixes rank :: "bytes \<Rightarrow> nat"
  assumes rank: "\<And>t cs c. m t = Some cs \<Longrightarrow> c \<in> set cs \<Longrightarrow> rank t < rank c \<and> rank c \<le> N"
    and rest: "\<And>p. mp_children p = m \<Longrightarrow> pool_inv p \<Longrightarrow> links_inv p \<Longrightarrow>
      \<exists>p'. update_ancestors p rest = Some p' \<and> pool_inv p' \<and> links_inv p' \<and> mp_children p' = m \<and> GetTransaction p' = GetTransaction p"
    and p: "mp_children p = m" "pool_inv p" "links_inv p"
  shows "\<exists>p'. update_ancestors p (t # rest) = Some p' \<and> pool_inv p' \<and> links_inv p' \<and> mp_children p' = m \<and> GetTransaction p' = GetTransaction p"
  using rest p
proof (induction "N - rank t" arbitrary: t rest p rule: less_induct)
  case less
  show ?case
  proof (cases "pool_find p t")
    case None
    then show ?thesis using less.prems by (simp add: update_ancestors_Cons update_entry_txs)
  next
    case (Some e)
    let ?p = "update_entry p t e"
    have p: "mp_children ?p = m" "pool_inv ?p" "links_inv ?p"
      using less.prems Some update_entry_inv update_entry_links by (simp_all add: update_entry_fields)
    have many: "\<And>p. mp_children p = m \<Longrightarrow> pool_inv p \<Longrightarrow> links_inv p \<Longrightarrow>
        \<exists>p'. update_ancestors p (cs @ rest) = Some p' \<and> pool_inv p' \<and> links_inv p' \<and> mp_children p' = m \<and> GetTransaction p' = GetTransaction p"
      if "\<And>c. c \<in> set cs \<Longrightarrow> N - rank c < N - rank t" for cs
      using that
    proof (induction cs)
      case Nil
      then show ?case using less.prems(1) by simp
    next
      case (Cons c cs)
      then show ?case using less.hyps [of c "cs @ rest"] by simp
    qed
    show ?thesis
    proof (cases "m t")
      case None
      then show ?thesis using less.prems(1) [OF p] Some less.prems(2)
        by (simp add: update_ancestors_Cons update_entry_txs)
    next
      case (Some cs)
      then have "\<And>c. c \<in> set cs \<Longrightarrow> N - rank c < N - rank t" using rank [OF Some] by fastforce
      from many [OF this p] show ?thesis
        using \<open>pool_find p t = Some e\<close> less.prems(2) Some by (simp add: update_ancestors_Cons update_entry_txs)
    qed
  qed
qed


lemma rank_bounded:
  assumes "links_inv p"
  shows "\<exists>(rank :: bytes \<Rightarrow> nat) N. \<forall>t cs c. mp_children p t = Some cs \<longrightarrow> c \<in> set cs \<longrightarrow> rank t < rank c \<and> rank c \<le> N"
proof -
  obtain rank :: "bytes \<Rightarrow> nat" where rank: "\<And>t cs c. mp_children p t = Some cs \<Longrightarrow> c \<in> set cs \<Longrightarrow> rank t < rank c"
    using assms unfolding links_inv_def by blast
  have "rank c \<le> sum_list (map rank (map fst (mp_transactions p)))"
    if "mp_children p t = Some cs" "c \<in> set cs" for t cs c
  proof -
    have "pool_find p c \<noteq> None" using assms that unfolding links_inv_def by blast
    then have "c \<in> set (map fst (mp_transactions p))" by (auto simp: map_of_eq_None_iff)
    then show ?thesis by (intro member_le_sum_list) auto
  qed
  with rank show ?thesis by blast
qed

lemma UpdateAncestorState_returns:
  assumes "pool_inv p" and "links_inv p"
  shows "\<exists>p'. UpdateAncestorState p t = Some p' \<and> pool_inv p' \<and> links_inv p' \<and> mp_children p' = mp_children p \<and> GetTransaction p' = GetTransaction p"
proof -
  obtain rank :: "bytes \<Rightarrow> nat" and N where
    "\<And>t cs c. mp_children p t = Some cs \<Longrightarrow> c \<in> set cs \<Longrightarrow> rank t < rank c \<and> rank c \<le> N"
    using rank_bounded [OF assms(2)] by blast
  from update_ancestors_returns [of "mp_children p" rank N "[]", OF this] show ?thesis
    unfolding UpdateAncestorState_def using assms by simp
qed

subsection \<open>Insertion\<close>

definition no_self_spend :: "Transaction \<Rightarrow> bool" where
  "no_self_spend tx \<longleftrightarrow> (\<forall>i \<in> set (inputs tx). txid (prevout i) \<noteq> GetTxID tx)"

definition with_entry :: "Mempool \<Rightarrow> bytes \<Rightarrow> MempoolEntry \<Rightarrow> Mempool" where
  "with_entry p t e = p\<lparr>mp_transactions := map_put t e (mp_transactions p),
     mp_queue := set_put entry_less e (mp_queue p),
     mp_total_size := mp_total_size p + me_size e,
     mp_spent := (\<lambda>out. if out \<in> prevouts (me_tx e) then Some t else mp_spent p out)\<rparr>"

lemma insert_entry_eq: "insert_entry p t e = UpdateAncestorState (UpdateRelationships (with_entry p t e) t) t"
  by (simp add: insert_entry_def with_entry_def Let_def set_spent prevouts_def)

lemma with_entry_inv:
  assumes "pool_inv p" and new: "pool_find p t = None" and id: "GetTxID (me_tx e) = t"
    and free: "\<And>out. out \<in> prevouts (me_tx e) \<Longrightarrow> mp_spent p out = None"
  shows "pool_inv (with_entry p t e)"
proof -
  note inv = pool_invD [OF assms(1)]
  have q: "pool_find (with_entry p t e) (GetTxID (me_tx x)) = Some x"
    if "x \<in> set (set_put entry_less e (mp_queue p))" for x
    using that set_put_subset [of entry_less e "mp_queue p"] inv(4) new id
    by (fastforce simp: with_entry_def)
  show ?thesis
    unfolding pool_inv_def
  proof (intro conjI)
    show "\<forall>out u. (mp_spent (with_entry p t e) out = Some u)
        = (\<exists>x. pool_find (with_entry p t e) u = Some x \<and> out \<in> prevouts (me_tx x))"
    proof (intro allI)
      fix out u
      show "(mp_spent (with_entry p t e) out = Some u)
        = (\<exists>x. pool_find (with_entry p t e) u = Some x \<and> out \<in> prevouts (me_tx x))"
        using inv(6) [of out u] free [of out] new by (auto simp: with_entry_def)
    qed
    show "mp_total_size (with_entry p t e) = StdMap.map_sum me_size (mp_transactions (with_entry p t e))"
      using new by (simp add: with_entry_def map_sum_put_new inv(5) add.commute)
  qed (use inv(1,2) id q queue.sorted_set_put [OF inv(3)] in \<open>auto simp: with_entry_def\<close>)
qed

lemma linked_inv:
  assumes "links_inv p" and new: "pool_find p t = None" and self: "no_self_spend (me_tx e)"
    and id: "GetTxID (me_tx e) = t"
  shows "links_inv (UpdateRelationships (with_entry p t e) t)"
proof -
  let ?p = "with_entry p t e"
  have upd: "UpdateRelationships ?p t = foldl (link_input t) ?p (inputs (me_tx e))"
    by (simp add: UpdateRelationships_def with_entry_def)
  have ch: "mp_children ?p = mp_children p" by (simp add: with_entry_def)
  have find: "pool_find ?p u = (if u = t then Some e else pool_find p u)" for u by (simp add: with_entry_def)
  obtain rank :: "bytes \<Rightarrow> nat" where rank: "\<And>t cs c. mp_children p t = Some cs \<Longrightarrow> c \<in> set cs \<Longrightarrow> rank t < rank c"
    using assms(1) unfolding links_inv_def by blast
  have dom: "pool_find p u \<noteq> None \<and> (\<forall>c \<in> set cs. pool_find p c \<noteq> None)" if "mp_children p u = Some cs" for u cs
    using assms(1) that unfolding links_inv_def by blast
  let ?ps = "map (\<lambda>i. txid (prevout i)) (inputs (me_tx e))"
  define rank' where "rank' = rank(t := Suc (sum_list (map rank ?ps)))"
  have none: "mp_children (UpdateRelationships ?p t) t = None"
    unfolding upd using self id dom [of t] new
    by (subst children_links_self; cases "mp_children p t") (auto simp: no_self_spend_def ch)
  have "rank' q < rank' c"
    if "mp_children (UpdateRelationships ?p t) q = Some cs" "c \<in> set cs" for q cs c
  proof -
    have "q \<noteq> t" using that(1) none by auto
    from children_links [OF that [unfolded upd]]
    consider (old) cs' where "mp_children p q = Some cs'" "c \<in> set cs'"
      | (new) "c = t" "q \<in> set ?ps" by (auto simp: ch)
    then show ?thesis
    proof cases
      case old
      then have "c \<noteq> t" using dom [OF old(1)] new by auto
      then show ?thesis using rank [OF old] \<open>q \<noteq> t\<close> by (simp add: rank'_def)
    next
      case new
      then have "rank q \<le> sum_list (map rank ?ps)" by (intro member_le_sum_list) auto
      then show ?thesis using new \<open>q \<noteq> t\<close> by (simp add: rank'_def)
    qed
  qed
  moreover have "pool_find ?p q \<noteq> None \<and> (\<forall>c \<in> set cs. pool_find ?p c \<noteq> None)"
    if "mp_children (UpdateRelationships ?p t) q = Some cs" for q cs
  proof -
    have "pool_find ?p q \<noteq> None"
      using children_links_dom [OF that [unfolded upd]] dom [of q] by (auto simp: ch find)
    moreover have "pool_find ?p c \<noteq> None" if "c \<in> set cs" for c
      using children_links [OF \<open>mp_children (UpdateRelationships ?p t) q = Some cs\<close> [unfolded upd] that] dom
      by (auto simp: ch find)
    ultimately show ?thesis by blast
  qed
  ultimately show ?thesis
    unfolding links_inv_def UpdateRelationships_frame by blast
qed

lemma insert_entry_returns:
  assumes "pool_inv p" and "links_inv p" and "pool_find p t = None" and "GetTxID (me_tx e) = t"
    and "no_self_spend (me_tx e)" and "\<And>out. out \<in> prevouts (me_tx e) \<Longrightarrow> mp_spent p out = None"
  shows "\<exists>p'. insert_entry p t e = Some p' \<and> pool_inv p' \<and> links_inv p'
    \<and> GetTransaction p' = (GetTransaction p)(t \<mapsto> me_tx e)"
proof -
  have "pool_inv (UpdateRelationships (with_entry p t e) t)"
    using with_entry_inv [OF assms(1,3,4,6)] pool_inv_cong [of "UpdateRelationships (with_entry p t e) t" "with_entry p t e"]
    by simp
  from UpdateAncestorState_returns [OF this linked_inv [OF assms(2,3,5,4)], of t]
  have "\<exists>p'. insert_entry p t e = Some p' \<and> pool_inv p' \<and> links_inv p'
    \<and> GetTransaction p' = GetTransaction (UpdateRelationships (with_entry p t e) t)"
    unfolding insert_entry_eq by blast
  moreover have "GetTransaction (UpdateRelationships (with_entry p t e) t) = (GetTransaction p)(t \<mapsto> me_tx e)"
    by (simp add: GetTransaction_def with_entry_def fun_eq_iff)
  ultimately show ?thesis by simp
qed

lemma insert_entry_inv:
  assumes "pool_inv p" and "links_inv p" and "pool_find p t = None" and "GetTxID (me_tx e) = t"
    and "no_self_spend (me_tx e)" and "\<And>out. out \<in> prevouts (me_tx e) \<Longrightarrow> mp_spent p out = None"
  shows "\<exists>p'. insert_entry p t e = Some p' \<and> pool_inv p' \<and> links_inv p'"
  using insert_entry_returns [OF assms] by blast

subsection \<open>Eviction\<close>

lemma removeAll_queue:
  assumes "pool_inv p" and "mp_queue p \<noteq> []"
  shows "length (mp_queue (snd (RemoveTransaction p (GetTxID (me_tx (last (mp_queue p))))))) < length (mp_queue p)"
proof -
  let ?e = "last (mp_queue p)"
  have "?e \<in> set (mp_queue p)" using assms(2) by simp
  with pool_invD(4) [OF assms(1) this] queue.length_del [OF this] show ?thesis
    by (simp add: RemoveTransaction_fields)
qed

lemma EvictTransactions_returns:
  assumes "pool_inv p" and "links_inv p"
  shows "\<exists>p'. EvictTransactions p space = Some p' \<and> pool_inv p' \<and> links_inv p'
    \<and> (\<forall>t e. pool_find p' t = Some e \<longrightarrow> pool_find p t = Some e)
    \<and> (mp_total_size p' + space \<le> mp_max_size p' \<or> mp_queue p' = [])"
  using assms
proof (induction "length (mp_queue p)" arbitrary: p rule: less_induct)
  case less
  show ?case
  proof (cases "mp_total_size p + space > mp_max_size p \<and> mp_queue p \<noteq> []")
    case True
    let ?p = "snd (RemoveTransaction p (GetTxID (me_tx (last (mp_queue p)))))"
    from less.hyps [OF removeAll_queue [OF less.prems(1)], of] True
      RemoveTransaction_inv [OF less.prems(1)] RemoveTransaction_links [OF less.prems(2)]
    obtain p' where "EvictTransactions ?p space = Some p'" "pool_inv p'" "links_inv p'"
      "\<forall>t e. pool_find p' t = Some e \<longrightarrow> pool_find ?p t = Some e"
      "mp_total_size p' + space \<le> mp_max_size p' \<or> mp_queue p' = []"
      by blast
    moreover have "EvictTransactions p space = EvictTransactions ?p space"
      using True by (subst EvictTransactions.simps) simp
    moreover have "\<forall>t e. pool_find p' t = Some e \<longrightarrow> pool_find p t = Some e"
    proof (intro allI impI)
      fix t e assume "pool_find p' t = Some e"
      then have "pool_find ?p t = Some e" using calculation(4) by blast
      then show "pool_find p t = Some e" by (simp add: pool_find_remove split: if_splits)
    qed
    ultimately show ?thesis by auto
  next
    case False
    then show ?thesis using less.prems by (subst EvictTransactions.simps) auto
  qed
qed

subsection \<open>Acceptance and replacement\<close>

lemma spent_None_iff:
  "pool_inv p \<Longrightarrow> mp_spent p out = None \<longleftrightarrow> (\<forall>t e. pool_find p t = Some e \<longrightarrow> out \<notin> prevouts (me_tx e))"
  using pool_invD(6) [of p out] by (metis not_Some_eq)

lemma GetConflicting_set:
  "set (GetConflictingTransactions p tx) = {t. \<exists>out \<in> prevouts tx. mp_spent p out = Some t}"
proof -
  have "set (case m of None \<Rightarrow> [] | Some t \<Rightarrow> [t]) = {t. m = Some t}" for m :: "bytes option"
    by (cases m) auto
  then show ?thesis by (auto simp: GetConflictingTransactions_def prevouts_def)
qed

lemma remove_all:
  assumes "pool_inv p" and "links_inv p"
  shows "pool_inv (foldl (\<lambda>p t. snd (RemoveTransaction p t)) p ts)
    \<and> links_inv (foldl (\<lambda>p t. snd (RemoveTransaction p t)) p ts)
    \<and> pool_find (foldl (\<lambda>p t. snd (RemoveTransaction p t)) p ts) u = (if u \<in> set ts then None else pool_find p u)"
  using assms
proof (induction ts arbitrary: p)
  case (Cons t ts)
  from Cons.IH [OF RemoveTransaction_inv RemoveTransaction_links, OF Cons.prems] show ?case
    by (simp add: pool_find_remove)
qed simp

lemma after_removing_conflicts:
  assumes "pool_inv p" and "links_inv p" and "inputs tx \<noteq> []"
  defines "q \<equiv> foldl (\<lambda>p t. snd (RemoveTransaction p t)) p (GetConflictingTransactions p tx)"
  shows "pool_inv q" "links_inv q" "pool_find q (GetTxID tx) = None \<or> (\<exists>e. pool_find p (GetTxID tx) = Some e \<and> me_tx e \<noteq> tx)"
    "out \<in> prevouts tx \<Longrightarrow> mp_spent q out = None"
proof -
  note r = remove_all [OF assms(1,2), of "GetConflictingTransactions p tx", folded q_def]
  show q: "pool_inv q" "links_inv q" using r by blast+
  show "pool_find q (GetTxID tx) = None \<or> (\<exists>e. pool_find p (GetTxID tx) = Some e \<and> me_tx e \<noteq> tx)"
  proof (cases "pool_find p (GetTxID tx)")
    case (Some e)
    obtain i where i: "i \<in> set (inputs tx)" using assms(3) by (cases "inputs tx") auto
    have "GetTxID tx \<in> set (GetConflictingTransactions p tx)" if "me_tx e = tx"
      using pool_invD(6) [OF assms(1)] Some that i by (force simp: GetConflicting_set prevouts_def)
    then show ?thesis using r Some by auto
  qed (use r in simp)
  show "mp_spent q out = None" if "out \<in> prevouts tx"
    unfolding spent_None_iff [OF q(1)]
  proof (intro allI impI)
    fix t e assume "pool_find q t = Some e"
    then have t: "t \<notin> set (GetConflictingTransactions p tx)" "pool_find p t = Some e"
      using r by (auto split: if_splits)
    then show "out \<notin> prevouts (me_tx e)"
      using that pool_invD(6) [OF assms(1), of out t] by (auto simp: GetConflicting_set)
  qed
qed

lemma entry_make_tx [simp]: "me_tx (MempoolEntry_make t f tm h rbf) = t"
  by (simp add: MempoolEntry_make_def Let_def)

lemma ReplaceTransaction_returns:
  assumes "pool_inv p" and "links_inv p" and "no_self_spend tx" and new: "pool_find p (GetTxID tx) = None"
  shows "\<exists>r p'. ReplaceTransaction now p tx utxos h = Some (r, p') \<and> pool_inv p' \<and> links_inv p'"
proof -
  let ?cs = "GetConflictingTransactions p tx"
  let ?q = "foldl (\<lambda>p t. snd (RemoveTransaction p t)) p ?cs"
  have ins: "\<exists>p'. insert_entry ?q (GetTxID tx) (MempoolEntry_make tx f now h rbf) = Some p' \<and> pool_inv p' \<and> links_inv p'"
    if "?cs \<noteq> []" for f rbf
  proof -
    have "inputs tx \<noteq> []" using that by (auto simp: GetConflictingTransactions_def)
    from after_removing_conflicts [OF assms(1,2) this] show ?thesis
      using assms(3) new by (intro insert_entry_inv) auto
  qed
  show ?thesis
    unfolding ReplaceTransaction_def Let_def
    using ins assms(1,2) by (auto split: sum.splits option.splits)
qed

lemma AddTransaction_returns:
  assumes "pool_inv p" and "links_inv p" and "no_self_spend tx"
  shows "\<exists>r p'. AddTransaction now p tx utxos h = Some (r, p') \<and> pool_inv p' \<and> links_inv p'"
proof (cases "pool_find p (GetTxID tx)")
  case None
  let ?t = "GetTxID tx"
  show ?thesis
  proof (cases "HasConflict p tx")
    case True
    then show ?thesis
      using ReplaceTransaction_returns [OF assms None] assms None
      unfolding AddTransaction_def Let_def by (auto split: sum.splits option.splits)
  next
    case False
    then have free: "mp_spent p out = None" if "out \<in> prevouts tx" for out
      using that by (auto simp: HasConflict_def list_ex_iff prevouts_def)
    have ins: "\<exists>p'. insert_entry p ?t (MempoolEntry_make tx f now h rbf) = Some p' \<and> pool_inv p' \<and> links_inv p'" for f rbf
      using assms None free by (intro insert_entry_inv) auto
    have evict: "\<exists>q. EvictTransactions p sp = Some q \<and> pool_inv q \<and> links_inv q
      \<and> (\<exists>p'. insert_entry q ?t (MempoolEntry_make tx f now h rbf) = Some p' \<and> pool_inv p' \<and> links_inv p')" for sp f rbf
    proof -
      obtain q where q: "EvictTransactions p sp = Some q" "pool_inv q" "links_inv q"
        "\<forall>t e. pool_find q t = Some e \<longrightarrow> pool_find p t = Some e"
        using EvictTransactions_returns [OF assms(1,2)] by blast
      have "pool_find q ?t = None" using q(4) None by (cases "pool_find q ?t") auto
      moreover have "mp_spent q out = None" if "out \<in> prevouts tx" for out
        using free [OF that] q(4) spent_None_iff [OF q(2)] spent_None_iff [OF assms(1)] by metis
      ultimately show ?thesis using q assms(3) by (auto intro!: insert_entry_inv)
    qed
    show ?thesis
    proof (cases "Mempool_ValidateTransaction p tx utxos h")
      case (Inl e)
      then show ?thesis using None assms by (simp add: AddTransaction_def)
    next
      case (Inr r)
      note valid = this
      show ?thesis
      proof (cases r)
        case None
        then show ?thesis using valid \<open>pool_find p ?t = None\<close> assms by (simp add: AddTransaction_def)
      next
        case (Some fs)
        obtain f s where fs: "fs = (f, s)" by force
        let ?e = "MempoolEntry_make tx f now h (CheckRBFSignaling tx)"
        obtain p1 q p2 where "insert_entry p ?t ?e = Some p1" "pool_inv p1" "links_inv p1"
          "EvictTransactions p (me_size ?e) = Some q" "pool_inv q" "links_inv q"
          "insert_entry q ?t ?e = Some p2" "pool_inv p2" "links_inv p2"
          using ins [of f "CheckRBFSignaling tx"] evict [of "me_size ?e" f "CheckRBFSignaling tx"] by blast
        then show ?thesis
          using valid Some fs False \<open>pool_find p ?t = None\<close> by (simp add: AddTransaction_def Let_def)
      qed
    qed
  qed
qed (use assms in \<open>simp add: AddTransaction_def Let_def\<close>)

lemma init_inv: "pool_inv Mempool_init" "links_inv Mempool_init"
  by (simp_all add: pool_inv_def links_inv_def Mempool_init_def)

lemma Clear_inv: "pool_inv (Mempool_Clear p)" "links_inv (Mempool_Clear p)"
  by (simp_all add: pool_inv_def links_inv_def Mempool_Clear_def)

lemma RemoveConflicting_inv:
  assumes "pool_inv p" "links_inv p" and "RemoveConflicting p txs utxos h = Inr q"
  shows "pool_inv q" "links_inv q"
proof -
  have eq: "foldl (\<lambda>p tx. snd (RemoveTransaction p (GetTxID tx))) p txs
      = foldl (\<lambda>p t. snd (RemoveTransaction p t)) p (map GetTxID txs)" for p
    by (induction txs arbitrary: p) simp_all
  let ?q = "foldl (\<lambda>p t. snd (RemoveTransaction p t)) p (map GetTxID txs)"
  have i: "pool_inv ?q" "links_inv ?q" using remove_all [OF assms(1,2)] by blast+
  obtain ts where "q = foldl (\<lambda>p t. snd (RemoveTransaction p t)) ?q ts"
    using assms(3) by (auto simp: RemoveConflicting_def Let_def eq split: sum.splits)
  with remove_all [OF i] show "pool_inv q" "links_inv q" by blast+
qed

subsection \<open>Reachable pools\<close>

text \<open>What the node does to its pool: add, remove, clean up after a block, clear.\<close>

inductive pool_reach :: "Mempool \<Rightarrow> bool" where
  init: "pool_reach Mempool_init"
| add: "pool_reach p \<Longrightarrow> no_self_spend tx \<Longrightarrow> AddTransaction now p tx utxos h = Some (r, p') \<Longrightarrow> pool_reach p'"
| remove: "pool_reach p \<Longrightarrow> RemoveTransaction p t = (r, p') \<Longrightarrow> pool_reach p'"
| cleanup: "pool_reach p \<Longrightarrow> RemoveConflicting p txs utxos h = Inr p' \<Longrightarrow> pool_reach p'"
| clear: "pool_reach p \<Longrightarrow> pool_reach (Mempool_Clear p)"

lemma pool_reach_inv: "pool_reach p \<Longrightarrow> pool_inv p \<and> links_inv p"
proof (induction rule: pool_reach.induct)
  case (add p tx now utxos h r p')
  then show ?case using AddTransaction_returns [of p tx now utxos h] by auto
next
  case (remove p t r p')
  then show ?case using RemoveTransaction_inv [of p t] RemoveTransaction_links [of p t] by simp
next
  case (cleanup p txs utxos h p')
  then show ?case using RemoveConflicting_inv by blast
qed (simp_all add: init_inv Clear_inv)

lemma pool_disjoint:
  assumes "pool_inv p" and "pool_find p t = Some e" and "pool_find p u = Some e'"
    and "out \<in> prevouts (me_tx e)" and "out \<in> prevouts (me_tx e')"
  shows "t = u"
  using pool_invD(6) [OF assms(1), of out] assms(2-5) by (metis option.inject)

subsection \<open>Descendants\<close>

definition edges :: "(bytes \<rightharpoonup> bytes list) \<Rightarrow> (bytes \<times> bytes) set" where
  "edges m = {(t, c). \<exists>cs. m t = Some cs \<and> c \<in> set cs}"

definition below :: "(bytes \<rightharpoonup> bytes list) \<Rightarrow> bytes set \<Rightarrow> bytes set" where
  "below m ts = {c. \<exists>t \<in> ts. (t, c) \<in> (edges m)\<^sup>+}"

lemma below_simps: "below m {} = {}" "below m (A \<union> B) = below m A \<union> below m B"
  by (auto simp: below_def)

lemma below_step: "below m {t} = (case m t of None \<Rightarrow> {} | Some cs \<Rightarrow> set cs \<union> below m (set cs))"
proof (cases "m t")
  case None
  then show ?thesis by (auto simp: below_def edges_def dest: tranclD)
next
  case (Some cs)
  have "(t, c) \<in> (edges m)\<^sup>+ \<longleftrightarrow> c \<in> set cs \<or> (\<exists>d \<in> set cs. (d, c) \<in> (edges m)\<^sup>+)" for c
  proof
    assume "(t, c) \<in> (edges m)\<^sup>+"
    then obtain d where d: "(t, d) \<in> edges m" "(d, c) \<in> (edges m)\<^sup>*" by (blast dest: tranclD)
    then have "d \<in> set cs" using Some by (simp add: edges_def)
    with d(2) show "c \<in> set cs \<or> (\<exists>d \<in> set cs. (d, c) \<in> (edges m)\<^sup>+)"
      by (auto simp: rtrancl_eq_or_trancl)
  next
    assume "c \<in> set cs \<or> (\<exists>d \<in> set cs. (d, c) \<in> (edges m)\<^sup>+)"
    moreover have "(t, d) \<in> edges m" if "d \<in> set cs" for d using Some that by (auto simp: edges_def)
    ultimately show "(t, c) \<in> (edges m)\<^sup>+" by (metis r_into_trancl' trancl_into_trancl2)
  qed
  then show ?thesis using Some by (auto simp: below_def)
qed

definition descends :: "(bytes \<rightharpoonup> bytes list) \<Rightarrow> bytes list \<Rightarrow> bool" where
  "descends m todo \<longleftrightarrow> (\<forall>acc. \<exists>ds. descend m acc todo = Some ds \<and> set ds = set acc \<union> below m (set todo))"

lemma descends_snoc:
  fixes rank :: "bytes \<Rightarrow> nat"
  assumes rank: "\<And>t cs c. m t = Some cs \<Longrightarrow> c \<in> set cs \<Longrightarrow> rank t < rank c \<and> rank c \<le> N"
    and "descends m todo"
  shows "descends m (todo @ [t])"
  using assms(2)
proof (induction "N - rank t" arbitrary: t todo rule: less_induct)
  case less
  have many: "descends m (todo @ cs)" if "\<And>c. c \<in> set cs \<Longrightarrow> N - rank c < N - rank t" for cs
    using that
  proof (induction cs rule: rev_induct)
    case (snoc c cs)
    then show ?case using less.hyps [of c "todo @ cs"] by simp
  qed (use less.prems in simp)
  have split: "below m (set (todo @ [t])) = below m (set todo) \<union> below m {t}"
    using below_simps(2) [of m "set todo" "{t}"] by simp
  have step: "descend m acc (todo @ [t]) = (case m t of None \<Rightarrow> descend m acc todo | Some cs \<Rightarrow> descend m (acc @ cs) (todo @ cs))" for acc
    by (subst descend.simps) simp
  show ?case
  proof (cases "m t")
    case None
    then show ?thesis
      using less.prems unfolding descends_def split step below_step [of m t] by simp
  next
    case (Some cs)
    have IH: "descends m (todo @ cs)"
      by (rule many) (use rank [OF Some] in fastforce)
    have eq: "set acc \<union> (below m (set todo) \<union> (set cs \<union> below m (set cs)))
        = set (acc @ cs) \<union> below m (set (todo @ cs))" for acc
      using below_simps(2) [of m "set todo" "set cs"] by auto
    show ?thesis
      unfolding descends_def split step below_step [of m t] Some option.case eq
      using IH by (simp only: descends_def) blast
  qed
qed

lemma GetDescendants_returns:
  assumes "links_inv p"
  shows "\<exists>ds. GetDescendants p t = Some ds \<and> set ds = below (mp_children p) {t}"
proof -
  obtain rank :: "bytes \<Rightarrow> nat" and N where
    "\<And>t cs c. mp_children p t = Some cs \<Longrightarrow> c \<in> set cs \<Longrightarrow> rank t < rank c \<and> rank c \<le> N"
    using rank_bounded [OF assms] by blast
  moreover have "descends (mp_children p) []"
    by (simp add: descends_def descend.simps [of _ _ "[]"] below_simps)
  ultimately have "descends (mp_children p) ([] @ [t])" by (rule descends_snoc)
  then have "\<exists>ds. descend (mp_children p) [] [t] = Some ds \<and> set ds = set [] \<union> below (mp_children p) (set [t])"
    unfolding descends_def append_Nil by (rule spec)
  then show ?thesis by (simp add: GetDescendants_def)
qed

subsection \<open>Equal priorities\<close>

lemma UpdateRelationships_orphan:
  "pool_find p t = Some e \<Longrightarrow> \<forall>i \<in> set (inputs (me_tx e)). pool_find p (txid (prevout i)) = None \<Longrightarrow>
     UpdateRelationships p t = p"
proof -
  assume "pool_find p t = Some e" and orphan: "\<forall>i \<in> set (inputs (me_tx e)). pool_find p (txid (prevout i)) = None"
  moreover have "\<forall>i \<in> set is. pool_find p (txid (prevout i)) = None \<Longrightarrow> foldl (link_input t) p is = p" for "is"
    by (induction "is") (simp_all add: link_input_def)
  ultimately show ?thesis by (simp add: UpdateRelationships_def)
qed

lemma insert_orphan:
  assumes "links_inv p" and "pool_find p t = None" and "GetTxID (me_tx e) = t"
    and "mp_parents p t = None" and "\<forall>i \<in> set (inputs (me_tx e)). pool_find p (txid (prevout i)) = None"
    and "no_self_spend (me_tx e)" and "me_ancestor_fee e = me_fee e" and "me_ancestor_size e = me_size e"
    and "me_ancestor_count e = 0"
  shows "insert_entry p t e = Some (update_entry (with_entry p t e) t e)"
    and "mp_queue (update_entry (with_entry p t e) t e)
      = set_put entry_less e (set_del entry_less e (set_put entry_less e (mp_queue p)))"
    and "pool_find (update_entry (with_entry p t e) t e) = (pool_find p)(t \<mapsto> e)"
proof -
  have u: "UpdateRelationships (with_entry p t e) t = with_entry p t e"
    by (rule UpdateRelationships_orphan [of _ _ e])
      (use assms(3,5,6) in \<open>auto simp: with_entry_def no_self_spend_def\<close>)
  have find: "pool_find (with_entry p t e) t = Some e" "mp_children (with_entry p t e) = mp_children p"
    by (simp_all add: with_entry_def)
  have "mp_children p t = None"
    using assms(1,2) unfolding links_inv_def by (cases "mp_children p t") blast+
  then show "insert_entry p t e = Some (update_entry (with_entry p t e) t e)"
    using u unfolding insert_entry_eq UpdateAncestorState_def update_ancestors_Cons
    by (simp add: find)
  have "ancestor_sums (with_entry p t e) t e = (me_fee e, me_size e, 0)"
    using assms(4) by (simp add: ancestor_sums_def with_entry_def)
  moreover have "e\<lparr>me_ancestor_fee := me_fee e, me_ancestor_size := me_size e, me_ancestor_count := 0\<rparr> = e"
    using assms(7-9) by (cases e) simp
  ultimately show "mp_queue (update_entry (with_entry p t e) t e)
      = set_put entry_less e (set_del entry_less e (set_put entry_less e (mp_queue p)))"
    "pool_find (update_entry (with_entry p t e) t e) = (pool_find p)(t \<mapsto> e)"
    by (simp_all add: update_entry_def Let_def with_entry_def fun_eq_iff)
qed

lemma entry_make_ancestors [simp]:
  "me_ancestor_fee (MempoolEntry_make t f tm h rbf) = me_fee (MempoolEntry_make t f tm h rbf)"
  "me_ancestor_size (MempoolEntry_make t f tm h rbf) = me_size (MempoolEntry_make t f tm h rbf)"
  "me_ancestor_count (MempoolEntry_make t f tm h rbf) = 0" "me_time (MempoolEntry_make t f tm h rbf) = tm"
  "me_size (MempoolEntry_make t f tm h rbf) = of_nat (GetSerializedSize t)"
  by (simp_all add: MempoolEntry_make_def Let_def)

lemma AddTransaction_plain:
  assumes "AddTransaction now p tx utxos h = Some (Inr True, p')" and "\<not> HasConflict p tx"
    and "mp_total_size p + of_nat (GetSerializedSize tx) \<le> mp_max_size p"
  obtains fee where "Mempool_ValidateTransaction p tx utxos h = Inr (Some (fee, of_nat (GetSerializedSize tx)))"
    and "pool_find p (GetTxID tx) = None"
    and "insert_entry p (GetTxID tx) (MempoolEntry_make tx fee now h (CheckRBFSignaling tx)) = Some p'"
proof -
  have size: "s = of_nat (GetSerializedSize tx)" if "Mempool_ValidateTransaction p tx utxos h = Inr (Some (f, s))" for f s
    using that by (auto simp: Mempool_ValidateTransaction_def Let_def split: option.splits prod.splits sum.splits if_splits)
  show ?thesis
    using assms that size
    by (auto simp: AddTransaction_def Let_def not_le [symmetric] split: if_splits sum.splits option.splits prod.splits)
qed

lemma ReplaceTransaction_True:
  assumes rep: "ReplaceTransaction now p tx utxos h = Some (Inr True, p')"
  obtains fee sz where "Mempool_ValidateTransaction p tx utxos h = Inr (Some (fee, sz))"
    and "fee > CalculateReplacedFees p (GetConflictingTransactions p tx)"
    and "fee \<ge> CalculateReplacedFees p (GetConflictingTransactions p tx) + 1000"
    and "\<forall>t \<in> set (GetConflictingTransactions p tx). \<exists>e. pool_find p t = Some e \<and> me_signals_rbf e"
    and "GetConflictingTransactions p tx \<noteq> []"
    and "insert_entry (foldl (\<lambda>p t. snd (RemoveTransaction p t)) p (GetConflictingTransactions p tx)) (GetTxID tx)
        (MempoolEntry_make tx fee now h (CheckRBFSignaling tx)) = Some p'"
proof -
  let ?cs = "GetConflictingTransactions p tx"
  let ?bad = "\<lambda>t. case pool_find p t of None \<Rightarrow> True | Some e \<Rightarrow> \<not> me_signals_rbf e"
  have ne: "?cs \<noteq> []" using rep by (auto simp: ReplaceTransaction_def Let_def)
  have ok: "\<not> list_ex ?bad ?cs" using rep ne by (auto simp: ReplaceTransaction_def Let_def)
  have rbf: "\<exists>e. pool_find p t = Some e \<and> me_signals_rbf e" if "t \<in> set ?cs" for t
    using ok that by (cases "pool_find p t") (auto simp: list_ex_iff)
  note rep' = rep [unfolded ReplaceTransaction_def Let_def if_not_P [OF ne] if_not_P [OF ok]]
  obtain fs where valid: "Mempool_ValidateTransaction p tx utxos h = Inr (Some fs)"
    using rep' by (auto split: sum.splits option.splits)
  obtain fee sz where fs: "fs = (fee, sz)" by force
  show ?thesis
    by (rule that [of fee sz])
      (use rep' valid fs ne rbf in \<open>auto simp: not_le not_less split: if_splits\<close>)
qed

subsection \<open>Properties\<close>

text \<open>
  C13. Two transactions of a reachable pool never spend the same output, each is stored under its id,
  and the conflict check finds exactly the transactions that spend an output some pool transaction spends.
\<close>

theorem pool_spends_each_output_once:
  assumes "pool_reach p" and "GetTransaction p t = Some tx" and "GetTransaction p u = Some tx'" and "t \<noteq> u"
  shows "prevouts tx \<inter> prevouts tx' = {} \<and> GetTxID tx = t
    \<and> (HasConflict p new \<longleftrightarrow> (\<exists>v y. GetTransaction p v = Some y \<and> prevouts new \<inter> prevouts y \<noteq> {}))"
proof -
  have inv: "pool_inv p" using pool_reach_inv [OF assms(1)] by blast
  have "HasConflict p new \<longleftrightarrow> (\<exists>out \<in> prevouts new. mp_spent p out \<noteq> None)"
    by (auto simp: HasConflict_def list_ex_iff prevouts_def)
  also have "\<dots> \<longleftrightarrow> (\<exists>v y. GetTransaction p v = Some y \<and> prevouts new \<inter> prevouts y \<noteq> {})"
  proof -
    have "mp_spent p out \<noteq> None \<longleftrightarrow> (\<exists>v y. GetTransaction p v = Some y \<and> out \<in> prevouts y)" for out
      unfolding spent_None_iff [OF inv] by (auto simp: GetTransaction_def)
    then show ?thesis by blast
  qed
  finally show ?thesis
    using pool_disjoint [OF inv] pool_invD(2) [OF inv] assms(2-4) by (fastforce simp: GetTransaction_def)
qed

text \<open>
  The pool's loops and recursions end: on a reachable pool \<open>AddTransaction\<close> (with its eviction loop
  and the update of ancestors) returns, and \<open>GetDescendants\<close> returns exactly the transactions that the
  links lead to.
\<close>

theorem mempool_operations_return:
  assumes "pool_reach p" and "no_self_spend tx"
  shows "(\<exists>r p'. AddTransaction now p tx utxos h = Some (r, p') \<and> pool_reach p')
    \<and> (\<exists>ds. GetDescendants p t = Some ds \<and> set ds = {c. (t, c) \<in> (edges (mp_children p))\<^sup>+})"
  using AddTransaction_returns [of p tx now utxos h] GetDescendants_returns [of p t]
    pool_reach_inv [OF assms(1)] pool_reach.add [OF assms] assms(2) by (fastforce simp: below_def)

text \<open>
  A transaction can silently lose its place: adding one without parents in the pool, with the same fee
  rate in the same second, takes the older one out of the priority queue. It stays in the pool
  (its outputs stay reserved) but is never selected for a block and never evicted.
\<close>

theorem equal_priority_lost:
  assumes "pool_reach p" and "AddTransaction now p tx utxos h = Some (Inr True, p')" and "\<not> HasConflict p tx"
    and "mp_total_size p + of_nat (GetSerializedSize tx) \<le> mp_max_size p"
    and "Mempool_ValidateTransaction p tx utxos h = Inr (Some (fee, sz))"
    and "mp_parents p (GetTxID tx) = None" and "\<forall>i \<in> set (inputs tx). \<not> HasTransaction p (txid (prevout i))"
    and "no_self_spend tx" and "e \<in> set (mp_queue p)" and "me_time e = now"
    and "GetEffectiveFeeRate e = GetEffectiveFeeRate (MempoolEntry_make tx fee now h (CheckRBFSignaling tx))"
  shows "GetTransaction p' (GetTxID (me_tx e)) = Some (me_tx e) \<and> me_tx e \<notin> set (GetTransactionsByFeeRate p' n)"
proof -
  have inv: "pool_inv p" "links_inv p" using pool_reach_inv [OF assms(1)] by blast+
  let ?t = "GetTxID tx" and ?en = "MempoolEntry_make tx fee now h (CheckRBFSignaling tx)"
  have new: "pool_find p ?t = None" and ins: "insert_entry p ?t ?en = Some p'"
    using AddTransaction_plain [OF assms(2-4)] assms(5) by auto
  have e: "pool_find p (GetTxID (me_tx e)) = Some e" by (rule pool_invD(4) [OF inv(1) assms(9)])
  have parents: "\<forall>i \<in> set (inputs (me_tx ?en)). pool_find p (txid (prevout i)) = None"
    using assms(7) by (simp add: HasTransaction_def)
  note orphan = insert_orphan [OF inv(2) new _ assms(6) parents, simplified, OF assms(8)]
  have p': "p' = update_entry (with_entry p ?t ?en) ?t ?en" using ins orphan(1) by simp
  have free: "mp_spent p out = None" if "out \<in> prevouts tx" for out
    using assms(3) that by (auto simp: HasConflict_def list_ex_iff prevouts_def)
  have p'': "pool_inv p'" "GetTransaction p' = (GetTransaction p)(?t \<mapsto> tx)"
    using insert_entry_returns [OF inv new, of ?en] ins assms(8) free by auto
  have "\<not> entry_less ?en e \<and> \<not> entry_less e ?en"
    using assms(10,11) by (simp add: entry_less_def)
  then have "e \<notin> set (mp_queue p')"
    using set_put_subset [of entry_less ?en "set_del entry_less ?en (set_put entry_less ?en (mp_queue p))"] new e
    unfolding p' orphan(2) by auto
  moreover have "x = e" if "x \<in> set (mp_queue p')" "me_tx x = me_tx e" for x
  proof -
    have "pool_find p' (GetTxID (me_tx e)) = Some x" using pool_invD(4) [OF p''(1) that(1)] that(2) by simp
    moreover have "pool_find p' (GetTxID (me_tx e)) = Some e"
      using e new by (auto simp: p' update_entry_def Let_def with_entry_def split: prod.splits)
    ultimately show ?thesis by simp
  qed
  ultimately have "me_tx e \<notin> set (GetTransactionsByFeeRate p' n)"
    by (auto simp: GetTransactionsByFeeRate_def dest: in_set_takeD)
  moreover have "GetTransaction p' (GetTxID (me_tx e)) = Some (me_tx e)"
    using e new by (auto simp: p''(2) GetTransaction_def)
  ultimately show ?thesis by blast
qed

text \<open>
  Replacement by fee: when a transaction that conflicts with the pool is accepted, it signals
  replaceability, every transaction it conflicts with signalled it too and is gone, and it pays at
  least 1000 more than all of them together (as \<open>uint64_t\<close> sums).
\<close>

theorem replacement_rules:
  assumes "pool_reach p" and "no_self_spend tx" and "HasConflict p tx"
    and "AddTransaction now p tx utxos h = Some (Inr True, p')"
  shows "CheckRBFSignaling tx \<and> GetTransaction p' (GetTxID tx) = Some tx
    \<and> (\<forall>t \<in> set (GetConflictingTransactions p tx).
         (\<exists>e. pool_find p t = Some e \<and> me_signals_rbf e) \<and> GetTransaction p' t = None)
    \<and> (\<exists>fee sz. Mempool_ValidateTransaction p tx utxos h = Inr (Some (fee, sz))
         \<and> fee > CalculateReplacedFees p (GetConflictingTransactions p tx)
         \<and> fee \<ge> CalculateReplacedFees p (GetConflictingTransactions p tx) + 1000)"
proof -
  have inv: "pool_inv p" "links_inv p" using pool_reach_inv [OF assms(1)] by blast+
  let ?cs = "GetConflictingTransactions p tx"
  let ?q = "foldl (\<lambda>p t. snd (RemoveTransaction p t)) p ?cs"
  have new: "pool_find p (GetTxID tx) = None" and sig: "CheckRBFSignaling tx"
    and rep: "ReplaceTransaction now p tx utxos h = Some (Inr True, p')"
    using assms(3,4) by (auto simp: AddTransaction_def Let_def split: if_splits sum.splits option.splits prod.splits)
  obtain fee sz where v: "Mempool_ValidateTransaction p tx utxos h = Inr (Some (fee, sz))"
    and fees: "fee > CalculateReplacedFees p ?cs" "fee \<ge> CalculateReplacedFees p ?cs + 1000"
    and rbf: "\<forall>t \<in> set ?cs. \<exists>e. pool_find p t = Some e \<and> me_signals_rbf e" and ne: "?cs \<noteq> []"
    and ins: "insert_entry ?q (GetTxID tx) (MempoolEntry_make tx fee now h (CheckRBFSignaling tx)) = Some p'"
    by (rule ReplaceTransaction_True [OF rep])
  have ins_ne: "inputs tx \<noteq> []" using ne by (auto simp: GetConflictingTransactions_def)
  note after = after_removing_conflicts [OF inv ins_ne]
  have "GetTransaction p' = (GetTransaction ?q)(GetTxID tx \<mapsto> tx)"
    using insert_entry_returns [OF after(1,2), of "GetTxID tx"
        "MempoolEntry_make tx fee now h (CheckRBFSignaling tx)"] ins after(3,4) new assms(2) by auto
  moreover have "GetTransaction ?q t = None" if "t \<in> set ?cs" for t
    using remove_all [OF inv, of ?cs t] that by (simp add: GetTransaction_def)
  moreover have "t \<noteq> GetTxID tx" if "t \<in> set ?cs" for t using rbf new that by auto
  ultimately show ?thesis using sig rbf v fees by simp
qed

end
