(* ===== verification/MempoolSamples.thy ===== *)
theory MempoolSamples
  imports Mempool Samples
begin

section \<open>Concrete pools\<close>

text \<open>
  Pools with one and two of the sample transactions, and the replacement of one of them: the
  hypotheses of the mempool's properties can hold together.
\<close>

definition sample_coin :: "u64 \<Rightarrow> Coin" where
  "sample_coin v = \<lparr>coin_output = \<lparr>out_value = \<lparr>asset_id = TALANTON, asset_amount = v\<rparr>, pubkey_script = [7]\<rparr>,
     coin_height = 0, coin_is_coinbase = False\<rparr>"

definition sample_utxos :: UTXOSet where
  "sample_utxos = Map.empty(OutPoint zero_hash 0 \<mapsto> sample_coin 6, OutPoint zero_hash 1 \<mapsto> sample_coin 6,
     OutPoint zero_hash 2 \<mapsto> sample_coin 2000)"

lemma sample_sizes: "GetSerializedSize sample_tx = 62" "GetSerializedSize sample_tx2 = 62"
  "GetSerializedSize sample_tx3 = 103"
  by (simp_all add: GetSerializedSize_def serialize_eval sample_tx_def sample_tx2_def sample_tx3_def)

lemma sample_structure:
  "ValidateStructure sample_tx = None" "ValidateStructure sample_tx2 = None" "ValidateStructure sample_tx3 = None"
  "\<not> IsCoinbase sample_tx" "\<not> IsCoinbase sample_tx2" "\<not> IsCoinbase sample_tx3"
  by (simp_all add: ValidateStructure_def IsCoinbase_def sample_tx_shape AssetAmount_IsValid_def IsValidAmount_def)

lemma sample_against_utxos:
  "ValidateAgainstUTXO_result sample_tx sample_utxos h = (None,
     \<lparr>res_input_amounts = [(TALANTON, 6)], res_output_amounts = [(TALANTON, 5)], res_input_coins = [sample_coin 6]\<rparr>)"
  "ValidateAgainstUTXO_result sample_tx2 sample_utxos h = (None,
     \<lparr>res_input_amounts = [(TALANTON, 6)], res_output_amounts = [(TALANTON, 5)], res_input_coins = [sample_coin 6]\<rparr>)"
  "ValidateAgainstUTXO_result sample_tx3 sample_utxos h = (None,
     \<lparr>res_input_amounts = [(TALANTON, 2006)], res_output_amounts = [(TALANTON, 5)],
      res_input_coins = [sample_coin 6, sample_coin 2000]\<rparr>)"
  by (simp_all add: ValidateAgainstUTXO_result_def sample_structure sample_tx_shape sample_utxos_def sample_coin_def
      GetCoin_def IsSpendable_def empty_result_def sum_amounts_def)

lemma sample_fees:
  assumes "mp_min_relay_fee p = 1"
  shows "Mempool_ValidateTransaction p sample_tx sample_utxos h = Inr (Some (1, 62))"
    "Mempool_ValidateTransaction p sample_tx2 sample_utxos h = Inr (Some (1, 62))"
    "Mempool_ValidateTransaction p sample_tx3 sample_utxos h = Inr (Some (2001, 103))"
  using assms
  by (simp_all add: Mempool_ValidateTransaction_def sample_sizes sample_structure(1-3) sample_against_utxos
      fee_rate_per_kb_def)


lemma add_orphan:
  fixes now h :: u32
  assumes "pool_reach p" and "pool_find p t = None" and t: "t = GetTxID tx"
    and "mp_parents p = Map.empty" and "\<forall>i \<in> set (inputs tx). pool_find p (txid (prevout i)) = None"
    and "no_self_spend tx" and "Mempool_ValidateTransaction p tx utxos h = Inr (Some (fee, sz))"
    and "\<not> HasConflict p tx" and "mp_total_size p + of_nat (GetSerializedSize tx) \<le> mp_max_size p"
  defines "en \<equiv> MempoolEntry_make tx fee now h (CheckRBFSignaling tx)"
  shows "AddTransaction now p tx utxos h = Some (Inr True, update_entry (with_entry p t en) t en)"
    and "pool_reach (update_entry (with_entry p t en) t en)"
    and "mp_parents (update_entry (with_entry p t en) t en) = Map.empty"
    and "GetTransaction (update_entry (with_entry p t en) t en) = (GetTransaction p)(t \<mapsto> tx)"
    and "mp_queue (update_entry (with_entry p t en) t en)
      = set_put entry_less en (set_del entry_less en (set_put entry_less en (mp_queue p)))"
    and "mp_spent (update_entry (with_entry p t en) t en)
      = (\<lambda>out. if out \<in> prevouts tx then Some t else mp_spent p out)"
    and "mp_total_size (update_entry (with_entry p t en) t en) = mp_total_size p + of_nat (GetSerializedSize tx)"
    and "mp_max_size (update_entry (with_entry p t en) t en) = mp_max_size p"
    and "mp_min_relay_fee (update_entry (with_entry p t en) t en) = mp_min_relay_fee p"
    and "pool_find (update_entry (with_entry p t en) t en) = (pool_find p)(t \<mapsto> en)"
proof -
  let ?q = "update_entry (with_entry p t en) t en"
  have links: "links_inv p" using pool_reach_inv [OF assms(1)] by blast
  have parents: "\<forall>i \<in> set (inputs (me_tx en)). pool_find p (txid (prevout i)) = None"
    using assms(5) by (simp add: en_def)
  have "insert_entry p t en = Some ?q"
    and q: "mp_queue ?q = set_put entry_less en (set_del entry_less en (set_put entry_less en (mp_queue p)))"
    and f: "pool_find ?q = (pool_find p)(t \<mapsto> en)"
    by (rule insert_orphan [OF links assms(2) _ _ parents];
        (use assms(4,6) t in \<open>simp add: en_def\<close>))+
  then show add: "AddTransaction now p tx utxos h = Some (Inr True, ?q)"
    using assms(2,7,8) t leD [OF assms(9)] by (simp add: AddTransaction_def Let_def en_def)
  then show "pool_reach ?q" by (rule pool_reach.add [OF assms(1,6)])
  show "mp_queue ?q = set_put entry_less en (set_del entry_less en (set_put entry_less en (mp_queue p)))" by (rule q)
  show "pool_find ?q = (pool_find p)(t \<mapsto> en)" by (rule f)
  have find: "pool_find (with_entry p t en) t = Some en" by (simp add: with_entry_def)
  show "GetTransaction ?q = (GetTransaction p)(t \<mapsto> tx)"
    unfolding update_entry_txs [OF find] by (simp add: GetTransaction_def with_entry_def en_def fun_eq_iff)
  have "mp_parents ?q = mp_parents p" "mp_min_relay_fee ?q = mp_min_relay_fee p"
    by (simp_all add: update_entry_def with_entry_def Let_def split: prod.splits)
  then show "mp_parents ?q = Map.empty" "mp_min_relay_fee ?q = mp_min_relay_fee p" using assms(4) by simp_all
qed (simp_all add: update_entry_fields with_entry_def en_def)

text \<open>The empty pool, then \<open>sample_tx\<close>, then \<open>sample_tx2\<close>, both added at time 7.\<close>

lemma sample_self: "no_self_spend sample_tx" "no_self_spend sample_tx2" "no_self_spend sample_tx3"
  using sample_ids_differ by (auto simp: no_self_spend_def sample_tx_shape)

lemma sample_prevouts:
  "prevouts sample_tx = {OutPoint zero_hash 0}" "prevouts sample_tx2 = {OutPoint zero_hash 1}"
  "prevouts sample_tx3 = {OutPoint zero_hash 1, OutPoint zero_hash 2}"
  by (simp_all add: prevouts_def sample_tx_shape)

lemma sample_rbf: "\<not> CheckRBFSignaling sample_tx" "CheckRBFSignaling sample_tx2" "CheckRBFSignaling sample_tx3"
  by (simp_all add: CheckRBFSignaling_def sample_tx_shape)

abbreviation (input) sample_entry :: MempoolEntry where
  "sample_entry \<equiv> MempoolEntry_make sample_tx 1 7 0 False"

definition sample_pool :: Mempool where
  "sample_pool = update_entry (with_entry Mempool_init (GetTxID sample_tx) sample_entry) (GetTxID sample_tx) sample_entry"

lemma conflict_iff: "HasConflict p tx \<longleftrightarrow> (\<exists>out \<in> prevouts tx. mp_spent p out \<noteq> None)"
  by (auto simp: HasConflict_def list_ex_iff prevouts_def)

lemma sample_pool:
  "AddTransaction 7 Mempool_init sample_tx sample_utxos 0 = Some (Inr True, sample_pool)"
  "pool_reach sample_pool" "mp_parents sample_pool = Map.empty"
  "GetTransaction sample_pool = [GetTxID sample_tx \<mapsto> sample_tx]" "mp_queue sample_pool = [sample_entry]"
  "mp_spent sample_pool = [OutPoint zero_hash 0 \<mapsto> GetTxID sample_tx]" "mp_total_size sample_pool = 62"
  "mp_max_size sample_pool = 314572800" "mp_min_relay_fee sample_pool = 1"
  "pool_find sample_pool = [GetTxID sample_tx \<mapsto> sample_entry]"
proof -
  have pre: "pool_find Mempool_init t = None" "mp_parents Mempool_init = Map.empty"
    "\<not> HasConflict Mempool_init sample_tx"
    "mp_total_size Mempool_init + of_nat (GetSerializedSize sample_tx) \<le> mp_max_size Mempool_init" for t
    by (simp_all add: Mempool_init_def conflict_iff sample_sizes)
  have valid: "Mempool_ValidateTransaction Mempool_init sample_tx sample_utxos 0 = Inr (Some (1, 62))"
    by (rule sample_fees) (simp add: Mempool_init_def)
  note add = add_orphan [OF pool_reach.init pre(1) refl pre(2) _ sample_self(1) valid pre(3,4), of 7,
      simplified sample_rbf simp_thms, folded sample_pool_def]
  have orphan: "\<forall>i \<in> set (inputs sample_tx). pool_find Mempool_init (txid (prevout i)) = None"
    using pre(1) by simp
  note add = add [OF orphan]
  show "AddTransaction 7 Mempool_init sample_tx sample_utxos 0 = Some (Inr True, sample_pool)"
    "pool_reach sample_pool" "mp_parents sample_pool = Map.empty"
    by (rule add)+
  show "GetTransaction sample_pool = [GetTxID sample_tx \<mapsto> sample_tx]"
    unfolding add by (simp add: GetTransaction_def Mempool_init_def fun_eq_iff)
  show "pool_find sample_pool = [GetTxID sample_tx \<mapsto> sample_entry]"
    unfolding add by (simp add: Mempool_init_def fun_eq_iff)
  show "mp_queue sample_pool = [sample_entry]"
    unfolding add by (simp add: Mempool_init_def set_del_def queue.irrefl)
  show "mp_spent sample_pool = [OutPoint zero_hash 0 \<mapsto> GetTxID sample_tx]"
    unfolding add by (auto simp: Mempool_init_def sample_prevouts fun_eq_iff)
  show "mp_total_size sample_pool = 62" "mp_max_size sample_pool = 314572800" "mp_min_relay_fee sample_pool = 1"
    unfolding add by (simp_all add: Mempool_init_def sample_sizes)
qed


abbreviation (input) sample_entry2 :: MempoolEntry where
  "sample_entry2 \<equiv> MempoolEntry_make sample_tx2 1 7 0 True"

definition sample_pool2 :: Mempool where
  "sample_pool2 = update_entry (with_entry sample_pool (GetTxID sample_tx2) sample_entry2) (GetTxID sample_tx2) sample_entry2"

lemma sample_pool_pre:
  "pool_find sample_pool (GetTxID sample_tx2) = None" "\<not> HasConflict sample_pool sample_tx2"
  "mp_total_size sample_pool + of_nat (GetSerializedSize sample_tx2) \<le> mp_max_size sample_pool"
  "\<forall>i \<in> set (inputs sample_tx2). pool_find sample_pool (txid (prevout i)) = None"
  "Mempool_ValidateTransaction sample_pool sample_tx2 sample_utxos 0 = Inr (Some (1, 62))"
  using sample_ids_differ(1,4)
  by (simp_all add: sample_pool sample_fees sample_sizes conflict_iff sample_prevouts sample_tx_shape)

lemma sample_pool2:
  "AddTransaction 7 sample_pool sample_tx2 sample_utxos 0 = Some (Inr True, sample_pool2)"
  "pool_reach sample_pool2" "GetTransaction sample_pool2 (GetTxID sample_tx) = Some sample_tx"
  "GetTransaction sample_pool2 (GetTxID sample_tx2) = Some sample_tx2"
  "mp_spent sample_pool2 = [OutPoint zero_hash 0 \<mapsto> GetTxID sample_tx, OutPoint zero_hash 1 \<mapsto> GetTxID sample_tx2]"
  "mp_min_relay_fee sample_pool2 = 1"
  "pool_find sample_pool2 = [GetTxID sample_tx \<mapsto> sample_entry, GetTxID sample_tx2 \<mapsto> sample_entry2]"
proof -
  note add = add_orphan [OF sample_pool(2) sample_pool_pre(1) refl sample_pool(3) sample_pool_pre(4) sample_self(2)
      sample_pool_pre(5,2,3), of 7, simplified sample_rbf simp_thms, folded sample_pool2_def]
  show "AddTransaction 7 sample_pool sample_tx2 sample_utxos 0 = Some (Inr True, sample_pool2)"
    "pool_reach sample_pool2"
    by (rule add)+
  show "GetTransaction sample_pool2 (GetTxID sample_tx) = Some sample_tx"
    "GetTransaction sample_pool2 (GetTxID sample_tx2) = Some sample_tx2"
    using sample_ids_differ(4) unfolding add sample_pool by simp_all
  show "mp_spent sample_pool2 = [OutPoint zero_hash 0 \<mapsto> GetTxID sample_tx, OutPoint zero_hash 1 \<mapsto> GetTxID sample_tx2]"
    unfolding add sample_pool by (auto simp: sample_prevouts fun_eq_iff)
  show "mp_min_relay_fee sample_pool2 = 1" unfolding add sample_pool ..
  show "pool_find sample_pool2 = [GetTxID sample_tx \<mapsto> sample_entry, GetTxID sample_tx2 \<mapsto> sample_entry2]"
    unfolding add sample_pool ..
qed

theorem pool_spends_each_output_once_witness:
  "prevouts sample_tx \<inter> prevouts sample_tx2 = {} \<and> GetTxID sample_tx = GetTxID sample_tx
   \<and> (HasConflict sample_pool2 sample_tx3 \<longleftrightarrow>
        (\<exists>v y. GetTransaction sample_pool2 v = Some y \<and> prevouts sample_tx3 \<inter> prevouts y \<noteq> {}))"
  by (rule pool_spends_each_output_once [OF sample_pool2(2-4) sample_ids_differ(4)])

theorem mempool_operations_return_witness:
  "\<exists>r p'. AddTransaction 7 sample_pool2 sample_tx3 sample_utxos 0 = Some (r, p') \<and> pool_reach p'"
  using mempool_operations_return [OF sample_pool2(2) sample_self(3)] by blast

theorem equal_priority_lost_witness:
  "GetTransaction sample_pool2 (GetTxID sample_tx) = Some sample_tx
   \<and> sample_tx \<notin> set (GetTransactionsByFeeRate sample_pool2 10)"
proof -
  have "sample_entry \<in> set (mp_queue sample_pool)" by (simp add: sample_pool)
  moreover have "GetEffectiveFeeRate sample_entry = GetEffectiveFeeRate (MempoolEntry_make sample_tx2 1 7 0 (CheckRBFSignaling sample_tx2))"
    by (simp add: GetEffectiveFeeRate_def MempoolEntry_make_def sample_sizes Let_def)
  moreover have "mp_parents sample_pool (GetTxID sample_tx2) = None" by (simp add: sample_pool)
  moreover have "\<forall>i \<in> set (inputs sample_tx2). \<not> HasTransaction sample_pool (txid (prevout i))"
    using sample_pool_pre(4) by (simp add: HasTransaction_def)
  ultimately show ?thesis
    using equal_priority_lost [OF sample_pool(2) sample_pool2(1) sample_pool_pre(2,3,5), of sample_entry 10]
      sample_self(2) by simp
qed

lemma sample_conflicts: "GetConflictingTransactions sample_pool2 sample_tx3 = [GetTxID sample_tx2]"
  by (simp add: GetConflictingTransactions_def sample_tx_shape sample_pool2(5))

lemma sample_replacement:
  "\<exists>p'. AddTransaction 8 sample_pool2 sample_tx3 sample_utxos 0 = Some (Inr True, p')"
proof -
  let ?cs = "[GetTxID sample_tx2]"
  let ?q = "foldl (\<lambda>p t. snd (RemoveTransaction p t)) sample_pool2 ?cs"
  let ?en = "MempoolEntry_make sample_tx3 2001 8 0 True"
  have inv: "pool_inv sample_pool2" "links_inv sample_pool2" using pool_reach_inv [OF sample_pool2(2)] by blast+
  have new: "pool_find sample_pool2 (GetTxID sample_tx3) = None"
    using sample_ids_differ(5,6) by (simp add: sample_pool2(7))
  have conflict: "HasConflict sample_pool2 sample_tx3"
    by (simp add: conflict_iff sample_prevouts sample_pool2(5))
  have "inputs sample_tx3 \<noteq> []" by (simp add: sample_tx_shape)
  note after = after_removing_conflicts [OF inv this, unfolded sample_conflicts]
  obtain p' where ins: "insert_entry ?q (GetTxID sample_tx3) ?en = Some p'"
    using insert_entry_inv [OF after(1,2), of "GetTxID sample_tx3" ?en] after(3,4) new sample_self(3) by auto
  have valid: "Mempool_ValidateTransaction sample_pool2 sample_tx3 sample_utxos 0 = Inr (Some (2001, 103))"
    by (rule sample_fees) (rule sample_pool2)
  have entry: "pool_find sample_pool2 (GetTxID sample_tx2) = Some sample_entry2"
    using sample_ids_differ(4) by (simp add: sample_pool2(7))
  have vals: "me_signals_rbf sample_entry2" "me_fee sample_entry2 = 1" "me_fee_rate sample_entry2 = 0"
    by (simp_all add: MempoolEntry_make_def Let_def sample_sizes)
  have fees: "CalculateReplacedFees sample_pool2 ?cs = 1" "min_replaced_fee_rate sample_pool2 ?cs = 0"
    by (simp_all add: CalculateReplacedFees_def min_replaced_fee_rate_def entry vals)
  have "ReplaceTransaction 8 sample_pool2 sample_tx3 sample_utxos 0 = Some (Inr True, p')"
    using ins by (simp add: ReplaceTransaction_def Let_def sample_conflicts entry vals valid fees
        below_multiplier_def round53_def sample_rbf word_le_nat_alt word_less_nat_alt)
  then show ?thesis
    using conflict new valid by (simp add: AddTransaction_def Let_def sample_rbf)
qed

theorem replacement_rules_witness:
  "\<exists>p'. AddTransaction 8 sample_pool2 sample_tx3 sample_utxos 0 = Some (Inr True, p')
     \<and> GetTransaction p' (GetTxID sample_tx3) = Some sample_tx3
     \<and> GetTransaction p' (GetTxID sample_tx2) = None"
proof -
  have conflict: "HasConflict sample_pool2 sample_tx3"
    by (simp add: conflict_iff sample_prevouts sample_pool2(5))
  obtain p' where add: "AddTransaction 8 sample_pool2 sample_tx3 sample_utxos 0 = Some (Inr True, p')"
    using sample_replacement by blast
  have "GetTxID sample_tx2 \<in> set (GetConflictingTransactions sample_pool2 sample_tx3)"
    by (simp add: sample_conflicts)
  with replacement_rules [OF sample_pool2(2) sample_self(3) conflict add] add show ?thesis by blast
qed

end
