(* ===== verification/UtxoStorage.thy ===== *)
theory UtxoStorage
  imports BlockStorage Utxo
begin

section \<open>UTXO storage\<close>

text \<open>
  Models \<open>layer1-talanton/core/storage/utxo_storage.cpp\<close> over the same LevelDB parameter. Integers are
  written in the byte order of the host, which is little-endian. \<open>std::istringstream::read\<close> past the end
  leaves the rest of its buffer as it was, here the zeros of \<open>resize\<close>.
\<close>

definition TryParseUint64 :: "string \<Rightarrow> u64 option" where
  "TryParseUint64 value =
     (if value = [] then None
      else case parse_dec 0 value of
        None \<Rightarrow> None
      | Some n \<Rightarrow> if n < 2 ^ 64 then Some (of_nat n) else None)"

definition to_nibble :: "char \<Rightarrow> nat option" where
  "to_nibble c =
     (let n = of_char c in
      if 48 \<le> n \<and> n \<le> 57 then Some (n - 48)
      else if 97 \<le> n \<and> n \<le> 102 then Some (10 + (n - 97))
      else if 65 \<le> n \<and> n \<le> 70 then Some (10 + (n - 65))
      else None)"

definition TryParseHexByte :: "char \<Rightarrow> char \<Rightarrow> u8 option" where
  "TryParseHexByte high low =
     (case (to_nibble high, to_nibble low) of
        (Some hi, Some lo) \<Rightarrow> Some (of_nat (hi * 16 + lo))
      | _ \<Rightarrow> None)"

definition UTXOKey :: "bytes \<Rightarrow> u32 \<Rightarrow> string" where
  "UTXOKey tid out = CHR ''u'' # concat (map hex_byte tid) @ CHR ''_'' # dec (unat out)"

definition SerializeOutput :: "TxOutput \<Rightarrow> string" where
  "SerializeOutput output =
     (let script_size = of_nat (length (pubkey_script output)) :: u32 in
      string_of_bytes (asset_id (out_value output) # le64 (asset_amount (out_value output))
        @ le32 script_size @ take (unat script_size) (pubkey_script output)))"

definition DeserializeOutput :: "string \<Rightarrow> TxOutput option" where
  "DeserializeOutput data =
     (if length data < 13 then None
      else
        let bs = bytes_of_string data; script_size = read_le32 (drop 9 bs);
            script = take (unat script_size) (drop 13 bs) in
        Some \<lparr>out_value = \<lparr>asset_id = hd bs, asset_amount = read_le64 (drop 1 bs)\<rparr>,
              pubkey_script = script @ replicate (unat script_size - length script) 0\<rparr>)"

definition GetUTXOCount :: "'db LevelDB \<Rightarrow> 'db option \<Rightarrow> u64" where
  "GetUTXOCount ops db =
     (case db of None \<Rightarrow> 0
      | Some d \<Rightarrow> (case db_get ops d ''meta:utxo_count'' of None \<Rightarrow> 0
        | Some value \<Rightarrow> (case TryParseUint64 value of None \<Rightarrow> 0 | Some count \<Rightarrow> count)))"

text \<open>The status of the second write, of the count, is ignored.\<close>

definition put_ignoring :: "'db LevelDB \<Rightarrow> 'db \<Rightarrow> string \<Rightarrow> string \<Rightarrow> 'db" where
  "put_ignoring ops d k v = (case db_write ops d [(k, Some v)] of None \<Rightarrow> d | Some d' \<Rightarrow> d')"

definition AddUTXO :: "'db LevelDB \<Rightarrow> 'db option \<Rightarrow> bytes \<Rightarrow> u32 \<Rightarrow> TxOutput \<Rightarrow> bool \<times> 'db option" where
  "AddUTXO ops db tid out output =
     (case db of None \<Rightarrow> (False, db)
      | Some d \<Rightarrow> (case db_write ops d [(UTXOKey tid out, Some (SerializeOutput output))] of
          None \<Rightarrow> (False, db)
        | Some d' \<Rightarrow>
            let count = GetUTXOCount ops (Some d') in
            (True, Some (put_ignoring ops d' ''meta:utxo_count'' (dec (unat (count + 1)))))))"

definition RemoveUTXO :: "'db LevelDB \<Rightarrow> 'db option \<Rightarrow> bytes \<Rightarrow> u32 \<Rightarrow> bool \<times> 'db option" where
  "RemoveUTXO ops db tid out =
     (case db of None \<Rightarrow> (False, db)
      | Some d \<Rightarrow> (case db_write ops d [(UTXOKey tid out, None)] of
          None \<Rightarrow> (False, db)
        | Some d' \<Rightarrow>
            let count = GetUTXOCount ops (Some d') in
            (True, Some (if count > 0 then put_ignoring ops d' ''meta:utxo_count'' (dec (unat (count - 1)))
                         else d'))))"

definition GetUTXO :: "'db LevelDB \<Rightarrow> 'db option \<Rightarrow> bytes \<Rightarrow> u32 \<Rightarrow> TxOutput option" where
  "GetUTXO ops db tid out =
     (case db of None \<Rightarrow> None
      | Some d \<Rightarrow> (case db_get ops d (UTXOKey tid out) of None \<Rightarrow> None | Some value \<Rightarrow> DeserializeOutput value))"

definition HasUTXO :: "'db LevelDB \<Rightarrow> 'db option \<Rightarrow> bytes \<Rightarrow> u32 \<Rightarrow> bool" where
  "HasUTXO ops db tid out = (GetUTXO ops db tid out \<noteq> None)"

subsection \<open>Loading and saving the whole set\<close>

text \<open>\<open>key.find(c, from)\<close>.\<close>

definition find_char :: "char \<Rightarrow> nat \<Rightarrow> string \<Rightarrow> nat option" where
  "find_char c from s =
     (let i = from + length (takeWhile (\<lambda>x. x \<noteq> c) (drop from s)) in
      if i < length s then Some i else None)"

fun parse_hex :: "string \<Rightarrow> bytes option" where
  "parse_hex [] = Some []"
| "parse_hex [c] = None"
| "parse_hex (hi # lo # rest) =
     (case TryParseHexByte hi lo of None \<Rightarrow> None
      | Some b \<Rightarrow> map_option (\<lambda>bs. b # bs) (parse_hex rest))"

definition parse_utxo_key :: "string \<Rightarrow> OutPoint option" where
  "parse_utxo_key key =
     (if key = [] \<or> key ! 0 \<noteq> CHR ''u'' then None
      else if length key < 66 then None
      else case find_char (CHR ''_'') 65 key of
        None \<Rightarrow> None
      | Some underscore_pos \<Rightarrow>
          if underscore_pos \<le> 64 then None
          else case parse_hex (take 64 (drop 1 key)) of
            None \<Rightarrow> None
          | Some tid \<Rightarrow> map_option (OutPoint tid) (TryParseUint32 (drop (underscore_pos + 1) key)))"

text \<open>The height and the coinbase flag are not stored: every loaded coin has height 0 and is no coinbase.\<close>

definition load_entry :: "string \<times> string \<Rightarrow> (OutPoint \<times> Coin) option" where
  "load_entry kv =
     (case parse_utxo_key (fst kv) of
        None \<Rightarrow> None
      | Some outpoint \<Rightarrow> map_option
          (\<lambda>output. (outpoint, \<lparr>coin_output = output, coin_height = 0, coin_is_coinbase = False\<rparr>))
          (DeserializeOutput (snd kv)))"

definition LoadUTXOSet :: "'db LevelDB \<Rightarrow> 'db option \<Rightarrow> UTXOSet \<Rightarrow> bool \<times> UTXOSet" where
  "LoadUTXOSet ops db utxos =
     (case db of None \<Rightarrow> (False, utxos)
      | Some d \<Rightarrow>
          (db_iter_ok ops d,
           foldl (\<lambda>u kv. case load_entry kv of None \<Rightarrow> u | Some (outpoint, coin) \<Rightarrow> AddCoin u outpoint coin)
             utxos (db_entries ops d)))"

definition SaveUTXOSet :: "'db LevelDB \<Rightarrow> 'db option \<Rightarrow> UTXOSet \<Rightarrow> bool \<times> 'db option" where
  "SaveUTXOSet ops db utxos =
     (case db of None \<Rightarrow> (False, db)
      | Some d \<Rightarrow>
          let deletes = map (\<lambda>kv. (fst kv, None))
                (filter (\<lambda>kv. fst kv \<noteq> [] \<and> fst kv ! 0 = CHR ''u'') (db_entries ops d));
              outpoints = sorted_list_of_set (dom utxos);
              puts = map (\<lambda>p. (UTXOKey (txid p) (vout p), Some (SerializeOutput (coin_output (the (utxos p)))))) outpoints;
              count = (of_nat (length outpoints) :: u64) in
          (case db_write ops d (deletes @ puts @ [(''meta:utxo_count'', Some (dec (unat count)))]) of
             None \<Rightarrow> (False, db)
           | Some d' \<Rightarrow> (True, Some d')))"

subsection \<open>Keys and values\<close>

lemma to_nibble_hex: "n < 16 \<Longrightarrow> to_nibble (hex_digit n) = Some n"
  by (simp add: to_nibble_def hex_digit_def Let_def)

lemma parse_hex_append: "parse_hex (hex_byte b @ s) = map_option (\<lambda>bs. b # bs) (parse_hex s)"
proof -
  have "unat b div 16 < 16" "unat b mod 16 < 16" using unat8_lt [of b] by linarith+
  then have "TryParseHexByte (hex_digit (unat b div 16)) (hex_digit (unat b mod 16)) = Some b"
    by (simp add: TryParseHexByte_def to_nibble_hex)
  then show ?thesis by (simp add: hex_byte_def)
qed

lemma parse_hex_bytes: "parse_hex (concat (map hex_byte bs)) = Some bs"
  by (induction bs) (simp_all add: parse_hex_append)

lemma length_hex_bytes: "length (concat (map hex_byte bs)) = 2 * length bs"
  by (induction bs) (simp_all add: length_hex_byte)

lemma parse_utxo_key: "length tid = 32 \<Longrightarrow> parse_utxo_key (UTXOKey tid out) = Some (OutPoint tid out)"
proof -
  assume "length tid = 32"
  then have len: "length (concat (map hex_byte tid)) = 64" by (simp add: length_hex_bytes)
  then have drop: "drop 65 (UTXOKey tid out) = CHR ''_'' # dec (unat out)" "drop 66 (UTXOKey tid out) = dec (unat out)"
    by (simp_all add: UTXOKey_def)
  have "length (UTXOKey tid out) \<ge> 66" using len by (simp add: UTXOKey_def)
  moreover from this have "find_char (CHR ''_'') 65 (UTXOKey tid out) = Some 65"
    by (simp add: find_char_def drop)
  ultimately show ?thesis
    using len drop(2) by (simp add: parse_utxo_key_def UTXOKey_def parse_hex_bytes)
qed

lemma UTXOKey_u: "UTXOKey tid out \<noteq> [] \<and> UTXOKey tid out ! 0 = CHR ''u''"
  by (simp add: UTXOKey_def)

lemma parse_utxo_key_u: "parse_utxo_key k = Some p \<Longrightarrow> k \<noteq> [] \<and> k ! 0 = CHR ''u''"
  by (auto simp: parse_utxo_key_def split: if_splits)

lemma output_roundtrip:
  assumes "length (pubkey_script output) < 2 ^ 32"
  shows "DeserializeOutput (SerializeOutput output) = Some output"
proof -
  have n: "unat (of_nat (length (pubkey_script output)) :: u32) = length (pubkey_script output)"
    using assms by (simp add: unsigned_of_nat take_bit_nat_eq_self)
  let ?bs = "asset_id (out_value output) # le64 (asset_amount (out_value output))
        @ le32 (of_nat (length (pubkey_script output))) @ pubkey_script output"
  have s: "SerializeOutput output = string_of_bytes ?bs" by (simp add: SerializeOutput_def n)
  have "drop 9 ?bs = le32 (of_nat (length (pubkey_script output))) @ pubkey_script output"
    "drop 13 ?bs = pubkey_script output"
    by (simp_all add: drop_append_exact)
  moreover have "length (SerializeOutput output) = 13 + length (pubkey_script output)"
    by (simp add: s string_of_bytes_def)
  ultimately show ?thesis
    by (simp add: DeserializeOutput_def Let_def s n)
qed


subsection \<open>Loading what was saved\<close>

definition storable :: "UTXOSet \<Rightarrow> bool" where
  "storable utxos \<longleftrightarrow> finite (dom utxos)
     \<and> (\<forall>p c. utxos p = Some c \<longrightarrow> length (txid p) = 32 \<and> length (pubkey_script (coin_output c)) < 2 ^ 32)"

definition forget :: "Coin \<Rightarrow> Coin" where
  "forget c = \<lparr>coin_output = coin_output c, coin_height = 0, coin_is_coinbase = False\<rparr>"

lemma foldl_load:
  fixes f :: "'a \<Rightarrow> (OutPoint \<times> Coin) option"
  assumes "\<And>x p c. x \<in> set xs \<Longrightarrow> f x = Some (p, c) \<Longrightarrow> g p = Some c"
  shows "foldl (\<lambda>u x. case f x of None \<Rightarrow> u | Some (p, c) \<Rightarrow> AddCoin u p c) u xs q
    = (if \<exists>x \<in> set xs. \<exists>c. f x = Some (q, c) then g q else u q)"
  using assms
proof (induction xs arbitrary: u)
  case (Cons x xs)
  have IH: "foldl (\<lambda>u x. case f x of None \<Rightarrow> u | Some (p, c) \<Rightarrow> AddCoin u p c) u xs q
    = (if \<exists>x \<in> set xs. \<exists>c. f x = Some (q, c) then g q else u q)" for u
    by (rule Cons.IH) (use Cons.prems in auto)
  show ?case
  proof (cases "f x")
    case (Some pc)
    obtain p c where "pc = (p, c)" by force
    then show ?thesis using Some IH Cons.prems [of x p c] by (auto simp: AddCoin_def)
  qed (use IH in simp)
qed simp

lemma saved_entries:
  assumes spec: "leveldb_spec ops" and store: "storable utxos"
    and save: "SaveUTXOSet ops (Some d) utxos = (True, Some d')"
    and u: "k \<noteq> []" "k ! 0 = CHR ''u''"
  shows "db_get ops d' k = Some v \<longleftrightarrow>
    (\<exists>p c. utxos p = Some c \<and> k = UTXOKey (txid p) (vout p) \<and> v = SerializeOutput (coin_output c))"
proof -
  let ?ps = "sorted_list_of_set (dom utxos)"
  let ?put = "\<lambda>p. (UTXOKey (txid p) (vout p), Some (SerializeOutput (coin_output (the (utxos p)))))"
  let ?puts = "map ?put ?ps"
  let ?dels = "map (\<lambda>kv. (fst kv, None :: string option))
    (filter (\<lambda>kv. fst kv \<noteq> [] \<and> fst kv ! 0 = CHR ''u'') (db_entries ops d))"
  let ?count = "(''meta:utxo_count'', Some (dec (unat (of_nat (length ?ps) :: u64))))"
  have w: "db_write ops d (?dels @ ?puts @ [?count]) = Some d'"
    using save by (auto simp: SaveUTXOSet_def Let_def split: option.splits)
  have fin: "finite (dom utxos)" and len: "\<And>p c. utxos p = Some c \<Longrightarrow> length (txid p) = 32"
    using store by (auto simp: storable_def)
  have ps: "set ?ps = dom utxos" using fin by simp
  have key: "p = q" if "utxos p \<noteq> None" "utxos q \<noteq> None" "UTXOKey (txid p) (vout p) = UTXOKey (txid q) (vout q)" for p q
  proof -
    have "Some (OutPoint (txid p) (vout p)) = Some (OutPoint (txid q) (vout q))"
      using that len parse_utxo_key by (metis not_Some_eq)
    then show ?thesis by (simp add: OutPoint.expand)
  qed
  have k: "k \<noteq> ''meta:utxo_count''" using u by auto
  have entries: "distinct (map fst (db_entries ops d))" "map_of (db_entries ops d) = db_get ops d"
    using spec unfolding leveldb_spec_def by blast+
  have get: "db_get ops d' k = (case map_of (rev ?puts) k of
      None \<Rightarrow> (case map_of (rev ?dels) k of None \<Rightarrow> db_get ops d k | Some v \<Rightarrow> v) | Some v \<Rightarrow> v)"
    unfolding leveldb_get [OF spec w] using k by (simp add: map_add_def split: option.splits)
  show ?thesis
  proof (cases "\<exists>p. utxos p \<noteq> None \<and> k = UTXOKey (txid p) (vout p)")
    case True
    then obtain p c where p: "utxos p = Some c" "k = UTXOKey (txid p) (vout p)" by blast
    then have "k \<in> fst ` set (rev ?puts)" using ps by (force simp: dom_def)
    then obtain y where y: "map_of (rev ?puts) k = Some y" by (meson map_of_eq_None_iff not_Some_eq)
    have "(k, y) \<in> set (rev ?puts)" by (rule map_of_SomeD [OF y])
    then obtain q where q: "q \<in> dom utxos" "k = UTXOKey (txid q) (vout q)"
      "y = Some (SerializeOutput (coin_output (the (utxos q))))" using ps by auto
    have "q = p" by (rule key) (use q(1,2) p in \<open>simp_all add: dom_def\<close>)
    then have "db_get ops d' k = Some (SerializeOutput (coin_output c))" using get y q(3) p(1) by simp
    moreover have "c' = c" if "utxos p' = Some c'" "k = UTXOKey (txid p') (vout p')" for p' c'
    proof -
      have "p' = p" by (rule key) (simp_all add: that(1) p(1) that(2) [symmetric] p(2) [symmetric])
      then show ?thesis using p(1) that(1) by simp
    qed
    ultimately show ?thesis using p by (metis option.inject)
  next
    case False
    have "map_of (rev ?puts) k = None"
    proof (rule ccontr)
      assume "map_of (rev ?puts) k \<noteq> None"
      then obtain y where y: "map_of (rev ?puts) k = Some y" by blast
      have "(k, y) \<in> set (rev ?puts)" by (rule map_of_SomeD [OF y])
      then show False using False ps by auto
    qed
    moreover have "(case map_of (rev ?dels) k of None \<Rightarrow> db_get ops d k | Some v \<Rightarrow> v) = None"
    proof (cases "db_get ops d k")
      case None
      have "v = None" if "map_of (rev ?dels) k = Some v" for v
        using map_of_SomeD [OF that] by auto
      then show ?thesis using None by (auto split: option.splits)
    next
      case (Some x)
      then have "(k, x) \<in> set (db_entries ops d)" using entries(2) by (metis map_of_SomeD)
      then have "k \<in> fst ` set (rev ?dels)" using u by force
      then obtain y where y: "map_of (rev ?dels) k = Some y" by (meson map_of_eq_None_iff not_Some_eq)
      from map_of_SomeD [OF y] have "y = None" by auto
      then show ?thesis using y by simp
    qed
    ultimately have "db_get ops d' k = None" using get by simp
    moreover have "\<not> (utxos p = Some c \<and> k = UTXOKey (txid p) (vout p))" for p c
      using False by (metis option.distinct(1))
    ultimately show ?thesis by (metis option.distinct(1))
  qed
qed

subsection \<open>Properties\<close>

text \<open>
  Saving the UTXO set and loading it into an empty one gives back every coin and nothing else,
  except that all coins come back with height 0 and without their coinbase flag.
\<close>

theorem saved_utxos_load_back:
  assumes "leveldb_spec ops" and "storable utxos" and "SaveUTXOSet ops (Some d) utxos = (True, db')"
  shows "snd (LoadUTXOSet ops db' Map.empty) = map_option forget \<circ> utxos"
proof -
  obtain d' where d': "db' = Some d'"
    using assms(3) by (cases db') (auto simp: SaveUTXOSet_def Let_def split: option.splits)
  note saved = saved_entries [OF assms(1,2) assms(3) [unfolded d']]
  have entries: "(k, v) \<in> set (db_entries ops d') \<longleftrightarrow> db_get ops d' k = Some v" for k v
    using assms(1) unfolding leveldb_spec_def by (metis map_of_eq_Some_iff)
  have load: "load_entry (k, v) = Some (p, c) \<longleftrightarrow>
      (\<exists>out. parse_utxo_key k = Some p \<and> DeserializeOutput v = Some out
        \<and> c = \<lparr>coin_output = out, coin_height = 0, coin_is_coinbase = False\<rparr>)" for k v p c
    by (auto simp: load_entry_def split: option.splits)
  have loaded: "load_entry (UTXOKey (txid p) (vout p), SerializeOutput (coin_output c)) = Some (p, forget c)"
    if "utxos p = Some c" for p c
    using assms(2) that by (auto simp: load storable_def parse_utxo_key output_roundtrip forget_def)
  have sound: "(map_option forget \<circ> utxos) p = Some c"
    if kv: "kv \<in> set (db_entries ops d')" "load_entry kv = Some (p, c)" for kv p c
  proof -
    obtain k v where k: "kv = (k, v)" by force
    then have "k \<noteq> []" "k ! 0 = CHR ''u''" using kv(2) parse_utxo_key_u by (auto simp: load)
    from saved [OF this, of v] entries [of k v] kv(1) k obtain q c'
      where q: "utxos q = Some c'" "k = UTXOKey (txid q) (vout q)" "v = SerializeOutput (coin_output c')" by auto
    then show ?thesis using loaded [OF q(1)] kv(2) k by simp
  qed
  have complete: "\<exists>kv \<in> set (db_entries ops d'). \<exists>c'. load_entry kv = Some (p, c')" if "utxos p = Some c" for p c
    using saved [of "UTXOKey (txid p) (vout p)"] UTXOKey_u entries that loaded [OF that] by fastforce
  show ?thesis
  proof
    fix p
    show "snd (LoadUTXOSet ops db' Map.empty) p = (map_option forget \<circ> utxos) p"
      unfolding LoadUTXOSet_def d' option.case snd_conv
      by (subst foldl_load [where g = "map_option forget \<circ> utxos"])
        (use sound complete [of p] in \<open>auto simp: fun_eq_iff\<close>, cases "utxos p", auto)
  qed
qed

theorem saved_utxos_load_back_witness:
  "\<exists>db'. SaveUTXOSet list_ops (Some empty_db)
       [OutPoint zero_hash 3 \<mapsto> \<lparr>coin_output = \<lparr>out_value = \<lparr>asset_id = TALANTON, asset_amount = 5\<rparr>, pubkey_script = [7]\<rparr>,
          coin_height = 9, coin_is_coinbase = True\<rparr>] = (True, db')
     \<and> snd (LoadUTXOSet list_ops db' Map.empty) =
       [OutPoint zero_hash 3 \<mapsto> \<lparr>coin_output = \<lparr>out_value = \<lparr>asset_id = TALANTON, asset_amount = 5\<rparr>, pubkey_script = [7]\<rparr>,
          coin_height = 0, coin_is_coinbase = False\<rparr>]"
proof -
  let ?c = "\<lparr>coin_output = \<lparr>out_value = \<lparr>asset_id = TALANTON, asset_amount = 5\<rparr>, pubkey_script = [7]\<rparr>,
          coin_height = 9, coin_is_coinbase = True\<rparr>"
  let ?u = "[OutPoint zero_hash 3 \<mapsto> ?c]"
  have store: "storable ?u" by (simp add: storable_def)
  obtain db' where save: "SaveUTXOSet list_ops (Some empty_db) ?u = (True, db')"
    by (simp add: SaveUTXOSet_def list_ops_def Let_def)
  have "map_option forget \<circ> ?u = [OutPoint zero_hash 3 \<mapsto> forget ?c]" by (simp add: fun_eq_iff)
  with saved_utxos_load_back [OF list_ops_spec store save] save show ?thesis by (simp add: forget_def)
qed

end
