(* ===== verification/Node.thy ===== *)
theory Node
  imports Mempool UtxoStorage Genesis
begin

section \<open>The node\<close>

text \<open>
  Models \<open>layer1-talanton/core/node/node.cpp\<close>: start-up with the replay of the stored chain, acceptance
  of blocks and transactions, and the handlers of peer messages. The node's components are the models
  of the other theories. What a handler asks of the network, the attached wallet and the registered
  callbacks is returned as a list of actions, in order; opening a database, the start of the network
  and the clock are arguments. Console output, threads and mining are not modelled. An exception
  leaves the state as it was when it was thrown.
\<close>

type_synonym u16 = "16 word"

datatype NetworkMode = Mode_MAINNET | Mode_TESTNET | Mode_REGTEST

fun ToConsensusNetworkType :: "NetworkMode \<Rightarrow> NetworkType" where
  "ToConsensusNetworkType Mode_MAINNET = MAINNET"
| "ToConsensusNetworkType Mode_TESTNET = TESTNET"
| "ToConsensusNetworkType Mode_REGTEST = REGTEST"

definition TryParsePeerPort :: "string \<Rightarrow> u16 option" where
  "TryParsePeerPort value =
     (if value = [] then None
      else case TryParseUint32 value of
        None \<Rightarrow> None
      | Some parsed \<Rightarrow> if parsed = 0 \<or> parsed > 65535 then None else Some (ucast parsed))"

record PeerInfo =
  peer_address :: string
  peer_port :: u16
  peer_version :: u32
  peer_height :: u64
  peer_is_connected :: bool
  peer_last_seen :: u64

datatype InvType = INV_ERROR | MSG_TX | MSG_BLOCK | MSG_FILTERED_BLOCK

datatype InvVect = InvVect (inv_type: InvType) (inv_hash: bytes)

datatype action =
    Net_RequestBlocks string u32 u32
  | Net_AddPeer string u16
  | Net_BroadcastBlock Block
  | Net_BroadcastTransaction Transaction
  | Net_SendGetData string "InvVect list"
  | Net_SendBlock string Block
  | Net_SendTx string Transaction
  | Wallet_ProcessBlock Block u32
  | Notify_Block Block
  | Notify_Transaction Transaction

record 'db Node =
  nd_running :: bool
  nd_mode :: NetworkMode
  nd_chain :: Chain
  nd_chain_state :: ChainState
  nd_mempool :: Mempool
  nd_blocks :: "'db option"
  nd_utxos :: "'db option"
  nd_peers :: "(string \<times> PeerInfo) list"
  nd_is_syncing :: bool
  nd_sync_target :: u32
  nd_has_wallet :: bool

definition Node_init :: "NetworkMode \<Rightarrow> 'db Node" where
  "Node_init mode =
     \<lparr>nd_running = False, nd_mode = mode, nd_chain = Chain_init, nd_chain_state = ChainState_init,
      nd_mempool = Mempool_init, nd_blocks = None, nd_utxos = None, nd_peers = [], nd_is_syncing = False,
      nd_sync_target = 0, nd_has_wallet = False\<rparr>"

definition Node_GetHeight :: "'db Node \<Rightarrow> u32" where
  "Node_GetHeight n = chain_height (nd_chain n)"

subsection \<open>Starting and stopping\<close>

definition close_stores :: "'db Node \<Rightarrow> 'db Node" where
  "close_stores n = n\<lparr>nd_blocks := None, nd_utxos := None\<rparr>"

text \<open>
  The check of a stored genesis block, or the storing of a new one. \<open>Inr True\<close>: go on.
\<close>

definition check_genesis :: "'db LevelDB \<Rightarrow> 'db Node \<Rightarrow> (cpp_error + bool) \<times> 'db Node" where
  "check_genesis ops n =
     (let network = ToConsensusNetworkType (nd_mode n) in
      if BlockStorage_GetHeight ops (nd_blocks n) \<ge> 1 then
        (case GetBlockByHeight ops (nd_blocks n) 1 of
           Threw e \<Rightarrow> (Inl e, n)
         | Nullopt \<Rightarrow> (Inr False, close_stores n)
         | Parsed genesis_block \<Rightarrow>
             if \<not> IsExpectedGenesisBlock genesis_block network then (Inr False, close_stores n)
             else (Inr True, n))
      else
        let (stored, db) = StoreBlock ops (nd_blocks n) (GetGenesisBlock network) 1;
            n = n\<lparr>nd_blocks := db\<rparr> in
        if \<not> stored then (Inr False, close_stores n)
        else
          let (updated, db) = UpdateChainTip ops (nd_blocks n) 1 (GetExpectedGenesisHash network);
              n = n\<lparr>nd_blocks := db\<rparr> in
          if \<not> updated then (Inr False, close_stores n) else (Inr True, n))"

text \<open>
  The loop over the heights up to \<open>chain_height\<close>, here over the list of them (a stored height of
  \<open>2 ^ 32 - 1\<close>, at which the loop variable wraps, is left aside). A block that does not connect
  leaves its traces in the chain.
\<close>

fun replay :: "'db LevelDB \<Rightarrow> 'db Node \<Rightarrow> nat list \<Rightarrow> (cpp_error + bool) \<times> 'db Node" where
  "replay ops n [] = (Inr True, n)"
| "replay ops n (height # heights) =
     (case GetBlockByHeight ops (nd_blocks n) (of_nat height) of
        Threw e \<Rightarrow> (Inl e, n)
      | Nullopt \<Rightarrow> (Inr False, close_stores n)
      | Parsed block \<Rightarrow>
          let (connected, chain, undo) = ConnectBlock (nd_chain n) block [];
              n = n\<lparr>nd_chain := chain\<rparr> in
          if \<not> connected then (Inr False, close_stores n) else replay ops n heights)"

definition Start :: "'db LevelDB \<Rightarrow> 'db option \<Rightarrow> 'db option \<Rightarrow> bool \<Rightarrow> 'db Node \<Rightarrow> (cpp_error + bool) \<times> 'db Node" where
  "Start ops opened_blocks opened_utxos network_started n =
     (if nd_running n then (Inr False, n)
      else case opened_blocks of None \<Rightarrow> (Inr False, n)
      | Some blocks \<Rightarrow>
        let n = n\<lparr>nd_blocks := Some blocks\<rparr> in
        (case opened_utxos of None \<Rightarrow> (Inr False, n\<lparr>nd_blocks := None\<rparr>)
        | Some utxos \<Rightarrow>
          let n = n\<lparr>nd_utxos := Some utxos\<rparr> in
          (case check_genesis ops n of
             (Inl e, n) \<Rightarrow> (Inl e, n)
           | (Inr False, n) \<Rightarrow> (Inr False, n)
           | (Inr True, n) \<Rightarrow>
             (case replay ops n [1..<Suc (unat (BlockStorage_GetHeight ops (nd_blocks n)))] of
                (Inl e, n) \<Rightarrow> (Inl e, n)
              | (Inr False, n) \<Rightarrow> (Inr False, n)
              | (Inr True, n) \<Rightarrow>
                let n = n\<lparr>nd_sync_target := chain_height (nd_chain n), nd_is_syncing := False\<rparr> in
                if \<not> network_started then (Inr False, close_stores n)
                else (Inr True, n\<lparr>nd_running := True, nd_is_syncing := True\<rparr>)))))"

definition Stop :: "'db LevelDB \<Rightarrow> 'db Node \<Rightarrow> 'db Node" where
  "Stop ops n =
     (if \<not> nd_running n then n
      else
        let n = n\<lparr>nd_is_syncing := False\<rparr>;
            n = n\<lparr>nd_utxos := snd (SaveUTXOSet ops (nd_utxos n) (utxo_set (nd_chain n)))\<rparr> in
        (close_stores n)\<lparr>nd_running := False\<rparr>)"

subsection \<open>Blocks\<close>

definition valid_in_block :: "Secp \<Rightarrow> UTXOSet \<Rightarrow> u32 \<Rightarrow> Transaction \<Rightarrow> bool" where
  "valid_in_block secp utxos height tx =
     (ValidateStructure tx = None \<and> ValidateAgainstUTXO tx utxos height = None
        \<and> ValidateSignatures secp tx utxos = None)"

definition store_accepted :: "'db LevelDB \<Rightarrow> 'db Node \<Rightarrow> Block \<Rightarrow> 'db Node" where
  "store_accepted ops n block =
     (let height = chain_height (nd_chain n);
          blocks = (case nd_blocks n of None \<Rightarrow> None
            | Some d \<Rightarrow> snd (UpdateChainTip ops (snd (StoreBlock ops (Some d) block height)) height (Block_GetHash block)));
          n = n\<lparr>nd_blocks := blocks\<rparr>;
          utxos = (case nd_utxos n of None \<Rightarrow> None
            | Some d \<Rightarrow> snd (SaveUTXOSet ops (Some d) (utxo_set (nd_chain n)))) in
      n\<lparr>nd_utxos := utxos,
        nd_mempool := foldl (\<lambda>p tx. snd (RemoveTransaction p (GetTxID tx))) (nd_mempool n) (transactions block)\<rparr>)"

definition ValidateAndApplyBlock :: "Secp \<Rightarrow> 'db LevelDB \<Rightarrow> 'db Node \<Rightarrow> Block \<Rightarrow> (cpp_error + bool) \<times> 'db Node" where
  "ValidateAndApplyBlock secp ops n block =
     (if \<not> Block_IsValid block then (Inr False, n)
      else case ChainState_ValidateBlock (nd_chain_state n) block of
        Inl e \<Rightarrow> (Inl e, n)
      | Inr ok \<Rightarrow>
        if \<not> ok then (Inr False, n)
        else if \<not> list_all (valid_in_block secp (utxo_set (nd_chain n)) (Node_GetHeight n)) (tl (transactions block))
        then (Inr False, n)
        else
          let (connected, chain, undo) = ConnectBlock (nd_chain n) block [];
              n = n\<lparr>nd_chain := chain\<rparr> in
          if \<not> connected then (Inr False, n)
          else case ApplyBlock (nd_chain_state n) block of
            (Inl e, s) \<Rightarrow> (Inl e, n)
          | (Inr _, s) \<Rightarrow> (Inr True, store_accepted ops (n\<lparr>nd_chain_state := s\<rparr>) block))"

definition ProcessBlock :: "Secp \<Rightarrow> 'db LevelDB \<Rightarrow> 'db Node \<Rightarrow> Block \<Rightarrow> (cpp_error + bool) \<times> 'db Node \<times> action list" where
  "ProcessBlock secp ops n block =
     (case ValidateAndApplyBlock secp ops n block of
        (Inl e, n) \<Rightarrow> (Inl e, n, [])
      | (Inr False, n) \<Rightarrow> (Inr False, n, [])
      | (Inr True, n) \<Rightarrow>
          let block_height = Node_GetHeight n;
              n = (if block_height \<ge> nd_sync_target n then n\<lparr>nd_is_syncing := False\<rparr> else n) in
          (Inr True, n,
           (if nd_has_wallet n then [Wallet_ProcessBlock block block_height] else [])
             @ [Notify_Block block, Net_BroadcastBlock block]))"

subsection \<open>Transactions\<close>

definition SubmitTransaction :: "Secp \<Rightarrow> u32 \<Rightarrow> 'db Node \<Rightarrow> Transaction
    \<Rightarrow> ((cpp_error + bool) \<times> 'db Node \<times> action list) option" where
  "SubmitTransaction secp now n tx =
     (let utxos = utxo_set (nd_chain n) in
      if ValidateStructure tx \<noteq> None then Some (Inr False, n, [])
      else if ValidateAgainstUTXO tx utxos (Node_GetHeight n) \<noteq> None then Some (Inr False, n, [])
      else if ValidateSignatures secp tx utxos \<noteq> None then Some (Inr False, n, [])
      else case AddTransaction now (nd_mempool n) tx utxos (Node_GetHeight n) of
        None \<Rightarrow> None
      | Some (r, p) \<Rightarrow>
          let n = n\<lparr>nd_mempool := p\<rparr> in
          Some (case r of
            Inl e \<Rightarrow> (Inl e, n, [])
          | Inr False \<Rightarrow> (Inr False, n, [])
          | Inr True \<Rightarrow> (Inr True, n, [Notify_Transaction tx, Net_BroadcastTransaction tx])))"

subsection \<open>Peers and inventories\<close>

definition RecomputeSyncTarget :: "'db Node \<Rightarrow> 'db Node" where
  "RecomputeSyncTarget n =
     (let best_height = foldl (\<lambda>best (_, info).
              if peer_is_connected info \<and> peer_height info > ucast best then ucast (peer_height info) else best)
            (Node_GetHeight n) (nd_peers n);
          n = n\<lparr>nd_sync_target := best_height\<rparr> in
      if nd_sync_target n > Node_GetHeight n then n\<lparr>nd_is_syncing := True\<rparr> else n)"

definition HandleNewPeer :: "u64 \<Rightarrow> 'db Node \<Rightarrow> string \<Rightarrow> 'db Node" where
  "HandleNewPeer now n peer_id =
     (let (address, port) =
            (case find_char (CHR '':'') 0 peer_id of
               None \<Rightarrow> (peer_id, 0)
             | Some colon_pos \<Rightarrow>
                 (take colon_pos peer_id,
                  case TryParsePeerPort (drop (colon_pos + 1) peer_id) of None \<Rightarrow> 0 | Some port \<Rightarrow> port));
          info = (case map_of (nd_peers n) peer_id of
               None \<Rightarrow> \<lparr>peer_address = address, peer_port = port, peer_version = 1, peer_height = ucast (Node_GetHeight n),
                        peer_is_connected = True, peer_last_seen = now\<rparr>
             | Some info \<Rightarrow> info\<lparr>peer_is_connected := True, peer_last_seen := now\<rparr>) in
      RecomputeSyncTarget (n\<lparr>nd_peers := map_put peer_id info (nd_peers n)\<rparr>))"

definition AddPeer :: "'db Node \<Rightarrow> string \<Rightarrow> u16 \<Rightarrow> 'db Node \<times> action list" where
  "AddPeer n address port =
     (let peer_id = address @ '':'' @ dec (unat port) in
      if map_of (nd_peers n) peer_id \<noteq> None then (n, [])
      else
        (n\<lparr>nd_peers := map_put peer_id
            \<lparr>peer_address = address, peer_port = port, peer_version = 1, peer_height = 0,
             peer_is_connected = False, peer_last_seen = 0\<rparr> (nd_peers n)\<rparr>,
         if nd_running n then [Net_AddPeer address port] else []))"

text \<open>The items the node does not have yet; looking a block up can throw.\<close>

fun missing_items :: "'db LevelDB \<Rightarrow> 'db Node \<Rightarrow> InvVect list \<Rightarrow> cpp_error + InvVect list" where
  "missing_items ops n [] = Inr []"
| "missing_items ops n (item # items) =
     (let rest = missing_items ops n items; keep = (case rest of Inl e \<Rightarrow> Inl e | Inr is \<Rightarrow> Inr (item # is)) in
      if inv_type item = MSG_BLOCK then
        (case GetBlockByHash ops (nd_blocks n) (inv_hash item) of
           Threw e \<Rightarrow> Inl e | Nullopt \<Rightarrow> keep | Parsed _ \<Rightarrow> rest)
      else if inv_type item = MSG_TX then
        (if HasTransaction (nd_mempool n) (inv_hash item) then rest else keep)
      else rest)"

definition HandleInvReceived :: "'db LevelDB \<Rightarrow> 'db Node \<Rightarrow> string \<Rightarrow> InvVect list \<Rightarrow> cpp_error + action list" where
  "HandleInvReceived ops n peer_id inventory =
     (if inventory = [] then Inr []
      else case missing_items ops n inventory of
        Inl e \<Rightarrow> Inl e
      | Inr getdata \<Rightarrow> if getdata \<noteq> [] then Inr [Net_SendGetData peer_id getdata] else Inr [])"

text \<open>Answers sent before an exception are sent; the error is returned beside them.\<close>

fun HandleGetDataReceived :: "'db LevelDB \<Rightarrow> 'db Node \<Rightarrow> string \<Rightarrow> InvVect list \<Rightarrow> action list \<times> cpp_error option" where
  "HandleGetDataReceived ops n peer_id [] = ([], None)"
| "HandleGetDataReceived ops n peer_id (item # items) =
     (let rest = HandleGetDataReceived ops n peer_id items in
      if inv_type item = MSG_BLOCK then
        (case GetBlockByHash ops (nd_blocks n) (inv_hash item) of
           Threw e \<Rightarrow> ([], Some e)
         | Nullopt \<Rightarrow> rest
         | Parsed block \<Rightarrow> (Net_SendBlock peer_id block # fst rest, snd rest))
      else if inv_type item = MSG_TX then
        (case GetTransaction (nd_mempool n) (inv_hash item) of
           None \<Rightarrow> rest
         | Some tx \<Rightarrow> (Net_SendTx peer_id tx # fst rest, snd rest))
      else rest)"

text \<open>One round of the loop of the sync thread; whether it goes on is the flag \<open>nd_is_syncing\<close>.\<close>

definition SyncLoop_round :: "'db Node \<Rightarrow> 'db Node \<times> action list" where
  "SyncLoop_round n =
     (let current_height = Node_GetHeight n; peers = map snd (nd_peers n) in
      if peers = [] then (n, [])
      else if current_height < nd_sync_target n then
        (n, [Net_RequestBlocks (peer_address (peers ! 0) @ '':'' @ dec (unat (peer_port (peers ! 0)))) (current_height + 1) 500])
      else if nd_sync_target n > 0 then (n\<lparr>nd_is_syncing := False\<rparr>, [])
      else (n, []))"


subsection \<open>Starting\<close>

lemma single_tx_root: "transactions b = [tx] \<Longrightarrow> CalculateMerkleRoot b = GetTxID tx"
  by (simp add: CalculateMerkleRoot_def CalculateRoot_txs_def CalculateRoot_def)

lemma genesis_wf: "Block_wf (GetGenesisBlock network)"
proof -
  have "length (coinbase_message (GetGenesisParams network)) < 1000"
    by (cases network) (simp_all add: GetGenesisParams_def)
  then show ?thesis
    by (simp add: Block_wf_def BlockHeader_wf_def GetGenesisBlock_def Let_def BlockHeader_init_def
        single_tx_root genesis_coinbase_def Transaction_wf_def TxInput_wf_def TxOutput_wf_def OutPoint_wf_def
        script_wf_def MAX_ALLOC_def GetTxID_def)
qed

text \<open>The stores a node starts on: nothing stored yet, or the network's genesis block as first block.\<close>

definition own_store :: "'db LevelDB \<Rightarrow> NetworkType \<Rightarrow> 'db \<Rightarrow> bool" where
  "own_store ops network d \<longleftrightarrow> BlockStorage_GetHeight ops (Some d) = 0
     \<or> GetBlockByHeight ops (Some d) 1 = Parsed (GetGenesisBlock network)"

lemma check_genesis_True:
  assumes "leveldb_spec ops" and "check_genesis ops n = (Inr True, n')"
    and own: "\<And>d. nd_blocks n = Some d \<Longrightarrow> own_store ops (ToConsensusNetworkType (nd_mode n)) d"
  shows "nd_chain n' = nd_chain n \<and> nd_chain_state n' = nd_chain_state n \<and> nd_mode n' = nd_mode n
    \<and> BlockStorage_GetHeight ops (nd_blocks n') \<ge> 1
    \<and> GetBlockByHeight ops (nd_blocks n') 1 = Parsed (GetGenesisBlock (ToConsensusNetworkType (nd_mode n)))"
proof (cases "BlockStorage_GetHeight ops (nd_blocks n) \<ge> 1")
  case True
  then obtain d where d: "nd_blocks n = Some d"
    by (cases "nd_blocks n") (auto simp: BlockStorage_GetHeight_def)
  then have "BlockStorage_GetHeight ops (Some d) \<noteq> 0" using True by (auto simp: word_le_nat_alt)
  then have "GetBlockByHeight ops (Some d) 1 = Parsed (GetGenesisBlock (ToConsensusNetworkType (nd_mode n)))"
    using own [OF d] by (simp add: own_store_def)
  then show ?thesis
    using assms(2) True d by (auto simp: check_genesis_def Let_def split: outcome.splits if_splits)
next
  case False
  let ?g = "GetGenesisBlock (ToConsensusNetworkType (nd_mode n))"
  obtain db1 db2 where store: "StoreBlock ops (nd_blocks n) ?g 1 = (True, db1)"
    and tip: "UpdateChainTip ops db1 1 (GetExpectedGenesisHash (ToConsensusNetworkType (nd_mode n))) = (True, db2)"
    and n': "n' = n\<lparr>nd_blocks := db2\<rparr>"
    using assms(2) False by (auto simp: check_genesis_def Let_def split: prod.splits if_splits)
  have "GetBlockByHeight ops db1 1 = Parsed ?g"
    using StoreBlock_found [OF assms(1) genesis_wf store] by blast
  then show ?thesis
    using UpdateChainTip_effect [OF assms(1) tip] by (simp add: n')
qed

lemma replay_fails:
  assumes "fst (replay ops n (h # hs)) = Inr True"
  shows "\<exists>b. GetBlockByHeight ops (nd_blocks n) (of_nat h) = Parsed b \<and> fst (ConnectBlock (nd_chain n) b [])"
  using assms by (auto simp: Let_def split: outcome.splits prod.splits if_splits)

lemma Start_not_True:
  assumes spec: "leveldb_spec ops" and chain: "nd_chain n = Chain_init"
    and own: "\<And>d. ob = Some d \<Longrightarrow> own_store ops (ToConsensusNetworkType (nd_mode n)) d"
    and start: "fst (Start ops ob ou net n) = Inr True"
  shows False
proof -
  obtain bl ut where o: "ob = Some bl" "ou = Some ut" "\<not> nd_running n"
    using start by (cases ob; cases ou) (auto simp: Start_def Let_def split: if_splits)
  let ?n = "n\<lparr>nd_blocks := Some bl, nd_utxos := Some ut\<rparr>"
  obtain n1 where cg: "check_genesis ops ?n = (Inr True, n1)"
    and rep: "fst (replay ops n1 [1..<Suc (unat (BlockStorage_GetHeight ops (nd_blocks n1)))]) = Inr True"
    using start o by (auto simp: Start_def Let_def split: sum.splits prod.splits bool.splits if_splits)
  have g: "nd_chain n1 = Chain_init" "BlockStorage_GetHeight ops (nd_blocks n1) \<ge> 1"
    "GetBlockByHeight ops (nd_blocks n1) 1 = Parsed (GetGenesisBlock (ToConsensusNetworkType (nd_mode n)))"
    using check_genesis_True [OF spec cg] own o chain by auto
  let ?h = "BlockStorage_GetHeight ops (nd_blocks n1)"
  have "1 \<le> unat ?h" using g by (simp add: word_le_nat_alt)
  then have "[1..<Suc (unat ?h)] = 1 # [2..<Suc (unat ?h)]"
    by (simp add: upt_conv_Cons numeral_2_eq_2)
  with rep have "fst (replay ops n1 (1 # [2..<Suc (unat ?h)])) = Inr True" by simp
  from replay_fails [OF this] g have "fst (ConnectBlock Chain_init (GetGenesisBlock (ToConsensusNetworkType (nd_mode n))) [])"
    by auto
  then show ?thesis using genesis_not_connected by blast
qed

lemma replay_frame: "nd_chain_state (snd (replay ops n hs)) = nd_chain_state n"
  by (induction ops n hs rule: replay.induct)
    (auto simp: close_stores_def Let_def split: outcome.splits prod.splits)


lemma Start_chain_state: "nd_chain_state (snd (Start ops ob ou net n)) = nd_chain_state n"
proof -
  have cg: "nd_chain_state (snd (check_genesis ops m)) = nd_chain_state m" for m
    by (auto simp: check_genesis_def close_stores_def Let_def split: outcome.splits prod.splits)
  have cg': "nd_chain_state m' = nd_chain_state m" if "check_genesis ops m = (r, m')" for m m' r
    using cg [of m] that by simp
  have rep': "nd_chain_state m' = nd_chain_state m" if "replay ops m hs = (r, m')" for m m' r hs
    using replay_frame [of ops m hs] that by simp
  show ?thesis
    by (auto simp: Start_def close_stores_def Let_def dest!: cg' rep' split: option.splits prod.splits sum.splits bool.splits)
qed

subsection \<open>Announced peers\<close>

text \<open>The node notes every peer the network announces as connected, though the connection has not even shaken hands.\<close>

lemma announced_peer_counts_as_connected:
  "\<exists>info. map_of (nd_peers (HandleNewPeer now n peer_id)) peer_id = Some info \<and> peer_is_connected info"
  by (auto simp: HandleNewPeer_def RecomputeSyncTarget_def Let_def split: option.split)

subsection \<open>The node's two chain states\<close>

lemma tracks_failed:
  assumes "tracks s c" and "ConnectBlock c b undo = (False, c', undo')"
  shows "tracks s c'"
  using ConnectBlock_rejected(1,2,4,5) [OF assms(2)] assms(1)
  by (auto simp: tracks_def Chain_GetTotalSupply_def fun_eq_iff)

lemma store_accepted_frame [simp]:
  "nd_chain (store_accepted ops n b) = nd_chain n" "nd_chain_state (store_accepted ops n b) = nd_chain_state n"
  by (simp_all add: store_accepted_def Let_def)

text \<open>The three ways through \<open>ValidateAndApplyBlock\<close>: refused before or by \<open>ConnectBlock\<close>, or applied.\<close>

lemma ValidateAndApplyBlock_cases:
  assumes "ValidateAndApplyBlock secp ops n b = (r, n')"
  obtains (refused) "r \<noteq> Inr True" "n' = n"
    | (not_connected) c' undo where "r = Inr False" "ConnectBlock (nd_chain n) b [] = (False, c', undo)" "n' = n\<lparr>nd_chain := c'\<rparr>"
    | (connected) c' undo where "ChainState_ValidateBlock (nd_chain_state n) b = Inr True"
        "list_all (valid_in_block secp (utxo_set (nd_chain n)) (Node_GetHeight n)) (tl (transactions b))"
        "ConnectBlock (nd_chain n) b [] = (True, c', undo)"
        "(r, n') = (case ApplyBlock (nd_chain_state n) b of
            (Inl e, s) \<Rightarrow> (Inl e, n\<lparr>nd_chain := c'\<rparr>)
          | (Inr _, s) \<Rightarrow> (Inr True, store_accepted ops (n\<lparr>nd_chain := c', nd_chain_state := s\<rparr>) b))"
proof (cases "Block_IsValid b \<and> ChainState_ValidateBlock (nd_chain_state n) b = Inr True
    \<and> list_all (valid_in_block secp (utxo_set (nd_chain n)) (Node_GetHeight n)) (tl (transactions b))")
  case False
  have "r \<noteq> Inr True \<and> n' = n"
  proof (cases "ChainState_ValidateBlock (nd_chain_state n) b")
    case (Inl e)
    then show ?thesis using assms by (auto simp: ValidateAndApplyBlock_def split: if_splits)
  next
    case (Inr ok)
    then show ?thesis using assms False by (cases ok) (auto simp: ValidateAndApplyBlock_def split: if_splits)
  qed
  then show ?thesis using refused by blast
next
  case True
  obtain ok c' undo where con: "ConnectBlock (nd_chain n) b [] = (ok, c', undo)" by (metis prod_cases3)
  show ?thesis
  proof (cases ok)
    case False
    then show ?thesis using True con assms not_connected by (simp add: ValidateAndApplyBlock_def Let_def)
  next
    case okay: True
    then have "(r, n') = (case ApplyBlock (nd_chain_state n) b of
            (Inl e, s) \<Rightarrow> (Inl e, n\<lparr>nd_chain := c'\<rparr>)
          | (Inr _, s) \<Rightarrow> (Inr True, store_accepted ops (n\<lparr>nd_chain := c', nd_chain_state := s\<rparr>) b))"
      using True con assms by (simp add: ValidateAndApplyBlock_def Let_def)
    moreover have "ConnectBlock (nd_chain n) b [] = (True, c', undo)" using con okay by simp
    ultimately show ?thesis using connected [of c' undo] True by simp
  qed
qed


lemma valid_in_blockD:
  assumes "valid_in_block secp u h tx" and "\<not> IsCoinbase tx" and "i < length (inputs tx)"
  shows "input_authorised secp tx u i"
  using assms ValidateSignatures_None [of secp tx u] by (simp add: valid_in_block_def)

lemma removed_from_pool:
  "tx \<in> set txs \<Longrightarrow> map_of (mp_transactions (foldl (\<lambda>p tx. snd (RemoveTransaction p (GetTxID tx))) p txs)) (GetTxID tx) = None"
proof -
  have keep: "map_of (mp_transactions p) t = None \<Longrightarrow>
      map_of (mp_transactions (foldl (\<lambda>p tx. snd (RemoveTransaction p (GetTxID tx))) p txs)) t = None" for p t txs
    by (induction txs arbitrary: p) (simp_all add: pool_find_remove)
  show "tx \<in> set txs \<Longrightarrow> map_of (mp_transactions (foldl (\<lambda>p tx. snd (RemoveTransaction p (GetTxID tx))) p txs)) (GetTxID tx) = None"
    by (induction txs arbitrary: p) (auto simp: pool_find_remove keep)
qed

subsection \<open>Properties\<close>

text \<open>
  C14. The node's two chain states never diverge: when its light chain state has the height, tip and supplies
  of its chain, it still has them after \<open>ValidateAndApplyBlock\<close>, whatever the block and the outcome.
\<close>

theorem node_states_agree:
  assumes "tracks (nd_chain_state n) (nd_chain n)" and "chain_height (nd_chain n) \<noteq> 0xFFFFFFFF"
    and "ValidateAndApplyBlock secp ops n b = (r, n')"
  shows "tracks (nd_chain_state n') (nd_chain n')"
  using assms(3)
proof (cases rule: ValidateAndApplyBlock_cases)
  case refused
  then show ?thesis using assms(1) by simp
next
  case (not_connected c' undo)
  then show ?thesis using tracks_failed [OF assms(1)] by simp
next
  case (connected c' undo)
  obtain s where "ApplyBlock (nd_chain_state n) b = (Inr True, s)" "tracks s c'"
    using ApplyBlock_simulates [OF assms(1) connected(3) ValidateBlock_extends(1) [OF assms(1) connected(1)] assms(2)
        ValidateBlock_extends(2) [OF assms(1) connected(1)]]
    by blast
  then show ?thesis using connected(4) by simp
qed

text \<open>
  C15. A block the node accepts satisfies every rule: it is structurally valid and extends the light chain
  state's tip, each input of each later transaction spends a coin that existed before the block and
  carries its owner's signature, \<open>ConnectBlock\<close> made the new chain, and none of the block's
  transactions is left in the mempool.
\<close>

theorem accepted_block_rules:
  assumes "ValidateAndApplyBlock secp ops n b = (Inr True, n')"
  shows "Block_IsValid b
    \<and> prev_block_hash (header b) = (if cs_height (nd_chain_state n) = 0 then zero_hash else cs_tip_hash (nd_chain_state n))
    \<and> (\<forall>tx \<in> set (tl (transactions b)). \<forall>i < length (inputs tx). input_authorised secp tx (utxo_set (nd_chain n)) i)
    \<and> (\<exists>undo. ConnectBlock (nd_chain n) b [] = (True, nd_chain n', undo))
    \<and> (\<forall>tx \<in> set (transactions b). \<not> HasTransaction (nd_mempool n') (GetTxID tx))"
  using assms
proof (cases rule: ValidateAndApplyBlock_cases)
  case (connected c' undo)
  note v = ChainState_ValidateBlock_True [OF connected(1)]
  have "\<not> IsCoinbase tx" if "tx \<in> set (tl (transactions b))" for tx
    using Block_IsValidD(3) [OF v(1)] that by (simp add: drop_Suc)
  then have "\<forall>tx \<in> set (tl (transactions b)). \<forall>i < length (inputs tx). input_authorised secp tx (utxo_set (nd_chain n)) i"
    using connected(2) valid_in_blockD by (auto simp: list_all_iff)
  moreover obtain s where "n' = store_accepted ops (n\<lparr>nd_chain := c', nd_chain_state := s\<rparr>) b"
    using connected(4) by (auto split: prod.splits sum.splits)
  ultimately show ?thesis
    using v connected(3) removed_from_pool by (simp add: HasTransaction_def store_accepted_def Let_def)
qed auto

text \<open>
  C16. The node does not come up: starting a fresh node never succeeds on any network, neither on an empty
  store (it stores the genesis block and then fails to connect it) nor on one whose first block is the
  network's genesis block.
\<close>

theorem node_never_starts:
  assumes "leveldb_spec ops" and "nd_chain n = Chain_init"
    and "\<And>d. blocks = Some d \<Longrightarrow> own_store ops (ToConsensusNetworkType (nd_mode n)) d"
  shows "fst (Start ops blocks utxos network_started n) \<noteq> Inr True"
  using Start_not_True [OF assms] by blast

text \<open>
  The light chain state is not rebuilt on start: a restarted node refuses every block that names a
  predecessor, although its chain was replayed.
\<close>

theorem restart_refuses_successors:
  assumes "nd_chain_state n = ChainState_init" and "prev_block_hash (header b) \<noteq> zero_hash"
    and "Start ops blocks utxos network_started n = (r, n')"
  shows "ValidateAndApplyBlock secp ops n' b = (Inr False, n')"
proof -
  have "nd_chain_state n' = ChainState_init"
    using Start_chain_state [of ops blocks utxos network_started n] assms(1,3) by simp
  then show ?thesis
    using assms(2) by (simp add: ValidateAndApplyBlock_def ChainState_ValidateBlock_def Let_def ChainState_init_def)
qed

end
