(* ===== verification/NodeSamples.thy ===== *)
theory NodeSamples
  imports Node MempoolSamples
begin

section \<open>A fresh node and its first block\<close>

text \<open>
  A fresh main-network node accepts the first sample block: the hypotheses of the node's properties
  can hold together. The signature library is one that accepts everything.
\<close>

definition sample_secp :: Secp where
  "sample_secp = \<lparr>seckey_verify = (\<lambda>_. True), xonly_pubkey_parse = (\<lambda>_. True), schnorrsig_verify = (\<lambda>_ _ _. True),
     xonly_pub_of_seckey = Some, schnorrsig_sign32 = (\<lambda>m k. Some (m @ k))\<rparr>"

abbreviation (input) fresh_node :: "list_db Node" where
  "fresh_node \<equiv> Node_init Mode_MAINNET"

lemma sample_accepted: "\<exists>n'. ValidateAndApplyBlock sample_secp list_ops fresh_node sample_block = (Inr True, n')"
proof -
  obtain s where s: "ApplyBlock ChainState_init sample_block = (Inr True, s)"
    using ApplyBlock_simulates [OF tracks_init sample_connect]
    by (auto simp: extends_tip_def pays_known_assets_def sample_block_simps Chain_init_def sample_coinbase_def)
  then have "ChainState_ValidateBlock ChainState_init sample_block = Inr True"
    by (auto simp: ApplyBlock_def split: sum.splits if_splits)
  then show ?thesis
    using s sample_connect sample_block_valid
    by (simp add: ValidateAndApplyBlock_def Node_init_def Let_def sample_block_simps)
qed

theorem node_states_agree_witness:
  "\<exists>n'. ValidateAndApplyBlock sample_secp list_ops fresh_node sample_block = (Inr True, n')
     \<and> tracks (nd_chain_state n') (nd_chain n')"
proof -
  obtain n' where n': "ValidateAndApplyBlock sample_secp list_ops fresh_node sample_block = (Inr True, n')"
    using sample_accepted by blast
  have "tracks (nd_chain_state fresh_node) (nd_chain fresh_node)" "chain_height (nd_chain fresh_node) \<noteq> 0xFFFFFFFF"
    using tracks_init by (simp_all add: Node_init_def Chain_init_def)
  from node_states_agree [OF this n'] n' show ?thesis by blast
qed

theorem accepted_block_rules_witness:
  "\<exists>n'. ValidateAndApplyBlock sample_secp list_ops fresh_node sample_block = (Inr True, n')
     \<and> \<not> HasTransaction (nd_mempool n') (GetTxID sample_coinbase)"
proof -
  obtain n' where n': "ValidateAndApplyBlock sample_secp list_ops fresh_node sample_block = (Inr True, n')"
    using sample_accepted by blast
  from accepted_block_rules [OF n'] n' show ?thesis by (auto simp: sample_block_simps)
qed

theorem node_never_starts_witness:
  "fst (Start list_ops (Some empty_db) (Some empty_db) True fresh_node) \<noteq> Inr True"
proof (rule node_never_starts [OF list_ops_spec])
  show "nd_chain fresh_node = Chain_init" by (simp add: Node_init_def)
  show "own_store list_ops (ToConsensusNetworkType (nd_mode fresh_node)) d" if "Some empty_db = Some d" for d
    using that by (auto simp: own_store_def BlockStorage_GetHeight_def list_ops_def Abs_list_db_inverse)
qed

theorem restart_refuses_successors_witness:
  "let n' = snd (Start list_ops (Some empty_db) (Some empty_db) True fresh_node);
       b = sample_block\<lparr>header := (header sample_block)\<lparr>prev_block_hash := sample_id\<rparr>\<rparr>
   in ValidateAndApplyBlock sample_secp list_ops n' b = (Inr False, n')"
proof -
  have "sample_id \<noteq> zero_hash" by (simp add: sample_id_def replicate_numeral_unfold)
  then show ?thesis
    unfolding Let_def
    by (intro restart_refuses_successors [of fresh_node _ list_ops "Some empty_db" "Some empty_db" True])
      (simp_all add: Node_init_def prod_eq_iff)
qed

end
