(* ===== verification/Mpt.thy ===== *)
theory Mpt
  imports Sha256
begin

section \<open>The Merkle Patricia trie\<close>

text \<open>
  Models \<open>layer3-obolos/evm/mpt.h\<close> and \<open>mpt.cpp\<close>. A node is the code's struct of type, path, value and
  children, a null pointer is \<open>None\<close>. The nodes of a trie are owned by one parent, so updating them
  in place is returning new ones. The position \<open>idx\<close> in the key is the list of nibbles that are left.
  An access out of the bounds of \<open>children\<close> or through a null pointer is undefined behaviour: the result
  is \<open>None\<close>.
\<close>

datatype MptType = EMPTY | LEAF | EXTENSION | BRANCH

datatype MptNode = MptNode (node_type: MptType) (path: bytes) (node_value: bytes) (children: "MptNode option list")

abbreviation (input) fresh :: MptNode where
  "fresh \<equiv> MptNode EMPTY [] [] []"

fun ToNibbles :: "bytes \<Rightarrow> u8 list" where
  "ToNibbles [] = []"
| "ToNibbles (byte # key) = drop_bit 4 byte # (byte AND 0x0F) # ToNibbles key"

fun FromNibbles :: "u8 list \<Rightarrow> bytes" where
  "FromNibbles [] = []"
| "FromNibbles [n] = [push_bit 4 n]"
| "FromNibbles (n # m # ns) = (push_bit 4 n OR m) # FromNibbles ns"

fun CommonPrefixLength :: "u8 list \<Rightarrow> u8 list \<Rightarrow> nat" where
  "CommonPrefixLength (x # xs) (y # ys) = (if x = y then Suc (CommonPrefixLength xs ys) else 0)"
| "CommonPrefixLength _ _ = 0"

lemma CommonPrefixLength_le: "CommonPrefixLength xs ys \<le> length xs" "CommonPrefixLength xs ys \<le> length ys"
  by (induction xs ys rule: CommonPrefixLength.induct) auto

lemma CommonPrefixLength_take: "take (CommonPrefixLength xs ys) xs = take (CommonPrefixLength xs ys) ys"
  by (induction xs ys rule: CommonPrefixLength.induct) auto

lemma CommonPrefixLength_differ:
  "CommonPrefixLength xs ys < length xs \<Longrightarrow> CommonPrefixLength xs ys < length ys
    \<Longrightarrow> xs ! CommonPrefixLength xs ys \<noteq> ys ! CommonPrefixLength xs ys"
  by (induction xs ys rule: CommonPrefixLength.induct) auto

text \<open>\<open>children[i]\<close> as a read and as a write.\<close>

definition child_at :: "MptNode option list \<Rightarrow> nat \<Rightarrow> MptNode option option" where
  "child_at cs i = (if i < length cs then Some (cs ! i) else None)"

definition put_child :: "MptNode \<Rightarrow> nat \<Rightarrow> MptNode \<Rightarrow> MptNode option" where
  "put_child node i c =
     (if i < length (children node)
      then Some (MptNode (node_type node) (path node) (node_value node) ((children node)[i := Some c]))
      else None)"

lemma child_size: "child_at (children node) i = Some (Some c) \<Longrightarrow> size c < size node"
proof (cases node)
  case (MptNode t p v cs)
  assume "child_at (children node) i = Some (Some c)"
  then have "Some c \<in> set cs" by (auto simp: MptNode child_at_def in_set_conv_nth split: if_splits)
  then have "size_option size (Some c) \<le> size_list (size_option size) cs"
    by (rule size_list_estimation') simp
  then show ?thesis by (simp add: MptNode)
qed

subsection \<open>Insertion\<close>

text \<open>The extension node over a branch, when the common path is not empty.\<close>

definition under_extension :: "bytes \<Rightarrow> MptNode \<Rightarrow> MptNode" where
  "under_extension p branch = (if length p > 0 then MptNode EXTENSION p [] [Some branch] else branch)"

function Insert :: "MptNode \<Rightarrow> u8 list \<Rightarrow> bytes \<Rightarrow> MptNode option" where
  "Insert node rest v =
     (let node_path = path node; common = CommonPrefixLength rest node_path;
          branch_of = (\<lambda>b. MptNode BRANCH [] b (replicate 17 None)) in
      if rest = [] then
        (case node_type node of
           EMPTY \<Rightarrow> Some (MptNode LEAF [] v [])
         | BRANCH \<Rightarrow> Some (MptNode BRANCH node_path v (children node))
         | _ \<Rightarrow> Some (branch_of v))
      else if node_type node = EMPTY then Some (MptNode LEAF rest v [])
      else if node_type node = BRANCH then
        (case child_at (children node) (unat (hd rest)) of
           None \<Rightarrow> None
         | Some c \<Rightarrow> (case Insert (case c of None \<Rightarrow> fresh | Some n \<Rightarrow> n) (tl rest) v of
             None \<Rightarrow> None | Some n \<Rightarrow> put_child node (unat (hd rest)) n))
      else if common = length node_path then
        (if node_type node = LEAF then
           (if common = length rest then Some (MptNode LEAF node_path v (children node))
            else (case Insert fresh (drop (common + 1) rest) v of
                None \<Rightarrow> None
              | Some n \<Rightarrow> map_option (under_extension node_path)
                  (put_child (branch_of (node_value node)) (unat (rest ! common)) n)))
         else (case child_at (children node) 0 of
             Some (Some c) \<Rightarrow> (case Insert c (drop common rest) v of
               None \<Rightarrow> None | Some n \<Rightarrow> put_child node 0 n)
           | _ \<Rightarrow> None))
      else
        let old_child = MptNode (node_type node) (drop (common + 1) node_path) (node_value node) (children node);
            with_old = put_child (branch_of (if common < length rest then [] else v)) (unat (node_path ! common)) old_child;
            with_new = (case with_old of
                None \<Rightarrow> None
              | Some branch \<Rightarrow>
                  if common < length rest then
                    (case Insert fresh (drop (common + 1) rest) v of
                       None \<Rightarrow> None | Some n \<Rightarrow> put_child branch (unat (rest ! common)) n)
                  else Some branch) in
        map_option (under_extension (take common node_path)) with_new)"
  by pat_completeness auto
termination
proof (relation "measures [\<lambda>(node, rest, v). length rest, \<lambda>(node, rest, v). size node]", goal_cases)
  case (4 node rest v p c b x c')
  then show ?case using child_size by (auto simp: length_drop)
qed auto

declare Insert.simps [simp del]

subsection \<open>Lookup and removal\<close>

text \<open>\<open>None\<close> is undefined behaviour, \<open>Some None\<close> is \<open>std::nullopt\<close>.\<close>

function Lookup :: "MptNode option \<Rightarrow> u8 list \<Rightarrow> bytes option option" where
  "Lookup None rest = Some None"
| "Lookup (Some node) rest =
     (if node_type node = EMPTY then Some None
      else if rest = [] then
        Some (if (node_type node = LEAF \<or> node_type node = BRANCH) \<and> node_value node \<noteq> [] then Some (node_value node) else None)
      else if node_type node = LEAF then
        Some (if length (path node) = length rest \<and> path node = rest then Some (node_value node) else None)
      else if node_type node = EXTENSION then
        (if length (path node) \<le> length rest \<and> take (length (path node)) rest = path node then
           (case child_at (children node) 0 of
              None \<Rightarrow> None
            | Some c \<Rightarrow> Lookup c (drop (length (path node)) rest))
         else Some None)
      else
        (if unat (hd rest) < 16 then
           (case child_at (children node) (unat (hd rest)) of
              None \<Rightarrow> None
            | Some None \<Rightarrow> Some None
            | Some (Some c) \<Rightarrow> Lookup (Some c) (tl rest))
         else Some None))"
  by pat_completeness auto
termination
proof (relation "measure (\<lambda>(node, rest). case node of None \<Rightarrow> 0 | Some n \<Rightarrow> size n)", goal_cases)
  case (2 node rest c)
  then show ?case using child_size [of node 0] by (cases c; cases node) auto
next
  case (3 node rest c d)
  then show ?case using child_size [of node "unat (hd rest)" d] by auto
qed simp

declare Lookup.simps(2) [simp del]

text \<open>
  The children of a branch that are left after a removal, and what becomes of the branch. The code
  merges a single child into an extension node whatever the child is.
\<close>

definition live_children :: "MptNode option list \<Rightarrow> nat list" where
  "live_children cs = filter (\<lambda>i. case cs ! i of None \<Rightarrow> False | Some c \<Rightarrow> node_type c \<noteq> EMPTY) [0..<16]"

definition collapse :: "MptNode \<Rightarrow> MptNode option" where
  "collapse node =
     (if length (children node) < 16 then None
      else
        let live = live_children (children node) in
        if length live = 0 \<and> node_value node = [] then Some fresh
        else if length live = 1 \<and> node_value node = [] then
          (case children node ! last live of
             None \<Rightarrow> None
           | Some child \<Rightarrow> Some (MptNode EXTENSION (of_nat (last live) # path child) (node_value child) (children child)))
        else Some node)"

function Remove :: "MptNode option \<Rightarrow> u8 list \<Rightarrow> MptNode option option" where
  "Remove None rest = Some None"
| "Remove (Some node) rest =
     (if node_type node = EMPTY then Some (Some node)
      else if rest = [] then
        Some (Some (if node_type node = LEAF then fresh else MptNode (node_type node) (path node) [] (children node)))
      else if node_type node = LEAF then
        Some (Some (if length (path node) = length rest \<and> path node = rest then fresh else node))
      else if node_type node = BRANCH then
        map_option Some (Option.bind
          (if unat (hd rest) < 16 then
             (case child_at (children node) (unat (hd rest)) of
                None \<Rightarrow> None
              | Some None \<Rightarrow> Some node
              | Some (Some c) \<Rightarrow> (case Remove (Some c) (tl rest) of
                  Some (Some n) \<Rightarrow> put_child node (unat (hd rest)) n | _ \<Rightarrow> None))
           else Some node) collapse)
      else
        (if length (path node) \<le> length rest \<and> take (length (path node)) rest = path node then
           (case child_at (children node) 0 of
              None \<Rightarrow> None
            | Some c \<Rightarrow> (case Remove c (drop (length (path node)) rest) of
                None \<Rightarrow> None
              | Some None \<Rightarrow> Some (Some fresh)
              | Some (Some n) \<Rightarrow>
                  if node_type n = EMPTY then Some (Some fresh) else map_option Some (put_child node 0 n)))
         else Some (Some node)))"
  by pat_completeness auto
termination
proof (relation "measure (\<lambda>(node, rest). case node of None \<Rightarrow> 0 | Some n \<Rightarrow> size n)", goal_cases)
  case (2 node rest c d)
  then show ?case using child_size [of node "unat (hd rest)" d] by auto
next
  case (3 node rest c)
  then show ?case using child_size [of node 0] by (cases c; cases node) auto
qed simp

declare Remove.simps(2) [simp del]

subsection \<open>The trie\<close>

type_synonym trie = MptNode

definition Trie_empty :: trie where "Trie_empty = fresh"

definition Trie_Delete :: "trie \<Rightarrow> bytes \<Rightarrow> trie option" where
  "Trie_Delete t key = (case Remove (Some t) (ToNibbles key) of Some (Some n) \<Rightarrow> Some n | _ \<Rightarrow> None)"

definition Trie_Put :: "trie \<Rightarrow> bytes \<Rightarrow> bytes \<Rightarrow> trie option" where
  "Trie_Put t key v = (if v = [] then Trie_Delete t key else Insert t (ToNibbles key) v)"

definition Trie_Get :: "trie \<Rightarrow> bytes \<Rightarrow> bytes option option" where
  "Trie_Get t key = Lookup (Some t) (ToNibbles key)"

text \<open>
  The hash of a node and its encoding. The type is encoded as the index of its enumerator; the lengths
  of path and value are truncated to one and two bytes. A branch reads its first 16 children.
\<close>

fun type_index :: "MptType \<Rightarrow> u8" where
  "type_index EMPTY = 0" | "type_index LEAF = 1" | "type_index EXTENSION = 2" | "type_index BRANCH = 3"

abbreviation (input) zero_node_hash :: bytes where "zero_node_hash \<equiv> replicate 32 0"

definition encode_parts :: "MptNode \<Rightarrow> bytes option list \<Rightarrow> bytes" where
  "encode_parts node hashes =
     [type_index (node_type node)]
     @ (if node_type node = LEAF \<or> node_type node = EXTENSION then of_nat (length (path node)) # path node else [])
     @ (if node_value node \<noteq> [] then
          of_nat (length (node_value node) div 256) # of_nat (length (node_value node) mod 256) # node_value node
        else [0, 0])
     @ (if node_type node = BRANCH then
          concat (map (\<lambda>h. case h of None \<Rightarrow> zero_node_hash | Some h \<Rightarrow> h) (take 16 hashes))
        else if node_type node = EXTENSION then (case hashes of Some h # _ \<Rightarrow> h | _ \<Rightarrow> [])
        else [])"

primrec HashNode :: "MptNode \<Rightarrow> bytes" where
  "HashNode (MptNode t p v cs) =
     (if t = EMPTY then zero_node_hash
      else Hash256 (encode_parts (MptNode t p v cs) (map (map_option HashNode) cs)))"

definition GetRootHash :: "trie \<Rightarrow> bytes" where
  "GetRootHash t = HashNode t"

subsection \<open>Insertion is an update of a map\<close>

definition nibbles :: "u8 list \<Rightarrow> bool" where
  "nibbles ns \<longleftrightarrow> list_all (\<lambda>n. unat n < 16) ns"

lemma nibbles_simps [simp]:
  "nibbles []" "nibbles (n # ns) \<longleftrightarrow> unat n < 16 \<and> nibbles ns" "nibbles (ns @ ms) \<longleftrightarrow> nibbles ns \<and> nibbles ms"
  by (simp_all add: nibbles_def)

lemma nibbles_parts [intro]: "nibbles ns \<Longrightarrow> nibbles (take i ns)" "nibbles ns \<Longrightarrow> nibbles (drop i ns)"
  by (auto simp: nibbles_def list_all_iff dest: in_set_takeD in_set_dropD)

lemma nibbles_nth: "nibbles ns \<Longrightarrow> i < length ns \<Longrightarrow> unat (ns ! i) < 16"
  by (simp add: nibbles_def list_all_length)

text \<open>
  The shape of the nodes below which all keys have \<open>m\<close> nibbles, with values whose length the encoding
  holds in its two bytes.
\<close>

definition value_ok :: "bytes \<Rightarrow> bool" where
  "value_ok v \<longleftrightarrow> v \<noteq> [] \<and> length v < 65536"

lemma value_okD [dest]: "value_ok v \<Longrightarrow> v \<noteq> []"
  by (simp add: value_ok_def)

inductive node_ok :: "nat \<Rightarrow> MptNode \<Rightarrow> bool" where
  leaf: "length p = m \<Longrightarrow> nibbles p \<Longrightarrow> value_ok v \<Longrightarrow> node_ok m (MptNode LEAF p v [])"
| tip: "value_ok v \<Longrightarrow> node_ok 0 (MptNode BRANCH [] v (replicate 17 None))"
| branch: "length cs = 17 \<Longrightarrow> cs ! 16 = None \<Longrightarrow> (\<And>c. Some c \<in> set cs \<Longrightarrow> node_ok m c) \<Longrightarrow> node_ok (Suc m) (MptNode BRANCH [] [] cs)"
| ext: "nibbles p \<Longrightarrow> node_ok m b \<Longrightarrow> 0 < m \<Longrightarrow> node_type b = BRANCH
    \<Longrightarrow> node_ok (length p + m) (MptNode EXTENSION p [] [Some b])"

lemma Insert_fresh: "Insert fresh rest v = Some (MptNode LEAF rest v [])"
  by (simp add: Insert.simps Let_def)

lemma Lookup_leaf:
  "v \<noteq> [] \<Longrightarrow> length r = length p \<Longrightarrow> Lookup (Some (MptNode LEAF p v cs)) r = Some (if r = p then Some v else None)"
  by (auto simp: Lookup.simps(2))

lemmas Lookup_leafs = Lookup_leaf Lookup_leaf [OF value_okD]

lemma Lookup_ext:
  "r \<noteq> [] \<Longrightarrow> length p \<le> length r \<Longrightarrow> Lookup (Some (MptNode EXTENSION p [] [Some b])) r
    = (if take (length p) r = p then Lookup (Some b) (drop (length p) r) else Some None)"
  by (simp add: Lookup.simps(2) child_at_def)

lemma Lookup_branch:
  "length cs = 17 \<Longrightarrow> unat x < 16 \<Longrightarrow> Lookup (Some (MptNode BRANCH p v cs)) (x # r) = Lookup (cs ! unat x) r"
  by (auto simp: Lookup.simps(2) child_at_def split: option.splits)

lemma Lookup_under_extension:
  "r \<noteq> [] \<Longrightarrow> length p \<le> length r \<Longrightarrow> Lookup (Some (under_extension p b)) r
    = (if take (length p) r = p then Lookup (Some b) (drop (length p) r) else Some None)"
  by (simp add: under_extension_def Lookup_ext)

lemma node_ok_under_extension:
  "nibbles p \<Longrightarrow> node_ok m b \<Longrightarrow> 0 < m \<Longrightarrow> node_type b = BRANCH \<Longrightarrow> node_ok (length p + m) (under_extension p b)"
  by (auto simp: under_extension_def intro: node_ok.ext)

text \<open>The branch of two children that a node of path \<open>p\<close> is split into.\<close>

definition split_branch :: "u8 \<Rightarrow> MptNode \<Rightarrow> u8 \<Rightarrow> MptNode \<Rightarrow> MptNode" where
  "split_branch x c y d = MptNode BRANCH [] [] ((replicate 17 None)[unat x := Some c, unat y := Some d])"

lemma Insert_split:
  assumes "node_type node = LEAF \<or> node_type node = EXTENSION" and "rest \<noteq> []"
    and "nibbles (path node)" and "nibbles rest"
    and c: "c = CommonPrefixLength rest (path node)" and "c < length (path node)" and "c < length rest"
  shows "Insert node rest v = Some (under_extension (take c (path node))
    (split_branch (path node ! c) (MptNode (node_type node) (drop (c + 1) (path node)) (node_value node) (children node))
       (rest ! c) (MptNode LEAF (drop (c + 1) rest) v [])))"
proof -
  have "unat (path node ! c) < 16" "unat (rest ! c) < 16" using assms by (auto intro: nibbles_nth)
  then show ?thesis
    using assms by (subst Insert.simps) (auto simp: Let_def put_child_def split_branch_def Insert_fresh)
qed

lemma split_branch_ok:
  "unat x < 16 \<Longrightarrow> unat y < 16 \<Longrightarrow> node_ok m c \<Longrightarrow> node_ok m d \<Longrightarrow> node_ok (Suc m) (split_branch x c y d)"
  unfolding split_branch_def
  by (rule node_ok.branch) (auto dest!: set_update_subset_insert [THEN subsetD])

lemma Lookup_split_branch:
  "unat x < 16 \<Longrightarrow> unat y < 16 \<Longrightarrow> unat z < 16 \<Longrightarrow> x \<noteq> y \<Longrightarrow> Lookup (Some (split_branch x c y d)) (z # r)
    = (if z = y then Lookup (Some d) r else if z = x then Lookup (Some c) r else Some None)"
  by (auto simp: split_branch_def Lookup_branch nth_list_update word_unat_eq_iff)

lemma Lookup_after_split:
  assumes old: "\<And>q r. length r = length q + k \<Longrightarrow> Lookup (Some (mk q)) r
      = (if take (length q) r = q then K (drop (length q) r) else Some None)"
    and len: "length q' = length q" "length u = length s + k" "length w = length u"
    and nib: "unat x < 16" "unat y < 16" "unat z < 16" and "x \<noteq> y" and v: "v \<noteq> []"
  shows "Lookup (Some (under_extension q (split_branch x (mk s) y (MptNode LEAF u v [])))) (q' @ z # w)
    = (if q' @ z # w = q @ y # u then Some (Some v)
       else if take (length (q @ x # s)) (q' @ z # w) = q @ x # s then K (drop (length (q @ x # s)) (q' @ z # w))
       else Some None)"
  using assms by (simp add: Lookup_under_extension Lookup_split_branch Lookup_leafs)

lemma Insert_split_correct:
  assumes node: "node_type node = LEAF \<or> node_type node = EXTENSION" "nibbles (path node)"
    and len: "length rest = length (path node) + k" and nib: "nibbles rest" and v: "value_ok v"
    and c: "CommonPrefixLength rest (path node) < length (path node)"
    and ok: "\<And>q. nibbles q \<Longrightarrow> node_ok (length q + k) (MptNode (node_type node) q (node_value node) (children node))"
    and old: "\<And>q r. length r = length q + k \<Longrightarrow> Lookup (Some (MptNode (node_type node) q (node_value node) (children node))) r
      = (if take (length q) r = q then K (drop (length q) r) else Some None)"
  shows "\<exists>n. Insert node rest v = Some n \<and> node_ok (length rest) n \<and>
    (\<forall>r. length r = length rest \<longrightarrow> nibbles r \<longrightarrow>
      Lookup (Some n) r = (if r = rest then Some (Some v) else Lookup (Some node) r))"
proof -
  let ?c = "CommonPrefixLength rest (path node)" and ?mk = "\<lambda>q. MptNode (node_type node) q (node_value node) (children node)"
  have cr: "?c < length rest" using c len by simp
  define q x s y u where qs: "q = take ?c (path node)" "x = path node ! ?c" "s = drop (?c + 1) (path node)"
    "y = rest ! ?c" "u = drop (?c + 1) rest"
  have tq: "take ?c rest = q" using CommonPrefixLength_take by (simp add: qs)
  have p: "path node = q @ x # s"
    unfolding qs Suc_eq_plus1 [symmetric] by (rule id_take_nth_drop [OF c])
  have "rest = take ?c rest @ y # u"
    unfolding qs Suc_eq_plus1 [symmetric] by (rule id_take_nth_drop [OF cr])
  then have rest: "rest = q @ y # u" unfolding tq .
  have lq: "length q = ?c" using c by (simp add: qs)
  note d = p rest lq
  have xy: "x \<noteq> y" unfolding qs using CommonPrefixLength_differ [OF cr c] by simp
  have nibs: "unat x < 16" "unat y < 16" "nibbles q" "nibbles s" "nibbles u" using node nib d by auto
  have us: "length u = length s + k" using len d by simp
  let ?n = "under_extension q (split_branch x (?mk s) y (MptNode LEAF u v []))"
  have "rest \<noteq> []" using rest by auto
  then have "Insert node rest v = Some ?n"
    unfolding qs by (rule Insert_split [OF node(1) _ node(2) nib refl c cr])
  moreover have "node_ok (length s + k) (?mk s)" "node_ok (length s + k) (MptNode LEAF u v [])"
    using ok nibs us v by (auto intro: node_ok.leaf)
  then have "node_ok (Suc (length s + k)) (split_branch x (?mk s) y (MptNode LEAF u v []))"
    using split_branch_ok nibs(1,2) by blast
  then have "node_ok (length rest) ?n"
    using node_ok_under_extension [OF nibs(3)] us d(2) by (fastforce simp: split_branch_def)
  moreover have "Lookup (Some ?n) r = (if r = rest then Some (Some v) else Lookup (Some node) r)"
    if r: "length r = length rest" "nibbles r" for r
  proof -
    obtain q' z w where r': "r = q' @ z # w" "length q' = length q"
      using id_take_nth_drop [of "length q" r] r(1) d(2) that by fastforce
    then have zw: "unat z < 16" "length w = length u" using r d(2) by auto
    have "?mk (path node) = node" by (cases node) simp
    then have "Lookup (Some node) r = (if take (length (path node)) r = path node then K (drop (length (path node)) r) else Some None)"
      using old [of r "path node"] r(1) len by simp
    then show ?thesis
      using Lookup_after_split [where mk = ?mk and K = K and k = k and q = q and x = x and s = s and y = y and u = u,
          OF old r'(2) us zw(2) nibs(1,2) zw(1) xy value_okD [OF v]] d(1,2) r'(1) by simp
  qed
  ultimately show ?thesis by blast
qed

lemma Lookup_ext_general:
  assumes "node_type b = BRANCH" and "length r = length q + m" and "0 < m"
  shows "Lookup (Some (MptNode EXTENSION q [] [Some b])) r
    = (if take (length q) r = q then Lookup (Some b) (drop (length q) r) else Some None)"
  using assms by (intro Lookup_ext) auto

lemma Insert_correct:
  "node_ok m node \<Longrightarrow> length rest = m \<Longrightarrow> nibbles rest \<Longrightarrow> value_ok v \<Longrightarrow>
   \<exists>n. Insert node rest v = Some n \<and> node_ok m n \<and> (node_type node = BRANCH \<longrightarrow> node_type n = BRANCH) \<and>
    (\<forall>r. length r = m \<longrightarrow> nibbles r \<longrightarrow> Lookup (Some n) r = (if r = rest then Some (Some v) else Lookup (Some node) r))"
proof (induction m node arbitrary: rest rule: node_ok.induct)
  case (leaf p m v')
  let ?node = "MptNode LEAF p v' []"
  show ?case
  proof (cases "p = []")
    case True
    then have "rest = []" using leaf by simp
    then have "Insert ?node rest v = Some (MptNode BRANCH [] v (replicate 17 None))"
      by (simp add: Insert.simps Let_def)
    then show ?thesis using True leaf \<open>rest = []\<close> by (auto simp: Lookup.simps(2) intro: node_ok.tip)
  next
    case False
    show ?thesis
    proof (cases "CommonPrefixLength rest p < length p")
      case True
      have "\<exists>n. Insert ?node rest v = Some n \<and> node_ok (length rest) n \<and>
        (\<forall>r. length r = length rest \<longrightarrow> nibbles r \<longrightarrow> Lookup (Some n) r = (if r = rest then Some (Some v) else Lookup (Some ?node) r))"
        by (rule Insert_split_correct [where k = 0 and K = "\<lambda>_. Some (Some v')"])
          (use leaf True in \<open>auto simp: Lookup_leafs intro: node_ok.leaf\<close>)
      then show ?thesis using leaf by auto
    next
      case full: False
      then have "CommonPrefixLength rest p = length p" using CommonPrefixLength_le(2) [of rest p] by simp
      then have "rest = p" using CommonPrefixLength_take [of rest p] leaf by simp
      moreover have "CommonPrefixLength p p = length p" by (induction p) simp_all
      ultimately have "Insert ?node rest v = Some (MptNode LEAF p v [])"
        using \<open>p \<noteq> []\<close> by (simp add: Insert.simps Let_def)
      then show ?thesis using leaf \<open>rest = p\<close> by (auto simp: Lookup_leafs intro: node_ok.leaf)
    qed
  qed
next
  case (tip v')
  then show ?case by (auto simp: Insert.simps Let_def Lookup.simps(2) intro: node_ok.tip)
next
  case (branch cs m)
  then obtain x xs where rest: "rest = x # xs" "unat x < 16" "length xs = m" "nibbles xs" by (cases rest) auto
  let ?c = "case cs ! unat x of None \<Rightarrow> fresh | Some c \<Rightarrow> c"
  obtain n where n: "Insert ?c xs v = Some n" "node_ok m n"
    "\<forall>r. length r = m \<longrightarrow> nibbles r \<longrightarrow> Lookup (Some n) r = (if r = xs then Some (Some v) else Lookup (cs ! unat x) r)"
  proof (cases "cs ! unat x")
    case None
    show ?thesis
    proof (rule that [of "MptNode LEAF xs v []"])
      show "Insert ?c xs v = Some (MptNode LEAF xs v [])" unfolding None by (simp add: Insert_fresh)
      show "node_ok m (MptNode LEAF xs v [])" using rest(3,4) branch.prems(3) by (intro node_ok.leaf)
    qed (use None rest(3) branch.prems(3) in \<open>simp add: Lookup_leafs\<close>)
  next
    case (Some c)
    have "unat x < length cs" using rest(2) branch.hyps(1) by simp
    then have "Some c \<in> set cs" using Some nth_mem by metis
    from branch.IH [OF this rest(3,4) branch.prems(3)] show ?thesis using that Some by auto
  qed
  let ?n = "MptNode BRANCH [] [] (cs[unat x := Some n])"
  have "Insert (MptNode BRANCH [] [] cs) rest v = Some ?n"
    using n(1) rest branch.hyps(1) by (subst Insert.simps) (simp add: Let_def child_at_def put_child_def)
  moreover have "node_ok (Suc m) ?n"
    by (rule node_ok.branch) (use branch n(2) rest(2) in \<open>auto dest!: set_update_subset_insert [THEN subsetD]\<close>)
  moreover have "Lookup (Some ?n) r = (if r = rest then Some (Some v) else Lookup (Some (MptNode BRANCH [] [] cs)) r)"
    if r: "length r = Suc m" "nibbles r" for r
  proof -
    obtain z w where "r = z # w" using r(1) by (auto simp: length_Suc_conv)
    then show ?thesis
      using r n(3) rest branch.hyps(1) by (auto simp: Lookup_branch nth_list_update word_unat_eq_iff)
  qed
  ultimately show ?case by (intro exI [of _ ?n]) auto
next
  case (ext p m b)
  let ?node = "MptNode EXTENSION p [] [Some b]"
  show ?case
  proof (cases "CommonPrefixLength rest p < length p")
    case True
    have "\<exists>n. Insert ?node rest v = Some n \<and> node_ok (length rest) n \<and>
        (\<forall>r. length r = length rest \<longrightarrow> nibbles r \<longrightarrow> Lookup (Some n) r = (if r = rest then Some (Some v) else Lookup (Some ?node) r))"
      by (rule Insert_split_correct [where k = m and K = "Lookup (Some b)"])
        (use ext True in \<open>auto intro: node_ok.ext simp: Lookup_ext_general\<close>)
    then show ?thesis using ext by auto
  next
    case False
    then have c: "CommonPrefixLength rest p = length p" using CommonPrefixLength_le(2) [of rest p] by simp
    then have pre: "take (length p) rest = p" using CommonPrefixLength_take [of rest p] by simp
    have d: "length (drop (length p) rest) = m" "nibbles (drop (length p) rest)" using ext by auto
    from ext.IH [OF d ext.prems(3)] obtain n where n: "Insert b (drop (length p) rest) v = Some n" "node_ok m n" "node_type n = BRANCH"
      "\<forall>r. length r = m \<longrightarrow> nibbles r \<longrightarrow> Lookup (Some n) r = (if r = drop (length p) rest then Some (Some v) else Lookup (Some b) r)"
      using ext.hyps by auto
    have "rest \<noteq> []" using ext by auto
    then have "Insert ?node rest v = Some (MptNode EXTENSION p [] [Some n])"
      using n(1) c by (subst Insert.simps) (simp add: Let_def child_at_def put_child_def)
    moreover have "Lookup (Some (MptNode EXTENSION p [] [Some n])) r = (if r = rest then Some (Some v) else Lookup (Some ?node) r)"
      if r: "length r = length p + m" "nibbles r" for r
    proof -
      have "r = rest \<longleftrightarrow> take (length p) r = p \<and> drop (length p) r = drop (length p) rest"
        using pre append_take_drop_id [of "length p" r] append_take_drop_id [of "length p" rest] by metis
      then show ?thesis
        using r n(4) [rule_format, of "drop (length p) r"] nibbles_parts(2) [OF r(2), of "length p"] ext.hyps
        by (auto simp: Lookup_ext_general [OF n(3)] Lookup_ext_general [OF ext.hyps(4)] Lookup_ext)
    qed
    ultimately show ?thesis using n(2,3) ext.hyps by (auto intro: node_ok.ext)
  qed
qed

subsection \<open>The trie of keys of one length\<close>

lemma length_ToNibbles [simp]: "length (ToNibbles key) = 2 * length key"
  by (induction key rule: ToNibbles.induct) auto

lemma nibble_bytes: "unat (drop_bit 4 (b :: u8)) < 16" "unat (b AND 0x0F) < 16"
proof -
  have b: "unat b < 256" using unsigned_less [of b, where 'a = nat] by simp
  then show "unat (drop_bit 4 b) < 16" by (simp only: unat_drop_bit) simp
  have "b AND 0x0F = take_bit 4 b" by (simp add: take_bit_eq_mask mask_eq_exp_minus_1)
  then show "unat (b AND 0x0F) < 16" by (simp only: unsigned_take_bit_eq) (simp add: take_bit_eq_mod)
qed

lemma nibbles_ToNibbles [simp]: "nibbles (ToNibbles key)"
  by (induction key rule: ToNibbles.induct) (simp_all add: nibble_bytes del: drop_bit_eq_div)

lemma FromNibbles_ToNibbles [simp]: "FromNibbles (ToNibbles key) = key"
proof (induction key rule: ToNibbles.induct)
  case (2 byte key)
  have "push_bit 4 (drop_bit 4 byte) OR (byte AND 0x0F) = byte"
  proof -
    have "(0x0F :: u8) = mask 4" by (simp add: mask_eq_exp_minus_1)
    then show ?thesis by (intro bit_eqI) (auto simp only: bit_simps, simp_all)
  qed
  then show ?case using 2 by (simp del: drop_bit_eq_div)
qed simp

lemma ToNibbles_Nil [simp]: "ToNibbles k = [] \<longleftrightarrow> k = []"
  by (cases k) simp_all

lemma ToNibbles_inject [simp]: "ToNibbles k = ToNibbles k' \<longleftrightarrow> k = k'"
  by (metis FromNibbles_ToNibbles)

definition trie_ok :: "nat \<Rightarrow> trie \<Rightarrow> bool" where
  "trie_ok n t \<longleftrightarrow> t = Trie_empty \<or> node_ok (2 * n) t"

lemma Trie_Get_empty [simp]: "Trie_Get Trie_empty k = Some None"
  by (simp add: Trie_Get_def Trie_empty_def Lookup.simps(2))

lemma Trie_Put_correct:
  assumes "trie_ok n t" and "length k = n" and v: "value_ok v"
  shows "\<exists>t'. Trie_Put t k v = Some t' \<and> trie_ok n t'
    \<and> (\<forall>k'. length k' = n \<longrightarrow> Trie_Get t' k' = (if k' = k then Some (Some v) else Trie_Get t k'))"
proof (cases "t = Trie_empty")
  case True
  have "node_ok (2 * n) (MptNode LEAF (ToNibbles k) v [])" using assms by (intro node_ok.leaf) auto
  then show ?thesis
    using True assms(2) value_okD [OF v]
    by (auto simp: Trie_Put_def Trie_empty_def Insert_fresh trie_ok_def Trie_Get_def Lookup_leaf Lookup.simps(2)
        intro!: exI [of _ "MptNode LEAF (ToNibbles k) v []"])
next
  case False
  then have "node_ok (2 * n) t" using assms(1) by (simp add: trie_ok_def)
  from Insert_correct [OF this _ nibbles_ToNibbles v, of k] assms(2) obtain t' where
    "Insert t (ToNibbles k) v = Some t'" "node_ok (2 * n) t'"
    "\<forall>r. length r = 2 * n \<longrightarrow> nibbles r \<longrightarrow> Lookup (Some t') r = (if r = ToNibbles k then Some (Some v) else Lookup (Some t) r)"
    by auto
  then show ?thesis using value_okD [OF v] by (auto simp: Trie_Put_def Trie_Get_def trie_ok_def)
qed

fun puts :: "trie option \<Rightarrow> (bytes \<times> bytes) list \<Rightarrow> trie option" where
  "puts t [] = t"
| "puts t ((k, v) # kvs) = puts (Option.bind t (\<lambda>t. Trie_Put t k v)) kvs"

definition entries_ok :: "nat \<Rightarrow> (bytes \<times> bytes) list \<Rightarrow> bool" where
  "entries_ok n kvs \<longleftrightarrow> list_all (\<lambda>(k, v). length k = n \<and> value_ok v) kvs"

lemma puts_correct:
  "trie_ok n t \<Longrightarrow> entries_ok n kvs \<Longrightarrow> \<exists>t'. puts (Some t) kvs = Some t' \<and> trie_ok n t'
    \<and> (\<forall>k. length k = n \<longrightarrow> Trie_Get t' k = (case map_of (rev kvs) k of None \<Rightarrow> Trie_Get t k | Some v \<Rightarrow> Some (Some v)))"
proof (induction kvs arbitrary: t)
  case (Cons kv kvs)
  obtain k v where kv: "kv = (k, v)" by force
  then have "length k = n" "value_ok v" and rest: "entries_ok n kvs" using Cons.prems(2) by (simp_all add: entries_ok_def)
  from Trie_Put_correct [OF Cons.prems(1) this(1,2)] obtain t1 where t1: "Trie_Put t k v = Some t1" "trie_ok n t1"
    "\<And>k'. length k' = n \<Longrightarrow> Trie_Get t1 k' = (if k' = k then Some (Some v) else Trie_Get t k')" by blast
  from Cons.IH [OF t1(2) rest] show ?case
    using t1(1,3) by (auto simp: kv map_add_def split: option.splits)
qed auto

subsection \<open>Removal\<close>

lemma filter_eq_upt: "a < n \<Longrightarrow> filter (\<lambda>i. i = a) [0..<n] = [a]"
  by (induction n) (auto simp: less_Suc_eq)

lemma split_branch_live:
  assumes "unat x < 16" "unat y < 16" "x \<noteq> y" "node_type c \<noteq> EMPTY"
  shows "live_children (children (split_branch x c y fresh)) = [unat x]"
proof -
  have "live_children (children (split_branch x c y fresh)) = filter (\<lambda>i. i = unat x) [0..<16]"
    unfolding live_children_def
    by (rule filter_cong) (use assms in \<open>auto simp: split_branch_def nth_list_update word_unat_eq_iff\<close>)
  then show ?thesis using filter_eq_upt [OF assms(1)] by simp
qed

text \<open>What is left of two leaves when one is removed: an extension node without a child.\<close>

lemma Remove_sibling:
  assumes "unat x < 16" "unat y < 16" "x \<noteq> y"
  shows "Remove (Some (split_branch x (MptNode LEAF s v []) y (MptNode LEAF u w []))) (y # u)
    = Some (Some (MptNode EXTENSION (x # s) v []))"
proof -
  let ?b = "split_branch x (MptNode LEAF s v []) y (MptNode LEAF u w [])"
  let ?r = "split_branch x (MptNode LEAF s v []) y fresh"
  have "Remove (Some (MptNode LEAF u w [])) u = Some (Some fresh)" by (simp add: Remove.simps(2))
  moreover have "child_at (children ?b) (unat y) = Some (Some (MptNode LEAF u w []))"
    "put_child ?b (unat y) fresh = Some ?r"
    using assms by (simp_all add: split_branch_def child_at_def put_child_def)
  moreover have "children ?r ! unat x = Some (MptNode LEAF s v [])"
    using assms by (simp add: split_branch_def nth_list_update word_unat_eq_iff)
  then have "collapse ?r = Some (MptNode EXTENSION (x # s) v [])"
    using split_branch_live [OF assms, of "MptNode LEAF s v []"]
    by (simp add: collapse_def Let_def) (simp add: split_branch_def)
  ultimately show ?thesis
    using assms(2) by (simp add: Remove.simps(2)) (simp add: split_branch_def)
qed

lemma removed_sibling_lost:
  assumes k: "length k = length k'" "k \<noteq> k'" and v: "v \<noteq> []" "v' \<noteq> []"
  shows "\<exists>t t'. puts (Some Trie_empty) [(k, v), (k', v')] = Some t \<and> Trie_Get t k = Some (Some v)
    \<and> Trie_Delete t k' = Some t' \<and> Trie_Get t' k = None"
proof -
  let ?p = "ToNibbles k" and ?r = "ToNibbles k'"
  let ?c = "CommonPrefixLength ?r ?p"
  have first: "puts (Some Trie_empty) [(k, v), (k', v')] = Insert (MptNode LEAF ?p v []) ?r v'"
    using v by (simp add: Trie_Put_def Trie_empty_def Insert_fresh)
  have "?c \<noteq> length ?p"
    using CommonPrefixLength_take [of ?r ?p] k by auto
  then have c: "?c < length ?p" "?c < length ?r"
    using CommonPrefixLength_le [of ?r ?p] k(1) by auto
  define q x s y u where qs: "q = take ?c ?p" "x = ?p ! ?c" "s = drop (?c + 1) ?p" "y = ?r ! ?c" "u = drop (?c + 1) ?r"
  have p: "?p = q @ x # s"
    unfolding qs Suc_eq_plus1 [symmetric] by (rule id_take_nth_drop [OF c(1)])
  have tq: "take ?c ?r = q" using CommonPrefixLength_take by (simp add: qs)
  have "?r = take ?c ?r @ y # u"
    unfolding qs Suc_eq_plus1 [symmetric] by (rule id_take_nth_drop [OF c(2)])
  then have r: "?r = q @ y # u" unfolding tq .
  have xy: "x \<noteq> y" unfolding qs using CommonPrefixLength_differ [OF c(2,1)] by simp
  have x: "unat x < 16" and y: "unat y < 16" using nibbles_ToNibbles [of k] nibbles_ToNibbles [of k'] p r by auto
  let ?b = "split_branch x (MptNode LEAF s v []) y (MptNode LEAF u v' [])" and ?e = "MptNode EXTENSION (x # s) v []"
  let ?t = "under_extension q ?b"
  have "Insert (MptNode LEAF ?p v []) ?r v' = Some ?t"
    using Insert_split [of "MptNode LEAF ?p v []" ?r ?c v'] c by (force simp: qs)
  moreover have "length s = length u" using p r k(1) by (metis add_left_cancel length_Cons length_ToNibbles length_append nat.inject)
  then have "Lookup (Some ?t) ?p = Some (Some v)"
    using x y xy v by (simp add: p Lookup_under_extension Lookup_split_branch Lookup_leafs)
  moreover have "\<exists>t'. Remove (Some ?t) ?r = Some (Some t') \<and> Lookup (Some t') ?p = None"
  proof (cases "q = []")
    case True
    then show ?thesis using Remove_sibling [OF x y xy, of s v u v'] p r
      by (auto simp: under_extension_def Lookup.simps(2) child_at_def)
  next
    case False
    then have "Remove (Some ?t) ?r = Some (Some (MptNode EXTENSION q [] [Some ?e]))"
      using Remove_sibling [OF x y xy, of s v u v']
      by (subst Remove.simps) (simp add: r under_extension_def child_at_def put_child_def)
    then show ?thesis using False by (auto simp: p Lookup.simps(2) child_at_def)
  qed
  ultimately show ?thesis unfolding first by (auto simp: Trie_Get_def Trie_Delete_def)
qed

subsection \<open>The root hash commits to the contents\<close>

text \<open>
  The strings that are hashed for a trie. Two tries with one root hash are equal unless two different
  strings among them have the same hash or one of them hashes to the hash of the empty node.
\<close>

primrec hashed_strings :: "MptNode \<Rightarrow> bytes list" where
  "hashed_strings (MptNode t p v cs) =
     (if t = EMPTY then []
      else encode_parts (MptNode t p v cs) (map (map_option HashNode) cs)
        # concat (map (\<lambda>c. case c of None \<Rightarrow> [] | Some l \<Rightarrow> l) (map (map_option hashed_strings) cs)))"

definition sha_broken :: "bytes set \<Rightarrow> bool" where
  "sha_broken S \<longleftrightarrow> (\<exists>x \<in> S. \<exists>y \<in> S. x \<noteq> y \<and> Hash256 x = Hash256 y) \<or> (\<exists>x \<in> S. Hash256 x = zero_node_hash)"

lemma sha_broken_mono: "sha_broken S \<Longrightarrow> S \<subseteq> T \<Longrightarrow> sha_broken T"
  unfolding sha_broken_def by blast

lemma hashed_strings_child:
  "Some c \<in> set cs \<Longrightarrow> t \<noteq> EMPTY \<Longrightarrow> set (hashed_strings c) \<subseteq> set (hashed_strings (MptNode t p v cs))"
  by force

lemma node_ok_type: "node_ok m n \<Longrightarrow> node_type n \<noteq> EMPTY"
  by (induction rule: node_ok.induct) simp_all

lemma HashNode_hashed:
  "node_type n \<noteq> EMPTY \<Longrightarrow> HashNode n = Hash256 (hd (hashed_strings n)) \<and> hd (hashed_strings n) \<in> set (hashed_strings n)
     \<and> hd (hashed_strings n) = encode_parts n (map (map_option HashNode) (children n))"
  by (cases n) simp

lemma length_HashNode [simp]: "length (HashNode n) = 32"
  by (cases n) simp

lemma same_hash_encoding:
  assumes "HashNode a = HashNode b" and "node_type a \<noteq> EMPTY" "node_type b \<noteq> EMPTY"
    and "\<not> sha_broken (set (hashed_strings a) \<union> set (hashed_strings b))"
  shows "encode_parts a (map (map_option HashNode) (children a)) = encode_parts b (map (map_option HashNode) (children b))"
  using assms HashNode_hashed [of a] HashNode_hashed [of b] unfolding sha_broken_def by (metis Un_iff)

lemma same_hash_child:
  assumes "(case map_option HashNode c of None \<Rightarrow> zero_node_hash | Some h \<Rightarrow> h) = (case map_option HashNode d of None \<Rightarrow> zero_node_hash | Some h \<Rightarrow> h)"
    and "\<And>n. c = Some n \<Longrightarrow> node_type n \<noteq> EMPTY \<and> \<not> sha_broken (set (hashed_strings n))"
    and "\<And>n. d = Some n \<Longrightarrow> node_type n \<noteq> EMPTY \<and> \<not> sha_broken (set (hashed_strings n))"
  shows "(c = None \<and> d = None) \<or> (\<exists>x y. c = Some x \<and> d = Some y \<and> HashNode x = HashNode y)"
proof -
  have nz: "HashNode n \<noteq> zero_node_hash" if "node_type n \<noteq> EMPTY \<and> \<not> sha_broken (set (hashed_strings n))" for n
    using that HashNode_hashed [of n] by (auto simp: sha_broken_def)
  show ?thesis using assms nz by (cases c; cases d) auto
qed

lemma concat_blocks_inject:
  "length xs = length ys \<Longrightarrow> (\<And>x. x \<in> set xs \<Longrightarrow> length x = n) \<Longrightarrow> (\<And>y. y \<in> set ys \<Longrightarrow> length y = n)
    \<Longrightarrow> concat xs = concat ys \<Longrightarrow> xs = ys"
proof (induction xs ys rule: list_induct2)
  case (Cons x xs y ys)
  then have "length x = length y" by simp
  then show ?case using Cons by auto
qed simp

lemma byte_inject: "x < 256 \<Longrightarrow> y < 256 \<Longrightarrow> (of_nat x :: u8) = of_nat y \<longleftrightarrow> x = y"
  by (simp add: word_of_nat_eq_iff take_bit_eq_mod)

lemma value_encoding_inject:
  assumes "length v < 65536" "length w < 65536"
    and "(of_nat (length v div 256) :: u8) # of_nat (length v mod 256) # v @ r
       = of_nat (length w div 256) # of_nat (length w mod 256) # w @ s"
  shows "v = w \<and> r = s"
proof -
  have "length v div 256 = length w div 256" "length v mod 256 = length w mod 256"
    using assms byte_inject [of "length v div 256" "length w div 256"] byte_inject [of "length v mod 256" "length w mod 256"]
    by auto
  then have "length v = length w" by (metis div_mult_mod_eq)
  then show ?thesis using assms(3) by simp
qed

definition child_hash :: "MptNode option \<Rightarrow> bytes" where
  "child_hash c = (case map_option HashNode c of None \<Rightarrow> zero_node_hash | Some h \<Rightarrow> h)"

lemma encode_branch:
  "length cs = 17 \<Longrightarrow> encode_parts (MptNode BRANCH [] [] cs) (map (map_option HashNode) cs)
     = [3, 0, 0] @ concat (map child_hash (take 16 cs))"
  by (simp add: encode_parts_def child_hash_def take_map comp_def cong: map_cong)

lemma encode_leaf: "v \<noteq> [] \<Longrightarrow> encode_parts (MptNode LEAF p v []) hs
     = 1 # of_nat (length p) # p @ of_nat (length v div 256) # of_nat (length v mod 256) # v @ []"
  by (simp add: encode_parts_def)

lemma encode_tip: "v \<noteq> [] \<Longrightarrow> encode_parts (MptNode BRANCH p v cs) hs
     = 3 # of_nat (length v div 256) # of_nat (length v mod 256) # v
         @ concat (map (\<lambda>h. case h of None \<Rightarrow> zero_node_hash | Some h \<Rightarrow> h) (take 16 hs))"
  by (simp add: encode_parts_def)

lemma encode_ext: "encode_parts (MptNode EXTENSION p [] [Some b]) [Some (HashNode b)]
     = 2 # of_nat (length p) # p @ [0, 0] @ HashNode b"
  by (simp add: encode_parts_def)

lemma root_binding:
  "node_ok m a \<Longrightarrow> node_ok m b \<Longrightarrow> m < 256 \<Longrightarrow> HashNode a = HashNode b
    \<Longrightarrow> \<not> sha_broken (set (hashed_strings a) \<union> set (hashed_strings b)) \<Longrightarrow> a = b"
proof (induction m a arbitrary: b rule: node_ok.induct)
  case (leaf p m v)
  have enc: "encode_parts (MptNode LEAF p v []) [] = encode_parts b (map (map_option HashNode) (children b))"
    using same_hash_encoding [OF leaf.prems(3) _ node_ok_type [OF leaf.prems(1)] leaf.prems(4)] by simp
  show ?case using leaf.prems(1)
  proof cases
    case (leaf q w)
    then show ?thesis
      using enc \<open>length p = m\<close> \<open>value_ok v\<close> value_encoding_inject [of v w "[]" "[]"]
      by (auto simp: encode_leaf value_ok_def)
  qed (use enc \<open>value_ok v\<close> in \<open>auto simp: encode_leaf encode_tip encode_parts_def value_ok_def\<close>)
next
  case (tip v)
  have enc: "encode_parts (MptNode BRANCH [] v (replicate 17 None)) (replicate 17 None)
      = encode_parts b (map (map_option HashNode) (children b))"
    using same_hash_encoding [OF tip.prems(3) _ node_ok_type [OF tip.prems(1)] tip.prems(4)] by simp
  show ?case using tip.prems(1)
  proof cases
    case (tip w)
    then show ?thesis
      using enc \<open>value_ok v\<close> by (auto simp: encode_tip value_ok_def dest!: value_encoding_inject [rotated 2])
  qed (use enc \<open>value_ok v\<close> in \<open>auto simp: encode_leaf encode_tip value_ok_def\<close>)
next
  case (branch cs m)
  have enc: "encode_parts (MptNode BRANCH [] [] cs) (map (map_option HashNode) cs)
      = encode_parts b (map (map_option HashNode) (children b))"
    using same_hash_encoding [OF branch.prems(3) _ node_ok_type [OF branch.prems(1)] branch.prems(4)] by simp
  show ?case using branch.prems(1)
  proof cases
    case (branch ds)
    note cs = \<open>length cs = 17\<close> \<open>cs ! 16 = None\<close>
    have sub: "set (hashed_strings c) \<subseteq> set (hashed_strings (MptNode BRANCH [] [] es))" if "Some c \<in> set es" for c es
      using hashed_strings_child [OF that, of BRANCH "[]" "[]"] by simp
    have unbroken: "\<not> sha_broken S"
      if "S \<subseteq> set (hashed_strings (MptNode BRANCH [] [] cs)) \<union> set (hashed_strings b)" for S
      using that branch.prems(4) sha_broken_mono by blast
    have child: "node_type c \<noteq> EMPTY \<and> \<not> sha_broken (set (hashed_strings c))"
      if "Some c \<in> set cs \<or> Some c \<in> set ds" for c
    proof
      show "node_type c \<noteq> EMPTY" using that branch.hyps(3) branch(4) by (intro node_ok_type [of m]) blast
      have "set (hashed_strings c) \<subseteq> set (hashed_strings (MptNode BRANCH [] [] cs)) \<union> set (hashed_strings b)"
        using that
      proof
        assume "Some c \<in> set cs"
        from sub [OF this] show ?thesis by (rule le_supI1)
      next
        assume "Some c \<in> set ds"
        from sub [OF this] show ?thesis unfolding branch(1) by (rule le_supI2)
      qed
      then show "\<not> sha_broken (set (hashed_strings c))" by (rule unbroken)
    qed
    have "map child_hash (take 16 cs) = map child_hash (take 16 ds)"
      using enc cs(1) branch(1,2) by (intro concat_blocks_inject [where n = 32])
        (auto simp: encode_branch child_hash_def split: option.splits)
    then have same: "child_hash (cs ! i) = child_hash (ds ! i)" if "i < 16" for i
      using that cs(1) branch(2) by (auto simp: list_eq_iff_nth_eq)
    have "cs ! i = ds ! i" if i: "i < 17" for i
    proof (cases "i = 16")
      case False
      then have eq: "child_hash (cs ! i) = child_hash (ds ! i)" using same i by simp
      have mem: "cs ! i \<in> set cs" "ds ! i \<in> set ds" using i cs branch(2) by simp_all
      have "(cs ! i = None \<and> ds ! i = None) \<or> (\<exists>x y. cs ! i = Some x \<and> ds ! i = Some y \<and> HashNode x = HashNode y)"
        by (rule same_hash_child [OF eq [unfolded child_hash_def]]; rule child; use mem in simp)
      then show ?thesis
      proof (elim disjE exE conjE)
        fix x y
        assume 2: "cs ! i = Some x" "ds ! i = Some y" "HashNode x = HashNode y"
        then have xy: "Some x \<in> set cs" "Some y \<in> set ds" using mem by simp_all
        have "\<not> sha_broken (set (hashed_strings x) \<union> set (hashed_strings y))"
          using Un_mono [OF sub [OF xy(1)] sub [OF xy(2)]] unfolding branch(1) [symmetric] by (rule unbroken)
        with branch.IH [OF xy(1) _ _ 2(3)] xy(2) branch(4) branch.prems(2) 2 show ?thesis by auto
      qed simp
    qed (use cs branch in simp)
    then show ?thesis using cs branch by (auto intro: nth_equalityI)
  qed (use enc \<open>length cs = 17\<close> in \<open>auto simp: encode_leaf encode_branch value_ok_def encode_ext\<close>)
next
  case (ext p m c)
  have enc: "2 # of_nat (length p) # p @ [0, 0] @ HashNode c = encode_parts b (map (map_option HashNode) (children b))"
    using same_hash_encoding [OF ext.prems(3) _ node_ok_type [OF ext.prems(1)] ext.prems(4)]
    by (simp add: encode_ext)
  show ?case using ext.prems(1)
  proof cases
    case (ext q m' d)
    then have len: "length p = length q" using enc ext.prems byte_inject [of "length p" "length q"]
      by (auto simp: encode_ext)
    then have same: "p = q" "HashNode c = HashNode d" "m = m'"
      using enc ext by (auto simp: encode_ext)
    have "set (hashed_strings c) \<union> set (hashed_strings d)
        \<subseteq> set (hashed_strings (MptNode EXTENSION p [] [Some c])) \<union> set (hashed_strings b)"
      unfolding ext(2) by (rule Un_mono; rule hashed_strings_child) simp_all
    then have "\<not> sha_broken (set (hashed_strings c) \<union> set (hashed_strings d))"
      using ext.prems(4) sha_broken_mono by blast
    with ext.IH [of d] same ext ext.prems(2) show ?thesis by simp
  qed (use enc in \<open>auto simp: encode_leaf encode_branch encode_tip value_ok_def\<close>)
qed

lemma trie_root_binding:
  assumes "n < 128" and "trie_ok n t" and "trie_ok n t'" and "GetRootHash t = GetRootHash t'"
  shows "t = t' \<or> sha_broken (set (hashed_strings t) \<union> set (hashed_strings t'))"
proof -
  have broken: "sha_broken (set (hashed_strings x))" if "HashNode x = zero_node_hash" "node_ok m x" for x m
    using that HashNode_hashed [OF node_ok_type [OF that(2)]] by (auto simp: sha_broken_def)
  have empty: "a = b \<or> sha_broken (set (hashed_strings b))"
    if "a = Trie_empty" "trie_ok n b" "GetRootHash a = GetRootHash b" for a b
    using that broken [of b "2 * n"] by (auto simp: trie_ok_def GetRootHash_def Trie_empty_def)
  consider "t = Trie_empty" | "t' = Trie_empty" | "node_ok (2 * n) t" "node_ok (2 * n) t'"
    using assms(2,3) by (auto simp: trie_ok_def)
  then show ?thesis
  proof cases
    case 1
    from empty [OF this assms(3,4)] show ?thesis using sha_broken_mono [OF _ Un_upper2] by blast
  next
    case 2
    from empty [OF this assms(2) assms(4) [symmetric]] show ?thesis using sha_broken_mono [OF _ Un_upper1] by blast
  next
    case 3
    then show ?thesis using assms(1,4) root_binding [OF 3] by (auto simp: GetRootHash_def)
  qed
qed

subsection \<open>Properties\<close>

text \<open>
  C18. With keys of one length the trie is a map: after any sequence of insertions of non-empty values
  (shorter than 64 kB) into the empty trie, no access goes astray, and looking a key up gives the value
  last inserted under it or nothing.
\<close>

theorem trie_is_a_map:
  assumes "entries_ok n kvs"
  shows "\<exists>t. puts (Some Trie_empty) kvs = Some t
    \<and> (\<forall>k. length k = n \<longrightarrow> Trie_Get t k = Some (map_of (rev kvs) k))"
proof -
  have "trie_ok n Trie_empty" by (simp add: trie_ok_def)
  from puts_correct [OF this assms] show ?thesis
    by (auto split: option.splits)
qed

theorem trie_is_a_map_witness:
  "\<exists>t. puts (Some Trie_empty) [([0x12, 0x34], [1]), ([0x12, 0x35], [2]), ([0x12, 0x34], [3])] = Some t
     \<and> Trie_Get t [0x12, 0x34] = Some (Some [3]) \<and> Trie_Get t [0x12, 0x36] = Some None"
  using trie_is_a_map [of 2 "[([0x12, 0x34], [1]), ([0x12, 0x35], [2]), ([0x12, 0x34], [3])]"]
  by (auto simp: entries_ok_def value_ok_def)

text \<open>
  Deleting one of two keys destroys the other: after the branch of the two leaves has collapsed into an
  extension node without children, looking the remaining key up reads past the end of its children.
\<close>

theorem trie_removal_loses_sibling:
  assumes "length k = length k'" and "k \<noteq> k'" and "v \<noteq> []" and "v' \<noteq> []"
  shows "\<exists>t t'. puts (Some Trie_empty) [(k, v), (k', v')] = Some t \<and> Trie_Get t k = Some (Some v)
    \<and> Trie_Delete t k' = Some t' \<and> Trie_Get t' k = None"
  by (rule removed_sibling_lost [OF assms])

theorem trie_removal_loses_sibling_witness:
  "\<exists>t t'. puts (Some Trie_empty) [([0xAB], [1]), ([0xAC], [2])] = Some t \<and> Trie_Get t [0xAB] = Some (Some [1])
    \<and> Trie_Delete t [0xAC] = Some t' \<and> Trie_Get t' [0xAB] = None"
  using trie_removal_loses_sibling [of "[0xAB]" "[0xAC]" "[1]" "[2]"] by simp

end
