(* ===== verification/Uint256.thy ===== *)
theory Uint256
  imports Prelude
begin

section \<open>256-bit arithmetic on byte arrays\<close>

text \<open>
  Models the arithmetic of \<open>layer3-obolos/evm/vm.cpp\<close> (\<open>VM::Add\<close> to \<open>VM::Shr\<close>) and the conversions of
  \<open>evm/state.h\<close>. A \<open>uint256_t\<close> is a list of 32 bytes, most significant first. A loop from index 31
  down to 0 with a carry is a recursion that returns the carry of the tail; loops that write
  by index are folds of list updates. \<open>be_val\<close> is the number an array stands for.
\<close>

type_synonym uint256 = bytes

abbreviation (input) zero256 :: uint256 where
  "zero256 \<equiv> replicate 32 0"

definition ToUint256 :: "u64 \<Rightarrow> uint256" where
  "ToUint256 v = replicate 24 0 @ rev (le64 v)"

definition ToUint64 :: "uint256 \<Rightarrow> u64" where
  "ToUint64 v = read_le64 (rev (drop 24 v))"

subsection \<open>The operations\<close>

fun add_bytes :: "bytes \<Rightarrow> bytes \<Rightarrow> bytes \<times> 16 word" where
  "add_bytes (a # as) (b # bs) =
     (let (r, carry) = add_bytes as bs; sum = ucast a + ucast b + carry in
      (ucast (sum AND 0xFF) # r, drop_bit 8 sum))"
| "add_bytes _ _ = ([], 0)"

definition U_Add :: "uint256 \<Rightarrow> uint256 \<Rightarrow> uint256" where
  "U_Add a b = fst (add_bytes a b)"

fun sub_bytes :: "bytes \<Rightarrow> bytes \<Rightarrow> bytes \<times> int" where
  "sub_bytes (a # as) (b # bs) =
     (let (r, borrow) = sub_bytes as bs; diff = uint a - uint b - borrow in
      if diff < 0 then (of_int (diff + 256) # r, 1) else (of_int diff # r, 0))"
| "sub_bytes _ _ = ([], 0)"

definition U_Sub :: "uint256 \<Rightarrow> uint256 \<Rightarrow> uint256" where
  "U_Sub a b = fst (sub_bytes a b)"

text \<open>
  \<open>mul_row\<close> is the inner loop of \<open>Mul\<close> over \<open>j\<close> (its argument is \<open>j + 1\<close>), \<open>mul_rows\<close> the outer one
  over \<open>i\<close>. The index of the result is the code's \<open>j + (31 - i)\<close>.
\<close>

fun mul_row :: "uint256 \<Rightarrow> u8 \<Rightarrow> nat \<Rightarrow> nat \<Rightarrow> 16 word \<Rightarrow> uint256 \<Rightarrow> uint256" where
  "mul_row a bi i 0 carry result = result"
| "mul_row a bi i (Suc j) carry result =
     (let idx = j + (31 - i) in
      if idx \<ge> 32 then mul_row a bi i j carry result
      else
        let product = ucast (a ! j) * ucast bi + ucast (result ! idx) + ucast carry :: u32 in
        mul_row a bi i j (ucast (drop_bit 8 product)) (result[idx := ucast (product AND 0xFF)]))"

fun mul_rows :: "uint256 \<Rightarrow> uint256 \<Rightarrow> nat \<Rightarrow> uint256 \<Rightarrow> uint256" where
  "mul_rows a b 0 result = result"
| "mul_rows a b (Suc i) result =
     mul_rows a b i (if b ! i = 0 then result else mul_row a (b ! i) i 32 0 result)"

definition U_Mul :: "uint256 \<Rightarrow> uint256 \<Rightarrow> uint256" where
  "U_Mul a b = mul_rows a b 32 zero256"

definition U_IsZero :: "uint256 \<Rightarrow> bool" where
  "U_IsZero a = list_all (\<lambda>byte. byte = 0) a"

fun U_Lt :: "uint256 \<Rightarrow> uint256 \<Rightarrow> bool" where
  "U_Lt (a # as) (b # bs) = (if a < b then True else if a > b then False else U_Lt as bs)"
| "U_Lt _ _ = False"

definition U_Gt :: "uint256 \<Rightarrow> uint256 \<Rightarrow> bool" where
  "U_Gt a b = U_Lt b a"

definition U_Eq :: "uint256 \<Rightarrow> uint256 \<Rightarrow> bool" where
  "U_Eq a b = (a = b)"

text \<open>The remainder shifted left by one bit; the carry out of the array is dropped by the caller.\<close>

fun shl1_bytes :: "bytes \<Rightarrow> bytes \<times> 16 word" where
  "shl1_bytes [] = ([], 0)"
| "shl1_bytes (r # rs) =
     (let (t, carry) = shl1_bytes rs; shifted = push_bit 1 (ucast r) OR carry in
      (ucast (shifted AND 0xFF) # t, drop_bit 8 shifted))"

definition dividend_bit :: "uint256 \<Rightarrow> nat \<Rightarrow> bool" where
  "dividend_bit a i = bit (a ! (i div 8)) (7 - i mod 8)"

definition shift_in :: "uint256 \<Rightarrow> nat \<Rightarrow> uint256 \<Rightarrow> uint256" where
  "shift_in a i remainder =
     (let remainder = fst (shl1_bytes remainder) in
      if dividend_bit a i then remainder[31 := remainder ! 31 OR 1] else remainder)"

definition div_step :: "uint256 \<Rightarrow> uint256 \<Rightarrow> uint256 \<times> uint256 \<Rightarrow> nat \<Rightarrow> uint256 \<times> uint256" where
  "div_step a b qr i =
     (let (quotient, remainder) = qr; remainder = shift_in a i remainder; ge = (\<not> U_Lt remainder b) in
      if ge then (quotient[i div 8 := quotient ! (i div 8) OR push_bit (7 - i mod 8) 1], U_Sub remainder b)
      else (quotient, remainder))"

definition U_Div :: "uint256 \<Rightarrow> uint256 \<Rightarrow> uint256" where
  "U_Div a b = (if U_IsZero b then zero256 else fst (foldl (div_step a b) (zero256, zero256) [0..<256]))"

definition mod_step :: "uint256 \<Rightarrow> uint256 \<Rightarrow> uint256 \<Rightarrow> nat \<Rightarrow> uint256" where
  "mod_step a b remainder i =
     (let remainder = shift_in a i remainder; ge = (\<not> U_Lt remainder b) in
      if ge then U_Sub remainder b else remainder)"

definition U_Mod :: "uint256 \<Rightarrow> uint256 \<Rightarrow> uint256" where
  "U_Mod a b = (if U_IsZero b then zero256 else foldl (mod_step a b) zero256 [0..<256])"

fun exp_loop :: "uint256 \<Rightarrow> nat list \<Rightarrow> uint256 \<Rightarrow> uint256 \<Rightarrow> uint256" where
  "exp_loop e [] result base = result"
| "exp_loop e (i # is) result base =
     (let result = (if bit (e ! (31 - i div 8)) (i mod 8) then U_Mul result base else result);
          base = U_Mul base base; one = ToUint256 1 in
      if U_IsZero base then result
      else if U_Eq base one \<and> \<not> U_Eq result one then result
      else exp_loop e is result base)"

definition U_Exp :: "uint256 \<Rightarrow> uint256 \<Rightarrow> uint256" where
  "U_Exp base exponent =
     (if U_IsZero exponent then ToUint256 1
      else if U_IsZero base then zero256
      else exp_loop exponent [0..<256] (ToUint256 1) base)"

definition U_And :: "uint256 \<Rightarrow> uint256 \<Rightarrow> uint256" where "U_And a b = map2 (AND) a b"
definition U_Or :: "uint256 \<Rightarrow> uint256 \<Rightarrow> uint256" where "U_Or a b = map2 (OR) a b"
definition U_Xor :: "uint256 \<Rightarrow> uint256 \<Rightarrow> uint256" where "U_Xor a b = map2 (XOR) a b"
definition U_Not :: "uint256 \<Rightarrow> uint256" where "U_Not a = map NOT a"

text \<open>The shifts: a loop that moves whole bytes, one that clears, and one that moves bits with a carry.\<close>

fun shl_bits :: "nat \<Rightarrow> bytes \<Rightarrow> bytes \<times> u8" where
  "shl_bits k [] = ([], 0)"
| "shl_bits k (r # rs) =
     (let (t, carry) = shl_bits k rs in ((push_bit k r OR carry) # t, drop_bit (8 - k) r))"

definition U_Shl :: "uint256 \<Rightarrow> uint256 \<Rightarrow> uint256" where
  "U_Shl shift v =
     (let shift_amount = unat (ToUint64 shift) in
      if shift_amount \<ge> 256 then zero256
      else
        let byte_shift = shift_amount div 8; bit_shift = shift_amount mod 8;
            result = (if byte_shift > 0 then
                foldl (\<lambda>r j. r[j := 0]) (foldl (\<lambda>r j. r[j := r ! (j + byte_shift)]) v [0..<32 - byte_shift])
                  [32 - byte_shift..<32]
              else v) in
        if bit_shift > 0 then fst (shl_bits bit_shift result) else result)"

fun shr_bits :: "nat \<Rightarrow> u8 \<Rightarrow> bytes \<Rightarrow> bytes" where
  "shr_bits k carry [] = []"
| "shr_bits k carry (r # rs) = (drop_bit k r OR carry) # shr_bits k (push_bit (8 - k) r) rs"

definition U_Shr :: "uint256 \<Rightarrow> uint256 \<Rightarrow> uint256" where
  "U_Shr shift v =
     (let shift_amount = unat (ToUint64 shift) in
      if shift_amount \<ge> 256 then zero256
      else
        let byte_shift = shift_amount div 8; bit_shift = shift_amount mod 8;
            result = (if byte_shift > 0 then
                foldl (\<lambda>r j. r[j := 0]) (foldl (\<lambda>r j. r[j := r ! (j - byte_shift)]) v (rev [byte_shift..<32]))
                  [0..<byte_shift]
              else v) in
        if bit_shift > 0 then shr_bits bit_shift 0 result else result)"

subsection \<open>The number of an array\<close>

fun be_val :: "bytes \<Rightarrow> nat" where
  "be_val [] = 0"
| "be_val (b # bs) = unat b * 256 ^ length bs + be_val bs"

lemma unat8_lt256: "unat (b :: u8) < 256"
  using unsigned_less [of b, where 'a = nat] by simp

lemma be_val_less: "be_val bs < 256 ^ length bs"
proof (induction bs)
  case (Cons b bs)
  have "unat b * 256 ^ length bs + be_val bs < unat b * 256 ^ length bs + 256 ^ length bs"
    using Cons by simp
  also have "\<dots> = (unat b + 1) * 256 ^ length bs" by (simp add: algebra_simps)
  also have "\<dots> \<le> 256 * 256 ^ length bs"
    using unat8_lt256 [of b] by (intro mult_right_mono) auto
  finally show ?case by simp
qed simp

lemma be_val_append: "be_val (as @ bs) = be_val as * 256 ^ length bs + be_val bs"
  by (induction as) (simp_all add: algebra_simps power_add)

lemma be_val_replicate0 [simp]: "be_val (replicate n 0) = 0"
  by (induction n) simp_all

lemma be_val_inject: "length as = length bs \<Longrightarrow> be_val as = be_val bs \<longleftrightarrow> as = bs"
proof (induction as bs rule: list_induct2)
  case (Cons a as b bs)
  have "be_val (a # as) div 256 ^ length bs = unat a" "be_val (b # bs) div 256 ^ length bs = unat b"
    using be_val_less [of as] be_val_less [of bs] Cons.hyps by simp_all
  moreover have "be_val (a # as) mod 256 ^ length bs = be_val as" "be_val (b # bs) mod 256 ^ length bs = be_val bs"
    using be_val_less [of as] be_val_less [of bs] Cons.hyps by simp_all
  ultimately have "be_val (a # as) = be_val (b # bs) \<Longrightarrow> unat a = unat b \<and> be_val as = be_val bs"
    by metis
  then show ?case using Cons.IH by (auto simp: word_unat_eq_iff)
qed simp

subsection \<open>Addition, subtraction and comparison\<close>

lemma byte_split16: "unat (ucast (s AND 0xFF :: 16 word) :: u8) + 256 * unat (drop_bit 8 s) = unat s"
proof -
  have m: "s AND 0xFF = take_bit 8 s" by (simp add: take_bit_eq_mask mask_eq_exp_minus_1)
  have "unat (s AND 0xFF) = unat s mod 256"
    unfolding m unsigned_take_bit_eq by (simp add: take_bit_eq_mod)
  then have "unat (ucast (s AND 0xFF :: 16 word) :: u8) = unat s mod 256"
    by (simp add: unsigned_ucast_eq take_bit_eq_mod)
  moreover have "unat (drop_bit 8 s) = unat s div 256" by (simp add: drop_bit_eq_div unat_div)
  ultimately show ?thesis by simp
qed

lemma unat_ucast16: "unat (ucast (a :: u8) :: 16 word) = unat a"
  by (simp add: unsigned_ucast_eq take_bit_nat_eq_self unat8_lt256 order.strict_trans [OF unat8_lt256])

lemma add_bytes_val:
  "length as = length bs \<Longrightarrow> length (fst (add_bytes as bs)) = length as
     \<and> unat (snd (add_bytes as bs)) \<le> 1
     \<and> be_val (fst (add_bytes as bs)) + unat (snd (add_bytes as bs)) * 256 ^ length as = be_val as + be_val bs"
proof (induction as bs rule: list_induct2)
  case (Cons a as b bs)
  obtain r c where rc: "add_bytes as bs = (r, c)" by force
  let ?s = "ucast a + ucast b + c :: 16 word"
  have c: "unat c \<le> 1" using Cons.IH rc by simp
  have "unat ?s = unat a + unat b + unat c"
    using unat8_lt256 [of a] unat8_lt256 [of b] c by (simp add: unat_word_ariths unat_ucast16)
  then have split: "unat (ucast (?s AND 0xFF) :: u8) + 256 * unat (drop_bit 8 ?s) = unat a + unat b + unat c"
    using byte_split16 [of ?s] by simp
  then have "unat (drop_bit 8 ?s) \<le> 1" using unat8_lt256 [of a] unat8_lt256 [of b] c by linarith
  moreover have "(unat (ucast (?s AND 0xFF) :: u8) + 256 * unat (drop_bit 8 ?s)) * 256 ^ length as
      = (unat a + unat b + unat c) * 256 ^ length as"
    using split by simp
  moreover have "add_bytes (a # as) (b # bs) = (ucast (?s AND 0xFF) # r, drop_bit 8 ?s)"
    using rc by (simp add: Let_def)
  ultimately show ?case
    using Cons.IH Cons.hyps rc by (simp add: algebra_simps)
qed simp

lemma length_U_Add [simp]: "length a = length b \<Longrightarrow> length (U_Add a b) = length a"
  using add_bytes_val [of a b] by (simp add: U_Add_def)

lemma U_Add_val: "length a = 32 \<Longrightarrow> length b = 32 \<Longrightarrow> be_val (U_Add a b) = (be_val a + be_val b) mod 256 ^ 32"
proof -
  assume len: "length a = 32" "length b = 32"
  then have eq: "be_val (U_Add a b) + unat (snd (add_bytes a b)) * 256 ^ 32 = be_val a + be_val b"
    and "length (U_Add a b) = 32"
    using add_bytes_val [of a b] by (simp_all add: U_Add_def)
  then have "be_val (U_Add a b) < 256 ^ 32" using be_val_less [of "U_Add a b"] by simp
  then show ?thesis using eq [symmetric] by simp
qed

lemma sub_bytes_val:
  "length as = length bs \<Longrightarrow> length (fst (sub_bytes as bs)) = length as
     \<and> snd (sub_bytes as bs) \<in> {0, 1}
     \<and> int (be_val (fst (sub_bytes as bs))) = int (be_val as) - int (be_val bs) + snd (sub_bytes as bs) * 256 ^ length as"
proof (induction as bs rule: list_induct2)
  case (Cons a as b bs)
  obtain r c where rc: "sub_bytes as bs = (r, c)" by force
  let ?d = "uint a - uint b - c"
  have c: "c = 0 \<or> c = 1" and IH: "int (be_val r) = int (be_val as) - int (be_val bs) + c * 256 ^ length as"
    and len: "length r = length as"
    using Cons.IH rc by auto
  have c01: "0 \<le> c" "c \<le> 1" using c by auto
  have bounds: "0 \<le> uint a" "uint a < 256" "0 \<le> uint b" "uint b < 256"
    using unsigned_less [of a, where 'a = int] unsigned_less [of b, where 'a = int] by simp_all
  have of: "uint (of_int x :: u8) = x" if "0 \<le> x" "x < 256" for x
    using that by (simp add: uint_word_of_int)
  have head: "int (be_val (x # r)) = uint x * 256 ^ length bs + int (be_val r)" for x
    using len Cons.hyps by simp
  have tails: "int (be_val (a # as)) = uint a * 256 ^ length bs + int (be_val as)"
    "int (be_val (b # bs)) = uint b * 256 ^ length bs + int (be_val bs)"
    using Cons.hyps by simp_all
  show ?case
  proof (cases "?d < 0")
    case True
    then have d: "uint (of_int (?d + 256) :: u8) = ?d + 256" using bounds c01 by (intro of) linarith+
    have "sub_bytes (a # as) (b # bs) = (of_int (?d + 256) # r, 1)" using True rc by simp
    moreover have "int (be_val (of_int (?d + 256) # r)) = int (be_val (a # as)) - int (be_val (b # bs)) + 256 ^ length (a # as)"
      unfolding head tails d IH using Cons.hyps by (simp add: algebra_simps)
    ultimately show ?thesis using len by simp
  next
    case False
    then have d: "uint (of_int ?d :: u8) = ?d" using bounds c01 by (intro of) linarith+
    have "sub_bytes (a # as) (b # bs) = (of_int ?d # r, 0)" using False rc by simp
    moreover have "int (be_val (of_int ?d # r)) = int (be_val (a # as)) - int (be_val (b # bs))"
      unfolding head tails d IH using Cons.hyps by (simp add: algebra_simps)
    ultimately show ?thesis using len by simp
  qed
qed simp

lemma length_U_Sub [simp]: "length a = length b \<Longrightarrow> length (U_Sub a b) = length a"
  using sub_bytes_val [of a b] by (simp add: U_Sub_def)

lemma mod_unique_int: "0 \<le> x \<Longrightarrow> x < m \<Longrightarrow> x = y + c * m \<Longrightarrow> x = y mod (m :: int)"
  by (metis mod_mult_self1 mod_pos_pos_trivial)

lemma U_Sub_val:
  assumes "length a = 32" "length b = 32"
  shows "int (be_val (U_Sub a b)) = (int (be_val a) - int (be_val b)) mod 256 ^ 32"
proof -
  obtain c where eq: "int (be_val (U_Sub a b)) = int (be_val a) - int (be_val b) + c * 256 ^ 32"
    using sub_bytes_val [of a b] assms by (auto simp: U_Sub_def)
  have "be_val (U_Sub a b) < 256 ^ 32" using be_val_less [of "U_Sub a b"] assms by simp
  then have "int (be_val (U_Sub a b)) < 256 ^ 32" by (metis of_nat_less_iff of_nat_numeral of_nat_power)
  then show ?thesis by (intro mod_unique_int [OF _ _ eq]) simp_all
qed

lemma U_Sub_exact: "length a = 32 \<Longrightarrow> length b = 32 \<Longrightarrow> be_val b \<le> be_val a \<Longrightarrow> be_val (U_Sub a b) = be_val a - be_val b"
proof -
  assume len: "length a = 32" "length b = 32" and le: "be_val b \<le> be_val a"
  have "be_val a < 256 ^ 32" using be_val_less [of a] len by simp
  then have "be_val a - be_val b < 256 ^ 32" using le by linarith
  then have "int (be_val a - be_val b) < 256 ^ 32" by (metis of_nat_less_iff of_nat_numeral of_nat_power)
  then show ?thesis using U_Sub_val [OF len] le by (simp add: of_nat_diff)
qed

lemma U_Lt_val: "length a = length b \<Longrightarrow> U_Lt a b \<longleftrightarrow> be_val a < be_val b"
proof (induction a b rule: list_induct2)
  case (Cons a as b bs)
  have less: "be_val (x # xs) < be_val (y # ys)" if "x < y" "length xs = length ys" for x y :: u8 and xs ys
  proof -
    have "be_val (x # xs) < (unat x + 1) * 256 ^ length ys"
      using be_val_less [of xs] that(2) by (simp add: algebra_simps)
    also have "\<dots> \<le> unat y * 256 ^ length ys"
      using that(1) by (intro mult_right_mono) (auto simp: word_less_nat_alt)
    finally show ?thesis by simp
  qed
  consider "a < b" | "b < a" | "a = b" using linorder_less_linear [of a b] by blast
  then show ?case
  proof cases
    case 1
    then show ?thesis using less [OF 1, of as bs] Cons.hyps by simp
  next
    case 2
    then show ?thesis using less [OF 2, of bs as] Cons.hyps by auto
  next
    case 3
    then show ?thesis using Cons by simp
  qed
qed simp

lemma U_IsZero_val: "U_IsZero a \<longleftrightarrow> be_val a = 0"
  by (induction a) (auto simp: U_IsZero_def unat_eq_0)

lemma zero256_unique: "length a = 32 \<Longrightarrow> be_val a = 0 \<longleftrightarrow> a = zero256"
  using be_val_inject [of a zero256] by simp

end
