(* ===== verification/WorldState.thy ===== *)
theory WorldState
  imports StdMap Mpt Uint256 "HOL-Library.Product_Lexorder"
begin

section \<open>The world state of the virtual machine\<close>

text \<open>
  Models \<open>layer3-obolos/evm/state.h\<close> and \<open>state.cpp\<close>: accounts, contract storage, and the state root with
  its two caches (storage roots per account, and the whole root). The members the code declares
  \<open>mutable\<close> are part of the state a root calculation returns. A storage range of one account is the
  entries with its address: in a \<open>std::map\<close> ordered by pairs they are consecutive. A result \<open>None\<close> is
  undefined behaviour of the trie.
\<close>

type_synonym Address = bytes

record AccountState =
  acc_nonce :: u64
  acc_balance :: uint256
  acc_code_hash :: bytes
  acc_storage_root :: bytes
  acc_code :: bytes

definition AccountState_init :: AccountState where
  "AccountState_init = \<lparr>acc_nonce = 0, acc_balance = zero256, acc_code_hash = zero256, acc_storage_root = zero256, acc_code = []\<rparr>"

record WorldState =
  ws_accounts :: "(Address \<times> AccountState) list"
  ws_storage :: "((Address \<times> uint256) \<times> uint256) list"
  ws_storage_roots :: "(Address \<times> bytes) list"
  ws_dirty_storage_roots :: "Address set"
  ws_cached_state_root :: "bytes option"
  ws_state_root_dirty :: bool

definition WorldState_init :: WorldState where
  "WorldState_init = \<lparr>ws_accounts = [], ws_storage = [], ws_storage_roots = [], ws_dirty_storage_roots = {},
     ws_cached_state_root = None, ws_state_root_dirty = True\<rparr>"

definition MarkAccountDirty :: "WorldState \<Rightarrow> Address \<Rightarrow> WorldState" where
  "MarkAccountDirty w addr =
     w\<lparr>ws_dirty_storage_roots := insert addr (ws_dirty_storage_roots w), ws_state_root_dirty := True\<rparr>"

definition GetAccount :: "WorldState \<Rightarrow> Address \<Rightarrow> AccountState option" where
  "GetAccount w addr = map_of (ws_accounts w) addr"

definition SetAccount :: "WorldState \<Rightarrow> Address \<Rightarrow> AccountState \<Rightarrow> WorldState" where
  "SetAccount w addr state = MarkAccountDirty (w\<lparr>ws_accounts := map_put addr state (ws_accounts w)\<rparr>) addr"

definition AccountExists :: "WorldState \<Rightarrow> Address \<Rightarrow> bool" where
  "AccountExists w addr \<longleftrightarrow> map_of (ws_accounts w) addr \<noteq> None"

definition GetStorage :: "WorldState \<Rightarrow> Address \<Rightarrow> uint256 \<Rightarrow> uint256" where
  "GetStorage w addr key = (case map_of (ws_storage w) (addr, key) of None \<Rightarrow> zero256 | Some v \<Rightarrow> v)"

definition SetStorage :: "WorldState \<Rightarrow> Address \<Rightarrow> uint256 \<Rightarrow> uint256 \<Rightarrow> WorldState" where
  "SetStorage w addr key v =
     (let is_zero = list_all (\<lambda>byte. byte = 0) v in
      MarkAccountDirty
        (w\<lparr>ws_storage := (if is_zero then map_erase (addr, key) (ws_storage w)
                         else map_put (addr, key) v (ws_storage w))\<rparr>) addr)"

definition GetCode :: "WorldState \<Rightarrow> Address \<Rightarrow> bytes" where
  "GetCode w addr = (case map_of (ws_accounts w) addr of None \<Rightarrow> [] | Some a \<Rightarrow> acc_code a)"

text \<open>\<open>accounts_[addr]\<close> as a reference: the account, made when there is none.\<close>

definition account_at :: "WorldState \<Rightarrow> Address \<Rightarrow> AccountState" where
  "account_at w addr = (case map_of (ws_accounts w) addr of None \<Rightarrow> AccountState_init | Some a \<Rightarrow> a)"

definition SetCode :: "WorldState \<Rightarrow> Address \<Rightarrow> bytes \<Rightarrow> WorldState" where
  "SetCode w addr code =
     (let account = (account_at w addr)\<lparr>acc_code := code,
            acc_code_hash := (if code = [] then zero256 else Hash256 code)\<rparr> in
      MarkAccountDirty (w\<lparr>ws_accounts := map_put addr account (ws_accounts w)\<rparr>) addr)"

definition GetBalance :: "WorldState \<Rightarrow> Address \<Rightarrow> uint256" where
  "GetBalance w addr = (case map_of (ws_accounts w) addr of None \<Rightarrow> zero256 | Some a \<Rightarrow> acc_balance a)"

definition SetBalance :: "WorldState \<Rightarrow> Address \<Rightarrow> uint256 \<Rightarrow> WorldState" where
  "SetBalance w addr balance =
     w\<lparr>ws_accounts := map_put addr ((account_at w addr)\<lparr>acc_balance := balance\<rparr>) (ws_accounts w),
       ws_state_root_dirty := True\<rparr>"

definition GetNonce :: "WorldState \<Rightarrow> Address \<Rightarrow> u64" where
  "GetNonce w addr = (case map_of (ws_accounts w) addr of None \<Rightarrow> 0 | Some a \<Rightarrow> acc_nonce a)"

definition SetNonce :: "WorldState \<Rightarrow> Address \<Rightarrow> u64 \<Rightarrow> WorldState" where
  "SetNonce w addr nonce =
     w\<lparr>ws_accounts := map_put addr ((account_at w addr)\<lparr>acc_nonce := nonce\<rparr>) (ws_accounts w),
       ws_state_root_dirty := True\<rparr>"

definition DeleteAccount :: "WorldState \<Rightarrow> Address \<Rightarrow> WorldState" where
  "DeleteAccount w addr =
     w\<lparr>ws_accounts := map_erase addr (ws_accounts w),
       ws_storage := filter (\<lambda>e. fst (fst e) \<noteq> addr) (ws_storage w),
       ws_storage_roots := map_erase addr (ws_storage_roots w),
       ws_dirty_storage_roots := ws_dirty_storage_roots w - {addr},
       ws_state_root_dirty := True\<rparr>"

subsection \<open>Roots\<close>

definition storage_entries :: "((Address \<times> uint256) \<times> uint256) list \<Rightarrow> Address \<Rightarrow> (bytes \<times> bytes) list" where
  "storage_entries storage addr = map (\<lambda>e. (snd (fst e), snd e)) (filter (\<lambda>e. fst (fst e) = addr) storage)"

definition CalculateStorageRoot :: "WorldState \<Rightarrow> Address \<Rightarrow> (bytes \<times> WorldState) option" where
  "CalculateStorageRoot w addr =
     (let cached = map_of (ws_storage_roots w) addr in
      if cached \<noteq> None \<and> addr \<notin> ws_dirty_storage_roots w then Some (the cached, w)
      else case puts (Some Trie_empty) (storage_entries (ws_storage w) addr) of
        None \<Rightarrow> None
      | Some storage_trie \<Rightarrow>
          let root = GetRootHash storage_trie in
          Some (root, w\<lparr>ws_storage_roots := map_put addr root (ws_storage_roots w),
                        ws_dirty_storage_roots := ws_dirty_storage_roots w - {addr}\<rparr>))"

definition account_bytes :: "AccountState \<Rightarrow> bytes \<Rightarrow> bytes" where
  "account_bytes account storage_root =
     le64 (acc_nonce account) @ acc_balance account @ acc_code_hash account @ storage_root"

fun put_accounts :: "WorldState \<Rightarrow> trie \<Rightarrow> (Address \<times> AccountState) list \<Rightarrow> (trie \<times> WorldState) option" where
  "put_accounts w t [] = Some (t, w)"
| "put_accounts w t ((addr, account) # accounts) =
     (case CalculateStorageRoot w addr of
        None \<Rightarrow> None
      | Some (storage_root, w) \<Rightarrow>
          (case Trie_Put t addr (account_bytes account storage_root) of
             None \<Rightarrow> None
           | Some t \<Rightarrow> put_accounts w t accounts))"

definition CalculateStateRoot :: "WorldState \<Rightarrow> (bytes \<times> WorldState) option" where
  "CalculateStateRoot w =
     (if \<not> ws_state_root_dirty w \<and> ws_cached_state_root w \<noteq> None then Some (the (ws_cached_state_root w), w)
      else case put_accounts w Trie_empty (ws_accounts w) of
        None \<Rightarrow> None
      | Some (t, w) \<Rightarrow>
          let root = GetRootHash t in
          Some (root, w\<lparr>ws_cached_state_root := Some root, ws_state_root_dirty := False\<rparr>))"

text \<open>A snapshot holds a copy of every member.\<close>

definition World_CreateSnapshot :: "WorldState \<Rightarrow> WorldState" where
  "World_CreateSnapshot w = w"

definition World_RestoreSnapshot :: "WorldState \<Rightarrow> WorldState \<Rightarrow> WorldState" where
  "World_RestoreSnapshot w snapshot =
     w\<lparr>ws_accounts := ws_accounts snapshot, ws_storage := ws_storage snapshot,
       ws_storage_roots := ws_storage_roots snapshot,
       ws_dirty_storage_roots := ws_dirty_storage_roots snapshot,
       ws_cached_state_root := ws_cached_state_root snapshot,
       ws_state_root_dirty := ws_state_root_dirty snapshot\<rparr>"

subsection \<open>Well-formed states\<close>

text \<open>The sizes the array types of the code impose.\<close>

definition account_sized :: "AccountState \<Rightarrow> bool" where
  "account_sized a \<longleftrightarrow> length (acc_balance a) = 32 \<and> length (acc_code_hash a) = 32"

definition sized :: "WorldState \<Rightarrow> bool" where
  "sized w \<longleftrightarrow> (\<forall>(a, acc) \<in> set (ws_accounts w). length a = 20 \<and> account_sized acc)
     \<and> (\<forall>((a, k), v) \<in> set (ws_storage w). length a = 20 \<and> length k = 32 \<and> length v = 32)"

text \<open>The roots computed afresh, without any cache.\<close>

definition storage_root :: "((Address \<times> uint256) \<times> uint256) list \<Rightarrow> Address \<Rightarrow> bytes" where
  "storage_root storage addr = GetRootHash (the (puts (Some Trie_empty) (storage_entries storage addr)))"

definition account_entries :: "WorldState \<Rightarrow> (Address \<times> AccountState) list \<Rightarrow> (bytes \<times> bytes) list" where
  "account_entries w = map (\<lambda>(a, acc). (a, account_bytes acc (storage_root (ws_storage w) a)))"

definition state_trie :: "WorldState \<Rightarrow> trie" where
  "state_trie w = the (puts (Some Trie_empty) (account_entries w (ws_accounts w)))"

definition state_root :: "WorldState \<Rightarrow> bytes" where
  "state_root w = GetRootHash (state_trie w)"

definition roots_ok :: "WorldState \<Rightarrow> bool" where
  "roots_ok w \<longleftrightarrow> (\<forall>a r. map_of (ws_storage_roots w) a = Some r \<longrightarrow> a \<notin> ws_dirty_storage_roots w
     \<longrightarrow> r = storage_root (ws_storage w) a)"

definition ws_ok :: "WorldState \<Rightarrow> bool" where
  "ws_ok w \<longleftrightarrow> sized w \<and> roots_ok w \<and> sorted_keys (ws_accounts w) \<and> sorted_keys (ws_storage w)
     \<and> (\<not> ws_state_root_dirty w \<longrightarrow> (\<forall>r. ws_cached_state_root w = Some r \<longrightarrow> r = state_root w))"

lemma storage_entries_ok: "sized w \<Longrightarrow> entries_ok 32 (storage_entries (ws_storage w) a)"
  by (auto simp: sized_def entries_ok_def storage_entries_def value_ok_def list_all_iff)

lemma storage_trie_exists:
  "sized w \<Longrightarrow> \<exists>t. puts (Some Trie_empty) (storage_entries (ws_storage w) a) = Some t \<and> trie_ok 32 t
     \<and> (\<forall>k. length k = 32 \<longrightarrow> Trie_Get t k = Some (map_of (rev (storage_entries (ws_storage w) a)) k))"
  using puts_correct [of 32 Trie_empty] storage_entries_ok [of w a]
  by (fastforce simp: trie_ok_def split: option.splits)

lemma length_storage_root [simp]: "length (storage_root s a) = 32"
  by (simp add: storage_root_def GetRootHash_def)

lemma length_account_bytes: "account_sized a \<Longrightarrow> length r = 32 \<Longrightarrow> length (account_bytes a r) = 104"
  by (simp add: account_bytes_def account_sized_def)

lemma account_entries_ok:
  "sized w \<Longrightarrow> set accounts \<subseteq> set (ws_accounts w) \<Longrightarrow> entries_ok 20 (account_entries w accounts)"
proof -
  assume w: "sized w" "set accounts \<subseteq> set (ws_accounts w)"
  have "length (account_bytes acc (storage_root (ws_storage w) a)) = 104 \<and> length a = 20" if "(a, acc) \<in> set accounts" for a acc
    using w that by (intro conjI length_account_bytes) (auto simp: sized_def)
  then show ?thesis by (fastforce simp: entries_ok_def account_entries_def list_all_iff value_ok_def)
qed

lemma CalculateStorageRoot_correct:
  assumes "sized w" and "roots_ok w"
  shows "\<exists>w'. CalculateStorageRoot w a = Some (storage_root (ws_storage w) a, w') \<and> roots_ok w'
    \<and> ws_accounts w' = ws_accounts w \<and> ws_storage w' = ws_storage w
    \<and> ws_cached_state_root w' = ws_cached_state_root w \<and> ws_state_root_dirty w' = ws_state_root_dirty w"
proof (cases "map_of (ws_storage_roots w) a \<noteq> None \<and> a \<notin> ws_dirty_storage_roots w")
  case True
  then show ?thesis using assms(2) by (auto simp: CalculateStorageRoot_def roots_ok_def)
next
  case False
  obtain t where t: "puts (Some Trie_empty) (storage_entries (ws_storage w) a) = Some t"
    using storage_trie_exists [OF assms(1)] by blast
  then have "storage_root (ws_storage w) a = GetRootHash t" by (simp add: storage_root_def)
  then show ?thesis using False t assms(2) by (auto simp: CalculateStorageRoot_def roots_ok_def Let_def)
qed

lemma account_entries_cong: "ws_storage w' = ws_storage w \<Longrightarrow> account_entries w' = account_entries w"
  by (simp add: account_entries_def)

lemma put_accounts_correct:
  "sized w \<Longrightarrow> roots_ok w \<Longrightarrow> set accounts \<subseteq> set (ws_accounts w) \<Longrightarrow> trie_ok 20 t \<Longrightarrow>
   \<exists>t' w'. put_accounts w t accounts = Some (t', w') \<and> puts (Some t) (account_entries w accounts) = Some t' \<and> roots_ok w'
     \<and> ws_accounts w' = ws_accounts w \<and> ws_storage w' = ws_storage w"
proof (induction accounts arbitrary: w t)
  case (Cons p accounts)
  obtain a acc where p: "p = (a, acc)" by force
  obtain w1 where w1: "CalculateStorageRoot w a = Some (storage_root (ws_storage w) a, w1)" "roots_ok w1"
    "ws_accounts w1 = ws_accounts w" "ws_storage w1 = ws_storage w"
    using CalculateStorageRoot_correct [OF Cons.prems(1,2)] by blast
  have "entries_ok 20 (account_entries w [p])" using Cons.prems by (intro account_entries_ok) auto
  then have "length a = 20" "value_ok (account_bytes acc (storage_root (ws_storage w) a))"
    by (simp_all add: p entries_ok_def account_entries_def)
  from Trie_Put_correct [OF Cons.prems(4) this] obtain t1 where
    t1: "Trie_Put t a (account_bytes acc (storage_root (ws_storage w) a)) = Some t1" "trie_ok 20 t1" by blast
  have "sized w1" using Cons.prems(1) w1 by (simp add: sized_def)
  from Cons.IH [OF this w1(2) _ t1(2)] obtain t' w' where
    "put_accounts w1 t1 accounts = Some (t', w')" "puts (Some t1) (account_entries w1 accounts) = Some t'" "roots_ok w'"
    "ws_accounts w' = ws_accounts w1" "ws_storage w' = ws_storage w1"
    using Cons.prems(3) w1(3) by auto
  then show ?case
    using w1 t1 account_entries_cong [OF w1(4)] by (auto simp: p account_entries_def)
qed (simp add: account_entries_def)

lemma CalculateStateRoot_correct:
  assumes "ws_ok w"
  shows "\<exists>w'. CalculateStateRoot w = Some (state_root w, w') \<and> ws_ok w'
    \<and> ws_accounts w' = ws_accounts w \<and> ws_storage w' = ws_storage w"
proof (cases "\<not> ws_state_root_dirty w \<and> ws_cached_state_root w \<noteq> None")
  case True
  then show ?thesis using assms by (auto simp: CalculateStateRoot_def ws_ok_def)
next
  case False
  have "trie_ok 20 Trie_empty" by (simp add: trie_ok_def)
  with put_accounts_correct [of w "ws_accounts w" Trie_empty] obtain t w1 where
    t: "put_accounts w Trie_empty (ws_accounts w) = Some (t, w1)"
      "puts (Some Trie_empty) (account_entries w (ws_accounts w)) = Some t"
      "roots_ok w1" "ws_accounts w1 = ws_accounts w" "ws_storage w1 = ws_storage w"
    using assms by (auto simp: ws_ok_def)
  have root: "state_root w = GetRootHash t" using t(2) by (simp add: state_root_def state_trie_def)
  let ?w = "w1\<lparr>ws_cached_state_root := Some (GetRootHash t), ws_state_root_dirty := False\<rparr>"
  have "state_root ?w = state_root w"
    using t(4,5) by (simp add: state_root_def state_trie_def account_entries_def)
  then have "ws_ok ?w"
    using assms t root by (simp add: ws_ok_def sized_def roots_ok_def)
  then show ?thesis using False t root by (auto simp: CalculateStateRoot_def Let_def)
qed

lemma sized_put_account:
  "sized w \<Longrightarrow> length a = 20 \<Longrightarrow> account_sized acc \<Longrightarrow> ws_accounts w' = map_put a acc (ws_accounts w)
    \<Longrightarrow> ws_storage w' = ws_storage w \<Longrightarrow> sized w'"
  using set_map_put [of a acc "ws_accounts w"] by (fastforce simp: sized_def)

lemma account_at_sized: "sized w \<Longrightarrow> account_sized (account_at w a)"
  by (auto simp: account_at_def AccountState_init_def sized_def account_sized_def split: option.splits dest: map_of_SomeD)

lemma ws_ok_put_account:
  assumes "ws_ok w" and "length a = 20" and "account_sized acc"
    and "ws_accounts w' = map_put a acc (ws_accounts w)" "ws_storage w' = ws_storage w"
    and "ws_storage_roots w' = ws_storage_roots w" "ws_dirty_storage_roots w \<subseteq> ws_dirty_storage_roots w'"
    and "ws_state_root_dirty w'"
  shows "ws_ok w'"
  using assms sized_put_account [of w a acc w'] by (auto simp: ws_ok_def roots_ok_def)

lemma storage_entries_other:
  "a \<noteq> b \<Longrightarrow> storage_entries (map_put (b, k) v s) a = storage_entries s a"
  "a \<noteq> b \<Longrightarrow> storage_entries (map_erase (b, k) s) a = storage_entries s a"
  "a \<noteq> b \<Longrightarrow> storage_entries (filter (\<lambda>e. fst (fst e) \<noteq> b) s) a = storage_entries s a"
proof -
  assume ab: "a \<noteq> b"
  show "storage_entries (map_put (b, k) v s) a = storage_entries s a"
    using ab by (induction "(b, k)" v s rule: map_put.induct) (auto simp: storage_entries_def)
  show "storage_entries (map_erase (b, k) s) a = storage_entries s a"
    "storage_entries (filter (\<lambda>e. fst (fst e) \<noteq> b) s) a = storage_entries s a"
    using ab by (auto simp: storage_entries_def map_erase_def intro!: arg_cong [where f = "map _"] filter_cong)
qed

lemma ws_ok_SetStorage:
  assumes "ws_ok w" and "length a = 20" "length k = 32" "length v = 32"
  shows "ws_ok (SetStorage w a k v)"
proof -
  let ?s = "if list_all (\<lambda>byte. byte = 0) v then map_erase (a, k) (ws_storage w) else map_put (a, k) v (ws_storage w)"
  have "set ?s \<subseteq> insert ((a, k), v) (set (ws_storage w))"
    using set_map_put [of "(a, k)" v "ws_storage w"] by (auto simp: map_erase_def)
  then have "sized (SetStorage w a k v)"
    using assms by (fastforce simp: sized_def ws_ok_def SetStorage_def MarkAccountDirty_def Let_def)
  moreover have "storage_root ?s b = storage_root (ws_storage w) b" if "b \<noteq> a" for b
    using storage_entries_other [OF that] by (simp add: storage_root_def)
  then have "roots_ok (SetStorage w a k v)"
    using assms by (auto simp: roots_ok_def ws_ok_def SetStorage_def MarkAccountDirty_def Let_def split: if_splits)
  ultimately show ?thesis
    using assms by (auto simp: ws_ok_def SetStorage_def MarkAccountDirty_def Let_def)
qed

lemma ws_ok_DeleteAccount: "ws_ok w \<Longrightarrow> ws_ok (DeleteAccount w a)"
proof -
  assume w: "ws_ok w"
  have "storage_root (filter (\<lambda>e. fst (fst e) \<noteq> a) (ws_storage w)) b = storage_root (ws_storage w) b" if "b \<noteq> a" for b
    using storage_entries_other(3) [OF that] by (simp add: storage_root_def)
  moreover have "sorted_keys (filter P m)" if "sorted_keys m" for P and m :: "((Address \<times> uint256) \<times> uint256) list"
    using that by (simp add: sorted_keys_def sorted_wrt_map sorted_wrt_filter)
  ultimately show ?thesis
    using w by (auto simp: ws_ok_def sized_def roots_ok_def DeleteAccount_def map_erase_def split: if_splits)
      (auto simp: map_erase_def [symmetric] split: if_splits)
qed

text \<open>The states the operations reach; arguments have the sizes of their array types.\<close>

inductive ws_reach :: "WorldState \<Rightarrow> bool" where
  init: "ws_reach WorldState_init"
| account: "ws_reach w \<Longrightarrow> length a = 20 \<Longrightarrow> account_sized acc \<Longrightarrow> ws_reach (SetAccount w a acc)"
| storage: "ws_reach w \<Longrightarrow> length a = 20 \<Longrightarrow> length k = 32 \<Longrightarrow> length v = 32 \<Longrightarrow> ws_reach (SetStorage w a k v)"
| code: "ws_reach w \<Longrightarrow> length a = 20 \<Longrightarrow> ws_reach (SetCode w a code)"
| balance: "ws_reach w \<Longrightarrow> length a = 20 \<Longrightarrow> length b = 32 \<Longrightarrow> ws_reach (SetBalance w a b)"
| nonce: "ws_reach w \<Longrightarrow> length a = 20 \<Longrightarrow> ws_reach (SetNonce w a n)"
| delete: "ws_reach w \<Longrightarrow> ws_reach (DeleteAccount w a)"
| restore: "ws_reach w \<Longrightarrow> ws_reach s \<Longrightarrow> ws_reach (World_RestoreSnapshot w (World_CreateSnapshot s))"
| root: "ws_reach w \<Longrightarrow> CalculateStateRoot w = Some (r, w') \<Longrightarrow> ws_reach w'"

lemma ws_reach_ok: "ws_reach w \<Longrightarrow> ws_ok w"
proof (induction rule: ws_reach.induct)
  case init
  then show ?case by (simp add: ws_ok_def WorldState_init_def sized_def roots_ok_def)
next
  case (account w a acc)
  then show ?case
    by - (rule ws_ok_put_account [of w a acc], auto simp: SetAccount_def MarkAccountDirty_def)
next
  case (storage w a k v)
  then show ?case using ws_ok_SetStorage by blast
next
  case (code w a code)
  let ?acc = "(account_at w a)\<lparr>acc_code := code, acc_code_hash := (if code = [] then zero256 else Hash256 code)\<rparr>"
  have "account_sized ?acc" using code account_at_sized [of w a] by (simp add: account_sized_def ws_ok_def)
  then show ?case
    using code by - (rule ws_ok_put_account [of w a ?acc], auto simp: SetCode_def MarkAccountDirty_def Let_def)
next
  case (balance w a b)
  let ?acc = "(account_at w a)\<lparr>acc_balance := b\<rparr>"
  have "account_sized ?acc" using balance account_at_sized [of w a] by (simp add: account_sized_def ws_ok_def)
  then show ?case
    using balance by - (rule ws_ok_put_account [of w a ?acc], auto simp: SetBalance_def)
next
  case (nonce w a n)
  let ?acc = "(account_at w a)\<lparr>acc_nonce := n\<rparr>"
  have "account_sized ?acc" using nonce account_at_sized [of w a] by (simp add: account_sized_def ws_ok_def)
  then show ?case
    using nonce by - (rule ws_ok_put_account [of w a ?acc], auto simp: SetNonce_def)
next
  case (delete w a)
  then show ?case using ws_ok_DeleteAccount by blast
next
  case (restore w s)
  have "World_RestoreSnapshot w (World_CreateSnapshot s) = s"
    by (simp add: World_RestoreSnapshot_def World_CreateSnapshot_def)
  then show ?case using restore by simp
next
  case (root w r w')
  then show ?case using CalculateStateRoot_correct [of w] by auto
qed

subsection \<open>What the root commits to\<close>

definition state_strings :: "WorldState \<Rightarrow> bytes set" where
  "state_strings w = set (hashed_strings (state_trie w))
     \<union> (\<Union>a \<in> fst ` set (ws_accounts w). set (hashed_strings (the (puts (Some Trie_empty) (storage_entries (ws_storage w) a)))))"

lemma map_of_rev_distinct: "distinct (map fst xs) \<Longrightarrow> map_of (rev xs) = map_of xs"
proof
  fix k
  assume "distinct (map fst xs)"
  then have "map_of (rev xs) k = Some v \<longleftrightarrow> map_of xs k = Some v" for v
    by (simp add: map_of_eq_Some_iff rev_map [symmetric])
  then show "map_of (rev xs) k = map_of xs k" by (metis option.exhaust)
qed

lemma state_trie_get:
  assumes "ws_ok w"
  shows "trie_ok 20 (state_trie w)" and "length a = 20 \<Longrightarrow> Trie_Get (state_trie w) a
    = Some (map_option (\<lambda>acc. account_bytes acc (storage_root (ws_storage w) a)) (map_of (ws_accounts w) a))"
proof -
  have "trie_ok 20 Trie_empty" by (simp add: trie_ok_def)
  moreover have "entries_ok 20 (account_entries w (ws_accounts w))"
    using assms by (intro account_entries_ok) (auto simp: ws_ok_def)
  ultimately obtain t where t: "puts (Some Trie_empty) (account_entries w (ws_accounts w)) = Some t" "trie_ok 20 t"
    "\<And>k. length k = 20 \<Longrightarrow> Trie_Get t k = (case map_of (rev (account_entries w (ws_accounts w))) k of
       None \<Rightarrow> Trie_Get Trie_empty k | Some v \<Rightarrow> Some (Some v))"
    using puts_correct by blast
  show "trie_ok 20 (state_trie w)" using t by (simp add: state_trie_def)
  assume a: "length a = 20"
  have "distinct (map fst (account_entries w (ws_accounts w)))"
    using assms distinct_keys [of "ws_accounts w"] by (simp add: ws_ok_def account_entries_def comp_def split_beta)
  moreover have "map_of (account_entries w m) a = map_option (\<lambda>acc. account_bytes acc (storage_root (ws_storage w) a)) (map_of m a)" for m
    by (induction m) (auto simp: account_entries_def)
  ultimately show "Trie_Get (state_trie w) a
    = Some (map_option (\<lambda>acc. account_bytes acc (storage_root (ws_storage w) a)) (map_of (ws_accounts w) a))"
    using t(1,3) a by (simp add: state_trie_def map_of_rev_distinct split: option.splits)
qed

lemma storage_trie_get:
  assumes "ws_ok w" and "length k = 32"
  shows "Trie_Get (the (puts (Some Trie_empty) (storage_entries (ws_storage w) a))) k = Some (map_of (ws_storage w) (a, k))"
proof -
  obtain t where t: "puts (Some Trie_empty) (storage_entries (ws_storage w) a) = Some t"
    "\<And>k. length k = 32 \<Longrightarrow> Trie_Get t k = Some (map_of (rev (storage_entries (ws_storage w) a)) k)"
    using storage_trie_exists assms(1) unfolding ws_ok_def by blast
  have inj: "distinct (map fst m) \<Longrightarrow> distinct (map fst (storage_entries m a))" for m
    by (induction m) (auto simp: storage_entries_def image_iff)
  then have "distinct (map fst (storage_entries (ws_storage w) a))"
    using assms(1) distinct_keys by (auto simp: ws_ok_def)
  moreover have "map_of (storage_entries m a) k = map_of m (a, k)" for m
    by (induction m) (auto simp: storage_entries_def)
  ultimately show ?thesis using t assms(2) by (simp add: map_of_rev_distinct)
qed

lemma account_bytes_inject:
  assumes "account_sized a" "account_sized b" "length r = length s"
    and "account_bytes a r = account_bytes b s"
  shows "acc_nonce a = acc_nonce b \<and> acc_balance a = acc_balance b \<and> acc_code_hash a = acc_code_hash b \<and> r = s"
  using assms by (auto simp: account_bytes_def account_sized_def)

text \<open>The observable part of an account: what the queries of the class return.\<close>

definition same_account :: "WorldState \<Rightarrow> WorldState \<Rightarrow> Address \<Rightarrow> bool" where
  "same_account w w' a \<longleftrightarrow> AccountExists w a = AccountExists w' a \<and> GetNonce w a = GetNonce w' a
     \<and> GetBalance w a = GetBalance w' a
     \<and> map_option acc_code_hash (GetAccount w a) = map_option acc_code_hash (GetAccount w' a)
     \<and> (AccountExists w a \<longrightarrow> (\<forall>k. length k = 32 \<longrightarrow> GetStorage w a k = GetStorage w' a k))"

lemma state_root_binding:
  assumes ok: "ws_ok w" "ws_ok w'" and root: "state_root w = state_root w'"
    and unbroken: "\<not> sha_broken (state_strings w \<union> state_strings w')" and a: "length a = 20"
  shows "same_account w w' a"
proof -
  have sub: "\<not> sha_broken S" if "S \<subseteq> state_strings w \<union> state_strings w'" for S
    using unbroken sha_broken_mono [OF _ that] by blast
  have "\<not> sha_broken (set (hashed_strings (state_trie w)) \<union> set (hashed_strings (state_trie w')))"
    by (rule sub) (auto simp: state_strings_def)
  then have "state_trie w = state_trie w'"
    using trie_root_binding [OF _ state_trie_get(1) [OF ok(1)] state_trie_get(1) [OF ok(2)]] root
    by (auto simp: state_root_def)
  then have entry: "map_option (\<lambda>acc. account_bytes acc (storage_root (ws_storage w) a)) (map_of (ws_accounts w) a)
      = map_option (\<lambda>acc. account_bytes acc (storage_root (ws_storage w') a)) (map_of (ws_accounts w') a)"
    using state_trie_get(2) [OF ok(1) a] state_trie_get(2) [OF ok(2) a] by simp
  show ?thesis
  proof (cases "map_of (ws_accounts w) a")
    case None
    then show ?thesis
      using entry by (simp add: same_account_def AccountExists_def GetNonce_def GetBalance_def GetAccount_def)
  next
    case (Some x)
    then obtain y where y: "map_of (ws_accounts w') a = Some y"
      and eq: "account_bytes x (storage_root (ws_storage w) a) = account_bytes y (storage_root (ws_storage w') a)"
      using entry by (cases "map_of (ws_accounts w') a") auto
    have "account_sized x" "account_sized y"
      using map_of_SomeD [OF Some] map_of_SomeD [OF y] ok by (auto simp: ws_ok_def sized_def)
    note xy = account_bytes_inject [OF this _ eq, simplified]
    let ?t = "\<lambda>w. the (puts (Some Trie_empty) (storage_entries (ws_storage w) a))"
    have "trie_ok 32 (?t w)" "trie_ok 32 (?t w')"
      using storage_trie_exists [of w a] storage_trie_exists [of w' a] ok by (auto simp: ws_ok_def)
    moreover have "set (hashed_strings (?t w)) \<subseteq> state_strings w" "set (hashed_strings (?t w')) \<subseteq> state_strings w'"
      using map_of_SomeD [OF Some] map_of_SomeD [OF y] by (auto simp: state_strings_def intro!: bexI [rotated])
    then have "\<not> sha_broken (set (hashed_strings (?t w)) \<union> set (hashed_strings (?t w')))"
      by (intro sub) blast
    ultimately have "?t w = ?t w'"
      using trie_root_binding [of 32 "?t w" "?t w'"] xy by (auto simp: storage_root_def)
    then have "GetStorage w a k = GetStorage w' a k" if "length k = 32" for k
      using storage_trie_get [OF ok(1) that, of a] storage_trie_get [OF ok(2) that, of a] by (simp add: GetStorage_def)
    then show ?thesis
      using Some y xy by (simp add: same_account_def AccountExists_def GetNonce_def GetBalance_def GetAccount_def)
  qed
qed

lemma orphan_storage_root:
  assumes "\<not> AccountExists w a"
  shows "state_root (SetStorage w a k v) = state_root w"
proof -
  let ?w = "SetStorage w a k v"
  have root: "storage_root (ws_storage ?w) b = storage_root (ws_storage w) b" if "b \<noteq> a" for b
    using storage_entries_other [OF that] by (simp add: SetStorage_def MarkAccountDirty_def Let_def storage_root_def)
  have other: "b \<noteq> a" if "(b, acc) \<in> set (ws_accounts w)" for b acc
    using that assms by (auto simp: AccountExists_def map_of_eq_None_iff rev_image_eqI)
  have entries: "account_entries ?w (ws_accounts w) = account_entries w (ws_accounts w)"
    unfolding account_entries_def by (intro map_cong refl) (auto simp: root dest!: other)
  have "ws_accounts ?w = ws_accounts w" by (simp add: SetStorage_def MarkAccountDirty_def Let_def)
  then show ?thesis by (simp only: entries state_root_def state_trie_def)
qed

subsection \<open>Properties\<close>

text \<open>
  C19. The cached state root is never stale: in every state that the operations, snapshots and earlier
  root calculations reach, \<open>CalculateStateRoot\<close> returns the root computed from the accounts and the
  storage alone, and changes neither.
\<close>

theorem cached_root_is_fresh:
  assumes "ws_reach w"
  shows "\<exists>w'. CalculateStateRoot w = Some (state_root w, w')
    \<and> ws_accounts w' = ws_accounts w \<and> ws_storage w' = ws_storage w"
  using CalculateStateRoot_correct [OF ws_reach_ok [OF assms]] by blast

definition sample_world :: WorldState where
  "sample_world = SetStorage (SetNonce WorldState_init (replicate 20 1) 7) (replicate 20 1) zero256 (replicate 32 2)"

lemma sample_world_reach: "ws_reach sample_world"
  unfolding sample_world_def by (intro ws_reach.storage ws_reach.nonce ws_reach.init) simp_all

theorem cached_root_is_fresh_witness:
  "\<exists>w'. CalculateStateRoot sample_world = Some (state_root sample_world, w') \<and> GetNonce w' (replicate 20 1) = 7"
  using cached_root_is_fresh [OF sample_world_reach]
  by (auto simp: GetNonce_def) (simp add: sample_world_def SetStorage_def MarkAccountDirty_def SetNonce_def
      WorldState_init_def Let_def AccountState_init_def account_at_def)

text \<open>
  C20. The state root commits to the state: two reachable states with one root have the same accounts, with
  the same nonces, balances, code hashes and storage, unless a SHA-256 collision or a preimage of the zero
  hash is among the strings hashed for them. (Storage under an address without an account is not covered.)
\<close>

theorem state_root_commits:
  assumes "ws_reach w" and "ws_reach w'" and "CalculateStateRoot w = Some (r, v)" and "CalculateStateRoot w' = Some (r, v')"
    and "length a = 20"
  shows "same_account w w' a \<or> sha_broken (state_strings w \<union> state_strings w')"
proof -
  have "state_root w = state_root w'"
    using CalculateStateRoot_correct [OF ws_reach_ok [OF assms(1)]] CalculateStateRoot_correct [OF ws_reach_ok [OF assms(2)]]
      assms(3,4) by auto
  then show ?thesis using state_root_binding ws_reach_ok assms by blast
qed

theorem state_root_commits_witness:
  "let w = SetStorage WorldState_init (replicate 20 1) zero256 (replicate 32 2) in
     same_account WorldState_init w (replicate 20 5) \<or> sha_broken (state_strings WorldState_init \<union> state_strings w)"
proof -
  let ?w = "SetStorage WorldState_init (replicate 20 1) zero256 (replicate 32 2)"
  have reach: "ws_reach WorldState_init" "ws_reach ?w"
    by (auto intro!: ws_reach.init ws_reach.storage)
  have "state_root ?w = state_root WorldState_init"
    by (rule orphan_storage_root) (simp add: AccountExists_def WorldState_init_def)
  then obtain v v' where "CalculateStateRoot WorldState_init = Some (state_root ?w, v)"
    "CalculateStateRoot ?w = Some (state_root ?w, v')"
    using CalculateStateRoot_correct [OF ws_reach_ok [OF reach(1)]] CalculateStateRoot_correct [OF ws_reach_ok [OF reach(2)]]
    by metis
  from state_root_commits [OF reach this, of "replicate 20 5"] show ?thesis by (simp add: Let_def)
qed

end
