(* ===== verification/Uint256_Arith.thy ===== *)
theory Uint256_Arith
  imports Uint256
begin

section \<open>The 256-bit arithmetic against the numbers\<close>

text \<open>
  What the array operations of \<open>Uint256\<close> compute on the numbers \<open>be_val\<close>: long division by the
  invariant of its loop, the bitwise operations by extensionality on bits, the shifts by the lists
  their loops build, and the multiplication as far as it is one.
\<close>

subsection \<open>Bits of an array\<close>

lemma bit_concat_nat: "y < 2 ^ m \<Longrightarrow> bit (x * 2 ^ m + y) k = (if k < m then bit y k else bit (x :: nat) (k - m))"
proof -
  assume y: "y < 2 ^ m"
  show ?thesis
  proof (cases "k < m")
    case True
    then have m: "(2 :: nat) ^ m = 2 ^ k * 2 ^ (m - k)" by (simp flip: power_add)
    have "(x * 2 ^ m + y) div 2 ^ k = x * 2 ^ (m - k) + y div 2 ^ k"
      unfolding m by (simp add: mult.left_commute [of x])
    then show ?thesis using True by (simp add: bit_iff_odd)
  next
    case False
    then have k: "(2 :: nat) ^ k = 2 ^ m * 2 ^ (k - m)" by (simp flip: power_add)
    have "(x * 2 ^ m + y) div 2 ^ k = x div 2 ^ (k - m)"
      unfolding k using y by (simp add: div_mult2_eq)
    then show ?thesis using False by (simp add: bit_iff_odd)
  qed
qed

lemma pow256: "(256 :: nat) ^ n = 2 ^ (8 * n)"
  by (simp add: power_mult)

lemma bit_unat: "bit (unat (x :: u8)) k = bit x k"
  by (simp add: bit_unsigned_iff)

lemma be_val_bit: "k < 8 * length a \<Longrightarrow> bit (be_val a) k = bit (a ! (length a - 1 - k div 8)) (k mod 8)"
proof (induction a)
  case (Cons b bs)
  have split: "bit (be_val (b # bs)) k = (if k < 8 * length bs then bit (be_val bs) k else bit (unat b) (k - 8 * length bs))"
    using bit_concat_nat [of "be_val bs" "8 * length bs" "unat b" k] be_val_less [of bs] by (simp add: pow256)
  show ?case
  proof (cases "k < 8 * length bs")
    case True
    then have "length bs - k div 8 = Suc (length bs - 1 - k div 8)" by auto
    then show ?thesis using True split Cons.IH by simp
  next
    case False
    then obtain r where k: "k = 8 * length bs + r" by (metis not_less le_iff_add)
    then have "r < 8" using Cons.prems by simp
    then have "k div 8 = length bs" "k mod 8 = r" unfolding k by simp_all
    then show ?thesis using split k by (simp add: bit_unat)
  qed
qed simp

lemma be_val_update:
  "n < length xs \<Longrightarrow> be_val (xs[n := x]) + unat (xs ! n) * 256 ^ (length xs - 1 - n)
     = be_val xs + unat x * 256 ^ (length xs - 1 - n)"
proof (induction xs arbitrary: n)
  case (Cons y ys)
  then show ?case by (cases n) (simp_all add: algebra_simps)
qed simp

lemma be_val_last: "xs \<noteq> [] \<Longrightarrow> be_val xs mod 256 = unat (xs ! (length xs - 1))"
proof (induction xs rule: rev_induct)
  case (snoc x xs)
  then show ?case using unat8_lt256 [of x] by (simp add: be_val_append nth_append)
qed simp

lemma unat_set_bit: "k < 8 \<Longrightarrow> \<not> bit (x :: u8) k \<Longrightarrow> unat (x OR push_bit k 1) = unat x + 2 ^ k"
proof -
  assume k: "k < 8" and off: "\<not> bit x k"
  have "unat (push_bit k 1 :: u8) = 2 ^ k"
  proof -
    have "k \<in> {0, 1, 2, 3, 4, 5, 6, 7}" using k by auto
    then show ?thesis by auto
  qed
  then have "unat (x OR push_bit k 1) = unat x OR 2 ^ k" by (simp add: unsigned_or_eq)
  also have "\<dots> = unat x + 2 ^ k"
    by (rule disjunctive_add [symmetric]) (use off in \<open>auto simp: bit_unat bit_exp_iff\<close>)
  finally show ?thesis .
qed

lemma be_val_set_bit:
  assumes "length q = 32" and "i < 256" and "\<not> bit (be_val q) (255 - i)"
  shows "be_val (q[i div 8 := q ! (i div 8) OR push_bit (7 - i mod 8) 1]) = be_val q + 2 ^ (255 - i)"
proof -
  obtain m r where i: "i = 8 * m + r" and r: "r < 8" "m < 32"
    using that [of "i div 8" "i mod 8"] assms(2) by simp
  have k: "255 - i = 8 * (31 - m) + (7 - r)" using r unfolding i by simp
  have pos: "(8 * a + c) div 8 = a" "(8 * a + c) mod 8 = c" if "c < 8" for a c :: nat using that by simp_all
  have "7 - r < 8" by simp
  note idx = pos [OF this, of "31 - m", folded k] pos [OF r(1), of m, folded i]
  have "\<not> bit (q ! m) (7 - r)"
    using be_val_bit [of "255 - i" q] assms idx r by simp
  then have u: "unat (q ! m OR push_bit (7 - r) 1) = unat (q ! m) + 2 ^ (7 - r)"
    by (intro unat_set_bit) auto
  have "(2 :: nat) ^ (7 - r) * 256 ^ (31 - m) = 2 ^ (255 - i)"
    unfolding k by (simp add: pow256 power_add)
  then show ?thesis
    using be_val_update [of m q "q ! m OR push_bit (7 - r) 1"] assms(1) r
    by (simp add: u [simplified] idx algebra_simps)
qed

subsection \<open>Division\<close>

lemma shl1_bytes_val:
  "length (fst (shl1_bytes rs)) = length rs \<and> unat (snd (shl1_bytes rs)) \<le> 1
     \<and> be_val (fst (shl1_bytes rs)) + unat (snd (shl1_bytes rs)) * 256 ^ length rs = 2 * be_val rs"
proof (induction rs)
  case (Cons r rs)
  obtain t c where tc: "shl1_bytes rs = (t, c)" by force
  let ?s = "push_bit 1 (ucast r) OR c :: 16 word"
  have "unat c = 0 \<or> unat c = 1" using Cons.IH tc by auto
  then have c: "c = 0 \<or> c = 1" by (simp add: word_unat_eq_iff)
  have p: "unat (push_bit 1 (ucast r) :: 16 word) = 2 * unat r"
    using unat8_lt256 [of r] by (simp add: push_bit_eq_mult unat_word_ariths unat_ucast16)
  have "unat ?s = 2 * unat r + unat c"
  proof (cases "c = 0")
    case False
    then have "c = 1" using c by simp
    then have "?s = push_bit 1 (ucast r) + 1" by (simp add: or_one_eq even_push_bit_iff)
    then show ?thesis using p \<open>c = 1\<close> unat8_lt256 [of r] by (simp add: unat_word_ariths)
  qed (use p in simp)
  then have split: "unat (ucast (?s AND 0xFF) :: u8) + 256 * unat (drop_bit 8 ?s) = 2 * unat r + unat c"
    using byte_split16 [of ?s] by simp
  then have "unat (drop_bit 8 ?s) \<le> 1" using unat8_lt256 [of r] c by auto
  moreover have "(unat (ucast (?s AND 0xFF) :: u8) + 256 * unat (drop_bit 8 ?s)) * 256 ^ length rs
      = (2 * unat r + unat c) * 256 ^ length rs"
    using split by simp
  moreover have "shl1_bytes (r # rs) = (ucast (?s AND 0xFF) # t, drop_bit 8 ?s)"
    using tc by (simp add: Let_def)
  ultimately show ?case
    using Cons.IH tc by (simp add: algebra_simps)
qed simp


lemma length_shl1 [simp]: "length (fst (shl1_bytes rs)) = length rs"
  using shl1_bytes_val [of rs] by simp

lemma shl1_bytes_exact: "2 * be_val rs < 256 ^ length rs \<Longrightarrow> be_val (fst (shl1_bytes rs)) = 2 * be_val rs"
proof -
  assume small: "2 * be_val rs < 256 ^ length rs"
  have "unat (snd (shl1_bytes rs)) = 0"
  proof (rule ccontr)
    assume "unat (snd (shl1_bytes rs)) \<noteq> 0"
    then have "1 * 256 ^ length rs \<le> unat (snd (shl1_bytes rs)) * 256 ^ length rs"
      by (intro mult_right_mono) auto
    then show False using small shl1_bytes_val [of rs] by linarith
  qed
  then show ?thesis using shl1_bytes_val [of rs] by simp
qed

lemma unat_or_one: "\<not> bit (x :: u8) 0 \<Longrightarrow> unat (x OR 1) = unat x + 1"
  using unat_set_bit [of 0 x] by simp

text \<open>The value of the dividend's first \<open>i\<close> bits.\<close>

definition prefix_val :: "nat \<Rightarrow> bytes \<Rightarrow> nat" where
  "prefix_val i a = be_val a div 2 ^ (256 - i)"

lemma prefix_val_0: "length a = 32 \<Longrightarrow> prefix_val 0 a = 0"
  using be_val_less [of a] by (simp add: prefix_val_def pow256)

lemma prefix_val_256: "prefix_val 256 a = be_val a"
  by (simp add: prefix_val_def)

lemma prefix_val_less: "length a = 32 \<Longrightarrow> i \<le> 256 \<Longrightarrow> prefix_val i a < 2 ^ i"
proof -
  assume len: "length a = 32" and i: "i \<le> 256"
  then have "(256 :: nat) ^ 32 = 2 ^ i * 2 ^ (256 - i)" by (simp add: pow256 flip: power_add)
  then show ?thesis using be_val_less [of a] len by (simp add: prefix_val_def less_mult_imp_div_less)
qed

lemma dividend_bit_val: "length a = 32 \<Longrightarrow> i < 256 \<Longrightarrow> dividend_bit a i \<longleftrightarrow> bit (be_val a) (255 - i)"
proof -
  assume len: "length a = 32" and i: "i < 256"
  obtain m r where ir: "i = 8 * m + r" and r: "r < 8" "m < 32"
    using that [of "i div 8" "i mod 8"] i by simp
  have k: "255 - i = 8 * (31 - m) + (7 - r)" using r unfolding ir by simp
  have pos: "(8 * a + c) div 8 = a" "(8 * a + c) mod 8 = c" if "c < 8" for a c :: nat using that by simp_all
  have "7 - r < 8" by simp
  note idx = pos [OF this, of "31 - m", folded k] pos [OF r(1), of m, folded ir]
  show ?thesis using be_val_bit [of "255 - i" a] len i r by (simp add: dividend_bit_def idx)
qed

lemma prefix_val_Suc:
  "length a = 32 \<Longrightarrow> i < 256 \<Longrightarrow> prefix_val (Suc i) a = 2 * prefix_val i a + (if dividend_bit a i then 1 else 0)"
proof -
  assume "length a = 32" "i < 256"
  then have b: "dividend_bit a i \<longleftrightarrow> odd (be_val a div 2 ^ (255 - i))"
    by (simp add: dividend_bit_val bit_iff_odd)
  have "256 - i = Suc (255 - i)" using \<open>i < 256\<close> by simp
  then have "(2 :: nat) ^ (256 - i) = 2 ^ (255 - i) * 2" by simp
  then have "prefix_val i a = (be_val a div 2 ^ (255 - i)) div 2"
    by (simp only: prefix_val_def div_mult2_eq)
  then show ?thesis using b by (simp add: prefix_val_def)
qed

lemma shift_in_val:
  assumes "length r = 32" and "2 * be_val r + 1 < 256 ^ 32"
  shows "length (shift_in a i r) = 32 \<and> be_val (shift_in a i r) = 2 * be_val r + (if dividend_bit a i then 1 else 0)"
proof -
  let ?s = "fst (shl1_bytes r)"
  have len: "length ?s = 32" and val: "be_val ?s = 2 * be_val r"
    using assms shl1_bytes_exact [of r] by simp_all
  have "\<not> bit (be_val ?s) 0" unfolding val by (simp add: bit_0)
  moreover have "r \<noteq> []" using assms(1) by auto
  ultimately have "\<not> bit (?s ! 31) 0" using be_val_bit [of 0 ?s] len by simp
  then have "be_val (?s[31 := ?s ! 31 OR 1]) = be_val ?s + 1"
    using be_val_update [of 31 ?s "?s ! 31 OR 1"] len by (simp add: unat_or_one)
  then show ?thesis using len val by (simp add: shift_in_def Let_def)
qed

text \<open>After \<open>i\<close> steps the remainder is that of the prefix and the quotient its quotient, shifted into place.\<close>

definition div_inv :: "bytes \<Rightarrow> bytes \<Rightarrow> nat \<Rightarrow> bytes \<times> bytes \<Rightarrow> bool" where
  "div_inv a b i qr \<longleftrightarrow> length (fst qr) = 32 \<and> length (snd qr) = 32
     \<and> be_val (snd qr) = prefix_val i a mod be_val b
     \<and> be_val (fst qr) = (prefix_val i a div be_val b) * 2 ^ (256 - i)"

lemma double_div_mod:
  "0 < m \<Longrightarrow> c \<le> 1 \<Longrightarrow> (2 * x + c) div m = 2 * (x div m) + (if 2 * (x mod m) + c < m then 0 else 1)
     \<and> (2 * x + c) mod m = (if 2 * (x mod m) + c < m then 2 * (x mod m) + c else 2 * (x mod m) + c - (m :: nat))"
proof -
  assume m: "0 < m" and c: "c \<le> 1"
  define q r where "q = x div m" and "r = x mod m"
  have r: "r < m" and x: "x = q * m + r" using m by (simp_all add: q_def r_def)
  have key: "z div m = k \<and> z mod m = s" if "z = s + k * m" "s < m" for z s k :: nat
    using that by simp
  show ?thesis
  proof (cases "2 * r + c < m")
    case True
    with key [of "2 * x + c" "2 * r + c" "2 * q"] show ?thesis
      unfolding x by (simp add: algebra_simps flip: q_def r_def x)
  next
    case False
    with key [of "2 * x + c" "2 * r + c - m" "2 * q + 1"] r c show ?thesis
      unfolding x by (simp add: algebra_simps flip: q_def r_def x)
  qed
qed

lemma div_step_inv:
  assumes len: "length a = 32" "length b = 32" and b: "0 < be_val b" and i: "i < 256" and inv: "div_inv a b i qr"
  shows "div_inv a b (Suc i) (div_step a b qr i) \<and> snd (div_step a b qr i) = mod_step a b (snd qr) i"
proof -
  obtain q r where qr: "qr = (q, r)" by force
  let ?P = "prefix_val i a" and ?B = "be_val b" and ?c = "if dividend_bit a i then 1 else 0 :: nat"
  have q: "length q = 32" "be_val q = (?P div ?B) * 2 ^ (256 - i)" and r: "length r = 32" "be_val r = ?P mod ?B"
    using inv qr by (simp_all add: div_inv_def)
  have "?P < 2 ^ i" using prefix_val_less [OF len(1)] i by simp
  then have "be_val r < 2 ^ i" using mod_less_eq_dividend [of ?P ?B] unfolding r(2) by (rule order.strict_trans1 [rotated])
  then have "2 * be_val r + 1 < 2 ^ Suc i" by simp
  also have "(2 :: nat) ^ Suc i \<le> 256 ^ 32" using i power_increasing [of "Suc i" 256 "2 :: nat"] by (simp add: pow256)
  finally have s: "length (shift_in a i r) = 32" "be_val (shift_in a i r) = 2 * (?P mod ?B) + ?c"
    using shift_in_val [OF r(1), of a i] r(2) by auto
  have dm: "prefix_val (Suc i) a div ?B = 2 * (?P div ?B) + (if 2 * (?P mod ?B) + ?c < ?B then 0 else 1)"
    "prefix_val (Suc i) a mod ?B = (if 2 * (?P mod ?B) + ?c < ?B then 2 * (?P mod ?B) + ?c else 2 * (?P mod ?B) + ?c - ?B)"
    using double_div_mod [OF b, of ?c ?P] prefix_val_Suc [OF len(1) i] by simp_all
  have half: "(2 :: nat) ^ (256 - i) = 2 * 2 ^ (256 - Suc i)" using i by (simp flip: power_Suc add: Suc_diff_Suc)
  have "\<not> bit (be_val q) (255 - i)"
    unfolding q(2) half using bit_concat_nat [of 0 "256 - i" "2 * (?P div ?B)" "255 - i"] i
    by (simp add: bit_iff_odd mult.assoc)
  then have set: "be_val (q[i div 8 := q ! (i div 8) OR push_bit (7 - i mod 8) 1]) = be_val q + 2 ^ (255 - i)"
    using be_val_set_bit [OF q(1) i] by simp
  have lt: "U_Lt (shift_in a i r) b \<longleftrightarrow> 2 * (?P mod ?B) + ?c < ?B"
    using U_Lt_val [of "shift_in a i r" b] s len by simp
  show ?thesis
  proof (cases "U_Lt (shift_in a i r) b")
    case True
    then have "div_step a b qr i = (q, shift_in a i r)" "mod_step a b (snd qr) i = shift_in a i r"
      by (simp_all add: qr div_step_def mod_step_def Let_def)
    then show ?thesis using True lt q s dm half by (simp add: div_inv_def)
  next
    case False
    then have "div_step a b qr i = (q[i div 8 := q ! (i div 8) OR push_bit (7 - i mod 8) 1], U_Sub (shift_in a i r) b)"
      "mod_step a b (snd qr) i = U_Sub (shift_in a i r) b"
      by (simp_all add: qr div_step_def mod_step_def Let_def)
    moreover have "be_val (U_Sub (shift_in a i r) b) = 2 * (?P mod ?B) + ?c - ?B"
      using False lt s len by (subst U_Sub_exact) simp_all
    moreover have "256 - Suc i = 255 - i" by simp
    ultimately show ?thesis using False lt q s dm half set len by (simp add: div_inv_def algebra_simps)
  qed
qed

lemma div_loop_inv:
  assumes "length a = 32" "length b = 32" "0 < be_val b" and "i \<le> 256"
  shows "div_inv a b i (foldl (div_step a b) (zero256, zero256) [0..<i])
    \<and> foldl (mod_step a b) zero256 [0..<i] = snd (foldl (div_step a b) (zero256, zero256) [0..<i])"
  using assms(4)
proof (induction i)
  case 0
  then show ?case using prefix_val_0 [OF assms(1)] by (simp add: div_inv_def)
next
  case (Suc i)
  then show ?case using div_step_inv [OF assms(1-3), of i "foldl (div_step a b) (zero256, zero256) [0..<i]"] by simp
qed

lemma U_Div_val: "length a = 32 \<Longrightarrow> length b = 32 \<Longrightarrow> length (U_Div a b) = 32 \<and> be_val (U_Div a b) = be_val a div be_val b"
  using div_loop_inv [of a b 256] prefix_val_256 [of a]
  by (cases "be_val b = 0") (simp_all add: U_Div_def U_IsZero_val div_inv_def)

lemma U_Mod_val: "length a = 32 \<Longrightarrow> length b = 32 \<Longrightarrow> 0 < be_val b
    \<Longrightarrow> length (U_Mod a b) = 32 \<and> be_val (U_Mod a b) = be_val a mod be_val b"
  using div_loop_inv [of a b 256] prefix_val_256 [of a]
  by (simp add: U_Mod_def U_IsZero_val div_inv_def)

lemma U_Mod_zero: "be_val b = 0 \<Longrightarrow> U_Mod a b = zero256"
  by (simp add: U_Mod_def U_IsZero_val)

subsection \<open>Bitwise operations\<close>

lemma be_val_high_bit: "8 * length a \<le> k \<Longrightarrow> \<not> bit (be_val a) k"
proof -
  assume "8 * length a \<le> k"
  then have "(256 :: nat) ^ length a \<le> 2 ^ k" by (simp add: pow256 power_increasing)
  then have "be_val a < 2 ^ k" using be_val_less [of a] by linarith
  then show ?thesis by (simp add: bit_iff_odd)
qed

lemma be_val_map2:
  assumes "length a = length b" and f: "\<And>x y k. k < 8 \<Longrightarrow> bit (f x y) k = g (bit x k) (bit y k)"
    and h: "\<And>m n k. bit (h m n) k = g (bit m k) (bit (n :: nat) k)" and "g False False = False"
  shows "be_val (map2 f a b) = h (be_val a) (be_val b)"
proof (rule bit_eqI)
  fix k
  show "bit (be_val (map2 f a b)) k = bit (h (be_val a) (be_val b)) k"
  proof (cases "k < 8 * length a")
    case True
    then have "length a - 1 - k div 8 < length a" by (cases a) auto
    then show ?thesis using True assms by (simp add: be_val_bit)
  next
    case False
    then show ?thesis using assms be_val_high_bit [of a k] be_val_high_bit [of b k] be_val_high_bit [of "map2 f a b" k]
      by simp
  qed
qed

lemma U_And_val: "length a = length b \<Longrightarrow> be_val (U_And a b) = be_val a AND be_val b"
  unfolding U_And_def by (rule be_val_map2 [where g = "(\<and>)"]) (simp_all add: bit_and_iff)

lemma U_Or_val: "length a = length b \<Longrightarrow> be_val (U_Or a b) = be_val a OR be_val b"
  unfolding U_Or_def by (rule be_val_map2 [where g = "(\<or>)"]) (simp_all add: bit_or_iff)

lemma U_Xor_val: "length a = length b \<Longrightarrow> be_val (U_Xor a b) = be_val a XOR be_val b"
  unfolding U_Xor_def by (rule be_val_map2 [where g = "(\<noteq>)"]) (auto simp: bit_xor_iff)

lemma unat_not8: "unat (NOT (b :: u8)) + unat b = 255"
proof -
  have le: "b \<le> 255" using unat8_lt256 [of b] by (simp add: word_le_nat_alt)
  have "NOT b = 255 - b" by (simp add: not_eq_complement)
  then show ?thesis using unat_sub [OF le] unat8_lt256 [of b] by simp
qed

lemma U_Not_val: "be_val (U_Not a) + be_val a + 1 = 256 ^ length a"
proof (induction a)
  case (Cons b bs)
  have "unat (NOT b) * 256 ^ length bs + unat b * 256 ^ length bs = 255 * 256 ^ length bs"
    using unat_not8 [of b] by (simp flip: distrib_right)
  then show ?case using Cons by (simp add: U_Not_def)
qed (simp add: U_Not_def)

subsection \<open>Shifts\<close>

lemma foldl_move_left:
  "n + k \<le> length v \<Longrightarrow> length (foldl (\<lambda>r j. r[j := r ! (j + k)]) v [0..<n]) = length v
    \<and> (\<forall>i < length v. foldl (\<lambda>r j. r[j := r ! (j + k)]) v [0..<n] ! i = (if i < n then v ! (i + k) else v ! i))"
  by (induction n) (auto simp: nth_list_update)

lemma foldl_clear:
  "length (foldl (\<lambda>r j. r[j := x]) v [m..<n]) = length v
    \<and> (\<forall>i < length v. foldl (\<lambda>r j. r[j := x]) v [m..<n] ! i = (if m \<le> i \<and> i < n then x else v ! i))"
proof (induction n)
  case (Suc n)
  then show ?case
    by (cases "n < length v") (auto simp: nth_list_update less_Suc_eq list_update_beyond not_less)
qed simp

lemma foldl_move_right:
  assumes "m \<le> length v"
  shows "length (foldl (\<lambda>r j. r[j := r ! (j - k)]) v (rev [m..<length v])) = length v
    \<and> (\<forall>i < length v. foldl (\<lambda>r j. r[j := r ! (j - k)]) v (rev [m..<length v]) ! i = (if m \<le> i then v ! (i - k) else v ! i))"
  using assms
proof (induction m rule: inc_induct)
  case (step m)
  have "rev [m..<length v] = rev [Suc m..<length v] @ [m]" using step by (simp add: upt_rec)
  then show ?case using step by (auto simp: nth_list_update)
qed simp

lemma moved_left:
  "k \<le> length v \<Longrightarrow> foldl (\<lambda>r j. r[j := 0]) (foldl (\<lambda>r j. r[j := r ! (j + k)]) v [0..<length v - k]) [length v - k..<length v]
     = drop k v @ replicate k (0 :: u8)"
  using foldl_move_left [of "length v - k" k v]
    foldl_clear [of 0 "foldl (\<lambda>r j. r[j := r ! (j + k)]) v [0..<length v - k]" "length v - k" "length v"]
  by (intro nth_equalityI) (auto simp: nth_append add.commute)

lemma moved_right:
  "k \<le> length v \<Longrightarrow> foldl (\<lambda>r j. r[j := 0]) (foldl (\<lambda>r j. r[j := r ! (j - k)]) v (rev [k..<length v])) [0..<k]
     = replicate k (0 :: u8) @ take (length v - k) v"
  using foldl_move_right [of k v k] foldl_clear [of 0 "foldl (\<lambda>r j. r[j := r ! (j - k)]) v (rev [k..<length v])" 0 k]
  by (intro nth_equalityI) (auto simp: nth_append)

lemma be_val_take: "n \<le> length v \<Longrightarrow> be_val (take (length v - n) v) = be_val v div 256 ^ n"
proof -
  assume n: "n \<le> length v"
  have "be_val (drop (length v - n) v) < 256 ^ n" using be_val_less [of "drop (length v - n) v"] n by simp
  then show ?thesis
    using be_val_append [of "take (length v - n) v" "drop (length v - n) v"] n by simp
qed

lemma be_val_drop: "n \<le> length v \<Longrightarrow> be_val (drop n v) = be_val v mod 256 ^ (length v - n)"
proof -
  assume n: "n \<le> length v"
  have "be_val (drop n v) < 256 ^ (length v - n)" using be_val_less [of "drop n v"] by simp
  then show ?thesis using be_val_append [of "take n v" "drop n v"] by simp
qed

text \<open>The loops over the bits, \<open>0 < k < 8\<close>.\<close>

lemma mult_split: "(x :: nat) * n = (x mod p) * n + p * ((x div p) * n)"
  by (metis distrib_right mod_mult_div_eq mult.assoc)

lemma shl_byte: "0 < k \<Longrightarrow> k < 8 \<Longrightarrow> unat c < 2 ^ k
    \<Longrightarrow> unat (push_bit k (r :: u8) OR c) + 256 * unat (drop_bit (8 - k) r) = 2 ^ k * unat r + unat c"
proof -
  assume k: "0 < k" "k < 8" and c: "unat c < 2 ^ k"
  let ?h = "unat r div 2 ^ (8 - k)" and ?l = "unat r mod 2 ^ (8 - k)"
  have p: "(2 :: nat) ^ k * 2 ^ (8 - k) = 256" using k by (simp flip: power_add)
  have "unat (push_bit k r) = take_bit 8 (push_bit k (unat r))" by (simp add: unsigned_push_bit_eq)
  also have "\<dots> = ?l * 2 ^ k"
    by (simp add: push_bit_eq_mult take_bit_eq_mod mult_mod_left p [unfolded mult.commute [of "2 ^ k"]])
  finally have hi: "unat (push_bit k r) = ?l * 2 ^ k" .
  have "unat (push_bit k r OR c) = unat (push_bit k r) OR unat c" by (simp add: unsigned_or_eq)
  also have "\<dots> = ?l * 2 ^ k + unat c"
    unfolding hi
  proof (rule disjunctive_add [symmetric])
    show "\<not> bit (?l * 2 ^ k) n \<or> \<not> bit (unat c) n" for n
      using bit_concat_nat [of 0 k ?l n] c bit_concat_nat [of "unat c" k 0 n] by auto
  qed
  moreover have "unat (drop_bit (8 - k) r) = ?h" by (rule unat_drop_bit)
  moreover have "2 ^ k * unat r = ?l * 2 ^ k + 256 * ?h"
    using mult_split [of "unat r" "2 ^ k" "2 ^ (8 - k)"] p by (simp add: algebra_simps)
  ultimately show ?thesis by simp
qed

lemma shl_bits_val:
  "0 < k \<Longrightarrow> k < 8 \<Longrightarrow> length (fst (shl_bits k rs)) = length rs \<and> unat (snd (shl_bits k rs)) < 2 ^ k
     \<and> be_val (fst (shl_bits k rs)) + unat (snd (shl_bits k rs)) * 256 ^ length rs = 2 ^ k * be_val rs"
proof (induction rs)
  case (Cons r rs)
  obtain t c where tc: "shl_bits k rs = (t, c)" by force
  let ?x = "push_bit k r OR c" and ?d = "drop_bit (8 - k) r"
  have b: "unat ?x + 256 * unat ?d = 2 ^ k * unat r + unat c"
    using shl_byte [of k c r] Cons tc by simp
  have "unat ?d = unat r div 2 ^ (8 - k)" by (rule unat_drop_bit)
  moreover have "(2 :: nat) ^ k * 2 ^ (8 - k) = 256" using Cons.prems by (simp flip: power_add)
  ultimately have "unat ?d < 2 ^ k"
    using unat8_lt256 [of r] by (simp add: less_mult_imp_div_less)
  moreover have "(unat ?x + 256 * unat ?d) * 256 ^ length rs = (2 ^ k * unat r + unat c) * 256 ^ length rs"
    using b by simp
  moreover have "shl_bits k (r # rs) = (?x # t, ?d)" using tc by simp
  ultimately show ?case using Cons tc by (simp add: algebra_simps)
qed simp

lemma shr_bits_val:
  "0 < k \<Longrightarrow> k < 8 \<Longrightarrow> length (shr_bits k (push_bit (8 - k) c) rs) = length rs
     \<and> be_val (shr_bits k (push_bit (8 - k) c) rs) = ((unat c mod 2 ^ k) * 256 ^ length rs + be_val rs) div 2 ^ k"
proof (induction rs arbitrary: c)
  case (Cons r rs)
  have p: "(2 :: nat) ^ k * 2 ^ (8 - k) = 256" using Cons.prems by (simp flip: power_add)
  have "unat (push_bit (8 - k) c) = take_bit 8 (push_bit (8 - k) (unat c))" by (simp add: unsigned_push_bit_eq)
  also have "\<dots> = (unat c mod 2 ^ k) * 2 ^ (8 - k)"
    by (simp add: push_bit_eq_mult take_bit_eq_mod mult_mod_left p)
  finally have carry: "unat (push_bit (8 - k) c) = (unat c mod 2 ^ k) * 2 ^ (8 - k)" .
  have d: "unat (drop_bit k r) = unat r div 2 ^ k" by (rule unat_drop_bit)
  then have small: "unat (drop_bit k r) < 2 ^ (8 - k)"
    using unat8_lt256 [of r] p by (simp add: less_mult_imp_div_less mult.commute)
  have "unat (drop_bit k r OR push_bit (8 - k) c) = unat (drop_bit k r) OR unat (push_bit (8 - k) c)"
    by (simp add: unsigned_or_eq)
  also have "\<dots> = unat (drop_bit k r) + (unat c mod 2 ^ k) * 2 ^ (8 - k)"
    unfolding carry
  proof (rule disjunctive_add [symmetric])
    show "\<not> bit (unat (drop_bit k r)) n \<or> \<not> bit (unat c mod 2 ^ k * 2 ^ (8 - k)) n" for n
      using bit_concat_nat [of 0 "8 - k" "unat c mod 2 ^ k" n] bit_concat_nat [OF small, of 0 n] by auto
  qed
  finally have head: "unat (drop_bit k r OR push_bit (8 - k) c) = unat r div 2 ^ k + (unat c mod 2 ^ k) * 2 ^ (8 - k)"
    unfolding d .
  let ?n = "256 ^ length rs :: nat" and ?m = "unat c mod 2 ^ k"
  have eq: "?m * 256 ^ length (r # rs) + be_val (r # rs)
      = ((unat r mod 2 ^ k) * ?n + be_val rs) + ((unat r div 2 ^ k + ?m * 2 ^ (8 - k)) * ?n) * 2 ^ k"
  proof -
    have "256 * (?m * ?n) = (2 ^ k * 2 ^ (8 - k)) * (?m * ?n)" unfolding p ..
    then show ?thesis using mult_split [of "unat r" ?n "2 ^ k"] by (simp add: algebra_simps)
  qed
  have "(?m * 256 ^ length (r # rs) + be_val (r # rs)) div 2 ^ k
      = (unat r div 2 ^ k + ?m * 2 ^ (8 - k)) * ?n + ((unat r mod 2 ^ k) * ?n + be_val rs) div 2 ^ k"
    unfolding eq by (simp only: div_mult_self1 [OF power_not_zero [OF zero_neq_numeral [symmetric]]])
  then show ?case using Cons head by simp
qed simp

lemma le64_read: "length xs = 8 \<Longrightarrow> le64 (read_le64 xs) = xs"
  by (auto simp: numeral_eq_Suc length_Suc_conv le64_read_le64)

lemma be_val_le64: "be_val (rev (le64 v)) = unat v"
proof -
  define x where "x = unat v"
  have byte: "unat (ucast (drop_bit n v) :: u8) = x div 2 ^ n mod 256" for n
    by (simp add: x_def unsigned_ucast_eq take_bit_eq_mod unat_drop_bit del: drop_bit_eq_div)
  have byte0: "unat (ucast v :: u8) = x mod 256" using byte [of 0] by simp
  have "x < 2 ^ 64" using unsigned_less [of v, where 'a = nat] by (simp add: x_def)
  then have top: "x div 72057594037927936 mod 256 = x div 72057594037927936" by simp
  have split: "x div n = x div n mod 256 + 256 * (x div m)" if "m = n * 256" for n m
    using mod_mult_div_eq [of "x div n" 256] by (simp add: that div_mult2_eq)
  have "x = x mod 256 + 256 * (x div 256)" by simp
  moreover have "x div 256 = x div 256 mod 256 + 256 * (x div 65536)"
    "x div 65536 = x div 65536 mod 256 + 256 * (x div 16777216)"
    "x div 16777216 = x div 16777216 mod 256 + 256 * (x div 4294967296)"
    "x div 4294967296 = x div 4294967296 mod 256 + 256 * (x div 1099511627776)"
    "x div 1099511627776 = x div 1099511627776 mod 256 + 256 * (x div 281474976710656)"
    "x div 281474976710656 = x div 281474976710656 mod 256 + 256 * (x div 72057594037927936)"
    by (rule split; simp)+
  ultimately have "x = x mod 256 + 256 * (x div 256 mod 256) + 65536 * (x div 65536 mod 256) + 16777216 * (x div 16777216 mod 256) + 4294967296 * (x div 4294967296 mod 256) + 1099511627776 * (x div 1099511627776 mod 256) + 281474976710656 * (x div 281474976710656 mod 256) + 72057594037927936 * (x div 72057594037927936)"
    by linarith
  then show ?thesis by (simp add: le64_def byte byte0 top algebra_simps flip: x_def)
qed

lemma ToUint64_val: "length v = 32 \<Longrightarrow> unat (ToUint64 v) = be_val v mod 2 ^ 64"
proof -
  assume len: "length v = 32"
  have "drop 24 v = rev (le64 (ToUint64 v))"
    using le64_read [of "rev (drop 24 v)"] len by (simp add: ToUint64_def)
  then show ?thesis using be_val_drop [of 24 v] len by (simp add: be_val_le64)
qed

lemma ToUint256_val: "length (ToUint256 n) = 32 \<and> be_val (ToUint256 n) = unat n"
  by (simp add: ToUint256_def be_val_append be_val_le64)

lemma U_Shl_val:
  assumes len: "length v = 32" "length s = 32"
  shows "length (U_Shl s v) = 32 \<and> be_val (U_Shl s v) = be_val v * 2 ^ (be_val s mod 2 ^ 64) mod 2 ^ 256"
proof -
  define n where "n = be_val s mod 2 ^ 64"
  have n: "unat (ToUint64 s) = n" using ToUint64_val [OF len(2)] by (simp add: n_def)
  show ?thesis
  proof (cases "256 \<le> n")
    case True
    then have "be_val v * 2 ^ n mod 2 ^ 256 = 0" by (intro dvd_imp_mod_0 dvd_mult le_imp_power_dvd)
    then show ?thesis unfolding n_def [symmetric] using True n by (simp add: U_Shl_def Let_def)
  next
    case False
    define q r where "q = n div 8" and "r = n mod 8"
    have nqr: "n = 8 * q + r" "q < 32" "r < 8" using False by (auto simp: q_def r_def)
    let ?moved = "if q > 0 then foldl (\<lambda>r j. r[j := 0]) (foldl (\<lambda>r j. r[j := r ! (j + q)]) v [0..<32 - q]) [32 - q..<32] else v"
    have "?moved = drop q v @ replicate q 0" using moved_left [of q v] len nqr by simp
    moreover have "U_Shl s v = (if r > 0 then fst (shl_bits r ?moved) else ?moved)"
      using False n by (simp add: U_Shl_def Let_def q_def r_def)
    ultimately have shl: "U_Shl s v = (if r > 0 then fst (shl_bits r (drop q v @ replicate q 0)) else drop q v @ replicate q 0)"
      by simp
    have "be_val (drop q v @ replicate q 0) = (be_val v mod 256 ^ (32 - q)) * 256 ^ q"
      using be_val_drop [of q v] len nqr by (simp add: be_val_append)
    also have "\<dots> = be_val v * 256 ^ q mod 256 ^ 32"
      using nqr by (simp add: mult_mod_left flip: power_add)
    finally have moved: "be_val (drop q v @ replicate q 0) = be_val v * 256 ^ q mod 256 ^ 32" .
    have small: "be_val x = y mod 256 ^ 32" if "length x = 32" "be_val x + c * 256 ^ 32 = y" for x c y
    proof -
      have "be_val x < 256 ^ 32" using be_val_less [of x] that by simp
      then show ?thesis using that by (simp flip: that(2))
    qed
    have p: "(2 :: nat) ^ 256 = 256 ^ 32" by simp
    have e: "(2 :: nat) ^ n = 256 ^ q * 2 ^ r" using nqr by (simp add: power_add power_mult)
    show ?thesis
    proof (cases "r = 0")
      case True
      then show ?thesis unfolding n_def [symmetric] e p using shl moved len nqr by simp
    next
      case r: False
      then have "length (U_Shl s v) = 32 \<and> be_val (U_Shl s v) = 2 ^ r * (be_val v * 256 ^ q mod 256 ^ 32) mod 256 ^ 32"
        using shl_bits_val [of r "drop q v @ replicate q 0"] small len nqr shl moved by auto
      then show ?thesis unfolding n_def [symmetric] e p by (simp add: mod_mult_right_eq mult.commute mult.left_commute)
    qed
  qed
qed

lemma U_Shr_val:
  assumes len: "length v = 32" "length s = 32"
  shows "length (U_Shr s v) = 32 \<and> be_val (U_Shr s v) = be_val v div 2 ^ (be_val s mod 2 ^ 64)"
proof -
  define n where "n = be_val s mod 2 ^ 64"
  have n: "unat (ToUint64 s) = n" using ToUint64_val [OF len(2)] by (simp add: n_def)
  show ?thesis
  proof (cases "256 \<le> n")
    case True
    then have "(2 :: nat) ^ 256 \<le> 2 ^ n" by (rule power_increasing) simp
    moreover have "be_val v < 2 ^ 256" using be_val_less [of v] len by (simp add: pow256)
    ultimately have "be_val v < 2 ^ n" by (rule order.strict_trans2 [rotated])
    then show ?thesis unfolding n_def [symmetric] using True n by (simp add: U_Shr_def Let_def)
  next
    case False
    define q r where "q = n div 8" and "r = n mod 8"
    have nqr: "n = 8 * q + r" "q < 32" "r < 8" using False by (auto simp: q_def r_def)
    let ?moved = "if q > 0 then foldl (\<lambda>r j. r[j := 0]) (foldl (\<lambda>r j. r[j := r ! (j - q)]) v (rev [q..<32])) [0..<q] else v"
    have "?moved = replicate q 0 @ take (32 - q) v" using moved_right [of q v] len nqr by simp
    moreover have "U_Shr s v = (if r > 0 then shr_bits r 0 ?moved else ?moved)"
      using False n by (simp add: U_Shr_def Let_def q_def r_def)
    ultimately have shr: "U_Shr s v = (if r > 0 then shr_bits r 0 (replicate q 0 @ take (32 - q) v) else replicate q 0 @ take (32 - q) v)"
      by simp
    have moved: "be_val (replicate q 0 @ take (32 - q) v) = be_val v div 256 ^ q"
      using be_val_take [of q v] len nqr by (simp add: be_val_append)
    have e: "(2 :: nat) ^ n = 256 ^ q * 2 ^ r" using nqr by (simp add: power_add power_mult)
    show ?thesis unfolding n_def [symmetric] e
      using shr moved shr_bits_val [of r 0 "replicate q 0 @ take (32 - q) v"] len nqr
      by (cases "r = 0") (simp_all add: div_mult2_eq)
  qed
qed

subsection \<open>Multiplication\<close>

text \<open>The row of byte \<open>31 - k\<close> of the multiplier adds the multiplicand shifted \<^emph>\<open>right\<close> by \<open>k\<close> bytes.\<close>

lemma unat_low_byte32: "unat (ucast (p AND 0xFF :: u32) :: u8) = unat p mod 256"
proof -
  have m: "p AND 0xFF = take_bit 8 p" by (simp add: take_bit_eq_mask mask_eq_exp_minus_1)
  have "unat (p AND 0xFF) = unat p mod 256"
    unfolding m unsigned_take_bit_eq by (simp add: take_bit_eq_mod)
  then show ?thesis by (simp add: unsigned_ucast_eq take_bit_eq_mod)
qed

lemma unat_ucast32: "unat (ucast (x :: u8) :: u32) = unat x"
  using unat8_lt256 [of x] by (simp add: unsigned_ucast_eq take_bit_nat_eq_self)

lemma mul_row_shift:
  assumes "k < 32"
  shows "n \<le> 32 \<Longrightarrow> length r = 32 \<Longrightarrow> \<forall>x < 32. x < n + k \<longrightarrow> r ! x = 0 \<Longrightarrow>
    length (mul_row a 1 (31 - k) n 0 r) = 32 \<and>
    (\<forall>x < 32. mul_row a 1 (31 - k) n 0 r ! x = (if k \<le> x \<and> x < n + k then a ! (x - k) else r ! x))"
proof (induction n arbitrary: r)
  case (Suc n)
  have i: "31 - (31 - k) = k" using assms by simp
  show ?case
  proof (cases "n + k < 32")
    case True
    let ?p = "ucast (a ! n) :: u32"
    have p: "drop_bit 8 ?p = 0" "ucast (?p AND 0xFF) = a ! n"
      using unat8_lt256 [of "a ! n"]
      by (simp_all only: word_unat_eq_iff unat_low_byte32 unat_drop_bit unat_ucast32 unsigned_0) simp_all
    let ?r = "r[n + k := a ! n]"
    have "mul_row a 1 (31 - k) (Suc n) 0 r = mul_row a 1 (31 - k) n 0 ?r"
      using True Suc.prems p by (simp add: i Let_def)
    moreover have "\<forall>x < 32. x < n + k \<longrightarrow> ?r ! x = 0" using Suc.prems by simp
    note Suc.IH [OF _ _ this]
    moreover have "x - k = n" if "\<not> x < n + k" "x < Suc (n + k)" for x using that by simp
    ultimately show ?thesis using Suc.prems True by (auto simp: nth_list_update)
  next
    case False
    have "mul_row a 1 (31 - k) (Suc n) 0 r = mul_row a 1 (31 - k) n 0 r" using False by (simp add: i)
    then show ?thesis using Suc.IH [of r] Suc.prems False by auto
  qed
qed auto

lemma mul_rows_skip: "\<forall>i < n. b ! i = 0 \<Longrightarrow> mul_rows a b n r = r"
  by (induction n arbitrary: r) simp_all

lemma mul_rows_single:
  "j < n \<Longrightarrow> \<forall>i < n. i \<noteq> j \<longrightarrow> b ! i = 0 \<Longrightarrow> b ! j \<noteq> 0 \<Longrightarrow> mul_rows a b n r = mul_row a (b ! j) j 32 0 r"
proof (induction n arbitrary: r)
  case (Suc n)
  then show ?case by (cases "j = n") (auto simp: mul_rows_skip)
qed simp

lemma U_Mul_power:
  assumes "length a = 32" "length b = 32" and "be_val b = 256 ^ k" and "k < 32"
  shows "be_val (U_Mul a b) = be_val a div 256 ^ k"
proof -
  have "be_val (replicate (31 - k) 0 @ [1] @ replicate k 0) = 256 ^ k" by (simp add: be_val_append)
  then have b: "b = replicate (31 - k) 0 @ [1] @ replicate k 0"
    using be_val_inject [of b "replicate (31 - k) 0 @ [1] @ replicate k 0"] assms by simp
  then have "b ! i = (if i = 31 - k then 1 else 0)" if "i < 32" for i
    using that assms(4) by (auto simp: nth_append nth_Cons')
  then have "U_Mul a b = mul_row a 1 (31 - k) 32 0 zero256"
    using mul_rows_single [of "31 - k" 32 b a zero256] by (simp add: U_Mul_def)
  moreover have "length (mul_row a 1 (31 - k) 32 0 zero256) = 32"
    "\<forall>x < 32. mul_row a 1 (31 - k) 32 0 zero256 ! x = (if k \<le> x then a ! (x - k) else 0)"
    using mul_row_shift [OF assms(4), of 32 zero256 a] by simp_all
  ultimately have "U_Mul a b = replicate k 0 @ take (32 - k) a"
    using assms(1,4) by (intro nth_equalityI) (auto simp: nth_append)
  then show ?thesis using be_val_take [of k a] assms(1,4) by (simp add: be_val_append)
qed

lemma be_val_take_Suc: "n < length a \<Longrightarrow> be_val (take (Suc n) a) = be_val (take n a) * 256 + unat (a ! n)"
  by (simp add: take_Suc_conv_app_nth be_val_append)

lemma mul_row_value:
  "n \<le> 32 \<Longrightarrow> length a = 32 \<Longrightarrow> length r = 32 \<Longrightarrow> unat c < 256 \<Longrightarrow> \<forall>x < n. r ! x = 0 \<Longrightarrow>
    length (mul_row a m 31 n c r) = 32 \<and> drop n (mul_row a m 31 n c r) = drop n r
     \<and> (\<exists>c'. be_val (take n (mul_row a m 31 n c r)) + c' * 256 ^ n = be_val (take n a) * unat m + unat c)"
proof (induction n arbitrary: r c)
  case (Suc n)
  let ?p = "ucast (a ! n) * ucast m + ucast c :: u32"
  let ?byte = "ucast (?p AND 0xFF) :: u8" and ?carry = "ucast (drop_bit 8 ?p) :: 16 word"
  have bound: "unat (a ! n) * unat m \<le> 255 * 255"
    using unat8_lt256 [of "a ! n"] unat8_lt256 [of m] by (intro mult_mono) auto
  have uc: "unat (ucast c :: u32) = unat c"
    using Suc.prems(4) by (simp add: unsigned_ucast_eq take_bit_nat_eq_self)
  have p: "unat ?p = unat (a ! n) * unat m + unat c"
    using bound Suc.prems(4) by (simp add: unat_word_ariths unat_ucast32 uc)
  have byte: "unat ?byte = unat ?p mod 256" by (rule unat_low_byte32)
  have "unat ?p < 256 * 256" using p bound Suc.prems(4) by simp
  then have q: "unat ?p div 256 < 256" by (simp add: less_mult_imp_div_less)
  have carry: "unat ?carry = unat ?p div 256"
    using q by (simp add: unsigned_ucast_eq unat_drop_bit take_bit_nat_eq_self del: drop_bit_eq_div)
  let ?r = "r[n := ?byte]" and ?res = "mul_row a m 31 (Suc n) c r"
  have step: "?res = mul_row a m 31 n ?carry ?r" using Suc.prems by (simp add: Let_def)
  have r0: "\<forall>x < n. ?r ! x = 0" using Suc.prems by simp
  from Suc.IH [of ?r ?carry, OF _ _ _ _ r0] obtain c' where
    IH: "length ?res = 32" "drop n ?res = drop n ?r"
      "be_val (take n ?res) + c' * 256 ^ n = be_val (take n a) * unat m + unat ?carry"
    using Suc.prems carry q step by auto
  have "?res ! n = ?byte" using IH(1,2) Suc.prems by (metis Suc_le_eq hd_drop_conv_nth length_list_update nth_list_update_eq)
  then have "be_val (take (Suc n) ?res) = be_val (take n ?res) * 256 + unat ?byte"
    using be_val_take_Suc [of n ?res] IH(1) Suc.prems by simp
  moreover have "be_val (take (Suc n) a) = be_val (take n a) * 256 + unat (a ! n)"
    using be_val_take_Suc [of n a] Suc.prems by simp
  moreover have "unat ?byte + 256 * unat ?carry = unat (a ! n) * unat m + unat c"
    using byte carry p by simp
  ultimately have "be_val (take (Suc n) ?res) + c' * 256 ^ Suc n = be_val (take (Suc n) a) * unat m + unat c"
    using arg_cong [OF IH(3), of "\<lambda>x. x * 256"] by (simp add: algebra_simps)
  moreover have "drop (Suc n) ?res = drop (Suc n) r"
    using arg_cong [OF IH(2), of "drop 1"] by simp
  ultimately show ?case using IH(1) by blast
qed simp

lemma U_Mul_byte:
  assumes "length a = 32" "length b = 32" and "be_val b < 256"
  shows "be_val (U_Mul a b) = be_val a * be_val b mod 256 ^ 32"
proof -
  obtain m :: u8 where m: "unat m = be_val b"
    using assms(3) that [of "of_nat (be_val b)"] by (simp add: unat_of_nat)
  have b: "b = replicate 31 0 @ [m]"
    using be_val_inject [of b "replicate 31 0 @ [m]"] assms(2) m by (simp add: be_val_append)
  show ?thesis
  proof (cases "be_val b = 0")
    case True
    then have "b = zero256" using zero256_unique assms(2) by blast
    then show ?thesis by (simp add: U_Mul_def mul_rows_skip)
  next
    case False
    then have "m \<noteq> 0" using m by auto
    moreover have "b ! i = (if i = 31 then m else 0)" if "i < 32" for i
      using that by (auto simp: b nth_append)
    ultimately have "U_Mul a b = mul_row a m 31 32 0 zero256"
      using mul_rows_single [of 31 32 b a zero256] by (simp add: U_Mul_def)
    then obtain c' where "length (U_Mul a b) = 32" "be_val (U_Mul a b) + c' * 256 ^ 32 = be_val a * be_val b"
      using mul_row_value [of 32 a zero256 0 m] assms(1) m by auto
    moreover from this have "be_val (U_Mul a b) < 256 ^ 32" using be_val_less [of "U_Mul a b"] by simp
    ultimately show ?thesis by (metis mod_less mod_mult_self1)
  qed
qed

subsection \<open>Properties\<close>

text \<open>
  C17. Addition, subtraction, division, remainder, comparison and the bitwise operations on 32-byte
  arrays are those of the numbers modulo \<open>2 ^ 256\<close>; division and remainder by zero give zero.
\<close>

theorem evm_arithmetic_is_modular:
  assumes "length a = 32" and "length b = 32"
  shows "be_val (U_Add a b) = (be_val a + be_val b) mod 2 ^ 256
    \<and> int (be_val (U_Sub a b)) = (int (be_val a) - int (be_val b)) mod 2 ^ 256
    \<and> be_val (U_Div a b) = be_val a div be_val b
    \<and> be_val (U_Mod a b) = (if be_val b = 0 then 0 else be_val a mod be_val b)
    \<and> (U_Lt a b \<longleftrightarrow> be_val a < be_val b) \<and> (U_Gt a b \<longleftrightarrow> be_val b < be_val a)
    \<and> (U_Eq a b \<longleftrightarrow> be_val a = be_val b) \<and> (U_IsZero a \<longleftrightarrow> be_val a = 0)
    \<and> be_val (U_And a b) = be_val a AND be_val b \<and> be_val (U_Or a b) = be_val a OR be_val b
    \<and> be_val (U_Xor a b) = be_val a XOR be_val b \<and> be_val (U_Not a) = 2 ^ 256 - 1 - be_val a"
proof (intro conjI)
  show "be_val (U_Mod a b) = (if be_val b = 0 then 0 else be_val a mod be_val b)"
    using U_Mod_val [OF assms] U_Mod_zero [of b a] by simp
  show "be_val (U_Not a) = 2 ^ 256 - 1 - be_val a" using U_Not_val [of a] assms by simp
  show "U_Eq a b \<longleftrightarrow> be_val a = be_val b" using be_val_inject [of a b] assms by (simp add: U_Eq_def)
qed (use assms U_Add_val [OF assms] U_Sub_val [OF assms] U_Div_val [OF assms] in
    \<open>simp_all add: U_Lt_val U_Gt_def U_IsZero_val U_And_val U_Or_val U_Xor_val\<close>)

theorem evm_arithmetic_is_modular_witness:
  "be_val (U_Div (ToUint256 1000) (ToUint256 7)) = 142 \<and> be_val (U_Mod (ToUint256 1000) (ToUint256 7)) = 6"
  using evm_arithmetic_is_modular [of "ToUint256 1000" "ToUint256 7"] by (simp add: ToUint256_val)

text \<open>
  The shifts multiply and divide by a power of two, but only the low 64 bits of the shift amount
  count: a shift by \<open>2 ^ 64\<close> leaves the value as it is, where the result should be zero.
\<close>

theorem evm_shifts:
  assumes "length v = 32" and "length s = 32"
  shows "be_val (U_Shl s v) = be_val v * 2 ^ (be_val s mod 2 ^ 64) mod 2 ^ 256
    \<and> be_val (U_Shr s v) = be_val v div 2 ^ (be_val s mod 2 ^ 64)"
  using U_Shl_val [OF assms] U_Shr_val [OF assms] by blast

theorem evm_shifts_witness:
  "be_val (U_Shl (ToUint256 10) (ToUint256 3)) = 3072 \<and> be_val (U_Shr (replicate 23 0 @ [1] @ replicate 8 0) (ToUint256 3)) = 3"
  using evm_shifts [of "ToUint256 3" "ToUint256 10"] evm_shifts [of "ToUint256 3" "replicate 23 0 @ [1] @ replicate 8 0"]
  by (simp add: ToUint256_val be_val_append)

text \<open>
  Multiplication is right only when the second factor is a single byte: multiplying by
  \<open>256 ^ k\<close> divides by it, because the row of byte \<open>31 - k\<close> is added at the wrong end.
\<close>

theorem evm_multiplication:
  assumes "length a = 32" and "length b = 32"
  shows "(be_val b < 256 \<longrightarrow> be_val (U_Mul a b) = be_val a * be_val b mod 2 ^ 256)
    \<and> (k < 32 \<and> be_val b = 256 ^ k \<longrightarrow> be_val (U_Mul a b) = be_val a div 256 ^ k)"
  using U_Mul_byte [OF assms] U_Mul_power [OF assms] by (auto simp: pow256)

theorem evm_multiplication_witness:
  "be_val (U_Mul (ToUint256 1000) (ToUint256 255)) = 255000 \<and> be_val (U_Mul (ToUint256 1000) (ToUint256 256)) = 3"
  using evm_multiplication [of "ToUint256 1000" "ToUint256 255" 0] evm_multiplication [of "ToUint256 1000" "ToUint256 256" 1]
  by (simp add: ToUint256_val)

end
