(* ===== verification/Evm.thy ===== *)
theory Evm
  imports WorldState Transaction Uint256_Arith
begin

section \<open>The virtual machine\<close>

text \<open>
  Models \<open>layer3-obolos/evm/opcodes.h\<close>, \<open>opcodes.cpp\<close>, \<open>vm.h\<close> and \<open>vm.cpp\<close>: the bytecode interpreter. An opcode is
  its byte. The stack is a list with its top first. An operation returns a result or throws
  a \<open>std::exception\<close>, and in both cases the changed machine; \<open>Undefined\<close> is an access outside the memory.
  A resize of the memory to \<open>MAX_ALLOC\<close> bytes or more throws, a smaller one succeeds. The table of jump
  destinations that \<open>Execute\<close> builds is never read, and no operation writes logs; both are left out.
\<close>

subsection \<open>Opcodes\<close>

abbreviation (input) OP_STOP :: u8 where "OP_STOP \<equiv> 0"
abbreviation (input) OP_ADD :: u8 where "OP_ADD \<equiv> 1"
abbreviation (input) OP_MUL :: u8 where "OP_MUL \<equiv> 2"
abbreviation (input) OP_SUB :: u8 where "OP_SUB \<equiv> 3"
abbreviation (input) OP_DIV :: u8 where "OP_DIV \<equiv> 4"
abbreviation (input) OP_SDIV :: u8 where "OP_SDIV \<equiv> 5"
abbreviation (input) OP_MOD :: u8 where "OP_MOD \<equiv> 6"
abbreviation (input) OP_SMOD :: u8 where "OP_SMOD \<equiv> 7"
abbreviation (input) OP_ADDMOD :: u8 where "OP_ADDMOD \<equiv> 8"
abbreviation (input) OP_MULMOD :: u8 where "OP_MULMOD \<equiv> 9"
abbreviation (input) OP_EXP :: u8 where "OP_EXP \<equiv> 10"
abbreviation (input) OP_SIGNEXTEND :: u8 where "OP_SIGNEXTEND \<equiv> 11"
abbreviation (input) OP_LT :: u8 where "OP_LT \<equiv> 16"
abbreviation (input) OP_GT :: u8 where "OP_GT \<equiv> 17"
abbreviation (input) OP_SLT :: u8 where "OP_SLT \<equiv> 18"
abbreviation (input) OP_SGT :: u8 where "OP_SGT \<equiv> 19"
abbreviation (input) OP_EQ :: u8 where "OP_EQ \<equiv> 20"
abbreviation (input) OP_ISZERO :: u8 where "OP_ISZERO \<equiv> 21"
abbreviation (input) OP_AND :: u8 where "OP_AND \<equiv> 22"
abbreviation (input) OP_OR :: u8 where "OP_OR \<equiv> 23"
abbreviation (input) OP_XOR :: u8 where "OP_XOR \<equiv> 24"
abbreviation (input) OP_NOT :: u8 where "OP_NOT \<equiv> 25"
abbreviation (input) OP_BYTE :: u8 where "OP_BYTE \<equiv> 26"
abbreviation (input) OP_SHL :: u8 where "OP_SHL \<equiv> 27"
abbreviation (input) OP_SHR :: u8 where "OP_SHR \<equiv> 28"
abbreviation (input) OP_SAR :: u8 where "OP_SAR \<equiv> 29"
abbreviation (input) OP_SHA3 :: u8 where "OP_SHA3 \<equiv> 32"
abbreviation (input) OP_ADDRESS :: u8 where "OP_ADDRESS \<equiv> 48"
abbreviation (input) OP_BALANCE :: u8 where "OP_BALANCE \<equiv> 49"
abbreviation (input) OP_ORIGIN :: u8 where "OP_ORIGIN \<equiv> 50"
abbreviation (input) OP_CALLER :: u8 where "OP_CALLER \<equiv> 51"
abbreviation (input) OP_CALLVALUE :: u8 where "OP_CALLVALUE \<equiv> 52"
abbreviation (input) OP_CALLDATALOAD :: u8 where "OP_CALLDATALOAD \<equiv> 53"
abbreviation (input) OP_CALLDATASIZE :: u8 where "OP_CALLDATASIZE \<equiv> 54"
abbreviation (input) OP_CALLDATACOPY :: u8 where "OP_CALLDATACOPY \<equiv> 55"
abbreviation (input) OP_CODESIZE :: u8 where "OP_CODESIZE \<equiv> 56"
abbreviation (input) OP_CODECOPY :: u8 where "OP_CODECOPY \<equiv> 57"
abbreviation (input) OP_GASPRICE :: u8 where "OP_GASPRICE \<equiv> 58"
abbreviation (input) OP_EXTCODESIZE :: u8 where "OP_EXTCODESIZE \<equiv> 59"
abbreviation (input) OP_EXTCODECOPY :: u8 where "OP_EXTCODECOPY \<equiv> 60"
abbreviation (input) OP_RETURNDATASIZE :: u8 where "OP_RETURNDATASIZE \<equiv> 61"
abbreviation (input) OP_RETURNDATACOPY :: u8 where "OP_RETURNDATACOPY \<equiv> 62"
abbreviation (input) OP_EXTCODEHASH :: u8 where "OP_EXTCODEHASH \<equiv> 63"
abbreviation (input) OP_BLOCKHASH :: u8 where "OP_BLOCKHASH \<equiv> 64"
abbreviation (input) OP_COINBASE :: u8 where "OP_COINBASE \<equiv> 65"
abbreviation (input) OP_TIMESTAMP :: u8 where "OP_TIMESTAMP \<equiv> 66"
abbreviation (input) OP_NUMBER :: u8 where "OP_NUMBER \<equiv> 67"
abbreviation (input) OP_DIFFICULTY :: u8 where "OP_DIFFICULTY \<equiv> 68"
abbreviation (input) OP_GASLIMIT :: u8 where "OP_GASLIMIT \<equiv> 69"
abbreviation (input) OP_CHAINID :: u8 where "OP_CHAINID \<equiv> 70"
abbreviation (input) OP_SELFBALANCE :: u8 where "OP_SELFBALANCE \<equiv> 71"
abbreviation (input) OP_BASEFEE :: u8 where "OP_BASEFEE \<equiv> 72"
abbreviation (input) OP_POP :: u8 where "OP_POP \<equiv> 80"
abbreviation (input) OP_MLOAD :: u8 where "OP_MLOAD \<equiv> 81"
abbreviation (input) OP_MSTORE :: u8 where "OP_MSTORE \<equiv> 82"
abbreviation (input) OP_MSTORE8 :: u8 where "OP_MSTORE8 \<equiv> 83"
abbreviation (input) OP_SLOAD :: u8 where "OP_SLOAD \<equiv> 84"
abbreviation (input) OP_SSTORE :: u8 where "OP_SSTORE \<equiv> 85"
abbreviation (input) OP_JUMP :: u8 where "OP_JUMP \<equiv> 86"
abbreviation (input) OP_JUMPI :: u8 where "OP_JUMPI \<equiv> 87"
abbreviation (input) OP_PC :: u8 where "OP_PC \<equiv> 88"
abbreviation (input) OP_MSIZE :: u8 where "OP_MSIZE \<equiv> 89"
abbreviation (input) OP_GAS :: u8 where "OP_GAS \<equiv> 90"
abbreviation (input) OP_JUMPDEST :: u8 where "OP_JUMPDEST \<equiv> 91"
abbreviation (input) OP_CREATE :: u8 where "OP_CREATE \<equiv> 240"
abbreviation (input) OP_CALL :: u8 where "OP_CALL \<equiv> 241"
abbreviation (input) OP_CALLCODE :: u8 where "OP_CALLCODE \<equiv> 242"
abbreviation (input) OP_RETURN :: u8 where "OP_RETURN \<equiv> 243"
abbreviation (input) OP_DELEGATECALL :: u8 where "OP_DELEGATECALL \<equiv> 244"
abbreviation (input) OP_CREATE2 :: u8 where "OP_CREATE2 \<equiv> 245"
abbreviation (input) OP_STATICCALL :: u8 where "OP_STATICCALL \<equiv> 250"
abbreviation (input) OP_REVERT :: u8 where "OP_REVERT \<equiv> 253"
abbreviation (input) OP_INVALID :: u8 where "OP_INVALID \<equiv> 254"
abbreviation (input) OP_SELFDESTRUCT :: u8 where "OP_SELFDESTRUCT \<equiv> 255"

definition IsPushOp :: "u8 \<Rightarrow> bool" where "IsPushOp op \<longleftrightarrow> op \<ge> 0x60 \<and> op \<le> 0x7f"
definition GetPushSize :: "u8 \<Rightarrow> u8" where "GetPushSize op = (if \<not> IsPushOp op then 0 else op - 0x5f)"
definition IsDupOp :: "u8 \<Rightarrow> bool" where "IsDupOp op \<longleftrightarrow> op \<ge> 0x80 \<and> op \<le> 0x8f"
definition GetDupDepth :: "u8 \<Rightarrow> u8" where "GetDupDepth op = (if \<not> IsDupOp op then 0 else op - 0x7f)"
definition IsSwapOp :: "u8 \<Rightarrow> bool" where "IsSwapOp op \<longleftrightarrow> op \<ge> 0x90 \<and> op \<le> 0x9f"
definition GetSwapDepth :: "u8 \<Rightarrow> u8" where "GetSwapDepth op = (if \<not> IsSwapOp op then 0 else op - 0x8f)"
definition IsLogOp :: "u8 \<Rightarrow> bool" where "IsLogOp op \<longleftrightarrow> op \<ge> 0xa0 \<and> op \<le> 0xa4"
definition GetLogTopics :: "u8 \<Rightarrow> u8" where "GetLogTopics op = (if \<not> IsLogOp op then 0 else op - 0xa0)"

definition GetOpcodeCost :: "u8 \<Rightarrow> u64" where
  "GetOpcodeCost op =
     (if op \<in> set [OP_STOP, OP_INVALID] then 0
      else if op \<in> set [OP_ADDRESS, OP_ORIGIN, OP_CALLER, OP_CALLVALUE, OP_CALLDATASIZE, OP_CODESIZE,
         OP_GASPRICE, OP_COINBASE, OP_TIMESTAMP, OP_NUMBER, OP_DIFFICULTY, OP_GASLIMIT,
         OP_CHAINID, OP_SELFBALANCE, OP_BASEFEE, OP_PC, OP_MSIZE, OP_GAS, OP_RETURNDATASIZE] then 2
      else if op \<in> set [OP_ADD, OP_SUB, OP_LT, OP_GT, OP_SLT, OP_SGT, OP_EQ, OP_ISZERO, OP_AND, OP_OR, OP_XOR,
         OP_NOT, OP_BYTE, OP_SHL, OP_SHR, OP_SAR, OP_POP, OP_JUMPDEST] then 3
      else if IsPushOp op \<or> IsDupOp op \<or> IsSwapOp op then 3
      else if op \<in> set [OP_MUL, OP_DIV, OP_SDIV, OP_MOD, OP_SMOD, OP_SIGNEXTEND] then 5
      else if op \<in> set [OP_ADDMOD, OP_MULMOD, OP_JUMP] then 8
      else if op \<in> set [OP_JUMPI, OP_EXP] then 10
      else if op \<in> set [OP_MLOAD, OP_MSTORE, OP_MSTORE8] then 3
      else if op = OP_SLOAD then 800
      else if op = OP_SSTORE then 20000
      else if op \<in> set [OP_CALLDATALOAD, OP_CALLDATACOPY, OP_CODECOPY, OP_RETURNDATACOPY] then 3
      else if op \<in> set [OP_EXTCODECOPY, OP_BALANCE, OP_EXTCODESIZE, OP_EXTCODEHASH] then 700
      else if op = OP_BLOCKHASH then 20
      else if op = OP_SHA3 then 30
      else if IsLogOp op then 375
      else if op \<in> set [OP_CREATE, OP_CREATE2] then 32000
      else if op \<in> set [OP_CALL, OP_CALLCODE, OP_DELEGATECALL, OP_STATICCALL] then 700
      else if op \<in> set [OP_RETURN, OP_REVERT] then 0
      else if op = OP_SELFDESTRUCT then 5000
      else 0)"

subsection \<open>The machine\<close>

datatype ExecResult = SUCCESS | RETURNED | REVERT | OUT_OF_GAS | STACK_UNDERFLOW | STACK_OVERFLOW
  | INVALID_JUMP | INVALID_OPCODE | STATIC_CALL_VIOLATION | DEPTH_EXCEEDED

record ExecutionContext =
  ctx_origin :: Address
  ctx_caller :: Address
  ctx_address :: Address
  ctx_value :: uint256
  ctx_input_data :: bytes
  ctx_gas_limit :: u64
  ctx_gas_price :: u64
  ctx_block_number :: u64
  ctx_timestamp :: u64
  ctx_coinbase :: Address
  ctx_difficulty :: u64
  ctx_gas_limit_block :: u64
  ctx_chain_id :: u64
  ctx_base_fee :: u64
  ctx_is_static :: bool
  ctx_depth :: u32

record VM =
  vm_state :: WorldState
  vm_stack :: "uint256 list"
  vm_memory :: bytes
  vm_return_data :: bytes
  vm_gas_used :: u64

definition VM_init :: "WorldState \<Rightarrow> VM" where
  "VM_init state = \<lparr>vm_state = state, vm_stack = [], vm_memory = [], vm_return_data = [], vm_gas_used = 0\<rparr>"

datatype 'a step = Ok 'a | Throws | Undefined

type_synonym 'a vm_op = "VM \<Rightarrow> 'a step \<times> VM"

definition vm_return :: "'a \<Rightarrow> 'a vm_op" where "vm_return a s = (Ok a, s)"
definition vm_throw :: "'a vm_op" where "vm_throw s = (Throws, s)"

definition vm_bind :: "'a vm_op \<Rightarrow> ('a \<Rightarrow> 'b vm_op) \<Rightarrow> 'b vm_op" where
  "vm_bind m f s = (case m s of (Ok a, s) \<Rightarrow> f a s | (Throws, s) \<Rightarrow> (Throws, s) | (Undefined, s) \<Rightarrow> (Undefined, s))"

definition MAX_STACK_SIZE :: nat where "MAX_STACK_SIZE = 1024"

definition Push :: "uint256 \<Rightarrow> unit vm_op" where
  "Push v s = (if length (vm_stack s) \<ge> MAX_STACK_SIZE then (Throws, s)
     else (Ok (), s\<lparr>vm_stack := v # vm_stack s\<rparr>))"

definition Pop :: "uint256 vm_op" where
  "Pop s = (case vm_stack s of [] \<Rightarrow> (Throws, s) | v # rest \<Rightarrow> (Ok v, s\<lparr>vm_stack := rest\<rparr>))"

definition Peek :: "nat \<Rightarrow> uint256 vm_op" where
  "Peek depth s = (if depth \<ge> length (vm_stack s) then (Throws, s) else (Ok (vm_stack s ! depth), s))"

definition Dup :: "nat \<Rightarrow> unit vm_op" where
  "Dup depth s = (if depth = 0 \<or> depth > length (vm_stack s) then (Throws, s)
     else vm_bind (Peek (depth - 1)) Push s)"

definition Swap :: "nat \<Rightarrow> unit vm_op" where
  "Swap depth s = (if depth = 0 \<or> depth \<ge> length (vm_stack s) then (Throws, s)
     else (Ok (), s\<lparr>vm_stack := (vm_stack s)[0 := vm_stack s ! depth, depth := vm_stack s ! 0]\<rparr>))"

definition UseGas :: "ExecutionContext \<Rightarrow> u64 \<Rightarrow> VM \<Rightarrow> bool \<times> VM" where
  "UseGas ctx amount s =
     (if vm_gas_used s + amount > ctx_gas_limit ctx then (False, s)
      else (True, s\<lparr>vm_gas_used := vm_gas_used s + amount\<rparr>))"

definition GetGasRemaining :: "ExecutionContext \<Rightarrow> VM \<Rightarrow> u64" where
  "GetGasRemaining ctx s = ctx_gas_limit ctx - vm_gas_used s"

definition ExpandMemory :: "ExecutionContext \<Rightarrow> u64 \<Rightarrow> unit vm_op" where
  "ExpandMemory ctx sz s =
     (if sz > of_nat (length (vm_memory s)) then
        let old_words = (of_nat (length (vm_memory s)) + 31) div 32; new_words = (sz + 31) div 32;
            expansion_cost = (new_words - old_words) * 3; (paid, s) = UseGas ctx expansion_cost s in
        if \<not> paid then (Throws, s)
        else if unat sz \<ge> MAX_ALLOC then (Throws, s)
        else (Ok (), s\<lparr>vm_memory := vm_memory s @ replicate (unat sz - length (vm_memory s)) 0\<rparr>)
      else (Ok (), s))"

text \<open>A copy into the memory and out of it, which the code does without checking the bounds.\<close>

definition write_memory :: "nat \<Rightarrow> bytes \<Rightarrow> unit vm_op" where
  "write_memory offset bs s =
     (if offset + length bs \<le> length (vm_memory s)
      then (Ok (), s\<lparr>vm_memory := take offset (vm_memory s) @ bs @ drop (offset + length bs) (vm_memory s)\<rparr>)
      else (Undefined, s))"

definition read_memory :: "nat \<Rightarrow> nat \<Rightarrow> bytes vm_op" where
  "read_memory offset n s =
     (if offset + n \<le> length (vm_memory s) then (Ok (take n (drop offset (vm_memory s))), s) else (Undefined, s))"

definition MemoryStore :: "ExecutionContext \<Rightarrow> u64 \<Rightarrow> uint256 \<Rightarrow> unit vm_op" where
  "MemoryStore ctx offset v = vm_bind (ExpandMemory ctx (offset + 32)) (\<lambda>_. write_memory (unat offset) v)"

definition MemoryStore8 :: "ExecutionContext \<Rightarrow> u64 \<Rightarrow> u8 \<Rightarrow> unit vm_op" where
  "MemoryStore8 ctx offset v = vm_bind (ExpandMemory ctx (offset + 1)) (\<lambda>_. write_memory (unat offset) [v])"

definition MemoryLoad :: "ExecutionContext \<Rightarrow> u64 \<Rightarrow> uint256 vm_op" where
  "MemoryLoad ctx offset = vm_bind (ExpandMemory ctx (offset + 32)) (\<lambda>_. read_memory (unat offset) 32)"

subsection \<open>Execution\<close>

text \<open>
  The opcodes that take the operand \<open>b\<close> from the top of the stack, then \<open>a\<close>, and push a result (\<open>SHL\<close> and
  \<open>SHR\<close> pop the value, then the shift), those of one operand, and those that push a value.
\<close>

definition flag :: "bool \<Rightarrow> uint256" where "flag c = (if c then ToUint256 1 else ToUint256 0)"

definition binary_ops :: "(u8 \<times> (uint256 \<Rightarrow> uint256 \<Rightarrow> uint256)) list" where
  "binary_ops =
     [(OP_ADD, U_Add), (OP_MUL, U_Mul), (OP_SUB, U_Sub), (OP_DIV, U_Div), (OP_MOD, U_Mod), (OP_EXP, U_Exp),
      (OP_LT, \<lambda>a b. flag (U_Lt a b)), (OP_GT, \<lambda>a b. flag (U_Gt a b)), (OP_EQ, \<lambda>a b. flag (U_Eq a b)),
      (OP_AND, U_And), (OP_OR, U_Or), (OP_XOR, U_Xor), (OP_SHL, U_Shl), (OP_SHR, U_Shr)]"

definition unary_ops :: "(u8 \<times> (uint256 \<Rightarrow> uint256)) list" where
  "unary_ops = [(OP_ISZERO, \<lambda>a. flag (U_IsZero a)), (OP_NOT, U_Not)]"

definition context_values :: "ExecutionContext \<Rightarrow> VM \<Rightarrow> (u8 \<times> uint256) list" where
  "context_values ctx s =
     [(OP_ADDRESS, replicate 12 0 @ ctx_address ctx), (OP_CALLER, replicate 12 0 @ ctx_caller ctx),
      (OP_CALLVALUE, ctx_value ctx), (OP_GAS, ToUint256 (GetGasRemaining ctx s)), (OP_GASPRICE, ToUint256 (ctx_gas_price ctx)),
      (OP_TIMESTAMP, ToUint256 (ctx_timestamp ctx)), (OP_NUMBER, ToUint256 (ctx_block_number ctx)),
      (OP_DIFFICULTY, ToUint256 (ctx_difficulty ctx)), (OP_GASLIMIT, ToUint256 (ctx_gas_limit_block ctx)),
      (OP_CHAINID, ToUint256 (ctx_chain_id ctx)), (OP_BASEFEE, ToUint256 (ctx_base_fee ctx))]"

definition push_data :: "bytes \<Rightarrow> nat \<Rightarrow> nat \<Rightarrow> uint256" where
  "push_data code pc n =
     (let data = take n (drop (pc + 1) code) in
      replicate (32 - n) 0 @ data @ replicate (n - length data) 0)"

text \<open>\<open>RETURN\<close> and \<open>REVERT\<close>.\<close>

definition return_memory :: "ExecutionContext \<Rightarrow> ExecResult \<Rightarrow> ExecResult vm_op" where
  "return_memory ctx result =
     vm_bind Pop (\<lambda>offset. vm_bind Pop (\<lambda>len.
       vm_bind (ExpandMemory ctx (ToUint64 offset + ToUint64 len)) (\<lambda>_.
       vm_bind (read_memory (unat (ToUint64 offset)) (unat (ToUint64 len))) (\<lambda>data s.
         (Ok result, s\<lparr>vm_return_data := data\<rparr>)))))"

definition memory_op :: "ExecutionContext \<Rightarrow> u8 \<Rightarrow> unit vm_op" where
  "memory_op ctx op =
     (if op = OP_MLOAD then vm_bind Pop (\<lambda>offset. vm_bind (MemoryLoad ctx (ToUint64 offset)) Push)
      else if op = OP_MSTORE then
        vm_bind Pop (\<lambda>offset. vm_bind Pop (\<lambda>v. MemoryStore ctx (ToUint64 offset) v))
      else vm_bind Pop (\<lambda>offset. vm_bind Pop (\<lambda>v.
        MemoryStore8 ctx (ToUint64 offset) (ucast (ToUint64 v AND 0xFF)))))"

text \<open>The result of one opcode, with the new program counter.\<close>

definition ExecuteOpcode :: "ExecutionContext \<Rightarrow> u8 \<Rightarrow> bytes \<Rightarrow> nat \<Rightarrow> (ExecResult \<times> nat) vm_op" where
  "ExecuteOpcode ctx op code pc s =
     (let next = (\<lambda>m :: unit vm_op. vm_bind m (\<lambda>_. vm_return (SUCCESS, pc))) in
      if op = OP_STOP then (Ok (SUCCESS, pc), s)
      else case map_of binary_ops op of
        Some f \<Rightarrow> next (vm_bind Pop (\<lambda>b. vm_bind Pop (\<lambda>a. Push (f a b)))) s
      | None \<Rightarrow> (case map_of unary_ops op of
        Some f \<Rightarrow> next (vm_bind Pop (\<lambda>a. Push (f a))) s
      | None \<Rightarrow>
        if op \<in> set [OP_MLOAD, OP_MSTORE, OP_MSTORE8] then next (memory_op ctx op) s
        else if op = OP_SLOAD then
          next (vm_bind Pop (\<lambda>key s. Push (GetStorage (vm_state s) (ctx_address ctx) key) s)) s
        else if op = OP_SSTORE then
          (if ctx_is_static ctx then (Ok (STATIC_CALL_VIOLATION, pc), s)
           else next (vm_bind Pop (\<lambda>key. vm_bind Pop (\<lambda>v s.
             (Ok (), s\<lparr>vm_state := SetStorage (vm_state s) (ctx_address ctx) key v\<rparr>)))) s)
        else if op = OP_POP then next (vm_bind Pop (\<lambda>_. vm_return ())) s
        else if IsPushOp op then
          vm_bind (Push (push_data code pc (unat (GetPushSize op)))) (\<lambda>_. vm_return (SUCCESS, pc + unat (GetPushSize op))) s
        else if IsDupOp op then next (Dup (unat (GetDupDepth op))) s
        else if IsSwapOp op then next (Swap (unat (GetSwapDepth op))) s
        else (case map_of (context_values ctx s) op of
          Some v \<Rightarrow> next (Push v) s
        | None \<Rightarrow>
          if op = OP_RETURN then vm_bind (return_memory ctx RETURNED) (\<lambda>r. vm_return (r, pc)) s
          else if op = OP_REVERT then vm_bind (return_memory ctx REVERT) (\<lambda>r. vm_return (r, pc)) s
          else if op = OP_JUMPDEST then (Ok (SUCCESS, pc), s)
          else (Ok (INVALID_OPCODE, pc), s))))"

subsection \<open>No operation moves the program counter back\<close>

lemma vm_bind_Ok: "fst (vm_bind m f s) = Ok r \<Longrightarrow> \<exists>a s'. m s = (Ok a, s') \<and> fst (f a s') = Ok r"
  by (auto simp: vm_bind_def split: prod.splits step.splits)

lemma vm_bind_return_Ok: "fst (vm_bind m (\<lambda>a. vm_return (g a)) s) = Ok r \<Longrightarrow> \<exists>a. r = g a"
  by (auto dest!: vm_bind_Ok simp: vm_return_def)

lemma ExecuteOpcode_pc: "fst (ExecuteOpcode ctx op code pc s) = Ok (r, pc') \<Longrightarrow> pc \<le> pc'"
  by (auto simp: ExecuteOpcode_def Let_def split: option.splits if_splits dest!: vm_bind_return_Ok)

text \<open>The loop of \<open>Execute\<close> from a given program counter.\<close>

function run :: "ExecutionContext \<Rightarrow> bytes \<Rightarrow> nat \<Rightarrow> (ExecResult \<times> bytes) vm_op" where
  "run ctx code pc s =
     (if pc < length code then
        let op = code ! pc; (paid, s) = UseGas ctx (GetOpcodeCost op) s in
        if \<not> paid then (Ok (OUT_OF_GAS, []), s)
        else case ExecuteOpcode ctx op code pc s of
          (Ok (result, pc'), s') \<Rightarrow>
            if result = SUCCESS then run ctx code (pc' + 1) s' else (Ok (result, vm_return_data s'), s')
        | (Throws, s') \<Rightarrow> (Ok (INVALID_OPCODE, []), s')
        | (Undefined, s') \<Rightarrow> (Undefined, s')
      else (Ok (SUCCESS, []), s))"
  by pat_completeness auto
termination
proof (relation "measure (\<lambda>(ctx, code, pc, s). length code - pc)", goal_cases)
  case (2 ctx code pc s op p paid s1 e s' r result pc')
  then have "fst (ExecuteOpcode ctx op code pc s1) = Ok (result, pc')" by (metis fst_conv)
  from ExecuteOpcode_pc [OF this] 2 show ?case by simp
qed simp

declare run.simps [simp del]

text \<open>One turn of the loop.\<close>

lemma run_end: "length code \<le> pc \<Longrightarrow> run ctx code pc s = (Ok (SUCCESS, []), s)"
  by (subst run.simps) simp

lemma run_turn:
  assumes "pc < length code"
  shows "UseGas ctx (GetOpcodeCost (code ! pc)) s = (False, s1) \<Longrightarrow> run ctx code pc s = (Ok (OUT_OF_GAS, []), s1)"
    "UseGas ctx (GetOpcodeCost (code ! pc)) s = (True, s1) \<Longrightarrow> run ctx code pc s =
      (case ExecuteOpcode ctx (code ! pc) code pc s1 of
         (Ok (result, pc'), s') \<Rightarrow>
           if result = SUCCESS then run ctx code (pc' + 1) s' else (Ok (result, vm_return_data s'), s')
       | (Throws, s') \<Rightarrow> (Ok (INVALID_OPCODE, []), s')
       | (Undefined, s') \<Rightarrow> (Undefined, s'))"
  using assms by (subst run.simps, simp)+

definition Execute :: "ExecutionContext \<Rightarrow> bytes \<Rightarrow> (ExecResult \<times> bytes) vm_op" where
  "Execute ctx code = run ctx code 0"

end
