(* ===== verification/Evm_Correct.thy ===== *)
theory Evm_Correct
  imports Evm
begin

section \<open>Correctness of the virtual machine\<close>

text \<open>
  A calculus for the operations of \<open>Evm\<close>: \<open>triple I m Q\<close> says that \<open>m\<close> keeps the invariant \<open>I\<close>, however it ends,
  and that a result satisfies \<open>Q\<close>. The locale \<open>vm_invariant\<close> proves that the whole interpreter keeps
  every invariant that the elementary updates of the machine keep; its two interpretations are the well-formedness
  of the machine and the frame of an execution.
\<close>

subsection \<open>Sizes of the results of the arithmetic\<close>

lemma length_mul_row [simp]: "length (mul_row a bi i j c r) = length r"
  by (induction a bi i j c r rule: mul_row.induct) (auto simp: Let_def)

lemma length_mul_rows [simp]: "length (mul_rows a b i r) = length r"
  by (induction a b i r rule: mul_rows.induct) auto

lemma length_U_Mul [simp]: "length (U_Mul a b) = 32"
  by (simp add: U_Mul_def)

lemma length_ToUint256 [simp]: "length (ToUint256 n) = 32"
  using ToUint256_val by simp

lemma length_exp_loop: "length r = 32 \<Longrightarrow> length (exp_loop e is r b) = 32"
  by (induction e "is" r b rule: exp_loop.induct) (simp_all add: Let_def)

lemma length_flag [simp]: "length (flag c) = 32"
  by (simp add: flag_def)

lemma binary_op_length:
  assumes "map_of binary_ops op = Some f" and len: "length a = 32" "length b = 32"
  shows "length (f a b) = 32"
proof -
  have "(op, f) \<in> set binary_ops" using assms(1) by (rule map_of_SomeD)
  moreover have "length (U_Div a b) = 32" using U_Div_val [OF len] by simp
  moreover have "length (U_Mod a b) = 32"
    using U_Mod_val [OF len] U_Mod_zero [of b a] by (cases "be_val b = 0") auto
  moreover have "length (U_Shl a b) = 32" "length (U_Shr a b) = 32" using U_Shl_val U_Shr_val len by auto
  moreover have "length (U_Exp a b) = 32" by (simp add: U_Exp_def length_exp_loop)
  ultimately show ?thesis
    using len by (auto simp: binary_ops_def U_And_def U_Or_def U_Xor_def)
qed

lemma unary_op_length: "map_of unary_ops op = Some f \<Longrightarrow> length a = 32 \<Longrightarrow> length (f a) = 32"
  by (auto simp: unary_ops_def U_Not_def split: if_splits)

lemma push_data_length: "n \<le> 32 \<Longrightarrow> length (push_data code pc n) = 32"
  by (simp add: push_data_def)

lemma GetPushSize_bound: "IsPushOp op \<Longrightarrow> unat (GetPushSize op) \<le> 32"
proof -
  assume op: "IsPushOp op"
  then have "0x5f \<le> op" "unat op \<le> 127" unfolding IsPushOp_def by (auto simp: word_le_nat_alt)
  then show ?thesis using op by (simp add: GetPushSize_def unat_sub)
qed

subsection \<open>Invariants of the operations\<close>

definition triple :: "(VM \<Rightarrow> bool) \<Rightarrow> 'a vm_op \<Rightarrow> ('a \<Rightarrow> bool) \<Rightarrow> bool" where
  "triple I m Q \<longleftrightarrow> (\<forall>s. I s \<longrightarrow> (case m s of (r, s') \<Rightarrow> I s' \<and> (\<forall>a. r = Ok a \<longrightarrow> Q a)))"

definition kept :: "(VM \<Rightarrow> bool) \<Rightarrow> ('a \<Rightarrow> bool) \<Rightarrow> 'a step \<times> VM \<Rightarrow> bool" where
  "kept I Q rs \<longleftrightarrow> I (snd rs) \<and> (\<forall>a. fst rs = Ok a \<longrightarrow> Q a)"

lemma kept_if: "(b \<Longrightarrow> kept I Q x) \<Longrightarrow> (\<not> b \<Longrightarrow> kept I Q y) \<Longrightarrow> kept I Q (if b then x else y)"
  by simp

lemma kept_option:
  "(x = None \<Longrightarrow> kept I Q a) \<Longrightarrow> (\<And>f. x = Some f \<Longrightarrow> kept I Q (g f)) \<Longrightarrow> kept I Q (case x of None \<Rightarrow> a | Some f \<Rightarrow> g f)"
  by (cases x) simp_all

lemma kept_triple: "triple I m Q \<Longrightarrow> I s \<Longrightarrow> kept I Q (m s)"
  by (fastforce simp: triple_def kept_def)

lemma kept_Ok: "I s \<Longrightarrow> Q a \<Longrightarrow> kept I Q (Ok a, s)"
  by (simp add: kept_def)

named_theorems vm_rules

lemma triple_bind [vm_rules]: "triple I m Q \<Longrightarrow> (\<And>a. Q a \<Longrightarrow> triple I (f a) R) \<Longrightarrow> triple I (vm_bind m f) R"
proof -
  assume m: "triple I m Q" and f: "\<And>a. Q a \<Longrightarrow> triple I (f a) R"
  show ?thesis unfolding triple_def
  proof (intro allI impI)
    fix s
    assume "I s"
    obtain r s1 where ms: "m s = (r, s1)" by force
    then have s1: "I s1" "\<And>a. r = Ok a \<Longrightarrow> Q a" using m \<open>I s\<close> unfolding triple_def by fastforce+
    show "case vm_bind m f s of (r, s') \<Rightarrow> I s' \<and> (\<forall>a. r = Ok a \<longrightarrow> R a)"
      using s1(1) f [OF s1(2)] ms by (cases r) (simp_all add: vm_bind_def triple_def)
  qed
qed

lemma triple_return [vm_rules]: "Q a \<Longrightarrow> triple I (vm_return a) Q"
  by (simp add: triple_def vm_return_def)

lemma triple_weaken: "triple I m P \<Longrightarrow> (\<And>a. P a \<Longrightarrow> Q a) \<Longrightarrow> triple I m Q"
  by (fastforce simp: triple_def)

lemma tripleD: "triple I m Q \<Longrightarrow> I s \<Longrightarrow> m s = (r, s') \<Longrightarrow> I s' \<and> (\<forall>a. r = Ok a \<longrightarrow> Q a)"
  by (fastforce simp: triple_def)

definition stack_ok :: "uint256 list \<Rightarrow> bool" where
  "stack_ok st \<longleftrightarrow> length st \<le> MAX_STACK_SIZE \<and> (\<forall>v \<in> set st. length v = 32)"

definition ctx_sized :: "ExecutionContext \<Rightarrow> bool" where
  "ctx_sized ctx \<longleftrightarrow> length (ctx_address ctx) = 20 \<and> length (ctx_caller ctx) = 20 \<and> length (ctx_value ctx) = 32"

definition results :: "ExecResult set" where
  "results = {SUCCESS, RETURNED, REVERT, OUT_OF_GAS, INVALID_OPCODE, STATIC_CALL_VIOLATION}"

lemma context_value_length: "ctx_sized ctx \<Longrightarrow> map_of (context_values ctx s) op = Some v \<Longrightarrow> length v = 32"
  by (drule map_of_SomeD) (auto simp: context_values_def ctx_sized_def)

locale vm_invariant =
  fixes ctx :: ExecutionContext and I :: "VM \<Rightarrow> bool"
  assumes sized: "I s \<Longrightarrow> ctx_sized ctx"
    and stack_sized: "I s \<Longrightarrow> stack_ok (vm_stack s)"
    and set_stack: "I s \<Longrightarrow> stack_ok st \<Longrightarrow> I (s\<lparr>vm_stack := st\<rparr>)"
    and use_gas: "I s \<Longrightarrow> g \<le> ctx_gas_limit ctx \<Longrightarrow> I (s\<lparr>vm_gas_used := g\<rparr>)"
    and set_memory: "I s \<Longrightarrow> length mem < MAX_ALLOC \<Longrightarrow> I (s\<lparr>vm_memory := mem\<rparr>)"
    and mem_size: "I s \<Longrightarrow> length (vm_memory s) < MAX_ALLOC"
    and set_return: "I s \<Longrightarrow> I (s\<lparr>vm_return_data := data\<rparr>)"
    and load: "I s \<Longrightarrow> length (GetStorage (vm_state s) (ctx_address ctx) k) = 32"
    and set_storage: "I s \<Longrightarrow> \<not> ctx_is_static ctx \<Longrightarrow> length k = 32 \<Longrightarrow> length v = 32
      \<Longrightarrow> I (s\<lparr>vm_state := SetStorage (vm_state s) (ctx_address ctx) k v\<rparr>)"
begin

lemma push [vm_rules]: "length v = 32 \<Longrightarrow> triple I (Push v) (\<lambda>_. True)"
  using stack_sized by (auto simp: triple_def Push_def stack_ok_def intro!: set_stack)

lemma pop [vm_rules]: "triple I Pop (\<lambda>v. length v = 32)"
  using stack_sized by (fastforce simp: triple_def Pop_def stack_ok_def split: list.splits intro!: set_stack)

lemma dup [vm_rules]: "triple I (Dup d) (\<lambda>_. True)"
proof -
  have "triple I (Peek k) (\<lambda>v. length v = 32)" for k
    using stack_sized by (fastforce simp: triple_def Peek_def stack_ok_def)
  from triple_bind [OF this push] have "triple I (vm_bind (Peek (d - 1)) Push) (\<lambda>_. True)" by simp
  then show ?thesis by (auto simp: triple_def Dup_def)
qed

lemma swap [vm_rules]: "triple I (Swap d) (\<lambda>_. True)"
proof -
  have "stack_ok (st[0 := st ! d, d := st ! 0])" if "stack_ok st" "d < length st" "0 < d" for st
    using that set_update_subset_insert [of "st[0 := st ! d]" d "st ! 0"] set_update_subset_insert [of st 0 "st ! d"]
      nth_mem [of d st] nth_mem [of 0 st]
    unfolding stack_ok_def length_list_update by (metis (no_types) insertE less_trans subsetD)
  then show ?thesis
    using stack_sized by (auto simp: triple_def Swap_def intro!: set_stack)
qed

lemma gas: "I s \<Longrightarrow> UseGas ctx amount s = (paid, s') \<Longrightarrow> I s'"
  by (auto simp: UseGas_def intro!: use_gas split: if_splits)

lemma expand [vm_rules]: "triple I (ExpandMemory ctx sz) (\<lambda>_. True)"
proof -
  have "length (vm_memory s) + (n - length (vm_memory s)) < MAX_ALLOC" if "I s" "\<not> MAX_ALLOC \<le> n" for s n
    using mem_size [OF that(1)] that(2) by simp
  then show ?thesis
    by (auto simp: triple_def ExpandMemory_def Let_def split: prod.splits intro!: set_memory dest: gas)
qed

lemma write_mem [vm_rules]: "triple I (write_memory off bs) (\<lambda>_. True)"
  using mem_size by (auto simp: triple_def write_memory_def intro!: set_memory)

lemma read_mem [vm_rules]: "triple I (read_memory off n) (\<lambda>bs. length bs = n)"
  by (auto simp: triple_def read_memory_def)

lemma memory_op [vm_rules]: "triple I (memory_op ctx op) (\<lambda>_. True)"
  unfolding memory_op_def MemoryLoad_def MemoryStore_def MemoryStore8_def
  by (auto intro!: vm_rules)

lemma sload: "triple I (vm_bind Pop (\<lambda>k s. Push (GetStorage (vm_state s) (ctx_address ctx) k) s)) (\<lambda>_. True)"
  by (rule triple_bind [OF pop]) (use push load in \<open>fastforce simp: triple_def\<close>)

lemma sstore:
  assumes "\<not> ctx_is_static ctx"
  shows "triple I (vm_bind Pop (\<lambda>k. vm_bind Pop (\<lambda>v s.
    (Ok (), s\<lparr>vm_state := SetStorage (vm_state s) (ctx_address ctx) k v\<rparr>)))) (\<lambda>_. True)"
  by (intro triple_bind [OF pop]) (use assms set_storage in \<open>auto simp: triple_def\<close>)

lemma return_memory [vm_rules]: "triple I (return_memory ctx r) (\<lambda>r'. r' = r)"
  unfolding return_memory_def
  by (intro triple_bind [OF pop] triple_bind [OF expand] triple_bind [OF read_mem]) (auto simp: triple_def set_return)

lemma kept_next:
  assumes "triple I m P" and "I s" and "\<And>a. P a \<Longrightarrow> fst (g a) \<in> results"
  shows "kept I (\<lambda>r. fst r \<in> results) (vm_bind m (\<lambda>a. vm_return (g a)) s)"
  by (rule kept_triple [OF triple_bind [OF assms(1)] assms(2)]) (use assms(3) in \<open>rule triple_return\<close>)

lemma execute_opcode: "triple I (ExecuteOpcode ctx op code pc) (\<lambda>r. fst r \<in> results)"
proof -
  have "kept I (\<lambda>r. fst r \<in> results) (ExecuteOpcode ctx op code pc s)" if s: "I s" for s
    unfolding ExecuteOpcode_def Let_def
  proof (intro kept_if kept_option kept_next kept_Ok)
    show "triple I (vm_bind Pop (\<lambda>b. vm_bind Pop (\<lambda>a. Push (f a b)))) (\<lambda>_. True)" if "map_of binary_ops op = Some f" for f
      by (intro triple_bind [OF pop] push binary_op_length [OF that])
    show "triple I (vm_bind Pop (\<lambda>a. Push (f a))) (\<lambda>_. True)" if "map_of unary_ops op = Some f" for f
      by (intro triple_bind [OF pop] push unary_op_length [OF that])
    show "triple I (vm_bind Pop (\<lambda>_. vm_return ())) (\<lambda>_. True)"
      by (intro triple_bind [OF pop] triple_return) simp
    show "triple I (Push (push_data code pc (unat (GetPushSize op)))) (\<lambda>_. True)" if "IsPushOp op"
      by (intro push push_data_length GetPushSize_bound that)
    show "triple I (Push v) (\<lambda>_. True)" if "map_of (context_values ctx s) op = Some v" for v
      by (intro push context_value_length [OF sized [OF s] that])
    show "triple I (return_memory ctx RETURNED) (\<lambda>r. r = RETURNED)" "triple I (return_memory ctx REVERT) (\<lambda>r. r = REVERT)"
      by (rule return_memory)+
  qed (auto simp: results_def s intro: memory_op sload sstore dup swap return_memory)
  then show ?thesis by (fastforce simp: triple_def kept_def)
qed

lemma run_kept: "c = ctx \<Longrightarrow> I s \<Longrightarrow> kept I (\<lambda>r. fst r \<in> results) (run c code pc s)"
proof (induction c code pc s rule: run.induct)
  case (1 c code pc s)
  show ?case
  proof (cases "pc < length code")
    case pc: True
    obtain paid s1 where g: "UseGas ctx (GetOpcodeCost (code ! pc)) s = (paid, s1)" by force
    have s1: "I s1" using gas [OF 1(3) g] .
    obtain r s2 where x: "ExecuteOpcode ctx (code ! pc) code pc s1 = (r, s2)" by force
    have s2: "I s2" "\<And>a. r = Ok a \<Longrightarrow> fst a \<in> results" using tripleD [OF execute_opcode s1 x] by auto
    show ?thesis
    proof (cases paid)
      case False
      then show ?thesis using g s1 1(2) run_turn(1) [OF pc] by (simp add: kept_def results_def)
    next
      case True
      then have g: "UseGas ctx (GetOpcodeCost (code ! pc)) s = (True, s1)" using g by simp
      note eq = run_turn(2) [OF pc g, unfolded x prod.case]
      show ?thesis
      proof (cases r)
        case (Ok a)
        obtain result pc' where a: "a = (result, pc')" by force
        have "kept I (\<lambda>r. fst r \<in> results) (run ctx code (pc' + 1) s2)" if "result = SUCCESS"
          using 1(1) [OF pc refl, of "(True, s1)" True s1] 1(2) g x Ok a that s2(1) by simp
        then show ?thesis using eq 1(2) s2 Ok a by (simp add: kept_def)
      qed (use eq 1(2) s2 in \<open>simp_all add: kept_def results_def\<close>)
    qed
  next
    case False
    then show ?thesis using 1(2,3) by (simp add: run_end kept_def results_def)
  qed
qed

lemma execute: "I s \<Longrightarrow> kept I (\<lambda>r. fst r \<in> results) (Execute ctx code s)"
  unfolding Execute_def by (rule run_kept) simp_all

end

subsection \<open>The machine stays well-formed\<close>

definition vm_ok :: "ExecutionContext \<Rightarrow> VM \<Rightarrow> bool" where
  "vm_ok ctx s \<longleftrightarrow> ctx_sized ctx \<and> stack_ok (vm_stack s) \<and> vm_gas_used s \<le> ctx_gas_limit ctx
     \<and> length (vm_memory s) < MAX_ALLOC \<and> ws_ok (vm_state s)"

lemma GetStorage_length: "ws_ok w \<Longrightarrow> length (GetStorage w a k) = 32"
  by (auto simp: GetStorage_def ws_ok_def sized_def split: option.splits dest: map_of_SomeD)

interpretation machine: vm_invariant ctx "vm_ok ctx" for ctx
  by unfold_locales (auto simp: vm_ok_def ctx_sized_def GetStorage_length ws_ok_SetStorage)

lemma vm_ok_init: "ctx_sized ctx \<Longrightarrow> ws_ok w \<Longrightarrow> vm_ok ctx (VM_init w)"
  by (simp add: vm_ok_def VM_init_def stack_ok_def MAX_ALLOC_def)

subsection \<open>What an execution leaves alone\<close>

definition vm_frame :: "ExecutionContext \<Rightarrow> WorldState \<Rightarrow> VM \<Rightarrow> bool" where
  "vm_frame ctx w s \<longleftrightarrow> vm_ok ctx s \<and> ws_accounts (vm_state s) = ws_accounts w
     \<and> (\<forall>a k. a \<noteq> ctx_address ctx \<longrightarrow> GetStorage (vm_state s) a k = GetStorage w a k)
     \<and> (ctx_is_static ctx \<longrightarrow> vm_state s = w)"

lemma SetStorage_other:
  "ws_ok w \<Longrightarrow> a \<noteq> b \<Longrightarrow> GetStorage (SetStorage w b k v) a k' = GetStorage w a k'"
  by (simp add: GetStorage_def SetStorage_def MarkAccountDirty_def Let_def ws_ok_def)

lemma SetStorage_accounts: "ws_accounts (SetStorage w b k v) = ws_accounts w"
  by (simp add: SetStorage_def MarkAccountDirty_def Let_def)

interpretation frame: vm_invariant ctx "vm_frame ctx w" for ctx w
proof unfold_locales
  fix s and k v :: uint256
  assume "vm_frame ctx w s" "\<not> ctx_is_static ctx" "length k = 32" "length v = 32"
  then show "vm_frame ctx w (s\<lparr>vm_state := SetStorage (vm_state s) (ctx_address ctx) k v\<rparr>)"
    using machine.set_storage [of ctx s k v]
    by (auto simp: vm_frame_def vm_ok_def SetStorage_other SetStorage_accounts)
qed (auto simp: vm_frame_def intro: machine.sized machine.stack_sized machine.set_stack machine.use_gas
    machine.set_memory machine.mem_size machine.set_return machine.load)

text \<open>
  C21. Whatever the bytecode, an execution on a well-formed world state keeps the machine well-formed: at most
  1024 words of 32 bytes on the stack, gas within the limit, a well-formed world state with
  fresh root caches. It never ends with the results for stack underflow, stack overflow, an invalid jump
  or exceeded depth: all of these are reported as an invalid opcode.
\<close>

theorem vm_execution_safe:
  assumes "ctx_sized ctx" and "ws_ok w" and "Execute ctx code (VM_init w) = (r, s)"
  shows "length (vm_stack s) \<le> 1024 \<and> vm_gas_used s \<le> ctx_gas_limit ctx \<and> ws_ok (vm_state s)
    \<and> (\<forall>result data. r = Ok (result, data)
        \<longrightarrow> result \<notin> {STACK_UNDERFLOW, STACK_OVERFLOW, INVALID_JUMP, DEPTH_EXCEEDED})"
  using machine.execute [OF vm_ok_init [OF assms(1,2)], of code] assms(3)
  by (auto simp: kept_def vm_ok_def stack_ok_def MAX_STACK_SIZE_def results_def)

definition sample_ctx :: ExecutionContext where
  "sample_ctx = \<lparr>ctx_origin = replicate 20 1, ctx_caller = replicate 20 1, ctx_address = replicate 20 2,
     ctx_value = zero256, ctx_input_data = [], ctx_gas_limit = 100000, ctx_gas_price = 1, ctx_block_number = 1,
     ctx_timestamp = 1, ctx_coinbase = replicate 20 3, ctx_difficulty = 1, ctx_gas_limit_block = 1000000,
     ctx_chain_id = 1, ctx_base_fee = 1, ctx_is_static = False, ctx_depth = 0\<rparr>"

lemma sample_ctx_sized: "ctx_sized sample_ctx"
  by (simp add: ctx_sized_def sample_ctx_def)

lemma ws_ok_init: "ws_ok WorldState_init"
  by (simp add: ws_ok_def WorldState_init_def sized_def roots_ok_def)

text \<open>\<open>PUSH1 7; PUSH1 5; SSTORE\<close>, then a stack underflow.\<close>

definition sample_code :: bytes where
  "sample_code = [0x60, 7, 0x60, 5, OP_SSTORE, OP_POP]"

lemma sample_run:
  "fst (Execute sample_ctx sample_code (VM_init WorldState_init)) = Ok (INVALID_OPCODE, [])
   \<and> GetStorage (vm_state (snd (Execute sample_ctx sample_code (VM_init WorldState_init)))) (replicate 20 2)
       (ToUint256 5) = ToUint256 7"
  by code_simp

theorem vm_execution_safe_witness:
  "length (vm_stack (snd (Execute sample_ctx sample_code (VM_init WorldState_init)))) \<le> 1024"
  using vm_execution_safe [OF sample_ctx_sized ws_ok_init surjective_pairing, of sample_code] by blast

text \<open>
  C22. An execution changes no account and only the storage of the executing contract, and a static one
  changes nothing.
\<close>

theorem vm_execution_frame:
  assumes "ctx_sized ctx" and "ws_ok w" and "Execute ctx code (VM_init w) = (r, s)"
  shows "ws_accounts (vm_state s) = ws_accounts w
    \<and> (\<forall>a k. a \<noteq> ctx_address ctx \<longrightarrow> GetStorage (vm_state s) a k = GetStorage w a k)
    \<and> (ctx_is_static ctx \<longrightarrow> vm_state s = w)"
proof -
  have "vm_frame ctx w (VM_init w)"
    using vm_ok_init [OF assms(1,2)] by (simp add: vm_frame_def VM_init_def)
  from frame.execute [OF this, of code] show ?thesis using assms(3) by (simp add: kept_def vm_frame_def)
qed

theorem vm_execution_frame_witness:
  "GetStorage (vm_state (snd (Execute sample_ctx sample_code (VM_init WorldState_init)))) (replicate 20 4) (ToUint256 5)
     = zero256
   \<and> vm_state (snd (Execute (sample_ctx\<lparr>ctx_is_static := True\<rparr>) sample_code (VM_init WorldState_init))) = WorldState_init"
proof -
  have "replicate 20 (4 :: u8) \<noteq> ctx_address sample_ctx" by (simp add: sample_ctx_def)
  then have "GetStorage (vm_state (snd (Execute sample_ctx sample_code (VM_init WorldState_init)))) (replicate 20 4) (ToUint256 5)
      = GetStorage WorldState_init (replicate 20 4) (ToUint256 5)"
    using vm_execution_frame [OF sample_ctx_sized ws_ok_init surjective_pairing, of sample_code] by blast
  moreover have "ctx_sized (sample_ctx\<lparr>ctx_is_static := True\<rparr>)" by (simp add: ctx_sized_def sample_ctx_def)
  from vm_execution_frame [OF this ws_ok_init surjective_pairing, of sample_code]
  have "vm_state (snd (Execute (sample_ctx\<lparr>ctx_is_static := True\<rparr>) sample_code (VM_init WorldState_init))) = WorldState_init"
    by simp
  ultimately show ?thesis by (simp add: GetStorage_def WorldState_init_def)
qed

subsection \<open>Executions of particular code\<close>

text \<open>Code in front of the program counter does not matter.\<close>

definition shift_pc :: "nat \<Rightarrow> (ExecResult \<times> nat) step \<times> VM \<Rightarrow> (ExecResult \<times> nat) step \<times> VM" where
  "shift_pc n rs = (case rs of (Ok (result, pc), s) \<Rightarrow> (Ok (result, n + pc), s) | _ \<Rightarrow> rs)"

lemma shift_pc_bind: "vm_bind m (\<lambda>a. vm_return (f a, n + pc)) s = shift_pc n (vm_bind m (\<lambda>a. vm_return (f a, pc)) s)"
  by (simp add: vm_bind_def vm_return_def shift_pc_def split: prod.splits step.splits)

lemma shift_pc_Ok: "(Ok (result, n + pc), s) = shift_pc n (Ok (result, pc), s)"
  by (simp add: shift_pc_def)

lemma push_data_append: "push_data (p @ code) (length p + pc) n = push_data code pc n"
  by (simp add: push_data_def)

lemma ExecuteOpcode_append:
  "ExecuteOpcode ctx op (p @ code) (length p + pc) s = shift_pc (length p) (ExecuteOpcode ctx op code pc s)"
  unfolding ExecuteOpcode_def Let_def push_data_append add.assoc [of "length p"] shift_pc_bind [of _ _ "length p"]
    shift_pc_Ok [of _ "length p"] if_distrib [of "shift_pc (length p)"] option.case_distrib [of "shift_pc (length p)"]
  by (rule refl)

lemma ExecuteOpcode_STOP: "ExecuteOpcode ctx OP_STOP code pc s = (Ok (SUCCESS, pc), s)"
  by (simp only: ExecuteOpcode_def Let_def simp_thms if_True)

lemma run_append: "run ctx (p @ code) (length p + pc) s = run ctx code pc s"
proof (induction ctx code pc s rule: run.induct)
  case (1 ctx code pc s)
  show ?case
  proof (cases "pc < length code")
    case pc: True
    then have pc': "length p + pc < length (p @ code)" and nth: "(p @ code) ! (length p + pc) = code ! pc" by simp_all
    obtain paid s1 where g: "UseGas ctx (GetOpcodeCost (code ! pc)) s = (paid, s1)" by force
    obtain r s2 where x: "ExecuteOpcode ctx (code ! pc) code pc s1 = (r, s2)" by force
    show ?thesis
    proof (cases paid)
      case False
      with g have g: "UseGas ctx (GetOpcodeCost (code ! pc)) s = (False, s1)" by simp
      show ?thesis using run_turn(1) [OF pc g] run_turn(1) [OF pc', unfolded nth, OF g] by simp
    next
      case True
      with g have g: "UseGas ctx (GetOpcodeCost (code ! pc)) s = (True, s1)" by simp
      note eq = run_turn(2) [OF pc g, unfolded x prod.case]
      note eq' = run_turn(2) [OF pc', unfolded nth, OF g, unfolded ExecuteOpcode_append x]
      have "run ctx (p @ code) (length p + (pc' + 1)) s2 = run ctx code (pc' + 1) s2" if "r = Ok (SUCCESS, pc')" for pc'
        using 1 [OF pc refl, of "(True, s1)" True s1] g x that by simp
      then show ?thesis
        using eq eq' by (cases r) (auto simp: shift_pc_def split: prod.splits if_splits)
    qed
  qed (simp add: run_end)
qed

lemma run_drop: "k \<le> length code \<Longrightarrow> run ctx code k s = run ctx (drop k code) 0 s"
  using run_append [of ctx "take k code" "drop k code" 0 s] by simp

text \<open>
  \<open>STOP\<close> does not stop: an execution of code with a \<open>STOP\<close> in front is the execution of the rest.
\<close>

theorem stop_continues:
  "Execute ctx (OP_STOP # code) (VM_init w) = Execute ctx code (VM_init w)"
proof -
  have "UseGas ctx (GetOpcodeCost OP_STOP) (VM_init w) = (True, VM_init w)"
    by (simp add: UseGas_def GetOpcodeCost_def VM_init_def)
  then have "run ctx (OP_STOP # code) 0 (VM_init w) = run ctx (OP_STOP # code) 1 (VM_init w)"
    using run_turn(2) [of 0 "OP_STOP # code" ctx "VM_init w"] by (simp add: ExecuteOpcode_STOP)
  then show ?thesis using run_drop [of 1 "OP_STOP # code"] by (simp add: Execute_def)
qed

text \<open>Gas of one opcode, and the effect of single opcodes at the front of the code.\<close>

definition charge :: "u64 \<Rightarrow> VM \<Rightarrow> VM" where
  "charge amount s = s\<lparr>vm_gas_used := vm_gas_used s + amount\<rparr>"

definition affordable :: "ExecutionContext \<Rightarrow> u64 \<Rightarrow> VM \<Rightarrow> bool" where
  "affordable ctx amount s \<longleftrightarrow> unat (vm_gas_used s) + unat amount \<le> unat (ctx_gas_limit ctx)"

lemma UseGas_affordable: "affordable ctx amount s \<Longrightarrow> UseGas ctx amount s = (True, charge amount s)"
proof -
  assume a: "affordable ctx amount s"
  then have "unat (vm_gas_used s + amount) = unat (vm_gas_used s) + unat amount"
    using unat64_lt [of "ctx_gas_limit ctx"] by (subst unat_add_lem [symmetric]) (simp add: affordable_def)
  then show ?thesis using a by (simp add: UseGas_def charge_def affordable_def word_less_nat_alt)
qed

lemma charge_simps [simp]: "vm_stack (charge n s) = vm_stack s" "vm_memory (charge n s) = vm_memory s"
  "vm_state (charge n s) = vm_state s" "vm_gas_used (charge n s) = vm_gas_used s + n"
  by (simp_all add: charge_def)

lemma run_first:
  assumes "affordable ctx (GetOpcodeCost op) s"
    and "ExecuteOpcode ctx op (op # code) 0 (charge (GetOpcodeCost op) s) = (Ok (SUCCESS, n), s')"
    and "n \<le> length code"
  shows "run ctx (op # code) 0 s = run ctx (drop n code) 0 s'"
  using run_turn(2) [of 0 "op # code" ctx s] assms run_drop [of "n + 1" "op # code" ctx s']
  by (simp add: UseGas_affordable)

lemma run_push32:
  assumes "length v = 32" and "affordable ctx 3 s" and "length (vm_stack s) < MAX_STACK_SIZE"
  shows "run ctx (0x7f # v @ code) 0 s = run ctx code 0 ((charge 3 s)\<lparr>vm_stack := v # vm_stack s\<rparr>)"
proof -
  have "ExecuteOpcode ctx 0x7f (0x7f # v @ code) 0 (charge 3 s) = (Ok (SUCCESS, 32), (charge 3 s)\<lparr>vm_stack := v # vm_stack s\<rparr>)"
    using assms(1,3)
    by (simp add: ExecuteOpcode_def binary_ops_def unary_ops_def IsPushOp_def GetPushSize_def push_data_def vm_bind_def
        Push_def vm_return_def)
  then show ?thesis
    using run_first [where op = "0x7f" and code = "v @ code" and n = "32"] assms(1,2) by (simp add: GetOpcodeCost_def IsPushOp_def)
qed

lemma binary_opcode:
  assumes "(op, f) \<in> set binary_ops" and "vm_stack s = b # a # st" and "length st < MAX_STACK_SIZE"
  shows "ExecuteOpcode ctx op code pc s = (Ok (SUCCESS, pc), s\<lparr>vm_stack := f a b # st\<rparr>)"
proof -
  have "distinct (map fst binary_ops)" by (simp add: binary_ops_def)
  with assms(1) have "map_of binary_ops op = Some f" by simp
  moreover have "op \<noteq> OP_STOP" using assms(1) by (auto simp: binary_ops_def)
  ultimately show ?thesis
    using assms(2,3) by (simp add: ExecuteOpcode_def vm_bind_def Pop_def Push_def vm_return_def)
qed

text \<open>
  The binary opcodes take their operands in the reverse of the order of the EVM: after pushing \<open>a\<close>, then \<open>b\<close>,
  the opcode leaves \<open>f a b\<close> where the EVM has \<open>f b a\<close>, for instance \<open>a - b\<close> for \<open>SUB\<close>.
\<close>

theorem binary_operand_order:
  assumes "(op, f) \<in> set binary_ops" and "length a = 32" "length b = 32"
    and "6 + unat (GetOpcodeCost op) \<le> unat (ctx_gas_limit ctx)"
  shows "Execute ctx (0x7f # a @ 0x7f # b @ [op]) (VM_init w)
    = (Ok (SUCCESS, []), (VM_init w)\<lparr>vm_stack := [f a b], vm_gas_used := 6 + GetOpcodeCost op\<rparr>)"
proof -
  let ?s = "\<lambda>st g. \<lparr>vm_state = w, vm_stack = st, vm_memory = [], vm_return_data = [], vm_gas_used = g\<rparr>"
  have "Execute ctx (0x7f # a @ 0x7f # b @ [op]) (?s [] 0) = run ctx (0x7f # b @ [op]) 0 (?s [a] 3)"
    using assms by (simp add: Execute_def run_push32 affordable_def MAX_STACK_SIZE_def charge_def)
  also have "\<dots> = run ctx [op] 0 (?s [b, a] 6)"
    using assms by (simp add: run_push32 affordable_def MAX_STACK_SIZE_def charge_def)
  also have "\<dots> = run ctx [] 0 (?s [f a b] (6 + GetOpcodeCost op))"
    using assms run_first [where ctx = ctx and op = op and s = "?s [b, a] 6" and code = "[]" and n = "0"]
      binary_opcode [OF assms(1), of "charge (GetOpcodeCost op) (?s [b, a] 6)" b a "[]"]
    by (simp add: affordable_def MAX_STACK_SIZE_def charge_def)
  finally show ?thesis by (simp add: VM_init_def run_end)
qed

theorem binary_operand_order_witness:
  "vm_stack (snd (Execute sample_ctx (0x7f # ToUint256 10 @ 0x7f # ToUint256 3 @ [OP_SUB]) (VM_init WorldState_init))) = [ToUint256 7]"
proof -
  have "(OP_SUB, U_Sub) \<in> set binary_ops" by (simp add: binary_ops_def)
  from binary_operand_order [OF this, of "ToUint256 10" "ToUint256 3" sample_ctx WorldState_init]
  have "vm_stack (snd (Execute sample_ctx (0x7f # ToUint256 10 @ 0x7f # ToUint256 3 @ [OP_SUB]) (VM_init WorldState_init)))
      = [U_Sub (ToUint256 10) (ToUint256 3)]"
    by (simp add: GetOpcodeCost_def sample_ctx_def)
  also have "U_Sub (ToUint256 10) (ToUint256 3) = ToUint256 7" by code_simp
  finally show ?thesis .
qed

lemma ExecuteOpcode_memory:
  "op \<in> set [OP_MLOAD, OP_MSTORE, OP_MSTORE8]
    \<Longrightarrow> ExecuteOpcode ctx op code pc s = vm_bind (memory_op ctx op) (\<lambda>_. vm_return (SUCCESS, pc)) s"
  by (auto simp: ExecuteOpcode_def binary_ops_def unary_ops_def)

lemma ExpandMemory_small:
  assumes "unat sz < 32" and "vm_memory s = []" and "unat (vm_gas_used s) + 3 \<le> unat (ctx_gas_limit ctx)"
  shows "\<exists>t. ExpandMemory ctx sz s = (Ok (), t) \<and> length (vm_memory t) \<le> 32"
proof -
  have "unat ((sz + 31) div 32) = (unat sz + 31) div 32" using assms(1) by (simp add: unat_div unat_word_ariths)
  then have "unat ((sz + 31) div 32) \<le> 1" using assms(1) by simp
  then have "unat ((sz + 31) div 32 * 3) \<le> 3" by (simp add: unat_word_ariths)
  then have "UseGas ctx ((sz + 31) div 32 * 3) s = (True, charge ((sz + 31) div 32 * 3) s)"
    using assms(3) by (intro UseGas_affordable) (simp add: affordable_def)
  then show ?thesis
    using assms(1,2) by (auto simp: ExpandMemory_def Let_def MAX_ALLOC_def)
qed

text \<open>
  \<open>MSTORE\<close> at an offset whose end wraps around 64 bits writes outside of the memory: the size passed to
  \<open>ExpandMemory\<close> is less than 32, so neither the gas nor the size of the memory stop it.
\<close>

theorem mstore_offset_wraps:
  assumes "length v = 32" "length off = 32" and "2 ^ 64 - 32 \<le> unat (ToUint64 off)"
    and "12 \<le> unat (ctx_gas_limit ctx)"
  shows "fst (Execute ctx (0x7f # v @ 0x7f # off @ OP_MSTORE # code) (VM_init w)) = Undefined"
proof -
  let ?s = "\<lambda>st g. \<lparr>vm_state = w, vm_stack = st, vm_memory = [], vm_return_data = [], vm_gas_used = g\<rparr>"
  have "Execute ctx (0x7f # v @ 0x7f # off @ OP_MSTORE # code) (?s [] 0) = run ctx (0x7f # off @ OP_MSTORE # code) 0 (?s [v] 3)"
    using assms by (simp add: Execute_def run_push32 affordable_def MAX_STACK_SIZE_def charge_def)
  also have "\<dots> = run ctx (OP_MSTORE # code) 0 (?s [off, v] 6)"
    using assms by (simp add: run_push32 affordable_def MAX_STACK_SIZE_def charge_def)
  finally have eq: "Execute ctx (0x7f # v @ 0x7f # off @ OP_MSTORE # code) (VM_init w) = run ctx (OP_MSTORE # code) 0 (?s [off, v] 6)"
    by (simp add: VM_init_def)
  have off: "unat (ToUint64 off + 32) = unat (ToUint64 off) + 32 - 2 ^ 64"
    using assms(3) unat64_lt [of "ToUint64 off"] by (simp add: unat_word_ariths mod_if)
  define sz where "sz = ToUint64 off + 32"
  have small: "unat sz < 32" using off unat64_lt [of "ToUint64 off"] by (simp add: sz_def)
  let ?t = "?s [] 9"
  have "\<exists>t. ExpandMemory ctx sz ?t = (Ok (), t) \<and> length (vm_memory t) \<le> 32"
    using ExpandMemory_small [OF small, of ?t ctx] assms(4) by simp
  then obtain t where t: "ExpandMemory ctx sz ?t = (Ok (), t)" "length (vm_memory t) \<le> 32" by blast
  have "write_memory (unat (ToUint64 off)) v t = (Undefined, t)"
    using t(2) assms(1,3) by (simp add: write_memory_def)
  then have "memory_op ctx OP_MSTORE (?s [off, v] 9) = (Undefined, t)"
    using t(1) by (simp add: memory_op_def vm_bind_def Pop_def MemoryStore_def sz_def)
  then have "ExecuteOpcode ctx OP_MSTORE (OP_MSTORE # code) 0 (?s [off, v] 9) = (Undefined, t)"
    by (simp add: ExecuteOpcode_memory vm_bind_def)
  then show ?thesis
    using run_turn(2) [of 0 "OP_MSTORE # code" ctx "?s [off, v] 6"] assms(4)
    by (simp add: eq UseGas_affordable affordable_def charge_def GetOpcodeCost_def IsPushOp_def IsDupOp_def IsSwapOp_def)
qed

theorem mstore_offset_wraps_witness:
  "fst (Execute sample_ctx (0x7f # ToUint256 1 @ 0x7f # ToUint256 (- 32) @ OP_MSTORE # []) (VM_init WorldState_init)) = Undefined"
proof -
  have "unat (ToUint64 (ToUint256 (- 32))) = unat (- 32 :: u64) mod 2 ^ 64"
    using ToUint64_val ToUint256_val by simp
  then have "2 ^ 64 - 32 \<le> unat (ToUint64 (ToUint256 (- 32)))" by simp
  then show ?thesis
    using mstore_offset_wraps [of "ToUint256 1" "ToUint256 (- 32)" sample_ctx "[]" WorldState_init] by (simp add: sample_ctx_def)
qed

text \<open>
  An access near the end of the address space gives gas back: the number of words of the new size wraps to 0, so the cost
  of the expansion is negative. Here the one word of memory in use is refunded.
\<close>

lemma expansion_refund:
  assumes "length (vm_memory s) = 32" and "3 \<le> vm_gas_used s" "vm_gas_used s \<le> ctx_gas_limit ctx"
  shows "ExpandMemory ctx (- 1) s = (Throws, s\<lparr>vm_gas_used := vm_gas_used s - 3\<rparr>)"
proof -
  have "vm_gas_used s - 3 \<le> vm_gas_used s" by (rule word_sub_le [OF assms(2)])
  then have "\<not> ctx_gas_limit ctx < vm_gas_used s - 3" using assms(3) by simp
  then show ?thesis using assms(1) by (simp add: ExpandMemory_def UseGas_def MAX_ALLOC_def unsigned_minus_1_eq_mask mask_eq_exp_minus_1)
qed

end
