(* ===== verification/Vesting.thy ===== *)
theory Vesting
  imports StdMap
begin

section \<open>Vesting schedules\<close>

text \<open>
  Models \<open>layer1-talanton/governance/vesting.cpp\<close>: grants released linearly after a cliff. The identifier of a schedule is its key
  in the map. All arithmetic is that of \<open>uint64_t\<close>; a schedule is \<open>sane\<close> when its dates do not wrap and its duration is
  at most \<open>2 ^ 32\<close> blocks, which keeps the products of \<open>ComputeVested\<close> from wrapping.
\<close>

record VestingSchedule =
  schedule_id :: u64
  beneficiary :: bytes
  total_amount :: u64
  start_block :: u64
  cliff_blocks :: u64
  duration_blocks :: u64
  claimed_amount :: u64
  revoked :: bool
  revoked_at_block :: u64
  vs_grant_id :: u64

record VestingRegistry =
  schedules :: "(u64 \<times> VestingSchedule) list"
  next_id :: u64

definition VestingRegistry_init :: VestingRegistry where
  "VestingRegistry_init = \<lparr>schedules = [], next_id = 1\<rparr>"

definition ComputeVested :: "VestingSchedule \<Rightarrow> u64 \<Rightarrow> u64" where
  "ComputeVested s current_block =
     (if total_amount s = 0 \<or> duration_blocks s = 0 then 0
      else
        let cliff_end = start_block s + cliff_blocks s in
        if current_block < cliff_end then 0
        else
          let vest_end = cliff_end + duration_blocks s in
          if current_block \<ge> vest_end then total_amount s
          else
            let elapsed = current_block - cliff_end in
            (total_amount s div duration_blocks s) * elapsed
              + (total_amount s mod duration_blocks s) * elapsed div duration_blocks s)"

definition CreateSchedule :: "VestingRegistry \<Rightarrow> bytes \<Rightarrow> u64 \<Rightarrow> u64 \<Rightarrow> u64 \<Rightarrow> u64 \<Rightarrow> u64 \<Rightarrow> u64 \<times> VestingRegistry" where
  "CreateSchedule r owner amt start cliff duration grant_id =
     (if owner = [] \<or> amt = 0 \<or> duration = 0 then (0, r)
      else
        let i = next_id r in
        (i, r\<lparr>schedules := map_put i
                \<lparr>schedule_id = i, beneficiary = owner, total_amount = amt, start_block = start, cliff_blocks = cliff,
                 duration_blocks = duration, claimed_amount = 0, revoked = False, revoked_at_block = 0,
                 vs_grant_id = grant_id\<rparr> (schedules r),
              next_id := i + 1\<rparr>))"

definition GetTotalVested :: "VestingRegistry \<Rightarrow> u64 \<Rightarrow> u64 \<Rightarrow> u64" where
  "GetTotalVested r i current_block =
     (case map_of (schedules r) i of None \<Rightarrow> 0
      | Some s \<Rightarrow> if revoked s then ComputeVested s (revoked_at_block s) else ComputeVested s current_block)"

definition GetClaimable :: "VestingRegistry \<Rightarrow> u64 \<Rightarrow> u64 \<Rightarrow> u64" where
  "GetClaimable r i current_block =
     (case map_of (schedules r) i of None \<Rightarrow> 0
      | Some s \<Rightarrow>
          if revoked s then 0
          else let vested = ComputeVested s current_block in
            if vested > claimed_amount s then vested - claimed_amount s else 0)"

definition Vesting_Claim :: "VestingRegistry \<Rightarrow> u64 \<Rightarrow> u64 \<Rightarrow> u64 \<times> VestingRegistry" where
  "Vesting_Claim r i current_block =
     (case map_of (schedules r) i of None \<Rightarrow> (0, r)
      | Some s \<Rightarrow>
          if revoked s then (0, r)
          else let claimable = GetClaimable r i current_block in
            if claimable = 0 then (0, r)
            else (claimable, r\<lparr>schedules := map_put i (s\<lparr>claimed_amount := claimed_amount s + claimable\<rparr>) (schedules r)\<rparr>))"

definition GetReclaimable :: "VestingRegistry \<Rightarrow> u64 \<Rightarrow> u64 \<Rightarrow> u64" where
  "GetReclaimable r i current_block =
     (case map_of (schedules r) i of None \<Rightarrow> 0
      | Some s \<Rightarrow>
          if revoked s then 0
          else let vested = ComputeVested s current_block in
            if total_amount s > vested then total_amount s - vested else 0)"

definition Revoke :: "VestingRegistry \<Rightarrow> u64 \<Rightarrow> u64 \<Rightarrow> u64 \<Rightarrow> u64 \<times> VestingRegistry" where
  "Revoke r i proposal_id current_block =
     (if proposal_id = 0 then (0, r)
      else case map_of (schedules r) i of None \<Rightarrow> (0, r)
      | Some s \<Rightarrow>
          if revoked s then (0, r)
          else
            let reclaimable = GetReclaimable r i current_block in
            (reclaimable,
             r\<lparr>schedules := map_put i (s\<lparr>revoked := True, revoked_at_block := current_block\<rparr>) (schedules r)\<rparr>))"

definition GetSchedule :: "VestingRegistry \<Rightarrow> u64 \<Rightarrow> VestingSchedule option" where
  "GetSchedule r i = map_of (schedules r) i"

definition GetSchedulesForBeneficiary :: "VestingRegistry \<Rightarrow> bytes \<Rightarrow> VestingSchedule list" where
  "GetSchedulesForBeneficiary r owner = filter (\<lambda>s. beneficiary s = owner) (map snd (schedules r))"

subsection \<open>The vested amount\<close>

definition sane :: "VestingSchedule \<Rightarrow> bool" where
  "sane s \<longleftrightarrow> unat (start_block s) + unat (cliff_blocks s) + unat (duration_blocks s) < 2 ^ 64
     \<and> duration_blocks s \<noteq> 0 \<and> unat (duration_blocks s) \<le> 2 ^ 32"

text \<open>The release as a formula over the natural numbers.\<close>

definition released :: "VestingSchedule \<Rightarrow> nat \<Rightarrow> nat" where
  "released s block =
     unat (total_amount s) * min (block - (unat (start_block s) + unat (cliff_blocks s))) (unat (duration_blocks s))
       div unat (duration_blocks s)"

lemma split_product: "0 < d \<Longrightarrow> (t div d) * e + (t mod d) * e div d = t * e div d" for t d e :: nat
proof -
  assume d: "0 < d"
  have "t * e = (t div d * d + t mod d) * e" by simp
  also have "\<dots> = (t mod d) * e + (t div d * e) * d" by (simp only: algebra_simps)
  finally have "t * e div d = ((t mod d) * e + (t div d * e) * d) div d" by simp
  also have "\<dots> = (t div d) * e + (t mod d) * e div d" using d by simp
  finally show ?thesis by simp
qed

lemma ComputeVested_released:
  assumes "sane s"
  shows "unat (ComputeVested s b) = released s (unat b)"
proof -
  have d: "0 < unat (duration_blocks s)" "unat (duration_blocks s) \<le> 2 ^ 32" "duration_blocks s \<noteq> 0"
    using assms by (auto simp: sane_def unat_gt_0)
  have cliff: "unat (start_block s + cliff_blocks s) = unat (start_block s) + unat (cliff_blocks s)"
    using assms by (subst unat_add_lt) (simp_all add: sane_def)
  have vest: "unat (start_block s + cliff_blocks s + duration_blocks s)
      = unat (start_block s) + unat (cliff_blocks s) + unat (duration_blocks s)"
    using assms by (subst unat_add_lt) (simp_all add: sane_def cliff)
  consider "total_amount s = 0" | "b < start_block s + cliff_blocks s" "total_amount s \<noteq> 0"
    | "start_block s + cliff_blocks s + duration_blocks s \<le> b" "\<not> b < start_block s + cliff_blocks s" "total_amount s \<noteq> 0"
    | "\<not> b < start_block s + cliff_blocks s" "\<not> start_block s + cliff_blocks s + duration_blocks s \<le> b" "total_amount s \<noteq> 0"
    by fastforce
  then show ?thesis
  proof cases
    case 4
    define e where "e = b - (start_block s + cliff_blocks s)"
    have e: "unat e = unat b - (unat (start_block s) + unat (cliff_blocks s))"
      using 4(1) by (simp add: e_def unat_sub cliff)
    have ed: "unat e < unat (duration_blocks s)" using 4(1,2) by (simp add: word_le_nat_alt word_less_nat_alt cliff vest e)
    have "unat (total_amount s) div unat (duration_blocks s) * unat e \<le> unat (total_amount s)"
    proof -
      have "unat (total_amount s) div unat (duration_blocks s) * unat e
          \<le> unat (total_amount s) div unat (duration_blocks s) * unat (duration_blocks s)" using ed by (intro mult_left_mono) auto
      also have "\<dots> \<le> unat (total_amount s)" by simp
      finally show ?thesis .
    qed
    then have q: "unat (total_amount s div duration_blocks s * e) = unat (total_amount s) div unat (duration_blocks s) * unat e"
      using unat64_lt [of "total_amount s"] by (subst unat_mult_lt) (simp_all add: unat_div)
    have "unat (total_amount s) mod unat (duration_blocks s) < unat (duration_blocks s)" using d(1) by (rule mod_less_divisor)
    from mult_strict_mono [OF less_le_trans [OF this d(2)] less_le_trans [OF ed d(2)]]
    have "unat (total_amount s) mod unat (duration_blocks s) * unat e < 2 ^ 32 * 2 ^ 32" by simp
    then have r: "unat (total_amount s mod duration_blocks s * e) = unat (total_amount s) mod unat (duration_blocks s) * unat e"
      by (subst unat_mult_lt) (simp_all add: unat_mod)
    note sp = split_product [OF d(1), of "unat (total_amount s)" "unat e"]
    have "unat (total_amount s) * unat e div unat (duration_blocks s) \<le> unat (total_amount s)"
      using ed d(1) by (metis less_imp_le div_le_mono mult_le_mono2 nonzero_mult_div_cancel_right not_less0)
    then have "unat (total_amount s div duration_blocks s * e + total_amount s mod duration_blocks s * e div duration_blocks s)
        = unat (total_amount s) * unat e div unat (duration_blocks s)"
      using unat64_lt [of "total_amount s"] sp by (subst unat_add_lt) (simp_all add: q r unat_div)
    then show ?thesis
      using 4 d ed e by (simp add: ComputeVested_def Let_def e_def [symmetric] released_def min_def)
  next
    case 3
    then have "unat (start_block s) + unat (cliff_blocks s) + unat (duration_blocks s) \<le> unat b"
      using vest by (simp add: word_le_nat_alt)
    then have "min (unat b - (unat (start_block s) + unat (cliff_blocks s))) (unat (duration_blocks s)) = unat (duration_blocks s)"
      by simp
    then show ?thesis using 3 d by (simp add: ComputeVested_def Let_def released_def)
  next
    case 2
    then have "unat b < unat (start_block s) + unat (cliff_blocks s)" using cliff by (simp add: word_less_nat_alt)
    then show ?thesis using 2 d by (simp add: ComputeVested_def Let_def released_def)
  qed (simp_all add: ComputeVested_def released_def)
qed

lemma released_le: "sane s \<Longrightarrow> released s b \<le> unat (total_amount s)"
proof -
  assume "sane s"
  then have "0 < unat (duration_blocks s)" by (simp add: sane_def unat_gt_0)
  then show ?thesis unfolding released_def
    by (metis div_le_mono min.cobounded2 mult_le_mono2 nonzero_mult_div_cancel_right not_less0)
qed

lemma released_mono: "a \<le> b \<Longrightarrow> released s a \<le> released s b"
  unfolding released_def by (intro div_le_mono mult_le_mono2) auto

subsection \<open>Claims and revocations\<close>

text \<open>The states that creation of sane schedules, claims and revocations reach, at blocks that do not go back.\<close>

inductive vesting_reach :: "VestingRegistry \<Rightarrow> u64 \<Rightarrow> bool" where
  vesting_start: "vesting_reach VestingRegistry_init b"
| vesting_create: "vesting_reach r b \<Longrightarrow> unat start + unat cliff + unat duration < 2 ^ 64 \<Longrightarrow> unat duration \<le> 2 ^ 32
    \<Longrightarrow> vesting_reach (snd (CreateSchedule r owner amt start cliff duration grant)) b"
| vesting_claim: "vesting_reach r b \<Longrightarrow> b \<le> b' \<Longrightarrow> vesting_reach (snd (Vesting_Claim r i b')) b'"
| vesting_revoke: "vesting_reach r b \<Longrightarrow> b \<le> b' \<Longrightarrow> vesting_reach (snd (Revoke r i proposal b')) b'"

definition schedule_ok :: "u64 \<Rightarrow> VestingSchedule \<Rightarrow> bool" where
  "schedule_ok b s \<longleftrightarrow> sane s \<and> unat (claimed_amount s) \<le> released s (unat b)"

lemma schedule_ok_later: "schedule_ok b s \<Longrightarrow> b \<le> b' \<Longrightarrow> schedule_ok b' s"
  using released_mono [of "unat b" "unat b'" s] by (auto simp: schedule_ok_def word_le_nat_alt)

lemma released_claim [simp]: "released (s\<lparr>claimed_amount := c\<rparr>) = released s" "sane (s\<lparr>claimed_amount := c\<rparr>) = sane s"
  "released (s\<lparr>revoked := True, revoked_at_block := b\<rparr>) = released s"
  "sane (s\<lparr>revoked := True, revoked_at_block := b\<rparr>) = sane s"
  by (simp_all add: released_def sane_def fun_eq_iff)

lemma claim_result:
  assumes "map_of (schedules r) i = Some s" and "\<not> revoked s" and "schedule_ok b s"
  shows "unat (claimed_amount s) + unat (GetClaimable r i b) = released s (unat b)"
    "unat (claimed_amount s + GetClaimable r i b) = released s (unat b)"
proof -
  have v: "unat (ComputeVested s b) = released s (unat b)" "unat (claimed_amount s) \<le> unat (ComputeVested s b)"
    using assms(3) ComputeVested_released [of s b] by (simp_all add: schedule_ok_def)
  show exact: "unat (claimed_amount s) + unat (GetClaimable r i b) = released s (unat b)"
    using v assms(1,2) by (auto simp: GetClaimable_def Let_def unat_sub word_less_nat_alt word_le_nat_alt)
  have "released s (unat b) < 2 ^ 64" using v(1) unat64_lt [of "ComputeVested s b"] by simp
  then show "unat (claimed_amount s + GetClaimable r i b) = released s (unat b)"
    using exact by (subst unat_add_lt) simp_all
qed

lemma vesting_reach_ok: "vesting_reach r b \<Longrightarrow> map_of (schedules r) i = Some s \<Longrightarrow> schedule_ok b s"
proof (induction arbitrary: i s rule: vesting_reach.induct)
  case (vesting_create r b start cliff duration owner amt grant)
  then show ?case
    by (auto simp: CreateSchedule_def Let_def schedule_ok_def sane_def split: if_splits)
next
  case (vesting_claim r b b' j)
  have later: "schedule_ok b' s" if "map_of (schedules r) k = Some s" for k s
    using vesting_claim.IH [OF that] vesting_claim.hyps(2) by (rule schedule_ok_later)
  show ?case
  proof (cases "map_of (schedules r) j")
    case (Some t)
    show ?thesis
      using vesting_claim.prems later claim_result(2) [OF Some _ later [OF Some]] later [OF Some] Some
      by (auto simp: Vesting_Claim_def Let_def schedule_ok_def split: if_splits)
  qed (use vesting_claim.prems later in \<open>simp add: Vesting_Claim_def\<close>)
next
  case (vesting_revoke r b b' j proposal)
  have later: "schedule_ok b' s" if "map_of (schedules r) k = Some s" for k s
    using vesting_revoke.IH [OF that] vesting_revoke.hyps(2) by (rule schedule_ok_later)
  show ?case
  proof (cases "map_of (schedules r) j")
    case (Some t)
    show ?thesis
      using vesting_revoke.prems later later [OF Some] Some
      by (auto simp: Revoke_def Let_def schedule_ok_def split: if_splits)
  qed (use vesting_revoke.prems later in \<open>auto simp: Revoke_def split: if_splits\<close>)
qed (simp add: VestingRegistry_init_def)

lemma vesting_payments:
  assumes "vesting_reach r b" and "b \<le> b'" and "map_of (schedules r) i = Some s" and "\<not> revoked s"
  shows "unat (claimed_amount s) + unat (fst (Vesting_Claim r i b')) = released s (unat b')"
    and "released s (unat b') \<le> unat (total_amount s)"
    and "proposal \<noteq> 0 \<Longrightarrow> unat (claimed_amount s) + unat (fst (Revoke r i proposal b'))
      = unat (total_amount s) - (released s (unat b') - unat (claimed_amount s))"
    and "proposal \<noteq> 0 \<Longrightarrow> fst (Vesting_Claim (snd (Revoke r i proposal b')) i b'') = 0"
proof -
  have ok: "schedule_ok b' s" using vesting_reach_ok [OF assms(1,3)] assms(2) by (rule schedule_ok_later)
  then have v: "unat (ComputeVested s b') = released s (unat b')" "sane s" "unat (claimed_amount s) \<le> released s (unat b')"
    by (simp_all add: schedule_ok_def ComputeVested_released)
  have "fst (Vesting_Claim r i b') = GetClaimable r i b'"
    using assms(3,4) by (simp add: Vesting_Claim_def Let_def)
  then show "unat (claimed_amount s) + unat (fst (Vesting_Claim r i b')) = released s (unat b')"
    using claim_result(1) [OF assms(3,4) ok] by simp
  show le: "released s (unat b') \<le> unat (total_amount s)" using v(2) by (rule released_le)
  show "unat (claimed_amount s) + unat (fst (Revoke r i proposal b'))
      = unat (total_amount s) - (released s (unat b') - unat (claimed_amount s))" if "proposal \<noteq> 0"
    using that assms(3,4) v le
    by (auto simp: Revoke_def Let_def GetReclaimable_def unat_sub word_less_nat_alt word_le_nat_alt)
  show "fst (Vesting_Claim (snd (Revoke r i proposal b')) i b'') = 0" if "proposal \<noteq> 0"
    using that assms(3,4) by (simp add: Revoke_def Let_def Vesting_Claim_def)
qed

text \<open>
  A claim tops the payments of a schedule up to exactly the amount released by the linear formula, never more than
  the grant; a revocation gives back what is not yet released, so that payments and refund together stay within
  the grant, and nothing can be claimed afterwards, whatever was released but unclaimed.
\<close>

theorem vesting_pays_the_schedule:
  assumes "vesting_reach r b" and "b \<le> b'" and "map_of (schedules r) i = Some s" and "\<not> revoked s" and "proposal \<noteq> 0"
  shows "unat (claimed_amount s) + unat (fst (Vesting_Claim r i b')) = released s (unat b')
    \<and> released s (unat b') \<le> unat (total_amount s)
    \<and> unat (claimed_amount s) + unat (fst (Revoke r i proposal b'))
        = unat (total_amount s) - (released s (unat b') - unat (claimed_amount s))
    \<and> fst (Vesting_Claim (snd (Revoke r i proposal b')) i b'') = 0"
  using vesting_payments [OF assms(1-4)] assms(5) by simp

theorem vesting_pays_the_schedule_witness:
  "let r = snd (Vesting_Claim (snd (CreateSchedule VestingRegistry_init [1] 1000 0 10 100 0)) 1 60) in
     fst (Vesting_Claim r 1 85) = 250 \<and> fst (Revoke r 1 9 85) = 250"
proof -
  define r where "r = snd (Vesting_Claim (snd (CreateSchedule VestingRegistry_init [1] 1000 0 10 100 0)) 1 60)"
  have reach: "vesting_reach r 60" unfolding r_def
    by (rule vesting_claim [OF vesting_create [OF vesting_start [of 0]]]) simp_all
  have "map_of (schedules r) 1 = Some \<lparr>schedule_id = 1, beneficiary = [1], total_amount = 1000, start_block = 0,
      cliff_blocks = 10, duration_blocks = 100, claimed_amount = 500, revoked = False, revoked_at_block = 0, vs_grant_id = 0\<rparr>"
    unfolding r_def by code_simp
  from vesting_pays_the_schedule [OF reach _ this, of 85 9]
  have "unat (fst (Vesting_Claim r 1 85)) = 250" "unat (fst (Revoke r 1 9 85)) = 250" by (simp_all add: released_def)
  then show ?thesis by (simp add: r_def [symmetric] word_unat_eq_iff)
qed

text \<open>With a duration above \<open>2 ^ 32\<close> blocks the product still wraps: the vested amount drops as time passes.\<close>

lemma long_vesting_wraps:
  "let s = \<lparr>schedule_id = 1, beneficiary = [1], total_amount = 2 ^ 33 - 1, start_block = 0, cliff_blocks = 0,
      duration_blocks = 2 ^ 33, claimed_amount = 0, revoked = False, revoked_at_block = 0, vs_grant_id = 0\<rparr> in
   ComputeVested s (2 ^ 31) = 2 ^ 31 - 1 \<and> ComputeVested s (2 ^ 31 + 1) = 0"
  by (simp add: ComputeVested_def)

end
