(* ===== verification/Treasury.thy ===== *)
theory Treasury
  imports Vesting
begin

section \<open>The treasury\<close>

text \<open>
  Models \<open>layer1-talanton/governance/treasury.cpp\<close>: balances per track, spending by proposal within budgets and a reserve, spending
  of the emergency track by signatures of guardians, milestone grants and the audit log. \<open>balances_\<close> holds all five tracks
  from the start, so it is a function; \<open>track_spent\<close> reads 0 where it has no entry. The vesting registry
  the treasury may be attached to is part of its state. The text of the records that describe refunds has a dash instead of the code's.
\<close>

datatype Track = CORE_DEVELOPMENT | GRANTS | OPERATIONS | EMERGENCY | UNCATEGORIZED

definition all_tracks :: "Track list" where
  "all_tracks = [CORE_DEVELOPMENT, GRANTS, OPERATIONS, EMERGENCY, UNCATEGORIZED]"

record BudgetPeriod =
  bp_period_id :: u64
  bp_start_block :: u64
  bp_end_block :: u64
  track_limits :: "Track \<rightharpoonup> u64"
  track_spent :: "Track \<Rightarrow> u64"

record Milestone =
  ms_description :: string
  ms_amount :: u64
  ms_released :: bool
  ms_released_at_block :: u64

record Grant =
  gr_grant_id :: u64
  gr_proposal_id :: u64
  gr_recipient :: bytes
  gr_purpose :: string
  gr_total_amount :: u64
  released_amount :: u64
  gr_revoked :: bool
  gr_created_at_block :: u64
  milestones :: "Milestone list"

record MultiSigSpend =
  sp_spend_id :: u64
  sp_amount :: u64
  sp_recipient :: bytes
  sp_purpose :: string
  sp_initiator :: bytes
  sp_created_at_block :: u64
  sp_executed :: bool
  sp_executed_at_block :: u64
  sp_signers :: "bytes set"

record TxRecord =
  tx_id :: u64
  is_deposit :: bool
  tx_amount :: u64
  tx_address :: bytes
  tx_track :: Track
  tx_proposal_id :: u64
  tx_grant_id :: u64
  tx_purpose :: string
  tx_block_height :: u64

record Treasury =
  multisig_required :: u32
  reserve_ratio_bps :: u64
  vesting_registry :: "VestingRegistry option"
  balances :: "Track \<Rightarrow> u64"
  guardians :: "bytes list"
  multisig_spends :: "u64 \<rightharpoonup> MultiSigSpend"
  budget_periods :: "BudgetPeriod list"
  grants :: "(u64 \<times> Grant) list"
  tr_transactions :: "TxRecord list"
  next_spend_id :: u64
  next_period_id :: u64
  next_grant_id :: u64
  next_tx_id :: u64

definition Treasury_init :: "u32 \<Rightarrow> u64 \<Rightarrow> Treasury" where
  "Treasury_init required ratio =
     \<lparr>multisig_required = required, reserve_ratio_bps = ratio, vesting_registry = None, balances = (\<lambda>_. 0),
      guardians = [], multisig_spends = Map.empty, budget_periods = [], grants = [], tr_transactions = [],
      next_spend_id = 1, next_period_id = 1, next_grant_id = 1, next_tx_id = 1\<rparr>"

definition RecordTx :: "bool \<Rightarrow> u64 \<Rightarrow> bytes \<Rightarrow> Track \<Rightarrow> u64 \<Rightarrow> u64 \<Rightarrow> string \<Rightarrow> u64 \<Rightarrow> Treasury \<Rightarrow> Treasury" where
  "RecordTx deposit amount address track proposal_id grant_id purpose block_height t =
     t\<lparr>tr_transactions := tr_transactions t @
         [\<lparr>tx_id = next_tx_id t, is_deposit = deposit, tx_amount = amount, tx_address = address, tx_track = track,
           tx_proposal_id = proposal_id, tx_grant_id = grant_id, tx_purpose = purpose, tx_block_height = block_height\<rparr>],
       next_tx_id := next_tx_id t + 1\<rparr>"

subsection \<open>Guardians and deposits\<close>

definition IsGuardian :: "Treasury \<Rightarrow> bytes \<Rightarrow> bool" where
  "IsGuardian t address \<longleftrightarrow> address \<in> set (guardians t)"

definition AddGuardian :: "Treasury \<Rightarrow> bytes \<Rightarrow> bool \<times> Treasury" where
  "AddGuardian t address =
     (if address = [] then (False, t)
      else if IsGuardian t address then (False, t)
      else (True, t\<lparr>guardians := guardians t @ [address]\<rparr>))"

definition RemoveGuardian :: "Treasury \<Rightarrow> bytes \<Rightarrow> bool \<times> Treasury" where
  "RemoveGuardian t address =
     (if address \<notin> set (guardians t) then (False, t) else (True, t\<lparr>guardians := remove1 address (guardians t)\<rparr>))"

definition Treasury_Deposit :: "Treasury \<Rightarrow> u64 \<Rightarrow> bytes \<Rightarrow> Track \<Rightarrow> u64 \<Rightarrow> bool \<times> Treasury" where
  "Treasury_Deposit t amount sender track block_height =
     (if amount = 0 then (False, t)
      else (True, RecordTx True amount sender track 0 0 ''deposit'' block_height
                    (t\<lparr>balances := (balances t)(track := balances t track + amount)\<rparr>)))"

definition GetTotalBalance :: "Treasury \<Rightarrow> u64" where
  "GetTotalBalance t = wsum (map (balances t) all_tracks)"

definition GetTrackBalance :: "Treasury \<Rightarrow> Track \<Rightarrow> u64" where
  "GetTrackBalance t track = balances t track"

definition GetReserveBalance :: "Treasury \<Rightarrow> u64" where
  "GetReserveBalance t = GetTrackBalance t EMERGENCY"

subsection \<open>Spending by proposal\<close>

definition ViolatesReserve :: "Treasury \<Rightarrow> u64 \<Rightarrow> bool" where
  "ViolatesReserve t debit =
     (if reserve_ratio_bps t = 0 then False
      else
        let total_balance = GetTotalBalance t in
        if total_balance \<le> debit then True
        else GetReserveBalance t * 10000 < (total_balance - debit) * reserve_ratio_bps t)"

definition in_period :: "u64 \<Rightarrow> BudgetPeriod \<Rightarrow> bool" where
  "in_period block_height bp \<longleftrightarrow> bp_start_block bp \<le> block_height \<and> block_height \<le> bp_end_block bp"

definition IsWithinBudget :: "Treasury \<Rightarrow> Track \<Rightarrow> u64 \<Rightarrow> u64 \<Rightarrow> bool" where
  "IsWithinBudget t track amount block_height =
     (case find (in_period block_height) (budget_periods t) of
        None \<Rightarrow> True
      | Some bp \<Rightarrow>
          (case track_limits bp track of
             None \<Rightarrow> True
           | Some limit \<Rightarrow> if limit = 0 then True else track_spent bp track + amount \<le> limit))"

definition GetActiveBudgetPeriod :: "Treasury \<Rightarrow> u64 \<Rightarrow> BudgetPeriod option" where
  "GetActiveBudgetPeriod t block_height = find (in_period block_height) (budget_periods t)"

text \<open>The first period that holds the block is charged.\<close>

fun charge_period :: "u64 \<Rightarrow> Track \<Rightarrow> u64 \<Rightarrow> BudgetPeriod list \<Rightarrow> BudgetPeriod list" where
  "charge_period block_height track amount [] = []"
| "charge_period block_height track amount (bp # bps) =
     (if in_period block_height bp
      then bp\<lparr>track_spent := (track_spent bp)(track := track_spent bp track + amount)\<rparr> # bps
      else bp # charge_period block_height track amount bps)"

definition Spend :: "Treasury \<Rightarrow> u64 \<Rightarrow> bytes \<Rightarrow> u64 \<Rightarrow> Track \<Rightarrow> string \<Rightarrow> u64 \<Rightarrow> bool \<times> Treasury" where
  "Spend t amount recipient proposal_id track purpose block_height =
     (if proposal_id = 0 then (False, t)
      else if amount = 0 then (False, t)
      else if track = EMERGENCY then (False, t)
      else if amount > balances t track then (False, t)
      else if \<not> IsWithinBudget t track amount block_height then (False, t)
      else if ViolatesReserve t amount then (False, t)
      else (True, RecordTx False amount recipient track proposal_id 0 purpose block_height
                    (t\<lparr>balances := (balances t)(track := balances t track - amount),
                       budget_periods := charge_period block_height track amount (budget_periods t)\<rparr>)))"

definition CreateBudgetPeriod :: "Treasury \<Rightarrow> u64 \<Rightarrow> u64 \<Rightarrow> (Track \<rightharpoonup> u64) \<Rightarrow> u64 \<Rightarrow> u64 \<times> Treasury" where
  "CreateBudgetPeriod t first_block last_block limits proposal_id =
     (if proposal_id = 0 then (0, t)
      else if last_block \<le> first_block then (0, t)
      else
        (next_period_id t,
         t\<lparr>budget_periods := budget_periods t @
             [\<lparr>bp_period_id = next_period_id t, bp_start_block = first_block, bp_end_block = last_block, track_limits = limits,
               track_spent = (\<lambda>_. 0)\<rparr>],
           next_period_id := next_period_id t + 1\<rparr>))"

subsection \<open>Spending by signatures\<close>

definition ProposeMultiSigSpend :: "Treasury \<Rightarrow> u64 \<Rightarrow> bytes \<Rightarrow> string \<Rightarrow> bytes \<Rightarrow> u64 \<Rightarrow> u64 \<times> Treasury" where
  "ProposeMultiSigSpend t amount recipient purpose initiator block_height =
     (if amount = 0 \<or> recipient = [] then (0, t)
      else if \<not> IsGuardian t initiator then (0, t)
      else
        let i = next_spend_id t in
        (i, t\<lparr>multisig_spends := (multisig_spends t)(i \<mapsto>
                \<lparr>sp_spend_id = i, sp_amount = amount, sp_recipient = recipient, sp_purpose = purpose,
                 sp_initiator = initiator, sp_created_at_block = block_height, sp_executed = False,
                 sp_executed_at_block = 0, sp_signers = {initiator}\<rparr>),
              next_spend_id := i + 1\<rparr>))"

definition SignMultiSigSpend :: "Treasury \<Rightarrow> u64 \<Rightarrow> bytes \<Rightarrow> bool \<times> Treasury" where
  "SignMultiSigSpend t spend_id guardian =
     (if \<not> IsGuardian t guardian then (False, t)
      else case multisig_spends t spend_id of
        None \<Rightarrow> (False, t)
      | Some spend \<Rightarrow>
          if sp_executed spend then (False, t)
          else (True, t\<lparr>multisig_spends := (multisig_spends t)(spend_id \<mapsto>
                          spend\<lparr>sp_signers := insert guardian (sp_signers spend)\<rparr>)\<rparr>))"

definition HasSufficientSignatures :: "Treasury \<Rightarrow> u64 \<Rightarrow> bool" where
  "HasSufficientSignatures t spend_id =
     (case multisig_spends t spend_id of None \<Rightarrow> False
      | Some spend \<Rightarrow> of_nat (card (sp_signers spend)) \<ge> multisig_required t)"

definition ExecuteMultiSigSpend :: "Treasury \<Rightarrow> u64 \<Rightarrow> u64 \<Rightarrow> bool \<times> Treasury" where
  "ExecuteMultiSigSpend t spend_id block_height =
     (case multisig_spends t spend_id of
        None \<Rightarrow> (False, t)
      | Some spend \<Rightarrow>
          if sp_executed spend then (False, t)
          else if \<not> HasSufficientSignatures t spend_id then (False, t)
          else if sp_amount spend > balances t EMERGENCY then (False, t)
          else
            (True, RecordTx False (sp_amount spend) (sp_recipient spend) EMERGENCY 0 0 (sp_purpose spend) block_height
               (t\<lparr>balances := (balances t)(EMERGENCY := balances t EMERGENCY - sp_amount spend),
                  multisig_spends := (multisig_spends t)(spend_id \<mapsto>
                    spend\<lparr>sp_executed := True, sp_executed_at_block := block_height\<rparr>)\<rparr>)))"

definition GetMultiSigSpend :: "Treasury \<Rightarrow> u64 \<Rightarrow> MultiSigSpend option" where
  "GetMultiSigSpend t spend_id = multisig_spends t spend_id"

subsection \<open>Milestone grants\<close>

definition CreateGrant :: "Treasury \<Rightarrow> u64 \<Rightarrow> bytes \<Rightarrow> string \<Rightarrow> (string \<times> u64) list \<Rightarrow> u64 \<Rightarrow> u64 \<Rightarrow> u64 \<Rightarrow> u64 \<times> Treasury" where
  "CreateGrant t proposal_id recipient purpose ms block_height cliff duration =
     (if proposal_id = 0 \<or> recipient = [] \<or> ms = [] then (0, t)
      else
        let amount = wsum (map snd ms) in
        if amount = 0 then (0, t)
        else if amount > balances t GRANTS then (0, t)
        else
          let i = next_grant_id t;
              grant = \<lparr>gr_grant_id = i, gr_proposal_id = proposal_id, gr_recipient = recipient, gr_purpose = purpose,
                gr_total_amount = amount, released_amount = 0, gr_revoked = False, gr_created_at_block = block_height,
                milestones = map (\<lambda>(desc, amt). \<lparr>ms_description = desc, ms_amount = amt, ms_released = False,
                  ms_released_at_block = 0\<rparr>) ms\<rparr>;
              t = t\<lparr>balances := (balances t)(GRANTS := balances t GRANTS - amount),
                    grants := map_put i grant (grants t), next_grant_id := i + 1\<rparr> in
          (i, case vesting_registry t of
                None \<Rightarrow> t
              | Some reg \<Rightarrow>
                  if duration > 0 then
                    t\<lparr>vesting_registry := Some (snd (CreateSchedule reg recipient amount block_height cliff duration i))\<rparr>
                  else t))"

definition ReleaseMilestone :: "Treasury \<Rightarrow> u64 \<Rightarrow> u32 \<Rightarrow> u64 \<Rightarrow> u64 \<Rightarrow> bool \<times> Treasury" where
  "ReleaseMilestone t grant_id milestone_index proposal_id block_height =
     (if proposal_id = 0 then (False, t)
      else case map_of (grants t) grant_id of
        None \<Rightarrow> (False, t)
      | Some grant \<Rightarrow>
          if gr_revoked grant then (False, t)
          else if unat milestone_index \<ge> length (milestones grant) then (False, t)
          else
            let ms = milestones grant ! unat milestone_index in
            if ms_released ms then (False, t)
            else
              let grant' = grant\<lparr>released_amount := released_amount grant + ms_amount ms,
                    milestones := (milestones grant)[unat milestone_index :=
                      ms\<lparr>ms_released := True, ms_released_at_block := block_height\<rparr>]\<rparr> in
              (True, RecordTx False (ms_amount ms) (gr_recipient grant) GRANTS proposal_id grant_id (gr_purpose grant)
                       block_height (t\<lparr>grants := map_put grant_id grant' (grants t)\<rparr>)))"

definition unreleased :: "Milestone list \<Rightarrow> u64" where
  "unreleased ms = wsum (map ms_amount (filter (\<lambda>m. \<not> ms_released m) ms))"

definition RevokeGrant :: "Treasury \<Rightarrow> u64 \<Rightarrow> u64 \<Rightarrow> u64 \<Rightarrow> bool \<times> Treasury" where
  "RevokeGrant t grant_id proposal_id block_height =
     (if proposal_id = 0 then (False, t)
      else case map_of (grants t) grant_id of
        None \<Rightarrow> (False, t)
      | Some grant \<Rightarrow>
          if gr_revoked grant then (False, t)
          else
            let refund = unreleased (milestones grant) in
            (True, RecordTx True refund (gr_recipient grant) GRANTS proposal_id grant_id ''grant revoked - refund''
                     block_height
                     (t\<lparr>balances := (balances t)(GRANTS := balances t GRANTS + refund),
                        grants := map_put grant_id (grant\<lparr>gr_revoked := True\<rparr>) (grants t)\<rparr>)))"

definition GetGrant :: "Treasury \<Rightarrow> u64 \<Rightarrow> Grant option" where
  "GetGrant t grant_id = map_of (grants t) grant_id"

definition GetTransactionsByTrack :: "Treasury \<Rightarrow> Track \<Rightarrow> TxRecord list" where
  "GetTransactionsByTrack t track = filter (\<lambda>r. tx_track r = track) (tr_transactions t)"

subsection \<open>Where the money is\<close>

inductive treasury_reach :: "Treasury \<Rightarrow> bool" where
  tr_start: "treasury_reach (Treasury_init required ratio)"
| tr_config: "treasury_reach t \<Longrightarrow> treasury_reach (t\<lparr>multisig_required := n, reserve_ratio_bps := ratio\<rparr>)"
| tr_vesting: "treasury_reach t \<Longrightarrow> treasury_reach (t\<lparr>vesting_registry := reg\<rparr>)"
| tr_add: "treasury_reach t \<Longrightarrow> treasury_reach (snd (AddGuardian t a))"
| tr_remove: "treasury_reach t \<Longrightarrow> treasury_reach (snd (RemoveGuardian t a))"
| tr_deposit: "treasury_reach t \<Longrightarrow> treasury_reach (snd (Treasury_Deposit t amount a track h))"
| tr_spend: "treasury_reach t \<Longrightarrow> treasury_reach (snd (Spend t amount a proposal track purpose h))"
| tr_budget: "treasury_reach t \<Longrightarrow> treasury_reach (snd (CreateBudgetPeriod t b e limits proposal))"
| tr_propose: "treasury_reach t \<Longrightarrow> treasury_reach (snd (ProposeMultiSigSpend t amount a purpose g h))"
| tr_sign: "treasury_reach t \<Longrightarrow> treasury_reach (snd (SignMultiSigSpend t i g))"
| tr_execute: "treasury_reach t \<Longrightarrow> treasury_reach (snd (ExecuteMultiSigSpend t i h))"
| tr_grant: "treasury_reach t \<Longrightarrow> next_grant_id t \<noteq> UINT64_MAX
    \<Longrightarrow> treasury_reach (snd (CreateGrant t proposal a purpose ms h cliff duration))"
| tr_release: "treasury_reach t \<Longrightarrow> treasury_reach (snd (ReleaseMilestone t i j proposal h))"
| tr_revoke: "treasury_reach t \<Longrightarrow> treasury_reach (snd (RevokeGrant t i proposal h))"

text \<open>
  What is reserved for unreleased milestones, and what the audit log says has come in and gone out, all as natural numbers.
  The sums of the code are 64-bit sums: they are exact when the deposits of the whole log fit into 64 bits and so do the
  milestones of each grant, which the code does not check (\<open>milestone_sum_wraps\<close> below).
\<close>

definition unpaid :: "Milestone list \<Rightarrow> nat" where
  "unpaid ms = nsum (map ms_amount (filter (\<lambda>m. \<not> ms_released m) ms))"

definition reserved :: "Grant \<Rightarrow> nat" where
  "reserved g = (if gr_revoked g then 0 else unpaid (milestones g))"

definition forgone :: "Grant \<Rightarrow> nat" where
  "forgone g = (if gr_revoked g then unpaid (milestones g) else 0)"

definition in_tracks :: "Treasury \<Rightarrow> nat" where
  "in_tracks t = nsum (map (balances t) all_tracks)"

definition logged :: "(TxRecord \<Rightarrow> bool) \<Rightarrow> Treasury \<Rightarrow> nat" where
  "logged P t = nsum (map tx_amount (filter P (tr_transactions t)))"

abbreviation deposited :: "Treasury \<Rightarrow> nat" where
  "deposited \<equiv> logged (\<lambda>r. is_deposit r \<and> tx_grant_id r = 0)"

abbreviation refunded :: "Treasury \<Rightarrow> nat" where
  "refunded \<equiv> logged (\<lambda>r. is_deposit r \<and> tx_grant_id r \<noteq> 0)"

abbreviation paid_out :: "Treasury \<Rightarrow> nat" where
  "paid_out \<equiv> logged (\<lambda>r. \<not> is_deposit r)"

definition sums_fit :: "Treasury \<Rightarrow> bool" where
  "sums_fit t \<longleftrightarrow> deposited t < 2 ^ 64 \<and> (\<forall>(i, g) \<in> set (grants t). nsum (map ms_amount (milestones g)) < 2 ^ 64)"

definition money_adds_up :: "Treasury \<Rightarrow> bool" where
  "money_adds_up t \<longleftrightarrow> in_tracks t + map_sum reserved (grants t) + paid_out t = deposited t
     \<and> map_sum forgone (grants t) = refunded t"

definition treasury_ok :: "Treasury \<Rightarrow> bool" where
  "treasury_ok t \<longleftrightarrow> sorted_keys (grants t) \<and> (\<forall>k \<in> fst ` set (grants t). 0 < k \<and> k < next_grant_id t)
     \<and> 0 < next_grant_id t \<and> (sums_fit t \<longrightarrow> money_adds_up t)"

subsubsection \<open>Balances and logs\<close>

lemma tracks_put: "nsum (map (b(track := v)) all_tracks) + unat (b track) = nsum (map b all_tracks) + unat v"
  by (cases track) (simp_all add: all_tracks_def)

lemma tracks_one: "unat (balances t track) \<le> in_tracks t"
  by (cases track) (simp_all add: in_tracks_def all_tracks_def)

lemma tracks_add:
  assumes "in_tracks t + unat v < 2 ^ 64" and "balances t' = (balances t)(track := balances t track + v)"
  shows "in_tracks t' = in_tracks t + unat v"
  using tracks_put [of "balances t" track "balances t track + v"] assms tracks_one [of t track]
  by (simp add: in_tracks_def unat_add_lt del: fun_upd_apply)

lemma tracks_sub:
  assumes "v \<le> balances t track" and "balances t' = (balances t)(track := balances t track - v)"
  shows "in_tracks t' + unat v = in_tracks t"
  using tracks_put [of "balances t" track "balances t track - v"] assms
  by (simp add: in_tracks_def unat_sub word_le_nat_alt del: fun_upd_apply)

lemma logged_append:
  "tr_transactions t' = tr_transactions t @ [r] \<Longrightarrow> logged P t' = logged P t + (if P r then unat (tx_amount r) else 0)"
  by (simp add: logged_def)

lemma logged_same: "tr_transactions t' = tr_transactions t \<Longrightarrow> logged P t' = logged P t"
  by (simp add: logged_def)

lemma RecordTx_frame [simp]:
  "balances (RecordTx d n a tk p g why h t) = balances t" "grants (RecordTx d n a tk p g why h t) = grants t"
  "next_grant_id (RecordTx d n a tk p g why h t) = next_grant_id t"
  by (simp_all add: RecordTx_def)

lemma logged_RecordTx [simp]:
  "deposited (RecordTx d n a tk p g why h t) = deposited t + (if d \<and> g = 0 then unat n else 0)"
  "refunded (RecordTx d n a tk p g why h t) = refunded t + (if d \<and> g \<noteq> 0 then unat n else 0)"
  "paid_out (RecordTx d n a tk p g why h t) = paid_out t + (if d then 0 else unat n)"
  by (simp_all add: RecordTx_def logged_def)

lemma logged_frame [simp]:
  "logged P (t\<lparr>balances := b\<rparr>) = logged P t" "logged P (t\<lparr>grants := gs\<rparr>) = logged P t"
  "logged P (t\<lparr>multisig_spends := ss\<rparr>) = logged P t" "logged P (t\<lparr>budget_periods := bs\<rparr>) = logged P t"
  "logged P (t\<lparr>next_grant_id := n\<rparr>) = logged P t"
  by (simp_all add: logged_def)

lemma treasury_ok_same:
  "treasury_ok t \<Longrightarrow> balances t' = balances t \<Longrightarrow> grants t' = grants t \<Longrightarrow> next_grant_id t' = next_grant_id t
    \<Longrightarrow> tr_transactions t' = tr_transactions t \<Longrightarrow> treasury_ok t'"
  by (simp add: treasury_ok_def sums_fit_def money_adds_up_def in_tracks_def logged_same [of t' t])

text \<open>An operation that moves \<open>v\<close> units out of one track and logs them.\<close>

lemma pay_ok:
  assumes "treasury_ok t" and "v \<le> balances t track" and "balances t' = (balances t)(track := balances t track - v)"
    and "grants t' = grants t" and "next_grant_id t' = next_grant_id t"
    and "deposited t' = deposited t" and "refunded t' = refunded t" and "paid_out t' = paid_out t + unat v"
  shows "treasury_ok t'"
  using assms(1) tracks_sub [OF assms(2,3)]
  by (auto simp: treasury_ok_def sums_fit_def money_adds_up_def assms(4-))

lemma spend_ok: "treasury_ok t \<Longrightarrow> treasury_ok (snd (Spend t amount a proposal track purpose h))"
  by (auto simp: Spend_def intro: pay_ok [of t amount track])

lemma execute_ok: "treasury_ok t \<Longrightarrow> treasury_ok (snd (ExecuteMultiSigSpend t i h))"
  by (auto simp: ExecuteMultiSigSpend_def not_less split: option.splits intro!: pay_ok [of t "sp_amount _" EMERGENCY])

lemma deposit_ok:
  assumes "treasury_ok t"
  shows "treasury_ok (snd (Treasury_Deposit t amount a track h))"
proof (cases "amount = 0")
  case False
  let ?t = "snd (Treasury_Deposit t amount a track h)"
  have bal: "balances ?t = (balances t)(track := balances t track + amount)"
    and same: "grants ?t = grants t" "next_grant_id ?t = next_grant_id t"
    and logs: "deposited ?t = deposited t + unat amount" "refunded ?t = refunded t" "paid_out ?t = paid_out t"
    using False by (simp_all add: Treasury_Deposit_def)
  have "money_adds_up ?t" if fit: "sums_fit ?t"
  proof -
    have "sums_fit t" using fit by (simp add: sums_fit_def same logs)
    then have m: "money_adds_up t" using assms by (simp add: treasury_ok_def)
    then have "in_tracks t + unat amount < 2 ^ 64" using fit by (simp add: money_adds_up_def sums_fit_def logs)
    from tracks_add [OF this bal] m show ?thesis by (simp add: money_adds_up_def same logs)
  qed
  then show ?thesis using assms by (simp add: treasury_ok_def same)
qed (simp add: assms Treasury_Deposit_def)

subsubsection \<open>Grants\<close>

lemma map_sum_replace:
  fixes f :: "'v \<Rightarrow> nat"
  assumes "sorted_keys m" and "map_of m k = Some v"
  shows "map_sum f (map_put k v' m) + f v = map_sum f m + f v'"
  using map_sum_erase [of m k v f] map_sum_erase [of "map_put k v' m" k v' f] assms by (simp add: erase_put)

lemma set_put_new: "map_of m k = None \<Longrightarrow> set (map_put k v m) = insert (k, v) (set m)"
  by (induction k v m rule: map_put.induct) (auto split: if_splits)

lemma map_put_fit:
  assumes "sorted_keys m" and "map_of m k = Some v" and "Q v' \<longleftrightarrow> Q v"
  shows "(\<forall>(i, w) \<in> set (map_put k v' m). Q w) \<longleftrightarrow> (\<forall>(i, w) \<in> set m. Q w)"
proof -
  have "(\<forall>(i, w) \<in> set n. Q w) \<longleftrightarrow> (\<forall>i w. map_of n i = Some w \<longrightarrow> Q w)" if "sorted_keys n" for n :: "('a \<times> 'b) list"
    using sorted_keys_map_of [OF that] by auto
  then show ?thesis using assms by auto
qed

lemma unpaid_release:
  assumes "j < length ms" and "\<not> ms_released (ms ! j)"
  shows "unpaid (ms[j := (ms ! j)\<lparr>ms_released := True, ms_released_at_block := h\<rparr>]) + unat (ms_amount (ms ! j)) = unpaid ms"
  using assms
proof (induction ms arbitrary: j)
  case (Cons m ms)
  then show ?case by (cases j) (auto simp: unpaid_def)
qed simp

lemma unpaid_le: "unpaid ms \<le> nsum (map ms_amount ms)"
  by (induction ms) (auto simp: unpaid_def)

lemma unat_unreleased: "nsum (map ms_amount ms) < 2 ^ 64 \<Longrightarrow> unat (unreleased ms) = unpaid ms"
  using unpaid_le [of ms] unat_wsum_exact [of "map ms_amount (filter (\<lambda>m. \<not> ms_released m) ms)"]
  by (simp add: unpaid_def unreleased_def)

lemma next_id_grows: "i \<noteq> UINT64_MAX \<Longrightarrow> i < i + (1 :: u64)"
proof -
  assume "i \<noteq> UINT64_MAX"
  then have "unat i \<noteq> unat UINT64_MAX" by (metis unsigned_word_eqI)
  then have "unat (i + 1) = unat i + 1" using unat64_le [of i] by (subst unat_add_lt) simp_all
  then show ?thesis by (simp add: word_less_nat_alt)
qed

lemma grant_ok:
  assumes "treasury_ok t" and "next_grant_id t \<noteq> UINT64_MAX"
  shows "treasury_ok (snd (CreateGrant t proposal a purpose ms h cliff duration))"
proof (cases "fst (CreateGrant t proposal a purpose ms h cliff duration) = 0")
  case True
  then show ?thesis
    using assms by (auto simp: CreateGrant_def Let_def treasury_ok_def split: if_splits option.splits)
next
  case False
  define i where "i = next_grant_id t"
  define g where "g = \<lparr>gr_grant_id = i, gr_proposal_id = proposal, gr_recipient = a, gr_purpose = purpose,
    gr_total_amount = wsum (map snd ms), released_amount = 0, gr_revoked = False, gr_created_at_block = h,
    milestones = map (\<lambda>(desc, amt). \<lparr>ms_description = desc, ms_amount = amt, ms_released = False,
      ms_released_at_block = 0\<rparr>) ms\<rparr>"
  let ?t = "t\<lparr>balances := (balances t)(GRANTS := balances t GRANTS - wsum (map snd ms)), grants := map_put i g (grants t),
    next_grant_id := i + 1\<rparr>"
  have new: "map_of (grants t) i = None"
    using assms(1) by (auto simp: treasury_ok_def map_of_eq_None_iff i_def)
  have amounts: "map ms_amount (milestones g) = map snd ms" "filter (\<lambda>m. \<not> ms_released m) (milestones g) = milestones g"
    by (auto simp: g_def comp_def split_def filter_id_conv)
  then have g: "reserved g = nsum (map snd ms)" "forgone g = 0"
    by (simp_all only: reserved_def forgone_def unpaid_def) (simp_all add: g_def)
  have le: "wsum (map snd ms) \<le> balances t GRANTS"
    using False by (auto simp: CreateGrant_def Let_def split: if_splits option.splits)
  have "money_adds_up ?t" if fit: "sums_fit ?t"
  proof -
    have put: "set (map_put i g (grants t)) = insert (i, g) (set (grants t))" using new by (rule set_put_new)
    have "sums_fit t" using fit by (auto simp: sums_fit_def put)
    then have "money_adds_up t" using assms(1) by (simp add: treasury_ok_def)
    moreover have "unat (wsum (map snd ms)) = nsum (map snd ms)"
      using fit amounts(1) by (intro unat_wsum_exact) (auto simp: sums_fit_def put)
    ultimately show ?thesis
      using tracks_sub [OF le, of ?t] by (simp add: money_adds_up_def map_sum_put_new [OF new] g del: fun_upd_apply)
  qed
  moreover have "k < i + 1" if "k \<le> i" for k
    using that next_id_grows [OF assms(2)] unfolding i_def by (rule order.strict_trans1)
  ultimately have "treasury_ok ?t"
    using assms(1) by (auto simp: treasury_ok_def i_def [symmetric] simp del: fun_upd_apply)
  moreover have "snd (CreateGrant t proposal a purpose ms h cliff duration) = ?t
      \<or> (\<exists>reg. snd (CreateGrant t proposal a purpose ms h cliff duration) = ?t\<lparr>vesting_registry := reg\<rparr>)"
    using False by (auto simp: CreateGrant_def Let_def g_def i_def split: if_splits option.splits)
  ultimately show ?thesis by (auto intro: treasury_ok_same)
qed

text \<open>An operation that replaces one grant, keeping its amounts.\<close>

lemma replace_ok:
  assumes "treasury_ok t" and g: "map_of (grants t) i = Some g" and "grants t' = map_put i g' (grants t)"
    and "map ms_amount (milestones g') = map ms_amount (milestones g)"
    and "next_grant_id t' = next_grant_id t" and "deposited t' = deposited t"
    and "sums_fit t \<Longrightarrow> money_adds_up t \<Longrightarrow> nsum (map ms_amount (milestones g)) < 2 ^ 64 \<Longrightarrow>
      in_tracks t' + reserved g' + paid_out t' = in_tracks t + reserved g + paid_out t \<and> refunded t' + forgone g = refunded t + forgone g'"
  shows "treasury_ok t'"
proof -
  have sorted: "sorted_keys (grants t)" using assms(1) by (simp add: treasury_ok_def)
  have i: "i \<in> fst ` set (grants t)" using map_of_SomeD [OF g] by force
  have fit: "sums_fit t' \<longleftrightarrow> sums_fit t"
    using map_put_fit [OF sorted g, of "\<lambda>g. nsum (map ms_amount (milestones g)) < 2 ^ 64" g'] assms(3,4,6)
    by (simp add: sums_fit_def)
  have "money_adds_up t'" if "sums_fit t'"
  proof -
    have "sums_fit t" "money_adds_up t" using that fit assms(1) by (simp_all add: treasury_ok_def)
    moreover have "nsum (map ms_amount (milestones g)) < 2 ^ 64"
      using \<open>sums_fit t\<close> map_of_SomeD [OF g] by (auto simp: sums_fit_def)
    ultimately show ?thesis
      using assms(7) map_sum_replace [OF sorted g, of reserved g'] map_sum_replace [OF sorted g, of forgone g'] assms(3,6)
      by (simp add: money_adds_up_def)
  qed
  then show ?thesis using assms(1,3,5) i by (auto simp: treasury_ok_def)
qed

lemma grant_id_positive: "treasury_ok t \<Longrightarrow> map_of (grants t) i = Some g \<Longrightarrow> i \<noteq> 0"
  by (auto simp: treasury_ok_def dest!: map_of_SomeD)

lemma release_ok:
  assumes "treasury_ok t"
  shows "treasury_ok (snd (ReleaseMilestone t i j proposal h))"
proof (cases "fst (ReleaseMilestone t i j proposal h)")
  case True
  then obtain g where g: "proposal \<noteq> 0" "map_of (grants t) i = Some g" "\<not> gr_revoked g" "unat j < length (milestones g)"
    "\<not> ms_released (milestones g ! unat j)"
    by (auto simp: ReleaseMilestone_def Let_def split: if_splits option.splits)
  have amounts: "map ms_amount ((milestones g)[unat j := (milestones g ! unat j)\<lparr>ms_released := True, ms_released_at_block := h\<rparr>])
      = map ms_amount (milestones g)"
    using g(4) by (simp add: map_update list_update_same_conv)
  show ?thesis
    by (rule replace_ok [OF assms g(2), of _ "g\<lparr>released_amount := released_amount g + ms_amount (milestones g ! unat j),
          milestones := (milestones g)[unat j := (milestones g ! unat j)\<lparr>ms_released := True, ms_released_at_block := h\<rparr>]\<rparr>"])
       (use g unpaid_release [OF g(4,5), of h] amounts in
         \<open>simp_all add: ReleaseMilestone_def Let_def in_tracks_def reserved_def forgone_def\<close>)
next
  case False
  then have "snd (ReleaseMilestone t i j proposal h) = t"
    by (auto simp: ReleaseMilestone_def Let_def split: if_splits option.splits)
  then show ?thesis using assms by simp
qed

lemma revoke_ok:
  assumes "treasury_ok t"
  shows "treasury_ok (snd (RevokeGrant t i proposal h))"
proof (cases "fst (RevokeGrant t i proposal h)")
  case True
  let ?t = "snd (RevokeGrant t i proposal h)"
  obtain g where g: "proposal \<noteq> 0" "map_of (grants t) i = Some g" "\<not> gr_revoked g"
    using True by (auto simp: RevokeGrant_def Let_def split: if_splits option.splits)
  have i: "i \<noteq> 0" using assms g(2) by (rule grant_id_positive)
  have bal: "balances ?t = (balances t)(GRANTS := balances t GRANTS + unreleased (milestones g))"
    using g by (simp add: RevokeGrant_def Let_def)
  have "in_tracks ?t = in_tracks t + reserved g \<and> unat (unreleased (milestones g)) = reserved g"
    if "sums_fit t" "money_adds_up t" "nsum (map ms_amount (milestones g)) < 2 ^ 64"
  proof -
    have r: "unat (unreleased (milestones g)) = reserved g" using unat_unreleased [OF that(3)] g(3) by (simp add: reserved_def)
    have "reserved g \<le> map_sum reserved (grants t)"
      using assms g(2) map_sum_erase [of "grants t" i g reserved] by (simp add: treasury_ok_def)
    then have "in_tracks t + reserved g < 2 ^ 64" using that by (simp add: money_adds_up_def sums_fit_def)
    then show ?thesis using tracks_add [OF _ bal] r by simp
  qed
  then show ?thesis
    by (intro replace_ok [OF assms g(2), of _ "g\<lparr>gr_revoked := True\<rparr>"])
       (use g i in \<open>simp_all add: RevokeGrant_def Let_def reserved_def forgone_def\<close>)
next
  case False
  then have "snd (RevokeGrant t i proposal h) = t"
    by (auto simp: RevokeGrant_def Let_def split: if_splits option.splits)
  then show ?thesis using assms by simp
qed

lemma treasury_reach_ok: "treasury_reach t \<Longrightarrow> treasury_ok t"
proof (induction rule: treasury_reach.induct)
  case (tr_start required ratio)
  show ?case
    by (simp add: treasury_ok_def money_adds_up_def in_tracks_def logged_def Treasury_init_def all_tracks_def)
next
  case (tr_budget t b e limits proposal)
  then show ?case by (auto simp: CreateBudgetPeriod_def intro: treasury_ok_same)
next
  case (tr_propose t amount a purpose g h)
  then show ?case by (auto simp: ProposeMultiSigSpend_def Let_def intro: treasury_ok_same)
next
  case (tr_sign t i g)
  then show ?case by (auto simp: SignMultiSigSpend_def intro: treasury_ok_same split: option.splits)
qed (auto simp: AddGuardian_def RemoveGuardian_def grant_ok release_ok revoke_ok spend_ok execute_ok deposit_ok
    intro: treasury_ok_same)

text \<open>
  C24. No money appears or vanishes: the balances of all tracks, what is reserved for unreleased milestones of grants not
  revoked, and what the audit log says was paid out are together exactly what the log says was deposited from outside. The
  log's other deposits, the refunds, are exactly the unreleased milestones of the revoked grants: nothing was booked as spent
  for them, so they count money that never left. All numbers are exact, under the condition that the deposits of the log
  fit into 64 bits and so do the milestones of each grant.
\<close>

theorem treasury_conserves_money:
  assumes "treasury_reach t" and "deposited t < 2 ^ 64"
    and "\<And>i g. (i, g) \<in> set (grants t) \<Longrightarrow> nsum (map ms_amount (milestones g)) < 2 ^ 64"
  shows "nsum (map (balances t) all_tracks)
      + map_sum (\<lambda>g. if gr_revoked g then 0 else unpaid (milestones g)) (grants t) + paid_out t = deposited t
    \<and> map_sum (\<lambda>g. if gr_revoked g then unpaid (milestones g) else 0) (grants t) = refunded t"
  using treasury_reach_ok [OF assms(1)] assms(2,3)
  by (auto simp: treasury_ok_def sums_fit_def money_adds_up_def in_tracks_def reserved_def [abs_def] forgone_def [abs_def])

definition sample_treasury :: Treasury where
  "sample_treasury =
     snd (RevokeGrant (snd (ReleaseMilestone (snd (CreateGrant (snd (Treasury_Deposit (Treasury_init 2 0) 100 [1] GRANTS 1))
       7 [2] ''work'' [(''a'', 30), (''b'', 20)] 2 0 0)) 1 0 8 3)) 1 9 4)"

lemma sample_treasury_reach: "treasury_reach sample_treasury"
  unfolding sample_treasury_def by (intro tr_revoke tr_release tr_grant tr_deposit tr_start) code_simp

lemma sample_treasury_sums:
  "deposited sample_treasury = 100" "paid_out sample_treasury = 30" "refunded sample_treasury = 20"
  by code_simp+

lemma sample_treasury_grants: "list_all (\<lambda>(i, g). nsum (map ms_amount (milestones g)) = 50) (grants sample_treasury)"
  by code_simp

theorem treasury_conserves_money_witness:
  "nsum (map (balances sample_treasury) all_tracks)
     + map_sum (\<lambda>g. if gr_revoked g then 0 else unpaid (milestones g)) (grants sample_treasury) + 30 = 100
   \<and> map_sum (\<lambda>g. if gr_revoked g then unpaid (milestones g) else 0) (grants sample_treasury) = 20"
proof -
  have "nsum (map ms_amount (milestones g)) < 2 ^ 64" if "(i, g) \<in> set (grants sample_treasury)" for i g
    using that sample_treasury_grants by (auto simp: list_all_iff)
  from treasury_conserves_money [OF sample_treasury_reach _ this] show ?thesis
    by (simp add: sample_treasury_sums)
qed

subsection \<open>The reserve, and two holes\<close>

lemma total_update: "wsum (map (b(track := v)) all_tracks) = wsum (map b all_tracks) - b track + v"
  by (cases track) (simp_all add: all_tracks_def)

text \<open>
  A successful spending leaves the emergency track untouched, and afterwards it still is the required share of the whole treasury,
  as long as the balances are small enough for the products to fit into 64 bits.
\<close>

theorem spending_keeps_reserve:
  assumes "Spend t amount a proposal track purpose h = (True, t')"
    and "nsum (map (balances t) all_tracks) < 2 ^ 64 div 10000" and "reserve_ratio_bps t \<le> 10000"
  shows "balances t' EMERGENCY = balances t EMERGENCY
    \<and> unat (balances t' EMERGENCY) * 10000 \<ge> unat (GetTotalBalance t') * unat (reserve_ratio_bps t)"
proof -
  have c: "amount \<le> balances t track" "track \<noteq> EMERGENCY" "\<not> ViolatesReserve t amount" "amount \<noteq> 0"
    and b: "balances t' = (balances t)(track := balances t track - amount)"
    using assms(1) by (auto simp: Spend_def split: if_splits)
  have tot: "GetTotalBalance t' = GetTotalBalance t - amount"
    by (simp add: GetTotalBalance_def b total_update del: fun_upd_apply)
  have nb: "unat (GetTotalBalance t) < 2 ^ 64 div 10000"
    using assms(2) unat_wsum_le [of "map (balances t) all_tracks"] by (simp add: GetTotalBalance_def)
  have em: "unat (balances t EMERGENCY) < 2 ^ 64 div 10000" using assms(2) by (simp add: all_tracks_def)
  have r: "unat (reserve_ratio_bps t) \<le> 10000" using assms(3) by (simp add: word_le_nat_alt)
  show ?thesis
  proof (cases "reserve_ratio_bps t = 0")
    case False
    with c(3) have le: "amount < GetTotalBalance t"
      and res: "(GetTotalBalance t - amount) * reserve_ratio_bps t \<le> balances t EMERGENCY * 10000"
      by (auto simp: ViolatesReserve_def Let_def GetReserveBalance_def GetTrackBalance_def split: if_splits)
    have small: "unat (GetTotalBalance t') < 2 ^ 64 div 10000"
      using nb le unat_sub [OF less_imp_le [OF le]] by (simp add: tot word_less_nat_alt)
    have "unat (GetTotalBalance t') * unat (reserve_ratio_bps t) \<le> (2 ^ 64 div 10000 - 1) * 10000"
      using small r by (intro mult_le_mono) auto
    then have "unat (GetTotalBalance t' * reserve_ratio_bps t) = unat (GetTotalBalance t') * unat (reserve_ratio_bps t)"
      by (subst unat_mult_lt) simp_all
    moreover have "unat (balances t EMERGENCY * 10000) = unat (balances t EMERGENCY) * 10000"
      using em by (subst unat_mult_lt) simp_all
    ultimately show ?thesis using res c(2) by (simp add: b tot word_le_nat_alt)
  qed (use c(2) in \<open>simp add: b\<close>)
qed

theorem spending_keeps_reserve_witness:
  "\<exists>t'. Spend ((Treasury_init 2 1000)\<lparr>balances := (\<lambda>_. 0)(EMERGENCY := 50, GRANTS := 500)\<rparr>) 50 [1] 3 GRANTS ''x'' 5 = (True, t')
    \<and> unat (balances t' EMERGENCY) * 10000 \<ge> unat (GetTotalBalance t') * 1000"
proof -
  let ?t = "(Treasury_init 2 1000)\<lparr>balances := (\<lambda>_. 0)(EMERGENCY := 50, GRANTS := 500)\<rparr>"
  obtain t' where t': "Spend ?t 50 [1] 3 GRANTS ''x'' 5 = (True, t')"
    by (simp add: Spend_def Treasury_init_def IsWithinBudget_def ViolatesReserve_def GetTotalBalance_def all_tracks_def
        GetReserveBalance_def GetTrackBalance_def)
  have "nsum (map (balances ?t) all_tracks) < 2 ^ 64 div 10000" "reserve_ratio_bps ?t \<le> 10000" "unat (reserve_ratio_bps ?t) = 1000"
    by (simp_all add: all_tracks_def Treasury_init_def)
  with spending_keeps_reserve [OF t'] t' show ?thesis by auto
qed

text \<open>
  The sum of the milestones wraps: a grant of milestones over \<open>2 ^ 64 - 1\<close> and 2 units costs the track 1 unit, and its
  first milestone is paid in full. A guardian who was removed is still counted among the signers.
\<close>

lemma milestone_sum_wraps:
  "let t = snd (Treasury_Deposit (Treasury_init 2 0) 1 [1] GRANTS 1);
       (i, t) = CreateGrant t 7 [2] ''work'' [(''a'', 2 ^ 64 - 1), (''b'', 2)] 2 0 0;
       (ok, t) = ReleaseMilestone t i 0 8 3 in
   ok \<and> tx_amount (tr_transactions t ! 1) = 2 ^ 64 - 1"
  by code_simp

lemma removed_guardian_counts:
  "let t = snd (Treasury_Deposit (Treasury_init 2 0) 10 [1] EMERGENCY 1);
       t = snd (AddGuardian (snd (AddGuardian t [1])) [2]);
       (i, t) = ProposeMultiSigSpend t 10 [9] ''x'' [1] 2;
       t = snd (SignMultiSigSpend (snd (RemoveGuardian t [1])) i [2]) in
   guardians t = [[2]] \<and> fst (ExecuteMultiSigSpend t i 3)"
  by code_simp

end
