(* ===== verification/FeeRouter.thy ===== *)
theory FeeRouter
  imports Treasury BlockStorage
begin

section \<open>Fees, supply thresholds and the event log\<close>

text \<open>
  Models \<open>layer1-talanton/governance/fee_router.cpp\<close>, \<open>supply_policy.cpp\<close> and \<open>eventlog.cpp\<close>: how fees are split between block producer,
  treasury and burning, the percentage thresholds of the governance, and the log of governance events. An event type
  is its number. The treasury and the log a router may be attached to are part of its state; \<open>configs_\<close> and \<open>stats_\<close> have an
  entry for every source from the start, so they are functions.
\<close>

subsection \<open>The event log\<close>

record Event =
  ev_event_id :: u64
  ev_type :: u32
  ev_block_height :: u64
  ev_actor :: bytes
  ev_reference_id :: u64
  ev_description :: string

record GovernanceEventLog =
  ev_events :: "Event list"
  next_event_id :: u64

definition GovernanceEventLog_init :: GovernanceEventLog where
  "GovernanceEventLog_init = \<lparr>ev_events = [], next_event_id = 1\<rparr>"

abbreviation (input) TREASURY_DEPOSIT :: u32 where "TREASURY_DEPOSIT \<equiv> 200"

definition EventLog_Log :: "GovernanceEventLog \<Rightarrow> u32 \<Rightarrow> u64 \<Rightarrow> bytes \<Rightarrow> u64 \<Rightarrow> string \<Rightarrow> GovernanceEventLog" where
  "EventLog_Log l ty block_height actor reference_id description =
     l\<lparr>ev_events := ev_events l @ [\<lparr>ev_event_id = next_event_id l, ev_type = ty, ev_block_height = block_height,
         ev_actor = actor, ev_reference_id = reference_id, ev_description = description\<rparr>],
       next_event_id := next_event_id l + 1\<rparr>"

definition GetByType :: "GovernanceEventLog \<Rightarrow> u32 \<Rightarrow> Event list" where
  "GetByType l ty = filter (\<lambda>e. ev_type e = ty) (ev_events l)"

definition GetByActor :: "GovernanceEventLog \<Rightarrow> bytes \<Rightarrow> Event list" where
  "GetByActor l actor = filter (\<lambda>e. ev_actor e = actor) (ev_events l)"

definition GetByBlockRange :: "GovernanceEventLog \<Rightarrow> u64 \<Rightarrow> u64 \<Rightarrow> Event list" where
  "GetByBlockRange l from_block to_block =
     filter (\<lambda>e. ev_block_height e \<ge> from_block \<and> ev_block_height e \<le> to_block) (ev_events l)"

definition GetByReferenceId :: "GovernanceEventLog \<Rightarrow> u64 \<Rightarrow> Event list" where
  "GetByReferenceId l reference_id = filter (\<lambda>e. ev_reference_id e = reference_id) (ev_events l)"

subsection \<open>Thresholds\<close>

definition TIER_LOW_BPS :: u32 where "TIER_LOW_BPS = 500"
definition TIER_MID_BPS :: u32 where "TIER_MID_BPS = 1000"
definition TIER_HIGH_BPS :: u32 where "TIER_HIGH_BPS = 5000"

definition ComputeThreshold :: "u64 \<Rightarrow> u32 \<Rightarrow> u64" where
  "ComputeThreshold supply bps =
     (let quotient = supply div 10000; remainder = supply mod 10000 in
      quotient * ucast bps + (remainder * ucast bps) div 10000)"

definition IsBondingHealthy :: "u64 \<Rightarrow> u64 \<Rightarrow> u32 \<Rightarrow> bool" where
  "IsBondingHealthy bonded_supply total_supply min_bps =
     (if total_supply = 0 then False else bonded_supply * 10000 \<ge> total_supply * ucast min_bps)"

definition ExceedsTreasuryCap :: "u64 \<Rightarrow> u64 \<Rightarrow> u64 \<Rightarrow> bool" where
  "ExceedsTreasuryCap treasury_balance deposit total_supply =
     (let cap = ComputeThreshold total_supply TIER_HIGH_BPS in
      if deposit > UINT64_MAX - treasury_balance then True else treasury_balance + deposit > cap)"

definition SupplyPolicy_IsWhale :: "u64 \<Rightarrow> u64 \<Rightarrow> bool" where
  "SupplyPolicy_IsWhale raw_power total_supply =
     (if total_supply = 0 then False else raw_power * 10000 \<ge> total_supply * ucast TIER_MID_BPS)"

definition ComputeEligibleVoterQuorum :: "u64 \<Rightarrow> u64" where
  "ComputeEligibleVoterQuorum eligible_voters = ComputeThreshold eligible_voters TIER_LOW_BPS"

subsection \<open>The router\<close>

datatype FeeSource = L1_UTXO | L2_VALIDATOR | L3_BASE_FEE | L3_PRIORITY_FEE | BRIDGE_FEE | PROTOCOL_FEE

definition all_sources :: "FeeSource list" where
  "all_sources = [L1_UTXO, L2_VALIDATOR, L3_BASE_FEE, L3_PRIORITY_FEE, BRIDGE_FEE, PROTOCOL_FEE]"

record SplitConfig =
  producer_bps :: u32
  treasury_bps :: u32
  burn_bps :: u32
  treasury_track :: Track

definition SplitConfig_IsValid :: "SplitConfig \<Rightarrow> bool" where
  "SplitConfig_IsValid cfg \<longleftrightarrow> (ucast (producer_bps cfg) + ucast (treasury_bps cfg) + ucast (burn_bps cfg) :: u64) = 10000"

record RouteResult =
  rr_source :: FeeSource
  rr_total_fee :: u64
  producer_amount :: u64
  treasury_amount :: u64
  burn_amount :: u64
  treasury_deposited :: bool

record SourceStats =
  total_fees_routed :: u64
  total_to_producer :: u64
  total_to_treasury :: u64
  total_burned :: u64
  route_count :: u64

definition SourceStats_zero :: SourceStats where
  "SourceStats_zero = \<lparr>total_fees_routed = 0, total_to_producer = 0, total_to_treasury = 0, total_burned = 0, route_count = 0\<rparr>"

record FeeRouter =
  fr_treasury :: "Treasury option"
  fr_event_log :: "GovernanceEventLog option"
  fr_configs :: "FeeSource \<Rightarrow> SplitConfig"
  fr_stats :: "FeeSource \<Rightarrow> SourceStats"

definition default_config :: "FeeSource \<Rightarrow> SplitConfig" where
  "default_config s =
     (case s of
        L1_UTXO \<Rightarrow> \<lparr>producer_bps = 8000, treasury_bps = 1500, burn_bps = 500, treasury_track = CORE_DEVELOPMENT\<rparr>
      | L2_VALIDATOR \<Rightarrow> \<lparr>producer_bps = 7000, treasury_bps = 2000, burn_bps = 1000, treasury_track = OPERATIONS\<rparr>
      | L3_BASE_FEE \<Rightarrow> \<lparr>producer_bps = 0, treasury_bps = 5000, burn_bps = 5000, treasury_track = GRANTS\<rparr>
      | L3_PRIORITY_FEE \<Rightarrow> \<lparr>producer_bps = 10000, treasury_bps = 0, burn_bps = 0, treasury_track = UNCATEGORIZED\<rparr>
      | BRIDGE_FEE \<Rightarrow> \<lparr>producer_bps = 0, treasury_bps = 10000, burn_bps = 0, treasury_track = OPERATIONS\<rparr>
      | PROTOCOL_FEE \<Rightarrow> \<lparr>producer_bps = 0, treasury_bps = 10000, burn_bps = 0, treasury_track = UNCATEGORIZED\<rparr>)"

definition FeeRouter_init :: "Treasury option \<Rightarrow> GovernanceEventLog option \<Rightarrow> FeeRouter" where
  "FeeRouter_init treasury event_log =
     \<lparr>fr_treasury = treasury, fr_event_log = event_log, fr_configs = default_config, fr_stats = (\<lambda>_. SourceStats_zero)\<rparr>"

definition SourceName :: "FeeSource \<Rightarrow> string" where
  "SourceName s =
     (case s of L1_UTXO \<Rightarrow> ''L1_UTXO'' | L2_VALIDATOR \<Rightarrow> ''L2_VALIDATOR'' | L3_BASE_FEE \<Rightarrow> ''L3_BASE_FEE''
      | L3_PRIORITY_FEE \<Rightarrow> ''L3_PRIORITY_FEE'' | BRIDGE_FEE \<Rightarrow> ''BRIDGE_FEE'' | PROTOCOL_FEE \<Rightarrow> ''PROTOCOL_FEE'')"

definition fee_share :: "u64 \<Rightarrow> u32 \<Rightarrow> u64" where
  "fee_share total_fee bps =
     (if bps = 0 \<or> total_fee \<le> UINT64_MAX div ucast bps then total_fee * ucast bps div 10000
      else total_fee div 10000 * ucast bps)"

definition Route :: "FeeRouter \<Rightarrow> FeeSource \<Rightarrow> u64 \<Rightarrow> bytes \<Rightarrow> u64 \<Rightarrow> RouteResult \<times> FeeRouter" where
  "Route r source total_fee producer_address block_height =
     (let cfg = fr_configs r source;
          to_producer = fee_share total_fee (producer_bps cfg);
          to_treasury = fee_share total_fee (treasury_bps cfg);
          burn = total_fee - to_producer - to_treasury;
          (deposited, treasury) =
            (case fr_treasury r of
               None \<Rightarrow> (False, None)
             | Some t \<Rightarrow>
                 if to_treasury > 0 then
                   (let (ok, t) = Treasury_Deposit t to_treasury producer_address (treasury_track cfg) block_height in (ok, Some t))
                 else (False, Some t));
          st = fr_stats r source;
          st = \<lparr>total_fees_routed = total_fees_routed st + total_fee, total_to_producer = total_to_producer st + to_producer,
                total_to_treasury = total_to_treasury st + to_treasury, total_burned = total_burned st + burn,
                route_count = route_count st + 1\<rparr>;
          log = map_option (\<lambda>l. EventLog_Log l TREASURY_DEPOSIT block_height producer_address 0
                  (SourceName source @ '' fee routed: producer='' @ dec (unat to_producer) @ '' treasury='' @ dec (unat to_treasury)
                   @ '' burn='' @ dec (unat burn))) (fr_event_log r) in
      (\<lparr>rr_source = source, rr_total_fee = total_fee, producer_amount = to_producer, treasury_amount = to_treasury,
        burn_amount = burn, treasury_deposited = deposited\<rparr>,
       r\<lparr>fr_treasury := treasury, fr_event_log := log, fr_stats := (fr_stats r)(source := st)\<rparr>))"

definition SetSplitConfig :: "FeeRouter \<Rightarrow> FeeSource \<Rightarrow> SplitConfig \<Rightarrow> FeeRouter" where
  "SetSplitConfig r source cfg = r\<lparr>fr_configs := (fr_configs r)(source := cfg)\<rparr>"

definition GetTotalStats :: "FeeRouter \<Rightarrow> SourceStats" where
  "GetTotalStats r =
     (let sum = \<lambda>f. wsum (map (f \<circ> fr_stats r) all_sources) in
      \<lparr>total_fees_routed = sum total_fees_routed, total_to_producer = sum total_to_producer,
       total_to_treasury = sum total_to_treasury, total_burned = sum total_burned, route_count = sum route_count\<rparr>)"

definition GetTotalTreasuryRevenue :: "FeeRouter \<Rightarrow> u64" where
  "GetTotalTreasuryRevenue r = wsum (map (total_to_treasury \<circ> fr_stats r) all_sources)"

definition GetTotalBurned :: "FeeRouter \<Rightarrow> u64" where
  "GetTotalBurned r = wsum (map (total_burned \<circ> fr_stats r) all_sources)"

subsection \<open>Splits are exact\<close>

lemma unat_bps: "unat (ucast (b :: u32) :: u64) = unat b"
  by (simp add: unsigned_ucast_eq take_bit_nat_eq_self unsigned_less less_trans [OF unat32_lt])

lemma fee_share_bound:
  assumes "unat bps \<le> 10000"
  shows "unat (fee_share n bps) \<le> unat n * unat bps div 10000"
    and "unat n * unat bps < 2 ^ 64 \<Longrightarrow> unat (fee_share n bps) = unat n * unat bps div 10000"
proof -
  have slow: "unat (n div 10000 * ucast bps) = unat n div 10000 * unat bps"
  proof -
    have "unat n div 10000 * unat bps \<le> unat n div 10000 * 10000" using assms by (intro mult_le_mono2)
    also have "\<dots> \<le> unat n" by simp
    finally show ?thesis using unat64_lt [of n] by (subst unat_mult_lt) (simp_all add: unat_div unat_bps)
  qed
  have le: "unat n div 10000 * unat bps \<le> unat n * unat bps div 10000"
  proof -
    have "unat n div 10000 * 10000 * unat bps \<le> unat n * unat bps" by (intro mult_le_mono1) simp
    then show ?thesis by (subst less_eq_div_iff_mult_less_eq) (simp_all add: ac_simps)
  qed
  have fits: "unat n * unat bps < 2 ^ 64" if "bps \<noteq> 0" "n \<le> UINT64_MAX div ucast bps"
  proof -
    have "unat n \<le> unat UINT64_MAX div unat bps" using that(2) by (simp add: word_le_nat_alt unat_div unat_bps)
    then have "unat n * unat bps \<le> unat UINT64_MAX" using that(1) by (simp add: less_eq_div_iff_mult_less_eq unat_gt_0)
    then show ?thesis by simp
  qed
  have small: "n \<le> UINT64_MAX div ucast bps" if "bps \<noteq> 0" "unat n * unat bps < 2 ^ 64"
  proof -
    have "unat n * unat bps \<le> unat UINT64_MAX" using that(2) by simp
    then have "unat n \<le> unat UINT64_MAX div unat bps" using that(1) by (simp add: less_eq_div_iff_mult_less_eq unat_gt_0)
    then show ?thesis by (simp add: word_le_nat_alt unat_div unat_bps)
  qed
  have fast: "unat (n * ucast bps div 10000) = unat n * unat bps div 10000" if "unat n * unat bps < 2 ^ 64"
    using that by (simp add: unat_div unat_mult_lt unat_bps)
  show "unat (fee_share n bps) \<le> unat n * unat bps div 10000"
    using fast fits slow le by (cases "bps = 0") (auto simp: fee_share_def)
  show "unat (fee_share n bps) = unat n * unat bps div 10000" if "unat n * unat bps < 2 ^ 64"
    using fast [OF that] small that by (cases "bps = 0") (auto simp: fee_share_def)
qed

text \<open>
  With shares that add up to at most 100 percent, every fee is split without loss: producer, treasury and burned amount
  add up to the fee, no share exceeds its percentage, and the treasury track grows by exactly the treasury's share.
\<close>

theorem fee_split_is_exact:
  assumes "unat (producer_bps (fr_configs r source)) + unat (treasury_bps (fr_configs r source)) \<le> 10000"
    and "Route r source fee producer height = (res, r')"
  shows "unat (producer_amount res) + unat (treasury_amount res) + unat (burn_amount res) = unat fee
    \<and> unat (producer_amount res) \<le> unat fee * unat (producer_bps (fr_configs r source)) div 10000
    \<and> unat (treasury_amount res) \<le> unat fee * unat (treasury_bps (fr_configs r source)) div 10000
    \<and> (\<forall>t. fr_treasury r = Some t \<longrightarrow> (\<exists>t'. fr_treasury r' = Some t'
         \<and> balances t' = (balances t)(treasury_track (fr_configs r source) :=
             balances t (treasury_track (fr_configs r source)) + treasury_amount res)))"
proof -
  define p where "p = producer_bps (fr_configs r source)"
  define q where "q = treasury_bps (fr_configs r source)"
  have amounts: "producer_amount res = fee_share fee p" "treasury_amount res = fee_share fee q"
    "burn_amount res = fee - fee_share fee p - fee_share fee q"
    using assms(2) by (auto simp: Route_def Let_def p_def q_def split: prod.splits)
  have le: "unat (fee_share fee p) \<le> unat fee * unat p div 10000" "unat (fee_share fee q) \<le> unat fee * unat q div 10000"
    using assms(1) by (auto simp: p_def q_def intro: fee_share_bound(1))
  have "unat fee * unat p div 10000 + unat fee * unat q div 10000 \<le> (unat fee * unat p + unat fee * unat q) div 10000"
    using div_add1_eq [of "unat fee * unat p" "unat fee * unat q" 10000] by simp
  also have "\<dots> \<le> unat fee * 10000 div 10000"
    using assms(1) by (intro div_le_mono) (simp add: p_def q_def distrib_left [symmetric])
  finally have sum: "unat (fee_share fee p) + unat (fee_share fee q) \<le> unat fee" using le by simp
  then have "unat (fee - fee_share fee p) = unat fee - unat (fee_share fee p)" by (simp add: unat_sub word_le_nat_alt)
  then have "unat (fee - fee_share fee p - fee_share fee q) = unat fee - unat (fee_share fee p) - unat (fee_share fee q)"
    using sum by (subst unat_sub) (simp_all add: word_le_nat_alt)
  moreover have "\<exists>t'. fr_treasury r' = Some t' \<and> balances t' = (balances t)(treasury_track (fr_configs r source) :=
      balances t (treasury_track (fr_configs r source)) + treasury_amount res)" if "fr_treasury r = Some t" for t
  proof -
    have "fr_treasury r' = Some (if fee_share fee q = 0 then t
        else snd (Treasury_Deposit t (fee_share fee q) producer (treasury_track (fr_configs r source)) height))"
      using arg_cong [OF assms(2), of "\<lambda>x. fr_treasury (snd x)"] that
      by (auto simp: Route_def Let_def word_gt_0 q_def split: prod.splits)
    then show ?thesis by (auto simp: amounts Treasury_Deposit_def)
  qed
  ultimately show ?thesis using sum le amounts by (auto simp: p_def q_def)
qed

theorem fee_split_is_exact_witness:
  "let (res, r') = Route (FeeRouter_init (Some (Treasury_init 2 0)) None) L2_VALIDATOR 999 [1] 5 in
     unat (producer_amount res) + unat (treasury_amount res) + unat (burn_amount res) = 999"
proof -
  obtain res r' where r: "Route (FeeRouter_init (Some (Treasury_init 2 0)) None) L2_VALIDATOR 999 [1] 5 = (res, r')" by force
  have "unat (producer_bps (fr_configs (FeeRouter_init (Some (Treasury_init 2 0)) None) L2_VALIDATOR))
      + unat (treasury_bps (fr_configs (FeeRouter_init (Some (Treasury_init 2 0)) None) L2_VALIDATOR)) \<le> 10000"
    by (simp add: FeeRouter_init_def default_config_def)
  from fee_split_is_exact [OF this r] show ?thesis by (simp add: r)
qed

text \<open>The thresholds are exact for percentages up to 100; the ratio checks beside them wrap.\<close>

lemma ComputeThreshold_exact: "unat bps \<le> 10000 \<Longrightarrow> unat (ComputeThreshold n bps) = unat n * unat bps div 10000"
proof -
  assume b: "unat bps \<le> 10000"
  have q: "unat n div 10000 * unat bps \<le> unat n"
  proof -
    have "unat n div 10000 * unat bps \<le> unat n div 10000 * 10000" using b by (intro mult_le_mono2)
    also have "\<dots> \<le> unat n" by simp
    finally show ?thesis .
  qed
  have r: "unat n mod 10000 * unat bps \<le> 9999 * 10000" using b by (intro mult_le_mono) simp_all
  have sp: "unat n div 10000 * unat bps + unat n mod 10000 * unat bps div 10000 = unat n * unat bps div 10000"
    by (rule split_product) simp
  have "unat n * unat bps div 10000 \<le> unat n * 10000 div 10000" using b by (intro div_le_mono mult_le_mono2)
  then have "unat n * unat bps div 10000 < 2 ^ 64" using unat64_lt [of n] by simp
  moreover have "unat (n div 10000 * ucast bps) = unat n div 10000 * unat bps"
    using q unat64_lt [of n] by (subst unat_mult_lt) (simp_all add: unat_div unat_bps)
  moreover have "unat (n mod 10000 * ucast bps div 10000) = unat n mod 10000 * unat bps div 10000"
    using r by (simp add: unat_div unat_mod unat_bps unat_mult_lt)
  ultimately show ?thesis using sp by (simp add: ComputeThreshold_def Let_def unat_add_lt)
qed

lemma bonding_ratio_wraps:
  "\<not> IsBondingHealthy (2 ^ 60) (2 ^ 60) TIER_LOW_BPS \<and> IsBondingHealthy 1 (2 ^ 62) TIER_LOW_BPS"
  by (simp add: IsBondingHealthy_def TIER_LOW_BPS_def)

end
