(* ===== verification/Councils.thy ===== *)
theory Councils
  imports StdMap
begin

section \<open>Ostracism and the emergency council\<close>

text \<open>
  Models \<open>layer1-talanton/governance/ostracism.cpp\<close> and \<open>emergency.cpp\<close>: nomination, voting and ban of an address, and the actions
  guardians take by collecting signatures.
\<close>

subsection \<open>Ostracism\<close>

datatype OstracismState = NOMINATED | OSTRACIZED | REHABILITATED

record OstracismRecord =
  or_subject :: bytes
  nominator :: bytes
  or_reason :: string
  nominated_at_block :: u64
  ostracized_at_block :: u64
  ban_end_block :: u64
  votes_for :: u64
  votes_against :: u64
  or_state :: OstracismState

record Ostracism =
  ban_duration_blocks :: u64
  required_votes_for :: u64
  or_records :: "(bytes \<times> OstracismRecord) list"
  or_voters :: "bytes \<Rightarrow> bytes set"

definition Ostracism_init :: "u64 \<Rightarrow> u64 \<Rightarrow> Ostracism" where
  "Ostracism_init duration required =
     \<lparr>ban_duration_blocks = duration, required_votes_for = required, or_records = [], or_voters = (\<lambda>_. {})\<rparr>"

definition Nominate :: "Ostracism \<Rightarrow> bytes \<Rightarrow> bytes \<Rightarrow> string \<Rightarrow> u64 \<Rightarrow> bool \<times> Ostracism" where
  "Nominate os subject who reason block_height =
     (if subject = [] \<or> who = [] then (False, os)
      else if subject = who then (False, os)
      else if (case map_of (or_records os) subject of None \<Rightarrow> False | Some rec \<Rightarrow> or_state rec \<noteq> REHABILITATED) then (False, os)
      else (True, os\<lparr>or_records := map_put subject
              \<lparr>or_subject = subject, nominator = who, or_reason = reason, nominated_at_block = block_height,
               ostracized_at_block = 0, ban_end_block = 0, votes_for = 0, votes_against = 0, or_state = NOMINATED\<rparr> (or_records os),
              or_voters := (or_voters os)(subject := {})\<rparr>))"

definition Ostracism_Vote :: "Ostracism \<Rightarrow> bytes \<Rightarrow> bytes \<Rightarrow> bool \<Rightarrow> bool \<times> Ostracism" where
  "Ostracism_Vote os subject voter vote_to_ostracize =
     (case map_of (or_records os) subject of
        None \<Rightarrow> (False, os)
      | Some rec \<Rightarrow>
          if or_state rec \<noteq> NOMINATED then (False, os)
          else if voter \<in> or_voters os subject then (False, os)
          else (True, os\<lparr>or_records := map_put subject
                  (if vote_to_ostracize then rec\<lparr>votes_for := votes_for rec + 1\<rparr>
                   else rec\<lparr>votes_against := votes_against rec + 1\<rparr>) (or_records os),
                  or_voters := (or_voters os)(subject := insert voter (or_voters os subject))\<rparr>))"

definition Ostracism_HasVoted :: "Ostracism \<Rightarrow> bytes \<Rightarrow> bytes \<Rightarrow> bool" where
  "Ostracism_HasVoted os subject voter \<longleftrightarrow> voter \<in> or_voters os subject"

definition Finalize :: "Ostracism \<Rightarrow> bytes \<Rightarrow> u64 \<Rightarrow> bool \<times> Ostracism" where
  "Finalize os subject block_height =
     (case map_of (or_records os) subject of
        None \<Rightarrow> (False, os)
      | Some rec \<Rightarrow>
          if or_state rec \<noteq> NOMINATED then (False, os)
          else if votes_for rec < required_votes_for os then (False, os)
          else (True, os\<lparr>or_records := map_put subject
                  (rec\<lparr>or_state := OSTRACIZED, ostracized_at_block := block_height,
                       ban_end_block := block_height + ban_duration_blocks os\<rparr>) (or_records os)\<rparr>))"

definition IsOstracized :: "Ostracism \<Rightarrow> bytes \<Rightarrow> u64 \<Rightarrow> bool" where
  "IsOstracized os address block_height =
     (case map_of (or_records os) address of
        None \<Rightarrow> False
      | Some rec \<Rightarrow> if or_state rec \<noteq> OSTRACIZED then False else block_height < ban_end_block rec)"

definition IsNominated :: "Ostracism \<Rightarrow> bytes \<Rightarrow> bool" where
  "IsNominated os address =
     (case map_of (or_records os) address of None \<Rightarrow> False | Some rec \<Rightarrow> or_state rec = NOMINATED)"

definition GetActiveBans :: "Ostracism \<Rightarrow> u64 \<Rightarrow> OstracismRecord list" where
  "GetActiveBans os block_height =
     filter (\<lambda>rec. or_state rec = OSTRACIZED \<and> (ban_end_block rec = 0 \<or> block_height < ban_end_block rec))
       (map snd (or_records os))"

definition Rehabilitate :: "Ostracism \<Rightarrow> bytes \<Rightarrow> u64 \<Rightarrow> bool \<times> Ostracism" where
  "Rehabilitate os address block_height =
     (case map_of (or_records os) address of
        None \<Rightarrow> (False, os)
      | Some rec \<Rightarrow>
          if or_state rec \<noteq> OSTRACIZED then (False, os)
          else if block_height < ban_end_block rec then (False, os)
          else (True, os\<lparr>or_records := map_put address (rec\<lparr>or_state := REHABILITATED\<rparr>) (or_records os)\<rparr>))"

inductive ostracism_reach :: "Ostracism \<Rightarrow> bool" where
  os_start: "ostracism_reach (Ostracism_init duration required)"
| os_nominate: "ostracism_reach os \<Longrightarrow> ostracism_reach (snd (Nominate os a n why h))"
| os_vote: "ostracism_reach os \<Longrightarrow> ostracism_reach (snd (Ostracism_Vote os a v yes))"
| os_finalize: "ostracism_reach os \<Longrightarrow> ostracism_reach (snd (Finalize os a h))"
| os_rehabilitate: "ostracism_reach os \<Longrightarrow> ostracism_reach (snd (Rehabilitate os a h))"
| os_config: "ostracism_reach os \<Longrightarrow> ostracism_reach (os\<lparr>ban_duration_blocks := d, required_votes_for := n\<rparr>)"

definition ostracism_ok :: "Ostracism \<Rightarrow> bool" where
  "ostracism_ok os \<longleftrightarrow> (\<forall>a rec. map_of (or_records os) a = Some rec \<longrightarrow> finite (or_voters os a)
     \<and> votes_for rec + votes_against rec = of_nat (card (or_voters os a)))"

lemma ostracism_okD:
  "ostracism_ok os \<Longrightarrow> map_of (or_records os) a = Some rec \<Longrightarrow>
     finite (or_voters os a) \<and> votes_for rec + votes_against rec = of_nat (card (or_voters os a))"
  by (simp add: ostracism_ok_def)

lemma ostracism_reach_ok: "ostracism_reach os \<Longrightarrow> ostracism_ok os"
proof (induction rule: ostracism_reach.induct)
  case (os_start duration required)
  show ?case by (simp add: ostracism_ok_def Ostracism_init_def)
next
  case (os_nominate os a n why h)
  then show ?case by (simp add: ostracism_ok_def Nominate_def)
next
  case (os_vote os a v yes)
  show ?case
  proof (cases "map_of (or_records os) a")
    case (Some rec)
    from ostracism_okD [OF os_vote.IH Some] show ?thesis
      using os_vote.IH Some by (auto simp: ostracism_ok_def Ostracism_Vote_def algebra_simps)
  qed (use os_vote.IH in \<open>simp add: Ostracism_Vote_def\<close>)
next
  case (os_finalize os a h)
  then show ?case by (cases "map_of (or_records os) a") (auto simp: ostracism_ok_def Finalize_def)
next
  case (os_rehabilitate os a h)
  then show ?case by (cases "map_of (or_records os) a") (auto simp: ostracism_ok_def Rehabilitate_def)
qed (simp add: ostracism_ok_def)

text \<open>A ban needs as many different voters as votes; the votes against it are counted but never looked at.\<close>

lemma finalize_ignores_opposition:
  "map_of (or_records os) a = Some rec \<Longrightarrow> or_state rec = NOMINATED \<Longrightarrow>
     fst (Finalize os a h) \<longleftrightarrow> required_votes_for os \<le> votes_for rec"
  by (auto simp: Finalize_def)

text \<open>
  Every voter counts once: the votes for and against the nomination of an address are together the number of different
  addresses that voted on it, and a successful finalisation had at least the required votes in favour.
\<close>

theorem ostracism_counts_voters_once:
  assumes "ostracism_reach os" and "map_of (or_records os) a = Some rec"
  shows "votes_for rec + votes_against rec = of_nat (card (or_voters os a))
    \<and> (fst (Ostracism_Vote os a v yes) \<longrightarrow> v \<notin> or_voters os a \<and> \<not> fst (Ostracism_Vote (snd (Ostracism_Vote os a v yes)) a v yes'))
    \<and> (fst (Finalize os a h) \<longrightarrow> required_votes_for os \<le> votes_for rec)"
  using ostracism_okD [OF ostracism_reach_ok [OF assms(1)] assms(2)] assms(2)
  by (auto simp: Ostracism_Vote_def Finalize_def split: if_splits)

definition sample_ostracism :: Ostracism where
  "sample_ostracism = snd (Ostracism_Vote (snd (Nominate (Ostracism_init 100 1) [1] [2] ''spam'' 5)) [1] [3] True)"

theorem ostracism_counts_voters_once_witness:
  "\<exists>rec. map_of (or_records sample_ostracism) [1] = Some rec
     \<and> votes_for rec + votes_against rec = of_nat (card (or_voters sample_ostracism [1]))"
proof -
  have reach: "ostracism_reach sample_ostracism"
    unfolding sample_ostracism_def by (intro os_vote os_nominate os_start)
  obtain rec where "map_of (or_records sample_ostracism) [1] = Some rec"
    by (simp add: sample_ostracism_def Ostracism_Vote_def Nominate_def Ostracism_init_def)
  with ostracism_counts_voters_once [OF reach this] show ?thesis by blast
qed

subsection \<open>The emergency council\<close>

datatype ActionType = PAUSE_GOVERNANCE | CANCEL_PROPOSAL | FAST_TRACK_UPGRADE | CUSTOM

record EmergencyAction =
  action_id :: u64
  ac_type :: ActionType
  ac_description :: string
  ac_initiator :: bytes
  target_proposal_id :: u64
  proposed_at_block :: u64
  expires_at_block :: u64
  ac_executed :: bool
  ac_executed_at_block :: u64
  ac_signers :: "bytes set"

record Guardian =
  gd_address :: bytes
  gd_role :: string
  added_at_block :: u64

record EmergencyCouncil =
  required_sigs :: u32
  action_ttl :: u64
  governance_paused :: bool
  ec_guardians :: "Guardian list"
  ec_actions :: "u64 \<rightharpoonup> EmergencyAction"
  next_action_id :: u64

definition EmergencyCouncil_init :: "u32 \<Rightarrow> u64 \<Rightarrow> EmergencyCouncil" where
  "EmergencyCouncil_init required ttl =
     \<lparr>required_sigs = required, action_ttl = ttl, governance_paused = False, ec_guardians = [], ec_actions = Map.empty,
      next_action_id = 1\<rparr>"

definition Emergency_IsGuardian :: "EmergencyCouncil \<Rightarrow> bytes \<Rightarrow> bool" where
  "Emergency_IsGuardian e address = list_ex (\<lambda>g. gd_address g = address) (ec_guardians e)"

definition Emergency_AddGuardian :: "EmergencyCouncil \<Rightarrow> bytes \<Rightarrow> string \<Rightarrow> u64 \<Rightarrow> bool \<times> EmergencyCouncil" where
  "Emergency_AddGuardian e address role block_height =
     (if address = [] then (False, e)
      else if Emergency_IsGuardian e address then (False, e)
      else (True, e\<lparr>ec_guardians := ec_guardians e @ [\<lparr>gd_address = address, gd_role = role, added_at_block = block_height\<rparr>]\<rparr>))"

fun erase_guardian :: "bytes \<Rightarrow> Guardian list \<Rightarrow> Guardian list" where
  "erase_guardian address [] = []"
| "erase_guardian address (g # gs) = (if gd_address g = address then gs else g # erase_guardian address gs)"

definition Emergency_RemoveGuardian :: "EmergencyCouncil \<Rightarrow> bytes \<Rightarrow> bool \<times> EmergencyCouncil" where
  "Emergency_RemoveGuardian e address =
     (if \<not> Emergency_IsGuardian e address then (False, e)
      else (True, e\<lparr>ec_guardians := erase_guardian address (ec_guardians e)\<rparr>))"

definition ProposeAction :: "EmergencyCouncil \<Rightarrow> ActionType \<Rightarrow> string \<Rightarrow> bytes \<Rightarrow> u64 \<Rightarrow> u64 \<Rightarrow> u64 \<times> EmergencyCouncil" where
  "ProposeAction e ty description initiator target block_height =
     (if \<not> Emergency_IsGuardian e initiator then (0, e)
      else
        let i = next_action_id e in
        (i, e\<lparr>ec_actions := (ec_actions e)(i \<mapsto>
                \<lparr>action_id = i, ac_type = ty, ac_description = description, ac_initiator = initiator,
                 target_proposal_id = target, proposed_at_block = block_height, expires_at_block = block_height + action_ttl e,
                 ac_executed = False, ac_executed_at_block = 0, ac_signers = {initiator}\<rparr>),
              next_action_id := i + 1\<rparr>))"

definition IsExpired :: "EmergencyCouncil \<Rightarrow> u64 \<Rightarrow> u64 \<Rightarrow> bool" where
  "IsExpired e i block_height =
     (case ec_actions e i of None \<Rightarrow> True | Some action \<Rightarrow> block_height > expires_at_block action)"

definition Emergency_HasSufficientSignatures :: "EmergencyCouncil \<Rightarrow> u64 \<Rightarrow> bool" where
  "Emergency_HasSufficientSignatures e i =
     (case ec_actions e i of None \<Rightarrow> False | Some action \<Rightarrow> of_nat (card (ac_signers action)) \<ge> required_sigs e)"

definition SignAction :: "EmergencyCouncil \<Rightarrow> u64 \<Rightarrow> bytes \<Rightarrow> u64 \<Rightarrow> bool \<times> EmergencyCouncil" where
  "SignAction e i guardian block_height =
     (if \<not> Emergency_IsGuardian e guardian then (False, e)
      else case ec_actions e i of
        None \<Rightarrow> (False, e)
      | Some action \<Rightarrow>
          if ac_executed action then (False, e)
          else if IsExpired e i block_height then (False, e)
          else (True, e\<lparr>ec_actions := (ec_actions e)(i \<mapsto> action\<lparr>ac_signers := insert guardian (ac_signers action)\<rparr>)\<rparr>))"

definition ExecuteAction :: "EmergencyCouncil \<Rightarrow> u64 \<Rightarrow> u64 \<Rightarrow> bool \<times> EmergencyCouncil" where
  "ExecuteAction e i block_height =
     (case ec_actions e i of
        None \<Rightarrow> (False, e)
      | Some action \<Rightarrow>
          if ac_executed action then (False, e)
          else if IsExpired e i block_height then (False, e)
          else if \<not> Emergency_HasSufficientSignatures e i then (False, e)
          else (True, e\<lparr>ec_actions := (ec_actions e)(i \<mapsto> action\<lparr>ac_executed := True, ac_executed_at_block := block_height\<rparr>),
                        governance_paused := (if ac_type action = PAUSE_GOVERNANCE then True else governance_paused e)\<rparr>))"

definition GetAction :: "EmergencyCouncil \<Rightarrow> u64 \<Rightarrow> EmergencyAction option" where
  "GetAction e i = ec_actions e i"

inductive emergency_step :: "EmergencyCouncil \<Rightarrow> EmergencyCouncil \<Rightarrow> bool" where
  em_add: "emergency_step e (snd (Emergency_AddGuardian e a role h))"
| em_remove: "emergency_step e (snd (Emergency_RemoveGuardian e a))"
| em_propose: "emergency_step e (snd (ProposeAction e ty d a target h))"
| em_sign: "emergency_step e (snd (SignAction e i g h))"
| em_execute: "emergency_step e (snd (ExecuteAction e i h))"
| em_config: "emergency_step e (e\<lparr>required_sigs := n, action_ttl := ttl\<rparr>)"

lemma pause_step: "emergency_step e e' \<Longrightarrow> governance_paused e \<Longrightarrow> governance_paused e'"
  by (cases rule: emergency_step.cases)
    (auto simp: Emergency_AddGuardian_def Emergency_RemoveGuardian_def ProposeAction_def Let_def SignAction_def
      ExecuteAction_def split: option.splits)

lemma pause_needs_signatures:
  assumes "emergency_step e e'" and "governance_paused e'" and "\<not> governance_paused e"
  shows "\<exists>i action. ec_actions e i = Some action \<and> ac_type action = PAUSE_GOVERNANCE \<and> \<not> ac_executed action
    \<and> required_sigs e \<le> of_nat (card (ac_signers action))"
  using assms
  by (cases rule: emergency_step.cases)
    (auto simp: Emergency_AddGuardian_def Emergency_RemoveGuardian_def ProposeAction_def Let_def SignAction_def
      ExecuteAction_def Emergency_HasSufficientSignatures_def split: option.splits if_splits)

text \<open>
  Governance is only paused by an action with the required number of different signers, and no operation ever lifts the
  pause again.
\<close>

theorem pause_is_final:
  assumes "emergency_step\<^sup>*\<^sup>* e e'"
  shows "(governance_paused e \<longrightarrow> governance_paused e')
    \<and> (governance_paused e' \<and> \<not> governance_paused e \<longrightarrow> (\<exists>c i action. emergency_step\<^sup>*\<^sup>* e c \<and> ec_actions c i = Some action
        \<and> ac_type action = PAUSE_GOVERNANCE \<and> required_sigs c \<le> of_nat (card (ac_signers action))))"
  using assms
proof (induction rule: rtranclp_induct)
  case (step c d)
  show ?case
  proof (cases "governance_paused c")
    case False
    have "\<exists>i action. ec_actions c i = Some action \<and> ac_type action = PAUSE_GOVERNANCE \<and> \<not> ac_executed action
        \<and> required_sigs c \<le> of_nat (card (ac_signers action))" if "governance_paused d"
      by (rule pause_needs_signatures [OF step.hyps(2) that False])
    then show ?thesis using step.IH step.hyps(1) False by blast
  qed (use step pause_step in blast)
qed simp

definition paused_council :: EmergencyCouncil where
  "paused_council = snd (ExecuteAction (snd (ProposeAction (snd (Emergency_AddGuardian (EmergencyCouncil_init 1 100) [1] ''security'' 0))
     PAUSE_GOVERNANCE ''stop'' [1] 0 5)) 1 6)"

theorem pause_is_final_witness:
  "governance_paused paused_council
   \<and> governance_paused (snd (Emergency_RemoveGuardian (snd (ExecuteAction paused_council 1 7)) [1]))"
proof -
  have p: "governance_paused paused_council" unfolding paused_council_def by code_simp
  have "emergency_step\<^sup>*\<^sup>* paused_council (snd (Emergency_RemoveGuardian (snd (ExecuteAction paused_council 1 7)) [1]))"
    by (rule rtranclp.rtrancl_into_rtrancl [OF r_into_rtranclp [of emergency_step, OF em_execute] em_remove])
  from pause_is_final [OF this] p show ?thesis by blast
qed

end
