(* ===== verification/Registries.thy ===== *)
theory Registries
  imports StdMap
begin

section \<open>Voting power registries\<close>

text \<open>
  Models \<open>layer1-talanton/governance/antiwhale.cpp\<close>, \<open>balance_voting.cpp\<close>, \<open>snapshot.cpp\<close> and \<open>staking.cpp\<close>: where
  the governance votes get their weight. Addresses are byte strings; a map is an association list in key order.
  The integer square root divides by zero for one input, which is the error \<open>ArithmeticTrap\<close>.
\<close>

subsection \<open>The anti-whale guard\<close>

record AntiWhaleConfig =
  quadratic_voting_enabled :: bool
  max_voting_power_cap :: u64
  whale_threshold_bps :: u64

definition kDefaultConfig :: AntiWhaleConfig where
  "kDefaultConfig = \<lparr>quadratic_voting_enabled = False, max_voting_power_cap = 0, whale_threshold_bps = 1000\<rparr>"

function isqrt_loop :: "u64 \<Rightarrow> u64 \<Rightarrow> u64 \<Rightarrow> cpp_error + u64" where
  "isqrt_loop n x y =
     (if y < x then if y = 0 then Inl ArithmeticTrap else isqrt_loop n y ((y + n div y) div 2) else Inr x)"
  by pat_completeness auto
termination by (relation "measure (\<lambda>(n, x, y). unat x)") (auto simp: word_less_nat_alt)

declare isqrt_loop.simps [simp del]

definition Isqrt :: "u64 \<Rightarrow> cpp_error + u64" where
  "Isqrt n = (if n = 0 then Inr 0 else isqrt_loop n n ((n + 1) div 2))"

definition ComputeEffectivePower :: "AntiWhaleConfig \<Rightarrow> u64 \<Rightarrow> cpp_error + u64" where
  "ComputeEffectivePower cfg raw_power =
     (case (if quadratic_voting_enabled cfg then Isqrt raw_power else Inr raw_power) of
        Inl e \<Rightarrow> Inl e
      | Inr pw \<Rightarrow>
          Inr (if max_voting_power_cap cfg > 0 \<and> pw > max_voting_power_cap cfg then max_voting_power_cap cfg else pw))"

text \<open>A product that saturates instead of wrapping, as the ratio checks of the governance compute it.\<close>

definition saturating_mul :: "u64 \<Rightarrow> u64 \<Rightarrow> u64" where
  "saturating_mul a factor = (if factor = 0 \<or> a \<le> UINT64_MAX div factor then a * factor else UINT64_MAX)"

lemma saturating_exact: "unat a * unat f < 2 ^ 64 \<Longrightarrow> unat (saturating_mul a f) = unat a * unat f"
proof -
  assume fits: "unat a * unat f < 2 ^ 64"
  have "a \<le> UINT64_MAX div f" if "f \<noteq> 0"
  proof -
    have "unat a * unat f \<le> unat UINT64_MAX" using fits by simp
    then show ?thesis using that by (simp add: word_le_nat_alt unat_div less_eq_div_iff_mult_less_eq unat_gt_0)
  qed
  then show ?thesis using fits unat_mult_lt [OF fits] by (cases "f = 0") (simp_all add: saturating_mul_def)
qed

definition IsWhale :: "AntiWhaleConfig \<Rightarrow> u64 \<Rightarrow> u64 \<Rightarrow> bool" where
  "IsWhale cfg raw_power total_supply =
     (if total_supply = 0 \<or> whale_threshold_bps cfg = 0 then False
      else saturating_mul raw_power 10000 > saturating_mul total_supply (whale_threshold_bps cfg))"

subsection \<open>One vote per address\<close>

type_synonym BalanceVotingRegistry = "(bytes \<times> u64) list"

definition SetBalances :: "(bytes \<times> u64) list \<Rightarrow> BalanceVotingRegistry" where
  "SetBalances balances =
     foldl (\<lambda>b (addr, amount). if addr \<noteq> [] \<and> amount > 0 then map_put addr amount b else b) [] balances"

definition UpdateBalance :: "BalanceVotingRegistry \<Rightarrow> bytes \<Rightarrow> u64 \<Rightarrow> BalanceVotingRegistry" where
  "UpdateBalance balances address amount =
     (if address = [] then balances
      else if amount = 0 then map_erase address balances
      else map_put address amount balances)"

definition Balance_GetVotingPower :: "BalanceVotingRegistry \<Rightarrow> bytes \<Rightarrow> u64" where
  "Balance_GetVotingPower balances address = (if map_of balances address \<noteq> None then 1 else 0)"

definition Balance_GetTotalVotingPower :: "BalanceVotingRegistry \<Rightarrow> u64" where
  "Balance_GetTotalVotingPower balances = of_nat (length balances)"

definition Balance_GetAllVotingPowers :: "BalanceVotingRegistry \<Rightarrow> (bytes \<times> u64) list" where
  "Balance_GetAllVotingPowers balances = map (\<lambda>(addr, amount). (addr, 1)) balances"

subsection \<open>Snapshots of the voting power\<close>

record Snapshot =
  snap_proposal_id :: u64
  snap_block_height :: u64
  total_power :: u64
  snap_entries :: "(bytes \<times> u64) list"

type_synonym SnapshotRegistry = "u64 \<rightharpoonup> Snapshot"

definition Registry_CreateSnapshot :: "SnapshotRegistry \<Rightarrow> u64 \<Rightarrow> u64 \<Rightarrow> (bytes \<times> u64) list \<Rightarrow> bool \<times> SnapshotRegistry" where
  "Registry_CreateSnapshot snapshots proposal_id block_height powers =
     (if snapshots proposal_id \<noteq> None then (False, snapshots)
      else
        let entries = filter (\<lambda>(addr, pw). pw \<noteq> 0) powers in
        (True, snapshots(proposal_id \<mapsto>
           \<lparr>snap_proposal_id = proposal_id, snap_block_height = block_height,
            total_power = wsum (map snd entries), snap_entries = entries\<rparr>)))"

definition GetSnapshotPower :: "SnapshotRegistry \<Rightarrow> u64 \<Rightarrow> bytes \<Rightarrow> u64" where
  "GetSnapshotPower snapshots proposal_id address =
     (case snapshots proposal_id of None \<Rightarrow> 0
      | Some snap \<Rightarrow> (case map_of (snap_entries snap) address of None \<Rightarrow> 0 | Some pw \<Rightarrow> pw))"

definition HasSnapshot :: "SnapshotRegistry \<Rightarrow> u64 \<Rightarrow> bool" where
  "HasSnapshot snapshots proposal_id \<longleftrightarrow> snapshots proposal_id \<noteq> None"

definition GetSnapshotBlock :: "SnapshotRegistry \<Rightarrow> u64 \<Rightarrow> u64" where
  "GetSnapshotBlock snapshots proposal_id = (case snapshots proposal_id of None \<Rightarrow> 0 | Some s \<Rightarrow> snap_block_height s)"

definition GetSnapshotTotalPower :: "SnapshotRegistry \<Rightarrow> u64 \<Rightarrow> u64" where
  "GetSnapshotTotalPower snapshots proposal_id = (case snapshots proposal_id of None \<Rightarrow> 0 | Some s \<Rightarrow> total_power s)"

definition GetSnapshot :: "SnapshotRegistry \<Rightarrow> u64 \<Rightarrow> Snapshot option" where
  "GetSnapshot snapshots proposal_id = snapshots proposal_id"

subsection \<open>Staking\<close>

record StakeRecord =
  staked_amount :: u64
  locked_until_block :: u64
  staked_at_block :: u64
  pending_unstake :: u64

record SlashRecord =
  slash_address :: bytes
  slash_amount :: u64
  slash_reason :: string
  slash_block_height :: u64

record StakingRegistry =
  unstake_cooldown :: u64
  stakes :: "(bytes \<times> StakeRecord) list"
  slash_history :: "SlashRecord list"

definition StakingRegistry_init :: "u64 \<Rightarrow> StakingRegistry" where
  "StakingRegistry_init cooldown = \<lparr>unstake_cooldown = cooldown, stakes = [], slash_history = []\<rparr>"

definition Stake :: "StakingRegistry \<Rightarrow> bytes \<Rightarrow> u64 \<Rightarrow> u64 \<Rightarrow> u64 \<Rightarrow> bool \<times> StakingRegistry" where
  "Stake r address amount lock_period block_height = (False, r)"

definition RequestUnstake :: "StakingRegistry \<Rightarrow> bytes \<Rightarrow> u64 \<Rightarrow> u64 \<Rightarrow> bool \<times> StakingRegistry" where
  "RequestUnstake r address amount block_height = (False, r)"

definition ClaimUnstake :: "StakingRegistry \<Rightarrow> bytes \<Rightarrow> u64 \<Rightarrow> bool \<times> StakingRegistry" where
  "ClaimUnstake r address block_height = (False, r)"

definition Slash :: "StakingRegistry \<Rightarrow> bytes \<Rightarrow> u64 \<Rightarrow> string \<Rightarrow> u64 \<Rightarrow> bool \<times> StakingRegistry" where
  "Slash r address amount reason block_height =
     (if amount = 0 then (False, r)
      else case map_of (stakes r) address of
        None \<Rightarrow> (False, r)
      | Some rec \<Rightarrow>
          if amount > staked_amount rec then (False, r)
          else
            let left = staked_amount rec - amount;
                rec = rec\<lparr>staked_amount := left,
                          pending_unstake := (if pending_unstake rec > left then left else pending_unstake rec)\<rparr> in
            (True, r\<lparr>stakes := map_put address rec (stakes r),
                     slash_history := slash_history r @
                       [\<lparr>slash_address = address, slash_amount = amount, slash_reason = reason,
                         slash_block_height = block_height\<rparr>]\<rparr>))"

definition GetStake :: "StakingRegistry \<Rightarrow> bytes \<Rightarrow> u64" where
  "GetStake r address = (case map_of (stakes r) address of None \<Rightarrow> 0 | Some rec \<Rightarrow> staked_amount rec)"

definition Staking_GetVotingPower :: "StakingRegistry \<Rightarrow> bytes \<Rightarrow> u64" where
  "Staking_GetVotingPower r address =
     (case map_of (stakes r) address of None \<Rightarrow> 0 | Some rec \<Rightarrow> staked_amount rec - pending_unstake rec)"

definition IsStakeLocked :: "StakingRegistry \<Rightarrow> bytes \<Rightarrow> u64 \<Rightarrow> bool" where
  "IsStakeLocked r address block_height =
     (case map_of (stakes r) address of None \<Rightarrow> False | Some rec \<Rightarrow> block_height < locked_until_block rec)"

definition GetTotalStaked :: "StakingRegistry \<Rightarrow> u64" where
  "GetTotalStaked r = wsum (map (staked_amount \<circ> snd) (stakes r))"

definition Staking_GetTotalVotingPower :: "StakingRegistry \<Rightarrow> u64" where
  "Staking_GetTotalVotingPower r = wsum (map (\<lambda>(addr, rec). staked_amount rec - pending_unstake rec) (stakes r))"

definition Staking_GetAllVotingPowers :: "StakingRegistry \<Rightarrow> (bytes \<times> u64) list" where
  "Staking_GetAllVotingPowers r =
     filter (\<lambda>(addr, pw). pw > 0) (map (\<lambda>(addr, rec). (addr, Staking_GetVotingPower r addr)) (stakes r))"

subsection \<open>The integer square root\<close>

lemma newton_above: "0 < x \<Longrightarrow> n < ((x + n div x) div 2 + 1) ^ 2" for n x :: nat
proof -
  assume x: "0 < x"
  define q where "q = n div x"
  have "n < x * (q + 1)" using x by (simp add: q_def dividend_less_times_div)
  then have "4 * n < 4 * (x * (q + 1))" by simp
  also have "4 * (x * (q + 1)) \<le> (x + (q + 1)) ^ 2"
  proof -
    have "int (4 * (x * (q + 1))) + (int x - int (q + 1)) ^ 2 = int ((x + (q + 1)) ^ 2)"
      by (simp add: power2_eq_square algebra_simps)
    moreover have "0 \<le> (int x - int (q + 1)) ^ 2" by simp
    ultimately have "int (4 * (x * (q + 1))) \<le> int ((x + (q + 1)) ^ 2)" by linarith
    then show ?thesis by (simp only: of_nat_le_iff)
  qed
  also have "(x + (q + 1)) ^ 2 \<le> (2 * ((x + q) div 2 + 1)) ^ 2" by (intro power_mono) auto
  also have "\<dots> = 4 * ((x + q) div 2 + 1) ^ 2" by (simp add: power2_eq_square algebra_simps)
  finally show ?thesis by (simp add: q_def)
qed

lemma newton_no_wrap: "0 < x \<Longrightarrow> x \<le> n \<Longrightarrow> x + n div x \<le> n + 1" for n x :: nat
proof -
  assume x: "0 < x" "x \<le> n"
  define q where "q = n div x"
  have q: "0 < q" using x by (simp add: q_def div_greater_zero_iff)
  obtain a where a: "x = Suc a" using x by (cases x) auto
  obtain b where b: "q = Suc b" using q by (cases q) auto
  have "x + q \<le> x * q + 1" by (simp add: a b)
  also have "x * q \<le> n" by (simp add: q_def)
  finally show ?thesis by (simp add: q_def)
qed

lemma isqrt_loop_correct:
  assumes "0 < x" "x \<le> n" "unat n < 2 ^ 64 - 1" "unat n < (unat x + 1) ^ 2" "unat y = (unat x + unat n div unat x) div 2"
  shows "\<exists>r. isqrt_loop n x y = Inr r \<and> unat r ^ 2 \<le> unat n \<and> unat n < (unat r + 1) ^ 2"
  using assms
proof (induction n x y rule: isqrt_loop.induct)
  case (1 n x y)
  have x: "0 < unat x" "unat x \<le> unat n" using 1(2,3) by (auto simp: word_le_nat_alt unat_gt_0)
  show ?case
  proof (cases "y < x")
    case True
    have q: "0 < unat n div unat x" using x by (simp add: div_greater_zero_iff)
    have y: "0 < unat y"
    proof -
      have "2 \<le> unat x + unat n div unat x" using x q by linarith
      then show ?thesis using 1(6) by (simp add: div_greater_zero_iff)
    qed
    have yn: "unat y \<le> unat n" using True x by (simp add: word_less_nat_alt)
    have "unat y + unat n div unat y < 2 ^ 64" using newton_no_wrap [OF y yn] 1(4) by simp
    then have "unat (y + n div y) = unat y + unat n div unat y" by (subst unat_add_lt) (simp_all add: unat_div)
    then have half: "unat ((y + n div y) div 2) = (unat y + unat n div unat y) div 2" by (simp add: unat_div)
    have above: "unat n < (unat y + 1) ^ 2" using newton_above [OF x(1), of "unat n"] 1(6) by simp
    have "y \<noteq> 0" using y by auto
    moreover from this have "0 < y" by (simp add: word_greater_zero_iff)
    ultimately show ?thesis using True 1(1) [OF True] yn 1(4) above half
      by (subst isqrt_loop.simps) (simp add: word_le_nat_alt)
  next
    case False
    then have "unat x \<le> (unat x + unat n div unat x) div 2" using 1(6) by (simp add: word_less_nat_alt)
    then have "unat x \<le> unat n div unat x" by simp
    then have "unat x * unat x \<le> unat n" using x(1) by (simp add: less_eq_div_iff_mult_less_eq)
    then show ?thesis using False 1(5) by (subst isqrt_loop.simps) (simp add: power2_eq_square)
  qed
qed

lemma Isqrt_max: "Isqrt UINT64_MAX = Inl ArithmeticTrap"
  by (simp add: Isqrt_def isqrt_loop.simps)

lemma Isqrt_correct:
  assumes "n \<noteq> UINT64_MAX"
  shows "\<exists>r. Isqrt n = Inr r \<and> unat r ^ 2 \<le> unat n \<and> unat n < (unat r + 1) ^ 2"
proof (cases "n = 0")
  case False
  have "unat n \<noteq> unat UINT64_MAX" using assms by (metis unsigned_word_eqI)
  then have n: "unat n < 2 ^ 64 - 1" using unat64_le [of n] by simp
  then have "unat (n + 1) = unat n + 1" by (subst unat_add_lt) simp_all
  moreover have "unat n div unat n = 1" using False by (simp add: unat_gt_0)
  ultimately have "unat ((n + 1) div 2) = (unat n + unat n div unat n) div 2" by (simp add: unat_div)
  moreover have "unat n < (unat n + 1) ^ 2" by (simp add: power2_eq_square)
  moreover have "0 < n" using False by (simp add: word_greater_zero_iff)
  ultimately show ?thesis
    using isqrt_loop_correct [of n n "(n + 1) div 2"] n False by (simp add: Isqrt_def)
qed (simp add: Isqrt_def)

text \<open>
  The integer square root of quadratic voting is the floor of the root, except that it divides by zero for the largest
  64-bit value, whose successor wraps to 0.
\<close>

theorem isqrt_is_floor:
  "case Isqrt n of
     Inl e \<Rightarrow> e = ArithmeticTrap \<and> n = UINT64_MAX
   | Inr r \<Rightarrow> n \<noteq> UINT64_MAX \<and> unat r ^ 2 \<le> unat n \<and> unat n < (unat r + 1) ^ 2"
  using Isqrt_correct [of n] Isqrt_max by (cases "n = UINT64_MAX") auto

subsection \<open>Votes and snapshots of the holders\<close>

inductive balances_reach :: "BalanceVotingRegistry \<Rightarrow> bool" where
  balances_set: "balances_reach (SetBalances m)"
| balances_update: "balances_reach b \<Longrightarrow> balances_reach (UpdateBalance b a v)"

lemma SetBalances_fold:
  "sorted_keys b \<Longrightarrow> sorted_keys (foldl (\<lambda>b (addr, amount). if addr \<noteq> [] \<and> amount > 0 then map_put addr amount b else b) b m)"
  by (induction m arbitrary: b) auto

lemma balances_sorted: "balances_reach b \<Longrightarrow> sorted_keys b"
  by (induction rule: balances_reach.induct) (auto simp: SetBalances_def UpdateBalance_def intro: SetBalances_fold)

lemma one_vote_entries: "map_of (map (\<lambda>(addr, amount). (addr, 1 :: u64)) b) a = (if map_of b a = None then None else Some 1)"
  by (induction b) auto

lemma wsum_ones: "wsum (map snd (map (\<lambda>(addr, amount). (addr, 1 :: u64)) b)) = of_nat (length b)"
  by (induction b) (auto simp: algebra_simps)

text \<open>
  One address, one vote: whatever the balances, a snapshot taken of the holder registry gives every address with
  a positive balance the power 1 and every other address 0, its total is the number of holders, and a later
  change of the registry or second snapshot for the proposal does not change it.
\<close>

theorem snapshot_one_address_one_vote:
  assumes "balances_reach b" and "snapshots proposal = None"
  shows "\<exists>snapshots'. Registry_CreateSnapshot snapshots proposal height (Balance_GetAllVotingPowers b) = (True, snapshots')
    \<and> (\<forall>a. GetSnapshotPower snapshots' proposal a = (if a \<in> fst ` set b then 1 else 0))
    \<and> GetSnapshotTotalPower snapshots' proposal = of_nat (card (fst ` set b))
    \<and> (\<forall>powers h. Registry_CreateSnapshot snapshots' proposal h powers = (False, snapshots'))"
proof -
  let ?powers = "Balance_GetAllVotingPowers b"
  have all: "filter (\<lambda>(addr, pw). pw \<noteq> 0) ?powers = ?powers"
    by (auto simp: Balance_GetAllVotingPowers_def filter_id_conv)
  have "card (fst ` set b) = length b"
    using distinct_keys [OF balances_sorted [OF assms(1)]] distinct_card [of "map fst b"] by simp
  moreover define s' where "s' = snapshots(proposal \<mapsto> \<lparr>snap_proposal_id = proposal, snap_block_height = height,
      total_power = wsum (map snd ?powers), snap_entries = ?powers\<rparr>)"
  ultimately have "Registry_CreateSnapshot snapshots proposal height ?powers = (True, s')"
    "GetSnapshotTotalPower s' proposal = of_nat (card (fst ` set b))"
    "GetSnapshotPower s' proposal a = (if a \<in> fst ` set b then 1 else 0)"
    "Registry_CreateSnapshot s' proposal h powers = (False, s')" for a h powers
    using assms(2) map_of_eq_None_iff [of b a]
    by (simp_all add: Registry_CreateSnapshot_def Let_def all [unfolded Balance_GetAllVotingPowers_def] GetSnapshotTotalPower_def
        GetSnapshotPower_def wsum_ones one_vote_entries Balance_GetAllVotingPowers_def del: map_map)
  then show ?thesis by blast
qed

theorem snapshot_one_address_one_vote_witness:
  "\<exists>s. Registry_CreateSnapshot Map.empty 7 100 (Balance_GetAllVotingPowers (UpdateBalance (SetBalances [([1], 50), ([2], 0), ([], 9)]) [3] 5))
      = (True, s) \<and> GetSnapshotPower s 7 [1] = 1 \<and> GetSnapshotPower s 7 [2] = 0 \<and> GetSnapshotTotalPower s 7 = 2"
proof -
  have b: "UpdateBalance (SetBalances [([1], 50), ([2], 0), ([], 9)]) [3] 5 = [([1], 50), ([3], 5)]"
    by (simp add: UpdateBalance_def SetBalances_def)
  have "balances_reach (UpdateBalance (SetBalances [([1], 50), ([2], 0), ([], 9)]) [3] 5)"
    by (intro balances_update balances_set)
  from snapshot_one_address_one_vote [OF this, of Map.empty 7 100] show ?thesis unfolding b by auto
qed

text \<open>Nothing can be staked, so the staking registry stays empty and nothing can be slashed.\<close>

inductive staking_reach :: "StakingRegistry \<Rightarrow> bool" where
  "staking_reach (StakingRegistry_init cooldown)"
| "staking_reach r \<Longrightarrow> staking_reach (snd (Stake r a n l h))"
| "staking_reach r \<Longrightarrow> staking_reach (snd (RequestUnstake r a n h))"
| "staking_reach r \<Longrightarrow> staking_reach (snd (ClaimUnstake r a h))"
| "staking_reach r \<Longrightarrow> staking_reach (snd (Slash r a n why h))"

lemma staking_stays_empty: "staking_reach r \<Longrightarrow> stakes r = [] \<and> slash_history r = []"
  by (induction rule: staking_reach.induct)
    (simp_all add: StakingRegistry_init_def Stake_def RequestUnstake_def ClaimUnstake_def Slash_def)

lemma staking_gives_no_power:
  "staking_reach r \<Longrightarrow> Staking_GetAllVotingPowers r = [] \<and> GetTotalStaked r = 0 \<and> \<not> fst (Slash r a n why h)"
  using staking_stays_empty by (simp add: Staking_GetAllVotingPowers_def GetTotalStaked_def Slash_def)

end
