(* ===== verification/GovParams.thy ===== *)
theory GovParams
  imports Prelude
begin

section \<open>Governance parameters\<close>

text \<open>
  Models \<open>layer1-talanton/governance/params.cpp\<close>: the parameters a passed proposal can change, their constitutional limits and
  the history of changes. The two chains of comparisons of the key are tables of reader and writer per key.
\<close>

record Params =
  gp_voting_delay_blocks :: u64
  gp_voting_period_blocks :: u64
  gp_execution_delay_blocks :: u64
  gp_max_proposal_age_blocks :: u64
  gp_default_quorum :: u64
  gp_default_threshold_bps :: u64
  gp_constitutional_threshold_bps :: u64
  gp_min_proposal_deposit :: u64
  gp_slash_deposit_on_rejection :: bool
  gp_slash_deposit_on_spam :: bool
  gp_quadratic_voting_enabled :: bool
  gp_max_voting_power_cap :: u64
  gp_whale_threshold_bps :: u64
  gp_boule_size :: u32
  gp_boule_term_blocks :: u64
  gp_boule_min_stake :: u64
  gp_boule_screening_required :: bool
  gp_veto_threshold_bps :: u64
  gp_ostracism_ban_duration_blocks :: u64
  gp_ostracism_required_votes :: u64

definition Defaults :: Params where
  "Defaults = \<lparr>
     gp_voting_delay_blocks = 100,
     gp_voting_period_blocks = 10000,
     gp_execution_delay_blocks = 1000,
     gp_max_proposal_age_blocks = 50400,
     gp_default_quorum = 1000000,
     gp_default_threshold_bps = 5000,
     gp_constitutional_threshold_bps = 6667,
     gp_min_proposal_deposit = 0,
     gp_slash_deposit_on_rejection = False,
     gp_slash_deposit_on_spam = False,
     gp_quadratic_voting_enabled = False,
     gp_max_voting_power_cap = 0,
     gp_whale_threshold_bps = 1000,
     gp_boule_size = 21,
     gp_boule_term_blocks = 50400,
     gp_boule_min_stake = 0,
     gp_boule_screening_required = True,
     gp_veto_threshold_bps = 3334,
     gp_ostracism_ban_duration_blocks = 50400,
     gp_ostracism_required_votes = 10\<rparr>"

record ParamChange =
  pc_key :: string
  pc_old_value :: u64
  pc_new_value :: u64
  pc_proposal_id :: u64
  pc_changed_at_block :: u64

record GovernanceParams =
  gov_params :: Params
  gov_history :: "ParamChange list"

definition GovernanceParams_init :: "Params \<Rightarrow> GovernanceParams" where
  "GovernanceParams_init initial = \<lparr>gov_params = initial, gov_history = []\<rparr>"

definition ValidateUint :: "string \<Rightarrow> u64 \<Rightarrow> bool" where
  "ValidateUint key v =
     (if key = ''veto_threshold_bps'' then v \<ge> 1000 \<and> v \<le> 5000
      else if key = ''voting_period_blocks'' then v \<ge> 100 \<and> v \<le> 504000
      else if key = ''constitutional_threshold_bps'' then v \<ge> 5001 \<and> v \<le> 10000
      else if key = ''default_threshold_bps'' then v \<ge> 3334 \<and> v \<le> 10000
      else if key = ''boule_size'' then v \<ge> 1 \<and> v \<le> 500
      else if key = ''voting_delay_blocks'' \<or> key = ''execution_delay_blocks'' then v > 0
      else True)"

definition uint_params :: "(string \<times> (Params \<Rightarrow> u64) \<times> (u64 \<Rightarrow> Params \<Rightarrow> Params)) list" where
  "uint_params =
     [(''voting_delay_blocks'', gp_voting_delay_blocks, \<lambda>v. gp_voting_delay_blocks_update (\<lambda>_. v)),
      (''voting_period_blocks'', gp_voting_period_blocks, \<lambda>v. gp_voting_period_blocks_update (\<lambda>_. v)),
      (''execution_delay_blocks'', gp_execution_delay_blocks, \<lambda>v. gp_execution_delay_blocks_update (\<lambda>_. v)),
      (''max_proposal_age_blocks'', gp_max_proposal_age_blocks, \<lambda>v. gp_max_proposal_age_blocks_update (\<lambda>_. v)),
      (''default_quorum'', gp_default_quorum, \<lambda>v. gp_default_quorum_update (\<lambda>_. v)),
      (''default_threshold_bps'', gp_default_threshold_bps, \<lambda>v. gp_default_threshold_bps_update (\<lambda>_. v)),
      (''constitutional_threshold_bps'', gp_constitutional_threshold_bps, \<lambda>v. gp_constitutional_threshold_bps_update (\<lambda>_. v)),
      (''min_proposal_deposit'', gp_min_proposal_deposit, \<lambda>v. gp_min_proposal_deposit_update (\<lambda>_. v)),
      (''max_voting_power_cap'', gp_max_voting_power_cap, \<lambda>v. gp_max_voting_power_cap_update (\<lambda>_. v)),
      (''whale_threshold_bps'', gp_whale_threshold_bps, \<lambda>v. gp_whale_threshold_bps_update (\<lambda>_. v)),
      (''boule_size'', \<lambda>p. ucast (gp_boule_size p), \<lambda>v. gp_boule_size_update (\<lambda>_. ucast v)),
      (''boule_term_blocks'', gp_boule_term_blocks, \<lambda>v. gp_boule_term_blocks_update (\<lambda>_. v)),
      (''boule_min_stake'', gp_boule_min_stake, \<lambda>v. gp_boule_min_stake_update (\<lambda>_. v)),
      (''veto_threshold_bps'', gp_veto_threshold_bps, \<lambda>v. gp_veto_threshold_bps_update (\<lambda>_. v)),
      (''ostracism_ban_duration_blocks'', gp_ostracism_ban_duration_blocks, \<lambda>v. gp_ostracism_ban_duration_blocks_update (\<lambda>_. v)),
      (''ostracism_required_votes'', gp_ostracism_required_votes, \<lambda>v. gp_ostracism_required_votes_update (\<lambda>_. v))]"

definition bool_params :: "(string \<times> (Params \<Rightarrow> bool) \<times> (bool \<Rightarrow> Params \<Rightarrow> Params)) list" where
  "bool_params =
     [(''quadratic_voting_enabled'', gp_quadratic_voting_enabled, \<lambda>v. gp_quadratic_voting_enabled_update (\<lambda>_. v)),
      (''slash_deposit_on_rejection'', gp_slash_deposit_on_rejection, \<lambda>v. gp_slash_deposit_on_rejection_update (\<lambda>_. v)),
      (''slash_deposit_on_spam'', gp_slash_deposit_on_spam, \<lambda>v. gp_slash_deposit_on_spam_update (\<lambda>_. v)),
      (''boule_screening_required'', gp_boule_screening_required, \<lambda>v. gp_boule_screening_required_update (\<lambda>_. v))]"

definition UpdateParam :: "GovernanceParams \<Rightarrow> string \<Rightarrow> u64 \<Rightarrow> u64 \<Rightarrow> u64 \<Rightarrow> bool \<times> GovernanceParams" where
  "UpdateParam g key v proposal_id block_height =
     (if proposal_id = 0 then (False, g)
      else if \<not> ValidateUint key v then (False, g)
      else case map_of uint_params key of
        None \<Rightarrow> (False, g)
      | Some (get, put) \<Rightarrow>
          (True, \<lparr>gov_params = put v (gov_params g),
                  gov_history = gov_history g @
                    [\<lparr>pc_key = key, pc_old_value = get (gov_params g), pc_new_value = v,
                      pc_proposal_id = proposal_id, pc_changed_at_block = block_height\<rparr>]\<rparr>))"

definition of_flag :: "bool \<Rightarrow> u64" where "of_flag v = (if v then 1 else 0)"

definition UpdateBoolParam :: "GovernanceParams \<Rightarrow> string \<Rightarrow> bool \<Rightarrow> u64 \<Rightarrow> u64 \<Rightarrow> bool \<times> GovernanceParams" where
  "UpdateBoolParam g key v proposal_id block_height =
     (if proposal_id = 0 then (False, g)
      else case map_of bool_params key of
        None \<Rightarrow> (False, g)
      | Some (get, put) \<Rightarrow>
          (True, \<lparr>gov_params = put v (gov_params g),
                  gov_history = gov_history g @
                    [\<lparr>pc_key = key, pc_old_value = of_flag (get (gov_params g)), pc_new_value = of_flag v,
                      pc_proposal_id = proposal_id, pc_changed_at_block = block_height\<rparr>]\<rparr>))"

subsection \<open>Limits and history\<close>

inductive params_reach :: "GovernanceParams \<Rightarrow> bool" where
  params_start: "params_reach (GovernanceParams_init Defaults)"
| params_uint: "params_reach g \<Longrightarrow> params_reach (snd (UpdateParam g key v proposal block))"
| params_bool: "params_reach g \<Longrightarrow> params_reach (snd (UpdateBoolParam g key flag proposal block))"

definition within_limits :: "Params \<Rightarrow> bool" where
  "within_limits p \<longleftrightarrow>
     1000 \<le> gp_veto_threshold_bps p \<and> gp_veto_threshold_bps p \<le> 5000
     \<and> 100 \<le> gp_voting_period_blocks p \<and> gp_voting_period_blocks p \<le> 504000
     \<and> 5001 \<le> gp_constitutional_threshold_bps p \<and> gp_constitutional_threshold_bps p \<le> 10000
     \<and> 3334 \<le> gp_default_threshold_bps p \<and> gp_default_threshold_bps p \<le> 10000
     \<and> 1 \<le> gp_boule_size p \<and> gp_boule_size p \<le> 500
     \<and> 0 < gp_voting_delay_blocks p \<and> 0 < gp_execution_delay_blocks p"

text \<open>The history read back: every entry must name the value it found.\<close>

fun replay_changes :: "Params \<Rightarrow> ParamChange list \<Rightarrow> Params option" where
  "replay_changes p [] = Some p"
| "replay_changes p (c # cs) =
     (case map_of uint_params (pc_key c) of
        Some (get, put) \<Rightarrow> if pc_old_value c = get p then replay_changes (put (pc_new_value c) p) cs else None
      | None \<Rightarrow>
        (case map_of bool_params (pc_key c) of
           Some (get, put) \<Rightarrow>
             if pc_old_value c = of_flag (get p) then replay_changes (put (pc_new_value c = 1) p) cs else None
         | None \<Rightarrow> None))"

lemma replay_append: "replay_changes p (cs @ ds) = (case replay_changes p cs of None \<Rightarrow> None | Some p' \<Rightarrow> replay_changes p' ds)"
  by (induction p cs rule: replay_changes.induct) (auto split: option.splits)

lemma boule_size_cast:
  assumes "1 \<le> (v :: u64)" and "v \<le> 500"
  shows "1 \<le> (ucast v :: u32) \<and> (ucast v :: u32) \<le> 500"
proof -
  note v = assms
  then have "unat (ucast v :: u32) = unat v" by (simp add: unsigned_ucast_eq take_bit_nat_eq_self word_le_nat_alt)
  then show ?thesis using v by (simp add: word_le_nat_alt)
qed

lemma limits_uint_entry:
  "entry \<in> set uint_params \<Longrightarrow> ValidateUint (fst entry) v \<Longrightarrow> within_limits p \<Longrightarrow> within_limits (snd (snd entry) v p)"
  unfolding uint_params_def list.set insert_iff empty_iff
  by (elim disjE; simp add: ValidateUint_def within_limits_def boule_size_cast)

lemma limits_uint:
  "map_of uint_params key = Some (get, put) \<Longrightarrow> ValidateUint key v \<Longrightarrow> within_limits p \<Longrightarrow> within_limits (put v p)"
  by (drule map_of_SomeD) (drule limits_uint_entry [where v = v and p = p], simp_all)

lemma limits_bool: "map_of bool_params key = Some (get, put) \<Longrightarrow> within_limits p \<Longrightarrow> within_limits (put v p)"
  by (drule map_of_SomeD) (auto simp: bool_params_def within_limits_def)

lemma keys_disjoint: "list_all (\<lambda>key. key \<notin> set (map fst uint_params)) (map fst bool_params)"
  by (simp add: bool_params_def uint_params_def)

lemma bool_not_uint:
  assumes "map_of bool_params key = Some gp"
  shows "map_of uint_params key = None"
proof -
  have "key \<in> set (map fst bool_params)" using map_of_SomeD [OF assms] by force
  then have "key \<notin> set (map fst uint_params)" using keys_disjoint by (auto simp: list_all_iff)
  then show ?thesis by (simp add: map_of_eq_None_iff)
qed

text \<open>
  The parameters never leave their constitutional limits, and the history is a complete audit trail: read back over
  the defaults, every change finds the value it recorded as the old one, and the result is the current parameters.
\<close>

theorem params_limited_and_audited:
  "params_reach g \<Longrightarrow> within_limits (gov_params g) \<and> replay_changes Defaults (gov_history g) = Some (gov_params g)"
proof (induction rule: params_reach.induct)
  case params_start
  show ?case by (simp add: GovernanceParams_init_def within_limits_def Defaults_def)
next
  case (params_uint g key v proposal block)
  show ?case
  proof (cases "fst (UpdateParam g key v proposal block)")
    case True
    then obtain get put where u: "map_of uint_params key = Some (get, put)" "ValidateUint key v" "proposal \<noteq> 0"
      by (auto simp: UpdateParam_def split: if_splits option.splits)
    then show ?thesis using params_uint.IH limits_uint [OF u(1,2)] by (simp add: UpdateParam_def replay_append)
  next
    case False
    then have "snd (UpdateParam g key v proposal block) = g"
      by (auto simp: UpdateParam_def split: if_splits option.splits)
    then show ?thesis using params_uint.IH by simp
  qed
next
  case (params_bool g key flag proposal block)
  show ?case
  proof (cases "fst (UpdateBoolParam g key flag proposal block)")
    case True
    then obtain get put where u: "map_of bool_params key = Some (get, put)" "proposal \<noteq> 0"
      by (auto simp: UpdateBoolParam_def split: if_splits option.splits)
    then show ?thesis
      using params_bool.IH limits_bool [OF u(1)] bool_not_uint [OF u(1)]
      by (simp add: UpdateBoolParam_def replay_append of_flag_def)
  next
    case False
    then have "snd (UpdateBoolParam g key flag proposal block) = g"
      by (auto simp: UpdateBoolParam_def split: if_splits option.splits)
    then show ?thesis using params_bool.IH by simp
  qed
qed

theorem params_limited_and_audited_witness:
  "let g = snd (UpdateBoolParam (snd (UpdateParam (GovernanceParams_init Defaults) ''boule_size'' 500 3 70)) ''slash_deposit_on_spam'' True 4 71) in
     replay_changes Defaults (gov_history g) = Some (gov_params g) \<and> gp_boule_size (gov_params g) = 500"
proof -
  define g where "g = snd (UpdateBoolParam (snd (UpdateParam (GovernanceParams_init Defaults) ''boule_size'' 500 3 70)) ''slash_deposit_on_spam'' True 4 71)"
  have "params_reach g" unfolding g_def by (intro params_bool params_uint params_start)
  from params_limited_and_audited [OF this] have "replay_changes Defaults (gov_history g) = Some (gov_params g)" by simp
  moreover have "gp_boule_size (gov_params g) = 500"
    by (simp add: g_def UpdateBoolParam_def UpdateParam_def ValidateUint_def uint_params_def bool_params_def GovernanceParams_init_def)
  ultimately show ?thesis by (simp add: g_def Let_def)
qed

end
