(* ===== verification/Boule.thy ===== *)
theory Boule
  imports Sha256 StdMap "HOL-Library.Multiset"
begin

section \<open>The council\<close>

text \<open>
  Models \<open>layer1-talanton/governance/boule.cpp\<close>: registration of citizens, sortition of the council by a shuffle that draws from
  SHA-256, the review of proposals, and challenges against them. \<open>ConductSortition\<close> is \<open>None\<close> where the code's loop
  starts at index \<open>2 ^ 64 - 1\<close> of an empty vector.
\<close>

record Citizen =
  cz_address :: bytes
  registered_at_block :: u64
  cz_stake_amount :: u64
  is_eligible :: bool

record CouncilMember =
  cm_address :: bytes
  selected_at_block :: u64
  term_end_block :: u64
  selection_index :: u32

record ProposalReview =
  rv_proposal_id :: u64
  reviewer :: bytes
  rv_approved :: bool
  rationale :: string
  reviewed_at_block :: u64

record GrapheParanomon =
  gp_proposal_id :: u64
  challenger :: bytes
  grounds :: string
  raised_at_block :: u64
  resolved :: bool
  upheld :: bool
  dismiss_votes :: u64
  uphold_votes :: u64

record Boule =
  council_size :: u32
  term_blocks :: u64
  min_stake :: u64
  screening_required :: bool
  citizens :: "Citizen list"
  council :: "CouncilMember list"
  reviews :: "u64 \<rightharpoonup> ProposalReview list"
  challenges :: "u64 \<rightharpoonup> GrapheParanomon"

definition Boule_init :: "u32 \<Rightarrow> u64 \<Rightarrow> u64 \<Rightarrow> bool \<Rightarrow> Boule" where
  "Boule_init sz term_len stake screening =
     \<lparr>council_size = sz, term_blocks = term_len, min_stake = stake, screening_required = screening, citizens = [],
      council = [], reviews = Map.empty, challenges = Map.empty\<rparr>"

subsection \<open>Citizens\<close>

definition IsCitizenRegistered :: "Boule \<Rightarrow> bytes \<Rightarrow> bool" where
  "IsCitizenRegistered b address = list_ex (\<lambda>c. cz_address c = address) (citizens b)"

definition RegisterCitizen :: "Boule \<Rightarrow> bytes \<Rightarrow> u64 \<Rightarrow> u64 \<Rightarrow> bool \<times> Boule" where
  "RegisterCitizen b address stake_amount block_height =
     (if address = [] then (False, b)
      else if stake_amount < min_stake b then (False, b)
      else if IsCitizenRegistered b address then (False, b)
      else (True, b\<lparr>citizens := citizens b @
             [\<lparr>cz_address = address, registered_at_block = block_height, cz_stake_amount = stake_amount, is_eligible = True\<rparr>]\<rparr>))"

fun set_eligibility :: "bytes \<Rightarrow> bool \<Rightarrow> Citizen list \<Rightarrow> Citizen list" where
  "set_eligibility address eligible [] = []"
| "set_eligibility address eligible (c # cs) =
     (if cz_address c = address then c\<lparr>is_eligible := eligible\<rparr> # cs else c # set_eligibility address eligible cs)"

definition SetCitizenEligibility :: "Boule \<Rightarrow> bytes \<Rightarrow> bool \<Rightarrow> bool \<times> Boule" where
  "SetCitizenEligibility b address eligible =
     (IsCitizenRegistered b address, b\<lparr>citizens := set_eligibility address eligible (citizens b)\<rparr>)"

definition IsCouncilMember :: "Boule \<Rightarrow> bytes \<Rightarrow> bool" where
  "IsCouncilMember b address = list_ex (\<lambda>m. cm_address m = address) (council b)"

subsection \<open>Sortition\<close>

definition vrf_next :: "bytes \<Rightarrow> u64 \<Rightarrow> u64 \<Rightarrow> u32" where
  "vrf_next seed block_height counter =
     read_le32 (take 4 (Hash256 (seed @ le64 block_height @ le64 counter)))"

text \<open>The shuffle from index \<open>i\<close> down to 1.\<close>

fun shuffle :: "bytes \<Rightarrow> u64 \<Rightarrow> u64 \<Rightarrow> nat \<Rightarrow> nat list \<Rightarrow> nat list" where
  "shuffle seed block_height counter 0 xs = xs"
| "shuffle seed block_height counter (Suc i) xs =
     (let j = unat (vrf_next seed block_height counter mod of_nat (Suc i + 1)) in
      shuffle seed block_height (counter + 1) i (xs[Suc i := xs ! j, j := xs ! Suc i]))"

definition make_member :: "Boule \<Rightarrow> u64 \<Rightarrow> nat list \<Rightarrow> nat \<Rightarrow> CouncilMember" where
  "make_member b block_height eligible k =
     \<lparr>cm_address = cz_address (citizens b ! (eligible ! k)), selected_at_block = block_height,
      term_end_block = block_height + term_blocks b, selection_index = of_nat k\<rparr>"

definition ConductSortition :: "Boule \<Rightarrow> bytes \<Rightarrow> u64 \<Rightarrow> (bool \<times> Boule) option" where
  "ConductSortition b seed block_height =
     (if length seed < 4 then Some (False, b)
      else
        let eligible = filter (\<lambda>i. is_eligible (citizens b ! i)) [0..<length (citizens b)] in
        if length eligible < unat (council_size b) then Some (False, b)
        else if eligible = [] then None
        else
          let drawn = shuffle seed block_height 0 (length eligible - 1) eligible in
          Some (True, b\<lparr>council := map (make_member b block_height drawn) [0..<unat (council_size b)]\<rparr>))"

subsection \<open>Reviews\<close>

definition ReviewProposal :: "Boule \<Rightarrow> u64 \<Rightarrow> bytes \<Rightarrow> bool \<Rightarrow> string \<Rightarrow> u64 \<Rightarrow> bool \<times> Boule" where
  "ReviewProposal b proposal_id council_member approved why block_height =
     (if \<not> IsCouncilMember b council_member then (False, b)
      else
        let rev_list = (case reviews b proposal_id of None \<Rightarrow> [] | Some rs \<Rightarrow> rs) in
        if list_ex (\<lambda>r. reviewer r = council_member) rev_list
        then (False, b\<lparr>reviews := (reviews b)(proposal_id \<mapsto> rev_list)\<rparr>)
        else (True, b\<lparr>reviews := (reviews b)(proposal_id \<mapsto> rev_list @
               [\<lparr>rv_proposal_id = proposal_id, reviewer = council_member, rv_approved = approved, rationale = why,
                 reviewed_at_block = block_height\<rparr>])\<rparr>))"

definition HasActiveChallenge :: "Boule \<Rightarrow> u64 \<Rightarrow> bool" where
  "HasActiveChallenge b proposal_id =
     (case challenges b proposal_id of None \<Rightarrow> False | Some ch \<Rightarrow> \<not> resolved ch)"

definition IsProposalApproved :: "Boule \<Rightarrow> u64 \<Rightarrow> bool" where
  "IsProposalApproved b proposal_id =
     (if \<not> screening_required b then True
      else if HasActiveChallenge b proposal_id then False
      else case reviews b proposal_id of
        None \<Rightarrow> False
      | Some rs \<Rightarrow>
          if council b = [] then False
          else
            let approve_count = (of_nat (length (filter rv_approved rs)) :: u64);
                required = (ucast (council_size b) * 2 + 2) div 3 in
            approve_count \<ge> required)"

definition GetProposalReviews :: "Boule \<Rightarrow> u64 \<Rightarrow> ProposalReview list" where
  "GetProposalReviews b proposal_id = (case reviews b proposal_id of None \<Rightarrow> [] | Some rs \<Rightarrow> rs)"

subsection \<open>Challenges\<close>

definition RaiseGrapheParanomon :: "Boule \<Rightarrow> u64 \<Rightarrow> bytes \<Rightarrow> string \<Rightarrow> u64 \<Rightarrow> bool \<times> Boule" where
  "RaiseGrapheParanomon b proposal_id who why block_height =
     (if \<not> IsCouncilMember b who then (False, b)
      else if HasActiveChallenge b proposal_id then (False, b)
      else (True, b\<lparr>challenges := (challenges b)(proposal_id \<mapsto>
             \<lparr>gp_proposal_id = proposal_id, challenger = who, grounds = why, raised_at_block = block_height,
              resolved = False, upheld = False, dismiss_votes = 0, uphold_votes = 0\<rparr>)\<rparr>))"

definition VoteOnGrapheParanomon :: "Boule \<Rightarrow> u64 \<Rightarrow> bytes \<Rightarrow> bool \<Rightarrow> bool \<times> Boule" where
  "VoteOnGrapheParanomon b proposal_id council_member dismiss =
     (if \<not> IsCouncilMember b council_member then (False, b)
      else case challenges b proposal_id of
        None \<Rightarrow> (False, b)
      | Some ch \<Rightarrow>
          if resolved ch then (False, b)
          else
            let ch = (if dismiss then ch\<lparr>dismiss_votes := dismiss_votes ch + 1\<rparr> else ch\<lparr>uphold_votes := uphold_votes ch + 1\<rparr>);
                majority = ucast (council_size b) div 2 + 1;
                ch = (if dismiss_votes ch \<ge> majority then ch\<lparr>resolved := True, upheld := False\<rparr>
                      else if uphold_votes ch \<ge> majority then ch\<lparr>resolved := True, upheld := True\<rparr>
                      else ch) in
            (True, b\<lparr>challenges := (challenges b)(proposal_id \<mapsto> ch)\<rparr>))"

definition GetChallenge :: "Boule \<Rightarrow> u64 \<Rightarrow> GrapheParanomon option" where
  "GetChallenge b proposal_id = challenges b proposal_id"

subsection \<open>The Prytany\<close>

definition GetPrytany :: "Boule \<Rightarrow> CouncilMember list" where
  "GetPrytany b =
     (if council b = [] then []
      else take (unat (max 1 (council_size b div 10))) (sort_key selection_index (council b)))"

definition IsPrytanyMember :: "Boule \<Rightarrow> bytes \<Rightarrow> bool" where
  "IsPrytanyMember b address = list_ex (\<lambda>m. cm_address m = address) (GetPrytany b)"

subsection \<open>The draw\<close>

inductive boule_reach :: "Boule \<Rightarrow> bool" where
  boule_start: "boule_reach (Boule_init sz term_len stake screening)"
| boule_register: "boule_reach b \<Longrightarrow> boule_reach (snd (RegisterCitizen b a stake h))"
| boule_eligible: "boule_reach b \<Longrightarrow> boule_reach (snd (SetCitizenEligibility b a e))"
| boule_sortition: "boule_reach b \<Longrightarrow> ConductSortition b seed h = Some (ok, b') \<Longrightarrow> boule_reach b'"
| boule_review: "boule_reach b \<Longrightarrow> boule_reach (snd (ReviewProposal b p m ok why h))"
| boule_raise: "boule_reach b \<Longrightarrow> boule_reach (snd (RaiseGrapheParanomon b p m why h))"
| boule_vote: "boule_reach b \<Longrightarrow> boule_reach (snd (VoteOnGrapheParanomon b p m dismiss))"

lemma set_eligibility_addresses: "map cz_address (set_eligibility a e cs) = map cz_address cs"
  by (induction a e cs rule: set_eligibility.induct) auto

lemma citizens_distinct: "boule_reach b \<Longrightarrow> distinct (map cz_address (citizens b))"
proof (induction rule: boule_reach.induct)
  case (boule_register b a stake h)
  then show ?case by (auto simp: RegisterCitizen_def IsCitizenRegistered_def list_ex_iff)
next
  case (boule_sortition b seed h ok b')
  then show ?case by (auto simp: ConductSortition_def Let_def split: if_splits)
next
  case (boule_vote b p m dismiss)
  then show ?case by (auto simp: VoteOnGrapheParanomon_def Let_def split: option.splits)
qed (simp_all add: Boule_init_def SetCitizenEligibility_def set_eligibility_addresses ReviewProposal_def Let_def
    RaiseGrapheParanomon_def)

lemma mset_shuffle:
  "i < length xs \<Longrightarrow> length xs < 2 ^ 32 \<Longrightarrow> mset (shuffle seed h c i xs) = mset xs"
proof (induction seed h c i xs rule: shuffle.induct)
  case (2 seed h c i xs)
  define j where "j = unat (vrf_next seed h c mod of_nat (Suc i + 1))"
  have "unat (of_nat (Suc i + 1) :: u32) = Suc i + 1"
    using 2(2,3) by (simp only: unsigned_of_nat take_bit_nat_eq_self) (simp add: take_bit_nat_eq_self)
  then have "j < Suc i + 1" by (simp only: j_def unat_mod mod_less_divisor zero_less_Suc Suc_eq_plus1 [symmetric])
  then have j: "j < length xs" using 2(2) by simp
  have "mset (xs[Suc i := xs ! j, j := xs ! Suc i]) = mset xs" using mset_swap [OF j 2(2)] by simp
  then show ?case
    unfolding shuffle.simps Let_def j_def [symmetric] using 2(1) [OF j_def] 2(2,3) by simp
qed simp

text \<open>
  A successful sortition draws exactly the configured number of members, all of them eligible citizens and no one twice,
  whatever the seed.
\<close>

theorem sortition_draws_distinct_citizens:
  assumes "boule_reach b" and "length (citizens b) < 2 ^ 32" and "ConductSortition b seed h = Some (True, b')"
  shows "length (council b') = unat (council_size b) \<and> distinct (map cm_address (council b'))
    \<and> (\<forall>m \<in> set (council b'). \<exists>c \<in> set (citizens b). is_eligible c \<and> cz_address c = cm_address m)"
proof -
  define el where "el = filter (\<lambda>i. is_eligible (citizens b ! i)) [0..<length (citizens b)]"
  define drawn where "drawn = shuffle seed h 0 (length el - 1) el"
  have c: "unat (council_size b) \<le> length el" "el \<noteq> []"
    and b': "council b' = map (make_member b h drawn) [0..<unat (council_size b)]"
    using assms(3) by (auto simp: ConductSortition_def Let_def el_def drawn_def split: if_splits)
  have "length el \<le> length (citizens b)"
    unfolding el_def using length_filter_le [of _ "[0..<length (citizens b)]"] by simp
  then have "mset drawn = mset el"
    unfolding drawn_def using c(2) assms(2) by (intro mset_shuffle) auto
  then have d: "distinct drawn" "length drawn = length el" "set drawn = set el"
    using mset_eq_imp_distinct_iff [of drawn el] mset_eq_length [of drawn el] mset_eq_setD [of drawn el]
    by (auto simp: el_def)
  have in_el: "drawn ! k < length (citizens b) \<and> is_eligible (citizens b ! (drawn ! k))" if "k < length drawn" for k
    using nth_mem [OF that] d(3) by (auto simp: el_def)
  have "inj_on (\<lambda>k. cz_address (citizens b ! (drawn ! k))) {0..<unat (council_size b)}"
  proof (rule inj_onI)
    fix k l
    assume kl: "k \<in> {0..<unat (council_size b)}" "l \<in> {0..<unat (council_size b)}"
      "cz_address (citizens b ! (drawn ! k)) = cz_address (citizens b ! (drawn ! l))"
    then have "k < length drawn" "l < length drawn" using c d by auto
    moreover from this have "drawn ! k = drawn ! l"
      using kl(3) in_el citizens_distinct [OF assms(1)] by (auto simp: distinct_conv_nth)
    ultimately show "k = l" using d(1) by (auto simp: distinct_conv_nth)
  qed
  then have "distinct (map cm_address (council b'))"
    by (simp add: b' distinct_map comp_def make_member_def)
  moreover have "\<exists>c \<in> set (citizens b). is_eligible c \<and> cz_address c = cm_address m" if m: "m \<in> set (council b')" for m
  proof -
    obtain k where "k < unat (council_size b)" "m = make_member b h drawn k" using m by (auto simp: b')
    then have k: "k < length drawn" "cm_address m = cz_address (citizens b ! (drawn ! k))"
      using c d by (simp_all add: make_member_def)
    then have "citizens b ! (drawn ! k) \<in> set (citizens b)" "is_eligible (citizens b ! (drawn ! k))" using in_el by auto
    with k(2) show ?thesis by auto
  qed
  ultimately show ?thesis by (simp add: b')
qed

definition sample_boule :: Boule where
  "sample_boule = snd (RegisterCitizen (snd (RegisterCitizen (Boule_init 1 100 0 True) [1] 5 1)) [2] 5 1)"

theorem sortition_draws_distinct_citizens_witness:
  "\<exists>b'. ConductSortition sample_boule [1, 2, 3, 4] 9 = Some (True, b') \<and> length (council b') = 1"
proof -
  have reach: "boule_reach sample_boule" unfolding sample_boule_def by (intro boule_register boule_start)
  have cs: "map is_eligible (citizens sample_boule) = [True, True]" "council_size sample_boule = 1"
    by (simp_all add: sample_boule_def RegisterCitizen_def Boule_init_def IsCitizenRegistered_def)
  then have len: "length (citizens sample_boule) = 2" by (metis length_map length_Cons list.size(3) numeral_2_eq_2)
  have el: "is_eligible (citizens sample_boule ! i)" if "i < 2" for i
  proof -
    have "is_eligible (citizens sample_boule ! i) = map is_eligible (citizens sample_boule) ! i" using that len by simp
    then show ?thesis using that by (simp add: cs nth_Cons')
  qed
  have "filter (\<lambda>i. is_eligible (citizens sample_boule ! i)) [0..<2] = [0..<2]" using el by (simp add: filter_id_conv)
  then obtain b' where "ConductSortition sample_boule [1, 2, 3, 4] 9 = Some (True, b')"
    by (simp add: ConductSortition_def len cs Let_def)
  with sortition_draws_distinct_citizens [OF reach _ this] show ?thesis by (simp add: len cs)
qed

subsection \<open>Challenges\<close>

lemma dismiss_vote:
  assumes "IsCouncilMember b m" and "challenges b p = Some ch" and "\<not> resolved ch" and "uphold_votes ch = 0"
  shows "\<exists>ch'. challenges (snd (VoteOnGrapheParanomon b p m True)) p = Some ch'
      \<and> dismiss_votes ch' = dismiss_votes ch + 1 \<and> uphold_votes ch' = 0
      \<and> resolved ch' = (dismiss_votes ch + 1 \<ge> ucast (council_size b) div 2 + 1)
    \<and> IsCouncilMember (snd (VoteOnGrapheParanomon b p m True)) m
    \<and> council_size (snd (VoteOnGrapheParanomon b p m True)) = council_size b"
proof -
  have "\<not> (ucast (council_size b) div 2 + 1 :: u64) \<le> 0"
  proof -
    have "unat (ucast (council_size b) div 2 + 1 :: u64) = unat (council_size b) div 2 + 1"
      using unat32_lt [of "council_size b"]
      by (subst unat_add_lt) (simp_all add: unat_div unsigned_ucast_eq take_bit_nat_eq_self)
    then show ?thesis by (metis Suc_eq_plus1 nat.distinct(1) unat_0 word_le_0_iff)
  qed
  then show ?thesis
    using assms by (auto simp: VoteOnGrapheParanomon_def Let_def IsCouncilMember_def)
qed

lemma unat_majority: "unat (ucast (n :: u32) div 2 + 1 :: u64) = unat n div 2 + 1"
  using unat32_lt [of n]
  by (subst unat_add_lt) (simp_all add: unat_div unsigned_ucast_eq take_bit_nat_eq_self)

text \<open>
  Votes on a challenge are not tied to voters: one council member alone dismisses a challenge by voting as often as a
  majority has members.
\<close>

theorem one_member_dismisses_challenge:
  assumes "IsCouncilMember b m" and "challenges b p = Some ch" and "\<not> resolved ch"
    and "dismiss_votes ch = 0" and "uphold_votes ch = 0"
  shows "\<not> HasActiveChallenge (((\<lambda>b. snd (VoteOnGrapheParanomon b p m True)) ^^ (unat (council_size b) div 2 + 1)) b) p"
proof -
  let ?vote = "\<lambda>b. snd (VoteOnGrapheParanomon b p m True)" and ?k = "unat (council_size b) div 2 + 1"
  have k: "?k < 4294967296" using unat32_lt [of "council_size b"] by presburger
  have "\<exists>ch'. challenges ((?vote ^^ j) b) p = Some ch' \<and> dismiss_votes ch' = of_nat j \<and> uphold_votes ch' = 0
      \<and> resolved ch' = (j = ?k) \<and> IsCouncilMember ((?vote ^^ j) b) m \<and> council_size ((?vote ^^ j) b) = council_size b"
    if "j \<le> ?k" for j
    using that
  proof (induction j)
    case (Suc j)
    then obtain ch1 where c1: "challenges ((?vote ^^ j) b) p = Some ch1" "dismiss_votes ch1 = of_nat j" "uphold_votes ch1 = 0"
      "\<not> resolved ch1" "IsCouncilMember ((?vote ^^ j) b) m" "council_size ((?vote ^^ j) b) = council_size b" by auto
    have "unat (of_nat j + 1 :: u64) = j + 1" using Suc.prems k by (simp add: unat_of_nat64 add.commute flip: of_nat_Suc)
    then have "(of_nat j + 1 \<ge> (ucast (council_size b) div 2 + 1 :: u64)) = (Suc j = ?k)"
      using Suc.prems by (auto simp: word_le_nat_alt unat_majority)
    then show ?case using dismiss_vote [OF c1(5,1,4,3)] c1 by (auto simp: add.commute)
  qed (use assms in auto)
  from this [of ?k] show ?thesis by (auto simp: HasActiveChallenge_def)
qed

text \<open>A challenge that is upheld does not block the proposal: only an unresolved one does.\<close>

lemma upheld_challenge_does_not_block:
  "challenges b p = Some ch \<Longrightarrow> resolved ch \<Longrightarrow> upheld ch \<Longrightarrow>
     IsProposalApproved b p = IsProposalApproved (b\<lparr>challenges := (challenges b)(p := None)\<rparr>) p"
  by (cases "reviews b p") (simp_all add: IsProposalApproved_def HasActiveChallenge_def)

definition challenged_boule :: Boule where
  "challenged_boule =
     snd (RaiseGrapheParanomon ((Boule_init 3 100 0 True)\<lparr>council := [\<lparr>cm_address = [1], selected_at_block = 0,
        term_end_block = 100, selection_index = 0\<rparr>]\<rparr>) 7 [1] ''why'' 5)"

theorem one_member_dismisses_challenge_witness:
  "HasActiveChallenge challenged_boule 7
   \<and> \<not> HasActiveChallenge (snd (VoteOnGrapheParanomon (snd (VoteOnGrapheParanomon challenged_boule 7 [1] True)) 7 [1] True)) 7"
proof -
  have "IsCouncilMember challenged_boule [1]" "unat (council_size challenged_boule) div 2 + 1 = 2"
    "\<exists>ch. challenges challenged_boule 7 = Some ch \<and> \<not> resolved ch \<and> dismiss_votes ch = 0 \<and> uphold_votes ch = 0"
    by (simp_all add: challenged_boule_def RaiseGrapheParanomon_def IsCouncilMember_def HasActiveChallenge_def Boule_init_def)
  with one_member_dismisses_challenge [of challenged_boule "[1]" 7] show ?thesis
    by (auto simp: HasActiveChallenge_def numeral_2_eq_2)
qed

end
