(* ===== verification/Voting.thy ===== *)
theory Voting
  imports Validation Registries GovParams Treasury Boule
begin

section \<open>The voting system\<close>

text \<open>
  Models \<open>layer1-talanton/governance/voting.cpp\<close>: proposals, votes, tally and execution, the simple treasury manager and delegations.
  The components a voting system may be attached to by pointer (guard, council, registries, parameters, treasury) are optional
  parts of its state; \<open>total_supply_\<close> is only handed to the guard, which ignores it, and is left out; the execution
  handler is a function of the proposal. libsecp256k1 is the parameter \<open>secp\<close>. Casting
  a vote may trap in the square root of the guard, so its result is an error or a boolean, with the state as it is left.
\<close>

datatype ProposalType = PARAMETER_CHANGE | TREASURY_SPENDING | PROTOCOL_UPGRADE | GENERAL | CONSTITUTIONAL | EMERGENCY_TRACK

datatype ProposalStatus = PENDING | ACTIVE | PASSED | REJECTED | EXECUTED | EXPIRED

datatype VoteChoice = YES | NO | ABSTAIN | VETO

fun choice_byte :: "VoteChoice \<Rightarrow> u8" where
  "choice_byte YES = 0" | "choice_byte NO = 1" | "choice_byte ABSTAIN = 2" | "choice_byte VETO = 3"

fun type_byte :: "ProposalType \<Rightarrow> u8" where
  "type_byte PARAMETER_CHANGE = 0" | "type_byte TREASURY_SPENDING = 1" | "type_byte PROTOCOL_UPGRADE = 2"
| "type_byte GENERAL = 3" | "type_byte CONSTITUTIONAL = 4" | "type_byte EMERGENCY_TRACK = 5"

record Proposal =
  pr_proposal_id :: u64
  pr_type :: ProposalType
  pr_status :: ProposalStatus
  pr_title :: string
  pr_description :: string
  pr_proposer :: bytes
  creation_time :: u64
  voting_start :: u64
  voting_end :: u64
  execution_time :: u64
  execution_data :: bytes
  yes_votes :: u64
  no_votes :: u64
  abstain_votes :: u64
  veto_votes :: u64
  quorum_requirement :: u64
  approval_threshold :: u64
  veto_threshold_bps :: u64
  deposit_amount :: u64
  deposit_returned :: bool
  boule_approved :: bool

record Vote =
  vt_proposal_id :: u64
  voter :: bytes
  choice :: VoteChoice
  voting_power :: u64
  vt_timestamp :: u64
  vt_signature :: bytes

record VotingSystem =
  next_proposal_id :: u64
  current_block_height :: u64
  voting_period :: u64
  default_quorum :: u64
  default_threshold :: u64
  vs_veto_threshold_bps :: u64
  anti_whale :: "AntiWhaleConfig option"
  vs_boule :: "Boule option"
  require_boule_approval :: bool
  snapshot_registry :: "SnapshotRegistry option"
  staking_registry :: "StakingRegistry option"
  balance_registry :: "BalanceVotingRegistry option"
  vs_gov_params :: "GovernanceParams option"
  vs_treasury :: "Treasury option"
  execution_handler :: "(Proposal \<Rightarrow> bool) option"
  proposals :: "(u64 \<times> Proposal) list"
  votes :: "u64 \<Rightarrow> Vote list"

definition VotingSystem_init :: VotingSystem where
  "VotingSystem_init =
     \<lparr>next_proposal_id = 1, current_block_height = 0, voting_period = 10000, default_quorum = 1000000, default_threshold = 50,
      vs_veto_threshold_bps = 3334, anti_whale = None, vs_boule = None, require_boule_approval = False,
      snapshot_registry = None, staking_registry = None, balance_registry = None, vs_gov_params = None, vs_treasury = None,
      execution_handler = None, proposals = [], votes = (\<lambda>_. [])\<rparr>"

subsection \<open>Proposals\<close>

definition proposal_powers :: "VotingSystem \<Rightarrow> (bytes \<times> u64) list" where
  "proposal_powers v =
     (case balance_registry v of
        Some b \<Rightarrow> Balance_GetAllVotingPowers b
      | None \<Rightarrow> (case staking_registry v of Some r \<Rightarrow> Staking_GetAllVotingPowers r | None \<Rightarrow> []))"

definition CreateProposal :: "VotingSystem \<Rightarrow> bytes \<Rightarrow> ProposalType \<Rightarrow> string \<Rightarrow> string \<Rightarrow> bytes \<Rightarrow> u64 \<Rightarrow> u64 \<times> VotingSystem" where
  "CreateProposal v proposer ty title description data deposit =
     (let i = next_proposal_id v;
          start = current_block_height v + 100;
          proposal = \<lparr>pr_proposal_id = i, pr_type = ty, pr_status = PENDING, pr_title = title, pr_description = description,
            pr_proposer = proposer, creation_time = current_block_height v, voting_start = start,
            voting_end = start + voting_period v, execution_time = 0, execution_data = data, yes_votes = 0, no_votes = 0,
            abstain_votes = 0, veto_votes = 0, quorum_requirement = default_quorum v,
            approval_threshold = (if ty = CONSTITUTIONAL then 66 else default_threshold v), veto_threshold_bps = 3334,
            deposit_amount = deposit, deposit_returned = False, boule_approved = (\<not> require_boule_approval v)\<rparr>;
          v = v\<lparr>next_proposal_id := i + 1, proposals := map_put i proposal (proposals v)\<rparr>;
          v = (case snapshot_registry v of
                 None \<Rightarrow> v
               | Some reg \<Rightarrow>
                   if proposal_powers v \<noteq> []
                   then v\<lparr>snapshot_registry := Some (snd (Registry_CreateSnapshot reg i start (proposal_powers v)))\<rparr> else v) in
      (i, v))"

definition GetProposal :: "VotingSystem \<Rightarrow> u64 \<Rightarrow> Proposal option" where
  "GetProposal v i = map_of (proposals v) i"

definition HasVoted :: "VotingSystem \<Rightarrow> u64 \<Rightarrow> bytes \<Rightarrow> bool" where
  "HasVoted v i who = list_ex (\<lambda>vote. voter vote = who) (votes v i)"

subsection \<open>Casting a vote\<close>

definition vote_payload :: "u64 \<Rightarrow> bytes \<Rightarrow> VoteChoice \<Rightarrow> u64 \<Rightarrow> bytes" where
  "vote_payload i who ch pw = le64 i @ who @ [choice_byte ch] @ le64 pw"

definition vote_signed :: "Secp \<Rightarrow> u64 \<Rightarrow> bytes \<Rightarrow> VoteChoice \<Rightarrow> u64 \<Rightarrow> bytes \<Rightarrow> bool" where
  "vote_signed secp i who ch pw signature \<longleftrightarrow>
     length signature = SIGNATURE_SIZE \<and> length who = PUBLIC_KEY_SIZE
     \<and> Schnorr_Verify secp who (Hash256 (vote_payload i who ch pw)) signature"

definition add_tally :: "VoteChoice \<Rightarrow> u64 \<Rightarrow> Proposal \<Rightarrow> Proposal" where
  "add_tally ch pw p =
     (case ch of
        YES \<Rightarrow> p\<lparr>yes_votes := yes_votes p + pw\<rparr>
      | NO \<Rightarrow> p\<lparr>no_votes := no_votes p + pw\<rparr>
      | ABSTAIN \<Rightarrow> p\<lparr>abstain_votes := abstain_votes p + pw\<rparr>
      | VETO \<Rightarrow> p\<lparr>veto_votes := veto_votes p + pw\<rparr>)"

text \<open>The screening by the council, which may mark the proposal as approved.\<close>

definition screened :: "VotingSystem \<Rightarrow> u64 \<Rightarrow> Proposal \<Rightarrow> bool \<times> Proposal" where
  "screened v i p =
     (if require_boule_approval v then
        if boule_approved p then (True, p)
        else case vs_boule v of
          None \<Rightarrow> (False, p)
        | Some b \<Rightarrow> if IsProposalApproved b i then (True, p\<lparr>boule_approved := True\<rparr>) else (False, p)
      else (True, p))"

text \<open>The power a vote counts with: that of the snapshot, reshaped by the guard. \<open>Inr None\<close> denies the vote.\<close>

definition effective_power :: "VotingSystem \<Rightarrow> u64 \<Rightarrow> bytes \<Rightarrow> u64 \<Rightarrow> cpp_error + u64 option" where
  "effective_power v i who pw =
     (let pw = (case snapshot_registry v of
                  Some reg \<Rightarrow> if HasSnapshot reg i then (let p = GetSnapshotPower reg i who in if p = 0 then None else Some p)
                              else Some pw
                | None \<Rightarrow> Some pw) in
      case pw of
        None \<Rightarrow> Inr None
      | Some pw \<Rightarrow>
          (case anti_whale v of
             None \<Rightarrow> Inr (Some pw)
           | Some cfg \<Rightarrow> (case ComputeEffectivePower cfg pw of Inl e \<Rightarrow> Inl e | Inr q \<Rightarrow> Inr (Some q))))"

definition CastVote :: "Secp \<Rightarrow> VotingSystem \<Rightarrow> u64 \<Rightarrow> bytes \<Rightarrow> VoteChoice \<Rightarrow> u64 \<Rightarrow> bytes \<Rightarrow> (cpp_error + bool) \<times> VotingSystem" where
  "CastVote secp v i who ch pw signature =
     (case map_of (proposals v) i of
        None \<Rightarrow> (Inr False, v)
      | Some proposal \<Rightarrow>
          let (approved, proposal) = screened v i proposal;
              v = v\<lparr>proposals := map_put i proposal (proposals v)\<rparr> in
          if \<not> approved then (Inr False, v)
          else if current_block_height v < voting_start proposal \<or> current_block_height v > voting_end proposal then (Inr False, v)
          else if HasVoted v i who then (Inr False, v)
          else if \<not> vote_signed secp i who ch pw signature then (Inr False, v)
          else case effective_power v i who pw of
            Inl e \<Rightarrow> (Inl e, v)
          | Inr None \<Rightarrow> (Inr False, v)
          | Inr (Some effective) \<Rightarrow>
              let vote = \<lparr>vt_proposal_id = i, voter = who, choice = ch, voting_power = effective,
                    vt_timestamp = current_block_height v, vt_signature = signature\<rparr>;
                  proposal = add_tally ch effective proposal;
                  proposal = (if pr_status proposal = PENDING then proposal\<lparr>pr_status := ACTIVE\<rparr> else proposal) in
              (Inr True, v\<lparr>votes := (votes v)(i := votes v i @ [vote]), proposals := map_put i proposal (proposals v)\<rparr>))"

subsection \<open>Tally\<close>

definition approval_percent :: "u64 \<Rightarrow> u64 \<Rightarrow> u64" where
  "approval_percent yes approval_votes =
     (if yes \<le> UINT64_MAX div 100 then (yes * 100) div approval_votes
      else
        let scaled_denom = approval_votes div 100;
            percent = (if scaled_denom > 0 then yes div scaled_denom else 100) in
        if percent > 100 then 100 else percent)"

definition tally_status :: "u64 \<Rightarrow> Proposal \<Rightarrow> ProposalStatus" where
  "tally_status system_threshold p =
     (let total_votes = yes_votes p + no_votes p + abstain_votes p + veto_votes p;
          threshold = (if veto_threshold_bps p > 0 then veto_threshold_bps p else system_threshold);
          approval_votes = yes_votes p + no_votes p in
      if total_votes < quorum_requirement p then REJECTED
      else if saturating_mul (veto_votes p) 10000 > saturating_mul total_votes threshold then REJECTED
      else if approval_votes = 0 then REJECTED
      else if approval_percent (yes_votes p) approval_votes \<ge> approval_threshold p then PASSED
      else REJECTED)"

definition TallyVotes :: "VotingSystem \<Rightarrow> u64 \<Rightarrow> bool \<times> VotingSystem" where
  "TallyVotes v i =
     (case map_of (proposals v) i of
        None \<Rightarrow> (False, v)
      | Some p \<Rightarrow>
          if current_block_height v \<le> voting_end p then (False, v)
          else
            let status = tally_status (vs_veto_threshold_bps v) p;
                p' = (if status = PASSED then p\<lparr>pr_status := PASSED, execution_time := current_block_height v + 1000\<rparr>
                      else p\<lparr>pr_status := status\<rparr>) in
            (True, v\<lparr>proposals := map_put i p' (proposals v)\<rparr>))"

subsection \<open>Execution\<close>

definition chars :: "bytes \<Rightarrow> string" where
  "chars bs = map (\<lambda>b. char_of (unat b)) bs"

text \<open>The built-in dispatch by type: a parameter change, a spending, or a mark in the proposal's own data.\<close>

definition dispatch :: "VotingSystem \<Rightarrow> Proposal \<Rightarrow> Proposal \<times> VotingSystem" where
  "dispatch v p =
     (let data = execution_data p in
      case pr_type p of
        PARAMETER_CHANGE \<Rightarrow>
          (case vs_gov_params v of
             None \<Rightarrow> (p, v)
           | Some g \<Rightarrow>
               if length data \<ge> 10 then
                 let key_len = unat (data ! 0) in
                 if 1 + key_len + 8 \<le> length data then
                   (p, v\<lparr>vs_gov_params := Some (snd (UpdateParam g (chars (take key_len (drop 1 data)))
                        (read_le64 (drop (1 + key_len) data)) (pr_proposal_id p) (current_block_height v)))\<rparr>)
                 else (p, v)
               else (p, v))
      | TREASURY_SPENDING \<Rightarrow>
          (case vs_treasury v of
             None \<Rightarrow> (p, v)
           | Some t \<Rightarrow>
               if length data \<ge> 10 then
                 let amount = read_le64 data; addr_len = unat (data ! 8) in
                 if 9 + addr_len \<le> length data \<and> amount > 0 then
                   (p, v\<lparr>vs_treasury := Some (snd (Spend t amount (take addr_len (drop 9 data)) (pr_proposal_id p)
                        UNCATEGORIZED ''proposal execution'' (current_block_height v)))\<rparr>)
                 else (p, v)
               else (p, v))
      | EMERGENCY_TRACK \<Rightarrow>
          (p\<lparr>execution_data := data @ [type_byte EMERGENCY_TRACK] @ le64 (current_block_height v + 3)\<rparr>, v)
      | ty \<Rightarrow> (p\<lparr>execution_data := data @ [type_byte ty]\<rparr>, v))"

definition ExecuteProposal :: "VotingSystem \<Rightarrow> u64 \<Rightarrow> bool \<times> VotingSystem" where
  "ExecuteProposal v i =
     (case map_of (proposals v) i of
        None \<Rightarrow> (False, v)
      | Some p \<Rightarrow>
          if pr_status p \<noteq> PASSED then (False, v)
          else if current_block_height v < execution_time p then (False, v)
          else
            let finish = \<lambda>(p, v). (True, v\<lparr>proposals := map_put i (p\<lparr>pr_status := EXECUTED\<rparr>) (proposals v)\<rparr>) in
            (case execution_handler v of
               Some handler \<Rightarrow> if \<not> handler p then (False, v) else finish (p, v)
             | None \<Rightarrow> finish (dispatch v p)))"

definition GetActiveProposals :: "VotingSystem \<Rightarrow> Proposal list" where
  "GetActiveProposals v = filter (\<lambda>p. pr_status p = ACTIVE \<or> pr_status p = PENDING) (map snd (proposals v))"

definition GetProposalVotes :: "VotingSystem \<Rightarrow> u64 \<Rightarrow> Vote list" where
  "GetProposalVotes v i = votes v i"

definition UpdateBlockHeight :: "VotingSystem \<Rightarrow> u64 \<Rightarrow> VotingSystem" where
  "UpdateBlockHeight v height = v\<lparr>current_block_height := height\<rparr>"

definition MarkBouleApproved :: "VotingSystem \<Rightarrow> u64 \<Rightarrow> bool \<times> VotingSystem" where
  "MarkBouleApproved v i =
     (case map_of (proposals v) i of
        None \<Rightarrow> (False, v)
      | Some p \<Rightarrow> (True, v\<lparr>proposals := map_put i (p\<lparr>boule_approved := True\<rparr>) (proposals v)\<rparr>))"

text \<open>\<open>ReturnDeposit\<close> and \<open>SlashDeposit\<close> have the same body.\<close>

definition ReturnDeposit :: "VotingSystem \<Rightarrow> u64 \<Rightarrow> bool \<times> VotingSystem" where
  "ReturnDeposit v i =
     (case map_of (proposals v) i of
        None \<Rightarrow> (False, v)
      | Some p \<Rightarrow>
          if deposit_returned p then (False, v)
          else (True, v\<lparr>proposals := map_put i (p\<lparr>deposit_returned := True\<rparr>) (proposals v)\<rparr>))"

definition SlashDeposit :: "VotingSystem \<Rightarrow> u64 \<Rightarrow> bool \<times> VotingSystem" where
  "SlashDeposit v i = ReturnDeposit v i"

subsection \<open>The simple treasury and delegations\<close>

record TreasuryTransaction =
  tt_amount :: u64
  tt_address :: bytes
  tt_is_deposit :: bool
  tt_timestamp :: u64
  tt_proposal_id :: u64

record TreasuryManager =
  tm_balance :: u64
  tm_transactions :: "TreasuryTransaction list"

definition Manager_Deposit :: "TreasuryManager \<Rightarrow> u64 \<Rightarrow> bytes \<Rightarrow> bool \<times> TreasuryManager" where
  "Manager_Deposit t amount sender =
     (if amount = 0 then (False, t)
      else (True, t\<lparr>tm_balance := tm_balance t + amount, tm_transactions := tm_transactions t @
             [\<lparr>tt_amount = amount, tt_address = sender, tt_is_deposit = True, tt_timestamp = 0, tt_proposal_id = 0\<rparr>]\<rparr>))"

definition Manager_Withdraw :: "TreasuryManager \<Rightarrow> u64 \<Rightarrow> bytes \<Rightarrow> u64 \<Rightarrow> bool \<times> TreasuryManager" where
  "Manager_Withdraw t amount recipient proposal_id =
     (if amount = 0 \<or> amount > tm_balance t then (False, t)
      else if proposal_id = 0 then (False, t)
      else (True, t\<lparr>tm_balance := tm_balance t - amount, tm_transactions := tm_transactions t @
             [\<lparr>tt_amount = amount, tt_address = recipient, tt_is_deposit = False, tt_timestamp = 0,
               tt_proposal_id = proposal_id\<rparr>]\<rparr>))"

type_synonym DelegationSystem = "(bytes \<times> (bytes \<times> u64) list) list"

definition delegations_of :: "DelegationSystem \<Rightarrow> bytes \<Rightarrow> (bytes \<times> u64) list" where
  "delegations_of d delegator = (case map_of d delegator of None \<Rightarrow> [] | Some m \<Rightarrow> m)"

definition Delegate :: "DelegationSystem \<Rightarrow> bytes \<Rightarrow> bytes \<Rightarrow> u64 \<Rightarrow> bool \<times> DelegationSystem" where
  "Delegate d delegator delegatee amount =
     (if amount = 0 \<or> delegator = delegatee then (False, d)
      else
        let m = delegations_of d delegator; old = (case map_of m delegatee of None \<Rightarrow> 0 | Some n \<Rightarrow> n) in
        (True, map_put delegator (map_put delegatee (old + amount) m) d))"

definition Undelegate :: "DelegationSystem \<Rightarrow> bytes \<Rightarrow> bytes \<Rightarrow> u64 \<Rightarrow> bool \<times> DelegationSystem" where
  "Undelegate d delegator delegatee amount =
     (case map_of d delegator of
        None \<Rightarrow> (False, d)
      | Some m \<Rightarrow>
          (case map_of m delegatee of
             None \<Rightarrow> (False, d)
           | Some n \<Rightarrow>
               if n < amount then (False, d)
               else (True, map_put delegator (if n - amount = 0 then map_erase delegatee m else map_put delegatee (n - amount) m) d)))"

definition Delegation_GetVotingPower :: "DelegationSystem \<Rightarrow> bytes \<Rightarrow> u64" where
  "Delegation_GetVotingPower d address =
     wsum (map (\<lambda>(delegator, m). case map_of m address of None \<Rightarrow> 0 | Some n \<Rightarrow> n) d)"

definition GetDelegationsFrom :: "DelegationSystem \<Rightarrow> bytes \<Rightarrow> (bytes \<times> u64) list" where
  "GetDelegationsFrom d delegator = delegations_of d delegator"

definition GetDelegationsTo :: "DelegationSystem \<Rightarrow> bytes \<Rightarrow> (bytes \<times> u64) list" where
  "GetDelegationsTo d delegatee =
     foldl (\<lambda>result (delegator, m). case map_of m delegatee of None \<Rightarrow> result | Some n \<Rightarrow> map_put delegator n result) [] d"

subsection \<open>Every vote counts once\<close>

inductive voting_reach :: "VotingSystem \<Rightarrow> bool" where
  vs_start: "voting_reach VotingSystem_init"
| vs_create: "voting_reach v \<Longrightarrow> next_proposal_id v \<noteq> UINT64_MAX
    \<Longrightarrow> voting_reach (snd (CreateProposal v a ty title desc data deposit))"
| vs_cast: "voting_reach v \<Longrightarrow> voting_reach (snd (CastVote secp v i who ch pw sig))"
| vs_tally: "voting_reach v \<Longrightarrow> voting_reach (snd (TallyVotes v i))"
| vs_execute: "voting_reach v \<Longrightarrow> voting_reach (snd (ExecuteProposal v i))"
| vs_mark: "voting_reach v \<Longrightarrow> voting_reach (snd (MarkBouleApproved v i))"
| vs_deposit: "voting_reach v \<Longrightarrow> voting_reach (snd (ReturnDeposit v i))"
| vs_config: "voting_reach v \<Longrightarrow> proposals v' = proposals v \<Longrightarrow> votes v' = votes v
    \<Longrightarrow> next_proposal_id v' = next_proposal_id v \<Longrightarrow> voting_reach v'"

fun tally_of :: "VoteChoice \<Rightarrow> Proposal \<Rightarrow> u64" where
  "tally_of YES p = yes_votes p" | "tally_of NO p = no_votes p"
| "tally_of ABSTAIN p = abstain_votes p" | "tally_of VETO p = veto_votes p"

definition power_cast :: "VoteChoice \<Rightarrow> Vote list \<Rightarrow> u64" where
  "power_cast ch vs = wsum (map voting_power (filter (\<lambda>v. choice v = ch) vs))"

definition voting_ok :: "VotingSystem \<Rightarrow> bool" where
  "voting_ok v \<longleftrightarrow> 0 < next_proposal_id v
     \<and> (\<forall>i. map_of (proposals v) i = None \<longrightarrow> votes v i = [])
     \<and> (\<forall>i p. map_of (proposals v) i = Some p \<longrightarrow> i < next_proposal_id v \<and> distinct (map voter (votes v i))
          \<and> veto_threshold_bps p = 3334 \<and> (\<forall>ch. tally_of ch p = power_cast ch (votes v i)))"

lemma tally_add: "tally_of ch (add_tally ch' pw p) = tally_of ch p + (if ch = ch' then pw else 0)"
  by (cases ch; cases ch') (simp_all add: add_tally_def)

lemma add_tally_frame [simp]: "veto_threshold_bps (add_tally ch pw p) = veto_threshold_bps p" "pr_status (add_tally ch pw p) = pr_status p"
  by (cases ch; simp add: add_tally_def)+

lemma tally_frame [simp]:
  "tally_of ch (p\<lparr>pr_status := s\<rparr>) = tally_of ch p" "tally_of ch (p\<lparr>execution_time := t\<rparr>) = tally_of ch p"
  "tally_of ch (p\<lparr>boule_approved := b\<rparr>) = tally_of ch p" "tally_of ch (p\<lparr>deposit_returned := b\<rparr>) = tally_of ch p"
  "tally_of ch (p\<lparr>execution_data := d\<rparr>) = tally_of ch p"
  by (cases ch; simp)+

lemma screened_frame:
  "screened v i p = (ok, p') \<Longrightarrow> tally_of ch p' = tally_of ch p \<and> veto_threshold_bps p' = veto_threshold_bps p
     \<and> pr_status p' = pr_status p \<and> voting_start p' = voting_start p \<and> voting_end p' = voting_end p"
  by (auto simp: screened_def split: if_splits option.splits)

text \<open>A proposal replaced by one with the same tallies.\<close>

lemma voting_ok_put:
  assumes "voting_ok v" and "map_of (proposals v) i = Some p"
    and "proposals v' = map_put i p' (proposals v)" "votes v' = votes v" "next_proposal_id v' = next_proposal_id v"
    and "\<And>ch. tally_of ch p' = tally_of ch p" and "veto_threshold_bps p' = veto_threshold_bps p"
  shows "voting_ok v'"
  using assms by (auto simp: voting_ok_def)

lemma voting_ok_config:
  "voting_ok v \<Longrightarrow> proposals v' = proposals v \<Longrightarrow> votes v' = votes v \<Longrightarrow> next_proposal_id v' = next_proposal_id v \<Longrightarrow> voting_ok v'"
  by (simp add: voting_ok_def)

lemma create_ok:
  assumes "voting_ok v" and "next_proposal_id v \<noteq> UINT64_MAX"
  shows "voting_ok (snd (CreateProposal v a ty title desc data deposit))"
proof -
  define i where "i = next_proposal_id v"
  have new: "map_of (proposals v) i = None"
    using assms(1) unfolding voting_ok_def i_def by (metis less_irrefl not_None_eq)
  obtain p where p: "proposals (snd (CreateProposal v a ty title desc data deposit)) = map_put i p (proposals v)"
    "votes (snd (CreateProposal v a ty title desc data deposit)) = votes v"
    "next_proposal_id (snd (CreateProposal v a ty title desc data deposit)) = i + 1"
    "veto_threshold_bps p = 3334" "\<And>ch. tally_of ch p = 0"
  proof
    let ?p = "\<lparr>pr_proposal_id = i, pr_type = ty, pr_status = PENDING, pr_title = title, pr_description = desc,
      pr_proposer = a, creation_time = current_block_height v, voting_start = current_block_height v + 100,
      voting_end = current_block_height v + 100 + voting_period v, execution_time = 0, execution_data = data, yes_votes = 0,
      no_votes = 0, abstain_votes = 0, veto_votes = 0, quorum_requirement = default_quorum v,
      approval_threshold = (if ty = CONSTITUTIONAL then 66 else default_threshold v), veto_threshold_bps = 3334,
      deposit_amount = deposit, deposit_returned = False, boule_approved = (\<not> require_boule_approval v)\<rparr>"
    show "proposals (snd (CreateProposal v a ty title desc data deposit)) = map_put i ?p (proposals v)"
      "votes (snd (CreateProposal v a ty title desc data deposit)) = votes v"
      "next_proposal_id (snd (CreateProposal v a ty title desc data deposit)) = i + 1"
      by (simp_all add: CreateProposal_def Let_def i_def split: option.splits)
    show "veto_threshold_bps ?p = 3334" by simp
    show "tally_of ch ?p = 0" for ch by (cases ch) simp_all
  qed
  have i: "i < i + 1" using assms(2) unfolding i_def by (rule next_id_grows)
  moreover have "0 < i + 1"
    using i by (metis word_gt_0 word_not_simps(1))
  moreover have "votes v i = []" using assms(1) new by (simp add: voting_ok_def)
  ultimately show ?thesis
    using assms(1) p less_trans [OF _ i] by (auto simp: voting_ok_def power_cast_def i_def [symmetric])
qed

lemma CastVote_eq:
  assumes "map_of (proposals v) i = Some p" and sc: "screened v i p = (ok, p')"
  shows "CastVote secp v i who ch pw sig =
    (if ok \<and> voting_start p \<le> current_block_height v \<and> current_block_height v \<le> voting_end p \<and> \<not> HasVoted v i who
        \<and> vote_signed secp i who ch pw sig then
       (case effective_power v i who pw of
          Inl e \<Rightarrow> (Inl e, v\<lparr>proposals := map_put i p' (proposals v)\<rparr>)
        | Inr None \<Rightarrow> (Inr False, v\<lparr>proposals := map_put i p' (proposals v)\<rparr>)
        | Inr (Some effective) \<Rightarrow>
            (Inr True, v\<lparr>votes := (votes v)(i := votes v i @ [\<lparr>vt_proposal_id = i, voter = who, choice = ch,
                voting_power = effective, vt_timestamp = current_block_height v, vt_signature = sig\<rparr>]),
              proposals := map_put i (if pr_status p = PENDING then (add_tally ch effective p')\<lparr>pr_status := ACTIVE\<rparr>
                else add_tally ch effective p') (map_put i p' (proposals v))\<rparr>))
     else (Inr False, v\<lparr>proposals := map_put i p' (proposals v)\<rparr>))"
proof -
  let ?v = "v\<lparr>proposals := map_put i p' (proposals v)\<rparr>"
  have eff: "effective_power ?v i who pw = effective_power v i who pw" "HasVoted ?v i who = HasVoted v i who"
    by (simp_all add: effective_power_def HasVoted_def cong: option.case_cong)
  show ?thesis
    using screened_frame [OF sc] assms
    by (auto simp: CastVote_def Let_def eff split: sum.splits option.splits)
qed

lemma cast_cases:
  assumes "CastVote secp v i who ch pw sig = (r, v')" and "map_of (proposals v) i = Some p"
  obtains (same) p' where "screened v i p = (fst (screened v i p), p')" "v' = v\<lparr>proposals := map_put i p' (proposals v)\<rparr>" "r \<noteq> Inr True"
  | (counted) p' q effective where "screened v i p = (True, p')" "r = Inr True" "\<not> HasVoted v i who"
      "voting_start p \<le> current_block_height v" "current_block_height v \<le> voting_end p"
      "vote_signed secp i who ch pw sig" "effective_power v i who pw = Inr (Some effective)"
      "\<And>c. tally_of c q = tally_of c p + (if c = ch then effective else 0)" "veto_threshold_bps q = veto_threshold_bps p"
      "votes v' = (votes v)(i := votes v i @ [\<lparr>vt_proposal_id = i, voter = who, choice = ch, voting_power = effective,
          vt_timestamp = current_block_height v, vt_signature = sig\<rparr>])"
      "proposals v' = map_put i q (map_put i p' (proposals v))" "next_proposal_id v' = next_proposal_id v"
proof -
  obtain ok p' where sc: "screened v i p = (ok, p')" by force
  note fr = screened_frame [OF sc] and eq = CastVote_eq [OF assms(2) sc, of secp who ch pw sig]
  show ?thesis
  proof (cases "r = Inr True")
    case False
    then have "v' = v\<lparr>proposals := map_put i p' (proposals v)\<rparr>"
      using assms(1) eq by (auto split: if_splits option.splits sum.splits)
    with False sc show ?thesis by (intro same [of p']) simp_all
  next
    case True
    then obtain effective where e: "ok" "\<not> HasVoted v i who" "voting_start p \<le> current_block_height v"
      "current_block_height v \<le> voting_end p" "vote_signed secp i who ch pw sig"
      "effective_power v i who pw = Inr (Some effective)"
      using assms(1) eq by (auto split: if_splits option.splits sum.splits)
    let ?q = "if pr_status p = PENDING then (add_tally ch effective p')\<lparr>pr_status := ACTIVE\<rparr> else add_tally ch effective p'"
    have q: "tally_of c ?q = tally_of c p + (if c = ch then effective else 0)" "veto_threshold_bps ?q = veto_threshold_bps p" for c
      using fr by (auto simp: tally_add)
    have v': "v' = v\<lparr>votes := (votes v)(i := votes v i @ [\<lparr>vt_proposal_id = i, voter = who, choice = ch,
        voting_power = effective, vt_timestamp = current_block_height v, vt_signature = sig\<rparr>]),
        proposals := map_put i ?q (map_put i p' (proposals v))\<rparr>"
      using assms(1) eq e by simp
    have "screened v i p = (True, p')" using sc e(1) by simp
    then show ?thesis
      by (rule counted [of p' effective ?q]) (use e q True in \<open>simp_all add: v' del: if_split\<close>)
  qed
qed

lemma cast_ok:
  assumes "voting_ok v"
  shows "voting_ok (snd (CastVote secp v i who ch pw sig))"
proof (cases "map_of (proposals v) i")
  case (Some p)
  obtain r v' where c: "CastVote secp v i who ch pw sig = (r, v')" by force
  from c Some have "voting_ok v'"
  proof (cases rule: cast_cases)
    case (same p')
    show ?thesis
      by (rule voting_ok_put [OF assms Some, where p' = p']) (use same screened_frame [OF same(1)] in simp_all)
  next
    case (counted p' q effective)
    have "who \<notin> set (map voter (votes v i))" using counted(3) by (auto simp: HasVoted_def list_ex_iff)
    then show ?thesis
      using assms Some counted(8-) by (auto simp: voting_ok_def power_cast_def)
  qed
  then show ?thesis by (simp add: c)
qed (use assms in \<open>simp add: CastVote_def\<close>)

lemma dispatch_frame:
  "dispatch v p = (p', v') \<Longrightarrow> proposals v' = proposals v \<and> votes v' = votes v \<and> next_proposal_id v' = next_proposal_id v
     \<and> (\<forall>ch. tally_of ch p' = tally_of ch p) \<and> veto_threshold_bps p' = veto_threshold_bps p"
  by (auto simp: dispatch_def Let_def split: ProposalType.splits option.splits if_splits)

lemma execute_ok_voting: "voting_ok v \<Longrightarrow> voting_ok (snd (ExecuteProposal v i))"
proof (cases "map_of (proposals v) i")
  case (Some p)
  assume ok: "voting_ok v"
  obtain p' v' where d: "dispatch v p = (p', v')" by force
  note fr = dispatch_frame [OF d]
  have "voting_ok (v\<lparr>proposals := map_put i (p\<lparr>pr_status := EXECUTED\<rparr>) (proposals v)\<rparr>)"
    by (rule voting_ok_put [OF ok Some, where p' = "p\<lparr>pr_status := EXECUTED\<rparr>"]) simp_all
  moreover have "voting_ok (v'\<lparr>proposals := map_put i (p'\<lparr>pr_status := EXECUTED\<rparr>) (proposals v')\<rparr>)"
    by (rule voting_ok_put [OF ok Some, where p' = "p'\<lparr>pr_status := EXECUTED\<rparr>"]) (use fr in simp_all)
  ultimately show ?thesis
    using ok Some d by (simp add: ExecuteProposal_def Let_def split: option.splits)
qed (simp add: ExecuteProposal_def)

lemma voting_reach_ok: "voting_reach v \<Longrightarrow> voting_ok v"
proof (induction rule: voting_reach.induct)
  case vs_start
  show ?case by (simp add: voting_ok_def VotingSystem_init_def)
next
  case (vs_tally v i)
  show ?case
  proof (cases "map_of (proposals v) i")
    case (Some p)
    show ?thesis by (auto simp: TallyVotes_def Let_def Some vs_tally.IH intro!: voting_ok_put [OF vs_tally.IH Some])
  qed (simp add: TallyVotes_def vs_tally.IH)
next
  case (vs_mark v i)
  show ?case
  proof (cases "map_of (proposals v) i")
    case (Some p)
    show ?thesis by (auto simp: MarkBouleApproved_def Some intro!: voting_ok_put [OF vs_mark.IH Some])
  qed (simp add: MarkBouleApproved_def vs_mark.IH)
next
  case (vs_deposit v i)
  show ?case
  proof (cases "map_of (proposals v) i")
    case (Some p)
    show ?thesis by (auto simp: ReturnDeposit_def Some vs_deposit.IH intro!: voting_ok_put [OF vs_deposit.IH Some])
  qed (simp add: ReturnDeposit_def vs_deposit.IH)
qed (auto simp: create_ok cast_ok execute_ok_voting intro: voting_ok_config)

text \<open>
  C23. Whatever is called, every voter has at most one vote on a proposal, and the four tallies are the powers of the
  recorded votes for that choice; a counted vote was cast within the voting period, for the first time, and signed by the voter.
\<close>

theorem votes_are_counted_once:
  assumes "voting_reach v" and "map_of (proposals v) i = Some p"
  shows "distinct (map voter (votes v i))
    \<and> yes_votes p = power_cast YES (votes v i) \<and> no_votes p = power_cast NO (votes v i)
    \<and> abstain_votes p = power_cast ABSTAIN (votes v i) \<and> veto_votes p = power_cast VETO (votes v i)
    \<and> (fst (CastVote secp v i who ch pw sig) = Inr True \<longrightarrow>
         who \<notin> voter ` set (votes v i) \<and> voting_start p \<le> current_block_height v \<and> current_block_height v \<le> voting_end p
         \<and> Schnorr_Verify secp who (Hash256 (vote_payload i who ch pw)) sig)"
proof -
  have ok: "distinct (map voter (votes v i))" "tally_of c p = power_cast c (votes v i)" for c
    using voting_reach_ok [OF assms(1)] assms(2) by (auto simp: voting_ok_def)
  obtain r v' where c: "CastVote secp v i who ch pw sig = (r, v')" by force
  have "who \<notin> voter ` set (votes v i) \<and> voting_start p \<le> current_block_height v \<and> current_block_height v \<le> voting_end p
      \<and> Schnorr_Verify secp who (Hash256 (vote_payload i who ch pw)) sig" if "r = Inr True"
    using c assms(2)
  proof (cases rule: cast_cases)
    case (counted p' q effective)
    then show ?thesis by (auto simp: HasVoted_def list_ex_iff vote_signed_def)
  qed (use that in simp)
  then show ?thesis using ok(1) ok(2) [of YES] ok(2) [of NO] ok(2) [of ABSTAIN] ok(2) [of VETO] c by simp
qed

subsection \<open>The outcome of a vote\<close>

lemma approval_percent_exact:
  assumes "yes * 100 < 2 ^ 64" and "unat y = yes" "unat a = total_n" "0 < total_n"
  shows "unat (approval_percent y a) = yes * 100 div total_n"
proof -
  have "unat y * 100 < 2 ^ 64" using assms by simp
  then have "y \<le> UINT64_MAX div 100" by (simp add: word_le_nat_alt unat_div)
  moreover have "unat (y * 100) = unat y * 100" using assms(1,2) by (subst unat_mult_lt) simp_all
  ultimately show ?thesis using assms by (simp add: approval_percent_def unat_div)
qed

text \<open>
  A tally after the end of the voting passes a proposal exactly when the quorum is reached, at most the veto share of
  33.34 percent vetoed, and the approving share of the yes and no votes reaches the threshold; the system-wide veto
  threshold plays no part, since every proposal carries its own default.
\<close>

theorem tally_decides:
  assumes "voting_reach v" and "map_of (proposals v) i = Some p" and "voting_end p < current_block_height v"
    and "unat (yes_votes p) + unat (no_votes p) + unat (abstain_votes p) + unat (veto_votes p) < 2 ^ 64 div 10000"
  shows "fst (TallyVotes v i)
    \<and> (\<exists>p'. map_of (proposals (snd (TallyVotes v i))) i = Some p' \<and> pr_status p' \<in> {PASSED, REJECTED}
        \<and> (pr_status p' = PASSED) =
          (unat (quorum_requirement p) \<le> unat (yes_votes p) + unat (no_votes p) + unat (abstain_votes p) + unat (veto_votes p)
           \<and> unat (veto_votes p) * 10000
              \<le> (unat (yes_votes p) + unat (no_votes p) + unat (abstain_votes p) + unat (veto_votes p)) * 3334
           \<and> 0 < unat (yes_votes p) + unat (no_votes p)
           \<and> unat (approval_threshold p) * (unat (yes_votes p) + unat (no_votes p)) \<le> unat (yes_votes p) * 100))"
proof -
  define n where "n = unat (yes_votes p) + unat (no_votes p) + unat (abstain_votes p) + unat (veto_votes p)"
  have small: "n < 2 ^ 64 div 10000" using assms(4) by (simp add: n_def)
  have veto: "veto_threshold_bps p = 3334"
    using voting_reach_ok [OF assms(1)] assms(2) by (auto simp: voting_ok_def)
  have yn: "unat (yes_votes p + no_votes p) = unat (yes_votes p) + unat (no_votes p)"
    using small by (subst unat_add_lt) (simp_all add: n_def)
  have tot: "unat (yes_votes p + no_votes p + abstain_votes p + veto_votes p) = n"
  proof -
    have "unat (yes_votes p + no_votes p + abstain_votes p) = unat (yes_votes p) + unat (no_votes p) + unat (abstain_votes p)"
      using small yn by (subst unat_add_lt) (simp_all add: n_def)
    then show ?thesis using small by (subst unat_add_lt) (simp_all add: n_def)
  qed
  have s1: "unat (saturating_mul (veto_votes p) 10000) = unat (veto_votes p) * 10000"
    using small by (subst saturating_exact) (simp_all add: n_def)
  have s2: "unat (saturating_mul (yes_votes p + no_votes p + abstain_votes p + veto_votes p) 3334) = n * 3334"
    using small by (subst saturating_exact) (simp_all add: tot)
  have zero: "(yes_votes p + no_votes p = 0) = (unat (yes_votes p) + unat (no_votes p) = 0)"
    using yn by (metis unat_eq_zero)
  have pct: "(approval_threshold p \<le> approval_percent (yes_votes p) (yes_votes p + no_votes p))
      = (unat (approval_threshold p) * (unat (yes_votes p) + unat (no_votes p)) \<le> unat (yes_votes p) * 100)"
    if "0 < unat (yes_votes p) + unat (no_votes p)"
  proof -
    have "unat (approval_percent (yes_votes p) (yes_votes p + no_votes p))
        = unat (yes_votes p) * 100 div (unat (yes_votes p) + unat (no_votes p))"
      using small that by (intro approval_percent_exact) (simp_all add: n_def yn)
    then show ?thesis using that by (simp add: word_le_nat_alt less_eq_div_iff_mult_less_eq)
  qed
  have status: "tally_status (vs_veto_threshold_bps v) p = (if unat (quorum_requirement p) \<le> n
      \<and> unat (veto_votes p) * 10000 \<le> n * 3334 \<and> 0 < unat (yes_votes p) + unat (no_votes p)
      \<and> unat (approval_threshold p) * (unat (yes_votes p) + unat (no_votes p)) \<le> unat (yes_votes p) * 100
      then PASSED else REJECTED)"
    using pct zero by (auto simp: tally_status_def Let_def veto word_less_nat_alt tot s1 s2 not_less)
  have "\<not> current_block_height v \<le> voting_end p" using assms(3) by simp
  then show ?thesis
    using assms(2) by (simp add: TallyVotes_def Let_def status n_def [symmetric])
qed

subsection \<open>A proposal on its way\<close>

text \<open>A voting system with one spending proposal, a vote of 1000000 in favour, and a verifier that accepts every signature.\<close>

definition accepting_secp :: Secp where
  "accepting_secp = \<lparr>seckey_verify = (\<lambda>_. True), xonly_pubkey_parse = (\<lambda>_. True), schnorrsig_verify = (\<lambda>_ _ _. True),
     xonly_pub_of_seckey = (\<lambda>_. None), schnorrsig_sign32 = (\<lambda>_ _. None)\<rparr>"

definition spending_data :: bytes where
  "spending_data = le64 7 @ [1, 170]"

definition voting_treasury :: Treasury where
  "voting_treasury = (Treasury_init 1 0)\<lparr>balances := (\<lambda>_. 0)(UNCATEGORIZED := 100)\<rparr>"

definition sample_system :: VotingSystem where
  "sample_system =
     (let v = VotingSystem_init\<lparr>vs_treasury := Some voting_treasury\<rparr>;
          v = snd (CreateProposal v [] TREASURY_SPENDING [] [] spending_data 0);
          v = UpdateBlockHeight v 200 in
      snd (CastVote accepting_secp v 1 (replicate 32 1) YES 1000000 (replicate 64 0)))"

lemma sample_system_reachable: "voting_reach sample_system"
  unfolding sample_system_def Let_def
  by (rule vs_cast, rule vs_config [OF vs_create [OF vs_config [OF vs_start]]])
    (simp_all add: UpdateBlockHeight_def VotingSystem_init_def)

lemma sample_signed: "vote_signed accepting_secp 1 (replicate 32 1) YES 1000000 (replicate 64 0)"
  by (simp add: vote_signed_def Schnorr_Verify_def ValidatePublicKey_def accepting_secp_def)

definition sample_proposal :: Proposal where
  "sample_proposal = \<lparr>pr_proposal_id = 1, pr_type = TREASURY_SPENDING, pr_status = ACTIVE, pr_title = [], pr_description = [],
     pr_proposer = [], creation_time = 0, voting_start = 100, voting_end = 10100, execution_time = 0,
     execution_data = spending_data, yes_votes = 1000000, no_votes = 0, abstain_votes = 0, veto_votes = 0,
     quorum_requirement = 1000000, approval_threshold = 50, veto_threshold_bps = 3334, deposit_amount = 0,
     deposit_returned = False, boule_approved = True\<rparr>"

lemma sample_system_eq:
  "sample_system = VotingSystem_init\<lparr>next_proposal_id := 2, current_block_height := 200,
     vs_treasury := Some voting_treasury, proposals := [(1, sample_proposal)],
     votes := (\<lambda>_. [])(1 := [\<lparr>vt_proposal_id = 1, voter = replicate 32 1, choice = YES, voting_power = 1000000,
       vt_timestamp = 200, vt_signature = replicate 64 0\<rparr>])\<rparr>"
  unfolding sample_system_def
  by (simp add: Let_def CreateProposal_def UpdateBlockHeight_def CastVote_def screened_def HasVoted_def sample_signed
      effective_power_def add_tally_def VotingSystem_init_def sample_proposal_def)

text \<open>
  \<open>votes_are_counted_once\<close> for the sample.
\<close>

theorem votes_are_counted_once_witness:
  "yes_votes sample_proposal = power_cast YES (votes sample_system 1)
   \<and> fst (CastVote accepting_secp sample_system 1 (replicate 32 1) YES 1000000 (replicate 64 0)) \<noteq> Inr True"
proof -
  have p: "map_of (proposals sample_system) 1 = Some sample_proposal" by (simp add: sample_system_eq)
  show ?thesis
    using votes_are_counted_once [OF sample_system_reachable p, where secp = accepting_secp and who = "replicate 32 1"
        and ch = YES and pw = 1000000 and sig = "replicate 64 0"]
    by (auto simp: sample_system_eq)
qed

theorem tally_decides_witness:
  "\<exists>p'. map_of (proposals (snd (TallyVotes (UpdateBlockHeight sample_system 10101) 1))) 1 = Some p' \<and> pr_status p' = PASSED"
proof -
  let ?v = "UpdateBlockHeight sample_system 10101"
  have r: "voting_reach ?v" by (rule vs_config [OF sample_system_reachable]) (simp_all add: UpdateBlockHeight_def)
  have p: "map_of (proposals ?v) 1 = Some sample_proposal" by (simp add: sample_system_eq UpdateBlockHeight_def)
  have a: "voting_end sample_proposal < current_block_height ?v"
    "unat (yes_votes sample_proposal) + unat (no_votes sample_proposal) + unat (abstain_votes sample_proposal)
      + unat (veto_votes sample_proposal) < 2 ^ 64 div 10000"
    by (simp_all add: sample_proposal_def UpdateBlockHeight_def)
  show ?thesis
    using tally_decides [OF r p a] by (auto simp: sample_proposal_def)
qed

subsection \<open>Executed proposals\<close>

text \<open>
  A tally does not look at the status: a proposal already executed that would pass again is passed again by a second tally,
  and a second execution 1000 blocks later spends from the treasury once more. Every block of the schedule allows one more payment.
\<close>

theorem executed_proposal_runs_again:
  assumes "map_of (proposals v) i = Some p" and "pr_status p = EXECUTED" and "pr_type p = TREASURY_SPENDING"
    and "voting_end p < current_block_height v" and "tally_status (vs_veto_threshold_bps v) p = PASSED"
    and "execution_handler v = None" and "vs_treasury v = Some t"
    and "10 \<le> length (execution_data p)" and "9 + unat (execution_data p ! 8) \<le> length (execution_data p)"
    and "0 < read_le64 (execution_data p)"
    and "w = UpdateBlockHeight (snd (TallyVotes v i)) (current_block_height v + 1000)"
  shows "fst (TallyVotes v i) \<and> fst (ExecuteProposal w i)
    \<and> vs_treasury (snd (ExecuteProposal w i)) =
        Some (snd (Spend t (read_le64 (execution_data p)) (take (unat (execution_data p ! 8)) (drop 9 (execution_data p)))
          (pr_proposal_id p) UNCATEGORIZED ''proposal execution'' (current_block_height v + 1000)))
    \<and> (\<exists>q. map_of (proposals (snd (ExecuteProposal w i))) i = Some q \<and> pr_status q = EXECUTED
          \<and> tally_of YES q = tally_of YES p \<and> execution_data q = execution_data p)"
proof -
  let ?q = "p\<lparr>pr_status := PASSED, execution_time := current_block_height v + 1000\<rparr>"
  have t: "TallyVotes v i = (True, v\<lparr>proposals := map_put i ?q (proposals v)\<rparr>)"
    using assms(1,4,5) by (simp add: TallyVotes_def Let_def)
  have w: "map_of (proposals w) i = Some ?q" "execution_handler w = None" "vs_treasury w = Some t"
    "current_block_height w = current_block_height v + 1000"
    using assms(6,7) by (simp_all add: assms(11) t UpdateBlockHeight_def)
  have d: "dispatch w ?q = (?q, w\<lparr>vs_treasury := Some (snd (Spend t (read_le64 (execution_data p))
      (take (unat (execution_data p ! 8)) (drop 9 (execution_data p))) (pr_proposal_id p) UNCATEGORIZED ''proposal execution''
      (current_block_height v + 1000)))\<rparr>)"
    using assms(3,8,9,10) w by (simp add: dispatch_def Let_def)
  show ?thesis
    using w d by (simp add: t ExecuteProposal_def Let_def)
qed

text \<open>The sample pays its seven units twice.\<close>

lemma read_spending: "read_le64 spending_data = 7" "length spending_data = 10" "spending_data ! 8 = 1"
  "drop 9 spending_data = [170]"
  unfolding spending_data_def by (simp_all add: nth_append)

lemma spend_unlimited:
  assumes "reserve_ratio_bps t = 0" and "budget_periods t = []" and "7 \<le> balances t UNCATEGORIZED"
  shows "balances (snd (Spend t 7 [170] 1 UNCATEGORIZED why h)) UNCATEGORIZED = balances t UNCATEGORIZED - 7
    \<and> reserve_ratio_bps (snd (Spend t 7 [170] 1 UNCATEGORIZED why h)) = 0
    \<and> budget_periods (snd (Spend t 7 [170] 1 UNCATEGORIZED why h)) = []"
  using assms by (simp add: Spend_def ViolatesReserve_def IsWithinBudget_def RecordTx_def not_less)

definition treasury_paid_once :: Treasury where
  "treasury_paid_once = snd (Spend voting_treasury 7 [170] 1 UNCATEGORIZED ''proposal execution'' 11101)"

lemma treasury_paid_once: "balances treasury_paid_once UNCATEGORIZED = 93" "reserve_ratio_bps treasury_paid_once = 0"
  "budget_periods treasury_paid_once = []"
  using spend_unlimited [of voting_treasury] by (simp_all add: treasury_paid_once_def voting_treasury_def Treasury_init_def)

definition sample_executed :: VotingSystem where
  "sample_executed = sample_system\<lparr>current_block_height := 11101,
     proposals := [(1, sample_proposal\<lparr>pr_status := EXECUTED, execution_time := 11101\<rparr>)],
     vs_treasury := Some treasury_paid_once\<rparr>"

lemma sample_passes: "tally_status 3334 sample_proposal = PASSED"
  by (simp add: tally_status_def Let_def sample_proposal_def saturating_mul_def approval_percent_def)

lemma sample_executed_run:
  "sample_executed = snd (ExecuteProposal (UpdateBlockHeight (snd (TallyVotes (UpdateBlockHeight sample_system 10101) 1)) 11101) 1)"
proof -
  have "snd (TallyVotes (UpdateBlockHeight sample_system 10101) 1) = sample_system\<lparr>current_block_height := 10101,
      proposals := [(1, sample_proposal\<lparr>pr_status := PASSED, execution_time := 11101\<rparr>)]\<rparr>"
    using sample_passes
    by (simp add: TallyVotes_def UpdateBlockHeight_def sample_system_eq VotingSystem_init_def)
      (simp add: sample_proposal_def)
  then show ?thesis
    by (simp add: ExecuteProposal_def UpdateBlockHeight_def dispatch_def Let_def sample_executed_def sample_proposal_def
        read_spending treasury_paid_once_def sample_system_eq VotingSystem_init_def)
qed

theorem executed_proposal_runs_again_witness:
  "voting_reach sample_executed \<and> map_option (\<lambda>t. balances t UNCATEGORIZED) (vs_treasury sample_executed) = Some 93
   \<and> map_option (\<lambda>t. balances t UNCATEGORIZED) (vs_treasury (snd (ExecuteProposal
        (UpdateBlockHeight (snd (TallyVotes sample_executed 1)) 12101) 1))) = Some 86"
proof -
  let ?p = "sample_proposal\<lparr>pr_status := EXECUTED, execution_time := 11101\<rparr>"
  have r: "voting_reach sample_executed"
    unfolding sample_executed_run
    by (intro vs_execute vs_config [OF vs_tally [OF vs_config [OF sample_system_reachable]]])
      (simp_all add: UpdateBlockHeight_def)
  have p: "map_of (proposals sample_executed) 1 = Some ?p" by (simp add: sample_executed_def)
  have s: "pr_status ?p = EXECUTED" "pr_type ?p = TREASURY_SPENDING" "voting_end ?p < current_block_height sample_executed"
    "execution_handler sample_executed = None" "vs_treasury sample_executed = Some treasury_paid_once"
    "execution_data ?p = spending_data" "pr_proposal_id ?p = 1"
    by (simp_all add: sample_proposal_def sample_executed_def sample_system_eq VotingSystem_init_def)
  have t: "tally_status (vs_veto_threshold_bps sample_executed) ?p = PASSED"
  proof -
    have "tally_status b ?p = tally_status b sample_proposal" for b by (simp add: tally_status_def Let_def)
    moreover have "vs_veto_threshold_bps sample_executed = 3334"
      by (simp add: sample_executed_def sample_system_eq VotingSystem_init_def)
    ultimately show ?thesis using sample_passes by simp
  qed
  have d: "10 \<le> length (execution_data ?p)" "9 + unat (execution_data ?p ! 8) \<le> length (execution_data ?p)"
    "0 < read_le64 (execution_data ?p)"
    unfolding s(6) by (simp_all add: read_spending)
  have h: "current_block_height sample_executed + 1000 = 12101" by (simp add: sample_executed_def)
  have "vs_treasury (snd (ExecuteProposal (UpdateBlockHeight (snd (TallyVotes sample_executed 1)) 12101) 1))
      = Some (snd (Spend treasury_paid_once 7 [170] 1 UNCATEGORIZED ''proposal execution'' 12101))"
    using executed_proposal_runs_again [OF p s(1,2,3) t s(4,5) d refl]
    unfolding h s(6,7) by (simp add: read_spending)
  then show ?thesis
    using r treasury_paid_once spend_unlimited [of treasury_paid_once]
    by (simp add: sample_executed_def)
qed

end
