(* ===== verification/Spv.thy ===== *)
theory Spv
  imports Block
begin

section \<open>The SPV bridge\<close>

text \<open>
  Models \<open>layer2-drachma/bridges/spv/spv_bridge.cpp\<close>: Merkle proofs of transactions of layer 1, as the second layer builds and
  verifies them. The flag of a step is true when the sibling is on the right. The lemmas relate the bridge to the Merkle
  tree of \<open>Block\<close>: its root is the root of the blocks, a proof of the full depth of the tree is sound up to an explicit
  collision, and the proofs built are accepted when no level has an odd number of nodes.
\<close>

record MerkleProof =
  proof_tx_hash :: bytes
  proof_hashes :: "bytes list"
  proof_flags :: "bool list"

definition HashPair :: "bytes \<Rightarrow> bytes \<Rightarrow> bytes" where
  "HashPair left right = Hash256 (Hash256 (left @ right))"

fun climb :: "bytes \<Rightarrow> bytes list \<Rightarrow> bool list \<Rightarrow> bytes" where
  "climb current (h # hs) (flag # flags) = climb (if flag then HashPair current h else HashPair h current) hs flags"
| "climb current _ _ = current"

definition VerifyMerkleProof :: "MerkleProof \<Rightarrow> bytes \<Rightarrow> bool" where
  "VerifyMerkleProof p root =
     (if length (proof_hashes p) \<noteq> length (proof_flags p) then False
      else climb (proof_tx_hash p) (proof_hashes p) (proof_flags p) = root)"

definition VerifyTransactionInclusion :: "Transaction \<Rightarrow> MerkleProof \<Rightarrow> BlockHeader \<Rightarrow> bool" where
  "VerifyTransactionInclusion tx p h =
     (let tx_hash = Hash256 (Transaction_Serialize tx) in
      if tx_hash \<noteq> proof_tx_hash p then False else VerifyMerkleProof p (merkle_root h))"

text \<open>The inner loop over one level, and the outer loops over the levels.\<close>

fun spv_next_level :: "bytes list \<Rightarrow> bytes list" where
  "spv_next_level (a # b # rest) = HashPair a b # spv_next_level rest"
| "spv_next_level [a] = [HashPair a a]"
| "spv_next_level [] = []"

lemma length_spv_next_level: "length (spv_next_level xs) = (length xs + 1) div 2"
  by (induction xs rule: spv_next_level.induct) simp_all

function build_steps :: "bytes list \<Rightarrow> nat \<Rightarrow> (bytes \<times> bool) list" where
  "build_steps level index =
     (if 1 < length level then
        (let pair_index = index XOR 1 in
         (if pair_index < length level then [(level ! pair_index, index mod 2 = 0)] else [])
           @ build_steps (spv_next_level level) (index div 2))
      else [])"
  by pat_completeness auto
termination
  by (relation "measure (length \<circ> fst)") (auto simp: length_spv_next_level)

function spv_levels :: "bytes list \<Rightarrow> bytes list" where
  "spv_levels level = (if 1 < length level then spv_levels (spv_next_level level) else level)"
  by pat_completeness auto
termination
  by (relation "measure length") (auto simp: length_spv_next_level)

declare build_steps.simps [simp del] spv_levels.simps [simp del]

fun index_of :: "bytes \<Rightarrow> bytes list \<Rightarrow> nat option" where
  "index_of x [] = None"
| "index_of x (y # ys) = (if y = x then Some 0 else map_option Suc (index_of x ys))"

definition BuildMerkleProof :: "bytes \<Rightarrow> bytes list \<Rightarrow> MerkleProof" where
  "BuildMerkleProof tx_hash tx_hashes =
     (case index_of tx_hash tx_hashes of
        None \<Rightarrow> \<lparr>proof_tx_hash = tx_hash, proof_hashes = [], proof_flags = []\<rparr>
      | Some index \<Rightarrow>
          let steps = build_steps tx_hashes index in
          \<lparr>proof_tx_hash = tx_hash, proof_hashes = map fst steps, proof_flags = map snd steps\<rparr>)"

definition ComputeMerkleRoot :: "bytes list \<Rightarrow> bytes" where
  "ComputeMerkleRoot hashes =
     (if hashes = [] then replicate 32 0
      else if length hashes = 1 then hashes ! 0
      else spv_levels hashes ! 0)"

subsection \<open>The tree of the bridge is the tree of the blocks\<close>

lemma HashPair_eq: "HashPair = HashNodes"
  by (simp add: fun_eq_iff HashPair_def HashNodes_def Hash256d_def)

lemma spv_next_level_eq: "spv_next_level xs = next_level xs"
  by (induction xs rule: spv_next_level.induct) (simp_all add: HashPair_eq)

lemma spv_levels_eq: "spv_levels xs = merkle_levels xs"
  by (induction xs rule: spv_levels.induct)
    (subst spv_levels.simps, subst merkle_levels.simps, simp add: spv_next_level_eq)

lemma ComputeMerkleRoot_eq: "ComputeMerkleRoot = CalculateRoot"
  by (simp add: fun_eq_iff ComputeMerkleRoot_def CalculateRoot_def spv_levels_eq)

lemma merkle_root_levels: "xs \<noteq> [] \<Longrightarrow> CalculateRoot xs = merkle_levels xs ! 0"
  using merkle_levels.simps [of xs] by (auto simp: CalculateRoot_def)

subsection \<open>Proofs of full depth are sound\<close>

function tree_depth :: "bytes list \<Rightarrow> nat" where
  "tree_depth level = (if 1 < length level then Suc (tree_depth (next_level level)) else 0)"
  by pat_completeness auto
termination
  by (relation "measure length") (auto simp: length_next_level)

declare tree_depth.simps [simp del]

fun climb_preimages :: "bytes \<Rightarrow> bytes list \<Rightarrow> bool list \<Rightarrow> bytes set" where
  "climb_preimages current (h # hs) (flag # flags) =
     insert (if flag then current @ h else h @ current)
       (climb_preimages (if flag then HashPair current h else HashPair h current) hs flags)"
| "climb_preimages current _ _ = {}"

lemma level_preimages_members:
  assumes "pre \<in> set (level_preimages xs)" and "\<forall>h \<in> set xs. length h = 32"
  shows "\<exists>a b. pre = a @ b \<and> length a = 32 \<and> length b = 32 \<and> a \<in> set xs \<and> b \<in> set xs"
  using assms by (induction xs rule: level_preimages.induct) auto

lemma climb_sound:
  assumes "length hs = tree_depth xs" and "length flags = length hs" and "xs \<noteq> []" and "\<forall>h \<in> set xs. length h = 32"
    and "length current = 32" and "climb current hs flags = merkle_levels xs ! 0"
  shows "current \<in> set xs \<or> collision_in (climb_preimages current hs flags \<union> set (merkle_preimages xs))"
  using assms
proof (induction xs arbitrary: current hs flags rule: merkle_levels.induct)
  case (1 xs)
  show ?case
  proof (cases "1 < length xs")
    case False
    then have "length xs = 1" using "1.prems"(3) by (cases xs) auto
    then obtain x where "xs = [x]" by (metis One_nat_def length_0_conv length_Suc_conv)
    then show ?thesis using "1.prems"(1,2,6) by (simp add: merkle_levels.simps tree_depth.simps)
  next
    case True
    then obtain h hs' where hs: "hs = h # hs'" using "1.prems"(1) tree_depth.simps [of xs] by (cases hs) auto
    then obtain flag flags' where fl: "flags = flag # flags'" using "1.prems"(2) by (cases flags) auto
    define pre where "pre = (if flag then current @ h else h @ current)"
    define c where "c = Hash256d pre"
    have c: "(if flag then HashPair current h else HashPair h current) = c"
      by (simp add: c_def pre_def HashPair_eq HashNodes_def)
    have "c \<in> set (next_level xs) \<or> collision_in (climb_preimages c hs' flags' \<union> set (merkle_preimages (next_level xs)))"
    proof (rule "1.IH" [OF True])
      show "length hs' = tree_depth (next_level xs)" using "1.prems"(1) hs True tree_depth.simps [of xs] by simp
      show "climb c hs' flags' = merkle_levels (next_level xs) ! 0"
        using "1.prems"(6) True merkle_levels.simps [of xs] c by (simp add: hs fl split: if_splits)
      show "next_level xs \<noteq> []" using True by (cases xs rule: next_level.cases) simp_all
      show "length c = 32" by (simp add: c_def)
      show "\<forall>h \<in> set (next_level xs). length h = 32" by (rule next_level_lengths)
    qed (use "1.prems" hs fl in simp_all)
    then show ?thesis
    proof
      assume "c \<in> set (next_level xs)"
      then obtain q where q: "q \<in> set (level_preimages xs)" "Hash256d q = Hash256d pre"
        by (auto simp: next_level_preimages c_def)
      show ?thesis
      proof (cases "q = pre")
        case False
        have "q \<in> set (merkle_preimages xs)" "pre \<in> climb_preimages current hs flags"
          using q(1) True merkle_preimages.simps [of xs] by (simp_all add: hs fl pre_def)
        then show ?thesis using False q(2) by (auto simp: collision_in_def)
      next
        case True
        obtain a b where "q = a @ b" "length a = 32" "length b = 32" "a \<in> set xs" "b \<in> set xs"
          using level_preimages_members [OF q(1) "1.prems"(4)] by blast
        moreover from this have "length h = 32" using True "1.prems"(5) by (auto simp: pre_def split: if_splits)
        ultimately show ?thesis using True "1.prems"(5) by (auto simp: pre_def split: if_splits)
      qed
    next
      assume "collision_in (climb_preimages c hs' flags' \<union> set (merkle_preimages (next_level xs)))"
      moreover have "climb_preimages c hs' flags' \<subseteq> climb_preimages current hs flags"
        using c by (auto simp: hs fl split: if_splits)
      moreover have "set (merkle_preimages (next_level xs)) \<subseteq> set (merkle_preimages xs)"
        using True merkle_preimages.simps [of xs] by simp
      ultimately show ?thesis by (meson Un_mono collision_mono)
    qed
  qed
qed

text \<open>
  C25. A Merkle proof that starts from a 32-byte hash and has as many steps as the tree of a block is deep proves what it
  says: the hash is one of the transaction ids of the block, or the hashed strings contain an explicit double-SHA-256
  collision. Nothing is asked of the sibling hashes. The length of the first hash is not checked by the verifier, and the
  condition on it is needed: \<open>short_hash_accepted\<close> below.
\<close>

theorem spv_proof_sound:
  assumes "VerifyMerkleProof p (CalculateRoot_txs txs)" and "txs \<noteq> []"
    and "length (proof_hashes p) = tree_depth (map GetTxID txs)" and "length (proof_tx_hash p) = 32"
  shows "proof_tx_hash p \<in> GetTxID ` set txs
    \<or> collision_in (climb_preimages (proof_tx_hash p) (proof_hashes p) (proof_flags p)
        \<union> set (merkle_preimages (map GetTxID txs)))"
proof -
  have "climb (proof_tx_hash p) (proof_hashes p) (proof_flags p) = merkle_levels (map GetTxID txs) ! 0"
    using assms(1,2) by (simp add: VerifyMerkleProof_def CalculateRoot_txs_def merkle_root_levels split: if_splits)
  then show ?thesis
    using climb_sound [of "proof_hashes p" "map GetTxID txs" "proof_flags p" "proof_tx_hash p"] assms
    by (auto simp: VerifyMerkleProof_def GetTxID_def split: if_splits)
qed

text \<open>
  \<open>VerifyMerkleProof\<close> checks no lengths: the two ids of a block, cut after 31 bytes instead of 32, are an accepted proof of
  the full depth for a string that is no transaction id.
\<close>

lemma short_hash_accepted:
  assumes "length a = 32" and "length b = 32"
  defines "p \<equiv> \<lparr>proof_tx_hash = take 31 a, proof_hashes = [drop 31 a @ b], proof_flags = [True]\<rparr>"
  shows "VerifyMerkleProof p (CalculateRoot [a, b]) \<and> length (proof_hashes p) = tree_depth [a, b]
    \<and> proof_tx_hash p \<notin> {a, b}"
proof -
  have "take 31 a @ drop 31 a @ b = (take 31 a @ drop 31 a) @ b" by (simp only: append_assoc)
  then have "take 31 a @ drop 31 a @ b = a @ b" by (simp only: append_take_drop_id)
  then have "HashPair (take 31 a) (drop 31 a @ b) = HashNodes a b" by (simp only: HashPair_eq HashNodes_def)
  moreover have "length (take 31 a) = 31" using assms(1) by simp
  then have "take 31 a \<noteq> a" "take 31 a \<noteq> b" using assms(1,2) by auto
  ultimately show ?thesis
    by (simp add: p_def VerifyMerkleProof_def CalculateRoot_def merkle_levels.simps tree_depth.simps)
qed

subsection \<open>The proofs that are built\<close>

text \<open>Every level on the way up has a sibling for the node.\<close>

function has_siblings :: "nat \<Rightarrow> nat \<Rightarrow> bool" where
  "has_siblings n index = (if 1 < n then (index XOR 1) < n \<and> has_siblings ((n + 1) div 2) (index div 2) else True)"
  by pat_completeness auto
termination
  by (relation "measure fst") auto

declare has_siblings.simps [simp del]

lemma xor_one: "(n::nat) XOR 1 = (if even n then n + 1 else n - 1)"
  by (auto simp: xor_nat_def xor_one_eq elim!: oddE)

lemma next_level_nth:
  "2 * k + 1 < length xs \<Longrightarrow> next_level xs ! k = HashNodes (xs ! (2 * k)) (xs ! (2 * k + 1))"
proof (induction xs arbitrary: k rule: next_level.induct)
  case (1 a b rest)
  then show ?case by (cases k) simp_all
qed simp_all

lemma built_steps_climb:
  assumes "index < length xs" and "has_siblings (length xs) index"
  shows "climb (xs ! index) (map fst (build_steps xs index)) (map snd (build_steps xs index)) = merkle_levels xs ! 0"
  using assms
proof (induction xs arbitrary: index rule: merkle_levels.induct)
  case (1 xs)
  show ?case
  proof (cases "1 < length xs")
    case False
    then have "index = 0" using "1.prems" by simp
    then show ?thesis using False by (subst merkle_levels.simps) (simp add: build_steps.simps)
  next
    case True
    have sib: "(index XOR 1) < length xs" "has_siblings (length (next_level xs)) (index div 2)"
      using "1.prems"(2) True has_siblings.simps [of "length xs" index] by (simp_all add: length_next_level)
    have lt: "index div 2 < length (next_level xs)" using "1.prems"(1) by (simp add: length_next_level)
    have node: "(if index mod 2 = 0 then HashPair (xs ! index) (xs ! (index XOR 1)) else HashPair (xs ! (index XOR 1)) (xs ! index))
        = next_level xs ! (index div 2)"
    proof (cases "even index")
      case True
      then show ?thesis using sib(1) next_level_nth [of "index div 2" xs] by (simp add: HashPair_eq xor_one [unfolded One_nat_def] even_iff_mod_2_eq_zero [symmetric])
    next
      case False
      then obtain k where k: "index = 2 * k + 1" by (elim oddE)
      then show ?thesis using "1.prems"(1) next_level_nth [of k xs] by (simp add: HashPair_eq xor_one [unfolded One_nat_def])
    qed
    have "build_steps xs index = (xs ! (index XOR 1), index mod 2 = 0) # build_steps (next_level xs) (index div 2)"
      using True sib(1) by (subst build_steps.simps) (simp add: spv_next_level_eq)
    then show ?thesis
      using "1.IH" [OF True lt sib(2)] True node [symmetric] by (subst merkle_levels.simps) (simp split: if_splits)
  qed
qed

lemma siblings_power: "index < 2 ^ k \<Longrightarrow> has_siblings (2 ^ k) index"
proof (induction k arbitrary: index)
  case (Suc k)
  have "(index XOR 1) < 2 ^ Suc k" using Suc.prems unfolding xor_one by (auto elim!: evenE)
  moreover have "has_siblings (2 ^ k) (index div 2)" using Suc.prems by (intro Suc.IH) simp
  moreover have "(2 ^ Suc k + 1) div 2 = (2::nat) ^ k" by simp
  ultimately show ?case by (subst has_siblings.simps) simp
qed (simp add: has_siblings.simps)

lemma index_of_Some: "index_of x xs = Some i \<Longrightarrow> i < length xs \<and> xs ! i = x"
  by (induction xs arbitrary: i) (auto split: if_splits)

lemma index_of_member: "x \<in> set xs \<Longrightarrow> index_of x xs \<noteq> None"
  by (induction xs) auto

text \<open>
  For a block whose number of transactions is a power of two, the proof built for any of its transaction ids is accepted against
  the Merkle root of the block.
\<close>

theorem spv_proofs_verify:
  assumes "tx \<in> set txs" and "length txs = 2 ^ k"
  shows "VerifyMerkleProof (BuildMerkleProof (GetTxID tx) (map GetTxID txs)) (CalculateRoot_txs txs)"
proof -
  obtain i where i: "index_of (GetTxID tx) (map GetTxID txs) = Some i"
    using index_of_member [of "GetTxID tx" "map GetTxID txs"] assms(1) by auto
  then have b: "i < length txs" "map GetTxID txs ! i = GetTxID tx" using index_of_Some [OF i] by simp_all
  have "has_siblings (length (map GetTxID txs)) i" using b(1) assms(2) siblings_power by simp
  moreover have "txs \<noteq> []" using assms(1) by auto
  ultimately show ?thesis
    using built_steps_climb [of i "map GetTxID txs"] b
    by (simp add: VerifyMerkleProof_def BuildMerkleProof_def i Let_def CalculateRoot_txs_def merkle_root_levels)
qed

text \<open>
  A node without a sibling is paired with itself in the tree, but the proof has no step for that level: the proof built for the third of
  three transactions is only accepted if it hashes to itself, or with a collision.
\<close>

lemma odd_leaf_unprovable:
  assumes "c \<notin> {a, b}" and "VerifyMerkleProof (BuildMerkleProof c [a, b, c]) (CalculateRoot [a, b, c])"
  shows "c = HashPair c c \<or> collision_in {HashPair a b @ c, HashPair a b @ HashPair c c}"
proof -
  have "build_steps [a, b, c] 2 = [(HashPair a b, False)]"
    by (subst build_steps.simps, simp add: xor_one, subst build_steps.simps, simp add: xor_one, subst build_steps.simps, simp)
  moreover have "merkle_levels [a, b, c] = [HashNodes (HashNodes a b) (HashNodes c c)]"
    by (subst merkle_levels.simps, simp, subst merkle_levels.simps, simp, subst merkle_levels.simps, simp)
  moreover have "index_of c [a, b, c] = Some 2" using assms(1) by auto
  ultimately have "HashPair (HashPair a b) c = HashPair (HashPair a b) (HashPair c c)"
    using assms(2) by (simp add: VerifyMerkleProof_def BuildMerkleProof_def CalculateRoot_def HashPair_eq del: index_of.simps)
  then show ?thesis by (auto simp: collision_in_def HashPair_eq HashNodes_def)
qed

text \<open>
  The bridge hashes the serialized transaction once, the blocks hash it twice: the only transaction of a block is only accepted
  with a string that is its own hash.
\<close>

lemma inclusion_hashes_once:
  assumes "VerifyTransactionInclusion tx p h" and "merkle_root h = CalculateRoot_txs [tx]" and "proof_hashes p = []"
  shows "Hash256 (Transaction_Serialize tx) = Hash256 (Hash256 (Transaction_Serialize tx))"
  using assms by (auto simp: VerifyTransactionInclusion_def VerifyMerkleProof_def CalculateRoot_txs_def CalculateRoot_def
      GetTxID_def Hash256d_def Let_def split: if_splits)

text \<open>Two transactions, and the proof of the first.\<close>

definition two_txs :: "Transaction list" where
  "two_txs = [sample_tx, sample_tx\<lparr>version := 2\<rparr>]"

theorem spv_proofs_verify_witness:
  "VerifyMerkleProof (BuildMerkleProof (GetTxID sample_tx) (map GetTxID two_txs)) (CalculateRoot_txs two_txs)"
  by (rule spv_proofs_verify [where k = 1]) (simp_all add: two_txs_def)

lemma two_txs_proof:
  "BuildMerkleProof (GetTxID sample_tx) (map GetTxID two_txs) =
     \<lparr>proof_tx_hash = GetTxID sample_tx, proof_hashes = [GetTxID (sample_tx\<lparr>version := 2\<rparr>)], proof_flags = [True]\<rparr>"
  by (simp add: BuildMerkleProof_def two_txs_def Let_def build_steps.simps xor_one [unfolded One_nat_def])

lemma two_txs_tree:
  "tree_depth (map GetTxID two_txs) = 1"
  "CalculateRoot_txs two_txs = HashNodes (GetTxID sample_tx) (GetTxID (sample_tx\<lparr>version := 2\<rparr>))"
  by (simp_all add: tree_depth.simps two_txs_def CalculateRoot_txs_def CalculateRoot_def merkle_levels.simps)

theorem spv_proof_sound_witness:
  "let p = BuildMerkleProof (GetTxID sample_tx) (map GetTxID two_txs) in
     proof_tx_hash p \<in> GetTxID ` set two_txs
     \<or> collision_in (climb_preimages (proof_tx_hash p) (proof_hashes p) (proof_flags p)
         \<union> set (merkle_preimages (map GetTxID two_txs)))"
  unfolding Let_def
proof (rule spv_proof_sound)
  show "VerifyMerkleProof (BuildMerkleProof (GetTxID sample_tx) (map GetTxID two_txs)) (CalculateRoot_txs two_txs)"
    unfolding two_txs_proof two_txs_tree by (simp add: VerifyMerkleProof_def HashPair_eq)
  show "two_txs \<noteq> []" by (simp add: two_txs_def)
qed (simp_all only: two_txs_proof two_txs_tree, simp_all add: GetTxID_def)

end
