(* ===== verification/Commitments.thy ===== *)
theory Commitments
  imports BlockStorage Registries
begin

section \<open>Commitments between the layers\<close>

text \<open>
  Models \<open>common/serialization/commitments.cpp\<close> and \<open>serialization.cpp\<close> (the checkpoint a layer anchors in the one below, its text
  encoding and the finality quorum), \<open>layer1-talanton/tx/l1_commitment_validator.cpp\<close>, the proof-of-stake rules of
  \<open>layer2-drachma/consensus/pos_consensus.cpp\<close>, which \<open>layer3-obolos/consensus/pos_consensus.cpp\<close> repeats word for word apart
  from the messages, and \<open>common/relayer_subsidy.h\<close>. Strings are lists of characters; a \<open>find\<close> from an offset is a
  split of the rest of the string. \<open>std::stoull\<close> is modelled with its white space and signs.
\<close>

datatype SourceChain = CHAIN_DRACHMA | CHAIN_OBOLOS

record FinalitySignature =
  fs_validator_id :: string
  fs_stake :: u64
  fs_signature :: string

record Commitment =
  cm_source_chain :: SourceChain
  cm_epoch :: u64
  cm_finalized_height :: u64
  cm_block_hash :: string
  cm_state_root :: string
  cm_validator_set_hash :: string
  cm_upstream_hash :: string
  cm_signatures :: "FinalitySignature list"

record CommitmentValidationResult =
  vr_valid :: bool
  vr_reason :: string

abbreviation (input) refuse :: "string \<Rightarrow> CommitmentValidationResult" where
  "refuse why \<equiv> \<lparr>vr_valid = False, vr_reason = why\<rparr>"

abbreviation (input) accept :: CommitmentValidationResult where
  "accept \<equiv> \<lparr>vr_valid = True, vr_reason = []\<rparr>"

subsection \<open>Encoding rules and quorum\<close>

definition is_digit :: "char \<Rightarrow> bool" where
  "is_digit c \<longleftrightarrow> 48 \<le> (of_char c :: nat) \<and> (of_char c :: nat) \<le> 57"

definition IsHexLike :: "string \<Rightarrow> bool" where
  "IsHexLike s \<longleftrightarrow> s \<noteq> [] \<and> list_all (\<lambda>c. is_digit c \<or> (97 \<le> (of_char c :: nat) \<and> (of_char c :: nat) \<le> 102)
      \<or> (65 \<le> (of_char c :: nat) \<and> (of_char c :: nat) \<le> 70)) s"

definition ValidatePayloadEncoding :: "Commitment \<Rightarrow> CommitmentValidationResult" where
  "ValidatePayloadEncoding c =
     (if cm_finalized_height c = 0 then refuse ''finalized_height must be non-zero''
      else if \<not> IsHexLike (cm_block_hash c) \<or> length (cm_block_hash c) \<noteq> 64
        then refuse ''finalized_block_hash must be a 32-byte hex string''
      else if \<not> IsHexLike (cm_state_root c) \<or> length (cm_state_root c) \<noteq> 64
        then refuse ''state_root must be a 32-byte hex string''
      else if \<not> IsHexLike (cm_validator_set_hash c) \<or> length (cm_validator_set_hash c) \<noteq> 64
        then refuse ''validator_set_hash must be a 32-byte hex string''
      else if cm_signatures c = [] then refuse ''at least one validator signature is required''
      else if cm_source_chain c = CHAIN_DRACHMA \<and> cm_upstream_hash c = []
        then refuse ''DRACHMA commitments must include upstream OBOLOS commitment hash''
      else if cm_upstream_hash c \<noteq> [] \<and> (\<not> IsHexLike (cm_upstream_hash c) \<or> length (cm_upstream_hash c) \<noteq> 64)
        then refuse ''upstream_commitment_hash must be a 32-byte hex string when present''
      else if list_ex (\<lambda>s. fs_validator_id s = [] \<or> fs_signature s = []) (cm_signatures c)
        then refuse ''validator signatures must contain validator_id and signature''
      else accept)"

text \<open>The first signature of each validator counts, with the stake it declares itself.\<close>

fun signed_weight :: "string list \<Rightarrow> FinalitySignature list \<Rightarrow> u64" where
  "signed_weight seen [] = 0"
| "signed_weight seen (s # ss) =
     (if fs_validator_id s \<in> set seen then signed_weight seen ss
      else fs_stake s + signed_weight (fs_validator_id s # seen) ss)"

definition SignedStakeWeight :: "Commitment \<Rightarrow> u64" where
  "SignedStakeWeight c = signed_weight [] (cm_signatures c)"

definition ValidateFinalityQuorum :: "Commitment \<Rightarrow> u64 \<Rightarrow> u64 \<Rightarrow> u64 \<Rightarrow> CommitmentValidationResult" where
  "ValidateFinalityQuorum c active_stake minimum_numerator minimum_denominator =
     (if minimum_denominator = 0 \<or> minimum_numerator > minimum_denominator then refuse ''invalid quorum threshold''
      else if active_stake = 0 then refuse ''active stake cannot be zero''
      else if saturating_mul (SignedStakeWeight c) minimum_denominator < saturating_mul active_stake minimum_numerator
        then refuse ''finality quorum not reached''
      else accept)"

definition SourceChainName :: "SourceChain \<Rightarrow> string" where
  "SourceChainName chain = (case chain of CHAIN_DRACHMA \<Rightarrow> ''DRACHMA'' | CHAIN_OBOLOS \<Rightarrow> ''OBOLOS'')"

subsection \<open>The validators of the three layers\<close>

definition ValidateL2Commit :: "Commitment \<Rightarrow> u64 \<Rightarrow> u64 \<Rightarrow> CommitmentValidationResult" where
  "ValidateL2Commit c last_finalized_height active_stake =
     (if cm_source_chain c \<noteq> CHAIN_DRACHMA then refuse ''TX_L2_COMMIT must originate from DRACHMA''
      else if cm_finalized_height c \<le> last_finalized_height then refuse ''TX_L2_COMMIT finalized_height must be monotonic''
      else let encoding = ValidatePayloadEncoding c in
        if \<not> vr_valid encoding then encoding else ValidateFinalityQuorum c active_stake 2 3)"

definition ValidateL3Commit :: "Commitment \<Rightarrow> u64 \<Rightarrow> u64 \<Rightarrow> CommitmentValidationResult" where
  "ValidateL3Commit c last_l3_height active_stake =
     (if cm_source_chain c \<noteq> CHAIN_OBOLOS then refuse ''TX_L3_COMMIT must originate from OBOLOS''
      else if cm_finalized_height c \<le> last_l3_height then refuse ''TX_L3_COMMIT finalized_height must be monotonic''
      else let encoding = ValidatePayloadEncoding c in
        if \<not> vr_valid encoding then encoding else ValidateFinalityQuorum c active_stake 2 3)"

definition ValidateL3Finality :: "Commitment \<Rightarrow> u64 \<Rightarrow> u64 \<Rightarrow> CommitmentValidationResult" where
  "ValidateL3Finality c last_finalized_height active_stake =
     (if cm_source_chain c \<noteq> CHAIN_OBOLOS then refuse ''L3 finality payload must originate from OBOLOS''
      else if cm_finalized_height c \<le> last_finalized_height then refuse ''L3 finalized_height must be monotonic''
      else let encoding = ValidatePayloadEncoding c in
        if \<not> vr_valid encoding then encoding else ValidateFinalityQuorum c active_stake 2 3)"

definition BuildL3Commitment :: "u64 \<Rightarrow> u64 \<Rightarrow> string \<Rightarrow> string \<Rightarrow> string \<Rightarrow> FinalitySignature list \<Rightarrow> Commitment" where
  "BuildL3Commitment epoch height block_hash root set_hash sigs =
     \<lparr>cm_source_chain = CHAIN_OBOLOS, cm_epoch = epoch, cm_finalized_height = height, cm_block_hash = block_hash,
      cm_state_root = root, cm_validator_set_hash = set_hash, cm_upstream_hash = [], cm_signatures = sigs\<rparr>"

subsection \<open>Proposers and slashing\<close>

record Validator =
  vd_id :: string
  vd_stake :: u64

record SlashingEvent =
  se_validator_id :: string
  se_reason :: string
  se_slashed_amount :: u64

text \<open>\<open>std::invalid_argument\<close> with its message.\<close>

datatype invalid_argument = InvalidArgument string

definition TotalActiveStake :: "Validator list \<Rightarrow> u64" where
  "TotalActiveStake vs = wsum (map vd_stake vs)"

fun pick_proposer :: "u64 \<Rightarrow> Validator list \<Rightarrow> Validator \<Rightarrow> Validator" where
  "pick_proposer cursor [] fallback = fallback"
| "pick_proposer cursor (v # vs) fallback =
     (if cursor < vd_stake v then v else pick_proposer (cursor - vd_stake v) vs fallback)"

definition proposer_slot :: "u64 \<Rightarrow> u64 \<Rightarrow> u64" where
  "proposer_slot epoch height = push_bit 32 epoch XOR height"

definition SelectDeterministicProposer :: "Validator list \<Rightarrow> u64 \<Rightarrow> u64 \<Rightarrow> invalid_argument + Validator" where
  "SelectDeterministicProposer vs epoch height =
     (if vs = [] then Inl (InvalidArgument ''validators cannot be empty'')
      else let total_stake = TotalActiveStake vs in
        if total_stake = 0 then Inl (InvalidArgument ''total active stake cannot be zero'')
        else Inr (pick_proposer (proposer_slot epoch height mod total_stake) vs (last vs)))"

definition ApplySlashing :: "Validator \<Rightarrow> string \<Rightarrow> invalid_argument + (SlashingEvent \<times> Validator)" where
  "ApplySlashing v reason =
     (let slash = (\<lambda>bips :: u64. let slashed_amount = (vd_stake v * bips) div 10000 in
            Inr (\<lparr>se_validator_id = vd_id v, se_reason = reason, se_slashed_amount = slashed_amount\<rparr>,
                 v\<lparr>vd_stake := vd_stake v - slashed_amount\<rparr>)) in
      if reason = ''double_sign'' then slash 500
      else if reason = ''equivocation'' then slash 1000
      else Inl (InvalidArgument (''unrecognised slashing reason: '' @ reason)))"

datatype RelayerLayer = L2_TO_L1 | L3_TO_L2

record RelayerSubsidy =
  rs_layer :: RelayerLayer
  rs_relayer_id :: string
  rs_amount :: u64
  rs_ticker :: string

definition CalculateRelayerSubsidy :: "RelayerLayer \<Rightarrow> string \<Rightarrow> u64 \<Rightarrow> RelayerSubsidy" where
  "CalculateRelayerSubsidy layer relayer_id commitment_epoch =
     (case layer of
        L2_TO_L1 \<Rightarrow> \<lparr>rs_layer = layer, rs_relayer_id = relayer_id, rs_amount = 100000000, rs_ticker = ''DRM''\<rparr>
      | L3_TO_L2 \<Rightarrow> \<lparr>rs_layer = layer, rs_relayer_id = relayer_id, rs_amount = 100000000, rs_ticker = ''OBL''\<rparr>)"

subsection \<open>The text encoding\<close>

definition encode_signature :: "FinalitySignature \<Rightarrow> string" where
  "encode_signature s = fs_validator_id s @ ''|'' @ dec (unat (fs_stake s)) @ ''|'' @ fs_signature s"

fun encode_signatures :: "FinalitySignature list \<Rightarrow> string" where
  "encode_signatures [] = []"
| "encode_signatures [s] = encode_signature s"
| "encode_signatures (s # ss) = encode_signature s @ '','' @ encode_signatures ss"

definition EncodeCommitment :: "Commitment \<Rightarrow> string" where
  "EncodeCommitment c =
     SourceChainName (cm_source_chain c) @ '':'' @ dec (unat (cm_epoch c)) @ '':'' @ dec (unat (cm_finalized_height c)) @ '':''
       @ cm_block_hash c @ '':'' @ cm_state_root c @ '':'' @ cm_validator_set_hash c @ '':'' @ cm_upstream_hash c @ '':''
       @ encode_signatures (cm_signatures c)"

text \<open>\<open>find\<close> and \<open>substr\<close>: what is before and after the first occurrence.\<close>

definition split_at :: "char \<Rightarrow> string \<Rightarrow> (string \<times> string) option" where
  "split_at c s = (case dropWhile (\<lambda>x. x \<noteq> c) s of [] \<Rightarrow> None | _ # rest \<Rightarrow> Some (takeWhile (\<lambda>x. x \<noteq> c) s, rest))"

definition is_space :: "char \<Rightarrow> bool" where
  "is_space c \<longleftrightarrow> of_char c = (32::nat) \<or> (9 \<le> (of_char c :: nat) \<and> (of_char c :: nat) \<le> 13)"

text \<open>\<open>std::stoull\<close>: white space, a sign, digits; what follows is ignored; \<open>None\<close> is an exception.\<close>

definition stoull :: "string \<Rightarrow> u64 option" where
  "stoull s =
     (let s = dropWhile is_space s;
          negative = (s \<noteq> [] \<and> hd s = CHR ''-'');
          s = (if s \<noteq> [] \<and> (hd s = CHR ''-'' \<or> hd s = CHR ''+'') then tl s else s);
          digits = takeWhile is_digit s in
      if digits = [] then None
      else case parse_dec 0 digits of
        None \<Rightarrow> None
      | Some n \<Rightarrow> if 2 ^ 64 \<le> n then None else Some (if negative then - of_nat n else of_nat n))"

text \<open>The loop over the eight fields, with the unread rest.\<close>

fun decode_fields :: "nat \<Rightarrow> string \<Rightarrow> (string list \<times> string) option" where
  "decode_fields 0 rest = Some ([], rest)"
| "decode_fields (Suc n) rest =
     (case split_at CHR '':'' rest of
        None \<Rightarrow> if n \<noteq> 0 then None else Some ([rest], [])
      | Some (field, rest') \<Rightarrow> map_option (\<lambda>(fields, r). (field # fields, r)) (decode_fields n rest'))"

definition decode_tuple :: "string \<Rightarrow> string + FinalitySignature" where
  "decode_tuple item =
     (case split_at CHR ''|'' item of
        None \<Rightarrow> Inl ''invalid validator signature tuple encoding''
      | Some (who, rest) \<Rightarrow>
          (case split_at CHR ''|'' rest of
             None \<Rightarrow> Inl ''invalid validator signature tuple encoding''
           | Some (stake, sig) \<Rightarrow>
               (case stoull stake of
                  None \<Rightarrow> Inl ''validator stake must be an unsigned integer''
                | Some n \<Rightarrow> Inr \<lparr>fs_validator_id = who, fs_stake = n, fs_signature = sig\<rparr>)))"

definition push_item :: "string \<Rightarrow> FinalitySignature list \<Rightarrow> string + FinalitySignature list" where
  "push_item item sigs =
     (if item = [] then Inr sigs else case decode_tuple item of Inl e \<Rightarrow> Inl e | Inr s \<Rightarrow> Inr (sigs @ [s]))"

lemma split_at_shorter: "split_at c s = Some (a, b) \<Longrightarrow> length b < length s"
  using length_dropWhile_le [of "\<lambda>x. x \<noteq> c" s] by (auto simp: split_at_def split: list.splits)

text \<open>The loop over the items: the error, if any, and the signatures pushed so far.\<close>

function decode_signatures :: "string \<Rightarrow> FinalitySignature list \<Rightarrow> string option \<times> FinalitySignature list" where
  "decode_signatures s sigs =
     (case split_at CHR '','' s of
        None \<Rightarrow> (case push_item s sigs of Inl e \<Rightarrow> (Some e, sigs) | Inr sigs' \<Rightarrow> (None, sigs'))
      | Some (item, rest) \<Rightarrow>
          (case push_item item sigs of Inl e \<Rightarrow> (Some e, sigs) | Inr sigs' \<Rightarrow> decode_signatures rest sigs'))"
  by pat_completeness auto
termination
  by (relation "measure (length \<circ> fst)") (auto dest: split_at_shorter)

declare decode_signatures.simps [simp del]

definition DecodeCommitment :: "string \<Rightarrow> Commitment \<Rightarrow> CommitmentValidationResult \<times> Commitment" where
  "DecodeCommitment encoded c =
     (case decode_fields 8 encoded of
        None \<Rightarrow> (refuse ''encoded commitment must contain 8 colon-delimited fields'', c)
      | Some (f, rest) \<Rightarrow>
          if rest \<noteq> [] then (refuse ''encoded commitment has trailing fields'', c)
          else if f ! 0 \<noteq> ''DRACHMA'' \<and> f ! 0 \<noteq> ''OBOLOS''
            then (refuse ''unsupported source_chain in encoded commitment'', c)
          else
            let c = c\<lparr>cm_source_chain := if f ! 0 = ''DRACHMA'' then CHAIN_DRACHMA else CHAIN_OBOLOS\<rparr> in
            (case stoull (f ! 1) of
               None \<Rightarrow> (refuse ''epoch and finalized_height must be unsigned integers'', c)
             | Some e \<Rightarrow>
                 let c = c\<lparr>cm_epoch := e\<rparr> in
                 (case stoull (f ! 2) of
                    None \<Rightarrow> (refuse ''epoch and finalized_height must be unsigned integers'', c)
                  | Some h \<Rightarrow>
                      let (err, sigs) = decode_signatures (f ! 7) [];
                          c = c\<lparr>cm_finalized_height := h, cm_block_hash := f ! 3, cm_state_root := f ! 4,
                                cm_validator_set_hash := f ! 5, cm_upstream_hash := f ! 6, cm_signatures := sigs\<rparr> in
                      (case err of Some e \<Rightarrow> (refuse e, c) | None \<Rightarrow> (ValidatePayloadEncoding c, c)))))"

subsection \<open>The encoding reads back\<close>

lemma split_at_append [simp]:
  assumes "c \<notin> set a"
  shows "split_at c (a @ c # b) = Some (a, b)"
proof -
  have "\<forall>x \<in> set a. x \<noteq> c" using assms by auto
  then show ?thesis by (simp add: split_at_def dropWhile_append2 takeWhile_append2)
qed

lemma split_at_absent [simp]:
  assumes "c \<notin> set a"
  shows "split_at c a = None"
proof -
  have "\<forall>x \<in> set a. x \<noteq> c" using assms by auto
  then have d: "dropWhile (\<lambda>x. x \<noteq> c) a = []" by simp
  show ?thesis unfolding split_at_def d by simp
qed

lemma is_digit_digit: "n < 10 \<Longrightarrow> is_digit (digit n)"
  by (simp add: is_digit_def of_char_digit)

lemma dec_digits: "list_all is_digit (dec n)"
  by (induction n rule: dec.induct) (subst dec.simps, simp add: is_digit_digit)

lemma not_digits: "\<not> is_digit CHR '':''" "\<not> is_digit CHR ''|''" "\<not> is_digit CHR '',''" "\<not> is_digit CHR ''-''" "\<not> is_digit CHR ''+''"
  by (simp_all add: is_digit_def)

lemma digit_no_space: "is_digit c \<Longrightarrow> \<not> is_space c"
  by (auto simp: is_digit_def is_space_def)

lemma dec_no_separator [simp]: "CHR '':'' \<notin> set (dec n)" "CHR ''|'' \<notin> set (dec n)" "CHR '','' \<notin> set (dec n)"
  using dec_digits [of n] not_digits by (auto simp: list_all_iff)

lemma stoull_dec [simp]: "stoull (dec (unat v)) = Some v"
proof -
  obtain d ds where d: "dec (unat v) = d # ds" using dec_nonempty [of "unat v"] by (cases "dec (unat v)") auto
  then have all: "list_all is_digit (d # ds)" using dec_digits [of "unat v"] by simp
  then have t: "takeWhile is_digit (d # ds) = d # ds" by (simp add: list_all_iff takeWhile_eq_all_conv)
  have c: "\<not> is_space d" "d \<noteq> CHR ''-''" "d \<noteq> CHR ''+''" using all digit_no_space not_digits by auto
  have "parse_dec 0 (d # ds) = Some (unat v)" using parse_dec_dec [of "unat v"] d by simp
  then show ?thesis
    using unat64_lt [of v] c unfolding stoull_def d Let_def by (simp add: t del: parse_dec.simps takeWhile.simps)
qed

text \<open>The parts must not contain the separators; a signature may contain bars.\<close>

definition clean :: "char list \<Rightarrow> string \<Rightarrow> bool" where
  "clean separators s \<longleftrightarrow> list_all (\<lambda>c. c \<notin> set separators) s"

definition encodable :: "Commitment \<Rightarrow> bool" where
  "encodable c \<longleftrightarrow> clean '':'' (cm_block_hash c) \<and> clean '':'' (cm_state_root c) \<and> clean '':'' (cm_validator_set_hash c)
     \<and> clean '':'' (cm_upstream_hash c)
     \<and> list_all (\<lambda>s. clean '':|,'' (fs_validator_id s) \<and> clean '':,'' (fs_signature s)) (cm_signatures c)"

lemma clean_notin: "clean cs s \<Longrightarrow> c \<in> set cs \<Longrightarrow> c \<notin> set s"
  by (auto simp: clean_def list_all_iff)

lemma decode_tuple_encode:
  assumes "clean '':|,'' (fs_validator_id s)"
  shows "push_item (encode_signature s) sigs = Inr (sigs @ [s])"
  using clean_notin [OF assms, of "CHR ''|''"]
  by (simp add: push_item_def encode_signature_def decode_tuple_def)

lemma encode_signature_clean:
  assumes "clean '':|,'' (fs_validator_id s)" and "clean '':,'' (fs_signature s)"
  shows "CHR '','' \<notin> set (encode_signature s)" "CHR '':'' \<notin> set (encode_signature s)"
  using clean_notin [OF assms(1)] clean_notin [OF assms(2)] by (simp_all add: encode_signature_def)

lemma decode_signatures_encode:
  assumes "list_all (\<lambda>s. clean '':|,'' (fs_validator_id s) \<and> clean '':,'' (fs_signature s)) ss"
  shows "decode_signatures (encode_signatures ss) sigs = (None, sigs @ ss)"
  using assms
proof (induction ss arbitrary: sigs rule: encode_signatures.induct)
  case 1
  show ?case by (subst decode_signatures.simps) (simp add: push_item_def)
next
  case (2 s)
  then show ?case
    by (subst decode_signatures.simps) (simp add: encode_signature_clean(1) decode_tuple_encode)
next
  case (3 s t ss)
  then show ?case
    by (subst decode_signatures.simps) (simp add: encode_signature_clean(1) decode_tuple_encode)
qed

lemma encode_signatures_clean:
  "list_all (\<lambda>s. clean '':|,'' (fs_validator_id s) \<and> clean '':,'' (fs_signature s)) ss \<Longrightarrow> CHR '':'' \<notin> set (encode_signatures ss)"
  by (induction ss rule: encode_signatures.induct) (simp_all add: encode_signature_clean)

text \<open>
  A commitment whose parts contain no separators is read back from its text encoding unchanged, whatever the target held
  before, and the answer is that of the encoding rules.
\<close>

theorem commitment_roundtrip:
  assumes "encodable c"
  shows "DecodeCommitment (EncodeCommitment c) c0 = (ValidatePayloadEncoding c, c)"
proof -
  let ?fields = "[SourceChainName (cm_source_chain c), dec (unat (cm_epoch c)), dec (unat (cm_finalized_height c)), cm_block_hash c,
    cm_state_root c, cm_validator_set_hash c, cm_upstream_hash c, encode_signatures (cm_signatures c)]"
  have clean: "CHR '':'' \<notin> set (cm_block_hash c)" "CHR '':'' \<notin> set (cm_state_root c)" "CHR '':'' \<notin> set (cm_validator_set_hash c)"
    "CHR '':'' \<notin> set (cm_upstream_hash c)"
    using assms clean_notin [of "'':''" _ "CHR '':''"] by (simp_all add: encodable_def)
  have "CHR '':'' \<notin> set (SourceChainName (cm_source_chain c))"
    by (cases "cm_source_chain c") (simp_all add: SourceChainName_def)
  moreover have "CHR '':'' \<notin> set (encode_signatures (cm_signatures c))"
    using assms encode_signatures_clean by (simp add: encodable_def)
  ultimately have f: "decode_fields 8 (EncodeCommitment c) = Some (?fields, [])"
    using clean by (simp add: EncodeCommitment_def eval_nat_numeral)
  have sigs: "decode_signatures (encode_signatures (cm_signatures c)) [] = (None, cm_signatures c)"
    using assms decode_signatures_encode [of "cm_signatures c" "[]"] by (simp add: encodable_def)
  show ?thesis
    unfolding DecodeCommitment_def f
    by (cases c; cases c0; cases "cm_source_chain c") (use sigs in \<open>simp_all add: SourceChainName_def Let_def eval_nat_numeral\<close>)
qed

text \<open>The reader is more liberal than the writer: a minus sign in front of the epoch is accepted and wraps.\<close>

lemma negative_numbers_accepted: "stoull ''-1'' = Some UINT64_MAX" "stoull '' 7x'' = Some 7"
  by (simp_all add: stoull_def is_space_def is_digit_def Let_def)

subsection \<open>The quorum\<close>

text \<open>
  The finality quorum is exactly two thirds of the active stake, as long as that stake is below half of the 64-bit range.
\<close>

theorem quorum_is_two_thirds:
  assumes "unat active_stake < 2 ^ 63"
  shows "vr_valid (ValidateFinalityQuorum c active_stake 2 3)
    \<longleftrightarrow> 0 < active_stake \<and> 2 * unat active_stake \<le> 3 * unat (SignedStakeWeight c)"
proof -
  define w where "w = SignedStakeWeight c"
  have r: "unat (saturating_mul active_stake 2) = unat active_stake * 2"
    using assms by (subst saturating_exact) simp_all
  have "saturating_mul w 3 < saturating_mul active_stake 2 \<longleftrightarrow> unat w * 3 < unat active_stake * 2"
  proof (cases "unat w * 3 < 2 ^ 64")
    case True
    then have "unat (saturating_mul w 3) = unat w * 3" by (subst saturating_exact) simp_all
    then show ?thesis by (simp add: word_less_nat_alt r)
  next
    case False
    then have "\<not> w \<le> UINT64_MAX div 3" by (simp add: word_le_nat_alt unat_div)
    then have "saturating_mul w 3 = UINT64_MAX" by (simp add: saturating_mul_def)
    then show ?thesis using False assms by (simp add: word_less_nat_alt r)
  qed
  then show ?thesis
    by (auto simp: ValidateFinalityQuorum_def w_def [symmetric] word_gt_0 not_less mult.commute)
qed

text \<open>Above it both products saturate, and a third of the stake is enough.\<close>

lemma quorum_third_suffices:
  assumes "2 ^ 63 \<le> unat active_stake" and "unat UINT64_MAX div 3 < unat (SignedStakeWeight c)"
  shows "vr_valid (ValidateFinalityQuorum c active_stake 2 3)"
proof -
  have "\<not> SignedStakeWeight c \<le> UINT64_MAX div 3" using assms(2) by (simp add: word_le_nat_alt unat_div)
  then have "saturating_mul (SignedStakeWeight c) 3 = UINT64_MAX" by (simp add: saturating_mul_def)
  moreover have "active_stake \<noteq> 0" using assms(1) by auto
  moreover have "\<not> UINT64_MAX < saturating_mul active_stake 2" by (simp add: word_less_nat_alt unat64_le not_less)
  ultimately show ?thesis by (simp add: ValidateFinalityQuorum_def)
qed

text \<open>
  The stake in a signature is what the commitment itself claims, and nothing checks the signature or the validator: replacing
  the signatures of a well-formed commitment by a single invented one, with the largest stake, gives a commitment
  that layer 1 accepts whatever the active stake.
\<close>

theorem one_signature_forges_quorum:
  assumes "vr_valid (ValidatePayloadEncoding c)" and "cm_source_chain c = CHAIN_DRACHMA"
    and "last_height < cm_finalized_height c" and "active_stake \<noteq> 0" and "who \<noteq> []" and "sig \<noteq> []"
  shows "vr_valid (ValidateL2Commit
    (c\<lparr>cm_signatures := [\<lparr>fs_validator_id = who, fs_stake = UINT64_MAX, fs_signature = sig\<rparr>]\<rparr>) last_height active_stake)"
proof -
  let ?c = "c\<lparr>cm_signatures := [\<lparr>fs_validator_id = who, fs_stake = UINT64_MAX, fs_signature = sig\<rparr>]\<rparr>"
  have e: "vr_valid (ValidatePayloadEncoding ?c)"
    using assms(1,5,6) by (auto simp: ValidatePayloadEncoding_def split: if_splits)
  have "SignedStakeWeight ?c = UINT64_MAX" by (simp add: SignedStakeWeight_def)
  then have "saturating_mul (SignedStakeWeight ?c) 3 = UINT64_MAX" by (simp add: saturating_mul_def)
  moreover have "\<not> UINT64_MAX < saturating_mul active_stake 2" by (simp add: word_less_nat_alt unat64_le not_less)
  ultimately have "vr_valid (ValidateFinalityQuorum ?c active_stake 2 3)"
    using assms(4) by (simp add: ValidateFinalityQuorum_def)
  then show ?thesis using e assms(2,3) by (simp add: ValidateL2Commit_def not_le)
qed

subsection \<open>Proposers\<close>

lemma picked:
  assumes "unat cursor < nsum (map vd_stake vs)"
  shows "\<exists>i < length vs. pick_proposer cursor vs d = vs ! i \<and> nsum (map vd_stake (take i vs)) \<le> unat cursor
    \<and> unat cursor < nsum (map vd_stake (take (Suc i) vs))"
  using assms
proof (induction vs arbitrary: cursor)
  case (Cons v vs)
  show ?case
  proof (cases "cursor < vd_stake v")
    case True
    then show ?thesis by (intro exI [of _ 0]) (simp add: word_less_nat_alt)
  next
    case False
    then have u: "unat (cursor - vd_stake v) = unat cursor - unat (vd_stake v)" "unat (vd_stake v) \<le> unat cursor"
      by (simp_all add: unat_sub not_less word_le_nat_alt)
    then have "unat (cursor - vd_stake v) < nsum (map vd_stake vs)" using Cons.prems by simp
    from Cons.IH [OF this] obtain i where "i < length vs" "pick_proposer (cursor - vd_stake v) vs d = vs ! i"
      "nsum (map vd_stake (take i vs)) \<le> unat (cursor - vd_stake v)"
      "unat (cursor - vd_stake v) < nsum (map vd_stake (take (Suc i) vs))" by blast
    then show ?thesis using False u by (intro exI [of _ "Suc i"]) (simp, intro conjI; linarith)
  qed
qed simp

text \<open>
  The proposer is chosen in proportion to stake: it is the validator whose share of the cumulative stake holds the slot number modulo
  the total, so each validator is chosen for as many of the residues as it has stake, and one without stake never.
\<close>

theorem proposer_is_stake_weighted:
  assumes "nsum (map vd_stake vs) < 2 ^ 64" and "0 < nsum (map vd_stake vs)"
  shows "\<exists>i < length vs. SelectDeterministicProposer vs epoch height = Inr (vs ! i)
    \<and> nsum (map vd_stake (take i vs)) \<le> unat (proposer_slot epoch height) mod nsum (map vd_stake vs)
    \<and> unat (proposer_slot epoch height) mod nsum (map vd_stake vs) < nsum (map vd_stake (take i vs)) + unat (vd_stake (vs ! i))"
proof -
  have t: "unat (TotalActiveStake vs) = nsum (map vd_stake vs)"
    using assms(1) unat_wsum_exact by (simp add: TotalActiveStake_def)
  then have "TotalActiveStake vs \<noteq> 0" "vs \<noteq> []" using assms(2) by auto
  then have s: "SelectDeterministicProposer vs epoch height
      = Inr (pick_proposer (proposer_slot epoch height mod TotalActiveStake vs) vs (last vs))"
    by (simp add: SelectDeterministicProposer_def)
  have c: "unat (proposer_slot epoch height mod TotalActiveStake vs) = unat (proposer_slot epoch height) mod nsum (map vd_stake vs)"
    by (simp add: unat_mod t)
  obtain i where "i < length vs" "pick_proposer (proposer_slot epoch height mod TotalActiveStake vs) vs (last vs) = vs ! i"
    "nsum (map vd_stake (take i vs)) \<le> unat (proposer_slot epoch height mod TotalActiveStake vs)"
    "unat (proposer_slot epoch height mod TotalActiveStake vs) < nsum (map vd_stake (take (Suc i) vs))"
    using picked [of "proposer_slot epoch height mod TotalActiveStake vs" vs "last vs"] assms(2) c by auto
  then show ?thesis using s c by (intro exI [of _ i]) (simp add: take_Suc_conv_app_nth)
qed

text \<open>Slashing takes five or ten percent; the product wraps for a stake above a thousandth of the 64-bit range.\<close>

lemma slashing_exact:
  assumes "unat (vd_stake v) * 1000 < 2 ^ 64" and "ApplySlashing v why = Inr (ev, v')"
  shows "unat (se_slashed_amount ev) = unat (vd_stake v) * (if why = ''double_sign'' then 500 else 1000) div 10000
    \<and> unat (vd_stake v') + unat (se_slashed_amount ev) = unat (vd_stake v)"
proof -
  define bips :: u64 where "bips = (if why = ''double_sign'' then 500 else 1000)"
  have "unat (vd_stake v) * unat bips \<le> unat (vd_stake v) * 1000" by (simp add: bips_def)
  then have "unat (vd_stake v) * unat bips < 2 ^ 64" using assms(1) by linarith
  then have a: "unat (vd_stake v * bips div 10000) = unat (vd_stake v) * unat bips div 10000"
    by (simp add: unat_div unat_mult_lt)
  have b: "unat bips = (if why = ''double_sign'' then 500 else 1000)" by (simp add: bips_def)
  have ev: "se_slashed_amount ev = vd_stake v * bips div 10000" "vd_stake v' = vd_stake v - vd_stake v * bips div 10000"
    using assms(2) by (auto simp: ApplySlashing_def Let_def bips_def split: if_splits)
  have "unat (vd_stake v) * unat bips div 10000 \<le> unat (vd_stake v)" by (simp add: b)
  then have "vd_stake v * bips div 10000 \<le> vd_stake v" by (simp add: word_le_nat_alt a)
  then show ?thesis by (simp add: ev unat_sub a b word_le_nat_alt)
qed

lemma slashing_wraps:
  "ApplySlashing \<lparr>vd_id = who, vd_stake = 2 ^ 62\<rparr> ''double_sign''
    = Inr (\<lparr>se_validator_id = who, se_reason = ''double_sign'', se_slashed_amount = 0\<rparr>, \<lparr>vd_id = who, vd_stake = 2 ^ 62\<rparr>)"
  by (simp add: ApplySlashing_def)

subsection \<open>Samples\<close>

definition sample_commitment :: Commitment where
  "sample_commitment =
     \<lparr>cm_source_chain = CHAIN_DRACHMA, cm_epoch = 3, cm_finalized_height = 42, cm_block_hash = replicate 64 (CHR ''a''),
      cm_state_root = replicate 64 (CHR ''0''), cm_validator_set_hash = replicate 64 (CHR ''F''),
      cm_upstream_hash = replicate 64 (CHR ''7''),
      cm_signatures = [\<lparr>fs_validator_id = ''v1'', fs_stake = 60, fs_signature = ''s1''\<rparr>,
                       \<lparr>fs_validator_id = ''v2'', fs_stake = 10, fs_signature = ''s|2''\<rparr>]\<rparr>"

lemma sample_commitment_valid: "vr_valid (ValidatePayloadEncoding sample_commitment)"
  by code_simp

theorem commitment_roundtrip_witness:
  "vr_valid (fst (DecodeCommitment (EncodeCommitment sample_commitment) sample_commitment))"
proof -
  have "clean cs (replicate 64 c)" if "c \<notin> set cs" for cs c
    using that by (simp add: clean_def list_all_iff)
  then have "encodable sample_commitment"
    unfolding encodable_def sample_commitment_def by (simp) (simp add: clean_def)
  from commitment_roundtrip [OF this, of sample_commitment] show ?thesis
    using sample_commitment_valid by (simp only: fst_conv)
qed

theorem quorum_is_two_thirds_witness:
  "vr_valid (ValidateFinalityQuorum sample_commitment 105 2 3) \<and> \<not> vr_valid (ValidateFinalityQuorum sample_commitment 106 2 3)"
proof -
  have w: "SignedStakeWeight sample_commitment = 70" by code_simp
  show ?thesis
    using quorum_is_two_thirds [of 105 sample_commitment] quorum_is_two_thirds [of 106 sample_commitment] by (simp add: w)
qed

theorem one_signature_forges_quorum_witness:
  "vr_valid (ValidateL2Commit (sample_commitment\<lparr>cm_signatures :=
     [\<lparr>fs_validator_id = ''nobody'', fs_stake = UINT64_MAX, fs_signature = ''x''\<rparr>]\<rparr>) 41 1000000)"
  by (rule one_signature_forges_quorum) (simp_all add: sample_commitment_valid, simp_all add: sample_commitment_def)

definition two_validators :: "Validator list" where
  "two_validators = [\<lparr>vd_id = ''a'', vd_stake = 3\<rparr>, \<lparr>vd_id = ''b'', vd_stake = 4\<rparr>]"

theorem proposer_is_stake_weighted_witness:
  "SelectDeterministicProposer two_validators 0 11 = Inr \<lparr>vd_id = ''b'', vd_stake = 4\<rparr>"
proof -
  have n: "nsum (map vd_stake two_validators) = 7" "length two_validators = 2" by (simp_all add: two_validators_def)
  obtain i where i: "i < 2" "SelectDeterministicProposer two_validators 0 11 = Inr (two_validators ! i)"
    "unat (proposer_slot 0 11) mod 7 < nsum (map vd_stake (take i two_validators)) + unat (vd_stake (two_validators ! i))"
    using proposer_is_stake_weighted [of two_validators 0 11] unfolding n by auto
  have "unat (proposer_slot 0 11) mod 7 = 4" by (simp add: proposer_slot_def)
  then have "i \<noteq> 0" using i(3) by (cases "i = 0") (simp_all add: two_validators_def)
  then show ?thesis using i(1,2) by (simp add: two_validators_def less_2_cases_iff)
qed

end
