(* ===== verification/Dex.thy ===== *)
theory Dex
  imports Amount Asset Sha256 StdMap "HOL-Library.Product_Lexorder"
begin

section \<open>The exchange: order book and market maker\<close>

text \<open>
  Models \<open>layer2-drachma/dex/dex.cpp\<close>: the order book with price and time priority, the constant-product market maker over
  the static map of pools, and the manager. The clock is an argument. \<open>front()\<close> of an empty level is undefined
  behaviour, so matching returns an option; the invariant of the book excludes it. The price of a pool as a
  \<open>double\<close> is not modelled.
\<close>

datatype OrderType = LIMIT_BUY | LIMIT_SELL | MARKET_BUY | MARKET_SELL

datatype OrderStatus = ORDER_PENDING | ORDER_PARTIAL | ORDER_FILLED | ORDER_CANCELLED

record Order =
  order_id :: bytes
  trader_pubkey :: bytes
  base_asset :: AssetID
  quote_asset :: AssetID
  order_type :: OrderType
  order_status :: OrderStatus
  price :: u64
  order_amount :: u64
  filled_amount :: u64
  order_timestamp :: u64
  order_signature :: bytes

record Trade =
  trade_id :: bytes
  buy_order_id :: bytes
  sell_order_id :: bytes
  trade_base :: AssetID
  trade_quote :: AssetID
  trade_price :: u64
  trade_amount :: u64
  trade_timestamp :: u64
  buyer_pubkey :: bytes
  seller_pubkey :: bytes

type_synonym BookSide = "(u64 \<times> Order list) list"

record OrderBook =
  book_base :: AssetID
  book_quote :: AssetID
  buy_orders :: BookSide
  sell_orders :: BookSide
  orders_by_id :: "(bytes \<times> Order) list"

definition OrderBook_init :: "AssetID \<Rightarrow> AssetID \<Rightarrow> OrderBook" where
  "OrderBook_init base quot = \<lparr>book_base = base, book_quote = quot, buy_orders = [], sell_orders = [], orders_by_id = []\<rparr>"

subsection \<open>Orders\<close>

definition ValidateOrder :: "OrderBook \<Rightarrow> Order \<Rightarrow> bool" where
  "ValidateOrder b o1 =
     (if order_amount o1 = 0 \<or> price o1 = 0 then False
      else if base_asset o1 \<noteq> book_base b \<or> quote_asset o1 \<noteq> book_quote b then False
      else True)"

definition order_digest :: "Order \<Rightarrow> bytes" where
  "order_digest o1 = Hash256 (le64 (order_amount o1) @ le64 (price o1) @ le64 (order_timestamp o1) @ trader_pubkey o1)"

text \<open>\<open>levels[price].push_back(order)\<close>\<close>

definition push_order :: "Order \<Rightarrow> BookSide \<Rightarrow> BookSide" where
  "push_order o1 side = map_put (price o1) ((case map_of side (price o1) of None \<Rightarrow> [] | Some os \<Rightarrow> os) @ [o1]) side"

definition PlaceOrder :: "u64 \<Rightarrow> OrderBook \<Rightarrow> Order \<Rightarrow> bytes \<times> OrderBook" where
  "PlaceOrder now b o1 =
     (if \<not> ValidateOrder b o1 then ([], b)
      else
        let new_order = o1\<lparr>order_id := order_digest o1, order_status := ORDER_PENDING, filled_amount := 0, order_timestamp := now\<rparr>;
            b = b\<lparr>orders_by_id := map_put (order_id new_order) new_order (orders_by_id b)\<rparr>;
            b = (if order_type new_order = LIMIT_BUY then b\<lparr>buy_orders := push_order new_order (buy_orders b)\<rparr>
                 else if order_type new_order = LIMIT_SELL then b\<lparr>sell_orders := push_order new_order (sell_orders b)\<rparr>
                 else b) in
        (order_id new_order, b))"

definition RemoveOrder :: "bytes \<Rightarrow> OrderBook \<Rightarrow> OrderBook" where
  "RemoveOrder i b = b\<lparr>orders_by_id := map_erase i (orders_by_id b)\<rparr>"

definition CancelOrder :: "OrderBook \<Rightarrow> bytes \<Rightarrow> bytes \<Rightarrow> bool \<times> OrderBook" where
  "CancelOrder b i who =
     (case map_of (orders_by_id b) i of
        None \<Rightarrow> (False, b)
      | Some o1 \<Rightarrow>
          if trader_pubkey o1 \<noteq> who then (False, b)
          else (True, RemoveOrder i (b\<lparr>orders_by_id := map_put i (o1\<lparr>order_status := ORDER_CANCELLED\<rparr>) (orders_by_id b)\<rparr>)))"

subsection \<open>Matching\<close>

definition unfilled :: "Order \<Rightarrow> u64" where
  "unfilled o1 = order_amount o1 - filled_amount o1"

text \<open>The front order of a level after a trade: gone when it is filled.\<close>

definition fill_front :: "u64 \<Rightarrow> Order \<Rightarrow> Order list \<Rightarrow> Order list" where
  "fill_front amount o1 rest =
     (if filled_amount o1 + amount = order_amount o1 then rest
      else o1\<lparr>filled_amount := filled_amount o1 + amount\<rparr> # rest)"

text \<open>A level that became empty is erased from the map.\<close>

definition level :: "u64 \<Rightarrow> Order list \<Rightarrow> BookSide" where
  "level p os = (if os = [] then [] else [(p, os)])"

definition make_trade :: "u64 \<Rightarrow> OrderBook \<Rightarrow> Order \<Rightarrow> Order \<Rightarrow> Trade" where
  "make_trade now b buy sell =
     (let amount = min (unfilled buy) (unfilled sell) in
      \<lparr>trade_id = Hash256 (le64 amount @ le64 (price sell)), buy_order_id = order_id buy, sell_order_id = order_id sell,
       trade_base = book_base b, trade_quote = book_quote b, trade_price = price sell, trade_amount = amount,
       trade_timestamp = now, buyer_pubkey = trader_pubkey buy, seller_pubkey = trader_pubkey sell\<rparr>)"

definition order_count :: "BookSide \<Rightarrow> nat" where
  "order_count side = sum_list (map (\<lambda>(p, os). length os) side)"

lemma order_count_simps [simp]:
  "order_count [] = 0" "order_count ((p, os) # side) = length os + order_count side"
  "order_count (side @ side') = order_count side + order_count side'" "order_count (level p os) = length os"
  by (simp_all add: order_count_def level_def)

lemma fill_filled: "filled_amount o1 + unfilled o1 = order_amount o1"
  by (simp add: unfilled_def)

lemma fill_front_length:
  "length (fill_front a o1 rest) \<le> Suc (length rest)" "length (fill_front (unfilled o1) o1 rest) = length rest"
  by (simp_all add: fill_front_def fill_filled)

definition after_trade :: "Trade \<Rightarrow> Order \<Rightarrow> Order list \<Rightarrow> Order \<Rightarrow> Order list \<Rightarrow> OrderBook \<Rightarrow> OrderBook" where
  "after_trade trade buy bids sell asks b =
     b\<lparr>buy_orders := butlast (buy_orders b) @ level (fst (last (buy_orders b))) (fill_front (trade_amount trade) buy bids),
       sell_orders := level (fst (hd (sell_orders b))) (fill_front (trade_amount trade) sell asks) @ tl (sell_orders b)\<rparr>"

text \<open>The best bid is the last level of the buy side, the best ask the first of the sell side.\<close>

function match_loop :: "u64 \<Rightarrow> OrderBook \<Rightarrow> Trade list \<Rightarrow> (Trade list \<times> OrderBook) option" where
  "match_loop now b trades =
     (if buy_orders b = [] \<or> sell_orders b = [] then Some (trades, b)
      else if fst (last (buy_orders b)) < fst (hd (sell_orders b)) then Some (trades, b)
      else case (snd (last (buy_orders b)), snd (hd (sell_orders b))) of
        (buy # bids, sell # asks) \<Rightarrow>
          let trade = make_trade now b buy sell in
          match_loop now (after_trade trade buy bids sell asks b) (trades @ [trade])
      | _ \<Rightarrow> None)"
  by pat_completeness auto

lemma side_split: "side \<noteq> [] \<Longrightarrow> snd (last side) = o1 # os \<Longrightarrow> order_count side = order_count (butlast side) + Suc (length os)"
  by (cases side rule: rev_cases) (auto simp: split_paired_all)

lemma side_split_hd: "side \<noteq> [] \<Longrightarrow> snd (hd side) = o1 # os \<Longrightarrow> order_count side = order_count (tl side) + Suc (length os)"
  by (cases side) (auto simp: split_paired_all)

lemma trade_fills: "trade_amount (make_trade now b buy sell) \<in> {unfilled buy, unfilled sell}"
  by (auto simp: make_trade_def Let_def min_def)

lemma fewer_orders:
  fixes now :: u64
  assumes "buy_orders b \<noteq> []" and "sell_orders b \<noteq> []"
    and "snd (last (buy_orders b)) = buy # bids" and "snd (hd (sell_orders b)) = sell # asks"
    and "b1 = after_trade (make_trade now b buy sell) buy bids sell asks b"
  shows "order_count (buy_orders b1) + order_count (sell_orders b1) < order_count (buy_orders b) + order_count (sell_orders b)"
  using side_split [OF assms(1,3)] side_split_hd [OF assms(2,4)] trade_fills [of now b buy sell]
    fill_front_length(1) [of "trade_amount (make_trade now b buy sell)" buy bids]
    fill_front_length(1) [of "trade_amount (make_trade now b buy sell)" sell asks]
  by (auto simp: assms(5) after_trade_def fill_front_length(2))

termination match_loop
  by (relation "measure (\<lambda>(now, b, trades). order_count (buy_orders b) + order_count (sell_orders b))")
    (auto intro: fewer_orders dest: sym)

declare match_loop.simps [simp del]

lemma match_step:
  assumes "buy_orders b \<noteq> []" and "sell_orders b \<noteq> []" and "\<not> fst (last (buy_orders b)) < fst (hd (sell_orders b))"
    and "snd (last (buy_orders b)) = buy # bids" and "snd (hd (sell_orders b)) = sell # asks"
  shows "match_loop now b trades =
    match_loop now (after_trade (make_trade now b buy sell) buy bids sell asks b) (trades @ [make_trade now b buy sell])"
  using assms by (subst match_loop.simps) (simp add: Let_def)

definition MatchOrders :: "u64 \<Rightarrow> OrderBook \<Rightarrow> (Trade list \<times> OrderBook) option" where
  "MatchOrders now b = match_loop now b []"

subsection \<open>Queries\<close>

definition GetBestBid :: "OrderBook \<Rightarrow> Order option" where
  "GetBestBid b = (if buy_orders b = [] then None else Some (hd (snd (last (buy_orders b)))))"

definition GetBestAsk :: "OrderBook \<Rightarrow> Order option" where
  "GetBestAsk b = (if sell_orders b = [] then None else Some (hd (snd (hd (sell_orders b)))))"

fun level_total :: "u64 \<Rightarrow> Order list \<Rightarrow> u64" where
  "level_total total_amount [] = total_amount"
| "level_total total_amount (o1 # os) =
     (if total_amount > UINT64_MAX - unfilled o1 then UINT64_MAX else level_total (total_amount + unfilled o1) os)"

definition GetDepth :: "OrderBook \<Rightarrow> nat \<Rightarrow> (u64 \<times> u64) list \<times> (u64 \<times> u64) list" where
  "GetDepth b levels =
     (map (\<lambda>(p, os). (p, level_total 0 os)) (take levels (rev (buy_orders b))),
      map (\<lambda>(p, os). (p, level_total 0 os)) (take levels (sell_orders b)))"

definition GetOrder :: "OrderBook \<Rightarrow> bytes \<Rightarrow> Order option" where
  "GetOrder b i = map_of (orders_by_id b) i"

subsection \<open>The market maker\<close>

record LiquidityPool =
  pool_id :: bytes
  asset_a :: AssetID
  asset_b :: AssetID
  reserve_a :: u64
  reserve_b :: u64
  total_shares :: u64
  pool_shares :: "(bytes \<times> u64) list"
  fee_rate :: u64

type_synonym Pools = "(bytes \<times> LiquidityPool) list"

text \<open>\<open>shares[provider]\<close>: the operator inserts a 0.\<close>

definition shares_of :: "LiquidityPool \<Rightarrow> bytes \<Rightarrow> u64" where
  "shares_of p who = (case map_of (pool_shares p) who of None \<Rightarrow> 0 | Some n \<Rightarrow> n)"

definition put_shares :: "bytes \<Rightarrow> u64 \<Rightarrow> LiquidityPool \<Rightarrow> LiquidityPool" where
  "put_shares who n p = p\<lparr>pool_shares := map_put who n (pool_shares p)\<rparr>"

definition capped_mul :: "u64 \<Rightarrow> u64 \<Rightarrow> u64" where
  "capped_mul a b = (if a > 0 \<and> b > UINT64_MAX div a then UINT64_MAX else a * b)"

definition CreatePool :: "Pools \<Rightarrow> AssetID \<Rightarrow> AssetID \<Rightarrow> u64 \<Rightarrow> u64 \<Rightarrow> u64 \<Rightarrow> bytes \<times> Pools" where
  "CreatePool pools a b initial_a initial_b fee =
     (let i = Hash256 [a, b];
          pool = \<lparr>pool_id = i, asset_a = a, asset_b = b, reserve_a = initial_a, reserve_b = initial_b,
                  total_shares = capped_mul initial_a initial_b, pool_shares = [], fee_rate = fee\<rparr> in
      (i, map_put i pool pools))"

definition share_part :: "u64 \<Rightarrow> u64 \<Rightarrow> u64 \<Rightarrow> u64" where
  "share_part amount all reserve = (if all > 0 \<and> amount > UINT64_MAX div all then UINT64_MAX else (amount * all) div reserve)"

definition AddLiquidity :: "Pools \<Rightarrow> bytes \<Rightarrow> u64 \<Rightarrow> u64 \<Rightarrow> bytes \<Rightarrow> u64 \<times> Pools" where
  "AddLiquidity pools i amount_a amount_b provider =
     (case map_of pools i of
        None \<Rightarrow> (0, pools)
      | Some p \<Rightarrow>
          if total_shares p \<noteq> 0 \<and> (reserve_a p = 0 \<or> reserve_b p = 0) then (0, pools)
          else
            let shares = (if total_shares p = 0 then capped_mul amount_a amount_b
                          else min (share_part amount_a (total_shares p) (reserve_a p))
                                   (share_part amount_b (total_shares p) (reserve_b p))) in
            if reserve_a p > UINT64_MAX - amount_a \<or> reserve_b p > UINT64_MAX - amount_b
               \<or> total_shares p > UINT64_MAX - shares then (0, pools)
            else
              let p1 = put_shares provider (shares_of p provider + shares)
                         (p\<lparr>reserve_a := reserve_a p + amount_a, reserve_b := reserve_b p + amount_b,
                            total_shares := total_shares p + shares\<rparr>);
                  current_shares = shares_of p1 provider;
                  p2 = put_shares provider (if current_shares > UINT64_MAX - shares then UINT64_MAX else current_shares + shares) p1 in
              (shares, map_put i p2 pools))"

definition safe_amount :: "u64 \<Rightarrow> u64 \<Rightarrow> u64 \<Rightarrow> u64" where
  "safe_amount n_shares reserve all =
     (if reserve = 0 \<or> n_shares = 0 then 0
      else if n_shares \<le> UINT64_MAX div reserve then (n_shares * reserve) div all
      else let per_share = reserve div all in
        if per_share > 0 \<and> n_shares > UINT64_MAX div per_share then reserve else per_share * n_shares)"

definition RemoveLiquidity :: "Pools \<Rightarrow> bytes \<Rightarrow> u64 \<Rightarrow> bytes \<Rightarrow> (u64 \<times> u64) \<times> Pools" where
  "RemoveLiquidity pools i shares provider =
     (case map_of pools i of
        None \<Rightarrow> ((0, 0), pools)
      | Some p \<Rightarrow>
          let p = put_shares provider (shares_of p provider) p; pools = map_put i p pools in
          if shares_of p provider < shares then ((0, 0), pools)
          else if total_shares p = 0 then ((0, 0), pools)
          else
            let amount_a = safe_amount shares (reserve_a p) (total_shares p);
                amount_b = safe_amount shares (reserve_b p) (total_shares p);
                p = put_shares provider (shares_of p provider - shares)
                      (p\<lparr>reserve_a := reserve_a p - amount_a, reserve_b := reserve_b p - amount_b,
                         total_shares := total_shares p - shares\<rparr>) in
            ((amount_a, amount_b), map_put i p pools))"

definition GetOutputAmount :: "u64 \<Rightarrow> u64 \<Rightarrow> u64 \<Rightarrow> u64 \<Rightarrow> u64" where
  "GetOutputAmount input_amount input_reserve output_reserve fee =
     (if fee \<ge> 10000 then 0
      else if input_reserve = 0 \<or> output_reserve = 0 then 0
      else case SafeMath_Mul input_amount (10000 - fee) of
        None \<Rightarrow> 0
      | Some input_with_fee \<Rightarrow>
          (case SafeMath_Mul input_with_fee output_reserve of
             None \<Rightarrow> 0
           | Some numerator \<Rightarrow>
               (case SafeMath_Mul input_reserve 10000 of
                  None \<Rightarrow> 0
                | Some reserve_scaled \<Rightarrow>
                    (case SafeMath_Add reserve_scaled input_with_fee of
                       None \<Rightarrow> 0
                     | Some denominator \<Rightarrow>
                         (case SafeMath_Div numerator denominator of None \<Rightarrow> 0 | Some r \<Rightarrow> r)))))"

definition Pool_Swap :: "Pools \<Rightarrow> bytes \<Rightarrow> AssetID \<Rightarrow> u64 \<Rightarrow> u64 \<Rightarrow> u64 \<times> Pools" where
  "Pool_Swap pools i input_asset input_amount min_output_amount =
     (case map_of pools i of
        None \<Rightarrow> (0, pools)
      | Some p \<Rightarrow>
          let (input_reserve, output_reserve) =
                (if input_asset = asset_a p then (reserve_a p, reserve_b p) else (reserve_b p, reserve_a p));
              output_amount = GetOutputAmount input_amount input_reserve output_reserve (fee_rate p) in
          if output_amount < min_output_amount then (0, pools)
          else
            let p' = (if input_asset = asset_a p
                      then p\<lparr>reserve_a := reserve_a p + input_amount, reserve_b := reserve_b p - output_amount\<rparr>
                      else p\<lparr>reserve_a := reserve_a p - output_amount, reserve_b := reserve_b p + input_amount\<rparr>) in
            (output_amount, map_put i p' pools))"

definition GetPool :: "Pools \<Rightarrow> bytes \<Rightarrow> LiquidityPool option" where
  "GetPool pools i = map_of pools i"

subsection \<open>The manager\<close>

record DEXManager =
  order_books :: "((AssetID \<times> AssetID) \<times> OrderBook) list"
  trade_history :: "Trade list"

definition GetOrderBook :: "DEXManager \<Rightarrow> AssetID \<Rightarrow> AssetID \<Rightarrow> OrderBook \<times> DEXManager" where
  "GetOrderBook d base quot =
     (case map_of (order_books d) (base, quot) of
        Some b \<Rightarrow> (b, d)
      | None \<Rightarrow> (OrderBook_init base quot, d\<lparr>order_books := map_put (base, quot) (OrderBook_init base quot) (order_books d)\<rparr>))"

definition ExecuteMarketOrder :: "u64 \<Rightarrow> DEXManager \<Rightarrow> AssetID \<Rightarrow> AssetID \<Rightarrow> OrderType \<Rightarrow> u64 \<Rightarrow> bytes \<Rightarrow> (Trade list \<times> DEXManager) option" where
  "ExecuteMarketOrder now d base quot ty amount trader =
     (let (b, d) = GetOrderBook d base quot;
          o1 = \<lparr>order_id = [], trader_pubkey = trader, base_asset = base, quote_asset = quot, order_type = ty,
                order_status = ORDER_PENDING, price = (if ty = MARKET_BUY then UINT64_MAX else 0), order_amount = amount,
                filled_amount = 0, order_timestamp = 0, order_signature = []\<rparr>;
          b = snd (PlaceOrder now b o1) in
      case MatchOrders now b of
        None \<Rightarrow> None
      | Some (trades, b') \<Rightarrow> Some (trades, d\<lparr>order_books := map_put (base, quot) b' (order_books d)\<rparr>))"

definition GetTradingPairs :: "DEXManager \<Rightarrow> (AssetID \<times> AssetID) list" where
  "GetTradingPairs d = map fst (order_books d)"

definition GetRecentTrades :: "DEXManager \<Rightarrow> AssetID \<Rightarrow> AssetID \<Rightarrow> nat \<Rightarrow> Trade list" where
  "GetRecentTrades d base quot n = take n (filter (\<lambda>t. trade_base t = base \<and> trade_quote t = quot) (rev (trade_history d)))"

fun volume_loop :: "u64 \<Rightarrow> Trade list \<Rightarrow> u64" where
  "volume_loop volume [] = volume"
| "volume_loop volume (t # ts) =
     (if volume > UINT64_MAX - trade_amount t then UINT64_MAX else volume_loop (volume + trade_amount t) ts)"

definition Get24HVolume :: "u64 \<Rightarrow> DEXManager \<Rightarrow> AssetID \<Rightarrow> AssetID \<Rightarrow> u64" where
  "Get24HVolume now d base quot =
     (let day_ago = (if now \<ge> 86400 then now - 86400 else 0) in
      volume_loop 0 (filter (\<lambda>t. trade_base t = base \<and> trade_quote t = quot \<and> trade_timestamp t \<ge> day_ago) (trade_history d)))"

subsection \<open>The book stays well-formed, and matching uncrosses it\<close>

definition order_ok :: "OrderType \<Rightarrow> u64 \<Rightarrow> Order \<Rightarrow> bool" where
  "order_ok ty p o1 \<longleftrightarrow> price o1 = p \<and> order_type o1 = ty \<and> filled_amount o1 < order_amount o1"

definition side_ok :: "OrderType \<Rightarrow> BookSide \<Rightarrow> bool" where
  "side_ok ty side \<longleftrightarrow> sorted_keys side \<and> (\<forall>(p, os) \<in> set side. os \<noteq> [] \<and> (\<forall>o1 \<in> set os. order_ok ty p o1))"

definition book_ok :: "OrderBook \<Rightarrow> bool" where
  "book_ok b \<longleftrightarrow> side_ok LIMIT_BUY (buy_orders b) \<and> side_ok LIMIT_SELL (sell_orders b)"

definition uncrossed :: "OrderBook \<Rightarrow> bool" where
  "uncrossed b \<longleftrightarrow> (\<forall>(bid, os) \<in> set (buy_orders b). \<forall>(ask, os') \<in> set (sell_orders b). bid < ask)"

definition open_amount :: "BookSide \<Rightarrow> nat" where
  "open_amount side = sum_list (map (\<lambda>(p, os). sum_list (map (\<lambda>o1. unat (unfilled o1)) os)) side)"

definition order_keys :: "BookSide \<Rightarrow> (bytes \<times> bytes \<times> u64) set" where
  "order_keys side = (\<Union>(p, os) \<in> set side. (\<lambda>o1. (order_id o1, trader_pubkey o1, price o1)) ` set os)"

text \<open>A trade is between an order of each side, at the seller's price, which the buyer accepted.\<close>

definition trade_ok :: "OrderBook \<Rightarrow> Trade \<Rightarrow> bool" where
  "trade_ok b t \<longleftrightarrow> 0 < trade_amount t
     \<and> (\<exists>limit \<ge> trade_price t. (buy_order_id t, buyer_pubkey t, limit) \<in> order_keys (buy_orders b))
     \<and> (sell_order_id t, seller_pubkey t, trade_price t) \<in> order_keys (sell_orders b)"

lemma side_ok_simps [simp]:
  "side_ok ty []" "side_ok ty ((p, os) # side) \<longleftrightarrow> (\<forall>k \<in> fst ` set side. p < k) \<and> os \<noteq> [] \<and> (\<forall>o1 \<in> set os. order_ok ty p o1) \<and> side_ok ty side"
  by (auto simp: side_ok_def)

lemma sorted_keys_append: "sorted_keys (xs @ ys) \<longleftrightarrow> sorted_keys xs \<and> sorted_keys ys \<and> (\<forall>k \<in> fst ` set xs. \<forall>l \<in> fst ` set ys. k < l)"
  by (auto simp: sorted_keys_def sorted_wrt_append)

lemma side_ok_append: "side_ok ty (xs @ ys) \<longleftrightarrow> side_ok ty xs \<and> side_ok ty ys \<and> (\<forall>k \<in> fst ` set xs. \<forall>l \<in> fst ` set ys. k < l)"
  by (auto simp: side_ok_def sorted_keys_append ball_Un)

lemma side_ok_level [simp]: "side_ok ty (level p os) \<longleftrightarrow> (\<forall>o1 \<in> set os. order_ok ty p o1)"
  by (simp add: level_def)

lemma keys_level: "fst ` set (level p os) \<subseteq> {p}"
  by (simp add: level_def)

lemma open_simps [simp]:
  "open_amount [] = 0" "open_amount ((p, os) # side) = sum_list (map (\<lambda>o1. unat (unfilled o1)) os) + open_amount side"
  "open_amount (xs @ ys) = open_amount xs + open_amount ys" "open_amount (level p os) = sum_list (map (\<lambda>o1. unat (unfilled o1)) os)"
  by (simp_all add: open_amount_def level_def)

lemma order_keys_simps [simp]:
  "order_keys [] = {}" "order_keys ((p, os) # side) = (\<lambda>o1. (order_id o1, trader_pubkey o1, price o1)) ` set os \<union> order_keys side"
  "order_keys (xs @ ys) = order_keys xs \<union> order_keys ys"
  "order_keys (level p os) = (\<lambda>o1. (order_id o1, trader_pubkey o1, price o1)) ` set os"
  by (auto simp: order_keys_def level_def)

lemma unat_unfilled: "order_ok ty p o1 \<Longrightarrow> unat (unfilled o1) = unat (order_amount o1) - unat (filled_amount o1)"
  by (simp add: order_ok_def unfilled_def unat_sub order.strict_implies_order)

lemma unfilled_positive: "order_ok ty p o1 \<Longrightarrow> 0 < unfilled o1"
  using unat_unfilled [of ty p o1] by (simp add: order_ok_def word_less_nat_alt)

lemma fill_front_ok:
  assumes "order_ok ty p o1" and "\<forall>o2 \<in> set rest. order_ok ty p o2" and "a \<le> unfilled o1"
  shows "\<forall>o2 \<in> set (fill_front a o1 rest). order_ok ty p o2"
    "sum_list (map (\<lambda>o1. unat (unfilled o1)) (fill_front a o1 rest)) + unat a
      = unat (unfilled o1) + sum_list (map (\<lambda>o1. unat (unfilled o1)) rest)"
    "(\<lambda>o1. (order_id o1, trader_pubkey o1, price o1)) ` set (fill_front a o1 rest)
      \<subseteq> insert (order_id o1, trader_pubkey o1, price o1) ((\<lambda>o1. (order_id o1, trader_pubkey o1, price o1)) ` set rest)"
proof -
  have u: "unat a \<le> unat (order_amount o1) - unat (filled_amount o1)"
    using assms(3) unat_unfilled [OF assms(1)] by (simp add: word_le_nat_alt)
  have lt: "unat (filled_amount o1) < unat (order_amount o1)" using assms(1) by (simp add: order_ok_def word_less_nat_alt)
  then have sum: "unat (filled_amount o1 + a) = unat (filled_amount o1) + unat a"
    using u unat64_lt [of "order_amount o1"] by (subst unat_add_lt) simp_all
  have part: "unat (filled_amount o1) + unat a < unat (order_amount o1)" if "filled_amount o1 + a \<noteq> order_amount o1"
  proof -
    have "unat (filled_amount o1 + a) \<noteq> unat (order_amount o1)" using that word_unat_eq_iff by blast
    then show ?thesis using u lt sum by simp
  qed
  show "\<forall>o2 \<in> set (fill_front a o1 rest). order_ok ty p o2"
    using assms(1,2) part by (auto simp: fill_front_def order_ok_def word_less_nat_alt sum)
  show "sum_list (map (\<lambda>o1. unat (unfilled o1)) (fill_front a o1 rest)) + unat a
      = unat (unfilled o1) + sum_list (map (\<lambda>o1. unat (unfilled o1)) rest)"
  proof (cases "filled_amount o1 + a = order_amount o1")
    case True
    then have "unfilled o1 = a" unfolding unfilled_def by (metis add_diff_cancel_left')
    then show ?thesis using True by (simp add: fill_front_def)
  next
    case False
    have "unat (order_amount o1 - (filled_amount o1 + a)) = unat (order_amount o1) - (unat (filled_amount o1) + unat a)"
      using part [OF False] sum by (subst unat_sub) (simp_all add: word_le_nat_alt)
    then show ?thesis
      using False part [OF False] unat_unfilled [OF assms(1)] by (simp add: fill_front_def) (simp add: unfilled_def)
  qed
  show "(\<lambda>o1. (order_id o1, trader_pubkey o1, price o1)) ` set (fill_front a o1 rest)
      \<subseteq> insert (order_id o1, trader_pubkey o1, price o1) ((\<lambda>o1. (order_id o1, trader_pubkey o1, price o1)) ` set rest)"
    by (auto simp: fill_front_def)
qed

text \<open>One trade on each side of the book.\<close>

lemma bid_step:
  assumes "side_ok ty side" and "side \<noteq> []" and "snd (last side) = o1 # os" and "a \<le> unfilled o1"
  defines "side' \<equiv> butlast side @ level (fst (last side)) (fill_front a o1 os)"
  shows "side_ok ty side'" "open_amount side' + unat a = open_amount side" "order_keys side' \<subseteq> order_keys side"
    "(order_id o1, trader_pubkey o1, fst (last side)) \<in> order_keys side" "0 < unfilled o1"
proof -
  obtain p where l: "side = butlast side @ [(p, o1 # os)]" using assms(2,3) by (metis append_butlast_last_id prod.collapse)
  then have lp: "fst (last side) = p" by (metis fst_conv last_snoc)
  have ok: "order_ok ty p o1" "\<forall>o2 \<in> set os. order_ok ty p o2" "side_ok ty (butlast side)" "\<forall>k \<in> fst ` set (butlast side). k < p"
    using assms(1) l side_ok_append [of ty "butlast side" "[(p, o1 # os)]"] by auto
  note f = fill_front_ok [OF ok(1,2) assms(4)]
  show "side_ok ty side'" using ok f(1) keys_level [of p "fill_front a o1 os"] by (auto simp: side'_def lp side_ok_append)
  have "open_amount side = open_amount (butlast side @ [(p, o1 # os)])" using l by simp
  then show "open_amount side' + unat a = open_amount side" using f(2) by (simp add: side'_def lp)
  have k: "order_keys side = order_keys (butlast side @ [(p, o1 # os)])" using l by simp
  then show "order_keys side' \<subseteq> order_keys side" using f(3) by (auto simp: side'_def lp)
  show "(order_id o1, trader_pubkey o1, fst (last side)) \<in> order_keys side" using ok(1) unfolding k lp by (auto simp: order_ok_def)
  show "0 < unfilled o1" by (rule unfilled_positive [OF ok(1)])
qed

lemma ask_step:
  assumes "side_ok ty side" and "side \<noteq> []" and "snd (hd side) = o1 # os" and "a \<le> unfilled o1"
  defines "side' \<equiv> level (fst (hd side)) (fill_front a o1 os) @ tl side"
  shows "side_ok ty side'" "open_amount side' + unat a = open_amount side" "order_keys side' \<subseteq> order_keys side"
    "(order_id o1, trader_pubkey o1, price o1) \<in> order_keys side" "price o1 = fst (hd side)" "0 < unfilled o1"
proof -
  obtain p rest where l: "side = (p, o1 # os) # rest" using assms(2,3) by (cases side) auto
  have ok: "order_ok ty p o1" "\<forall>o2 \<in> set os. order_ok ty p o2" "side_ok ty rest" "\<forall>k \<in> fst ` set rest. p < k"
    using assms(1) l by auto
  note f = fill_front_ok [OF ok(1,2) assms(4)]
  show "side_ok ty side'" using ok f(1) keys_level [of p "fill_front a o1 os"] by (auto simp: side'_def l side_ok_append)
  show "open_amount side' + unat a = open_amount side" using f(2) by (simp add: side'_def l)
  show "order_keys side' \<subseteq> order_keys side" using f(3) by (auto simp: side'_def l)
  show "(order_id o1, trader_pubkey o1, price o1) \<in> order_keys side" by (simp add: l)
  show "price o1 = fst (hd side)" using ok(1) by (simp add: l order_ok_def)
  show "0 < unfilled o1" by (rule unfilled_positive [OF ok(1)])
qed

lemma side_front: "side_ok ty side \<Longrightarrow> side \<noteq> [] \<Longrightarrow> (\<exists>o1 os. snd (last side) = o1 # os) \<and> (\<exists>o1 os. snd (hd side) = o1 # os)"
proof -
  assume a: "side_ok ty side" "side \<noteq> []"
  have "snd x \<noteq> []" if "x \<in> set side" for x using a(1) that by (auto simp: side_ok_def)
  then show ?thesis using a(2) by (metis hd_in_set last_in_set list.exhaust)
qed

lemma best_prices:
  assumes "book_ok b" and "buy_orders b = [] \<or> sell_orders b = [] \<or> fst (last (buy_orders b)) < fst (hd (sell_orders b))"
  shows "uncrossed b"
proof -
  have "bid < ask" if i: "(bid, os) \<in> set (buy_orders b)" "(ask, os') \<in> set (sell_orders b)" for bid os ask os'
  proof -
    obtain bs lb where bs: "buy_orders b = bs @ [lb]" using i(1) by (cases "buy_orders b" rule: rev_cases) auto
    obtain la as where la: "sell_orders b = la # as" using i(2) by (cases "sell_orders b") auto
    have "bid \<le> fst lb" using assms(1) i(1) bs by (auto simp: book_ok_def side_ok_def sorted_keys_append)
    moreover have "fst la \<le> ask" using assms(1) i(2) la by (cases la) (force simp: book_ok_def)
    ultimately show ?thesis using assms(2) bs la by auto
  qed
  then show ?thesis by (auto simp: uncrossed_def)
qed

lemma match_loop_ok:
  assumes "book_ok b"
  shows "\<exists>ts b'. match_loop now b trades = Some (trades @ ts, b') \<and> book_ok b' \<and> uncrossed b' \<and> (\<forall>t \<in> set ts. trade_ok b t)
    \<and> open_amount (buy_orders b) = open_amount (buy_orders b') + nsum (map trade_amount ts)
    \<and> open_amount (sell_orders b) = open_amount (sell_orders b') + nsum (map trade_amount ts)"
  using assms
proof (induction "order_count (buy_orders b) + order_count (sell_orders b)" arbitrary: b trades rule: less_induct)
  case less
  show ?case
  proof (cases "buy_orders b = [] \<or> sell_orders b = [] \<or> fst (last (buy_orders b)) < fst (hd (sell_orders b))")
    case True
    then show ?thesis
      using less.prems best_prices [OF less.prems True] by (intro exI [of _ "[]"] exI [of _ b]) (auto simp: match_loop.simps)
  next
    case False
    have sides: "side_ok LIMIT_BUY (buy_orders b)" "side_ok LIMIT_SELL (sell_orders b)" using less.prems by (simp_all add: book_ok_def)
    obtain buy bids sell asks where f: "snd (last (buy_orders b)) = buy # bids" "snd (hd (sell_orders b)) = sell # asks"
      using False side_front [OF sides(1)] side_front [OF sides(2)] by blast
    define t where "t = make_trade now b buy sell"
    define b1 where "b1 = after_trade t buy bids sell asks b"
    have loop: "match_loop now b trades = match_loop now b1 (trades @ [t])"
      using False f by (simp add: match_step t_def b1_def)
    have amt: "trade_amount t = min (unfilled buy) (unfilled sell)" by (simp add: t_def make_trade_def Let_def)
    note bs = bid_step [OF sides(1) _ f(1), of "trade_amount t"] and as = ask_step [OF sides(2) _ f(2), of "trade_amount t"]
    have ok1: "book_ok b1" using False bs(1) as(1) by (simp add: book_ok_def b1_def after_trade_def amt)
    have sums: "open_amount (buy_orders b1) + unat (trade_amount t) = open_amount (buy_orders b)"
      "open_amount (sell_orders b1) + unat (trade_amount t) = open_amount (sell_orders b)"
      "order_keys (buy_orders b1) \<subseteq> order_keys (buy_orders b)" "order_keys (sell_orders b1) \<subseteq> order_keys (sell_orders b)"
      using False bs(2,3) as(2,3) by (simp_all add: b1_def after_trade_def amt)
    have pos: "0 < trade_amount t" using False bs(5) as(6) by (simp add: amt)
    have fields: "buy_order_id t = order_id buy" "buyer_pubkey t = trader_pubkey buy" "sell_order_id t = order_id sell"
      "seller_pubkey t = trader_pubkey sell" "trade_price t = price sell"
      by (simp_all add: t_def make_trade_def Let_def)
    have le: "trade_amount t \<le> unfilled buy" "trade_amount t \<le> unfilled sell" by (simp_all add: amt)
    have "trade_price t \<le> fst (last (buy_orders b))" using False as(5) [OF _ le(2)] fields(5) by (simp add: not_less)
    then have t: "trade_ok b t"
      unfolding trade_ok_def fields using False bs(4) [OF _ le(1)] as(4) [OF _ le(2)] pos fields(5) by auto
    have fewer: "order_count (buy_orders b1) + order_count (sell_orders b1) < order_count (buy_orders b) + order_count (sell_orders b)"
      by (rule fewer_orders [where now = now]) (use False f b1_def t_def in simp_all)
    have mono: "trade_ok b1 t' \<Longrightarrow> trade_ok b t'" for t' using sums(3,4) by (auto simp: trade_ok_def)
    have "\<exists>ts b'. match_loop now b1 (trades @ [t]) = Some ((trades @ [t]) @ ts, b') \<and> book_ok b' \<and> uncrossed b' \<and> (\<forall>t \<in> set ts. trade_ok b1 t)
      \<and> open_amount (buy_orders b1) = open_amount (buy_orders b') + nsum (map trade_amount ts)
      \<and> open_amount (sell_orders b1) = open_amount (sell_orders b') + nsum (map trade_amount ts)"
      by (rule less.hyps [OF fewer ok1])
    then obtain ts b' where r: "match_loop now b1 (trades @ [t]) = Some (trades @ [t] @ ts, b')" "book_ok b'" "uncrossed b'"
      "\<forall>t \<in> set ts. trade_ok b1 t" "open_amount (buy_orders b1) = open_amount (buy_orders b') + nsum (map trade_amount ts)"
      "open_amount (sell_orders b1) = open_amount (sell_orders b') + nsum (map trade_amount ts)"
      by auto
    show ?thesis
      using r t mono sums(1,2) loop by (intro exI [of _ "t # ts"] exI [of _ b']) auto
  qed
qed

inductive book_reach :: "OrderBook \<Rightarrow> bool" where
  bk_start: "book_reach (OrderBook_init base quot)"
| bk_place: "book_reach b \<Longrightarrow> book_reach (snd (PlaceOrder now b o1))"
| bk_cancel: "book_reach b \<Longrightarrow> book_reach (snd (CancelOrder b i who))"
| bk_match: "book_reach b \<Longrightarrow> MatchOrders now b = Some (ts, b') \<Longrightarrow> book_reach b'"

lemma push_order_ok:
  assumes "side_ok ty side" and "order_ok ty (price o1) o1"
  shows "side_ok ty (push_order o1 side)"
proof -
  have "side_ok ty (map_put (price o1) (os @ [o1]) side)" if os: "\<forall>o2 \<in> set os. order_ok ty (price o1) o2" for os
  proof -
    have "os' \<noteq> [] \<and> (\<forall>o2 \<in> set os'. order_ok ty p o2)" if "(p, os') \<in> set (map_put (price o1) (os @ [o1]) side)" for p os'
    proof (cases "(p, os') \<in> set side")
      case True
      then show ?thesis using assms(1) by (auto simp: side_ok_def)
    next
      case False
      then have "p = price o1" "os' = os @ [o1]" using that set_map_put [of "price o1" "os @ [o1]" side] by auto
      then show ?thesis using os assms(2) by simp
    qed
    then show ?thesis using assms(1) by (auto simp: side_ok_def)
  qed
  moreover have "\<forall>o2 \<in> set (case map_of side (price o1) of None \<Rightarrow> [] | Some os \<Rightarrow> os). order_ok ty (price o1) o2"
  proof (cases "map_of side (price o1)")
    case (Some os)
    then have "(price o1, os) \<in> set side" by (rule map_of_SomeD)
    then show ?thesis using assms(1) Some by (auto simp: side_ok_def)
  qed simp
  ultimately show ?thesis by (simp add: push_order_def)
qed

lemma place_ok: "book_ok b \<Longrightarrow> book_ok (snd (PlaceOrder now b o1))"
proof -
  assume a: "book_ok b"
  let ?n = "o1\<lparr>order_id := order_digest o1, order_status := ORDER_PENDING, filled_amount := 0, order_timestamp := now\<rparr>"
  have "order_ok (order_type o1) (price ?n) ?n" if "ValidateOrder b o1"
    using that by (auto simp: order_ok_def ValidateOrder_def word_gt_0 split: if_splits)
  then show ?thesis
    using a push_order_ok [of LIMIT_BUY _ ?n] push_order_ok [of LIMIT_SELL _ ?n]
    by (auto simp: PlaceOrder_def Let_def book_ok_def)
qed

lemma book_reach_ok: "book_reach b \<Longrightarrow> book_ok b"
proof (induction rule: book_reach.induct)
  case (bk_match b now ts b')
  then show ?case using match_loop_ok [of b now "[]"] by (auto simp: MatchOrders_def)
next
  case (bk_cancel b i who)
  then show ?case by (auto simp: CancelOrder_def RemoveOrder_def book_ok_def split: option.splits)
qed (auto simp: OrderBook_init_def book_ok_def intro: place_ok [unfolded book_ok_def, THEN conjunct1] place_ok [unfolded book_ok_def, THEN conjunct2])

text \<open>
  C26. Whatever is placed, cancelled and matched, the order book is well-typed: each side is sorted by price, no level is empty, and each order stands
  at its own price, on the side of its type and with something left to fill. So matching never takes the front of an empty level.
\<close>

theorem order_book_well_typed:
  assumes "book_reach b"
  shows "side_ok LIMIT_BUY (buy_orders b) \<and> side_ok LIMIT_SELL (sell_orders b) \<and> MatchOrders now b \<noteq> None
    \<and> (buy_orders b \<noteq> [] \<longrightarrow> (\<exists>o1. GetBestBid b = Some o1 \<and> 0 < unfilled o1 \<and> (\<forall>(p, os) \<in> set (buy_orders b). p \<le> price o1)))"
proof -
  have ok: "side_ok LIMIT_BUY (buy_orders b)" "side_ok LIMIT_SELL (sell_orders b)"
    using book_reach_ok [OF assms] by (simp_all add: book_ok_def)
  have "\<exists>o1. GetBestBid b = Some o1 \<and> 0 < unfilled o1 \<and> (\<forall>(p, os) \<in> set (buy_orders b). p \<le> price o1)" if ne: "buy_orders b \<noteq> []"
  proof -
    obtain p o1 os where l: "buy_orders b = butlast (buy_orders b) @ [(p, o1 # os)]"
      using side_front [OF ok(1) ne] ne by (metis append_butlast_last_id prod.collapse)
    then have "side_ok LIMIT_BUY (butlast (buy_orders b) @ [(p, o1 # os)])" using ok(1) by simp
    then have o: "order_ok LIMIT_BUY p o1" "\<forall>k \<in> fst ` set (butlast (buy_orders b)). k < p" by (auto simp: side_ok_append)
    have "GetBestBid b = Some o1" unfolding GetBestBid_def by (subst l) (use ne l in \<open>metis last_snoc list.sel(1) snd_conv\<close>)
    moreover have "\<forall>(q, os) \<in> set (buy_orders b). q \<le> price o1"
      using o by (subst l) (auto simp: order_ok_def intro: less_imp_le)
    ultimately show ?thesis using unfilled_positive [OF o(1)] by blast
  qed
  then show ?thesis using ok match_loop_ok [OF book_reach_ok [OF assms], of now "[]"] by (auto simp: MatchOrders_def)
qed

text \<open>
  C27. Matching always ends, with no bid at or above an ask left; every trade is between a buy and a sell order of the book, at the seller's price and
  within the buyer's limit, for a positive amount; and each side loses exactly the traded amount.
\<close>

theorem matching_uncrosses_the_book:
  assumes "book_reach b"
  shows "\<exists>ts b'. MatchOrders now b = Some (ts, b') \<and> uncrossed b' \<and> (\<forall>t \<in> set ts. trade_ok b t)
    \<and> open_amount (buy_orders b) = open_amount (buy_orders b') + nsum (map trade_amount ts)
    \<and> open_amount (sell_orders b) = open_amount (sell_orders b') + nsum (map trade_amount ts)"
  using match_loop_ok [OF book_reach_ok [OF assms], of now "[]"] by (auto simp: MatchOrders_def)

subsection \<open>Cancelled and market orders\<close>

lemma match_ignores_index:
  "match_loop now (b\<lparr>orders_by_id := m\<rparr>) trades = map_option (\<lambda>(ts, b'). (ts, b'\<lparr>orders_by_id := m\<rparr>)) (match_loop now b trades)"
proof (induction "order_count (buy_orders b) + order_count (sell_orders b)" arbitrary: b trades rule: less_induct)
  case less
  show ?case
  proof (cases "buy_orders b = [] \<or> sell_orders b = [] \<or> fst (last (buy_orders b)) < fst (hd (sell_orders b))
      \<or> snd (last (buy_orders b)) = [] \<or> snd (hd (sell_orders b)) = []")
    case True
    then show ?thesis
      by (subst match_loop.simps, subst (2) match_loop.simps) (auto split: list.splits)
  next
    case False
    then obtain buy bids sell asks where f: "snd (last (buy_orders b)) = buy # bids" "snd (hd (sell_orders b)) = sell # asks"
      by (meson neq_Nil_conv)
    define t where "t = make_trade now b buy sell"
    define b1 where "b1 = after_trade t buy bids sell asks b"
    have "match_loop now b trades = match_loop now b1 (trades @ [t])" using False f by (simp add: match_step t_def b1_def)
    moreover have "match_loop now (b\<lparr>orders_by_id := m\<rparr>) trades = match_loop now (b1\<lparr>orders_by_id := m\<rparr>) (trades @ [t])"
    proof -
      have "make_trade now (b\<lparr>orders_by_id := m\<rparr>) buy sell = t" by (simp add: t_def make_trade_def)
      moreover have "after_trade t buy bids sell asks (b\<lparr>orders_by_id := m\<rparr>) = b1\<lparr>orders_by_id := m\<rparr>"
        by (cases b) (simp add: after_trade_def b1_def)
      ultimately show ?thesis using False f match_step [of "b\<lparr>orders_by_id := m\<rparr>" buy bids sell asks now trades] by simp
    qed
    moreover have "order_count (buy_orders b1) + order_count (sell_orders b1) < order_count (buy_orders b) + order_count (sell_orders b)"
      by (rule fewer_orders [where now = now]) (use False f b1_def t_def in simp_all)
    ultimately show ?thesis using less.hyps by simp
  qed
qed

text \<open>
  Cancelling an order only removes it from the index: it keeps its place in the book, and matching trades it as before.
\<close>

theorem cancelled_order_still_trades:
  assumes "CancelOrder b i who = (True, b')"
  shows "GetOrder b' i = None \<and> buy_orders b' = buy_orders b \<and> sell_orders b' = sell_orders b
    \<and> map_option fst (MatchOrders now b') = map_option fst (MatchOrders now b)"
proof -
  have b': "b' = b\<lparr>orders_by_id := orders_by_id b'\<rparr>" and none: "map_of (orders_by_id b') i = None"
    using assms by (auto simp: CancelOrder_def RemoveOrder_def split: option.splits if_splits)
  have "MatchOrders now b' = map_option (\<lambda>(ts, b'). (ts, b'\<lparr>orders_by_id := orders_by_id b''\<rparr>)) (MatchOrders now b)"
    if "b'' = b'" for b''
    unfolding MatchOrders_def by (subst b', subst match_ignores_index) (simp add: that)
  then have "map_option fst (MatchOrders now b') = map_option fst (MatchOrders now b)"
    by (simp add: option.map_comp comp_def case_prod_unfold)
  moreover have "buy_orders b' = buy_orders b" "sell_orders b' = sell_orders b" by (subst b', simp)+
  ultimately show ?thesis using none by (simp add: GetOrder_def)
qed

text \<open>
  A market order is never put into a side of the book (and a market sell, with price 0, not even accepted): the trades that executing
  it returns are those of the book without it.
\<close>

lemma market_order_is_ignored:
  assumes "ty \<in> {MARKET_BUY, MARKET_SELL}"
  shows "map_option fst (ExecuteMarketOrder now d base quot ty amount trader)
    = map_option fst (MatchOrders now (fst (GetOrderBook d base quot)))"
proof -
  obtain b d' where g: "GetOrderBook d base quot = (b, d')" by force
  have "\<exists>m. snd (PlaceOrder now b o1) = b\<lparr>orders_by_id := m\<rparr>" if "order_type o1 = ty" for o1
    using that assms by (cases b) (auto simp: PlaceOrder_def Let_def)
  from this [of "\<lparr>order_id = [], trader_pubkey = trader, base_asset = base, quote_asset = quot, order_type = ty,
      order_status = ORDER_PENDING, price = (if ty = MARKET_BUY then UINT64_MAX else 0), order_amount = amount,
      filled_amount = 0, order_timestamp = 0, order_signature = []\<rparr>"]
  obtain m where "snd (PlaceOrder now b \<lparr>order_id = [], trader_pubkey = trader, base_asset = base, quote_asset = quot, order_type = ty,
      order_status = ORDER_PENDING, price = (if ty = MARKET_BUY then UINT64_MAX else 0), order_amount = amount,
      filled_amount = 0, order_timestamp = 0, order_signature = []\<rparr>) = b\<lparr>orders_by_id := m\<rparr>"
    by auto
  then show ?thesis
    by (auto simp: ExecuteMarketOrder_def g Let_def MatchOrders_def match_ignores_index split: option.splits)
qed

subsection \<open>The constant product\<close>

lemma constant_product:
  fixes out x r R m :: nat
  assumes "out * (10000 * r + m) \<le> m * R" and "m \<le> 10000 * x" and "out \<le> R"
  shows "r * R \<le> (r + x) * (R - out)"
proof -
  obtain k where k: "10000 * x = m + k" using assms(2) le_Suc_ex by blast
  have "out * (10000 * r + 10000 * x) = out * (10000 * r + m) + out * k" unfolding k by (simp only: distrib_left add.assoc)
  also have "\<dots> \<le> m * R + R * k" using assms(1,3) by (intro add_mono mult_right_mono) simp_all
  also have "\<dots> = 10000 * x * R" unfolding k by (simp add: distrib_left mult.commute)
  finally have "10000 * (out * (r + x)) \<le> 10000 * (x * R)" by (simp add: algebra_simps)
  then have "out * (r + x) \<le> x * R" by simp
  moreover have "(r + x) * (R - out) = (r + x) * R - out * (r + x)" by (simp only: diff_mult_distrib2 mult.commute [of out])
  ultimately show ?thesis by (simp add: add_mult_distrib)
qed

lemma SafeMath_exact:
  "SafeMath_Mul a b = Some c \<Longrightarrow> unat c = unat a * unat b" "SafeMath_Add a b = Some c \<Longrightarrow> unat c = unat a + unat b"
  using safe_math.cmul_iff safe_math.cadd_iff by blast+

lemma output_bound:
  assumes "0 < unat r" and "GetOutputAmount x r R fee = out"
  shows "unat r * unat R \<le> (unat r + unat x) * (unat R - unat out)" "0 < R \<Longrightarrow> out < R" "unat out \<le> unat R"
proof -
  have "(out = 0 \<or> (\<exists>m. m \<le> 10000 * unat x \<and> unat out * (10000 * unat r + m) \<le> m * unat R))"
  proof (cases "out = 0")
    case False
    define mul where "mul = (10000 - fee :: u64)"
    obtain f n s d where o: "SafeMath_Mul x mul = Some f" "SafeMath_Mul f R = Some n" "SafeMath_Mul r 10000 = Some s"
      "SafeMath_Add s f = Some d" "SafeMath_Div n d = Some out" "fee < 10000"
      using assms(2) False by (auto simp: GetOutputAmount_def mul_def not_le split: if_splits option.splits)
    have e: "unat f = unat x * unat mul" "unat n = unat f * unat R" "unat s = unat r * 10000" "unat d = unat s + unat f" "out = n div d"
      using o by (auto simp: SafeMath_exact SafeMath_Div_def split: if_splits)
    have "unat mul \<le> 10000" using o(6) by (simp add: mul_def unat_sub word_less_nat_alt word_le_nat_alt)
    then have "unat f \<le> 10000 * unat x" by (simp add: e(1) mult.commute)
    moreover have "unat out * unat d \<le> unat n" by (simp add: e(5) unat_div)
    ultimately show ?thesis using e by (intro disjI2 exI [of _ "unat f"]) (simp add: mult.commute)
  qed simp
  then have main: "unat r * unat R \<le> (unat r + unat x) * (unat R - unat out) \<and> (0 < R \<longrightarrow> out < R)"
  proof
    assume "\<exists>m. m \<le> 10000 * unat x \<and> unat out * (10000 * unat r + m) \<le> m * unat R"
    then obtain m where m: "m \<le> 10000 * unat x" "unat out * (10000 * unat r + m) \<le> m * unat R" by blast
    have lt: "unat out < unat R" if "0 < R"
    proof (rule ccontr)
      assume "\<not> unat out < unat R"
      then have "unat R * (10000 * unat r + m) \<le> unat out * (10000 * unat r + m)" by simp
      then have "unat R * (10000 * unat r + m) \<le> m * unat R" using m(2) by linarith
      then show False using that assms(1) by (simp add: algebra_simps word_less_nat_alt)
    qed
    moreover have "unat out = 0" if "R = 0" using m(2) that assms(1) by simp
    ultimately have "unat out \<le> unat R" by (cases "R = 0") (auto simp: word_gt_0)
    then show ?thesis using constant_product [OF m(2,1)] lt by (simp add: word_less_nat_alt)
  qed (simp add: add_mult_distrib)
  then show "unat r * unat R \<le> (unat r + unat x) * (unat R - unat out)" "0 < R \<Longrightarrow> out < R" by simp_all
  show "unat out \<le> unat R"
  proof (cases "R = 0")
    case True
    then have "out = 0" using assms(2) by (simp add: GetOutputAmount_def split: if_splits)
    then show ?thesis by simp
  qed (use main in \<open>simp add: word_less_nat_alt less_imp_le unat_gt_0\<close>)
qed

text \<open>A swap that pays something does not overflow the reserve of its input: the checked products of the output bound it.\<close>

lemma output_no_overflow:
  assumes "GetOutputAmount x r R fee \<noteq> 0"
  shows "unat r + unat x < 2 ^ 64"
proof -
  define mul where "mul = (10000 - fee :: u64)"
  obtain f s d where o: "SafeMath_Mul x mul = Some f" "SafeMath_Mul r 10000 = Some s" "SafeMath_Add s f = Some d" "fee < 10000"
    using assms by (auto simp: GetOutputAmount_def mul_def not_le split: if_splits option.splits)
  have e: "unat f = unat x * unat mul" "unat s = unat r * 10000" "unat d = unat s + unat f"
    using o by (auto simp: SafeMath_exact)
  have "0 < unat mul" using o(4) by (simp add: mul_def unat_sub word_less_nat_alt word_le_nat_alt)
  then have "unat x \<le> unat x * unat mul" by simp
  then have "unat r + unat x \<le> unat d" using e by linarith
  then show ?thesis using unat64_lt [of d] by simp
qed

text \<open>
  C28. The constant product: a swap that pays something, or whose input reserve and input together fit into 64 bits, does not let
  the product of the two reserves of a pool fall and leaves no reserve empty. The code does not check the sum: a swap that
  pays nothing can overflow the reserve (\<open>swap_overflow_empties\<close> below).
\<close>

theorem swap_keeps_product:
  assumes "map_of pools i = Some p" and "Pool_Swap pools i asset x least = (out, pools')"
    and "out \<noteq> 0 \<or> unat (if asset = asset_a p then reserve_a p else reserve_b p) + unat x < 2 ^ 64"
    and "0 < reserve_a p" and "0 < reserve_b p"
  shows "\<exists>p'. map_of pools' i = Some p' \<and> unat (reserve_a p) * unat (reserve_b p) \<le> unat (reserve_a p') * unat (reserve_b p')
    \<and> 0 < reserve_a p' \<and> 0 < reserve_b p' \<and> total_shares p' = total_shares p \<and> pool_shares p' = pool_shares p"
proof -
  define r where "r = (if asset = asset_a p then reserve_a p else reserve_b p)"
  define R where "R = (if asset = asset_a p then reserve_b p else reserve_a p)"
  define q where "q = GetOutputAmount x r R (fee_rate p)"
  have pos: "0 < unat r" "0 < R" using assms(4,5) by (auto simp: r_def R_def word_less_nat_alt)
  note b = output_bound [OF pos(1) q_def [symmetric]]
  have "out = 0 \<or> out = q" using assms(1,2) by (auto simp: Pool_Swap_def q_def r_def R_def Let_def split: if_splits)
  then have "unat r + unat x < 2 ^ 64"
    using assms(3) output_no_overflow [of x r R "fee_rate p"] by (auto simp: r_def [symmetric] q_def)
  then have sum: "unat (r + x) = unat r + unat x" by (subst unat_add_lt) simp_all
  have diff: "unat (R - q) = unat R - unat q" using b(3) by (subst unat_sub) (simp_all add: word_le_nat_alt)
  have pr: "unat r * unat R \<le> unat (r + x) * unat (R - q)" "0 < r + x" "0 < R - q"
    using b(1) b(2) [OF pos(2)] pos(1) by (simp_all add: sum diff word_less_nat_alt)
  show ?thesis
  proof (cases "q < least")
    case True
    then have "pools' = pools" using assms(1,2) by (auto simp: Pool_Swap_def q_def r_def R_def Let_def split: if_splits)
    then show ?thesis using assms(1,4,5) by simp
  next
    case False
    show ?thesis
    proof (cases "asset = asset_a p")
      case True
      then have "pools' = map_put i (p\<lparr>reserve_a := r + x, reserve_b := R - q\<rparr>) pools"
        using False assms(1,2) by (auto simp: Pool_Swap_def q_def r_def R_def Let_def)
      then show ?thesis using True pr by (simp add: r_def R_def)
    next
      case other: False
      then have "pools' = map_put i (p\<lparr>reserve_a := R - q, reserve_b := r + x\<rparr>) pools"
        using False assms(1,2) by (auto simp: Pool_Swap_def q_def r_def R_def Let_def)
      then show ?thesis using other pr by (simp add: r_def R_def mult.commute)
    qed
  qed
qed

text \<open>
  A swap of \<open>2 ^ 64 - 1000\<close> into a reserve of 1000 with a minimum of 0 is accepted, pays nothing and leaves that reserve empty.
\<close>

lemma swap_overflow_empties:
  assumes "map_of pools i = Some p" and "reserve_a p = 1000"
  shows "Pool_Swap pools i (asset_a p) (- 1000) 0 = (0, map_put i (p\<lparr>reserve_a := 0\<rparr>) pools)"
proof -
  have x: "unat (- 1000 :: u64) = 18446744073709550616" by simp
  have "GetOutputAmount (- 1000) 1000 R fee = 0" for R fee
    using output_no_overflow [of "- 1000" 1000 R fee] x by auto
  then show ?thesis using assms by (simp add: Pool_Swap_def Let_def)
qed

text \<open>
  When an intermediate product does not fit into 64 bits, the output is 0, which meets a minimum of 0: the swap takes the input for nothing.
\<close>

lemma swap_for_nothing:
  assumes "map_of pools i = Some p" and "GetOutputAmount x (reserve_a p) (reserve_b p) (fee_rate p) = 0"
  shows "Pool_Swap pools i (asset_a p) x 0 = (0, map_put i (p\<lparr>reserve_a := reserve_a p + x\<rparr>) pools)"
  using assms by (simp add: Pool_Swap_def Let_def)

subsection \<open>Shares are credited twice\<close>

text \<open>
  A new provider of liquidity is credited twice the shares that are added to the total: it can afterwards withdraw with the double
  number, and so takes twice its part of the reserves.
\<close>

theorem liquidity_shares_doubled:
  assumes "map_of pools i = Some p" and "map_of (pool_shares p) who = None"
    and "AddLiquidity pools i a b who = (s, pools')" and "s \<noteq> 0" and "s \<le> UINT64_MAX div 2"
  shows "\<exists>p'. map_of pools' i = Some p' \<and> total_shares p' = total_shares p + s \<and> shares_of p' who = 2 * s
    \<and> reserve_a p' = reserve_a p + a \<and> reserve_b p' = reserve_b p + b
    \<and> (total_shares p + s \<noteq> 0 \<longrightarrow> fst (RemoveLiquidity pools' i (2 * s) who)
        = (safe_amount (2 * s) (reserve_a p + a) (total_shares p + s), safe_amount (2 * s) (reserve_b p + b) (total_shares p + s)))"
proof -
  have s0: "shares_of p who = 0" using assms(2) by (simp add: shares_of_def)
  have "unat s \<le> unat UINT64_MAX div 2" using assms(5) by (simp add: word_le_nat_alt unat_div)
  then have "s \<le> UINT64_MAX - s" by (simp add: word_le_nat_alt unat_sub unat64_le)
  then have ns: "\<not> s > UINT64_MAX - s" by simp
  define p' where "p' = put_shares who (2 * s) (put_shares who s
      (p\<lparr>reserve_a := reserve_a p + a, reserve_b := reserve_b p + b, total_shares := total_shares p + s\<rparr>))"
  define sh where "sh = (if total_shares p = 0 then capped_mul a b
    else min (share_part a (total_shares p) (reserve_a p)) (share_part b (total_shares p) (reserve_b p)))"
  define q where "q = put_shares who (shares_of p who + sh)
    (p\<lparr>reserve_a := reserve_a p + a, reserve_b := reserve_b p + b, total_shares := total_shares p + sh\<rparr>)"
  have "AddLiquidity pools i a b who = (if total_shares p \<noteq> 0 \<and> (reserve_a p = 0 \<or> reserve_b p = 0) then (0, pools)
      else if reserve_a p > UINT64_MAX - a \<or> reserve_b p > UINT64_MAX - b \<or> total_shares p > UINT64_MAX - sh then (0, pools)
      else (sh, map_put i (put_shares who (if shares_of q who > UINT64_MAX - sh then UINT64_MAX else shares_of q who + sh) q) pools))"
    unfolding AddLiquidity_def assms(1) option.case Let_def sh_def [symmetric] q_def [symmetric] by (rule refl)
  then have r: "s = sh" "pools' = map_put i (put_shares who (if shares_of q who > UINT64_MAX - s then UINT64_MAX else shares_of q who + s) q) pools"
    using assms(3,4) by (metis prod.inject)+
  have qs: "shares_of q who = s" by (simp add: q_def put_shares_def shares_of_def assms(2) r(1))
  have q: "q = put_shares who s
    (p\<lparr>reserve_a := reserve_a p + a, reserve_b := reserve_b p + b, total_shares := total_shares p + s\<rparr>)"
    unfolding q_def r(1) s0 by simp
  have "put_shares who (if shares_of q who > UINT64_MAX - s then UINT64_MAX else shares_of q who + s) q = p'"
    unfolding qs if_not_P [OF ns] unfolding q p'_def mult_2 by (rule refl)
  then have "pools' = map_put i p' pools" using r(2) by (simp only:)
  then have p': "map_of pools' i = Some p'" by simp
  have f: "total_shares p' = total_shares p + s" "shares_of p' who = 2 * s" "reserve_a p' = reserve_a p + a"
    "reserve_b p' = reserve_b p + b"
    by (simp_all add: p'_def put_shares_def shares_of_def)
  have "fst (RemoveLiquidity pools' i (2 * s) who)
      = (safe_amount (2 * s) (reserve_a p + a) (total_shares p + s), safe_amount (2 * s) (reserve_b p + b) (total_shares p + s))"
    if "total_shares p + s \<noteq> 0"
    using that f by (simp add: RemoveLiquidity_def p' Let_def put_shares_def shares_of_def)
  then show ?thesis using p' f by blast
qed

subsection \<open>Samples\<close>

definition sample_order :: "OrderType \<Rightarrow> u64 \<Rightarrow> u64 \<Rightarrow> bytes \<Rightarrow> Order" where
  "sample_order ty p amount who =
     \<lparr>order_id = [], trader_pubkey = who, base_asset = 0, quote_asset = 1, order_type = ty, order_status = ORDER_PENDING, price = p,
      order_amount = amount, filled_amount = 0, order_timestamp = 0, order_signature = []\<rparr>"

definition sample_book :: OrderBook where
  "sample_book = snd (PlaceOrder 7 (snd (PlaceOrder 6 (snd (PlaceOrder 5 (OrderBook_init 0 1) (sample_order LIMIT_BUY 12 30 [1])))
     (sample_order LIMIT_SELL 10 20 [2]))) (sample_order LIMIT_SELL 11 20 [3]))"

lemma sample_book_reach: "book_reach sample_book"
  unfolding sample_book_def by (intro bk_place bk_start)

theorem order_book_well_typed_witness:
  "\<exists>o1. GetBestBid sample_book = Some o1 \<and> 0 < unfilled o1"
proof -
  have "buy_orders sample_book \<noteq> []"
    by (simp add: sample_book_def PlaceOrder_def ValidateOrder_def sample_order_def OrderBook_init_def Let_def push_order_def)
  then show ?thesis using order_book_well_typed [OF sample_book_reach, of 8] by blast
qed

theorem matching_uncrosses_the_book_witness:
  "\<exists>ts b'. MatchOrders 8 sample_book = Some (ts, b') \<and> uncrossed b' \<and> 30 = open_amount (buy_orders b') + nsum (map trade_amount ts)"
proof -
  have "open_amount (buy_orders sample_book) = 30"
    by (simp add: sample_book_def PlaceOrder_def ValidateOrder_def sample_order_def OrderBook_init_def Let_def push_order_def unfilled_def)
  then show ?thesis using matching_uncrosses_the_book [OF sample_book_reach, of 8] by auto
qed

text \<open>A sale is cancelled, and stays in the book.\<close>

definition one_sale :: OrderBook where
  "one_sale = snd (PlaceOrder 6 (OrderBook_init 0 1) (sample_order LIMIT_SELL 10 20 [2]))"

theorem cancelled_order_still_trades_witness:
  "let b' = snd (CancelOrder one_sale (order_digest (sample_order LIMIT_SELL 10 20 [2])) [2]) in
     sell_orders b' = sell_orders one_sale \<and> sell_orders one_sale \<noteq> []
     \<and> map_option fst (MatchOrders 7 b') = map_option fst (MatchOrders 7 one_sale)"
proof -
  let ?i = "order_digest (sample_order LIMIT_SELL 10 20 [2])"
  have "\<exists>o1. map_of (orders_by_id one_sale) ?i = Some o1 \<and> trader_pubkey o1 = [2]" "sell_orders one_sale \<noteq> []"
    by (simp_all add: one_sale_def PlaceOrder_def ValidateOrder_def sample_order_def OrderBook_init_def Let_def push_order_def)
  then obtain b' where "CancelOrder one_sale ?i [2] = (True, b')" "sell_orders one_sale \<noteq> []" by (auto simp: CancelOrder_def)
  with cancelled_order_still_trades [OF this(1)] show ?thesis by simp
qed

definition sample_pools :: Pools where
  "sample_pools = [([9], \<lparr>pool_id = [9], asset_a = 0, asset_b = 1, reserve_a = 1000, reserve_b = 1000, total_shares = 1000000,
     pool_shares = [], fee_rate = 30\<rparr>)]"

theorem swap_keeps_product_witness:
  "\<exists>p'. map_of (snd (Pool_Swap sample_pools [9] 0 100 0)) [9] = Some p' \<and> 1000000 \<le> unat (reserve_a p') * unat (reserve_b p')"
proof -
  obtain out pools' where r: "Pool_Swap sample_pools [9] 0 100 0 = (out, pools')" by force
  have "map_of sample_pools [9] = Some \<lparr>pool_id = [9], asset_a = 0, asset_b = 1, reserve_a = 1000, reserve_b = 1000,
      total_shares = 1000000, pool_shares = [], fee_rate = 30\<rparr>" by (simp add: sample_pools_def)
  from swap_keeps_product [OF this r] show ?thesis by (auto simp: r)
qed

text \<open>A provider adds 100 of each asset to the pool and withdraws 200 of each.\<close>

theorem liquidity_shares_doubled_witness:
  "let (s, pools') = AddLiquidity sample_pools [9] 100 100 [5] in
     s = 100000 \<and> fst (RemoveLiquidity pools' [9] (2 * s) [5]) = (200, 200)"
proof -
  have p: "map_of sample_pools [9] = Some \<lparr>pool_id = [9], asset_a = 0, asset_b = 1, reserve_a = 1000, reserve_b = 1000,
      total_shares = 1000000, pool_shares = [], fee_rate = 30\<rparr>" by (simp add: sample_pools_def)
  obtain s pools' where r: "AddLiquidity sample_pools [9] 100 100 [5] = (s, pools')" by force
  have s: "s = 100000" using r p by (simp add: AddLiquidity_def share_part_def put_shares_def shares_of_def Let_def)
  show ?thesis
    using liquidity_shares_doubled [OF p _ r] s by (auto simp: r safe_amount_def)
qed

end
