(* ===== verification/Payments.thy ===== *)
theory Payments
  imports Sha256 StdMap "HOL-Library.Char_ord" "HOL-Library.Product_Lexorder"
begin

section \<open>Payments of the second layer\<close>

text \<open>
  Models, under \<open>layer2-drachma\<close>, \<open>payments/payments_state_machine.cpp\<close> (accounts and transfers),
  \<open>bridges/channels/payment_channel.cpp\<close> (two-party channels), \<open>bridges/htlc/htlc.cpp\<close> (hash time-locked contracts and routes)
  and \<open>bridges/cross_chain/cross_chain_bridge.cpp\<close> (locked balances), and \<open>common/utils/bridging.cpp\<close> (the rules of the hops between the
  layers; its conversion texts are not modelled). Unordered maps are modelled as ordered ones, since no operation
  iterates over them. The clock is an argument.
\<close>

subsection \<open>Accounts\<close>

record PaymentResult =
  pay_ok :: bool
  pay_reason :: string

record PaymentsStateMachine =
  account_balances :: "(string \<times> u64) list"
  collected_fees :: u64

definition PaymentsStateMachine_init :: PaymentsStateMachine where
  "PaymentsStateMachine_init = \<lparr>account_balances = [], collected_fees = 0\<rparr>"

definition Balance :: "PaymentsStateMachine \<Rightarrow> string \<Rightarrow> u64" where
  "Balance s account = (case map_of (account_balances s) account of None \<Rightarrow> 0 | Some n \<Rightarrow> n)"

definition Credit :: "PaymentsStateMachine \<Rightarrow> string \<Rightarrow> u64 \<Rightarrow> PaymentsStateMachine" where
  "Credit s account amount = s\<lparr>account_balances := map_put account (Balance s account + amount) (account_balances s)\<rparr>"

definition Transfer :: "PaymentsStateMachine \<Rightarrow> string \<Rightarrow> string \<Rightarrow> u64 \<Rightarrow> u64 \<Rightarrow> PaymentResult \<times> PaymentsStateMachine" where
  "Transfer s sender receiver amount fee =
     (if sender = [] \<or> receiver = [] then (\<lparr>pay_ok = False, pay_reason = ''from/to account must be non-empty''\<rparr>, s)
      else if sender = receiver then (\<lparr>pay_ok = False, pay_reason = ''self transfer is not allowed''\<rparr>, s)
      else
        let debit = amount + fee in
        if amount = 0 \<or> debit < amount then (\<lparr>pay_ok = False, pay_reason = ''invalid transfer amount''\<rparr>, s)
        else case map_of (account_balances s) sender of
          None \<Rightarrow> (\<lparr>pay_ok = False, pay_reason = ''insufficient balance''\<rparr>, s)
        | Some held \<Rightarrow>
            if held < debit then (\<lparr>pay_ok = False, pay_reason = ''insufficient balance''\<rparr>, s)
            else
              let s = s\<lparr>account_balances := map_put sender (held - debit) (account_balances s)\<rparr>;
                  s = Credit s receiver amount in
              (\<lparr>pay_ok = True, pay_reason = []\<rparr>, s\<lparr>collected_fees := collected_fees s + fee\<rparr>))"

subsection \<open>Channels\<close>

datatype ChannelState = FUNDING | OPEN | CLOSING | CLOSED

record ChannelBalance =
  taln :: u64
  drm :: u64
  obl :: u64

record PaymentChannel =
  channel_id :: bytes
  party_a :: bytes
  party_b :: bytes
  balance_a :: ChannelBalance
  balance_b :: ChannelBalance
  initial_balance_a :: ChannelBalance
  initial_balance_b :: ChannelBalance
  channel_sequence :: u64
  channel_state :: ChannelState
  close_initiated_time :: u32
  dispute_period :: u32

definition PaymentChannel_make :: "bytes \<Rightarrow> bytes \<Rightarrow> ChannelBalance \<Rightarrow> ChannelBalance \<Rightarrow> PaymentChannel" where
  "PaymentChannel_make pa pb ba bb =
     \<lparr>channel_id = Hash256 (pa @ pb), party_a = pa, party_b = pb, balance_a = ba, balance_b = bb, initial_balance_a = ba,
      initial_balance_b = bb, channel_sequence = 0, channel_state = FUNDING, close_initiated_time = 0, dispute_period = 0\<rparr>"

definition Channel_Open :: "PaymentChannel \<Rightarrow> bool \<times> PaymentChannel" where
  "Channel_Open c = (if channel_state c \<noteq> FUNDING then (False, c) else (True, c\<lparr>channel_state := OPEN\<rparr>))"

definition same_totals :: "PaymentChannel \<Rightarrow> ChannelBalance \<Rightarrow> ChannelBalance \<Rightarrow> bool" where
  "same_totals c ba bb \<longleftrightarrow>
     taln ba + taln bb = taln (initial_balance_a c) + taln (initial_balance_b c)
     \<and> drm ba + drm bb = drm (initial_balance_a c) + drm (initial_balance_b c)
     \<and> obl ba + obl bb = obl (initial_balance_a c) + obl (initial_balance_b c)"

definition UpdateState :: "PaymentChannel \<Rightarrow> ChannelBalance \<Rightarrow> ChannelBalance \<Rightarrow> u64 \<Rightarrow> bytes \<Rightarrow> bytes \<Rightarrow> bool \<times> PaymentChannel" where
  "UpdateState c ba bb new_sequence signature_a signature_b =
     (if channel_state c \<noteq> OPEN then (False, c)
      else if new_sequence \<le> channel_sequence c then (False, c)
      else if \<not> same_totals c ba bb then (False, c)
      else if signature_a = [] \<or> signature_b = [] then (False, c)
      else (True, c\<lparr>balance_a := ba, balance_b := bb, channel_sequence := new_sequence\<rparr>))"

definition InitiateClose :: "u64 \<Rightarrow> PaymentChannel \<Rightarrow> u32 \<Rightarrow> bool \<times> PaymentChannel" where
  "InitiateClose now c period =
     (if channel_state c \<noteq> OPEN then (False, c)
      else (True, c\<lparr>channel_state := CLOSING, close_initiated_time := ucast now, dispute_period := period\<rparr>))"

definition FinalizeClose :: "u64 \<Rightarrow> PaymentChannel \<Rightarrow> bool \<times> PaymentChannel" where
  "FinalizeClose now c =
     (if channel_state c \<noteq> CLOSING then (False, c)
      else if (ucast now :: u32) < close_initiated_time c + dispute_period c then (False, c)
      else (True, c\<lparr>channel_state := CLOSED\<rparr>))"

definition VerifyBalances :: "PaymentChannel \<Rightarrow> bool" where
  "VerifyBalances c = same_totals c (balance_a c) (balance_b c)"

subsection \<open>Hash time-locked contracts\<close>

record HTLC =
  hash_lock :: bytes
  time_lock :: u32
  htlc_amount :: u64
  htlc_sender :: bytes
  htlc_receiver :: bytes
  claimed :: bool

definition HTLC_make :: "bytes \<Rightarrow> u32 \<Rightarrow> u64 \<Rightarrow> bytes \<Rightarrow> bytes \<Rightarrow> HTLC" where
  "HTLC_make lock time amount sender receiver =
     \<lparr>hash_lock = lock, time_lock = time, htlc_amount = amount, htlc_sender = sender, htlc_receiver = receiver, claimed = False\<rparr>"

definition VerifyPreimage :: "HTLC \<Rightarrow> bytes \<Rightarrow> bool" where
  "VerifyPreimage h preimage \<longleftrightarrow> Hash256 preimage = hash_lock h"

definition ClaimWithPreimage :: "HTLC \<Rightarrow> bytes \<Rightarrow> bool \<times> HTLC" where
  "ClaimWithPreimage h preimage =
     (if claimed h then (False, h)
      else if \<not> VerifyPreimage h preimage then (False, h)
      else (True, h\<lparr>claimed := True\<rparr>))"

definition ClaimWithTimeout :: "HTLC \<Rightarrow> u32 \<Rightarrow> bool \<times> HTLC" where
  "ClaimWithTimeout h current_time =
     (if claimed h then (False, h)
      else if current_time < time_lock h then (False, h)
      else (True, h\<lparr>claimed := True\<rparr>))"

definition HTLC_IsExpired :: "HTLC \<Rightarrow> u32 \<Rightarrow> bool" where
  "HTLC_IsExpired h current_time \<longleftrightarrow> current_time \<ge> time_lock h"

record RouteHop =
  node_pubkey :: bytes
  hop_fee :: u64
  cltv_expiry :: u32

record HTLCRoute =
  payment_hash :: bytes
  total_amount :: u64
  hops :: "RouteHop list"

definition AddHop :: "HTLCRoute \<Rightarrow> RouteHop \<Rightarrow> HTLCRoute" where
  "AddHop r hop = r\<lparr>hops := hops r @ [hop]\<rparr>"

definition GetTotalFees :: "HTLCRoute \<Rightarrow> u64" where
  "GetTotalFees r = wsum (map hop_fee (hops r))"

fun expiries_decrease :: "RouteHop list \<Rightarrow> bool" where
  "expiries_decrease (h1 # h2 # hs) = (if cltv_expiry h2 \<ge> cltv_expiry h1 then False else expiries_decrease (h2 # hs))"
| "expiries_decrease hs = True"

definition Route_Validate :: "HTLCRoute \<Rightarrow> bool" where
  "Route_Validate r = (if hops r = [] then False else expiries_decrease (hops r))"

subsection \<open>The bridge to other chains\<close>

datatype BlockchainNetwork = BITCOIN | ETHEREUM | BINANCE_SMART_CHAIN | POLYGON | AVALANCHE | SOLANA

fun network_no :: "BlockchainNetwork \<Rightarrow> nat" where
  "network_no BITCOIN = 0" | "network_no ETHEREUM = 1" | "network_no BINANCE_SMART_CHAIN = 2" | "network_no POLYGON = 3"
| "network_no AVALANCHE = 4" | "network_no SOLANA = 5"

instantiation BlockchainNetwork :: linorder
begin

definition less_eq_BlockchainNetwork :: "BlockchainNetwork \<Rightarrow> BlockchainNetwork \<Rightarrow> bool" where
  "less_eq_BlockchainNetwork m n \<longleftrightarrow> network_no m \<le> network_no n"

definition less_BlockchainNetwork :: "BlockchainNetwork \<Rightarrow> BlockchainNetwork \<Rightarrow> bool" where
  "less_BlockchainNetwork m n \<longleftrightarrow> network_no m < network_no n"

instance
proof
  fix m n :: BlockchainNetwork
  assume "m \<le> n" "n \<le> m"
  then have "network_no m = network_no n" by (simp add: less_eq_BlockchainNetwork_def)
  then show "m = n" by (cases m; cases n) simp_all
qed (auto simp: less_eq_BlockchainNetwork_def less_BlockchainNetwork_def)

end

type_synonym CrossChainBridge = "((bytes \<times> BlockchainNetwork) \<times> u64) list"

definition GetWrappedBalance :: "CrossChainBridge \<Rightarrow> bytes \<Rightarrow> BlockchainNetwork \<Rightarrow> u64" where
  "GetWrappedBalance b address chain = (case map_of b (address, chain) of None \<Rightarrow> 0 | Some n \<Rightarrow> n)"

definition LockAsset :: "CrossChainBridge \<Rightarrow> BlockchainNetwork \<Rightarrow> string \<Rightarrow> u64 \<Rightarrow> bytes \<Rightarrow> bool \<times> CrossChainBridge" where
  "LockAsset b chain source_address amount dest =
     (if source_address = [] \<or> amount = 0 then (False, b)
      else (True, map_put (dest, chain) (GetWrappedBalance b dest chain + amount) b))"

definition UnlockAsset :: "CrossChainBridge \<Rightarrow> BlockchainNetwork \<Rightarrow> bytes \<Rightarrow> u64 \<Rightarrow> string \<Rightarrow> bool \<times> CrossChainBridge" where
  "UnlockAsset b chain source amount dest_address =
     (if dest_address = [] \<or> amount = 0 then (False, b)
      else
        let held = GetWrappedBalance b source chain; b = map_put (source, chain) held b in
        if held < amount then (False, b) else (True, map_put (source, chain) (held - amount) b))"

record CrossChainTx =
  cc_source_chain :: BlockchainNetwork
  cc_destination_chain :: BlockchainNetwork
  source_tx_hash :: bytes
  destination_tx_hash :: bytes
  cc_source_address :: bytes
  cc_destination_address :: bytes
  cc_amount :: u64
  cc_asset :: string
  cc_timestamp :: u64
  cc_proof :: bytes
  finalized :: bool

definition VerifyCrossChainTx :: "CrossChainTx \<Rightarrow> bool" where
  "VerifyCrossChainTx tx \<longleftrightarrow> source_tx_hash tx \<noteq> [] \<and> cc_amount tx > 0"

subsection \<open>Hops between the layers\<close>

datatype BridgeLayer = L1 | L2 | L3

record BridgeTransfer =
  source_layer :: BridgeLayer
  target_layer :: BridgeLayer
  bt_asset :: string
  bt_account :: string
  bt_amount :: u64

definition IsSupportedHop :: "BridgeLayer \<Rightarrow> BridgeLayer \<Rightarrow> bool" where
  "IsSupportedHop source target \<longleftrightarrow>
     (source = L1 \<and> target = L2) \<or> (source = L2 \<and> target = L1) \<or> (source = L2 \<and> target = L3) \<or> (source = L3 \<and> target = L2)"

definition ValidateDeposit :: "BridgeTransfer \<Rightarrow> PaymentResult" where
  "ValidateDeposit t =
     (if \<not> IsSupportedHop (source_layer t) (target_layer t) then \<lparr>pay_ok = False, pay_reason = ''unsupported bridge hop''\<rparr>
      else if bt_amount t = 0 then \<lparr>pay_ok = False, pay_reason = ''bridge amount must be non-zero''\<rparr>
      else if bt_asset t = [] \<or> bt_account t = [] then \<lparr>pay_ok = False, pay_reason = ''asset and account are required''\<rparr>
      else \<lparr>pay_ok = True, pay_reason = []\<rparr>)"

definition ValidateWithdrawal :: "BridgeTransfer \<Rightarrow> u64 \<Rightarrow> u64 \<Rightarrow> u64 \<Rightarrow> PaymentResult" where
  "ValidateWithdrawal t current_height finalized_height optimistic_window =
     (let base = ValidateDeposit t in
      if \<not> pay_ok base then base
      else if current_height < finalized_height
        then \<lparr>pay_ok = False, pay_reason = ''current height cannot be behind finalized height''\<rparr>
      else if current_height - finalized_height < optimistic_window
        then \<lparr>pay_ok = False, pay_reason = ''withdrawal is still in optimistic trust window''\<rparr>
      else \<lparr>pay_ok = True, pay_reason = []\<rparr>)"

subsection \<open>Transfers conserve money\<close>

inductive payments_reach :: "PaymentsStateMachine \<Rightarrow> nat \<Rightarrow> bool" where
  pay_start: "payments_reach PaymentsStateMachine_init 0"
| pay_credit: "payments_reach s n \<Longrightarrow> payments_reach (Credit s a amount) (n + unat amount)"
| pay_transfer: "payments_reach s n \<Longrightarrow> payments_reach (snd (Transfer s a b amount fee)) n"

definition held :: "PaymentsStateMachine \<Rightarrow> nat" where
  "held s = StdMap.map_sum unat (account_balances s)"

definition payments_ok :: "PaymentsStateMachine \<Rightarrow> nat \<Rightarrow> bool" where
  "payments_ok s n \<longleftrightarrow> sorted_keys (account_balances s) \<and> held s + unat (collected_fees s) = n"

lemma map_sum_put:
  fixes f :: "'v \<Rightarrow> nat"
  assumes "sorted_keys m"
  shows "StdMap.map_sum f (map_put k v m) + (case map_of m k of None \<Rightarrow> 0 | Some w \<Rightarrow> f w) = StdMap.map_sum f m + f v"
proof (cases "map_of m k")
  case None
  then show ?thesis by (simp add: map_sum_put_new)
next
  case (Some w)
  then show ?thesis
    using map_sum_erase [OF assms Some, of f] map_sum_erase [OF sorted_put [OF assms], of k v k v f] by (simp add: erase_put)
qed

lemma held_put:
  "sorted_keys (account_balances s) \<Longrightarrow>
    held (s\<lparr>account_balances := map_put a v (account_balances s)\<rparr>) + unat (Balance s a) = held s + unat v"
  using map_sum_put [of "account_balances s" unat a v] by (simp add: held_def Balance_def split: option.splits)

lemma credit_ok:
  assumes "payments_ok s n" and "n + unat amount < 2 ^ 64"
  shows "payments_ok (Credit s a amount) (n + unat amount)"
proof -
  have s: "sorted_keys (account_balances s)" "held s + unat (collected_fees s) = n" using assms(1) by (simp_all add: payments_ok_def)
  have "unat (Balance s a) \<le> held s" using held_put [OF s(1), of a 0] by simp
  then have "unat (Balance s a + amount) = unat (Balance s a) + unat amount" using s(2) assms(2) by (subst unat_add_lt) linarith+
  then show ?thesis
    using s held_put [OF s(1), of a "Balance s a + amount"] by (simp add: payments_ok_def Credit_def)
qed

lemma transfer_ok:
  assumes "payments_ok s n" and "n < 2 ^ 64"
  shows "payments_ok (snd (Transfer s a b amount fee)) n"
proof (cases "pay_ok (fst (Transfer s a b amount fee))")
  case True
  then obtain had where h: "map_of (account_balances s) a = Some had" "\<not> had < amount + fee" "\<not> amount + fee < amount"
    and r: "snd (Transfer s a b amount fee) =
      (let s = Credit (s\<lparr>account_balances := map_put a (had - (amount + fee)) (account_balances s)\<rparr>) b amount in
       s\<lparr>collected_fees := collected_fees s + fee\<rparr>)"
    by (auto simp: Transfer_def Let_def split: if_splits option.splits)
  have s: "sorted_keys (account_balances s)" "held s + unat (collected_fees s) = n" using assms(1) by (simp_all add: payments_ok_def)
  define s1 where "s1 = s\<lparr>account_balances := map_put a (had - (amount + fee)) (account_balances s)\<rparr>"
  have d: "unat (amount + fee) = unat amount + unat fee"
    using h(3) add_no_wrap [of amount fee] by (subst unat_add_lt) (simp_all add: not_less)
  have u: "unat (had - (amount + fee)) + unat amount + unat fee = unat had"
    using h(2) d by (simp add: unat_sub word_le_nat_alt not_less)
  have b: "Balance s a = had" by (simp add: Balance_def h(1))
  have h1: "held s1 + unat amount + unat fee = held s"
    using held_put [OF s(1), of a "had - (amount + fee)"] u by (simp add: s1_def b)
  then have "payments_ok s1 (n - unat amount - unat fee)" using s by (simp add: payments_ok_def s1_def)
  moreover have lt: "n - unat amount - unat fee + unat amount < 2 ^ 64" using assms(2) h1 s(2) by linarith
  ultimately have c: "payments_ok (Credit s1 b amount) (n - unat amount - unat fee + unat amount)" by (rule credit_ok)
  have f: "collected_fees (Credit s1 b amount) = collected_fees s" by (simp add: Credit_def s1_def)
  have "unat (collected_fees s + fee) = unat (collected_fees s) + unat fee"
    using assms(2) h1 s(2) by (subst unat_add_lt) linarith+
  then show ?thesis
    using c h1 s(2) f by (auto simp: r s1_def [symmetric] payments_ok_def Let_def held_def)
next
  case False
  then have "snd (Transfer s a b amount fee) = s" by (auto simp: Transfer_def Let_def split: if_splits option.splits)
  then show ?thesis using assms(1) by simp
qed

text \<open>
  C29. As long as less than 2^64 units have ever been credited, the balances of all accounts and the collected fees are together exactly what was
  credited: no sequence of transfers creates, loses or wraps money, and a transfer that succeeds moves exactly the amount and the fee.
\<close>

theorem transfers_conserve_money:
  assumes "payments_reach s n" and "n < 2 ^ 64"
  shows "held s + unat (collected_fees s) = n
    \<and> (pay_ok (fst (Transfer s a b amount fee)) \<longrightarrow>
        unat (Balance s a) = unat (Balance (snd (Transfer s a b amount fee)) a) + unat amount + unat fee
        \<and> Balance (snd (Transfer s a b amount fee)) b = Balance s b + amount)"
proof -
  have ok: "payments_ok s n"
    using assms
  proof (induction rule: payments_reach.induct)
    case pay_start
    show ?case by (simp add: payments_ok_def PaymentsStateMachine_init_def held_def)
  qed (auto intro: credit_ok transfer_ok)
  have "unat (Balance s a) = unat (Balance (snd (Transfer s a b amount fee)) a) + unat amount + unat fee
        \<and> Balance (snd (Transfer s a b amount fee)) b = Balance s b + amount" if t: "pay_ok (fst (Transfer s a b amount fee))"
  proof -
    obtain had where h: "map_of (account_balances s) a = Some had" "amount + fee \<le> had" "amount \<le> amount + fee" "a \<noteq> b"
      and r: "snd (Transfer s a b amount fee) =
        (let s = Credit (s\<lparr>account_balances := map_put a (had - (amount + fee)) (account_balances s)\<rparr>) b amount in
         s\<lparr>collected_fees := collected_fees s + fee\<rparr>)"
      using t by (auto simp: Transfer_def Let_def not_less split: if_splits option.splits)
    have "unat (had - (amount + fee)) + unat amount + unat fee = unat had"
      using h(2) unat_add_exact [OF h(3)] by (simp add: unat_sub word_le_nat_alt)
    then show ?thesis using h(1,4) by (simp add: r Let_def Credit_def Balance_def)
  qed
  then show ?thesis using ok by (auto simp: payments_ok_def)
qed

theorem transfers_conserve_money_witness:
  "let s = snd (Transfer (Credit PaymentsStateMachine_init ''a'' 100) ''a'' ''b'' 30 1) in
     held s + unat (collected_fees s) = 100"
proof -
  have "payments_reach (snd (Transfer (Credit PaymentsStateMachine_init ''a'' 100) ''a'' ''b'' 30 1)) (0 + unat (100::u64))"
    by (intro pay_transfer pay_credit pay_start)
  from transfers_conserve_money [OF this, of "''a''" "''b''" 1 0] show ?thesis by (simp add: Let_def)
qed

subsection \<open>Channels and contracts\<close>

inductive channel_step :: "PaymentChannel \<Rightarrow> PaymentChannel \<Rightarrow> bool" where
  ch_open: "channel_step c (snd (Channel_Open c))"
| ch_update: "channel_step c (snd (UpdateState c ba bb n sa sb))"
| ch_close: "channel_step c (snd (InitiateClose now c period))"
| ch_finalize: "channel_step c (snd (FinalizeClose now c))"

fun phase :: "ChannelState \<Rightarrow> nat" where
  "phase FUNDING = 0" | "phase OPEN = 1" | "phase CLOSING = 2" | "phase CLOSED = 3"

lemma channel_step_frame:
  assumes "channel_step c d"
  shows "phase (channel_state c) \<le> phase (channel_state d)" "channel_sequence c \<le> channel_sequence d"
    "VerifyBalances c \<Longrightarrow> VerifyBalances d" "1 < phase (channel_state c) \<Longrightarrow> balance_a d = balance_a c \<and> balance_b d = balance_b c"
  using assms
  by (cases rule: channel_step.cases,
      auto simp: Channel_Open_def UpdateState_def InitiateClose_def FinalizeClose_def VerifyBalances_def same_totals_def)+

text \<open>
  A channel only moves forward from funding through open and closing to closed, with growing sequence numbers; the balances
  of both parties always add up to the deposits in 64-bit arithmetic, and from the start of the closing on they are fixed.
\<close>

theorem channel_moves_forward:
  assumes "channel_step\<^sup>*\<^sup>* (PaymentChannel_make pa pb ba bb) c" and "channel_step\<^sup>*\<^sup>* c d"
  shows "phase (channel_state c) \<le> phase (channel_state d) \<and> channel_sequence c \<le> channel_sequence d \<and> VerifyBalances d
    \<and> (channel_state c \<in> {CLOSING, CLOSED} \<longrightarrow> balance_a d = balance_a c \<and> balance_b d = balance_b c)"
proof -
  have "VerifyBalances (PaymentChannel_make pa pb ba bb)" by (simp add: VerifyBalances_def same_totals_def PaymentChannel_make_def)
  with assms(1) have v: "VerifyBalances c" by (induction rule: rtranclp_induct) (auto dest: channel_step_frame(3))
  show ?thesis
    using assms(2)
  proof (induction rule: rtranclp_induct)
    case base
    show ?case using v by simp
  next
    case (step y z)
    note f = channel_step_frame [OF step.hyps(2)]
    have late: "1 < phase (channel_state y)" if "channel_state c \<in> {CLOSING, CLOSED}" using that step.IH by auto
    have "balance_a z = balance_a c \<and> balance_b z = balance_b c" if closing: "channel_state c \<in> {CLOSING, CLOSED}"
      using f(4) [OF late [OF closing]] step.IH closing by auto
    moreover have "phase (channel_state c) \<le> phase (channel_state z)" "channel_sequence c \<le> channel_sequence z"
      using step.IH f(1,2) by (meson order_trans)+
    ultimately show ?case using step.IH f(3) by blast
  qed
qed

theorem channel_moves_forward_witness:
  "let c = snd (Channel_Open (PaymentChannel_make [1] [2] \<lparr>taln = 5, drm = 0, obl = 0\<rparr> \<lparr>taln = 3, drm = 0, obl = 0\<rparr>));
       d = snd (InitiateClose 7 c 10) in
     VerifyBalances (snd (FinalizeClose 20 d)) \<and> balance_a (snd (FinalizeClose 20 d)) = balance_a d"
proof -
  let ?p = "PaymentChannel_make [1] [2] \<lparr>taln = 5, drm = 0, obl = 0\<rparr> \<lparr>taln = 3, drm = 0, obl = 0\<rparr>"
  let ?d = "snd (InitiateClose 7 (snd (Channel_Open ?p)) 10)"
  have "channel_step\<^sup>*\<^sup>* ?p ?d" "channel_step\<^sup>*\<^sup>* ?d (snd (FinalizeClose 20 ?d))"
    by (meson ch_open ch_close ch_finalize r_into_rtranclp rtranclp.rtrancl_into_rtrancl)+
  from channel_moves_forward [OF this]
  show ?thesis by (simp add: Let_def InitiateClose_def Channel_Open_def PaymentChannel_make_def)
qed

text \<open>
  Nobody's signature is checked: two non-empty strings let either party take everything, and the sums are only compared modulo 2^64, so that
  even more than everything passes.
\<close>

lemma channel_taken:
  assumes "channel_state c = OPEN" and "channel_sequence c < n" and "sa \<noteq> []" and "sb \<noteq> []"
    and "taln bb = taln (initial_balance_a c) + taln (initial_balance_b c) - taln ba"
    and "drm bb = drm (initial_balance_a c) + drm (initial_balance_b c) - drm ba"
    and "obl bb = obl (initial_balance_a c) + obl (initial_balance_b c) - obl ba"
  shows "fst (UpdateState c ba bb n sa sb) \<and> balance_a (snd (UpdateState c ba bb n sa sb)) = ba"
  using assms by (simp add: UpdateState_def same_totals_def not_le)

text \<open>A contract is claimed at most once; after its time lock the receiver and the sender both can claim it.\<close>

lemma htlc_claimed_once:
  "fst (ClaimWithPreimage h x) \<Longrightarrow> \<not> fst (ClaimWithPreimage (snd (ClaimWithPreimage h x)) y) \<and> \<not> fst (ClaimWithTimeout (snd (ClaimWithPreimage h x)) t)"
  "fst (ClaimWithTimeout h t) \<Longrightarrow> \<not> fst (ClaimWithPreimage (snd (ClaimWithTimeout h t)) y) \<and> \<not> fst (ClaimWithTimeout (snd (ClaimWithTimeout h t)) t')"
  "\<not> claimed h \<Longrightarrow> HTLC_IsExpired h t \<Longrightarrow> VerifyPreimage h x \<Longrightarrow> fst (ClaimWithPreimage h x) \<and> fst (ClaimWithTimeout h t)"
  by (auto simp: ClaimWithPreimage_def ClaimWithTimeout_def HTLC_IsExpired_def split: if_splits)

lemma route_expiries: "Route_Validate r \<Longrightarrow> sorted_wrt (>) (map cltv_expiry (hops r))"
proof -
  have "expiries_decrease hs \<Longrightarrow> sorted_wrt (>) (map cltv_expiry hs)" for hs
    by (induction hs rule: expiries_decrease.induct) (force split: if_splits)+
  then show "Route_Validate r \<Longrightarrow> ?thesis" by (simp add: Route_Validate_def split: if_splits)
qed

end
