(* ===== verification/Messages.thy ===== *)
theory Messages
  imports Block
begin

section \<open>Messages of the peer-to-peer protocol\<close>

text \<open>
  Models \<open>layer1-talanton/core/p2p/message.h\<close>, \<open>message.cpp\<close>, \<open>protocol.h\<close> and \<open>protocol.cpp\<close>: network addresses,
  the message header and the payloads with their serializers and parsers. A parser gets the bytes from its cursor on; a null
  pointer is the empty payload. The compact sizes of \<open>message.cpp\<close> repeat those of \<open>block.cpp\<close>, which are used here.
  Characters are bytes, a C string is given without its terminating 0.
\<close>

subsection \<open>Addresses\<close>

record NetAddr =
  na_services :: u64
  ip :: bytes
  na_port :: "16 word"
  na_time :: u32

definition NetAddr_init :: NetAddr where
  "NetAddr_init = \<lparr>na_services = 0, ip = replicate 16 0, na_port = 0, na_time = 0\<rparr>"

definition IsIPv4 :: "NetAddr \<Rightarrow> bool" where
  "IsIPv4 a \<longleftrightarrow> take 12 (ip a) = [0, 0, 0, 0, 0, 0, 0, 0, 0, 0, 0xFF, 0xFF]"

definition IsRoutable :: "NetAddr \<Rightarrow> bool" where
  "IsRoutable a =
     (if IsIPv4 a then
        let addr = push_bit 24 (ucast (ip a ! 12)) OR push_bit 16 (ucast (ip a ! 13)) OR push_bit 8 (ucast (ip a ! 14))
                   OR ucast (ip a ! 15) :: u32 in
        if addr AND 0xFF000000 = 0x00000000 then False
        else if addr AND 0xFF000000 = 0x0A000000 then False
        else if addr AND 0xFF000000 = 0x7F000000 then False
        else if addr AND 0xFFFF0000 = 0xA9FE0000 then False
        else if addr AND 0xFFF00000 = 0xAC100000 then False
        else if addr AND 0xFFFF0000 = 0xC0A80000 then False
        else if addr AND 0xF0000000 = 0xE0000000 then False
        else if addr AND 0xF0000000 = 0xF0000000 then False
        else True
      else if ip a = [0, 0, 0, 0, 0, 0, 0, 0, 0, 0, 0, 0, 0, 0, 0, 1] then False
      else if (ip a ! 0) AND 0xFE = 0xFC then False
      else if ip a ! 0 = 0xFE \<and> (ip a ! 1) AND 0xC0 = 0x80 then False
      else True)"

definition be16 :: "16 word \<Rightarrow> bytes" where
  "be16 p = [ucast (drop_bit 8 p), ucast p]"

definition read_be16 :: "bytes \<Rightarrow> 16 word" where
  "read_be16 b = push_bit 8 (ucast (b ! 0)) OR ucast (b ! 1)"

definition SerializeNetAddr :: "bool \<Rightarrow> NetAddr \<Rightarrow> bytes" where
  "SerializeNetAddr include_time a =
     (if include_time then le32 (na_time a) else []) @ le64 (na_services a) @ ip a @ be16 (na_port a)"

text \<open>The address is filled into a default one, so that the time stays 0 when it is not included.\<close>

definition DeserializeNetAddr :: "bool \<Rightarrow> bytes \<Rightarrow> (NetAddr \<times> bytes) outcome" where
  "DeserializeNetAddr include_time input =
     (if include_time \<and> length input < 4 then Nullopt
      else
        let t = (if include_time then read_le32 input else 0); ptr = (if include_time then drop 4 input else input) in
        if length ptr < 26 then Nullopt
        else Parsed (\<lparr>na_services = read_le64 ptr, ip = take 16 (drop 8 ptr), na_port = read_be16 (drop 24 ptr), na_time = t\<rparr>,
                     drop 26 ptr))"

subsection \<open>The header of a message\<close>

abbreviation (input) MAX_MESSAGE_SIZE :: nat where "MAX_MESSAGE_SIZE \<equiv> 33554432"
abbreviation (input) MAX_HEADERS_COUNT :: u64 where "MAX_HEADERS_COUNT \<equiv> 2000"
abbreviation (input) MAX_INV_SIZE :: u64 where "MAX_INV_SIZE \<equiv> 50000"
abbreviation (input) MAX_ADDR_TO_SEND :: u64 where "MAX_ADDR_TO_SEND \<equiv> 1000"
abbreviation (input) MAX_REJECT_MESSAGE_LENGTH :: u64 where "MAX_REJECT_MESSAGE_LENGTH \<equiv> 111"

record MessageHeader =
  magic :: u32
  command :: bytes
  msg_length :: u32
  checksum :: u32

definition MessageHeader_Serialize :: "MessageHeader \<Rightarrow> bytes" where
  "MessageHeader_Serialize h = le32 (magic h) @ command h @ le32 (msg_length h) @ le32 (checksum h)"

text \<open>The caller provides 24 bytes; the last byte of the command is overwritten by 0.\<close>

definition MessageHeader_Deserialize :: "bytes \<Rightarrow> MessageHeader" where
  "MessageHeader_Deserialize data =
     \<lparr>magic = read_le32 data, command = (take 12 (drop 4 data))[11 := 0], msg_length = read_le32 (drop 16 data),
      checksum = read_le32 (drop 20 data)\<rparr>"

definition MessageHeader_IsValid :: "u32 \<Rightarrow> MessageHeader \<Rightarrow> bool" where
  "MessageHeader_IsValid expected_magic h \<longleftrightarrow> magic h = expected_magic \<and> unat (msg_length h) \<le> MAX_MESSAGE_SIZE"

definition CalculateChecksum :: "bytes \<Rightarrow> u32" where
  "CalculateChecksum payload = read_le32 (Hash256d payload)"

definition CreateNetworkMessage :: "u32 \<Rightarrow> bytes \<Rightarrow> bytes \<Rightarrow> bytes" where
  "CreateNetworkMessage net cmd payload =
     (let name = take 11 cmd in
      if length payload > MAX_MESSAGE_SIZE then []
      else MessageHeader_Serialize
             \<lparr>magic = net, command = name @ replicate (12 - length name) 0, msg_length = of_nat (length payload),
              checksum = CalculateChecksum payload\<rparr> @ payload)"

subsection \<open>Payloads\<close>

record VersionMessage =
  vm_version :: u32
  vm_services :: u64
  vm_timestamp :: u64
  addr_recv :: NetAddr
  addr_from :: NetAddr
  vm_nonce :: u64
  user_agent :: bytes
  start_height :: u32
  relay :: bool

definition VersionMessage_Serialize :: "VersionMessage \<Rightarrow> bytes" where
  "VersionMessage_Serialize m =
     le32 (vm_version m) @ le64 (vm_services m) @ le64 (vm_timestamp m) @ SerializeNetAddr False (addr_recv m)
     @ SerializeNetAddr False (addr_from m) @ le64 (vm_nonce m) @ WriteCompactSize (of_nat (length (user_agent m)))
     @ user_agent m @ le32 (start_height m) @ [if relay m then 1 else 0]"

definition read_compact :: "bytes \<Rightarrow> (u64 \<times> bytes) outcome" where
  "read_compact input = (case Block_ReadCompactSizeChecked input of None \<Rightarrow> Nullopt | Some r \<Rightarrow> Parsed r)"

text \<open>A length-prefixed string of at most \<open>bound\<close> bytes.\<close>

definition read_text :: "u64 \<Rightarrow> bytes \<Rightarrow> (bytes \<times> bytes) outcome" where
  "read_text bound input =
     bind_outcome (read_compact input) (\<lambda>(n, ptr).
       if n > bound \<or> length ptr < unat n then Nullopt else Parsed (take (unat n) ptr, drop (unat n) ptr))"

definition VersionMessage_Deserialize :: "bytes \<Rightarrow> VersionMessage outcome" where
  "VersionMessage_Deserialize data =
     (if length data < 85 then Nullopt
      else
        let v = read_le32 data; s = read_le64 (drop 4 data); t = read_le64 (drop 12 data) in
        bind_outcome (DeserializeNetAddr False (drop 20 data)) (\<lambda>(recv, ptr).
        bind_outcome (DeserializeNetAddr False ptr) (\<lambda>(fr, ptr).
          if length ptr < 8 then Nullopt
          else
            let n = read_le64 ptr in
            bind_outcome (read_text 256 (drop 8 ptr)) (\<lambda>(agent, ptr).
              if length ptr < 4 then Nullopt
              else
                let h = read_le32 ptr; ptr = drop 4 ptr in
                if drop 1 ptr \<noteq> [] then Nullopt
                else Parsed \<lparr>vm_version = v, vm_services = s, vm_timestamp = t, addr_recv = recv, addr_from = fr, vm_nonce = n,
                             user_agent = agent, start_height = h, relay = (if ptr \<noteq> [] then hd ptr \<noteq> 0 else True)\<rparr>))))"

definition PingPongMessage_Serialize :: "u64 \<Rightarrow> bytes" where
  "PingPongMessage_Serialize n = le64 n"

definition PingPongMessage_Deserialize :: "bytes \<Rightarrow> u64 outcome" where
  "PingPongMessage_Deserialize data = (if length data \<noteq> 8 then Nullopt else Parsed (read_le64 data))"

text \<open>The type of an inventory entry is any 32-bit number: the cast to the enum does not check.\<close>

record WireInvVect =
  inv_type :: u32
  inv_hash :: bytes

definition InvVect_Serialize :: "WireInvVect \<Rightarrow> bytes" where
  "InvVect_Serialize i = le32 (inv_type i) @ inv_hash i"

definition InvVect_Deserialize :: "bytes \<Rightarrow> WireInvVect" where
  "InvVect_Deserialize data = \<lparr>inv_type = read_le32 data, inv_hash = take 32 (drop 4 data)\<rparr>"

definition read_inv :: "bytes \<Rightarrow> (WireInvVect \<times> bytes) outcome" where
  "read_inv ptr = (if length ptr < 36 then Nullopt else Parsed (InvVect_Deserialize ptr, drop 36 ptr))"

text \<open>A payload is consumed to its end.\<close>

definition at_end :: "('a \<times> bytes) outcome \<Rightarrow> 'a outcome" where
  "at_end m = bind_outcome m (\<lambda>(x, ptr). if ptr \<noteq> [] then Nullopt else Parsed x)"

definition InvMessage_Serialize :: "WireInvVect list \<Rightarrow> bytes" where
  "InvMessage_Serialize inventory = WriteCompactSize (of_nat (length inventory)) @ concat (map InvVect_Serialize inventory)"

definition InvMessage_Deserialize :: "bytes \<Rightarrow> WireInvVect list outcome" where
  "InvMessage_Deserialize data =
     bind_outcome (read_compact data) (\<lambda>(count, ptr).
       if count > MAX_INV_SIZE \<or> unat count > length data div 36 then Nullopt else at_end (read_many read_inv (unat count) ptr))"

definition AddrMessage_Serialize :: "NetAddr list \<Rightarrow> bytes" where
  "AddrMessage_Serialize addresses = WriteCompactSize (of_nat (length addresses)) @ concat (map (SerializeNetAddr True) addresses)"

definition AddrMessage_Deserialize :: "bytes \<Rightarrow> NetAddr list outcome" where
  "AddrMessage_Deserialize data =
     bind_outcome (read_compact data) (\<lambda>(count, ptr).
       if count > MAX_ADDR_TO_SEND then Nullopt else at_end (read_many (DeserializeNetAddr True) (unat count) ptr))"

definition BlockMessage_Serialize :: "Block \<Rightarrow> bytes" where
  "BlockMessage_Serialize = Block_Serialize"

definition BlockMessage_Deserialize :: "bytes \<Rightarrow> Block outcome" where
  "BlockMessage_Deserialize = Block_Deserialize"

definition TxMessage_Serialize :: "Transaction \<Rightarrow> bytes" where
  "TxMessage_Serialize = Transaction_Serialize"

definition TxMessage_Deserialize :: "bytes \<Rightarrow> Transaction outcome" where
  "TxMessage_Deserialize data = at_end (Transaction_DeserializePrefix data)"

record GetHeadersMessage =
  gh_version :: u32
  block_locator_hashes :: "bytes list"
  hash_stop :: bytes

definition GetHeadersMessage_Serialize :: "GetHeadersMessage \<Rightarrow> bytes" where
  "GetHeadersMessage_Serialize m =
     le32 (gh_version m) @ WriteCompactSize (of_nat (length (block_locator_hashes m))) @ concat (block_locator_hashes m) @ hash_stop m"

text \<open>The loop over the locator hashes reads within the length that was checked before it.\<close>

definition read_hash :: "bytes \<Rightarrow> (bytes \<times> bytes) outcome" where
  "read_hash ptr = (if length ptr < 32 then Nullopt else Parsed (take 32 ptr, drop 32 ptr))"

definition GetHeadersMessage_Deserialize :: "bytes \<Rightarrow> GetHeadersMessage outcome" where
  "GetHeadersMessage_Deserialize data =
     (if length data < 37 then Nullopt
      else
        let v = read_le32 data in
        bind_outcome (read_compact (drop 4 data)) (\<lambda>(count, ptr).
          if count > MAX_HEADERS_COUNT then Nullopt
          else if length ptr < unat count * 32 + 32 then Nullopt
          else bind_outcome (read_many read_hash (unat count) ptr) (\<lambda>(hashes, ptr).
                 if drop 32 ptr \<noteq> [] then Nullopt
                 else Parsed \<lparr>gh_version = v, block_locator_hashes = hashes, hash_stop = take 32 ptr\<rparr>)))"

definition write_header_entry :: "BlockHeader \<Rightarrow> bytes" where
  "write_header_entry h = BlockHeader_Serialize h @ WriteCompactSize 0"

definition HeadersMessage_Serialize :: "BlockHeader list \<Rightarrow> bytes" where
  "HeadersMessage_Serialize hs = WriteCompactSize (of_nat (length hs)) @ concat (map write_header_entry hs)"

definition read_header_entry :: "bytes \<Rightarrow> (BlockHeader \<times> bytes) outcome" where
  "read_header_entry ptr =
     (if length ptr < 104 then Nullopt
      else bind_outcome (read_compact (drop 104 ptr)) (\<lambda>(tx_count, rest).
             if tx_count \<noteq> 0 then Nullopt else Parsed (BlockHeader_Deserialize ptr, rest)))"

definition HeadersMessage_Deserialize :: "bytes \<Rightarrow> BlockHeader list outcome" where
  "HeadersMessage_Deserialize data =
     bind_outcome (read_compact data) (\<lambda>(count, ptr).
       if count > MAX_HEADERS_COUNT then Nullopt else at_end (read_many read_header_entry (unat count) ptr))"

record RejectMessage =
  rejected :: bytes
  ccode :: u8
  reason :: bytes
  extra :: bytes

definition RejectMessage_Serialize :: "RejectMessage \<Rightarrow> bytes" where
  "RejectMessage_Serialize m =
     WriteCompactSize (of_nat (length (rejected m))) @ rejected m @ [ccode m] @ WriteCompactSize (of_nat (length (reason m)))
     @ reason m @ extra m"

definition RejectMessage_Deserialize :: "bytes \<Rightarrow> RejectMessage outcome" where
  "RejectMessage_Deserialize data =
     bind_outcome (read_text MAX_REJECT_MESSAGE_LENGTH data) (\<lambda>(msg, ptr).
       if ptr = [] then Nullopt
       else bind_outcome (read_text MAX_REJECT_MESSAGE_LENGTH (tl ptr)) (\<lambda>(why, rest).
              Parsed \<lparr>rejected = msg, ccode = hd ptr, reason = why, extra = rest\<rparr>))"

subsection \<open>Canonical codecs\<close>

text \<open>
  The elements of the counted lists have exactly one encoding: what a reader takes from its input is what the writer makes
  of the value read.
\<close>

locale canonical_codec = byte_codec rd wr wf
  for rd :: "bytes \<Rightarrow> ('a \<times> bytes) outcome" and wr :: "'a \<Rightarrow> bytes" and wf :: "'a \<Rightarrow> bool" +
  assumes written_back: "rd input = Parsed (x, rest) \<Longrightarrow> input = wr x @ rest \<and> wf x"
begin

lemma read_many_written_back:
  "read_many rd n input = Parsed (xs, rest) \<Longrightarrow> input = concat (map wr xs) @ rest \<and> (\<forall>x \<in> set xs. wf x) \<and> length xs = n"
proof (induction n arbitrary: input xs)
  case (Suc n)
  then obtain x input1 xs1 where "rd input = Parsed (x, input1)" and "read_many rd n input1 = Parsed (xs1, rest)" and "xs = x # xs1"
    by (auto simp: bind_outcome_Parsed_conv split: prod.splits)
  with Suc.IH [of input1 xs1] written_back [of input x input1] show ?case by auto
qed simp

lemma whole_list_read: "\<forall>x \<in> set xs. wf x \<Longrightarrow> at_end (read_many rd (length xs) (concat (map wr xs))) = Parsed xs"
  using read_many_written [of xs "[]"] by (simp add: at_end_def)

lemma whole_list_written_back:
  "at_end (read_many rd n input) = Parsed xs \<Longrightarrow> input = concat (map wr xs) \<and> (\<forall>x \<in> set xs. wf x) \<and> length xs = n"
  by (auto simp: at_end_def bind_outcome_Parsed_conv if_Parsed_conv split: prod.splits dest!: read_many_written_back)

end

definition NetAddr_wf :: "NetAddr \<Rightarrow> bool" where
  "NetAddr_wf a \<longleftrightarrow> length (ip a) = 16"

definition InvVect_wf :: "WireInvVect \<Rightarrow> bool" where
  "InvVect_wf i \<longleftrightarrow> length (inv_hash i) = 32"

lemma read_be16_be16 [simp]: "read_be16 (be16 p @ rest) = p"
proof (rule bit_word_eqI)
  fix n
  assume "n < LENGTH(16)"
  then show "bit (read_be16 (be16 p @ rest)) n = bit p n"
    by (cases "n < 8") (simp_all add: read_be16_def be16_def bit_simps less_diff_conv2)
qed

lemma be16_read_be16: "be16 (read_be16 (a # b # rest)) = [a, b]"
  by (simp add: be16_def, intro conjI; rule bit_word_eqI; simp add: read_be16_def bit_simps byte_bit_high)

lemma length_be16 [simp]: "length (be16 p) = 2"
  by (simp add: be16_def)

lemma be16_prefix: "2 \<le> length xs \<Longrightarrow> be16 (read_be16 xs) = take 2 xs"
  using list_nths(1) [of xs] be16_read_be16 by auto

lemma le32_prefix: "4 \<le> length xs \<Longrightarrow> le32 (read_le32 xs) = take 4 xs"
  using list_nths(2) [of xs] le32_read_le32 by auto

lemma le64_prefix: "8 \<le> length xs \<Longrightarrow> le64 (read_le64 xs) = take 8 xs"
  using list_nths(3) [of xs] le64_read_le64 by auto

lemma take_take_drop: "take m xs @ take n (drop m xs) = take (m + n) xs"
  by (simp add: take_add)

lemma read_compact_Write [simp]: "read_compact (WriteCompactSize n @ rest) = Parsed (n, rest)"
  by (simp add: read_compact_def)

lemma read_compact_canonical: "read_compact input = Parsed (n, rest) \<Longrightarrow> input = WriteCompactSize n @ rest"
  by (auto simp: read_compact_def split: option.splits dest: Block_ReadCompactSizeChecked_canonical)

lemma NetAddr_read_written:
  "NetAddr_wf a \<Longrightarrow> t \<or> na_time a = 0 \<Longrightarrow> DeserializeNetAddr t (SerializeNetAddr t a @ rest) = Parsed (a, rest)"
  by (cases a) (auto simp: DeserializeNetAddr_def SerializeNetAddr_def NetAddr_wf_def)

lemma NetAddr_written_back:
  assumes "DeserializeNetAddr t input = Parsed (a, rest)"
  shows "input = SerializeNetAddr t a @ rest \<and> NetAddr_wf a \<and> (t \<or> na_time a = 0)"
proof -
  define ptr where "ptr = (if t then drop 4 input else input)"
  have len: "26 \<le> length ptr" "t \<Longrightarrow> 4 \<le> length input" and rest: "rest = drop 26 ptr"
    and a: "a = \<lparr>na_services = read_le64 ptr, ip = take 16 (drop 8 ptr), na_port = read_be16 (drop 24 ptr),
                 na_time = (if t then read_le32 input else 0)\<rparr>"
    using assms by (auto simp: DeserializeNetAddr_def Let_def ptr_def split: if_splits)
  have "le64 (read_le64 ptr) @ take 16 (drop 8 ptr) @ be16 (read_be16 (drop 24 ptr)) @ drop 26 ptr = ptr"
    using len(1) take_take_drop [of 8 ptr 16] take_take_drop [of 24 ptr 2]
    by (simp add: le64_prefix be16_prefix flip: append_assoc)
  moreover have "input = (if t then le32 (read_le32 input) else []) @ ptr"
    using len(2) by (simp add: ptr_def le32_prefix)
  ultimately show ?thesis using len by (auto simp: a rest SerializeNetAddr_def NetAddr_wf_def)
qed

interpretation net_addr: canonical_codec "DeserializeNetAddr True" "SerializeNetAddr True" NetAddr_wf
proof
  show "suffix rest input" if "DeserializeNetAddr True input = Parsed (a, rest)" for input a rest
    using NetAddr_written_back [OF that] by (simp add: suffix_def)
qed (auto simp: NetAddr_read_written dest: NetAddr_written_back)

lemma InvVect_written_back:
  assumes "read_inv input = Parsed (i, rest)"
  shows "input = InvVect_Serialize i @ rest \<and> InvVect_wf i"
proof -
  have len: "36 \<le> length input" and r: "rest = drop 36 input" "i = InvVect_Deserialize input"
    using assms by (auto simp: read_inv_def split: if_splits)
  have "le32 (read_le32 input) @ take 32 (drop 4 input) @ drop 36 input = input"
    using len take_take_drop [of 4 input 32] by (simp add: le32_prefix flip: append_assoc)
  then show ?thesis using len by (simp add: r InvVect_Serialize_def InvVect_Deserialize_def InvVect_wf_def)
qed

interpretation inv_vect: canonical_codec read_inv InvVect_Serialize InvVect_wf
proof
  show "suffix rest input" if "read_inv input = Parsed (a, rest)" for input a rest
    using InvVect_written_back [OF that] by (simp add: suffix_def)
  show "read_inv (InvVect_Serialize i @ rest) = Parsed (i, rest)" if "InvVect_wf i" for i rest
    using that by (cases i) (simp add: read_inv_def InvVect_Serialize_def InvVect_Deserialize_def InvVect_wf_def)
qed (rule InvVect_written_back)

interpretation hash32: canonical_codec read_hash "\<lambda>h. h" "\<lambda>h. length h = 32"
  by unfold_locales (auto simp: read_hash_def suffix_drop split: if_splits)

lemma BlockHeader_written_back:
  assumes "104 \<le> length input"
  shows "input = BlockHeader_Serialize (BlockHeader_Deserialize input) @ drop 104 input \<and> BlockHeader_wf (BlockHeader_Deserialize input)"
proof -
  have "BlockHeader_Serialize (BlockHeader_Deserialize input) = take 104 input"
    using assms take_take_drop [of 4 input 32] take_take_drop [of 36 input 32] take_take_drop [of 68 input 4]
      take_take_drop [of 72 input 4] take_take_drop [of 76 input 4] take_take_drop [of 80 input 8]
      take_take_drop [of 88 input 8] take_take_drop [of 96 input 8]
    by (simp add: BlockHeader_Serialize_def BlockHeader_Deserialize_def le32_prefix le64_prefix flip: append_assoc)
  then show ?thesis using assms by (simp add: BlockHeader_Deserialize_def BlockHeader_wf_def)
qed

interpretation header_entry: canonical_codec read_header_entry write_header_entry BlockHeader_wf
proof
  have wb: "input = write_header_entry h @ rest \<and> BlockHeader_wf h" if "read_header_entry input = Parsed (h, rest)" for input h rest
    using that BlockHeader_written_back [of input]
    by (auto simp: read_header_entry_def write_header_entry_def bind_outcome_Parsed_conv split: if_splits prod.splits
        dest!: read_compact_canonical)
  show "input = write_header_entry h @ rest \<and> BlockHeader_wf h" if "read_header_entry input = Parsed (h, rest)" for input h rest
    using that by (rule wb)
  show "suffix rest input" if "read_header_entry input = Parsed (h, rest)" for input h rest
    using wb [OF that] by (simp add: suffix_def)
  show "read_header_entry (write_header_entry h @ rest) = Parsed (h, rest)" if "BlockHeader_wf h" for h rest
    using that BlockHeader_read_written [OF that] length_BlockHeader_Serialize [OF that]
    by (simp add: read_header_entry_def write_header_entry_def)
qed

subsection \<open>Payloads round trip\<close>

lemma read_text_written:
  assumes "length s \<le> unat bound"
  shows "read_text bound (WriteCompactSize (of_nat (length s)) @ s @ rest) = Parsed (s, rest)"
proof -
  have "unat (of_nat (length s) :: u64) = length s" using assms unat64_lt [of bound] by (intro unat_of_nat64) simp
  then show ?thesis using assms by (simp add: read_text_def word_less_nat_alt)
qed

definition VersionMessage_wf :: "VersionMessage \<Rightarrow> bool" where
  "VersionMessage_wf m \<longleftrightarrow> NetAddr_wf (addr_recv m) \<and> NetAddr_wf (addr_from m) \<and> na_time (addr_recv m) = 0 \<and> na_time (addr_from m) = 0
     \<and> length (user_agent m) \<le> 256"

lemma length_SerializeNetAddr: "NetAddr_wf a \<Longrightarrow> length (SerializeNetAddr t a) = (if t then 30 else 26)"
  by (simp add: SerializeNetAddr_def NetAddr_wf_def)

lemma VersionMessage_read_written:
  assumes "VersionMessage_wf m"
  shows "VersionMessage_Deserialize (VersionMessage_Serialize m) = Parsed m"
proof -
  have wf: "NetAddr_wf (addr_recv m)" "NetAddr_wf (addr_from m)" "na_time (addr_recv m) = 0" "na_time (addr_from m) = 0"
    and agent: "length (user_agent m) \<le> unat (256 :: u64)"
    using assms by (simp_all add: VersionMessage_wf_def)
  have "\<not> length (VersionMessage_Serialize m) < 85"
    using length_SerializeNetAddr [OF wf(1)] length_SerializeNetAddr [OF wf(2)] by (simp add: VersionMessage_Serialize_def WriteCompactSize_def)
  moreover have "DeserializeNetAddr False (SerializeNetAddr False (addr_recv m) @ r) = Parsed (addr_recv m, r)"
    "DeserializeNetAddr False (SerializeNetAddr False (addr_from m) @ r) = Parsed (addr_from m, r)" for r
    using wf by (simp_all add: NetAddr_read_written)
  ultimately show ?thesis
    using read_text_written [OF agent]
    by (cases m) (simp add: VersionMessage_Deserialize_def VersionMessage_Serialize_def Let_def)
qed

definition GetHeadersMessage_wf :: "GetHeadersMessage \<Rightarrow> bool" where
  "GetHeadersMessage_wf m \<longleftrightarrow> length (block_locator_hashes m) \<le> 2000 \<and> (\<forall>h \<in> set (block_locator_hashes m). length h = 32)
     \<and> length (hash_stop m) = 32"

definition RejectMessage_wf :: "RejectMessage \<Rightarrow> bool" where
  "RejectMessage_wf m \<longleftrightarrow> length (rejected m) \<le> 111 \<and> length (reason m) \<le> 111"

lemma RejectMessage_read_written: "RejectMessage_wf m \<Longrightarrow> RejectMessage_Deserialize (RejectMessage_Serialize m) = Parsed m"
  by (cases m) (simp add: RejectMessage_wf_def RejectMessage_Deserialize_def RejectMessage_Serialize_def read_text_written)

lemma PingPongMessage_read_written: "PingPongMessage_Deserialize (PingPongMessage_Serialize n) = Parsed n"
  by (simp add: PingPongMessage_Deserialize_def PingPongMessage_Serialize_def)

lemma count_small: "n \<le> b \<Longrightarrow> b < 2 ^ 64 \<Longrightarrow> unat (of_nat n :: u64) = n \<and> \<not> (of_nat b :: u64) < of_nat n"
  by (simp add: word_less_nat_alt unat_of_nat64)

lemma concat_length: "\<forall>x \<in> set xs. length (f x) = k \<Longrightarrow> length (concat (map f xs)) = length xs * k"
  by (induction xs) simp_all

lemma InvMessage_read_written:
  assumes "length items \<le> 50000" and "\<forall>i \<in> set items. InvVect_wf i"
  shows "InvMessage_Deserialize (InvMessage_Serialize items) = Parsed items"
proof -
  have "length (concat (map InvVect_Serialize items)) = length items * 36"
    using assms(2) by (intro concat_length) (auto simp: InvVect_Serialize_def InvVect_wf_def)
  then have "length items \<le> length (InvMessage_Serialize items) div 36" by (simp add: InvMessage_Serialize_def)
  then show ?thesis
    using count_small [OF assms(1)] inv_vect.whole_list_read [OF assms(2)]
    by (simp add: InvMessage_Deserialize_def InvMessage_Serialize_def)
qed

lemma AddrMessage_read_written:
  "length addrs \<le> 1000 \<Longrightarrow> \<forall>a \<in> set addrs. NetAddr_wf a \<Longrightarrow> AddrMessage_Deserialize (AddrMessage_Serialize addrs) = Parsed addrs"
  using count_small [of "length addrs" 1000] net_addr.whole_list_read [of addrs]
  by (simp add: AddrMessage_Deserialize_def AddrMessage_Serialize_def)

lemma HeadersMessage_read_written:
  "length hs \<le> 2000 \<Longrightarrow> \<forall>h \<in> set hs. BlockHeader_wf h \<Longrightarrow> HeadersMessage_Deserialize (HeadersMessage_Serialize hs) = Parsed hs"
  using count_small [of "length hs" 2000] header_entry.whole_list_read [of hs]
  by (simp add: HeadersMessage_Deserialize_def HeadersMessage_Serialize_def)

lemma TxMessage_read_written: "Transaction_wf tx \<Longrightarrow> TxMessage_Deserialize (TxMessage_Serialize tx) = Parsed tx"
  using Transaction_read_written [of tx "[]"] by (simp add: TxMessage_Deserialize_def TxMessage_Serialize_def at_end_def)

lemma GetHeadersMessage_read_written:
  assumes "GetHeadersMessage_wf m"
  shows "GetHeadersMessage_Deserialize (GetHeadersMessage_Serialize m) = Parsed m"
proof -
  let ?hs = "block_locator_hashes m"
  have wf: "length ?hs \<le> 2000" "\<forall>h \<in> set ?hs. length h = 32" "length (hash_stop m) = 32"
    using assms by (simp_all add: GetHeadersMessage_wf_def)
  have "length (concat ?hs) = length ?hs * 32" using concat_length [of ?hs id] wf(2) by simp
  moreover have "\<not> length (GetHeadersMessage_Serialize m) < 37"
    using wf(3) by (simp add: GetHeadersMessage_Serialize_def WriteCompactSize_def)
  ultimately show ?thesis
    using wf count_small [OF wf(1)] hash32.read_many_written [OF wf(2), of "hash_stop m"]
    by (cases m) (simp add: GetHeadersMessage_Deserialize_def GetHeadersMessage_Serialize_def Let_def)
qed

lemma GetHeadersMessage_canonical:
  assumes "GetHeadersMessage_Deserialize data = Parsed m"
  shows "GetHeadersMessage_Serialize m = data \<and> GetHeadersMessage_wf m"
proof -
  from assms obtain count ptr hs rest where
    data: "37 \<le> length data" "read_compact (drop 4 data) = Parsed (count, ptr)" and count: "\<not> count > 2000" "unat count * 32 + 32 \<le> length ptr"
    and hs: "read_many read_hash (unat count) ptr = Parsed (hs, rest)" and rest: "drop 32 rest = []"
    and m: "m = \<lparr>gh_version = read_le32 data, block_locator_hashes = hs, hash_stop = take 32 rest\<rparr>"
    by (auto simp: GetHeadersMessage_Deserialize_def Let_def bind_outcome_Parsed_conv if_Parsed_conv split: prod.splits if_splits)
  have h: "ptr = concat hs @ rest" "\<forall>h \<in> set hs. length h = 32" "length hs = unat count"
    using hash32.read_many_written_back [OF hs] by simp_all
  have "length (concat hs) = unat count * 32" using concat_length [of hs id] h by simp
  then have "length rest = 32" using count(2) rest h(1) by simp
  moreover have "data = le32 (read_le32 data) @ drop 4 data" using data(1) by (simp add: le32_prefix)
  ultimately show ?thesis
    using read_compact_canonical [OF data(2)] h count(1)
    by (simp add: m GetHeadersMessage_Serialize_def GetHeadersMessage_wf_def word_less_nat_alt)
qed

lemma InvMessage_written_back:
  assumes "InvMessage_Deserialize data = Parsed items"
  shows "data = InvMessage_Serialize items \<and> length items \<le> 50000 \<and> (\<forall>i \<in> set items. InvVect_wf i)"
proof -
  obtain count ptr where c: "read_compact data = Parsed (count, ptr)" "\<not> count > 50000"
    and items: "at_end (read_many read_inv (unat count) ptr) = Parsed items"
    using assms by (auto simp: InvMessage_Deserialize_def bind_outcome_Parsed_conv if_Parsed_conv split: prod.splits)
  show ?thesis
    using inv_vect.whole_list_written_back [OF items] read_compact_canonical [OF c(1)] c(2)
    by (auto simp: InvMessage_Serialize_def word_less_nat_alt)
qed

lemma AddrMessage_written_back:
  assumes "AddrMessage_Deserialize data = Parsed addrs"
  shows "data = AddrMessage_Serialize addrs \<and> length addrs \<le> 1000 \<and> (\<forall>a \<in> set addrs. NetAddr_wf a)"
proof -
  obtain count ptr where c: "read_compact data = Parsed (count, ptr)" "\<not> count > 1000"
    and addrs: "at_end (read_many (DeserializeNetAddr True) (unat count) ptr) = Parsed addrs"
    using assms by (auto simp: AddrMessage_Deserialize_def bind_outcome_Parsed_conv if_Parsed_conv split: prod.splits)
  show ?thesis
    using net_addr.whole_list_written_back [OF addrs] read_compact_canonical [OF c(1)] c(2)
    by (auto simp: AddrMessage_Serialize_def word_less_nat_alt)
qed

lemma HeadersMessage_written_back:
  assumes "HeadersMessage_Deserialize data = Parsed hs"
  shows "data = HeadersMessage_Serialize hs \<and> length hs \<le> 2000 \<and> (\<forall>h \<in> set hs. BlockHeader_wf h)"
proof -
  obtain count ptr where c: "read_compact data = Parsed (count, ptr)" "\<not> count > 2000"
    and hs: "at_end (read_many read_header_entry (unat count) ptr) = Parsed hs"
    using assms by (auto simp: HeadersMessage_Deserialize_def bind_outcome_Parsed_conv if_Parsed_conv split: prod.splits)
  show ?thesis
    using header_entry.whole_list_written_back [OF hs] read_compact_canonical [OF c(1)] c(2)
    by (auto simp: HeadersMessage_Serialize_def word_less_nat_alt)
qed

lemma PingPongMessage_written_back: "PingPongMessage_Deserialize data = Parsed n \<Longrightarrow> data = PingPongMessage_Serialize n"
  by (auto simp: PingPongMessage_Deserialize_def PingPongMessage_Serialize_def le64_prefix split: if_splits)

text \<open>
  C30. The parsers of inventories, addresses, header requests, headers and pings accept exactly what the serializers write: they
  read a value from some bytes if and only if these are the bytes the serializer writes for it, the value has the lengths its
  C++ type fixes (32-byte hashes, 16-byte addresses, headers of the fixed size), and its lists are within the protocol limits.
\<close>

theorem payload_encodings_canonical:
  "(InvMessage_Deserialize data = Parsed items
      \<longleftrightarrow> data = InvMessage_Serialize items \<and> length items \<le> 50000 \<and> (\<forall>i \<in> set items. length (inv_hash i) = 32))
   \<and> (AddrMessage_Deserialize data = Parsed addrs
      \<longleftrightarrow> data = AddrMessage_Serialize addrs \<and> length addrs \<le> 1000 \<and> (\<forall>a \<in> set addrs. length (ip a) = 16))
   \<and> (GetHeadersMessage_Deserialize data = Parsed request
      \<longleftrightarrow> data = GetHeadersMessage_Serialize request \<and> length (block_locator_hashes request) \<le> 2000
        \<and> (\<forall>h \<in> set (block_locator_hashes request). length h = 32) \<and> length (hash_stop request) = 32)
   \<and> (HeadersMessage_Deserialize data = Parsed hs
      \<longleftrightarrow> data = HeadersMessage_Serialize hs \<and> length hs \<le> 2000 \<and> (\<forall>h \<in> set hs. BlockHeader_wf h))
   \<and> (PingPongMessage_Deserialize data = Parsed n \<longleftrightarrow> data = PingPongMessage_Serialize n)"
proof (intro conjI)
  show "InvMessage_Deserialize data = Parsed items
      \<longleftrightarrow> data = InvMessage_Serialize items \<and> length items \<le> 50000 \<and> (\<forall>i \<in> set items. length (inv_hash i) = 32)"
    using InvMessage_written_back [of data items] InvMessage_read_written [of items] by (auto simp: InvVect_wf_def)
  show "AddrMessage_Deserialize data = Parsed addrs
      \<longleftrightarrow> data = AddrMessage_Serialize addrs \<and> length addrs \<le> 1000 \<and> (\<forall>a \<in> set addrs. length (ip a) = 16)"
    using AddrMessage_written_back [of data addrs] AddrMessage_read_written [of addrs] by (auto simp: NetAddr_wf_def)
  show "GetHeadersMessage_Deserialize data = Parsed request
      \<longleftrightarrow> data = GetHeadersMessage_Serialize request \<and> length (block_locator_hashes request) \<le> 2000
        \<and> (\<forall>h \<in> set (block_locator_hashes request). length h = 32) \<and> length (hash_stop request) = 32"
    using GetHeadersMessage_canonical [of data request] GetHeadersMessage_read_written [of request]
    by (auto simp: GetHeadersMessage_wf_def)
  show "HeadersMessage_Deserialize data = Parsed hs
      \<longleftrightarrow> data = HeadersMessage_Serialize hs \<and> length hs \<le> 2000 \<and> (\<forall>h \<in> set hs. BlockHeader_wf h)"
    using HeadersMessage_written_back [of data hs] HeadersMessage_read_written [of hs] by auto
  show "PingPongMessage_Deserialize data = Parsed n \<longleftrightarrow> data = PingPongMessage_Serialize n"
    using PingPongMessage_written_back [of data n] PingPongMessage_read_written [of n] by auto
qed

theorem payload_encodings_canonical_witness:
  "InvMessage_Deserialize (1 # [2, 0, 0, 0] @ replicate 32 7) = Parsed [\<lparr>inv_type = 2, inv_hash = replicate 32 7\<rparr>]
   \<and> HeadersMessage_Deserialize (HeadersMessage_Serialize []) = Parsed []"
proof -
  have "InvMessage_Serialize [\<lparr>inv_type = 2, inv_hash = replicate 32 7\<rparr>] = 1 # [2, 0, 0, 0] @ replicate 32 7" by code_simp
  then show ?thesis
    using payload_encodings_canonical [of "1 # [2, 0, 0, 0] @ replicate 32 7" "[\<lparr>inv_type = 2, inv_hash = replicate 32 7\<rparr>]"]
      payload_encodings_canonical [of "HeadersMessage_Serialize []" _ _ _ "[]"] by simp
qed

end
