(* ===== verification/Network.thy ===== *)
theory Network
  imports Messages StdMap BlockStorage
begin

section \<open>Peer connections and the network manager\<close>

text \<open>
  Models \<open>layer1-talanton/core/p2p/network_manager.h\<close> and \<open>network_manager.cpp\<close>: the framing, the dispatch and the send queue of a
  connection, and the peers of the manager. The operating system is an argument: what each call of \<open>send\<close> and \<open>recv\<close> returns.
  A callback is modelled by the event it is called with. Each operation runs under the mutex of the data it touches, so that a run of the
  threads is a sequence of the operations below.
\<close>

subsection \<open>The state of a connection\<close>

datatype PeerState = CONNECTING | HANDSHAKE | CONNECTED | DISCONNECTED | BANNED

text \<open>\<open>callbacks\<close> names the commands whose callback is set; \<open>wire\<close> collects the bytes the socket accepted.\<close>

record PeerConnection =
  socket_fd :: int
  peer_address :: string
  peer_port :: "16 word"
  peer_state :: PeerState
  peer_version :: u32
  peer_height :: u32
  peer_services :: u64
  peer_user_agent :: bytes
  network_magic :: u32
  recv_buffer :: bytes
  send_queue :: "bytes list"
  send_queue_offset :: nat
  callbacks :: "string list"
  wire :: bytes

definition PeerConnection_make :: "int \<Rightarrow> string \<Rightarrow> 16 word \<Rightarrow> u32 \<Rightarrow> PeerConnection" where
  "PeerConnection_make fd address port net =
     \<lparr>socket_fd = fd, peer_address = address, peer_port = port, peer_state = CONNECTING, peer_version = 0, peer_height = 0,
      peer_services = 0, peer_user_agent = [], network_magic = net, recv_buffer = [], send_queue = [], send_queue_offset = 0,
      callbacks = [], wire = []\<rparr>"

text \<open>\<open>opened\<close> is the descriptor when creating the socket and starting the connection succeed.\<close>

definition Connect :: "int option \<Rightarrow> PeerConnection \<Rightarrow> bool \<times> PeerConnection" where
  "Connect opened c =
     (if socket_fd c < 0 then
        case opened of
          None \<Rightarrow> (False, c\<lparr>socket_fd := -1\<rparr>)
        | Some fd \<Rightarrow> (True, c\<lparr>socket_fd := fd, peer_state := HANDSHAKE\<rparr>)
      else (True, c\<lparr>peer_state := HANDSHAKE\<rparr>))"

definition Disconnect :: "PeerConnection \<Rightarrow> PeerConnection" where
  "Disconnect c = (if socket_fd c \<ge> 0 then c\<lparr>socket_fd := -1\<rparr> else c)\<lparr>peer_state := DISCONNECTED\<rparr>"

definition IsConnected :: "PeerConnection \<Rightarrow> bool" where
  "IsConnected c \<longleftrightarrow> peer_state c = CONNECTED"

subsection \<open>Sending\<close>

text \<open>The results of the calls of \<open>send\<close>, which accepts at most what it is offered; when the list ends, the socket blocks.\<close>

datatype send_result = Sent nat | SendBlocked | SendError
datatype send_status = AllSent | Blocked | Failed

fun send_loop :: "send_result list \<Rightarrow> bytes \<Rightarrow> bytes \<Rightarrow> send_status \<times> bytes \<times> bytes" where
  "send_loop rs [] w = (AllSent, [], w)"
| "send_loop [] data w = (Blocked, data, w)"
| "send_loop (Sent n # rs) data w = send_loop rs (drop n data) (w @ take n data)"
| "send_loop (SendBlocked # rs) data w = (Blocked, data, w)"
| "send_loop (SendError # rs) data w = (Failed, data, w)"

definition SendRaw :: "send_result list \<Rightarrow> bytes \<Rightarrow> PeerConnection \<Rightarrow> bool \<times> PeerConnection" where
  "SendRaw rs data c =
     (if socket_fd c < 0 \<or> peer_state c = DISCONNECTED then (False, c)
      else if send_queue c \<noteq> [] then (True, c\<lparr>send_queue := send_queue c @ [data]\<rparr>)
      else case send_loop rs data (wire c) of
        (AllSent, rest, w) \<Rightarrow> (True, c\<lparr>wire := w\<rparr>)
      | (Blocked, rest, w) \<Rightarrow> (True, c\<lparr>wire := w, send_queue := [rest]\<rparr>)
      | (Failed, rest, w) \<Rightarrow> (False, c\<lparr>wire := w\<rparr>))"

text \<open>A result of 0 bytes ends the draining, though not the loop of \<open>SendRaw\<close>.\<close>

fun drain :: "send_result list \<Rightarrow> bytes list \<Rightarrow> nat \<Rightarrow> bytes \<Rightarrow> bool \<times> bytes list \<times> nat \<times> bytes" where
  "drain rs [] off w = (True, [], off, w)"
| "drain [] (d # q) off w = (if off < length d then (True, d # q, off, w) else drain [] q 0 w)"
| "drain (r # rs) (d # q) off w =
     (if off < length d then
        case r of
          SendBlocked \<Rightarrow> (True, d # q, off, w)
        | SendError \<Rightarrow> (False, d # q, off, w)
        | Sent n \<Rightarrow>
            if n = 0 then (True, d # q, off, w)
            else drain rs (d # q) (off + min n (length d - off)) (w @ take n (drop off d))
      else drain (r # rs) q 0 w)"

definition DrainSendQueue :: "send_result list \<Rightarrow> PeerConnection \<Rightarrow> bool \<times> PeerConnection" where
  "DrainSendQueue rs c =
     (if socket_fd c < 0 \<or> peer_state c = DISCONNECTED then (False, c)
      else
        let (ok, q, off, w) = drain rs (send_queue c) (send_queue_offset c) (wire c) in
        (ok, c\<lparr>send_queue := q, send_queue_offset := off, wire := w\<rparr>))"

definition HasQueuedSends :: "PeerConnection \<Rightarrow> bool" where
  "HasQueuedSends c \<longleftrightarrow> send_queue c \<noteq> []"

definition SendMessage :: "send_result list \<Rightarrow> string \<Rightarrow> bytes \<Rightarrow> PeerConnection \<Rightarrow> bool \<times> PeerConnection" where
  "SendMessage rs cmd payload c = SendRaw rs (CreateNetworkMessage (network_magic c) (bytes_of_string cmd) payload) c"

subsection \<open>Dispatch\<close>

datatype PeerEvent =
    OnVersion VersionMessage
  | OnVerack
  | OnPing u64
  | OnPong u64
  | OnInv "WireInvVect list"
  | OnGetData "WireInvVect list"
  | OnBlock Block
  | OnTx Transaction
  | OnAddr "NetAddr list"
  | OnGetHeaders GetHeadersMessage
  | OnHeaders "BlockHeader list"

text \<open>What the \<open>Send...\<close> functions send: the command and the payload. There is no function that sends headers; a sender of them would use their serializer.\<close>

fun message_of :: "PeerEvent \<Rightarrow> string \<times> bytes" where
  "message_of (OnVersion m) = (''version'', VersionMessage_Serialize m)"
| "message_of OnVerack = (''verack'', [])"
| "message_of (OnPing n) = (''ping'', PingPongMessage_Serialize n)"
| "message_of (OnPong n) = (''pong'', PingPongMessage_Serialize n)"
| "message_of (OnInv items) = (''inv'', InvMessage_Serialize items)"
| "message_of (OnGetData items) = (''getdata'', InvMessage_Serialize items)"
| "message_of (OnBlock b) = (''block'', BlockMessage_Serialize b)"
| "message_of (OnTx tx) = (''tx'', TxMessage_Serialize tx)"
| "message_of (OnAddr addrs) = (''addr'', AddrMessage_Serialize addrs)"
| "message_of (OnGetHeaders m) = (''getheaders'', GetHeadersMessage_Serialize m)"
| "message_of (OnHeaders hs) = (''headers'', HeadersMessage_Serialize hs)"

definition Send :: "send_result list \<Rightarrow> PeerEvent \<Rightarrow> PeerConnection \<Rightarrow> bool \<times> PeerConnection" where
  "Send rs e c = (let (cmd, payload) = message_of e in SendMessage rs cmd payload c)"

text \<open>\<open>msg && on_x_\<close>: the callback runs when the payload parses and the callback is set; an exception of the parser leaves the dispatch.\<close>

definition deliver :: "string \<Rightarrow> ('a \<Rightarrow> PeerEvent) \<Rightarrow> 'a outcome \<Rightarrow> PeerConnection \<Rightarrow> cpp_error + PeerEvent list" where
  "deliver cmd event msg c =
     (case msg of
        Threw e \<Rightarrow> Inl e
      | Nullopt \<Rightarrow> Inr []
      | Parsed m \<Rightarrow> Inr (if cmd \<in> set (callbacks c) then [event m] else []))"

definition command_name :: "MessageHeader \<Rightarrow> bytes" where
  "command_name h = takeWhile (\<lambda>b. b \<noteq> 0) (command h)"

definition ProcessMessage :: "MessageHeader \<Rightarrow> bytes \<Rightarrow> PeerConnection \<Rightarrow> cpp_error + PeerEvent list \<times> PeerConnection" where
  "ProcessMessage h payload c =
     (let named = (\<lambda>cmd. command_name h = bytes_of_string cmd);
          pass = (\<lambda>r. case r of Inl e \<Rightarrow> Inl e | Inr events \<Rightarrow> Inr (events, c)) in
      if named ''version'' then
        (case VersionMessage_Deserialize payload of
           Threw e \<Rightarrow> Inl e
         | Nullopt \<Rightarrow> Inr ([], c)
         | Parsed m \<Rightarrow>
             if ''version'' \<in> set (callbacks c)
             then Inr ([OnVersion m], c\<lparr>peer_version := vm_version m, peer_height := start_height m, peer_services := vm_services m,
                                        peer_user_agent := user_agent m\<rparr>)
             else Inr ([], c))
      else if named ''verack'' then
        Inr (if ''verack'' \<in> set (callbacks c) then [OnVerack] else [], c\<lparr>peer_state := CONNECTED\<rparr>)
      else if named ''ping'' then pass (deliver ''ping'' OnPing (PingPongMessage_Deserialize payload) c)
      else if named ''pong'' then pass (deliver ''pong'' OnPong (PingPongMessage_Deserialize payload) c)
      else if named ''inv'' then pass (deliver ''inv'' OnInv (InvMessage_Deserialize payload) c)
      else if named ''getdata'' then pass (deliver ''getdata'' OnGetData (InvMessage_Deserialize payload) c)
      else if named ''block'' then pass (deliver ''block'' OnBlock (BlockMessage_Deserialize payload) c)
      else if named ''tx'' then pass (deliver ''tx'' OnTx (TxMessage_Deserialize payload) c)
      else if named ''addr'' then pass (deliver ''addr'' OnAddr (AddrMessage_Deserialize payload) c)
      else if named ''getheaders'' then pass (deliver ''getheaders'' OnGetHeaders (GetHeadersMessage_Deserialize payload) c)
      else if named ''headers'' then pass (deliver ''headers'' OnHeaders (HeadersMessage_Deserialize payload) c)
      else Inr ([], c))"

subsection \<open>Receiving\<close>

text \<open>The result of a call of \<open>recv\<close>, which returns at most what was asked for; no bytes mean that the connection was closed.\<close>

datatype recv_result = Received bytes | RecvBlocked | RecvError

definition ReceiveRaw :: "recv_result \<Rightarrow> nat \<Rightarrow> PeerConnection \<Rightarrow> bool \<times> PeerConnection" where
  "ReceiveRaw r n c =
     (case r of
        RecvBlocked \<Rightarrow> (True, c)
      | RecvError \<Rightarrow> (False, c)
      | Received data \<Rightarrow>
          if take n data = [] then (False, c\<lparr>peer_state := DISCONNECTED\<rparr>)
          else (True, c\<lparr>recv_buffer := recv_buffer c @ take n data\<rparr>))"

definition receive_up_to :: "nat \<Rightarrow> recv_result \<Rightarrow> nat \<Rightarrow> PeerConnection \<Rightarrow> bool \<times> PeerConnection" where
  "receive_up_to size_wanted r n c = (if length (recv_buffer c) < size_wanted then ReceiveRaw r n c else (True, c))"

definition ReceiveMessage :: "recv_result \<Rightarrow> recv_result \<Rightarrow> PeerConnection \<Rightarrow> cpp_error + bool \<times> PeerEvent list \<times> PeerConnection" where
  "ReceiveMessage r1 r2 c =
     (let (ok, c) = receive_up_to 24 r1 1024 c in
      if \<not> ok then Inr (False, [], c)
      else if length (recv_buffer c) < 24 then Inr (True, [], c)
      else
        let h = MessageHeader_Deserialize (recv_buffer c) in
        if \<not> MessageHeader_IsValid (network_magic c) h then Inr (False, [], c)
        else
          let total_size = 24 + unat (msg_length h); (ok, c) = receive_up_to total_size r2 4096 c in
          if \<not> ok then Inr (False, [], c)
          else if length (recv_buffer c) < total_size then Inr (True, [], c)
          else
            case ProcessMessage h (take (unat (msg_length h)) (drop 24 (recv_buffer c))) c of
              Inl e \<Rightarrow> Inl e
            | Inr (events, c) \<Rightarrow> Inr (True, events, c\<lparr>recv_buffer := drop total_size (recv_buffer c)\<rparr>))"

subsection \<open>The manager\<close>

text \<open>One turn of the loop of a handler thread: the results of the system calls it makes.\<close>

record Turn =
  drain_results :: "send_result list"
  first_recv :: recv_result
  second_recv :: recv_result
  pong_results :: "send_result list"

text \<open>
  The callback of a ping answers with a pong. It runs inside of \<open>ReceiveMessage\<close>, but only touches the sending side, while what
  follows there only touches the receive buffer.
\<close>

fun answer_pings :: "send_result list \<Rightarrow> PeerEvent list \<Rightarrow> PeerConnection \<Rightarrow> PeerConnection" where
  "answer_pings rs (OnPing n # events) c = answer_pings rs events (snd (Send rs (OnPong n) c))"
| "answer_pings rs (e # events) c = answer_pings rs events c"
| "answer_pings rs [] c = c"

text \<open>\<open>running_\<close> holds for as many turns as are given.\<close>

fun peer_loop :: "Turn list \<Rightarrow> PeerConnection \<Rightarrow> cpp_error + PeerEvent list \<times> PeerConnection" where
  "peer_loop [] c = Inr ([], c)"
| "peer_loop (t # turns) c =
     (if \<not> IsConnected c then Inr ([], c)
      else
        let (ok, c) = DrainSendQueue (drain_results t) c in
        if \<not> ok then Inr ([], c)
        else
          case ReceiveMessage (first_recv t) (second_recv t) c of
            Inl e \<Rightarrow> Inl e
          | Inr (ok, events, c) \<Rightarrow>
              let c = answer_pings (pong_results t) events c in
              if \<not> ok then Inr (events, c)
              else
                case peer_loop turns c of
                  Inl e \<Rightarrow> Inl e
                | Inr (later, c) \<Rightarrow> Inr (events @ later, c))"

record DNSSeed =
  hostname :: string
  default_port :: "16 word"

text \<open>The threads the manager starts: a handler of an accepted peer, and one that connects to a peer and then handles it.\<close>

datatype ConnectionThread = HandlePeerThread string | ConnectOutboundThread string "16 word"

record NetworkManager =
  listen_port :: "16 word"
  nm_magic :: u32
  nm_running :: bool
  nm_peers :: "(string \<times> PeerConnection) list"
  dns_seeds :: "DNSSeed list"
  banned_peers :: "string set"
  nm_callbacks :: "string list"
  connection_threads :: "ConnectionThread list"

text \<open>
  What the manager tells the node: the callback \<open>on_new_peer_\<close>, and one callback per kind of message. \<open>nm_callbacks\<close> names those
  that are set (\<open>SetOnNewPeer\<close>, \<open>SetOnBlock\<close> and so on).
\<close>

datatype NodeEvent = NewPeer string | FromPeer string PeerEvent

definition SetCallback :: "string \<Rightarrow> NetworkManager \<Rightarrow> NetworkManager" where
  "SetCallback name m = m\<lparr>nm_callbacks := name # nm_callbacks m\<rparr>"

definition NetworkManager_make :: "16 word \<Rightarrow> u32 \<Rightarrow> NetworkManager" where
  "NetworkManager_make port net =
     \<lparr>listen_port = port, nm_magic = net, nm_running = False, nm_peers = [], dns_seeds = [], banned_peers = {},
      nm_callbacks = [], connection_threads = []\<rparr>"

text \<open>\<open>listening\<close>: the listen socket could be created.\<close>

definition Manager_Start :: "bool \<Rightarrow> NetworkManager \<Rightarrow> bool \<times> NetworkManager" where
  "Manager_Start listening m =
     (if nm_running m then (False, m) else if \<not> listening then (False, m) else (True, m\<lparr>nm_running := True\<rparr>))"

definition Manager_Stop :: "NetworkManager \<Rightarrow> NetworkManager" where
  "Manager_Stop m = (if \<not> nm_running m then m else m\<lparr>nm_running := False, nm_peers := [], connection_threads := []\<rparr>)"

definition IsBanned :: "NetworkManager \<Rightarrow> string \<Rightarrow> bool" where
  "IsBanned m address \<longleftrightarrow> address \<in> banned_peers m"

definition MakePeerId :: "string \<Rightarrow> 16 word \<Rightarrow> string" where
  "MakePeerId address port = address @ '':'' @ dec (unat port)"

text \<open>One connection of \<open>AcceptLoop\<close>, with its descriptor and address: a handler thread is started and the node is told.\<close>

definition accept_peer :: "int \<Rightarrow> string \<Rightarrow> 16 word \<Rightarrow> NetworkManager \<Rightarrow> NodeEvent list \<times> NetworkManager" where
  "accept_peer client_socket address port m =
     (if IsBanned m address then ([], m)
      else
        let peer_id = MakePeerId address port in
        if length (nm_peers m) \<ge> 125 then ([], m)
        else
          (if ''new_peer'' \<in> set (nm_callbacks m) then [NewPeer peer_id] else [],
           m\<lparr>nm_peers := map_put peer_id (PeerConnection_make client_socket address port (nm_magic m)) (nm_peers m),
             connection_threads := connection_threads m @ [HandlePeerThread peer_id]\<rparr>))"

definition handled_commands :: "string list" where
  "handled_commands = [''block'', ''tx'', ''inv'', ''getdata'', ''getheaders'', ''headers'', ''ping'']"

text \<open>The callbacks set on the connection pass an event on when the manager's own callback is set; the one of pings answers.\<close>

definition passed_on :: "NetworkManager \<Rightarrow> string \<Rightarrow> PeerEvent list \<Rightarrow> NodeEvent list" where
  "passed_on m peer_id events =
     map (FromPeer peer_id)
       (filter (\<lambda>e. fst (message_of e) \<in> set (nm_callbacks m) \<and> fst (message_of e) \<noteq> ''ping'') events)"

text \<open>The events handed to the node, the connection as it is given up, and the manager.\<close>

definition HandlePeer :: "Turn list \<Rightarrow> string \<Rightarrow> NetworkManager \<Rightarrow> cpp_error + NodeEvent list \<times> PeerConnection option \<times> NetworkManager" where
  "HandlePeer turns peer_id m =
     (case map_of (nm_peers m) peer_id of
        None \<Rightarrow> Inr ([], None, m)
      | Some c \<Rightarrow>
          let m = m\<lparr>nm_peers := map_erase peer_id (nm_peers m)\<rparr> in
          case peer_loop turns (c\<lparr>callbacks := handled_commands\<rparr>) of
            Inl e \<Rightarrow> Inl e
          | Inr (events, c) \<Rightarrow> Inr (passed_on m peer_id events, Some (Disconnect c), m))"

text \<open>A thread is started that connects to the peer.\<close>

definition Manager_AddPeer :: "string \<Rightarrow> 16 word \<Rightarrow> NetworkManager \<Rightarrow> NetworkManager" where
  "Manager_AddPeer address port m =
     (if IsBanned m address then m
      else m\<lparr>connection_threads := connection_threads m @ [ConnectOutboundThread address port]\<rparr>)"

text \<open>\<open>ConnectOutbound\<close> up to its call of \<open>HandlePeer\<close>.\<close>

definition ConnectOutbound :: "int option \<Rightarrow> string \<Rightarrow> 16 word \<Rightarrow> NetworkManager \<Rightarrow> bool \<times> NetworkManager" where
  "ConnectOutbound opened address port m =
     (let (ok, c) = Connect opened (PeerConnection_make (-1) address port (nm_magic m)) in
      if \<not> ok then (False, m)
      else (True, m\<lparr>nm_peers := map_put (MakePeerId address port) c (nm_peers m)\<rparr>))"

definition RemovePeer :: "string \<Rightarrow> NetworkManager \<Rightarrow> NetworkManager" where
  "RemovePeer peer_id m = m\<lparr>nm_peers := map_erase peer_id (nm_peers m)\<rparr>"

definition BanPeer :: "string \<Rightarrow> NetworkManager \<Rightarrow> NetworkManager" where
  "BanPeer peer_id m =
     (let m = (if CHR '':'' \<in> set peer_id
               then m\<lparr>banned_peers := insert (takeWhile (\<lambda>ch. ch \<noteq> CHR '':'') peer_id) (banned_peers m)\<rparr> else m) in
      RemovePeer peer_id m)"

definition GetConnectedPeers :: "NetworkManager \<Rightarrow> string list" where
  "GetConnectedPeers m = map fst (filter (\<lambda>(peer_id, c). IsConnected c) (nm_peers m))"

definition GetPeerCount :: "NetworkManager \<Rightarrow> nat" where
  "GetPeerCount m = length (filter (\<lambda>(peer_id, c). IsConnected c) (nm_peers m))"

text \<open>\<open>BroadcastBlock\<close>, \<open>BroadcastTransaction\<close> and \<open>BroadcastInv\<close>; the results of the sends are given per peer.\<close>

definition Broadcast :: "(string \<Rightarrow> send_result list) \<Rightarrow> PeerEvent \<Rightarrow> NetworkManager \<Rightarrow> NetworkManager" where
  "Broadcast rs e m =
     m\<lparr>nm_peers := map (\<lambda>(peer_id, c). (peer_id, if IsConnected c then snd (Send (rs peer_id) e c) else c)) (nm_peers m)\<rparr>"

text \<open>\<open>SendBlockToPeer\<close>, \<open>SendTxToPeer\<close> and \<open>SendGetDataToPeer\<close>.\<close>

definition SendToPeer :: "send_result list \<Rightarrow> string \<Rightarrow> PeerEvent \<Rightarrow> NetworkManager \<Rightarrow> bool \<times> NetworkManager" where
  "SendToPeer rs peer_id e m =
     (case map_of (nm_peers m) peer_id of
        None \<Rightarrow> (False, m)
      | Some c \<Rightarrow>
          if \<not> IsConnected c then (False, m)
          else let (ok, c) = Send rs e c in (ok, m\<lparr>nm_peers := map_put peer_id c (nm_peers m)\<rparr>))"

definition RequestHeaders :: "send_result list \<Rightarrow> string \<Rightarrow> bytes list \<Rightarrow> NetworkManager \<Rightarrow> NetworkManager" where
  "RequestHeaders rs peer_id locator m =
     snd (SendToPeer rs peer_id (OnGetHeaders \<lparr>gh_version = 70001, block_locator_hashes = locator, hash_stop = zero_hash\<rparr>) m)"

definition RequestBlocks :: "send_result list \<Rightarrow> string \<Rightarrow> u32 \<Rightarrow> u32 \<Rightarrow> NetworkManager \<Rightarrow> NetworkManager" where
  "RequestBlocks rs peer_id first_height count m =
     RequestHeaders rs peer_id [le32 first_height @ le32 count @ replicate 24 0] m"

definition AddDNSSeed :: "string \<Rightarrow> 16 word \<Rightarrow> NetworkManager \<Rightarrow> NetworkManager" where
  "AddDNSSeed name port m = m\<lparr>dns_seeds := dns_seeds m @ [\<lparr>hostname = name, default_port = port\<rparr>]\<rparr>"

text \<open>\<open>resolve\<close> is the list of addresses \<open>getaddrinfo\<close> gives, empty when it fails.\<close>

definition QueryDNSSeeds :: "(string \<Rightarrow> string list) \<Rightarrow> NetworkManager \<Rightarrow> NetworkManager" where
  "QueryDNSSeeds resolve m =
     foldl (\<lambda>m seed. foldl (\<lambda>m address. Manager_AddPeer address (default_port seed) m) m (resolve (hostname seed)))
       m (dns_seeds m)"

subsection \<open>Sent messages arrive\<close>

definition event_wf :: "PeerEvent \<Rightarrow> bool" where
  "event_wf e \<longleftrightarrow>
     (case e of
        OnVersion m \<Rightarrow> VersionMessage_wf m
      | OnInv items \<Rightarrow> length items \<le> 50000 \<and> (\<forall>i \<in> set items. InvVect_wf i)
      | OnGetData items \<Rightarrow> length items \<le> 50000 \<and> (\<forall>i \<in> set items. InvVect_wf i)
      | OnBlock b \<Rightarrow> Block_wf b
      | OnTx tx \<Rightarrow> Transaction_wf tx
      | OnAddr addrs \<Rightarrow> length addrs \<le> 1000 \<and> (\<forall>a \<in> set addrs. NetAddr_wf a)
      | OnGetHeaders m \<Rightarrow> GetHeadersMessage_wf m
      | OnHeaders hs \<Rightarrow> length hs \<le> 2000 \<and> (\<forall>h \<in> set hs. BlockHeader_wf h)
      | _ \<Rightarrow> True)"

lemma takeWhile_padded: "0 \<notin> set xs \<Longrightarrow> takeWhile (\<lambda>b. b \<noteq> 0) (xs @ replicate n (0::u8)) = xs"
  by (induction xs) (auto simp: takeWhile_replicate)

lemma header_of_message:
  fixes net :: u32 and rest :: bytes
  assumes "length cmd \<le> 11" and "0 \<notin> set cmd" and "length payload \<le> MAX_MESSAGE_SIZE"
  defines "h \<equiv> MessageHeader_Deserialize (CreateNetworkMessage net cmd payload @ rest)"
  shows "magic h = net" "command_name h = cmd" "unat (msg_length h) = length payload" "checksum h = CalculateChecksum payload"
    "length (CreateNetworkMessage net cmd payload) = 24 + length payload" "drop 24 (CreateNetworkMessage net cmd payload) = payload"
proof -
  have name: "take 11 cmd = cmd" "length (cmd @ replicate (12 - length cmd) 0) = 12" using assms(1) by simp_all
  have m: "CreateNetworkMessage net cmd payload =
      le32 net @ (cmd @ replicate (12 - length cmd) 0) @ le32 (of_nat (length payload)) @ le32 (CalculateChecksum payload) @ payload"
    using assms(3) name by (simp add: CreateNetworkMessage_def MessageHeader_Serialize_def Let_def)
  show "magic h = net" by (simp add: h_def MessageHeader_Deserialize_def m)
  have "(cmd @ replicate (12 - length cmd) 0)[11 := 0] = cmd @ replicate (12 - length cmd) 0"
    using assms(1) list_update_id [of "replicate (12 - length cmd) 0" "11 - length cmd"] by (simp add: list_update_append)
  then show "command_name h = cmd"
    using name(2) assms(2) by (simp add: h_def MessageHeader_Deserialize_def command_name_def m takeWhile_padded)
  show "unat (msg_length h) = length payload"
    using assms(1,3) by (simp add: h_def MessageHeader_Deserialize_def m unsigned_of_nat take_bit_nat_eq_self)
  show "checksum h = CalculateChecksum payload" using assms(1) by (simp add: h_def MessageHeader_Deserialize_def m)
  show "length (CreateNetworkMessage net cmd payload) = 24 + length payload" "drop 24 (CreateNetworkMessage net cmd payload) = payload"
    using assms(1) by (simp_all add: m)
qed

lemma bytes_of_string_inject [simp]: "bytes_of_string a = bytes_of_string b \<longleftrightarrow> a = b"
proof -
  have "inj (\<lambda>ch. of_nat (of_char ch) :: u8)"
  proof (rule injI)
    fix x y :: char
    assume "(of_nat (of_char x) :: u8) = of_nat (of_char y)"
    then have "unat (of_nat (of_char x) :: u8) = unat (of_nat (of_char y) :: u8)" by simp
    then show "x = y" by (simp add: unsigned_of_nat take_bit_nat_eq_self)
  qed
  then show ?thesis by (simp add: bytes_of_string_def)
qed

text \<open>What the connection notes when it delivers an event.\<close>

fun noted :: "PeerEvent \<Rightarrow> PeerConnection \<Rightarrow> PeerConnection" where
  "noted (OnVersion m) c =
     c\<lparr>peer_version := vm_version m, peer_height := start_height m, peer_services := vm_services m, peer_user_agent := user_agent m\<rparr>"
| "noted OnVerack c = c\<lparr>peer_state := CONNECTED\<rparr>"
| "noted e c = c"

lemmas payload_round_trips = VersionMessage_read_written PingPongMessage_read_written InvMessage_read_written AddrMessage_read_written
  GetHeadersMessage_read_written HeadersMessage_read_written TxMessage_read_written Block_Serialize_read

lemma ProcessMessage_message_of:
  assumes "event_wf e" and "command_name h = bytes_of_string (fst (message_of e))" and "fst (message_of e) \<in> set (callbacks c)"
  shows "ProcessMessage h (snd (message_of e)) c = Inr ([e], noted e c)"
  using assms
  by (cases e) (simp_all add: ProcessMessage_def deliver_def event_wf_def payload_round_trips BlockMessage_Deserialize_def BlockMessage_Serialize_def)

lemma send_loop_result:
  "send_loop rs data w = (st, rest, w1) \<Longrightarrow> w1 @ rest = w @ data \<and> (st = AllSent \<longrightarrow> rest = []) \<and> (st = Blocked \<longrightarrow> rest \<noteq> [])"
  by (induction rs data w rule: send_loop.induct) auto

lemma send_direct:
  assumes "SendRaw rs data c = (True, c1)" and "send_queue c = []" and "send_queue c1 = []"
  shows "wire c1 = wire c @ data"
  using assms by (auto simp: SendRaw_def split: if_splits prod.splits send_status.splits dest!: send_loop_result)

lemma message_of_name: "length (bytes_of_string (fst (message_of e))) \<le> 11 \<and> 0 \<notin> set (bytes_of_string (fst (message_of e)))"
  by (cases e) (simp_all add: bytes_of_string_def)

lemma buffered_message_processed:
  assumes "length pre = 20" and "length chk = 4" and "magic (MessageHeader_Deserialize (pre @ chk @ post)) = network_magic c"
    and "recv_buffer c = pre @ chk @ post" and "unat (msg_length (MessageHeader_Deserialize (pre @ chk @ post))) = n"
    and "n \<le> length post" and "n \<le> MAX_MESSAGE_SIZE"
  shows "ReceiveMessage r1 r2 c =
    (case ProcessMessage (MessageHeader_Deserialize (pre @ chk @ post)) (take n post) c of
       Inl e \<Rightarrow> Inl e | Inr (events, c) \<Rightarrow> Inr (True, events, c\<lparr>recv_buffer := drop (24 + n) (recv_buffer c)\<rparr>))"
  using assms by (simp add: ReceiveMessage_def receive_up_to_def MessageHeader_IsValid_def Let_def)

text \<open>
  C31. What one node sends arrives at the other: when a connection with an empty queue sends a message to the end and the bytes it put on the
  wire start the receive buffer of a connection of the same network that has a callback for the command, the next \<open>ReceiveMessage\<close>, whatever
  the socket does, delivers exactly the value that was sent, and leaves what follows in the buffer.
\<close>

theorem sent_messages_arrive:
  assumes "event_wf e" and "length (snd (message_of e)) \<le> MAX_MESSAGE_SIZE"
    and "Send rs e s = (True, s1)" and "send_queue s = []" and "send_queue s1 = []" and "network_magic s = network_magic c"
    and "recv_buffer c = drop (length (wire s)) (wire s1) @ rest" and "fst (message_of e) \<in> set (callbacks c)"
  shows "ReceiveMessage r1 r2 c = Inr (True, [e], (noted e c)\<lparr>recv_buffer := rest\<rparr>)"
proof -
  obtain cmd payload where m: "message_of e = (cmd, payload)" by fastforce
  let ?msg = "CreateNetworkMessage (network_magic c) (bytes_of_string cmd) payload"
  have "wire s1 = wire s @ ?msg"
    using assms(3,6) by (intro send_direct [OF _ assms(4,5)]) (simp add: Send_def SendMessage_def m)
  then have buf: "recv_buffer c = ?msg @ rest" using assms(7) by simp
  note name = message_of_name [of e, unfolded m fst_conv]
  have len: "length payload \<le> MAX_MESSAGE_SIZE" using assms(2) by (simp add: m)
  note h = header_of_message [OF name [THEN conjunct1] name [THEN conjunct2] len]
  have "take 20 ?msg @ take 4 (drop 20 ?msg) = take 24 ?msg" using take_take_drop [of 20 ?msg 4] by simp
  then have "take 20 ?msg @ take 4 (drop 20 ?msg) @ payload @ rest = take 24 ?msg @ drop 24 ?msg @ rest"
    using h(6) [of "network_magic c"] by (simp flip: append_assoc)
  also have "\<dots> = ?msg @ rest" by (simp flip: append_assoc)
  finally have split: "take 20 ?msg @ take 4 (drop 20 ?msg) @ payload @ rest = ?msg @ rest" .
  have parts: "length (take 20 ?msg) = 20" "length (take 4 (drop 20 ?msg)) = 4" using h(5) [of "network_magic c"] by simp_all
  have "ReceiveMessage r1 r2 c =
    (case ProcessMessage (MessageHeader_Deserialize (?msg @ rest)) payload c of
       Inl e \<Rightarrow> Inl e | Inr (events, c) \<Rightarrow> Inr (True, events, c\<lparr>recv_buffer := drop (24 + length payload) (recv_buffer c)\<rparr>))"
    using buffered_message_processed [OF parts, of "payload @ rest" c "length payload" r1 r2] h(1,3) len buf
    unfolding split by simp
  moreover have "ProcessMessage (MessageHeader_Deserialize (?msg @ rest)) payload c = Inr ([e], noted e c)"
    using ProcessMessage_message_of [OF assms(1), of "MessageHeader_Deserialize (?msg @ rest)" c] h(2) assms(8) by (simp add: m)
  moreover have "recv_buffer (noted e c) = ?msg @ rest" by (cases e) (simp_all add: buf)
  ultimately show ?thesis using h(5) [of "network_magic c"] by simp
qed

theorem sent_messages_arrive_witness:
  "let s = (PeerConnection_make 3 ''10.0.0.1'' 8333 0xD9B4BEF9)\<lparr>peer_state := CONNECTED\<rparr>;
       s1 = snd (Send [Sent 10, Sent 1000] (OnPing 42) s);
       c = s\<lparr>callbacks := [''ping''], recv_buffer := wire s1 @ [9]\<rparr> in
     ReceiveMessage RecvError RecvError c = Inr (True, [OnPing 42], c\<lparr>recv_buffer := [9]\<rparr>)"
proof -
  let ?s = "(PeerConnection_make 3 ''10.0.0.1'' 8333 0xD9B4BEF9)\<lparr>peer_state := CONNECTED\<rparr>"
  let ?msg = "CreateNetworkMessage 0xD9B4BEF9 (bytes_of_string ''ping'') (PingPongMessage_Serialize 42)"
  have "length ?msg = 32" by (subst header_of_message(5)) (simp_all add: bytes_of_string_def PingPongMessage_Serialize_def)
  then have "\<exists>a m. ?msg = a # m \<and> length m = 31" by (cases ?msg) simp_all
  then have sent: "send_loop [Sent 10, Sent 1000] ?msg [] = (AllSent, [], ?msg)" by (auto simp: neq_Nil_conv length_Suc_conv numeral_eq_Suc)
  have s1: "Send [Sent 10, Sent 1000] (OnPing 42) ?s = (True, ?s\<lparr>wire := ?msg\<rparr>)"
    by (simp add: Send_def SendMessage_def SendRaw_def PeerConnection_make_def sent)
  show ?thesis
    using sent_messages_arrive [OF _ _ s1, of "?s\<lparr>callbacks := [''ping''], recv_buffer := ?msg @ [9]\<rparr>" "[9]" RecvError RecvError]
    unfolding Let_def s1 by (simp add: event_wf_def PeerConnection_make_def PingPongMessage_Serialize_def)
qed

subsection \<open>The checksum\<close>

lemma le32_reads_prefix: "4 \<le> length xs \<Longrightarrow> read_le32 (xs @ ys) = read_le32 xs"
  by (auto simp: read_le32_def nth_append)

lemma deliver_buffer: "deliver cmd event msg (c\<lparr>recv_buffer := b\<rparr>) = deliver cmd event msg c"
  by (simp add: deliver_def split: outcome.split)

lemma sum_case_if: "(case (if b then x else y) of Inl e \<Rightarrow> f e | Inr z \<Rightarrow> g z) = (if b then case_sum f g x else case_sum f g y)"
  by simp

lemma sum_case_case:
  "(case (case x of Inl e \<Rightarrow> Inl e | Inr z \<Rightarrow> Inr (z, c)) of Inl e \<Rightarrow> Inl e | Inr p \<Rightarrow> Inr (fst p, (snd p)\<lparr>recv_buffer := b\<rparr>))
    = (case x of Inl e \<Rightarrow> Inl e | Inr z \<Rightarrow> Inr (z, c\<lparr>recv_buffer := b\<rparr>))"
  by (simp split: sum.split)

lemma ProcessMessage_buffer:
  "ProcessMessage h payload (c\<lparr>recv_buffer := b\<rparr>) =
    (case ProcessMessage h payload c of Inl e \<Rightarrow> Inl e | Inr p \<Rightarrow> Inr (fst p, (snd p)\<lparr>recv_buffer := b\<rparr>))"
  by (simp add: ProcessMessage_def Let_def deliver_buffer sum_case_if sum_case_case cong: if_cong)
    (cases c, simp split: outcome.split)

text \<open>
  The checksum of a message is never looked at: a complete message is processed in the same way whatever its four checksum bytes are.
\<close>

theorem checksum_is_ignored:
  assumes "length pre = 20" and "length chk = 4" and "length chk1 = 4"
    and "MessageHeader_IsValid (network_magic c) (MessageHeader_Deserialize (pre @ chk @ post))"
    and "unat (msg_length (MessageHeader_Deserialize (pre @ chk @ post))) \<le> length post"
  shows "ReceiveMessage r1 r2 (c\<lparr>recv_buffer := pre @ chk @ post\<rparr>) = ReceiveMessage r1 r2 (c\<lparr>recv_buffer := pre @ chk1 @ post\<rparr>)"
proof -
  let ?h = "\<lambda>k. MessageHeader_Deserialize (pre @ k @ post)"
  have same: "magic (?h k) = magic (?h chk)" "msg_length (?h k) = msg_length (?h chk)" "command (?h k) = command (?h chk)" for k
    using assms(1) le32_reads_prefix [of pre] le32_reads_prefix [of "drop 16 pre"] by (simp_all add: MessageHeader_Deserialize_def)
  have "ReceiveMessage r1 r2 (c\<lparr>recv_buffer := pre @ k @ post\<rparr>) =
    (case ProcessMessage (?h k) (take n post) (c\<lparr>recv_buffer := pre @ k @ post\<rparr>) of
       Inl e \<Rightarrow> Inl e | Inr (events, c) \<Rightarrow> Inr (True, events, c\<lparr>recv_buffer := drop (24 + n) (recv_buffer c)\<rparr>))"
    if "length k = 4" "n = unat (msg_length (?h chk))" for k n
    using that assms(1,4,5) same [of k] by (intro buffered_message_processed) (simp_all add: MessageHeader_IsValid_def)
  note received = this [OF _ refl]
  have process: "ProcessMessage (?h k) payload d = ProcessMessage (?h chk) payload d" for k payload d
    by (simp add: ProcessMessage_def command_name_def same [of k])
  have "drop (24 + n) (pre @ chk @ post) = drop n post" "drop (24 + n) (pre @ chk1 @ post) = drop n post" for n
    using assms(1-3) by simp_all
  then show ?thesis
    unfolding received [OF assms(2)] received [OF assms(3)] process [of chk1] ProcessMessage_buffer
    by (simp split: sum.split prod.split)
qed

theorem checksum_is_ignored_witness:
  "let c = PeerConnection_make 3 ''10.0.0.1'' 8333 7;
       pre = [7, 0, 0, 0, 118, 101, 114, 97, 99, 107, 0, 0, 0, 0, 0, 0, 0, 0, 0, 0] in
     ReceiveMessage RecvError RecvError (c\<lparr>recv_buffer := pre @ [0, 0, 0, 0] @ [5]\<rparr>)
       = ReceiveMessage RecvError RecvError (c\<lparr>recv_buffer := pre @ [1, 2, 3, 4] @ [5]\<rparr>)"
proof -
  let ?pre = "[7, 0, 0, 0, 118, 101, 114, 97, 99, 107, 0, 0, 0, 0, 0, 0, 0, 0, 0, 0] :: bytes"
  let ?h = "MessageHeader_Deserialize (?pre @ [0, 0, 0, 0] @ [5])"
  have h: "magic ?h = 7" "msg_length ?h = 0" by code_simp+
  then have "MessageHeader_IsValid 7 ?h" "unat (msg_length ?h) \<le> length ([5] :: bytes)"
    unfolding MessageHeader_IsValid_def h by simp_all
  then show ?thesis
    unfolding Let_def by (intro checksum_is_ignored) (simp_all only: PeerConnection_make_def PeerConnection.simps, simp_all)
qed

subsection \<open>The send queue keeps the order\<close>

text \<open>
  The calls of \<open>SendRaw\<close> on one connection, in order, with what they answered. In between the connection drains its queue, and
  other operations may change everything but the wire and the queue (the state, the receive buffer, the descriptor). A failed call
  changes the state too: the bytes the socket took before the error stay on the wire, and the connection stays usable.
\<close>

inductive sending :: "(bool \<times> bytes) list \<Rightarrow> PeerConnection \<Rightarrow> bool" where
  sn_start: "send_queue c = [] \<Longrightarrow> send_queue_offset c = 0 \<Longrightarrow> wire c = [] \<Longrightarrow> sending [] c"
| sn_send: "sending calls c \<Longrightarrow> SendRaw rs data c = (ok, d) \<Longrightarrow> sending (calls @ [(ok, data)]) d"
| sn_drain: "sending calls c \<Longrightarrow> DrainSendQueue rs c = (ok, d) \<Longrightarrow> sending calls d"
| sn_other: "sending calls c \<Longrightarrow> wire d = wire c \<Longrightarrow> send_queue d = send_queue c \<Longrightarrow>
    send_queue_offset d = send_queue_offset c \<Longrightarrow> sending calls d"

text \<open>What a call contributes: an accepted message all of it, a refused one a beginning of it.\<close>

definition contributes :: "bool \<times> bytes \<Rightarrow> bytes \<Rightarrow> bool" where
  "contributes call part \<longleftrightarrow> (if fst call then part = snd call else prefix part (snd call))"

definition queue_ok :: "bytes list \<Rightarrow> nat \<Rightarrow> bool" where
  "queue_ok q off \<longleftrightarrow> (if q = [] then off = 0 else off \<le> length (hd q))"

lemma drain_result:
  "drain rs q off w = (ok, q1, off1, w1) \<Longrightarrow> queue_ok q off \<Longrightarrow>
    w1 @ drop off1 (concat q1) = w @ drop off (concat q) \<and> queue_ok q1 off1"
proof (induction rs q off w arbitrary: ok q1 off1 w1 rule: drain.induct)
  case (2 d q off w)
  show ?case
  proof (cases "off < length d")
    case False
    then have "queue_ok q 0" "drop off (concat (d # q)) = drop 0 (concat q)" using 2(3) by (auto simp: queue_ok_def)
    then show ?thesis using 2(1) [OF False] 2(2) False by simp
  qed (use 2 in auto)
next
  case (3 r rs d q off w)
  show ?case
  proof (cases "off < length d")
    case False
    then have "queue_ok q 0" "drop off (concat (d # q)) = drop 0 (concat q)" using 3(4) by (auto simp: queue_ok_def)
    then show ?thesis using 3(2) [OF False] 3(3) False by simp
  next
    case True
    show ?thesis
    proof (cases "\<exists>n. r = Sent n \<and> n \<noteq> 0")
      case True
      then obtain n where r: "r = Sent n" "n \<noteq> 0" by blast
      let ?k = "min n (length d - off)"
      have "take n (drop off d) @ drop (off + ?k) d = drop off d"
        by (metis append_take_drop_id drop_drop length_drop take_all_iff min_def add.commute nat_le_linear take_all)
      then show ?thesis using 3 \<open>off < length d\<close> r by (auto simp: queue_ok_def)
    next
      case False
      then show ?thesis using 3 \<open>off < length d\<close> by (auto split: send_result.splits)
    qed
  qed
qed simp

lemma send_loop_extends: "send_loop rs data w = (st, rest, w1) \<Longrightarrow> prefix w w1"
  by (induction rs data w rule: send_loop.induct) (auto intro: append_prefixD)

lemma SendRaw_contributes:
  assumes "SendRaw rs data c = (ok, d)" and "queue_ok (send_queue c) (send_queue_offset c)"
  shows "\<exists>part. contributes (ok, data) part \<and> queue_ok (send_queue d) (send_queue_offset d)
    \<and> wire d @ drop (send_queue_offset d) (concat (send_queue d))
      = wire c @ drop (send_queue_offset c) (concat (send_queue c)) @ part"
proof -
  consider (closed) "socket_fd c < 0 \<or> peer_state c = DISCONNECTED"
    | (queued) "\<not> (socket_fd c < 0 \<or> peer_state c = DISCONNECTED)" "send_queue c \<noteq> []"
    | (direct) "\<not> (socket_fd c < 0 \<or> peer_state c = DISCONNECTED)" "send_queue c = []" by blast
  then show ?thesis
  proof cases
    case closed
    then show ?thesis using assms by (intro exI [of _ "[]"]) (auto simp: SendRaw_def contributes_def)
  next
    case queued
    then have "drop (send_queue_offset c) (concat (send_queue c @ [data])) = drop (send_queue_offset c) (concat (send_queue c)) @ data"
      using assms(2) by (cases "send_queue c") (auto simp: queue_ok_def)
    then show ?thesis using queued assms by (intro exI [of _ data]) (auto simp: SendRaw_def contributes_def queue_ok_def)
  next
    case direct
    obtain st rest w where l: "send_loop rs data (wire c) = (st, rest, w)" by (metis prod_cases3)
    show ?thesis
    proof (cases "st = Failed")
      case True
      obtain part where part: "w = wire c @ part" using send_loop_extends [OF l] by (auto simp: prefix_def)
      then have "prefix part data" using send_loop_result [OF l] by (auto simp: prefix_def)
      then show ?thesis
        using direct assms l True part by (intro exI [of _ part]) (auto simp: SendRaw_def contributes_def)
    next
      case False
      then show ?thesis
        using direct assms l
        by (intro exI [of _ data]) (auto simp: SendRaw_def contributes_def queue_ok_def split: send_status.splits
            dest!: send_loop_result)
    qed
  qed
qed

lemma sending_order:
  "sending calls c \<Longrightarrow> (\<exists>parts. list_all2 contributes calls parts
      \<and> wire c @ drop (send_queue_offset c) (concat (send_queue c)) = concat parts)
    \<and> queue_ok (send_queue c) (send_queue_offset c)"
proof (induction rule: sending.induct)
  case (sn_send calls c rs data ok d)
  then obtain parts where parts: "list_all2 contributes calls parts"
    "wire c @ drop (send_queue_offset c) (concat (send_queue c)) = concat parts" by blast
  obtain part where part: "contributes (ok, data) part" "queue_ok (send_queue d) (send_queue_offset d)"
    "wire d @ drop (send_queue_offset d) (concat (send_queue d))
      = wire c @ drop (send_queue_offset c) (concat (send_queue c)) @ part"
    using SendRaw_contributes [OF sn_send(2)] sn_send.IH by blast
  have "list_all2 contributes (calls @ [(ok, data)]) (parts @ [part])"
    using parts(1) part(1) by (simp add: list_all2_appendI)
  moreover have "wire d @ drop (send_queue_offset d) (concat (send_queue d)) = concat (parts @ [part])"
    using part(3) parts(2) by (metis append.assoc concat_append concat.simps append_Nil2)
  ultimately show ?case using part(2) by blast
next
  case (sn_drain calls c rs ok d)
  then show ?case
    by (auto simp: DrainSendQueue_def split: if_splits prod.splits dest!: drain_result)
qed (auto simp: queue_ok_def)

text \<open>
  C32. Messages leave in order: the bytes on the wire followed by what is left of the queue are the messages given to \<open>SendRaw\<close> one
  after the other, each accepted one whole, and of each refused one what the socket took before the error. So as long as no call
  is refused the stream is exactly the accepted messages, however little the socket takes at a time and wherever it blocks. After a
  refusal the beginning of the refused message stays in the stream (\<open>failed_send_stays_on_wire\<close> below).
\<close>

theorem messages_leave_in_order:
  assumes "sending calls c"
  shows "\<exists>parts. wire c @ drop (send_queue_offset c) (concat (send_queue c)) = concat parts
    \<and> list_all2 (\<lambda>(ok, data) part. if ok then part = data else prefix part data) calls parts"
proof -
  have "contributes = (\<lambda>(ok, data) part. if ok then part = data else prefix part data)"
    by (simp add: fun_eq_iff contributes_def)
  then show ?thesis using sending_order [OF assms] by auto
qed

theorem messages_leave_in_order_witness:
  "let c = PeerConnection_make 3 ''10.0.0.1'' 8333 7;
       c1 = snd (SendRaw [Sent 2, SendBlocked] [1, 2, 3, 4] c);
       c2 = snd (SendRaw [] [5] c1);
       c3 = snd (DrainSendQueue [Sent 1] c2) in
     wire c3 @ drop (send_queue_offset c3) (concat (send_queue c3)) = [1, 2, 3, 4, 5]"
proof -
  let ?c = "PeerConnection_make 3 ''10.0.0.1'' 8333 7"
  let ?c1 = "snd (SendRaw [Sent 2, SendBlocked] [1, 2, 3, 4] ?c)"
  let ?c2 = "snd (SendRaw [] [5] ?c1)"
  have ok: "fst (SendRaw [Sent 2, SendBlocked] [1, 2, 3, 4] ?c) = True" "fst (SendRaw [] [5] ?c1) = True" by code_simp+
  have "sending [] ?c" by (rule sn_start) (simp_all add: PeerConnection_make_def)
  then have "sending ([] @ [(True, [1, 2, 3, 4])]) ?c1" by (rule sn_send) (rule prod_eqI; simp add: ok(1))
  then have "sending (([] @ [(True, [1, 2, 3, 4])]) @ [(True, [5])]) ?c2" by (rule sn_send) (rule prod_eqI; simp add: ok(2))
  then have "sending (([] @ [(True, [1, 2, 3, 4])]) @ [(True, [5])]) (snd (DrainSendQueue [Sent 1] ?c2))"
    by (rule sn_drain) (rule prod.collapse [symmetric])
  from messages_leave_in_order [OF this] show ?thesis
    by (simp only: Let_def) (auto simp: list_all2_Cons1)
qed

text \<open>
  The receiver cannot tell where the next message begins: after a send of three bytes that fails behind the second one, the next
  message is accepted and follows the two bytes.
\<close>

lemma failed_send_stays_on_wire:
  "let (ok1, c) = SendRaw [Sent 2, SendError] [1, 2, 3] (PeerConnection_make 3 ''10.0.0.1'' 8333 7);
       (ok2, c) = SendRaw [Sent 1] [5] c in
   \<not> ok1 \<and> ok2 \<and> wire c = [1, 2, 5] \<and> send_queue c = []"
  by code_simp

subsection \<open>No peer is ever served\<close>

text \<open>The runs of the manager: the connections it accepts and opens, the handler threads, and what the node asks it to do.\<close>

inductive network_reach :: "NetworkManager \<Rightarrow> NodeEvent list \<Rightarrow> bool" where
  net_init: "network_reach (NetworkManager_make port net) []"
| net_callback: "network_reach m es \<Longrightarrow> network_reach (SetCallback name m) es"
| net_start: "network_reach m es \<Longrightarrow> network_reach (snd (Manager_Start listening m)) es"
| net_stop: "network_reach m es \<Longrightarrow> network_reach (Manager_Stop m) es"
| net_accept: "network_reach m es \<Longrightarrow> accept_peer fd address port m = (more_events, m1) \<Longrightarrow> network_reach m1 (es @ more_events)"
| net_add: "network_reach m es \<Longrightarrow> network_reach (Manager_AddPeer address port m) es"
| net_connect: "network_reach m es \<Longrightarrow> network_reach (snd (ConnectOutbound opened address port m)) es"
| net_handle: "network_reach m es \<Longrightarrow> HandlePeer turns i m = Inr (more_events, c, m1) \<Longrightarrow> network_reach m1 (es @ more_events)"
| net_remove: "network_reach m es \<Longrightarrow> network_reach (RemovePeer i m) es"
| net_ban: "network_reach m es \<Longrightarrow> network_reach (BanPeer i m) es"
| net_broadcast: "network_reach m es \<Longrightarrow> network_reach (Broadcast results e m) es"
| net_send: "network_reach m es \<Longrightarrow> network_reach (snd (SendToPeer rs i e m)) es"
| net_blocks: "network_reach m es \<Longrightarrow> network_reach (RequestBlocks rs i h n m) es"
| net_headers: "network_reach m es \<Longrightarrow> network_reach (RequestHeaders rs i locator m) es"
| net_seed: "network_reach m es \<Longrightarrow> network_reach (AddDNSSeed name port m) es"
| net_query: "network_reach m es \<Longrightarrow> network_reach (QueryDNSSeeds resolve m) es"

definition idle :: "PeerConnection \<Rightarrow> bool" where
  "idle c \<longleftrightarrow> peer_state c \<in> {CONNECTING, HANDSHAKE} \<and> wire c = []"

definition idle_peers :: "NetworkManager \<Rightarrow> bool" where
  "idle_peers m \<longleftrightarrow> (\<forall>p \<in> set (nm_peers m). idle (snd p))"

lemma idle_not_connected: "idle c \<Longrightarrow> \<not> IsConnected c"
  by (auto simp: idle_def IsConnected_def)

lemma idle_loop: "idle c \<Longrightarrow> peer_loop turns (c\<lparr>callbacks := cmds\<rparr>) = Inr ([], c\<lparr>callbacks := cmds\<rparr>)"
  by (cases turns) (auto simp: idle_def IsConnected_def)

lemma idle_lookup: "idle_peers m \<Longrightarrow> map_of (nm_peers m) i = Some c \<Longrightarrow> idle c"
  by (auto simp: idle_peers_def dest!: map_of_SomeD)

lemma idle_send: "idle_peers m \<Longrightarrow> SendToPeer rs i e m = (False, m)"
  by (auto simp: SendToPeer_def split: option.splits dest!: idle_lookup idle_not_connected)

lemma idle_broadcast:
  assumes "idle_peers m"
  shows "Broadcast results e m = m"
proof -
  have "map (\<lambda>(i, c). (i, if IsConnected c then snd (Send (results i) e c) else c)) (nm_peers m) = nm_peers m"
    using assms by (intro map_idI) (auto simp: idle_peers_def dest!: idle_not_connected)
  then show ?thesis by (simp add: Broadcast_def)
qed

lemma idle_handle:
  "idle_peers m \<Longrightarrow> HandlePeer turns i m =
    (case map_of (nm_peers m) i of
       None \<Rightarrow> Inr ([], None, m)
     | Some c \<Rightarrow> Inr ([], Some (Disconnect (c\<lparr>callbacks := handled_commands\<rparr>)), m\<lparr>nm_peers := map_erase i (nm_peers m)\<rparr>))"
  by (auto simp: HandlePeer_def idle_loop passed_on_def Let_def split: option.split dest!: idle_lookup)

lemma idle_erase: "idle_peers m \<Longrightarrow> idle_peers (m\<lparr>nm_peers := map_erase i (nm_peers m)\<rparr>)"
  by (auto simp: idle_peers_def map_erase_def)

lemma idle_put: "idle_peers m \<Longrightarrow> idle c \<Longrightarrow> idle_peers (m\<lparr>nm_peers := map_put i c (nm_peers m)\<rparr>)"
  using set_map_put [of i c "nm_peers m"] by (auto simp: idle_peers_def)

lemma idle_AddPeer: "nm_peers (Manager_AddPeer address port m) = nm_peers m"
  by (simp add: Manager_AddPeer_def)

lemma idle_query: "nm_peers (QueryDNSSeeds resolve m) = nm_peers m"
proof -
  have "nm_peers (foldl (\<lambda>m address. Manager_AddPeer address port m) m addresses) = nm_peers m" for m addresses and port :: "16 word"
    by (induction addresses arbitrary: m) (simp_all add: idle_AddPeer)
  then have "nm_peers (foldl (\<lambda>m seed. foldl (\<lambda>m address. Manager_AddPeer address (default_port seed) m) m (resolve (hostname seed))) m seeds)
      = nm_peers m" for m seeds
    by (induction seeds arbitrary: m) simp_all
  then show ?thesis by (simp add: QueryDNSSeeds_def)
qed

definition announcement :: "NodeEvent \<Rightarrow> bool" where
  "announcement e \<longleftrightarrow> (\<exists>peer_id. e = NewPeer peer_id)"

lemma network_idle: "network_reach m es \<Longrightarrow> idle_peers m \<and> list_all announcement es"
proof (induction rule: network_reach.induct)
  case (net_accept m es fd address port later m1)
  then show ?case
    using idle_put [of m "PeerConnection_make fd address port (nm_magic m)" "MakePeerId address port"]
    by (auto simp: accept_peer_def Let_def idle_def PeerConnection_make_def idle_peers_def announcement_def split: if_splits)
next
  case (net_connect m es opened address port)
  then show ?case by (simp add: ConnectOutbound_def Connect_def idle_put idle_def PeerConnection_make_def split: option.split)
next
  case (net_handle m es turns i later c m1)
  then show ?case by (auto simp: idle_handle idle_erase split: option.splits)
next
  case (net_ban m es i)
  have "idle_peers (m\<lparr>banned_peers := b\<rparr>)" for b using net_ban by (simp add: idle_peers_def)
  then show ?case using net_ban idle_erase by (simp add: BanPeer_def RemovePeer_def Let_def)
next
  case (net_stop m es)
  then show ?case by (simp add: Manager_Stop_def idle_peers_def)
next
  case (net_start m es listening)
  then show ?case by (simp add: Manager_Start_def idle_peers_def)
next
  case (net_init port net)
  show ?case by (simp add: NetworkManager_make_def idle_peers_def)
next
  case (net_seed m es name port)
  then show ?case by (simp add: AddDNSSeed_def idle_peers_def)
next
  case (net_callback m es name)
  then show ?case by (simp add: SetCallback_def idle_peers_def)
next
  case (net_add m es address port)
  then show ?case by (simp add: idle_peers_def idle_AddPeer)
next
  case (net_query m es resolve)
  then show ?case by (simp add: idle_peers_def idle_query)
qed (simp_all add: RemovePeer_def idle_erase idle_broadcast idle_send RequestBlocks_def RequestHeaders_def)

text \<open>
  C33. No peer is ever served: a connection only becomes CONNECTED by a message it receives, but its handler stops before the first message
  unless it is CONNECTED already. In every run of the manager all the node hears of is the announcement of accepted peers: no message of
  a peer reaches it. No peer counts as connected, sending to a peer fails, broadcasting changes nothing, and handling a peer gives it up
  at once without having sent a byte or passed anything on.
\<close>

theorem no_peer_is_served:
  assumes "network_reach m es"
  shows "(\<forall>e \<in> set es. \<exists>peer_id. e = NewPeer peer_id)
    \<and> GetConnectedPeers m = [] \<and> GetPeerCount m = 0 \<and> \<not> fst (SendToPeer rs i e m) \<and> Broadcast results e m = m
    \<and> (\<forall>turns. case HandlePeer turns i m of
          Inl err \<Rightarrow> False
        | Inr (events, c, m1) \<Rightarrow> events = [] \<and> map_of (nm_peers m1) i = None
            \<and> (case c of None \<Rightarrow> True | Some c \<Rightarrow> wire c = [] \<and> peer_state c = DISCONNECTED))"
proof -
  have m: "idle_peers m" "list_all announcement es" using network_idle [OF assms] by simp_all
  have "filter (\<lambda>(i, c). IsConnected c) (nm_peers m) = []"
    using m(1) by (auto simp: filter_empty_conv idle_peers_def dest!: idle_not_connected)
  then have "GetConnectedPeers m = []" "GetPeerCount m = 0" by (simp_all add: GetConnectedPeers_def GetPeerCount_def)
  moreover have "wire (Disconnect (c\<lparr>callbacks := cmds\<rparr>)) = [] \<and> peer_state (Disconnect (c\<lparr>callbacks := cmds\<rparr>)) = DISCONNECTED"
    if "map_of (nm_peers m) i = Some c" for c cmds
    using idle_lookup [OF m(1) that] by (simp add: Disconnect_def idle_def)
  moreover have "\<forall>e \<in> set es. \<exists>peer_id. e = NewPeer peer_id" using m(2) by (simp add: list_all_iff announcement_def)
  ultimately show ?thesis using m(1) by (auto simp: idle_send idle_broadcast idle_handle split: option.split)
qed

theorem no_peer_is_served_witness:
  "let (es, m) = accept_peer 5 ''10.0.0.1'' 9 (SetCallback ''new_peer'' (NetworkManager_make 8333 7)) in
     es = [NewPeer ''10.0.0.1:9''] \<and> length (nm_peers m) = 1 \<and> connection_threads m = [HandlePeerThread ''10.0.0.1:9'']
     \<and> GetPeerCount m = 0 \<and> \<not> fst (SendToPeer [] ''10.0.0.1:9'' OnVerack m)"
proof -
  let ?a = "accept_peer 5 ''10.0.0.1'' 9 (SetCallback ''new_peer'' (NetworkManager_make 8333 7))"
  have a: "fst ?a = [NewPeer ''10.0.0.1:9'']" "map fst (nm_peers (snd ?a)) = [''10.0.0.1:9'']"
    "connection_threads (snd ?a) = [HandlePeerThread ''10.0.0.1:9'']" by code_simp+
  have "network_reach (snd ?a) ([] @ fst ?a)"
    by (rule net_accept [OF net_callback [OF net_init] prod.collapse [symmetric]])
  from no_peer_is_served [OF this, of "[]" "''10.0.0.1:9''" OnVerack "\<lambda>_. []"]
  have "GetPeerCount (snd ?a) = 0 \<and> \<not> fst (SendToPeer [] ''10.0.0.1:9'' OnVerack (snd ?a))" by blast
  moreover have "length (nm_peers (snd ?a)) = 1" using arg_cong [OF a(2), of length] by simp
  ultimately show ?thesis using a(1,3) by (simp add: case_prod_unfold)
qed

end
