(* ===== verification/Settlement.thy ===== *)
theory Settlement
  imports Validation Messages "HOL-Library.List_Lexorder"
begin

section \<open>Settlement: escrows, multiple signatures, destination tags\<close>

text \<open>
  Models \<open>layer1-talanton/settlement/escrow.cpp\<close>, \<open>multisig.cpp\<close> and \<open>destination_tag.cpp\<close> with their headers. A reader takes the bytes from its
  position on and returns what it leaves; when there are too few bytes it returns the default object, and keeps the position it has
  reached. An escrow keeps its type as the byte it was read from, since the cast to the enum does not check it.
\<close>

subsection \<open>Escrows\<close>

abbreviation (input) TIME_LOCKED :: u8 where "TIME_LOCKED \<equiv> 0"
abbreviation (input) HASH_LOCKED :: u8 where "HASH_LOCKED \<equiv> 1"
abbreviation (input) CONDITIONAL :: u8 where "CONDITIONAL \<equiv> 2"

record TimeLockEscrow =
  tl_locktime :: u64

record HashLockEscrow =
  hl_hash :: bytes

record ConditionalEscrow =
  ce_locktime :: u64
  ce_hash :: bytes

definition TimeLockEscrow_init :: TimeLockEscrow where "TimeLockEscrow_init = \<lparr>tl_locktime = 0\<rparr>"
definition HashLockEscrow_init :: HashLockEscrow where "HashLockEscrow_init = \<lparr>hl_hash = zero_hash\<rparr>"
definition ConditionalEscrow_init :: ConditionalEscrow where "ConditionalEscrow_init = \<lparr>ce_locktime = 0, ce_hash = zero_hash\<rparr>"

definition TimeLock_IsReleasable :: "TimeLockEscrow \<Rightarrow> u64 \<Rightarrow> bool" where
  "TimeLock_IsReleasable e current_time \<longleftrightarrow> current_time \<ge> tl_locktime e"

definition TimeLock_Serialize :: "TimeLockEscrow \<Rightarrow> bytes" where
  "TimeLock_Serialize e = le64 (tl_locktime e)"

definition TimeLock_Deserialize :: "bytes \<Rightarrow> TimeLockEscrow \<times> bytes" where
  "TimeLock_Deserialize data =
     (if length data < 8 then (TimeLockEscrow_init, data) else (\<lparr>tl_locktime = read_le64 data\<rparr>, drop 8 data))"

definition HashLock_VerifyPreimage :: "HashLockEscrow \<Rightarrow> bytes \<Rightarrow> bool" where
  "HashLock_VerifyPreimage e preimage \<longleftrightarrow> Hash256 preimage = hl_hash e"

definition HashLock_Serialize :: "HashLockEscrow \<Rightarrow> bytes" where
  "HashLock_Serialize e = hl_hash e"

definition HashLock_Deserialize :: "bytes \<Rightarrow> HashLockEscrow \<times> bytes" where
  "HashLock_Deserialize data = (if length data < 32 then (HashLockEscrow_init, data) else (\<lparr>hl_hash = take 32 data\<rparr>, drop 32 data))"

definition Conditional_IsReleasable :: "ConditionalEscrow \<Rightarrow> u64 \<Rightarrow> bytes option \<Rightarrow> bool" where
  "Conditional_IsReleasable e current_time preimage =
     (if current_time < ce_locktime e then False
      else case preimage of None \<Rightarrow> False | Some x \<Rightarrow> Hash256 x = ce_hash e)"

definition Conditional_Serialize :: "ConditionalEscrow \<Rightarrow> bytes" where
  "Conditional_Serialize e = le64 (ce_locktime e) @ ce_hash e"

definition Conditional_Deserialize :: "bytes \<Rightarrow> ConditionalEscrow \<times> bytes" where
  "Conditional_Deserialize data =
     (if length data < 40 then (ConditionalEscrow_init, data)
      else (\<lparr>ce_locktime = read_le64 data, ce_hash = take 32 (drop 8 data)\<rparr>, drop 40 data))"

record Escrow =
  escrow_type :: u8
  timelock :: TimeLockEscrow
  hashlock :: HashLockEscrow
  conditional :: ConditionalEscrow

definition Escrow_make :: "u8 \<Rightarrow> Escrow" where
  "Escrow_make t = \<lparr>escrow_type = t, timelock = TimeLockEscrow_init, hashlock = HashLockEscrow_init, conditional = ConditionalEscrow_init\<rparr>"

definition SetTimeLock :: "Escrow \<Rightarrow> TimeLockEscrow \<Rightarrow> Escrow" where
  "SetTimeLock e t = e\<lparr>escrow_type := TIME_LOCKED, timelock := t\<rparr>"

definition SetHashLock :: "Escrow \<Rightarrow> HashLockEscrow \<Rightarrow> Escrow" where
  "SetHashLock e h = e\<lparr>escrow_type := HASH_LOCKED, hashlock := h\<rparr>"

definition SetConditional :: "Escrow \<Rightarrow> ConditionalEscrow \<Rightarrow> Escrow" where
  "SetConditional e c = e\<lparr>escrow_type := CONDITIONAL, conditional := c\<rparr>"

definition GetTimeLock :: "Escrow \<Rightarrow> TimeLockEscrow option" where
  "GetTimeLock e = (if escrow_type e = TIME_LOCKED then Some (timelock e) else None)"

definition GetHashLock :: "Escrow \<Rightarrow> HashLockEscrow option" where
  "GetHashLock e = (if escrow_type e = HASH_LOCKED then Some (hashlock e) else None)"

definition GetConditional :: "Escrow \<Rightarrow> ConditionalEscrow option" where
  "GetConditional e = (if escrow_type e = CONDITIONAL then Some (conditional e) else None)"

definition Escrow_IsReleasable :: "Escrow \<Rightarrow> u64 \<Rightarrow> bytes option \<Rightarrow> bool" where
  "Escrow_IsReleasable e current_time preimage =
     (if escrow_type e = TIME_LOCKED then TimeLock_IsReleasable (timelock e) current_time
      else if escrow_type e = HASH_LOCKED then (case preimage of None \<Rightarrow> False | Some x \<Rightarrow> HashLock_VerifyPreimage (hashlock e) x)
      else if escrow_type e = CONDITIONAL then Conditional_IsReleasable (conditional e) current_time preimage
      else False)"

definition Escrow_Serialize :: "Escrow \<Rightarrow> bytes" where
  "Escrow_Serialize e =
     escrow_type e # (if escrow_type e = TIME_LOCKED then TimeLock_Serialize (timelock e)
                      else if escrow_type e = HASH_LOCKED then HashLock_Serialize (hashlock e)
                      else if escrow_type e = CONDITIONAL then Conditional_Serialize (conditional e)
                      else [])"

definition Escrow_Deserialize :: "bytes \<Rightarrow> Escrow \<times> bytes" where
  "Escrow_Deserialize data =
     (case data of
        [] \<Rightarrow> (Escrow_make TIME_LOCKED, data)
      | t # rest \<Rightarrow>
          let escrow = Escrow_make t in
          if t = TIME_LOCKED then (let (x, rest) = TimeLock_Deserialize rest in (SetTimeLock escrow x, rest))
          else if t = HASH_LOCKED then (let (x, rest) = HashLock_Deserialize rest in (SetHashLock escrow x, rest))
          else if t = CONDITIONAL then (let (x, rest) = Conditional_Deserialize rest in (SetConditional escrow x, rest))
          else (escrow, rest))"

subsection \<open>Multiple signatures\<close>

abbreviation (input) MAX_KEYS :: nat where "MAX_KEYS \<equiv> 15"

record MultisigPolicy =
  policy_m :: u8
  pubkeys :: "bytes list"

definition MultisigPolicy_init :: MultisigPolicy where
  "MultisigPolicy_init = \<lparr>policy_m = 0, pubkeys = []\<rparr>"

definition GetN :: "MultisigPolicy \<Rightarrow> u8" where
  "GetN p = of_nat (length (pubkeys p))"

fun equal_neighbours :: "bytes list \<Rightarrow> bool" where
  "equal_neighbours (a # b # ks) = (if b = a then True else equal_neighbours (b # ks))"
| "equal_neighbours ks = False"

definition Policy_IsValid :: "MultisigPolicy \<Rightarrow> bool" where
  "Policy_IsValid p =
     (if policy_m p = 0 \<or> unat (policy_m p) > length (pubkeys p) then False
      else if length (pubkeys p) > MAX_KEYS then False
      else if equal_neighbours (sort (pubkeys p)) then False
      else True)"

definition AddPubKey :: "MultisigPolicy \<Rightarrow> bytes \<Rightarrow> bool \<times> MultisigPolicy" where
  "AddPubKey p pubkey =
     (if length (pubkeys p) \<ge> MAX_KEYS then (False, p)
      else if pubkey \<in> set (pubkeys p) then (False, p)
      else (True, p\<lparr>pubkeys := pubkeys p @ [pubkey]\<rparr>))"

definition Policy_Serialize :: "MultisigPolicy \<Rightarrow> bytes" where
  "Policy_Serialize p = policy_m p # of_nat (length (pubkeys p)) # concat (pubkeys p)"

text \<open>\<open>n\<close> pieces of \<open>k\<close> bytes each.\<close>

fun pieces :: "nat \<Rightarrow> nat \<Rightarrow> bytes \<Rightarrow> bytes list \<times> bytes" where
  "pieces k 0 data = ([], data)"
| "pieces k (Suc n) data = (let (xs, rest) = pieces k n (drop k data) in (take k data # xs, rest))"

definition Policy_Deserialize :: "bytes \<Rightarrow> MultisigPolicy \<times> bytes" where
  "Policy_Deserialize data =
     (case data of
        m # n # rest \<Rightarrow>
          if unat n > MAX_KEYS \<or> length rest < unat n * 33 then (MultisigPolicy_init, rest)
          else (let (keys, rest) = pieces 33 (unat n) rest in (\<lparr>policy_m = m, pubkeys = keys\<rparr>, rest))
      | _ \<Rightarrow> (MultisigPolicy_init, data))"

type_synonym AggregatedSignature = "(u8 \<times> bytes) list"

definition HasSignature :: "AggregatedSignature \<Rightarrow> u8 \<Rightarrow> bool" where
  "HasSignature sigs key_index \<longleftrightarrow> list_ex (\<lambda>p. fst p = key_index) sigs"

definition AddSignature :: "AggregatedSignature \<Rightarrow> u8 \<Rightarrow> bytes \<Rightarrow> AggregatedSignature" where
  "AddSignature sigs key_index sig = (if list_ex (\<lambda>p. fst p = key_index) sigs then sigs else sigs @ [(key_index, sig)])"

definition Aggregated_Serialize :: "AggregatedSignature \<Rightarrow> bytes" where
  "Aggregated_Serialize sigs = of_nat (length sigs) # concat (map (\<lambda>(key_index, sig). key_index # sig) sigs)"

definition Aggregated_Deserialize :: "bytes \<Rightarrow> AggregatedSignature \<times> bytes" where
  "Aggregated_Deserialize data =
     (case data of
        [] \<Rightarrow> ([], data)
      | count # rest \<Rightarrow>
          if unat count > MAX_KEYS \<or> length rest < unat count * 65 then ([], rest)
          else let (items, rest) = pieces 65 (unat count) rest in
               (foldl (\<lambda>sigs item. AddSignature sigs (hd item) (tl item)) [] items, rest))"

definition ValidateKeyIndex :: "u8 \<Rightarrow> u8 \<Rightarrow> bool" where
  "ValidateKeyIndex key_index n \<longleftrightarrow> key_index < n"

text \<open>The prefix byte of the key is skipped.\<close>

definition VerifySchnorrSignature :: "Secp \<Rightarrow> bytes \<Rightarrow> bytes \<Rightarrow> bytes \<Rightarrow> bool" where
  "VerifySchnorrSignature secp pubkey sig msg = Schnorr_Verify secp (drop 1 pubkey) (Hash256 msg) sig"

text \<open>The loop over the signatures: \<open>None\<close> when it returns false because of an index.\<close>

fun count_valid :: "Secp \<Rightarrow> MultisigPolicy \<Rightarrow> bytes \<Rightarrow> u8 \<Rightarrow> AggregatedSignature \<Rightarrow> u8 option" where
  "count_valid secp p msg valid_signatures [] = Some valid_signatures"
| "count_valid secp p msg valid_signatures ((key_index, sig) # sigs) =
     (if \<not> ValidateKeyIndex key_index (GetN p) then None
      else count_valid secp p msg
             (if VerifySchnorrSignature secp (pubkeys p ! unat key_index) sig msg then valid_signatures + 1 else valid_signatures) sigs)"

definition VerifySignatures :: "Secp \<Rightarrow> MultisigPolicy \<Rightarrow> AggregatedSignature \<Rightarrow> bytes \<Rightarrow> bool" where
  "VerifySignatures secp p sigs msg =
     (if \<not> Policy_IsValid p then False
      else if length sigs < unat (policy_m p) then False
      else case count_valid secp p msg 0 sigs of None \<Rightarrow> False | Some valid_signatures \<Rightarrow> valid_signatures \<ge> policy_m p)"

subsection \<open>Destination tags\<close>

abbreviation (input) MAX_MEMO_SIZE :: nat where "MAX_MEMO_SIZE \<equiv> 256"

record DestinationTag =
  dt_tag :: u32
  memo :: bytes

definition DestinationTag_init :: DestinationTag where
  "DestinationTag_init = \<lparr>dt_tag = 0, memo = []\<rparr>"

text \<open>The length is cast to 16 bits.\<close>

definition DestinationTag_Serialize :: "DestinationTag \<Rightarrow> bytes" where
  "DestinationTag_Serialize d =
     (let memo_len = of_nat (length (memo d)) :: 16 word in
      le32 (dt_tag d) @ [ucast memo_len, ucast (drop_bit 8 memo_len)] @ memo d)"

definition DestinationTag_Deserialize :: "bytes \<Rightarrow> DestinationTag \<times> bytes" where
  "DestinationTag_Deserialize data =
     (if length data < 6 then (DestinationTag_init, data)
      else
        let t = read_le32 data;
            memo_len = unat (ucast (data ! 4) OR push_bit 8 (ucast (data ! 5)) :: 16 word);
            rest = drop 6 data in
        if length rest < memo_len then (DestinationTag_init, rest)
        else (\<lparr>dt_tag = t, memo = take memo_len rest\<rparr>, drop memo_len rest))"

text \<open>The first byte of a longer sequence: the length of the sequence and the bits of the code point.\<close>

definition utf8_lead :: "u8 \<Rightarrow> (nat \<times> u32) option" where
  "utf8_lead c =
     (if c AND 0xE0 = 0xC0 then
        let codepoint = ucast c AND 0x1F in if codepoint = 0 then None else Some (2, codepoint)
      else if c AND 0xF0 = 0xE0 then Some (3, ucast c AND 0x0F)
      else if c AND 0xF8 = 0xF0 then Some (4, ucast c AND 0x07)
      else None)"

fun utf8_continue :: "u32 \<Rightarrow> bytes \<Rightarrow> u32 option" where
  "utf8_continue codepoint [] = Some codepoint"
| "utf8_continue codepoint (cont # rest) =
     (if cont AND 0xC0 \<noteq> 0x80 then None else utf8_continue (push_bit 6 codepoint OR (ucast cont AND 0x3F)) rest)"

definition utf8_refused :: "nat \<Rightarrow> u32 \<Rightarrow> bool" where
  "utf8_refused len codepoint \<longleftrightarrow>
     (len = 2 \<and> codepoint < 0x80) \<or> (len = 3 \<and> codepoint < 0x800) \<or> (len = 4 \<and> codepoint < 0x10000) \<or> codepoint > 0x10FFFF
     \<or> (codepoint \<ge> 0xD800 \<and> codepoint \<le> 0xDFFF)"

function memo_loop :: "bytes \<Rightarrow> bool" where
  "memo_loop [] = True"
| "memo_loop (c # rest) =
     (if c \<le> 0x7F then memo_loop rest
      else case utf8_lead c of
        None \<Rightarrow> False
      | Some (len, codepoint) \<Rightarrow>
          if length (c # rest) < len then False
          else case utf8_continue codepoint (take (len - 1) rest) of
            None \<Rightarrow> False
          | Some codepoint \<Rightarrow> if utf8_refused len codepoint then False else memo_loop (drop (len - 1) rest))"
  by pat_completeness auto
termination memo_loop
  by (relation "measure length") auto

definition ValidateTag :: "u32 \<Rightarrow> bool" where
  "ValidateTag t = True"

definition ValidateMemo :: "bytes \<Rightarrow> bool" where
  "ValidateMemo m = (if length m > MAX_MEMO_SIZE then False else memo_loop m)"

definition ValidateDestinationTag :: "DestinationTag \<Rightarrow> bool" where
  "ValidateDestinationTag d \<longleftrightarrow> ValidateTag (dt_tag d) \<and> ValidateMemo (memo d)"

subsection \<open>Escrows survive their encoding\<close>

text \<open>Only the part the type names is written.\<close>

definition active_part :: "Escrow \<Rightarrow> Escrow" where
  "active_part e =
     (let d = Escrow_make (escrow_type e) in
      if escrow_type e = TIME_LOCKED then d\<lparr>timelock := timelock e\<rparr>
      else if escrow_type e = HASH_LOCKED then d\<lparr>hashlock := hashlock e\<rparr>
      else if escrow_type e = CONDITIONAL then d\<lparr>conditional := conditional e\<rparr>
      else d)"

lemma active_part_releases: "Escrow_IsReleasable (active_part e) t x = Escrow_IsReleasable e t x"
  by (simp add: active_part_def Escrow_IsReleasable_def Escrow_make_def Let_def split: option.split)

text \<open>
  An escrow read back from its encoding is releasable at exactly the same times with exactly the same preimages, and the reader stops
  right behind it: what is written is the part of the escrow that its type names.
\<close>

theorem escrow_roundtrip:
  assumes "length (hl_hash (hashlock e)) = 32" and "length (ce_hash (conditional e)) = 32"
  shows "Escrow_Deserialize (Escrow_Serialize e @ rest) = (active_part e, rest)
    \<and> Escrow_IsReleasable (fst (Escrow_Deserialize (Escrow_Serialize e @ rest))) t x = Escrow_IsReleasable e t x"
proof -
  have "Escrow_Deserialize (Escrow_Serialize e @ rest) = (active_part e, rest)"
    using assms
    by (simp add: Escrow_Deserialize_def Escrow_Serialize_def active_part_def Escrow_make_def Let_def SetTimeLock_def SetHashLock_def
        SetConditional_def TimeLock_Deserialize_def TimeLock_Serialize_def HashLock_Deserialize_def HashLock_Serialize_def
        Conditional_Deserialize_def Conditional_Serialize_def)
  then show ?thesis by (simp add: active_part_releases)
qed

theorem escrow_roundtrip_witness:
  "let e = SetConditional (Escrow_make 0) \<lparr>ce_locktime = 1000, ce_hash = replicate 32 5\<rparr> in
     Escrow_Deserialize (Escrow_Serialize e @ [1, 2]) = (active_part e, [1, 2])"
  by (simp only: Let_def)
    (rule escrow_roundtrip [THEN conjunct1], simp_all add: SetConditional_def Escrow_make_def HashLockEscrow_init_def)

subsection \<open>Enough signatures\<close>

lemma equal_neighbours_sorted: "sorted ks \<Longrightarrow> equal_neighbours ks \<longleftrightarrow> \<not> distinct ks"
proof (induction ks rule: equal_neighbours.induct)
  case (1 a b ks)
  then show ?case by (auto simp: less_le [symmetric] dest: order.antisym)
qed simp_all

lemma Policy_IsValid_iff:
  "Policy_IsValid p \<longleftrightarrow> policy_m p \<noteq> 0 \<and> unat (policy_m p) \<le> length (pubkeys p) \<and> length (pubkeys p) \<le> MAX_KEYS \<and> distinct (pubkeys p)"
  by (auto simp: Policy_IsValid_def equal_neighbours_sorted)

definition signed_indices :: "Secp \<Rightarrow> MultisigPolicy \<Rightarrow> bytes \<Rightarrow> AggregatedSignature \<Rightarrow> u8 list" where
  "signed_indices secp p msg sigs =
     map fst (filter (\<lambda>(i, sig). VerifySchnorrSignature secp (pubkeys p ! unat i) sig msg) sigs)"

lemma count_valid_None: "\<not> list_all (\<lambda>(i, sig). ValidateKeyIndex i (GetN p)) sigs \<Longrightarrow> count_valid secp p msg n sigs = None"
  by (induction secp p msg n sigs rule: count_valid.induct) auto

lemma count_valid_Some:
  "list_all (\<lambda>(i, sig). ValidateKeyIndex i (GetN p)) sigs \<Longrightarrow>
    count_valid secp p msg n sigs = Some (n + of_nat (length (signed_indices secp p msg sigs)))"
  by (induction secp p msg n sigs rule: count_valid.induct) (auto simp: signed_indices_def algebra_simps)

lemma distinct_below:
  assumes "distinct xs" and "\<forall>x \<in> set xs. x < (k :: u8)"
  shows "length xs \<le> unat k"
proof -
  have "unat ` set xs \<subseteq> {..<unat k}" using assms(2) by (auto simp: word_less_nat_alt)
  then have "card (unat ` set xs) \<le> unat k" using card_mono [of "{..<unat k}"] by fastforce
  moreover have "card (unat ` set xs) = card (set xs)" by (rule card_image) (auto intro: inj_onI simp: word_unat_eq_iff)
  ultimately show ?thesis using assms(1) by (simp add: distinct_card)
qed

lemma signed_indices_distinct: "distinct (map fst sigs) \<Longrightarrow> distinct (signed_indices secp p msg sigs)"
  by (simp add: signed_indices_def distinct_map_filter)

lemma AddSignature_distinct: "distinct (map fst sigs) \<Longrightarrow> distinct (map fst (AddSignature sigs i sig))"
  by (force simp: AddSignature_def list_ex_iff)

text \<open>
  C34. A collection of signatures with different key indices, as \<open>AddSignature\<close> builds it, satisfies a policy exactly when the policy is valid,
  no index is out of range and at least \<open>m\<close> different keys of the policy have a valid signature of the message: nobody counts twice for one
  key, and the 8-bit counter never wraps.
\<close>

theorem multisig_counts_keys:
  assumes "distinct (map fst sigs)"
  shows "VerifySignatures secp p sigs msg \<longleftrightarrow>
    Policy_IsValid p \<and> list_all (\<lambda>(i, sig). i < GetN p) sigs
    \<and> unat (policy_m p) \<le> card {i. \<exists>sig. (i, sig) \<in> set sigs \<and> VerifySchnorrSignature secp (pubkeys p ! unat i) sig msg}"
    (is "_ \<longleftrightarrow> _ \<and> ?all \<and> _ \<le> card ?signers")
proof (cases "Policy_IsValid p \<and> ?all")
  case True
  let ?k = "length (signed_indices secp p msg sigs)"
  have "?signers = set (signed_indices secp p msg sigs)" by (force simp: signed_indices_def)
  then have card: "card ?signers = ?k" using signed_indices_distinct [OF assms] by (simp add: distinct_card)
  have "unat (GetN p) \<le> 15" using True by (simp add: GetN_def Policy_IsValid_iff unsigned_of_nat take_bit_nat_eq_self)
  moreover have "length (map fst sigs) \<le> unat (GetN p)" using True assms by (intro distinct_below) (auto simp: list_all_iff)
  ultimately have len: "length sigs \<le> 15" by simp
  moreover have k: "?k \<le> length sigs" by (simp add: signed_indices_def)
  ultimately have "unat (of_nat ?k :: u8) = ?k" by (simp add: unsigned_of_nat take_bit_nat_eq_self)
  moreover have "count_valid secp p msg 0 sigs = Some (of_nat ?k)"
    using True by (subst count_valid_Some) (simp_all add: ValidateKeyIndex_def)
  ultimately show ?thesis using True k by (auto simp: VerifySignatures_def card word_le_nat_alt)
next
  case False
  then show ?thesis using count_valid_None [of p sigs secp msg 0] by (auto simp: VerifySignatures_def ValidateKeyIndex_def)
qed

theorem multisig_counts_keys_witness:
  "VerifySignatures \<lparr>seckey_verify = (\<lambda>_. True), xonly_pubkey_parse = (\<lambda>_. True), schnorrsig_verify = (\<lambda>sig m key. sig = key),
      xonly_pub_of_seckey = Some, schnorrsig_sign32 = (\<lambda>m key. Some key)\<rparr>
    \<lparr>policy_m = 2, pubkeys = [[2, 7], [2, 8], [2, 9]]\<rparr> [(0, [7]), (2, [9])] [1]"
  (is "VerifySignatures ?secp ?p ?sigs _")
proof -
  have valid: "VerifySchnorrSignature ?secp (pubkeys ?p ! unat i) sig [1]" if "(i, sig) \<in> set ?sigs" for i sig
    using that by (auto simp: VerifySchnorrSignature_def Schnorr_Verify_def ValidatePublicKey_def)
  then have "{i. \<exists>sig. (i, sig) \<in> set ?sigs \<and> VerifySchnorrSignature ?secp (pubkeys ?p ! unat i) sig [1]} = {0, 2}" by auto
  moreover have "Policy_IsValid ?p" by (simp add: Policy_IsValid_iff)
  ultimately show ?thesis
    using multisig_counts_keys [of ?sigs ?secp ?p "[1]"] by (simp add: GetN_def)
qed

text \<open>The prefix byte of a key is not part of what is verified: a policy of the same x coordinate with both prefixes is met by one signer.\<close>

lemma one_signer_meets_two_of_two:
  assumes "Schnorr_Verify secp x (Hash256 msg) sig"
  shows "VerifySignatures secp \<lparr>policy_m = 2, pubkeys = [2 # x, 3 # x]\<rparr> [(0, sig), (1, sig)] msg"
  using assms
  by (simp add: VerifySignatures_def Policy_IsValid_iff ValidateKeyIndex_def GetN_def VerifySchnorrSignature_def)

lemma Policy_roundtrip:
  assumes "Policy_IsValid p" and "\<forall>k \<in> set (pubkeys p). length k = 33"
  shows "Policy_Deserialize (Policy_Serialize p @ rest) = (p, rest)"
proof -
  have "unat (of_nat (length (pubkeys p)) :: u8) = length (pubkeys p)"
    using assms(1) by (simp add: Policy_IsValid_iff unsigned_of_nat take_bit_nat_eq_self)
  moreover have "pieces 33 (length ks) (concat ks @ rest) = (ks, rest)" if "\<forall>k \<in> set ks. length k = 33" for ks
    using that by (induction ks) simp_all
  moreover have "length (concat (pubkeys p)) = length (pubkeys p) * 33" using concat_length [of "pubkeys p" id] assms(2) by simp
  ultimately show ?thesis
    using assms by (simp add: Policy_Deserialize_def Policy_Serialize_def Policy_IsValid_iff)
qed

subsection \<open>Memos are UTF-8\<close>

text \<open>The Unicode standard: the scalar values and their encoding.\<close>

definition scalar :: "nat \<Rightarrow> bool" where
  "scalar cp \<longleftrightarrow> cp < 0xD800 \<or> (0xDFFF < cp \<and> cp \<le> 0x10FFFF)"

definition utf8 :: "nat \<Rightarrow> bytes" where
  "utf8 cp =
     (if cp < 0x80 then [of_nat cp]
      else if cp < 0x800 then [of_nat (0xC0 + cp div 64), of_nat (0x80 + cp mod 64)]
      else if cp < 0x10000 then [of_nat (0xE0 + cp div 4096), of_nat (0x80 + cp div 64 mod 64), of_nat (0x80 + cp mod 64)]
      else [of_nat (0xF0 + cp div 262144), of_nat (0x80 + cp div 4096 mod 64), of_nat (0x80 + cp div 64 mod 64), of_nat (0x80 + cp mod 64)])"

lemma high_bits: "unat (c AND NOT (mask n) :: u8) = unat c div 2 ^ n * 2 ^ n"
proof -
  have "c AND NOT (mask n) = push_bit n (drop_bit n c)" by (rule bit_word_eqI) (auto simp: bit_simps)
  then have "unat (c AND NOT (mask n)) = take_bit 8 (push_bit n (drop_bit n (unat c)))"
    using unsigned_less [of c, where 'a = nat] by (simp only: unsigned_push_bit_eq unsigned_drop_bit_eq) (simp add: take_bit_nat_eq_self)
  moreover have "unat c div 2 ^ n * 2 ^ n < 2 ^ 8"
    by (rule le_less_trans [OF div_times_less_eq_dividend]) (use unsigned_less [of c, where 'a = nat] in simp)
  ultimately show ?thesis by (simp add: push_bit_eq_mult drop_bit_eq_div take_bit_nat_eq_self)
qed

lemma byte_classes:
  fixes c :: u8
  shows "c AND 0xC0 = 0x80 \<longleftrightarrow> unat c div 64 = 2" "c AND 0xE0 = 0xC0 \<longleftrightarrow> unat c div 32 = 6"
    "c AND 0xF0 = 0xE0 \<longleftrightarrow> unat c div 16 = 14" "c AND 0xF8 = 0xF0 \<longleftrightarrow> unat c div 8 = 30"
proof -
  have m: "NOT (mask 6) = (0xC0 :: u8)" "NOT (mask 5) = (0xE0 :: u8)" "NOT (mask 4) = (0xF0 :: u8)" "NOT (mask 3) = (0xF8 :: u8)"
    by (simp_all add: mask_eq_exp_minus_1)
  show "c AND 0xC0 = 0x80 \<longleftrightarrow> unat c div 64 = 2" "c AND 0xE0 = 0xC0 \<longleftrightarrow> unat c div 32 = 6"
    "c AND 0xF0 = 0xE0 \<longleftrightarrow> unat c div 16 = 14" "c AND 0xF8 = 0xF0 \<longleftrightarrow> unat c div 8 = 30"
    using high_bits [of c 6, unfolded m] high_bits [of c 5, unfolded m] high_bits [of c 4, unfolded m] high_bits [of c 3, unfolded m]
    by (simp_all add: word_unat_eq_iff)
qed

lemma low_bits: "unat (ucast (c :: u8) AND mask n :: u32) = unat c mod 2 ^ n"
proof -
  have "unat (ucast c :: u32) = unat c"
    using unsigned_less [of c, where 'a = nat] by (simp add: unsigned_ucast_eq take_bit_nat_eq_self)
  then have "unat (take_bit n (ucast c) :: u32) = take_bit n (unat c)" by (simp add: unsigned_take_bit_eq)
  then show ?thesis by (simp add: take_bit_eq_mask flip: take_bit_eq_mod)
qed

lemma low_masks:
  fixes c :: u8
  shows "unat (ucast c AND 0x3F :: u32) = unat c mod 64" "unat (ucast c AND 0x1F :: u32) = unat c mod 32"
    "unat (ucast c AND 0x0F :: u32) = unat c mod 16" "unat (ucast c AND 0x07 :: u32) = unat c mod 8"
  using low_bits [of c 6] low_bits [of c 5] low_bits [of c 4] low_bits [of c 3] by (simp_all add: mask_eq_exp_minus_1)

lemma append_six:
  assumes "unat cp < 2 ^ 20"
  shows "unat (push_bit 6 cp OR (ucast (c :: u8) AND 0x3F) :: u32) = unat cp * 64 + unat c mod 64"
proof -
  have m: "(0x3F :: u32) = mask 6" by (simp add: mask_eq_exp_minus_1)
  have "push_bit 6 cp AND (ucast c AND 0x3F) = 0"
    unfolding m by (rule bit_word_eqI) (auto simp: bit_simps)
  then have "push_bit 6 cp OR (ucast c AND 0x3F) = push_bit 6 cp + (ucast c AND 0x3F)" by (simp add: disjunctive_add_eq_or)
  moreover have "unat (push_bit 6 cp) = unat cp * 64"
    using assms by (simp only: unsigned_push_bit_eq) (simp add: take_bit_nat_eq_self push_bit_eq_mult)
  ultimately show ?thesis using assms low_masks(1) [of c] by (simp add: unat_word_ariths)
qed

text \<open>One sequence: what the loop accepts at the front of its input is the encoding of a scalar value, and the encodings are accepted.\<close>

definition one_sequence :: "bytes \<Rightarrow> bytes option" where
  "one_sequence s =
     (case s of
        [] \<Rightarrow> None
      | c # rest \<Rightarrow>
          if c \<le> 0x7F then Some rest
          else case utf8_lead c of
            None \<Rightarrow> None
          | Some (len, codepoint) \<Rightarrow>
              if length s < len then None
              else case utf8_continue codepoint (take (len - 1) rest) of
                None \<Rightarrow> None
              | Some codepoint \<Rightarrow> if utf8_refused len codepoint then None else Some (drop (len - 1) rest))"

lemma memo_loop_step: "s \<noteq> [] \<Longrightarrow> memo_loop s = (case one_sequence s of None \<Rightarrow> False | Some rest \<Rightarrow> memo_loop rest)"
  by (cases s) (auto simp: one_sequence_def split: option.split prod.split)

lemma unat_u8: "unat (x :: u8) < 256"
  using unsigned_less [of x, where 'a = nat] by simp

lemma of_nat_u8: "n < 256 \<Longrightarrow> unat (of_nat n :: u8) = n"
  by (simp add: unsigned_of_nat take_bit_nat_eq_self)

fun cont_value :: "nat \<Rightarrow> bytes \<Rightarrow> nat option" where
  "cont_value n [] = Some n"
| "cont_value n (x # rest) = (if unat x div 64 \<noteq> 2 then None else cont_value (n * 64 + unat x mod 64) rest)"

lemma continue_value: "(unat cp + 1) * 64 ^ length xs \<le> 2 ^ 24 \<Longrightarrow> map_option unat (utf8_continue cp xs) = cont_value (unat cp) xs"
proof (induction cp xs rule: utf8_continue.induct)
  case (2 cp x rest)
  let ?cp = "push_bit 6 cp OR (ucast x AND 0x3F)"
  have "(unat cp + 1) * 64 \<le> (unat cp + 1) * (64 * 64 ^ length rest)" by (rule mult_le_mono2) simp
  then have "unat ?cp = unat cp * 64 + unat x mod 64" using 2(2) by (intro append_six) simp
  moreover have "(unat cp * 64 + unat x mod 64 + 1) * 64 ^ length rest \<le> (unat cp + 1) * 64 ^ length (x # rest)"
    by (simp only: length_Cons power_Suc mult.assoc [symmetric]) (intro mult_le_mono1, simp add: Suc_le_eq)
  ultimately have u: "unat ?cp = unat cp * 64 + unat x mod 64" and le: "(unat ?cp + 1) * 64 ^ length rest \<le> 2 ^ 24"
    using 2(2) by (simp_all only: order_trans)
  show ?case using 2(1) [OF _ le] u by (simp add: byte_classes)
qed simp

lemma continue_Some:
  assumes "(unat cp + 1) * 64 ^ length xs \<le> 2 ^ 24"
  shows "utf8_continue cp xs = Some v \<longleftrightarrow> cont_value (unat cp) xs = Some (unat v)"
  using continue_value [OF assms] by (cases "utf8_continue cp xs") (auto simp: word_unat_eq_iff)

lemma refused_iff:
  "utf8_refused len v \<longleftrightarrow> len = 2 \<and> unat v < 0x80 \<or> len = 3 \<and> unat v < 0x800 \<or> len = 4 \<and> unat v < 0x10000 \<or> \<not> scalar (unat v)"
  by (auto simp: utf8_refused_def scalar_def word_less_nat_alt word_le_nat_alt)

lemma byte_from_div: "unat (c :: u8) div k = q \<Longrightarrow> of_nat (q * k + unat c mod k) = c"
  by (metis div_mult_mod_eq of_nat_unat ucast_id)

lemma lead_cases:
  assumes "utf8_lead c = Some (len, v)"
  obtains "len = 2" "unat c div 32 = 6" "unat v = unat c mod 32" "unat v \<noteq> 0"
  | "len = 3" "unat c div 16 = 14" "unat v = unat c mod 16"
  | "len = 4" "unat c div 8 = 30" "unat v = unat c mod 8"
proof -
  have "(ucast c AND 0x1F :: u32) = 0 \<longleftrightarrow> unat c mod 32 = 0" using low_masks(2) [of c] by (simp add: word_unat_eq_iff)
  then show thesis
    using assms low_masks [of c] that
    by (auto simp: utf8_lead_def byte_classes Let_def split: if_splits)
qed

lemma cont_value_Some:
  "cont_value n (x # xs) = Some v \<longleftrightarrow> unat x div 64 = 2 \<and> cont_value (n * 64 + unat x mod 64) xs = Some v"
  "cont_value n [] = Some v \<longleftrightarrow> n = v"
  by auto

lemma base64: "(d :: nat) < 64 \<Longrightarrow> (p * 64 + d) div 64 = p" "(d :: nat) < 64 \<Longrightarrow> (p * 64 + d) mod 64 = d"
  by simp_all

lemma utf8_parts:
  "a < 32 \<Longrightarrow> b < 64 \<Longrightarrow> 0x80 \<le> a * 64 + b \<Longrightarrow> utf8 (a * 64 + b) = [of_nat (6 * 32 + a), of_nat (2 * 64 + b)]"
  "a < 16 \<Longrightarrow> b < 64 \<Longrightarrow> d < 64 \<Longrightarrow> 0x800 \<le> (a * 64 + b) * 64 + d \<Longrightarrow>
    utf8 ((a * 64 + b) * 64 + d) = [of_nat (14 * 16 + a), of_nat (2 * 64 + b), of_nat (2 * 64 + d)]"
  "a < 8 \<Longrightarrow> b < 64 \<Longrightarrow> d < 64 \<Longrightarrow> e < 64 \<Longrightarrow> 0x10000 \<le> ((a * 64 + b) * 64 + d) * 64 + e \<Longrightarrow>
    utf8 (((a * 64 + b) * 64 + d) * 64 + e) = [of_nat (30 * 8 + a), of_nat (2 * 64 + b), of_nat (2 * 64 + d), of_nat (2 * 64 + e)]"
proof -
  assume "a < 32" "b < 64" "0x80 \<le> a * 64 + b"
  then have "\<not> a * 64 + b < 0x80" "a * 64 + b < 0x800" "(a * 64 + b) div 64 = a" "(a * 64 + b) mod 64 = b" by simp_all
  then show "utf8 (a * 64 + b) = [of_nat (6 * 32 + a), of_nat (2 * 64 + b)]" unfolding utf8_def by (simp only: if_True if_False) simp
next
  assume h: "a < 16" "b < 64" "d < 64" "0x800 \<le> (a * 64 + b) * 64 + d"
  let ?n = "(a * 64 + b) * 64 + d"
  have "?n div 64 = a * 64 + b" "?n mod 64 = d" using h by (simp_all only: base64)
  moreover have "?n div 4096 = ?n div 64 div 64" by (simp add: div_mult2_eq [symmetric])
  ultimately have "?n div 4096 = a" "?n div 64 mod 64 = b" "?n mod 64 = d" using h by (simp_all only: base64)
  moreover have "\<not> ?n < 0x80" "\<not> ?n < 0x800" "?n < 0x10000" using h by simp_all
  ultimately show "utf8 ?n = [of_nat (14 * 16 + a), of_nat (2 * 64 + b), of_nat (2 * 64 + d)]"
    unfolding utf8_def by (simp only: if_True if_False) simp
next
  assume h: "a < 8" "b < 64" "d < 64" "e < 64" "0x10000 \<le> ((a * 64 + b) * 64 + d) * 64 + e"
  let ?n = "((a * 64 + b) * 64 + d) * 64 + e"
  have "?n div 64 = (a * 64 + b) * 64 + d" "?n mod 64 = e" using h by (simp_all only: base64)
  moreover have "?n div 4096 = ?n div 64 div 64" "?n div 262144 = ?n div 64 div 64 div 64" by (simp_all add: div_mult2_eq [symmetric])
  ultimately have "?n div 262144 = a" "?n div 4096 mod 64 = b" "?n div 64 mod 64 = d" "?n mod 64 = e" using h by (simp_all only: base64)
  moreover have "\<not> ?n < 0x80" "\<not> ?n < 0x800" "\<not> ?n < 0x10000" using h by simp_all
  ultimately show "utf8 ?n = [of_nat (30 * 8 + a), of_nat (2 * 64 + b), of_nat (2 * 64 + d), of_nat (2 * 64 + e)]"
    unfolding utf8_def by (simp only: if_True if_False) simp
qed

lemma sequence_is_utf8:
  assumes "one_sequence s = Some rest"
  shows "\<exists>cp. scalar cp \<and> s = utf8 cp @ rest"
proof -
  obtain c r where s: "s = c # r" using assms by (cases s) (simp_all add: one_sequence_def)
  show ?thesis
  proof (cases "c \<le> 0x7F")
    case True
    then have "unat c < 0x80" by (simp add: word_le_nat_alt)
    then have "scalar (unat c) \<and> s = utf8 (unat c) @ rest" using assms True by (simp add: s one_sequence_def utf8_def scalar_def)
    then show ?thesis by blast
  next
    case False
    then obtain len v w where lead: "utf8_lead c = Some (len, v)" and len: "len \<le> length s"
      and w: "utf8_continue v (take (len - 1) r) = Some w" and ok: "\<not> utf8_refused len w" and rest: "rest = drop (len - 1) r"
      using assms by (auto simp: one_sequence_def s split: option.splits prod.splits if_splits)
    have val: "cont_value (unat v) (take (len - 1) r) = Some (unat w)"
    proof -
      have "(unat v + 1) * 64 ^ length (take (len - 1) r) \<le> 2 ^ 24"
        using len by (cases rule: lead_cases [OF lead]) (simp_all add: s)
      then show ?thesis using w by (simp add: continue_Some)
    qed
    have sc: "scalar (unat w)" using ok by (simp add: refused_iff)
    have "s = utf8 (unat w) @ rest"
    proof (cases rule: lead_cases [OF lead])
      case 1
      then obtain x r1 where r: "r = x # r1" using len by (cases r) (simp_all add: s)
      have w: "unat x div 64 = 2" "unat w = unat c mod 32 * 64 + unat x mod 64" "0x80 \<le> unat w"
        using val ok 1 by (auto simp: r refused_iff split: if_splits)
      note eq = utf8_parts(1) [of "unat c mod 32" "unat x mod 64", unfolded byte_from_div [OF 1(2)] byte_from_div [OF w(1)]]
      have "utf8 (unat w) = [c, x]" using w eq by simp
      then show ?thesis using 1 by (simp add: s r rest)
    next
      case 2
      then obtain x y r1 where r: "r = x # y # r1" using len list_nths(1) [of r] by (auto simp: s)
      have w: "unat x div 64 = 2" "unat y div 64 = 2" "unat w = (unat c mod 16 * 64 + unat x mod 64) * 64 + unat y mod 64" "0x800 \<le> unat w"
        using val ok 2 by (auto simp: r refused_iff split: if_splits)
      note eq = utf8_parts(2) [of "unat c mod 16" "unat x mod 64" "unat y mod 64", unfolded byte_from_div [OF 2(2)] byte_from_div [OF w(1)] byte_from_div [OF w(2)]]
      have "utf8 (unat w) = [c, x, y]" using w eq by simp
      then show ?thesis using 2 by (simp add: s r rest)
    next
      case 3
      then obtain x y z r1 where r: "r = x # y # z # r1" using len by (cases r; cases "tl r"; cases "tl (tl r)") (auto simp: s)
      have w: "unat x div 64 = 2" "unat y div 64 = 2" "unat z div 64 = 2"
        "unat w = ((unat c mod 8 * 64 + unat x mod 64) * 64 + unat y mod 64) * 64 + unat z mod 64" "0x10000 \<le> unat w"
        using val ok 3 by (auto simp: r refused_iff split: if_splits)
      note eq = utf8_parts(3) [of "unat c mod 8" "unat x mod 64" "unat y mod 64" "unat z mod 64", unfolded byte_from_div [OF 3(2)] byte_from_div [OF w(1)] byte_from_div [OF w(2)] byte_from_div [OF w(3)]]
      have "utf8 (unat w) = [c, x, y, z]" using w eq by simp
      then show ?thesis using 3 by (simp add: s r rest)
    qed
    then show ?thesis using sc by blast
  qed
qed

lemma lead_of:
  fixes c :: u8
  shows "unat c div 32 = 6 \<Longrightarrow> unat c mod 32 \<noteq> 0 \<Longrightarrow> \<exists>v. utf8_lead c = Some (2, v) \<and> unat v = unat c mod 32"
    "unat c div 16 = 14 \<Longrightarrow> \<exists>v. utf8_lead c = Some (3, v) \<and> unat v = unat c mod 16"
    "unat c div 8 = 30 \<Longrightarrow> \<exists>v. utf8_lead c = Some (4, v) \<and> unat v = unat c mod 8"
proof -
  have z: "(ucast c AND 0x1F :: u32) = 0 \<longleftrightarrow> unat c mod 32 = 0" using low_masks(2) [of c] by (simp add: word_unat_eq_iff)
  show "unat c div 32 = 6 \<Longrightarrow> unat c mod 32 \<noteq> 0 \<Longrightarrow> \<exists>v. utf8_lead c = Some (2, v) \<and> unat v = unat c mod 32"
    using low_masks(2) [of c] z by (simp add: utf8_lead_def byte_classes Let_def)
  have "unat c div 32 = unat c div 16 div 2" "unat c div 32 = unat c div 8 div 4" "unat c div 16 = unat c div 8 div 2"
    by (simp_all add: div_mult2_eq [symmetric])
  then show "unat c div 16 = 14 \<Longrightarrow> \<exists>v. utf8_lead c = Some (3, v) \<and> unat v = unat c mod 16"
    "unat c div 8 = 30 \<Longrightarrow> \<exists>v. utf8_lead c = Some (4, v) \<and> unat v = unat c mod 8"
    using low_masks(3,4) [of c] by (simp_all add: utf8_lead_def byte_classes)
qed

lemma sequence_accepts:
  assumes "utf8_lead c = Some (len, v)" and "0x80 \<le> unat c" and "len = Suc (length xs)" and "(unat v + 1) * 64 ^ length xs \<le> 2 ^ 24"
    and "cont_value (unat v) xs = Some n" and "scalar n" and "len = 2 \<longrightarrow> 0x80 \<le> n" and "len = 3 \<longrightarrow> 0x800 \<le> n" and "len = 4 \<longrightarrow> 0x10000 \<le> n"
  shows "one_sequence (c # xs @ rest) = Some rest"
proof -
  obtain w where w: "utf8_continue v xs = Some w" "unat w = n" using continue_value [OF assms(4)] assms(5) by auto
  then have "\<not> utf8_refused len w" using assms(6-9) by (auto simp: refused_iff)
  moreover have "\<not> c \<le> 0x7F" using assms(2) by (simp add: word_le_nat_alt)
  ultimately show ?thesis using assms(1,3) w by (simp add: one_sequence_def)
qed

lemma utf8_byte:
  assumes "k * q + k \<le> 256" and "a < k"
  shows "unat (of_nat (q * k + a) :: u8) div k = q \<and> unat (of_nat (q * k + a) :: u8) mod k = a \<and> q * k \<le> unat (of_nat (q * k + a) :: u8)"
proof -
  have "q * k + a < 256" using assms by (simp add: mult.commute)
  then have "unat (of_nat (q * k + a) :: u8) = q * k + a" by (rule of_nat_u8)
  then show ?thesis using assms(2) by (simp only:) simp
qed

lemma utf8_sequence:
  assumes "scalar cp"
  shows "one_sequence (utf8 cp @ rest) = Some rest"
proof -
  have cp: "cp \<le> 0x10FFFF" using assms by (auto simp: scalar_def)
  consider "cp < 0x80" | "0x80 \<le> cp" "cp < 0x800" | "0x800 \<le> cp" "cp < 0x10000" | "0x10000 \<le> cp" by linarith
  then show ?thesis
  proof cases
    case 1
    then have "(of_nat cp :: u8) \<le> 0x7F" by (simp add: word_le_nat_alt of_nat_u8)
    then show ?thesis using 1 by (simp add: utf8_def one_sequence_def)
  next
    case 2
    define a b where "a = cp div 64" and "b = cp mod 64"
    have n: "cp = a * 64 + b" "b < 64" "a < 32" "a \<noteq> 0" using 2 by (simp_all add: a_def b_def)
    let ?c = "of_nat (6 * 32 + a) :: u8" and ?x = "of_nat (2 * 64 + b) :: u8"
    have c: "unat ?c div 32 = 6 \<and> unat ?c mod 32 = a" "unat ?x div 64 = 2 \<and> unat ?x mod 64 = b" "0x80 \<le> unat ?c"
      using n utf8_byte [of 32 6 a] utf8_byte [of 64 2 b] by (simp_all add: of_nat_u8)
    then obtain v where v: "utf8_lead ?c = Some (2, v)" "unat v = a" using lead_of(1) [of ?c] n by auto
    have "one_sequence (?c # [?x] @ rest) = Some rest"
      using sequence_accepts [OF v(1) c(3), of "[?x]" cp rest] v(2) c n 2 assms by simp
    then show ?thesis using utf8_parts(1) [OF n(3,2)] 2 n(1) by simp
  next
    case 3
    define a b d where "a = cp div 64 div 64" and "b = cp div 64 mod 64" and "d = cp mod 64"
    have n: "cp = (a * 64 + b) * 64 + d" "d < 64" "b < 64" "a < 16" using 3 by (simp_all add: a_def b_def d_def)
    let ?c = "of_nat (14 * 16 + a) :: u8" and ?x = "of_nat (2 * 64 + b) :: u8" and ?y = "of_nat (2 * 64 + d) :: u8"
    have c: "unat ?c div 16 = 14 \<and> unat ?c mod 16 = a" "unat ?x div 64 = 2 \<and> unat ?x mod 64 = b" "unat ?y div 64 = 2 \<and> unat ?y mod 64 = d" "0x80 \<le> unat ?c"
      using n utf8_byte [of 16 14 a] utf8_byte [of 64 2 b] utf8_byte [of 64 2 d] by (simp_all add: of_nat_u8)
    then obtain v where v: "utf8_lead ?c = Some (3, v)" "unat v = a" using lead_of(2) [of ?c] by auto
    have "one_sequence (?c # [?x, ?y] @ rest) = Some rest"
      using sequence_accepts [OF v(1) c(4), of "[?x, ?y]" cp rest] v(2) c n 3 assms by simp
    then show ?thesis using utf8_parts(2) [OF n(4,3,2)] 3 n(1) by simp
  next
    case 4
    define a b d e where "a = cp div 64 div 64 div 64" and "b = cp div 64 div 64 mod 64" and "d = cp div 64 mod 64" and "e = cp mod 64"
    have n: "cp = ((a * 64 + b) * 64 + d) * 64 + e" "e < 64" "d < 64" "b < 64" "a < 8" using cp by (simp_all add: a_def b_def d_def e_def)
    let ?c = "of_nat (30 * 8 + a) :: u8" and ?x = "of_nat (2 * 64 + b) :: u8" and ?y = "of_nat (2 * 64 + d) :: u8"
      and ?z = "of_nat (2 * 64 + e) :: u8"
    have c: "unat ?c div 8 = 30 \<and> unat ?c mod 8 = a" "unat ?x div 64 = 2 \<and> unat ?x mod 64 = b" "unat ?y div 64 = 2 \<and> unat ?y mod 64 = d"
      "unat ?z div 64 = 2 \<and> unat ?z mod 64 = e" "0x80 \<le> unat ?c"
      using n utf8_byte [of 8 30 a] utf8_byte [of 64 2 b] utf8_byte [of 64 2 d] utf8_byte [of 64 2 e] by (simp_all add: of_nat_u8)
    then obtain v where v: "utf8_lead ?c = Some (4, v)" "unat v = a" using lead_of(3) [of ?c] by auto
    have "one_sequence (?c # [?x, ?y, ?z] @ rest) = Some rest"
      using sequence_accepts [OF v(1) c(5), of "[?x, ?y, ?z]" cp rest] v(2) c n 4 assms by simp
    then show ?thesis using utf8_parts(3) [OF n(5,4,3,2)] 4 n(1) by simp
  qed
qed

lemma utf8_nonempty [simp]: "utf8 cp \<noteq> []"
  by (simp add: utf8_def)

lemma memo_loop_is_utf8: "memo_loop s \<longleftrightarrow> (\<exists>cps. list_all scalar cps \<and> s = concat (map utf8 cps))"
proof
  show "memo_loop s \<Longrightarrow> \<exists>cps. list_all scalar cps \<and> s = concat (map utf8 cps)"
  proof (induction s rule: length_induct)
    case (1 s)
    show ?case
    proof (cases "s = []")
      case True
      then show ?thesis by (intro exI [of _ "[]"]) simp
    next
      case False
      then obtain rest where rest: "one_sequence s = Some rest" "memo_loop rest"
        using "1.prems" by (auto simp: memo_loop_step split: option.splits)
      then obtain cp where cp: "scalar cp" "s = utf8 cp @ rest" using sequence_is_utf8 by blast
      then have "length rest < length s" by simp
      then obtain cps where "list_all scalar cps" "rest = concat (map utf8 cps)" using 1 rest(2) by blast
      then show ?thesis using cp by (intro exI [of _ "cp # cps"]) simp
    qed
  qed
next
  have "list_all scalar cps \<Longrightarrow> memo_loop (concat (map utf8 cps))" for cps
    by (induction cps) (simp_all add: memo_loop_step utf8_sequence)
  then show "\<exists>cps. list_all scalar cps \<and> s = concat (map utf8 cps) \<Longrightarrow> memo_loop s" by blast
qed

text \<open>
  C35. A memo is valid exactly when it is UTF-8 as the Unicode standard defines it, of at most 256 bytes: the concatenation of the encodings
  of scalar values. Overlong forms, surrogates, truncated sequences and values above 0x10FFFF are all refused, and nothing else is.
\<close>

theorem valid_memo_is_utf8:
  "ValidateDestinationTag d \<longleftrightarrow> length (memo d) \<le> 256 \<and> (\<exists>cps. list_all scalar cps \<and> memo d = concat (map utf8 cps))"
  by (auto simp: ValidateDestinationTag_def ValidateTag_def ValidateMemo_def memo_loop_is_utf8)

lemma DestinationTag_roundtrip:
  assumes "ValidateDestinationTag d"
  shows "DestinationTag_Deserialize (DestinationTag_Serialize d @ rest) = (d, rest)"
proof -
  let ?n = "of_nat (length (memo d)) :: 16 word"
  have "length (memo d) \<le> 256" using assms by (simp add: ValidateDestinationTag_def ValidateMemo_def split: if_splits)
  then have n: "unat ?n = length (memo d)" by (simp add: unsigned_of_nat take_bit_nat_eq_self)
  have "ucast (ucast ?n :: u8) OR push_bit 8 (ucast (ucast (drop_bit 8 ?n) :: u8)) = ?n"
    by (rule bit_word_eqI) (auto simp: bit_simps less_diff_conv2)
  then show ?thesis
    using n by (simp add: DestinationTag_Deserialize_def DestinationTag_Serialize_def nth_append Let_def)
qed

end
