(* ===== verification/Gas.thy ===== *)
theory Gas
  imports Prelude
begin

section \<open>Gas prices of the third layer\<close>

text \<open>
  Models \<open>layer3-obolos/evm/gas_pricing.h\<close> (the base fee of the next block, the price and the fee of a transaction) and
  \<open>layer3-obolos/evm/execution.cpp\<close>. A division by 0, which ends the process, is \<open>None\<close>.
\<close>

abbreviation (input) BASE_FEE_CHANGE_DENOMINATOR :: u64 where "BASE_FEE_CHANGE_DENOMINATOR \<equiv> 8"
abbreviation (input) ELASTICITY_MULTIPLIER :: u64 where "ELASTICITY_MULTIPLIER \<equiv> 2"
abbreviation (input) MIN_BASE_FEE :: u64 where "MIN_BASE_FEE \<equiv> 1"

text \<open>The delta, which divides first when the product overflows.\<close>

definition base_fee_delta :: "u64 \<Rightarrow> u64 \<Rightarrow> u64 \<Rightarrow> u64 option" where
  "base_fee_delta parent_base_fee gas_delta target_gas =
     (if target_gas = 0 then None
      else if parent_base_fee \<le> UINT64_MAX div gas_delta
      then Some ((parent_base_fee * gas_delta) div target_gas div BASE_FEE_CHANGE_DENOMINATOR)
      else Some ((parent_base_fee div BASE_FEE_CHANGE_DENOMINATOR) * gas_delta div target_gas))"

text \<open>The end of the two branches that lower the fee.\<close>

definition lowered :: "u64 \<Rightarrow> u64 \<Rightarrow> u64" where
  "lowered parent_base_fee decrease =
     (if parent_base_fee > decrease then max (parent_base_fee - decrease) MIN_BASE_FEE else MIN_BASE_FEE)"

definition CalculateNextBaseFee :: "u64 \<Rightarrow> u64 \<Rightarrow> u64 \<Rightarrow> u64 option" where
  "CalculateNextBaseFee parent_base_fee parent_gas_used parent_gas_limit =
     (if parent_gas_used = 0 then Some (lowered parent_base_fee (parent_base_fee div BASE_FEE_CHANGE_DENOMINATOR))
      else
        let target_gas = parent_gas_limit div ELASTICITY_MULTIPLIER in
        if parent_gas_used = target_gas then Some parent_base_fee
        else if parent_gas_used > target_gas then
          (case base_fee_delta parent_base_fee (parent_gas_used - target_gas) target_gas of
             None \<Rightarrow> None
           | Some delta \<Rightarrow>
               let delta = max delta 1 in
               Some (if parent_base_fee \<le> UINT64_MAX - delta then parent_base_fee + delta else UINT64_MAX))
        else
          (case base_fee_delta parent_base_fee (target_gas - parent_gas_used) target_gas of
             None \<Rightarrow> None
           | Some delta \<Rightarrow> Some (lowered parent_base_fee delta)))"

definition CalculateEffectiveGasPrice :: "u64 \<Rightarrow> u64 \<Rightarrow> u64 \<Rightarrow> u64" where
  "CalculateEffectiveGasPrice base_fee max_fee_per_gas max_priority_fee_per_gas =
     (let effective_priority_fee =
            (if max_fee_per_gas \<ge> base_fee then min max_priority_fee_per_gas (max_fee_per_gas - base_fee) else 0) in
      base_fee + effective_priority_fee)"

definition ValidateTransactionFees :: "u64 \<Rightarrow> u64 \<Rightarrow> u64 \<Rightarrow> bool" where
  "ValidateTransactionFees base_fee max_fee_per_gas max_priority_fee_per_gas =
     (if max_fee_per_gas < base_fee then False
      else if max_priority_fee_per_gas > max_fee_per_gas then False
      else True)"

text \<open>The total fee, and the outputs \<open>base_fee_burned\<close> and \<open>priority_fee_paid\<close>.\<close>

definition CalculateTransactionFee :: "u64 \<Rightarrow> u64 \<Rightarrow> u64 \<Rightarrow> u64 \<Rightarrow> u64 \<times> u64 \<times> u64" where
  "CalculateTransactionFee gas base_fee max_fee_per_gas max_priority_fee_per_gas =
     (let effective_gas_price = CalculateEffectiveGasPrice base_fee max_fee_per_gas max_priority_fee_per_gas;
          base_fee_burned = gas * base_fee;
          priority_fee_per_gas = (if effective_gas_price \<ge> base_fee then effective_gas_price - base_fee else 0);
          priority_fee_paid = gas * priority_fee_per_gas in
      (base_fee_burned + priority_fee_paid, base_fee_burned, priority_fee_paid))"

definition EstimateGasPrice :: "u64 \<Rightarrow> u64 \<Rightarrow> u64" where
  "EstimateGasPrice current_base_fee recommended_priority_fee =
     (let max_base_fee_increase = current_base_fee div BASE_FEE_CHANGE_DENOMINATOR;
          estimated_next_base_fee = current_base_fee + max_base_fee_increase;
          buffer = estimated_next_base_fee div 10;
          estimated_next_base_fee = estimated_next_base_fee + buffer in
      estimated_next_base_fee + recommended_priority_fee)"

record CallResult =
  call_success :: bool
  call_gas_used :: u64
  call_output :: string

definition ExecuteEvmLikeCall :: "string \<Rightarrow> u64 \<Rightarrow> u64 \<Rightarrow> CallResult" where
  "ExecuteEvmLikeCall payload gas base_fee =
     (let intrinsic_gas = 21000; payload_gas = of_nat (length payload) * 16; total_gas = intrinsic_gas + payload_gas in
      if base_fee = 0 \<or> gas < total_gas then \<lparr>call_success = False, call_gas_used = min gas total_gas, call_output = ''out of gas''\<rparr>
      else \<lparr>call_success = True, call_gas_used = total_gas, call_output = ''0x''\<rparr>)"

subsection \<open>The base fee moves by at most an eighth\<close>

lemma unat_mult_le: "unat (x * y :: u64) \<le> unat x * unat y"
  by (simp add: unat_word_ariths)

lemma delta_bound:
  assumes "base_fee_delta fee gas_delta target = Some d" and "unat gas_delta \<le> unat target"
  shows "unat d \<le> unat fee div 8"
proof -
  have t: "unat target \<noteq> 0" using assms(1) by (simp add: base_fee_delta_def unat_eq_zero split: if_splits)
  consider "d = fee * gas_delta div target div 8" | "d = fee div 8 * gas_delta div target"
    using assms(1) by (auto simp: base_fee_delta_def split: if_splits)
  then show ?thesis
  proof cases
    case 1
    have "unat (fee * gas_delta) div unat target \<le> unat fee * unat target div unat target"
      using assms(2) by (intro div_le_mono order_trans [OF unat_mult_le] mult_le_mono2)
    then have "unat (fee * gas_delta) div unat target div 8 \<le> unat fee div 8" using t by (intro div_le_mono) simp
    then show ?thesis by (simp add: 1 unat_div)
  next
    case 2
    have "unat (fee div 8 * gas_delta) div unat target \<le> unat (fee div 8) * unat target div unat target"
      using assms(2) by (intro div_le_mono order_trans [OF unat_mult_le] mult_le_mono2)
    then show ?thesis using t by (simp add: 2 unat_div)
  qed
qed

lemma lowered_bounds:
  "unat d \<le> unat fee div 8 \<Longrightarrow> 1 \<le> unat fee \<Longrightarrow>
    1 \<le> unat (lowered fee d) \<and> unat (lowered fee d) \<le> unat fee \<and> unat fee \<le> unat (lowered fee d) + unat fee div 8"
proof -
  assume d: "unat d \<le> unat fee div 8" and "1 \<le> unat fee"
  then have "unat d < unat fee" by linarith
  then have "d < fee" "unat (fee - d) = unat fee - unat d" by (simp_all add: word_less_nat_alt unat_sub word_le_nat_alt)
  moreover from this have "lowered fee d = fee - d" using \<open>unat d < unat fee\<close> by (simp add: lowered_def max_def word_le_nat_alt word_unat_eq_iff) linarith
  ultimately have "unat (lowered fee d) = unat fee - unat d" by simp
  then show ?thesis using d \<open>unat d < unat fee\<close> by linarith
qed

lemma raised:
  assumes "unat d \<le> unat fee div 8" and "n = (if fee \<le> UINT64_MAX - max d 1 then fee + max d 1 else UINT64_MAX)"
  shows "unat fee \<le> unat n \<and> unat n \<le> unat fee + max 1 (unat fee div 8)"
proof -
  have m: "unat (max d 1) = max (unat d) 1" by (simp add: max_def word_le_nat_alt)
  have u: "unat (UINT64_MAX - max d 1) = unat UINT64_MAX - unat (max d 1)" by (rule unat_sub) (simp add: word_le_nat_alt unat64_le)
  show ?thesis
  proof (cases "fee \<le> UINT64_MAX - max d 1")
    case True
    then have "unat fee + max (unat d) 1 < 2 ^ 64" using u m unat64_le [of "max d 1"] by (simp add: word_le_nat_alt)
    then have "unat n = unat fee + max (unat d) 1" using True assms(2) m by (simp add: unat_add_lt)
    then show ?thesis using assms(1) by linarith
  next
    case False
    then have "n = UINT64_MAX" "unat UINT64_MAX - max (unat d) 1 < unat fee" using assms(2) u m by (simp_all add: word_le_nat_alt)
    then show ?thesis using assms(1) unat64_le [of fee] by auto
  qed
qed

text \<open>
  The base fee of the next block exists and differs from the parent's by at most an eighth (at least 1 upwards), stays at least 1, does not fall
  after a block above the target and does not rise after one below it, for every 64-bit fee, whichever intermediate products overflow, as long as
  the gas limit is at least 2 and the block used at most twice the target.
\<close>

theorem next_base_fee_bounded:
  assumes "1 \<le> fee" and "2 \<le> limit" and "unat used \<le> 2 * (unat limit div 2)"
  shows "\<exists>next_fee. CalculateNextBaseFee fee used limit = Some next_fee \<and> 1 \<le> next_fee
    \<and> unat next_fee \<le> unat fee + max 1 (unat fee div 8) \<and> unat fee \<le> unat next_fee + unat fee div 8
    \<and> (limit div 2 < used \<longrightarrow> fee \<le> next_fee) \<and> (used \<le> limit div 2 \<longrightarrow> next_fee \<le> fee)"
proof -
  let ?t = "limit div 2"
  have t: "unat ?t = unat limit div 2" "?t \<noteq> 0" "1 \<le> unat fee"
    using assms(1,2) by (auto simp: unat_div word_le_nat_alt word_unat_eq_iff)
  have delta: "\<exists>d. base_fee_delta fee g ?t = Some d \<and> unat d \<le> unat fee div 8" if "unat g \<le> unat ?t" for g
    using t(2) delta_bound [OF _ that] by (auto simp: base_fee_delta_def)
  consider "used = 0" | "used \<noteq> 0" "used = ?t" | "used \<noteq> 0" "?t < used" | "used \<noteq> 0" "used < ?t" using less_linear by blast
  then show ?thesis
  proof cases
    case 1
    then show ?thesis
      using lowered_bounds [of "fee div 8" fee] t by (simp add: CalculateNextBaseFee_def word_le_nat_alt word_less_nat_alt unat_div)
  next
    case 2
    then show ?thesis using assms(1) by (auto simp: CalculateNextBaseFee_def Let_def)
  next
    case 3
    then have "unat (used - ?t) = unat used - unat ?t" by (intro unat_sub) (simp add: less_imp_le)
    then have "unat (used - ?t) \<le> unat ?t" using assms(3) t(1) by linarith
    then obtain d where d: "base_fee_delta fee (used - ?t) ?t = Some d" "unat d \<le> unat fee div 8" using delta by blast
    then show ?thesis
      using 3 raised [OF d(2) refl] t(3) by (simp add: CalculateNextBaseFee_def Let_def word_le_nat_alt word_less_nat_alt)
  next
    case 4
    then have "unat (?t - used) = unat ?t - unat used" by (intro unat_sub) (simp add: less_imp_le)
    then have "unat (?t - used) \<le> unat ?t" by linarith
    then obtain d where d: "base_fee_delta fee (?t - used) ?t = Some d" "unat d \<le> unat fee div 8" using delta by blast
    then show ?thesis
      using 4 lowered_bounds [OF d(2) t(3)] by (simp add: CalculateNextBaseFee_def Let_def word_le_nat_alt word_less_nat_alt)
  qed
qed

theorem next_base_fee_bounded_witness:
  "\<exists>next_fee. CalculateNextBaseFee 100 30000000 30000000 = Some next_fee \<and> next_fee \<le> 112"
  using next_base_fee_bounded [of 100 30000000 30000000] by (auto simp: word_le_nat_alt)

subsection \<open>Fees\<close>

text \<open>
  A transaction whose fees are valid pays at least the base fee and at most its maximum per unit of gas, and the total is exactly what is burned
  and what the proposer gets as long as the maximum fee for its gas is below 2^64; a maximum below the base fee is refused, though the
  price computed for it would exceed it.
\<close>

theorem transaction_fee_split:
  assumes "unat gas * unat max_fee < 2 ^ 64"
  shows "(ValidateTransactionFees base max_fee tip \<longrightarrow>
      base \<le> CalculateEffectiveGasPrice base max_fee tip \<and> CalculateEffectiveGasPrice base max_fee tip \<le> max_fee
      \<and> (\<exists>burned paid. CalculateTransactionFee gas base max_fee tip = (gas * CalculateEffectiveGasPrice base max_fee tip, burned, paid)
          \<and> unat burned = unat gas * unat base \<and> unat burned + unat paid = unat gas * unat (CalculateEffectiveGasPrice base max_fee tip)))
    \<and> (max_fee < base \<longrightarrow> \<not> ValidateTransactionFees base max_fee tip \<and> max_fee < CalculateEffectiveGasPrice base max_fee tip)"
proof (intro conjI impI)
  assume "ValidateTransactionFees base max_fee tip"
  then have le: "base \<le> max_fee" by (simp add: ValidateTransactionFees_def not_less split: if_splits)
  define p where "p = min tip (max_fee - base)"
  have p: "unat p \<le> unat max_fee - unat base" using le by (simp add: p_def min_def word_le_nat_alt unat_sub)
  have price: "CalculateEffectiveGasPrice base max_fee tip = base + p" using le by (simp add: CalculateEffectiveGasPrice_def p_def)
  have sum: "unat (base + p) = unat base + unat p"
    using p le unat64_le [of max_fee] by (intro unat_add_lt) (simp add: word_le_nat_alt)
  show "base \<le> CalculateEffectiveGasPrice base max_fee tip" "CalculateEffectiveGasPrice base max_fee tip \<le> max_fee"
    using p le by (simp_all add: price word_le_nat_alt sum)
  have "unat gas * (unat base + unat p) \<le> unat gas * unat max_fee" using p le by (intro mult_le_mono2) (simp add: word_le_nat_alt)
  then have "unat gas * unat base + unat gas * unat p < 2 ^ 64" using assms by (simp add: distrib_left)
  then have "unat (gas * base) = unat gas * unat base" "unat (gas * p) = unat gas * unat p" by (simp_all add: unat_mult_lt)
  moreover have "CalculateTransactionFee gas base max_fee tip = (gas * (base + p), gas * base, gas * p)"
    using \<open>base \<le> CalculateEffectiveGasPrice base max_fee tip\<close> by (simp add: CalculateTransactionFee_def Let_def price distrib_left)
  ultimately show "\<exists>burned paid. CalculateTransactionFee gas base max_fee tip = (gas * CalculateEffectiveGasPrice base max_fee tip, burned, paid)
      \<and> unat burned = unat gas * unat base \<and> unat burned + unat paid = unat gas * unat (CalculateEffectiveGasPrice base max_fee tip)"
    by (simp add: price sum distrib_left)
next
  assume "max_fee < base"
  then show "\<not> ValidateTransactionFees base max_fee tip" "max_fee < CalculateEffectiveGasPrice base max_fee tip"
    by (simp_all add: ValidateTransactionFees_def CalculateEffectiveGasPrice_def not_le [symmetric])
qed

theorem transaction_fee_split_witness:
  "CalculateEffectiveGasPrice 10 15 3 \<le> 15 \<and> ValidateTransactionFees 10 15 3"
  using transaction_fee_split [of 21000 15 10 3] by (simp add: ValidateTransactionFees_def)

end
