(* ===== verification/Monetary.thy ===== *)
theory Monetary
  imports Asset Commitments
begin

section \<open>Denominations and display of amounts\<close>

text \<open>
  Models \<open>common/monetary/units.cpp\<close> and \<open>denominations.cpp\<close> with their headers under \<open>include/common/monetary\<close>: the conversions
  between the three tokens, the denominations, and the texts of amounts. Characters outside of ASCII are the ones a signed
  \<open>char\<close> makes negative. \<open>std::from_chars\<close> reads digits only.
\<close>

subsection \<open>Arithmetic\<close>

definition MulOverflow :: "u64 \<Rightarrow> u64 \<Rightarrow> u64 option" where
  "MulOverflow a b = (if a = 0 \<or> b = 0 then Some 0 else if a > UINT64_MAX div b then None else Some (a * b))"

definition DivRoundBankers :: "u64 \<Rightarrow> u64 \<Rightarrow> u64" where
  "DivRoundBankers value divisor =
     (let quotient = value div divisor; remainder = value mod divisor; doubled = remainder * 2 in
      if doubled < divisor then quotient
      else if doubled > divisor then quotient + 1
      else if quotient mod 2 = 0 then quotient else quotient + 1)"

fun pow10_loop :: "nat \<Rightarrow> u64 \<Rightarrow> u64 option" where
  "pow10_loop 0 v = Some v"
| "pow10_loop (Suc n) v = (if v > UINT64_MAX div 10 then None else pow10_loop n (v * 10))"

definition Pow10 :: "u32 \<Rightarrow> u64 option" where
  "Pow10 exponent = pow10_loop (unat exponent) 1"

abbreviation (input) RATIO_DR_PER_TAL :: u64 where "RATIO_DR_PER_TAL \<equiv> 6000"
abbreviation (input) RATIO_OB_PER_DR :: u64 where "RATIO_OB_PER_DR \<equiv> 6"
abbreviation (input) RATIO_OB_PER_TAL :: u64 where "RATIO_OB_PER_TAL \<equiv> 36000"

datatype RoundingMode = Floor | Bankers

definition ConvertTalToDr :: "u64 \<Rightarrow> u64 option" where
  "ConvertTalToDr tal_raw = MulOverflow tal_raw RATIO_DR_PER_TAL"

definition ConvertDrToOb :: "u64 \<Rightarrow> u64 option" where
  "ConvertDrToOb dr_raw = MulOverflow dr_raw RATIO_OB_PER_DR"

definition ConvertTalToOb :: "u64 \<Rightarrow> u64 option" where
  "ConvertTalToOb tal_raw = MulOverflow tal_raw RATIO_OB_PER_TAL"

definition ConvertDrToTal :: "u64 \<Rightarrow> RoundingMode \<Rightarrow> u64 option" where
  "ConvertDrToTal dr_raw mode =
     (if mode = Bankers then Some (DivRoundBankers dr_raw RATIO_DR_PER_TAL) else Some (dr_raw div RATIO_DR_PER_TAL))"

definition ConvertObToDr :: "u64 \<Rightarrow> RoundingMode \<Rightarrow> u64 option" where
  "ConvertObToDr ob_raw mode =
     (if mode = Bankers then Some (DivRoundBankers ob_raw RATIO_OB_PER_DR) else Some (ob_raw div RATIO_OB_PER_DR))"

definition ConvertObToTal :: "u64 \<Rightarrow> RoundingMode \<Rightarrow> u64 option" where
  "ConvertObToTal ob_raw mode =
     (if mode = Bankers then Some (DivRoundBankers ob_raw RATIO_OB_PER_TAL) else Some (ob_raw div RATIO_OB_PER_TAL))"

definition GetTokenDecimals :: "AssetID \<Rightarrow> u32" where
  "GetTokenDecimals asset = (if asset = TALANTON then 8 else if asset = DRACHMA then 8 else if asset = OBOLOS then 8 else 8)"

definition GetTokenBaseUnit :: "AssetID \<Rightarrow> u64" where
  "GetTokenBaseUnit asset =
     (if asset = TALANTON then 100000000 else if asset = DRACHMA then 100000000 else if asset = OBOLOS then 100000000 else 100000000)"

definition ValidateMonetaryInvariants :: bool where
  "ValidateMonetaryInvariants =
     (if RATIO_DR_PER_TAL * RATIO_OB_PER_DR \<noteq> RATIO_OB_PER_TAL then False
      else if GetTokenBaseUnit TALANTON \<noteq> GetTokenBaseUnit DRACHMA \<or> GetTokenBaseUnit DRACHMA \<noteq> GetTokenBaseUnit OBOLOS then False
      else GetTokenBaseUnit TALANTON = BASE_UNIT)"

subsection \<open>Texts\<close>

definition Trim :: "string \<Rightarrow> string" where
  "Trim s = rev (dropWhile is_space (rev (dropWhile is_space s)))"

definition lower_char :: "char \<Rightarrow> char" where
  "lower_char c = (if 65 \<le> (of_char c :: nat) \<and> (of_char c :: nat) \<le> 90 then char_of ((of_char c :: nat) + 32) else c)"

definition Lower :: "string \<Rightarrow> string" where
  "Lower s = map lower_char s"

definition LowerTrimmed :: "string \<Rightarrow> string" where
  "LowerTrimmed s = map (\<lambda>c. if (of_char c :: nat) < 128 then lower_char c else c) (Trim s)"

definition from_chars :: "string \<Rightarrow> u64 option" where
  "from_chars s = (case parse_dec 0 s of None \<Rightarrow> None | Some n \<Rightarrow> if n < 2 ^ 64 then Some (of_nat n) else None)"

definition ParseScaledDecimal :: "string \<Rightarrow> u32 \<Rightarrow> u64 option" where
  "ParseScaledDecimal value decimals =
     (if value = [] then None
      else
        let (whole_part, frac_part) = (case split_at (CHR ''.'') value of None \<Rightarrow> (value, []) | Some p \<Rightarrow> p) in
        if whole_part = [] \<or> hd whole_part = CHR ''-'' then None
        else case from_chars whole_part of
          None \<Rightarrow> None
        | Some whole \<Rightarrow>
            if length frac_part > unat decimals then None
            else if \<not> list_all is_digit frac_part then None
            else
              let frac_part = frac_part @ replicate (unat decimals - length frac_part) (CHR ''0'') in
              case (if frac_part = [] then Some 0 else from_chars frac_part) of
                None \<Rightarrow> None
              | Some frac \<Rightarrow>
                  (case Pow10 decimals of
                     None \<Rightarrow> None
                   | Some scale \<Rightarrow>
                       if whole > UINT64_MAX div scale then None
                       else
                         let raw = whole * scale in
                         if raw > UINT64_MAX - frac then None else Some (raw + frac)))"

text \<open>\<open>std::setw\<close> with fill \<open>'0'\<close>.\<close>

definition padded :: "nat \<Rightarrow> string \<Rightarrow> string" where
  "padded width s = replicate (width - length s) (CHR ''0'') @ s"

definition FormatScaledDecimal :: "u64 \<Rightarrow> u32 \<Rightarrow> string" where
  "FormatScaledDecimal scaled decimals =
     (let scale = (case Pow10 decimals of None \<Rightarrow> 1 | Some s \<Rightarrow> s);
          whole = (if scale = 0 then scaled else scaled div scale);
          frac = (if scale = 0 then 0 else scaled mod scale) in
      dec (unat whole) @ (if decimals > 0 then CHR ''.'' # padded (unat decimals) (dec (unat frac)) else []))"

definition FormatAmount :: "u64 \<Rightarrow> AssetID \<Rightarrow> string" where
  "FormatAmount amount_raw asset =
     (let base = GetTokenBaseUnit asset; whole = amount_raw div base; frac = amount_raw mod base; decimals = GetTokenDecimals asset in
      dec (unat whole) @ CHR ''.'' # padded (unat decimals) (dec (unat frac)))"

definition ParseDisplayAmount :: "string \<Rightarrow> AssetID \<Rightarrow> u64 option" where
  "ParseDisplayAmount value asset = ParseScaledDecimal value (GetTokenDecimals asset)"

subsection \<open>Denominations\<close>

record DenominationDefinition =
  denom_name :: string
  denom_symbol :: string
  denom_asset :: AssetID
  token_units_numerator :: u64
  token_units_denominator :: u64
  allowed_decimals :: u32
  allow_input :: bool
  approximate_display :: bool
  aliases :: "string list"

definition TalDenoms :: "DenominationDefinition list" where
  "TalDenoms =
     [\<lparr>denom_name = ''talanton'', denom_symbol = ''TAL'', denom_asset = TALANTON, token_units_numerator = 1, token_units_denominator = 1,
       allowed_decimals = 8, allow_input = True, approximate_display = False, aliases = [''tal'', ''talanton'', ''talanta'']\<rparr>,
      \<lparr>denom_name = ''mina'', denom_symbol = ''MNA'', denom_asset = TALANTON, token_units_numerator = 1, token_units_denominator = 60,
       allowed_decimals = 8, allow_input = False, approximate_display = True, aliases = [''mina'', ''mina'']\<rparr>]"

definition DrDenoms :: "DenominationDefinition list" where
  "DrDenoms =
     [\<lparr>denom_name = ''drachma'', denom_symbol = ''DR'', denom_asset = DRACHMA, token_units_numerator = 1, token_units_denominator = 1,
       allowed_decimals = 8, allow_input = True, approximate_display = False, aliases = [''dr'', ''drachma'', ''drachmas'']\<rparr>,
      \<lparr>denom_name = ''obol'', denom_symbol = ''OB'', denom_asset = DRACHMA, token_units_numerator = 1, token_units_denominator = 6,
       allowed_decimals = 8, allow_input = True, approximate_display = True, aliases = [''ob'', ''obol'']\<rparr>,
      \<lparr>denom_name = ''tetradrachm'', denom_symbol = ''4DR'', denom_asset = DRACHMA, token_units_numerator = 4, token_units_denominator = 1,
       allowed_decimals = 8, allow_input = True, approximate_display = False, aliases = [''tetradrachm'', ''tetradrachma'', ''tetra'']\<rparr>,
      \<lparr>denom_name = ''mina'', denom_symbol = ''MNA'', denom_asset = DRACHMA, token_units_numerator = 100, token_units_denominator = 1,
       allowed_decimals = 8, allow_input = True, approximate_display = False, aliases = [''mina'', ''mina'']\<rparr>]"

definition ObDenoms :: "DenominationDefinition list" where
  "ObDenoms =
     [\<lparr>denom_name = ''obol'', denom_symbol = ''OB'', denom_asset = OBOLOS, token_units_numerator = 1, token_units_denominator = 1,
       allowed_decimals = 8, allow_input = True, approximate_display = False, aliases = [''ob'', ''obol'', ''obolos'']\<rparr>,
      \<lparr>denom_name = ''hemiobol'', denom_symbol = ''1/2OB'', denom_asset = OBOLOS, token_units_numerator = 1, token_units_denominator = 2,
       allowed_decimals = 8, allow_input = False, approximate_display = False, aliases = [''hemiobol'', ''hemi-obol'']\<rparr>]"

definition GetAtticDisplayDenominations :: "AssetID \<Rightarrow> DenominationDefinition list" where
  "GetAtticDisplayDenominations asset =
     (if asset = TALANTON then TalDenoms else if asset = DRACHMA then DrDenoms else if asset = OBOLOS then ObDenoms else TalDenoms)"

definition ResolveDenomination :: "AssetID \<Rightarrow> string \<Rightarrow> DenominationDefinition option" where
  "ResolveDenomination asset name_or_alias =
     (if list_ex (\<lambda>c. (of_char c :: nat) \<ge> 128) name_or_alias then None
      else
        let needle = LowerTrimmed name_or_alias in
        if needle = [] then None
        else find (\<lambda>d. LowerTrimmed (denom_name d) = needle \<or> LowerTrimmed (denom_symbol d) = needle
                       \<or> list_ex (\<lambda>alias. LowerTrimmed alias = needle) (aliases d))
               (GetAtticDisplayDenominations asset))"

definition DefaultDenominationName :: "AssetID \<Rightarrow> string" where
  "DefaultDenominationName asset =
     (let denoms = GetAtticDisplayDenominations asset in if denoms = [] then [] else denom_name (hd denoms))"

text \<open>The text and the output \<open>approximate\<close>.\<close>

definition FormatAmountWithDenomination :: "u64 \<Rightarrow> AssetID \<Rightarrow> string \<Rightarrow> (string \<times> bool) option" where
  "FormatAmountWithDenomination amount_raw asset denomination =
     (case ResolveDenomination asset (if denomination = [] then DefaultDenominationName asset else denomination) of
        None \<Rightarrow> None
      | Some denom \<Rightarrow>
          let scale = (case Pow10 (allowed_decimals denom) of None \<Rightarrow> 1 | Some s \<Rightarrow> s) in
          (case MulOverflow amount_raw (token_units_denominator denom) of
             None \<Rightarrow> None
           | Some lhs \<Rightarrow>
               (case MulOverflow lhs scale of
                  None \<Rightarrow> None
                | Some numer \<Rightarrow>
                    (case MulOverflow (GetTokenBaseUnit asset) (token_units_numerator denom) of
                       None \<Rightarrow> None
                     | Some denom_divisor \<Rightarrow>
                         if denom_divisor = 0 then None
                         else
                           let is_approximate = (numer mod denom_divisor \<noteq> 0); scaled_amount = numer div denom_divisor in
                           Some (FormatScaledDecimal scaled_amount (allowed_decimals denom),
                                 is_approximate \<or> approximate_display denom)))))"

definition ParseDisplayAmountWithDenomination :: "string \<Rightarrow> AssetID \<Rightarrow> string \<Rightarrow> string + u64" where
  "ParseDisplayAmountWithDenomination value asset denomination =
     (case ResolveDenomination asset (if denomination = [] then DefaultDenominationName asset else denomination) of
        None \<Rightarrow> Inl ''unknown denomination''
      | Some denom \<Rightarrow>
          if \<not> allow_input denom then Inl ''denomination is display-only''
          else case ParseScaledDecimal value (allowed_decimals denom) of
            None \<Rightarrow> Inl ''invalid numeric amount''
          | Some scaled \<Rightarrow>
              let scale = (case Pow10 (allowed_decimals denom) of None \<Rightarrow> 1 | Some s \<Rightarrow> s) in
              (case MulOverflow scaled (token_units_numerator denom) of
                 None \<Rightarrow> Inl ''amount overflow''
               | Some denom_raw \<Rightarrow>
                   (case MulOverflow denom_raw (GetTokenBaseUnit asset) of
                      None \<Rightarrow> Inl ''amount overflow''
                    | Some numer \<Rightarrow>
                        (case MulOverflow (token_units_denominator denom) scale of
                           None \<Rightarrow> Inl ''invalid denomination divisor''
                         | Some denom_divisor \<Rightarrow>
                             if denom_divisor = 0 then Inl ''invalid denomination divisor''
                             else if numer mod denom_divisor \<noteq> 0 then Inl ''denomination not exactly representable with current decimals''
                             else Inr (numer div denom_divisor)))))"

record AmountView =
  view_raw :: u64
  view_amount :: string
  amount_formatted :: string
  view_token :: string
  denom_used :: string
  dual_display :: "string option"
  view_approximate :: bool

definition BuildAmountView :: "u64 \<Rightarrow> AssetID \<Rightarrow> string \<Rightarrow> bool \<Rightarrow> AmountView" where
  "BuildAmountView amount_raw asset denomination dual =
     (let name = (if denomination = [] then DefaultDenominationName asset else Lower (Trim denomination));
          formatted = FormatAmountWithDenomination amount_raw asset name;
          canonical = FormatAmount amount_raw asset;
          shown = (case formatted of None \<Rightarrow> canonical | Some p \<Rightarrow> fst p) in
      \<lparr>view_raw = amount_raw, view_amount = shown, amount_formatted = shown, view_token = GetAssetName asset, denom_used = name,
       dual_display =
         (if \<not> dual then None
          else if asset = DRACHMA then
            map_option (\<lambda>in_ob. shown @ '' DR ('' @ FormatAmount in_ob OBOLOS @ '' OB)'') (ConvertDrToOb amount_raw)
          else if asset = TALANTON then
            map_option (\<lambda>in_dr. shown @ '' TAL ('' @ FormatAmount in_dr DRACHMA @ '' DR)'') (ConvertTalToDr amount_raw)
          else None),
       view_approximate = (case formatted of None \<Rightarrow> False | Some p \<Rightarrow> snd p)\<rparr>)"

subsection \<open>Amounts print and parse\<close>

lemma Pow10_8: "Pow10 8 = Some 100000000"
  by code_simp

lemma from_chars_dec: "from_chars (dec (unat (w :: u64))) = Some w"
  using unat64_lt [of w] by (simp add: from_chars_def parse_dec_dec)

lemma dec_no_dot: "CHR ''.'' \<notin> set (dec n)" "hd (dec n) \<noteq> CHR ''-''"
proof -
  have "\<not> is_digit CHR ''.''" by (simp add: is_digit_def)
  then show "CHR ''.'' \<notin> set (dec n)" using dec_digits [of n] by (auto simp: list_all_iff)
  show "hd (dec n) \<noteq> CHR ''-''" by (metis dec_digits dec_nonempty hd_in_set list_all_iff not_digits(4))
qed

lemma parse_printed:
  assumes "unat whole * 10 ^ 8 + unat frac < 2 ^ 64" and "unat frac < 10 ^ 8"
  shows "ParseScaledDecimal (dec (unat whole) @ CHR ''.'' # padded 8 (dec (unat frac))) 8 = Some (whole * 100000000 + frac)"
proof -
  let ?f = "padded 8 (dec (unat frac))"
  have len: "length ?f = 8" using length_dec [of "unat frac" 8] assms(2) by (simp add: padded_def)
  then have "?f \<noteq> []" by auto
  have digits: "list_all is_digit ?f" using dec_digits [of "unat frac"] by (auto simp: padded_def list_all_iff is_digit_def)
  have frac: "from_chars ?f = Some frac" using from_chars_dec [of frac] by (simp add: from_chars_def padded_def parse_zeros)
  have product: "unat (whole * 100000000) = unat whole * 10 ^ 8" using assms(1) by (subst unat_mult_lt) simp_all
  have "unat (UINT64_MAX - frac) = unat UINT64_MAX - unat frac" by (rule unat_sub) (simp add: word_le_nat_alt unat64_le)
  then have "\<not> whole * 100000000 > UINT64_MAX - frac" "\<not> whole > UINT64_MAX div 100000000"
    using assms(1) product by (simp_all add: word_less_nat_alt unat_div)
  then show ?thesis
    using len \<open>?f \<noteq> []\<close> digits frac from_chars_dec [of whole] dec_no_dot [of "unat whole"]
    by (simp add: ParseScaledDecimal_def Let_def Pow10_8)
qed

lemma div_mod_exact: "unat (n div d) * unat d + unat (n mod d) = unat (n :: u64)" "n div d * d + n mod d = n"
  by (simp add: unat_div unat_mod) (rule div_mult_mod_eq)

text \<open>
  Every amount prints as a text that parses back to it: for each token and each 64-bit amount, \<open>ParseDisplayAmount\<close> inverts
  \<open>FormatAmount\<close>, without loss of digits or overflow.
\<close>

theorem amounts_print_and_parse:
  "ParseDisplayAmount (FormatAmount n asset) asset = Some n"
proof -
  have "unat (n div 100000000) * 10 ^ 8 + unat (n mod 100000000) = unat n" "unat (n mod 100000000) < 10 ^ 8"
    using div_mod_exact(1) [of n 100000000] by (simp_all add: unat_mod)
  then have "ParseScaledDecimal (dec (unat (n div 100000000)) @ CHR ''.'' # padded 8 (dec (unat (n mod 100000000)))) 8
      = Some (n div 100000000 * 100000000 + n mod 100000000)"
    using unat64_lt [of n] by (intro parse_printed) simp_all
  then show ?thesis
    using div_mod_exact(2) [of n 100000000] by (simp add: ParseDisplayAmount_def FormatAmount_def GetTokenDecimals_def GetTokenBaseUnit_def Let_def)
qed

subsection \<open>Denominations\<close>

lemma MulOverflow_Some: "MulOverflow a b = Some c \<longleftrightarrow> unat a * unat b < 2 ^ 64 \<and> c = a * b"
proof (cases "a = 0 \<or> b = 0")
  case False
  then have "0 < unat b" by (simp add: unat_gt_0)
  then have "unat a \<le> 18446744073709551615 div unat b \<longleftrightarrow> unat a * unat b \<le> 18446744073709551615"
    by (simp add: less_eq_div_iff_mult_less_eq)
  then show ?thesis using False by (auto simp: MulOverflow_def word_less_nat_alt unat_div not_less)
qed (auto simp: MulOverflow_def)

lemma denominations_known:
  "ResolveDenomination asset name = Some d \<Longrightarrow> allowed_decimals d = 8 \<and> token_units_numerator d \<in> {1, 4, 100}
    \<and> (approximate_display d \<or> token_units_denominator d \<in> {1, 2})"
  by (auto simp: ResolveDenomination_def GetAtticDisplayDenominations_def TalDenoms_def DrDenoms_def ObDenoms_def Let_def
      split: if_splits)

text \<open>
  A displayed amount that is not marked as approximate parses back to the same amount: whenever \<open>FormatAmountWithDenomination\<close> gives
  a text that it calls exact, in a denomination that may be used for input, \<open>ParseDisplayAmountWithDenomination\<close> of the text in the same denomination
  is the amount.
\<close>

theorem exact_denominations_parse_back:
  assumes "FormatAmountWithDenomination n asset name = Some (shown, False)"
    and "ResolveDenomination asset (if name = [] then DefaultDenominationName asset else name) = Some d" and "allow_input d"
  shows "ParseDisplayAmountWithDenomination shown asset name = Inr n"
proof -
  note d = denominations_known [OF assms(2)]
  let ?num = "token_units_numerator d" and ?den = "token_units_denominator d" and ?base = "100000000 :: u64"
  from assms(1) have "\<not> approximate_display d" by (auto simp: FormatAmountWithDenomination_def assms(2) Let_def split: option.splits if_splits)
  then have den: "?den \<in> {1, 2}" using d by blast
  obtain lhs numer divisor where m: "MulOverflow n ?den = Some lhs" "MulOverflow lhs ?base = Some numer" "MulOverflow ?base ?num = Some divisor"
    and exact: "divisor \<noteq> 0" "numer mod divisor = 0" and shown: "shown = FormatScaledDecimal (numer div divisor) 8"
    using assms(1) d by (auto simp: FormatAmountWithDenomination_def assms(2) Let_def Pow10_8 GetTokenBaseUnit_def split: option.splits if_splits)
  let ?q = "numer div divisor"
  have n: "unat numer = unat n * unat ?den * 10 ^ 8" "unat divisor = 10 ^ 8 * unat ?num"
    using m by (auto simp: MulOverflow_Some unat_mult_lt)
  have "unat ?q * unat divisor = unat numer" using div_mod_exact(1) [of numer divisor] exact(2) by simp
  then have q: "unat ?q * unat ?num = unat n * unat ?den" using n by simp
  have "unat (?q div ?base) * 10 ^ 8 + unat (?q mod ?base) = unat ?q" "unat (?q mod ?base) < 10 ^ 8"
    using div_mod_exact(1) [of ?q ?base] by (simp_all add: unat_mod)
  then have "ParseScaledDecimal shown 8 = Some ?q"
    using parse_printed [of "?q div ?base" "?q mod ?base"] unat64_lt [of ?q] div_mod_exact(2) [of ?q ?base]
    by (simp add: shown FormatScaledDecimal_def Pow10_8 Let_def)
  moreover have "MulOverflow ?q ?num = Some (?q * ?num)" "MulOverflow (?q * ?num) ?base = Some numer" "MulOverflow ?den ?base = Some (?den * ?base)"
  proof -
    have "unat ?q * unat ?num < 2 ^ 64" using q m(1) by (simp add: MulOverflow_Some)
    then show "MulOverflow ?q ?num = Some (?q * ?num)" by (simp add: MulOverflow_Some)
    have "unat (?q * ?num) = unat n * unat ?den" using q \<open>unat ?q * unat ?num < 2 ^ 64\<close> by (simp add: unat_mult_lt)
    then have "unat (?q * ?num) * 10 ^ 8 = unat numer" using n by simp
    then have "unat (?q * ?num) * 10 ^ 8 < 2 ^ 64" "?q * ?num * ?base = numer"
      using unat64_lt [of numer] by (simp_all add: word_unat_eq_iff unat_mult_lt)
    then show "MulOverflow (?q * ?num) ?base = Some numer" by (simp add: MulOverflow_Some)
    show "MulOverflow ?den ?base = Some (?den * ?base)" using den by (auto simp: MulOverflow_Some)
  qed
  moreover have divisor: "unat (?den * ?base) = unat ?den * 10 ^ 8" "?den * ?base \<noteq> 0" "unat ?den \<noteq> 0" using den by auto
  moreover have "numer mod (?den * ?base) = 0" "numer div (?den * ?base) = n"
    using divisor n(1) by (simp_all add: word_unat_eq_iff unat_div unat_mod)
  ultimately show ?thesis
    using assms(2,3) d by (simp add: ParseDisplayAmountWithDenomination_def Let_def Pow10_8 GetTokenBaseUnit_def)
qed

theorem exact_denominations_parse_back_witness:
  "ParseDisplayAmountWithDenomination ''3.00000000'' DRACHMA ''tetra'' = Inr 1200000000"
proof (rule exact_denominations_parse_back)
  show "FormatAmountWithDenomination 1200000000 DRACHMA ''tetra'' = Some (''3.00000000'', False)" by code_simp
  show "ResolveDenomination DRACHMA (if ''tetra'' = [] then DefaultDenominationName DRACHMA else ''tetra'') = Some (DrDenoms ! 2)" by code_simp
  show "allow_input (DrDenoms ! 2)" by code_simp
qed

text \<open>
  The intermediate product with the decimals overflows for amounts above about 1844 tokens; the view then shows the amount in whole
  tokens, under the name of the denomination that was asked for: 2000 drachmas are shown as 2000 minas, which would be 200000 drachmas.
\<close>

lemma large_amount_mislabelled:
  "view_amount (BuildAmountView 200000000000 DRACHMA ''mina'' False) = ''2000.00000000''
   \<and> denom_used (BuildAmountView 200000000000 DRACHMA ''mina'' False) = ''mina''
   \<and> \<not> view_approximate (BuildAmountView 200000000000 DRACHMA ''mina'' False)
   \<and> view_amount (BuildAmountView 100000000000 DRACHMA ''mina'' False) = ''10.00000000''"
  by code_simp

subsection \<open>Conversions\<close>

lemma nearest_even:
  fixes n q r d m :: nat
  assumes "m = (if 2 * r < d then q else if d < 2 * r then q + 1 else if even q then q else q + 1)" and "n = q * d + r" and "r < d"
  shows "2 * \<bar>int m * int d - int n\<bar> \<le> int d \<and> (2 * \<bar>int m * int d - int n\<bar> = int d \<longrightarrow> even m)"
proof -
  have "int n = int q * int d + int r" using assms(2) by simp
  moreover have "int (q + 1) * int d = int q * int d + int d" by (simp add: distrib_right)
  ultimately show ?thesis using assms(1,3) by (auto split: if_splits)
qed

text \<open>
  Rounding half to even: the quotient is a nearest one to the exact ratio, and even when two are equally near.
\<close>

theorem bankers_rounding_is_nearest:
  assumes "0 < d" and "d < 2 ^ 63"
  shows "2 * \<bar>int (unat (DivRoundBankers n d)) * int (unat d) - int (unat n)\<bar> \<le> int (unat d)
    \<and> (2 * \<bar>int (unat (DivRoundBankers n d)) * int (unat d) - int (unat n)\<bar> = int (unat d) \<longrightarrow> even (unat (DivRoundBankers n d)))"
proof -
  let ?n = "unat n" and ?d = "unat d"
  have d: "0 < ?d" "?d < 2 ^ 63" using assms by (simp_all add: word_less_nat_alt)
  have double: "unat (n mod d * 2) = 2 * (?n mod ?d)"
    using mod_less_divisor [OF d(1), of ?n] d(2) by (subst unat_mult_lt) (simp_all add: unat_mod)
  have one_more: "unat (n div d + 1) = ?n div ?d + 1" if "?n mod ?d \<noteq> 0"
  proof -
    have "?n div ?d * ?d + ?n mod ?d = ?n" by simp
    moreover have "?n div ?d * 1 \<le> ?n div ?d * ?d" using d(1) by (intro mult_le_mono2) simp
    ultimately have "?n div ?d < ?n" using that by linarith
    then show ?thesis using unat64_lt [of n] by (subst unat_add_lt) (simp_all add: unat_div)
  qed
  have parity: "n div d mod 2 = 0 \<longleftrightarrow> even (?n div ?d)" by (simp add: word_unat_eq_iff unat_mod unat_div even_iff_mod_2_eq_zero)
  have "unat (DivRoundBankers n d) =
    (if 2 * (?n mod ?d) < ?d then ?n div ?d else if ?d < 2 * (?n mod ?d) then ?n div ?d + 1
     else if even (?n div ?d) then ?n div ?d else ?n div ?d + 1)"
    using double one_more parity d(1) by (auto simp: DivRoundBankers_def Let_def word_less_nat_alt unat_div)
  then show ?thesis by (rule nearest_even) (use d(1) in simp_all)
qed

theorem bankers_rounding_is_nearest_witness:
  "2 * \<bar>int (unat (DivRoundBankers 9000 6000)) * 6000 - 9000\<bar> \<le> 6000 \<and> DivRoundBankers 9000 6000 = 2"
  using bankers_rounding_is_nearest [of 6000 9000] by (simp add: DivRoundBankers_def)

lemma conversions_invert:
  "ConvertTalToDr t = Some d \<Longrightarrow> ConvertDrToTal d mode = Some t"
  "ConvertDrToOb d = Some b \<Longrightarrow> ConvertObToDr b mode = Some d"
  "ConvertTalToOb t = Some b \<Longrightarrow> ConvertObToTal b mode = Some t"
  by (auto simp: ConvertTalToDr_def ConvertDrToTal_def ConvertDrToOb_def ConvertObToDr_def ConvertTalToOb_def ConvertObToTal_def
      MulOverflow_Some DivRoundBankers_def Let_def word_unat_eq_iff word_less_nat_alt unat_div unat_mod unat_mult_lt)

end
