(* ===== verification/LockBridge.thy ===== *)
theory LockBridge
  imports Validation BlockStorage Commitments
begin

section \<open>The lock-mint bridges\<close>

text \<open>
  Models \<open>bridge/cross_chain_message.h\<close> and the two bridges \<open>bridge/l1_l2/l1_l2_bridge.cpp\<close> and \<open>bridge/l2_l3/l2_l3_bridge.cpp\<close>, whose
  operations differ in the two chains and the depth of confirmation only: a record \<open>Peg\<close> holds these, and each operation of a bridge is the common one at its peg.
  An operation returns its result and the state; a refused one leaves the state as it was. The signature library is a parameter.
\<close>

subsection \<open>Messages and state\<close>

type_synonym ChainId = u32

abbreviation (input) TALANTON_ID :: ChainId where "TALANTON_ID \<equiv> 1001"
abbreviation (input) DRACHMA_ID :: ChainId where "DRACHMA_ID \<equiv> 1002"
abbreviation (input) OBOLOS_ID :: ChainId where "OBOLOS_ID \<equiv> 1003"

record ValidatorSignature =
  vs_signature :: bytes
  vs_public_key :: bytes

record CrossChainMessage =
  origin_chain_id :: ChainId
  destination_chain_id :: ChainId
  message_nonce :: u64
  msg_block_height :: u64
  msg_timestamp :: u64
  payload_hash :: bytes
  payload :: bytes
  msg_state_root :: bytes
  proof_nodes :: "bytes list"
  validator_signatures :: "ValidatorSignature list"

record BridgeTransferIntent =
  intent_origin :: ChainId
  intent_destination :: ChainId
  sender_address :: string
  recipient_address :: string
  token_symbol :: string
  wrapped_token_symbol :: string
  amount_base_units :: u64
  intent_nonce :: u64
  lock_tx_hash :: bytes
  lock_block_height :: u64

record BridgeState =
  processed_nonce_keys :: "string set"
  total_locked :: u64
  total_minted :: u64
  trusted_validator_pubkeys :: "bytes set"
  min_validator_sigs :: u32

definition BridgeState_init :: BridgeState where
  "BridgeState_init = \<lparr>processed_nonce_keys = {}, total_locked = 0, total_minted = 0,
     trusted_validator_pubkeys = {}, min_validator_sigs = 1\<rparr>"

datatype BridgeResult = BRIDGE_OK | ERR_INVALID_PROOF | ERR_REPLAY | ERR_INSUFFICIENT_CONF | ERR_AMOUNT_ZERO
  | ERR_SUPPLY_OVERFLOW | ERR_FRAUD_DETECTED | ERR_INVALID_CHAIN | ERR_INSUFFICIENT_SIGNATURES

record Peg =
  lock_chain :: ChainId
  mint_chain :: ChainId
  min_confirmations :: u32

definition l1_l2 :: Peg where
  "l1_l2 = \<lparr>lock_chain = TALANTON_ID, mint_chain = DRACHMA_ID, min_confirmations = 6\<rparr>"

definition l2_l3 :: Peg where
  "l2_l3 = \<lparr>lock_chain = DRACHMA_ID, mint_chain = OBOLOS_ID, min_confirmations = 10\<rparr>"

subsection \<open>Checks\<close>

definition make_nonce_key :: "string \<Rightarrow> u64 \<Rightarrow> string" where
  "make_nonce_key sender n = sender @ CHR '':'' # dec (unat n)"

definition DecodeAmountFromPayload :: "bytes \<Rightarrow> u64" where
  "DecodeAmountFromPayload p = (if length p < 8 then 0 else read_le64 p)"

definition VerifyBridgeProof :: "bytes \<Rightarrow> bytes list \<Rightarrow> bytes \<Rightarrow> bool" where
  "VerifyBridgeProof leaf_hash nodes expected_root \<longleftrightarrow>
     foldl (\<lambda>current sibling. Hash256d (current @ sibling)) leaf_hash nodes = expected_root"

definition compute_message_commitment :: "CrossChainMessage \<Rightarrow> bytes" where
  "compute_message_commitment m =
     Hash256d (le32 (origin_chain_id m) @ le32 (destination_chain_id m) @ le64 (message_nonce m) @ payload_hash m @ msg_state_root m)"

text \<open>A public key has 33 bytes, of which the last 32 are the key of the signature scheme.\<close>

definition VerifyValidatorQuorum :: "Secp \<Rightarrow> BridgeState \<Rightarrow> CrossChainMessage \<Rightarrow> bool" where
  "VerifyValidatorQuorum secp st m =
     (let commit = compute_message_commitment m;
          valid_count = foldl (\<lambda>n vs.
            let xonly_key = drop 1 (vs_public_key vs) in
            if xonly_key \<notin> trusted_validator_pubkeys st then n
            else if Schnorr_Verify secp xonly_key commit (vs_signature vs) then n + 1 else n) 0 (validator_signatures m)
      in valid_count \<ge> min_validator_sigs st)"

definition message_key :: "CrossChainMessage \<Rightarrow> string" where
  "message_key m = make_nonce_key (dec (unat (origin_chain_id m))) (message_nonce m)"

subsection \<open>Operations\<close>

definition record_lock :: "Peg \<Rightarrow> BridgeState \<Rightarrow> BridgeTransferIntent \<Rightarrow> BridgeResult \<times> BridgeState" where
  "record_lock peg st intent =
     (if intent_origin intent \<noteq> lock_chain peg \<or> intent_destination intent \<noteq> mint_chain peg then (ERR_INVALID_CHAIN, st)
      else if amount_base_units intent = 0 then (ERR_AMOUNT_ZERO, st)
      else if amount_base_units intent > UINT64_MAX - total_locked st then (ERR_SUPPLY_OVERFLOW, st)
      else
        let key = make_nonce_key (sender_address intent) (intent_nonce intent) in
        if key \<in> processed_nonce_keys st then (ERR_REPLAY, st)
        else (BRIDGE_OK, st\<lparr>processed_nonce_keys := insert key (processed_nonce_keys st),
                            total_locked := total_locked st + amount_base_units intent\<rparr>))"

text \<open>The checks that minting and unlocking share, from the chains of the message to its proof; \<open>None\<close> means all passed.\<close>

definition message_refused
  :: "Secp \<Rightarrow> ChainId \<Rightarrow> ChainId \<Rightarrow> u32 \<Rightarrow> BridgeState \<Rightarrow> CrossChainMessage \<Rightarrow> u64 \<Rightarrow> u64 \<Rightarrow> BridgeResult option" where
  "message_refused secp origin destination confirmations st m current_height lock_height =
     (if origin_chain_id m \<noteq> origin \<or> destination_chain_id m \<noteq> destination then Some ERR_INVALID_CHAIN
      else if current_height < lock_height + ucast confirmations then Some ERR_INSUFFICIENT_CONF
      else if message_key m \<in> processed_nonce_keys st then Some ERR_REPLAY
      else if \<not> VerifyValidatorQuorum secp st m then Some ERR_INSUFFICIENT_SIGNATURES
      else if \<not> VerifyBridgeProof (payload_hash m) (proof_nodes m) (msg_state_root m) then Some ERR_INVALID_PROOF
      else None)"

definition process_unlock
  :: "Secp \<Rightarrow> Peg \<Rightarrow> BridgeState \<Rightarrow> CrossChainMessage \<Rightarrow> u64 \<Rightarrow> u64 \<Rightarrow> BridgeResult \<times> BridgeState" where
  "process_unlock secp peg st m current_height lock_height =
     (case message_refused secp (mint_chain peg) (lock_chain peg) (min_confirmations peg) st m current_height lock_height of
        Some err \<Rightarrow> (err, st)
      | None \<Rightarrow>
          let amount = DecodeAmountFromPayload (payload m);
              st = (if amount > 0 \<and> amount \<le> total_locked st then st\<lparr>total_locked := total_locked st - amount\<rparr> else st)
          in (BRIDGE_OK, st\<lparr>processed_nonce_keys := insert (message_key m) (processed_nonce_keys st)\<rparr>))"

definition process_mint
  :: "Secp \<Rightarrow> Peg \<Rightarrow> BridgeState \<Rightarrow> CrossChainMessage \<Rightarrow> u64 \<Rightarrow> u64 \<Rightarrow> BridgeResult \<times> BridgeState" where
  "process_mint secp peg st m current_height lock_height =
     (case message_refused secp (lock_chain peg) (mint_chain peg) (min_confirmations peg) st m current_height lock_height of
        Some err \<Rightarrow> (err, st)
      | None \<Rightarrow>
          let amount = DecodeAmountFromPayload (payload m);
              seen = insert (message_key m) (processed_nonce_keys st) in
          if amount > 0 then
            if amount > total_locked st - total_minted st then (ERR_SUPPLY_OVERFLOW, st)
            else if amount > UINT64_MAX - total_minted st then (ERR_SUPPLY_OVERFLOW, st)
            else (BRIDGE_OK, st\<lparr>total_minted := total_minted st + amount, processed_nonce_keys := seen\<rparr>)
          else (BRIDGE_OK, st\<lparr>processed_nonce_keys := seen\<rparr>))"

definition record_burn :: "Peg \<Rightarrow> BridgeState \<Rightarrow> BridgeTransferIntent \<Rightarrow> BridgeResult \<times> BridgeState" where
  "record_burn peg st intent =
     (if intent_origin intent \<noteq> mint_chain peg \<or> intent_destination intent \<noteq> lock_chain peg then (ERR_INVALID_CHAIN, st)
      else if amount_base_units intent = 0 then (ERR_AMOUNT_ZERO, st)
      else
        let key = make_nonce_key (sender_address intent) (intent_nonce intent) in
        if key \<in> processed_nonce_keys st then (ERR_REPLAY, st)
        else
          let st = (if amount_base_units intent \<le> total_minted st
                    then st\<lparr>total_minted := total_minted st - amount_base_units intent\<rparr> else st)
          in (BRIDGE_OK, st\<lparr>processed_nonce_keys := insert key (processed_nonce_keys st)\<rparr>))"

text \<open>The functions of the two bridges.\<close>

definition RecordTltLock :: "BridgeState \<Rightarrow> BridgeTransferIntent \<Rightarrow> BridgeResult \<times> BridgeState" where
  "RecordTltLock = record_lock l1_l2"

definition ProcessWtltBurnUnlock :: "Secp \<Rightarrow> BridgeState \<Rightarrow> CrossChainMessage \<Rightarrow> u64 \<Rightarrow> u64 \<Rightarrow> BridgeResult \<times> BridgeState" where
  "ProcessWtltBurnUnlock secp = process_unlock secp l1_l2"

definition ProcessTltLockMint :: "Secp \<Rightarrow> BridgeState \<Rightarrow> CrossChainMessage \<Rightarrow> u64 \<Rightarrow> u64 \<Rightarrow> BridgeResult \<times> BridgeState" where
  "ProcessTltLockMint secp = process_mint secp l1_l2"

definition RecordWtltBurn :: "BridgeState \<Rightarrow> BridgeTransferIntent \<Rightarrow> BridgeResult \<times> BridgeState" where
  "RecordWtltBurn = record_burn l1_l2"

definition RecordDrcLock :: "BridgeState \<Rightarrow> BridgeTransferIntent \<Rightarrow> BridgeResult \<times> BridgeState" where
  "RecordDrcLock = record_lock l2_l3"

definition ProcessWdrcBurnUnlock :: "Secp \<Rightarrow> BridgeState \<Rightarrow> CrossChainMessage \<Rightarrow> u64 \<Rightarrow> u64 \<Rightarrow> BridgeResult \<times> BridgeState" where
  "ProcessWdrcBurnUnlock secp = process_unlock secp l2_l3"

definition ProcessDrcLockMint :: "Secp \<Rightarrow> BridgeState \<Rightarrow> CrossChainMessage \<Rightarrow> u64 \<Rightarrow> u64 \<Rightarrow> BridgeResult \<times> BridgeState" where
  "ProcessDrcLockMint secp = process_mint secp l2_l3"

definition RecordWdrcBurn :: "BridgeState \<Rightarrow> BridgeTransferIntent \<Rightarrow> BridgeResult \<times> BridgeState" where
  "RecordWdrcBurn = record_burn l2_l3"

lemmas bridge_ops = RecordTltLock_def ProcessWtltBurnUnlock_def ProcessTltLockMint_def RecordWtltBurn_def
  RecordDrcLock_def ProcessWdrcBurnUnlock_def ProcessDrcLockMint_def RecordWdrcBurn_def

subsection \<open>Runs\<close>

datatype bridge_call = CallLock BridgeTransferIntent | CallUnlock CrossChainMessage u64 u64
  | CallMint CrossChainMessage u64 u64 | CallBurn BridgeTransferIntent

fun bridge_apply :: "Secp \<Rightarrow> Peg \<Rightarrow> bridge_call \<Rightarrow> BridgeState \<Rightarrow> BridgeResult \<times> BridgeState" where
  "bridge_apply secp peg (CallLock i) st = record_lock peg st i"
| "bridge_apply secp peg (CallUnlock m h l) st = process_unlock secp peg st m h l"
| "bridge_apply secp peg (CallMint m h l) st = process_mint secp peg st m h l"
| "bridge_apply secp peg (CallBurn i) st = record_burn peg st i"

fun call_key :: "bridge_call \<Rightarrow> string" where
  "call_key (CallLock i) = make_nonce_key (sender_address i) (intent_nonce i)"
| "call_key (CallUnlock m h l) = message_key m"
| "call_key (CallMint m h l) = message_key m"
| "call_key (CallBurn i) = make_nonce_key (sender_address i) (intent_nonce i)"

text \<open>The calls that succeed, each with the state it starts from, and the last state.\<close>

fun bridge_run :: "Secp \<Rightarrow> Peg \<Rightarrow> bridge_call list \<Rightarrow> BridgeState \<Rightarrow> (bridge_call \<times> BridgeState) list \<times> BridgeState" where
  "bridge_run secp peg [] st = ([], st)"
| "bridge_run secp peg (c # cs) st =
     (case bridge_apply secp peg c st of
        (result, st') \<Rightarrow>
          let (log, last_state) = bridge_run secp peg cs st' in
          (if result = BRIDGE_OK then (c, st) # log else log, last_state))"

text \<open>What a successful call adds to and takes from the locked and the minted total.\<close>

fun locked_by :: "bridge_call \<times> BridgeState \<Rightarrow> nat" where
  "locked_by (CallLock i, st) = unat (amount_base_units i)"
| "locked_by _ = 0"

fun released_by :: "bridge_call \<times> BridgeState \<Rightarrow> nat" where
  "released_by (CallUnlock m h l, st) =
     (let a = DecodeAmountFromPayload (payload m) in if a \<le> total_locked st then unat a else 0)"
| "released_by _ = 0"

fun minted_by :: "bridge_call \<times> BridgeState \<Rightarrow> nat" where
  "minted_by (CallMint m h l, st) = unat (DecodeAmountFromPayload (payload m))"
| "minted_by _ = 0"

fun burned_by :: "bridge_call \<times> BridgeState \<Rightarrow> nat" where
  "burned_by (CallBurn i, st) = (if amount_base_units i \<le> total_minted st then unat (amount_base_units i) else 0)"
| "burned_by _ = 0"

lemma unat_add_below_max: "\<not> UINT64_MAX - x < a \<Longrightarrow> unat (x + a) = unat x + unat a" for a x :: u64
  using unat64_le [of x] by (intro unat_add_lt) (simp add: word_less_nat_alt unat_sub word_le_nat_alt)

lemma unat_taken: "a \<le> x \<Longrightarrow> unat (x - a) + unat a = unat x" for a x :: u64
  by (simp add: unat_sub word_le_nat_alt)

lemma message_refused_not_ok [simp]: "message_refused secp origin destination confirmations st m h l \<noteq> Some BRIDGE_OK"
  by (simp add: message_refused_def)

text \<open>A refused call changes nothing; a successful one uses up its key and moves its amounts.\<close>

lemma bridge_apply_step:
  assumes "bridge_apply secp peg c st = (result, st')"
  shows "result \<noteq> BRIDGE_OK \<Longrightarrow> st' = st"
    and "result = BRIDGE_OK \<Longrightarrow> call_key c \<notin> processed_nonce_keys st
           \<and> processed_nonce_keys st' = insert (call_key c) (processed_nonce_keys st)"
    and "result = BRIDGE_OK \<Longrightarrow> unat (total_locked st') + released_by (c, st) = unat (total_locked st) + locked_by (c, st)"
    and "result = BRIDGE_OK \<Longrightarrow> unat (total_minted st') + burned_by (c, st) = unat (total_minted st) + minted_by (c, st)"
  using assms
  by (cases c;
      auto simp: record_lock_def process_unlock_def process_mint_def record_burn_def message_refused_def Let_def
        unat_add_below_max unat_taken word_gt_0 split: if_splits option.splits)+

text \<open>
  C36. In every run of the calls of a bridge no two successful calls have one nonce key, and none has a key used before; the locked
  total grows exactly by the locks and falls by the unlocks it covers, the minted total grows exactly by the mints and
  falls by the burns it covers, as numbers, without wrapping.
\<close>

theorem bridge_books_balance:
  assumes "bridge_run secp peg calls st = (log, st')"
  shows "distinct (map (call_key \<circ> fst) log)
     \<and> set (map (call_key \<circ> fst) log) \<inter> processed_nonce_keys st = {}
     \<and> processed_nonce_keys st' = processed_nonce_keys st \<union> set (map (call_key \<circ> fst) log)
     \<and> unat (total_locked st') + sum_list (map released_by log) = unat (total_locked st) + sum_list (map locked_by log)
     \<and> unat (total_minted st') + sum_list (map burned_by log) = unat (total_minted st) + sum_list (map minted_by log)"
  using assms
proof (induction calls arbitrary: st log)
  case (Cons c cs)
  obtain result s where c: "bridge_apply secp peg c st = (result, s)" by force
  obtain log' where rest: "bridge_run secp peg cs s = (log', st')"
    using Cons.prems c by (auto split: prod.splits)
  have log: "log = (if result = BRIDGE_OK then (c, st) # log' else log')"
    using Cons.prems c rest by simp
  show ?case
  proof (cases "result = BRIDGE_OK")
    case True
    then show ?thesis
      using bridge_apply_step [OF c] Cons.IH [OF rest] log by auto
  next
    case False
    then show ?thesis using bridge_apply_step(1) [OF c] Cons.IH [OF rest] log by simp
  qed
qed simp

text \<open>A signature library that accepts everything, one trusted key and a small transfer.\<close>

definition trusting :: Secp where
  "trusting = \<lparr>seckey_verify = (\<lambda>_. True), xonly_pubkey_parse = (\<lambda>_. True), schnorrsig_verify = (\<lambda>_ _ _. True),
     xonly_pub_of_seckey = Some, schnorrsig_sign32 = (\<lambda>h k. Some h)\<rparr>"

definition sample_bridge :: BridgeState where
  "sample_bridge = BridgeState_init\<lparr>trusted_validator_pubkeys := {zero_hash}\<rparr>"

definition sample_intent :: BridgeTransferIntent where
  "sample_intent = \<lparr>intent_origin = TALANTON_ID, intent_destination = DRACHMA_ID, sender_address = ''alice'', recipient_address = ''bob'',
     token_symbol = ''TLT'', wrapped_token_symbol = ''wTLT'', amount_base_units = 10, intent_nonce = 1, lock_tx_hash = zero_hash,
     lock_block_height = 5\<rparr>"

definition sample_message :: "ChainId \<Rightarrow> ChainId \<Rightarrow> u64 \<Rightarrow> CrossChainMessage" where
  "sample_message origin destination amount = \<lparr>origin_chain_id = origin, destination_chain_id = destination, message_nonce = 1,
     msg_block_height = 5, msg_timestamp = 0, payload_hash = zero_hash, payload = le64 amount, msg_state_root = zero_hash, proof_nodes = [],
     validator_signatures = [\<lparr>vs_signature = [], vs_public_key = 2 # zero_hash\<rparr>]\<rparr>"

lemma sample_checks:
  "message_refused trusting origin destination confirmations st (sample_message origin destination amount) h l
     = (if h < l + ucast confirmations then Some ERR_INSUFFICIENT_CONF
        else if make_nonce_key (dec (unat origin)) 1 \<in> processed_nonce_keys st then Some ERR_REPLAY
        else if zero_hash \<in> trusted_validator_pubkeys st \<and> min_validator_sigs st \<le> 1 \<or> min_validator_sigs st = 0 then None
        else Some ERR_INSUFFICIENT_SIGNATURES)"
  by (auto simp: message_refused_def sample_message_def message_key_def VerifyValidatorQuorum_def VerifyBridgeProof_def
      Schnorr_Verify_def ValidatePublicKey_def trusting_def Let_def)

lemma sample_message_simps [simp]:
  "payload (sample_message origin destination amount) = le64 amount"
  "message_key (sample_message origin destination amount) = make_nonce_key (dec (unat origin)) 1"
  by (simp_all add: sample_message_def message_key_def)

lemma DecodeAmount_le64 [simp]: "DecodeAmountFromPayload (le64 a) = a"
  by (simp add: DecodeAmountFromPayload_def)

text \<open>A lock, a mint of it, a replay of the mint and an unlock: three of the four succeed.\<close>

definition sample_calls :: "bridge_call list" where
  "sample_calls = [CallLock sample_intent, CallMint (sample_message TALANTON_ID DRACHMA_ID 10) 20 5,
     CallMint (sample_message TALANTON_ID DRACHMA_ID 10) 20 5, CallUnlock (sample_message DRACHMA_ID TALANTON_ID 10) 20 5]"

lemma dec_chain_ids [simp]: "dec 1001 = ''1001''" "dec 1002 = ''1002''" "dec (Suc 0) = ''1''"
  by code_simp+

lemma sample_bridge_run:
  "let (log, st') = bridge_run trusting l1_l2 sample_calls sample_bridge in
     length log = 3 \<and> total_locked st' = 0 \<and> total_minted st' = 10
     \<and> processed_nonce_keys st' = {''alice:1'', ''1001:1'', ''1002:1''}"
  by (simp add: sample_calls_def sample_bridge_def BridgeState_init_def sample_intent_def record_lock_def process_mint_def process_unlock_def
      sample_checks l1_l2_def make_nonce_key_def insert_commute)

theorem bridge_books_balance_witness:
  "\<exists>log st'. bridge_run trusting l1_l2 sample_calls sample_bridge = (log, st') \<and> length log = 3
     \<and> distinct (map (call_key \<circ> fst) log) \<and> processed_nonce_keys st' = {''alice:1'', ''1001:1'', ''1002:1''}"
proof -
  obtain log st' where r: "bridge_run trusting l1_l2 sample_calls sample_bridge = (log, st')" by force
  show ?thesis using r bridge_books_balance [OF r] sample_bridge_run by (auto simp: r)
qed

subsection \<open>What the messages prove\<close>

text \<open>
  The commitment that the validators sign and the proof cover \<open>payload_hash\<close>, and nothing compares it with the payload.
\<close>

lemma message_refused_payload [simp]:
  "message_refused secp origin destination confirmations st (m\<lparr>payload := p\<rparr>) h l
     = message_refused secp origin destination confirmations st m h l"
  by (simp add: message_refused_def VerifyValidatorQuorum_def compute_message_commitment_def message_key_def)



text \<open>The quorum counts signatures, not validators.\<close>

lemma count_foldl:
  "foldl (\<lambda>n x. if \<not> P x then n else if Q x then n + 1 else n) k xs = k + (of_nat (length (filter (\<lambda>x. P x \<and> Q x) xs)) :: u32)"
  by (induction xs arbitrary: k) (auto simp: algebra_simps)

lemma quorum_iff:
  "VerifyValidatorQuorum secp st m \<longleftrightarrow> min_validator_sigs st \<le> of_nat (length (filter (\<lambda>vs.
     drop 1 (vs_public_key vs) \<in> trusted_validator_pubkeys st
     \<and> Schnorr_Verify secp (drop 1 (vs_public_key vs)) (compute_message_commitment m) (vs_signature vs)) (validator_signatures m)))"
  unfolding VerifyValidatorQuorum_def Let_def
  by (subst count_foldl [where P = "\<lambda>vs. drop 1 (vs_public_key vs) \<in> trusted_validator_pubkeys st" and k = 0]) simp

text \<open>
  A quorum proves that one trusted validator signed the message, and no more: the signature of one trusted validator, repeated as often as
  the quorum asks, is a quorum.
\<close>

theorem quorum_of_one:
  assumes "0 < min_validator_sigs st"
  shows "(VerifyValidatorQuorum secp st m \<longrightarrow> (\<exists>vs \<in> set (validator_signatures m). drop 1 (vs_public_key vs) \<in> trusted_validator_pubkeys st
           \<and> Schnorr_Verify secp (drop 1 (vs_public_key vs)) (compute_message_commitment m) (vs_signature vs)))
     \<and> (\<forall>vs. drop 1 (vs_public_key vs) \<in> trusted_validator_pubkeys st
           \<and> Schnorr_Verify secp (drop 1 (vs_public_key vs)) (compute_message_commitment m) (vs_signature vs) \<longrightarrow>
           VerifyValidatorQuorum secp st (m\<lparr>validator_signatures := replicate (unat (min_validator_sigs st)) vs\<rparr>))"
proof (intro conjI impI allI)
  assume q: "VerifyValidatorQuorum secp st m"
  show "\<exists>vs \<in> set (validator_signatures m). drop 1 (vs_public_key vs) \<in> trusted_validator_pubkeys st
           \<and> Schnorr_Verify secp (drop 1 (vs_public_key vs)) (compute_message_commitment m) (vs_signature vs)"
  proof (rule ccontr)
    assume "\<not> ?thesis"
    then have "filter (\<lambda>vs. drop 1 (vs_public_key vs) \<in> trusted_validator_pubkeys st
      \<and> Schnorr_Verify secp (drop 1 (vs_public_key vs)) (compute_message_commitment m) (vs_signature vs)) (validator_signatures m) = []"
      by (auto simp: filter_empty_conv)
    then show False using q assms unfolding quorum_iff by simp
  qed
qed (simp add: quorum_iff compute_message_commitment_def)

theorem quorum_of_one_witness:
  "VerifyValidatorQuorum trusting (sample_bridge\<lparr>min_validator_sigs := 3\<rparr>) ((sample_message TALANTON_ID DRACHMA_ID 10)
     \<lparr>validator_signatures := replicate 3 \<lparr>vs_signature = [], vs_public_key = 2 # zero_hash\<rparr>\<rparr>)"
  using quorum_of_one [of "sample_bridge\<lparr>min_validator_sigs := 3\<rparr>" trusting "sample_message TALANTON_ID DRACHMA_ID 10"]
  by (simp add: sample_bridge_def trusting_def Schnorr_Verify_def ValidatePublicKey_def)

text \<open>
  On the chain that mints, nothing is ever minted: its state records no locks, and a mint is bounded by the locks its own
  state records, so from a state without locks every message of an amount is refused and the minted total stays zero.
\<close>

theorem minting_side_never_mints:
  assumes "total_locked st = 0" and "total_minted st = 0"
    and "\<forall>c \<in> set calls. \<exists>m h l i. c = CallMint m h l \<or> c = CallBurn i"
    and "bridge_run secp peg calls st = (log, st')"
  shows "total_minted st' = 0 \<and> (\<forall>(c, s) \<in> set log. \<forall>m h l. c = CallMint m h l \<longrightarrow> DecodeAmountFromPayload (payload m) = 0)"
  using assms
proof (induction calls arbitrary: st log)
  case (Cons c cs)
  obtain result s where c: "bridge_apply secp peg c st = (result, s)" by force
  obtain log' where rest: "bridge_run secp peg cs s = (log', st')"
    using Cons.prems c by (auto split: prod.splits)
  have log: "log = (if result = BRIDGE_OK then (c, st) # log' else log')"
    using Cons.prems c rest by simp
  have s: "total_locked s = 0 \<and> total_minted s = 0
      \<and> (\<forall>m h l. result = BRIDGE_OK \<and> c = CallMint m h l \<longrightarrow> DecodeAmountFromPayload (payload m) = 0)"
    using Cons.prems(1-3) c
    by (auto simp: process_mint_def record_burn_def Let_def word_gt_0 split: option.splits if_splits)
  then show ?case using Cons.IH [OF _ _ _ rest] Cons.prems(3) log by auto
qed simp

theorem minting_side_never_mints_witness:
  "total_minted (snd (bridge_run trusting l1_l2 [CallMint (sample_message TALANTON_ID DRACHMA_ID 10) 20 5] sample_bridge)) = 0"
  using minting_side_never_mints [of sample_bridge "[CallMint (sample_message TALANTON_ID DRACHMA_ID 10) 20 5]" trusting l1_l2
      "fst (bridge_run trusting l1_l2 [CallMint (sample_message TALANTON_ID DRACHMA_ID 10) 20 5] sample_bridge)"
      "snd (bridge_run trusting l1_l2 [CallMint (sample_message TALANTON_ID DRACHMA_ID 10) 20 5] sample_bridge)"]
  by (simp add: sample_bridge_def BridgeState_init_def)

text \<open>
  On one state for both sides the bound is an unsigned difference: once unlocks have taken the locked total below the minted one, it wraps and
  a mint of nearly every amount passes.
\<close>

lemma unbacked_mint:
  "fst (process_mint trusting l1_l2 (sample_bridge\<lparr>total_locked := 0, total_minted := 10\<rparr>) (sample_message TALANTON_ID DRACHMA_ID (2 ^ 63)) 20 5)
     = BRIDGE_OK"
  by (simp add: process_mint_def sample_checks l1_l2_def sample_bridge_def BridgeState_init_def make_nonce_key_def)

end
