(* ===== verification/Miner.thy ===== *)
theory Miner
  imports Validation Samples
begin

section \<open>Mining\<close>

text \<open>
  Models \<open>layer1-talanton/core/mining/miner.h\<close> and \<open>miner.cpp\<close>: the block template and the search for a nonce. The clock is an argument:
  the time of the template, and for the statistics the seconds since the search began at each iteration. Another thread can stop
  the search: \<open>stopped i\<close> says that the flag reads false at iteration \<open>i\<close>. A search without bound may not end, so its loop is a partial function.
\<close>

record BlockTemplate =
  tp_block :: Block
  tp_total_fees :: u64
  tp_coinbase_rewards :: "AssetAmount list"
  tp_height :: u32
  tp_target :: bytes

record MiningStatus =
  st_is_mining :: bool
  st_height :: u32
  st_hashrate :: u64
  st_total_hashes :: u64
  st_current_block_hash :: bytes

text \<open>The reference to the chain state is an argument of the operations that read it.\<close>

record Miner =
  mn_coinbase_pubkey :: bytes
  mn_is_mining :: bool
  mn_hashrate :: u64
  mn_total_hashes :: u64

definition Miner_init :: "bytes \<Rightarrow> Miner" where
  "Miner_init pubkey = \<lparr>mn_coinbase_pubkey = pubkey, mn_is_mining = False, mn_hashrate = 0, mn_total_hashes = 0\<rparr>"

subsection \<open>Templates\<close>

definition CreateCoinbaseTransaction :: "Miner \<Rightarrow> u32 \<Rightarrow> AssetAmount list \<Rightarrow> Transaction" where
  "CreateCoinbaseTransaction m height rewards =
     \<lparr>version = 1,
      inputs = [\<lparr>prevout = OutPoint zero_hash COINBASE_VOUT_INDEX, signature_script = le32 height, sequence = 0xFFFFFFFF\<rparr>],
      outputs = map (\<lambda>r. \<lparr>out_value = r, pubkey_script = mn_coinbase_pubkey m\<rparr>) (filter (\<lambda>r. asset_amount r > 0) rewards),
      locktime = 0\<rparr>"

text \<open>The fees are initialised to zero for the three assets; what is summed are the outputs.\<close>

definition CalculateFees :: "Transaction list \<Rightarrow> amounts" where
  "CalculateFees txs =
     foldl (\<lambda>fees v. amount_add (asset_id v) (asset_amount v) fees) [(TALANTON, 0), (DRACHMA, 0), (OBOLOS, 0)]
       (map out_value (concat (map outputs txs)))"

definition SelectTransactions :: "nat \<Rightarrow> Transaction list" where
  "SelectTransactions max_count = []"

fun miner_level :: "bytes list \<Rightarrow> bytes list" where
  "miner_level (a # b # rest) = Hash256 (a @ b) # miner_level rest"
| "miner_level [a] = [Hash256 (a @ a)]"
| "miner_level [] = []"

lemma length_miner_level: "length (miner_level xs) = (length xs + 1) div 2"
  by (induction xs rule: miner_level.induct) simp_all

function miner_levels :: "bytes list \<Rightarrow> bytes list" where
  "miner_levels hashes = (if 1 < length hashes then miner_levels (miner_level hashes) else hashes)"
  by pat_completeness auto
termination miner_levels
  by (relation "measure length") (auto simp: length_miner_level)

declare miner_levels.simps [simp del]

definition Miner_ComputeMerkleRoot :: "Transaction list \<Rightarrow> bytes" where
  "Miner_ComputeMerkleRoot txs = (if txs = [] then zero_hash else miner_levels (map GetTxID txs) ! 0)"

definition CreateBlockTemplate :: "u64 \<Rightarrow> ChainState \<Rightarrow> Miner \<Rightarrow> nat \<Rightarrow> BlockTemplate" where
  "CreateBlockTemplate now cs m max_transactions =
     (let height = ucast (cs_height cs + 1);
          txs = SelectTransactions max_transactions;
          fees = CalculateFees txs;
          reward = (\<lambda>asset. \<lparr>asset_id = asset, asset_amount = GetBlockReward (ucast height) asset + amount_at fees asset\<rparr>);
          rewards = [reward TALANTON, reward DRACHMA, reward OBOLOS];
          all_txs = CreateCoinbaseTransaction m height rewards # txs
      in \<lparr>tp_block = \<lparr>header = BlockHeader_init\<lparr>hdr_version := 1, prev_block_hash := zero_hash, timestamp := ucast now, nonce := 0,
                        bits := GetInitialBits, merkle_root := Miner_ComputeMerkleRoot all_txs\<rparr>, transactions = all_txs\<rparr>,
          tp_total_fees = foldl (\<lambda>acc (a, fee). acc + fee) 0 fees,
          tp_coinbase_rewards = rewards, tp_height = height, tp_target = CompactToBits256 GetInitialBits\<rparr>)"

subsection \<open>The search\<close>

text \<open>The comparison byte by byte, from the first; equal arrays are not below.\<close>

fun hash_below :: "bytes \<Rightarrow> bytes \<Rightarrow> bool" where
  "hash_below (h # hs) (t # ts) = (if h < t then True else if h > t then False else hash_below hs ts)"
| "hash_below _ _ = False"

definition VerifyProofOfWork :: "Block \<Rightarrow> bytes \<Rightarrow> bool" where
  "VerifyProofOfWork block target = (let block_hash = Block_GetHash block in hash_below block_hash target)"

definition with_nonce :: "Block \<Rightarrow> u64 \<Rightarrow> Block" where
  "with_nonce block i = block\<lparr>header := (header block)\<lparr>nonce := ucast i\<rparr>\<rparr>"

partial_function (option) mine_loop
  :: "(u64 \<Rightarrow> bool) \<Rightarrow> (u64 \<Rightarrow> u64) \<Rightarrow> u64 \<Rightarrow> bytes \<Rightarrow> Block \<Rightarrow> u64 \<Rightarrow> Miner \<Rightarrow> (Block option \<times> Miner) option" where
  "mine_loop stopped elapsed max_iterations target block i m =
     (if max_iterations = 0 \<or> i < max_iterations then
        if stopped i then Some (None, m\<lparr>mn_is_mining := False\<rparr>)
        else if VerifyProofOfWork (with_nonce block i) target then
          Some (Some (with_nonce block i),
            (if elapsed i > 0 then m\<lparr>mn_hashrate := mn_total_hashes m div elapsed i\<rparr> else m)\<lparr>mn_is_mining := False\<rparr>)
        else
          let m = m\<lparr>mn_total_hashes := mn_total_hashes m + 1\<rparr>;
              m = (if i mod 100000 = 0 \<and> elapsed i > 0 then m\<lparr>mn_hashrate := mn_total_hashes m div elapsed i\<rparr> else m)
          in mine_loop stopped elapsed max_iterations target (with_nonce block i) (i + 1) m
      else Some (None, m\<lparr>mn_is_mining := False\<rparr>))"

definition MineBlock :: "(u64 \<Rightarrow> bool) \<Rightarrow> (u64 \<Rightarrow> u64) \<Rightarrow> Miner \<Rightarrow> BlockTemplate \<Rightarrow> u64 \<Rightarrow> (Block option \<times> Miner) option" where
  "MineBlock stopped elapsed m tp max_iterations =
     mine_loop stopped elapsed max_iterations (tp_target tp) (tp_block tp) 0 (m\<lparr>mn_is_mining := True, mn_total_hashes := 0\<rparr>)"

definition Miner_GetStatus :: "ChainState \<Rightarrow> Miner \<Rightarrow> MiningStatus" where
  "Miner_GetStatus cs m = \<lparr>st_is_mining = mn_is_mining m, st_height = ucast (cs_height cs + 1), st_hashrate = mn_hashrate m,
     st_total_hashes = mn_total_hashes m, st_current_block_hash = zero_hash\<rparr>"

definition Miner_StopMining :: "Miner \<Rightarrow> Miner" where
  "Miner_StopMining m = m\<lparr>mn_is_mining := False\<rparr>"

subsection \<open>The search is exhaustive\<close>

lemma with_nonce_again [simp]: "with_nonce (with_nonce block i) j = with_nonce block j"
  by (simp add: with_nonce_def)

lemma mine_loop_searches:
  assumes "i \<le> max_iterations" and "0 < max_iterations" and "mn_total_hashes m = i"
    and "\<forall>j < i. \<not> VerifyProofOfWork (with_nonce block j) target"
  shows "\<exists>r m'. mine_loop stopped elapsed max_iterations target block i m = Some (r, m') \<and> \<not> mn_is_mining m'
     \<and> (case r of
          Some b \<Rightarrow> \<exists>n < max_iterations. b = with_nonce block n \<and> VerifyProofOfWork b target
            \<and> (\<forall>j < n. \<not> VerifyProofOfWork (with_nonce block j) target) \<and> mn_total_hashes m' = n
        | None \<Rightarrow> (\<exists>n < max_iterations. stopped n) \<or> (\<forall>j < max_iterations. \<not> VerifyProofOfWork (with_nonce block j) target))"
  using assms
proof (induction "unat (max_iterations - i)" arbitrary: i m block rule: less_induct)
  case less
  show ?case
  proof (cases "i < max_iterations \<and> \<not> stopped i \<and> \<not> VerifyProofOfWork (with_nonce block i) target")
    case False
    then show ?thesis using less.prems by (subst mine_loop.simps) (auto simp: Let_def)
  next
    case True
    define m1 where "m1 = (let m = m\<lparr>mn_total_hashes := mn_total_hashes m + 1\<rparr> in
      if i mod 100000 = 0 \<and> elapsed i > 0 then m\<lparr>mn_hashrate := mn_total_hashes m div elapsed i\<rparr> else m)"
    have lt: "unat i < unat max_iterations" using True by (simp add: word_less_nat_alt)
    have suc: "unat (i + 1) = Suc (unat i)" using lt unat64_lt [of max_iterations] by (subst unat_add_lt) simp_all
    have le: "i + 1 \<le> max_iterations" using lt suc by (simp add: word_le_nat_alt)
    have small: "unat (max_iterations - (i + 1)) < unat (max_iterations - i)"
      using lt suc le True by (simp add: unat_sub word_le_nat_alt)
    have none: "\<forall>j < i + 1. \<not> VerifyProofOfWork (with_nonce (with_nonce block i) j) target"
    proof (intro allI impI)
      fix j assume "j < i + 1"
      then have "j < i \<or> j = i" using suc by (auto simp: word_less_nat_alt less_Suc_eq word_unat_eq_iff)
      then show "\<not> VerifyProofOfWork (with_nonce (with_nonce block i) j) target" using less.prems(4) True by auto
    qed
    have total: "mn_total_hashes m1 = i + 1" using less.prems(3) by (simp add: m1_def Let_def)
    have step: "mine_loop stopped elapsed max_iterations target block i m
        = mine_loop stopped elapsed max_iterations target (with_nonce block i) (i + 1) m1"
      using True by (subst mine_loop.simps) (simp add: Let_def m1_def)
    show ?thesis unfolding step
      using less.hyps [OF small le less.prems(2) total none] unfolding with_nonce_again .
  qed
qed

text \<open>
  C40. A bounded search ends: it returns the template's block with the first nonce whose hash is below the target, having counted the hashes before it; without a
  block it was stopped, or no nonce within the bound works. Either way the miner is idle again.
\<close>

theorem mining_searches_all_nonces:
  assumes "0 < max_iterations"
  shows "\<exists>r m'. MineBlock stopped elapsed m tp max_iterations = Some (r, m') \<and> \<not> mn_is_mining m'
     \<and> (case r of
          Some b \<Rightarrow> \<exists>n < max_iterations. b = with_nonce (tp_block tp) n \<and> VerifyProofOfWork b (tp_target tp)
            \<and> (\<forall>j < n. \<not> VerifyProofOfWork (with_nonce (tp_block tp) j) (tp_target tp)) \<and> mn_total_hashes m' = n
        | None \<Rightarrow> (\<exists>n < max_iterations. stopped n) \<or> (\<forall>j < max_iterations. \<not> VerifyProofOfWork (with_nonce (tp_block tp) j) (tp_target tp)))"
  unfolding MineBlock_def by (rule mine_loop_searches) (use assms in simp_all)

theorem mining_searches_all_nonces_witness:
  "\<exists>r m'. MineBlock (\<lambda>i. i = 5) (\<lambda>i. 0) (Miner_init [81]) (CreateBlockTemplate 0 ChainState_init (Miner_init [81]) 1000) 100000 = Some (r, m')
     \<and> \<not> mn_is_mining m'"
  using mining_searches_all_nonces [of 100000 "\<lambda>i. i = 5" "\<lambda>i. 0" "Miner_init [81]"
      "CreateBlockTemplate 0 ChainState_init (Miner_init [81]) 1000"] by auto

subsection \<open>The order of the comparison\<close>

lemma hash_below_iff: "length hs = length ts \<Longrightarrow> hash_below hs ts \<longleftrightarrow> le_value (rev hs) < le_value (rev ts)"
proof (induction hs ts rule: hash_below.induct)
  case (1 h hs t ts)
  have less: "le_value (rev hs) < 256 ^ length hs" "le_value (rev ts) < 256 ^ length hs"
    using le_value_less [of "rev hs"] le_value_less [of "rev ts"] "1.prems" by simp_all
  consider "unat h < unat t" | "unat h = unat t" | "unat t < unat h" by linarith
  then show ?case
  proof cases
    case 1
    then have "256 ^ length hs * unat h + 256 ^ length hs \<le> 256 ^ length hs * unat t"
      by (metis Suc_leI add.commute mult_Suc_right mult_le_mono2)
    then show ?thesis using 1 less "1.prems" by (simp add: le_value_snoc word_less_nat_alt)
  next
    case 2
    then show ?thesis using 1 "1.prems" by (simp add: le_value_snoc word_less_nat_alt)
  next
    case 3
    then have "256 ^ length hs * unat t + 256 ^ length hs \<le> 256 ^ length hs * unat h"
      by (metis Suc_leI add.commute mult_Suc_right mult_le_mono2)
    then show ?thesis using 3 less "1.prems" by (simp add: le_value_snoc word_less_nat_alt)
  qed
qed simp_all

lemma hash_below_zeros: "hash_below hs (replicate n 0 @ ts) \<Longrightarrow> take n hs = replicate n 0"
proof (induction n arbitrary: hs)
  case (Suc n)
  then show ?case by (cases hs) (auto simp: word_gt_0 split: if_splits)
qed simp

lemma initial_target: "CompactToBits256 GetInitialBits = replicate 29 0 @ [0xff, 0xff, 0x7f]"
  by code_simp

lemma initial_target_values:
  "le_value (replicate 29 0 @ [0xff, 0xff, 0x7f]) = 0x7FFFFF * 256 ^ 29"
  "le_value (rev (replicate 29 0 @ [0xff, 0xff, 0x7f])) = 0xFFFF7F"
proof -
  have tail: "le_value [0xff, 0xff, 0x7f] = 0x7FFFFF" by simp
  show "le_value (replicate 29 0 @ [0xff, 0xff, 0x7f]) = 0x7FFFFF * 256 ^ 29"
    unfolding le_value_append le_value_zeros length_replicate tail by simp
  have "rev (replicate 29 0 @ [0xff, 0xff, 0x7f]) = [0x7f, 0xff, 0xff :: u8] @ replicate 29 0" by simp
  moreover have "le_value [0x7f, 0xff, 0xff] = 0xFFFF7F" by simp
  ultimately show "le_value (rev (replicate 29 0 @ [0xff, 0xff, 0x7f])) = 0xFFFF7F"
    by (simp only: le_value_append le_value_zeros mult_0_right add_0_right)
qed

lemma template_target: "tp_target (CreateBlockTemplate now cs m k) = replicate 29 0 @ [0xff, 0xff, 0x7f]"
  by (simp only: CreateBlockTemplate_def Let_def initial_target BlockTemplate.simps)

lemma chain_check_initial: "CheckProofOfWork (Block_GetHash b) GetInitialBits \<longleftrightarrow> le_value (Block_GetHash b) \<le> 0x7FFFFF * 256 ^ 29"
  using Compare256_from_iff [of 32 "Block_GetHash b" "replicate 29 0 @ [0xff, 0xff, 0x7f]"]
  by (simp only: CheckProofOfWork_def Compare256_def Let_def initial_target initial_target_values(1) [symmetric]) simp

text \<open>
  The miner compares hash and target from the first byte, the chain from the last: the miner accepts exactly the hashes whose bytes in
  reverse order are a number below \<open>0xFFFF7F\<close>, so their first 29 bytes are zero, where the chain accepts every hash
  that as a number is at most \<open>0x7FFFFF * 256 ^ 29\<close>.
\<close>

theorem miner_reads_target_backwards:
  "(VerifyProofOfWork b (tp_target (CreateBlockTemplate now cs m k)) \<longleftrightarrow> le_value (rev (Block_GetHash b)) < 0xFFFF7F)
   \<and> (VerifyProofOfWork b (tp_target (CreateBlockTemplate now cs m k)) \<longrightarrow> take 29 (Block_GetHash b) = replicate 29 0)
   \<and> (CheckProofOfWork (Block_GetHash b) GetInitialBits \<longleftrightarrow> le_value (Block_GetHash b) \<le> 0x7FFFFF * 256 ^ 29)"
proof -
  have v: "VerifyProofOfWork b (tp_target (CreateBlockTemplate now cs m k)) = hash_below (Block_GetHash b) (replicate 29 0 @ [0xff, 0xff, 0x7f])"
    by (simp only: VerifyProofOfWork_def Let_def template_target)
  have len: "length (Block_GetHash b) = length (replicate 29 0 @ [0xff, 0xff, 0x7f :: u8])"
    unfolding length_Block_GetHash by simp
  show ?thesis
    unfolding v chain_check_initial hash_below_iff [OF len] initial_target_values(2)
    using hash_below_zeros [of "Block_GetHash b" 29 "[0xff, 0xff, 0x7f]"] hash_below_iff [OF len] initial_target_values(2) by metis
qed

subsection \<open>What a template holds\<close>

lemma GetBlockReward_valid: "GetBlockReward h a \<le> GetMaxSupply a"
proof (cases "start_height a")
  case None
  then show ?thesis by (simp add: GetBlockReward_def)
next
  case (Some s)
  have "epoch_reward a j \<le> unat (GetInitialReward a)" for j by (simp add: epoch_reward_def)
  moreover have "unat (GetInitialReward a) \<le> unat (GetMaxSupply a)"
    using Some by (auto simp: GetInitialReward_def start_height_def supply_defs split: if_splits)
  ultimately show ?thesis using Some
    by (auto simp: word_le_nat_alt unat_GetBlockReward intro: order_trans)
qed

lemma template_block:
  "transactions (tp_block (CreateBlockTemplate now cs m k)) = [CreateCoinbaseTransaction m (ucast (cs_height cs + 1))
     (map (\<lambda>a. \<lparr>asset_id = a, asset_amount = GetBlockReward (ucast (ucast (cs_height cs + 1) :: u32)) a\<rparr>) [TALANTON, DRACHMA, OBOLOS])]"
  "prev_block_hash (header (tp_block (CreateBlockTemplate now cs m k))) = zero_hash"
  "bits (header (tp_block (CreateBlockTemplate now cs m k))) = GetInitialBits"
  "merkle_root (header (tp_block (CreateBlockTemplate now cs m k)))
     = Miner_ComputeMerkleRoot (transactions (tp_block (CreateBlockTemplate now cs m k)))"
  by (simp_all add: CreateBlockTemplate_def Let_def SelectTransactions_def CalculateFees_def BlockHeader_init_def)

text \<open>
  A template's block holds one transaction, a coinbase that pays exactly the scheduled reward of each asset at the height after the tip, all of it
  valid amounts to the miner's key, and its Merkle root is the block's; no fees are collected.
\<close>

theorem template_pays_schedule:
  fixes cs m k now
  defines "b \<equiv> tp_block (CreateBlockTemplate now cs m k)"
    and "h \<equiv> ucast (ucast (cs_height cs + 1) :: u32) :: u64"
  shows "\<exists>cb. transactions b = [cb] \<and> IsCoinbase cb \<and> merkle_root (header b) = CalculateMerkleRoot b
     \<and> map out_value (outputs cb) = filter (\<lambda>v. asset_amount v > 0) (map (\<lambda>a. \<lparr>asset_id = a, asset_amount = GetBlockReward h a\<rparr>) [TALANTON, DRACHMA, OBOLOS])
     \<and> (\<forall>v \<in> set (outputs cb). pubkey_script v = mn_coinbase_pubkey m \<and> AssetAmount_IsValid (out_value v))
     \<and> tp_total_fees (CreateBlockTemplate now cs m k) = 0"
proof -
  let ?r = "map (\<lambda>a. \<lparr>asset_id = a, asset_amount = GetBlockReward h a\<rparr>) [TALANTON, DRACHMA, OBOLOS]"
  let ?cb = "CreateCoinbaseTransaction m (ucast (cs_height cs + 1)) ?r"
  have txs: "transactions b = [?cb]" unfolding b_def h_def template_block(1) ..
  have root: "merkle_root (header b) = CalculateMerkleRoot b"
    unfolding b_def template_block(4) CalculateMerkleRoot_def using txs
    by (simp add: b_def Miner_ComputeMerkleRoot_def miner_levels.simps CalculateRoot_txs_def CalculateRoot_def)
  have outs: "map out_value (outputs ?cb) = filter (\<lambda>v. asset_amount v > 0) ?r"
    by (simp add: CreateCoinbaseTransaction_def comp_def)
  have valid: "\<forall>v \<in> set (outputs ?cb). pubkey_script v = mn_coinbase_pubkey m \<and> AssetAmount_IsValid (out_value v)"
    by (auto simp: CreateCoinbaseTransaction_def AssetAmount_IsValid_def IsValidAmount_def GetBlockReward_valid simp del: GetMaxSupply_simps)
  have "IsCoinbase ?cb" by (simp add: IsCoinbase_def CreateCoinbaseTransaction_def)
  moreover have "tp_total_fees (CreateBlockTemplate now cs m k) = 0"
    by (simp add: CreateBlockTemplate_def Let_def SelectTransactions_def CalculateFees_def)
  ultimately show ?thesis using txs root outs valid by blast
qed

subsection \<open>What the chain makes of mined blocks\<close>

text \<open>
  Every template names the null hash as its predecessor, so once the chain has a tip the chain state refuses each block mined from a template,
  whatever its nonce.
\<close>

theorem mined_successor_refused:
  assumes "cs_height cs \<noteq> 0" and "cs_tip_hash cs \<noteq> zero_hash"
  shows "ChainState_ValidateBlock cs (with_nonce (tp_block (CreateBlockTemplate now cs m k)) n) = Inr False"
  using assms template_block(2) [of now cs m k] by (simp add: ChainState_ValidateBlock_def with_nonce_def Let_def)

theorem mined_successor_refused_witness:
  "ChainState_ValidateBlock (ChainState_init\<lparr>cs_height := 1, cs_tip_hash := replicate 32 1\<rparr>)
     (with_nonce (tp_block (CreateBlockTemplate 0 (ChainState_init\<lparr>cs_height := 1, cs_tip_hash := replicate 32 1\<rparr>) (Miner_init [81]) 1000)) 7) = Inr False"
  by (rule mined_successor_refused) simp_all

end
