(* ===== verification/Wallet.thy ===== *)
theory Wallet
  imports Validation Samples
begin

section \<open>The wallet\<close>

text \<open>
  Models \<open>layer1-talanton/wallet/wallet.h\<close> and \<open>wallet.cpp\<close>: addresses derived from a seed, the coins they own, and the construction of
  signed transactions. Iteration over the chain's set of unspent outputs is in the order of its \<open>std::map\<close>. The signature library is a parameter.
  A key that the library refuses makes \<open>GenerateAddress\<close> throw \<open>std::runtime_error\<close>, here \<open>None\<close> or \<open>KeyFailure\<close>; the wallet
  keeps what had changed until then.
\<close>

subsection \<open>State and queries\<close>

record WalletAddress =
  addr_pubkey :: bytes
  addr_label :: string
  addr_index :: u64

record WalletUTXO =
  wu_outpoint :: OutPoint
  wu_output :: TxOutput
  wu_height :: u32
  wu_is_spent :: bool

record Wallet =
  wl_seed :: bytes
  wl_addresses :: "WalletAddress list"
  wl_utxos :: "WalletUTXO list"
  wl_keys :: "u64 \<rightharpoonup> bytes"
  wl_next_index :: u64

definition Wallet_init :: "bytes \<Rightarrow> Wallet" where
  "Wallet_init seed = \<lparr>wl_seed = seed, wl_addresses = [], wl_utxos = [], wl_keys = Map.empty, wl_next_index = 0\<rparr>"

definition DeriveKey :: "Wallet \<Rightarrow> u64 \<Rightarrow> bytes" where
  "DeriveKey w index = Hash256 (wl_seed w @ le64 index)"

definition GenerateAddress :: "Secp \<Rightarrow> Wallet \<Rightarrow> string \<Rightarrow> WalletAddress option \<times> Wallet" where
  "GenerateAddress secp w label =
     (let index = wl_next_index w;
          w = w\<lparr>wl_next_index := index + 1\<rparr>;
          privkey = DeriveKey w index;
          w = w\<lparr>wl_keys := (wl_keys w)(index \<mapsto> privkey)\<rparr> in
      case GetPublicKey secp privkey of
        None \<Rightarrow> (None, w)
      | Some pubkey \<Rightarrow>
          let addr = \<lparr>addr_pubkey = pubkey, addr_label = label, addr_index = index\<rparr> in
          (Some addr, w\<lparr>wl_addresses := wl_addresses w @ [addr]\<rparr>))"

definition Wallet_GetBalance :: "Wallet \<Rightarrow> AssetID \<Rightarrow> u64" where
  "Wallet_GetBalance w asset =
     foldl (\<lambda>balance u. if \<not> wu_is_spent u \<and> asset_id (out_value (wu_output u)) = asset
                        then balance + asset_amount (out_value (wu_output u)) else balance) 0 (wl_utxos w)"

definition GetBalances :: "Wallet \<Rightarrow> (AssetID \<times> u64) list" where
  "GetBalances w = [(TALANTON, Wallet_GetBalance w TALANTON), (DRACHMA, Wallet_GetBalance w DRACHMA), (OBOLOS, Wallet_GetBalance w OBOLOS)]"

definition ListUTXOs :: "Wallet \<Rightarrow> bool \<Rightarrow> WalletUTXO list" where
  "ListUTXOs w include_spent = (if include_spent then wl_utxos w else filter (\<lambda>u. \<not> wu_is_spent u) (wl_utxos w))"

definition IsOurPubkey :: "Wallet \<Rightarrow> bytes \<Rightarrow> bool" where
  "IsOurPubkey w pubkey = list_ex (\<lambda>a. addr_pubkey a = pubkey) (wl_addresses w)"

subsection \<open>Tracking of coins\<close>

definition Wallet_AddUTXO :: "Wallet \<Rightarrow> OutPoint \<Rightarrow> TxOutput \<Rightarrow> u32 \<Rightarrow> Wallet" where
  "Wallet_AddUTXO w outpoint output height =
     w\<lparr>wl_utxos := wl_utxos w @ [\<lparr>wu_outpoint = outpoint, wu_output = output, wu_height = height, wu_is_spent = False\<rparr>]\<rparr>"

fun mark_first :: "OutPoint \<Rightarrow> WalletUTXO list \<Rightarrow> WalletUTXO list" where
  "mark_first p [] = []"
| "mark_first p (u # us) = (if wu_outpoint u = p then u\<lparr>wu_is_spent := True\<rparr> # us else u # mark_first p us)"

definition MarkSpent :: "Wallet \<Rightarrow> OutPoint \<Rightarrow> Wallet" where
  "MarkSpent w outpoint = w\<lparr>wl_utxos := mark_first outpoint (wl_utxos w)\<rparr>"

definition SyncWithChain :: "Wallet \<Rightarrow> UTXOSet \<Rightarrow> Wallet" where
  "SyncWithChain w utxos =
     w\<lparr>wl_utxos := concat (map (\<lambda>addr.
         map (\<lambda>p. \<lparr>wu_outpoint = p, wu_output = coin_output (the (utxos p)), wu_height = coin_height (the (utxos p)), wu_is_spent = False\<rparr>)
           (filter (\<lambda>p. pubkey_script (coin_output (the (utxos p))) = addr_pubkey addr) (sorted_list_of_set (dom utxos))))
       (wl_addresses w))\<rparr>"

definition process_tx :: "u32 \<Rightarrow> Wallet \<Rightarrow> Transaction \<Rightarrow> Wallet" where
  "process_tx height w tx =
     (let w = foldl MarkSpent w (map prevout (inputs tx)) in
      foldl (\<lambda>w (outpoint, output).
          if IsOurPubkey w (pubkey_script output) then Wallet_AddUTXO w outpoint output height else w)
        w (zip (output_points tx) (outputs tx)))"

definition Wallet_Process :: "Wallet \<Rightarrow> Block \<Rightarrow> u32 \<Rightarrow> Wallet" where
  "Wallet_Process w block height = foldl (process_tx height) w (transactions block)"

subsection \<open>Spending\<close>

fun select_from :: "AssetID \<Rightarrow> u64 \<Rightarrow> u64 \<Rightarrow> WalletUTXO list \<Rightarrow> WalletUTXO list option" where
  "select_from asset amount acc [] = None"
| "select_from asset amount acc (u # us) =
     (if \<not> wu_is_spent u \<and> asset_id (out_value (wu_output u)) = asset then
        let acc = acc + asset_amount (out_value (wu_output u)) in
        if acc \<ge> amount then Some [u] else map_option (\<lambda>sel. u # sel) (select_from asset amount acc us)
      else select_from asset amount acc us)"

definition SelectCoins :: "Wallet \<Rightarrow> AssetID \<Rightarrow> u64 \<Rightarrow> WalletUTXO list" where
  "SelectCoins w asset amount = (case select_from asset amount 0 (wl_utxos w) of None \<Rightarrow> [] | Some sel \<Rightarrow> sel)"

datatype wallet_result = Created Transaction | NoTransaction | KeyFailure

text \<open>The signing loop, from input \<open>i\<close> on.\<close>

fun sign_from :: "Secp \<Rightarrow> WalletUTXO list \<Rightarrow> nat \<Rightarrow> Transaction \<Rightarrow> Wallet \<Rightarrow> wallet_result \<times> Wallet" where
  "sign_from secp [] i tx w = (Created tx, w)"
| "sign_from secp (u # us) i tx w =
     (if length (pubkey_script (wu_output u)) \<noteq> 32 then (NoTransaction, w)
      else case find (\<lambda>a. addr_pubkey a = pubkey_script (wu_output u)) (wl_addresses w) of
        None \<Rightarrow> (NoTransaction, w)
      | Some addr \<Rightarrow>
          let key_index = addr_index addr;
              w = (if wl_keys w key_index = None then w\<lparr>wl_keys := (wl_keys w)(key_index \<mapsto> DeriveKey w key_index)\<rparr> else w);
              privkey = the (wl_keys w key_index) in
          (case Schnorr_Sign secp privkey (GetSignatureHash tx i) of
             None \<Rightarrow> (NoTransaction, w)
           | Some signature \<Rightarrow> sign_from secp us (i + 1) (set_signature_script tx i signature) w))"

definition CreateTransaction :: "Secp \<Rightarrow> Wallet \<Rightarrow> TxOutput list \<Rightarrow> AssetID \<Rightarrow> u64 \<Rightarrow> wallet_result \<times> Wallet" where
  "CreateTransaction secp w outs asset fee_amount =
     (let total_out = foldl (\<lambda>acc v. if asset_id (out_value v) = asset then acc + asset_amount (out_value v) else acc) fee_amount outs;
          selected = SelectCoins w asset total_out in
      if selected = [] then (NoTransaction, w)
      else
        let total_in = foldl (\<lambda>acc u. acc + asset_amount (out_value (wu_output u))) 0 selected;
            ins = map (\<lambda>u. \<lparr>prevout = wu_outpoint u, signature_script = [], sequence = 0xFFFFFFFF\<rparr>) selected;
            tx = \<lparr>version = 1, inputs = ins, outputs = outs, locktime = 0\<rparr> in
        if total_in > total_out then
          (case GenerateAddress secp w ''change'' of
             (None, w) \<Rightarrow> (KeyFailure, w)
           | (Some change_addr, w) \<Rightarrow>
               let change_output = \<lparr>out_value = \<lparr>asset_id = asset, asset_amount = total_in - total_out\<rparr>, pubkey_script = addr_pubkey change_addr\<rparr> in
               sign_from secp selected 0 (tx\<lparr>outputs := outs @ [change_output]\<rparr>) w)
        else sign_from secp selected 0 tx w)"

subsection \<open>The wallet's view of the chain\<close>

text \<open>
  The unspent entries of a wallet as a map from outpoints to output and height, and the part of the chain's set of unspent outputs that
  pays the wallet.
\<close>

definition view_of :: "WalletUTXO list \<Rightarrow> OutPoint \<rightharpoonup> TxOutput \<times> u32" where
  "view_of us = map_of (map (\<lambda>u. (wu_outpoint u, (wu_output u, wu_height u))) (filter (\<lambda>u. \<not> wu_is_spent u) us))"

definition owned :: "Wallet \<Rightarrow> UTXOSet \<Rightarrow> OutPoint \<rightharpoonup> TxOutput \<times> u32" where
  "owned w utxos p =
     (case utxos p of None \<Rightarrow> None
      | Some c \<Rightarrow> if IsOurPubkey w (pubkey_script (coin_output c)) then Some (coin_output c, coin_height c) else None)"

definition holds_coins :: "Wallet \<Rightarrow> UTXOSet \<Rightarrow> bool" where
  "holds_coins w utxos \<longleftrightarrow> distinct (map wu_outpoint (wl_utxos w)) \<and> view_of (wl_utxos w) = owned w utxos"

lemma view_of_simps [simp]:
  "view_of [] = Map.empty"
  "view_of (u # us) = (if wu_is_spent u then view_of us else (view_of us)(wu_outpoint u \<mapsto> (wu_output u, wu_height u)))"
  by (simp_all add: view_of_def)

lemma view_of_absent: "p \<notin> wu_outpoint ` set us \<Longrightarrow> view_of us p = None"
  by (induction us) auto

lemma mark_first_outpoints [simp]: "map wu_outpoint (mark_first p us) = map wu_outpoint us"
  by (induction us) auto

lemma view_of_mark_first: "distinct (map wu_outpoint us) \<Longrightarrow> view_of (mark_first p us) = (view_of us)(p := None)"
  by (induction us) (auto simp: fun_upd_twist fun_upd_idem view_of_absent)

lemma view_of_snoc: "wu_outpoint u \<notin> wu_outpoint ` set us \<Longrightarrow> \<not> wu_is_spent u \<Longrightarrow>
    view_of (us @ [u]) = (view_of us)(wu_outpoint u \<mapsto> (wu_output u, wu_height u))"
  by (induction us) (auto simp: fun_upd_twist)

lemma wallet_frame [simp]:
  "wl_addresses (MarkSpent w p) = wl_addresses w" "wl_addresses (Wallet_AddUTXO w p v h) = wl_addresses w"
  "wl_utxos (MarkSpent w p) = mark_first p (wl_utxos w)"
  "wl_utxos (Wallet_AddUTXO w p v h) = wl_utxos w @ [\<lparr>wu_outpoint = p, wu_output = v, wu_height = h, wu_is_spent = False\<rparr>]"
  by (simp_all add: MarkSpent_def Wallet_AddUTXO_def)

lemma IsOurPubkey_frame [simp]:
  "IsOurPubkey (MarkSpent w p) = IsOurPubkey w" "IsOurPubkey (Wallet_AddUTXO w p v h) = IsOurPubkey w"
  by (simp_all add: IsOurPubkey_def fun_eq_iff)

lemma owned_frame [simp]: "owned (MarkSpent w p) = owned w" "owned (Wallet_AddUTXO w p v h) = owned w"
  by (simp_all add: owned_def fun_eq_iff cong: option.case_cong)

lemma owned_spend: "owned w (snd (SpendCoin utxos p)) = (owned w utxos)(p := None)"
  by (auto simp: owned_def SpendCoin_def fun_eq_iff split: option.splits)

lemma owned_add:
  "owned w (AddCoin utxos p c) = (owned w utxos)(p :=
     if IsOurPubkey w (pubkey_script (coin_output c)) then Some (coin_output c, coin_height c) else None)"
  by (auto simp: owned_def AddCoin_def fun_eq_iff)

lemma holds_coins_spend: "holds_coins w utxos \<Longrightarrow> holds_coins (MarkSpent w p) (snd (SpendCoin utxos p))"
  by (simp add: holds_coins_def owned_spend view_of_mark_first)

lemma holds_coins_spend_all:
  "holds_coins w utxos \<Longrightarrow> holds_coins (foldl MarkSpent w ps) (foldl (\<lambda>s p. snd (SpendCoin s p)) utxos ps)
     \<and> map wu_outpoint (wl_utxos (foldl MarkSpent w ps)) = map wu_outpoint (wl_utxos w)
     \<and> wl_addresses (foldl MarkSpent w ps) = wl_addresses w"
proof (induction ps arbitrary: w utxos)
  case (Cons p ps)
  from Cons.IH [OF holds_coins_spend [OF Cons.prems, of p]] show ?case by simp
qed simp

lemma holds_coins_add:
  assumes "holds_coins w utxos" and "p \<notin> wu_outpoint ` set (wl_utxos w)" and "coin_output c = v" and "coin_height c = h"
  shows "holds_coins (if IsOurPubkey w (pubkey_script v) then Wallet_AddUTXO w p v h else w) (AddCoin utxos p c)"
  using assms by (auto simp: holds_coins_def owned_add view_of_snoc fun_upd_idem dest: view_of_absent)

definition add_ours :: "u32 \<Rightarrow> Wallet \<Rightarrow> OutPoint \<times> TxOutput \<Rightarrow> Wallet" where
  "add_ours h w = (\<lambda>(p, v). if IsOurPubkey w (pubkey_script v) then Wallet_AddUTXO w p v h else w)"

lemma holds_coins_add_all:
  assumes "holds_coins w utxos" and "distinct ps" and "set ps \<inter> wu_outpoint ` set (wl_utxos w) = {}" and "length ps = length vs"
  shows "holds_coins (foldl (add_ours h) w (zip ps vs))
           (foldl (\<lambda>s (p, c). AddCoin s p c) utxos (zip ps (map (\<lambda>v. \<lparr>coin_output = v, coin_height = h, coin_is_coinbase = cb\<rparr>) vs)))
     \<and> wu_outpoint ` set (wl_utxos (foldl (add_ours h) w (zip ps vs))) \<subseteq> wu_outpoint ` set (wl_utxos w) \<union> set ps"
  using assms
proof (induction ps arbitrary: w utxos vs)
  case (Cons p ps)
  then obtain v vs' where vs: "vs = v # vs'" by (cases vs) auto
  let ?w = "add_ours h w (p, v)"
  let ?c = "\<lparr>coin_output = v, coin_height = h, coin_is_coinbase = cb\<rparr>"
  have t: "holds_coins ?w (AddCoin utxos p ?c)"
    unfolding add_ours_def prod.case using Cons.prems(1,3) by (intro holds_coins_add) simp_all
  have o: "wu_outpoint ` set (wl_utxos ?w) \<subseteq> insert p (wu_outpoint ` set (wl_utxos w))"
    by (auto simp: add_ours_def)
  have d: "set ps \<inter> wu_outpoint ` set (wl_utxos ?w) = {}" using Cons.prems(2,3) o by auto
  note IH = Cons.IH [OF t _ d, of vs']
  have "distinct ps" "length ps = length vs'" using Cons.prems(2,4) vs by simp_all
  note IH = IH [OF this]
  moreover have "wu_outpoint ` set (wl_utxos ?w) \<union> set ps \<subseteq> wu_outpoint ` set (wl_utxos w) \<union> set (p # ps)"
    using o unfolding list.set by blast
  ultimately have "wu_outpoint ` set (wl_utxos (foldl (add_ours h) ?w (zip ps vs'))) \<subseteq> wu_outpoint ` set (wl_utxos w) \<union> set (p # ps)"
    by (meson order_trans)
  with IH show ?case unfolding vs zip_Cons_Cons list.map foldl.simps prod.case by simp
qed simp

text \<open>One transaction: the wallet marks and adds what the chain spends and adds.\<close>

lemma distinct_output_points: "length (outputs tx) \<le> 2 ^ 32 \<Longrightarrow> distinct (output_points tx)"
  by (auto simp: output_points_def Let_def distinct_map inj_on_def of_nat_u32_inject)

lemma process_tx_holds_coins:
  assumes "holds_coins w utxos" and "length (outputs tx) \<le> 2 ^ 32" and "GetTxID tx \<notin> txid ` wu_outpoint ` set (wl_utxos w)"
  shows "holds_coins (process_tx h w tx) (AddOutputs (SpendInputs utxos tx) tx h cb)
     \<and> txid ` wu_outpoint ` set (wl_utxos (process_tx h w tx)) \<subseteq> insert (GetTxID tx) (txid ` wu_outpoint ` set (wl_utxos w))"
proof -
  let ?w = "foldl MarkSpent w (map prevout (inputs tx))"
  note s = holds_coins_spend_all [OF assms(1), of "map prevout (inputs tx)"]
  have o: "wu_outpoint ` set (wl_utxos ?w) = wu_outpoint ` set (wl_utxos w)"
    using s by (metis set_map)
  have "set (output_points tx) \<inter> wu_outpoint ` set (wl_utxos ?w) = {}"
    using assms(3) output_points_txid [of _ tx] unfolding o by (metis disjoint_iff imageI)
  from holds_coins_add_all [OF conjunct1 [OF s] distinct_output_points [OF assms(2)] this, of "outputs tx" h cb] output_points_txid [of _ tx]
  show ?thesis unfolding o add_ours_def [abs_def]
    by (auto simp: process_tx_def AddOutputs_def SpendInputs_def image_subset_iff subset_iff)
qed

text \<open>What the wallet needs of a block: transaction ids that are new, and outputs that a 32-bit index numbers.\<close>

definition wallet_fresh :: "Wallet \<Rightarrow> Transaction list \<Rightarrow> bool" where
  "wallet_fresh w txs \<longleftrightarrow> distinct (map GetTxID txs) \<and> (\<forall>tx \<in> set txs. length (outputs tx) \<le> 2 ^ 32)
     \<and> set (map GetTxID txs) \<inter> txid ` wu_outpoint ` set (wl_utxos w) = {}"

lemma wallet_fresh_tl:
  assumes "wallet_fresh w (tx # txs)"
    and "txid ` wu_outpoint ` set (wl_utxos w') \<subseteq> insert (GetTxID tx) (txid ` wu_outpoint ` set (wl_utxos w))"
  shows "wallet_fresh w' txs"
proof -
  have "set (map GetTxID txs) \<inter> insert (GetTxID tx) (txid ` wu_outpoint ` set (wl_utxos w)) = {}"
    using assms(1) unfolding wallet_fresh_def list.map list.set distinct.simps by blast
  then have "set (map GetTxID txs) \<inter> txid ` wu_outpoint ` set (wl_utxos w') = {}" using assms(2) by blast
  then show ?thesis using assms(1) by (simp add: wallet_fresh_def)
qed

lemma connect_rest_holds_coins:
  assumes "connect_rest u undo h txs = (True, u', undo')" and "holds_coins w u" and "wallet_fresh w txs"
  shows "holds_coins (foldl (process_tx h) w txs) u'"
  using assms
proof (induction txs arbitrary: u undo w)
  case (Cons tx txs)
  let ?w = "process_tx h w tx"
  obtain tx_undo where rest: "connect_rest (AddOutputs (SpendInputs u tx) tx h False) (AddTxUndo undo tx_undo) h txs = (True, u', undo')"
    using Cons.prems(1) by (auto split: option.splits)
  have fresh: "length (outputs tx) \<le> 2 ^ 32" "GetTxID tx \<notin> txid ` wu_outpoint ` set (wl_utxos w)"
    using Cons.prems(3) by (auto simp: wallet_fresh_def)
  note t = process_tx_holds_coins [OF Cons.prems(2) fresh, of h False]
  have "wallet_fresh ?w txs" by (rule wallet_fresh_tl [OF Cons.prems(3) conjunct2 [OF t]])
  from Cons.IH [OF rest conjunct1 [OF t] this] show ?case by simp
qed simp

lemma SpendInputs_coinbase:
  assumes "IsCoinbase tx" and "u (OutPoint zero_hash COINBASE_VOUT_INDEX) = None"
  shows "SpendInputs u tx = u"
proof -
  obtain i where i: "inputs tx = [i]" using assms(1) by (cases "inputs tx") (auto simp: IsCoinbase_def)
  then have "prevout i = OutPoint zero_hash COINBASE_VOUT_INDEX" using assms(1) by (intro OutPoint.expand) (simp add: IsCoinbase_def)
  then show ?thesis using assms(2) i by (simp add: SpendInputs_def SpendCoin_def)
qed

text \<open>
  C38. The wallet follows the chain: when its unspent coins are exactly the chain's unspent outputs that pay its addresses, with their heights, and a block
  with new transaction ids connects, then after processing the block at the new height they are so again.
\<close>

theorem wallet_follows_chain:
  assumes "holds_coins w (utxo_set c)" and "ConnectBlock c b undo = (True, c', undo')"
    and "wallet_fresh w (transactions b)" and "utxo_set c (OutPoint zero_hash COINBASE_VOUT_INDEX) = None"
  shows "holds_coins (Wallet_Process w b (chain_height c + 1)) (utxo_set c')"
proof -
  obtain u' where valid: "Block_IsValid b"
    and rest: "connect_rest (AddOutputs (utxo_set c) (transactions b ! 0) (chain_height c + 1) True) undo
           (chain_height c + 1) (tl (transactions b)) = (True, u', undo')" and u': "utxo_set c' = u'"
    using assms(2) by (rule ConnectBlock_True) auto
  obtain cb txs where b: "transactions b = cb # txs" and cb: "IsCoinbase cb"
    using valid by (cases "transactions b") (auto simp: Block_IsValid_def split: if_splits)
  have fresh: "length (outputs cb) \<le> 2 ^ 32" "GetTxID cb \<notin> txid ` wu_outpoint ` set (wl_utxos w)"
    using assms(3) b by (auto simp: wallet_fresh_def)
  note t = process_tx_holds_coins [OF assms(1) fresh, of "chain_height c + 1" True, unfolded SpendInputs_coinbase [OF cb, of "utxo_set c", OF assms(4)]]
  have fresh': "wallet_fresh (process_tx (chain_height c + 1) w cb) txs"
    by (rule wallet_fresh_tl [OF assms(3) [unfolded b] conjunct2 [OF t]])
  have "holds_coins (foldl (process_tx (chain_height c + 1)) (process_tx (chain_height c + 1) w cb) txs) u'"
    using rest by (intro connect_rest_holds_coins [OF _ conjunct1 [OF t] fresh']) (simp add: b)
  then show ?thesis by (simp add: Wallet_Process_def b u')
qed

text \<open>The balance of such a wallet is the value of the coins that pay it, modulo \<open>2 ^ 64\<close>.\<close>

definition paying :: "Wallet \<Rightarrow> UTXOSet \<Rightarrow> UTXOSet" where
  "paying w utxos p = (case utxos p of None \<Rightarrow> None | Some c \<Rightarrow> if IsOurPubkey w (pubkey_script (coin_output c)) then Some c else None)"

definition view_value :: "AssetID \<Rightarrow> (OutPoint \<rightharpoonup> TxOutput \<times> u32) \<Rightarrow> nat" where
  "view_value a v = (\<Sum>p \<in> dom v. case v p of None \<Rightarrow> 0 | Some (out, h) \<Rightarrow>
     if asset_id (out_value out) = a then unat (asset_amount (out_value out)) else 0)"

lemma view_value_owned: "view_value a (owned w utxos) = utxo_value a (paying w utxos)"
proof -
  have "dom (owned w utxos) = dom (paying w utxos)"
    by (auto simp: owned_def paying_def split: option.splits if_splits)
  then show ?thesis unfolding view_value_def utxo_value_def
    by (intro sum.cong) (auto simp: owned_def paying_def coin_value_def split: option.splits)
qed

lemma foldl_balance:
  "foldl (\<lambda>b u. if P u then b + f u else b) k us = k + wsum (map f (filter P us))" for f :: "'a \<Rightarrow> u64"
  by (induction us arbitrary: k) (auto simp: algebra_simps)

lemma view_value_of:
  "distinct (map wu_outpoint us) \<Longrightarrow> view_value a (view_of us)
     = nsum (map (\<lambda>u. asset_amount (out_value (wu_output u))) (filter (\<lambda>u. \<not> wu_is_spent u \<and> asset_id (out_value (wu_output u)) = a) us))"
proof (induction us)
  case (Cons u us)
  have fin: "finite (dom (view_of us))" by (simp add: view_of_def finite_dom_map_of)
  have new: "view_of us (wu_outpoint u) = None" using Cons.prems by (intro view_of_absent) auto
  let ?g = "\<lambda>v p. case v p of None \<Rightarrow> 0 | Some (out, h) \<Rightarrow> if asset_id (out_value out) = a then unat (asset_amount (out_value out)) else 0"
  have "sum (?g ((view_of us)(wu_outpoint u \<mapsto> x))) (dom (view_of us)) = sum (?g (view_of us)) (dom (view_of us))" for x
    using new by (intro sum.cong) auto
  then show ?case using Cons fin new by (auto simp: view_value_def domIff)
qed (simp add: view_value_def)

theorem wallet_balance_is_owned_value:
  assumes "holds_coins w utxos"
  shows "unat (Wallet_GetBalance w a) = utxo_value a (paying w utxos) mod 2 ^ 64"
proof -
  have "Wallet_GetBalance w a = wsum (map (\<lambda>u. asset_amount (out_value (wu_output u)))
      (filter (\<lambda>u. \<not> wu_is_spent u \<and> asset_id (out_value (wu_output u)) = a) (wl_utxos w)))"
    unfolding Wallet_GetBalance_def by (subst foldl_balance) simp
  then show ?thesis
    using assms view_value_of [of "wl_utxos w" a] by (simp add: unat_wsum holds_coins_def view_value_owned)
qed

subsection \<open>Synchronisation\<close>

text \<open>
  Synchronisation with the chain's unspent outputs makes the wallet hold exactly the ones that pay its addresses, when the addresses have different keys.
\<close>

theorem sync_holds_coins:
  assumes "finite (dom utxos)" and "distinct (map addr_pubkey (wl_addresses w))"
  shows "holds_coins (SyncWithChain w utxos) utxos"
proof -
  let ?script = "\<lambda>p. pubkey_script (coin_output (the (utxos p)))"
  let ?coin = "\<lambda>p. \<lparr>wu_outpoint = p, wu_output = coin_output (the (utxos p)), wu_height = coin_height (the (utxos p)), wu_is_spent = False\<rparr>"
  let ?ps = "\<lambda>as. concat (map (\<lambda>a. filter (\<lambda>p. ?script p = addr_pubkey a) (sorted_list_of_set (dom utxos))) as)"
  have utxos: "wl_utxos (SyncWithChain w utxos) = map ?coin (?ps (wl_addresses w))"
    by (simp add: SyncWithChain_def map_concat comp_def)
  have set_ps: "set (?ps as) = {p \<in> dom utxos. \<exists>a \<in> set as. ?script p = addr_pubkey a}" for as
    using assms(1) by auto
  have dist: "distinct (map addr_pubkey as) \<Longrightarrow> distinct (?ps as)" for as
  proof (induction as)
    case (Cons a as)
    have "addr_pubkey b \<noteq> addr_pubkey a" if "b \<in> set as" for b
      using Cons.prems that by (auto simp: image_iff)
    then show ?case using Cons by auto
  qed simp
  have view: "view_of (map ?coin ps) p = (if p \<in> set ps then Some (coin_output (the (utxos p)), coin_height (the (utxos p))) else None)" for ps p
    by (induction ps) auto
  have "view_of (map ?coin (?ps (wl_addresses w))) p = owned (SyncWithChain w utxos) utxos p" for p
    unfolding view set_ps
    by (auto simp: owned_def IsOurPubkey_def SyncWithChain_def list_ex_iff domIff eq_commute [of "pubkey_script _"] split: option.splits)
  then show ?thesis unfolding holds_coins_def utxos by (auto simp: comp_def dist [OF assms(2)])
qed

subsection \<open>Created transactions\<close>

definition coin_amounts :: "WalletUTXO list \<Rightarrow> u64 list" where
  "coin_amounts us = map (\<lambda>u. asset_amount (out_value (wu_output u))) us"

definition amounts_of :: "AssetID \<Rightarrow> TxOutput list \<Rightarrow> u64 list" where
  "amounts_of a vs = map (asset_amount \<circ> out_value) (filter (\<lambda>v. asset_id (out_value v) = a) vs)"

definition spendable :: "AssetID \<Rightarrow> WalletUTXO \<Rightarrow> bool" where
  "spendable a u \<longleftrightarrow> \<not> wu_is_spent u \<and> asset_id (out_value (wu_output u)) = a"

lemma select_from_Some:
  "select_from a amount k us = Some sel \<Longrightarrow>
     subseq sel (filter (spendable a) us) \<and> amount \<le> k + wsum (coin_amounts sel) \<and> sel \<noteq> []"
proof (induction us arbitrary: k sel)
  case (Cons u us)
  show ?case
  proof (cases "spendable a u \<and> \<not> amount \<le> k + asset_amount (out_value (wu_output u))")
    case True
    then obtain sel' where "select_from a amount (k + asset_amount (out_value (wu_output u))) us = Some sel'" "sel = u # sel'"
      using Cons.prems by (auto simp: spendable_def)
    then show ?thesis using Cons.IH [of "k + asset_amount (out_value (wu_output u))" sel'] True
      by (simp add: coin_amounts_def add.assoc)
  next
    case False
    then show ?thesis using Cons.prems Cons.IH
      by (auto simp: coin_amounts_def spendable_def Let_def split: if_splits)
  qed
qed simp

definition clear_scripts :: "Transaction \<Rightarrow> Transaction" where
  "clear_scripts tx = tx\<lparr>inputs := map (\<lambda>i. i\<lparr>signature_script := []\<rparr>) (inputs tx)\<rparr>"

lemma clear_set_script [simp]: "i < length (inputs tx) \<Longrightarrow> clear_scripts (set_signature_script tx i s) = clear_scripts tx"
  by (simp add: clear_scripts_def set_signature_script_def map_update list_update_same_conv)

lemma clear_empty_script: "signature_script i = [] \<Longrightarrow> i\<lparr>signature_script := []\<rparr> = i"
  by (cases i) simp

lemma signing_bytes_cleared:
  "k < length (inputs tx) \<Longrightarrow> signature_script (inputs tx ! k) = [] \<Longrightarrow> SerializeForSigning (clear_scripts tx) k = SerializeForSigning tx k"
  unfolding SerializeForSigning_alt
  by (auto simp: clear_scripts_def signing_copy_def clear_empty_script intro!: arg_cong [where f = concat])

definition keys_ok :: "Wallet \<Rightarrow> bool" where
  "keys_ok w \<longleftrightarrow> (\<forall>i k. wl_keys w i = Some k \<longrightarrow> k = DeriveKey w i)"

text \<open>What a signed input shows: some address of the wallet owns the coin and its key signed the bytes of the transaction without scripts.\<close>

definition signed_by_owner :: "Secp \<Rightarrow> Wallet \<Rightarrow> Transaction \<Rightarrow> nat \<Rightarrow> WalletUTXO \<Rightarrow> bool" where
  "signed_by_owner secp w tx k u \<longleftrightarrow> (\<exists>a \<in> set (wl_addresses w). addr_pubkey a = pubkey_script (wu_output u)
     \<and> Schnorr_Sign secp (DeriveKey w (addr_index a)) (GetSignatureHash (clear_scripts tx) k) = Some (signature_script (inputs tx ! k)))"

lemma sign_from_Created:
  assumes "sign_from secp us i tx w = (Created tx', w')" and "i + length us = length (inputs tx)"
    and "\<forall>k \<ge> i. k < length (inputs tx) \<longrightarrow> signature_script (inputs tx ! k) = []" and "keys_ok w"
  shows "clear_scripts tx' = clear_scripts tx \<and> (\<forall>k < i. inputs tx' ! k = inputs tx ! k)
     \<and> wl_addresses w' = wl_addresses w \<and> wl_utxos w' = wl_utxos w \<and> wl_seed w' = wl_seed w
     \<and> (\<forall>k < length us. signed_by_owner secp w tx' (i + k) (us ! k))"
  using assms
proof (induction us arbitrary: i tx w)
  case (Cons u us)
  obtain a where a: "find (\<lambda>a. addr_pubkey a = pubkey_script (wu_output u)) (wl_addresses w) = Some a"
    using Cons.prems(1) by (auto split: if_splits option.splits)
  let ?w = "if wl_keys w (addr_index a) = None then w\<lparr>wl_keys := (wl_keys w)(addr_index a \<mapsto> DeriveKey w (addr_index a))\<rparr> else w"
  have key: "the (wl_keys ?w (addr_index a)) = DeriveKey w (addr_index a)"
    using Cons.prems(4) by (auto simp: keys_ok_def)
  obtain s where s: "Schnorr_Sign secp (DeriveKey w (addr_index a)) (GetSignatureHash tx i) = Some s"
    and rest: "sign_from secp us (i + 1) (set_signature_script tx i s) ?w = (Created tx', w')"
    using Cons.prems(1) a key by (auto simp: Let_def split: if_splits option.splits)
  let ?tx = "set_signature_script tx i s"
  have len: "length (inputs ?tx) = length (inputs tx)" by (simp add: set_signature_script_def)
  have i: "i < length (inputs tx)" using Cons.prems(2) by simp
  have script: "\<forall>k \<ge> i + 1. k < length (inputs ?tx) \<longrightarrow> signature_script (inputs ?tx ! k) = []"
    using Cons.prems(3) by (auto simp: set_signature_script_def)
  have derive: "DeriveKey ?w = DeriveKey w" by (auto simp: DeriveKey_def fun_eq_iff)
  have ok: "keys_ok ?w" using Cons.prems(4) by (auto simp: keys_ok_def DeriveKey_def)
  note IH = Cons.IH [OF rest _ script ok]
  have IH: "clear_scripts tx' = clear_scripts tx" "\<forall>k < i + 1. inputs tx' ! k = inputs ?tx ! k"
    "wl_addresses w' = wl_addresses w" "wl_utxos w' = wl_utxos w" "wl_seed w' = wl_seed w"
    "\<forall>k < length us. signed_by_owner secp ?w tx' (i + 1 + k) (us ! k)"
    using IH Cons.prems(2) len i by auto
  have "GetSignatureHash tx i = GetSignatureHash (clear_scripts tx) i"
    unfolding GetSignatureHash_def using i Cons.prems(3) signing_bytes_cleared [of i tx] by simp
  moreover have "a \<in> set (wl_addresses w)" "addr_pubkey a = pubkey_script (wu_output u)"
    using a by (auto simp: find_Some_iff)
  moreover have "signature_script (inputs tx' ! i) = s" using IH(2) i by (simp add: set_signature_script_def)
  ultimately have here: "signed_by_owner secp w tx' i u" using s IH(1) by (auto simp: signed_by_owner_def)
  have "signed_by_owner secp ?w t k v = signed_by_owner secp w t k v" for t k v
    unfolding signed_by_owner_def derive by auto
  then have "signed_by_owner secp w tx' (i + k) ((u # us) ! k)" if "k < length (u # us)" for k
    using that here IH(6) by (cases k) auto
  moreover have "\<forall>k < i. inputs tx' ! k = inputs tx ! k" using IH(2) by (auto simp: set_signature_script_def)
  ultimately show ?case using IH by auto
qed simp

lemma foldl_amounts_of:
  "foldl (\<lambda>acc v. if asset_id (out_value v) = a then acc + asset_amount (out_value v) else acc) k vs = k + wsum (amounts_of a vs)"
  by (subst foldl_balance) (simp add: amounts_of_def comp_def)

lemma foldl_coin_amounts: "foldl (\<lambda>acc u. acc + asset_amount (out_value (wu_output u))) k us = k + wsum (coin_amounts us)"
  by (induction us arbitrary: k) (simp_all add: coin_amounts_def add.assoc)

lemma GenerateAddress_frame:
  assumes "GenerateAddress secp w label = (r, w')"
  shows "wl_utxos w' = wl_utxos w" "wl_seed w' = wl_seed w" "keys_ok w \<Longrightarrow> keys_ok w'"
  using assms by (auto simp: GenerateAddress_def Let_def keys_ok_def DeriveKey_def split: option.splits if_splits)

lemma distinct_subseq: "subseq xs ys \<Longrightarrow> distinct ys \<Longrightarrow> distinct xs"
  by (induction rule: list_emb.induct) (auto dest: list_emb_set)

lemma GenerateAddress_new:
  assumes "GenerateAddress secp w label = (Some addr, w')"
  shows "GetPublicKey secp (DeriveKey w (wl_next_index w)) = Some (addr_pubkey addr)"
    and "wl_addresses w' = wl_addresses w @ [\<lparr>addr_pubkey = addr_pubkey addr, addr_label = label, addr_index = wl_next_index w\<rparr>]"
  using assms by (auto simp: GenerateAddress_def Let_def DeriveKey_def split: option.splits)

text \<open>The change, as the list of outputs that are added, and the address that is added for it.\<close>

definition change_outputs :: "Secp \<Rightarrow> Wallet \<Rightarrow> Wallet \<Rightarrow> AssetID \<Rightarrow> u64 \<Rightarrow> TxOutput list \<Rightarrow> bool" where
  "change_outputs secp w w' a rest vs \<longleftrightarrow>
     (if rest = 0 then vs = [] \<and> wl_addresses w' = wl_addresses w
      else \<exists>key. GetPublicKey secp (DeriveKey w (wl_next_index w)) = Some key
        \<and> vs = [\<lparr>out_value = \<lparr>asset_id = a, asset_amount = rest\<rparr>, pubkey_script = key\<rparr>]
        \<and> wl_addresses w' = wl_addresses w @ [\<lparr>addr_pubkey = key, addr_label = ''change'', addr_index = wl_next_index w\<rparr>])"

lemma CreateTransaction_Created:
  assumes "CreateTransaction secp w outs a fee = (Created tx, w')" and "keys_ok w"
  obtains sel change where "subseq sel (filter (spendable a) (wl_utxos w))" and "fee + wsum (amounts_of a outs) \<le> wsum (coin_amounts sel)"
    and "map prevout (inputs tx) = map wu_outpoint sel" and "outputs tx = outs @ change"
    and "change_outputs secp w w' a (wsum (coin_amounts sel) - (fee + wsum (amounts_of a outs))) change" and "wl_utxos w' = wl_utxos w"
    and "\<forall>k < length sel. signed_by_owner secp w' tx k (sel ! k)"
proof -
  let ?out = "fee + wsum (amounts_of a outs)"
  obtain sel where sel: "select_from a ?out 0 (wl_utxos w) = Some sel"
    using assms(1) by (auto simp: CreateTransaction_def foldl_amounts_of SelectCoins_def Let_def split: option.splits if_splits)
  note sf = select_from_Some [OF sel]
  let ?in = "wsum (coin_amounts sel)"
  let ?ins = "map (\<lambda>u. \<lparr>prevout = wu_outpoint u, signature_script = [], sequence = 0xFFFFFFFF\<rparr>) sel"
  have created: "(if ?in > ?out then
        (case GenerateAddress secp w ''change'' of (None, w) \<Rightarrow> (KeyFailure, w)
         | (Some addr, w) \<Rightarrow> sign_from secp sel 0 \<lparr>version = 1, inputs = ?ins,
             outputs = outs @ [\<lparr>out_value = \<lparr>asset_id = a, asset_amount = ?in - ?out\<rparr>, pubkey_script = addr_pubkey addr\<rparr>], locktime = 0\<rparr> w)
      else sign_from secp sel 0 \<lparr>version = 1, inputs = ?ins, outputs = outs, locktime = 0\<rparr> w) = (Created tx, w')"
    using assms(1) sf unfolding CreateTransaction_def foldl_amounts_of SelectCoins_def sel foldl_coin_amounts
    by (simp add: Let_def foldl_amounts_of foldl_coin_amounts sel cong: if_cong prod.case_cong option.case_cong)
  obtain w1 change where signed: "sign_from secp sel 0 \<lparr>version = 1, inputs = ?ins, outputs = outs @ change, locktime = 0\<rparr> w1 = (Created tx, w')"
    and w1: "wl_utxos w1 = wl_utxos w" "keys_ok w1" and change: "change_outputs secp w w1 a (?in - ?out) change"
  proof (cases "?in > ?out")
    case True
    then obtain addr w1 where g: "GenerateAddress secp w ''change'' = (Some addr, w1)"
      and "sign_from secp sel 0 \<lparr>version = 1, inputs = ?ins,
         outputs = outs @ [\<lparr>out_value = \<lparr>asset_id = a, asset_amount = ?in - ?out\<rparr>, pubkey_script = addr_pubkey addr\<rparr>], locktime = 0\<rparr> w1 = (Created tx, w')"
      using created by (auto split: prod.splits option.splits)
    then show ?thesis
      using GenerateAddress_frame(1) [OF g] GenerateAddress_frame(3) [OF g assms(2)] GenerateAddress_new [OF g] True
      by (intro that [of "[\<lparr>out_value = \<lparr>asset_id = a, asset_amount = ?in - ?out\<rparr>, pubkey_script = addr_pubkey addr\<rparr>]" w1])
         (auto simp: change_outputs_def)
  next
    case False
    then have "?in = ?out" using sf by simp
    then show ?thesis using created assms(2) by (intro that [of "[]" w]) (auto simp: change_outputs_def)
  qed
  note s = sign_from_Created [OF signed _ _ w1(2)]
  have s: "clear_scripts tx = clear_scripts \<lparr>version = 1, inputs = ?ins, outputs = outs @ change, locktime = 0\<rparr>"
    "wl_addresses w' = wl_addresses w1" "wl_utxos w' = wl_utxos w1" "wl_seed w' = wl_seed w1"
    "\<forall>k < length sel. signed_by_owner secp w1 tx k (sel ! k)"
    using s by auto
  have "map prevout (inputs (clear_scripts tx)) = map prevout (inputs tx)" "outputs (clear_scripts tx) = outputs tx"
    by (simp_all add: clear_scripts_def comp_def)
  with s(1) have "map prevout (inputs tx) = map wu_outpoint sel" "outputs tx = outs @ change"
    by (auto simp: clear_scripts_def comp_def)
  moreover have "\<forall>k < length sel. signed_by_owner secp w' tx k (sel ! k)"
    using s(2,4,5) by (simp add: signed_by_owner_def DeriveKey_def)
  moreover have "change_outputs secp w w' a (?in - ?out) change" using change s(2) by (simp add: change_outputs_def)
  ultimately show ?thesis using sf s(3) w1 by (intro that) simp_all
qed

text \<open>
  C39. A created transaction spends some of the wallet's unspent coins of the asset, no outpoint twice, pays the requested outputs, and
  returns exactly what is left after them and the fee to a key freshly derived for the change, whose address is added to the wallet; without a
  rest there is no change. This holds when the requested total and the coins of the wallet each stay below \<open>2 ^ 64\<close>, the stored keys are the
  derived ones, and the wallet has no outpoint twice; \<open>processing_twice_counts_twice\<close> and \<open>duplicate_entry_spent_twice\<close> below
  show that the wallet does not see to the last. The coins are not marked spent.
\<close>

theorem created_transaction_balances:
  assumes "CreateTransaction secp w outs a fee = (Created tx, w')" and "keys_ok w" and "distinct (map wu_outpoint (wl_utxos w))"
    and "unat fee + nsum (amounts_of a outs) < 2 ^ 64" and "nsum (coin_amounts (filter (spendable a) (wl_utxos w))) < 2 ^ 64"
  shows "\<exists>sel change. subseq sel (filter (spendable a) (wl_utxos w))
     \<and> map prevout (inputs tx) = map wu_outpoint sel \<and> distinct (map prevout (inputs tx))
     \<and> outputs tx = outs @ change
     \<and> nsum (coin_amounts sel) = nsum (amounts_of a outs) + unat fee + nsum (amounts_of a change)
     \<and> (change = [] \<and> wl_addresses w' = wl_addresses w
        \<or> (\<exists>key rest. rest > 0 \<and> GetPublicKey secp (DeriveKey w (wl_next_index w)) = Some key
            \<and> change = [\<lparr>out_value = \<lparr>asset_id = a, asset_amount = rest\<rparr>, pubkey_script = key\<rparr>]
            \<and> wl_addresses w' = wl_addresses w @ [\<lparr>addr_pubkey = key, addr_label = ''change'', addr_index = wl_next_index w\<rparr>]))
     \<and> wl_utxos w' = wl_utxos w"
proof -
  obtain sel change where c: "subseq sel (filter (spendable a) (wl_utxos w))" "fee + wsum (amounts_of a outs) \<le> wsum (coin_amounts sel)"
    "map prevout (inputs tx) = map wu_outpoint sel" "outputs tx = outs @ change" "wl_utxos w' = wl_utxos w"
    and change: "change_outputs secp w w' a (wsum (coin_amounts sel) - (fee + wsum (amounts_of a outs))) change"
    using assms(1,2) by (rule CreateTransaction_Created)
  have "subseq (map wu_outpoint sel) (map wu_outpoint (wl_utxos w))"
    using subseq_order.trans [OF c(1) subseq_filter_left] by (rule subseq_map)
  then have d: "distinct (map prevout (inputs tx))" using assms(3) c(3) distinct_subseq by metis
  have "nsum (coin_amounts sel) \<le> nsum (coin_amounts (filter (spendable a) (wl_utxos w)))"
    using c(1) unfolding coin_amounts_def by (induction rule: list_emb.induct) auto
  then have i: "unat (wsum (coin_amounts sel)) = nsum (coin_amounts sel)" using assms(5) by (intro unat_wsum_exact) simp
  have w: "unat (wsum (amounts_of a outs)) = nsum (amounts_of a outs)" using assms(4) by (intro unat_wsum_exact) simp
  have o: "unat (fee + wsum (amounts_of a outs)) = unat fee + nsum (amounts_of a outs)"
    using assms(4) w by (subst unat_add_lt) simp_all
  let ?rest = "wsum (coin_amounts sel) - (fee + wsum (amounts_of a outs))"
  have r: "unat ?rest + (unat fee + nsum (amounts_of a outs)) = nsum (coin_amounts sel)"
    using c(2) i o by (simp add: unat_sub word_le_nat_alt)
  have "nsum (amounts_of a change) = unat ?rest"
    using change by (auto simp: change_outputs_def amounts_of_def split: if_splits)
  then show ?thesis using c r d change
    by (intro exI [of _ sel] exI [of _ change]) (auto simp: change_outputs_def word_gt_0 split: if_splits)
qed

text \<open>
  No input of a created transaction carries a signature of the bytes that validators check: each is signed by the owner's key
  over the transaction without scripts, while the validator hashes the transaction with the script of that input in place,
  which is longer. The library makes no empty signatures.
\<close>

theorem wallet_signs_other_bytes:
  assumes "CreateTransaction secp w outs a fee = (Created tx, w')" and "keys_ok w"
    and "\<forall>h k s. schnorrsig_sign32 secp h k = Some s \<longrightarrow> length s = 64" and "k < length (inputs tx)"
  shows "(\<exists>addr \<in> set (wl_addresses w'). Schnorr_Sign secp (DeriveKey w' (addr_index addr)) (Hash256 (SerializeForSigning (clear_scripts tx) k))
            = Some (signature_script (inputs tx ! k)))
     \<and> length (SerializeForSigning (clear_scripts tx) k) < length (SerializeForSigning tx k)"
proof -
  obtain sel change where ins: "map prevout (inputs tx) = map wu_outpoint sel"
    and signed: "\<forall>k < length sel. signed_by_owner secp w' tx k (sel ! k)"
    using assms(1,2) by (rule CreateTransaction_Created)
  have "k < length sel" using ins assms(4) by (metis length_map)
  then obtain addr where addr: "addr \<in> set (wl_addresses w')"
    "Schnorr_Sign secp (DeriveKey w' (addr_index addr)) (GetSignatureHash (clear_scripts tx) k) = Some (signature_script (inputs tx ! k))"
    using signed by (auto simp: signed_by_owner_def)
  let ?s = "signature_script (inputs tx ! k)"
  have "length ?s = 64" using addr(2) assms(3) by (auto simp: Schnorr_Sign_def split: option.splits if_splits)
  then have s: "?s \<noteq> []" by auto
  let ?t = "set_signature_script tx k []"
  have t: "k < length (inputs ?t)" "signature_script (inputs ?t ! k) = []" "set_signature_script ?t k ?s = tx"
    using assms(4) by (simp_all add: set_signature_script_def)
  have "SerializeForSigning ?t k = SerializeForSigning (clear_scripts tx) k"
    using signing_bytes_cleared [OF t(1,2)] assms(4) by simp
  then show ?thesis using SerializeForSigning_grows [OF t(1,2) s] t(3) addr by (auto simp: GetSignatureHash_def)
qed

subsection \<open>Instances\<close>

definition sample_signer :: Secp where
  "sample_signer = \<lparr>seckey_verify = (\<lambda>_. True), xonly_pubkey_parse = (\<lambda>_. True), schnorrsig_verify = (\<lambda>_ _ _. True),
     xonly_pub_of_seckey = Some, schnorrsig_sign32 = (\<lambda>h k. Some (replicate 64 1))\<rparr>"

definition sample_wallet :: Wallet where
  "sample_wallet = (Wallet_init zero_hash)\<lparr>wl_addresses := [\<lparr>addr_pubkey = [81], addr_label = [], addr_index = 0\<rparr>]\<rparr>"

lemma sample_wallet_holds_coins: "holds_coins sample_wallet (utxo_set Chain_init)"
  by (simp add: holds_coins_def sample_wallet_def Wallet_init_def Chain_init_def owned_def fun_eq_iff)

theorem wallet_follows_chain_witness:
  "holds_coins (Wallet_Process sample_wallet sample_block 1) (utxo_set sample_chain)
     \<and> Wallet_GetBalance (Wallet_Process sample_wallet sample_block 1) TALANTON = 5000000000"
proof
  have "wallet_fresh sample_wallet (transactions sample_block)"
    by (simp add: wallet_fresh_def sample_block_simps sample_wallet_def Wallet_init_def sample_coinbase_def)
  moreover have "chain_height Chain_init + 1 = 1" "utxo_set Chain_init = Map.empty" by (simp_all add: Chain_init_def)
  ultimately show "holds_coins (Wallet_Process sample_wallet sample_block 1) (utxo_set sample_chain)"
    using wallet_follows_chain [OF sample_wallet_holds_coins sample_connect] by simp
  show "Wallet_GetBalance (Wallet_Process sample_wallet sample_block 1) TALANTON = 5000000000"
    by (simp add: Wallet_Process_def sample_block_simps process_tx_def sample_coinbase_def output_points_def Let_def MarkSpent_def
        sample_wallet_def Wallet_init_def IsOurPubkey_def Wallet_AddUTXO_def Wallet_GetBalance_def)
qed

theorem sync_holds_coins_witness: "holds_coins (SyncWithChain sample_wallet Map.empty) Map.empty"
  by (rule sync_holds_coins) (simp_all add: sample_wallet_def)

theorem wallet_balance_is_owned_value_witness:
  "unat (Wallet_GetBalance sample_wallet TALANTON) = utxo_value TALANTON (paying sample_wallet (utxo_set Chain_init)) mod 2 ^ 64"
  by (rule wallet_balance_is_owned_value [OF sample_wallet_holds_coins])

definition funded_wallet :: Wallet where
  "funded_wallet = (Wallet_init zero_hash)\<lparr>
     wl_addresses := [\<lparr>addr_pubkey = replicate 32 5, addr_label = [], addr_index = 0\<rparr>],
     wl_utxos := [\<lparr>wu_outpoint = OutPoint zero_hash 0, wu_output = \<lparr>out_value = \<lparr>asset_id = TALANTON, asset_amount = 100\<rparr>,
       pubkey_script = replicate 32 5\<rparr>, wu_height = 1, wu_is_spent = False\<rparr>]\<rparr>"

definition sample_payment :: "TxOutput list" where
  "sample_payment = [\<lparr>out_value = \<lparr>asset_id = TALANTON, asset_amount = 60\<rparr>, pubkey_script = [7]\<rparr>]"

lemma funded_wallet_facts: "keys_ok funded_wallet" "\<forall>h k s. schnorrsig_sign32 sample_signer h k = Some s \<longrightarrow> length s = 64"
  "nsum (coin_amounts (filter (spendable TALANTON) (wl_utxos funded_wallet))) = 100" "nsum (amounts_of TALANTON sample_payment) = 60"
  by (simp_all add: keys_ok_def funded_wallet_def Wallet_init_def sample_signer_def coin_amounts_def spendable_def amounts_of_def sample_payment_def)

lemma funded_payment:
  "\<exists>tx w'. CreateTransaction sample_signer funded_wallet sample_payment TALANTON 10 = (Created tx, w') \<and> length (inputs tx) = 1
     \<and> map (asset_amount \<circ> out_value) (outputs tx) = [60, 30]"
  by (simp add: CreateTransaction_def Let_def SelectCoins_def funded_wallet_def sample_payment_def Wallet_init_def GenerateAddress_def
      GetPublicKey_def ValidatePrivateKey_def sample_signer_def Schnorr_Sign_def set_signature_script_def)

theorem created_transaction_balances_witness:
  "\<exists>tx w'. CreateTransaction sample_signer funded_wallet sample_payment TALANTON 10 = (Created tx, w')
     \<and> (\<exists>key. outputs tx = sample_payment @ [\<lparr>out_value = \<lparr>asset_id = TALANTON, asset_amount = 30\<rparr>, pubkey_script = key\<rparr>]
          \<and> GetPublicKey sample_signer (DeriveKey funded_wallet (wl_next_index funded_wallet)) = Some key)
     \<and> wl_utxos w' = wl_utxos funded_wallet"
proof -
  obtain tx w' where tx: "CreateTransaction sample_signer funded_wallet sample_payment TALANTON 10 = (Created tx, w')"
    and outs: "map (asset_amount \<circ> out_value) (outputs tx) = [60, 30]"
    using funded_payment by (elim exE conjE) (rule that)
  have "distinct (map wu_outpoint (wl_utxos funded_wallet))" by (simp add: funded_wallet_def)
  then obtain change where c: "outputs tx = sample_payment @ change" "wl_utxos w' = wl_utxos funded_wallet"
    and change: "change = [] \<or> (\<exists>key rest.
      GetPublicKey sample_signer (DeriveKey funded_wallet (wl_next_index funded_wallet)) = Some key
      \<and> change = [\<lparr>out_value = \<lparr>asset_id = TALANTON, asset_amount = rest\<rparr>, pubkey_script = key\<rparr>])"
    using created_transaction_balances [OF tx funded_wallet_facts(1)] funded_wallet_facts(3,4) by auto
  have "map (asset_amount \<circ> out_value) change = [30]" using outs c(1) by (simp add: sample_payment_def)
  then show ?thesis using tx c change by auto
qed

theorem wallet_signs_other_bytes_witness:
  "\<exists>tx w'. CreateTransaction sample_signer funded_wallet sample_payment TALANTON 10 = (Created tx, w')
     \<and> length (SerializeForSigning (clear_scripts tx) 0) < length (SerializeForSigning tx 0)"
proof -
  obtain tx w' where tx: "CreateTransaction sample_signer funded_wallet sample_payment TALANTON 10 = (Created tx, w')"
    and "length (inputs tx) = 1" using funded_payment by (elim exE conjE) (rule that)
  then show ?thesis using wallet_signs_other_bytes [OF tx funded_wallet_facts(1,2), of 0] by auto
qed

text \<open>A block that is processed twice counts twice, since an output is added whether or not it is known.\<close>

lemma processing_twice_counts_twice:
  "Wallet_GetBalance (Wallet_Process (Wallet_Process sample_wallet sample_block 1) sample_block 1) TALANTON = 10000000000"
  by (simp add: Wallet_Process_def sample_block_simps process_tx_def sample_coinbase_def output_points_def Let_def MarkSpent_def
      sample_wallet_def Wallet_init_def IsOurPubkey_def Wallet_AddUTXO_def Wallet_GetBalance_def)

text \<open>A wallet with such a double entry creates transactions that spend one outpoint twice.\<close>

lemma duplicate_entry_spent_twice:
  "\<exists>tx w'. CreateTransaction sample_signer (funded_wallet\<lparr>wl_utxos := wl_utxos funded_wallet @ wl_utxos funded_wallet\<rparr>)
      sample_payment TALANTON 100 = (Created tx, w') \<and> \<not> distinct (map prevout (inputs tx))"
  by (simp add: CreateTransaction_def Let_def SelectCoins_def funded_wallet_def sample_payment_def Wallet_init_def GenerateAddress_def
      GetPublicKey_def ValidatePrivateKey_def sample_signer_def Schnorr_Sign_def set_signature_script_def)

end
