(* ===== verification/Spec2Isabelle.thy ===== *)
theory Spec2Isabelle
  imports Amount Fips180 Samples BlockStorage MempoolSamples NodeSamples Evm_Correct FeeRouter Councils Voting Spv Commitments Dex Payments Network Settlement Gas Monetary LockBridge Miner Wallet
begin

text \<open>
  PantheonChain is a three-layer blockchain in C++. Layer 1, Talanton, is a proof-of-work chain of
  multi-asset unspent outputs with on-chain governance; layer 2, Drachma, holds payments, channels,
  bridges and an exchange; layer 3, Obolos, runs contracts on a 256-bit virtual machine. This
  development models the core logic of the three layers and proves what makes it correct, or
  shows where it is not. Paths below are relative to the repository; every definition has the name of the function or
  type it models wherever that is free in HOL.

  How the parts interact. A \<open>Block\<close> (header, transactions) is checked by \<open>Validation\<close> (structure, proof
  of work, supply, signatures), connected by \<open>Chain\<close> to the \<open>Utxo\<close> set with an undo record, mirrored by
  \<open>ChainState\<close>, stored by \<open>BlockStorage\<close> and \<open>UtxoStorage\<close> and taken out of the \<open>Mempool\<close>; \<open>Node\<close> composes
  these steps, \<open>Messages\<close> and \<open>Network\<close> carry blocks and transactions between nodes. \<open>WorldState\<close> keeps the
  accounts of layer 3 and commits to them with \<open>Mpt\<close>; \<open>Evm\<close> runs bytecode on it, \<open>Gas\<close> prices it.
  The governance theories share the registries of voting power. \<open>Spv\<close>, \<open>Commitments\<close>
  and \<open>Payments\<close> link the layers.

  Conventions. Machine integers are words (\<open>u8\<close> to \<open>u64\<close>, signed ones read with \<open>sint\<close>), so sums wrap
  where the code's do; sizes of containers are \<open>nat\<close>, and where the code narrows them
  the narrowing is written out. Bytes are \<open>8 word list\<close>. Exceptions and early returns are values: \<open>option\<close>,
  \<open>error + 'a\<close>, or the outcome type of \<open>Prelude\<close> (a value, the code's \<open>nullopt\<close>, an exception). An object is a record,
  a method a function that returns the updated record with its result; the changes made before a failure
  are kept, as in the code. A \<open>std::map\<close> that is iterated is an association list in key order (\<open>StdMap\<close>),
  a map that is only looked up is a function to \<open>option\<close>. Loops are structural recursion or \<open>function\<close> with a
  measure: the interpreter's is the code left to run, since no opcode moves the program counter back, the order matching's the
  number of orders. Three loops of \<open>Mempool\<close> are \<open>partial_function (option)\<close>, and the theory shows when they return; no definition takes fuel.

  Parameters. LevelDB (get, put, delete, iterate), the secp256k1 library, the clock, the results of \<open>send\<close> and \<open>recv\<close>, and callbacks are arguments of the definitions
  that use them. Laws assumed of them are premises of the theorems and state only documented
  behaviour (a read after a write returns what was written); each such theorem has a witness with a concrete
  instance. SHA-256 is not assumed: it is modelled bit by bit, proved equal to an independent statement of FIPS 180-4, and
  collision resistance never occurs as a hypothesis: the theorems return an explicit collision as the other case.

  Shared theories. \<open>Prelude\<close>: integer types, errors, little-endian codecs, the locale \<open>byte_codec\<close> of a
  reader that reads back what its writer wrote. \<open>StdMap\<close>: ordered association lists. \<open>AmountMap\<close>: per-asset
  totals. \<open>Sha256_Eval\<close>: an implementation of the compression function fast enough to evaluate hashes in the kernel.
  \<open>Samples\<close>, \<open>MempoolSamples\<close>, \<open>NodeSamples\<close>: two mined sample blocks, their transactions and nodes, on which the
  witnesses of the chain's, the mempool's and the node's properties run.

  Layer 1, primitives and consensus (\<open>layer1-talanton/core\<close>).
  \<open>Amount\<close> (\<open>primitives/amount\<close>, \<open>safe_math.h\<close>): checked addition, subtraction, multiplication agree with the
  integers or report overflow. \<open>Asset\<close> (\<open>primitives/asset\<close>): the three assets and their caps.
  \<open>Sha256\<close> (\<open>crypto/sha256\<close>): the streaming hasher, double and tagged hashes. \<open>Fips180\<close>: the standard, stated apart from the code (the constants
  as roots of primes over the reals), and the proof that the hasher computes it.
  \<open>Transaction\<close>, \<open>Block\<close> (\<open>primitives\<close>): compact sizes, parsers and writers and their round trips, the Merkle root
  and its binding. \<open>Difficulty\<close> (\<open>consensus/difficulty\<close>): compact bits, target comparison, retargeting.
  \<open>Issuance\<close>, \<open>Genesis\<close> (\<open>consensus\<close>): halvings and their sum, the genesis blocks, whose hashes are evaluated.

  Layer 1, state. \<open>Utxo\<close> and \<open>Chain\<close> (\<open>chainstate\<close>): connecting and disconnecting blocks, the accounting invariant, the emission bound,
  and what the wrapping sums let through. \<open>ChainState\<close> (\<open>chainstate/chainstate\<close>): the light state, a simulation of \<open>Chain\<close>.
  \<open>Validation\<close> (\<open>validation\<close>, \<open>crypto/schnorr\<close>): block and transaction checks, signatures.
  \<open>Mempool\<close> (\<open>mempool\<close>): admission, replacement, eviction, and the invariant that its index and its entries agree.
  \<open>BlockStorage\<close>, \<open>UtxoStorage\<close> (\<open>storage\<close>): both stores over the LevelDB parameter.
  \<open>Node\<close> (\<open>node/node.cpp\<close>): start-up with replay, acceptance of blocks and transactions, message handlers.

  Layer 1, network (\<open>core/p2p\<close>). \<open>Messages\<close> (\<open>message\<close>, \<open>protocol\<close>): every payload and the header, in a locale
  \<open>canonical_codec\<close> that extends \<open>byte_codec\<close> by the converse: what is accepted is what would be written.
  \<open>Network\<close> (\<open>network_manager\<close>): framing, dispatch, the send queue, the handshake, the manager with its threads and what it
  tells the node.

  Layer 1, governance (\<open>layer1-talanton/governance\<close>). \<open>Registries\<close> (\<open>antiwhale\<close>, \<open>balance_voting\<close>, \<open>snapshot\<close>, \<open>staking\<close>): sources of
  voting power. \<open>Voting\<close> (\<open>voting\<close>): proposals, ballots, tally, execution, delegation. \<open>Treasury\<close>,
  \<open>Vesting\<close>, \<open>GovParams\<close> (\<open>params\<close>), \<open>FeeRouter\<close> (\<open>fee_router\<close>, \<open>supply_policy\<close>, \<open>eventlog\<close>), \<open>Boule\<close>, \<open>Councils\<close> (\<open>ostracism\<close>,
  \<open>emergency\<close>): each has its invariant, preserved by every operation.
  \<open>Settlement\<close> (\<open>layer1-talanton/settlement\<close>): escrow, multisignature policies, destination tags and memos.

  Layer 2 (\<open>layer2-drachma\<close>) and the links. \<open>Spv\<close> (\<open>bridges/spv\<close>): Merkle proofs. \<open>Commitments\<close> (\<open>common/serialization\<close>,
  \<open>l1_commitment_validator\<close>, \<open>consensus/pos_consensus\<close>): checkpoints between layers and the validator set. \<open>Payments\<close> (\<open>payments\<close>,
  \<open>bridges/channels\<close>, \<open>htlc\<close>, \<open>cross_chain\<close>): transfers, channels, hash locks. \<open>Dex\<close> (\<open>dex\<close>): order book and
  constant-product pools.
  \<open>Monetary\<close> (\<open>common/monetary\<close>): units, denominations and their text.

  Layer 3 (\<open>layer3-obolos/evm\<close>). \<open>Uint256\<close>, \<open>Uint256_Arith\<close> (\<open>vm.cpp\<close>, \<open>VM::Add\<close> to \<open>VM::Shr\<close>): the byte-array arithmetic
  and its equality with arithmetic modulo \<open>2 ^ 256\<close>. \<open>Evm\<close>, \<open>Evm_Correct\<close> (\<open>opcodes\<close>, \<open>vm\<close>): the interpreter and a small
  calculus of triples from which its safety and frame properties follow. \<open>Mpt\<close> (\<open>mpt\<close>): the trie, a refinement of a finite map.
  \<open>WorldState\<close> (\<open>state\<close>): accounts, storage, caches, and the commitment of the root. \<open>Gas\<close> (\<open>gas_pricing.h\<close>, \<open>execution\<close>).

  Around the chain. \<open>Miner\<close> (\<open>core/mining/miner\<close>): the block template and the nonce search, which is exhaustive, and why its blocks are not accepted.
  \<open>Wallet\<close> (\<open>layer1-talanton/wallet\<close>): addresses, tracking of coins, a refinement of the chain's unspent outputs, and the building of
  transactions. \<open>LockBridge\<close> (\<open>bridge\<close>): the two lock-mint bridges between the layers, their books and what their messages prove.

  Bounds. \<open>MAX_ALLOC\<close> of \<open>Transaction\<close>, \<open>2 ^ 62\<close> bytes, is more than any address space holds: a parser or a memory
  asked for it throws, as \<open>std::vector::resize\<close> does. Premises such as "at most 3024 outputs" or
  "at most 50000 items" are what the proofs need: the second is the protocol's limit, the first keeps the wrapping
  sums of \<open>ConnectBlock\<close> below \<open>2 ^ 64\<close>, and \<open>wrapping_coinbase_inflates\<close> shows what happens beyond.

  Not modelled. Of the node: mining threads, wallet synchronisation and status reports. Operating-system and
  library glue: opening of databases, sockets, TLS, peer files and name resolution, the RPC, GraphQL and WebSocket servers, command-line
  programs, desktop and mobile clients, explorers and IDE tools. Code whose content is a stub of cryptography
  the repository does not implement: ring signatures, zk-SNARKs and zk-STARKs, homomorphic and post-quantum
  schemes, hardware acceleration. Layer 2 rollups and the plasma chain, the indexers, sharding, identities, contract verification and the enterprise chain are outside the model for want of time; the
  manifest lists each. Within modelled files: logging, text reports, thread locks (each operation is atomic, as its lock makes it) and caches
  that only hold a recomputed value.
\<close>

end
